(* ===== verification/Prelude.thy ===== *)
theory Prelude
  imports Complex_Main "HOL-Library.AList" "HOL-Library.Word"
begin

text \<open>
  Shared ground of the development: the JavaScript values, errors, strings and containers
  that the services of the repository are written over.

  \<^item> Errors. A thrown \<open>Error\<close> (or one of its built-in subclasses, or the services'
    \<open>PayloadTooLargeError\<close> with its message and limit) is a value of \<open>js_error\<close>, and a computation that may throw has a result in \<open>js_error + 'a\<close>.
    \<open>OpaqueError\<close> carries the code, the message and the further fields of the SDK's typed
    errors; the two whose fields callers resume from have constructors of their own.
  \<^item> Strings are lists of characters. They stand for ASCII strings: \<open>to_lower\<close> is
    \<open>toLowerCase\<close>, \<open>js_trim\<close> is \<open>trim\<close> and \<open>utf8\<close> is
    \<open>TextEncoder.encode\<close> on that range.
  \<^item> \<open>unknown\<close> values read from JSON are the datatype \<open>jv\<close>. A JavaScript number is
    an exact rational, so the rounding of doubles is not modelled; \<open>bigint\<close> is \<open>int\<close>.
  \<^item> A \<open>Map\<close> keeps insertion order: it is an association list with distinct keys, written
    with \<open>AList.update\<close> and \<open>AList.delete\<close> and read with \<open>map_of\<close>. A \<open>Set\<close>
    is a distinct list.
  \<^item> A \<open>Uint8Array\<close> is a list of 8-bit words.
\<close>

named_theorems js_defs \<open>definitions of the small JavaScript operations\<close>
named_theorems res_simps \<open>equations of the result type\<close>


section \<open>Errors and results\<close>

datatype js_error =
    Error string
  | TypeError string
  | RangeError string
  | SyntaxError string
  | ReferenceError string
  | PayloadTooLargeError string nat
  | OpaqueError string string "(string \<times> string) list"
  | EventTruncationError string string nat nat int string
  | UnannouncedPaymentError string string string string "8 word list" "8 word list" int
  | DOMException string string
  | SchemaParseError string
  | AttestationDataError string

type_synonym 'a res = "js_error + 'a"

text \<open>\<open>err instanceof Error ? err.message : String(err)\<close>\<close>

fun err_message :: "js_error \<Rightarrow> string" where
  "err_message (Error m) = m"
| "err_message (TypeError m) = m"
| "err_message (RangeError m) = m"
| "err_message (SyntaxError m) = m"
| "err_message (ReferenceError m) = m"
| "err_message (PayloadTooLargeError m limitBytes) = m"
| "err_message (OpaqueError code m fields) = m"
| "err_message (EventTruncationError m _ _ _ _ _) = m"
| "err_message (UnannouncedPaymentError m _ _ _ _ _ _) = m"
| "err_message (DOMException name m) = m"
| "err_message (SchemaParseError m) = m"
| "err_message (AttestationDataError m) = m"

definition res_bind :: "'a res \<Rightarrow> ('a \<Rightarrow> 'b res) \<Rightarrow> 'b res" where
  "res_bind r f = (case r of Inl e \<Rightarrow> Inl e | Inr x \<Rightarrow> f x)"

lemma res_bind_Inl [simp, res_simps]: "res_bind (Inl e) f = Inl e"
  by (simp add: res_bind_def)

lemma res_bind_Inr [simp, res_simps]: "res_bind (Inr x) f = f x"
  by (simp add: res_bind_def)

lemma res_bind_eq_Inr [res_simps]:
  "res_bind r f = Inr y \<longleftrightarrow> (\<exists>x. r = Inr x \<and> f x = Inr y)"
  by (cases r) auto

lemma res_bind_eq_Inl [res_simps]:
  "res_bind r f = Inl e \<longleftrightarrow> r = Inl e \<or> (\<exists>x. r = Inr x \<and> f x = Inl e)"
  by (cases r) auto

lemma res_bind_assoc: "res_bind (res_bind r f) g = res_bind r (\<lambda>x. res_bind (f x) g)"
  by (cases r) auto

text \<open>Mapping a throwing function over an array stops at the first throw.\<close>

fun res_map :: "('a \<Rightarrow> 'b res) \<Rightarrow> 'a list \<Rightarrow> 'b list res" where
  "res_map f [] = Inr []"
| "res_map f (x # xs) = res_bind (f x) (\<lambda>y. res_bind (res_map f xs) (\<lambda>ys. Inr (y # ys)))"

lemma res_map_Inr_iff:
  "res_map f xs = Inr ys \<longleftrightarrow> list_all2 (\<lambda>x y. f x = Inr y) xs ys"
  by (induction xs arbitrary: ys) (auto simp: res_bind_eq_Inr list_all2_Cons1)

lemma res_map_length: "res_map f xs = Inr ys \<Longrightarrow> length ys = length xs"
  by (simp add: res_map_Inr_iff list_all2_lengthD)


section \<open>Characters and strings\<close>

definition lower_char :: "char \<Rightarrow> char" where
  "lower_char c =
     (if 65 \<le> (of_char c :: nat) \<and> (of_char c :: nat) \<le> 90 then char_of ((of_char c :: nat) + 32) else c)"

definition to_lower :: "string \<Rightarrow> string" where
  "to_lower s = map lower_char s"

lemma of_char_lower_char:
  "(of_char (lower_char c) :: nat) =
     (if 65 \<le> (of_char c :: nat) \<and> (of_char c :: nat) \<le> 90 then of_char c + 32 else of_char c)"
  by (simp add: lower_char_def)

lemma lower_char_idem [simp]: "lower_char (lower_char c) = lower_char c"
proof -
  have "\<not> (65 \<le> (of_char (lower_char c) :: nat) \<and> (of_char (lower_char c) :: nat) \<le> 90)"
    by (auto simp: of_char_lower_char)
  then show ?thesis
    unfolding lower_char_def [of "lower_char c"] by (rule if_not_P)
qed

lemma to_lower_idem [simp]: "to_lower (to_lower s) = to_lower s"
  by (simp add: to_lower_def)

lemma to_lower_append [simp]: "to_lower (s @ t) = to_lower s @ to_lower t"
  by (simp add: to_lower_def)

lemma to_lower_Nil [simp]: "to_lower [] = []"
  by (simp add: to_lower_def)

lemma to_lower_Cons [simp]: "to_lower (c # s) = lower_char c # to_lower s"
  by (simp add: to_lower_def)

lemma length_to_lower [simp]: "length (to_lower s) = length s"
  by (simp add: to_lower_def)

definition is_ws :: "char \<Rightarrow> bool" where
  "is_ws c \<longleftrightarrow> (of_char c :: nat) \<in> {9, 10, 11, 12, 13, 32}"

definition js_trim :: "string \<Rightarrow> string" where
  "js_trim s = rev (dropWhile is_ws (rev (dropWhile is_ws s)))"

lemma js_trim_id:
  assumes "s = [] \<or> (\<not> is_ws (hd s) \<and> \<not> is_ws (last s))"
  shows "js_trim s = s"
proof (cases s)
  case Nil
  then show ?thesis by (simp add: js_trim_def)
next
  case (Cons c cs)
  with assms have hd: "\<not> is_ws c" and lst: "\<not> is_ws (last s)" by auto
  have "dropWhile is_ws s = s" using Cons hd by simp
  moreover have "dropWhile is_ws (rev s) = rev s"
  proof (cases "rev s")
    case (Cons d ds)
    then have "last s = d" by (metis hd_rev list.sel(1))
    with lst Cons show ?thesis by simp
  qed simp
  ultimately show ?thesis by (simp add: js_trim_def)
qed

text \<open>\<open>parts.join(sep)\<close>\<close>

fun join_with :: "string \<Rightarrow> string list \<Rightarrow> string" where
  "join_with sep [] = []"
| "join_with sep [s] = s"
| "join_with sep (s # t # r) = s @ sep @ join_with sep (t # r)"

text \<open>\<open>value.replace(/^0x/, "")\<close>\<close>

fun strip_0x :: "string \<Rightarrow> string" where
  "strip_0x (a # b # s) = (if a = CHR ''0'' \<and> b = CHR ''x'' then s else a # b # s)"
| "strip_0x s = s"

lemma strip_0x_prefix [simp]: "strip_0x (''0x'' @ s) = s"
  by simp

fun starts_with :: "string \<Rightarrow> string \<Rightarrow> bool" where
  "starts_with [] s = True"
| "starts_with (p # ps) [] = False"
| "starts_with (p # ps) (c # s) = (p = c \<and> starts_with ps s)"

lemma starts_with_iff: "starts_with p s \<longleftrightarrow> (\<exists>t. s = p @ t)"
  by (induction p s rule: starts_with.induct) auto


section \<open>Decimal and hexadecimal numerals\<close>

definition is_digit :: "char \<Rightarrow> bool" where
  "is_digit c \<longleftrightarrow> 48 \<le> (of_char c :: nat) \<and> (of_char c :: nat) \<le> 57"

definition digit_val :: "char \<Rightarrow> nat" where
  "digit_val c = of_char c - 48"

definition digit_char :: "nat \<Rightarrow> char" where
  "digit_char n = char_of (48 + n)"

lemma digit_char_simps [simp]:
  "n < 10 \<Longrightarrow> is_digit (digit_char n)" "n < 10 \<Longrightarrow> digit_val (digit_char n) = n"
  by (simp_all add: is_digit_def digit_val_def digit_char_def)

lemma is_digit_not_ws: "is_digit c \<Longrightarrow> \<not> is_ws c"
  by (auto simp: is_digit_def is_ws_def)

text \<open>\<open>BigInt.prototype.toString()\<close> and its inverse on digit strings.\<close>

fun dec_of_nat :: "nat \<Rightarrow> string" where
  "dec_of_nat n = (if n < 10 then [digit_char n] else dec_of_nat (n div 10) @ [digit_char (n mod 10)])"

declare dec_of_nat.simps [simp del]

definition dec_of_int :: "int \<Rightarrow> string" where
  "dec_of_int i = (if i < 0 then CHR ''-'' # dec_of_nat (nat (- i)) else dec_of_nat (nat i))"

definition nat_of_digits :: "nat \<Rightarrow> nat list \<Rightarrow> nat" where
  "nat_of_digits b ds = foldl (\<lambda>a d. b * a + d) 0 ds"

definition nat_of_dec :: "string \<Rightarrow> nat" where
  "nat_of_dec s = nat_of_digits 10 (map digit_val s)"

lemma nat_of_digits_snoc: "nat_of_digits b (ds @ [d]) = b * nat_of_digits b ds + d"
  by (simp add: nat_of_digits_def)

lemma nat_of_digits_Nil [simp]: "nat_of_digits b [] = 0"
  by (simp add: nat_of_digits_def)

lemma dec_of_nat_digits: "list_all is_digit (dec_of_nat n)"
proof (induction n rule: dec_of_nat.induct)
  case (1 n)
  then show ?case by (subst dec_of_nat.simps) auto
qed

lemma dec_of_nat_nonempty [simp]: "dec_of_nat n \<noteq> []"
  by (subst dec_of_nat.simps) simp

lemma nat_of_dec_of_nat [simp]: "nat_of_dec (dec_of_nat n) = n"
proof (induction n rule: dec_of_nat.induct)
  case (1 n)
  show ?case
  proof (cases "n < 10")
    case True
    then show ?thesis
      by (subst dec_of_nat.simps) (simp add: nat_of_dec_def nat_of_digits_def)
  next
    case False
    with 1 have "nat_of_dec (dec_of_nat (n div 10)) = n div 10" by simp
    with False show ?thesis
      by (subst dec_of_nat.simps) (simp add: nat_of_dec_def nat_of_digits_snoc)
  qed
qed

lemma dec_of_nat_inj: "dec_of_nat m = dec_of_nat n \<Longrightarrow> m = n"
  by (metis nat_of_dec_of_nat)

lemma hd_dec_of_nat: "is_digit (hd (dec_of_nat n))"
  using dec_of_nat_digits [of n] by (cases "dec_of_nat n") auto

lemma last_dec_of_nat: "is_digit (last (dec_of_nat n))"
  using dec_of_nat_digits [of n] last_in_set [of "dec_of_nat n"] by (auto simp: list_all_iff)

definition is_hex :: "char \<Rightarrow> bool" where
  "is_hex c \<longleftrightarrow> is_digit c \<or>
     (97 \<le> (of_char c :: nat) \<and> (of_char c :: nat) \<le> 102) \<or>
     (65 \<le> (of_char c :: nat) \<and> (of_char c :: nat) \<le> 70)"

definition hex_val :: "char \<Rightarrow> nat" where
  "hex_val c =
     (if is_digit c then digit_val c
      else if 97 \<le> (of_char c :: nat) then of_char c - 87 else of_char c - 55)"

definition hex_char :: "nat \<Rightarrow> char" where
  "hex_char n = (if n < 10 then digit_char n else char_of (87 + n))"

lemma hex_char_simps [simp]:
  "n < 16 \<Longrightarrow> is_hex (hex_char n)" "n < 16 \<Longrightarrow> hex_val (hex_char n) = n"
  by (auto simp: is_hex_def hex_val_def hex_char_def is_digit_def digit_val_def digit_char_def)

lemma hex_val_bound: "is_hex c \<Longrightarrow> hex_val c < 16"
  by (auto simp: is_hex_def hex_val_def is_digit_def digit_val_def)

lemma hex_char_hex_val: "is_hex c \<Longrightarrow> hex_char (hex_val c) = lower_char c"
proof -
  assume "is_hex c"
  then consider "is_digit c"
    | "97 \<le> (of_char c :: nat)" "(of_char c :: nat) \<le> 102"
    | "65 \<le> (of_char c :: nat)" "(of_char c :: nat) \<le> 70"
    by (auto simp: is_hex_def)
  then show ?thesis
  proof cases
    case 1
    then show ?thesis
      by (auto simp: hex_char_def hex_val_def digit_char_def digit_val_def is_digit_def lower_char_def)
  next
    case 2
    then show ?thesis
      by (auto simp: hex_char_def hex_val_def is_digit_def lower_char_def)
  next
    case 3
    then show ?thesis
      by (auto simp: hex_char_def hex_val_def is_digit_def lower_char_def algebra_simps)
  qed
qed

lemma lower_char_hex_char [simp]: "n < 16 \<Longrightarrow> lower_char (hex_char n) = hex_char n"
  by (metis hex_char_hex_val hex_char_simps)

definition nat_of_hex :: "string \<Rightarrow> nat" where
  "nat_of_hex s = nat_of_digits 16 (map hex_val s)"


section \<open>Conversions of the standard library\<close>

text \<open>
  \<open>BigInt(string)\<close>: surrounding white space is dropped, the empty string is zero, a signed
  decimal or an unsigned \<open>0x\<close> literal is read, anything else throws \<open>SyntaxError\<close>.
  (The binary and octal prefixes are read the same way and are included.)
\<close>

definition prefixed_digits :: "char list \<Rightarrow> (char \<Rightarrow> bool) \<Rightarrow> string \<Rightarrow> string option" where
  "prefixed_digits ps ok s =
     (case s of a # b # r \<Rightarrow>
        if a = CHR ''0'' \<and> b \<in> set ps \<and> r \<noteq> [] \<and> list_all ok r then Some r else None
      | _ \<Rightarrow> None)"

definition is_bin :: "char \<Rightarrow> bool" where "is_bin c \<longleftrightarrow> c = CHR ''0'' \<or> c = CHR ''1''"

definition is_oct :: "char \<Rightarrow> bool" where "is_oct c \<longleftrightarrow> is_digit c \<and> digit_val c < 8"

definition js_BigInt_str :: "string \<Rightarrow> int res" where
  "js_BigInt_str s0 =
     (let s = js_trim s0 in
      if s = [] then Inr 0
      else case prefixed_digits ''xX'' is_hex s of
        Some r \<Rightarrow> Inr (int (nat_of_hex r))
      | None \<Rightarrow> (case prefixed_digits ''oO'' is_oct s of
        Some r \<Rightarrow> Inr (int (nat_of_digits 8 (map digit_val r)))
      | None \<Rightarrow> (case prefixed_digits ''bB'' is_bin s of
        Some r \<Rightarrow> Inr (int (nat_of_digits 2 (map digit_val r)))
      | None \<Rightarrow>
         if list_all is_digit s then Inr (int (nat_of_dec s))
         else if hd s = CHR ''-'' \<and> tl s \<noteq> [] \<and> list_all is_digit (tl s) then Inr (- int (nat_of_dec (tl s)))
         else if hd s = CHR ''+'' \<and> tl s \<noteq> [] \<and> list_all is_digit (tl s) then Inr (int (nat_of_dec (tl s)))
         else Inl (SyntaxError (''Cannot convert '' @ s0 @ '' to a BigInt'')))))"

lemma prefixed_digits_digits:
  assumes "list_all is_digit (drop 1 s)" and "\<not> (\<exists>c \<in> set ps. is_digit c)"
  shows "prefixed_digits ps ok s = None"
proof (cases s)
  case (Cons a r)
  then show ?thesis
    using assms by (cases r) (auto simp: prefixed_digits_def)
qed (simp add: prefixed_digits_def)

lemma no_prefix_digits:
  "\<not> (\<exists>c \<in> set ''xX''. is_digit c)" "\<not> (\<exists>c \<in> set ''oO''. is_digit c)" "\<not> (\<exists>c \<in> set ''bB''. is_digit c)"
  by (auto simp: is_digit_def)

lemma minus_not_ws: "\<not> is_ws CHR ''-''"
  by (simp add: is_ws_def)

lemma js_BigInt_str_dec_of_int [simp]: "js_BigInt_str (dec_of_int i) = Inr i"
proof (cases "i < 0")
  case True
  define ds where "ds = dec_of_nat (nat (- i))"
  have str: "dec_of_int i = CHR ''-'' # ds" using True by (simp add: dec_of_int_def ds_def)
  have ds: "ds \<noteq> []" "list_all is_digit ds" by (simp_all add: ds_def dec_of_nat_digits)
  have "js_trim (CHR ''-'' # ds) = CHR ''-'' # ds"
    by (rule js_trim_id) (use ds last_dec_of_nat minus_not_ws in \<open>auto simp: ds_def is_digit_not_ws\<close>)
  moreover have "prefixed_digits ps ok (CHR ''-'' # ds) = None" for ps ok
    by (auto simp: prefixed_digits_def split: list.splits)
  moreover have "\<not> is_digit CHR ''-''" by (simp add: is_digit_def)
  ultimately show ?thesis
    using True ds by (simp add: js_BigInt_str_def str Let_def) (simp add: ds_def)
next
  case False
  define ds where "ds = dec_of_nat (nat i)"
  have str: "dec_of_int i = ds" using False by (simp add: dec_of_int_def ds_def)
  have ds: "ds \<noteq> []" "list_all is_digit ds" by (simp_all add: ds_def dec_of_nat_digits)
  have "js_trim ds = ds"
    by (rule js_trim_id) (use last_dec_of_nat hd_dec_of_nat in \<open>auto simp: ds_def is_digit_not_ws\<close>)
  moreover have "list_all is_digit (drop 1 ds)"
    using ds(2) by (cases ds) auto
  ultimately show ?thesis
    using False ds no_prefix_digits
    by (simp add: js_BigInt_str_def str Let_def prefixed_digits_digits) (simp add: ds_def)
qed

lemma dec_of_int_inj: "dec_of_int i = dec_of_int j \<longleftrightarrow> i = j"
  by (metis js_BigInt_str_dec_of_int sum.inject(2))

text \<open>
  \<open>Number(string)\<close>: \<open>None\<close> stands for the non-finite results (\<open>NaN\<close> and the
  infinities), which every caller below treats alike through \<open>Number.isFinite\<close> or
  \<open>ToUint32\<close>.
\<close>

definition signed_digits :: "string \<Rightarrow> (bool \<times> nat) option" where
  "signed_digits s =
     (case s of [] \<Rightarrow> None
      | c # r \<Rightarrow>
        if c = CHR ''-'' then (if r \<noteq> [] \<and> list_all is_digit r then Some (True, nat_of_dec r) else None)
        else if c = CHR ''+'' then (if r \<noteq> [] \<and> list_all is_digit r then Some (False, nat_of_dec r) else None)
        else (if list_all is_digit s then Some (False, nat_of_dec s) else None))"

definition unsigned_decimal :: "string \<Rightarrow> rat option" where
  "unsigned_decimal s =
     (let ip = takeWhile is_digit s;
          r1 = dropWhile is_digit s;
          dot = (r1 \<noteq> [] \<and> hd r1 = CHR ''.'');
          fp = (if dot then takeWhile is_digit (tl r1) else []);
          r2 = (if dot then dropWhile is_digit (tl r1) else r1);
          m = rat_of_nat (nat_of_dec (ip @ fp)) / 10 ^ length fp
      in if ip = [] \<and> fp = [] then None
         else case r2 of [] \<Rightarrow> Some m
           | c # r \<Rightarrow>
             if c = CHR ''e'' \<or> c = CHR ''E'' then
               (case signed_digits r of None \<Rightarrow> None
                | Some (neg, k) \<Rightarrow> Some (if neg then m / 10 ^ k else m * 10 ^ k))
             else None)"

definition js_Number_str :: "string \<Rightarrow> rat option" where
  "js_Number_str s0 =
     (let s = js_trim s0 in
      if s = [] then Some 0
      else case prefixed_digits ''xX'' is_hex s of
        Some r \<Rightarrow> Some (rat_of_nat (nat_of_hex r))
      | None \<Rightarrow> (case prefixed_digits ''oO'' is_oct s of
        Some r \<Rightarrow> Some (rat_of_nat (nat_of_digits 8 (map digit_val r)))
      | None \<Rightarrow> (case prefixed_digits ''bB'' is_bin s of
        Some r \<Rightarrow> Some (rat_of_nat (nat_of_digits 2 (map digit_val r)))
      | None \<Rightarrow>
         if hd s = CHR ''-'' then map_option uminus (unsigned_decimal (tl s))
         else if hd s = CHR ''+'' then unsigned_decimal (tl s)
         else unsigned_decimal s)))"

definition is_integer :: "rat \<Rightarrow> bool" where
  "is_integer r \<longleftrightarrow> of_int \<lfloor>r\<rfloor> = r"

lemma is_integer_of_int [simp]: "is_integer (of_int i)"
  by (simp add: is_integer_def)

lemma is_integer_numeral [simp]: "is_integer (numeral k)" "is_integer 0" "is_integer 1"
  by (simp_all add: is_integer_def)

text \<open>\<open>BigInt(number)\<close> throws \<open>RangeError\<close> on a number that is not an integer.\<close>

definition js_BigInt_num :: "rat \<Rightarrow> int res" where
  "js_BigInt_num r =
     (if is_integer r then Inr \<lfloor>r\<rfloor>
      else Inl (RangeError ''The number cannot be converted to a BigInt because it is not an integer''))"


section \<open>JSON values\<close>

datatype jv =
    JUndef
  | JNull
  | JBool bool
  | JNum rat
  | JStr string
  | JArr "jv list"
  | JObj "(string \<times> jv) list"

text \<open>
  \<open>value?.key\<close>: reading a property of anything but an object, or an absent property,
  gives \<open>undefined\<close>. (The property names the services read are not properties of
  strings, numbers or arrays.)
\<close>

definition jv_get :: "jv \<Rightarrow> string \<Rightarrow> jv" where
  "jv_get v k = (case v of JObj m \<Rightarrow> (case map_of m k of Some x \<Rightarrow> x | None \<Rightarrow> JUndef) | _ \<Rightarrow> JUndef)"

text \<open>\<open>"key" in obj\<close>\<close>

definition jv_has :: "jv \<Rightarrow> string \<Rightarrow> bool" where
  "jv_has v k = (case v of JObj m \<Rightarrow> map_of m k \<noteq> None | _ \<Rightarrow> False)"

definition is_string :: "jv \<Rightarrow> bool" where
  "is_string v = (case v of JStr _ \<Rightarrow> True | _ \<Rightarrow> False)"

definition is_number :: "jv \<Rightarrow> bool" where
  "is_number v = (case v of JNum _ \<Rightarrow> True | _ \<Rightarrow> False)"

definition the_string :: "jv \<Rightarrow> string" where
  "the_string v = (case v of JStr s \<Rightarrow> s | _ \<Rightarrow> [])"

definition the_number :: "jv \<Rightarrow> rat" where
  "the_number v = (case v of JNum r \<Rightarrow> r | _ \<Rightarrow> 0)"

text \<open>\<open>value ?? default\<close>\<close>

definition nullish :: "jv \<Rightarrow> jv \<Rightarrow> jv" where
  "nullish v d = (case v of JUndef \<Rightarrow> d | JNull \<Rightarrow> d | _ \<Rightarrow> v)"

lemma is_string_iff: "is_string v \<longleftrightarrow> v = JStr (the_string v)"
  by (cases v) (auto simp: is_string_def the_string_def)

lemma is_number_iff: "is_number v \<longleftrightarrow> v = JNum (the_number v)"
  by (cases v) (auto simp: is_number_def the_number_def)

lemmas jv_simps [simp] =
  is_string_def [of "JStr s" for s, simplified] is_string_def [of "JUndef", simplified]
  is_string_def [of "JNum n" for n, simplified]
  is_number_def [of "JNum n" for n, simplified] is_number_def [of "JUndef", simplified]
  the_string_def [of "JStr s" for s, simplified] the_number_def [of "JNum n" for n, simplified]
  jv_get_def [of "JObj m" for m, simplified]


text \<open>
  \<open>BigInt(value)\<close> and \<open>Number(value)\<close> on any JSON value. An array is first turned into
  the comma-separated string of its elements, which can only be a number when there is at
  most one element; an object never is. An integer of absolute value \<open>10 ^ 21\<close> or more
  prints in exponent form, which \<open>BigInt\<close> rejects.
\<close>

definition bigint_syntax_error :: js_error where
  "bigint_syntax_error = SyntaxError ''Cannot convert value to a BigInt''"

fun js_BigInt_arr :: "jv list \<Rightarrow> int res" where
  "js_BigInt_arr [] = Inr 0"
| "js_BigInt_arr [JUndef] = Inr 0"
| "js_BigInt_arr [JNull] = Inr 0"
| "js_BigInt_arr [JStr s] = js_BigInt_str s"
| "js_BigInt_arr [JNum r] =
     (if is_integer r \<and> \<bar>r\<bar> < 10 ^ 21 then Inr \<lfloor>r\<rfloor> else Inl bigint_syntax_error)"
| "js_BigInt_arr [JArr xs] = js_BigInt_arr xs"
| "js_BigInt_arr _ = Inl bigint_syntax_error"

definition js_BigInt :: "jv \<Rightarrow> int res" where
  "js_BigInt v =
     (case v of JUndef \<Rightarrow> Inl (TypeError ''Cannot convert undefined to a BigInt'')
      | JNull \<Rightarrow> Inl (TypeError ''Cannot convert null to a BigInt'')
      | JBool b \<Rightarrow> Inr (if b then 1 else 0)
      | JNum r \<Rightarrow> js_BigInt_num r
      | JStr s \<Rightarrow> js_BigInt_str s
      | JArr xs \<Rightarrow> js_BigInt_arr xs
      | JObj _ \<Rightarrow> Inl bigint_syntax_error)"

lemma js_BigInt_simps [simp]:
  "js_BigInt (JStr s) = js_BigInt_str s" "js_BigInt (JNum r) = js_BigInt_num r"
  by (simp_all add: js_BigInt_def)

fun js_Number_arr :: "jv list \<Rightarrow> rat option" where
  "js_Number_arr [] = Some 0"
| "js_Number_arr [JUndef] = Some 0"
| "js_Number_arr [JNull] = Some 0"
| "js_Number_arr [JStr s] = js_Number_str s"
| "js_Number_arr [JNum r] = Some r"
| "js_Number_arr [JArr xs] = js_Number_arr xs"
| "js_Number_arr _ = None"

definition js_Number :: "jv \<Rightarrow> rat option" where
  "js_Number v =
     (case v of JUndef \<Rightarrow> None
      | JNull \<Rightarrow> Some 0
      | JBool b \<Rightarrow> Some (if b then 1 else 0)
      | JNum r \<Rightarrow> Some r
      | JStr s \<Rightarrow> js_Number_str s
      | JArr xs \<Rightarrow> js_Number_arr xs
      | JObj _ \<Rightarrow> None)"

text \<open>\<open>value >>> 0\<close>: truncation towards zero, then reduction modulo \<open>2 ^ 32\<close>.\<close>

definition js_ToUint32 :: "jv \<Rightarrow> nat" where
  "js_ToUint32 v =
     (case js_Number v of None \<Rightarrow> 0
      | Some r \<Rightarrow> nat ((if 0 \<le> r then \<lfloor>r\<rfloor> else \<lceil>r\<rceil>) mod 2 ^ 32))"

lemma js_ToUint32_bound: "js_ToUint32 v < 2 ^ 32"
  by (auto simp: js_ToUint32_def split: option.splits)

lemma js_ToUint32_of_nat: "n < 2 ^ 32 \<Longrightarrow> js_ToUint32 (JNum (rat_of_nat n)) = n"
  by (simp add: js_ToUint32_def js_Number_def)


text \<open>
  \<open>String(value)\<close>, which text interfaces apply to what they are given. A number that is
  not an integer prints its decimals, up to twenty of them.
\<close>

fun frac_digits :: "nat \<Rightarrow> rat \<Rightarrow> string" where
  "frac_digits 0 r = []"
| "frac_digits (Suc n) r =
     (if r = 0 then [] else digit_char (nat \<lfloor>10 * r\<rfloor>) # frac_digits n (10 * r - of_int \<lfloor>10 * r\<rfloor>))"

definition js_num_String :: "rat \<Rightarrow> string" where
  "js_num_String r =
     (if is_integer r then dec_of_int \<lfloor>r\<rfloor>
      else (if r < 0 then ''-'' else []) @ dec_of_int \<lfloor>\<bar>r\<bar>\<rfloor> @ ''.'' @ frac_digits 20 (\<bar>r\<bar> - of_int \<lfloor>\<bar>r\<bar>\<rfloor>))"

fun js_String :: "jv \<Rightarrow> string" and js_join :: "bool \<Rightarrow> jv list \<Rightarrow> string" where
  "js_String JUndef = ''undefined''"
| "js_String JNull = ''null''"
| "js_String (JBool b) = (if b then ''true'' else ''false'')"
| "js_String (JNum r) = js_num_String r"
| "js_String (JStr s) = s"
| "js_String (JArr xs) = js_join True xs"
| "js_String (JObj m) = ''[object Object]''"
| "js_join first [] = []"
| "js_join first (x # xs) =
     (if first then [] else '','') @ (if x = JUndef \<or> x = JNull then [] else js_String x) @ js_join False xs"


section \<open>Maps and sets in insertion order\<close>

text \<open>
  The interface every component keeps its dictionaries behind: reading after writing,
  reading after deleting, and that both keep the keys distinct. The lemmas proved once
  from these laws serve every \<open>Map\<close> of the services.
\<close>

locale ordered_map =
  fixes get :: "'m \<Rightarrow> 'k \<Rightarrow> 'v option"
    and put :: "'k \<Rightarrow> 'v \<Rightarrow> 'm \<Rightarrow> 'm"
    and del :: "'k \<Rightarrow> 'm \<Rightarrow> 'm"
    and ok :: "'m \<Rightarrow> bool"
  assumes get_put: "get (put k v m) k' = (if k' = k then Some v else get m k')"
    and get_del: "get (del k m) k' = (if k' = k then None else get m k')"
    and ok_put: "ok m \<Longrightarrow> ok (put k v m)"
    and ok_del: "ok m \<Longrightarrow> ok (del k m)"
begin

lemma get_put_same [simp]: "get (put k v m) k = Some v"
  by (simp add: get_put)

lemma get_del_same [simp]: "get (del k m) k = None"
  by (simp add: get_del)

lemma get_put_put: "get (put k w (put k v m)) = get (put k w m)"
  by (rule ext) (simp add: get_put)

lemma get_del_put: "get (del k (put k v m)) = get (del k m)"
  by (rule ext) (simp add: get_put get_del)

lemma get_foldl_del:
  "get (foldl (\<lambda>m k. del k m) m ks) k' = (if k' \<in> set ks then None else get m k')"
  by (induction ks arbitrary: m) (auto simp: get_del)

lemma ok_foldl_del: "ok m \<Longrightarrow> ok (foldl (\<lambda>m k. del k m) m ks)"
  by (induction ks arbitrary: m) (auto intro: ok_del)

lemma get_foldl_put_notin:
  "k \<notin> fst ` set es \<Longrightarrow> get (foldl (\<lambda>m (k, v). put k v m) m es) k = get m k"
  by (induction es arbitrary: m) (auto simp: get_put)

lemma ok_foldl_put: "ok m \<Longrightarrow> ok (foldl (\<lambda>m (k, v). put k v m) m es)"
  by (induction es arbitrary: m) (auto intro: ok_put)

end

abbreviation distinct_keys :: "('k \<times> 'v) list \<Rightarrow> bool" where
  "distinct_keys m \<equiv> distinct (map fst m)"

interpretation jm: ordered_map map_of AList.update AList.delete distinct_keys
proof
  show "map_of (AList.update k v m) k' = (if k' = k then Some v else map_of m k')" for k k' :: 'a and v :: 'b and m
    by (simp add: update_conv)
  show "map_of (AList.delete k m) k' = (if k' = k then None else map_of m k')" for k k' :: 'a and m :: "('a \<times> 'b) list"
    by (simp add: delete_conv)
  show "distinct_keys m \<Longrightarrow> distinct_keys (AList.update k v m)" for k :: 'a and v :: 'b and m
    by (rule distinct_update)
  show "distinct_keys m \<Longrightarrow> distinct_keys (AList.delete k m)" for k :: 'a and m :: "('a \<times> 'b) list"
    by (rule distinct_delete)
qed

lemmas jm_laws [simp] = jm.get_put jm.get_del

text \<open>\<open>set.add(x)\<close>\<close>

definition set_add :: "'a \<Rightarrow> 'a list \<Rightarrow> 'a list" where
  "set_add x xs = (if x \<in> set xs then xs else xs @ [x])"

lemma set_set_add [simp]: "set (set_add x xs) = insert x (set xs)"
  by (auto simp: set_add_def)

lemma distinct_set_add [simp]: "distinct (set_add x xs) = distinct xs"
  by (auto simp: set_add_def)

text \<open>
  Dropping stale list elements from a map of lists, in the loop form both caches of the
  relayer use: an entry left empty is deleted, an entry that shrank is stored again.
\<close>

definition prune_step :: "('v \<Rightarrow> bool) \<Rightarrow> ('k \<times> 'v list) list \<Rightarrow> 'k \<times> 'v list \<Rightarrow> ('k \<times> 'v list) list" where
  "prune_step keep acc e =
     (case e of (k, l) \<Rightarrow>
        let fresh = filter keep l
        in if length fresh = 0 then AList.delete k acc
           else if length fresh \<noteq> length l then AList.update k fresh acc
           else acc)"

definition prune_lists :: "('v \<Rightarrow> bool) \<Rightarrow> ('k \<times> 'v list) list \<Rightarrow> ('k \<times> 'v list) list" where
  "prune_lists keep m = foldl (prune_step keep) m m"

text \<open>The same for a map of single values.\<close>

definition prune_entries :: "('v \<Rightarrow> bool) \<Rightarrow> ('k \<times> 'v) list \<Rightarrow> ('k \<times> 'v) list" where
  "prune_entries keep m = foldl (\<lambda>acc (k, v). if keep v then acc else AList.delete k acc) m m"

lemma filter_length_id: "length (filter P xs) = length xs \<Longrightarrow> filter P xs = xs"
  by (metis filter_True length_filter_less less_irrefl)

lemma map_of_foldl_prune_step:
  assumes "distinct_keys es"
  shows "map_of (foldl (prune_step keep) acc es) k =
    (case map_of es k of None \<Rightarrow> map_of acc k
     | Some l \<Rightarrow> if filter keep l = [] then None
                 else if length (filter keep l) \<noteq> length l then Some (filter keep l) else map_of acc k)"
  using assms
proof (induction es arbitrary: acc)
  case (Cons e es)
  obtain a l where e: "e = (a, l)" by (cases e)
  with Cons.prems have a: "map_of es a = None" and d: "distinct_keys es"
    by (auto simp: map_of_eq_None_iff)
  show ?case
    using Cons.IH [OF d, of "prune_step keep acc e"] a
    by (cases "k = a") (auto simp: e prune_step_def Let_def split: option.splits)
qed simp

lemma map_of_prune_lists:
  assumes "distinct_keys m"
  shows "map_of (prune_lists keep m) k =
    (case map_of m k of None \<Rightarrow> None
     | Some l \<Rightarrow> if filter keep l = [] then None else Some (filter keep l))"
  unfolding prune_lists_def map_of_foldl_prune_step [OF assms]
  by (auto split: option.splits dest: filter_length_id)

lemma distinct_prune_lists:
  assumes "distinct_keys m"
  shows "distinct_keys (prune_lists keep m)"
proof -
  have "distinct_keys acc \<Longrightarrow> distinct_keys (foldl (prune_step keep) acc es)" for acc es
    by (induction es arbitrary: acc)
       (auto simp: prune_step_def Let_def split: prod.splits intro: distinct_update distinct_delete)
  then show ?thesis using assms by (simp add: prune_lists_def)
qed

lemma map_of_prune_entries:
  assumes "distinct_keys m"
  shows "map_of (prune_entries keep m) k =
    (case map_of m k of None \<Rightarrow> None | Some v \<Rightarrow> if keep v then Some v else None)"
proof -
  have "map_of (foldl (\<lambda>acc (k, v). if keep v then acc else AList.delete k acc) acc es) k =
    (case map_of es k of None \<Rightarrow> map_of acc k | Some v \<Rightarrow> if keep v then map_of acc k else None)"
    if "distinct_keys es" for acc es
    using that
  proof (induction es arbitrary: acc)
    case (Cons e es)
    obtain a v where e: "e = (a, v)" by (cases e)
    with Cons.prems have a: "map_of es a = None" and d: "distinct_keys es"
      by (auto simp: map_of_eq_None_iff)
    show ?case
      using Cons.IH [OF d] a by (cases "k = a") (auto simp: e split: option.splits)
  qed simp
  from this [OF assms, of m] show ?thesis
    by (auto simp: prune_entries_def split: option.splits)
qed

lemma distinct_prune_entries:
  assumes "distinct_keys m"
  shows "distinct_keys (prune_entries keep m)"
proof -
  have "distinct_keys acc \<Longrightarrow>
    distinct_keys (foldl (\<lambda>acc (k, v). if keep v then acc else AList.delete k acc) acc es)" for acc es
    by (induction es arbitrary: acc) (auto split: prod.splits intro: distinct_delete)
  then show ?thesis using assms by (simp add: prune_entries_def)
qed


section \<open>Bytes\<close>

type_synonym byte = "8 word"

text \<open>\<open>TextEncoder.encode\<close> on an ASCII string.\<close>

definition utf8 :: "string \<Rightarrow> byte list" where
  "utf8 s = map (\<lambda>c. of_nat (of_char c)) s"

lemma length_utf8 [simp]: "length (utf8 s) = length s"
  by (simp add: utf8_def)

lemma utf8_inj [simp]: "utf8 s = utf8 t \<longleftrightarrow> s = t"
proof
  have inj: "inj (\<lambda>c :: char. (of_nat (of_char c) :: byte))"
  proof (rule injI)
    fix c d :: char
    assume "(of_nat (of_char c) :: byte) = of_nat (of_char d)"
    then have "unat (of_nat (of_char c) :: byte) = unat (of_nat (of_char d) :: byte)" by simp
    then have "(of_char c :: nat) mod 256 = of_char d mod 256" by (simp add: unat_of_nat)
    moreover have "(of_char c :: nat) < 256" "(of_char d :: nat) < 256" by (simp_all add: of_char_def)
    ultimately have "(of_char c :: nat) = of_char d" by simp
    then show "c = d" by simp
  qed
  assume "utf8 s = utf8 t"
  then show "s = t" using inj by (simp add: utf8_def inj_map_eq_map)
qed simp

text \<open>The \<open>n\<close> low bytes of a number, most significant first.\<close>

fun be_bytes :: "nat \<Rightarrow> nat \<Rightarrow> byte list" where
  "be_bytes 0 x = []"
| "be_bytes (Suc n) x = be_bytes n (x div 256) @ [of_nat x]"

lemma length_be_bytes [simp]: "length (be_bytes n x) = n"
  by (induction n x rule: be_bytes.induct) auto

lemma be_bytes_eq_iff: "be_bytes n x = be_bytes n y \<longleftrightarrow> x mod 256 ^ n = y mod 256 ^ n"
proof (induction n arbitrary: x y)
  case (Suc n)
  have split: "z mod (256 * 256 ^ n) = 256 * (z div 256 mod 256 ^ n) + z mod 256" for z :: nat
    by (simp add: mod_mult2_eq)
  have "(of_nat x :: byte) = of_nat y \<longleftrightarrow> x mod 256 = y mod 256"
    by (simp add: word_of_nat_eq_iff take_bit_eq_mod)
  moreover have "256 * a + b = 256 * c + d \<longleftrightarrow> a = c \<and> b = d" if "b < 256" "d < 256" for a b c d :: nat
  proof
    assume eq: "256 * a + b = 256 * c + d"
    have "b = (256 * a + b) mod 256" "d = (256 * c + d) mod 256" using that by simp_all
    with eq have "b = d" by simp
    with eq show "a = c \<and> b = d" by simp
  qed simp
  ultimately show ?case
    using Suc by (simp add: split)
qed simp

lemma be_bytes_inj:
  "x < 256 ^ n \<Longrightarrow> y < 256 ^ n \<Longrightarrow> be_bytes n x = be_bytes n y \<longleftrightarrow> x = y"
  by (simp add: be_bytes_eq_iff)

end
