(* ===== verification/Relayer_Bytes.thy ===== *)
theory Relayer_Bytes
  imports Prelude
begin

text \<open>
  Byte helpers of the relayer protocol, \<^verbatim>\<open>sdk/src/relayer-protocol/bytes.ts\<close> (the relayer
  re-exports them from \<^verbatim>\<open>relayer/src/shared/bytes.ts\<close>): hexadecimal and base64 codecs,
  concatenation, the length guard and the big-endian integer encodings. The lemmas give the
  codecs' round trips and the injectivity of the integer encodings, on which the
  message and payload digests rest.
\<close>

section \<open>Hexadecimal\<close>

fun hex_pairs :: "string \<Rightarrow> byte list" where
  "hex_pairs (a # b # r) = of_nat (16 * hex_val a + hex_val b) # hex_pairs r"
| "hex_pairs _ = []"

definition hexToBytes :: "string \<Rightarrow> byte list res" where
  "hexToBytes hex =
     (let clean = strip_0x hex
      in if \<not> list_all is_hex clean \<or> length clean mod 2 \<noteq> 0
         then Inl (Error ''Invalid hex string.'')
         else Inr (hex_pairs clean))"

definition hex2 :: "byte \<Rightarrow> string" where
  "hex2 b = [hex_char (unat b div 16), hex_char (unat b mod 16)]"

definition bytesToHex :: "byte list \<Rightarrow> string" where
  "bytesToHex bytes = ''0x'' @ concat (map hex2 bytes)"

lemma unat_byte_lt: "unat (b :: byte) < 256"
proof -
  have "unat b < 2 ^ LENGTH(8)" by (rule unsigned_less)
  then show ?thesis by simp
qed

lemma nibbles [simp]: "unat (b :: byte) div 16 < 16" "unat (b :: byte) mod 16 < 16"
  using unat_byte_lt [of b] by auto

lemma hex_pairs_hex2 [simp]: "hex_pairs (hex2 b @ s) = b # hex_pairs s"
proof -
  have "16 * (unat b div 16) + unat b mod 16 = unat b" by simp
  then show ?thesis by (simp add: hex2_def del: of_nat_add of_nat_mult)
qed

lemma hex_pairs_concat [simp]: "hex_pairs (concat (map hex2 bs)) = bs"
  by (induction bs) simp_all

lemma list_all_hex2 [simp]: "list_all is_hex (concat (map hex2 bs))"
  by (induction bs) (simp_all add: hex2_def)

lemma length_hex2s [simp]: "length (concat (map hex2 bs)) = 2 * length bs"
  by (induction bs) (simp_all add: hex2_def)

lemma hexToBytes_bytesToHex [simp]: "hexToBytes (bytesToHex bs) = Inr bs"
  by (simp add: hexToBytes_def bytesToHex_def Let_def)

lemma bytesToHex_inj [simp]: "bytesToHex a = bytesToHex b \<longleftrightarrow> a = b"
  by (metis hexToBytes_bytesToHex sum.inject(2))

lemma to_lower_hex2s [simp]: "to_lower (concat (map hex2 bs)) = concat (map hex2 bs)"
proof (induction bs)
  case (Cons b bs)
  have "to_lower (hex2 b) = hex2 b" by (simp add: hex2_def to_lower_def)
  with Cons show ?case by simp
qed simp

lemma to_lower_bytesToHex [simp]: "to_lower (bytesToHex bs) = bytesToHex bs"
  by (simp add: bytesToHex_def lower_char_def)

lemma hex_pairs_lower:
  "list_all is_hex s \<Longrightarrow> even (length s) \<Longrightarrow> concat (map hex2 (hex_pairs s)) = to_lower s"
proof (induction s rule: hex_pairs.induct)
  case (1 a b r)
  then have a: "hex_val a < 16" and b: "hex_val b < 16" by (auto intro: hex_val_bound)
  then have "16 * hex_val a + hex_val b < 256" by simp
  then have "unat (of_nat (16 * hex_val a + hex_val b) :: byte) = 16 * hex_val a + hex_val b"
    by (simp add: unat_of_nat del: of_nat_add of_nat_mult)
  with a b 1 show ?case
    by (simp add: hex2_def hex_char_hex_val to_lower_def del: of_nat_add of_nat_mult)
qed (auto simp: to_lower_def)

text \<open>Decoding then encoding normalises: lower case with the \<open>0x\<close> prefix.\<close>

lemma bytesToHex_hexToBytes:
  "hexToBytes h = Inr bs \<Longrightarrow> bytesToHex bs = ''0x'' @ to_lower (strip_0x h)"
  by (auto simp: hexToBytes_def bytesToHex_def Let_def hex_pairs_lower even_iff_mod_2_eq_zero split: if_splits)

lemma length_hex_pairs: "even (length s) \<Longrightarrow> length s = 2 * length (hex_pairs s)"
  by (induction s rule: hex_pairs.induct) auto

lemma hexToBytes_length:
  "hexToBytes h = Inr bs \<Longrightarrow> length (strip_0x h) = 2 * length bs"
  by (auto simp: hexToBytes_def Let_def even_iff_mod_2_eq_zero intro: length_hex_pairs split: if_splits)


section \<open>Base64\<close>

text \<open>
  \<open>btoa\<close> and the forgiving decoder \<open>atob\<close> of the runtime, which the source calls when
  they exist (they do in Node and in browsers).
\<close>

definition b64_char :: "nat \<Rightarrow> char" where
  "b64_char n = char_of (if n < 26 then n + 65 else if n < 52 then n + 71 else if n < 62 then n - 4
                         else if n = 62 then 43 else (47 :: nat))"

definition is_b64 :: "char \<Rightarrow> bool" where
  "is_b64 c \<longleftrightarrow> (let n = (of_char c :: nat) in
     65 \<le> n \<and> n \<le> 90 \<or> 97 \<le> n \<and> n \<le> 122 \<or> 48 \<le> n \<and> n \<le> 57 \<or> n = 43 \<or> n = 47)"

definition b64_val :: "char \<Rightarrow> nat" where
  "b64_val c = (let n = (of_char c :: nat) in
     if 65 \<le> n \<and> n \<le> 90 then n - 65 else if 97 \<le> n \<and> n \<le> 122 then n - 71
     else if 48 \<le> n \<and> n \<le> 57 then n + 4 else if n = 43 then 62 else 63)"

lemma b64_char_simps [simp]:
  "n < 64 \<Longrightarrow> is_b64 (b64_char n)" "n < 64 \<Longrightarrow> b64_val (b64_char n) = n"
  by (auto simp: is_b64_def b64_val_def b64_char_def Let_def)

lemma b64_char_not_eq [simp]: "n < 64 \<Longrightarrow> b64_char n \<noteq> CHR ''=''"
  using b64_char_simps(1) [of n] by (auto simp: is_b64_def Let_def)

lemma b64_char_not_ws [simp]: "n < 64 \<Longrightarrow> \<not> is_ws (b64_char n)"
  using b64_char_simps(1) [of n] by (auto simp: is_b64_def is_ws_def Let_def)

fun btoa :: "byte list \<Rightarrow> string" where
  "btoa [] = []"
| "btoa [a] = [b64_char (unat a div 4), b64_char (unat a mod 4 * 16), CHR ''='', CHR ''='']"
| "btoa [a, b] = [b64_char (unat a div 4), b64_char (unat a mod 4 * 16 + unat b div 16),
                  b64_char (unat b mod 16 * 4), CHR ''='']"
| "btoa (a # b # c # r) =
     b64_char (unat a div 4) # b64_char (unat a mod 4 * 16 + unat b div 16) #
     b64_char (unat b mod 16 * 4 + unat c div 64) # b64_char (unat c mod 64) # btoa r"

fun b64_groups :: "string \<Rightarrow> byte list" where
  "b64_groups (p # q # r # s # t) =
     of_nat (b64_val p * 4 + b64_val q div 16) # of_nat (b64_val q mod 16 * 16 + b64_val r div 4) #
     of_nat (b64_val r mod 4 * 64 + b64_val s) # b64_groups t"
| "b64_groups [p, q, r] =
     [of_nat (b64_val p * 4 + b64_val q div 16), of_nat (b64_val q mod 16 * 16 + b64_val r div 4)]"
| "b64_groups [p, q] = [of_nat (b64_val p * 4 + b64_val q div 16)]"
| "b64_groups _ = []"

definition drop_padding :: "string \<Rightarrow> string" where
  "drop_padding s =
     (if length s mod 4 = 0 then
        (if 2 \<le> length s \<and> drop (length s - 2) s = ''=='' then take (length s - 2) s
         else if 1 \<le> length s \<and> drop (length s - 1) s = ''='' then take (length s - 1) s
         else s)
      else s)"

definition atob :: "string \<Rightarrow> byte list res" where
  "atob value =
     (let s = drop_padding (filter (\<lambda>c. \<not> is_ws c \<or> c = char_of (11 :: nat)) value)
      in if length s mod 4 = 1 \<or> \<not> list_all is_b64 s
         then Inl (Error ''The string to be decoded is not correctly encoded.'')
         else Inr (b64_groups s))"

definition base64ToBytes :: "string \<Rightarrow> byte list res" where
  "base64ToBytes value = atob value"

definition bytesToBase64 :: "byte list \<Rightarrow> string" where
  "bytesToBase64 bytes = btoa bytes"


lemma unat_small [simp]: "n < 256 \<Longrightarrow> unat (of_nat n :: byte) = n"
  by (simp add: unat_of_nat)

lemma of_nat_unat_byte: "n = unat b \<Longrightarrow> (of_nat n :: byte) = b"
  by simp

text \<open>The encoding without its padding, and the padding.\<close>

fun b64_core :: "byte list \<Rightarrow> string" where
  "b64_core [] = []"
| "b64_core [a] = [b64_char (unat a div 4), b64_char (unat a mod 4 * 16)]"
| "b64_core [a, b] = [b64_char (unat a div 4), b64_char (unat a mod 4 * 16 + unat b div 16),
                     b64_char (unat b mod 16 * 4)]"
| "b64_core (a # b # c # r) =
     b64_char (unat a div 4) # b64_char (unat a mod 4 * 16 + unat b div 16) #
     b64_char (unat b mod 16 * 4 + unat c div 64) # b64_char (unat c mod 64) # b64_core r"

definition b64_pad :: "byte list \<Rightarrow> string" where
  "b64_pad bs = (if length bs mod 3 = 1 then ''=='' else if length bs mod 3 = 2 then ''='' else [])"

lemma Suc_mods: "Suc (Suc (Suc n)) mod 3 = n mod 3" "Suc (Suc (Suc (Suc n))) mod 4 = n mod 4"
  by presburger+

lemma b64_pad_simps [simp]:
  "b64_pad [] = []" "b64_pad [a] = ''==''" "b64_pad [a, b] = ''=''" "b64_pad (a # b # c # r) = b64_pad r"
  by (simp_all add: b64_pad_def Suc_mods)

lemma btoa_core_pad: "btoa bs = b64_core bs @ b64_pad bs"
  by (induction bs rule: btoa.induct) simp_all

lemma b64_bounds:
  fixes a b c :: byte
  shows "unat a div 4 < 64" "unat a mod 4 * 16 < 64" "unat a mod 4 * 16 + unat b div 16 < 64"
    "unat b mod 16 * 4 < 64" "unat b mod 16 * 4 + unat c div 64 < 64" "unat c mod 64 < 64"
  using unat_byte_lt [of a] unat_byte_lt [of b] unat_byte_lt [of c] by auto

lemma b64_core_chars: "list_all is_b64 (b64_core bs)"
  by (induction bs rule: b64_core.induct) (simp_all add: b64_bounds)

lemma length_b64_core: "(length (b64_core bs) + length (b64_pad bs)) mod 4 = 0"
  by (induction bs rule: b64_core.induct) (simp_all add: Suc_mods)

lemma length_b64_core_mod: "length (b64_core bs) mod 4 \<noteq> 1"
  by (induction bs rule: b64_core.induct) (simp_all add: Suc_mods)

lemma b64_groups_core: "b64_groups (b64_core bs) = bs"
proof (induction bs rule: b64_core.induct)
  case (2 a)
  have "unat a div 4 * 4 + unat a mod 4 * 16 div 16 = unat a" by simp
  then show ?case by (simp add: b64_bounds of_nat_unat_byte del: of_nat_add of_nat_mult)
next
  case (3 a b)
  have "unat a div 4 * 4 + (unat a mod 4 * 16 + unat b div 16) div 16 = unat a"
       "(unat a mod 4 * 16 + unat b div 16) mod 16 * 16 + unat b mod 16 * 4 div 4 = unat b"
    using unat_byte_lt [of b] by (auto simp: mult.commute)
  then show ?case by (simp add: b64_bounds of_nat_unat_byte del: of_nat_add of_nat_mult)
next
  case (4 a b c r)
  have "unat a div 4 * 4 + (unat a mod 4 * 16 + unat b div 16) div 16 = unat a"
       "(unat a mod 4 * 16 + unat b div 16) mod 16 * 16 + (unat b mod 16 * 4 + unat c div 64) div 4 = unat b"
       "(unat b mod 16 * 4 + unat c div 64) mod 4 * 64 + unat c mod 64 = unat c"
    using unat_byte_lt [of b] unat_byte_lt [of c] by (auto simp: mult.commute)
  with 4 show ?case by (simp add: b64_bounds of_nat_unat_byte del: of_nat_add of_nat_mult)
qed simp

lemma is_b64_not_special: "is_b64 c \<Longrightarrow> c \<noteq> CHR ''='' \<and> \<not> is_ws c"
  by (auto simp: is_b64_def is_ws_def Let_def)

lemma drop_padding_core:
  assumes core: "list_all is_b64 s" and pad: "pad \<in> {[], ''='', ''==''}"
    and len: "(length s + length pad) mod 4 = 0"
  shows "drop_padding (s @ pad) = s"
proof -
  have no: "CHR ''='' \<notin> set s" using core is_b64_not_special by (auto simp: list_all_iff)
  have tails: "drop k s \<noteq> ''==''" "drop k s \<noteq> ''=''" for k
    using no set_drop_subset [of k s] by auto
  consider "pad = []" | "pad = ''=''" "\<exists>t c. s = t @ [c]" | "pad = ''==''"
    using pad len by (cases s rule: rev_cases) auto
  then show ?thesis
  proof cases
    case 1
    then show ?thesis using len tails by (simp add: drop_padding_def)
  next
    case 2
    then obtain t c where s: "s = t @ [c]" by blast
    with no have "c \<noteq> CHR ''=''" by auto
    with 2 s len show ?thesis by (simp add: drop_padding_def)
  next
    case 3
    with len show ?thesis by (simp add: drop_padding_def)
  qed
qed

lemma base64ToBytes_bytesToBase64 [simp]: "base64ToBytes (bytesToBase64 bs) = Inr bs"
proof -
  have "filter (\<lambda>c. \<not> is_ws c \<or> c = char_of (11 :: nat)) (btoa bs) = btoa bs"
    using b64_core_chars [of bs] is_b64_not_special
    by (auto simp: filter_id_conv btoa_core_pad list_all_iff b64_pad_def is_ws_def split: if_splits)
  moreover have "drop_padding (btoa bs) = b64_core bs"
    unfolding btoa_core_pad
    by (rule drop_padding_core)
       (use b64_core_chars length_b64_core in \<open>auto simp: b64_pad_def\<close>)
  ultimately show ?thesis
    using b64_core_chars length_b64_core_mod
    by (simp add: base64ToBytes_def bytesToBase64_def atob_def Let_def b64_groups_core)
qed


section \<open>Concatenation, lengths and integers\<close>

definition concatBytes :: "byte list list \<Rightarrow> byte list" where
  "concatBytes chunks =
     snd (foldl (\<lambda>(offset, out) chunk. (offset + length chunk,
                   take offset out @ chunk @ drop (offset + length chunk) out))
            (0, replicate (foldl (\<lambda>n c. n + length c) 0 chunks) 0) chunks)"

definition assertLength :: "byte list \<Rightarrow> nat \<Rightarrow> string \<Rightarrow> byte list res" where
  "assertLength bytes len label =
     (if length bytes \<noteq> len
      then Inl (Error (label @ '' must be '' @ dec_of_nat len @ '' bytes, got '' @ dec_of_nat (length bytes) @ ''.''))
      else Inr bytes)"

definition i128ToBytes :: "int \<Rightarrow> byte list res" where
  "i128ToBytes value =
     (if value < - (2 ^ 127) \<or> value > 2 ^ 127 - 1 then Inl (Error ''i128 out of range.'')
      else let unsigned = (if value < 0 then 2 ^ 128 + value else value)
           in Inr (be_bytes 16 (nat unsigned)))"

definition u32ToBytes :: "rat \<Rightarrow> byte list res" where
  "u32ToBytes value =
     (if \<not> is_integer value \<or> value < 0 \<or> value > 4294967295 then Inl (Error ''u32 out of range.'')
      else Inr (be_bytes 4 (nat \<lfloor>value\<rfloor>)))"

lemma sum_lengths: "foldl (\<lambda>n c. n + length c) k chunks = k + length (concat chunks)"
  by (induction chunks arbitrary: k) auto

lemma concatBytes_loop:
  "foldl (\<lambda>(offset, out) chunk. (offset + length chunk,
            take offset out @ chunk @ drop (offset + length chunk) out))
     (length done, done @ replicate (length (concat chunks)) z) chunks
   = (length done + length (concat chunks), done @ concat chunks)"
proof (induction chunks arbitrary: "done")
  case (Cons c cs)
  show ?case using Cons [of "done @ c"] by (simp add: add.assoc)
qed simp

text \<open>The copy loop with its running offset is concatenation.\<close>

lemma concatBytes_eq_concat [simp]: "concatBytes chunks = concat chunks"
  using concatBytes_loop [of "[]" chunks 0] by (simp add: concatBytes_def sum_lengths)

lemma assertLength_Inr [simp]: "assertLength bs n l = Inr cs \<longleftrightarrow> cs = bs \<and> length bs = n"
  by (auto simp: assertLength_def)

lemma assertLength_ok [simp]: "length bs = n \<Longrightarrow> assertLength bs n l = Inr bs"
  by (simp add: assertLength_def)

lemma i128ToBytes_length: "i128ToBytes v = Inr bs \<Longrightarrow> length bs = 16"
  by (auto simp: i128ToBytes_def Let_def split: if_splits)

lemma i128ToBytes_inj:
  assumes "i128ToBytes v = Inr bs" "i128ToBytes w = Inr bs"
  shows "v = w"
proof -
  let ?u = "\<lambda>v :: int. nat (if v < 0 then 2 ^ 128 + v else v)"
  have r: "- (2 ^ 127) \<le> v" "v \<le> 2 ^ 127 - 1" "- (2 ^ 127) \<le> w" "w \<le> 2 ^ 127 - 1"
    and eq: "be_bytes 16 (?u v) = be_bytes 16 (?u w)"
    using assms by (auto simp: i128ToBytes_def Let_def split: if_splits)
  have "?u v < 256 ^ 16" "?u w < 256 ^ 16" using r by (auto simp: nat_less_iff)
  with eq have "?u v = ?u w" by (simp only: be_bytes_inj)
  with r show ?thesis by (auto simp: nat_eq_iff split: if_splits)
qed

text \<open>Two's complement: the bytes of a value in range read back, as a signed 128-bit word, as the value.\<close>

fun nat_of_be :: "byte list \<Rightarrow> nat" where
  "nat_of_be bs = foldl (\<lambda>a b. 256 * a + unat b) 0 bs"

declare nat_of_be.simps [simp del]

lemma nat_of_be_bytes: "nat_of_be (be_bytes n x) = x mod 256 ^ n"
proof (induction n x rule: be_bytes.induct)
  case (2 n x)
  have "nat_of_be (be_bytes n (x div 256) @ [of_nat x])
      = 256 * nat_of_be (be_bytes n (x div 256)) + unat (of_nat x :: byte)"
    by (simp add: nat_of_be.simps)
  also have "\<dots> = 256 * (x div 256 mod 256 ^ n) + x mod 256"
    using 2 by (simp add: unat_of_nat)
  also have "\<dots> = x mod (256 * 256 ^ n)"
    by (simp add: mod_mult2_eq)
  finally show ?case by simp
qed (simp add: nat_of_be.simps)

lemma i128ToBytes_value:
  assumes "i128ToBytes v = Inr bs"
  shows "int (nat_of_be bs) = v mod 2 ^ 128"
proof -
  have neg: "v < 0 \<Longrightarrow> - (2 ^ 127) \<le> v \<Longrightarrow> v mod 2 ^ 128 = 2 ^ 128 + v"
    by (subst mod_add_self1 [symmetric], rule mod_pos_pos_trivial) auto
  show ?thesis
  proof (cases "v < 0")
    case True
    with assms neg have "v mod 2 ^ 128 = 2 ^ 128 + v" "bs = be_bytes 16 (nat (2 ^ 128 + v))"
      by (auto simp: i128ToBytes_def Let_def split: if_splits)
    moreover from True assms have "nat (2 ^ 128 + v) mod 256 ^ 16 = nat (2 ^ 128 + v)" "0 \<le> 2 ^ 128 + v"
      by (auto simp: i128ToBytes_def split: if_splits)
    ultimately show ?thesis by (simp add: nat_of_be_bytes)
  next
    case False
    with assms have "v mod 2 ^ 128 = v" "bs = be_bytes 16 (nat v)" "nat v mod 256 ^ 16 = nat v"
      by (auto simp: i128ToBytes_def Let_def split: if_splits)
    with False show ?thesis by (simp add: nat_of_be_bytes)
  qed
qed


section \<open>Codecs as an interface\<close>

text \<open>
  What the message layer needs of a text codec: decoding an encoding gives the bytes back.
  Injectivity and the failure of decoding on non-encodings follow once for all codecs.
\<close>

locale codec =
  fixes enc :: "'a \<Rightarrow> 'b" and dec :: "'b \<Rightarrow> 'a res"
  assumes dec_enc: "dec (enc x) = Inr x"
begin

lemma enc_inj: "enc x = enc y \<longleftrightarrow> x = y"
  by (metis dec_enc sum.inject(2))

lemma enc_not_error: "dec s = Inl e \<Longrightarrow> s \<noteq> enc x"
  by (auto simp: dec_enc)

end

interpretation hex: codec bytesToHex hexToBytes
  by unfold_locales simp

interpretation b64: codec bytesToBase64 base64ToBytes
  by unfold_locales simp

interpretation dec: codec dec_of_int js_BigInt_str
  by unfold_locales simp


text \<open>
  An encoding is self-delimiting when what follows it can be cut off without knowing the
  value: signed messages are concatenations, and they are unambiguous when every part is
  self-delimiting. Fixed-width parts are, and a part after a self-delimiting one may be
  anything injective.
\<close>

locale self_delimiting =
  fixes enc :: "'a \<Rightarrow> byte list" and ok :: "'a \<Rightarrow> bool"
  assumes cancel: "ok x \<Longrightarrow> ok y \<Longrightarrow> enc x @ s = enc y @ t \<Longrightarrow> x = y \<and> s = t"
begin

lemma enc_inj_on: "ok x \<Longrightarrow> ok y \<Longrightarrow> enc x = enc y \<Longrightarrow> x = y"
  using cancel [of x y "[]" "[]"] by simp

lemma pair_inj:
  assumes "ok x" "ok y" "enc x @ f a = enc y @ f b" "f a = f b \<Longrightarrow> a = b"
  shows "x = y \<and> a = b"
  using cancel [OF assms(1-3)] assms(4) by blast

end

lemma append_same_length: "xs @ s = ys @ t \<Longrightarrow> length xs = length ys \<Longrightarrow> xs = ys \<and> s = t"
  by simp

interpretation fixed_width: self_delimiting "be_bytes n" "\<lambda>x. x < 256 ^ n"
  by unfold_locales (auto simp: be_bytes_inj dest!: append_same_length)

interpretation i128: self_delimiting "\<lambda>v. projr (i128ToBytes v)" "\<lambda>v. \<exists>bs. i128ToBytes v = Inr bs"
  by unfold_locales (auto dest: append_same_length simp: i128ToBytes_length intro: i128ToBytes_inj)

text \<open>Reading a property that is not a string where one is needed throws in \<open>replace\<close>.\<close>

definition hexToBytes_jv :: "jv \<Rightarrow> byte list res" where
  "hexToBytes_jv v = (case v of JStr s \<Rightarrow> hexToBytes s | _ \<Rightarrow> Inl (TypeError ''hex.replace is not a function''))"

lemma hexToBytes_jv_JStr [simp]: "hexToBytes_jv (JStr s) = hexToBytes s"
  by (simp add: hexToBytes_jv_def)

end
