(* ===== verification/Json.thy ===== *)
theory Json
  imports Prelude
begin

text \<open>
  \<^verbatim>\<open>JSON.stringify\<close> and \<^verbatim>\<open>JSON.parse\<close> of the standard library, as the services use them
  for wire messages, sealed payloads and state files: a printer and a recursive-descent
  parser over ASCII text, and the round trip between them. Numbers are exact; the printer
  covers the integers of absolute value below \<open>10 ^ 21\<close>, which JavaScript prints in
  plain decimal (\<open>json_printable\<close>), and the parser the full number grammar. Escapes
  \<^verbatim>\<open>\uXXXX\<close> above 255 are outside the modelled character range and are refused.
\<close>

section \<open>Printing\<close>

definition quote_char :: char where "quote_char = CHR 0x22"
definition backslash :: char where "backslash = CHR 0x5C"

definition escape_char :: "char \<Rightarrow> string" where
  "escape_char c =
     (let n = (of_char c :: nat) in
      if c = quote_char then [backslash, quote_char]
      else if c = backslash then [backslash, backslash]
      else if n = 8 then [backslash, CHR ''b'']
      else if n = 9 then [backslash, CHR ''t'']
      else if n = 10 then [backslash, CHR ''n'']
      else if n = 12 then [backslash, CHR ''f'']
      else if n = 13 then [backslash, CHR ''r'']
      else if n < 32 then [backslash, CHR ''u'', CHR ''0'', CHR ''0'', hex_char (n div 16), hex_char (n mod 16)]
      else [c])"

definition json_string :: "string \<Rightarrow> string" where
  "json_string s = quote_char # concat (map escape_char s) @ [quote_char]"

text \<open>
  The flag says whether an element is the first of its list. An object property whose value
  is \<open>undefined\<close> is left out; an array element that is \<open>undefined\<close> prints as \<open>null\<close>.
\<close>

fun json_print :: "jv \<Rightarrow> string"
  and json_elems :: "bool \<Rightarrow> jv list \<Rightarrow> string"
  and json_members :: "bool \<Rightarrow> (string \<times> jv) list \<Rightarrow> string" where
  "json_print JUndef = ''null''"
| "json_print JNull = ''null''"
| "json_print (JBool b) = (if b then ''true'' else ''false'')"
| "json_print (JNum r) = dec_of_int \<lfloor>r\<rfloor>"
| "json_print (JStr s) = json_string s"
| "json_print (JArr xs) = CHR ''['' # json_elems True xs @ '']''"
| "json_print (JObj m) = CHR ''{'' # json_members True m @ ''}''"
| "json_elems first [] = []"
| "json_elems first (x # xs) = (if first then [] else '','') @ json_print x @ json_elems False xs"
| "json_members first [] = []"
| "json_members first ((k, v) # m) =
     (if v = JUndef then json_members first m
      else (if first then [] else '','') @ json_string k @ '':'' @ json_print v @ json_members False m)"

fun json_printable :: "jv \<Rightarrow> bool" where
  "json_printable JUndef = False"
| "json_printable JNull = True"
| "json_printable (JBool b) = True"
| "json_printable (JNum r) = (is_integer r \<and> \<bar>r\<bar> < 10 ^ 21)"
| "json_printable (JStr s) = True"
| "json_printable (JArr xs) = list_all json_printable xs"
| "json_printable (JObj m) = (distinct (map fst m) \<and> list_all (\<lambda>(k, v). json_printable v) m)"

definition json_stringify :: "jv \<Rightarrow> string" where
  "json_stringify v = json_print v"


section \<open>Parsing\<close>

definition json_ws :: "char \<Rightarrow> bool" where
  "json_ws c \<longleftrightarrow> (of_char c :: nat) \<in> {9, 10, 13, 32}"

definition skip_ws :: "string \<Rightarrow> string" where
  "skip_ws s = dropWhile json_ws s"

definition eat :: "char \<Rightarrow> string \<Rightarrow> string option" where
  "eat c s = (case s of [] \<Rightarrow> None | d # r \<Rightarrow> if d = c then Some r else None)"

definition eat_word :: "string \<Rightarrow> string \<Rightarrow> string option" where
  "eat_word w s = (if starts_with w s then Some (drop (length w) s) else None)"

definition unescape :: "char \<Rightarrow> char option" where
  "unescape c =
     (if c = quote_char \<or> c = backslash \<or> c = CHR ''/'' then Some c
      else if c = CHR ''b'' then Some (char_of (8 :: nat))
      else if c = CHR ''f'' then Some (char_of (12 :: nat))
      else if c = CHR ''n'' then Some (char_of (10 :: nat))
      else if c = CHR ''r'' then Some (char_of (13 :: nat))
      else if c = CHR ''t'' then Some (char_of (9 :: nat))
      else None)"

fun parse_str :: "string \<Rightarrow> (string \<times> string) option" where
  "parse_str [] = None"
| "parse_str (c # s) =
     (if c = quote_char then Some ([], s)
      else if c = backslash then
        (case s of [] \<Rightarrow> None
         | e # s' \<Rightarrow>
             if e = CHR ''u'' then
               (if length (take 4 s') = 4 \<and> list_all is_hex (take 4 s') \<and> nat_of_hex (take 4 s') < 256
                then (case parse_str (drop 4 s') of None \<Rightarrow> None
                      | Some (t, r) \<Rightarrow> Some (char_of (nat_of_hex (take 4 s')) # t, r))
                else None)
             else (case unescape e of None \<Rightarrow> None
                   | Some d \<Rightarrow> (case parse_str s' of None \<Rightarrow> None | Some (t, r) \<Rightarrow> Some (d # t, r))))
      else if (of_char c :: nat) < 32 then None
      else (case parse_str s of None \<Rightarrow> None | Some (t, r) \<Rightarrow> Some (c # t, r)))"

definition parse_frac :: "string \<Rightarrow> (rat \<times> string) option" where
  "parse_frac s =
     (case eat CHR ''.'' s of None \<Rightarrow> Some (0, s)
      | Some r \<Rightarrow> let ds = takeWhile is_digit r
                  in if ds = [] then None
                     else Some (rat_of_nat (nat_of_dec ds) / 10 ^ length ds, dropWhile is_digit r))"

definition parse_exp :: "string \<Rightarrow> (rat \<times> string) option" where
  "parse_exp s =
     (case s of [] \<Rightarrow> Some (1, s)
      | c # r \<Rightarrow>
         if c \<noteq> CHR ''e'' \<and> c \<noteq> CHR ''E'' then Some (1, s)
         else let neg = (eat CHR ''-'' r \<noteq> None);
                  r' = (if neg \<or> eat CHR ''+'' r \<noteq> None then tl r else r);
                  ds = takeWhile is_digit r'
              in if ds = [] then None
                 else Some (if neg then 1 / 10 ^ nat_of_dec ds else 10 ^ nat_of_dec ds, dropWhile is_digit r'))"

definition parse_number :: "string \<Rightarrow> (rat \<times> string) option" where
  "parse_number s =
     (let neg = (eat CHR ''-'' s \<noteq> None);
          s1 = (if neg then tl s else s);
          ip = takeWhile is_digit s1
      in if ip = [] \<or> length ip > 1 \<and> hd ip = CHR ''0'' then None
         else (case parse_frac (dropWhile is_digit s1) of None \<Rightarrow> None
               | Some (f, s2) \<Rightarrow> (case parse_exp s2 of None \<Rightarrow> None
                 | Some (e, s3) \<Rightarrow>
                     Some ((if neg then -1 else 1) * (rat_of_nat (nat_of_dec ip) + f) * e, s3))))"

text \<open>
  The three mutually recursive parsers are bounded by fuel; one unit per character of the
  text is enough, since every call but the outermost follows a consumed character.
  A repeated object key overwrites the earlier value.
\<close>

fun parse_value :: "nat \<Rightarrow> string \<Rightarrow> (jv \<times> string) option"
  and parse_elems :: "nat \<Rightarrow> string \<Rightarrow> jv list \<Rightarrow> (jv list \<times> string) option"
  and parse_members :: "nat \<Rightarrow> string \<Rightarrow> (string \<times> jv) list \<Rightarrow> ((string \<times> jv) list \<times> string) option" where
  "parse_value 0 s = None"
| "parse_value (Suc n) s0 =
     (case skip_ws s0 of [] \<Rightarrow> None
      | c # r \<Rightarrow>
         if c = quote_char then
           (case parse_str r of None \<Rightarrow> None | Some (t, r') \<Rightarrow> Some (JStr t, r'))
         else if c = CHR ''['' then
           (case eat CHR '']'' (skip_ws r) of Some r' \<Rightarrow> Some (JArr [], r')
            | None \<Rightarrow> (case parse_elems n r [] of None \<Rightarrow> None | Some (xs, r') \<Rightarrow> Some (JArr xs, r')))
         else if c = CHR ''{'' then
           (case eat CHR ''}'' (skip_ws r) of Some r' \<Rightarrow> Some (JObj [], r')
            | None \<Rightarrow> (case parse_members n r [] of None \<Rightarrow> None | Some (m, r') \<Rightarrow> Some (JObj m, r')))
         else case eat_word ''null'' (c # r) of Some r' \<Rightarrow> Some (JNull, r')
            | None \<Rightarrow> (case eat_word ''true'' (c # r) of Some r' \<Rightarrow> Some (JBool True, r')
            | None \<Rightarrow> (case eat_word ''false'' (c # r) of Some r' \<Rightarrow> Some (JBool False, r')
            | None \<Rightarrow> (case parse_number (c # r) of None \<Rightarrow> None
                | Some (q, r') \<Rightarrow> Some (JNum q, r')))))"
| "parse_elems 0 s acc = None"
| "parse_elems (Suc n) s acc =
     (case parse_value n s of None \<Rightarrow> None
      | Some (v, r) \<Rightarrow>
         (case eat CHR '','' (skip_ws r) of Some r' \<Rightarrow> parse_elems n r' (acc @ [v])
          | None \<Rightarrow> (case eat CHR '']'' (skip_ws r) of Some r' \<Rightarrow> Some (acc @ [v], r') | None \<Rightarrow> None)))"
| "parse_members 0 s acc = None"
| "parse_members (Suc n) s acc =
     (case eat quote_char (skip_ws s) of None \<Rightarrow> None
      | Some s1 \<Rightarrow> (case parse_str s1 of None \<Rightarrow> None
      | Some (k, s2) \<Rightarrow> (case eat CHR '':'' (skip_ws s2) of None \<Rightarrow> None
      | Some s3 \<Rightarrow> (case parse_value n s3 of None \<Rightarrow> None
      | Some (v, r) \<Rightarrow>
         (case eat CHR '','' (skip_ws r) of Some r' \<Rightarrow> parse_members n r' (AList.update k v acc)
          | None \<Rightarrow> (case eat CHR ''}'' (skip_ws r) of Some r' \<Rightarrow> Some (AList.update k v acc, r') | None \<Rightarrow> None))))))"

definition json_parse :: "string \<Rightarrow> jv res" where
  "json_parse s =
     (case parse_value (length s + 1) s of None \<Rightarrow> Inl (SyntaxError ''Unexpected token in JSON'')
      | Some (v, r) \<Rightarrow> if skip_ws r = [] then Inr v else Inl (SyntaxError ''Unexpected token in JSON''))"


section \<open>Round trip\<close>

lemma eat_Cons [simp]: "eat c (d # r) = (if d = c then Some r else None)"
  by (simp add: eat_def)

lemma skip_ws_id: "s = [] \<or> \<not> json_ws (hd s) \<Longrightarrow> skip_ws s = s"
  by (cases s) (auto simp: skip_ws_def)

lemma json_ws_literals [simp]:
  "\<not> json_ws quote_char" "\<not> json_ws CHR ''[''" "\<not> json_ws CHR ''{''" "\<not> json_ws CHR '']''"
  "\<not> json_ws CHR ''}''" "\<not> json_ws CHR '',''" "\<not> json_ws CHR '':''" "\<not> json_ws CHR ''n''"
  "\<not> json_ws CHR ''t''" "\<not> json_ws CHR ''f''" "\<not> json_ws CHR ''-''"
  by (simp_all add: json_ws_def quote_char_def)

lemma json_ws_digit [simp]: "is_digit c \<Longrightarrow> \<not> json_ws c"
  by (auto simp: json_ws_def is_digit_def)

lemma quote_backslash [simp]: "quote_char \<noteq> backslash" "backslash \<noteq> quote_char"
  by (simp_all add: quote_char_def backslash_def)

lemma parse_str_plain:
  "c \<noteq> quote_char \<Longrightarrow> c \<noteq> backslash \<Longrightarrow> \<not> (of_char c :: nat) < 32 \<Longrightarrow>
   parse_str (c # s) = (case parse_str s of None \<Rightarrow> None | Some (t, r) \<Rightarrow> Some (c # t, r))"
  by simp

lemma parse_str_escape:
  "e \<noteq> CHR ''u'' \<Longrightarrow> unescape e = Some d \<Longrightarrow>
   parse_str (backslash # e # s) = (case parse_str s of None \<Rightarrow> None | Some (t, r) \<Rightarrow> Some (d # t, r))"
  by simp

lemma hex4: "n < 32 \<Longrightarrow> nat_of_hex [CHR ''0'', CHR ''0'', hex_char (n div 16), hex_char (n mod 16)] = n"
  by (simp add: nat_of_hex_def nat_of_digits_def) (simp add: hex_val_def is_digit_def digit_val_def)

lemma take_4: "take 4 (a # b # c # d # s) = [a, b, c, d]" and drop_4: "drop 4 (a # b # c # d # s) = s"
  by (simp_all add: numeral_eq_Suc)

lemma parse_str_unicode:
  assumes "n < 32"
  shows "parse_str (backslash # CHR ''u'' # CHR ''0'' # CHR ''0'' # hex_char (n div 16) # hex_char (n mod 16) # s)
     = (case parse_str s of None \<Rightarrow> None | Some (t, r) \<Rightarrow> Some (char_of n # t, r))"
proof -
  have "is_hex CHR ''0''" by (simp add: is_hex_def is_digit_def)
  then show ?thesis using assms by (simp add: hex4 take_4 drop_4 split: option.split)
qed

lemma char_of_of_char_nat: "(of_char c :: nat) = n \<Longrightarrow> c = char_of n"
  by auto

lemma escape_char_special:
  "escape_char quote_char = [backslash, quote_char]" "escape_char backslash = [backslash, backslash]"
  "escape_char (char_of (8 :: nat)) = [backslash, CHR ''b'']"
  "escape_char (char_of (9 :: nat)) = [backslash, CHR ''t'']"
  "escape_char (char_of (10 :: nat)) = [backslash, CHR ''n'']"
  "escape_char (char_of (12 :: nat)) = [backslash, CHR ''f'']"
  "escape_char (char_of (13 :: nat)) = [backslash, CHR ''r'']"
  by code_simp+

lemma parse_str_escape_char:
  "parse_str (escape_char c @ s) = (case parse_str s of None \<Rightarrow> None | Some (t, r) \<Rightarrow> Some (c # t, r))"
proof -
  have esc: "unescape quote_char = Some quote_char" "unescape backslash = Some backslash"
    "unescape CHR ''b'' = Some (char_of (8 :: nat))" "unescape CHR ''f'' = Some (char_of (12 :: nat))"
    "unescape CHR ''n'' = Some (char_of (10 :: nat))" "unescape CHR ''r'' = Some (char_of (13 :: nat))"
    "unescape CHR ''t'' = Some (char_of (9 :: nat))"
    by (simp_all add: unescape_def quote_char_def backslash_def)
  have u: "quote_char \<noteq> CHR ''u''" "backslash \<noteq> CHR ''u''"
    by (simp_all add: quote_char_def backslash_def)
  let ?n = "of_char c :: nat"
  consider "c = quote_char" | "c = backslash" | "c = char_of (8 :: nat)" | "c = char_of (9 :: nat)"
    | "c = char_of (10 :: nat)" | "c = char_of (12 :: nat)" | "c = char_of (13 :: nat)"
    | "?n < 32" "?n \<notin> {8, 9, 10, 12, 13}" "c \<noteq> quote_char" "c \<noteq> backslash"
    | "\<not> ?n < 32" "c \<noteq> quote_char" "c \<noteq> backslash"
    by (auto dest: char_of_of_char_nat)
  then show ?thesis
  proof cases
    case 8
    then have "escape_char c = [backslash, CHR ''u'', CHR ''0'', CHR ''0'', hex_char (?n div 16), hex_char (?n mod 16)]"
      by (simp add: escape_char_def Let_def)
    with parse_str_unicode [OF 8(1), of s] show ?thesis
      by (simp del: parse_str.simps split: option.split)
  next
    case 9
    then have "escape_char c = [c]" by (auto simp: escape_char_def Let_def)
    with parse_str_plain [OF 9(2,3,1), of s] show ?thesis by (simp del: parse_str.simps)
  qed (simp_all add: escape_char_special parse_str_escape esc u del: parse_str.simps split: option.split)
qed

lemma parse_str_json_string:
  "parse_str (concat (map escape_char s) @ quote_char # r) = Some (s, r)"
  by (induction s) (simp_all add: parse_str_escape_char)


text \<open>What may follow a value inside a printed text, so that a number ends where it should.\<close>

definition follows :: "string \<Rightarrow> bool" where
  "follows r \<longleftrightarrow> r = [] \<or> hd r = CHR '','' \<or> hd r = CHR '']'' \<or> hd r = CHR ''}'' \<or> hd r = CHR 0x0A"

lemma follows_not_number:
  assumes "follows r"
  shows "parse_frac r = Some (0, r)" "parse_exp r = Some (1, r)" "takeWhile is_digit r = []" "dropWhile is_digit r = r"
  using assms
  by (cases r; auto simp: follows_def parse_frac_def parse_exp_def eat_def is_digit_def)+

lemma dec_of_nat_no_leading_zero: "hd (dec_of_nat n) = CHR ''0'' \<Longrightarrow> length (dec_of_nat n) \<le> 1"
proof (induction n rule: dec_of_nat.induct)
  case (1 n)
  show ?case
  proof (cases "n < 10")
    case True
    then show ?thesis by (subst dec_of_nat.simps) simp
  next
    case False
    have eq: "dec_of_nat n = dec_of_nat (n div 10) @ [digit_char (n mod 10)]"
      using False by (subst dec_of_nat.simps) simp
    with 1 False have len: "length (dec_of_nat (n div 10)) \<le> 1" by simp
    have ndiv: "n div 10 < 10"
    proof (rule ccontr)
      assume "\<not> n div 10 < 10"
      then have "length (dec_of_nat (n div 10)) = length (dec_of_nat (n div 10 div 10)) + 1"
        by (subst dec_of_nat.simps) simp
      moreover have "length (dec_of_nat (n div 10 div 10)) > 0" by simp
      ultimately show False using len by simp
    qed
    then have "dec_of_nat (n div 10) = [digit_char (n div 10)]" by (subst dec_of_nat.simps) simp
    with eq 1(2) have "digit_char (n div 10) = CHR ''0''" by simp
    moreover have "digit_val CHR ''0'' = 0" by (simp add: digit_val_def)
    ultimately have "n div 10 = 0" using ndiv digit_char_simps(2) [of "n div 10"] by simp
    with False show ?thesis by simp
  qed
qed

lemma parse_number_nat:
  assumes "follows r"
  shows "takeWhile is_digit (dec_of_nat n @ r) = dec_of_nat n" "dropWhile is_digit (dec_of_nat n @ r) = r"
  using dec_of_nat_digits [of n] follows_not_number(3,4) [OF assms]
  by (simp_all add: takeWhile_append dropWhile_append list_all_iff)

lemma parse_number_int:
  assumes "follows r"
  shows "parse_number (dec_of_int i @ r) = Some (rat_of_int i, r)"
proof -
  have zero: "\<not> (length (dec_of_nat n) > 1 \<and> hd (dec_of_nat n) = CHR ''0'')" for n
    using dec_of_nat_no_leading_zero [of n] by auto
  have noneg: "eat CHR ''-'' (dec_of_nat n @ r) = None" for n
    using hd_dec_of_nat [of n] dec_of_nat_nonempty [of n]
    by (cases "dec_of_nat n") (auto simp: is_digit_def)
  show ?thesis
  proof (cases "i < 0")
    case True
    then show ?thesis
      using zero [of "nat (- i)"] follows_not_number [OF assms]
      by (auto simp: parse_number_def dec_of_int_def Let_def parse_number_nat [OF assms])
  next
    case False
    then show ?thesis
      using zero [of "nat i"] noneg follows_not_number [OF assms]
      by (auto simp: parse_number_def dec_of_int_def Let_def parse_number_nat [OF assms])
  qed
qed

lemma dec_of_int_Cons:
  obtains c s where "dec_of_int i = c # s" "is_digit c \<or> c = CHR ''-''"
proof (cases "i < 0")
  case True
  then show ?thesis using that by (simp add: dec_of_int_def)
next
  case False
  with that [of "hd (dec_of_nat (nat i))" "tl (dec_of_nat (nat i))"] hd_dec_of_nat show ?thesis
    by (simp add: dec_of_int_def)
qed

lemma json_print_start:
  "\<exists>c s. json_print v = c # s \<and> \<not> json_ws c \<and> c \<noteq> CHR '']'' \<and> c \<noteq> CHR ''}'' \<and> c \<noteq> CHR '',''"
proof (cases v)
  case (JNum q)
  obtain c s where "dec_of_int \<lfloor>q\<rfloor> = c # s" "is_digit c \<or> c = CHR ''-''"
    by (rule dec_of_int_Cons)
  then show ?thesis using JNum by (auto simp: is_digit_def json_ws_def)
qed (auto simp: json_string_def quote_char_def json_ws_def)

lemma skip_ws_print [simp]: "skip_ws (json_print v @ r) = json_print v @ r"
  using json_print_start [of v] by (auto simp: skip_ws_def)

lemma json_elems_False: "json_elems False xs = (if xs = [] then [] else CHR '','' # json_elems True xs)"
  by (cases xs) auto

lemma json_members_False:
  "list_all (\<lambda>(k, v). v \<noteq> JUndef) m \<Longrightarrow>
   json_members False m = (if m = [] then [] else CHR '','' # json_members True m)"
  by (cases m) auto

lemma update_fresh: "k \<notin> fst ` set m \<Longrightarrow> AList.update k v m = m @ [(k, v)]"
  by (induction m) auto

lemma printable_defined: "list_all (\<lambda>(k, v). json_printable v) m \<Longrightarrow> list_all (\<lambda>(k, v). v \<noteq> JUndef) m"
  by (induction m) auto

lemma length_json_print_pos: "0 < length (json_print v)"
  using json_print_start [of v] by auto

lemma parse_value_number:
  assumes "follows r" "0 < n"
  shows "parse_value n (dec_of_int i @ r) = Some (JNum (rat_of_int i), r)"
proof -
  obtain m where n: "n = Suc m" using assms(2) by (cases n) auto
  obtain c s where d: "dec_of_int i = c # s" and c: "is_digit c \<or> c = CHR ''-''"
    by (rule dec_of_int_Cons)
  have "skip_ws (c # s @ r) = c # s @ r" using c by (auto simp: skip_ws_def)
  moreover have "c \<noteq> quote_char" "c \<noteq> CHR ''[''" "c \<noteq> CHR ''{''" "c \<noteq> CHR ''n''" "c \<noteq> CHR ''t''" "c \<noteq> CHR ''f''"
    using c by (auto simp: is_digit_def quote_char_def)
  moreover have "parse_number (c # s @ r) = Some (rat_of_int i, r)"
    using parse_number_int [OF assms(1), of i] d by simp
  ultimately show ?thesis by (simp add: n d eat_word_def)
qed

lemma parse_value_words:
  "parse_value (Suc n) (CHR ''n'' # CHR ''u'' # CHR ''l'' # CHR ''l'' # r) = Some (JNull, r)"
  "parse_value (Suc n) (CHR ''t'' # CHR ''r'' # CHR ''u'' # CHR ''e'' # r) = Some (JBool True, r)"
  "parse_value (Suc n) (CHR ''f'' # CHR ''a'' # CHR ''l'' # CHR ''s'' # CHR ''e'' # r) = Some (JBool False, r)"
  by (simp_all add: skip_ws_def eat_word_def quote_char_def)

lemma parse_elems_step:
  assumes "parse_value n (json_print x @ json_elems False xs @ CHR '']'' # r) = Some (x, json_elems False xs @ CHR '']'' # r)"
    and "xs \<noteq> [] \<Longrightarrow> parse_elems n (json_elems True xs @ CHR '']'' # r) (acc @ [x]) = Some ((acc @ [x]) @ xs, r)"
  shows "parse_elems (Suc n) (json_elems True (x # xs) @ CHR '']'' # r) acc = Some (acc @ x # xs, r)"
  using assms by (auto simp: json_elems_False skip_ws_def)

lemma parse_members_step:
  assumes "parse_value n (json_print v @ json_members False m @ CHR ''}'' # r) = Some (v, json_members False m @ CHR ''}'' # r)"
    and "m \<noteq> [] \<Longrightarrow> parse_members n (json_members True m @ CHR ''}'' # r) (acc @ [(k, v)]) = Some ((acc @ [(k, v)]) @ m, r)"
    and "list_all (\<lambda>(k, v). v \<noteq> JUndef) ((k, v) # m)" "k \<notin> fst ` set acc"
  shows "parse_members (Suc n) (json_members True ((k, v) # m) @ CHR ''}'' # r) acc = Some (acc @ (k, v) # m, r)"
  using assms
  by (auto simp: json_members_False json_string_def skip_ws_def parse_str_json_string update_fresh)

lemma parse_value_print:
  fixes b1 b2 :: bool
  shows "json_printable v \<Longrightarrow> follows r \<Longrightarrow> length (json_print v) \<le> n \<Longrightarrow>
     parse_value n (json_print v @ r) = Some (v, r)"
  "list_all json_printable xs \<Longrightarrow> xs \<noteq> [] \<Longrightarrow> length (json_elems True xs) < n \<Longrightarrow>
     parse_elems n (json_elems True xs @ CHR '']'' # r) elems = Some (elems @ xs, r)"
  "list_all (\<lambda>(k, v). json_printable v) m \<Longrightarrow> m \<noteq> [] \<Longrightarrow> distinct (map fst (mems @ m)) \<Longrightarrow>
     length (json_members True m) < n \<Longrightarrow>
     parse_members n (json_members True m @ CHR ''}'' # r) mems = Some (mems @ m, r)"
proof (induction v and b1 xs and b2 m arbitrary: n r and n r elems and n r mems
       rule: json_print_json_elems_json_members.induct)
  case (4 q)
  then have "rat_of_int \<lfloor>q\<rfloor> = q" by (simp add: is_integer_def)
  moreover have "0 < n" using 4 length_json_print_pos [of "JNum q"] by linarith
  ultimately show ?case using 4 parse_value_number [of r n "\<lfloor>q\<rfloor>"] by simp
next
  case (6 xs)
  then obtain m where n: "n = Suc m" and m: "length (json_elems True xs) < m" by (cases n) auto
  show ?case
  proof (cases xs)
    case Nil
    then show ?thesis by (simp add: n skip_ws_def quote_char_def)
  next
    case (Cons x ys)
    have "eat CHR '']'' (skip_ws (json_elems True xs @ CHR '']'' # r)) = None"
      using json_print_start [of x] Cons by (auto simp: skip_ws_def)
    moreover have "parse_elems m (json_elems True xs @ CHR '']'' # r) [] = Some (xs, r)"
      using 6 Cons m by simp
    ultimately show ?thesis by (simp add: n skip_ws_def [of "CHR ''['' # _"] quote_char_def)
  qed
next
  case (7 ms)
  then obtain m where n: "n = Suc m" and m: "length (json_members True ms) < m" by (cases n) auto
  show ?case
  proof (cases ms)
    case Nil
    then show ?thesis by (simp add: n skip_ws_def quote_char_def)
  next
    case (Cons e es)
    obtain k v where e: "e = (k, v)" by (cases e)
    with 7 Cons have "v \<noteq> JUndef" by auto
    then have "eat CHR ''}'' (skip_ws (json_members True ms @ CHR ''}'' # r)) = None"
      using Cons e by (auto simp: skip_ws_def json_string_def quote_char_def json_ws_def)
    moreover have "parse_members m (json_members True ms @ CHR ''}'' # r) [] = Some (ms, r)"
      using 7 Cons m by simp
    ultimately show ?thesis by (simp add: n skip_ws_def [of "CHR ''{'' # _"] quote_char_def)
  qed
next
  case (9 b x xs)
  then obtain m where n: "n = Suc m" and m: "length (json_elems True (x # xs)) \<le> m" by (cases n) auto
  have f: "follows (json_elems False xs @ CHR '']'' # r)" by (auto simp: json_elems_False follows_def)
  show ?case unfolding n
    by (rule parse_elems_step) (use 9 m f length_json_print_pos [of x] in \<open>auto simp: json_elems_False\<close>)
next
  case (11 b k v ms)
  then have v: "v \<noteq> JUndef" and d: "list_all (\<lambda>(k, v). v \<noteq> JUndef) ((k, v) # ms)" and k: "k \<notin> fst ` set mems"
    by (auto dest: printable_defined)
  from 11 obtain m where n: "n = Suc m" and m: "length (json_members True ((k, v) # ms)) \<le> m" by (cases n) auto
  have f: "follows (json_members False ms @ CHR ''}'' # r)"
    using d by (auto simp: json_members_False follows_def)
  show ?case unfolding n
    by (rule parse_members_step [OF _ _ d k])
       (use 11 m f v d length_json_print_pos [of v] in \<open>auto simp: json_members_False\<close>)
next
  case (2 n r)
  then show ?case by (cases n) (simp_all add: parse_value_words del: parse_value.simps(2))
next
  case (3 b n r)
  then show ?case by (cases n; cases b) (simp_all add: parse_value_words del: parse_value.simps(2))
next
  case (5 s n r)
  then show ?case by (cases n) (simp_all add: json_string_def parse_str_json_string skip_ws_def)
qed simp_all

text \<open>Parsing a printed value gives it back, at the fuel \<open>json_parse\<close> provides.\<close>

lemma json_parse_stringify:
  assumes "json_printable v"
  shows "json_parse (json_stringify v) = Inr v"
proof -
  have "parse_value (length (json_print v) + 1) (json_print v @ []) = Some (v, [])"
    by (rule parse_value_print(1)) (simp_all add: assms follows_def)
  then show ?thesis by (simp add: json_parse_def json_stringify_def skip_ws_def)
qed

text \<open>The same with the line break that the services append to a file.\<close>

lemma json_parse_stringify_line:
  assumes "json_printable v"
  shows "json_parse (json_stringify v @ [CHR 0x0A]) = Inr v"
proof -
  have "parse_value (length (json_print v @ [CHR 0x0A]) + 1) (json_print v @ [CHR 0x0A]) = Some (v, [CHR 0x0A])"
    by (rule parse_value_print(1)) (simp_all add: assms follows_def)
  then show ?thesis by (simp add: json_parse_def json_stringify_def skip_ws_def json_ws_def)
qed

end
