(* ===== verification/Relayer_Payload.thy ===== *)
theory Relayer_Payload
  imports Relayer_Bytes Json
begin

text \<open>
  The pool-withdrawal payload a client seals for a relayer,
  \<^verbatim>\<open>relayer/src/shared/payload.ts\<close>: its hash preimage, its JSON form and the decoder the
  relayer runs on the opened box. The XDR encoding of addresses and symbols
  and signature verification under an operator's public key (\<^verbatim>\<open>@stellar/stellar-sdk\<close>) and
  Keccak-256 (\<^verbatim>\<open>@noble/hashes\<close>) are parameters, the fields of \<open>stellar_lib\<close>. Address fields are kept as the JSON values they arrive as: the decoder
  does not check them, the address encoder does.
\<close>

record stellar_lib =
  address_xdr :: "jv \<Rightarrow> byte list res"
  symbol_xdr :: "string \<Rightarrow> byte list"
  keccak_256 :: "byte list \<Rightarrow> byte list"
  sig_verify :: "string \<Rightarrow> byte list \<Rightarrow> byte list \<Rightarrow> bool res"

definition RELAY_PAYLOAD_DOMAIN :: string where
  "RELAY_PAYLOAD_DOMAIN = ''opaque-stellar-relay-v1''"

definition RELAY_CHAIN_STELLAR :: nat where
  "RELAY_CHAIN_STELLAR = 3000"

record PoolWithdrawPayload =
  poolId :: jv
  proofA :: "byte list"
  proofB :: "byte list"
  proofC :: "byte list"
  withdrawnValue :: int
  stateRoot :: "byte list"
  aspRoot :: "byte list"
  nullifierHash :: "byte list"
  newCommitment :: "byte list"
  recipient :: jv
  poolFee :: int
  poolRelayer :: jv

definition poolWithdrawPayloadPreimage :: "stellar_lib \<Rightarrow> PoolWithdrawPayload \<Rightarrow> byte list res" where
  "poolWithdrawPayloadPreimage L payload =
     res_bind (address_xdr L (poolId payload)) (\<lambda>pool.
     res_bind (assertLength (proofA payload) 64 ''proofA'') (\<lambda>a.
     res_bind (assertLength (proofB payload) 128 ''proofB'') (\<lambda>b.
     res_bind (assertLength (proofC payload) 64 ''proofC'') (\<lambda>c.
     res_bind (i128ToBytes (withdrawnValue payload)) (\<lambda>val.
     res_bind (assertLength (stateRoot payload) 32 ''stateRoot'') (\<lambda>sroot.
     res_bind (assertLength (aspRoot payload) 32 ''aspRoot'') (\<lambda>aroot.
     res_bind (assertLength (nullifierHash payload) 32 ''nullifierHash'') (\<lambda>nh.
     res_bind (assertLength (newCommitment payload) 32 ''newCommitment'') (\<lambda>nc.
     res_bind (address_xdr L (recipient payload)) (\<lambda>rcpt.
     res_bind (i128ToBytes (poolFee payload)) (\<lambda>fee.
     res_bind (address_xdr L (poolRelayer payload)) (\<lambda>rel.
       Inr (concatBytes [utf8 RELAY_PAYLOAD_DOMAIN, pool, symbol_xdr L ''withdraw'', a, b, c, val,
                         sroot, aroot, nh, nc, rcpt, fee, rel])))))))))))))"

definition hashPoolWithdrawPayload :: "stellar_lib \<Rightarrow> PoolWithdrawPayload \<Rightarrow> byte list res" where
  "hashPoolWithdrawPayload L payload =
     res_bind (poolWithdrawPayloadPreimage L payload) (\<lambda>pre. Inr (keccak_256 L pre))"

definition hashPoolWithdrawPayloadHex :: "stellar_lib \<Rightarrow> PoolWithdrawPayload \<Rightarrow> string res" where
  "hashPoolWithdrawPayloadHex L payload =
     res_bind (hashPoolWithdrawPayload L payload) (\<lambda>h. Inr (bytesToHex h))"

definition serializePoolWithdrawPayload :: "PoolWithdrawPayload \<Rightarrow> jv" where
  "serializePoolWithdrawPayload payload = JObj [
     (''poolId'', poolId payload),
     (''proofA'', JStr (bytesToHex (proofA payload))),
     (''proofB'', JStr (bytesToHex (proofB payload))),
     (''proofC'', JStr (bytesToHex (proofC payload))),
     (''withdrawnValue'', JStr (dec_of_int (withdrawnValue payload))),
     (''stateRoot'', JStr (bytesToHex (stateRoot payload))),
     (''aspRoot'', JStr (bytesToHex (aspRoot payload))),
     (''nullifierHash'', JStr (bytesToHex (nullifierHash payload))),
     (''newCommitment'', JStr (bytesToHex (newCommitment payload))),
     (''recipient'', recipient payload),
     (''poolFee'', JStr (dec_of_int (poolFee payload))),
     (''poolRelayer'', poolRelayer payload)]"

definition parse_bytes_field :: "jv \<Rightarrow> string \<Rightarrow> nat \<Rightarrow> byte list res" where
  "parse_bytes_field payload field len =
     res_bind (hexToBytes_jv (jv_get payload field)) (\<lambda>bs. assertLength bs len field)"

definition parsePoolWithdrawPayload :: "jv \<Rightarrow> PoolWithdrawPayload res" where
  "parsePoolWithdrawPayload payload =
     res_bind (parse_bytes_field payload ''proofA'' 64) (\<lambda>a.
     res_bind (parse_bytes_field payload ''proofB'' 128) (\<lambda>b.
     res_bind (parse_bytes_field payload ''proofC'' 64) (\<lambda>c.
     res_bind (js_BigInt (jv_get payload ''withdrawnValue'')) (\<lambda>val.
     res_bind (parse_bytes_field payload ''stateRoot'' 32) (\<lambda>sroot.
     res_bind (parse_bytes_field payload ''aspRoot'' 32) (\<lambda>aroot.
     res_bind (parse_bytes_field payload ''nullifierHash'' 32) (\<lambda>nh.
     res_bind (parse_bytes_field payload ''newCommitment'' 32) (\<lambda>nc.
     res_bind (js_BigInt (jv_get payload ''poolFee'')) (\<lambda>fee.
       Inr \<lparr> poolId = jv_get payload ''poolId'', proofA = a, proofB = b, proofC = c, withdrawnValue = val,
             stateRoot = sroot, aspRoot = aroot, nullifierHash = nh, newCommitment = nc,
             recipient = jv_get payload ''recipient'', poolFee = fee,
             poolRelayer = jv_get payload ''poolRelayer'' \<rparr>)))))))))"

definition encodePoolWithdrawPayload :: "PoolWithdrawPayload \<Rightarrow> byte list" where
  "encodePoolWithdrawPayload payload =
     utf8 (json_stringify (JObj [(''t'', JStr ''pool-withdraw''), (''v'', JNum 1),
                                 (''payload'', serializePoolWithdrawPayload payload)]))"

text \<open>\<open>new TextDecoder().decode(bytes)\<close> on ASCII bytes, and JavaScript truthiness.\<close>

definition text_decode :: "byte list \<Rightarrow> string" where
  "text_decode bytes = map (\<lambda>b. char_of (unat b)) bytes"

definition truthy :: "jv \<Rightarrow> bool" where
  "truthy v = (case v of JUndef \<Rightarrow> False | JNull \<Rightarrow> False | JBool b \<Rightarrow> b | JNum r \<Rightarrow> r \<noteq> 0
     | JStr s \<Rightarrow> s \<noteq> [] | _ \<Rightarrow> True)"

text \<open>\<open>decoded.t\<close> on a parsed \<open>null\<close> throws.\<close>

definition decodePoolWithdrawPayload :: "byte list \<Rightarrow> PoolWithdrawPayload res" where
  "decodePoolWithdrawPayload bytes =
     res_bind (json_parse (text_decode bytes)) (\<lambda>decoded.
       if decoded = JNull then Inl (TypeError ''Cannot read properties of null'')
       else if jv_get decoded ''t'' \<noteq> JStr ''pool-withdraw'' \<or> jv_get decoded ''v'' \<noteq> JNum 1
               \<or> \<not> truthy (jv_get decoded ''payload'')
       then Inl (Error ''Unsupported relayer payload.'')
       else parsePoolWithdrawPayload (jv_get decoded ''payload''))"


section \<open>Well-formed payloads and the round trip\<close>

definition payload_wf :: "PoolWithdrawPayload \<Rightarrow> bool" where
  "payload_wf p \<longleftrightarrow> length (proofA p) = 64 \<and> length (proofB p) = 128 \<and> length (proofC p) = 64
     \<and> length (stateRoot p) = 32 \<and> length (aspRoot p) = 32 \<and> length (nullifierHash p) = 32
     \<and> length (newCommitment p) = 32"

lemma text_decode_utf8 [simp]: "text_decode (utf8 s) = s"
proof -
  have "char_of (unat (of_nat (of_char c) :: byte)) = c" for c :: char
  proof -
    have "(of_char c :: nat) < 256" by (simp add: of_char_def)
    then show ?thesis by simp
  qed
  then show ?thesis by (simp add: text_decode_def utf8_def comp_def)
qed

lemma parse_serialize:
  "payload_wf p \<Longrightarrow> parsePoolWithdrawPayload (serializePoolWithdrawPayload p) = Inr p"
  by (simp add: payload_wf_def parsePoolWithdrawPayload_def serializePoolWithdrawPayload_def parse_bytes_field_def)

lemma parse_wf: "parsePoolWithdrawPayload v = Inr p \<Longrightarrow> payload_wf p"
  by (auto simp: parsePoolWithdrawPayload_def parse_bytes_field_def res_bind_eq_Inr payload_wf_def)

lemma decode_wf: "decodePoolWithdrawPayload bs = Inr p \<Longrightarrow> payload_wf p"
  by (auto simp: decodePoolWithdrawPayload_def res_bind_eq_Inr split: if_splits dest: parse_wf)

lemma preimage_wf: "poolWithdrawPayloadPreimage L p = Inr pre \<Longrightarrow> payload_wf p"
  by (auto simp: poolWithdrawPayloadPreimage_def res_bind_eq_Inr payload_wf_def)

lemma decode_encode:
  assumes "payload_wf p" "json_printable (poolId p)" "json_printable (recipient p)" "json_printable (poolRelayer p)"
  shows "decodePoolWithdrawPayload (encodePoolWithdrawPayload p) = Inr p"
proof -
  let ?msg = "JObj [(''t'', JStr ''pool-withdraw''), (''v'', JNum 1), (''payload'', serializePoolWithdrawPayload p)]"
  have "json_printable ?msg"
    using assms(2-4) by (simp add: serializePoolWithdrawPayload_def is_integer_def)
  then have "json_parse (json_stringify ?msg) = Inr ?msg" by (rule json_parse_stringify)
  moreover have "truthy (serializePoolWithdrawPayload p)" by (simp add: serializePoolWithdrawPayload_def truthy_def)
  ultimately show ?thesis
    using parse_serialize [OF assms(1)]
    by (simp add: decodePoolWithdrawPayload_def encodePoolWithdrawPayload_def)
qed


section \<open>The hash preimage is unambiguous\<close>

text \<open>
  XDR values are self-delimiting and an address has one encoding: stated of the address
  encoder as a hypothesis, everything else is computed here.
\<close>

definition address_xdr_delimited :: "stellar_lib \<Rightarrow> bool" where
  "address_xdr_delimited L \<longleftrightarrow>
     (\<forall>a b x y s t. address_xdr L a = Inr x \<longrightarrow> address_xdr L b = Inr y \<longrightarrow> x @ s = y @ t \<longrightarrow> a = b \<and> s = t)"

lemma address_cancel:
  "address_xdr_delimited L \<Longrightarrow> address_xdr L a = Inr x \<Longrightarrow> address_xdr L b = Inr y \<Longrightarrow> x @ s = y @ t \<Longrightarrow> a = b \<and> s = t"
  unfolding address_xdr_delimited_def by blast

lemma preimage_inj:
  assumes L: "address_xdr_delimited L"
    and p: "poolWithdrawPayloadPreimage L p = Inr pre" and q: "poolWithdrawPayloadPreimage L q = Inr pre"
  shows "p = q"
proof -
  from p obtain pool val rcpt fee rel where P:
    "address_xdr L (poolId p) = Inr pool" "i128ToBytes (withdrawnValue p) = Inr val"
    "address_xdr L (recipient p) = Inr rcpt" "i128ToBytes (poolFee p) = Inr fee" "address_xdr L (poolRelayer p) = Inr rel"
    "pre = utf8 RELAY_PAYLOAD_DOMAIN @ pool @ symbol_xdr L ''withdraw'' @ proofA p @ proofB p @ proofC p @ val @
       stateRoot p @ aspRoot p @ nullifierHash p @ newCommitment p @ rcpt @ fee @ rel"
    by (auto simp: poolWithdrawPayloadPreimage_def res_bind_eq_Inr)
  from q obtain pool' val' rcpt' fee' rel' where Q:
    "address_xdr L (poolId q) = Inr pool'" "i128ToBytes (withdrawnValue q) = Inr val'"
    "address_xdr L (recipient q) = Inr rcpt'" "i128ToBytes (poolFee q) = Inr fee'" "address_xdr L (poolRelayer q) = Inr rel'"
    "pre = utf8 RELAY_PAYLOAD_DOMAIN @ pool' @ symbol_xdr L ''withdraw'' @ proofA q @ proofB q @ proofC q @ val' @
       stateRoot q @ aspRoot q @ nullifierHash q @ newCommitment q @ rcpt' @ fee' @ rel'"
    by (auto simp: poolWithdrawPayloadPreimage_def res_bind_eq_Inr)
  note wf = preimage_wf [OF p, unfolded payload_wf_def] preimage_wf [OF q, unfolded payload_wf_def]
  note lens = P(2,4) [THEN i128ToBytes_length] Q(2,4) [THEN i128ToBytes_length]
  note eq = trans [OF P(6) [symmetric] Q(6), unfolded same_append_eq]
  from address_cancel [OF L P(1) Q(1) eq] have id: "poolId p = poolId q" and
    rest: "proofA p @ proofB p @ proofC p @ val @ stateRoot p @ aspRoot p @ nullifierHash p @ newCommitment p @ rcpt @ fee @ rel =
     proofA q @ proofB q @ proofC q @ val' @ stateRoot q @ aspRoot q @ nullifierHash q @ newCommitment q @ rcpt' @ fee' @ rel'"
    by (simp_all only: same_append_eq)
  from rest wf lens have mid: "proofA p = proofA q" "proofB p = proofB q" "proofC p = proofC q" "val = val'"
    "stateRoot p = stateRoot q" "aspRoot p = aspRoot q" "nullifierHash p = nullifierHash q"
    "newCommitment p = newCommitment q" and tail: "rcpt @ fee @ rel = rcpt' @ fee' @ rel'"
    by auto
  from address_cancel [OF L P(3) Q(3) tail] lens have "recipient p = recipient q" "fee = fee'" "rel = rel'"
    by auto
  moreover from \<open>rel = rel'\<close> address_cancel [OF L P(5) Q(5), of "[]" "[]"] have "poolRelayer p = poolRelayer q" by simp
  moreover from mid(4) P(2) Q(2) have "withdrawnValue p = withdrawnValue q" by (auto intro: i128ToBytes_inj)
  moreover from \<open>fee = fee'\<close> P(4) Q(4) have "poolFee p = poolFee q" by (auto intro: i128ToBytes_inj)
  ultimately show ?thesis using id mid by simp
qed


section \<open>Properties\<close>

text \<open>A concrete library for the examples: length-prefixed addresses, an identity hash.\<close>

definition example_lib :: stellar_lib where
  "example_lib = \<lparr> address_xdr = (\<lambda>v. if is_string v \<and> length (the_string v) < 256 ^ 4
                      then Inr (be_bytes 4 (length (the_string v)) @ utf8 (the_string v))
                      else Inl (Error ''Unsupported address type'')),
     symbol_xdr = utf8, keccak_256 = (\<lambda>bs. bs), sig_verify = (\<lambda>pk m s. Inr (m = s)) \<rparr>"

lemma example_lib_delimited: "address_xdr_delimited example_lib"
  unfolding address_xdr_delimited_def
proof (intro allI impI)
  fix a b x y s t
  assume x: "address_xdr example_lib a = Inr x" and y: "address_xdr example_lib b = Inr y" and eq: "x @ s = y @ t"
  define k l where "k = the_string a" and "l = the_string b"
  have k: "a = JStr k" "length k < 256 ^ 4" "x = be_bytes 4 (length k) @ utf8 k"
    and l: "b = JStr l" "length l < 256 ^ 4" "y = be_bytes 4 (length l) @ utf8 l"
    using x y by (auto simp: example_lib_def k_def l_def is_string_iff split: if_splits)
  from eq have "be_bytes 4 (length k) @ (utf8 k @ s) = be_bytes 4 (length l) @ (utf8 l @ t)" by (simp add: k l)
  from fixed_width.cancel [OF k(2) l(2) this] show "a = b \<and> s = t" by (auto simp: k(1) l(1))
qed

definition example_payload :: "int \<Rightarrow> PoolWithdrawPayload" where
  "example_payload fee = \<lparr> poolId = JStr ''CPOOL'', proofA = replicate 64 1, proofB = replicate 128 2,
     proofC = replicate 64 3, withdrawnValue = 1000, stateRoot = replicate 32 4, aspRoot = replicate 32 5,
     nullifierHash = replicate 32 6, newCommitment = replicate 32 7, recipient = JStr ''GRCPT'',
     poolFee = fee, poolRelayer = JStr ''GREL'' \<rparr>"

text \<open>
  A well-formed withdrawal payload that a client encodes for sealing is decoded by the
  relayer to exactly the same payload: every proof, root, amount and address survives the
  JSON text, the hexadecimal and the decimal conversions.
\<close>

lemma payload_encode_decode_roundtrip:
  assumes "payload_wf p"
    and "json_printable (poolId p)" "json_printable (recipient p)" "json_printable (poolRelayer p)"
  shows "decodePoolWithdrawPayload (encodePoolWithdrawPayload p) = Inr p"
  using assms by (rule decode_encode)

lemma payload_encode_decode_roundtrip_witness:
  "decodePoolWithdrawPayload (encodePoolWithdrawPayload (example_payload 10)) = Inr (example_payload 10)"
  by (rule payload_encode_decode_roundtrip) (simp_all add: example_payload_def payload_wf_def)

text \<open>
  Two different withdrawal payloads never have the same hash preimage, given that the XDR
  encoding of addresses is self-delimiting: the on-chain payload hash a relayer checks binds
  every field of the withdrawal up to collisions of Keccak-256.
\<close>

lemma payload_preimage_injective:
  assumes "address_xdr_delimited L" and "p \<noteq> q"
    and "poolWithdrawPayloadPreimage L p = Inr x" "poolWithdrawPayloadPreimage L q = Inr y"
  shows "x \<noteq> y"
  using assms preimage_inj by blast

lemma payload_preimage_injective_witness:
  "projr (poolWithdrawPayloadPreimage example_lib (example_payload 10))
   \<noteq> projr (poolWithdrawPayloadPreimage example_lib (example_payload 11))"
  by (rule payload_preimage_injective [OF example_lib_delimited, of "example_payload 10" "example_payload 11"])
     (simp_all add: example_payload_def example_lib_def poolWithdrawPayloadPreimage_def i128ToBytes_def Let_def)

end
