(* ===== verification/Relayer_Messages.thy ===== *)
theory Relayer_Messages
  imports Relayer_Payload
begin

text \<open>
  The gossip messages of the relayer network, \<^verbatim>\<open>relayer/src/messages.ts\<close>: adverts, bids,
  sealed payloads, outcomes and heartbeats, their validation from JSON, and the signed
  digests of bids, outcomes and heartbeats. Fields the validators leave unchecked
  (\<open>chain\<close>, \<open>endpoint\<close>, \<open>freeStake\<close>, \<open>idempotencyKey\<close>) stay JSON values;
  properties of a message beyond those of its type are not read by any component and are
  dropped. A key pair is its public key string and its signing function.
\<close>

definition BID_DOMAIN :: "byte list" where
  "BID_DOMAIN = utf8 ''opaque-relayer-bid-v2''"

record JobAdvert =
  adv_jobId :: string
  adv_chain :: jv
  adv_fee :: string
  adv_deadline :: rat
  adv_payloadHash :: string

record RelayerBid =
  bid_jobId :: string
  bid_chain :: jv
  bid_operator :: string
  bid_x25519Pk :: string
  bid_sig :: string
  bid_endpoint :: jv
  bid_freeStake :: jv

record EncryptedPayload =
  enc_jobId :: string
  enc_to :: string
  enc_box :: string
  enc_idempotencyKey :: jv

datatype outcome_result = Completed | Failed

record RelayerOutcome =
  out_jobId :: string
  out_operator :: string
  out_result :: outcome_result
  out_sig :: string
  out_timestamp :: rat

record RelayerHeartbeat =
  hb_operator :: string
  hb_sig :: string
  hb_timestamp :: rat

datatype RelayerMessage =
    MAdvert JobAdvert
  | MBid RelayerBid
  | MPayload EncryptedPayload
  | MOutcome RelayerOutcome
  | MHeartbeat RelayerHeartbeat

record Keypair =
  kp_publicKey :: string
  kp_sign :: "byte list \<Rightarrow> byte list"


section \<open>Validation\<close>

text \<open>\<open>assertLength(hexToBytes(value), len, label)\<close> run for its exceptions.\<close>

definition check_hex :: "string \<Rightarrow> nat \<Rightarrow> string \<Rightarrow> byte list res" where
  "check_hex h len label = res_bind (hexToBytes h) (\<lambda>bs. assertLength bs len label)"

definition validateAdvert :: "jv \<Rightarrow> JobAdvert res" where
  "validateAdvert v =
     (if jv_get v ''t'' \<noteq> JStr ''advert'' \<or> jv_get v ''v'' \<noteq> JNum 1
         \<or> \<not> is_string (jv_get v ''jobId'') \<or> \<not> is_string (jv_get v ''payloadHash'')
         \<or> \<not> is_string (jv_get v ''fee'') \<or> \<not> is_number (jv_get v ''deadline'')
      then Inl (Error ''Invalid relayer advert.'')
      else res_bind (check_hex (the_string (jv_get v ''jobId'')) 32 ''jobId'') (\<lambda>_.
           res_bind (check_hex (the_string (jv_get v ''payloadHash'')) 32 ''payloadHash'') (\<lambda>_.
           Inr \<lparr> adv_jobId = the_string (jv_get v ''jobId''),
                 adv_chain = nullish (jv_get v ''chain'') (JNum (of_nat RELAY_CHAIN_STELLAR)),
                 adv_fee = the_string (jv_get v ''fee''),
                 adv_deadline = the_number (jv_get v ''deadline''),
                 adv_payloadHash = the_string (jv_get v ''payloadHash'') \<rparr>)))"

definition validateBid :: "jv \<Rightarrow> RelayerBid res" where
  "validateBid v =
     (if jv_get v ''t'' \<noteq> JStr ''bid'' \<or> jv_get v ''v'' \<noteq> JNum 1
         \<or> \<not> is_string (jv_get v ''jobId'') \<or> \<not> is_string (jv_get v ''operator'')
         \<or> \<not> is_string (jv_get v ''x25519Pk'') \<or> \<not> is_string (jv_get v ''sig'')
      then Inl (Error ''Invalid relayer bid.'')
      else res_bind (check_hex (the_string (jv_get v ''jobId'')) 32 ''jobId'') (\<lambda>_.
           res_bind (check_hex (the_string (jv_get v ''x25519Pk'')) 32 ''x25519Pk'') (\<lambda>_.
           Inr \<lparr> bid_jobId = the_string (jv_get v ''jobId''),
                 bid_chain = nullish (jv_get v ''chain'') (JNum (of_nat RELAY_CHAIN_STELLAR)),
                 bid_operator = the_string (jv_get v ''operator''),
                 bid_x25519Pk = the_string (jv_get v ''x25519Pk''),
                 bid_sig = the_string (jv_get v ''sig''),
                 bid_endpoint = jv_get v ''endpoint'',
                 bid_freeStake = jv_get v ''freeStake'' \<rparr>)))"

definition validateOutcome :: "jv \<Rightarrow> RelayerOutcome res" where
  "validateOutcome v =
     (if jv_get v ''t'' \<noteq> JStr ''outcome'' \<or> jv_get v ''v'' \<noteq> JNum 1
         \<or> \<not> is_string (jv_get v ''jobId'') \<or> \<not> is_string (jv_get v ''operator'')
         \<or> (jv_get v ''result'' \<noteq> JStr ''completed'' \<and> jv_get v ''result'' \<noteq> JStr ''failed'')
         \<or> \<not> is_string (jv_get v ''sig'') \<or> \<not> is_number (jv_get v ''timestamp'')
      then Inl (Error ''Invalid relayer outcome.'')
      else res_bind (check_hex (the_string (jv_get v ''jobId'')) 32 ''jobId'') (\<lambda>_.
           Inr \<lparr> out_jobId = the_string (jv_get v ''jobId''),
                 out_operator = the_string (jv_get v ''operator''),
                 out_result = (if jv_get v ''result'' = JStr ''completed'' then Completed else Failed),
                 out_sig = the_string (jv_get v ''sig''),
                 out_timestamp = the_number (jv_get v ''timestamp'') \<rparr>))"

definition validateHeartbeat :: "jv \<Rightarrow> RelayerHeartbeat res" where
  "validateHeartbeat v =
     (if jv_get v ''t'' \<noteq> JStr ''heartbeat'' \<or> jv_get v ''v'' \<noteq> JNum 1
         \<or> \<not> is_string (jv_get v ''operator'')
         \<or> \<not> is_string (jv_get v ''sig'') \<or> \<not> is_number (jv_get v ''timestamp'')
      then Inl (Error ''Invalid relayer heartbeat.'')
      else Inr \<lparr> hb_operator = the_string (jv_get v ''operator''),
                 hb_sig = the_string (jv_get v ''sig''),
                 hb_timestamp = the_number (jv_get v ''timestamp'') \<rparr>)"

definition validatePayload :: "jv \<Rightarrow> EncryptedPayload res" where
  "validatePayload v =
     (if jv_get v ''t'' \<noteq> JStr ''payload'' \<or> jv_get v ''v'' \<noteq> JNum 1
         \<or> \<not> is_string (jv_get v ''jobId'') \<or> \<not> is_string (jv_get v ''to'')
         \<or> \<not> is_string (jv_get v ''box'')
      then Inl (Error ''Invalid relayer payload.'')
      else res_bind (check_hex (the_string (jv_get v ''jobId'')) 32 ''jobId'') (\<lambda>_.
           res_bind (check_hex (the_string (jv_get v ''to'')) 32 ''payload recipient'') (\<lambda>_.
           Inr \<lparr> enc_jobId = the_string (jv_get v ''jobId''),
                 enc_to = the_string (jv_get v ''to''),
                 enc_box = the_string (jv_get v ''box''),
                 enc_idempotencyKey = jv_get v ''idempotencyKey'' \<rparr>)))"

definition validateRelayerMessage :: "jv \<Rightarrow> RelayerMessage res" where
  "validateRelayerMessage v =
     (if jv_get v ''t'' = JStr ''advert'' then res_bind (validateAdvert v) (\<lambda>m. Inr (MAdvert m))
      else if jv_get v ''t'' = JStr ''bid'' then res_bind (validateBid v) (\<lambda>m. Inr (MBid m))
      else if jv_get v ''t'' = JStr ''payload'' then res_bind (validatePayload v) (\<lambda>m. Inr (MPayload m))
      else if jv_get v ''t'' = JStr ''outcome'' then res_bind (validateOutcome v) (\<lambda>m. Inr (MOutcome m))
      else if jv_get v ''t'' = JStr ''heartbeat'' then res_bind (validateHeartbeat v) (\<lambda>m. Inr (MHeartbeat m))
      else Inl (Error ''Invalid relayer message.''))"

text \<open>The JSON object each message type is, as it is published.\<close>

definition advert_json :: "JobAdvert \<Rightarrow> jv" where
  "advert_json a = JObj [(''t'', JStr ''advert''), (''v'', JNum 1), (''jobId'', JStr (adv_jobId a)),
     (''chain'', adv_chain a), (''fee'', JStr (adv_fee a)), (''deadline'', JNum (adv_deadline a)),
     (''payloadHash'', JStr (adv_payloadHash a))]"

definition bid_json :: "RelayerBid \<Rightarrow> jv" where
  "bid_json b = JObj [(''t'', JStr ''bid''), (''v'', JNum 1), (''jobId'', JStr (bid_jobId b)),
     (''chain'', bid_chain b), (''operator'', JStr (bid_operator b)), (''x25519Pk'', JStr (bid_x25519Pk b)),
     (''sig'', JStr (bid_sig b)), (''endpoint'', bid_endpoint b), (''freeStake'', bid_freeStake b)]"


section \<open>Making and verifying\<close>

definition makeAdvert :: "byte list \<Rightarrow> int \<Rightarrow> rat \<Rightarrow> byte list \<Rightarrow> jv \<Rightarrow> JobAdvert res" where
  "makeAdvert jobId fee deadline payloadHash chain =
     res_bind (assertLength jobId 32 ''jobId'') (\<lambda>j.
     res_bind (assertLength payloadHash 32 ''payloadHash'') (\<lambda>h.
       Inr \<lparr> adv_jobId = bytesToHex j, adv_chain = nullish chain (JNum (of_nat RELAY_CHAIN_STELLAR)),
             adv_fee = dec_of_int fee, adv_deadline = deadline, adv_payloadHash = bytesToHex h \<rparr>))"

definition uint32BE :: "jv \<Rightarrow> byte list" where
  "uint32BE n = be_bytes 4 (js_ToUint32 n)"

definition uint64BE :: "int \<Rightarrow> byte list" where
  "uint64BE n = be_bytes 4 (nat (n div 2 ^ 32 mod 2 ^ 32)) @ be_bytes 4 (nat (n mod 2 ^ 32))"

definition lengthPrefixedUtf8 :: "string \<Rightarrow> byte list" where
  "lengthPrefixedUtf8 s = concatBytes [be_bytes 2 (length (utf8 s)), utf8 s]"

definition bidPreimage :: "byte list \<Rightarrow> byte list \<Rightarrow> jv \<Rightarrow> string \<Rightarrow> int \<Rightarrow> byte list res" where
  "bidPreimage jobId x25519Pk chain endpoint freeStake =
     res_bind (assertLength jobId 32 ''jobId'') (\<lambda>j.
     res_bind (assertLength x25519Pk 32 ''x25519Pk'') (\<lambda>pk.
       Inr (concatBytes [BID_DOMAIN, j, pk, uint32BE chain, lengthPrefixedUtf8 endpoint, uint64BE freeStake])))"

definition bidSigningDigest ::
    "stellar_lib \<Rightarrow> byte list \<Rightarrow> byte list \<Rightarrow> jv \<Rightarrow> string \<Rightarrow> int \<Rightarrow> byte list res" where
  "bidSigningDigest L jobId x25519Pk chain endpoint freeStake =
     res_bind (bidPreimage jobId x25519Pk chain endpoint freeStake) (\<lambda>pre. Inr (keccak_256 L pre))"

definition makeBid ::
    "stellar_lib \<Rightarrow> JobAdvert \<Rightarrow> Keypair \<Rightarrow> byte list \<Rightarrow> string option \<Rightarrow> int option \<Rightarrow> RelayerBid res" where
  "makeBid L advert operator x25519Pk0 endpoint freeStake =
     res_bind (assertLength x25519Pk0 32 ''x25519Pk'') (\<lambda>x25519Pk.
     res_bind (hexToBytes (adv_jobId advert)) (\<lambda>jobId.
     res_bind (bidSigningDigest L jobId x25519Pk (adv_chain advert)
                 (case endpoint of None \<Rightarrow> [] | Some e \<Rightarrow> e) (case freeStake of None \<Rightarrow> 0 | Some f \<Rightarrow> f)) (\<lambda>digest.
       Inr \<lparr> bid_jobId = adv_jobId advert, bid_chain = adv_chain advert,
             bid_operator = kp_publicKey operator, bid_x25519Pk = bytesToHex x25519Pk,
             bid_sig = bytesToBase64 (kp_sign operator digest),
             bid_endpoint = (case endpoint of None \<Rightarrow> JUndef | Some e \<Rightarrow> JStr e),
             bid_freeStake = (case freeStake of None \<Rightarrow> JUndef | Some f \<Rightarrow> JStr (dec_of_int f)) \<rparr>)))"

text \<open>Every exception inside a verifier is caught and means \<open>false\<close>.\<close>

definition catch_false :: "bool res \<Rightarrow> bool" where
  "catch_false r = (case r of Inl _ \<Rightarrow> False | Inr b \<Rightarrow> b)"

definition verifyBid :: "stellar_lib \<Rightarrow> RelayerBid \<Rightarrow> bool" where
  "verifyBid L bid = catch_false (
     res_bind (hexToBytes (bid_jobId bid)) (\<lambda>jobId.
     res_bind (hexToBytes (bid_x25519Pk bid)) (\<lambda>pk.
     res_bind (if bid_freeStake bid \<noteq> JUndef then js_BigInt (bid_freeStake bid) else Inr 0) (\<lambda>stake.
     res_bind (bidSigningDigest L jobId pk (nullish (bid_chain bid) (JNum 0))
                 (js_String (nullish (bid_endpoint bid) (JStr []))) stake) (\<lambda>digest.
     res_bind (base64ToBytes (bid_sig bid)) (\<lambda>sig.
       sig_verify L (bid_operator bid) digest sig))))))"

definition OUTCOME_DOMAIN :: "byte list" where
  "OUTCOME_DOMAIN = utf8 ''opaque-relayer-outcome-v1''"

definition HEARTBEAT_DOMAIN :: "byte list" where
  "HEARTBEAT_DOMAIN = utf8 ''opaque-relayer-heartbeat-v1''"

definition outcomePreimage :: "byte list \<Rightarrow> string \<Rightarrow> outcome_result \<Rightarrow> rat \<Rightarrow> byte list res" where
  "outcomePreimage jobId operator result timestamp =
     res_bind (assertLength jobId 32 ''jobId'') (\<lambda>j.
     res_bind (js_BigInt_num timestamp) (\<lambda>ts.
       Inr (concatBytes [OUTCOME_DOMAIN, j, utf8 operator, [if result = Completed then 1 else 0], uint64BE ts])))"

definition outcomeSigningDigest ::
    "stellar_lib \<Rightarrow> byte list \<Rightarrow> string \<Rightarrow> outcome_result \<Rightarrow> rat \<Rightarrow> byte list res" where
  "outcomeSigningDigest L jobId operator result timestamp =
     res_bind (outcomePreimage jobId operator result timestamp) (\<lambda>pre. Inr (keccak_256 L pre))"

definition heartbeatSigningDigest :: "stellar_lib \<Rightarrow> string \<Rightarrow> rat \<Rightarrow> byte list res" where
  "heartbeatSigningDigest L operator timestamp =
     res_bind (js_BigInt_num timestamp) (\<lambda>ts.
       Inr (keccak_256 L (concatBytes [HEARTBEAT_DOMAIN, utf8 operator, uint64BE ts])))"

definition verifyOutcome :: "stellar_lib \<Rightarrow> RelayerOutcome \<Rightarrow> bool" where
  "verifyOutcome L outcome = catch_false (
     res_bind (hexToBytes (out_jobId outcome)) (\<lambda>jobId.
     res_bind (outcomeSigningDigest L jobId (out_operator outcome) (out_result outcome) (out_timestamp outcome)) (\<lambda>digest.
     res_bind (base64ToBytes (out_sig outcome)) (\<lambda>sig.
       sig_verify L (out_operator outcome) digest sig))))"

definition verifyHeartbeat :: "stellar_lib \<Rightarrow> RelayerHeartbeat \<Rightarrow> bool" where
  "verifyHeartbeat L heartbeat = catch_false (
     res_bind (heartbeatSigningDigest L (hb_operator heartbeat) (hb_timestamp heartbeat)) (\<lambda>digest.
     res_bind (base64ToBytes (hb_sig heartbeat)) (\<lambda>sig.
       sig_verify L (hb_operator heartbeat) digest sig)))"


section \<open>What validation guarantees\<close>

lemma check_hex_Inr: "check_hex h n l = Inr bs \<longleftrightarrow> hexToBytes h = Inr bs \<and> length bs = n"
  by (auto simp: check_hex_def res_bind_eq_Inr)

lemma check_hex_bytesToHex [simp]: "length bs = n \<Longrightarrow> check_hex (bytesToHex bs) n l = Inr bs"
  by (simp add: check_hex_def)

lemma validateAdvert_Inr:
  "validateAdvert v = Inr a \<Longrightarrow> \<exists>j h. hexToBytes (adv_jobId a) = Inr j \<and> length j = 32 \<and>
     hexToBytes (adv_payloadHash a) = Inr h \<and> length h = 32 \<and> adv_chain a \<noteq> JUndef \<and> adv_chain a \<noteq> JNull"
  by (auto simp: validateAdvert_def res_bind_eq_Inr check_hex_Inr nullish_def split: if_splits jv.splits)

lemma validateBid_Inr:
  "validateBid v = Inr b \<Longrightarrow> \<exists>j k. hexToBytes (bid_jobId b) = Inr j \<and> length j = 32 \<and>
     hexToBytes (bid_x25519Pk b) = Inr k \<and> length k = 32"
  by (auto simp: validateBid_def res_bind_eq_Inr check_hex_Inr split: if_splits)

lemma validateOutcome_Inr:
  "validateOutcome v = Inr b \<Longrightarrow> \<exists>j. hexToBytes (out_jobId b) = Inr j \<and> length j = 32"
  by (auto simp: validateOutcome_def res_bind_eq_Inr check_hex_Inr split: if_splits)

lemma validatePayload_Inr:
  "validatePayload v = Inr p \<Longrightarrow> \<exists>j k. hexToBytes (enc_jobId p) = Inr j \<and> length j = 32 \<and>
     hexToBytes (enc_to p) = Inr k \<and> length k = 32"
  by (auto simp: validatePayload_def res_bind_eq_Inr check_hex_Inr split: if_splits)

text \<open>A message accepted by the dispatcher has the constructor of its tag.\<close>

lemma validateRelayerMessage_cases:
  assumes "validateRelayerMessage v = Inr m"
  shows "case m of MAdvert a \<Rightarrow> validateAdvert v = Inr a | MBid b \<Rightarrow> validateBid v = Inr b
    | MPayload p \<Rightarrow> validatePayload v = Inr p | MOutcome out \<Rightarrow> validateOutcome v = Inr out
    | MHeartbeat h \<Rightarrow> validateHeartbeat v = Inr h"
  using assms by (auto simp: validateRelayerMessage_def res_bind_eq_Inr split: if_splits)

lemma validateAdvert_json:
  assumes "hexToBytes (adv_jobId a) = Inr j" "length j = 32"
    and "hexToBytes (adv_payloadHash a) = Inr h" "length h = 32"
    and "adv_chain a \<noteq> JUndef" "adv_chain a \<noteq> JNull"
  shows "validateAdvert (advert_json a) = Inr a"
  using assms by (cases "adv_chain a") (simp_all add: validateAdvert_def advert_json_def check_hex_def nullish_def)

lemma validateBid_json:
  assumes "hexToBytes (bid_jobId b) = Inr j" "length j = 32"
    and "hexToBytes (bid_x25519Pk b) = Inr k" "length k = 32"
    and "bid_chain b \<noteq> JUndef" "bid_chain b \<noteq> JNull"
  shows "validateBid (bid_json b) = Inr b"
  using assms by (cases "bid_chain b") (simp_all add: validateBid_def bid_json_def check_hex_def nullish_def)

text \<open>
  An absent property and a property that is \<open>undefined\<close> read the same, so a message that
  travels as text is validated as the object it was.
\<close>

definition drop_undef :: "(string \<times> jv) list \<Rightarrow> (string \<times> jv) list" where
  "drop_undef m = filter (\<lambda>(k, v). v \<noteq> JUndef) m"

lemma json_members_drop_undef: "json_members f m = json_members f (drop_undef m)"
  by (induction m arbitrary: f) (auto simp: drop_undef_def)

lemma json_print_drop_undef: "json_print (JObj m) = json_print (JObj (drop_undef m))"
  using json_members_drop_undef [of True m] by simp

lemma map_of_drop_undef_out:
  "k \<notin> fst ` set m \<Longrightarrow> map_of (drop_undef m) k = None"
  by (induction m) (auto simp: drop_undef_def)

lemma jv_get_drop_undef:
  assumes "distinct (map fst m)"
  shows "jv_get (JObj (drop_undef m)) k = jv_get (JObj m) k"
  using assms
proof (induction m)
  case (Cons e m)
  obtain a v where e: "e = (a, v)" by (cases e)
  with Cons have "map_of (drop_undef m) a = None" by (intro map_of_drop_undef_out) auto
  with Cons e show ?case by (auto simp: drop_undef_def)
qed (simp add: drop_undef_def)

lemma validateBid_drop_undef:
  "distinct (map fst m) \<Longrightarrow> validateBid (JObj (drop_undef m)) = validateBid (JObj m)"
  unfolding validateBid_def by (simp only: jv_get_drop_undef)

definition wire :: "jv \<Rightarrow> jv res" where
  "wire v = json_parse (json_stringify v)"

lemma wire_obj:
  assumes "json_printable (JObj (drop_undef m))"
  shows "wire (JObj m) = Inr (JObj (drop_undef m))"
  using json_parse_stringify [OF assms] json_print_drop_undef [of m]
  by (simp add: wire_def json_stringify_def)


section \<open>Signed digests\<close>

text \<open>The endpoint's length prefix makes it self-delimiting up to its 16 bits.\<close>

interpretation endpoint: self_delimiting lengthPrefixedUtf8 "\<lambda>s. length s < 65536"
proof
  fix x y :: string and s t
  assume len: "length x < 65536" "length y < 65536"
    and eq: "lengthPrefixedUtf8 x @ s = lengthPrefixedUtf8 y @ t"
  then have eq': "be_bytes 2 (length x) @ (utf8 x @ s) = be_bytes 2 (length y) @ (utf8 y @ t)"
    by (simp add: lengthPrefixedUtf8_def)
  have "length x < 256 ^ 2" "length y < 256 ^ 2" using len by simp_all
  from fixed_width.cancel [OF this eq'] have "length x = length y" "utf8 x @ s = utf8 y @ t" by blast+
  then show "x = y \<and> s = t" by simp
qed

lemma length_uint64BE [simp]: "length (uint64BE n) = 8"
  by (simp add: uint64BE_def)

lemma uint64BE_eq_iff: "uint64BE m = uint64BE n \<longleftrightarrow> m mod 2 ^ 64 = n mod 2 ^ 64"
proof -
  have split: "k mod (2 ^ 32 * 2 ^ 32) = 2 ^ 32 * (k div 2 ^ 32 mod 2 ^ 32) + k mod 2 ^ 32" for k :: int
    by (rule zmod_zmult2_eq) simp
  have word: "be_bytes 4 (nat (a mod 2 ^ 32)) = be_bytes 4 (nat (b mod 2 ^ 32)) \<longleftrightarrow> a mod 2 ^ 32 = b mod 2 ^ 32" for a b :: int
  proof -
    have "nat (a mod 2 ^ 32) < 256 ^ 4" "nat (b mod 2 ^ 32) < 256 ^ 4" by (simp_all add: nat_less_iff)
    then show ?thesis by (simp only: be_bytes_inj eq_nat_nat_iff pos_mod_sign zero_less_power zero_less_numeral)
  qed
  have "uint64BE m = uint64BE n \<longleftrightarrow>
    m div 2 ^ 32 mod 2 ^ 32 = n div 2 ^ 32 mod 2 ^ 32 \<and> m mod 2 ^ 32 = n mod 2 ^ 32"
    by (simp only: uint64BE_def append_eq_append_conv length_be_bytes word simp_thms)
  also have "\<dots> \<longleftrightarrow> m mod (2 ^ 32 * 2 ^ 32) = n mod (2 ^ 32 * 2 ^ 32)"
  proof
    assume eq: "m mod (2 ^ 32 * 2 ^ 32) = n mod (2 ^ 32 * 2 ^ 32)"
    have low: "m mod 2 ^ 32 = n mod 2 ^ 32"
      using arg_cong [OF eq, of "\<lambda>k. k mod 2 ^ 32"] by (simp only: mod_mod_cancel dvd_triv_left)
    with eq [unfolded split] have "2 ^ 32 * (m div 2 ^ 32 mod 2 ^ 32) = 2 ^ 32 * (n div 2 ^ 32 mod 2 ^ 32)"
      by (simp only: add_right_cancel)
    then have "m div 2 ^ 32 mod 2 ^ 32 = n div 2 ^ 32 mod 2 ^ 32"
      by (rule mult_left_cancel [THEN iffD1, rotated]) simp
    with low show "m div 2 ^ 32 mod 2 ^ 32 = n div 2 ^ 32 mod 2 ^ 32 \<and> m mod 2 ^ 32 = n mod 2 ^ 32" by (rule conjI [rotated])
  qed (simp only: split)
  finally show ?thesis by simp
qed


text \<open>
  The bytes a bid's signature covers determine the job, the encryption key, the endpoint,
  the chain as the 32-bit number it is read as and the stake modulo \<open>2 ^ 64\<close>.
\<close>

lemma bidPreimage_inj:
  assumes p: "bidPreimage j k c e f = Inr pre" and q: "bidPreimage j' k' c' e' f' = Inr pre"
    and len: "length e < 65536" "length e' < 65536"
  shows "j = j' \<and> k = k' \<and> js_ToUint32 c = js_ToUint32 c' \<and> e = e' \<and> f mod 2 ^ 64 = f' mod 2 ^ 64"
proof -
  have lens: "length j = 32" "length j' = 32" "length k = 32" "length k' = 32"
    and eq: "j @ k @ uint32BE c @ lengthPrefixedUtf8 e @ uint64BE f =
             j' @ k' @ uint32BE c' @ lengthPrefixedUtf8 e' @ uint64BE f'"
    using p q by (auto simp: bidPreimage_def res_bind_eq_Inr)
  then have keys: "j = j'" "k = k'" and
    eq2: "uint32BE c @ (lengthPrefixedUtf8 e @ uint64BE f) = uint32BE c' @ (lengthPrefixedUtf8 e' @ uint64BE f')"
    by auto
  have "js_ToUint32 c < 256 ^ 4" "js_ToUint32 c' < 256 ^ 4" using js_ToUint32_bound by simp_all
  from fixed_width.cancel [OF this eq2 [unfolded uint32BE_def]]
  have c: "js_ToUint32 c = js_ToUint32 c'" and eq3: "lengthPrefixedUtf8 e @ uint64BE f = lengthPrefixedUtf8 e' @ uint64BE f'"
    by blast+
  from endpoint.cancel [OF len eq3] have "e = e'" "uint64BE f = uint64BE f'" by blast+
  with keys c show ?thesis by (simp only: uint64BE_eq_iff)
qed

lemma outcomePreimage_inj:
  assumes p: "outcomePreimage j k r t = Inr pre" and q: "outcomePreimage j' k' r' t' = Inr pre"
    and time: "0 \<le> t" "t < 2 ^ 64" "0 \<le> t'" "t' < 2 ^ 64"
  shows "j = j' \<and> k = k' \<and> r = r' \<and> t = t'"
proof -
  let ?w = "\<lambda>r. if r = Completed then 1 else (0 :: byte)"
  from p q have int: "is_integer t" "is_integer t'" and len: "length j = length j'"
    and eq: "j @ utf8 k @ [?w r] @ uint64BE \<lfloor>t\<rfloor> = j' @ utf8 k' @ [?w r'] @ uint64BE \<lfloor>t'\<rfloor>"
    by (auto simp: outcomePreimage_def res_bind_eq_Inr js_BigInt_num_def split: if_splits)
  from append_same_length [OF eq len] have j: "j = j'"
    and eq2: "(utf8 k @ [?w r]) @ uint64BE \<lfloor>t\<rfloor> = (utf8 k' @ [?w r']) @ uint64BE \<lfloor>t'\<rfloor>" by auto
  then have kr: "utf8 k @ [?w r] = utf8 k' @ [?w r']" and tt: "uint64BE \<lfloor>t\<rfloor> = uint64BE \<lfloor>t'\<rfloor>"
    by (auto simp: append_eq_append_conv [of "_ @ _"] simp del: append_assoc)
  from kr have "k = k'" "r = r'" by (cases r; cases r'; simp)+
  moreover have "\<lfloor>t\<rfloor> mod 2 ^ 64 = \<lfloor>t\<rfloor>" "\<lfloor>t'\<rfloor> mod 2 ^ 64 = \<lfloor>t'\<rfloor>"
    using time by (simp_all add: floor_less_iff)
  with tt have "\<lfloor>t\<rfloor> = \<lfloor>t'\<rfloor>" by (simp only: uint64BE_eq_iff)
  with int have "t = t'" by (metis is_integer_def)
  ultimately show ?thesis using j by simp
qed

text \<open>The law of the signature scheme: what a key pair signs verifies under its public key.\<close>

definition signs :: "stellar_lib \<Rightarrow> Keypair \<Rightarrow> bool" where
  "signs L kp \<longleftrightarrow> (\<forall>m. sig_verify L (kp_publicKey kp) m (kp_sign kp m) = Inr True)"

lemma verifyBid_makeBid:
  assumes "signs L kp" "adv_chain a \<noteq> JUndef" "adv_chain a \<noteq> JNull"
    and "makeBid L a kp pk endpoint freeStake = Inr b"
  shows "verifyBid L b"
proof -
  from assms obtain jobId digest where j: "hexToBytes (adv_jobId a) = Inr jobId" and pk: "length pk = 32"
    and dg: "bidSigningDigest L jobId pk (adv_chain a) (case endpoint of None \<Rightarrow> [] | Some e \<Rightarrow> e)
               (case freeStake of None \<Rightarrow> 0 | Some f \<Rightarrow> f) = Inr digest"
    and b: "b = \<lparr> bid_jobId = adv_jobId a, bid_chain = adv_chain a,
             bid_operator = kp_publicKey kp, bid_x25519Pk = bytesToHex pk,
             bid_sig = bytesToBase64 (kp_sign kp digest),
             bid_endpoint = (case endpoint of None \<Rightarrow> JUndef | Some e \<Rightarrow> JStr e),
             bid_freeStake = (case freeStake of None \<Rightarrow> JUndef | Some f \<Rightarrow> JStr (dec_of_int f)) \<rparr>"
    by (auto simp: makeBid_def res_bind_eq_Inr)
  have chain: "nullish (adv_chain a) (JNum 0) = adv_chain a"
    using assms(2,3) by (cases "adv_chain a") (simp_all add: nullish_def)
  have "js_String (nullish (bid_endpoint b) (JStr [])) = (case endpoint of None \<Rightarrow> [] | Some e \<Rightarrow> e)"
    by (simp add: b nullish_def split: option.split)
  moreover have "(if bid_freeStake b \<noteq> JUndef then js_BigInt (bid_freeStake b) else Inr 0)
      = Inr (case freeStake of None \<Rightarrow> 0 | Some f \<Rightarrow> f)"
    by (simp add: b split: option.split)
  ultimately show ?thesis
    using assms(1) j dg chain by (simp add: verifyBid_def catch_false_def signs_def) (simp add: b)
qed

text \<open>The bid is a well-formed message, and survives the trip through text.\<close>

lemma makeBid_wf:
  assumes "makeBid L a kp pk endpoint freeStake = Inr b"
  shows "\<exists>j. hexToBytes (bid_jobId b) = Inr j \<and> length j = 32 \<and> hexToBytes (bid_x25519Pk b) = Inr pk \<and> length pk = 32
     \<and> bid_chain b = adv_chain a"
  using assms by (auto simp: makeBid_def res_bind_eq_Inr bidSigningDigest_def bidPreimage_def)

lemma makeBid_optional:
  assumes "makeBid L a kp pk endpoint freeStake = Inr b"
  shows "bid_endpoint b = JUndef \<and> bid_freeStake b = JUndef
     \<or> (\<exists>e. bid_endpoint b = JStr e) \<and> bid_freeStake b = JUndef
     \<or> bid_endpoint b = JUndef \<and> (\<exists>f. bid_freeStake b = JStr f)
     \<or> (\<exists>e. bid_endpoint b = JStr e) \<and> (\<exists>f. bid_freeStake b = JStr f)"
  using assms by (cases endpoint; cases freeStake) (auto simp: makeBid_def res_bind_eq_Inr)

lemma bid_json_wire:
  assumes b: "makeBid L a kp pk endpoint freeStake = Inr b"
    and chain: "adv_chain a = JNum c" "is_integer c" "\<bar>c\<bar> < 10 ^ 21"
  shows "res_bind (wire (bid_json b)) validateBid = Inr b"
proof -
  let ?m = "[(''t'', JStr ''bid''), (''v'', JNum 1), (''jobId'', JStr (bid_jobId b)),
     (''chain'', JNum c), (''operator'', JStr (bid_operator b)), (''x25519Pk'', JStr (bid_x25519Pk b)),
     (''sig'', JStr (bid_sig b)), (''endpoint'', bid_endpoint b), (''freeStake'', bid_freeStake b)]"
  have m: "bid_json b = JObj ?m" using makeBid_wf [OF b] chain(1) by (auto simp: bid_json_def)
  have d: "distinct (map fst ?m)" by simp
  have "json_printable (JObj (drop_undef ?m))"
    using makeBid_optional [OF b] chain(2,3) by (elim disjE conjE exE) (simp_all add: drop_undef_def)
  then have "wire (bid_json b) = Inr (JObj (drop_undef ?m))" using m by (simp only: wire_obj)
  moreover have "validateBid (bid_json b) = Inr b"
    using validateBid_json [of b] makeBid_wf [OF b] chain by auto
  ultimately show ?thesis using validateBid_drop_undef [OF d] m by (simp only: res_bind_Inr)
qed


section \<open>Properties\<close>

definition example_keypair :: Keypair where
  "example_keypair = \<lparr> kp_publicKey = ''GOPERATOR'', kp_sign = (\<lambda>m. m) \<rparr>"

definition example_advert :: JobAdvert where
  "example_advert = \<lparr> adv_jobId = bytesToHex (replicate 32 9), adv_chain = JNum 3000, adv_fee = ''100'',
     adv_deadline = 500, adv_payloadHash = bytesToHex (replicate 32 8) \<rparr>"

lemma example_signs: "signs example_lib example_keypair"
  by (simp add: signs_def example_lib_def example_keypair_def)

text \<open>
  A bid a node makes for an advert travels as JSON text, is accepted by the message
  validator as the same bid, and its signature verifies at the receiver, whether or not it
  carries an endpoint and a stake (the hypothesis on the signature scheme is its correctness
  law; the chain id of the advert is an integer JavaScript prints in plain decimal).
\<close>

lemma bid_wire_verifies:
  assumes "signs L kp" and "makeBid L a kp pk endpoint freeStake = Inr b"
    and "adv_chain a = JNum c" "is_integer c" "\<bar>c\<bar> < 10 ^ 21"
  shows "res_bind (wire (bid_json b)) validateBid = Inr b \<and> verifyBid L b"
  using bid_json_wire [OF assms(2-5)] verifyBid_makeBid [OF assms(1) _ _ assms(2)] assms(3) by simp

lemma bid_wire_verifies_witness:
  "verifyBid example_lib (projr (makeBid example_lib example_advert example_keypair (replicate 32 3)
     (Some ''https://r.example'') (Some 7)))"
proof -
  have "makeBid example_lib example_advert example_keypair (replicate 32 3) (Some ''https://r.example'') (Some 7) =
    Inr (projr (makeBid example_lib example_advert example_keypair (replicate 32 3) (Some ''https://r.example'') (Some 7)))"
    by (simp add: makeBid_def example_advert_def bidSigningDigest_def bidPreimage_def)
  from bid_wire_verifies [OF example_signs this, of 3000] show ?thesis
    by (simp add: example_advert_def)
qed

text \<open>
  The bytes a bid signature covers are unambiguous: when two bids differ in the job, the
  encryption key, the endpoint, the chain (as a 32-bit number) or the stake (modulo
  \<open>2 ^ 64\<close>), the signed preimages differ, for endpoints shorter than 65536 bytes. So an
  intermediary cannot rewrite any of these without breaking the signature, up to hash collisions.
\<close>

lemma bid_preimage_binds_fields:
  assumes "length e < 65536" "length e' < 65536"
    and "j \<noteq> j' \<or> k \<noteq> k' \<or> js_ToUint32 c \<noteq> js_ToUint32 c' \<or> e \<noteq> e' \<or> f mod 2 ^ 64 \<noteq> f' mod 2 ^ 64"
    and "bidPreimage j k c e f = Inr x" "bidPreimage j' k' c' e' f' = Inr y"
  shows "x \<noteq> y"
  using bidPreimage_inj [of j k c e f x j' k' c' e' f'] assms by blast

lemma bid_preimage_binds_fields_witness:
  "projr (bidPreimage (replicate 32 1) (replicate 32 2) (JNum 3000) ''a'' 5)
   \<noteq> projr (bidPreimage (replicate 32 1) (replicate 32 2) (JNum 3000) ''ab'' 5)"
  by (rule bid_preimage_binds_fields [of "''a''" "''ab''" "replicate 32 1" "replicate 32 1"
        "replicate 32 2" "replicate 32 2" "JNum 3000" "JNum 3000" 5 5])
     (simp_all add: bidPreimage_def)

text \<open>
  Likewise for outcome reports: job, operator, result and timestamp are determined by the
  signed bytes although the operator string carries no length prefix, for timestamps that are
  64-bit naturals.
\<close>

lemma outcome_preimage_binds_fields:
  assumes "outcomePreimage j k r t = Inr pre" "outcomePreimage j' k' r' t' = Inr pre"
    and "0 \<le> t" "t < 2 ^ 64" "0 \<le> t'" "t' < 2 ^ 64"
  shows "j = j' \<and> k = k' \<and> r = r' \<and> t = t'"
  using assms by (rule outcomePreimage_inj)

lemma outcome_preimage_binds_fields_witness:
  "outcomePreimage (replicate 32 1) ''GOP'' Completed 1700 \<noteq> outcomePreimage (replicate 32 1) ''GOP'' Failed 1700"
proof
  have ok: "outcomePreimage (replicate 32 1) ''GOP'' Completed 1700 =
      Inr (projr (outcomePreimage (replicate 32 1) ''GOP'' Completed 1700))"
    by (simp add: outcomePreimage_def js_BigInt_num_def)
  assume "outcomePreimage (replicate 32 1) ''GOP'' Completed 1700 = outcomePreimage (replicate 32 1) ''GOP'' Failed 1700"
  with outcome_preimage_binds_fields [OF ok, of "replicate 32 1" "''GOP''" Failed 1700] ok show False by simp
qed

end
