(* ===== verification/Effects.thy ===== *)
theory Effects
  imports Prelude
begin

text \<open>
  Sequential effectful code: a program takes the state it runs in and gives back a result, a
  thrown error or a value, with the state it leaves behind. An awaited call is such a
  program over the part of the state that stands for the outside world. The weakest
  precondition \<open>wp\<close> of a program for a normal and an exceptional postcondition is
  computed by rewriting through the combinators; loops are handled by an invariant.
\<close>

type_synonym ('s, 'a) prog = "'s \<Rightarrow> 'a res \<times> 's"

definition ret :: "'a \<Rightarrow> ('s, 'a) prog" where
  "ret x s = (Inr x, s)"

definition throw :: "js_error \<Rightarrow> ('s, 'a) prog" where
  "throw e s = (Inl e, s)"

definition bnd :: "('s, 'a) prog \<Rightarrow> ('a \<Rightarrow> ('s, 'b) prog) \<Rightarrow> ('s, 'b) prog" where
  "bnd m f s = (case m s of (r, s') \<Rightarrow> (case r of Inl e \<Rightarrow> (Inl e, s') | Inr x \<Rightarrow> f x s'))"

definition try_catch :: "('s, 'a) prog \<Rightarrow> (js_error \<Rightarrow> ('s, 'a) prog) \<Rightarrow> ('s, 'a) prog" where
  "try_catch m h s = (case m s of (r, s') \<Rightarrow> (case r of Inl e \<Rightarrow> h e s' | Inr x \<Rightarrow> (Inr x, s')))"

text \<open>\<open>try { m } finally { f }\<close>: an error of the final block replaces the outcome.\<close>

definition try_finally :: "('s, 'a) prog \<Rightarrow> ('s, unit) prog \<Rightarrow> ('s, 'a) prog" where
  "try_finally m f s =
     (case m s of (r, s') \<Rightarrow> (case f s' of (r', s'') \<Rightarrow> (case r' of Inl e \<Rightarrow> (Inl e, s'') | Inr _ \<Rightarrow> (r, s''))))"

definition of_res :: "'a res \<Rightarrow> ('s, 'a) prog" where
  "of_res r s = (r, s)"

definition gets :: "('s \<Rightarrow> 'a) \<Rightarrow> ('s, 'a) prog" where
  "gets f s = (Inr (f s), s)"

definition upd :: "('s \<Rightarrow> 's) \<Rightarrow> ('s, unit) prog" where
  "upd f s = (Inr (), f s)"

text \<open>Running a program on the component of the state that a getter and a setter name.\<close>

definition on_part :: "('s \<Rightarrow> 'p) \<Rightarrow> ('p \<Rightarrow> 's \<Rightarrow> 's) \<Rightarrow> ('p, 'a) prog \<Rightarrow> ('s, 'a) prog" where
  "on_part get put m s = (case m (get s) of (r, p) \<Rightarrow> (r, put p s))"

definition on_snd :: "('w, 'a) prog \<Rightarrow> ('e \<times> 'w, 'a) prog" where
  "on_snd m s = (case m (snd s) of (r, w) \<Rightarrow> (r, (fst s, w)))"

fun prog_iter :: "('a \<Rightarrow> ('s, unit) prog) \<Rightarrow> 'a list \<Rightarrow> ('s, unit) prog" where
  "prog_iter f [] = ret ()"
| "prog_iter f (x # xs) = bnd (f x) (\<lambda>_. prog_iter f xs)"

fun prog_map :: "('a \<Rightarrow> ('s, 'b) prog) \<Rightarrow> 'a list \<Rightarrow> ('s, 'b list) prog" where
  "prog_map f [] = ret []"
| "prog_map f (x # xs) = bnd (f x) (\<lambda>y. bnd (prog_map f xs) (\<lambda>ys. ret (y # ys)))"

text \<open>A call whose errors are swallowed, as in \<open>void promise\<close> with a logging handler.\<close>

definition ignore_error :: "('s, 'a) prog \<Rightarrow> ('s, unit) prog" where
  "ignore_error m s = (Inr (), snd (m s))"


section \<open>Weakest preconditions\<close>

definition wp :: "('s, 'a) prog \<Rightarrow> ('a \<Rightarrow> 's \<Rightarrow> bool) \<Rightarrow> (js_error \<Rightarrow> 's \<Rightarrow> bool) \<Rightarrow> 's \<Rightarrow> bool" where
  "wp m Q E s = (case m s of (r, s') \<Rightarrow> (case r of Inl e \<Rightarrow> E e s' | Inr x \<Rightarrow> Q x s'))"

named_theorems wp_simps \<open>weakest preconditions of the combinators and calls\<close>

lemma wp_ret [wp_simps, simp]: "wp (ret x) Q E = Q x"
  by (rule ext) (simp add: wp_def ret_def)

lemma wp_throw [wp_simps, simp]: "wp (throw e) Q E = E e"
  by (rule ext) (simp add: wp_def throw_def)

lemma wp_bnd [wp_simps, simp]: "wp (bnd m f) Q E = wp m (\<lambda>x. wp (f x) Q E) E"
  by (rule ext) (simp add: wp_def bnd_def split: prod.splits sum.splits)

lemma wp_try_catch [wp_simps, simp]: "wp (try_catch m h) Q E = wp m Q (\<lambda>e. wp (h e) Q E)"
  by (rule ext) (simp add: wp_def try_catch_def split: prod.splits sum.splits)

lemma wp_try_finally [wp_simps, simp]:
  "wp (try_finally m f) Q E = wp m (\<lambda>x. wp f (\<lambda>_. Q x) E) (\<lambda>e. wp f (\<lambda>_. E e) E)"
  by (rule ext) (simp add: wp_def try_finally_def split: prod.splits sum.splits)

lemma wp_of_res [wp_simps, simp]: "wp (of_res r) Q E = (case r of Inl e \<Rightarrow> E e | Inr x \<Rightarrow> Q x)"
  by (rule ext) (simp add: wp_def of_res_def split: sum.split)

lemma wp_gets [wp_simps, simp]: "wp (gets f) Q E = (\<lambda>s. Q (f s) s)"
  by (rule ext) (simp add: wp_def gets_def)

lemma wp_upd [wp_simps, simp]: "wp (upd f) Q E = (\<lambda>s. Q () (f s))"
  by (rule ext) (simp add: wp_def upd_def)

lemma wp_on_part [wp_simps, simp]:
  "wp (on_part get put m) Q E = (\<lambda>s. wp m (\<lambda>x p. Q x (put p s)) (\<lambda>e p. E e (put p s)) (get s))"
  by (rule ext) (simp add: wp_def on_part_def split: prod.splits sum.splits)

lemma wp_on_snd [wp_simps, simp]:
  "wp (on_snd m) Q E = (\<lambda>s. wp m (\<lambda>x w. Q x (fst s, w)) (\<lambda>e w. E e (fst s, w)) (snd s))"
  by (rule ext) (simp add: wp_def on_snd_def split: prod.splits sum.splits)

lemma wp_ignore_error [wp_simps, simp]:
  "wp (ignore_error m) Q E = wp m (\<lambda>_. Q ()) (\<lambda>_. Q ())"
  by (rule ext) (simp add: wp_def ignore_error_def split: prod.splits sum.splits)

lemma wp_option [wp_simps, simp]:
  "wp (case x of None \<Rightarrow> m | Some y \<Rightarrow> f y) Q E = (case x of None \<Rightarrow> wp m Q E | Some y \<Rightarrow> wp (f y) Q E)"
  by (simp split: option.split)

lemma wp_if [wp_simps, simp]:
  "wp (if b then m else m') Q E = (if b then wp m Q E else wp m' Q E)"
  by simp

lemma wp_mono:
  assumes "wp m Q E s" "\<And>x s'. Q x s' \<Longrightarrow> Q' x s'" "\<And>e s'. E e s' \<Longrightarrow> E' e s'"
  shows "wp m Q' E' s"
  using assms by (simp add: wp_def split: prod.splits sum.splits)

lemma wp_conj:
  "wp m (\<lambda>x s. Q x s \<and> Q' x s) (\<lambda>e s. E e s \<and> E' e s) s \<longleftrightarrow> wp m Q E s \<and> wp m Q' E' s"
  by (auto simp: wp_def split: prod.splits sum.splits)

lemma wp_True [simp]: "wp m (\<lambda>_ _. True) (\<lambda>_ _. True) s"
  by (simp add: wp_def split: prod.splits sum.splits)

lemma wp_const: "P \<Longrightarrow> wp m (\<lambda>_ _. P) (\<lambda>_ _. P) s"
  by (simp add: wp_def split: prod.splits sum.splits)

text \<open>From a computed result to its postcondition, and back.\<close>

lemma wp_InrD: "wp m Q E s \<Longrightarrow> m s = (Inr x, s') \<Longrightarrow> Q x s'"
  by (simp add: wp_def)

lemma wp_InlD: "wp m Q E s \<Longrightarrow> m s = (Inl e, s') \<Longrightarrow> E e s'"
  by (simp add: wp_def)

lemma wpI: "(\<And>x s'. m s = (Inr x, s') \<Longrightarrow> Q x s') \<Longrightarrow> (\<And>e s'. m s = (Inl e, s') \<Longrightarrow> E e s') \<Longrightarrow> wp m Q E s"
  by (simp add: wp_def split: prod.splits sum.splits)

text \<open>Rules that cut a sequence at an intermediate assertion.\<close>

lemma wp_bndI:
  "wp m R E s \<Longrightarrow> (\<And>x s'. R x s' \<Longrightarrow> wp (f x) Q E s') \<Longrightarrow> wp (bnd m f) Q E s"
  unfolding wp_bnd by (erule wp_mono)

lemma wp_catchI:
  "wp m Q R s \<Longrightarrow> (\<And>e s'. R e s' \<Longrightarrow> wp (h e) Q E s') \<Longrightarrow> wp (try_catch m h) Q E s"
  unfolding wp_try_catch by (erule wp_mono)

lemma wp_finallyI:
  assumes "wp m R R' s" "\<And>x s'. R x s' \<Longrightarrow> wp f (\<lambda>_. Q x) E s'" "\<And>e s'. R' e s' \<Longrightarrow> wp f (\<lambda>_. E e) E s'"
  shows "wp (try_finally m f) Q E s"
  unfolding wp_try_finally using assms by (rule wp_mono)

lemma wp_of_resI: "(\<And>e. r = Inl e \<Longrightarrow> E e s) \<Longrightarrow> wp (of_res r) (\<lambda>x s'. s' = s \<and> r = Inr x) E s"
  by (simp split: sum.split)

text \<open>A loop that keeps an invariant, on every exit.\<close>

lemma wp_prog_iter:
  assumes "\<And>x s. x \<in> set xs \<Longrightarrow> I s \<Longrightarrow> wp (f x) (\<lambda>_. I) E s" and "I s"
  shows "wp (prog_iter f xs) (\<lambda>_. I) E s"
  using assms
proof (induction xs arbitrary: s)
  case (Cons x xs)
  have "wp (f x) (\<lambda>_. I) E s" using Cons.prems by simp
  then show ?case
    by (simp, elim wp_mono) (use Cons in simp_all)
qed simp

text \<open>Mapping a program over a list: what each call establishes of its argument and result holds pointwise.\<close>

lemma wp_prog_map:
  assumes "\<And>x s. x \<in> set xs \<Longrightarrow> I s \<Longrightarrow> wp (f x) (\<lambda>y s. I s \<and> R x y) (\<lambda>_. I) s" and "I s"
  shows "wp (prog_map f xs) (\<lambda>ys s. I s \<and> list_all2 R xs ys) (\<lambda>_. I) s"
  using assms
proof (induction xs arbitrary: s)
  case (Cons x xs)
  have f: "wp (f x) (\<lambda>y s. I s \<and> R x y) (\<lambda>_. I) s" using Cons.prems by simp
  have rest: "wp (prog_map f xs) (\<lambda>ys s. I s \<and> list_all2 R xs ys) (\<lambda>_. I) s'" if "I s'" for s'
    using Cons that by simp
  show ?case
    by (simp, rule wp_mono [OF f], rule wp_mono [OF rest]) auto
qed simp

text \<open>Equations for running the combinators on a known state.\<close>

lemma bnd_Inr: "m s = (Inr x, s') \<Longrightarrow> bnd m f s = f x s'"
  by (simp add: bnd_def)

lemma bnd_Inl: "m s = (Inl e, s') \<Longrightarrow> bnd m f s = (Inl e, s')"
  by (simp add: bnd_def)

lemma ret_run [simp]: "ret x s = (Inr x, s)"
  by (simp add: ret_def)

lemma throw_run [simp]: "throw e s = (Inl e, s)"
  by (simp add: throw_def)

lemmas run_simps = bnd_def try_catch_def try_finally_def of_res_def gets_def upd_def on_part_def on_snd_def


section \<open>Running sequences\<close>

text \<open>The outcome of a sequence, step by step.\<close>

lemma bnd_iff:
  "bnd m f w = (r, w') \<longleftrightarrow>
     (\<exists>e. m w = (Inl e, w') \<and> r = Inl e) \<or> (\<exists>x w1. m w = (Inr x, w1) \<and> f x w1 = (r, w'))"
  by (cases "m w"; cases "fst (m w)") (auto simp: bnd_def)

lemma of_res_iff: "of_res x w = (r, w') \<longleftrightarrow> r = x \<and> w' = w"
  by (auto simp: of_res_def)

lemma catch_iff:
  "try_catch m h w = (r, w') \<longleftrightarrow>
     (\<exists>x. m w = (Inr x, w') \<and> r = Inr x) \<or> (\<exists>e w1. m w = (Inl e, w1) \<and> h e w1 = (r, w'))"
  by (cases "m w"; cases "fst (m w)") (auto simp: try_catch_def)

text \<open>The same with the computation on the left, for cutting a run into the results of its steps.\<close>

lemma of_res_eq: "of_res x w = (r, w') \<longleftrightarrow> x = r \<and> w' = w"
  by (auto simp: of_res_def)

lemmas step_simps = bnd_iff of_res_eq catch_iff
lemmas seq_simps = bnd_iff of_res_iff catch_iff

end
