(* ===== verification/Atomic_File.thy ===== *)
theory Atomic_File
  imports Effects Json
begin

text \<open>
  The state files of all three services, \<^verbatim>\<open>shared/atomic-file.ts\<close>: write to a temporary file,
  flush it, rename it over the old one; read back, and set a corrupt file aside. The file
  system is modelled down to its calls: every call may fail (an oracle decides), a write may
  be short, and after every call the visible contents are recorded, so that what a reader or
  a restart after a crash between two calls can see is a property of the recorded snapshots.
\<close>

record fs =
  fs_files :: "(string \<times> string) list"
  fs_faults :: "js_error option list"
  fs_short :: "nat list"
  fs_seen :: "(string \<times> string) list list"
  fs_sequence :: nat

text \<open>The next call's fate, and the snapshot taken after it.\<close>

definition fs_call :: "((string \<times> string) list \<Rightarrow> (string \<times> string) list) \<Rightarrow> (fs, unit) prog" where
  "fs_call f s =
     (case fs_faults s of
        Some e # rest \<Rightarrow> (Inl e, s\<lparr> fs_faults := rest, fs_seen := fs_seen s @ [fs_files s] \<rparr>)
      | None # rest \<Rightarrow> (Inr (), s\<lparr> fs_faults := rest, fs_files := f (fs_files s), fs_seen := fs_seen s @ [f (fs_files s)] \<rparr>)
      | [] \<Rightarrow> (Inr (), s\<lparr> fs_files := f (fs_files s), fs_seen := fs_seen s @ [f (fs_files s)] \<rparr>))"

definition mkdirSync :: "(fs, unit) prog" where
  "mkdirSync = fs_call (\<lambda>m. m)"

definition openSync :: "string \<Rightarrow> (fs, unit) prog" where
  "openSync path = fs_call (AList.update path [])"

text \<open>Writing from the start of the file; the oracle may cut the number of bytes written.\<close>

definition writeSync :: "string \<Rightarrow> string \<Rightarrow> (fs, nat) prog" where
  "writeSync path contents = (\<lambda>s.
     let n = (case fs_short s of k # _ \<Rightarrow> min k (length contents) | [] \<Rightarrow> length contents)
     in bnd (upd (\<lambda>s. s\<lparr> fs_short := tl (fs_short s) \<rparr>)) (\<lambda>_.
        bnd (fs_call (AList.update path (take n contents))) (\<lambda>_. ret n)) s)"

definition fsyncSync :: "(fs, unit) prog" where
  "fsyncSync = fs_call (\<lambda>m. m)"

definition closeSync :: "(fs, unit) prog" where
  "closeSync = fs_call (\<lambda>m. m)"

definition renameSync :: "string \<Rightarrow> string \<Rightarrow> (fs, unit) prog" where
  "renameSync src dst = (\<lambda>s.
     case map_of (fs_files s) src of
       None \<Rightarrow> throw (Error ''ENOENT'') s
     | Some c \<Rightarrow> fs_call (\<lambda>m. if src = dst then m else AList.update dst c (AList.delete src m)) s)"

definition unlinkSync :: "string \<Rightarrow> (fs, unit) prog" where
  "unlinkSync path = fs_call (AList.delete path)"

definition readFileSync :: "string \<Rightarrow> (fs, string) prog" where
  "readFileSync path = (\<lambda>s.
     case map_of (fs_files s) path of
       None \<Rightarrow> throw (Error ''ENOENT'') s
     | Some c \<Rightarrow> bnd (fs_call (\<lambda>m. m)) (\<lambda>_. ret c) s)"

text \<open>\<open>process.pid\<close> and \<open>Date.now()\<close> name the temporary file and are arguments.\<close>

definition temp_path :: "string \<Rightarrow> nat \<Rightarrow> nat \<Rightarrow> nat \<Rightarrow> string" where
  "temp_path filePath pid now n =
     filePath @ ''.'' @ dec_of_nat pid @ ''.'' @ dec_of_nat now @ ''.'' @ dec_of_nat n @ ''.tmp''"

definition writeAtomic :: "nat \<Rightarrow> nat \<Rightarrow> string \<Rightarrow> string \<Rightarrow> (fs, unit) prog" where
  "writeAtomic pid now filePath contents =
     bnd mkdirSync (\<lambda>_.
     bnd (upd (\<lambda>s. s\<lparr> fs_sequence := fs_sequence s + 1 \<rparr>)) (\<lambda>_.
     bnd (gets (\<lambda>s. temp_path filePath pid now (fs_sequence s))) (\<lambda>tempPath.
     bnd (openSync tempPath) (\<lambda>_.
     bnd (try_finally
           (bnd (writeSync tempPath contents) (\<lambda>written.
              if written \<noteq> length contents
              then throw (Error (''short write: '' @ dec_of_nat written @ ''/'' @ dec_of_nat (length contents) @ '' bytes''))
              else fsyncSync))
           closeSync) (\<lambda>_.
     try_catch (renameSync tempPath filePath) (\<lambda>err.
       bnd (try_catch (unlinkSync tempPath) (\<lambda>_. ret ())) (\<lambda>_. throw err)))))))"

definition readJson :: "nat \<Rightarrow> string \<Rightarrow> (fs, jv option) prog" where
  "readJson now filePath = (\<lambda>s.
     if map_of (fs_files s) filePath = None then ret None s
     else try_catch
       (bnd (readFileSync filePath) (\<lambda>text. bnd (of_res (json_parse text)) (\<lambda>v. ret (Some v))))
       (\<lambda>err. let quarantinePath = filePath @ ''.corrupt-'' @ dec_of_nat now in
          bnd (try_catch (renameSync filePath quarantinePath)
                (\<lambda>_. throw (Error (''Could not parse or quarantine '' @ filePath)))) (\<lambda>_.
          throw (Error (''Corrupt state moved to '' @ quarantinePath)))) s)"


section \<open>What a crash can leave behind\<close>

lemma wp_fs_call:
  assumes "\<And>s'. fs_files s' = f (fs_files s) \<Longrightarrow> fs_seen s' = fs_seen s @ [f (fs_files s)] \<Longrightarrow> Q () s'"
    and "\<And>e s'. fs_files s' = fs_files s \<Longrightarrow> fs_seen s' = fs_seen s @ [fs_files s] \<Longrightarrow> E e s'"
  shows "wp (fs_call f) Q E s"
  using assms by (auto simp: wp_def fs_call_def split: list.splits option.splits)

lemma temp_path_neq [simp]: "temp_path p pid now n \<noteq> p" "p \<noteq> temp_path p pid now n"
  by (simp_all add: temp_path_def)

text \<open>
  The path holds its old contents and no snapshot showed anything but the old or the new
  contents there.
\<close>

definition not_yet :: "string \<Rightarrow> string option \<Rightarrow> string \<Rightarrow> fs \<Rightarrow> bool" where
  "not_yet p old new s \<longleftrightarrow> map_of (fs_files s) p = old \<and> (\<forall>m \<in> set (fs_seen s). map_of m p \<in> {old, Some new})"

definition done_with :: "string \<Rightarrow> string option \<Rightarrow> string \<Rightarrow> fs \<Rightarrow> bool" where
  "done_with p old new s \<longleftrightarrow> map_of (fs_files s) p = Some new \<and> (\<forall>m \<in> set (fs_seen s). map_of m p \<in> {old, Some new})"

lemma wp_fs_call_not_yet:
  assumes "not_yet p old new s" and "map_of (f (fs_files s)) p = map_of (fs_files s) p"
    and "map_of (f (fs_files s)) q = c"
  shows "wp (fs_call f) (\<lambda>_ s. not_yet p old new s \<and> map_of (fs_files s) q = c) (\<lambda>_. not_yet p old new) s"
  using assms by (intro wp_fs_call) (auto simp: not_yet_def)

lemma wp_fs_noop:
  assumes "not_yet p old new s" "map_of (fs_files s) q = c"
  shows "wp (fs_call (\<lambda>m. m)) (\<lambda>_ s. not_yet p old new s \<and> map_of (fs_files s) q = c) (\<lambda>_. not_yet p old new) s"
  using assms wp_fs_call_not_yet [of p old new s "\<lambda>m. m" q c] by simp

lemma wp_fs_any:
  assumes "not_yet p old new s" and "map_of (f (fs_files s)) p = map_of (fs_files s) p"
  shows "wp (fs_call f) (\<lambda>_. not_yet p old new) (\<lambda>_. not_yet p old new) s"
  using assms by (intro wp_fs_call) (auto simp: not_yet_def)

lemma wp_rename:
  assumes "not_yet p old new s" "map_of (fs_files s) q = Some new" "q \<noteq> p"
  shows "wp (renameSync q p) (\<lambda>_. done_with p old new) (\<lambda>_. not_yet p old new) s"
  unfolding renameSync_def
proof -
  let ?f = "\<lambda>m. if q = p then m else AList.update p new (AList.delete q m)"
  have "wp (fs_call ?f) (\<lambda>_. done_with p old new) (\<lambda>_. not_yet p old new) s"
    using assms by (intro wp_fs_call) (auto simp: not_yet_def done_with_def)
  then show "wp (\<lambda>s. case map_of (fs_files s) q of None \<Rightarrow> throw (Error ''ENOENT'') s
      | Some c \<Rightarrow> fs_call (\<lambda>m. if q = p then m else AList.update p c (AList.delete q m)) s)
      (\<lambda>_. done_with p old new) (\<lambda>_. not_yet p old new) s"
    using assms(2) by (simp add: wp_def)
qed

lemma wp_write:
  assumes "not_yet p old new s" "q \<noteq> p"
  shows "wp (writeSync q new)
    (\<lambda>n s. not_yet p old new s \<and> (n = length new \<longrightarrow> map_of (fs_files s) q = Some new))
    (\<lambda>_. not_yet p old new) s"
proof -
  let ?n = "case fs_short s of k # _ \<Rightarrow> min k (length new) | [] \<Rightarrow> length new"
  let ?s = "s\<lparr> fs_short := tl (fs_short s) \<rparr>"
  have "not_yet p old new ?s" using assms(1) by (simp add: not_yet_def)
  then have "wp (fs_call (AList.update q (take ?n new)))
     (\<lambda>_ s. not_yet p old new s \<and> map_of (fs_files s) q = Some (take ?n new)) (\<lambda>_. not_yet p old new) ?s"
    using assms(2) by (intro wp_fs_call_not_yet) simp_all
  then have "wp (bnd (upd (\<lambda>s. s\<lparr> fs_short := tl (fs_short s) \<rparr>)) (\<lambda>_.
        bnd (fs_call (AList.update q (take ?n new))) (\<lambda>_. ret ?n)))
    (\<lambda>n s. not_yet p old new s \<and> (n = length new \<longrightarrow> map_of (fs_files s) q = Some new)) (\<lambda>_. not_yet p old new) s"
    by simp (erule wp_mono, auto)
  then show ?thesis by (simp only: writeSync_def wp_def Let_def)
qed

lemma wp_writeAtomic:
  assumes "not_yet p old new s"
  shows "wp (writeAtomic pid now p new) (\<lambda>_. done_with p old new) (\<lambda>_. not_yet p old new) s"
proof -
  let ?I = "not_yet p old new"
  let ?q = "\<lambda>n. temp_path p pid now n"
  let ?J = "\<lambda>n s. ?I s \<and> map_of (fs_files s) (?q n) = Some new"
  have body: "wp (bnd (writeSync (?q n) new) (\<lambda>written. if written \<noteq> length new
          then throw (Error (''short write: '' @ dec_of_nat written @ ''/'' @ dec_of_nat (length new) @ '' bytes''))
          else fsyncSync)) (\<lambda>_. ?J n) (\<lambda>_. ?I) s'" if "?I s'" for n s'
    unfolding fsyncSync_def
    by (rule wp_bndI [OF wp_write [OF that]]) (auto intro: wp_fs_noop)
  have close: "wp closeSync (\<lambda>_. ?J n) (\<lambda>_. ?I) s'" if "?J n s'" for n s'
    unfolding closeSync_def using that by (intro wp_fs_noop) auto
  have close': "wp closeSync (\<lambda>_. ?I) (\<lambda>_. ?I) s'" if "?I s'" for s'
    unfolding closeSync_def using that by (intro wp_fs_any) auto
  have rename: "wp (try_catch (renameSync (?q n) p) (\<lambda>err.
       bnd (try_catch (unlinkSync (?q n)) (\<lambda>_. ret ())) (\<lambda>_. throw err))) (\<lambda>_. done_with p old new) (\<lambda>_. ?I) s'"
    if "?J n s'" for n s'
    unfolding unlinkSync_def
    using that by (intro wp_catchI [OF wp_rename [of p old new s' "?q n"]]) (auto intro: wp_fs_any)
  have "wp (openSync (?q n)) (\<lambda>_. ?I) (\<lambda>_. ?I) s'" if "?I s'" for n s'
    unfolding openSync_def using that by (intro wp_fs_any) auto
  note temp = wp_bndI [OF this wp_bndI [OF wp_finallyI [OF body close close'] rename]]
  have seq: "?I (s'\<lparr> fs_sequence := k \<rparr>)" if "?I s'" for s' k
    using that by (simp add: not_yet_def)
  have mkdir: "wp mkdirSync (\<lambda>_. ?I) (\<lambda>_. ?I) s"
    unfolding mkdirSync_def using assms by (intro wp_fs_any) auto
  show ?thesis
    unfolding writeAtomic_def
    by (rule wp_bndI [OF mkdir], rule wp_bndI [where R = "\<lambda>_. ?I"], simp add: seq,
        rule wp_bndI [where R = "\<lambda>t s. ?I s \<and> (\<exists>n. t = ?q n)"], force, elim conjE exE, hypsubst, rule temp)
qed


section \<open>Reading back\<close>

lemma readJson_missing: "map_of (fs_files s) p = None \<Longrightarrow> readJson now p s = (Inr None, s)"
  by (simp add: readJson_def)

lemma fs_call_ok: "fs_faults s = [] \<Longrightarrow>
   fs_call f s = (Inr (), s\<lparr> fs_files := f (fs_files s), fs_seen := fs_seen s @ [f (fs_files s)] \<rparr>)"
  by (simp add: fs_call_def)

lemma readJson_ok:
  assumes "map_of (fs_files s) p = Some text" "json_parse text = Inr v" "fs_faults s = []"
  shows "readJson now p s = (Inr (Some v), s\<lparr> fs_seen := fs_seen s @ [fs_files s] \<rparr>)"
  using assms by (simp add: readJson_def readFileSync_def fs_call_ok run_simps)

text \<open>A corrupt file is kept under another name and the reader is told.\<close>

lemma readJson_corrupt:
  assumes "map_of (fs_files s) p = Some text" "json_parse text = Inl e" "fs_faults s = []"
  shows "\<exists>s'. readJson now p s = (Inl (Error (''Corrupt state moved to '' @ p @ ''.corrupt-'' @ dec_of_nat now)), s')
     \<and> map_of (fs_files s') p = None \<and> map_of (fs_files s') (p @ ''.corrupt-'' @ dec_of_nat now) = Some text"
  using assms by (simp add: readJson_def readFileSync_def renameSync_def fs_call_ok run_simps Let_def)


section \<open>Properties\<close>

definition example_fs :: "js_error option list \<Rightarrow> fs" where
  "example_fs faults = \<lparr> fs_files = [(''state.json'', ''1'')], fs_faults = faults, fs_short = [], fs_seen = [], fs_sequence = 0 \<rparr>"

text \<open>
  C39: writing a state file is atomic. Whatever calls fail, and wherever the process dies, every
  state of the file system in between shows the file with its old contents or with the new ones,
  never anything else; when the write returns the new contents are there, and when it throws
  the old ones still are.
\<close>

theorem writeAtomic_crash_safe:
  assumes "fs_seen s = []" and "writeAtomic pid now p new s = (r, s')"
  shows "(\<forall>m \<in> set (fs_seen s'). map_of m p \<in> {map_of (fs_files s) p, Some new})
    \<and> map_of (fs_files s') p = (case r of Inr _ \<Rightarrow> Some new | Inl _ \<Rightarrow> map_of (fs_files s) p)"
proof -
  have "wp (writeAtomic pid now p new) (\<lambda>_. done_with p (map_of (fs_files s) p) new)
          (\<lambda>_. not_yet p (map_of (fs_files s) p) new) s"
    by (rule wp_writeAtomic) (simp add: not_yet_def assms(1))
  then show ?thesis
    using assms(2) by (cases r) (force simp: done_with_def not_yet_def dest: wp_InrD wp_InlD)+
qed

theorem writeAtomic_crash_safe_witness:
  "map_of (fs_files (snd (writeAtomic 1 2 ''state.json'' ''2'' (example_fs [None, None, None, None, None, Some (Error ''EIO'')])))) ''state.json''
     = Some ''1''"
proof -
  let ?run = "writeAtomic 1 2 ''state.json'' ''2'' (example_fs [None, None, None, None, None, Some (Error ''EIO'')])"
  have "fs_seen (example_fs [None, None, None, None, None, Some (Error ''EIO'')]) = []" by (simp add: example_fs_def)
  note run = writeAtomic_crash_safe [OF this, of 1 2 "''state.json''" "''2''" "fst ?run" "snd ?run"]
  have "fst ?run = Inl (Error ''EIO'')" by code_simp
  with run have "map_of (fs_files (snd ?run)) ''state.json''
      = map_of (fs_files (example_fs [None, None, None, None, None, Some (Error ''EIO'')])) ''state.json''"
    by simp
  then show ?thesis by (simp add: example_fs_def)
qed

end
