(* ===== verification/Relayer_Store.thy ===== *)
theory Relayer_Store
  imports Relayer_Messages Atomic_File
begin

text \<open>
  The persistence layer of the relayer, \<^verbatim>\<open>relayer/src/store.ts\<close>: the store interface, the
  in-memory stores and the file-backed ones. The interface's law, that a value saved
  successfully is the value loaded next, is the locale \<open>durable_store\<close>; the components
  that persist are verified against it. The file-backed stores are modelled on the JSON they
  read; their \<open>save\<close> calls \<open>ensureDir\<close> and \<open>writeFileSync\<close>, which the module does
  not import, so it throws \<open>ReferenceError\<close>.
\<close>

record ('w, 'a) store_ops =
  st_load :: "('w, 'a option) prog"
  st_save :: "'a \<Rightarrow> ('w, unit) prog"
  st_clear :: "('w, unit) prog"

locale durable_store =
  fixes S :: "('w, 'a) store_ops"
  assumes load_after_save: "st_save S x w = (Inr (), w') \<Longrightarrow> fst (st_load S w') = Inr (Some x)"
begin

text \<open>The last of two saves wins.\<close>

lemma last_save_wins:
  assumes "bnd (st_save S x) (\<lambda>_. st_save S y) w = (Inr (), w')"
  shows "fst (st_load S w') = Inr (Some y)"
  using assms by (auto simp: bnd_def intro: load_after_save split: prod.splits sum.splits)

end


section \<open>In-memory stores\<close>

definition MemoryStore :: "('a option, 'a) store_ops" where
  "MemoryStore = \<lparr> st_load = (\<lambda>entries. (Inr entries, entries)),
     st_save = (\<lambda>x _. (Inr (), Some x)), st_clear = (\<lambda>_. (Inr (), None)) \<rparr>"

interpretation mem: durable_store MemoryStore
  by unfold_locales (auto simp: MemoryStore_def)

record OutcomeEntry =
  oe_result :: outcome_result
  oe_at :: int

record RelayerHubStats =
  hs_advertsSeen :: int
  hs_bidsSeen :: int
  hs_payloadsSeen :: int
  hs_outcomesSeen :: int
  hs_heartbeatsSeen :: int
  hs_lastError :: "string option"

text \<open>
  An assignment is saved as the operator alone; the store type also admits the operator with the
  time it was added. A saved bid may lack the time it was added.
\<close>

datatype saved_assignment = SavedOperator string | SavedEntry string int

record HubState =
  st_bids :: "(string \<times> (RelayerBid \<times> int option) list) list"
  st_outcomes :: "(string \<times> OutcomeEntry list) list"
  st_knownOperators :: "string list"
  st_lastHeartbeatAt :: "(string \<times> int) list"
  st_assignments :: "(string \<times> saved_assignment) list"
  st_stats :: "RelayerHubStats option"

text \<open>The getters of the in-memory hub store: a part of the state, when there is one.\<close>

definition MemoryHubStore_get :: "(HubState \<Rightarrow> 'b) \<Rightarrow> (HubState option, 'b option) prog" where
  "MemoryHubStore_get part = bnd (st_load MemoryStore) (\<lambda>st. ret (map_option part st))"


section \<open>File-backed stores\<close>

definition STATE_VERSION :: rat where "STATE_VERSION = 1"

definition readJsonFile :: "nat \<Rightarrow> string \<Rightarrow> (fs, jv option) prog" where
  "readJsonFile now filePath = readJson now filePath"

definition writeJsonFile :: "string \<Rightarrow> jv \<Rightarrow> (fs, unit) prog" where
  "writeJsonFile filePath data = throw (ReferenceError ''ensureDir is not defined'')"

definition bigint_prefix :: string where "bigint_prefix = ''__bigint__:''"

definition deserializeFee :: "jv \<Rightarrow> int res" where
  "deserializeFee value =
     (case value of
        JNum r \<Rightarrow> if is_integer r then js_BigInt_num r else Inl (TypeError ''ledger expectedFee must be an integer'')
      | JStr s \<Rightarrow> js_BigInt_str (if starts_with bigint_prefix s then drop (length bigint_prefix) s else s)
      | _ \<Rightarrow> Inl (TypeError ''ledger expectedFee must be an integer''))"

text \<open>\<open>JSON.stringify\<close>'s replacer for a fee, and the plain decimal the ledger writes.\<close>

definition serialiseBigInt :: "int \<Rightarrow> jv" where
  "serialiseBigInt value = JStr (bigint_prefix @ dec_of_int value)"

text \<open>\<open>(value ?? [])\<close> used as an array: anything else has no \<open>map\<close>.\<close>

definition as_array :: "jv \<Rightarrow> jv list res" where
  "as_array v = (case v of JUndef \<Rightarrow> Inr [] | JNull \<Rightarrow> Inr [] | JArr xs \<Rightarrow> Inr xs
     | _ \<Rightarrow> Inl (TypeError ''map is not a function''))"

text \<open>\<open>!raw || raw.version !== STATE_VERSION\<close>\<close>

definition current_version :: "jv option \<Rightarrow> jv option" where
  "current_version raw =
     (case raw of None \<Rightarrow> None
      | Some v \<Rightarrow> if \<not> truthy v \<or> jv_get v ''version'' \<noteq> JNum STATE_VERSION then None else Some v)"

text \<open>An entry of the ledger file with its fee read back as a \<open>bigint\<close>.\<close>

definition FileLedgerStore_load :: "nat \<Rightarrow> string \<Rightarrow> (fs, (jv \<times> int) list option) prog" where
  "FileLedgerStore_load now filePath =
     bnd (readJsonFile now filePath) (\<lambda>raw.
       case current_version raw of None \<Rightarrow> ret None
       | Some v \<Rightarrow> of_res (res_bind (as_array (jv_get v ''entries'')) (\<lambda>es.
           res_bind (res_map (\<lambda>e. res_bind (deserializeFee (jv_get e ''expectedFee'')) (\<lambda>fee. Inr (e, fee))) es)
             (\<lambda>out. Inr (Some out)))))"

definition FileLedgerStore_save :: "string \<Rightarrow> (jv \<times> int) list \<Rightarrow> (fs, unit) prog" where
  "FileLedgerStore_save filePath entries =
     writeJsonFile filePath (JObj [(''version'', JNum STATE_VERSION), (''entries'', JArr (map fst entries))])"

definition FileAcceptedJobStore_load :: "nat \<Rightarrow> string \<Rightarrow> (fs, jv option) prog" where
  "FileAcceptedJobStore_load now filePath =
     bnd (readJsonFile now filePath) (\<lambda>raw.
       case current_version raw of None \<Rightarrow> ret None
       | Some v \<Rightarrow> ret (Some (nullish (jv_get v ''entries'') (JArr []))))"

definition FileAcceptedJobStore_save :: "string \<Rightarrow> jv list \<Rightarrow> (fs, unit) prog" where
  "FileAcceptedJobStore_save filePath entries =
     writeJsonFile filePath (JObj [(''version'', JNum STATE_VERSION), (''entries'', JArr entries)])"

text \<open>\<open>([k, v]) => [k, v]\<close>: an array's or a string's first two elements, \<open>undefined\<close> for missing ones.\<close>

definition pair_entry :: "jv \<Rightarrow> jv res" where
  "pair_entry e =
     (case e of
        JArr xs \<Rightarrow> Inr (JArr (take 2 (xs @ [JUndef, JUndef])))
      | JStr s \<Rightarrow> Inr (JArr (take 2 (map (\<lambda>c. JStr [c]) s @ [JUndef, JUndef])))
      | _ \<Rightarrow> Inl (TypeError ''object is not iterable''))"

definition pair_entries :: "jv \<Rightarrow> jv list res" where
  "pair_entries v = res_bind (as_array v) (res_map pair_entry)"

text \<open>The parts of a hub state as the file has them.\<close>

record FileHubState =
  fh_bids :: "jv list"
  fh_outcomes :: "jv list"
  fh_knownOperators :: jv
  fh_lastHeartbeatAt :: "jv list"
  fh_assignments :: "jv list"
  fh_stats :: jv

definition file_hub_state :: "jv \<Rightarrow> FileHubState res" where
  "file_hub_state s =
     (if s = JUndef \<or> s = JNull then Inl (TypeError ''Cannot read properties of undefined'')
      else res_bind (pair_entries (jv_get s ''bids'')) (\<lambda>bids.
           res_bind (pair_entries (jv_get s ''outcomes'')) (\<lambda>outcomes.
           res_bind (pair_entries (jv_get s ''lastHeartbeatAt'')) (\<lambda>beats.
           res_bind (pair_entries (jv_get s ''assignments'')) (\<lambda>assignments.
             Inr \<lparr> fh_bids = bids, fh_outcomes = outcomes,
                   fh_knownOperators = nullish (jv_get s ''knownOperators'') (JArr []),
                   fh_lastHeartbeatAt = beats, fh_assignments = assignments, fh_stats = jv_get s ''stats'' \<rparr>)))))"

definition FileHubStore_load :: "nat \<Rightarrow> string \<Rightarrow> (fs, FileHubState option) prog" where
  "FileHubStore_load now filePath =
     bnd (readJsonFile now filePath) (\<lambda>raw.
       case current_version raw of None \<Rightarrow> ret None
       | Some v \<Rightarrow> of_res (res_bind (file_hub_state (jv_get v ''state'')) (\<lambda>st. Inr (Some st))))"

definition FileHubStore_save :: "string \<Rightarrow> jv \<Rightarrow> (fs, unit) prog" where
  "FileHubStore_save filePath state =
     writeJsonFile filePath (JObj [(''version'', JNum STATE_VERSION), (''state'', state)])"

definition FileHubStore_get :: "(FileHubState \<Rightarrow> 'b) \<Rightarrow> nat \<Rightarrow> string \<Rightarrow> (fs, 'b option) prog" where
  "FileHubStore_get part now filePath = bnd (FileHubStore_load now filePath) (\<lambda>st. ret (map_option part st))"

text \<open>\<open>unlinkSync\<close> with every error ignored.\<close>

definition FileStore_clear :: "string \<Rightarrow> (fs, unit) prog" where
  "FileStore_clear filePath = try_catch (unlinkSync filePath) (\<lambda>_. ret ())"

text \<open>Fees survive either spelling the stores use.\<close>

lemma deserializeFee_serialised:
  "deserializeFee (serialiseBigInt f) = Inr f" "deserializeFee (JStr (dec_of_int f)) = Inr f"
proof -
  have "\<not> starts_with bigint_prefix (dec_of_int f)"
  proof
    assume "starts_with bigint_prefix (dec_of_int f)"
    then have "hd (dec_of_int f) = CHR ''_''" by (auto simp: starts_with_iff bigint_prefix_def)
    then show False
      using hd_dec_of_nat [of "nat f"] by (auto simp: dec_of_int_def is_digit_def split: if_splits)
  qed
  then show "deserializeFee (JStr (dec_of_int f)) = Inr f" by (simp add: deserializeFee_def)
  have "starts_with bigint_prefix (bigint_prefix @ dec_of_int f)" by (auto simp: starts_with_iff)
  then show "deserializeFee (serialiseBigInt f) = Inr f" by (simp add: deserializeFee_def serialiseBigInt_def)
qed

text \<open>
  Saving through a file-backed store of the relayer never succeeds: whatever the entries and
  the state of the file system, the save throws \<open>ReferenceError\<close> and leaves every file as
  it was (the module calls functions it does not import).
\<close>

lemma file_store_save_always_throws:
  "FileAcceptedJobStore_save p es s = (Inl (ReferenceError ''ensureDir is not defined''), s)
   \<and> FileHubStore_save p hub s = (Inl (ReferenceError ''ensureDir is not defined''), s)
   \<and> FileLedgerStore_save p les s = (Inl (ReferenceError ''ensureDir is not defined''), s)"
  by (simp add: FileAcceptedJobStore_save_def FileLedgerStore_save_def FileHubStore_save_def writeJsonFile_def)

end
