(* ===== verification/Relayer_Queue.thy ===== *)
theory Relayer_Queue
  imports Relayer_Store "HOL-Library.Multiset"
begin

text \<open>
  The durable queue of accepted-but-unsubmitted jobs, \<^verbatim>\<open>relayer/src/job-queue.ts\<close>. The queue's
  map is keyed by the lower-cased job id. Its specification is a finite map from keys to
  entries that every operation updates in one place; the refinement lemmas relate the
  association list to it, and, against any store with the law of \<open>durable_store\<close>, a
  fresh queue hydrated after a successful operation holds the same map. Entries are values:
  the sharing of entry objects between the queue and an in-memory store is not modelled.
\<close>

datatype phase = Accepting | Accepted

record AcceptedJobEntry =
  aj_jobId :: string
  aj_acceptedTx :: "string option"
  aj_phase :: "phase option"
  aj_payload :: jv
  aj_deadline :: rat
  aj_fee :: string
  aj_acceptedAt :: int
  aj_attempts :: nat
  aj_lastError :: "string option"

record AcceptedJobQueue =
  q_entries :: "(string \<times> AcceptedJobEntry) list"
  q_loaded :: bool

type_synonym 'w job_store = "('w, AcceptedJobEntry list) store_ops"
type_synonym ('w, 'a) queue_prog = "(AcceptedJobQueue \<times> 'w, 'a) prog"

definition new_queue :: AcceptedJobQueue where
  "new_queue = \<lparr> q_entries = [], q_loaded = False \<rparr>"

text \<open>\<open>entry.phase ??= entry.acceptedTx ? "accepted" : "accepting"\<close>\<close>

definition default_phase :: "AcceptedJobEntry \<Rightarrow> AcceptedJobEntry" where
  "default_phase entry =
     entry\<lparr> aj_phase := Some (case aj_phase entry of Some p \<Rightarrow> p
       | None \<Rightarrow> (case aj_acceptedTx entry of Some (c # cs) \<Rightarrow> Accepted | _ \<Rightarrow> Accepting)) \<rparr>"

definition set_entry :: "AcceptedJobEntry \<Rightarrow> AcceptedJobQueue \<Rightarrow> AcceptedJobQueue" where
  "set_entry entry q = q\<lparr> q_entries := AList.update (to_lower (aj_jobId entry)) entry (q_entries q) \<rparr>"

definition q_pending :: "AcceptedJobQueue \<Rightarrow> AcceptedJobEntry list" where
  "q_pending q = sort_key aj_acceptedAt (map snd (q_entries q))"

definition q_get :: "string \<Rightarrow> AcceptedJobQueue \<Rightarrow> AcceptedJobEntry option" where
  "q_get jobId q = map_of (q_entries q) (to_lower jobId)"

definition q_size :: "AcceptedJobQueue \<Rightarrow> nat" where
  "q_size q = length (q_entries q)"

definition q_persist :: "'w job_store option \<Rightarrow> ('w, unit) queue_prog" where
  "q_persist store =
     (case store of None \<Rightarrow> ret ()
      | Some st \<Rightarrow> bnd (gets (\<lambda>s. q_pending (fst s))) (\<lambda>es. on_snd (st_save st es)))"

definition on_queue :: "(AcceptedJobQueue \<Rightarrow> AcceptedJobQueue) \<Rightarrow> ('w, unit) queue_prog" where
  "on_queue f = upd (\<lambda>s. (f (fst s), snd s))"

definition q_hydrate :: "'w job_store option \<Rightarrow> ('w, unit) queue_prog" where
  "q_hydrate store =
     bnd (gets (\<lambda>s. q_loaded (fst s))) (\<lambda>loaded.
       case store of None \<Rightarrow> ret ()
       | Some st \<Rightarrow>
         if loaded then ret ()
         else bnd (on_queue (\<lambda>q. q\<lparr> q_loaded := True \<rparr>)) (\<lambda>_.
              bnd (on_snd (st_load st)) (\<lambda>saved.
                case saved of None \<Rightarrow> ret ()
                | Some es \<Rightarrow> on_queue (\<lambda>q. foldl (\<lambda>q e. set_entry (default_phase e) q) q es))))"

definition q_enqueue :: "'w job_store option \<Rightarrow> AcceptedJobEntry \<Rightarrow> ('w, unit) queue_prog" where
  "q_enqueue store entry = bnd (on_queue (set_entry (default_phase entry))) (\<lambda>_. q_persist store)"

definition q_markAccepted :: "'w job_store option \<Rightarrow> string \<Rightarrow> string \<Rightarrow> ('w, unit) queue_prog" where
  "q_markAccepted store jobId acceptedTx =
     bnd (gets (\<lambda>s. q_get jobId (fst s))) (\<lambda>entry.
       case entry of None \<Rightarrow> throw (Error (''accepted job intent missing: '' @ jobId))
       | Some e \<Rightarrow>
         bnd (on_queue (\<lambda>q. q\<lparr> q_entries := AList.update (to_lower jobId)
                (e\<lparr> aj_acceptedTx := Some acceptedTx, aj_phase := Some Accepted \<rparr>) (q_entries q) \<rparr>)) (\<lambda>_.
         q_persist store))"

definition q_resolve :: "'w job_store option \<Rightarrow> string \<Rightarrow> ('w, unit) queue_prog" where
  "q_resolve store jobId =
     bnd (on_queue (\<lambda>q. q\<lparr> q_entries := AList.delete (to_lower jobId) (q_entries q) \<rparr>)) (\<lambda>_. q_persist store)"

definition q_recordFailure :: "'w job_store option \<Rightarrow> string \<Rightarrow> string \<Rightarrow> ('w, unit) queue_prog" where
  "q_recordFailure store jobId error =
     bnd (gets (\<lambda>s. q_get jobId (fst s))) (\<lambda>entry.
       case entry of None \<Rightarrow> ret ()
       | Some e \<Rightarrow>
         bnd (on_queue (\<lambda>q. q\<lparr> q_entries := AList.update (to_lower jobId)
                (e\<lparr> aj_attempts := aj_attempts e + 1, aj_lastError := Some error \<rparr>) (q_entries q) \<rparr>)) (\<lambda>_.
         q_persist store))"


section \<open>Invariant\<close>

text \<open>Keys are distinct and are the lower-cased ids of their entries, and every entry has a phase.\<close>

definition queue_inv :: "AcceptedJobQueue \<Rightarrow> bool" where
  "queue_inv q \<longleftrightarrow> distinct_keys (q_entries q) \<and>
     (\<forall>(k, e) \<in> set (q_entries q). k = to_lower (aj_jobId e) \<and> aj_phase e \<noteq> None)"

lemma queue_inv_new: "queue_inv new_queue"
  by (simp add: queue_inv_def new_queue_def)

lemma set_update_subset: "set (AList.update k v m) \<subseteq> insert (k, v) (set m)"
  by (induction m) auto

lemma queue_inv_update:
  assumes "queue_inv q" "k = to_lower (aj_jobId e)" "aj_phase e \<noteq> None"
  shows "queue_inv (q\<lparr> q_entries := AList.update k e (q_entries q) \<rparr>)"
  using assms set_update_subset [of k e "q_entries q"]
  by (auto simp: queue_inv_def intro: distinct_update)

lemma queue_inv_delete: "queue_inv q \<Longrightarrow> queue_inv (q\<lparr> q_entries := AList.delete k (q_entries q) \<rparr>)"
  by (auto simp: queue_inv_def AList.delete_eq distinct_map_filter)

lemma default_phase_simps [simp]:
  "aj_jobId (default_phase e) = aj_jobId e" "aj_phase (default_phase e) \<noteq> None"
  by (simp_all add: default_phase_def)

lemma queue_inv_set_entry: "queue_inv q \<Longrightarrow> queue_inv (set_entry (default_phase e) q)"
  unfolding set_entry_def by (rule queue_inv_update) simp_all

lemma queue_inv_get: "queue_inv q \<Longrightarrow> q_get j q = Some e \<Longrightarrow> to_lower (aj_jobId e) = to_lower j \<and> aj_phase e \<noteq> None"
  unfolding queue_inv_def q_get_def by (drule map_of_SomeD) auto

lemma queue_inv_hydrated: "queue_inv q \<Longrightarrow> queue_inv (foldl (\<lambda>q e. set_entry (default_phase e) q) q es)"
  by (induction es arbitrary: q) (auto intro: queue_inv_set_entry)

lemma queue_inv_loaded [simp]: "queue_inv (q\<lparr> q_loaded := b \<rparr>) = queue_inv q"
  by (simp add: queue_inv_def)

lemma wp_q_persist [wp_simps]:
  "wp (q_persist store) Q E s =
     (case store of None \<Rightarrow> Q () s
      | Some st \<Rightarrow> wp (st_save st (q_pending (fst s))) (\<lambda>_ w. Q () (fst s, w)) (\<lambda>e w. E e (fst s, w)) (snd s))"
  by (simp add: q_persist_def split: option.split)

text \<open>
  Every operation runs the queue through its update and at most one save: whatever holds of the
  updated queue holds on both exits.
\<close>

lemma wp_q_persist_fst: "P (fst s) \<Longrightarrow> wp (q_persist store) (\<lambda>_ s. P (fst s)) (\<lambda>_ s. P (fst s)) s"
  by (simp add: wp_simps wp_const split: option.split)

lemma queue_ops_inv:
  assumes "queue_inv (fst s)"
  shows "wp (q_enqueue store e) (\<lambda>_ s. queue_inv (fst s)) (\<lambda>_ s. queue_inv (fst s)) s"
    and "wp (q_resolve store j) (\<lambda>_ s. queue_inv (fst s)) (\<lambda>_ s. queue_inv (fst s)) s"
    and "wp (q_markAccepted store j t) (\<lambda>_ s. queue_inv (fst s)) (\<lambda>_ s. queue_inv (fst s)) s"
    and "wp (q_recordFailure store j m) (\<lambda>_ s. queue_inv (fst s)) (\<lambda>_ s. queue_inv (fst s)) s"
    and "wp (q_hydrate store) (\<lambda>_ s. queue_inv (fst s)) (\<lambda>_ s. queue_inv (fst s)) s"
proof -
  show "wp (q_enqueue store e) (\<lambda>_ s. queue_inv (fst s)) (\<lambda>_ s. queue_inv (fst s)) s"
    unfolding q_enqueue_def on_queue_def
    by (simp add: assms queue_inv_set_entry wp_q_persist_fst)
  show "wp (q_resolve store j) (\<lambda>_ s. queue_inv (fst s)) (\<lambda>_ s. queue_inv (fst s)) s"
    unfolding q_resolve_def on_queue_def
    by (simp add: assms queue_inv_delete wp_q_persist_fst)
  show "wp (q_markAccepted store j t) (\<lambda>_ s. queue_inv (fst s)) (\<lambda>_ s. queue_inv (fst s)) s"
    unfolding q_markAccepted_def on_queue_def
    using queue_inv_get [OF assms, of j] assms
    by (auto split: option.split intro!: wp_q_persist_fst queue_inv_update)
  show "wp (q_recordFailure store j m) (\<lambda>_ s. queue_inv (fst s)) (\<lambda>_ s. queue_inv (fst s)) s"
    unfolding q_recordFailure_def on_queue_def
    using queue_inv_get [OF assms, of j] assms
    by (auto split: option.split intro!: wp_q_persist_fst queue_inv_update)
  show "wp (q_hydrate store) (\<lambda>_ s. queue_inv (fst s)) (\<lambda>_ s. queue_inv (fst s)) s"
    unfolding q_hydrate_def on_queue_def using assms
    by (auto simp: queue_inv_hydrated split: option.split intro!: wp_const [THEN wp_mono])
qed


section \<open>Specification and refinement\<close>

text \<open>The commands of the queue and what each does to the finite map it stands for.\<close>

datatype queue_cmd =
    Enqueue AcceptedJobEntry
  | MarkAccepted string string
  | Resolve string
  | RecordFailure string string

type_synonym job_map = "string \<rightharpoonup> AcceptedJobEntry"

fun queue_spec :: "queue_cmd \<Rightarrow> job_map \<Rightarrow> job_map" where
  "queue_spec (Enqueue e) m = m(to_lower (aj_jobId e) \<mapsto> default_phase e)"
| "queue_spec (MarkAccepted j t) m =
     (case m (to_lower j) of None \<Rightarrow> m
      | Some e \<Rightarrow> m(to_lower j \<mapsto> e\<lparr> aj_acceptedTx := Some t, aj_phase := Some Accepted \<rparr>))"
| "queue_spec (Resolve j) m = m(to_lower j := None)"
| "queue_spec (RecordFailure j err) m =
     (case m (to_lower j) of None \<Rightarrow> m
      | Some e \<Rightarrow> m(to_lower j \<mapsto> e\<lparr> aj_attempts := aj_attempts e + 1, aj_lastError := Some err \<rparr>))"

fun run_cmd :: "'w job_store option \<Rightarrow> queue_cmd \<Rightarrow> ('w, unit) queue_prog" where
  "run_cmd store (Enqueue e) = q_enqueue store e"
| "run_cmd store (MarkAccepted j t) = q_markAccepted store j t"
| "run_cmd store (Resolve j) = q_resolve store j"
| "run_cmd store (RecordFailure j err) = q_recordFailure store j err"

abbreviation q_map :: "AcceptedJobQueue \<Rightarrow> job_map" where
  "q_map q \<equiv> map_of (q_entries q)"

lemma run_cmd_inv:
  "queue_inv (fst s) \<Longrightarrow> wp (run_cmd store c) (\<lambda>_ s. queue_inv (fst s)) (\<lambda>_ s. queue_inv (fst s)) s"
  by (cases c) (simp_all add: queue_ops_inv)

lemma wp_persist_map:
  "q_map (fst s) = m \<Longrightarrow> wp (q_persist store) (\<lambda>_ s. q_map (fst s) = m) (\<lambda>_ s. q_map (fst s) = m) s"
  by (rule wp_q_persist_fst)

lemma map_of_update_fun: "map_of (AList.update k v m) = (map_of m)(k \<mapsto> v)"
  by (rule ext) simp

lemma map_of_delete_fun: "map_of (AList.delete k m) = (map_of m)(k := None)"
  by (rule ext) simp

text \<open>Each operation implements its command on the map, whether or not the save succeeds.\<close>

lemma run_cmd_refines:
  "wp (run_cmd store c) (\<lambda>_ s'. q_map (fst s') = queue_spec c (q_map (fst s)))
     (\<lambda>_ s'. q_map (fst s') = queue_spec c (q_map (fst s))) s"
  by (cases c)
     (auto simp: q_enqueue_def q_markAccepted_def q_resolve_def q_recordFailure_def on_queue_def set_entry_def
        q_get_def map_of_update_fun map_of_delete_fun split: option.split intro!: wp_persist_map)


section \<open>Recovery after a crash\<close>

lemma default_phase_id: "aj_phase e \<noteq> None \<Longrightarrow> default_phase e = e"
  by (auto simp: default_phase_def)

lemma map_of_hydrated:
  assumes "\<forall>e \<in> set es. aj_phase e \<noteq> None" "distinct (map (\<lambda>e. to_lower (aj_jobId e)) es)"
  shows "q_map (foldl (\<lambda>q e. set_entry (default_phase e) q) q es)
     = q_map q ++ map_of (map (\<lambda>e. (to_lower (aj_jobId e), e)) es)"
  using assms
proof (induction es arbitrary: q)
  case (Cons e es)
  have "to_lower (aj_jobId e) \<notin> dom (map_of (map (\<lambda>e. (to_lower (aj_jobId e), e)) es))"
    using Cons.prems(2) by (auto simp: dom_map_of_conv_image_fst image_image)
  then have "(q_map q)(to_lower (aj_jobId e) \<mapsto> e) ++ map_of (map (\<lambda>e. (to_lower (aj_jobId e), e)) es)
     = q_map q ++ map_of (map (\<lambda>e. (to_lower (aj_jobId e), e)) (e # es))"
    by (simp add: map_add_upd_left)
  moreover have "q_map (set_entry (default_phase e) q) = (q_map q)(to_lower (aj_jobId e) \<mapsto> e)"
    using Cons.prems(1) by (simp add: default_phase_id set_entry_def map_of_update_fun)
  moreover have "\<forall>e \<in> set es. aj_phase e \<noteq> None" "distinct (map (\<lambda>e. to_lower (aj_jobId e)) es)"
    using Cons.prems by simp_all
  note Cons.IH [OF this, of "set_entry (default_phase e) q"]
  ultimately show ?case by (simp only: foldl.simps)
qed simp

lemma queue_inv_entries:
  assumes "queue_inv q"
  shows "map (\<lambda>e. (to_lower (aj_jobId e), e)) (map snd (q_entries q)) = q_entries q"
  using assms by (auto simp: queue_inv_def intro!: map_idI)

lemma hydrate_pending:
  assumes "queue_inv q"
  shows "q_map (foldl (\<lambda>q e. set_entry (default_phase e) q) (new_queue\<lparr> q_loaded := True \<rparr>) (q_pending q)) = q_map q"
proof -
  let ?kv = "\<lambda>e. (to_lower (aj_jobId e), e)"
  have kv: "map ?kv (map snd (q_entries q)) = q_entries q" by (rule queue_inv_entries [OF assms])
  have keys: "map (to_lower \<circ> aj_jobId) (map snd (q_entries q)) = map fst (q_entries q)"
    using arg_cong [OF kv, of "map fst"] by (simp add: comp_def)
  have "set (map ?kv (q_pending q)) = set (q_entries q)"
    using arg_cong [OF kv, of set] by (simp add: q_pending_def image_image)
  moreover have "distinct (map (to_lower \<circ> aj_jobId) (q_pending q))"
  proof -
    have "distinct (map (to_lower \<circ> aj_jobId) (map snd (q_entries q)))"
      unfolding keys using assms by (simp add: queue_inv_def)
    then show ?thesis unfolding q_pending_def
      by (metis distinct_map distinct_sort set_sort)
  qed
  ultimately have "map_of (map ?kv (q_pending q)) = q_map q" "distinct (map (\<lambda>e. to_lower (aj_jobId e)) (q_pending q))"
    using assms by (auto simp: map_of_inject_set queue_inv_def comp_def)
  moreover have "\<forall>e \<in> set (q_pending q). aj_phase e \<noteq> None"
    using assms by (auto simp: q_pending_def queue_inv_def)
  ultimately show ?thesis by (simp add: map_of_hydrated new_queue_def)
qed

text \<open>What a restart finds: a new queue, hydrated from the store, holds the map \<open>m\<close>.\<close>

definition recovers :: "'w job_store \<Rightarrow> 'w \<Rightarrow> job_map \<Rightarrow> bool" where
  "recovers S w m \<longleftrightarrow>
     (case q_hydrate (Some S) (new_queue, w) of (r, s) \<Rightarrow> r = Inr () \<and> q_map (fst s) = m)"

locale job_durability = durable_store S
  for S :: "('w, AcceptedJobEntry list) store_ops"
begin

lemma persist_recovers:
  assumes "queue_inv (fst s)"
  shows "wp (q_persist (Some S)) (\<lambda>_ s'. recovers S (snd s') (q_map (fst s))) (\<lambda>_ _. True) s"
proof -
  have "recovers S w' (q_map (fst s))" if "st_save S (q_pending (fst s)) (snd s) = (Inr (), w')" for w'
  proof -
    from load_after_save [OF that] obtain w'' where "st_load S w' = (Inr (Some (q_pending (fst s))), w'')"
      by (metis prod.collapse)
    then show ?thesis
      using hydrate_pending [OF assms]
      by (simp add: recovers_def q_hydrate_def on_queue_def run_simps new_queue_def)
  qed
  then show ?thesis by (auto simp: wp_q_persist intro!: wpI)
qed

lemma run_cmd_recovers:
  assumes "queue_inv (fst s)" "recovers S (snd s) (q_map (fst s))"
  shows "wp (run_cmd (Some S) c) (\<lambda>_ s'. recovers S (snd s') (queue_spec c (q_map (fst s)))) (\<lambda>_ _. True) s"
proof -
  have persist: "wp (q_persist (Some S)) (\<lambda>_ s'. recovers S (snd s') m) (\<lambda>_ _. True) (q, snd s)"
    if "queue_inv q" "q_map q = m" for q m
    using persist_recovers [of "(q, snd s)"] that by simp
  show ?thesis
  proof (cases c)
    case (Enqueue e)
    then show ?thesis
      using assms(1) by (auto simp: q_enqueue_def on_queue_def set_entry_def map_of_update_fun
        intro!: persist queue_inv_set_entry [unfolded set_entry_def, of _ e, simplified])
  next
    case (MarkAccepted j t)
    then show ?thesis
      using assms queue_inv_get [OF assms(1), of j]
      by (auto simp: q_markAccepted_def on_queue_def q_get_def map_of_update_fun split: option.split
          intro!: persist queue_inv_update)
  next
    case (Resolve j)
    then show ?thesis
      using assms(1) by (auto simp: q_resolve_def on_queue_def map_of_delete_fun intro!: persist queue_inv_delete)
  next
    case (RecordFailure j err)
    then show ?thesis
      using assms queue_inv_get [OF assms(1), of j]
      by (auto simp: q_recordFailure_def on_queue_def q_get_def map_of_update_fun split: option.split
          intro!: persist queue_inv_update)
  qed
qed

lemma run_cmds_recover:
  assumes "queue_inv (fst s)" "recovers S (snd s) (q_map (fst s))"
  shows "wp (prog_iter (run_cmd (Some S)) cs)
    (\<lambda>_ s'. queue_inv (fst s') \<and> q_map (fst s') = fold queue_spec cs (q_map (fst s)) \<and> recovers S (snd s') (q_map (fst s')))
    (\<lambda>_ _. True) s"
  using assms
proof (induction cs arbitrary: s)
  case (Cons c cs)
  have "wp (run_cmd (Some S) c)
      (\<lambda>_ s'. queue_inv (fst s') \<and> q_map (fst s') = queue_spec c (q_map (fst s)) \<and> recovers S (snd s') (q_map (fst s')))
      (\<lambda>_ _. True) s"
    using run_cmd_inv [OF Cons.prems(1), of "Some S" c] run_cmd_refines [of "Some S" c s]
      run_cmd_recovers [OF Cons.prems, of c]
    by (auto simp: wp_def split: prod.splits sum.splits)
  then show ?case
    by simp (erule wp_mono, use Cons.IH in force, simp)
qed simp

end

interpretation mem_jobs: job_durability MemoryStore
  by unfold_locales


section \<open>Properties\<close>

definition example_entry :: "string \<Rightarrow> int \<Rightarrow> AcceptedJobEntry" where
  "example_entry j t = \<lparr> aj_jobId = j, aj_acceptedTx = None, aj_phase = None, aj_payload = JNull,
     aj_deadline = 1000, aj_fee = ''7'', aj_acceptedAt = t, aj_attempts = 0, aj_lastError = None \<rparr>"

text \<open>
  C2: the accepted-jobs queue is durable. Over any store whose loads return what was last saved,
  after any sequence of enqueue, mark-accepted, resolve and record-failure calls that returned,
  the queue is the map those commands specify, and a new process that hydrates a fresh queue
  from the store at that moment has exactly the same map: no accepted job is lost or
  resurrected by a crash between two operations.
\<close>

theorem queue_survives_crash:
  assumes "\<forall>x w w'. st_save S x w = (Inr (), w') \<longrightarrow> fst (st_load S w') = Inr (Some x)"
    and "queue_inv q" "recovers S w (q_map q)"
    and "prog_iter (run_cmd (Some S)) cs (q, w) = (Inr (), (q', w'))"
  shows "q_map q' = fold queue_spec cs (q_map q) \<and> recovers S w' (q_map q') \<and> queue_inv q'"
proof -
  have "job_durability S" using assms(1) by unfold_locales blast
  from job_durability.run_cmds_recover [OF this, of "(q, w)" cs] assms(2-4)
  show ?thesis by (auto dest: wp_InrD)
qed

theorem queue_survives_crash_witness:
  "recovers MemoryStore (snd (snd (prog_iter (run_cmd (Some MemoryStore))
       [Enqueue (example_entry ''0xAB'' 5), MarkAccepted ''0xab'' ''tx1''] (new_queue, None))))
     [''0xab'' \<mapsto> (example_entry ''0xAB'' 5)\<lparr> aj_phase := Some Accepted, aj_acceptedTx := Some ''tx1'' \<rparr>]"
proof -
  let ?run = "prog_iter (run_cmd (Some MemoryStore)) [Enqueue (example_entry ''0xAB'' 5), MarkAccepted ''0xab'' ''tx1''] (new_queue, None)"
  have law: "\<forall>x w w'. st_save MemoryStore x w = (Inr (), w') \<longrightarrow> fst (st_load MemoryStore w') = Inr (Some x)"
    using mem.load_after_save by blast
  have ok: "fst ?run = Inr ()" by code_simp
  have start: "recovers MemoryStore None (q_map new_queue)"
    by (simp add: recovers_def q_hydrate_def on_queue_def run_simps new_queue_def MemoryStore_def)
  have "?run = (Inr (), (fst (snd ?run), snd (snd ?run)))" using ok by (metis prod.collapse)
  from queue_survives_crash [OF law queue_inv_new start this]
  have "recovers MemoryStore (snd (snd ?run)) (fold queue_spec [Enqueue (example_entry ''0xAB'' 5), MarkAccepted ''0xab'' ''tx1''] (q_map new_queue))"
    by auto
  moreover have "to_lower ''0xAB'' = ''0xab''" "to_lower ''0xab'' = ''0xab''" by code_simp+
  ultimately show ?thesis
    by (simp add: example_entry_def default_phase_def new_queue_def)
qed

text \<open>
  Job identifiers are compared without regard to case and the pending list is ordered: the
  queue's pending entries are exactly its entries, oldest acceptance first, and looking a job up
  by any spelling of its id finds the same entry.
\<close>

lemma queue_pending_sorted_and_complete:
  "sorted (map aj_acceptedAt (q_pending q)) \<and> mset (q_pending q) = mset (map snd (q_entries q))
   \<and> q_get (to_lower j) q = q_get j q"
  by (simp add: q_pending_def q_get_def)

end
