(* ===== verification/Relayer_Chain.thy ===== *)
theory Relayer_Chain
  imports Effects Relayer_Messages
begin

text \<open>
  What the relayer needs of the chain and of its runtime: the on-chain views and the chain adapter
  interface of \<^verbatim>\<open>relayer/src/engine.ts\<close>, with the clock, the random source and \<open>sleep\<close> of
  the JavaScript runtime. The adapter is a parameter: its calls are arbitrary programs over
  the world \<open>'w\<close>, which may throw and may change the world in any way.
\<close>

datatype job_status = JOpen | JAccepted | JSubmitted | JSlashed | JCanceled

fun status_string :: "job_status \<Rightarrow> string" where
  "status_string JOpen = ''open''"
| "status_string JAccepted = ''accepted''"
| "status_string JSubmitted = ''submitted''"
| "status_string JSlashed = ''slashed''"
| "status_string JCanceled = ''canceled''"

record OnChainJob =
  job_exists :: bool
  job_status :: job_status
  job_fee :: int
  job_deadline :: rat
  job_payloadHash :: string
  job_acceptedRelayer :: "string option"

record OnChainRelayer =
  rel_registered :: bool
  rel_x25519Pk :: string
  rel_endpoint :: string
  rel_freeStake :: int

record 'w RelayerChainAdapter =
  getJob :: "string \<Rightarrow> ('w, OnChainJob option) prog"
  getRelayer :: "string \<Rightarrow> ('w, OnChainRelayer option) prog"
  latestLedger :: "('w, rat) prog"
  simulatePoolWithdraw :: "PoolWithdrawPayload \<Rightarrow> ('w, unit) prog"
  acceptJob :: "string \<Rightarrow> ('w, string) prog"
  submitPoolWithdraw :: "string \<Rightarrow> PoolWithdrawPayload \<Rightarrow> ('w, string) prog"

record 'w js_runtime =
  rt_now :: "'w \<Rightarrow> int \<times> 'w"
  rt_random :: "'w \<Rightarrow> rat \<times> 'w"
  rt_sleep :: "rat \<Rightarrow> 'w \<Rightarrow> 'w"

definition date_now :: "'w js_runtime \<Rightarrow> ('w, int) prog" where
  "date_now R w = (case rt_now R w of (t, w') \<Rightarrow> (Inr t, w'))"

definition math_random :: "'w js_runtime \<Rightarrow> ('w, rat) prog" where
  "math_random R w = (case rt_random R w of (t, w') \<Rightarrow> (Inr t, w'))"

definition sleep_ms :: "'w js_runtime \<Rightarrow> rat \<Rightarrow> ('w, unit) prog" where
  "sleep_ms R ms w = (Inr (), rt_sleep R ms w)"

lemma wp_clock [wp_simps, simp]:
  "wp (date_now R) Q E w = Q (fst (rt_now R w)) (snd (rt_now R w))"
  "wp (math_random R) Q' E' w = Q' (fst (rt_random R w)) (snd (rt_random R w))"
  "wp (sleep_ms R ms) Q'' E'' w = Q'' () (rt_sleep R ms w)"
  by (simp_all add: wp_def date_now_def math_random_def sleep_ms_def split: prod.splits)

end
