(* ===== verification/Relayer_Reconciler.thy ===== *)
theory Relayer_Reconciler
  imports Relayer_Chain Relayer_Store
begin

text \<open>
  The job ledger and the payout reconciler, \<^verbatim>\<open>relayer/src/reconciler.ts\<close>. Saves of the ledger
  are not awaited and their errors are only logged, so a ledger operation cannot fail; a
  report is computed entry by entry from the chain's answers. Timers are the flag whether
  one is running; logging is not modelled.
\<close>

record JobLedgerEntry =
  le_jobId :: string
  le_acceptedTx :: string
  le_submittedTx :: string
  le_expectedFee :: int
  le_submittedAt :: int

record JobLedger =
  l_entries :: "(string \<times> JobLedgerEntry) list"
  l_loaded :: bool

type_synonym 'w ledger_store = "('w, JobLedgerEntry list) store_ops"
type_synonym ('w, 'a) ledger_prog = "(JobLedger \<times> 'w, 'a) prog"

definition new_ledger :: JobLedger where
  "new_ledger = \<lparr> l_entries = [], l_loaded = False \<rparr>"

definition l_all :: "JobLedger \<Rightarrow> JobLedgerEntry list" where
  "l_all l = map snd (l_entries l)"

definition l_get :: "string \<Rightarrow> JobLedger \<Rightarrow> JobLedgerEntry option" where
  "l_get jobId l = map_of (l_entries l) (to_lower jobId)"

definition l_size :: "JobLedger \<Rightarrow> nat" where
  "l_size l = length (l_entries l)"

definition l_persist :: "'w ledger_store option \<Rightarrow> ('w, unit) ledger_prog" where
  "l_persist store =
     (case store of None \<Rightarrow> ret ()
      | Some st \<Rightarrow> bnd (gets (\<lambda>s. l_all (fst s))) (\<lambda>es. ignore_error (on_snd (st_save st es))))"

definition on_ledger :: "(JobLedger \<Rightarrow> JobLedger) \<Rightarrow> ('w, unit) ledger_prog" where
  "on_ledger f = upd (\<lambda>s. (f (fst s), snd s))"

definition ledger_put :: "JobLedgerEntry \<Rightarrow> JobLedger \<Rightarrow> JobLedger" where
  "ledger_put entry l = l\<lparr> l_entries := AList.update (to_lower (le_jobId entry)) entry (l_entries l) \<rparr>"

definition l_record :: "'w ledger_store option \<Rightarrow> JobLedgerEntry \<Rightarrow> ('w, unit) ledger_prog" where
  "l_record store entry = bnd (on_ledger (ledger_put entry)) (\<lambda>_. l_persist store)"

definition l_remove :: "'w ledger_store option \<Rightarrow> string \<Rightarrow> ('w, unit) ledger_prog" where
  "l_remove store jobId =
     bnd (on_ledger (\<lambda>l. l\<lparr> l_entries := AList.delete (to_lower jobId) (l_entries l) \<rparr>)) (\<lambda>_. l_persist store)"

definition l_hydrate :: "'w ledger_store option \<Rightarrow> ('w, unit) ledger_prog" where
  "l_hydrate store =
     bnd (gets (\<lambda>s. l_loaded (fst s))) (\<lambda>loaded.
       case store of None \<Rightarrow> ret ()
       | Some st \<Rightarrow>
         if loaded then ret ()
         else bnd (on_ledger (\<lambda>l. l\<lparr> l_loaded := True \<rparr>)) (\<lambda>_.
              try_catch
                (bnd (on_snd (st_load st)) (\<lambda>saved.
                   case saved of None \<Rightarrow> ret ()
                   | Some es \<Rightarrow> on_ledger (\<lambda>l. foldl (\<lambda>l e. ledger_put e l) l es)))
                (\<lambda>_. ret ())))"


section \<open>Reports\<close>

datatype recon_outcome = Clean | Discrepancy | NotFound

record JobReconciliationResult =
  jr_jobId :: string
  jr_outcome :: recon_outcome
  jr_expectedFee :: string
  jr_onChainFee :: "string option"
  jr_onChainStatus :: "string option"
  jr_submittedTx :: string
  jr_detail :: string

record ReconciliationReport =
  rr_runAt :: int
  rr_coveredRange :: "(int \<times> int) option"
  rr_totalChecked :: nat
  rr_cleanCount :: nat
  rr_discrepancyCount :: nat
  rr_notFoundCount :: nat
  rr_clean :: bool
  rr_discrepancies :: "JobReconciliationResult list"

definition rpc_error_result :: "JobLedgerEntry \<Rightarrow> js_error \<Rightarrow> JobReconciliationResult" where
  "rpc_error_result entry rpcError = \<lparr> jr_jobId = le_jobId entry, jr_outcome = Discrepancy,
     jr_expectedFee = dec_of_int (le_expectedFee entry), jr_onChainFee = None, jr_onChainStatus = Some ''unknown'',
     jr_submittedTx = le_submittedTx entry, jr_detail = ''RPC error during lookup: '' @ err_message rpcError \<rparr>"

definition join_reasons :: "string list \<Rightarrow> string" where
  "join_reasons rs = (case rs of [] \<Rightarrow> [] | r # rest \<Rightarrow> r @ concat (map (\<lambda>x. ''; '' @ x) rest))"

definition reconcile_entry :: "JobLedgerEntry \<Rightarrow> OnChainJob option \<Rightarrow> JobReconciliationResult" where
  "reconcile_entry entry onChain =
     (let notFound = \<lparr> jr_jobId = le_jobId entry, jr_outcome = NotFound,
            jr_expectedFee = dec_of_int (le_expectedFee entry), jr_onChainFee = None, jr_onChainStatus = None,
            jr_submittedTx = le_submittedTx entry,
            jr_detail = ''Job not found on-chain. Possible chain reorganisation or wrong contract address.'' \<rparr>
      in case onChain of None \<Rightarrow> notFound
         | Some job \<Rightarrow>
           if \<not> job_exists job then notFound
           else let feeMatches = (job_fee job = le_expectedFee entry);
                    statusOk = (job_status job = JSubmitted);
                    reasons = (if feeMatches then [] else [''fee mismatch: expected '' @ dec_of_int (le_expectedFee entry)
                                 @ '', on-chain '' @ dec_of_int (job_fee job)])
                      @ (if statusOk then [] else [''unexpected status: '' @ status_string (job_status job) @ '' (expected submitted)''])
                in \<lparr> jr_jobId = le_jobId entry,
                     jr_outcome = (if feeMatches \<and> statusOk then Clean else Discrepancy),
                     jr_expectedFee = dec_of_int (le_expectedFee entry),
                     jr_onChainFee = Some (dec_of_int (job_fee job)),
                     jr_onChainStatus = Some (status_string (job_status job)),
                     jr_submittedTx = le_submittedTx entry,
                     jr_detail = (if feeMatches \<and> statusOk then ''OK'' else join_reasons reasons) \<rparr>)"

definition check_entry :: "'w RelayerChainAdapter \<Rightarrow> JobLedgerEntry \<Rightarrow> ('w, JobReconciliationResult) prog" where
  "check_entry chain entry =
     try_catch (bnd (getJob chain (le_jobId entry)) (\<lambda>onChain. ret (reconcile_entry entry onChain)))
       (\<lambda>rpcError. ret (rpc_error_result entry rpcError))"

definition count_outcome :: "recon_outcome \<Rightarrow> JobReconciliationResult list \<Rightarrow> nat" where
  "count_outcome out results = length (filter (\<lambda>r. jr_outcome r = out) results)"

definition make_report :: "int \<Rightarrow> JobLedgerEntry list \<Rightarrow> JobReconciliationResult list \<Rightarrow> ReconciliationReport" where
  "make_report runAt entries results =
     (let discrepancies = filter (\<lambda>r. jr_outcome r \<noteq> Clean) results
      in \<lparr> rr_runAt = runAt,
           rr_coveredRange = (if entries = [] then None
             else Some (Min (set (map le_submittedAt entries)), Max (set (map le_submittedAt entries)))),
           rr_totalChecked = length entries,
           rr_cleanCount = count_outcome Clean results,
           rr_discrepancyCount = count_outcome Discrepancy results,
           rr_notFoundCount = count_outcome NotFound results,
           rr_clean = (length discrepancies = 0),
           rr_discrepancies = discrepancies \<rparr>)"

record PayoutReconciler =
  pr_lastReport :: "ReconciliationReport option"
  pr_runCount :: nat
  pr_timer :: bool

definition new_reconciler :: PayoutReconciler where
  "new_reconciler = \<lparr> pr_lastReport = None, pr_runCount = 0, pr_timer = False \<rparr>"

type_synonym ('w, 'a) recon_prog = "(PayoutReconciler \<times> JobLedger \<times> 'w, 'a) prog"

definition reconcile ::
    "'w RelayerChainAdapter \<Rightarrow> 'w js_runtime \<Rightarrow> (ReconciliationReport \<Rightarrow> ('w, unit) prog) option
     \<Rightarrow> ('w, ReconciliationReport) recon_prog" where
  "reconcile chain R onReport =
     bnd (on_snd (on_snd (date_now R))) (\<lambda>runAt.
     bnd (gets (\<lambda>(p, l, w). l_all l)) (\<lambda>entries.
     bnd (on_snd (on_snd (prog_map (check_entry chain) entries))) (\<lambda>results.
     let report = make_report runAt entries results in
     bnd (upd (\<lambda>(p, s). (p\<lparr> pr_lastReport := Some report, pr_runCount := pr_runCount p + 1 \<rparr>, s))) (\<lambda>_.
     bnd (case onReport of None \<Rightarrow> ret () | Some hook \<Rightarrow> on_snd (on_snd (hook report))) (\<lambda>_.
     ret report)))))"

definition reconciler_start :: "int \<Rightarrow> PayoutReconciler \<Rightarrow> PayoutReconciler" where
  "reconciler_start intervalMs p =
     (if pr_timer p \<or> intervalMs \<le> 0 then p else p\<lparr> pr_timer := True \<rparr>)"

definition reconciler_stop :: "PayoutReconciler \<Rightarrow> PayoutReconciler" where
  "reconciler_stop p = (if pr_timer p then p\<lparr> pr_timer := False \<rparr> else p)"

definition remove_stale :: "'w ledger_store option \<Rightarrow> JobReconciliationResult \<Rightarrow> ('w, unit) recon_prog" where
  "remove_stale store d =
     (if jr_outcome d = NotFound \<and> jr_onChainStatus d = None then on_snd (l_remove store (jr_jobId d)) else ret ())"

definition verifyOnBoot ::
    "'w RelayerChainAdapter \<Rightarrow> 'w js_runtime \<Rightarrow> 'w ledger_store option
     \<Rightarrow> (ReconciliationReport \<Rightarrow> ('w, unit) prog) option \<Rightarrow> ('w, ReconciliationReport) recon_prog" where
  "verifyOnBoot chain R store onReport =
     bnd (on_snd (l_hydrate store)) (\<lambda>_.
     bnd (reconcile chain R onReport) (\<lambda>report.
     bnd (prog_iter (remove_stale store) (rr_discrepancies report)) (\<lambda>_.
     ret report)))"


section \<open>Soundness of a report\<close>

text \<open>A result is the comparison with an answer of the chain, or the note that the lookup failed.\<close>

definition result_of :: "JobLedgerEntry \<Rightarrow> JobReconciliationResult \<Rightarrow> bool" where
  "result_of e r \<longleftrightarrow> (\<exists>ans. r = reconcile_entry e ans) \<or> (\<exists>err. r = rpc_error_result e err)"

lemma reconcile_entry_clean:
  "jr_outcome (reconcile_entry e ans) = Clean \<longleftrightarrow>
     (\<exists>job. ans = Some job \<and> job_exists job \<and> job_fee job = le_expectedFee e \<and> job_status job = JSubmitted)"
  by (auto simp: reconcile_entry_def Let_def split: option.splits)

lemma reconcile_entry_not_found:
  "jr_outcome (reconcile_entry e ans) = NotFound \<longleftrightarrow> (ans = None \<or> (\<exists>job. ans = Some job \<and> \<not> job_exists job))"
  by (auto simp: reconcile_entry_def Let_def split: option.splits)

lemma reconcile_entry_jobId [simp]: "jr_jobId (reconcile_entry e ans) = le_jobId e"
  by (auto simp: reconcile_entry_def Let_def split: option.splits)

lemma reconcile_entry_status: "jr_outcome (reconcile_entry e ans) = NotFound \<Longrightarrow> jr_onChainStatus (reconcile_entry e ans) = None"
  by (auto simp: reconcile_entry_def Let_def split: option.splits if_splits)

lemma rpc_error_result_simps [simp]:
  "jr_jobId (rpc_error_result e err) = le_jobId e" "jr_outcome (rpc_error_result e err) = Discrepancy"
  by (simp_all add: rpc_error_result_def)

lemma check_entry_wp: "wp (check_entry chain e) (\<lambda>r _. result_of e r) E w"
  by (auto simp: check_entry_def result_of_def intro!: wpI)

lemma wp_check_entries:
  "wp (prog_map (check_entry chain) es) (\<lambda>rs _. list_all2 result_of es rs) (\<lambda>_ _. False) w"
proof (induction es arbitrary: w)
  case (Cons e es)
  show ?case
    by (simp, rule wp_mono [OF check_entry_wp [where E = "\<lambda>_ _. False"]], rule wp_mono [OF Cons.IH]) auto
qed simp

lemma wp_reconcile:
  "wp (reconcile chain R onReport)
     (\<lambda>rep s'. fst (snd s') = fst (snd s) \<and> pr_lastReport (fst s') = Some rep \<and> pr_runCount (fst s') = pr_runCount (fst s) + 1
        \<and> (\<exists>t rs. list_all2 result_of (l_all (fst (snd s))) rs \<and> rep = make_report t (l_all (fst (snd s))) rs))
     (\<lambda>_ s'. fst (snd s') = fst (snd s)) s"
  unfolding reconcile_def Let_def
  by (cases s) (auto split: option.split intro!: wp_mono [OF wp_check_entries] wp_const [THEN wp_mono], blast+)

lemma count_partition:
  "count_outcome Clean rs + count_outcome Discrepancy rs + count_outcome NotFound rs = length rs"
  unfolding count_outcome_def
proof (induction rs)
  case (Cons r rs)
  then show ?case by (cases "jr_outcome r") auto
qed simp

lemma count_not_clean:
  "length (filter (\<lambda>r. jr_outcome r \<noteq> Clean) rs) = count_outcome Discrepancy rs + count_outcome NotFound rs"
  unfolding count_outcome_def
proof (induction rs)
  case (Cons r rs)
  then show ?case by (cases "jr_outcome r") auto
qed simp


section \<open>Removing stale entries\<close>

lemma wp_l_persist: "P (fst s) \<Longrightarrow> wp (l_persist store) (\<lambda>_ s. P (fst s)) E s"
  by (auto simp: l_persist_def split: option.split intro!: wp_const [THEN wp_mono])

lemma wp_l_remove:
  "wp (l_remove store j) (\<lambda>_ s'. map_of (l_entries (fst s')) = (map_of (l_entries (fst s)))(to_lower j := None)) E s"
  unfolding l_remove_def on_ledger_def
  by (simp, rule wp_l_persist) (simp add: fun_eq_iff)

abbreviation stale :: "JobReconciliationResult \<Rightarrow> bool" where
  "stale d \<equiv> jr_outcome d = NotFound \<and> jr_onChainStatus d = None"

lemma wp_remove_all:
  "wp (prog_iter (remove_stale store) ds)
     (\<lambda>_ s'. \<forall>k. map_of (l_entries (fst (snd s'))) k =
        (if \<exists>d \<in> set ds. stale d \<and> to_lower (jr_jobId d) = k then None else map_of (l_entries (fst (snd s))) k)) E s"
proof (induction ds arbitrary: s)
  case (Cons d ds)
  have "wp (remove_stale store d) (\<lambda>_ s'. map_of (l_entries (fst (snd s'))) =
      (if stale d then (map_of (l_entries (fst (snd s))))(to_lower (jr_jobId d) := None) else map_of (l_entries (fst (snd s))))) E s"
    by (auto simp: remove_stale_def intro: wp_mono [OF wp_l_remove])
  then show ?case
    by (simp, elim wp_mono, intro wp_mono [OF Cons.IH]) (auto split: if_splits)
qed simp


section \<open>Properties\<close>

text \<open>
  A reconciliation report accounts for every ledger entry exactly once: the three counts add
  up to the number of entries checked, the report is clean exactly when every entry is clean,
  the listed discrepancies are the non-clean results, the ledger is not changed, and the report
  is kept as the last one.
\<close>

lemma reconcile_report_accounts_for_ledger:
  assumes "reconcile chain R onReport (p, l, w) = (Inr rep, (p', l', w'))"
  shows "rr_totalChecked rep = length (l_entries l)
    \<and> rr_cleanCount rep + rr_discrepancyCount rep + rr_notFoundCount rep = rr_totalChecked rep
    \<and> (rr_clean rep \<longleftrightarrow> rr_cleanCount rep = rr_totalChecked rep)
    \<and> length (rr_discrepancies rep) = rr_discrepancyCount rep + rr_notFoundCount rep
    \<and> l' = l \<and> pr_lastReport p' = Some rep \<and> pr_runCount p' = pr_runCount p + 1"
proof -
  from wp_InrD [OF wp_reconcile assms] obtain t rs where st: "l' = l" "pr_lastReport p' = Some rep" "pr_runCount p' = pr_runCount p + 1"
    and rs: "list_all2 result_of (l_all l) rs" and rep: "rep = make_report t (l_all l) rs" by auto
  have "length rs = length (l_entries l)" using rs by (auto simp: l_all_def dest: list_all2_lengthD)
  with count_partition [of rs] count_not_clean [of rs] st show ?thesis
    by (simp add: rep make_report_def Let_def l_all_def del: length_0_conv) linarith
qed

definition example_ledger :: JobLedger where
  "example_ledger = ledger_put \<lparr> le_jobId = ''0xA'', le_acceptedTx = ''t1'', le_submittedTx = ''t2'', le_expectedFee = 5, le_submittedAt = 9 \<rparr> new_ledger"

definition example_chain :: "unit RelayerChainAdapter" where
  "example_chain = \<lparr> getJob = (\<lambda>j. ret None), getRelayer = (\<lambda>op. ret None), latestLedger = ret 100,
     simulatePoolWithdraw = (\<lambda>p. ret ()), acceptJob = (\<lambda>j. ret ''acc''), submitPoolWithdraw = (\<lambda>j p. ret ''sub'') \<rparr>"

definition example_runtime :: "unit js_runtime" where
  "example_runtime = \<lparr> rt_now = (\<lambda>w. (7, w)), rt_random = (\<lambda>w. (0, w)), rt_sleep = (\<lambda>ms w. w) \<rparr>"

lemma reconcile_report_accounts_for_ledger_witness:
  "rr_totalChecked (projr (fst (reconcile example_chain example_runtime None (new_reconciler, example_ledger, ())))) = 1"
proof -
  let ?run = "reconcile example_chain example_runtime None (new_reconciler, example_ledger, ())"
  have "fst ?run = Inr (projr (fst ?run))" by code_simp
  then have "?run = (Inr (projr (fst ?run)), (fst (snd ?run), fst (snd (snd ?run)), snd (snd (snd ?run))))" by (metis prod.collapse)
  from reconcile_report_accounts_for_ledger [OF this] show ?thesis
    by (simp add: example_ledger_def new_ledger_def ledger_put_def)
qed

text \<open>
  On boot the reconciler removes from the hydrated ledger exactly the entries the chain
  confirmed as not found: an entry is gone when a result for its key is \<open>not_found\<close>, every
  other entry stays as it was, and a \<open>not_found\<close> result always rests on a successful lookup
  that returned no job, so an RPC error never removes an entry.
\<close>

lemma verifyOnBoot_removes_exactly_not_found:
  assumes "verifyOnBoot chain R store onReport (p, l, w) = (Inr rep, (p', l', w'))"
    and "l_hydrate store (l, w) = (Inr (), (l1, w1))"
  shows "(\<forall>k. map_of (l_entries l') k =
      (if \<exists>d \<in> set (rr_discrepancies rep). jr_outcome d = NotFound \<and> to_lower (jr_jobId d) = k then None
       else map_of (l_entries l1) k))
    \<and> (\<forall>d \<in> set (rr_discrepancies rep). jr_outcome d = NotFound \<longrightarrow>
        (\<exists>e \<in> set (l_all l1). \<exists>ans. d = reconcile_entry e ans \<and> (ans = None \<or> (\<exists>job. ans = Some job \<and> \<not> job_exists job))))"
proof -
  from assms obtain p2 l2 w2 where rec: "reconcile chain R onReport (p, l1, w1) = (Inr rep, (p2, l2, w2))"
    and iter: "prog_iter (remove_stale store) (rr_discrepancies rep) (p2, l2, w2) = (Inr (), (p', l', w'))"
    by (auto simp: verifyOnBoot_def run_simps split: prod.splits sum.splits)
  from wp_InrD [OF wp_reconcile rec] obtain t rs where l2: "l2 = l1"
    and rs: "list_all2 result_of (l_all l1) rs" and rep: "rep = make_report t (l_all l1) rs" by auto
  have found: "\<exists>e \<in> set (l_all l1). \<exists>ans. d = reconcile_entry e ans \<and> (ans = None \<or> (\<exists>job. ans = Some job \<and> \<not> job_exists job))"
    if "d \<in> set (rr_discrepancies rep)" "jr_outcome d = NotFound" for d
  proof -
    from that rep have "d \<in> set rs" by (auto simp: make_report_def Let_def)
    with rs obtain e where "e \<in> set (l_all l1)" "result_of e d"
      by (metis in_set_conv_nth list_all2_conv_all_nth)
    with that show ?thesis
      by (fastforce simp: result_of_def reconcile_entry_not_found)
  qed
  then have "stale d = (jr_outcome d = NotFound)" if "d \<in> set (rr_discrepancies rep)" for d
    using that by (metis reconcile_entry_status)
  with wp_InrD [OF wp_remove_all iter] l2 found show ?thesis by auto
qed

lemma verifyOnBoot_removes_exactly_not_found_witness:
  "map_of (l_entries (fst (snd (snd (verifyOnBoot example_chain example_runtime None None (new_reconciler, example_ledger, ())))))) ''0xa'' = None"
proof -
  let ?run = "verifyOnBoot example_chain example_runtime None None (new_reconciler, example_ledger, ())"
  have "fst ?run = Inr (projr (fst ?run))" by code_simp
  then have run: "?run = (Inr (projr (fst ?run)), (fst (snd ?run), fst (snd (snd ?run)), snd (snd (snd ?run))))" by (metis prod.collapse)
  have hyd: "l_hydrate None (example_ledger, ()) = (Inr (), (example_ledger, ()))" by (simp add: l_hydrate_def run_simps)
  have d: "rr_discrepancies (projr (fst ?run)) = [reconcile_entry (snd (hd (l_entries example_ledger))) None]" by code_simp
  have k: "to_lower (le_jobId (snd (hd (l_entries example_ledger)))) = ''0xa''" by code_simp
  from verifyOnBoot_removes_exactly_not_found [OF run hyd] d k show ?thesis
    by (simp add: reconcile_entry_not_found)
qed

end
