(* ===== verification/Relayer_Box.thy ===== *)
theory Relayer_Box
  imports Relayer_Payload
begin

text \<open>
  Sealed boxes for relayer payloads, \<^verbatim>\<open>sdk/src/relayer-protocol/box.ts\<close>. The NaCl primitives
  (\<^verbatim>\<open>tweetnacl\<close>) are parameters, the fields of \<open>nacl_lib\<close>; the ephemeral key pair and the
  nonce a seal draws are arguments.
\<close>

record nacl_lib =
  nacl_public :: "byte list \<Rightarrow> byte list"
  nacl_box :: "byte list \<Rightarrow> byte list \<Rightarrow> byte list \<Rightarrow> byte list \<Rightarrow> byte list"
  nacl_open :: "byte list \<Rightarrow> byte list \<Rightarrow> byte list \<Rightarrow> byte list \<Rightarrow> byte list option"
  nacl_overhead :: nat

definition PUBLIC_KEY_BYTES :: nat where "PUBLIC_KEY_BYTES = 32"
definition SECRET_KEY_BYTES :: nat where "SECRET_KEY_BYTES = 32"
definition NONCE_BYTES :: nat where "NONCE_BYTES = 24"

record X25519Keypair =
  x_publicKey :: "byte list"
  x_secretKey :: "byte list"

text \<open>With a seed the pair is derived from it; otherwise from the fresh secret the argument gives.\<close>

definition generateX25519Keypair :: "nacl_lib \<Rightarrow> byte list \<Rightarrow> byte list option \<Rightarrow> X25519Keypair res" where
  "generateX25519Keypair N fresh seed =
     (case seed of
        Some sd \<Rightarrow> res_bind (assertLength sd SECRET_KEY_BYTES ''x25519 seed'') (\<lambda>secretKey.
          Inr \<lparr> x_publicKey = nacl_public N secretKey, x_secretKey = secretKey \<rparr>)
      | None \<Rightarrow> Inr \<lparr> x_publicKey = nacl_public N fresh, x_secretKey = fresh \<rparr>)"

definition sealBox :: "nacl_lib \<Rightarrow> byte list \<Rightarrow> byte list \<Rightarrow> byte list \<Rightarrow> byte list \<Rightarrow> string res" where
  "sealBox N ephSecret nonce plaintext recipientPublicKey =
     res_bind (assertLength recipientPublicKey PUBLIC_KEY_BYTES ''recipient x25519 public key'') (\<lambda>to.
       Inr (bytesToBase64 (concatBytes [nacl_public N ephSecret, nonce, nacl_box N plaintext nonce to ephSecret])))"

definition openBox :: "nacl_lib \<Rightarrow> string \<Rightarrow> byte list \<Rightarrow> byte list res" where
  "openBox N box recipientSecretKey =
     res_bind (assertLength recipientSecretKey SECRET_KEY_BYTES ''recipient x25519 secret key'') (\<lambda>secret.
     res_bind (base64ToBytes box) (\<lambda>raw.
       if length raw < PUBLIC_KEY_BYTES + NONCE_BYTES + nacl_overhead N
       then Inl (Error ''Encrypted payload is too short.'')
       else let epk = take PUBLIC_KEY_BYTES raw;
                nonce = take NONCE_BYTES (drop PUBLIC_KEY_BYTES raw);
                ciphertext = drop (PUBLIC_KEY_BYTES + NONCE_BYTES) raw
            in case nacl_open N ciphertext nonce epk secret of
                 None \<Rightarrow> Inl (Error ''Could not decrypt relayer payload.'')
               | Some opened \<Rightarrow> Inr opened))"

text \<open>What NaCl documents of its boxes: sizes, and that the recipient opens what was boxed for it.\<close>

definition nacl_ok :: "nacl_lib \<Rightarrow> bool" where
  "nacl_ok N \<longleftrightarrow>
     (\<forall>sk. length sk = 32 \<longrightarrow> length (nacl_public N sk) = 32) \<and>
     (\<forall>m n pk sk. length (nacl_box N m n pk sk) = length m + nacl_overhead N) \<and>
     (\<forall>m n sk esk. length n = 24 \<longrightarrow> length sk = 32 \<longrightarrow> length esk = 32 \<longrightarrow>
        nacl_open N (nacl_box N m n (nacl_public N sk) esk) n (nacl_public N esk) sk = Some m)"

lemma openBox_sealBox:
  assumes "nacl_ok N" "length sk = 32" "length esk = 32" "length nonce = 24"
  shows "res_bind (sealBox N esk nonce m (nacl_public N sk)) (\<lambda>box. openBox N box sk) = Inr m"
  using assms
  by (simp add: nacl_ok_def sealBox_def openBox_def PUBLIC_KEY_BYTES_def SECRET_KEY_BYTES_def NONCE_BYTES_def Let_def)

text \<open>A toy instance for examples: the box is the message behind a fixed tag.\<close>

definition example_nacl :: nacl_lib where
  "example_nacl = \<lparr> nacl_public = (\<lambda>sk. sk), nacl_box = (\<lambda>m n pk sk. replicate 16 0 @ m),
     nacl_open = (\<lambda>c n pk sk. Some (drop 16 c)), nacl_overhead = 16 \<rparr>"

lemma example_nacl_ok: "nacl_ok example_nacl"
  by (simp add: nacl_ok_def example_nacl_def)

text \<open>
  A well-formed withdrawal payload that a client encodes and seals for a relayer's
  encryption key is opened and decoded by that relayer to the same payload, given what NaCl
  documents of its boxes.
\<close>

lemma sealed_payload_reaches_relayer:
  assumes "nacl_ok N" "length sk = 32" "length esk = 32" "length nonce = 24"
    and "payload_wf p" "json_printable (poolId p)" "json_printable (recipient p)" "json_printable (poolRelayer p)"
  shows "res_bind (res_bind (sealBox N esk nonce (encodePoolWithdrawPayload p) (nacl_public N sk))
           (\<lambda>box. openBox N box sk)) decodePoolWithdrawPayload = Inr p"
  by (simp add: openBox_sealBox [OF assms(1-4)] decode_encode [OF assms(5-8)])

lemma sealed_payload_reaches_relayer_witness:
  "res_bind (res_bind (sealBox example_nacl (replicate 32 1) (replicate 24 2) (encodePoolWithdrawPayload (example_payload 10))
     (nacl_public example_nacl (replicate 32 3))) (\<lambda>box. openBox example_nacl box (replicate 32 3))) decodePoolWithdrawPayload
   = Inr (example_payload 10)"
  by (rule sealed_payload_reaches_relayer [OF example_nacl_ok])
     (simp_all add: example_payload_def payload_wf_def)

end
