(* ===== verification/Relayer_Engine.thy ===== *)
theory Relayer_Engine
  imports Relayer_Queue Relayer_Reconciler Relayer_Box
begin

text \<open>
  The relayer node's engine, \<^verbatim>\<open>relayer/src/engine.ts\<close>: bidding on adverts, the accept-then-submit
  delivery of a payload, the retrying submission, the recovery of accepted jobs on boot and
  the pruning of its caches. A handler runs as one program over the engine's state and the
  world; the points where it awaits are the calls on the world. Time is in milliseconds.
\<close>

section \<open>Configuration and state\<close>

record RelayerEngineStats =
  es_jobsSeen :: nat
  es_bidsSent :: nat
  es_payloadsSeen :: nat
  es_accepted :: nat
  es_submitted :: nat
  es_rejected :: nat
  es_deadlineDeclined :: nat
  es_lastError :: "string option"

record IdempotencyEntry =
  ie_result :: "string \<times> string"
  ie_expiresAt :: int

record SubmitRetryPolicy =
  maxAttempts :: nat
  baseDelayMs :: rat

definition IDEMPOTENCY_TTL_MS :: int where "IDEMPOTENCY_TTL_MS = 24 * 60 * 60 * 1000"
definition LEDGER_INTERVAL_MS :: rat where "LEDGER_INTERVAL_MS = 5000"
definition BID_EXPIRY_GRACE_MS :: rat where "BID_EXPIRY_GRACE_MS = 60 * 60 * 1000"
definition DEFAULT_DEADLINE_MARGIN_LEDGERS :: rat where "DEFAULT_DEADLINE_MARGIN_LEDGERS = 30"
definition DEFAULT_SUBMIT_RETRY :: SubmitRetryPolicy where
  "DEFAULT_SUBMIT_RETRY = \<lparr> maxAttempts = 3, baseDelayMs = 1000 \<rparr>"

text \<open>
  The options as given, an outer \<open>None\<close> for an absent one and an inner \<open>None\<close> for a
  number that is not finite, and the settings the constructor derives from them.
\<close>

definition margin_setting :: "rat option option \<Rightarrow> rat" where
  "margin_setting margin =
     (case margin of Some (Some m) \<Rightarrow> if 0 \<le> m then m else DEFAULT_DEADLINE_MARGIN_LEDGERS
      | _ \<Rightarrow> DEFAULT_DEADLINE_MARGIN_LEDGERS)"

definition retry_setting :: "(rat option \<times> rat option) option \<Rightarrow> SubmitRetryPolicy" where
  "retry_setting retry =
     (case retry of None \<Rightarrow> DEFAULT_SUBMIT_RETRY
      | Some (attempts, delay) \<Rightarrow>
        \<lparr> maxAttempts = (case attempts of Some a \<Rightarrow> if is_integer a \<and> a > 0 then nat \<lfloor>a\<rfloor> else maxAttempts DEFAULT_SUBMIT_RETRY
                          | None \<Rightarrow> maxAttempts DEFAULT_SUBMIT_RETRY),
          baseDelayMs = (case delay of Some d \<Rightarrow> if d \<ge> 0 then d else baseDelayMs DEFAULT_SUBMIT_RETRY
                          | None \<Rightarrow> baseDelayMs DEFAULT_SUBMIT_RETRY) \<rparr>)"

definition bid_expiry_setting :: "rat option \<Rightarrow> rat" where
  "bid_expiry_setting maxJobLifetimeLedgers =
     (let maxLifetime = (case maxJobLifetimeLedgers of Some l \<Rightarrow> l | None \<Rightarrow> 17280)
      in max LEDGER_INTERVAL_MS (maxLifetime * LEDGER_INTERVAL_MS + BID_EXPIRY_GRACE_MS))"

record 'w RelayerEngineConfig =
  cfg_operator :: Keypair
  cfg_x25519PublicKey :: "byte list"
  cfg_x25519SecretKey :: "byte list"
  cfg_endpoint :: "string option"
  cfg_minFee :: int
  cfg_chain :: "'w RelayerChainAdapter"
  cfg_margin :: rat
  cfg_retry :: SubmitRetryPolicy
  cfg_bidExpiryMs :: rat
  cfg_onSettled :: "(string \<Rightarrow> outcome_result \<Rightarrow> ('w, unit) prog) option"
  cfg_jobStore :: "'w job_store option"
  cfg_ledgerStore :: "'w ledger_store option"
  cfg_runtime :: "'w js_runtime"
  cfg_lib :: stellar_lib
  cfg_nacl :: nacl_lib

record RelayerEngine =
  e_stats :: RelayerEngineStats
  e_bids :: "(string \<times> (RelayerBid \<times> int) list) list"
  e_idempotencyStore :: "(jv \<times> IdempotencyEntry) list"
  e_pendingIdempotency :: "jv list"
  e_pendingJobs :: "(string \<times> int) list"
  e_queue :: "AcceptedJobQueue option"
  e_ledger :: "JobLedger option"
  e_pruneTimer :: bool
  e_resumeTimer :: bool
  e_resumeInFlight :: bool
  e_startedAt :: int

definition new_stats :: RelayerEngineStats where
  "new_stats = \<lparr> es_jobsSeen = 0, es_bidsSent = 0, es_payloadsSeen = 0, es_accepted = 0, es_submitted = 0,
     es_rejected = 0, es_deadlineDeclined = 0, es_lastError = None \<rparr>"

definition new_engine :: "AcceptedJobQueue option \<Rightarrow> JobLedger option \<Rightarrow> int \<Rightarrow> RelayerEngine" where
  "new_engine queue ledger startedAt = \<lparr> e_stats = new_stats, e_bids = [], e_idempotencyStore = [],
     e_pendingIdempotency = [], e_pendingJobs = [], e_queue = queue, e_ledger = ledger, e_pruneTimer = False,
     e_resumeTimer = False, e_resumeInFlight = False, e_startedAt = startedAt \<rparr>"

type_synonym ('w, 'a) engine_prog = "(RelayerEngine \<times> 'w, 'a) prog"


section \<open>Access to the parts\<close>

definition eng :: "(RelayerEngine \<Rightarrow> RelayerEngine) \<Rightarrow> ('w, unit) engine_prog" where
  "eng f = upd (\<lambda>s. (f (fst s), snd s))"

definition bump :: "(RelayerEngineStats \<Rightarrow> RelayerEngineStats) \<Rightarrow> ('w, unit) engine_prog" where
  "bump f = eng (\<lambda>e. e\<lparr> e_stats := f (e_stats e) \<rparr>)"

text \<open>\<open>this.cfg.acceptedJobs?.method(...)\<close> and \<open>this.cfg.jobLedger?.record(...)\<close>\<close>

definition with_queue :: "('w, unit) queue_prog \<Rightarrow> ('w, unit) engine_prog" where
  "with_queue m s =
     (case e_queue (fst s) of None \<Rightarrow> (Inr (), s)
      | Some q \<Rightarrow> (case m (q, snd s) of (r, q', w') \<Rightarrow> (r, (fst s)\<lparr> e_queue := Some q' \<rparr>, w')))"

definition with_ledger :: "('w, unit) ledger_prog \<Rightarrow> ('w, unit) engine_prog" where
  "with_ledger m s =
     (case e_ledger (fst s) of None \<Rightarrow> (Inr (), s)
      | Some l \<Rightarrow> (case m (l, snd s) of (r, l', w') \<Rightarrow> (r, (fst s)\<lparr> e_ledger := Some l' \<rparr>, w')))"

definition engine_now :: "'w RelayerEngineConfig \<Rightarrow> ('w, int) engine_prog" where
  "engine_now cfg = on_snd (date_now (cfg_runtime cfg))"

text \<open>\<open>chain.getJob(jobId).catch(() => null)\<close>\<close>

definition getJob_or_null :: "'w RelayerEngineConfig \<Rightarrow> string \<Rightarrow> ('w, OnChainJob option) engine_prog" where
  "getJob_or_null cfg jobId = try_catch (on_snd (getJob (cfg_chain cfg) jobId)) (\<lambda>_. ret None)"

definition has_status :: "job_status \<Rightarrow> OnChainJob option \<Rightarrow> bool" where
  "has_status st job = (case job of None \<Rightarrow> False | Some j \<Rightarrow> job_status j = st)"

definition normalizeHex :: "string \<Rightarrow> string" where
  "normalizeHex value = strip_0x (to_lower value)"


section \<open>Bidding\<close>

definition bidsFor :: "string \<Rightarrow> RelayerEngine \<Rightarrow> (RelayerBid \<times> int) list" where
  "bidsFor jobId e = (case map_of (e_bids e) (to_lower jobId) of None \<Rightarrow> [] | Some l \<Rightarrow> l)"

definition rememberBid :: "'w RelayerEngineConfig \<Rightarrow> RelayerBid \<Rightarrow> ('w, unit) engine_prog" where
  "rememberBid cfg bid =
     (let key = to_lower (bid_jobId bid) in
      bnd (gets (\<lambda>s. bidsFor key (fst s))) (\<lambda>l.
        if \<exists>b \<in> set l. bid_operator (fst b) = bid_operator bid then ret ()
        else bnd (engine_now cfg) (\<lambda>now.
             eng (\<lambda>e. e\<lparr> e_bids := AList.update key (l @ [(bid, now)]) (e_bids e) \<rparr>))))"

definition advert_matches :: "OnChainJob \<Rightarrow> JobAdvert \<Rightarrow> bool" where
  "advert_matches job advert \<longleftrightarrow> dec_of_int (job_fee job) = adv_fee advert \<and> job_deadline job = adv_deadline advert
     \<and> to_lower (job_payloadHash job) = to_lower (adv_payloadHash advert)"

definition decide_bid :: "'w RelayerEngineConfig \<Rightarrow> JobAdvert \<Rightarrow> ('w, RelayerBid option) engine_prog" where
  "decide_bid cfg advert =
     bnd (on_snd (getRelayer (cfg_chain cfg) (kp_publicKey (cfg_operator cfg)))) (\<lambda>relayer.
       case relayer of None \<Rightarrow> ret None
       | Some rel \<Rightarrow>
         if \<not> rel_registered rel then ret None
         else if normalizeHex (rel_x25519Pk rel) \<noteq> normalizeHex (bytesToHex (cfg_x25519PublicKey cfg)) then ret None
         else bnd (on_snd (getJob (cfg_chain cfg) (adv_jobId advert))) (\<lambda>job.
           case job of None \<Rightarrow> ret None
           | Some j \<Rightarrow>
             if \<not> job_exists j \<or> job_status j \<noteq> JOpen then ret None
             else if job_fee j < cfg_minFee cfg \<or> rel_freeStake rel < job_fee j then ret None
             else bnd (on_snd (latestLedger (cfg_chain cfg))) (\<lambda>ledger.
               if job_deadline j - ledger < cfg_margin cfg
               then bnd (bump (\<lambda>st. st\<lparr> es_deadlineDeclined := es_deadlineDeclined st + 1 \<rparr>)) (\<lambda>_. ret None)
               else if \<not> advert_matches j advert then ret None
               else bnd (of_res (makeBid (cfg_lib cfg) advert (cfg_operator cfg) (cfg_x25519PublicKey cfg)
                               (cfg_endpoint cfg) (Some (rel_freeStake rel)))) (\<lambda>bid.
                    bnd (rememberBid cfg bid) (\<lambda>_.
                    bnd (bump (\<lambda>st. st\<lparr> es_bidsSent := es_bidsSent st + 1 \<rparr>)) (\<lambda>_.
                    ret (Some bid)))))))"

definition note_rejected :: "js_error \<Rightarrow> ('w, unit) engine_prog" where
  "note_rejected err = bump (\<lambda>st. st\<lparr> es_rejected := es_rejected st + 1, es_lastError := Some (err_message err) \<rparr>)"

definition handleAdvert :: "'w RelayerEngineConfig \<Rightarrow> jv \<Rightarrow> ('w, RelayerBid option) engine_prog" where
  "handleAdvert cfg raw =
     bnd (of_res (validateAdvert raw)) (\<lambda>advert.
     bnd (bump (\<lambda>st. st\<lparr> es_jobsSeen := es_jobsSeen st + 1 \<rparr>)) (\<lambda>_.
     try_catch (decide_bid cfg advert) (\<lambda>err. bnd (note_rejected err) (\<lambda>_. ret None))))"


section \<open>Submitting\<close>

definition hasDeadlineHeadroom :: "'w RelayerEngineConfig \<Rightarrow> rat \<Rightarrow> ('w, bool) engine_prog" where
  "hasDeadlineHeadroom cfg deadline =
     try_catch (bnd (on_snd (latestLedger (cfg_chain cfg))) (\<lambda>ledger. ret (deadline - ledger \<ge> cfg_margin cfg)))
       (\<lambda>_. ret True)"

text \<open>One attempt: a job already submitted on-chain is not submitted again.\<close>

definition submit_attempt :: "'w RelayerEngineConfig \<Rightarrow> string \<Rightarrow> PoolWithdrawPayload \<Rightarrow> ('w, string) engine_prog" where
  "submit_attempt cfg jobId payload =
     bnd (on_snd (getJob (cfg_chain cfg) jobId)) (\<lambda>current.
       if has_status JSubmitted current then ret (''on-chain:'' @ jobId)
       else on_snd (submitPoolWithdraw (cfg_chain cfg) jobId payload))"

text \<open>
  After a failed attempt: note it, stop if the job turns out submitted or no attempt is left or
  the deadline is too near, else wait with exponential backoff and jitter and go on.
\<close>

definition after_failure ::
    "'w RelayerEngineConfig \<Rightarrow> string \<Rightarrow> rat \<Rightarrow> nat \<Rightarrow> nat \<Rightarrow> js_error \<Rightarrow> ('w, string) engine_prog \<Rightarrow> ('w, string) engine_prog" where
  "after_failure cfg jobId deadline left attempt err again =
     bnd (with_queue (q_recordFailure (cfg_jobStore cfg) jobId (err_message err))) (\<lambda>_.
     bnd (getJob_or_null cfg jobId) (\<lambda>current.
       if has_status JSubmitted current then ret (''on-chain:'' @ jobId)
       else if left = 0 then throw err
       else bnd (hasDeadlineHeadroom cfg deadline) (\<lambda>ok.
         if \<not> ok then throw err
         else bnd (on_snd (math_random (cfg_runtime cfg))) (\<lambda>r.
              bnd (on_snd (sleep_ms (cfg_runtime cfg)
                    (baseDelayMs (cfg_retry cfg) * 2 ^ (attempt - 1) + r * baseDelayMs (cfg_retry cfg)))) (\<lambda>_.
              again)))))"

text \<open>
  The loop over attempts, by the number of attempts left: the current attempt is the one after
  those made. Running out of attempts without a result throws the last error.
\<close>

fun submit_loop ::
    "'w RelayerEngineConfig \<Rightarrow> string \<Rightarrow> PoolWithdrawPayload \<Rightarrow> rat \<Rightarrow> nat \<Rightarrow> nat \<Rightarrow> js_error \<Rightarrow> ('w, string) engine_prog" where
  "submit_loop cfg jobId payload deadline 0 attempt lastError = throw lastError"
| "submit_loop cfg jobId payload deadline (Suc left) attempt lastError =
     try_catch (submit_attempt cfg jobId payload) (\<lambda>err.
       after_failure cfg jobId deadline left attempt err (submit_loop cfg jobId payload deadline left (attempt + 1) err))"

definition submitWithRetry ::
    "'w RelayerEngineConfig \<Rightarrow> string \<Rightarrow> PoolWithdrawPayload \<Rightarrow> rat \<Rightarrow> ('w, string) engine_prog" where
  "submitWithRetry cfg jobId payload deadline =
     submit_loop cfg jobId payload deadline (maxAttempts (cfg_retry cfg)) 1 (Error ''undefined'')"

definition reconcileAcceptance :: "'w RelayerEngineConfig \<Rightarrow> string \<Rightarrow> ('w, string option) engine_prog" where
  "reconcileAcceptance cfg jobId =
     bnd (getJob_or_null cfg jobId) (\<lambda>current.
       case current of None \<Rightarrow> ret None
       | Some job \<Rightarrow>
         if job_status job \<noteq> JAccepted then ret None
         else (case job_acceptedRelayer job of
                 Some (c # cs) \<Rightarrow> if c # cs \<noteq> kp_publicKey (cfg_operator cfg) then ret None
                                  else ret (Some (''on-chain-accept:'' @ jobId))
               | _ \<Rightarrow> ret (Some (''on-chain-accept:'' @ jobId))))"

definition notifySettled :: "'w RelayerEngineConfig \<Rightarrow> string \<Rightarrow> outcome_result \<Rightarrow> ('w, unit) engine_prog" where
  "notifySettled cfg jobId result =
     (case cfg_onSettled cfg of None \<Rightarrow> ret ()
      | Some hook \<Rightarrow> try_catch (on_snd (hook jobId result))
          (\<lambda>err. bump (\<lambda>st. st\<lparr> es_lastError := Some (err_message err) \<rparr>)))"


section \<open>Delivering a payload\<close>

text \<open>The entry persisted before \<open>accept_job\<close> is sent.\<close>

definition intent :: "string \<Rightarrow> PoolWithdrawPayload \<Rightarrow> OnChainJob \<Rightarrow> int \<Rightarrow> AcceptedJobEntry" where
  "intent jobId payload job now =
     \<lparr> aj_jobId = jobId, aj_acceptedTx = None, aj_phase = None,
       aj_payload = serializePoolWithdrawPayload payload, aj_deadline = job_deadline job,
       aj_fee = dec_of_int (job_fee job), aj_acceptedAt = now, aj_attempts = 0, aj_lastError = None \<rparr>"

text \<open>
  Sending \<open>accept_job\<close>; when that throws, the chain is read again, since the acceptance may
  have landed all the same.
\<close>

definition accept_or_reconcile :: "'w RelayerEngineConfig \<Rightarrow> string \<Rightarrow> ('w, string) engine_prog" where
  "accept_or_reconcile cfg jobId =
     try_catch (on_snd (acceptJob (cfg_chain cfg) jobId)) (\<lambda>err.
       bnd (reconcileAcceptance cfg jobId) (\<lambda>reconciled.
         case reconciled of None \<Rightarrow> throw err | Some tx \<Rightarrow> ret tx))"

text \<open>Simulate, persist the intent, accept, persist the acceptance.\<close>

definition commit_acceptance ::
    "'w RelayerEngineConfig \<Rightarrow> string \<Rightarrow> PoolWithdrawPayload \<Rightarrow> OnChainJob
     \<Rightarrow> ('w, (string \<times> PoolWithdrawPayload \<times> OnChainJob) option) engine_prog" where
  "commit_acceptance cfg jobId payload job =
     bnd (on_snd (simulatePoolWithdraw (cfg_chain cfg) payload)) (\<lambda>_.
     bnd (with_queue (bnd (on_snd (date_now (cfg_runtime cfg))) (\<lambda>now.
           q_enqueue (cfg_jobStore cfg) (intent jobId payload job now)))) (\<lambda>_.
     bnd (accept_or_reconcile cfg jobId) (\<lambda>acceptedTx.
     bnd (with_queue (q_markAccepted (cfg_jobStore cfg) jobId acceptedTx)) (\<lambda>_.
     ret (Some (acceptedTx, payload, job))))))"

text \<open>
  The part of \<open>processPayload\<close> before the job counts as accepted: open and check the
  payload, then commit to it. \<open>None\<close> is a silent decline.
\<close>

definition accept_phase ::
    "'w RelayerEngineConfig \<Rightarrow> EncryptedPayload \<Rightarrow> ('w, (string \<times> PoolWithdrawPayload \<times> OnChainJob) option) engine_prog" where
  "accept_phase cfg msg =
     bnd (of_res (hexToBytes (enc_jobId msg))) (\<lambda>_.
     bnd (of_res (openBox (cfg_nacl cfg) (enc_box msg) (cfg_x25519SecretKey cfg))) (\<lambda>plaintext.
     bnd (of_res (decodePoolWithdrawPayload plaintext)) (\<lambda>payload.
     bnd (on_snd (getJob (cfg_chain cfg) (enc_jobId msg))) (\<lambda>found.
       case found of None \<Rightarrow> ret None
       | Some job \<Rightarrow>
         if \<not> job_exists job \<or> job_status job \<noteq> JOpen then ret None
         else bnd (of_res (hashPoolWithdrawPayloadHex (cfg_lib cfg) payload)) (\<lambda>hash.
           if to_lower hash \<noteq> to_lower (job_payloadHash job) then throw (Error ''Payload hash mismatch.'')
           else bnd (hasDeadlineHeadroom cfg (job_deadline job)) (\<lambda>ok.
             if \<not> ok
             then bnd (bump (\<lambda>st. st\<lparr> es_deadlineDeclined := es_deadlineDeclined st + 1 \<rparr>)) (\<lambda>_. ret None)
             else commit_acceptance cfg (enc_jobId msg) payload job))))))"

definition record_submitted ::
    "'w RelayerEngineConfig \<Rightarrow> string \<Rightarrow> string \<Rightarrow> string \<Rightarrow> int res \<Rightarrow> ('w, unit) engine_prog" where
  "record_submitted cfg jobId acceptedTx submittedTx fee =
     bnd (gets (\<lambda>s. e_ledger (fst s))) (\<lambda>ledger.
       case ledger of None \<Rightarrow> ret ()
       | Some _ \<Rightarrow>
         bnd (of_res fee) (\<lambda>expectedFee.
         bnd (engine_now cfg) (\<lambda>now.
         with_ledger (l_record (cfg_ledgerStore cfg)
           \<lparr> le_jobId = jobId, le_acceptedTx = acceptedTx, le_submittedTx = submittedTx,
             le_expectedFee = expectedFee, le_submittedAt = now \<rparr>))))"

text \<open>
  A key of the idempotency map: object and array keys are compared by identity, so an entry
  under one can never be found again and is not kept.
\<close>

definition primitive_key :: "jv \<Rightarrow> bool" where
  "primitive_key k = (case k of JArr _ \<Rightarrow> False | JObj _ \<Rightarrow> False | _ \<Rightarrow> True)"

definition remember_result :: "'w RelayerEngineConfig \<Rightarrow> jv \<Rightarrow> string \<times> string \<Rightarrow> ('w, unit) engine_prog" where
  "remember_result cfg key result =
     (if truthy key
      then bnd (engine_now cfg) (\<lambda>now.
           eng (\<lambda>e. if primitive_key key
                    then e\<lparr> e_idempotencyStore := AList.update key
                           \<lparr> ie_result = result, ie_expiresAt = now + IDEMPOTENCY_TTL_MS \<rparr> (e_idempotencyStore e) \<rparr>
                    else e))
      else ret ())"

text \<open>The part after acceptance: submit, resolve the queue entry, record, report.\<close>

definition submit_phase ::
    "'w RelayerEngineConfig \<Rightarrow> EncryptedPayload \<Rightarrow> string \<Rightarrow> PoolWithdrawPayload \<Rightarrow> OnChainJob
     \<Rightarrow> ('w, (string \<times> string) option) engine_prog" where
  "submit_phase cfg msg acceptedTx payload job =
     bnd (bump (\<lambda>st. st\<lparr> es_accepted := es_accepted st + 1 \<rparr>)) (\<lambda>_.
     bnd (submitWithRetry cfg (enc_jobId msg) payload (job_deadline job)) (\<lambda>submittedTx.
     bnd (bump (\<lambda>st. st\<lparr> es_submitted := es_submitted st + 1 \<rparr>)) (\<lambda>_.
     bnd (with_queue (q_resolve (cfg_jobStore cfg) (enc_jobId msg))) (\<lambda>_.
     bnd (record_submitted cfg (enc_jobId msg) acceptedTx submittedTx (Inr (job_fee job))) (\<lambda>_.
     bnd (notifySettled cfg (enc_jobId msg) Completed) (\<lambda>_.
     bnd (remember_result cfg (enc_idempotencyKey msg) (acceptedTx, submittedTx)) (\<lambda>_.
     ret (Some (acceptedTx, submittedTx)))))))))"

text \<open>
  An error after acceptance is owed as a failed outcome; the local flag \<open>acceptedJob\<close> of the
  source is which of the two handlers runs.
\<close>

definition settle_phase ::
    "'w RelayerEngineConfig \<Rightarrow> EncryptedPayload \<Rightarrow> (string \<times> PoolWithdrawPayload \<times> OnChainJob) option
     \<Rightarrow> ('w, (string \<times> string) option) engine_prog" where
  "settle_phase cfg msg acc =
     (case acc of None \<Rightarrow> ret None
      | Some (acceptedTx, payload, job) \<Rightarrow>
        try_catch (submit_phase cfg msg acceptedTx payload job) (\<lambda>err.
          bnd (note_rejected err) (\<lambda>_.
          bnd (notifySettled cfg (enc_jobId msg) Failed) (\<lambda>_. throw err))))"

definition processPayload ::
    "'w RelayerEngineConfig \<Rightarrow> EncryptedPayload \<Rightarrow> ('w, (string \<times> string) option) engine_prog" where
  "processPayload cfg msg =
     bnd (engine_now cfg) (\<lambda>now.
     bnd (eng (\<lambda>e. e\<lparr> e_pendingJobs := AList.update (to_lower (enc_jobId msg)) now (e_pendingJobs e) \<rparr>)) (\<lambda>_.
     try_finally
       (bnd (try_catch (accept_phase cfg msg) (\<lambda>err. bnd (note_rejected err) (\<lambda>_. throw err))) (settle_phase cfg msg))
       (eng (\<lambda>e. e\<lparr> e_pendingJobs := AList.delete (to_lower (enc_jobId msg)) (e_pendingJobs e) \<rparr>))))"

text \<open>
  What the synchronous beginning of \<open>handlePayload\<close> decides: the message is for another
  node, its key has a stored result, its key is being processed, or it is to be processed.
\<close>

datatype payload_start =
    NotMine
  | Replay "string \<times> string"
  | JoinRun jv
  | StartRun EncryptedPayload

definition begin_payload :: "'w RelayerEngineConfig \<Rightarrow> jv \<Rightarrow> ('w, payload_start) engine_prog" where
  "begin_payload cfg raw =
     bnd (of_res (validatePayload raw)) (\<lambda>msg.
     bnd (bump (\<lambda>st. st\<lparr> es_payloadsSeen := es_payloadsSeen st + 1 \<rparr>)) (\<lambda>_.
       if to_lower (enc_to msg) \<noteq> to_lower (bytesToHex (cfg_x25519PublicKey cfg)) then ret NotMine
       else let key = enc_idempotencyKey msg in
         if \<not> truthy key then ret (StartRun msg)
         else bnd (gets (\<lambda>s. if primitive_key key then map_of (e_idempotencyStore (fst s)) key else None)) (\<lambda>existing.
              bnd (case existing of None \<Rightarrow> ret None
                   | Some entry \<Rightarrow> bnd (engine_now cfg) (\<lambda>now.
                       ret (if ie_expiresAt entry > now then Some (ie_result entry) else None))) (\<lambda>live.
                case live of Some result \<Rightarrow> ret (Replay result)
                | None \<Rightarrow>
                  bnd (eng (\<lambda>e. e\<lparr> e_idempotencyStore := AList.delete key (e_idempotencyStore e) \<rparr>)) (\<lambda>_.
                  bnd (gets (\<lambda>s. key \<in> set (e_pendingIdempotency (fst s)))) (\<lambda>running.
                    if running then ret (JoinRun key) else ret (StartRun msg)))))))"

text \<open>The result of a delivery, or that it is the result of the run already in flight for the key.\<close>

datatype payload_result = Settled "(string \<times> string) option" | SameAs jv

definition handlePayload :: "'w RelayerEngineConfig \<Rightarrow> jv \<Rightarrow> ('w, payload_result) engine_prog" where
  "handlePayload cfg raw =
     bnd (begin_payload cfg raw) (\<lambda>start.
       case start of
         NotMine \<Rightarrow> ret (Settled None)
       | Replay result \<Rightarrow> ret (Settled (Some result))
       | JoinRun key \<Rightarrow> ret (SameAs key)
       | StartRun msg \<Rightarrow>
         if truthy (enc_idempotencyKey msg) \<and> primitive_key (enc_idempotencyKey msg)
         then bnd (eng (\<lambda>e. e\<lparr> e_pendingIdempotency := set_add (enc_idempotencyKey msg) (e_pendingIdempotency e) \<rparr>)) (\<lambda>_.
              try_finally (bnd (processPayload cfg msg) (\<lambda>r. ret (Settled r)))
                (eng (\<lambda>e. e\<lparr> e_pendingIdempotency := removeAll (enc_idempotencyKey msg) (e_pendingIdempotency e) \<rparr>)))
         else bnd (processPayload cfg msg) (\<lambda>r. ret (Settled r)))"



section \<open>Recovery on boot\<close>

datatype resume_outcome = ResumeSubmitted | ResumeAbandoned | ResumeFailed

definition settle_resumed :: "'w RelayerEngineConfig \<Rightarrow> AcceptedJobEntry \<Rightarrow> string \<Rightarrow> ('w, unit) engine_prog" where
  "settle_resumed cfg entry submittedTx =
     bnd (with_queue (q_resolve (cfg_jobStore cfg) (aj_jobId entry))) (\<lambda>_.
     record_submitted cfg (aj_jobId entry)
       (case aj_acceptedTx entry of None \<Rightarrow> ''on-chain-accept:'' @ aj_jobId entry | Some t \<Rightarrow> t)
       submittedTx (js_BigInt_str (aj_fee entry)))"

definition abandon :: "'w RelayerEngineConfig \<Rightarrow> string \<Rightarrow> ('w, resume_outcome) engine_prog" where
  "abandon cfg jobId = bnd (with_queue (q_resolve (cfg_jobStore cfg) jobId)) (\<lambda>_. ret ResumeAbandoned)"

text \<open>The tail of the loop body, for an entry whose acceptance is established.\<close>

definition resume_submit :: "'w RelayerEngineConfig \<Rightarrow> AcceptedJobEntry \<Rightarrow> ('w, resume_outcome) engine_prog" where
  "resume_submit cfg entry =
     bnd (hasDeadlineHeadroom cfg (aj_deadline entry)) (\<lambda>ok.
       if \<not> ok then abandon cfg (aj_jobId entry)
       else try_catch
         (bnd (of_res (parsePoolWithdrawPayload (aj_payload entry))) (\<lambda>payload.
          bnd (submitWithRetry cfg (aj_jobId entry) payload (aj_deadline entry)) (\<lambda>submittedTx.
          bnd (settle_resumed cfg entry submittedTx) (\<lambda>_.
          bnd (bump (\<lambda>st. st\<lparr> es_submitted := es_submitted st + 1 \<rparr>)) (\<lambda>_.
          bnd (notifySettled cfg (aj_jobId entry) Completed) (\<lambda>_.
          ret ResumeSubmitted))))))
         (\<lambda>err. bnd (bump (\<lambda>st. st\<lparr> es_lastError := Some (err_message err) \<rparr>)) (\<lambda>_. ret ResumeFailed)))"

definition own_acceptance :: "'w RelayerEngineConfig \<Rightarrow> OnChainJob option \<Rightarrow> bool" where
  "own_acceptance cfg current =
     (case current of None \<Rightarrow> False
      | Some job \<Rightarrow> job_status job = JAccepted \<and>
          (case job_acceptedRelayer job of Some (c # cs) \<Rightarrow> c # cs = kp_publicKey (cfg_operator cfg) | _ \<Rightarrow> True))"

definition needs_acceptance :: "AcceptedJobEntry \<Rightarrow> bool" where
  "needs_acceptance entry \<longleftrightarrow> aj_phase entry = Some Accepting \<or> (case aj_acceptedTx entry of Some (c # cs) \<Rightarrow> False | _ \<Rightarrow> True)"

text \<open>\<open>entry.acceptedTx = queue.get(entry.jobId)?.acceptedTx\<close>\<close>

definition refresh_entry :: "AcceptedJobEntry \<Rightarrow> RelayerEngine \<Rightarrow> AcceptedJobEntry" where
  "refresh_entry entry e =
     entry\<lparr> aj_acceptedTx := (case e_queue e of None \<Rightarrow> None
       | Some q \<Rightarrow> (case q_get (aj_jobId entry) q of None \<Rightarrow> None | Some x \<Rightarrow> aj_acceptedTx x)) \<rparr>"

definition continue_accepted :: "'w RelayerEngineConfig \<Rightarrow> AcceptedJobEntry \<Rightarrow> ('w, resume_outcome) engine_prog" where
  "continue_accepted cfg entry = bnd (gets (\<lambda>s. refresh_entry entry (fst s))) (resume_submit cfg)"

definition resume_entry :: "'w RelayerEngineConfig \<Rightarrow> AcceptedJobEntry \<Rightarrow> ('w, resume_outcome) engine_prog" where
  "resume_entry cfg entry =
     bnd (getJob_or_null cfg (aj_jobId entry)) (\<lambda>current.
       if has_status JSubmitted current
       then bnd (settle_resumed cfg entry (''on-chain:'' @ aj_jobId entry)) (\<lambda>_.
            bnd (notifySettled cfg (aj_jobId entry) Completed) (\<lambda>_. ret ResumeSubmitted))
       else if \<not> needs_acceptance entry then resume_submit cfg entry
       else if own_acceptance cfg current
       then bnd (with_queue (q_markAccepted (cfg_jobStore cfg) (aj_jobId entry) (''on-chain-accept:'' @ aj_jobId entry))) (\<lambda>_.
            continue_accepted cfg entry)
       else if has_status JOpen current
       then bnd (try_catch
              (bnd (on_snd (acceptJob (cfg_chain cfg) (aj_jobId entry))) (\<lambda>acceptedTx.
               bnd (with_queue (q_markAccepted (cfg_jobStore cfg) (aj_jobId entry) acceptedTx)) (\<lambda>_. ret True)))
              (\<lambda>err. bnd (with_queue (q_recordFailure (cfg_jobStore cfg) (aj_jobId entry) (err_message err))) (\<lambda>_. ret False))) (\<lambda>accepted.
            if accepted then continue_accepted cfg entry else ret ResumeFailed)
       else abandon cfg (aj_jobId entry))"

definition pick :: "resume_outcome \<Rightarrow> (string \<times> resume_outcome) list \<Rightarrow> string list" where
  "pick out rs = map fst (filter (\<lambda>r. snd r = out) rs)"

text \<open>The jobs submitted, abandoned and failed, in that order.\<close>

definition resumeAcceptedJobs ::
    "'w RelayerEngineConfig \<Rightarrow> ('w, string list \<times> string list \<times> string list) engine_prog" where
  "resumeAcceptedJobs cfg =
     bnd (gets (\<lambda>s. e_queue (fst s))) (\<lambda>queue.
       case queue of None \<Rightarrow> ret ([], [], [])
       | Some _ \<Rightarrow>
         bnd (with_queue (q_hydrate (cfg_jobStore cfg))) (\<lambda>_.
         bnd (gets (\<lambda>s. case e_queue (fst s) of None \<Rightarrow> [] | Some q \<Rightarrow> q_pending q)) (\<lambda>pending.
         bnd (prog_map (\<lambda>entry. bnd (resume_entry cfg entry) (\<lambda>r. ret (aj_jobId entry, r))) pending) (\<lambda>rs.
         ret (pick ResumeSubmitted rs, pick ResumeAbandoned rs, pick ResumeFailed rs)))))"


section \<open>Timers, pruning and health\<close>

definition startPruneWatch :: "RelayerEngine \<Rightarrow> RelayerEngine" where
  "startPruneWatch e = (if e_pruneTimer e then e else e\<lparr> e_pruneTimer := True \<rparr>)"

definition stopPruneWatch :: "RelayerEngine \<Rightarrow> RelayerEngine" where
  "stopPruneWatch e = (if e_pruneTimer e then e\<lparr> e_pruneTimer := False \<rparr> else e)"

definition startAcceptedJobWatch :: "RelayerEngine \<Rightarrow> RelayerEngine" where
  "startAcceptedJobWatch e =
     (if e_resumeTimer e \<or> e_queue e = None then e else e\<lparr> e_resumeTimer := True \<rparr>)"

definition stopAcceptedJobWatch :: "RelayerEngine \<Rightarrow> RelayerEngine" where
  "stopAcceptedJobWatch e = (if e_resumeTimer e then e\<lparr> e_resumeTimer := False \<rparr> else e)"

text \<open>One firing of the resume timer; a pass in flight is not started again.\<close>

definition resume_tick :: "'w RelayerEngineConfig \<Rightarrow> ('w, unit) engine_prog" where
  "resume_tick cfg =
     bnd (gets (\<lambda>s. e_resumeInFlight (fst s))) (\<lambda>busy.
       if busy then ret ()
       else bnd (eng (\<lambda>e. e\<lparr> e_resumeInFlight := True \<rparr>)) (\<lambda>_.
            try_finally
              (try_catch (bnd (resumeAcceptedJobs cfg) (\<lambda>_. ret ()))
                 (\<lambda>err. bump (\<lambda>st. st\<lparr> es_lastError := Some (err_message err) \<rparr>)))
              (eng (\<lambda>e. e\<lparr> e_resumeInFlight := False \<rparr>))))"

definition engine_prune :: "'w RelayerEngineConfig \<Rightarrow> int \<Rightarrow> RelayerEngine \<Rightarrow> RelayerEngine" where
  "engine_prune cfg now e =
     e\<lparr> e_bids := prune_lists (\<lambda>b. of_int (now - snd b) < cfg_bidExpiryMs cfg) (e_bids e),
        e_idempotencyStore := prune_entries (\<lambda>entry. \<not> now \<ge> ie_expiresAt entry) (e_idempotencyStore e) \<rparr>"

record HealthReport =
  hr_ok :: bool
  hr_uptime :: int
  hr_queueDepth :: nat
  hr_oldestPendingJobAge :: "int option"
  hr_stats :: RelayerEngineStats
  hr_latencyMs :: "int option"

definition oldest_age :: "int \<Rightarrow> int list \<Rightarrow> int option" where
  "oldest_age now stamps =
     foldl (\<lambda>oldest t. let age = now - t in
       case oldest of None \<Rightarrow> Some age | Some a \<Rightarrow> if age > a then Some age else Some a) None stamps"

definition engine_healthCheck :: "'w RelayerEngineConfig \<Rightarrow> ('w, HealthReport) engine_prog" where
  "engine_healthCheck cfg =
     bnd (gets fst) (\<lambda>e.
     bnd (engine_now cfg) (\<lambda>now.
     bnd (try_catch
           (bnd (engine_now cfg) (\<lambda>start.
            bnd (on_snd (getRelayer (cfg_chain cfg) (kp_publicKey (cfg_operator cfg)))) (\<lambda>_.
            bnd (engine_now cfg) (\<lambda>stop. ret (Some (stop - start))))))
           (\<lambda>_. ret None)) (\<lambda>latency.
     bnd (gets (\<lambda>s. e_stats (fst s))) (\<lambda>stats.
     ret \<lparr> hr_ok = (latency \<noteq> None), hr_uptime = now - e_startedAt e, hr_queueDepth = length (e_pendingJobs e),
           hr_oldestPendingJobAge = oldest_age now (map snd (e_pendingJobs e)), hr_stats = stats,
           hr_latencyMs = latency \<rparr>))))"

end
