(* ===== verification/Relayer_Engine_Props.thy ===== *)
theory Relayer_Engine_Props
  imports Relayer_Engine
begin

text \<open>
  Correctness of the relayer engine: when it bids, what a delivered payload leaves behind on
  success and on failure, how replays behave, and that its caches keep their invariants.
  World calls are treated as arbitrary: a rule for a call asks the postcondition of every
  result and every world it may leave.
\<close>

section \<open>Rules for the engine's calls\<close>

declare wp_on_snd [simp del]

lemma wp_clock_calls [simp]:
  "wp (on_snd (date_now R)) Q E s = Q (fst (rt_now R (snd s))) (fst s, snd (rt_now R (snd s)))"
  "wp (on_snd (math_random R)) Q' E' s = Q' (fst (rt_random R (snd s))) (fst s, snd (rt_random R (snd s)))"
  "wp (on_snd (sleep_ms R ms)) Q'' E'' s = Q'' () (fst s, rt_sleep R ms (snd s))"
  by (simp_all add: wp_on_snd)

lemma wp_any:
  assumes "\<And>x w. Q x (fst s, w)" "\<And>e w. E e (fst s, w)"
  shows "wp (on_snd m) Q E s"
  using assms by (auto simp: wp_on_snd intro!: wpI)

lemma wp_eng [wp_simps, simp]: "wp (eng f) Q E s = Q () (f (fst s), snd s)"
  by (simp add: eng_def)

lemma wp_bump [wp_simps, simp]:
  "wp (bump f) Q E s = Q () ((fst s)\<lparr> e_stats := f (e_stats (fst s)) \<rparr>, snd s)"
  by (simp add: bump_def)

lemma wp_with_queue [wp_simps, simp]:
  "wp (with_queue m) Q E s =
     (case e_queue (fst s) of None \<Rightarrow> Q () s
      | Some q \<Rightarrow> wp m (\<lambda>x p. Q x ((fst s)\<lparr> e_queue := Some (fst p) \<rparr>, snd p))
                     (\<lambda>e p. E e ((fst s)\<lparr> e_queue := Some (fst p) \<rparr>, snd p)) (q, snd s))"
  by (simp add: wp_def with_queue_def split: option.split prod.split sum.split)

lemma wp_with_ledger [wp_simps, simp]:
  "wp (with_ledger m) Q E s =
     (case e_ledger (fst s) of None \<Rightarrow> Q () s
      | Some l \<Rightarrow> wp m (\<lambda>x p. Q x ((fst s)\<lparr> e_ledger := Some (fst p) \<rparr>, snd p))
                     (\<lambda>e p. E e ((fst s)\<lparr> e_ledger := Some (fst p) \<rparr>, snd p)) (l, snd s))"
  by (simp add: wp_def with_ledger_def split: option.split prod.split sum.split)

lemma wp_engine_now [wp_simps, simp]:
  "wp (engine_now cfg) Q E s = Q (fst (rt_now (cfg_runtime cfg) (snd s))) (fst s, snd (rt_now (cfg_runtime cfg) (snd s)))"
  by (simp add: engine_now_def)

lemma wp_getJob_or_null: "(\<And>r w. Q r (fst s, w)) \<Longrightarrow> wp (getJob_or_null cfg j) Q E s"
  by (auto simp: getJob_or_null_def intro!: wp_any)

lemma wp_hasDeadlineHeadroom: "(\<And>b w. Q b (fst s, w)) \<Longrightarrow> wp (hasDeadlineHeadroom cfg d) Q E s"
  by (auto simp: hasDeadlineHeadroom_def intro!: wp_any)

lemma wp_reconcileAcceptance: "(\<And>r w. Q r (fst s, w)) \<Longrightarrow> wp (reconcileAcceptance cfg j) Q E s"
  by (auto simp: reconcileAcceptance_def intro!: wp_getJob_or_null split: option.split list.split)

text \<open>Reporting an outcome changes nothing but the last error.\<close>

lemma wp_notifySettled:
  assumes "\<And>w. Q () (fst s, w)" "\<And>w m. Q () ((fst s)\<lparr> e_stats := (e_stats (fst s))\<lparr> es_lastError := m \<rparr> \<rparr>, w)"
  shows "wp (notifySettled cfg j r) Q E s"
  using assms(1) [of "snd s"] assms by (auto simp: notifySettled_def split: option.split intro!: wp_any)


section \<open>Bids\<close>

text \<open>At most one bid per operator and job, and distinct job keys.\<close>

definition bids_inv :: "RelayerEngine \<Rightarrow> bool" where
  "bids_inv e \<longleftrightarrow> distinct_keys (e_bids e) \<and>
     (\<forall>k l. map_of (e_bids e) k = Some l \<longrightarrow> l \<noteq> [] \<and> distinct (map (\<lambda>b. bid_operator (fst b)) l))"

lemma bids_inv_other [simp]:
  "bids_inv (e\<lparr> e_stats := x \<rparr>) = bids_inv e" "bids_inv (e\<lparr> e_pendingJobs := pj \<rparr>) = bids_inv e"
  "bids_inv (e\<lparr> e_queue := q \<rparr>) = bids_inv e" "bids_inv (e\<lparr> e_ledger := l \<rparr>) = bids_inv e"
  "bids_inv (e\<lparr> e_idempotencyStore := i \<rparr>) = bids_inv e" "bids_inv (e\<lparr> e_pendingIdempotency := ks \<rparr>) = bids_inv e"
  by (simp_all add: bids_inv_def)

lemma rememberBid_inv:
  assumes "bids_inv (fst s)"
  shows "wp (rememberBid cfg bid) (\<lambda>_ s. bids_inv (fst s)) (\<lambda>_ _. False) s"
  using assms
  by (auto simp: rememberBid_def Let_def bids_inv_def bidsFor_def intro!: distinct_update split: option.splits if_splits, blast)

text \<open>What the chain answered in a run that produced a bid.\<close>

definition bid_grounds :: "'w RelayerEngineConfig \<Rightarrow> JobAdvert \<Rightarrow> 'w \<Rightarrow> RelayerBid \<Rightarrow> bool" where
  "bid_grounds cfg advert w bid \<longleftrightarrow>
     (\<exists>rel w1 job w2 ledger w3.
        getRelayer (cfg_chain cfg) (kp_publicKey (cfg_operator cfg)) w = (Inr (Some rel), w1) \<and>
        getJob (cfg_chain cfg) (adv_jobId advert) w1 = (Inr (Some job), w2) \<and>
        latestLedger (cfg_chain cfg) w2 = (Inr ledger, w3) \<and>
        rel_registered rel \<and> normalizeHex (rel_x25519Pk rel) = normalizeHex (bytesToHex (cfg_x25519PublicKey cfg)) \<and>
        job_exists job \<and> job_status job = JOpen \<and> cfg_minFee cfg \<le> job_fee job \<and> job_fee job \<le> rel_freeStake rel \<and>
        cfg_margin cfg \<le> job_deadline job - ledger \<and> advert_matches job advert \<and>
        makeBid (cfg_lib cfg) advert (cfg_operator cfg) (cfg_x25519PublicKey cfg) (cfg_endpoint cfg) (Some (rel_freeStake rel)) = Inr bid)"

lemma decide_bid_grounds:
  "wp (decide_bid cfg advert) (\<lambda>r _. \<forall>bid. r = Some bid \<longrightarrow> bid_grounds cfg advert (snd s) bid) (\<lambda>_ _. True) s"
  unfolding decide_bid_def
  by (auto simp: wp_on_snd bid_grounds_def rememberBid_def Let_def advert_matches_def not_less split: option.split sum.split intro!: wpI)


section \<open>Delivering a payload\<close>

text \<open>
  What a successful submission leaves behind: the queue entry is resolved, the ledger has the
  job with its fee and both transactions, and a later payload with the same idempotency key
  finds the result.
\<close>

lemma wp_q_resolve:
  "wp (q_resolve store j) (\<lambda>_ p. q_map (fst p) = (q_map (fst s))(to_lower j := None))
     (\<lambda>_ p. q_map (fst p) = (q_map (fst s))(to_lower j := None)) s"
  using run_cmd_refines [of store "Resolve j" s] by simp

lemma wp_l_record:
  "wp (l_record store e) (\<lambda>_ p. l_get (le_jobId e) (fst p) = Some e) E s"
  unfolding l_record_def on_ledger_def
  by (simp, rule wp_l_persist) (simp add: l_get_def ledger_put_def)

definition job_absent :: "string \<Rightarrow> RelayerEngine \<Rightarrow> bool" where
  "job_absent j e \<longleftrightarrow> (case e_queue e of None \<Rightarrow> True | Some q \<Rightarrow> q_get j q = None)"

definition ledger_has :: "string \<Rightarrow> string \<Rightarrow> string \<Rightarrow> int \<Rightarrow> RelayerEngine \<Rightarrow> bool" where
  "ledger_has j accTx subTx fee e \<longleftrightarrow> (case e_ledger e of None \<Rightarrow> True
     | Some l \<Rightarrow> (\<exists>t. l_get j l = Some \<lparr> le_jobId = j, le_acceptedTx = accTx, le_submittedTx = subTx,
                                        le_expectedFee = fee, le_submittedAt = t \<rparr>))"

lemma job_absent_other [simp]:
  "job_absent j (e\<lparr> e_stats := x \<rparr>) = job_absent j e" "job_absent j (e\<lparr> e_ledger := l \<rparr>) = job_absent j e"
  "job_absent j (e\<lparr> e_idempotencyStore := i \<rparr>) = job_absent j e" "job_absent j (e\<lparr> e_pendingJobs := p \<rparr>) = job_absent j e"
  by (simp_all add: job_absent_def)

lemma ledger_has_other [simp]:
  "ledger_has j a b f (e\<lparr> e_stats := x \<rparr>) = ledger_has j a b f e"
  "ledger_has j a b f (e\<lparr> e_idempotencyStore := i \<rparr>) = ledger_has j a b f e"
  "ledger_has j a b f (e\<lparr> e_pendingJobs := p \<rparr>) = ledger_has j a b f e"
  by (simp_all add: ledger_has_def)

lemma wp_resolve_absent:
  "wp (with_queue (q_resolve store j)) (\<lambda>_ s. job_absent j (fst s)) (\<lambda>_ _. True) s"
  by (auto simp: job_absent_def q_get_def split: option.split intro!: wp_mono [OF wp_q_resolve])

lemma wp_record_submitted:
  assumes "job_absent j (fst s)" "fee = Inr f"
  shows "wp (record_submitted cfg j a b fee) (\<lambda>_ s. job_absent j (fst s) \<and> ledger_has j a b f (fst s)) (\<lambda>_ _. True) s"
  using assms
  by (auto simp: record_submitted_def ledger_has_def split: option.split intro!: wp_mono [OF wp_l_record])

definition result_kept :: "jv \<Rightarrow> string \<times> string \<Rightarrow> RelayerEngine \<Rightarrow> bool" where
  "result_kept key r e \<longleftrightarrow> (truthy key \<and> primitive_key key \<longrightarrow>
     (\<exists>t. map_of (e_idempotencyStore e) key = Some \<lparr> ie_result = r, ie_expiresAt = t + IDEMPOTENCY_TTL_MS \<rparr>))"

lemma submit_phase_success:
  fixes cfg :: "'w RelayerEngineConfig"
  shows "wp (submit_phase cfg msg accTx payload job)
     (\<lambda>r s. \<exists>subTx. r = Some (accTx, subTx) \<and> job_absent (enc_jobId msg) (fst s)
        \<and> ledger_has (enc_jobId msg) accTx subTx (job_fee job) (fst s)
        \<and> result_kept (enc_idempotencyKey msg) (accTx, subTx) (fst s)) (\<lambda>_ _. True) s"
  unfolding submit_phase_def
proof (intro wp_bndI)
  let ?A = "\<lambda>_ s :: RelayerEngine \<times> 'w. job_absent (enc_jobId msg) (fst s)"
  let ?L = "\<lambda>tx _ s :: RelayerEngine \<times> 'w. job_absent (enc_jobId msg) (fst s) \<and> ledger_has (enc_jobId msg) accTx tx (job_fee job) (fst s)"
  show "wp (bump (\<lambda>st. st\<lparr> es_accepted := es_accepted st + 1 \<rparr>)) (\<lambda>_ _. True) (\<lambda>_ _. True) s" by simp
  fix x1 and s1 :: "RelayerEngine \<times> 'w"
  show "wp (submitWithRetry cfg (enc_jobId msg) payload (job_deadline job)) (\<lambda>_ _. True) (\<lambda>_ _. True) s1" by simp
  fix tx and s2 :: "RelayerEngine \<times> 'w"
  show "wp (bump (\<lambda>st. st\<lparr> es_submitted := es_submitted st + 1 \<rparr>)) (\<lambda>_ _. True) (\<lambda>_ _. True) s2" by simp
  fix x3 and s3 :: "RelayerEngine \<times> 'w"
  show "wp (with_queue (q_resolve (cfg_jobStore cfg) (enc_jobId msg))) ?A (\<lambda>_ _. True) s3"
    by (rule wp_resolve_absent)
  fix x4 and s4 :: "RelayerEngine \<times> 'w"
  assume "?A x4 s4"
  then show "wp (record_submitted cfg (enc_jobId msg) accTx tx (Inr (job_fee job))) (?L tx) (\<lambda>_ _. True) s4"
    by (rule wp_record_submitted) simp
  fix x5 and s5 :: "RelayerEngine \<times> 'w"
  assume "?L tx x5 s5"
  then show "wp (notifySettled cfg (enc_jobId msg) Completed) (?L tx) (\<lambda>_ _. True) s5"
    by (intro wp_notifySettled) simp_all
  fix x6 and s6 :: "RelayerEngine \<times> 'w"
  assume "?L tx x6 s6"
  then show "wp (remember_result cfg (enc_idempotencyKey msg) (accTx, tx))
      (\<lambda>x s. ?L tx x s \<and> result_kept (enc_idempotencyKey msg) (accTx, tx) (fst s)) (\<lambda>_ _. True) s6"
    by (auto simp: remember_result_def result_kept_def)
  fix x7 and s7 :: "RelayerEngine \<times> 'w"
  assume "?L tx x7 s7 \<and> result_kept (enc_idempotencyKey msg) (accTx, tx) (fst s7)"
  then show "wp (ret (Some (accTx, tx))) (\<lambda>r s. \<exists>subTx. r = Some (accTx, subTx) \<and> job_absent (enc_jobId msg) (fst s)
        \<and> ledger_has (enc_jobId msg) accTx subTx (job_fee job) (fst s)
        \<and> result_kept (enc_idempotencyKey msg) (accTx, subTx) (fst s)) (\<lambda>_ _. True) s7"
    by simp
qed


text \<open>
  The job is held: the queue, when there is one, has it as accepted, with the payload a restart
  needs to submit it.
\<close>

definition held :: "string \<Rightarrow> PoolWithdrawPayload \<Rightarrow> RelayerEngine \<Rightarrow> bool" where
  "held j p e \<longleftrightarrow> (case e_queue e of None \<Rightarrow> True
     | Some q \<Rightarrow> (\<exists>x. q_get j q = Some x \<and> aj_phase x = Some Accepted \<and> aj_payload x = serializePoolWithdrawPayload p))"

lemma held_other [simp]:
  "held j p (e\<lparr> e_stats := x \<rparr>) = held j p e" "held j p (e\<lparr> e_pendingJobs := y \<rparr>) = held j p e"
  by (simp_all add: held_def)

lemma wp_recordFailure_held:
  assumes "held j p (fst s)"
  shows "wp (with_queue (q_recordFailure store j m))
    (\<lambda>_ s'. held j p (fst s') \<and> e_stats (fst s') = e_stats (fst s))
    (\<lambda>_ s'. held j p (fst s') \<and> e_stats (fst s') = e_stats (fst s)) s"
  using assms run_cmd_refines [of store "RecordFailure j m" "(the (e_queue (fst s)), snd s)"]
  by (auto simp: held_def q_get_def split: option.splits elim!: wp_mono)

text \<open>The retry loop touches the engine only by recording failures.\<close>

lemma submit_attempt_frame:
  "wp (submit_attempt cfg j payload) (\<lambda>_ s'. fst s' = fst s) (\<lambda>_ s'. fst s' = fst s) s"
  unfolding submit_attempt_def by (rule wp_bndI [OF wp_any]) (auto intro: wp_any)

lemma after_failure_frame:
  assumes rec: "\<And>s m. I (fst s) \<Longrightarrow> wp (with_queue (q_recordFailure (cfg_jobStore cfg) j m)) (\<lambda>_ s. I (fst s)) (\<lambda>_ s. I (fst s)) s"
    and again: "\<And>s. I (fst s) \<Longrightarrow> wp again (\<lambda>_ s. I (fst s)) (\<lambda>_ s. I (fst s)) s" and "I (fst s)"
  shows "wp (after_failure cfg j d n k err again) (\<lambda>_ s. I (fst s)) (\<lambda>_ s. I (fst s)) s"
  unfolding after_failure_def
  by (rule wp_bndI [OF rec [OF assms(3)]], rule wp_bndI [OF wp_getJob_or_null [where Q = "\<lambda>_ s. I (fst s)"]])
     (use again in \<open>auto intro!: wp_hasDeadlineHeadroom\<close>)

lemma submit_loop_frame:
  assumes rec: "\<And>s m. I (fst s) \<Longrightarrow> wp (with_queue (q_recordFailure (cfg_jobStore cfg) j m)) (\<lambda>_ s. I (fst s)) (\<lambda>_ s. I (fst s)) s"
    and "I (fst s)"
  shows "wp (submit_loop cfg j payload d n k err) (\<lambda>_ s. I (fst s)) (\<lambda>_ s. I (fst s)) s"
  using assms(2)
proof (induction n arbitrary: k err s)
  case (Suc n)
  show ?case
    unfolding submit_loop.simps
    by (rule wp_catchI [OF wp_mono [OF submit_attempt_frame], where R = "\<lambda>_ s. I (fst s)"], (use Suc.prems in auto) [2],
        rule after_failure_frame [OF rec Suc.IH])
qed simp

lemma submitWithRetry_held:
  assumes "held j p (fst s)"
  shows "wp (submitWithRetry cfg j payload d)
    (\<lambda>_ s'. held j p (fst s') \<and> e_stats (fst s') = e_stats (fst s))
    (\<lambda>_ s'. held j p (fst s') \<and> e_stats (fst s') = e_stats (fst s)) s"
  unfolding submitWithRetry_def
proof (rule submit_loop_frame [where I = "\<lambda>e. held j p e \<and> e_stats e = e_stats (fst s)"])
  show "held j p (fst s) \<and> e_stats (fst s) = e_stats (fst s)" using assms by simp
  fix m and s' :: "RelayerEngine \<times> 'a"
  assume "held j p (fst s') \<and> e_stats (fst s') = e_stats (fst s)"
  then show "wp (with_queue (q_recordFailure (cfg_jobStore cfg) j m))
      (\<lambda>_ s'. held j p (fst s') \<and> e_stats (fst s') = e_stats (fst s))
      (\<lambda>_ s'. held j p (fst s') \<and> e_stats (fst s') = e_stats (fst s)) s'"
    by (intro wp_mono [OF wp_recordFailure_held]) auto
qed


text \<open>What the acceptance phase has checked of the payload and the job it returns.\<close>

definition checked :: "'w RelayerEngineConfig \<Rightarrow> EncryptedPayload \<Rightarrow> PoolWithdrawPayload \<Rightarrow> OnChainJob \<Rightarrow> bool" where
  "checked cfg msg p job \<longleftrightarrow>
     (\<exists>plain hash. openBox (cfg_nacl cfg) (enc_box msg) (cfg_x25519SecretKey cfg) = Inr plain \<and>
        decodePoolWithdrawPayload plain = Inr p \<and> hashPoolWithdrawPayloadHex (cfg_lib cfg) p = Inr hash \<and>
        to_lower hash = to_lower (job_payloadHash job) \<and> job_exists job \<and> job_status job = JOpen)"

lemma wp_enqueue_intent:
  "wp (with_queue (bnd (on_snd (date_now R)) (\<lambda>now. q_enqueue store (intent j p job now))))
     (\<lambda>_ s'. e_stats (fst s') = e_stats (fst s) \<and> (case e_queue (fst s') of None \<Rightarrow> True
        | Some q \<Rightarrow> \<exists>x. q_get j q = Some x \<and> aj_payload x = serializePoolWithdrawPayload p))
     (\<lambda>_ s'. e_stats (fst s') = e_stats (fst s)) s"
  using run_cmd_refines [of store "Enqueue (intent j p job t)" for t, simplified]
  by (fastforce simp: q_get_def intent_def default_phase_def split: option.splits elim!: wp_mono)

lemma wp_markAccepted_held:
  assumes "case e_queue (fst s) of None \<Rightarrow> True | Some q \<Rightarrow> \<exists>x. q_get j q = Some x \<and> aj_payload x = serializePoolWithdrawPayload p"
  shows "wp (with_queue (q_markAccepted store j tx))
     (\<lambda>_ s'. held j p (fst s') \<and> e_stats (fst s') = e_stats (fst s)) (\<lambda>_ s'. e_stats (fst s') = e_stats (fst s)) s"
  using assms run_cmd_refines [of store "MarkAccepted j tx" "(the (e_queue (fst s)), snd s)"]
  by (auto simp: held_def q_get_def split: option.splits elim!: wp_mono)


abbreviation same_counts :: "RelayerEngine \<Rightarrow> RelayerEngine \<Rightarrow> bool" where
  "same_counts e e' \<equiv> es_accepted (e_stats e') = es_accepted (e_stats e) \<and> es_submitted (e_stats e') = es_submitted (e_stats e)"

lemma wp_accept_or_reconcile: "(\<And>r w. Q r (fst s, w)) \<Longrightarrow> (\<And>e w. E e (fst s, w)) \<Longrightarrow> wp (accept_or_reconcile cfg j) Q E s"
  by (auto simp: accept_or_reconcile_def intro!: wp_any wp_reconcileAcceptance split: option.split)

lemma commit_acceptance_wp:
  fixes cfg :: "'w RelayerEngineConfig"
  assumes "same_counts e (fst s)"
  shows "wp (commit_acceptance cfg j p job)
     (\<lambda>r s'. same_counts e (fst s') \<and> held j p (fst s') \<and> (\<exists>tx. r = Some (tx, p, job)))
     (\<lambda>_ s'. same_counts e (fst s')) s"
  unfolding commit_acceptance_def
proof (intro wp_bndI)
  let ?Q = "\<lambda>_ s'. same_counts e (fst s') \<and> (case e_queue (fst s') of None \<Rightarrow> True
        | Some q \<Rightarrow> \<exists>x. q_get j q = Some x \<and> aj_payload x = serializePoolWithdrawPayload p)"
  show "wp (on_snd (simulatePoolWithdraw (cfg_chain cfg) p)) (\<lambda>_ s'. fst s' = fst s) (\<lambda>_ s'. same_counts e (fst s')) s"
    using assms by (intro wp_any) simp_all
  fix x1 and s1 :: "RelayerEngine \<times> 'w"
  assume "fst s1 = fst s"
  with assms show "wp (with_queue (bnd (on_snd (date_now (cfg_runtime cfg))) (\<lambda>now. q_enqueue (cfg_jobStore cfg) (intent j p job now))))
      ?Q (\<lambda>_ s'. same_counts e (fst s')) s1"
    by (intro wp_mono [OF wp_enqueue_intent]) auto
  fix x2 and s2 :: "RelayerEngine \<times> 'w"
  assume s2: "?Q x2 s2"
  then show "wp (accept_or_reconcile cfg j) ?Q (\<lambda>_ s'. same_counts e (fst s')) s2"
    by (intro wp_accept_or_reconcile) simp_all
  fix tx and s3 :: "RelayerEngine \<times> 'w"
  assume "?Q tx s3"
  then show "wp (with_queue (q_markAccepted (cfg_jobStore cfg) j tx)) (\<lambda>_ s'. same_counts e (fst s') \<and> held j p (fst s'))
      (\<lambda>_ s'. same_counts e (fst s')) s3"
    by (intro wp_mono [OF wp_markAccepted_held]) auto
qed simp

lemma checkedI:
  "openBox (cfg_nacl cfg) (enc_box msg) (cfg_x25519SecretKey cfg) = Inr plain \<Longrightarrow>
   decodePoolWithdrawPayload plain = Inr p \<Longrightarrow> hashPoolWithdrawPayloadHex (cfg_lib cfg) p = Inr hash \<Longrightarrow>
   to_lower hash = to_lower (job_payloadHash job) \<Longrightarrow> job_exists job \<Longrightarrow> job_status job = JOpen \<Longrightarrow> checked cfg msg p job"
  unfolding checked_def by blast

text \<open>The acceptance phase by its branches: a postcondition holds when it holds of each of them.\<close>

lemma wp_accept_phase:
  assumes commit: "\<And>p job w. checked cfg msg p job \<Longrightarrow> wp (commit_acceptance cfg (enc_jobId msg) p job) Q E (fst s, w)"
    and decline: "\<And>w. Q None (fst s, w)" and err: "\<And>e w. E e (fst s, w)"
    and late: "\<And>w k. Q None ((fst s)\<lparr> e_stats := (e_stats (fst s))\<lparr> es_deadlineDeclined := k \<rparr> \<rparr>, w)"
  shows "wp (accept_phase cfg msg) Q E s"
  unfolding accept_phase_def
  using err [of _ "snd s"] decline err late
  by (auto simp: split: sum.split option.split intro!: wp_any wp_hasDeadlineHeadroom commit checkedI)

lemma accept_phase_wp:
  "wp (accept_phase cfg msg)
     (\<lambda>r s'. same_counts (fst s) (fst s') \<and>
        (\<forall>tx p job. r = Some (tx, p, job) \<longrightarrow> checked cfg msg p job \<and> held (enc_jobId msg) p (fst s')))
     (\<lambda>_ s'. same_counts (fst s) (fst s')) s"
  by (rule wp_accept_phase) (auto intro!: wp_mono [OF commit_acceptance_wp [where e = "fst s"]])


lemma wp_part_stats:
  "wp (with_queue m) (\<lambda>_ s'. e_stats (fst s') = e_stats (fst s)) (\<lambda>_ s'. e_stats (fst s') = e_stats (fst s)) s"
  "wp (with_ledger l) (\<lambda>_ s'. e_stats (fst s') = e_stats (fst s)) (\<lambda>_ s'. e_stats (fst s') = e_stats (fst s)) s"
  by (auto split: option.split intro: wp_const)

lemma record_submitted_stats:
  "wp (record_submitted cfg j a b fee) (\<lambda>_ s'. e_stats (fst s') = e_stats (fst s)) (\<lambda>_ s'. e_stats (fst s') = e_stats (fst s)) s"
  unfolding record_submitted_def
  by (auto split: option.split sum.split simp del: wp_with_ledger intro!: wp_mono [OF wp_part_stats(2)])

text \<open>A submission that throws has either already been counted as submitted or left the job held.\<close>

lemma submit_phase_failure:
  fixes cfg :: "'w RelayerEngineConfig"
  assumes "held (enc_jobId msg) p (fst s)"
  shows "wp (submit_phase cfg msg accTx payload job) (\<lambda>_ _. True)
     (\<lambda>_ s'. es_submitted (e_stats (fst s')) = es_submitted (e_stats (fst s)) + 1 \<or> held (enc_jobId msg) p (fst s')) s"
  unfolding submit_phase_def
proof (intro wp_bndI)
  let ?E = "\<lambda>_ s'. es_submitted (e_stats (fst s')) = es_submitted (e_stats (fst s)) + 1 \<or> held (enc_jobId msg) p (fst s')"
  let ?S = "\<lambda>_ s'. es_submitted (e_stats (fst s')) = es_submitted (e_stats (fst s)) + 1"
  let ?H = "\<lambda>_ s'. held (enc_jobId msg) p (fst s') \<and> es_submitted (e_stats (fst s')) = es_submitted (e_stats (fst s))"
  show "wp (bump (\<lambda>st. st\<lparr> es_accepted := es_accepted st + 1 \<rparr>)) ?H ?E s" using assms by simp
  fix x1 and s1 :: "RelayerEngine \<times> 'w"
  assume h: "?H x1 s1"
  then show "wp (submitWithRetry cfg (enc_jobId msg) payload (job_deadline job)) ?H ?E s1"
    by (intro wp_mono [OF submitWithRetry_held [of "enc_jobId msg" p]]) auto
  fix tx and s2 :: "RelayerEngine \<times> 'w"
  assume "?H tx s2"
  then show "wp (bump (\<lambda>st. st\<lparr> es_submitted := es_submitted st + 1 \<rparr>)) ?S ?E s2" by simp
  fix x3 and s3 :: "RelayerEngine \<times> 'w"
  assume "?S x3 s3"
  then show "wp (with_queue (q_resolve (cfg_jobStore cfg) (enc_jobId msg))) ?S ?E s3"
    by (intro wp_mono [OF wp_part_stats(1)]) auto
  fix x4 and s4 :: "RelayerEngine \<times> 'w"
  assume "?S x4 s4"
  then show "wp (record_submitted cfg (enc_jobId msg) accTx tx (Inr (job_fee job))) ?S ?E s4"
    by (intro wp_mono [OF record_submitted_stats]) auto
  fix x5 and s5 :: "RelayerEngine \<times> 'w"
  assume "?S x5 s5"
  then show "wp (notifySettled cfg (enc_jobId msg) Completed) ?S ?E s5" by (intro wp_notifySettled) simp_all
  fix x6 and s6 :: "RelayerEngine \<times> 'w"
  show "wp (remember_result cfg (enc_idempotencyKey msg) (accTx, tx)) (\<lambda>_ _. True) ?E s6"
    by (simp add: remember_result_def)
qed simp

text \<open>A run of \<open>processPayload\<close>, on both exits.\<close>

definition delivered :: "'w RelayerEngineConfig \<Rightarrow> EncryptedPayload \<Rightarrow> string \<times> string \<Rightarrow> RelayerEngine \<Rightarrow> bool" where
  "delivered cfg msg r e \<longleftrightarrow> (\<exists>p job. checked cfg msg p job \<and> job_absent (enc_jobId msg) e
     \<and> ledger_has (enc_jobId msg) (fst r) (snd r) (job_fee job) e \<and> result_kept (enc_idempotencyKey msg) r e)"

definition still_owed :: "'w RelayerEngineConfig \<Rightarrow> EncryptedPayload \<Rightarrow> RelayerEngine \<Rightarrow> RelayerEngine \<Rightarrow> bool" where
  "still_owed cfg msg e e' \<longleftrightarrow> es_accepted (e_stats e') = es_accepted (e_stats e)
     \<or> es_submitted (e_stats e') = es_submitted (e_stats e) + 1
     \<or> (\<exists>p job. checked cfg msg p job \<and> held (enc_jobId msg) p e')"

lemma delivered_other [simp]:
  "delivered cfg msg r (e\<lparr> e_pendingJobs := x \<rparr>) = delivered cfg msg r e"
  "still_owed cfg msg e0 (e\<lparr> e_pendingJobs := x \<rparr>) = still_owed cfg msg e0 e"
  by (simp_all add: delivered_def result_kept_def still_owed_def)

lemma settle_phase_wp:
  fixes cfg :: "'w RelayerEngineConfig"
  assumes "same_counts e0 (fst s)"
    and "\<And>tx p job. acc = Some (tx, p, job) \<Longrightarrow> checked cfg msg p job \<and> held (enc_jobId msg) p (fst s)"
  shows "wp (settle_phase cfg msg acc)
     (\<lambda>r s'. \<forall>x. r = Some x \<longrightarrow> delivered cfg msg x (fst s')) (\<lambda>_ s'. still_owed cfg msg e0 (fst s')) s"
proof (cases acc)
  case (Some a)
  then obtain accTx p job where acc: "acc = Some (accTx, p, job)" by (cases a) auto
  have c: "checked cfg msg p job" and h: "held (enc_jobId msg) p (fst s)" using assms(2) [OF acc] by simp_all
  have "wp (submit_phase cfg msg accTx p job) (\<lambda>r s'. \<forall>x. r = Some x \<longrightarrow> delivered cfg msg x (fst s'))
     (\<lambda>_ s'. still_owed cfg msg e0 (fst s')) s"
    using submit_phase_success [of cfg msg accTx p job s] submit_phase_failure [OF h, of cfg accTx p job] assms(1) c
    by (auto simp: wp_def delivered_def still_owed_def split: prod.splits sum.splits; blast)
  moreover have "wp (bnd (note_rejected err) (\<lambda>_. bnd (notifySettled cfg (enc_jobId msg) Failed) (\<lambda>_. throw err)))
     (\<lambda>r s'. \<forall>x. r = Some x \<longrightarrow> delivered cfg msg x (fst s')) (\<lambda>_ s'. still_owed cfg msg e0 (fst s')) s'"
    if "still_owed cfg msg e0 (fst s')" for err and s' :: "RelayerEngine \<times> 'w"
    using that by (auto simp: note_rejected_def still_owed_def intro!: wp_notifySettled)
  ultimately show ?thesis
    unfolding acc settle_phase_def option.case prod.case by (rule wp_catchI)
qed (simp add: settle_phase_def)

lemma processPayload_wp:
  fixes cfg :: "'w RelayerEngineConfig"
  shows "wp (processPayload cfg msg)
     (\<lambda>r s'. map_of (e_pendingJobs (fst s')) (to_lower (enc_jobId msg)) = None \<and> (\<forall>x. r = Some x \<longrightarrow> delivered cfg msg x (fst s')))
     (\<lambda>_ s'. map_of (e_pendingJobs (fst s')) (to_lower (enc_jobId msg)) = None \<and> still_owed cfg msg (fst s) (fst s')) s"
proof -
  have body: "wp (bnd (try_catch (accept_phase cfg msg) (\<lambda>err. bnd (note_rejected err) (\<lambda>_. throw err))) (settle_phase cfg msg))
     (\<lambda>r s'. \<forall>x. r = Some x \<longrightarrow> delivered cfg msg x (fst s')) (\<lambda>_ s'. still_owed cfg msg (fst s) (fst s')) s1"
    if "e_stats (fst s1) = e_stats (fst s)" for s1
  proof (rule wp_bndI)
    let ?R = "\<lambda>r s'. same_counts (fst s) (fst s') \<and>
        (\<forall>tx p job. r = Some (tx, p, job) \<longrightarrow> checked cfg msg p job \<and> held (enc_jobId msg) p (fst s'))"
    show "wp (try_catch (accept_phase cfg msg) (\<lambda>err. bnd (note_rejected err) (\<lambda>_. throw err)))
       ?R (\<lambda>_ s'. still_owed cfg msg (fst s) (fst s')) s1"
      by (rule wp_catchI [OF accept_phase_wp [THEN wp_mono]])
         (use that in \<open>auto simp: note_rejected_def still_owed_def\<close>)
    show "wp (settle_phase cfg msg acc) (\<lambda>r s'. \<forall>x. r = Some x \<longrightarrow> delivered cfg msg x (fst s'))
       (\<lambda>_ s'. still_owed cfg msg (fst s) (fst s')) s2" if "?R acc s2" for acc s2
      using that by (intro settle_phase_wp) auto
  qed
  show ?thesis
    unfolding processPayload_def
    by (rule wp_bndI [where R = "\<lambda>_ s'. e_stats (fst s') = e_stats (fst s)"], simp,
        rule wp_bndI [where R = "\<lambda>_ s'. e_stats (fst s') = e_stats (fst s)"], simp,
        rule wp_finallyI [OF body]) auto
qed


section \<open>A concrete configuration\<close>

text \<open>
  A node over a chain on which every job is open until asked to be accepted, an in-memory job
  store, and a client that sealed a payload for it.
\<close>

definition example_box :: string where
  "example_box = projr (sealBox example_nacl (replicate 32 1) (replicate 24 2)
     (encodePoolWithdrawPayload (example_payload 10)) (replicate 32 3))"

definition example_job :: OnChainJob where
  "example_job = \<lparr> job_exists = True, job_status = JOpen, job_fee = 100, job_deadline = 500,
     job_payloadHash = projr (hashPoolWithdrawPayloadHex example_lib (example_payload 10)), job_acceptedRelayer = None \<rparr>"

definition job_chain :: "(string \<Rightarrow> ('w, string) prog) \<Rightarrow> 'w RelayerChainAdapter" where
  "job_chain submit = \<lparr> getJob = (\<lambda>j. ret (Some example_job)),
     getRelayer = (\<lambda>op. ret (Some \<lparr> rel_registered = True, rel_x25519Pk = bytesToHex (replicate 32 3),
        rel_endpoint = [], rel_freeStake = 1000 \<rparr>)),
     latestLedger = ret 100, simulatePoolWithdraw = (\<lambda>p. ret ()), acceptJob = (\<lambda>j. ret ''acc''),
     submitPoolWithdraw = (\<lambda>j p. submit j) \<rparr>"

definition example_cfg ::
    "(string \<Rightarrow> (AcceptedJobEntry list option, string) prog) \<Rightarrow> AcceptedJobEntry list option RelayerEngineConfig" where
  "example_cfg submit = \<lparr> cfg_operator = example_keypair, cfg_x25519PublicKey = replicate 32 3,
     cfg_x25519SecretKey = replicate 32 3, cfg_endpoint = None, cfg_minFee = 1, cfg_chain = job_chain submit,
     cfg_margin = 30, cfg_retry = \<lparr> maxAttempts = 1, baseDelayMs = 0 \<rparr>, cfg_bidExpiryMs = bid_expiry_setting None,
     cfg_onSettled = None, cfg_jobStore = Some MemoryStore, cfg_ledgerStore = None,
     cfg_runtime = \<lparr> rt_now = (\<lambda>w. (7, w)), rt_random = (\<lambda>w. (0, w)), rt_sleep = (\<lambda>ms w. w) \<rparr>,
     cfg_lib = example_lib, cfg_nacl = example_nacl \<rparr>"

definition example_msg :: EncryptedPayload where
  "example_msg = \<lparr> enc_jobId = bytesToHex (replicate 32 9), enc_to = bytesToHex (replicate 32 3), enc_box = example_box,
     enc_idempotencyKey = JStr ''k1'' \<rparr>"

definition example_engine :: RelayerEngine where
  "example_engine = new_engine (Some new_queue) (Some new_ledger) 0"

lemma example_opened: "openBox example_nacl example_box (replicate 32 3) = Inr (encodePoolWithdrawPayload (example_payload 10))"
proof -
  have "res_bind (sealBox example_nacl (replicate 32 1) (replicate 24 2) (encodePoolWithdrawPayload (example_payload 10))
      (nacl_public example_nacl (replicate 32 3))) (\<lambda>box. openBox example_nacl box (replicate 32 3))
      = Inr (encodePoolWithdrawPayload (example_payload 10))"
    by (rule openBox_sealBox [OF example_nacl_ok]) simp_all
  then show ?thesis by (simp add: example_box_def sealBox_def PUBLIC_KEY_BYTES_def example_nacl_def)
qed

lemma example_decoded: "decodePoolWithdrawPayload (encodePoolWithdrawPayload (example_payload 10)) = Inr (example_payload 10)"
  by (rule decode_encode) (simp_all add: example_payload_def payload_wf_def)

lemma example_hashed:
  "hashPoolWithdrawPayloadHex example_lib (example_payload 10) = Inr (projr (hashPoolWithdrawPayloadHex example_lib (example_payload 10)))"
  by (simp add: hashPoolWithdrawPayloadHex_def hashPoolWithdrawPayload_def example_payload_def example_lib_def
      poolWithdrawPayloadPreimage_def i128ToBytes_def Let_def)

lemmas example_simps = example_opened example_decoded example_hashed

text \<open>Running the acceptance phase on the example, whatever submission does.\<close>

lemma example_accepts:
  "accept_phase (example_cfg submit) example_msg (e, w) =
     commit_acceptance (example_cfg submit) (enc_jobId example_msg) (example_payload 10) example_job (e, w)"
proof -
  have "hashPoolWithdrawPayloadHex example_lib (example_payload 10) = Inr (job_payloadHash example_job)"
    using example_hashed by (simp add: example_job_def)
  moreover have "job_exists example_job" "job_status example_job = JOpen" "job_deadline example_job = 500"
    by (simp_all add: example_job_def)
  ultimately show ?thesis
    by (simp add: accept_phase_def example_cfg_def example_msg_def job_chain_def example_opened example_decoded run_simps
        hasDeadlineHeadroom_def)
qed


lemmas engine_run_simps = run_simps eng_def bump_def engine_now_def date_now_def with_queue_def with_ledger_def

lemma example_commits:
  assumes "e_queue e = Some new_queue"
  shows "\<exists>e' w'. commit_acceptance (example_cfg submit) j p job (e, w) = (Inr (Some (''acc'', p, job)), (e', w'))"
  using assms
  by (simp add: commit_acceptance_def accept_or_reconcile_def example_cfg_def job_chain_def engine_run_simps
      q_enqueue_def q_markAccepted_def q_persist_def on_queue_def MemoryStore_def set_entry_def q_get_def new_queue_def
      intent_def default_phase_def)

lemma memory_resolve: "\<exists>e' w'. with_queue (q_resolve (Some MemoryStore) j) (e, w) = (Inr (), (e', w'))"
  by (simp add: with_queue_def q_resolve_def q_persist_def on_queue_def MemoryStore_def run_simps split: option.split)

lemma storeless_record:
  assumes "cfg_ledgerStore cfg = None"
  shows "\<exists>e' w'. record_submitted cfg j a b (Inr f) (e, w) = (Inr (), (e', w'))"
  using assms by (simp add: record_submitted_def l_record_def on_ledger_def l_persist_def engine_run_simps
     split: option.split prod.split)

lemma example_submits:
  "\<exists>e' w'. submit_phase (example_cfg (\<lambda>j. ret ''sub'')) msg ''acc'' p example_job (e, w) = (Inr (Some (''acc'', ''sub'')), (e', w'))"
proof -
  let ?c = "example_cfg (\<lambda>j. ret ''sub'')"
  let ?st = "\<lambda>e. e\<lparr> e_stats := (e_stats e)\<lparr> es_accepted := es_accepted (e_stats e) + 1, es_submitted := es_submitted (e_stats e) + 1 \<rparr> \<rparr>"
  have submit: "submitWithRetry ?c j p d (e, w) = (Inr ''sub'', (e, w))" for j d e w
    by (simp add: submitWithRetry_def submit_attempt_def has_status_def example_cfg_def job_chain_def example_job_def run_simps)
  have example_store: "cfg_ledgerStore ?c = None" by (simp add: example_cfg_def)
  obtain e1 w1 where r: "with_queue (q_resolve (cfg_jobStore ?c) (enc_jobId msg)) (?st e, w) = (Inr (), (e1, w1))"
    using memory_resolve [of "enc_jobId msg" "?st e" w] by (auto simp: example_cfg_def)
  obtain e2 w2 where l: "record_submitted ?c (enc_jobId msg) ''acc'' ''sub'' (Inr (job_fee example_job)) (e1, w1) = (Inr (), (e2, w2))"
    using storeless_record [of ?c, OF example_store] by blast
  have n: "notifySettled ?c j res s = (Inr (), s)" for j res s by (simp add: notifySettled_def example_cfg_def)
  have k: "\<exists>e' w'. remember_result ?c key res (e, w) = (Inr (), (e', w'))" for key res e w
    by (simp add: remember_result_def engine_run_simps split: prod.split)
  obtain e3 w3 where k': "remember_result ?c (enc_idempotencyKey msg) (''acc'', ''sub'') (e2, w2) = (Inr (), (e3, w3))"
    using k by blast
  have "submit_phase ?c msg ''acc'' p example_job (e, w) = (Inr (Some (''acc'', ''sub'')), (e3, w3))"
    using r l k' by (simp add: submit_phase_def bump_def eng_def bnd_def upd_def submit n)
  then show ?thesis by blast
qed

lemma example_processed:
  "\<exists>e' w'. processPayload (example_cfg (\<lambda>j. ret ''sub'')) example_msg (example_engine, None) = (Inr (Some (''acc'', ''sub'')), (e', w'))"
proof -
  let ?c = "example_cfg (\<lambda>j. ret ''sub'')"
  let ?e = "example_engine\<lparr> e_pendingJobs := [(to_lower (enc_jobId example_msg), 7)] \<rparr>"
  have q: "e_queue ?e = Some new_queue" by (simp add: example_engine_def new_engine_def)
  obtain e1 w1 where c: "accept_phase ?c example_msg (?e, None) = (Inr (Some (''acc'', example_payload 10, example_job)), (e1, w1))"
    using example_commits [of ?e] q unfolding example_accepts by blast
  obtain e2 w2 where s: "submit_phase ?c example_msg ''acc'' (example_payload 10) example_job (e1, w1) = (Inr (Some (''acc'', ''sub'')), (e2, w2))"
    using example_submits by blast
  have "e_pendingJobs example_engine = []" by (simp add: example_engine_def new_engine_def)
  moreover have "rt_now (cfg_runtime ?c) None = (7, None)" by (simp add: example_cfg_def)
  ultimately show ?thesis
    using c s by (simp add: processPayload_def settle_phase_def engine_now_def date_now_def eng_def run_simps)
qed


text \<open>The same delivery when every submission throws.\<close>

lemma example_fails:
  "\<exists>e' w'. processPayload (example_cfg (\<lambda>j. throw (Error ''boom''))) example_msg (example_engine, None) = (Inl (Error ''boom''), (e', w'))
     \<and> es_accepted (e_stats e') = 1 \<and> es_submitted (e_stats e') = 0"
proof -
  let ?c = "example_cfg (\<lambda>j. throw (Error ''boom''))"
  let ?e = "example_engine\<lparr> e_pendingJobs := [(to_lower (enc_jobId example_msg), 7)] \<rparr>"
  have q: "e_queue ?e = Some new_queue" by (simp add: example_engine_def new_engine_def)
  obtain e1 w1 where c: "accept_phase ?c example_msg (?e, None) = (Inr (Some (''acc'', example_payload 10, example_job)), (e1, w1))"
    using example_commits [of ?e] q unfolding example_accepts by blast
  have counts: "es_accepted (e_stats e1) = 0" "es_submitted (e_stats e1) = 0"
    using wp_InrD [OF accept_phase_wp c] by (simp_all add: example_engine_def new_engine_def new_stats_def)
  let ?e2 = "e1\<lparr> e_stats := (e_stats e1)\<lparr> es_accepted := es_accepted (e_stats e1) + 1 \<rparr> \<rparr>"
  have "\<exists>e' w'. with_queue (q_recordFailure (Some MemoryStore) j m) (e, w) = (Inr (), (e', w')) \<and> e_stats e' = e_stats e" for j m e w
    by (auto simp: with_queue_def q_recordFailure_def q_persist_def on_queue_def MemoryStore_def run_simps split: option.split)
  then obtain e3 w3 where f: "with_queue (q_recordFailure (Some MemoryStore) (enc_jobId example_msg) ''boom'') (?e2, w1) = (Inr (), (e3, w3))"
    "e_stats e3 = e_stats ?e2" by blast
  have "submit_phase ?c example_msg ''acc'' (example_payload 10) example_job (e1, w1) = (Inl (Error ''boom''), (e3, w3))"
    using f(1)
    by (simp add: submit_phase_def submitWithRetry_def submit_attempt_def has_status_def example_cfg_def job_chain_def
        example_job_def bump_def eng_def run_simps getJob_or_null_def after_failure_def)
  moreover have "e_pendingJobs example_engine = []" by (simp add: example_engine_def new_engine_def)
  moreover have "rt_now (cfg_runtime ?c) None = (7, None)" "cfg_onSettled ?c = None" by (simp_all add: example_cfg_def)
  ultimately show ?thesis
    using c f(2) counts
    by (simp add: processPayload_def settle_phase_def engine_now_def date_now_def eng_def bump_def note_rejected_def
        notifySettled_def run_simps)
qed


section \<open>Properties\<close>

text \<open>
  C18: the engine bids on an advert only when the chain said, in that run, that its operator is
  registered under its own encryption key, that the job exists and is open with a fee of at
  least the minimum and covered by the operator's free stake, that the deadline is at least the
  safety margin of ledgers ahead, and that the advert repeats the on-chain fee, deadline and
  payload hash; and the bid it returns verifies under the operator's key.
\<close>

theorem bid_only_on_sound_jobs:
  assumes "handleAdvert cfg raw (e, w) = (Inr (Some bid), (e', w'))" and "signs (cfg_lib cfg) (cfg_operator cfg)"
  shows "\<exists>advert. validateAdvert raw = Inr advert \<and> bid_grounds cfg advert w bid \<and> verifyBid (cfg_lib cfg) bid"
proof -
  from assms obtain advert where adv: "validateAdvert raw = Inr advert"
    by (auto simp: handleAdvert_def run_simps split: sum.splits prod.splits)
  have "wp (handleAdvert cfg raw) (\<lambda>r _. \<forall>bid. r = Some bid \<longrightarrow> bid_grounds cfg advert w bid) (\<lambda>_ _. True) (e, w)"
    using decide_bid_grounds [of cfg advert "(e\<lparr> e_stats := (e_stats e)\<lparr> es_jobsSeen := es_jobsSeen (e_stats e) + 1 \<rparr> \<rparr>, w)"]
    by (auto simp: handleAdvert_def adv note_rejected_def elim!: wp_mono)
  from wp_InrD [OF this assms(1)] have g: "bid_grounds cfg advert w bid" by simp
  have chain: "adv_chain advert \<noteq> JUndef" "adv_chain advert \<noteq> JNull" using validateAdvert_Inr [OF adv] by auto
  from g obtain stake where "makeBid (cfg_lib cfg) advert (cfg_operator cfg) (cfg_x25519PublicKey cfg) (cfg_endpoint cfg) (Some stake) = Inr bid"
    unfolding bid_grounds_def by blast
  from verifyBid_makeBid [OF assms(2) chain this] adv g show ?thesis by blast
qed

definition bidding_advert :: JobAdvert where
  "bidding_advert = \<lparr> adv_jobId = bytesToHex (replicate 32 9), adv_chain = JNum 3000, adv_fee = dec_of_int 100, adv_deadline = 500,
     adv_payloadHash = bytesToHex (replicate 32 7) \<rparr>"

definition bidding_cfg :: "AcceptedJobEntry list option RelayerEngineConfig" where
  "bidding_cfg = (example_cfg (\<lambda>j. ret ''sub''))\<lparr> cfg_chain := (job_chain (\<lambda>j. ret ''sub''))\<lparr> getJob :=
     (\<lambda>j. ret (Some (example_job\<lparr> job_payloadHash := bytesToHex (replicate 32 7) \<rparr>))) \<rparr> \<rparr>"

theorem bid_only_on_sound_jobs_witness:
  "\<exists>bid e' w'. handleAdvert bidding_cfg (advert_json bidding_advert) (example_engine, None) = (Inr (Some bid), (e', w'))
     \<and> verifyBid example_lib bid"
proof -
  have adv: "validateAdvert (advert_json bidding_advert) = Inr bidding_advert"
    by (rule validateAdvert_json [where j = "replicate 32 9" and h = "replicate 32 7"]) (simp_all add: bidding_advert_def)
  have "\<exists>bid. makeBid example_lib bidding_advert example_keypair (replicate 32 3) None (Some 1000) = Inr bid"
    by (simp add: makeBid_def bidding_advert_def bidSigningDigest_def bidPreimage_def)
  then obtain bid where mk: "makeBid example_lib bidding_advert example_keypair (replicate 32 3) None (Some 1000) = Inr bid" ..
  have fields: "adv_fee bidding_advert = dec_of_int 100" "adv_deadline bidding_advert = 500"
    "adv_payloadHash bidding_advert = bytesToHex (replicate 32 7)" by (simp_all add: bidding_advert_def)
  have lib: "cfg_lib bidding_cfg = example_lib" "cfg_operator bidding_cfg = example_keypair"
    by (simp_all add: bidding_cfg_def example_cfg_def)
  have "\<exists>e' w'. handleAdvert bidding_cfg (advert_json bidding_advert) (example_engine, None) = (Inr (Some bid), (e', w'))"
    using mk fields
    by (simp add: handleAdvert_def adv decide_bid_def bidding_cfg_def example_cfg_def job_chain_def engine_run_simps
        example_job_def advert_matches_def rememberBid_def Let_def bidsFor_def example_engine_def new_engine_def)
  then obtain e' w' where run: "handleAdvert bidding_cfg (advert_json bidding_advert) (example_engine, None) = (Inr (Some bid), (e', w'))"
    by blast
  from bid_only_on_sound_jobs [OF run] run show ?thesis by (auto simp: lib example_signs)
qed

text \<open>
  C20: when a payload delivery returns the two transactions, the payload opened from the box has
  the hash the open on-chain job committed to, the job is no longer in the accepted-jobs
  queue, the ledger has it with the on-chain fee and both transactions, the result is
  remembered for the idempotency key, and the job is no longer pending.
\<close>

theorem delivery_success_settles_job:
  assumes "processPayload cfg msg (e, w) = (Inr (Some r), (e', w'))"
  shows "delivered cfg msg r e' \<and> map_of (e_pendingJobs e') (to_lower (enc_jobId msg)) = None"
  using wp_InrD [OF processPayload_wp assms] by simp

theorem delivery_success_settles_job_witness:
  "\<exists>e' w'. processPayload (example_cfg (\<lambda>j. ret ''sub'')) example_msg (example_engine, None) = (Inr (Some (''acc'', ''sub'')), (e', w'))
     \<and> delivered (example_cfg (\<lambda>j. ret ''sub'')) example_msg (''acc'', ''sub'') e'"
proof -
  obtain e' w' where run: "processPayload (example_cfg (\<lambda>j. ret ''sub'')) example_msg (example_engine, None) = (Inr (Some (''acc'', ''sub'')), (e', w'))"
    using example_processed by blast
  from delivery_success_settles_job [OF run] run show ?thesis by auto
qed




text \<open>
  A payload delivered again under an idempotency key whose result is stored and has not
  expired is answered with that result and touches nothing: no chain call, no queue or
  ledger change; the world only sees the clock being read.
\<close>

lemma replay_returns_stored_result:
  assumes "validatePayload raw = Inr msg"
    and "to_lower (enc_to msg) = to_lower (bytesToHex (cfg_x25519PublicKey cfg))"
    and "truthy (enc_idempotencyKey msg)" "primitive_key (enc_idempotencyKey msg)"
    and "map_of (e_idempotencyStore e) (enc_idempotencyKey msg) = Some entry"
    and "rt_now (cfg_runtime cfg) w = (now, w')" "now < ie_expiresAt entry"
  shows "handlePayload cfg raw (e, w) = (Inr (Settled (Some (ie_result entry))),
     (e\<lparr> e_stats := (e_stats e)\<lparr> es_payloadsSeen := es_payloadsSeen (e_stats e) + 1 \<rparr> \<rparr>, w'))"
  using assms by (simp add: handlePayload_def begin_payload_def Let_def engine_run_simps)

definition example_raw :: jv where
  "example_raw = JObj [(''t'', JStr ''payload''), (''v'', JNum 1), (''jobId'', JStr (enc_jobId example_msg)),
     (''to'', JStr (enc_to example_msg)), (''box'', JStr (enc_box example_msg)), (''idempotencyKey'', JStr ''k1'')]"

lemma example_valid: "validatePayload example_raw = Inr example_msg"
  by (simp add: validatePayload_def example_raw_def example_msg_def)

lemma replay_returns_stored_result_witness:
  "fst (handlePayload (example_cfg (\<lambda>j. throw (Error ''down''))) example_raw
     (example_engine\<lparr> e_idempotencyStore := [(JStr ''k1'', \<lparr> ie_result = (''a'', ''s''), ie_expiresAt = 8 \<rparr>)] \<rparr>, None))
   = Inr (Settled (Some (''a'', ''s'')))"
proof -
  have "handlePayload (example_cfg (\<lambda>j. throw (Error ''down''))) example_raw
     (example_engine\<lparr> e_idempotencyStore := [(JStr ''k1'', \<lparr> ie_result = (''a'', ''s''), ie_expiresAt = 8 \<rparr>)] \<rparr>, None) =
    (Inr (Settled (Some (ie_result \<lparr> ie_result = (''a'', ''s''), ie_expiresAt = 8 \<rparr>))),
     ((example_engine\<lparr> e_idempotencyStore := [(JStr ''k1'', \<lparr> ie_result = (''a'', ''s''), ie_expiresAt = 8 \<rparr>)] \<rparr>)\<lparr> e_stats :=
        (e_stats (example_engine\<lparr> e_idempotencyStore := [(JStr ''k1'', \<lparr> ie_result = (''a'', ''s''), ie_expiresAt = 8 \<rparr>)] \<rparr>))\<lparr> es_payloadsSeen :=
          es_payloadsSeen (e_stats (example_engine\<lparr> e_idempotencyStore := [(JStr ''k1'', \<lparr> ie_result = (''a'', ''s''), ie_expiresAt = 8 \<rparr>)] \<rparr>)) + 1 \<rparr> \<rparr>, None))"
    by (rule replay_returns_stored_result [OF example_valid, where now = 7])
       (simp_all add: example_msg_def example_cfg_def truthy_def primitive_key_def)
  then show ?thesis by simp
qed

text \<open>
  Pruning removes exactly what has expired: of each job's bids it keeps those younger than
  the bid lifetime, in order, and drops the job when none is left; of the idempotency results it
  keeps exactly those that have not expired; the invariant of the bid cache is kept.
\<close>

lemma prune_removes_exactly_expired:
  assumes "bids_inv e" "distinct_keys (e_idempotencyStore e)"
  shows "bids_inv (engine_prune cfg now e)
    \<and> (\<forall>j. bidsFor j (engine_prune cfg now e) = filter (\<lambda>b. of_int (now - snd b) < cfg_bidExpiryMs cfg) (bidsFor j e))
    \<and> (\<forall>k. map_of (e_idempotencyStore (engine_prune cfg now e)) k =
         (case map_of (e_idempotencyStore e) k of Some x \<Rightarrow> if now < ie_expiresAt x then Some x else None | None \<Rightarrow> None))"
proof (intro conjI allI)
  have d: "distinct_keys (e_bids e)" using assms(1) by (simp add: bids_inv_def)
  show "bids_inv (engine_prune cfg now e)"
    using assms(1)
    by (auto simp: bids_inv_def engine_prune_def distinct_prune_lists map_of_prune_lists [OF d] distinct_map_filter
        split: option.splits if_splits)
  show "bidsFor j (engine_prune cfg now e) = filter (\<lambda>b. of_int (now - snd b) < cfg_bidExpiryMs cfg) (bidsFor j e)" for j
    by (auto simp: bidsFor_def engine_prune_def map_of_prune_lists [OF d] split: option.splits)
  show "map_of (e_idempotencyStore (engine_prune cfg now e)) k =
      (case map_of (e_idempotencyStore e) k of Some x \<Rightarrow> if now < ie_expiresAt x then Some x else None | None \<Rightarrow> None)" for k
    by (auto simp: engine_prune_def map_of_prune_entries [OF assms(2)] split: option.splits)
qed

lemma prune_removes_exactly_expired_witness:
  "map_of (e_idempotencyStore (engine_prune (example_cfg (\<lambda>j. ret ''sub'')) 9
     (example_engine\<lparr> e_idempotencyStore := [(JStr ''k1'', \<lparr> ie_result = (''a'', ''s''), ie_expiresAt = 8 \<rparr>)] \<rparr>))) (JStr ''k1'') = None"
proof -
  let ?e = "example_engine\<lparr> e_idempotencyStore := [(JStr ''k1'', \<lparr> ie_result = (''a'', ''s''), ie_expiresAt = 8 \<rparr>)] \<rparr>"
  have "bids_inv ?e" "distinct_keys (e_idempotencyStore ?e)"
    by (simp_all add: bids_inv_def example_engine_def new_engine_def)
  from prune_removes_exactly_expired [OF this, of "example_cfg (\<lambda>j. ret ''sub'')" 9] show ?thesis by simp
qed

end
