(* ===== verification/Relayer_Engine_Trace.thy ===== *)
theory Relayer_Engine_Trace
  imports Relayer_Engine_Props
begin

text \<open>
  The order of the engine's outside effects. The world is extended by a log: successful saves
  of the accepted-jobs store, calls of \<open>accept_job\<close> and calls of
  \<open>submit_pool_withdraw\<close> are recorded in the order they happen, whatever the chain and
  the store answer. The theorems say that the intent to take a job is durable before it is
  accepted, that the acceptance is durable before it is submitted, and how many submissions
  a delivery can send.
\<close>

datatype event =
    EvSave "AcceptedJobEntry list"
  | EvAccept string
  | EvSubmit string

section \<open>The logged configuration\<close>

definition quiet :: "('w, 'a) prog \<Rightarrow> ('w \<times> event list, 'a) prog" where
  "quiet m s = (case m (fst s) of (r, w) \<Rightarrow> (r, (w, snd s)))"

definition logged :: "event \<Rightarrow> ('w, 'a) prog \<Rightarrow> ('w \<times> event list, 'a) prog" where
  "logged ev m s = (case m (fst s) of (r, w) \<Rightarrow> (r, (w, snd s @ [ev])))"

definition logged_ok :: "event \<Rightarrow> ('w, unit) prog \<Rightarrow> ('w \<times> event list, unit) prog" where
  "logged_ok ev m s = (case m (fst s) of (r, w) \<Rightarrow> (r, (w, case r of Inr _ \<Rightarrow> snd s @ [ev] | Inl _ \<Rightarrow> snd s)))"

definition traced_chain :: "'w RelayerChainAdapter \<Rightarrow> ('w \<times> event list) RelayerChainAdapter" where
  "traced_chain c = \<lparr> getJob = (\<lambda>j. quiet (getJob c j)), getRelayer = (\<lambda>op. quiet (getRelayer c op)),
     latestLedger = quiet (latestLedger c), simulatePoolWithdraw = (\<lambda>p. quiet (simulatePoolWithdraw c p)),
     acceptJob = (\<lambda>j. logged (EvAccept j) (acceptJob c j)),
     submitPoolWithdraw = (\<lambda>j p. logged (EvSubmit j) (submitPoolWithdraw c j p)) \<rparr>"

definition traced_runtime :: "'w js_runtime \<Rightarrow> ('w \<times> event list) js_runtime" where
  "traced_runtime R = \<lparr> rt_now = (\<lambda>s. (fst (rt_now R (fst s)), (snd (rt_now R (fst s)), snd s))),
     rt_random = (\<lambda>s. (fst (rt_random R (fst s)), (snd (rt_random R (fst s)), snd s))),
     rt_sleep = (\<lambda>ms s. (rt_sleep R ms (fst s), snd s)) \<rparr>"

definition traced_jobs :: "'w job_store \<Rightarrow> ('w \<times> event list) job_store" where
  "traced_jobs S = \<lparr> st_load = quiet (st_load S), st_save = (\<lambda>es. logged_ok (EvSave es) (st_save S es)),
     st_clear = quiet (st_clear S) \<rparr>"

definition traced_ledger :: "'w ledger_store \<Rightarrow> ('w \<times> event list) ledger_store" where
  "traced_ledger S = \<lparr> st_load = quiet (st_load S), st_save = (\<lambda>es. quiet (st_save S es)), st_clear = quiet (st_clear S) \<rparr>"

definition traced :: "'w RelayerEngineConfig \<Rightarrow> ('w \<times> event list) RelayerEngineConfig" where
  "traced c = \<lparr> cfg_operator = cfg_operator c, cfg_x25519PublicKey = cfg_x25519PublicKey c,
     cfg_x25519SecretKey = cfg_x25519SecretKey c, cfg_endpoint = cfg_endpoint c, cfg_minFee = cfg_minFee c,
     cfg_chain = traced_chain (cfg_chain c), cfg_margin = cfg_margin c, cfg_retry = cfg_retry c,
     cfg_bidExpiryMs = cfg_bidExpiryMs c,
     cfg_onSettled = map_option (\<lambda>hook j r. quiet (hook j r)) (cfg_onSettled c),
     cfg_jobStore = map_option traced_jobs (cfg_jobStore c),
     cfg_ledgerStore = map_option traced_ledger (cfg_ledgerStore c),
     cfg_runtime = traced_runtime (cfg_runtime c), cfg_lib = cfg_lib c, cfg_nacl = cfg_nacl c \<rparr>"

text \<open>
  The order itself, over the entries saved last: an acceptance needs an intent for its job among
  them, a submission an entry in phase accepted.
\<close>

definition has_intent :: "string \<Rightarrow> AcceptedJobEntry list \<Rightarrow> bool" where
  "has_intent j es \<longleftrightarrow> (\<exists>e \<in> set es. to_lower (aj_jobId e) = to_lower j)"

definition has_accepted :: "string \<Rightarrow> AcceptedJobEntry list \<Rightarrow> bool" where
  "has_accepted j es \<longleftrightarrow> (\<exists>e \<in> set es. to_lower (aj_jobId e) = to_lower j \<and> aj_phase e = Some Accepted)"

fun ordered :: "AcceptedJobEntry list \<Rightarrow> event list \<Rightarrow> bool" where
  "ordered saved [] = True"
| "ordered saved (EvSave es # l) = ordered es l"
| "ordered saved (EvAccept j # l) = (has_intent j saved \<and> ordered saved l)"
| "ordered saved (EvSubmit j # l) = (has_accepted j saved \<and> ordered saved l)"

fun last_saved :: "AcceptedJobEntry list \<Rightarrow> event list \<Rightarrow> AcceptedJobEntry list" where
  "last_saved saved [] = saved"
| "last_saved saved (EvSave es # l) = last_saved es l"
| "last_saved saved (ev # l) = last_saved saved l"

lemma last_saved_snoc [simp]:
  "last_saved saved (l @ [EvSave es]) = es"
  "last_saved saved (l @ [EvAccept j]) = last_saved saved l"
  "last_saved saved (l @ [EvSubmit j]) = last_saved saved l"
  by (induction saved l rule: last_saved.induct) auto

lemma ordered_snoc [simp]:
  "ordered saved (l @ [EvSave es]) = ordered saved l"
  "ordered saved (l @ [EvAccept j]) = (ordered saved l \<and> has_intent j (last_saved saved l))"
  "ordered saved (l @ [EvSubmit j]) = (ordered saved l \<and> has_accepted j (last_saved saved l))"
  by (induction saved l rule: last_saved.induct) auto


section \<open>Rules for logged calls\<close>

abbreviation log_of :: "'e \<times> 'w \<times> event list \<Rightarrow> event list" where
  "log_of s \<equiv> snd (snd s)"

lemma wp_quiet:
  assumes "\<And>x w. Q x (fst s, (w, log_of s))" "\<And>e w. E e (fst s, (w, log_of s))"
  shows "wp (on_snd (quiet m)) Q E s"
  using assms by (auto simp: wp_def on_snd_def quiet_def split: prod.splits sum.splits)

lemma wp_logged:
  assumes "\<And>x w. Q x (fst s, (w, log_of s @ [ev]))" "\<And>e w. E e (fst s, (w, log_of s @ [ev]))"
  shows "wp (on_snd (logged ev m)) Q E s"
  using assms by (auto simp: wp_def on_snd_def logged_def split: prod.splits sum.splits)

lemma traced_sel [simp]:
  "cfg_chain (traced c) = traced_chain (cfg_chain c)" "cfg_runtime (traced c) = traced_runtime (cfg_runtime c)"
  "cfg_jobStore (traced c) = map_option traced_jobs (cfg_jobStore c)"
  "cfg_ledgerStore (traced c) = map_option traced_ledger (cfg_ledgerStore c)"
  "cfg_retry (traced c) = cfg_retry c" "cfg_margin (traced c) = cfg_margin c" "cfg_operator (traced c) = cfg_operator c"
  "cfg_onSettled (traced c) = map_option (\<lambda>hook j r. quiet (hook j r)) (cfg_onSettled c)"
  by (simp_all add: traced_def)

lemma traced_chain_sel [simp]:
  "getJob (traced_chain c) j = quiet (getJob c j)" "latestLedger (traced_chain c) = quiet (latestLedger c)"
  "simulatePoolWithdraw (traced_chain c) p = quiet (simulatePoolWithdraw c p)"
  "acceptJob (traced_chain c) j = logged (EvAccept j) (acceptJob c j)"
  "submitPoolWithdraw (traced_chain c) j p = logged (EvSubmit j) (submitPoolWithdraw c j p)"
  by (simp_all add: traced_chain_def)

lemma traced_runtime_sel [simp]:
  "rt_now (traced_runtime R) s = (fst (rt_now R (fst s)), (snd (rt_now R (fst s)), snd s))"
  "rt_random (traced_runtime R) s = (fst (rt_random R (fst s)), (snd (rt_random R (fst s)), snd s))"
  "rt_sleep (traced_runtime R) ms s = (rt_sleep R ms (fst s), snd s)"
  by (simp_all add: traced_runtime_def)

lemma wp_traced_getJob:
  "(\<And>r w. Q r (fst s, (w, log_of s))) \<Longrightarrow> wp (getJob_or_null (traced c) j) Q E s"
  by (auto simp: getJob_or_null_def intro!: wp_quiet)

lemma wp_traced_headroom:
  "(\<And>b w. Q b (fst s, (w, log_of s))) \<Longrightarrow> wp (hasDeadlineHeadroom (traced c) d) Q E s"
  by (auto simp: hasDeadlineHeadroom_def intro!: wp_quiet)

lemma wp_traced_accept:
  assumes "\<And>r w. Q r (fst s, (w, log_of s @ [EvAccept j]))" "\<And>e w. E e (fst s, (w, log_of s @ [EvAccept j]))"
  shows "wp (accept_or_reconcile (traced c) j) Q E s"
  using assms
  by (auto simp: accept_or_reconcile_def reconcileAcceptance_def intro!: wp_logged wp_traced_getJob split: option.split list.split)

lemma wp_traced_notify:
  assumes "\<And>w. Q () (fst s, (w, log_of s))"
    "\<And>w m. Q () ((fst s)\<lparr> e_stats := (e_stats (fst s))\<lparr> es_lastError := m \<rparr> \<rparr>, (w, log_of s))"
  shows "wp (notifySettled (traced c) j r) Q E s"
  using assms(1) [of "fst (snd s)"] assms by (auto simp: notifySettled_def split: option.split intro!: wp_quiet)

text \<open>A save is logged with the queue's pending list when it succeeds.\<close>

lemma wp_traced_persist:
  assumes "\<And>w. Q () (fst s, (w, log_of s @ [EvSave (q_pending (fst s))]))" "\<And>e w. E e (fst s, (w, log_of s))"
  shows "wp (q_persist (Some (traced_jobs S))) Q E s"
  using assms
  by (auto simp: q_persist_def traced_jobs_def logged_ok_def wp_def on_snd_def bnd_def gets_def split: prod.splits sum.splits)


section \<open>The order of effects\<close>

lemma in_pending: "q_get j q = Some x \<Longrightarrow> x \<in> set (q_pending q)"
  by (auto simp: q_get_def q_pending_def dest!: map_of_SomeD) force

definition queued :: "string \<Rightarrow> (AcceptedJobEntry \<Rightarrow> bool) \<Rightarrow> RelayerEngine \<Rightarrow> bool" where
  "queued j P e \<longleftrightarrow> (\<exists>q x. e_queue e = Some q \<and> q_get j q = Some x \<and> to_lower (aj_jobId x) = to_lower j \<and> P x)"

lemma queued_other [simp]: "queued j P (e\<lparr> e_stats := x \<rparr>) = queued j P e"
  by (simp add: queued_def)

lemma queued_saved:
  "q_get j q = Some x \<Longrightarrow> to_lower (aj_jobId x) = to_lower j \<Longrightarrow> has_intent j (q_pending q)"
  "q_get j q = Some x \<Longrightarrow> to_lower (aj_jobId x) = to_lower j \<Longrightarrow> aj_phase x = Some Accepted \<Longrightarrow> has_accepted j (q_pending q)"
  by (auto simp: has_intent_def has_accepted_def dest: in_pending)

lemma traced_enqueue:
  assumes "e_queue (fst s) = Some q0" "ordered sv (log_of s)"
  shows "wp (with_queue (bnd (on_snd (date_now (traced_runtime R))) (\<lambda>now. q_enqueue (Some (traced_jobs S)) (intent j p job now))))
     (\<lambda>_ s'. ordered sv (log_of s') \<and> has_intent j (last_saved sv (log_of s')) \<and> queued j (\<lambda>_. True) (fst s'))
     (\<lambda>_ s'. ordered sv (log_of s')) s"
  using assms
  by (auto simp: q_enqueue_def on_queue_def set_entry_def intent_def queued_def q_get_def
      intro!: wp_traced_persist queued_saved(1))

lemma traced_markAccepted:
  assumes "ordered sv (log_of s)" "queued j (\<lambda>_. True) (fst s)"
  shows "wp (with_queue (q_markAccepted (Some (traced_jobs S)) j tx))
     (\<lambda>_ s'. ordered sv (log_of s') \<and> has_accepted j (last_saved sv (log_of s')) \<and> queued j (\<lambda>x. aj_phase x = Some Accepted) (fst s'))
     (\<lambda>_ s'. ordered sv (log_of s')) s"
proof -
  from assms(2) obtain q x where "e_queue (fst s) = Some q" "q_get j q = Some x" "to_lower (aj_jobId x) = to_lower j"
    by (auto simp: queued_def)
  with assms(1) show ?thesis
    by (auto simp: q_markAccepted_def on_queue_def queued_def q_get_def intro!: wp_traced_persist queued_saved(2))
qed

text \<open>What holds while a job is being submitted.\<close>

definition submittable :: "AcceptedJobEntry list \<Rightarrow> string \<Rightarrow> RelayerEngine \<times> 'w \<times> event list \<Rightarrow> bool" where
  "submittable sv j s \<longleftrightarrow> ordered sv (log_of s) \<and> has_accepted j (last_saved sv (log_of s))
     \<and> queued j (\<lambda>x. aj_phase x = Some Accepted) (fst s)"

lemma traced_recordFailure:
  assumes "submittable sv j s"
  shows "wp (with_queue (q_recordFailure (Some (traced_jobs S)) j m)) (\<lambda>_ s'. submittable sv j s') (\<lambda>_ s'. ordered sv (log_of s')) s"
proof -
  from assms obtain q x where "e_queue (fst s) = Some q" "q_get j q = Some x" "to_lower (aj_jobId x) = to_lower j"
    "aj_phase x = Some Accepted" by (auto simp: submittable_def queued_def)
  with assms show ?thesis
    by (auto simp: submittable_def q_recordFailure_def on_queue_def queued_def q_get_def intro!: wp_traced_persist queued_saved(2))
qed

lemma traced_attempt:
  assumes "submittable sv j s"
  shows "wp (submit_attempt (traced c) j payload) (\<lambda>_ s'. submittable sv j s') (\<lambda>_ s'. submittable sv j s') s"
  unfolding submit_attempt_def using assms
  by (auto simp: submittable_def intro!: wp_quiet wp_logged)

lemma traced_after_failure:
  assumes "cfg_jobStore c = Some S" "submittable sv j s"
    and again: "\<And>s. submittable sv j s \<Longrightarrow> wp again (\<lambda>_ s'. submittable sv j s') (\<lambda>_ s'. ordered sv (log_of s')) s"
  shows "wp (after_failure (traced c) j d n k err again) (\<lambda>_ s'. submittable sv j s') (\<lambda>_ s'. ordered sv (log_of s')) s"
  unfolding after_failure_def traced_sel assms(1) option.map
  by (rule wp_bndI [OF traced_recordFailure [OF assms(2)]],
      rule wp_bndI [OF wp_traced_getJob [where Q = "\<lambda>_ s. submittable sv j s"]])
     (use again [unfolded submittable_def] in \<open>auto simp: submittable_def intro!: wp_traced_headroom\<close>)

lemma traced_submit_loop:
  assumes "cfg_jobStore c = Some S" "submittable sv j s"
  shows "wp (submit_loop (traced c) j payload d n k err) (\<lambda>_ s'. submittable sv j s') (\<lambda>_ s'. ordered sv (log_of s')) s"
  using assms(2)
proof (induction n arbitrary: k err s)
  case (Suc n)
  show ?case
    unfolding submit_loop.simps
    by (rule wp_catchI [OF traced_attempt [OF Suc.prems]], rule traced_after_failure [OF assms(1) _ Suc.IH])
qed (simp add: submittable_def)

lemma traced_record:
  assumes "ordered sv (log_of s)"
  shows "wp (record_submitted (traced c) j a b fee) (\<lambda>_ s'. ordered sv (log_of s')) (\<lambda>_ s'. ordered sv (log_of s')) s"
proof -
  have "wp (l_persist (map_option traced_ledger st)) (\<lambda>_ p. ordered sv (log_of p)) (\<lambda>_ p. ordered sv (log_of p)) p"
    if "ordered sv (log_of p)" for st and p :: "JobLedger \<times> 'a \<times> event list"
    using that by (auto simp: l_persist_def traced_ledger_def split: option.split intro!: wp_quiet)
  then show ?thesis
    using assms by (auto simp: record_submitted_def l_record_def on_ledger_def split: option.split sum.split)
qed

lemma traced_resolve:
  assumes "ordered sv (log_of s)"
  shows "wp (with_queue (q_resolve (Some (traced_jobs S)) j)) (\<lambda>_ s'. ordered sv (log_of s')) (\<lambda>_ s'. ordered sv (log_of s')) s"
  using assms by (auto simp: q_resolve_def on_queue_def split: option.split intro!: wp_traced_persist)

lemma traced_remember:
  "ordered sv (log_of s) \<Longrightarrow> wp (remember_result (traced c) key r) (\<lambda>_ s'. ordered sv (log_of s')) E s"
  by (simp add: remember_result_def)

lemma traced_submit_phase:
  fixes c :: "'w RelayerEngineConfig"
  assumes "cfg_jobStore c = Some S" "submittable sv (enc_jobId msg) s"
  shows "wp (submit_phase (traced c) msg accTx payload job) (\<lambda>_ s'. ordered sv (log_of s')) (\<lambda>_ s'. ordered sv (log_of s')) s"
  unfolding submit_phase_def submitWithRetry_def traced_sel assms(1) option.map
proof (intro wp_bndI)
  let ?O = "\<lambda>_ s'. ordered sv (log_of s')"
  show "wp (bump (\<lambda>st. st\<lparr> es_accepted := es_accepted st + 1 \<rparr>)) (\<lambda>_ s'. submittable sv (enc_jobId msg) s') ?O s"
    using assms(2) by (simp add: submittable_def)
  fix x1 and s1 :: "RelayerEngine \<times> 'w \<times> event list"
  assume "submittable sv (enc_jobId msg) s1"
  then show "wp (submit_loop (traced c) (enc_jobId msg) payload (job_deadline job) (maxAttempts (cfg_retry c)) 1 (Error ''undefined'')) ?O ?O s1"
    by (rule wp_mono [OF traced_submit_loop [OF assms(1)]]) (simp_all add: submittable_def)
  fix tx and s2 :: "RelayerEngine \<times> 'w \<times> event list"
  assume "?O tx s2"
  then show "wp (bump (\<lambda>st. st\<lparr> es_submitted := es_submitted st + 1 \<rparr>)) ?O ?O s2" by simp
  fix x3 and s3 :: "RelayerEngine \<times> 'w \<times> event list"
  assume "?O x3 s3"
  then show "wp (with_queue (q_resolve (Some (traced_jobs S)) (enc_jobId msg))) ?O ?O s3" by (rule traced_resolve)
  fix x4 and s4 :: "RelayerEngine \<times> 'w \<times> event list"
  assume "?O x4 s4"
  then show "wp (record_submitted (traced c) (enc_jobId msg) accTx tx (Inr (job_fee job))) ?O ?O s4" by (rule traced_record)
  fix x5 and s5 :: "RelayerEngine \<times> 'w \<times> event list"
  assume "?O x5 s5"
  then show "wp (notifySettled (traced c) (enc_jobId msg) Completed) ?O ?O s5" by (intro wp_traced_notify) simp_all
  fix x6 and s6 :: "RelayerEngine \<times> 'w \<times> event list"
  assume "?O x6 s6"
  then show "wp (remember_result (traced c) (enc_idempotencyKey msg) (accTx, tx)) ?O ?O s6" by (rule traced_remember)
qed simp

lemma traced_commit:
  fixes c :: "'w RelayerEngineConfig"
  assumes "cfg_jobStore c = Some S" "e_queue (fst s) = Some q" "ordered sv (log_of s)"
  shows "wp (commit_acceptance (traced c) j p job) (\<lambda>r s'. r \<noteq> None \<and> submittable sv j s') (\<lambda>_ s'. ordered sv (log_of s')) s"
  unfolding commit_acceptance_def traced_sel assms(1) option.map
proof (intro wp_bndI)
  let ?O = "\<lambda>_ s'. ordered sv (log_of s')"
  let ?I = "\<lambda>_ s'. ordered sv (log_of s') \<and> has_intent j (last_saved sv (log_of s')) \<and> queued j (\<lambda>_. True) (fst s')"
  show "wp (on_snd (simulatePoolWithdraw (traced_chain (cfg_chain c)) p)) (\<lambda>_ s'. fst s' = fst s \<and> log_of s' = log_of s) ?O s"
    using assms(3) by (auto intro!: wp_quiet)
  fix x1 and s1 :: "RelayerEngine \<times> 'w \<times> event list"
  assume "fst s1 = fst s \<and> log_of s1 = log_of s"
  then show "wp (with_queue (bnd (on_snd (date_now (traced_runtime (cfg_runtime c)))) (\<lambda>now.
      q_enqueue (Some (traced_jobs S)) (intent j p job now)))) ?I ?O s1"
    using assms(2,3) by (intro traced_enqueue) auto
  fix x2 and s2 :: "RelayerEngine \<times> 'w \<times> event list"
  assume "?I x2 s2"
  then show "wp (accept_or_reconcile (traced c) j) ?I ?O s2" by (intro wp_traced_accept) simp_all
  fix tx and s3 :: "RelayerEngine \<times> 'w \<times> event list"
  assume "?I tx s3"
  then show "wp (with_queue (q_markAccepted (Some (traced_jobs S)) j tx)) (\<lambda>_ s'. submittable sv j s') ?O s3"
    unfolding submittable_def by (intro traced_markAccepted) auto
qed simp

lemma traced_accept_phase:
  assumes "\<And>p job w. wp (commit_acceptance (traced c) (enc_jobId msg) p job) Q E (fst s, (w, log_of s))"
    and "\<And>w. Q None (fst s, (w, log_of s))" "\<And>e w. E e (fst s, (w, log_of s))"
    and "\<And>w k. Q None ((fst s)\<lparr> e_stats := (e_stats (fst s))\<lparr> es_deadlineDeclined := k \<rparr> \<rparr>, (w, log_of s))"
  shows "wp (accept_phase (traced c) msg) Q E s"
  unfolding accept_phase_def
  using assms(3) [of _ "fst (snd s)"] assms
  by (auto split: sum.split option.split intro!: wp_quiet wp_traced_headroom)

lemma traced_processPayload:
  fixes c :: "'w RelayerEngineConfig"
  assumes "cfg_jobStore c = Some S" "e_queue (fst s) = Some q" "ordered sv (log_of s)"
  shows "wp (processPayload (traced c) msg) (\<lambda>_ s'. ordered sv (log_of s')) (\<lambda>_ s'. ordered sv (log_of s')) s"
proof -
  let ?O = "\<lambda>_ s'. ordered sv (log_of s')"
  let ?R = "\<lambda>r s'. ordered sv (log_of s') \<and> (r \<noteq> None \<longrightarrow> submittable sv (enc_jobId msg) s')"
  have accept: "wp (try_catch (accept_phase (traced c) msg) (\<lambda>err. bnd (note_rejected err) (\<lambda>_. throw err))) ?R ?O s1"
    if "e_queue (fst s1) = Some q" "ordered sv (log_of s1)" for s1 :: "RelayerEngine \<times> 'w \<times> event list"
    by (rule wp_catchI [where R = ?O], rule traced_accept_phase)
       (use that in \<open>auto simp: note_rejected_def submittable_def
          intro!: wp_mono [OF traced_commit [OF assms(1), of _ q sv, unfolded submittable_def]]\<close>)
  have settle: "wp (settle_phase (traced c) msg acc) ?O ?O s1" if "?R acc s1" for acc and s1 :: "RelayerEngine \<times> 'w \<times> event list"
  proof (cases acc)
    case (Some a)
    then obtain tx p job where "acc = Some (tx, p, job)" by (cases a) auto
    with that show ?thesis
      by (auto simp: settle_phase_def note_rejected_def intro!: wp_traced_notify wp_mono [OF traced_submit_phase [OF assms(1)]])
  qed (use that in \<open>simp add: settle_phase_def\<close>)
  show ?thesis
    unfolding processPayload_def
    by (rule wp_bndI [where R = "\<lambda>_ s'. e_queue (fst s') = Some q \<and> ordered sv (log_of s')"], simp add: assms,
        rule wp_bndI [where R = "\<lambda>_ s'. e_queue (fst s') = Some q \<and> ordered sv (log_of s')"], simp add: assms,
        rule wp_finallyI [OF wp_bndI [OF accept settle]]) auto
qed


section \<open>The number of transactions\<close>

fun is_accept :: "event \<Rightarrow> bool" where
  "is_accept (EvAccept j) = True" | "is_accept _ = False"

fun is_submit :: "event \<Rightarrow> bool" where
  "is_submit (EvSubmit j) = True" | "is_submit _ = False"

text \<open>At most so many acceptances and submissions in the log.\<close>

definition budget :: "nat \<Rightarrow> nat \<Rightarrow> event list \<Rightarrow> bool" where
  "budget a b l \<longleftrightarrow> length (filter is_accept l) \<le> a \<and> length (filter is_submit l) \<le> b"

lemma budget_snoc [simp]:
  "budget a b (l @ [EvSave es]) = budget a b l"
  "budget (Suc a) b (l @ [EvAccept j]) = budget a b l"
  "budget a (Suc b) (l @ [EvSubmit j]) = budget a b l"
  by (auto simp: budget_def)

lemma budget_mono: "budget a b l \<Longrightarrow> a \<le> a' \<Longrightarrow> b \<le> b' \<Longrightarrow> budget a' b' l"
  by (auto simp: budget_def)

lemma budget_Suc: "budget a b l \<Longrightarrow> budget a (Suc b) l" "budget a b l \<Longrightarrow> budget (Suc a) b l"
  by (auto simp: budget_def)

lemma budget_add: "budget a (Suc b) l \<Longrightarrow> budget a (Suc (b + n)) l"
  by (auto simp: budget_def)

lemma traced_queue_budget:
  assumes "budget a b (log_of s)"
  shows "wp (with_queue (run_cmd (map_option traced_jobs st) cmd)) (\<lambda>_ s'. budget a b (log_of s')) (\<lambda>_ s'. budget a b (log_of s')) s"
proof -
  have persist: "wp (q_persist (map_option traced_jobs st)) (\<lambda>_ p. budget a b (log_of p)) (\<lambda>_ p. budget a b (log_of p)) p"
    if "budget a b (log_of p)" for p :: "AcceptedJobQueue \<times> 'a \<times> event list"
    using that by (cases st) (auto simp: wp_q_persist [of None] intro!: wp_traced_persist)
  show ?thesis
    using assms
    by (cases cmd) (auto simp: q_enqueue_def q_markAccepted_def q_resolve_def q_recordFailure_def on_queue_def
        split: option.split intro!: persist)
qed

lemmas traced_cmd_budget =
  traced_queue_budget [where cmd = "RecordFailure j m" for j m, simplified run_cmd.simps]
  traced_queue_budget [where cmd = "Resolve j" for j, simplified run_cmd.simps]
  traced_queue_budget [where cmd = "MarkAccepted j t" for j t, simplified run_cmd.simps]

lemma traced_submit_loop_budget:
  assumes "budget a b (log_of s)"
  shows "wp (submit_loop (traced c) j payload d n k err) (\<lambda>_ s'. budget a (b + n) (log_of s')) (\<lambda>_ s'. budget a (b + n) (log_of s')) s"
  using assms
proof (induction n arbitrary: b k err s)
  case (Suc n)
  have attempt: "wp (submit_attempt (traced c) j payload) (\<lambda>_ s'. budget a (Suc b) (log_of s')) (\<lambda>_ s'. budget a (Suc b) (log_of s')) s"
    unfolding submit_attempt_def using Suc.prems
    by (auto intro!: wp_quiet wp_logged intro: budget_Suc)
  have failed: "wp (after_failure (traced c) j d n k e (submit_loop (traced c) j payload d n (k + 1) e))
      (\<lambda>_ s'. budget a (Suc b + n) (log_of s')) (\<lambda>_ s'. budget a (Suc b + n) (log_of s')) s'"
    if "budget a (Suc b) (log_of s')" for e s'
    unfolding after_failure_def traced_sel
    by (rule wp_bndI [OF wp_mono [OF traced_cmd_budget(1) [OF that]], where R = "\<lambda>_ s'. budget a (Suc b) (log_of s')"],
        (auto elim: budget_mono) [2],
        rule wp_bndI [OF wp_traced_getJob [where Q = "\<lambda>_ s'. budget a (Suc b) (log_of s')"]])
       (use Suc.IH [of "Suc b"] in \<open>auto intro!: wp_traced_headroom intro: budget_add\<close>)
  show ?case
    unfolding submit_loop.simps
    by (rule wp_catchI [OF wp_mono [OF attempt], where R = "\<lambda>_ s'. budget a (Suc b) (log_of s')"])
       (use failed in \<open>auto intro: budget_add\<close>)
qed simp


lemma traced_rest_budget:
  assumes "budget a b (log_of s)"
  shows "wp (record_submitted (traced c) j x y fee) (\<lambda>_ s'. budget a b (log_of s')) (\<lambda>_ s'. budget a b (log_of s')) s"
    "wp (remember_result (traced c) key r) (\<lambda>_ s'. budget a b (log_of s')) (\<lambda>_ s'. budget a b (log_of s')) s"
    "wp (notifySettled (traced c) j out) (\<lambda>_ s'. budget a b (log_of s')) (\<lambda>_ s'. budget a b (log_of s')) s"
proof -
  have "wp (l_persist (map_option traced_ledger st)) (\<lambda>_ p. budget a b (log_of p)) (\<lambda>_ p. budget a b (log_of p)) p"
    if "budget a b (log_of p)" for st and p :: "JobLedger \<times> 'a \<times> event list"
    using that by (auto simp: l_persist_def traced_ledger_def split: option.split intro!: wp_quiet)
  then show "wp (record_submitted (traced c) j x y fee) (\<lambda>_ s'. budget a b (log_of s')) (\<lambda>_ s'. budget a b (log_of s')) s"
    using assms by (auto simp: record_submitted_def l_record_def on_ledger_def split: option.split sum.split)
qed (use assms in \<open>auto simp: remember_result_def intro!: wp_traced_notify\<close>)

lemma traced_submit_phase_budget:
  fixes c :: "'w RelayerEngineConfig"
  assumes "budget a b (log_of s)"
  defines "m \<equiv> maxAttempts (cfg_retry c)"
  shows "wp (submit_phase (traced c) msg accTx payload job) (\<lambda>_ s'. budget a (b + m) (log_of s')) (\<lambda>_ s'. budget a (b + m) (log_of s')) s"
  unfolding submit_phase_def submitWithRetry_def traced_sel m_def [symmetric]
proof (intro wp_bndI)
  let ?B = "\<lambda>_ s'. budget a (b + m) (log_of s')"
  show "wp (bump (\<lambda>st. st\<lparr> es_accepted := es_accepted st + 1 \<rparr>)) (\<lambda>_ s'. budget a b (log_of s')) ?B s" using assms(1) by simp
  show "wp (submit_loop (traced c) (enc_jobId msg) payload (job_deadline job) m 1 (Error ''undefined'')) ?B ?B s1"
    if "budget a b (log_of s1)" for s1 :: "RelayerEngine \<times> 'w \<times> event list"
    using that by (rule traced_submit_loop_budget)
  show "wp (bump (\<lambda>st. st\<lparr> es_submitted := es_submitted st + 1 \<rparr>)) ?B ?B s1" if "?B x s1"
    for x and s1 :: "RelayerEngine \<times> 'w \<times> event list" using that by simp
qed (erule traced_cmd_budget(2) traced_rest_budget | simp)+

lemma traced_commit_budget:
  fixes c :: "'w RelayerEngineConfig"
  assumes "budget a b (log_of s)"
  shows "wp (commit_acceptance (traced c) j p job) (\<lambda>_ s'. budget (Suc a) b (log_of s')) (\<lambda>_ s'. budget (Suc a) b (log_of s')) s"
  unfolding commit_acceptance_def traced_sel
proof (intro wp_bndI)
  let ?B = "\<lambda>_ s'. budget a b (log_of s')" and ?C = "\<lambda>_ s'. budget (Suc a) b (log_of s')"
  show "wp (on_snd (simulatePoolWithdraw (traced_chain (cfg_chain c)) p)) ?B ?C s"
    using assms by (auto intro!: wp_quiet budget_Suc)
  fix x1 and s1 :: "RelayerEngine \<times> 'w \<times> event list"
  assume b: "?B x1 s1"
  show "wp (with_queue (bnd (on_snd (date_now (traced_runtime (cfg_runtime c)))) (\<lambda>now.
      q_enqueue (map_option traced_jobs (cfg_jobStore c)) (intent j p job now)))) ?B ?C s1"
    using b traced_queue_budget [of a b "(fst s1, (snd (rt_now (cfg_runtime c) (fst (snd s1))), log_of s1))" "cfg_jobStore c"
       "Enqueue (intent j p job (fst (rt_now (cfg_runtime c) (fst (snd s1)))))"]
    by (auto split: option.splits intro: budget_Suc elim!: wp_mono)
  fix x2 and s2 :: "RelayerEngine \<times> 'w \<times> event list"
  assume "?B x2 s2"
  then show "wp (accept_or_reconcile (traced c) j) ?C ?C s2" by (intro wp_traced_accept) simp_all
qed (erule traced_cmd_budget(3) | simp)+

lemma traced_processPayload_budget:
  fixes c :: "'w RelayerEngineConfig"
  assumes "budget a b (log_of s)"
  defines "m \<equiv> maxAttempts (cfg_retry c)"
  shows "wp (processPayload (traced c) msg) (\<lambda>_ s'. budget (Suc a) (b + m) (log_of s')) (\<lambda>_ s'. budget (Suc a) (b + m) (log_of s')) s"
proof -
  let ?C = "\<lambda>_ s'. budget (Suc a) b (log_of s')" and ?D = "\<lambda>_ s'. budget (Suc a) (b + m) (log_of s')"
  have CD: "budget (Suc a) (b + m) l" if "budget (Suc a) b l" for l using that by (rule budget_mono) simp_all
  have accept: "wp (try_catch (accept_phase (traced c) msg) (\<lambda>err. bnd (note_rejected err) (\<lambda>_. throw err))) ?C ?D s1"
    if "budget a b (log_of s1)" for s1 :: "RelayerEngine \<times> 'w \<times> event list"
    by (rule wp_catchI [where R = ?C], rule traced_accept_phase)
       (use that in \<open>auto simp: note_rejected_def intro!: wp_mono [OF traced_commit_budget] intro: budget_Suc CD\<close>)
  have settle: "wp (settle_phase (traced c) msg acc) ?D ?D s1" if "?C acc s1" for acc and s1 :: "RelayerEngine \<times> 'w \<times> event list"
  proof (cases acc)
    case (Some x)
    then obtain tx p job where "acc = Some (tx, p, job)" by (cases x) auto
    with that show ?thesis
      by (auto simp: settle_phase_def note_rejected_def m_def
          intro!: wp_traced_notify wp_mono [OF traced_submit_phase_budget])
  qed (use that CD in \<open>simp add: settle_phase_def\<close>)
  show ?thesis
    unfolding processPayload_def
    by (rule wp_bndI [where R = "\<lambda>_ s'. budget a b (log_of s')"], simp add: assms(1),
        rule wp_bndI [where R = "\<lambda>_ s'. budget a b (log_of s')"], simp,
        rule wp_finallyI [OF wp_bndI [OF accept settle]]) auto
qed



section \<open>Properties\<close>

text \<open>
  C1: with a durable queue configured, the engine never sends \<open>accept_job\<close> for a job before
  the intent to take it has been saved, and never sends \<open>submit_pool_withdraw\<close> before
  its acceptance has been saved, on every path of a delivery and whatever the chain, the
  store and the clock do: at each point of the log the entries saved last cover the
  transaction that follows.
\<close>

theorem intent_durable_before_transactions:
  assumes "cfg_jobStore cfg = Some S" "e_queue e = Some q"
    and "processPayload (traced cfg) msg (e, (w, [])) = (r, (e', (w', evs)))"
  shows "ordered [] evs"
proof -
  have "wp (processPayload (traced cfg) msg) (\<lambda>_ s'. ordered [] (log_of s')) (\<lambda>_ s'. ordered [] (log_of s')) (e, (w, []))"
    by (rule traced_processPayload [OF assms(1)]) (simp_all add: assms(2))
  with assms(3) show ?thesis by (cases r) (auto dest: wp_InlD wp_InrD)
qed

theorem intent_durable_before_transactions_witness:
  "ordered [] (snd (snd (snd (processPayload (traced (example_cfg (\<lambda>j. ret ''sub''))) example_msg (example_engine, (None, []))))))"
proof -
  let ?run = "processPayload (traced (example_cfg (\<lambda>j. ret ''sub''))) example_msg (example_engine, (None, []))"
  have "?run = (fst ?run, (fst (snd ?run), (fst (snd (snd ?run)), snd (snd (snd ?run)))))" by simp
  then show ?thesis
    by (rule intent_durable_before_transactions [rotated 2])
       (simp_all add: example_cfg_def example_engine_def new_engine_def)
qed

text \<open>
  A delivery sends at most one \<open>accept_job\<close> and at most as many
  \<open>submit_pool_withdraw\<close> transactions as the retry policy allows.
\<close>

lemma delivery_transactions_bounded:
  assumes "processPayload (traced cfg) msg (e, (w, [])) = (r, (e', (w', evs)))"
  shows "length (filter is_accept evs) \<le> 1 \<and> length (filter is_submit evs) \<le> maxAttempts (cfg_retry cfg)"
proof -
  have "wp (processPayload (traced cfg) msg) (\<lambda>_ s'. budget (Suc 0) (0 + maxAttempts (cfg_retry cfg)) (log_of s'))
      (\<lambda>_ s'. budget (Suc 0) (0 + maxAttempts (cfg_retry cfg)) (log_of s')) (e, (w, []))"
    by (rule traced_processPayload_budget) (simp add: budget_def)
  with assms show ?thesis by (cases r) (auto simp: budget_def dest: wp_InlD wp_InrD)
qed

lemma delivery_transactions_bounded_witness:
  "length (filter is_submit (snd (snd (snd (processPayload (traced (example_cfg (\<lambda>j. throw (Error ''boom'')))) example_msg
     (example_engine, (None, []))))))) \<le> 1"
proof -
  let ?run = "processPayload (traced (example_cfg (\<lambda>j. throw (Error ''boom'')))) example_msg (example_engine, (None, []))"
  have "?run = (fst ?run, (fst (snd ?run), (fst (snd (snd ?run)), snd (snd (snd ?run)))))" by simp
  from delivery_transactions_bounded [OF this] show ?thesis by (simp add: example_cfg_def)
qed

end
