(* ===== verification/Relayer_Engine_Resume.thy ===== *)
theory Relayer_Engine_Resume
  imports Relayer_Engine_Props
begin

text \<open>
  Recovery on boot: \<open>resumeAcceptedJobs\<close> accounts for every job the durable queue holds. The
  jobs in the queue are followed by their keys, the lower-cased job ids.
\<close>

definition queued :: "RelayerEngine \<Rightarrow> string set" where
  "queued e = (case e_queue e of None \<Rightarrow> {} | Some q \<Rightarrow> dom (q_map q))"

text \<open>The store accepts every save.\<close>

definition saves_ok :: "'w RelayerEngineConfig \<Rightarrow> bool" where
  "saves_ok cfg \<longleftrightarrow> (case cfg_jobStore cfg of None \<Rightarrow> True | Some S \<Rightarrow> \<forall>x w. fst (st_save S x w) = Inr ())"

definition holds :: "string set \<Rightarrow> RelayerEngine \<Rightarrow> bool" where
  "holds K e \<longleftrightarrow> e_queue e \<noteq> None \<and> queued e = K"

lemma holds_other [simp]:
  "holds K (e\<lparr> e_stats := x \<rparr>) = holds K e" "holds K (e\<lparr> e_ledger := l \<rparr>) = holds K e"
  by (simp_all add: holds_def queued_def)

lemma wp_save_ok:
  assumes "saves_ok cfg"
  shows "wp (q_persist (cfg_jobStore cfg)) (\<lambda>_ s'. fst s' = fst s) (\<lambda>_ _. False) s"
proof (cases "cfg_jobStore cfg")
  case (Some S)
  have "fst (st_save S (q_pending (fst s)) (snd s)) = Inr ()"
    using assms Some by (simp add: saves_ok_def)
  then show ?thesis using Some by (cases "st_save S (q_pending (fst s)) (snd s)") (simp add: wp_q_persist, simp add: wp_def)
qed (simp add: wp_q_persist)

lemma wp_keep_queue:
  assumes "saves_ok cfg" "holds K (fst s)"
  shows "wp (with_queue (q_resolve (cfg_jobStore cfg) j)) (\<lambda>_ s'. holds (K - {to_lower j}) (fst s')) (\<lambda>_ _. False) s"
    and "wp (with_queue (q_recordFailure (cfg_jobStore cfg) j m)) (\<lambda>_ s'. holds K (fst s')) (\<lambda>_ _. False) s"
    and "to_lower j \<in> K \<Longrightarrow> wp (with_queue (q_markAccepted (cfg_jobStore cfg) j t)) (\<lambda>_ s'. holds K (fst s')) (\<lambda>_ _. False) s"
  using assms(2)
  by (auto simp: holds_def queued_def q_resolve_def q_recordFailure_def q_markAccepted_def on_queue_def q_get_def
      map_of_update_fun map_of_delete_fun simp del: map_of_eq_Some_iff split: option.splits if_splits
      intro!: wp_mono [OF wp_save_ok [OF assms(1)]])

lemma submitWithRetry_holds:
  assumes "saves_ok cfg" "holds K (fst s)"
  shows "wp (submitWithRetry cfg j payload d) (\<lambda>_ s'. holds K (fst s')) (\<lambda>_ s'. holds K (fst s')) s"
  unfolding submitWithRetry_def
  by (rule submit_loop_frame [OF wp_mono [OF wp_keep_queue(2) [OF assms(1)]]]) (use assms(2) in auto)

lemma settle_resumed_holds:
  fixes cfg :: "'w RelayerEngineConfig"
  assumes "saves_ok cfg" "holds K (fst s)" "js_BigInt_str (aj_fee entry) = Inr f"
  shows "wp (settle_resumed cfg entry tx) (\<lambda>_ s'. holds (K - {to_lower (aj_jobId entry)}) (fst s')) (\<lambda>_ _. False) s"
  unfolding settle_resumed_def
proof (rule wp_bndI [OF wp_keep_queue(1) [OF assms(1,2)]])
  fix x and s1 :: "RelayerEngine \<times> 'w"
  assume "holds (K - {to_lower (aj_jobId entry)}) (fst s1)"
  then show "wp (record_submitted cfg (aj_jobId entry) (case aj_acceptedTx entry of None \<Rightarrow> ''on-chain-accept:'' @ aj_jobId entry | Some t \<Rightarrow> t)
      tx (js_BigInt_str (aj_fee entry))) (\<lambda>_ s'. holds (K - {to_lower (aj_jobId entry)}) (fst s')) (\<lambda>_ _. False) s1"
    by (auto simp: record_submitted_def assms(3) l_record_def on_ledger_def split: option.split intro!: wp_l_persist)
qed

text \<open>What one round of the recovery loop leaves queued.\<close>

definition left_after :: "string set \<Rightarrow> string \<Rightarrow> resume_outcome \<Rightarrow> string set" where
  "left_after K j r = (if r = ResumeFailed then K else K - {to_lower j})"

lemma abandon_holds:
  assumes "saves_ok cfg" "holds K (fst s)"
  shows "wp (abandon cfg j) (\<lambda>r s'. holds (left_after K j r) (fst s')) (\<lambda>_ _. False) s"
  unfolding abandon_def
  by (rule wp_bndI [OF wp_keep_queue(1) [OF assms]]) (simp add: left_after_def)

lemma resume_submit_holds:
  fixes cfg :: "'w RelayerEngineConfig"
  assumes "saves_ok cfg" "holds K (fst s)" "js_BigInt_str (aj_fee entry) = Inr f"
  shows "wp (resume_submit cfg entry) (\<lambda>r s'. holds (left_after K (aj_jobId entry) r) (fst s')) (\<lambda>_ _. False) s"
proof -
  let ?j = "aj_jobId entry"
  let ?Q = "\<lambda>r s'. holds (left_after K ?j r) (fst s')"
  have settle: "wp (bnd (settle_resumed cfg entry tx) (\<lambda>_.
      bnd (bump (\<lambda>st. st\<lparr> es_submitted := es_submitted st + 1 \<rparr>)) (\<lambda>_.
      bnd (notifySettled cfg ?j Completed) (\<lambda>_. ret ResumeSubmitted)))) ?Q (\<lambda>_ s'. holds K (fst s')) s1"
    if "holds K (fst s1)" for tx and s1 :: "RelayerEngine \<times> 'w"
    by (rule wp_bndI [OF wp_mono [OF settle_resumed_holds [OF assms(1) that assms(3)]]])
       (auto simp: left_after_def intro!: wp_notifySettled)
  have run: "wp (bnd (of_res (parsePoolWithdrawPayload (aj_payload entry))) (\<lambda>payload.
          bnd (submitWithRetry cfg ?j payload (aj_deadline entry)) (\<lambda>submittedTx.
          bnd (settle_resumed cfg entry submittedTx) (\<lambda>_.
          bnd (bump (\<lambda>st. st\<lparr> es_submitted := es_submitted st + 1 \<rparr>)) (\<lambda>_.
          bnd (notifySettled cfg ?j Completed) (\<lambda>_.
          ret ResumeSubmitted)))))) ?Q (\<lambda>_ s'. holds K (fst s')) s1" if "holds K (fst s1)" for s1 :: "RelayerEngine \<times> 'w"
    by (rule wp_bndI [where R = "\<lambda>_ s'. holds K (fst s')"], (simp add: that split: sum.split) [1],
        rule wp_bndI [OF submitWithRetry_holds [OF assms(1)]], assumption, rule settle)
  have drop: "wp (abandon cfg ?j) ?Q (\<lambda>_ _. False) s1" if "holds K (fst s1)" for s1 :: "RelayerEngine \<times> 'w"
    using abandon_holds [OF assms(1) that] .
  have "wp (if \<not> ok then abandon cfg ?j else try_catch
         (bnd (of_res (parsePoolWithdrawPayload (aj_payload entry))) (\<lambda>payload.
          bnd (submitWithRetry cfg ?j payload (aj_deadline entry)) (\<lambda>submittedTx.
          bnd (settle_resumed cfg entry submittedTx) (\<lambda>_.
          bnd (bump (\<lambda>st. st\<lparr> es_submitted := es_submitted st + 1 \<rparr>)) (\<lambda>_.
          bnd (notifySettled cfg ?j Completed) (\<lambda>_.
          ret ResumeSubmitted))))))
         (\<lambda>err. bnd (bump (\<lambda>st. st\<lparr> es_lastError := Some (err_message err) \<rparr>)) (\<lambda>_. ret ResumeFailed))) ?Q (\<lambda>_ _. False) s1"
    if "holds K (fst s1)" for ok and s1 :: "RelayerEngine \<times> 'w"
    by (cases ok, simp only: not_True_eq_False if_False, rule wp_catchI [OF run [OF that]])
       (use drop [OF that] in \<open>simp_all add: left_after_def\<close>)
  then show ?thesis
    unfolding resume_submit_def
    by (intro wp_bndI [where R = "\<lambda>_ s'. holds K (fst s')"] wp_hasDeadlineHeadroom) (simp_all only: fst_conv assms(2))
qed

text \<open>Continuing with an entry whose acceptance has just been recorded.\<close>

lemma continue_accepted_holds:
  assumes "saves_ok cfg" "holds K (fst s)" "js_BigInt_str (aj_fee entry) = Inr f"
  shows "wp (continue_accepted cfg entry) (\<lambda>r s'. holds (left_after K (aj_jobId entry) r) (fst s')) (\<lambda>_ _. False) s"
  unfolding continue_accepted_def
  using resume_submit_holds [OF assms(1,2), of "refresh_entry entry (fst s)" f] assms(3)
  by (simp add: refresh_entry_def)

lemma resume_entry_holds:
  fixes cfg :: "'w RelayerEngineConfig"
  assumes "saves_ok cfg" "holds K (fst s)" "js_BigInt_str (aj_fee entry) = Inr f" "to_lower (aj_jobId entry) \<in> K"
  shows "wp (resume_entry cfg entry) (\<lambda>r s'. holds (left_after K (aj_jobId entry) r) (fst s')) (\<lambda>_ _. False) s"
  unfolding resume_entry_def
proof (rule wp_bndI [OF wp_getJob_or_null [where Q = "\<lambda>_ s'. holds K (fst s')"]], simp add: assms(2))
  let ?j = "aj_jobId entry"
  let ?Q = "\<lambda>r s'. holds (left_after K ?j r) (fst s')"
  fix current and s1 :: "RelayerEngine \<times> 'w"
  assume K: "holds K (fst s1)"
  have on_chain: "wp (bnd (settle_resumed cfg entry (''on-chain:'' @ ?j)) (\<lambda>_.
      bnd (notifySettled cfg ?j Completed) (\<lambda>_. ret ResumeSubmitted))) ?Q (\<lambda>_ _. False) s1"
    by (rule wp_bndI [OF settle_resumed_holds [OF assms(1) K assms(3)]])
       (auto simp: left_after_def intro!: wp_notifySettled)
  have mark: "wp (bnd (with_queue (q_markAccepted (cfg_jobStore cfg) ?j tx)) (\<lambda>_. continue_accepted cfg entry)) ?Q (\<lambda>_ _. False) s1" for tx
    by (rule wp_bndI [OF wp_keep_queue(3) [OF assms(1) K assms(4)]], rule continue_accepted_holds [OF assms(1) _ assms(3)])
  have accept: "wp (bnd (try_catch
              (bnd (on_snd (acceptJob (cfg_chain cfg) ?j)) (\<lambda>acceptedTx.
               bnd (with_queue (q_markAccepted (cfg_jobStore cfg) ?j acceptedTx)) (\<lambda>_. ret True)))
              (\<lambda>err. bnd (with_queue (q_recordFailure (cfg_jobStore cfg) ?j (err_message err))) (\<lambda>_. ret False))) (\<lambda>accepted.
            if accepted then continue_accepted cfg entry else ret ResumeFailed)) ?Q (\<lambda>_ _. False) s1"
  proof (rule wp_bndI [where R = "\<lambda>_ s'. holds K (fst s')"])
    show "wp (try_catch
              (bnd (on_snd (acceptJob (cfg_chain cfg) ?j)) (\<lambda>acceptedTx.
               bnd (with_queue (q_markAccepted (cfg_jobStore cfg) ?j acceptedTx)) (\<lambda>_. ret True)))
              (\<lambda>err. bnd (with_queue (q_recordFailure (cfg_jobStore cfg) ?j (err_message err))) (\<lambda>_. ret False)))
            (\<lambda>_ s'. holds K (fst s')) (\<lambda>_ _. False) s1"
    proof (rule wp_catchI [where R = "\<lambda>_ s'. holds K (fst s')"])
      show "wp (bnd (on_snd (acceptJob (cfg_chain cfg) ?j)) (\<lambda>acceptedTx.
               bnd (with_queue (q_markAccepted (cfg_jobStore cfg) ?j acceptedTx)) (\<lambda>_. ret True)))
              (\<lambda>_ s'. holds K (fst s')) (\<lambda>_ s'. holds K (fst s')) s1"
        by (intro wp_bndI [where R = "\<lambda>_ s'. holds K (fst s')"] wp_any wp_mono [OF wp_keep_queue(3) [OF assms(1) _ assms(4)]])
           (simp_all add: K)
      show "wp (bnd (with_queue (q_recordFailure (cfg_jobStore cfg) ?j (err_message err))) (\<lambda>_. ret False))
              (\<lambda>_ s'. holds K (fst s')) (\<lambda>_ _. False) s2" if "holds K (fst s2)" for err and s2 :: "RelayerEngine \<times> 'w"
        by (rule wp_bndI [OF wp_keep_queue(2) [OF assms(1) that]]) simp
    qed
    show "wp (if accepted then continue_accepted cfg entry else ret ResumeFailed) ?Q (\<lambda>_ _. False) s2"
      if "holds K (fst s2)" for accepted and s2 :: "RelayerEngine \<times> 'w"
      using that continue_accepted_holds [OF assms(1) that assms(3)] by (simp add: left_after_def)
  qed
  show "wp (if has_status JSubmitted current
       then bnd (settle_resumed cfg entry (''on-chain:'' @ ?j)) (\<lambda>_.
            bnd (notifySettled cfg ?j Completed) (\<lambda>_. ret ResumeSubmitted))
       else if \<not> needs_acceptance entry then resume_submit cfg entry
       else if own_acceptance cfg current
       then bnd (with_queue (q_markAccepted (cfg_jobStore cfg) ?j (''on-chain-accept:'' @ ?j))) (\<lambda>_.
            continue_accepted cfg entry)
       else if has_status JOpen current
       then bnd (try_catch
              (bnd (on_snd (acceptJob (cfg_chain cfg) ?j)) (\<lambda>acceptedTx.
               bnd (with_queue (q_markAccepted (cfg_jobStore cfg) ?j acceptedTx)) (\<lambda>_. ret True)))
              (\<lambda>err. bnd (with_queue (q_recordFailure (cfg_jobStore cfg) ?j (err_message err))) (\<lambda>_. ret False))) (\<lambda>accepted.
            if accepted then continue_accepted cfg entry else ret ResumeFailed)
       else abandon cfg ?j) ?Q (\<lambda>_ _. False) s1"
    using on_chain mark accept abandon_holds [OF assms(1) K] resume_submit_holds [OF assms(1) K assms(3)]
    by (simp only: split: if_split) blast
qed


text \<open>The loop over the pending entries, each of which is queued under a key of its own.\<close>

abbreviation entry_key :: "AcceptedJobEntry \<Rightarrow> string" where
  "entry_key entry \<equiv> to_lower (aj_jobId entry)"

fun settled_keys :: "(string \<times> resume_outcome) list \<Rightarrow> string set" where
  "settled_keys [] = {}"
| "settled_keys (r # rs) = (if snd r = ResumeFailed then {} else {to_lower (fst r)}) \<union> settled_keys rs"

lemma settled_keys_complement:
  assumes "distinct (map (to_lower \<circ> fst) rs)"
  shows "(to_lower \<circ> fst) ` set rs - settled_keys rs = to_lower ` set (pick ResumeFailed rs)"
  using assms
proof (induction rs)
  case (Cons r rs)
  define A where "A = (to_lower \<circ> fst) ` set rs"
  define k where "k = to_lower (fst r)"
  have "settled_keys rs \<subseteq> A" unfolding A_def by (induction rs) auto
  moreover have "k \<notin> A" using Cons.prems unfolding A_def k_def by simp
  ultimately have "insert k A - ((if b then {} else {k}) \<union> settled_keys rs) = (if b then {k} else {}) \<union> (A - settled_keys rs)" for b
    by (cases b) auto
  moreover have "A - settled_keys rs = to_lower ` set (pick ResumeFailed rs)"
    using Cons unfolding A_def by simp
  moreover have "(to_lower \<circ> fst) ` set (r # rs) = insert k A" by (simp add: A_def k_def)
  moreover have "settled_keys (r # rs) = (if snd r = ResumeFailed then {} else {k}) \<union> settled_keys rs" by (simp add: k_def)
  moreover have "to_lower ` set (pick ResumeFailed (r # rs)) =
      (if snd r = ResumeFailed then {k} else {}) \<union> to_lower ` set (pick ResumeFailed rs)"
    by (simp add: pick_def k_def)
  ultimately show ?case by (simp only:)
qed (simp add: pick_def)

lemma resume_all_holds:
  fixes cfg :: "'w RelayerEngineConfig"
  assumes "saves_ok cfg" "holds K (fst s)" "distinct (map entry_key es)" "entry_key ` set es \<subseteq> K"
    and "\<forall>entry \<in> set es. \<exists>f. js_BigInt_str (aj_fee entry) = Inr f"
  shows "wp (prog_map (\<lambda>entry. bnd (resume_entry cfg entry) (\<lambda>r. ret (aj_jobId entry, r))) es)
    (\<lambda>rs s'. map fst rs = map aj_jobId es \<and> holds (K - settled_keys rs) (fst s')) (\<lambda>_ _. False) s"
  using assms(2-5)
proof (induction es arbitrary: K s)
  case (Cons entry es)
  obtain f where f: "js_BigInt_str (aj_fee entry) = Inr f" using Cons.prems(4) by auto
  let ?j = "aj_jobId entry"
  have one: "wp (bnd (resume_entry cfg entry) (\<lambda>r. ret (?j, r)))
      (\<lambda>x s'. \<exists>r. x = (?j, r) \<and> holds (left_after K ?j r) (fst s')) (\<lambda>_ _. False) s"
    by (rule wp_bndI [OF resume_entry_holds [OF assms(1) Cons.prems(1) f]]) (use Cons.prems(3) in auto)
  show ?case
    unfolding prog_map.simps
  proof (rule wp_bndI [OF one], elim exE conjE)
    fix x r and s1 :: "RelayerEngine \<times> 'w"
    assume x: "x = (?j, r)" and held: "holds (left_after K ?j r) (fst s1)"
    have sub: "entry_key ` set es \<subseteq> left_after K ?j r"
      using Cons.prems(2,3) by (auto simp: left_after_def image_iff)
    show "wp (bnd (prog_map (\<lambda>entry. bnd (resume_entry cfg entry) (\<lambda>r. ret (aj_jobId entry, r))) es) (\<lambda>ys. ret (x # ys)))
       (\<lambda>rs s'. map fst rs = map aj_jobId (entry # es) \<and> holds (K - settled_keys rs) (fst s'))
       (\<lambda>_ _. False) s1"
    proof (rule wp_bndI [OF Cons.IH [OF held _ sub]])
      show "distinct (map entry_key es)" "\<forall>entry \<in> set es. \<exists>f. js_BigInt_str (aj_fee entry) = Inr f"
        using Cons.prems by simp_all
      fix ys and s2 :: "RelayerEngine \<times> 'w"
      assume ys: "map fst ys = map aj_jobId es \<and>
        holds (left_after K ?j r - settled_keys ys) (fst s2)"
      have "left_after K ?j r - settled_keys ys
          = K - settled_keys (x # ys)"
        by (auto simp: x left_after_def)
      with ys show "wp (ret (x # ys)) (\<lambda>rs s'. map fst rs = map aj_jobId (entry # es) \<and>
          holds (K - settled_keys rs) (fst s')) (\<lambda>_ _. False) s2"
        by (simp add: x)
    qed
  qed
qed simp

lemma mset_picks:
  "mset (pick ResumeSubmitted rs @ pick ResumeAbandoned rs @ pick ResumeFailed rs) = mset (map fst rs)"
  by (induction rs) (auto simp: pick_def intro: resume_outcome.exhaust)

lemma queue_inv_pending:
  assumes "queue_inv q"
  shows "distinct (map entry_key (q_pending q))" "entry_key ` set (q_pending q) = dom (q_map q)"
proof -
  have keys: "map entry_key (map snd (q_entries q)) = map fst (q_entries q)"
    using assms by (auto simp: queue_inv_def)
  have "mset (map entry_key (q_pending q)) = mset (map fst (q_entries q))"
    by (metis keys mset_map mset_sort q_pending_def)
  then show "distinct (map entry_key (q_pending q))"
    using assms by (metis mset_eq_imp_distinct_iff queue_inv_def)
  have "set (map entry_key (map snd (q_entries q))) = fst ` set (q_entries q)" unfolding keys by simp
  then show "entry_key ` set (q_pending q) = dom (q_map q)"
    by (simp add: q_pending_def dom_map_of_conv_image_fst image_image)
qed


definition resume_example :: RelayerEngine where
  "resume_example = new_engine (Some \<lparr> q_entries = [(''1'', (example_entry ''1'' 5)\<lparr> aj_phase := Some Accepting \<rparr>)], q_loaded = True \<rparr>) None 0"


end
