(* ===== verification/Relayer_Hub.thy ===== *)
theory Relayer_Hub
  imports Relayer_Engine_Props
begin

text \<open>
  The gossip hub, \<^verbatim>\<open>relayer/src/hub.ts\<close>: the bids, outcomes, heartbeats and job assignments it
  learns from gossip, failover of stalled jobs, completion-rate scores, pruning and
  persistence, and the attachment of an engine to the gossip. Times are milliseconds, scores
  are exact rationals. A subscriber is known by a number, which the configuration maps to
  its handler, since the source keeps a set of function objects. A message that has been
  validated is passed on as the value it was validated from, which validates to the same
  message again. A save started with \<open>void\<close> happens in program order and its error does
  not reach the caller.
\<close>

section \<open>Configuration and state\<close>

definition HEARTBEAT_MISS_THRESHOLD_MS :: int where "HEARTBEAT_MISS_THRESHOLD_MS = 45000"
definition NEUTRAL_RELAYER_SCORE :: rat where "NEUTRAL_RELAYER_SCORE = 1 / 2"
definition SCORE_WINDOW_MS :: int where "SCORE_WINDOW_MS = 30 * 24 * 60 * 60 * 1000"
definition MAX_JOB_LIFETIME_MS :: int where "MAX_JOB_LIFETIME_MS = 17280 * 5000"
definition BID_EXPIRY_MS :: int where "BID_EXPIRY_MS = MAX_JOB_LIFETIME_MS + 60 * 60 * 1000"
definition ASSIGNMENT_EXPIRY_MS :: int where "ASSIGNMENT_EXPIRY_MS = BID_EXPIRY_MS"

record FailoverEvent =
  fo_jobId :: string
  fo_from :: string
  fo_to :: string

record RelayerScore =
  rs_operator :: string
  rs_score :: rat
  rs_completed :: nat
  rs_failed :: nat
  rs_windowMs :: int

record RelayerHub =
  h_stats :: RelayerHubStats
  h_bids :: "(string \<times> (RelayerBid \<times> int) list) list"
  h_subscribers :: "nat list"
  h_outcomes :: "(string \<times> OutcomeEntry list) list"
  h_knownOperators :: "string list"
  h_lastHeartbeatAt :: "(string \<times> int) list"
  h_assignments :: "(string \<times> (string \<times> int)) list"
  h_failoverTimer :: bool
  h_pruneTimer :: bool
  h_started :: bool
  h_startedAt :: int

record 'w hub_config =
  hc_publish :: "RelayerMessage \<Rightarrow> ('w, unit) prog"
  hc_subscribe :: "('w, unit) prog"
  hc_onFailover :: "string \<Rightarrow> ('w, unit) prog"
  hc_store :: "('w, HubState) store_ops option"
  hc_handler :: "nat \<Rightarrow> RelayerMessage \<Rightarrow> ('w, unit) prog"
  hc_localeCompare :: "string \<Rightarrow> string \<Rightarrow> int"
  hc_runtime :: "'w js_runtime"

type_synonym ('w, 'a) hub_prog = "(RelayerHub \<times> 'w, 'a) prog"

definition new_hub :: "int \<Rightarrow> RelayerHub" where
  "new_hub startedAt =
     \<lparr> h_stats = \<lparr> hs_advertsSeen = 0, hs_bidsSeen = 0, hs_payloadsSeen = 0, hs_outcomesSeen = 0,
                    hs_heartbeatsSeen = 0, hs_lastError = None \<rparr>,
       h_bids = [], h_subscribers = [], h_outcomes = [], h_knownOperators = [], h_lastHeartbeatAt = [],
       h_assignments = [], h_failoverTimer = False, h_pruneTimer = False, h_started = False,
       h_startedAt = startedAt \<rparr>"

definition hub :: "(RelayerHub \<Rightarrow> RelayerHub) \<Rightarrow> ('w, unit) hub_prog" where
  "hub f = upd (\<lambda>s. (f (fst s), snd s))"

definition count_hub :: "(RelayerHubStats \<Rightarrow> RelayerHubStats) \<Rightarrow> ('w, unit) hub_prog" where
  "count_hub f = hub (\<lambda>h. h\<lparr> h_stats := f (h_stats h) \<rparr>)"

definition hub_now :: "'w hub_config \<Rightarrow> ('w, int) hub_prog" where
  "hub_now cfg = on_snd (date_now (hc_runtime cfg))"


section \<open>Persistence\<close>

definition hub_snapshot :: "RelayerHub \<Rightarrow> HubState" where
  "hub_snapshot h =
     \<lparr> st_bids = map (\<lambda>(k, v). (k, map (\<lambda>(b, t). (b, Some t)) v)) (h_bids h),
       st_outcomes = h_outcomes h, st_knownOperators = h_knownOperators h,
       st_lastHeartbeatAt = h_lastHeartbeatAt h,
       st_assignments = map (\<lambda>(k, v). (k, SavedOperator (fst v))) (h_assignments h),
       st_stats = Some (h_stats h) \<rparr>"

definition persistState :: "'w hub_config \<Rightarrow> ('w, unit) hub_prog" where
  "persistState cfg =
     (case hc_store cfg of None \<Rightarrow> ret ()
      | Some S \<Rightarrow> bnd (gets (\<lambda>s. hub_snapshot (fst s))) (\<lambda>st. on_snd (st_save S st)))"

definition restore_bid :: "'w hub_config \<Rightarrow> RelayerBid \<times> int option \<Rightarrow> ('w, RelayerBid \<times> int) hub_prog" where
  "restore_bid cfg b =
     (case snd b of Some t \<Rightarrow> ret (fst b, t) | None \<Rightarrow> bnd (hub_now cfg) (\<lambda>now. ret (fst b, now)))"

definition restore_bids :: "'w hub_config \<Rightarrow> string \<times> (RelayerBid \<times> int option) list \<Rightarrow> ('w, unit) hub_prog" where
  "restore_bids cfg e =
     bnd (prog_map (restore_bid cfg) (snd e)) (\<lambda>l. hub (\<lambda>h. h\<lparr> h_bids := AList.update (fst e) l (h_bids h) \<rparr>))"

definition restore_assignment :: "'w hub_config \<Rightarrow> string \<times> saved_assignment \<Rightarrow> ('w, unit) hub_prog" where
  "restore_assignment cfg e =
     bnd (case snd e of SavedOperator operator \<Rightarrow> bnd (hub_now cfg) (\<lambda>now. ret (operator, now))
          | SavedEntry operator addedAt \<Rightarrow> ret (operator, addedAt)) (\<lambda>v.
     hub (\<lambda>h. h\<lparr> h_assignments := AList.update (fst e) v (h_assignments h) \<rparr>))"

definition restore_stats :: "RelayerHubStats \<Rightarrow> RelayerHubStats \<Rightarrow> RelayerHubStats" where
  "restore_stats saved st = st\<lparr> hs_advertsSeen := hs_advertsSeen saved, hs_bidsSeen := hs_bidsSeen saved,
     hs_payloadsSeen := hs_payloadsSeen saved, hs_outcomesSeen := hs_outcomesSeen saved,
     hs_heartbeatsSeen := hs_heartbeatsSeen saved \<rparr>"

definition put_all :: "('k \<times> 'v) list \<Rightarrow> ('k \<times> 'v) list \<Rightarrow> ('k \<times> 'v) list" where
  "put_all es m = foldl (\<lambda>m (k, v). AList.update k v m) m es"

definition hydrateFromStore :: "'w hub_config \<Rightarrow> ('w, unit) hub_prog" where
  "hydrateFromStore cfg =
     (case hc_store cfg of None \<Rightarrow> ret ()
      | Some S \<Rightarrow>
        bnd (on_snd (st_load S)) (\<lambda>loaded.
          case loaded of None \<Rightarrow> ret ()
          | Some saved \<Rightarrow>
            bnd (prog_iter (restore_bids cfg) (st_bids saved)) (\<lambda>_.
            bnd (hub (\<lambda>h. h\<lparr> h_outcomes := put_all (st_outcomes saved) (h_outcomes h),
                              h_knownOperators := foldl (\<lambda>ops x. set_add x ops) (h_knownOperators h) (st_knownOperators saved),
                              h_lastHeartbeatAt := put_all (st_lastHeartbeatAt saved) (h_lastHeartbeatAt h) \<rparr>)) (\<lambda>_.
            bnd (prog_iter (restore_assignment cfg) (st_assignments saved)) (\<lambda>_.
            case st_stats saved of None \<Rightarrow> ret () | Some st \<Rightarrow> count_hub (restore_stats st))))))"


section \<open>What the hub learns\<close>

definition hub_bidsFor :: "string \<Rightarrow> RelayerHub \<Rightarrow> (RelayerBid \<times> int) list" where
  "hub_bidsFor jobId h = (case map_of (h_bids h) (to_lower jobId) of None \<Rightarrow> [] | Some l \<Rightarrow> l)"

definition hub_rememberBid :: "'w hub_config \<Rightarrow> RelayerBid \<Rightarrow> ('w, unit) hub_prog" where
  "hub_rememberBid cfg bid =
     (let key = to_lower (bid_jobId bid) in
      bnd (gets (\<lambda>s. hub_bidsFor key (fst s))) (\<lambda>l.
      bnd (if \<exists>b \<in> set l. bid_operator (fst b) = bid_operator bid then ret ()
           else bnd (hub_now cfg) (\<lambda>now. hub (\<lambda>h. h\<lparr> h_bids := AList.update key (l @ [(bid, now)]) (h_bids h) \<rparr>))) (\<lambda>_.
      bnd (hub (\<lambda>h. h\<lparr> h_knownOperators := set_add (bid_operator bid) (h_knownOperators h) \<rparr>)) (\<lambda>_.
      ignore_error (persistState cfg)))))"

definition outcomesFor :: "string \<Rightarrow> RelayerHub \<Rightarrow> OutcomeEntry list" where
  "outcomesFor operator h = (case map_of (h_outcomes h) operator of None \<Rightarrow> [] | Some l \<Rightarrow> l)"

definition recordOutcome :: "'w hub_config \<Rightarrow> string \<Rightarrow> outcome_result \<Rightarrow> int \<Rightarrow> ('w, unit) hub_prog" where
  "recordOutcome cfg operator result time =
     bnd (hub (\<lambda>h. h\<lparr> h_knownOperators := set_add operator (h_knownOperators h),
                      h_outcomes := AList.update operator (outcomesFor operator h @ [\<lparr> oe_result = result, oe_at = time \<rparr>]) (h_outcomes h) \<rparr>)) (\<lambda>_.
     ignore_error (persistState cfg))"

definition rememberAssignment :: "'w hub_config \<Rightarrow> EncryptedPayload \<Rightarrow> ('w, unit) hub_prog" where
  "rememberAssignment cfg payload =
     (let key = to_lower (enc_jobId payload) in
      bnd (gets (\<lambda>s. find (\<lambda>b. to_lower (bid_x25519Pk (fst b)) = to_lower (enc_to payload)) (hub_bidsFor key (fst s)))) (\<lambda>bid.
        case bid of None \<Rightarrow> ret ()
        | Some b \<Rightarrow> bnd (hub_now cfg) (\<lambda>now.
            hub (\<lambda>h. h\<lparr> h_assignments := AList.update key (bid_operator (fst b), now) (h_assignments h) \<rparr>))))"

definition recordHeartbeat :: "'w hub_config \<Rightarrow> string \<Rightarrow> int \<Rightarrow> ('w, unit) hub_prog" where
  "recordHeartbeat cfg operator time =
     bnd (hub (\<lambda>h. h\<lparr> h_knownOperators := set_add operator (h_knownOperators h),
                      h_lastHeartbeatAt := AList.update operator time (h_lastHeartbeatAt h) \<rparr>)) (\<lambda>_.
     ignore_error (persistState cfg))"

text \<open>The branches on a validated message.\<close>

fun hub_learn :: "'w hub_config \<Rightarrow> RelayerMessage \<Rightarrow> ('w, unit) hub_prog" where
  "hub_learn cfg (MAdvert a) = count_hub (\<lambda>st. st\<lparr> hs_advertsSeen := hs_advertsSeen st + 1 \<rparr>)"
| "hub_learn cfg (MBid b) =
     bnd (hub_rememberBid cfg b) (\<lambda>_.
     bnd (count_hub (\<lambda>st. st\<lparr> hs_bidsSeen := hs_bidsSeen st + 1 \<rparr>)) (\<lambda>_. persistState cfg))"
| "hub_learn cfg (MPayload p) =
     bnd (rememberAssignment cfg p) (\<lambda>_.
     bnd (count_hub (\<lambda>st. st\<lparr> hs_payloadsSeen := hs_payloadsSeen st + 1 \<rparr>)) (\<lambda>_. persistState cfg))"
| "hub_learn cfg (MOutcome out) =
     bnd (hub_now cfg) (\<lambda>now.
     bnd (recordOutcome cfg (out_operator out) (out_result out) now) (\<lambda>_.
     bnd (hub (\<lambda>h. h\<lparr> h_assignments := AList.delete (to_lower (out_jobId out)) (h_assignments h),
                      h_bids := AList.delete (to_lower (out_jobId out)) (h_bids h) \<rparr>)) (\<lambda>_.
     bnd (count_hub (\<lambda>st. st\<lparr> hs_outcomesSeen := hs_outcomesSeen st + 1 \<rparr>)) (\<lambda>_. persistState cfg))))"
| "hub_learn cfg (MHeartbeat b) =
     bnd (hub_now cfg) (\<lambda>now.
     bnd (recordHeartbeat cfg (hb_operator b) now) (\<lambda>_.
     bnd (count_hub (\<lambda>st. st\<lparr> hs_heartbeatsSeen := hs_heartbeatsSeen st + 1 \<rparr>)) (\<lambda>_. persistState cfg)))"

text \<open>
  \<open>Promise.all\<close> over the handlers: every handler runs, and the first error, if any, is the
  error of the whole.
\<close>

fun run_handlers :: "('s, unit) prog list \<Rightarrow> ('s, unit) prog" where
  "run_handlers [] = ret ()"
| "run_handlers (m # ms) =
     bnd (try_catch (bnd m (\<lambda>_. ret None)) (\<lambda>e. ret (Some e))) (\<lambda>failure.
     bnd (run_handlers ms) (\<lambda>_. case failure of None \<Rightarrow> ret () | Some e \<Rightarrow> throw e))"

definition notify_subscribers :: "'w hub_config \<Rightarrow> RelayerMessage \<Rightarrow> ('w, unit) hub_prog" where
  "notify_subscribers cfg m =
     bnd (gets (\<lambda>s. h_subscribers (fst s))) (\<lambda>subs. run_handlers (map (\<lambda>i. on_snd (hc_handler cfg i m)) subs))"

definition hub_on_message :: "'w hub_config \<Rightarrow> jv \<Rightarrow> ('w, unit) hub_prog" where
  "hub_on_message cfg raw =
     try_catch
       (bnd (of_res (validateRelayerMessage raw)) (\<lambda>valid.
        bnd (hub_learn cfg valid) (\<lambda>_. notify_subscribers cfg valid)))
       (\<lambda>err. count_hub (\<lambda>st. st\<lparr> hs_lastError := Some (err_message err) \<rparr>))"


section \<open>Failover\<close>

definition isNodeAlive :: "string \<Rightarrow> int \<Rightarrow> RelayerHub \<Rightarrow> bool" where
  "isNodeAlive operator now h =
     (case map_of (h_lastHeartbeatAt h) operator of None \<Rightarrow> False
      | Some t \<Rightarrow> now - t \<le> HEARTBEAT_MISS_THRESHOLD_MS)"

definition live_alternative :: "string \<Rightarrow> string \<Rightarrow> int \<Rightarrow> RelayerHub \<Rightarrow> string option" where
  "live_alternative jobId operator now h =
     map_option (\<lambda>b. bid_operator (fst b))
       (find (\<lambda>b. bid_operator (fst b) \<noteq> operator \<and> isNodeAlive (bid_operator (fst b)) now h) (hub_bidsFor jobId h))"

definition failover_entry :: "'w hub_config \<Rightarrow> int \<Rightarrow> string \<times> (string \<times> int) \<Rightarrow> ('w, FailoverEvent list) hub_prog" where
  "failover_entry cfg now e =
     (case e of (jobId, operator, addedAt) \<Rightarrow>
      bnd (gets (\<lambda>s. if isNodeAlive operator now (fst s) then None else live_alternative jobId operator now (fst s))) (\<lambda>alt.
        case alt of None \<Rightarrow> ret []
        | Some a \<Rightarrow>
          bnd (hub (\<lambda>h. h\<lparr> h_assignments := AList.update jobId (a, now) (h_assignments h) \<rparr>)) (\<lambda>_.
          bnd (on_snd (hc_onFailover cfg jobId)) (\<lambda>_.
          ret [\<lparr> fo_jobId = jobId, fo_from = operator, fo_to = a \<rparr>]))))"

definition runFailoverCheck :: "'w hub_config \<Rightarrow> int \<Rightarrow> ('w, FailoverEvent list) hub_prog" where
  "runFailoverCheck cfg now =
     bnd (gets (\<lambda>s. h_assignments (fst s))) (\<lambda>entries.
     bnd (prog_map (failover_entry cfg now) entries) (\<lambda>events. ret (concat events)))"


section \<open>Timers, pruning and scores\<close>

definition startFailoverWatch :: "RelayerHub \<Rightarrow> RelayerHub" where
  "startFailoverWatch h = (if h_failoverTimer h then h else h\<lparr> h_failoverTimer := True \<rparr>)"

definition stopFailoverWatch :: "RelayerHub \<Rightarrow> RelayerHub" where
  "stopFailoverWatch h = (if h_failoverTimer h then h\<lparr> h_failoverTimer := False \<rparr> else h)"

definition hub_startPruneWatch :: "RelayerHub \<Rightarrow> RelayerHub" where
  "hub_startPruneWatch h = (if h_pruneTimer h then h else h\<lparr> h_pruneTimer := True \<rparr>)"

definition hub_stopPruneWatch :: "RelayerHub \<Rightarrow> RelayerHub" where
  "hub_stopPruneWatch h = (if h_pruneTimer h then h\<lparr> h_pruneTimer := False \<rparr> else h)"

definition hub_stop :: "RelayerHub \<Rightarrow> RelayerHub" where
  "hub_stop h = hub_stopPruneWatch (stopFailoverWatch h)"

definition prune_hub :: "int \<Rightarrow> RelayerHub \<Rightarrow> RelayerHub" where
  "prune_hub now h =
     h\<lparr> h_bids := prune_lists (\<lambda>b. now - snd b < BID_EXPIRY_MS) (h_bids h),
        h_assignments := prune_entries (\<lambda>a. \<not> now - snd a \<ge> ASSIGNMENT_EXPIRY_MS) (h_assignments h),
        h_outcomes := prune_lists (\<lambda>x. oe_at x \<ge> now - SCORE_WINDOW_MS) (h_outcomes h) \<rparr>"

definition hub_prune :: "'w hub_config \<Rightarrow> int \<Rightarrow> ('w, unit) hub_prog" where
  "hub_prune cfg now = bnd (hub (prune_hub now)) (\<lambda>_. ignore_error (persistState cfg))"

definition fresh_outcomes :: "string \<Rightarrow> int \<Rightarrow> RelayerHub \<Rightarrow> OutcomeEntry list" where
  "fresh_outcomes operator now h = filter (\<lambda>x. oe_at x \<ge> now - SCORE_WINDOW_MS) (outcomesFor operator h)"

definition windowedOutcomes :: "string \<Rightarrow> int \<Rightarrow> ('w, OutcomeEntry list) hub_prog" where
  "windowedOutcomes operator now =
     bnd (gets (\<lambda>s. (outcomesFor operator (fst s), fresh_outcomes operator now (fst s)))) (\<lambda>(l, fresh).
     bnd (if length fresh \<noteq> length l
          then hub (\<lambda>h. h\<lparr> h_outcomes := AList.update operator fresh (h_outcomes h) \<rparr>) else ret ()) (\<lambda>_.
     ret fresh))"

definition score_of :: "string \<Rightarrow> OutcomeEntry list \<Rightarrow> RelayerScore" where
  "score_of operator entries =
     (let completed = length (filter (\<lambda>x. oe_result x = Completed) entries);
          failed = length (filter (\<lambda>x. oe_result x = Failed) entries);
          resolved = completed + failed
      in \<lparr> rs_operator = operator,
           rs_score = (if resolved = 0 then NEUTRAL_RELAYER_SCORE else of_nat completed / of_nat resolved),
           rs_completed = completed, rs_failed = failed, rs_windowMs = SCORE_WINDOW_MS \<rparr>)"

definition scoreFor :: "'w hub_config \<Rightarrow> string \<Rightarrow> ('w, RelayerScore) hub_prog" where
  "scoreFor cfg operator =
     bnd (hub_now cfg) (\<lambda>now.
     bnd (windowedOutcomes operator now) (\<lambda>entries. ret (score_of operator entries)))"

text \<open>\<open>b.score - a.score || a.operator.localeCompare(b.operator)\<close>, read as "not after".\<close>

definition score_le :: "(string \<Rightarrow> string \<Rightarrow> int) \<Rightarrow> RelayerScore \<Rightarrow> RelayerScore \<Rightarrow> bool" where
  "score_le lc a b \<longleftrightarrow> (if rs_score b - rs_score a \<noteq> 0 then rs_score b - rs_score a \<le> 0
     else lc (rs_operator a) (rs_operator b) \<le> 0)"

text \<open>The stable sort of \<open>Array.prototype.sort\<close> for a comparator read as a relation.\<close>

fun insert_by :: "('a \<Rightarrow> 'a \<Rightarrow> bool) \<Rightarrow> 'a \<Rightarrow> 'a list \<Rightarrow> 'a list" where
  "insert_by le x [] = [x]"
| "insert_by le x (y # ys) = (if le x y then x # y # ys else y # insert_by le x ys)"

definition sort_by :: "('a \<Rightarrow> 'a \<Rightarrow> bool) \<Rightarrow> 'a list \<Rightarrow> 'a list" where
  "sort_by le xs = foldr (insert_by le) xs []"

definition allScores :: "'w hub_config \<Rightarrow> ('w, RelayerScore list) hub_prog" where
  "allScores cfg =
     bnd (gets (\<lambda>s. h_knownOperators (fst s))) (\<lambda>ops.
     bnd (prog_map (scoreFor cfg) ops) (\<lambda>scores. ret (sort_by (score_le (hc_localeCompare cfg)) scores)))"

definition hub_healthCheck :: "'w hub_config \<Rightarrow> ('w, bool \<times> int \<times> RelayerHubStats) hub_prog" where
  "hub_healthCheck cfg =
     bnd (hub_now cfg) (\<lambda>now. gets (\<lambda>s. (True, now - h_startedAt (fst s), h_stats (fst s))))"


section \<open>Starting and publishing\<close>

definition hub_start :: "'w hub_config \<Rightarrow> ('w, unit) hub_prog" where
  "hub_start cfg =
     bnd (gets (\<lambda>s. h_started (fst s))) (\<lambda>started.
       if started then ret ()
       else bnd (hub (\<lambda>h. h\<lparr> h_started := True \<rparr>)) (\<lambda>_.
            bnd (hydrateFromStore cfg) (\<lambda>_.
            bnd (on_snd (hc_subscribe cfg)) (\<lambda>_.
            hub (\<lambda>h. hub_startPruneWatch (startFailoverWatch h))))))"

definition publishGossipMessage :: "'w hub_config \<Rightarrow> jv \<Rightarrow> ('w, unit) hub_prog" where
  "publishGossipMessage cfg message =
     bnd (hub_start cfg) (\<lambda>_.
     bnd (of_res (validateRelayerMessage message)) (\<lambda>valid. on_snd (hc_publish cfg valid)))"

text \<open>The HTTP entry points: validate as one kind of message, then publish.\<close>

definition hub_handle :: "(jv \<Rightarrow> 'm res) \<Rightarrow> 'w hub_config \<Rightarrow> jv \<Rightarrow> ('w, unit) hub_prog" where
  "hub_handle validate cfg raw = bnd (of_res (validate raw)) (\<lambda>_. publishGossipMessage cfg raw)"

definition hub_handleAdvert :: "'w hub_config \<Rightarrow> jv \<Rightarrow> ('w, unit) hub_prog" where
  "hub_handleAdvert = hub_handle validateAdvert"

definition hub_handlePayload :: "'w hub_config \<Rightarrow> jv \<Rightarrow> ('w, unit) hub_prog" where
  "hub_handlePayload = hub_handle validatePayload"

definition handleOutcome :: "'w hub_config \<Rightarrow> jv \<Rightarrow> ('w, unit) hub_prog" where
  "handleOutcome = hub_handle validateOutcome"

definition handleHeartbeat :: "'w hub_config \<Rightarrow> jv \<Rightarrow> ('w, unit) hub_prog" where
  "handleHeartbeat = hub_handle validateHeartbeat"

definition subscribeGossip :: "nat \<Rightarrow> RelayerHub \<Rightarrow> RelayerHub" where
  "subscribeGossip handler h = h\<lparr> h_subscribers := set_add handler (h_subscribers h) \<rparr>"

definition unsubscribeGossip :: "nat \<Rightarrow> RelayerHub \<Rightarrow> RelayerHub" where
  "unsubscribeGossip handler h = h\<lparr> h_subscribers := removeAll handler (h_subscribers h) \<rparr>"

text \<open>The handler an engine subscribes to the gossip; \<open>publish\<close> sends a bid.\<close>

definition attachRelayerEngineToGossip ::
    "'w RelayerEngineConfig \<Rightarrow> (RelayerBid \<Rightarrow> ('w, unit) prog) \<Rightarrow> jv \<Rightarrow> ('w, unit) engine_prog" where
  "attachRelayerEngineToGossip cfg publish message =
     (if jv_get message ''t'' = JStr ''advert''
      then bnd (handleAdvert cfg message) (\<lambda>bid. case bid of None \<Rightarrow> ret () | Some b \<Rightarrow> on_snd (publish b))
      else if jv_get message ''t'' = JStr ''bid''
      then bnd (of_res (validateBid message)) (\<lambda>b. rememberBid cfg b)
      else if jv_get message ''t'' = JStr ''payload''
      then bnd (handlePayload cfg message) (\<lambda>_. ret ())
      else ret ())"

end
