(* ===== verification/Relayer_Hub_Props.thy ===== *)
theory Relayer_Hub_Props
  imports Relayer_Hub
begin

text \<open>
  Properties of the hub: its maps stay well-formed under everything it does, failover moves
  exactly the stalled jobs that have a live bidder, scores are completion rates in order, and a
  restarted hub has what the last one saved.
\<close>

section \<open>Frames\<close>

lemma find_SomeD: "find P xs = Some x \<Longrightarrow> x \<in> set xs \<and> P x"
  by (auto simp: find_Some_iff)

lemma wp_hub [wp_simps, simp]: "wp (hub f) Q E s = Q () (f (fst s), snd s)"
  by (simp add: hub_def)

lemma wp_count_hub [wp_simps, simp]:
  "wp (count_hub f) Q E s = Q () ((fst s)\<lparr> h_stats := f (h_stats (fst s)) \<rparr>, snd s)"
  by (simp add: count_hub_def)

lemma wp_hub_now: "(\<And>t w. Q t (fst s, w)) \<Longrightarrow> wp (hub_now cfg) Q E s"
  by (auto simp: hub_now_def wp_on_snd)

lemma wp_persistState:
  assumes "\<And>w. Q () (fst s, w)" "\<And>e w. E e (fst s, w)"
  shows "wp (persistState cfg) Q E s"
  using assms(1) [of "snd s"] assms by (auto simp: persistState_def split: option.split intro!: wp_any)

lemma wp_run_handlers:
  assumes "\<And>w. Q () (h, w)" "\<And>e w. E e (h, w)"
  shows "wp (run_handlers (map (\<lambda>i. on_snd (m i)) xs)) Q E (h, w)"
  using assms
proof (induction xs arbitrary: Q E w)
  case (Cons x xs)
  show ?case
    by (simp only: list.map run_handlers.simps,
        rule wp_bndI [where R = "\<lambda>_ s. fst s = h"], (auto intro!: wp_any) [1])
       (auto split: option.split intro!: Cons)
qed simp

lemma wp_notify_subscribers:
  assumes "\<And>w. Q () (fst s, w)" "\<And>e w. E e (fst s, w)"
  shows "wp (notify_subscribers cfg m) Q E s"
  unfolding notify_subscribers_def using assms by (cases s) (auto intro!: wp_run_handlers)


section \<open>The invariant\<close>

definition bids_ok :: "string set \<Rightarrow> (string \<rightharpoonup> (RelayerBid \<times> int) list) \<Rightarrow> bool" where
  "bids_ok ops m \<longleftrightarrow> (\<forall>k l. m k = Some l \<longrightarrow> distinct (map (\<lambda>b. bid_operator (fst b)) l)
     \<and> (\<forall>b \<in> set l. to_lower (bid_jobId (fst b)) = k \<and> bid_operator (fst b) \<in> ops))"

definition assignments_ok :: "string set \<Rightarrow> (string \<rightharpoonup> string \<times> int) \<Rightarrow> bool" where
  "assignments_ok ops m \<longleftrightarrow> (\<forall>k v. m k = Some v \<longrightarrow> to_lower k = k \<and> fst v \<in> ops)"

definition hub_inv :: "RelayerHub \<Rightarrow> bool" where
  "hub_inv h \<longleftrightarrow> distinct_keys (h_bids h) \<and> distinct_keys (h_outcomes h) \<and> distinct_keys (h_lastHeartbeatAt h)
     \<and> distinct_keys (h_assignments h) \<and> distinct (h_knownOperators h)
     \<and> bids_ok (set (h_knownOperators h)) (map_of (h_bids h))
     \<and> assignments_ok (set (h_knownOperators h)) (map_of (h_assignments h))
     \<and> dom (map_of (h_outcomes h)) \<subseteq> set (h_knownOperators h)
     \<and> dom (map_of (h_lastHeartbeatAt h)) \<subseteq> set (h_knownOperators h)"

lemma ok_empty [simp]: "bids_ok ops (\<lambda>_. None)" "assignments_ok ops (\<lambda>_. None)"
  by (simp_all add: bids_ok_def assignments_ok_def)

lemma ok_mono: "bids_ok ops m \<Longrightarrow> bids_ok (insert x ops) m" "assignments_ok ops a \<Longrightarrow> assignments_ok (insert x ops) a"
  by (auto simp: bids_ok_def assignments_ok_def)

lemma bids_ok_upd:
  assumes "bids_ok ops m" "distinct (map (\<lambda>b. bid_operator (fst b)) l)"
    "\<forall>b \<in> set l. to_lower (bid_jobId (fst b)) = k \<and> bid_operator (fst b) \<in> ops"
  shows "bids_ok ops (m(k \<mapsto> l))"
  using assms by (auto simp: bids_ok_def)

lemma bids_ok_get: "bids_ok ops m \<Longrightarrow> m k = Some l \<Longrightarrow> distinct (map (\<lambda>b. bid_operator (fst b)) l)
  \<and> (\<forall>b \<in> set l. to_lower (bid_jobId (fst b)) = k \<and> bid_operator (fst b) \<in> ops)"
  by (auto simp: bids_ok_def)

lemma assignments_ok_upd: "assignments_ok ops m \<Longrightarrow> to_lower k = k \<Longrightarrow> fst v \<in> ops \<Longrightarrow> assignments_ok ops (m(k \<mapsto> v))"
  by (auto simp: assignments_ok_def)

lemma ok_del: "bids_ok ops m \<Longrightarrow> bids_ok ops (m(k := None))" "assignments_ok ops a \<Longrightarrow> assignments_ok ops (a(k := None))"
  by (auto simp: bids_ok_def assignments_ok_def)

lemma hub_inv_other [simp]:
  "hub_inv (h\<lparr> h_stats := st \<rparr>) = hub_inv h" "hub_inv (h\<lparr> h_subscribers := su \<rparr>) = hub_inv h"
  "hub_inv (h\<lparr> h_started := b \<rparr>) = hub_inv h"
  "hub_inv (h\<lparr> h_failoverTimer := b \<rparr>) = hub_inv h" "hub_inv (h\<lparr> h_pruneTimer := b \<rparr>) = hub_inv h"
  by (simp_all add: hub_inv_def)

lemma hub_inv_new: "hub_inv (new_hub t)"
  by (simp add: hub_inv_def new_hub_def)

lemma hub_inv_assign:
  "hub_inv h \<Longrightarrow> to_lower k = k \<Longrightarrow> a \<in> set (h_knownOperators h) \<Longrightarrow>
   hub_inv (h\<lparr> h_assignments := AList.update k (a, t) (h_assignments h) \<rparr>)"
  by (auto simp: hub_inv_def update_conv' intro!: distinct_update assignments_ok_upd)

lemma hub_inv_bid:
  assumes "hub_inv h" "\<forall>b \<in> set (hub_bidsFor (bid_jobId bid) h). bid_operator (fst b) \<noteq> bid_operator bid"
  shows "hub_inv (h\<lparr> h_bids := AList.update (to_lower (bid_jobId bid)) (hub_bidsFor (bid_jobId bid) h @ [(bid, t)]) (h_bids h),
     h_knownOperators := set_add (bid_operator bid) (h_knownOperators h) \<rparr>)"
proof -
  have "bids_ok (insert (bid_operator bid) (set (h_knownOperators h))) (map_of (h_bids h))"
    using assms(1) by (simp add: hub_inv_def ok_mono)
  then have "bids_ok (insert (bid_operator bid) (set (h_knownOperators h)))
      ((map_of (h_bids h))(to_lower (bid_jobId bid) \<mapsto> hub_bidsFor (bid_jobId bid) h @ [(bid, t)]))"
  proof (rule bids_ok_upd)
    have "distinct (map (\<lambda>b. bid_operator (fst b)) (hub_bidsFor (bid_jobId bid) h)) \<and>
        (\<forall>b \<in> set (hub_bidsFor (bid_jobId bid) h). to_lower (bid_jobId (fst b)) = to_lower (bid_jobId bid)
           \<and> bid_operator (fst b) \<in> set (h_knownOperators h))"
      using assms(1) bids_ok_get [of "set (h_knownOperators h)" "map_of (h_bids h)" "to_lower (bid_jobId bid)"]
      by (cases "map_of (h_bids h) (to_lower (bid_jobId bid))") (simp_all add: hub_inv_def hub_bidsFor_def del: map_of_eq_Some_iff)
    then show "distinct (map (\<lambda>b. bid_operator (fst b)) (hub_bidsFor (bid_jobId bid) h @ [(bid, t)]))"
      "\<forall>b \<in> set (hub_bidsFor (bid_jobId bid) h @ [(bid, t)]). to_lower (bid_jobId (fst b)) = to_lower (bid_jobId bid)
         \<and> bid_operator (fst b) \<in> insert (bid_operator bid) (set (h_knownOperators h))"
      using assms(2) by auto
  qed
  then show ?thesis
    using assms(1) by (auto simp: hub_inv_def update_conv' ok_mono intro!: distinct_update)
qed

lemma hub_inv_known:
  assumes "hub_inv h" shows "hub_inv (h\<lparr> h_knownOperators := set_add x (h_knownOperators h) \<rparr>)"
  using assms unfolding hub_inv_def by (auto simp: ok_mono)

lemma hub_inv_outcome:
  assumes "hub_inv h"
  shows "hub_inv (h\<lparr> h_knownOperators := set_add x (h_knownOperators h), h_outcomes := AList.update x l (h_outcomes h) \<rparr>)"
  using assms unfolding hub_inv_def by (auto simp: ok_mono update_conv' intro!: distinct_update)

lemma hub_inv_heartbeat:
  assumes "hub_inv h"
  shows "hub_inv (h\<lparr> h_knownOperators := set_add x (h_knownOperators h), h_lastHeartbeatAt := AList.update x t (h_lastHeartbeatAt h) \<rparr>)"
  using assms unfolding hub_inv_def by (auto simp: ok_mono update_conv' intro!: distinct_update)

lemma hub_inv_settle:
  assumes "hub_inv h"
  shows "hub_inv (h\<lparr> h_assignments := AList.delete k (h_assignments h), h_bids := AList.delete k (h_bids h) \<rparr>)"
  using assms unfolding hub_inv_def by (auto simp: delete_conv' ok_del intro!: distinct_delete)

lemma hub_inv_outcome_settle:
  assumes "hub_inv h"
  shows "hub_inv (h\<lparr> h_knownOperators := set_add x (h_knownOperators h), h_outcomes := AList.update x l (h_outcomes h),
     h_assignments := AList.delete k (h_assignments h), h_bids := AList.delete k (h_bids h) \<rparr>)"
  using hub_inv_settle [OF hub_inv_outcome [OF assms]] by simp

lemma prune_ok:
  "distinct_keys m \<Longrightarrow> bids_ok ops (map_of m) \<Longrightarrow> bids_ok ops (map_of (prune_lists P m))"
  "distinct_keys a \<Longrightarrow> assignments_ok ops (map_of a) \<Longrightarrow> assignments_ok ops (map_of (prune_entries R a))"
  "distinct_keys u \<Longrightarrow> dom (map_of (prune_lists T u)) \<subseteq> dom (map_of u)"
proof -
  assume d: "distinct_keys m" and ok: "bids_ok ops (map_of m)"
  show "bids_ok ops (map_of (prune_lists P m))"
    unfolding bids_ok_def map_of_prune_lists [OF d]
    using bids_ok_get [OF ok] by (force simp: distinct_map_filter simp del: map_of_eq_Some_iff split: option.splits if_splits)
next
  assume d: "distinct_keys a" and ok: "assignments_ok ops (map_of a)"
  then show "assignments_ok ops (map_of (prune_entries R a))"
    unfolding assignments_ok_def map_of_prune_entries [OF d]
    by (auto simp del: map_of_eq_Some_iff split: option.splits if_splits)
next
  assume d: "distinct_keys u"
  show "dom (map_of (prune_lists T u)) \<subseteq> dom (map_of u)"
    by (auto simp: map_of_prune_lists [OF d] simp del: map_of_eq_Some_iff split: option.splits if_splits)
qed

lemma hub_inv_prune:
  assumes "hub_inv h" shows "hub_inv (prune_hub now h)"
  using assms unfolding hub_inv_def prune_hub_def
  by (simp add: prune_ok distinct_prune_lists distinct_prune_entries order.trans [OF prune_ok(3)])

lemma hub_inv_window:
  assumes "hub_inv h" "map_of (h_outcomes h) x \<noteq> None"
  shows "hub_inv (h\<lparr> h_outcomes := AList.update x l (h_outcomes h) \<rparr>)"
  using assms unfolding hub_inv_def by (auto simp: update_conv' intro!: distinct_update)

lemmas hub_inv_intros = hub_inv_assign hub_inv_bid hub_inv_known hub_inv_outcome hub_inv_heartbeat
  hub_inv_settle hub_inv_prune hub_inv_window


lemma hub_bidsFor_known:
  assumes "hub_inv h" "b \<in> set (hub_bidsFor j h)"
  shows "bid_operator (fst b) \<in> set (h_knownOperators h)"
  using assms bids_ok_get [of _ "map_of (h_bids h)" "to_lower j"]
  by (cases "map_of (h_bids h) (to_lower j)") (auto simp: hub_bidsFor_def hub_inv_def simp del: map_of_eq_Some_iff)

section \<open>Everything the hub does keeps the invariant\<close>

lemma hub_rememberBid_inv:
  assumes "hub_inv (fst s)"
  shows "wp (hub_rememberBid cfg bid) (\<lambda>_ s. hub_inv (fst s)) (\<lambda>_ _. False) s"
proof -
  have [simp]: "hub_bidsFor (to_lower j) h = hub_bidsFor j h" for j h by (simp add: hub_bidsFor_def)
  show ?thesis
    using assms unfolding hub_rememberBid_def Let_def
    by (auto intro!: wp_hub_now wp_persistState hub_inv_known hub_inv_bid)
qed

lemma rememberAssignment_inv:
  assumes "hub_inv (fst s)"
  shows "wp (rememberAssignment cfg p) (\<lambda>_ s. hub_inv (fst s)) (\<lambda>_ _. False) s"
proof -
  have "bid_operator (fst b) \<in> set (h_knownOperators (fst s))" if "find P (hub_bidsFor j (fst s)) = Some b" for P j b
    using find_SomeD [OF that] hub_bidsFor_known [OF assms] by blast
  then show ?thesis
    using assms unfolding rememberAssignment_def Let_def
    by (auto split: option.split intro!: wp_hub_now hub_inv_assign)
qed

lemma hub_learn_inv:
  assumes "hub_inv (fst s)"
  shows "wp (hub_learn cfg m) (\<lambda>_ s. hub_inv (fst s)) (\<lambda>_ s. hub_inv (fst s)) s"
proof (cases m)
  case (MBid b)
  show ?thesis
    by (auto simp: MBid intro!: wp_persistState wp_mono [OF hub_rememberBid_inv [OF assms]])
next
  case (MPayload p)
  show ?thesis
    by (auto simp: MPayload intro!: wp_persistState wp_mono [OF rememberAssignment_inv [OF assms]])
qed (use assms in \<open>auto simp: recordOutcome_def recordHeartbeat_def
      intro!: wp_hub_now wp_persistState hub_inv_outcome_settle hub_inv_outcome hub_inv_heartbeat\<close>)

lemma hub_on_message_inv:
  assumes "hub_inv (fst s)"
  shows "wp (hub_on_message cfg raw) (\<lambda>_ s. hub_inv (fst s)) (\<lambda>_ _. False) s"
  unfolding hub_on_message_def
  by (rule wp_catchI [where R = "\<lambda>_ s. hub_inv (fst s)"],
      rule wp_bndI [where R = "\<lambda>_ s. hub_inv (fst s)"], (simp add: assms split: sum.split) [1],
      rule wp_bndI [OF hub_learn_inv], assumption, rule wp_notify_subscribers, simp_all)


section \<open>Failover\<close>

text \<open>The moves of one check, computed from the state before it.\<close>

definition failover_events :: "int \<Rightarrow> RelayerHub \<Rightarrow> (string \<times> (string \<times> int)) list \<Rightarrow> FailoverEvent list" where
  "failover_events now h es = concat (map (\<lambda>(jobId, operator, addedAt).
     if isNodeAlive operator now h then []
     else (case live_alternative jobId operator now h of None \<Rightarrow> []
           | Some a \<Rightarrow> [\<lparr> fo_jobId = jobId, fo_from = operator, fo_to = a \<rparr>])) es)"

definition apply_events :: "int \<Rightarrow> FailoverEvent list \<Rightarrow> RelayerHub \<Rightarrow> RelayerHub" where
  "apply_events now evs h = h\<lparr> h_assignments := foldl (\<lambda>m ev. AList.update (fo_jobId ev) (fo_to ev, now) m) (h_assignments h) evs \<rparr>"

lemma alive_other_assignments [simp]:
  "isNodeAlive x now (h\<lparr> h_assignments := a \<rparr>) = isNodeAlive x now h"
  "live_alternative j x now (h\<lparr> h_assignments := a \<rparr>) = live_alternative j x now h"
  by (simp_all add: isNodeAlive_def live_alternative_def hub_bidsFor_def)

lemma failover_events_other [simp]: "failover_events now (h\<lparr> h_assignments := a \<rparr>) es = failover_events now h es"
  by (simp add: failover_events_def cong: if_cong)

lemma failover_events_apply [simp]: "failover_events now (apply_events now evs h) es = failover_events now h es"
  by (simp add: apply_events_def)

lemma failover_events_Cons: "failover_events now h (e # es) = failover_events now h [e] @ failover_events now h es"
  by (simp add: failover_events_def)

lemma apply_events_append: "apply_events now (evs @ evs') h = apply_events now evs' (apply_events now evs h)"
  by (simp add: apply_events_def)

lemma failover_entries:
  "wp (prog_map (failover_entry cfg now) es)
     (\<lambda>r s'. concat r = failover_events now (fst s) es \<and> fst s' = apply_events now (failover_events now (fst s) es) (fst s))
     (\<lambda>_ _. True) s"
proof (induction es arbitrary: s)
  case (Cons e es)
  obtain j x t where e: "e = (j, x, t)" by (cases e)
  let ?ev = "failover_events now (fst s) [e]"
  have "wp (failover_entry cfg now e) (\<lambda>r s'. r = ?ev \<and> fst s' = apply_events now ?ev (fst s)) (\<lambda>_ _. True) s"
    unfolding failover_entry_def e
    by (auto simp: failover_events_def apply_events_def split: option.split intro!: wp_any)
  then show ?case
    unfolding prog_map.simps
    by (rule wp_bndI, intro wp_bndI [OF Cons.IH])
       (auto simp: failover_events_Cons [of _ _ e es] apply_events_append)
qed (simp add: failover_events_def apply_events_def)

lemma failover_events_jobs:
  "map fo_jobId (failover_events now h es) = map fst (filter (\<lambda>(j, x, t). \<not> isNodeAlive x now h \<and> live_alternative j x now h \<noteq> None) es)"
  by (induction es) (auto simp: failover_events_def split: option.splits if_splits)

lemma set_failover_events:
  "ev \<in> set (failover_events now h es) \<longleftrightarrow>
     (\<exists>t. (fo_jobId ev, fo_from ev, t) \<in> set es) \<and> \<not> isNodeAlive (fo_from ev) now h
      \<and> live_alternative (fo_jobId ev) (fo_from ev) now h = Some (fo_to ev)"
  by (cases ev) (force simp: failover_events_def split: option.splits)

lemma live_alternative_Some:
  "live_alternative j x now h = Some a \<Longrightarrow> a \<noteq> x \<and> isNodeAlive a now h \<and> a \<in> (\<lambda>b. bid_operator (fst b)) ` set (hub_bidsFor j h)"
  by (auto simp: live_alternative_def dest!: find_SomeD intro: rev_image_eqI)

lemma map_of_apply_events:
  assumes "distinct (map fo_jobId evs)"
  shows "map_of (h_assignments (apply_events now evs h)) k =
    (case find (\<lambda>ev. fo_jobId ev = k) evs of None \<Rightarrow> map_of (h_assignments h) k | Some ev \<Rightarrow> Some (fo_to ev, now))"
  using assms
proof (induction evs arbitrary: h)
  case (Cons ev evs)
  have "find (\<lambda>x. fo_jobId x = fo_jobId ev) evs = None"
    using Cons.prems by (simp add: find_None_iff image_iff) metis
  with Cons.IH [of "apply_events now [ev] h"] Cons.prems show ?case
    by (auto simp: apply_events_def split: option.split)
qed (simp add: apply_events_def)

lemma failover_inv:
  assumes "hub_inv h" "\<forall>e \<in> set es. to_lower (fst e) = fst e"
  shows "hub_inv (apply_events now (failover_events now h es) h)"
proof -
  have "hub_inv (apply_events now evs h)" if "\<forall>ev \<in> set evs. ev \<in> set (failover_events now h es)" for evs
    using that
  proof (induction evs rule: rev_induct)
    case (snoc ev evs)
    then have ev: "(\<exists>t. (fo_jobId ev, fo_from ev, t) \<in> set es)" "live_alternative (fo_jobId ev) (fo_from ev) now h = Some (fo_to ev)"
      by (simp_all add: set_failover_events)
    then have "fo_to ev \<in> set (h_knownOperators h)"
      using live_alternative_Some [OF ev(2)] hub_bidsFor_known [OF assms(1)] by auto
    with snoc ev assms(2) show ?case
      using hub_inv_assign [of "apply_events now evs h" "fo_jobId ev" "fo_to ev" now]
      by (auto simp: apply_events_def)
  qed (use assms(1) in \<open>simp add: apply_events_def\<close>)
  then show ?thesis by blast
qed


section \<open>Scores\<close>

lemma set_insert_by [simp]: "mset (insert_by le x xs) = add_mset x (mset xs)"
  by (induction xs) auto

lemma mset_sort_by [simp]: "mset (sort_by le xs) = mset xs"
  by (induction xs) (auto simp: sort_by_def)

text \<open>Sorting by a relation that refines a linear key leaves the key in order.\<close>

lemma sorted_sort_by:
  fixes key :: "'a \<Rightarrow> 'b :: linorder"
  assumes "\<And>a b. le a b \<Longrightarrow> key a \<ge> key b" "\<And>a b. \<not> le a b \<Longrightarrow> key b \<ge> key a"
  shows "sorted_wrt (\<lambda>a b. key a \<ge> key b) (sort_by le xs)"
proof -
  have ins: "sorted_wrt (\<lambda>a b. key a \<ge> key b) (insert_by le x ys)" if "sorted_wrt (\<lambda>a b. key a \<ge> key b) ys" for x ys
    using that
  proof (induction ys)
    case (Cons y ys)
    have "set (insert_by le x ys) = insert x (set ys)"
      by (metis set_insert_by set_mset_add_mset_insert set_mset_mset)
    with Cons assms show ?case by (fastforce intro: order.trans)
  qed simp
  show ?thesis by (induction xs) (auto simp: sort_by_def intro: ins)
qed

lemma score_of_bounds: "0 \<le> rs_score (score_of x es) \<and> rs_score (score_of x es) \<le> 1"
  by (auto simp: score_of_def Let_def NEUTRAL_RELAYER_SCORE_def divide_le_eq)

lemma outcomes_resolved:
  "length (filter (\<lambda>x. oe_result x = Completed) es) + length (filter (\<lambda>x. oe_result x = Failed) es) = length es"
  by (induction es) (auto intro: outcome_result.exhaust)

text \<open>What a returned score says of the outcomes the hub has for the operator.\<close>

definition score_sound :: "RelayerHub \<Rightarrow> string \<Rightarrow> RelayerScore \<Rightarrow> bool" where
  "score_sound h x r \<longleftrightarrow> (\<exists>now. r = score_of x (fresh_outcomes x now h))"

lemma wp_windowedOutcomes:
  "wp (windowedOutcomes x now) (\<lambda>l s'. l = fresh_outcomes x now (fst s) \<and>
     (fst s' = fst s \<or> fst s' = (fst s)\<lparr> h_outcomes := AList.update x l (h_outcomes (fst s)) \<rparr> \<and> map_of (h_outcomes (fst s)) x \<noteq> None))
     (\<lambda>_ _. False) s"
  by (auto simp: windowedOutcomes_def fresh_outcomes_def outcomesFor_def simp del: map_of_eq_Some_iff split: option.splits)

lemma scoreFor_inv:
  assumes "hub_inv (fst s)"
  shows "wp (scoreFor cfg x) (\<lambda>r s'. hub_inv (fst s') \<and> (\<exists>now. r = score_of x (fresh_outcomes x now (fst s)))
     \<and> (\<forall>y. y \<noteq> x \<longrightarrow> map_of (h_outcomes (fst s')) y = map_of (h_outcomes (fst s)) y)) (\<lambda>_ _. False) s"
  unfolding scoreFor_def
  by (rule wp_bndI [where R = "\<lambda>_ s'. fst s' = fst s"], (auto intro!: wp_hub_now) [1],
      rule wp_bndI [OF wp_windowedOutcomes])
     (use assms in \<open>auto simp del: map_of_eq_Some_iff intro!: hub_inv_window\<close>)

lemma scores_sound:
  assumes "distinct ops" "hub_inv (fst s)"
  shows "wp (prog_map (scoreFor cfg) ops) (\<lambda>rs s'. hub_inv (fst s') \<and> list_all2 (score_sound (fst s)) ops rs) (\<lambda>_ _. False) s"
  using assms
proof (induction ops arbitrary: s)
  case (Cons x ops)
  have same: "score_sound h y r = score_sound h' y r" if "map_of (h_outcomes h) y = map_of (h_outcomes h') y" for h h' y r
    using that by (simp add: score_sound_def fresh_outcomes_def outcomesFor_def)
  show ?case
    unfolding prog_map.simps
  proof (rule wp_bndI [OF scoreFor_inv [OF Cons.prems(2)]])
    fix r and s1 :: "RelayerHub \<times> 'a"
    assume r: "hub_inv (fst s1) \<and> (\<exists>now. r = score_of x (fresh_outcomes x now (fst s)))
     \<and> (\<forall>y. y \<noteq> x \<longrightarrow> map_of (h_outcomes (fst s1)) y = map_of (h_outcomes (fst s)) y)"
    have "list_all2 (score_sound (fst s)) ops rs" if "list_all2 (score_sound (fst s1)) ops rs" for rs
    proof (rule list.rel_mono_strong [OF that])
      fix y z assume "y \<in> set ops" "score_sound (fst s1) y z"
      moreover from \<open>y \<in> set ops\<close> have "map_of (h_outcomes (fst s1)) y = map_of (h_outcomes (fst s)) y"
        using r Cons.prems(1) by auto
      ultimately show "score_sound (fst s) y z" using same by blast
    qed
    with r Cons.prems show "wp (bnd (prog_map (scoreFor cfg) ops) (\<lambda>ys. ret (r # ys)))
        (\<lambda>rs s'. hub_inv (fst s') \<and> list_all2 (score_sound (fst s)) (x # ops) rs) (\<lambda>_ _. False) s1"
      by (auto simp: score_sound_def intro!: wp_mono [OF Cons.IH])
  qed
qed simp


section \<open>Saving and restarting\<close>

lemma put_all_fresh: "distinct_keys (m @ es) \<Longrightarrow> put_all es m = m @ es"
proof (induction es arbitrary: m)
  case (Cons e es)
  then show ?case
    using Cons.IH [of "m @ [e]"] by (cases e) (auto simp: put_all_def update_fresh)
qed (simp add: put_all_def)

lemma set_add_all: "distinct (xs @ ys) \<Longrightarrow> foldl (\<lambda>ops x. set_add x ops) xs ys = xs @ ys"
proof (induction ys arbitrary: xs)
  case (Cons y ys)
  then show ?case using Cons.IH [of "xs @ [y]"] by (simp add: set_add_def)
qed simp

lemma restore_saved_bids: "prog_map (restore_bid cfg) (map (\<lambda>(b, t). (b, Some t)) v) s = (Inr v, s)"
  by (induction v) (auto simp: restore_bid_def bnd_def)

lemma restore_all_bids:
  assumes "distinct_keys (h_bids h @ bs)"
  shows "prog_iter (restore_bids cfg) (map (\<lambda>(k, v). (k, map (\<lambda>(b, t). (b, Some t)) v)) bs) (h, w)
    = (Inr (), (h\<lparr> h_bids := h_bids h @ bs \<rparr>, w))"
  using assms
proof (induction bs arbitrary: h)
  case (Cons e bs)
  obtain k v where e: "e = (k, v)" by (cases e)
  have "restore_bids cfg (k, map (\<lambda>(b, t). (b, Some t)) v) (h, w) = (Inr (), (h\<lparr> h_bids := h_bids h @ [(k, v)] \<rparr>, w))"
    using Cons.prems by (simp add: e restore_bids_def bnd_Inr [OF restore_saved_bids] hub_def upd_def update_fresh)
  with Cons e show ?case by (simp add: bnd_Inr)
qed simp

lemma restore_all_assignments:
  assumes "distinct_keys (h_assignments (fst s) @ es)"
  shows "wp (prog_iter (restore_assignment cfg) (map (\<lambda>(k, v). (k, SavedOperator (fst v))) es))
    (\<lambda>_ s'. h_bids (fst s') = h_bids (fst s) \<and> h_outcomes (fst s') = h_outcomes (fst s)
       \<and> h_knownOperators (fst s') = h_knownOperators (fst s) \<and> h_lastHeartbeatAt (fst s') = h_lastHeartbeatAt (fst s)
       \<and> h_stats (fst s') = h_stats (fst s) \<and> map fst (h_assignments (fst s')) = map fst (h_assignments (fst s) @ es)
       \<and> map (fst \<circ> snd) (h_assignments (fst s')) = map (fst \<circ> snd) (h_assignments (fst s) @ es)) (\<lambda>_ _. False) s"
  using assms
proof (induction es arbitrary: s)
  case (Cons e es)
  obtain k op t where e: "e = (k, op, t)" by (cases e)
  have one: "wp (restore_assignment cfg (k, SavedOperator op))
    (\<lambda>_ s'. \<exists>t. fst s' = (fst s)\<lparr> h_assignments := h_assignments (fst s) @ [(k, op, t)] \<rparr>) (\<lambda>_ _. False) s"
    using Cons.prems by (auto simp: e restore_assignment_def update_fresh intro!: wp_hub_now)
  show ?case
    unfolding e list.map prog_iter.simps prod.case fst_conv
    by (rule wp_bndI [OF one], elim exE, rule wp_mono [OF Cons.IH])
       (use Cons.prems e in auto)
qed simp

text \<open>
  What a hub started after a crash has of the hub before: everything but the last error and the
  times at which jobs were assigned, which start anew.
\<close>

definition restored :: "RelayerHub \<Rightarrow> RelayerHub \<Rightarrow> bool" where
  "restored h h' \<longleftrightarrow> h_bids h' = h_bids h \<and> h_outcomes h' = h_outcomes h \<and> h_knownOperators h' = h_knownOperators h
     \<and> h_lastHeartbeatAt h' = h_lastHeartbeatAt h \<and> map fst (h_assignments h') = map fst (h_assignments h)
     \<and> map (fst \<circ> snd) (h_assignments h') = map (fst \<circ> snd) (h_assignments h)
     \<and> h_stats h' = (h_stats h)\<lparr> hs_lastError := None \<rparr>"

lemma hydrate_snapshot:
  assumes "hc_store cfg = Some S" "fst (st_load S w) = Inr (Some (hub_snapshot h))" "hub_inv h"
  shows "wp (hydrateFromStore cfg) (\<lambda>_ s'. restored h (fst s')) (\<lambda>_ _. False) (new_hub t, w)"
proof -
  obtain w1 where load: "st_load S w = (Inr (Some (hub_snapshot h)), w1)" using assms(2) by (cases "st_load S w") auto
  let ?h1 = "(new_hub t)\<lparr> h_bids := h_bids h \<rparr>"
  let ?h2 = "?h1\<lparr> h_outcomes := h_outcomes h, h_knownOperators := h_knownOperators h, h_lastHeartbeatAt := h_lastHeartbeatAt h \<rparr>"
  have bids: "prog_iter (restore_bids cfg) (st_bids (hub_snapshot h)) (new_hub t, w1) = (Inr (), (?h1, w1))"
    using restore_all_bids [of "new_hub t" "h_bids h" cfg w1] assms(3) by (simp add: hub_inv_def hub_snapshot_def new_hub_def)
  have rest: "wp (prog_iter (restore_assignment cfg) (st_assignments (hub_snapshot h)))
    (\<lambda>_ s'. h_bids (fst s') = h_bids h \<and> h_outcomes (fst s') = h_outcomes h
       \<and> h_knownOperators (fst s') = h_knownOperators h \<and> h_lastHeartbeatAt (fst s') = h_lastHeartbeatAt h
       \<and> h_stats (fst s') = h_stats (new_hub t) \<and> map fst (h_assignments (fst s')) = map fst (h_assignments h)
       \<and> map (fst \<circ> snd) (h_assignments (fst s')) = map (fst \<circ> snd) (h_assignments h)) (\<lambda>_ _. False) (?h2, w1)"
    using restore_all_assignments [of "(?h2, w1)" "h_assignments h" cfg] assms(3)
    by (simp add: hub_inv_def hub_snapshot_def new_hub_def)
  have "put_all (h_outcomes h) [] = h_outcomes h" "put_all (h_lastHeartbeatAt h) [] = h_lastHeartbeatAt h"
    "foldl (\<lambda>ops x. set_add x ops) [] (h_knownOperators h) = h_knownOperators h"
    using assms(3) by (simp_all add: hub_inv_def put_all_fresh [of "[]"] set_add_all [of "[]"])
  then have snap: "st_outcomes (hub_snapshot h) = h_outcomes h" "st_lastHeartbeatAt (hub_snapshot h) = h_lastHeartbeatAt h"
     "st_knownOperators (hub_snapshot h) = h_knownOperators h" "st_stats (hub_snapshot h) = Some (h_stats h)"
     "put_all (h_outcomes h) (h_outcomes (new_hub t)) = h_outcomes h"
     "put_all (h_lastHeartbeatAt h) (h_lastHeartbeatAt (new_hub t)) = h_lastHeartbeatAt h"
     "foldl (\<lambda>ops x. set_add x ops) (h_knownOperators (new_hub t)) (h_knownOperators h) = h_knownOperators h"
    by (simp_all add: hub_snapshot_def new_hub_def)
  have "hydrateFromStore cfg (new_hub t, w)
    = bnd (prog_iter (restore_assignment cfg) (st_assignments (hub_snapshot h))) (\<lambda>_. count_hub (restore_stats (h_stats h))) (?h2, w1)"
    by (simp add: hydrateFromStore_def assms(1) bnd_def on_snd_def load bids hub_def upd_def snap)
  then have "wp (hydrateFromStore cfg) Q E (new_hub t, w)
    = wp (bnd (prog_iter (restore_assignment cfg) (st_assignments (hub_snapshot h))) (\<lambda>_. count_hub (restore_stats (h_stats h)))) Q E (?h2, w1)" for Q E
    by (simp only: wp_def)
  moreover have "wp (bnd (prog_iter (restore_assignment cfg) (st_assignments (hub_snapshot h))) (\<lambda>_. count_hub (restore_stats (h_stats h))))
     (\<lambda>_ s'. restored h (fst s')) (\<lambda>_ _. False) (?h2, w1)"
    by (rule wp_bndI [OF rest], cases "h_stats h") (auto simp: restored_def new_hub_def restore_stats_def)
  ultimately show ?thesis by simp
qed

locale hub_durability = durable_store S
  for S :: "('w, HubState) store_ops"
begin

text \<open>A hub started on a store the last hub saved to.\<close>

lemma restart_restores:
  assumes "hc_store cfg = Some S" "hub_inv h" "persistState cfg (h, w) = (Inr (), (h', w'))"
  shows "\<exists>h2 w2. hydrateFromStore cfg (new_hub t, w') = (Inr (), (h2, w2)) \<and> restored h h2"
proof -
  have "st_save S (hub_snapshot h) w = (Inr (), w')"
    using assms(1,3) by (auto simp: persistState_def run_simps split: prod.splits sum.splits)
  from hydrate_snapshot [OF assms(1) load_after_save [OF this] assms(2), of t] show ?thesis
    by (cases "hydrateFromStore cfg (new_hub t, w')") (auto simp: wp_def split: sum.splits)
qed

end

interpretation mem_hub: hub_durability MemoryStore
  by unfold_locales


section \<open>The hub as a state machine\<close>

text \<open>
  Everything that can happen to a hub, with anything happening to the world in between: gossip, a
  failover check, pruning, a request for scores, subscriptions and the timers.
\<close>

inductive hub_reachable :: "'w hub_config \<Rightarrow> RelayerHub \<Rightarrow> bool" for cfg where
  fresh: "hub_reachable cfg (new_hub t)"
| message: "hub_reachable cfg h \<Longrightarrow> hub_reachable cfg (fst (snd (hub_on_message cfg raw (h, w))))"
| failover: "hub_reachable cfg h \<Longrightarrow> runFailoverCheck cfg now (h, w) = (Inr evs, (h', w')) \<Longrightarrow> hub_reachable cfg h'"
| prune: "hub_reachable cfg h \<Longrightarrow> hub_reachable cfg (fst (snd (hub_prune cfg now (h, w))))"
| scores: "hub_reachable cfg h \<Longrightarrow> hub_reachable cfg (fst (snd (allScores cfg (h, w))))"
| subscribe: "hub_reachable cfg h \<Longrightarrow> hub_reachable cfg (subscribeGossip i h)"
| unsubscribe: "hub_reachable cfg h \<Longrightarrow> hub_reachable cfg (unsubscribeGossip i h)"
| stop: "hub_reachable cfg h \<Longrightarrow> hub_reachable cfg (hub_stop h)"

lemma wp_fst: "wp m (\<lambda>_ s. P (fst s)) (\<lambda>_ s. P (fst s)) s \<Longrightarrow> P (fst (snd (m s)))"
  by (auto simp: wp_def split: prod.splits sum.splits)

lemma allScores_inv:
  assumes "hub_inv (fst s)"
  shows "wp (allScores cfg) (\<lambda>rs s'. hub_inv (fst s') \<and> (\<exists>xs. list_all2 (score_sound (fst s)) (h_knownOperators (fst s)) xs
     \<and> rs = sort_by (score_le (hc_localeCompare cfg)) xs)) (\<lambda>_ _. False) s"
  unfolding allScores_def
  using assms by (auto simp: hub_inv_def [of "fst s"] intro!: wp_mono [OF scores_sound])

lemma runFailoverCheck_result:
  assumes "runFailoverCheck cfg now (h, w) = (Inr evs, (h', w'))"
  shows "evs = failover_events now h (h_assignments h)" "h' = apply_events now evs h"
proof -
  have "wp (runFailoverCheck cfg now) (\<lambda>r s'. r = failover_events now h (h_assignments h) \<and> fst s' = apply_events now r h) (\<lambda>_ _. True) (h, w)"
    unfolding runFailoverCheck_def using failover_entries [of cfg now "h_assignments h" "(h, w)"]
    by (auto elim!: wp_mono)
  from wp_InrD [OF this assms] show "evs = failover_events now h (h_assignments h)" "h' = apply_events now evs h" by auto
qed

lemma hub_inv_keys:
  assumes "hub_inv h" "e \<in> set (h_assignments h)"
  shows "to_lower (fst e) = fst e"
  using assms by (cases e) (auto simp: hub_inv_def assignments_ok_def)


section \<open>Properties\<close>


text \<open>
  A failover check moves a job exactly when its operator is down and another bidder of the
  job is alive. Each reported move is from the assigned, dead operator to a live, different bidder
  and is what the table says afterwards; no job moves twice; every other assignment is as it was;
  and afterwards no job is left with a dead operator while a live alternative has bid on it.
\<close>

lemma failover_moves_exactly_stalled_jobs:
  assumes "hub_inv h" "runFailoverCheck cfg now (h, w) = (Inr evs, (h', w'))"
  shows "distinct (map fo_jobId evs)
    \<and> (\<forall>ev \<in> set evs. (\<exists>t. map_of (h_assignments h) (fo_jobId ev) = Some (fo_from ev, t))
         \<and> \<not> isNodeAlive (fo_from ev) now h \<and> isNodeAlive (fo_to ev) now h \<and> fo_to ev \<noteq> fo_from ev
         \<and> fo_to ev \<in> (\<lambda>b. bid_operator (fst b)) ` set (hub_bidsFor (fo_jobId ev) h)
         \<and> map_of (h_assignments h') (fo_jobId ev) = Some (fo_to ev, now))
    \<and> (\<forall>k. k \<notin> fo_jobId ` set evs \<longrightarrow> map_of (h_assignments h') k = map_of (h_assignments h) k)
    \<and> (\<forall>k x t. map_of (h_assignments h') k = Some (x, t) \<longrightarrow> isNodeAlive x now h \<or> live_alternative k x now h = None)"
proof -
  note evs = runFailoverCheck_result [OF assms(2)]
  have d: "distinct_keys (h_assignments h)" using assms(1) by (simp add: hub_inv_def)
  have dist: "distinct (map fo_jobId evs)"
    unfolding evs(1) failover_events_jobs using d by (rule distinct_map_filter)
  note after = map_of_apply_events [OF dist, of now h, folded evs(2)]
  have ev: "(\<exists>t. map_of (h_assignments h) (fo_jobId ev) = Some (fo_from ev, t)) \<and> \<not> isNodeAlive (fo_from ev) now h
      \<and> live_alternative (fo_jobId ev) (fo_from ev) now h = Some (fo_to ev)" if "ev \<in> set evs" for ev
    using that d unfolding evs(1) set_failover_events by simp
  have found: "find (\<lambda>x. fo_jobId x = fo_jobId ev) evs = Some ev" if "ev \<in> set evs" for ev
    using that dist by (cases "find (\<lambda>x. fo_jobId x = fo_jobId ev) evs")
      (auto simp: find_None_iff dest!: find_SomeD intro: map_inj_on distinct_map [THEN iffD1, THEN conjunct2, THEN inj_onD])
  have "map_of (h_assignments h') k = map_of (h_assignments h) k" if "k \<notin> fo_jobId ` set evs" for k
  proof -
    have "find (\<lambda>ev. fo_jobId ev = k) evs = None" using that by (auto simp: find_None_iff)
    then show ?thesis by (simp add: after)
  qed
  moreover have "isNodeAlive x now h \<or> live_alternative k x now h = None" if "map_of (h_assignments h') k = Some (x, t)" for k x t
  proof (cases "find (\<lambda>ev. fo_jobId ev = k) evs")
    case None
    then have "map_of (h_assignments h) k = Some (x, t)" "k \<notin> fo_jobId ` set evs"
      using that None by (simp add: after) (use None in \<open>auto simp: find_None_iff\<close>)
    then have "(k, x, t) \<in> set (h_assignments h)" "k \<notin> fo_jobId ` set evs"
      using d by simp_all
    then have "\<lparr> fo_jobId = k, fo_from = x, fo_to = a \<rparr> \<in> set evs"
      if "\<not> isNodeAlive x now h" "live_alternative k x now h = Some a" for a
      using that by (auto simp: evs(1) set_failover_events)
    with \<open>k \<notin> fo_jobId ` set evs\<close> show ?thesis by (cases "live_alternative k x now h") force+
  next
    case (Some ev)
    then show ?thesis using that ev [of ev] find_SomeD [OF Some] live_alternative_Some by (fastforce simp: after)
  qed
  moreover have "(\<exists>t. map_of (h_assignments h) (fo_jobId e) = Some (fo_from e, t))
         \<and> \<not> isNodeAlive (fo_from e) now h \<and> isNodeAlive (fo_to e) now h \<and> fo_to e \<noteq> fo_from e
         \<and> fo_to e \<in> (\<lambda>b. bid_operator (fst b)) ` set (hub_bidsFor (fo_jobId e) h)
         \<and> map_of (h_assignments h') (fo_jobId e) = Some (fo_to e, now)" if "e \<in> set evs" for e
    using ev [OF that] live_alternative_Some [of "fo_jobId e" "fo_from e" now h "fo_to e"] found [OF that]
    by (simp add: after del: map_of_eq_Some_iff)
  ultimately show ?thesis using dist by blast
qed


text \<open>An example hub: one job assigned to a silent operator, with a second, live bidder.\<close>

definition example_bid :: "string \<Rightarrow> RelayerBid" where
  "example_bid operator = \<lparr> bid_jobId = ''aa'', bid_chain = JNum 2, bid_operator = operator, bid_x25519Pk = ''01'',
     bid_sig = [], bid_endpoint = JUndef, bid_freeStake = JUndef \<rparr>"

definition example_hub :: RelayerHub where
  "example_hub = (new_hub 0)\<lparr> h_bids := [(''aa'', [(example_bid ''A'', 1), (example_bid ''B'', 2)])],
     h_knownOperators := [''A'', ''B''], h_lastHeartbeatAt := [(''B'', 90000)], h_assignments := [(''aa'', (''A'', 3))] \<rparr>"

definition example_hub_cfg :: "HubState option hub_config" where
  "example_hub_cfg = \<lparr> hc_publish = (\<lambda>_. ret ()), hc_subscribe = ret (), hc_onFailover = (\<lambda>_. ret ()),
     hc_store = Some MemoryStore, hc_handler = (\<lambda>_ _. ret ()), hc_localeCompare = (\<lambda>_ _. 0),
     hc_runtime = \<lparr> rt_now = (\<lambda>w. (100000, w)), rt_random = (\<lambda>w. (0, w)), rt_sleep = (\<lambda>_ w. w) \<rparr> \<rparr>"

lemma example_job_lower [simp]: "to_lower ''aa'' = ''aa''"
  by code_simp

lemma example_hub_inv: "hub_inv example_hub"
  by (auto simp: hub_inv_def example_hub_def new_hub_def bids_ok_def assignments_ok_def example_bid_def simp del: to_lower_Cons split: if_splits)

lemma example_failover:
  "runFailoverCheck example_hub_cfg 100000 (example_hub, None) =
     (Inr [\<lparr> fo_jobId = ''aa'', fo_from = ''A'', fo_to = ''B'' \<rparr>],
      (example_hub\<lparr> h_assignments := [(''aa'', (''B'', 100000))] \<rparr>, None))"
  by (simp add: runFailoverCheck_def failover_entry_def example_hub_def example_hub_cfg_def run_simps hub_def
      isNodeAlive_def live_alternative_def hub_bidsFor_def new_hub_def example_bid_def HEARTBEAT_MISS_THRESHOLD_MS_def
      del: to_lower_Cons)


lemma failover_moves_exactly_stalled_jobs_witness:
  "isNodeAlive ''B'' 100000 example_hub \<and> \<not> isNodeAlive ''A'' 100000 example_hub"
  using failover_moves_exactly_stalled_jobs [OF example_hub_inv example_failover] by simp

text \<open>
  The scores list every known operator once, best first, each score the operator's completed
  jobs over its resolved ones within the window and the neutral one when none is resolved, and so
  between 0 and 1. Listing never fails.
\<close>

lemma scores_complete_and_ordered:
  assumes "hub_inv h"
  shows "\<exists>rs s'. allScores cfg (h, w) = (Inr rs, s')
    \<and> mset (map rs_operator rs) = mset (h_knownOperators h)
    \<and> sorted_wrt (\<lambda>a b. rs_score a \<ge> rs_score b) rs
    \<and> (\<forall>r \<in> set rs. 0 \<le> rs_score r \<and> rs_score r \<le> 1 \<and>
         (\<exists>now. let es = fresh_outcomes (rs_operator r) now h in
            rs_completed r = length (filter (\<lambda>x. oe_result x = Completed) es) \<and>
            rs_score r = (if es = [] then 1 / 2 else of_nat (rs_completed r) / of_nat (length es))))"
proof -
  obtain rs s' xs where run: "allScores cfg (h, w) = (Inr rs, s')"
    and xs: "list_all2 (score_sound h) (h_knownOperators h) xs" "rs = sort_by (score_le (hc_localeCompare cfg)) xs"
    using allScores_inv [of "(h, w)" cfg] assms
    by (cases "allScores cfg (h, w)") (auto simp: wp_def split: sum.splits)
  have "map rs_operator xs = h_knownOperators h"
    using xs(1) by (induction rule: list_all2_induct) (auto simp: score_sound_def score_of_def Let_def)
  then have ops: "mset (map rs_operator rs) = mset (h_knownOperators h)" by (metis mset_map mset_sort_by xs(2))
  have "sorted_wrt (\<lambda>a b. rs_score a \<ge> rs_score b) rs"
    unfolding xs(2) by (rule sorted_sort_by) (auto simp: score_le_def split: if_splits)
  moreover have "0 \<le> rs_score r \<and> rs_score r \<le> 1 \<and>
         (\<exists>now. let es = fresh_outcomes (rs_operator r) now h in
            rs_completed r = length (filter (\<lambda>x. oe_result x = Completed) es) \<and>
            rs_score r = (if es = [] then 1 / 2 else of_nat (rs_completed r) / of_nat (length es)))" if "r \<in> set rs" for r
  proof -
    have "r \<in> set xs" using that by (metis xs(2) mset_sort_by set_mset_mset)
    then obtain x now where r: "r = score_of x (fresh_outcomes x now h)"
      using xs(1) by (auto simp: list_all2_conv_all_nth in_set_conv_nth score_sound_def)
    then have "rs_operator r = x" by (simp add: score_of_def Let_def)
    with r score_of_bounds outcomes_resolved [of "fresh_outcomes x now h"] show ?thesis
      by (auto simp: score_of_def Let_def NEUTRAL_RELAYER_SCORE_def simp del: length_0_conv simp flip: of_nat_add intro!: exI [of _ now])
  qed
  ultimately show ?thesis using run ops by blast
qed

lemma scores_complete_and_ordered_witness:
  "\<exists>rs s'. allScores example_hub_cfg (example_hub, None) = (Inr rs, s') \<and> mset (map rs_operator rs) = {# ''A'', ''B'' #}"
  using scores_complete_and_ordered [OF example_hub_inv, of example_hub_cfg None]
  by (auto simp: example_hub_def)

text \<open>
  Once a hub has saved its state in memory storage, a hub started afresh on that storage comes
  up without error with the same bids, outcomes, operators, heartbeats, job assignments and
  counters.
\<close>

lemma hub_restart_restores_state:
  assumes "hc_store cfg = Some MemoryStore" "hub_inv h" "persistState cfg (h, w) = (Inr (), (h', w'))"
  shows "\<exists>h2 w2. hydrateFromStore cfg (new_hub t, w') = (Inr (), (h2, w2))
    \<and> h_bids h2 = h_bids h \<and> h_outcomes h2 = h_outcomes h \<and> h_knownOperators h2 = h_knownOperators h
    \<and> h_lastHeartbeatAt h2 = h_lastHeartbeatAt h
    \<and> map (\<lambda>(k, v). (k, fst v)) (h_assignments h2) = map (\<lambda>(k, v). (k, fst v)) (h_assignments h)
    \<and> h_stats h2 = (h_stats h)\<lparr> hs_lastError := None \<rparr>"
proof -
  obtain h2 w2 where h2: "hydrateFromStore cfg (new_hub t, w') = (Inr (), (h2, w2))" "restored h h2"
    using mem_hub.restart_restores [OF assms, of t] by blast
  have pairs: "map (\<lambda>(k, v). (k, fst v)) a = zip (map fst a) (map (fst \<circ> snd) a)" for a :: "(string \<times> string \<times> int) list"
    by (induction a) auto
  from h2 show ?thesis unfolding restored_def pairs by auto
qed

lemma hub_restart_restores_state_witness:
  "\<exists>h2 w2. hydrateFromStore example_hub_cfg (new_hub 7, Some (hub_snapshot example_hub)) = (Inr (), (h2, w2))
     \<and> h_bids h2 = h_bids example_hub"
proof -
  have "persistState example_hub_cfg (example_hub, None) = (Inr (), (example_hub, Some (hub_snapshot example_hub)))"
    by (simp add: persistState_def example_hub_cfg_def MemoryStore_def run_simps)
  from hub_restart_restores_state [OF _ example_hub_inv this, of 7] show ?thesis
    by (auto simp: example_hub_cfg_def)
qed

end
