(* ===== verification/Rate_Limit.thy ===== *)
theory Rate_Limit
  imports Prelude
begin

text \<open>
  The guards in front of the services' HTTP endpoints: the numeric settings read from the
  environment (\<^verbatim>\<open>relayer/src/env.ts\<close>), the token-bucket rate limiter
  (\<^verbatim>\<open>relayer/src/rate-limit.ts\<close>) and the client address it is keyed by
  (\<^verbatim>\<open>relayer/src/trusted-proxy.ts\<close>). The publisher has copies of all three. Token counts are
  exact rationals where the source has doubles. The environment is a function from names to
  values.
\<close>

section \<open>Settings\<close>

type_synonym process_env = "string \<Rightarrow> string option"

record NumberEnvOptions =
  opt_min :: "rat option"
  opt_max :: "rat option"
  opt_integer :: bool

definition parseNumericString :: "string \<Rightarrow> string \<Rightarrow> rat res" where
  "parseNumericString name raw =
     (case js_Number_str (js_trim raw) of
        None \<Rightarrow> Inl (Error (''invalid value for '' @ name @ '': '' @ [CHR 0x22] @ raw @ [CHR 0x22] @ '' is not a valid number''))
      | Some v \<Rightarrow> Inr v)"

definition validate :: "string \<Rightarrow> rat \<Rightarrow> NumberEnvOptions \<Rightarrow> rat res" where
  "validate name value options =
     (if opt_integer options \<and> \<not> is_integer value
      then Inl (Error (''invalid value for '' @ name @ '': '' @ js_num_String value @ '' must be an integer''))
      else if (case opt_min options of None \<Rightarrow> False | Some m \<Rightarrow> value < m)
      then Inl (Error (''invalid value for '' @ name @ '': '' @ js_num_String value @ '' is below the minimum of ''
             @ js_num_String (case opt_min options of Some m \<Rightarrow> m | None \<Rightarrow> 0)))
      else if (case opt_max options of None \<Rightarrow> False | Some m \<Rightarrow> value > m)
      then Inl (Error (''invalid value for '' @ name @ '': '' @ js_num_String value @ '' is above the maximum of ''
             @ js_num_String (case opt_max options of Some m \<Rightarrow> m | None \<Rightarrow> 0)))
      else Inr value)"

definition numberEnv :: "process_env \<Rightarrow> string \<Rightarrow> rat \<Rightarrow> NumberEnvOptions \<Rightarrow> rat res" where
  "numberEnv env name defaultValue options =
     (case env name of None \<Rightarrow> validate name defaultValue options
      | Some raw \<Rightarrow> if js_trim raw = [] then validate name defaultValue options
                    else res_bind (parseNumericString name raw) (\<lambda>v. validate name v options))"

definition requiredNumberEnv :: "process_env \<Rightarrow> string \<Rightarrow> NumberEnvOptions \<Rightarrow> rat res" where
  "requiredNumberEnv env name options =
     (case env name of None \<Rightarrow> Inl (Error (''set '' @ name @ '' (required numeric environment variable)''))
      | Some raw \<Rightarrow> if js_trim raw = [] then Inl (Error (''set '' @ name @ '' (required numeric environment variable)''))
                    else res_bind (parseNumericString name raw) (\<lambda>v. validate name v options))"


section \<open>Token buckets\<close>

record Bucket =
  bk_tokens :: rat
  bk_lastRefill :: int

record RateLimitResult =
  rl_allowed :: bool
  rl_limit :: rat
  rl_remaining :: int
  rl_resetMs :: rat

record RateLimiter =
  rl_buckets :: "(string \<times> Bucket) list"
  rl_windowMs :: rat
  rl_maxRequests :: rat
  rl_burstSize :: rat
  rl_lastCleanup :: int

definition new_RateLimiter :: "rat \<Rightarrow> rat \<Rightarrow> rat \<Rightarrow> int \<Rightarrow> RateLimiter" where
  "new_RateLimiter windowMs maxRequests burstSize now =
     \<lparr> rl_buckets = [], rl_windowMs = windowMs, rl_maxRequests = maxRequests, rl_burstSize = burstSize,
       rl_lastCleanup = now \<rparr>"

definition maybeCleanup :: "int \<Rightarrow> RateLimiter \<Rightarrow> RateLimiter" where
  "maybeCleanup now limiter =
     (if of_int (now - rl_lastCleanup limiter) < rl_windowMs limiter * 2 then limiter
      else limiter\<lparr> rl_lastCleanup := now,
                rl_buckets := prune_entries (\<lambda>b. \<not> of_int (now - bk_lastRefill b) > rl_windowMs limiter * 3) (rl_buckets limiter) \<rparr>)"

definition refill :: "int \<Rightarrow> RateLimiter \<Rightarrow> Bucket \<Rightarrow> Bucket" where
  "refill now limiter bucket =
     (let elapsed = of_int (now - bk_lastRefill bucket) in
      if elapsed \<ge> rl_windowMs limiter then \<lparr> bk_tokens = rl_burstSize limiter, bk_lastRefill = now \<rparr>
      else \<lparr> bk_tokens = min (rl_burstSize limiter) (bk_tokens bucket + elapsed / rl_windowMs limiter * rl_maxRequests limiter),
             bk_lastRefill = now \<rparr>)"

definition bucket_for :: "string \<Rightarrow> int \<Rightarrow> RateLimiter \<Rightarrow> Bucket" where
  "bucket_for source now limiter =
     (case map_of (rl_buckets limiter) source of
        None \<Rightarrow> \<lparr> bk_tokens = rl_burstSize limiter, bk_lastRefill = now \<rparr> | Some b \<Rightarrow> b)"

definition consume :: "string \<Rightarrow> int \<Rightarrow> RateLimiter \<Rightarrow> RateLimitResult \<times> RateLimiter" where
  "consume source now limiter0 =
     (let limiter = maybeCleanup now limiter0;
          bucket = refill now limiter (bucket_for source now limiter);
          resetMs = of_int (bk_lastRefill bucket) + rl_windowMs limiter
      in if bk_tokens bucket \<ge> 1
         then (\<lparr> rl_allowed = True, rl_limit = rl_burstSize limiter, rl_remaining = \<lfloor>bk_tokens bucket - 1\<rfloor>, rl_resetMs = resetMs \<rparr>,
               limiter\<lparr> rl_buckets := AList.update source (bucket\<lparr> bk_tokens := bk_tokens bucket - 1 \<rparr>) (rl_buckets limiter) \<rparr>)
         else (\<lparr> rl_allowed = False, rl_limit = rl_burstSize limiter, rl_remaining = 0, rl_resetMs = resetMs \<rparr>,
               limiter\<lparr> rl_buckets := AList.update source bucket (rl_buckets limiter) \<rparr>))"

definition at_least_one :: NumberEnvOptions where
  "at_least_one = \<lparr> opt_min = Some 1, opt_max = None, opt_integer = False \<rparr>"

definition createRateLimiterFromEnv :: "process_env \<Rightarrow> int \<Rightarrow> RateLimiter res" where
  "createRateLimiterFromEnv env now =
     res_bind (numberEnv env ''RATE_LIMIT_WINDOW_MS'' 60000 at_least_one) (\<lambda>windowMs.
     res_bind (numberEnv env ''RATE_LIMIT_MAX_REQUESTS'' 120 at_least_one) (\<lambda>maxRequests.
     res_bind (numberEnv env ''RATE_LIMIT_BURST'' 20 at_least_one) (\<lambda>burstSize.
       Inr (new_RateLimiter windowMs maxRequests burstSize now))))"

definition createGlobalRateLimiterFromEnv :: "process_env \<Rightarrow> int \<Rightarrow> RateLimiter res" where
  "createGlobalRateLimiterFromEnv env now =
     res_bind (numberEnv env ''RATE_LIMIT_WINDOW_MS'' 60000 at_least_one) (\<lambda>windowMs.
     res_bind (numberEnv env ''RATE_LIMIT_GLOBAL_MAX_REQUESTS'' 600 at_least_one) (\<lambda>maxRequests.
     res_bind (numberEnv env ''RATE_LIMIT_GLOBAL_BURST'' 200 at_least_one) (\<lambda>burstSize.
       Inr (new_RateLimiter windowMs maxRequests burstSize now))))"


section \<open>The client's address\<close>

text \<open>\<open>s.split(sep)\<close> for a one-character separator.\<close>

fun split_on :: "char \<Rightarrow> string \<Rightarrow> string list" where
  "split_on sep [] = [[]]"
| "split_on sep (c # cs) =
     (if c = sep then [] # split_on sep cs
      else (case split_on sep cs of [] \<Rightarrow> [[c]] | x # xs \<Rightarrow> (c # x) # xs))"

definition trimmed_parts :: "string \<Rightarrow> string list" where
  "trimmed_parts s = filter (\<lambda>p. length p > 0) (map js_trim (split_on CHR '','' s))"

definition loadTrustedProxiesFromEnv :: "process_env \<Rightarrow> string list" where
  "loadTrustedProxiesFromEnv env =
     remdups (trimmed_parts (case env ''RELAYER_TRUSTED_PROXIES'' of None \<Rightarrow> [] | Some v \<Rightarrow> v))"

text \<open>
  The socket's peer address, when it has one, and the \<open>x-forwarded-for\<close> header, when it is a
  single string.
\<close>

definition resolveClientSource :: "string option \<Rightarrow> string option \<Rightarrow> string list \<Rightarrow> string" where
  "resolveClientSource remoteAddress forwarded trustedProxies =
     (let socketAddress = (case remoteAddress of None \<Rightarrow> ''unknown'' | Some a \<Rightarrow> a) in
      if trustedProxies = [] \<or> socketAddress \<notin> set trustedProxies then socketAddress
      else (case forwarded of None \<Rightarrow> socketAddress
            | Some f \<Rightarrow>
              if length (js_trim f) = 0 then socketAddress
              else let hops = trimmed_parts f in if length hops > 0 then last hops else socketAddress))"


section \<open>Runs of requests\<close>

text \<open>The settings a limiter keeps for good, and what makes them sensible.\<close>

definition settings_ok :: "RateLimiter \<Rightarrow> bool" where
  "settings_ok l \<longleftrightarrow> rl_windowMs l > 0 \<and> rl_maxRequests l \<ge> 0 \<and> rl_burstSize l \<ge> 0 \<and> distinct_keys (rl_buckets l)"

definition same_settings :: "RateLimiter \<Rightarrow> RateLimiter \<Rightarrow> bool" where
  "same_settings l l' \<longleftrightarrow> rl_windowMs l' = rl_windowMs l \<and> rl_maxRequests l' = rl_maxRequests l \<and> rl_burstSize l' = rl_burstSize l"

text \<open>A sequence of requests, each with its source and its time, and the answers.\<close>

fun run_requests :: "(string \<times> int) list \<Rightarrow> RateLimiter \<Rightarrow> bool list \<times> RateLimiter" where
  "run_requests [] l = ([], l)"
| "run_requests ((source, now) # rest) l =
     (case consume source now l of (r, l1) \<Rightarrow> case run_requests rest l1 of (rs, l2) \<Rightarrow> (rl_allowed r # rs, l2))"

definition answers_to :: "string \<Rightarrow> (string \<times> int) list \<Rightarrow> RateLimiter \<Rightarrow> bool list" where
  "answers_to source reqs l = map snd (filter (\<lambda>(r, a). fst r = source) (zip reqs (fst (run_requests reqs l))))"

lemma length_answers: "length (fst (run_requests reqs l)) = length reqs"
  by (induction reqs arbitrary: l) (auto split: prod.splits simp: prod_eq_iff)

lemma answers_to_Cons:
  "answers_to source ((s, now) # reqs) l =
     (if s = source then [rl_allowed (fst (consume s now l))] else []) @ answers_to source reqs (snd (consume s now l))"
  by (auto simp: answers_to_def split: prod.splits)

lemma answers_to_Nil [simp]: "answers_to source [] l = []"
  by (simp add: answers_to_def)

lemma maybeCleanup_buckets:
  assumes "distinct_keys (rl_buckets l)"
  shows "map_of (rl_buckets (maybeCleanup now l)) s = map_of (rl_buckets l) s \<or>
     map_of (rl_buckets (maybeCleanup now l)) s = None \<and>
     (\<exists>b. map_of (rl_buckets l) s = Some b \<and> of_int (now - bk_lastRefill b) > rl_windowMs l * 3)"
    and "same_settings l (maybeCleanup now l)" "distinct_keys (rl_buckets (maybeCleanup now l))"
  using assms
  by (auto simp: maybeCleanup_def same_settings_def map_of_prune_entries distinct_prune_entries simp del: map_of_eq_Some_iff
      split: option.split)

definition full :: "RateLimiter \<Rightarrow> int \<Rightarrow> Bucket" where
  "full l now = \<lparr> bk_tokens = rl_burstSize l, bk_lastRefill = now \<rparr>"

text \<open>The bucket a request is decided on, whatever the cleanup removed before.\<close>

definition current :: "string \<Rightarrow> int \<Rightarrow> RateLimiter \<Rightarrow> Bucket" where
  "current s now l = (case map_of (rl_buckets l) s of None \<Rightarrow> full l now | Some b \<Rightarrow> refill now l b)"

lemma refill_same: "same_settings l l' \<Longrightarrow> refill now l' b = refill now l b"
  by (simp add: refill_def same_settings_def Let_def)

lemma refill_idle: "of_int (now - bk_lastRefill b) \<ge> rl_windowMs l \<Longrightarrow> refill now l b = full l now"
  by (simp add: refill_def full_def)

lemma refill_full: "settings_ok l \<Longrightarrow> refill now l (full l now) = full l now"
  by (auto simp: refill_def full_def settings_ok_def)

lemma refill_after_cleanup:
  assumes "settings_ok l"
  shows "refill now (maybeCleanup now l) (bucket_for s now (maybeCleanup now l)) = current s now l"
proof -
  note c = maybeCleanup_buckets [of l now]
  have ok: "distinct_keys (rl_buckets l)" "rl_windowMs l > 0" using assms by (simp_all add: settings_ok_def)
  have full: "refill now (maybeCleanup now l) \<lparr> bk_tokens = rl_burstSize (maybeCleanup now l), bk_lastRefill = now \<rparr> = full l now"
    using refill_full [OF assms, of now] c(2) [OF ok(1)]
    by (simp add: refill_same [OF c(2) [OF ok(1)]] full_def) (simp add: same_settings_def)
  show ?thesis
    using c(1) [OF ok(1)]
  proof
    assume "map_of (rl_buckets (maybeCleanup now l)) s = map_of (rl_buckets l) s"
    then show ?thesis
      using full refill_same [OF c(2) [OF ok(1)]] by (auto simp: bucket_for_def current_def split: option.split)
  next
    assume a: "map_of (rl_buckets (maybeCleanup now l)) s = None \<and>
       (\<exists>b. map_of (rl_buckets l) s = Some b \<and> of_int (now - bk_lastRefill b) > rl_windowMs l * 3)"
    then obtain b where "map_of (rl_buckets l) s = Some b" "of_int (now - bk_lastRefill b) \<ge> rl_windowMs l"
      using ok(2) by force
    then show ?thesis using a full by (simp add: bucket_for_def current_def refill_idle)
  qed
qed

lemma consume_effect:
  assumes "settings_ok l" "consume s now l = (r, l')"
  shows "rl_allowed r \<longleftrightarrow> bk_tokens (current s now l) \<ge> 1"
    and "map_of (rl_buckets l') s = Some ((current s now l)\<lparr> bk_tokens := bk_tokens (current s now l) - (if rl_allowed r then 1 else 0) \<rparr>)"
    and "s' \<noteq> s \<Longrightarrow> map_of (rl_buckets l') s' = map_of (rl_buckets (maybeCleanup now l)) s'"
    and "same_settings l l'" "settings_ok l'"
  using assms maybeCleanup_buckets [of l now] refill_after_cleanup [OF assms(1), of now s]
  by (auto simp: consume_def Let_def same_settings_def settings_ok_def distinct_update simp del: map_of_eq_Some_iff split: if_splits)



section \<open>One source does not affect another\<close>

definition idle :: "string \<Rightarrow> int \<Rightarrow> RateLimiter \<Rightarrow> bool" where
  "idle s now l = (case map_of (rl_buckets l) s of None \<Rightarrow> True | Some b \<Rightarrow> of_int (now - bk_lastRefill b) \<ge> rl_windowMs l)"

definition alike :: "string \<Rightarrow> int \<Rightarrow> RateLimiter \<Rightarrow> RateLimiter \<Rightarrow> bool" where
  "alike s now l l' \<longleftrightarrow> settings_ok l \<and> settings_ok l' \<and> same_settings l l' \<and>
     (map_of (rl_buckets l) s = map_of (rl_buckets l') s \<or> idle s now l \<and> idle s now l')"

lemma alike_later: "alike s now l l' \<Longrightarrow> now \<le> now' \<Longrightarrow> alike s now' l l'"
  by (auto simp: alike_def idle_def simp del: map_of_eq_Some_iff split: option.splits)

lemma current_idle: "idle s now l \<Longrightarrow> current s now l = full l now"
  by (auto simp: idle_def current_def refill_idle split: option.splits)

lemma alike_current: "alike s now l l' \<Longrightarrow> current s now l' = current s now l"
proof -
  assume a: "alike s now l l'"
  then have "full l' now = full l now" by (simp add: alike_def same_settings_def full_def)
  moreover have "refill now l' b = refill now l b" for b
    using a by (intro refill_same) (simp add: alike_def)
  moreover have "map_of (rl_buckets l) s = map_of (rl_buckets l') s" if "\<not> (idle s now l \<and> idle s now l')"
    using a that by (auto simp: alike_def)
  ultimately show ?thesis
    by (cases "idle s now l \<and> idle s now l'") (simp_all add: current_idle, simp add: current_def split: option.split)
qed

lemma alike_consume_other:
  assumes "alike s now l l'" "s' \<noteq> s"
  shows "alike s now (snd (consume s' now l)) l'"
proof -
  obtain r l1 where c: "consume s' now l = (r, l1)" by (cases "consume s' now l")
  have ok: "settings_ok l" "settings_ok l'" "same_settings l l'" "distinct_keys (rl_buckets l)" "rl_windowMs l > 0"
    using assms(1) by (simp_all add: alike_def settings_ok_def)
  note e = consume_effect [OF ok(1) c]
  have same: "map_of (rl_buckets l1) s = map_of (rl_buckets (maybeCleanup now l)) s" using e(3) assms(2) by simp
  consider "map_of (rl_buckets l1) s = map_of (rl_buckets l) s"
    | b where "map_of (rl_buckets l1) s = None" "map_of (rl_buckets l) s = Some b" "of_int (now - bk_lastRefill b) \<ge> rl_windowMs l"
    using maybeCleanup_buckets(1) [OF ok(4), of now s] ok(5) same by force
  then have "map_of (rl_buckets l1) s = map_of (rl_buckets l') s \<or> idle s now l1 \<and> idle s now l'"
  proof cases
    case 1
    then have "idle s now l1 = idle s now l" using e(4) by (simp add: idle_def same_settings_def split: option.split)
    with 1 show ?thesis using assms(1) by (auto simp: alike_def)
  next
    case (2 b)
    then have "idle s now l'"
      using assms(1) ok(3) by (cases "map_of (rl_buckets l') s") (auto simp: alike_def idle_def same_settings_def simp del: map_of_eq_Some_iff)
    with 2 show ?thesis by (simp add: idle_def)
  qed
  with e(4,5) ok show ?thesis by (simp add: c alike_def same_settings_def)
qed

lemma alike_consume_same:
  assumes "alike s now l l'"
  shows "rl_allowed (fst (consume s now l')) = rl_allowed (fst (consume s now l))"
    "alike s now (snd (consume s now l)) (snd (consume s now l'))"
proof -
  obtain r l1 where c: "consume s now l = (r, l1)" by (cases "consume s now l")
  obtain r' l1' where c': "consume s now l' = (r', l1')" by (cases "consume s now l'")
  have ok: "settings_ok l" "settings_ok l'" "same_settings l l'" using assms by (simp_all add: alike_def)
  note e = consume_effect [OF ok(1) c] consume_effect [OF ok(2) c'] alike_current [OF assms]
  show "rl_allowed (fst (consume s now l')) = rl_allowed (fst (consume s now l))"
    using e by (simp add: c c')
  then show "alike s now (snd (consume s now l)) (snd (consume s now l'))"
    using e ok by (simp add: c c' alike_def same_settings_def del: map_of_eq_Some_iff)
qed

text \<open>Requests in the order of their times, none before a given time.\<close>

definition in_order :: "int \<Rightarrow> (string \<times> int) list \<Rightarrow> bool" where
  "in_order t reqs \<longleftrightarrow> sorted (t # map snd reqs)"

lemma in_order_Cons: "in_order t ((s, now) # reqs) \<longleftrightarrow> t \<le> now \<and> in_order now reqs"
  by (auto simp: in_order_def)

lemma answers_alike:
  assumes "alike s t l l'" "in_order t reqs"
  shows "answers_to s reqs l = fst (run_requests (filter (\<lambda>r. fst r = s) reqs) l')"
  using assms
proof (induction reqs arbitrary: t l l')
  case (Cons e reqs)
  obtain s' now where e: "e = (s', now)" by (cases e)
  have now: "t \<le> now" "in_order now reqs" using Cons.prems(2) by (simp_all add: e in_order_Cons)
  have a: "alike s now l l'" using alike_later [OF Cons.prems(1) now(1)] .
  show ?case
  proof (cases "s' = s")
    case True
    then show ?thesis
      using Cons.IH [OF alike_consume_same(2) [OF a] now(2)] alike_consume_same(1) [OF a]
      by (cases "consume s now l'") (auto simp: e answers_to_Cons split: prod.split)
  next
    case False
    then show ?thesis
      using Cons.IH [OF alike_consume_other [OF a False] now(2)] by (simp add: e answers_to_Cons)
  qed
qed simp


section \<open>How many requests a source gets through\<close>

text \<open>The rate at which a source's credit can grow, per window.\<close>

definition credit_rate :: "RateLimiter \<Rightarrow> rat" where
  "credit_rate l = max (rl_maxRequests l) (rl_burstSize l)"

definition credit :: "string \<Rightarrow> int \<Rightarrow> int \<Rightarrow> RateLimiter \<Rightarrow> rat" where
  "credit s t T l =
     (case map_of (rl_buckets l) s of
        None \<Rightarrow> rl_burstSize l + credit_rate l * of_int (T - t) / rl_windowMs l
      | Some b \<Rightarrow> bk_tokens b + credit_rate l * of_int (T - bk_lastRefill b) / rl_windowMs l)"

definition bucket_ok :: "string \<Rightarrow> int \<Rightarrow> RateLimiter \<Rightarrow> bool" where
  "bucket_ok s t l = (case map_of (rl_buckets l) s of None \<Rightarrow> True
     | Some b \<Rightarrow> bk_lastRefill b \<le> t \<and> 0 \<le> bk_tokens b)"

lemma bucket_ok_later: "bucket_ok s t l \<Longrightarrow> t \<le> t' \<Longrightarrow> bucket_ok s t' l"
  by (auto simp: bucket_ok_def split: option.splits)

lemma current_ok:
  assumes "settings_ok l" "bucket_ok s now l"
  shows "0 \<le> bk_tokens (current s now l)" "bk_lastRefill (current s now l) = now"
  using assms
  by (auto simp: current_def full_def refill_def Let_def settings_ok_def bucket_ok_def simp del: map_of_eq_Some_iff
      intro!: add_nonneg_nonneg divide_nonneg_nonneg mult_nonneg_nonneg split: option.splits)

lemma scale_mono: "(0::rat) < w \<Longrightarrow> 0 \<le> r \<Longrightarrow> a \<le> b \<Longrightarrow> r * a / w \<le> r * b / w"
  by (simp add: divide_right_mono mult_left_mono)

lemma refill_credit:
  assumes "settings_ok l" "0 \<le> bk_tokens b" "bk_lastRefill b \<le> now"
  shows "bk_tokens (refill now l b) \<le> bk_tokens b + credit_rate l * of_int (now - bk_lastRefill b) / rl_windowMs l"
proof -
  let ?e = "of_int (now - bk_lastRefill b) :: rat" and ?w = "rl_windowMs l"
  have w: "?w > 0" and nn: "0 \<le> rl_burstSize l" "0 \<le> rl_maxRequests l" "0 \<le> ?e"
    using assms by (simp_all add: settings_ok_def)
  have rate: "rl_maxRequests l \<le> credit_rate l" "rl_burstSize l \<le> credit_rate l" by (simp_all add: credit_rate_def)
  show ?thesis
  proof (cases "?e \<ge> ?w")
    case True
    have "rl_burstSize l * ?w \<le> credit_rate l * ?e" using True rate nn w by (intro mult_mono) auto
    then have "rl_burstSize l \<le> credit_rate l * ?e / ?w" using w by (simp add: pos_le_divide_eq)
    with True assms(2) show ?thesis by (simp add: refill_def)
  next
    case False
    have "?e / ?w * rl_maxRequests l \<le> credit_rate l * ?e / ?w"
      using rate nn w by (simp add: divide_right_mono mult_right_mono mult.commute)
    with False show ?thesis by (simp add: refill_def Let_def)
  qed
qed

lemma credit_consume_same:
  assumes "settings_ok l" "bucket_ok s now l" "t \<le> now" "consume s now l = (r, l')"
  shows "(if rl_allowed r then 1 else 0) + credit s now T l' \<le> credit s t T l" "bucket_ok s now l'"
proof -
  note e = consume_effect [OF assms(1,4)]
  have w: "rl_windowMs l > 0" "0 \<le> credit_rate l" using assms(1) by (simp_all add: settings_ok_def credit_rate_def le_max_iff_disj)
  have same: "credit_rate l' = credit_rate l" "rl_windowMs l' = rl_windowMs l"
    using e(4) by (simp_all add: same_settings_def credit_rate_def)
  have grow: "bk_tokens (current s now l) + credit_rate l * of_int (T - now) / rl_windowMs l \<le> credit s t T l"
  proof (cases "map_of (rl_buckets l) s")
    case None
    then show ?thesis using scale_mono [OF w, of "of_int (T - now)" "of_int (T - t)"] assms(3)
      by (simp add: current_def credit_def full_def)
  next
    case (Some b)
    have "credit_rate l * of_int (T - bk_lastRefill b) / rl_windowMs l =
        credit_rate l * of_int (now - bk_lastRefill b) / rl_windowMs l + credit_rate l * of_int (T - now) / rl_windowMs l"
      by (simp add: algebra_simps flip: add_divide_distrib)
    with Some refill_credit [OF assms(1), of b now] assms(2) show ?thesis
      by (simp add: current_def credit_def bucket_ok_def)
  qed
  show "(if rl_allowed r then 1 else 0) + credit s now T l' \<le> credit s t T l"
    using grow e(2) current_ok [OF assms(1,2)] same by (auto simp: credit_def simp del: map_of_eq_Some_iff)
  show "bucket_ok s now l'"
    using e(1,2) current_ok [OF assms(1,2)] by (auto simp: bucket_ok_def simp del: map_of_eq_Some_iff)
qed

lemma credit_consume_other:
  assumes "settings_ok l" "bucket_ok s now l" "t \<le> now" "consume s' now l = (r, l')" "s' \<noteq> s"
  shows "credit s now T l' \<le> credit s t T l" "bucket_ok s now l'"
proof -
  note e = consume_effect [OF assms(1,4)]
  have w: "rl_windowMs l > 0" "0 \<le> credit_rate l" "rl_burstSize l \<le> credit_rate l" "distinct_keys (rl_buckets l)"
    using assms(1) by (simp_all add: settings_ok_def credit_rate_def le_max_iff_disj)
  have same: "credit_rate l' = credit_rate l" "rl_windowMs l' = rl_windowMs l" "rl_burstSize l' = rl_burstSize l"
    using e(4) by (simp_all add: same_settings_def credit_rate_def)
  consider "map_of (rl_buckets l') s = map_of (rl_buckets l) s"
    | b where "map_of (rl_buckets l') s = None" "map_of (rl_buckets l) s = Some b" "of_int (now - bk_lastRefill b) > rl_windowMs l * 3"
    using maybeCleanup_buckets(1) [OF w(4), of now s] e(3) [of s] assms(5) by auto
  then have "credit s now T l' \<le> credit s t T l \<and> bucket_ok s now l'"
  proof cases
    case 1
    then show ?thesis
      using assms(2) scale_mono [OF w(1,2), of "of_int (T - now)" "of_int (T - t)"] assms(3) same
      by (auto simp: credit_def bucket_ok_def simp del: map_of_eq_Some_iff split: option.split)
  next
    case (2 b)
    have "credit_rate l * of_int (T - bk_lastRefill b) / rl_windowMs l =
        credit_rate l * of_int (now - bk_lastRefill b) / rl_windowMs l + credit_rate l * of_int (T - now) / rl_windowMs l"
      by (simp add: algebra_simps flip: add_divide_distrib)
    moreover have "credit_rate l * rl_windowMs l / rl_windowMs l \<le> credit_rate l * of_int (now - bk_lastRefill b) / rl_windowMs l"
      using 2(3) w by (intro scale_mono) auto
    ultimately show ?thesis using 2 assms(2) w same by (simp add: credit_def bucket_ok_def)
  qed
  then show "credit s now T l' \<le> credit s t T l" "bucket_ok s now l'" by simp_all
qed

lemma answers_credit:
  assumes "settings_ok l" "bucket_ok s t l" "in_order t reqs" "\<forall>r \<in> set reqs. snd r \<le> T" "t \<le> T"
  shows "of_nat (length (filter id (answers_to s reqs l))) \<le> credit s t T l"
  using assms
proof (induction reqs arbitrary: t l)
  case Nil
  then show ?case
    by (auto simp: credit_def bucket_ok_def settings_ok_def credit_rate_def le_max_iff_disj simp del: map_of_eq_Some_iff intro!: add_nonneg_nonneg divide_nonneg_pos mult_nonneg_nonneg split: option.splits)
next
  case (Cons e reqs)
  obtain s' now where e: "e = (s', now)" by (cases e)
  have now: "t \<le> now" "in_order now reqs" "\<forall>r \<in> set reqs. snd r \<le> T" "now \<le> T"
    using Cons.prems by (simp_all add: e in_order_Cons)
  obtain r l1 where c: "consume s' now l = (r, l1)" by (cases "consume s' now l")
  have ok: "bucket_ok s now l" using bucket_ok_later [OF Cons.prems(2) now(1)] .
  note l1 = consume_effect(5) [OF Cons.prems(1) c]
  show ?case
  proof (cases "s' = s")
    case True
    note k = credit_consume_same [OF Cons.prems(1) ok now(1) c [unfolded True]]
    show ?thesis
      using k(1) [of T] Cons.IH [OF l1 k(2) now(2,3,4)] by (auto simp: e answers_to_Cons c [unfolded True] True split: if_splits)
  next
    case False
    note k = credit_consume_other [OF Cons.prems(1) ok now(1) c False]
    show ?thesis
      using k(1) [of T] Cons.IH [OF l1 k(2) now(2,3,4)] False by (simp add: e answers_to_Cons c)
  qed
qed



section \<open>Splitting at commas\<close>

lemma split_on_nonempty [simp]: "split_on c s \<noteq> []"
  by (induction s) (auto split: list.split)

lemma split_on_sep: "split_on c (s @ c # t) = split_on c s @ split_on c t"
proof (induction s)
  case (Cons x s)
  then show ?case by (cases "split_on c s") auto
qed simp

lemma split_on_none: "c \<notin> set s \<Longrightarrow> split_on c s = [s]"
  by (induction s) auto

lemma trimmed_parts_last:
  assumes "CHR '','' \<notin> set hop" "js_trim hop \<noteq> []"
  shows "trimmed_parts (forged @ CHR '','' # hop) = trimmed_parts forged @ [js_trim hop]"
  using assms by (simp add: trimmed_parts_def split_on_sep split_on_none)

lemma js_trim_Nil_iff: "js_trim s = [] \<longleftrightarrow> list_all is_ws s"
proof (cases "dropWhile is_ws s")
  case Nil
  then have "js_trim s = []" unfolding js_trim_def by (simp only: rev.simps dropWhile.simps)
  moreover have "list_all is_ws s" using Nil by (simp add: list_all_iff dropWhile_eq_Nil_conv)
  ultimately show ?thesis by simp
next
  case (Cons c cs)
  then have "c \<in> set s" "\<not> is_ws c"
    by (metis list.set_intros(1) set_dropWhileD, metis dropWhile_eq_Cons_conv)
  then show ?thesis using Cons by (auto simp: js_trim_def list_all_iff dropWhile_eq_Nil_conv)
qed

lemma comma_not_ws: "\<not> is_ws CHR '',''"
  by (simp add: is_ws_def)


section \<open>Properties\<close>



text \<open>
  The limiter isolates sources: what a source is answered does not depend on the requests of
  others, in number or order, nor on the cleanups they trigger.
\<close>

lemma rate_limit_isolates_sources:
  assumes "settings_ok l" "in_order t reqs"
  shows "answers_to s reqs l = fst (run_requests (filter (\<lambda>r. fst r = s) reqs) l)"
  using assms by (intro answers_alike [of s t]) (auto simp: alike_def same_settings_def)

lemma rate_limit_isolates_sources_witness:
  "answers_to ''a'' [(''b'', 0), (''a'', 1), (''b'', 2), (''a'', 3)] (new_RateLimiter 1000 2 1 0)
    = fst (run_requests [(''a'', 1), (''a'', 3)] (new_RateLimiter 1000 2 1 0))"
  using rate_limit_isolates_sources [of "new_RateLimiter 1000 2 1 0" 0 "[(''b'', 0), (''a'', 1), (''b'', 2), (''a'', 3)]" "''a''"]
  by (simp add: new_RateLimiter_def settings_ok_def in_order_def)

text \<open>
  A client cannot choose the address it is limited under. Without a trusted peer the header is
  ignored; behind a trusted proxy, whatever a client puts in front of the hop the proxy
  appends makes no difference.
\<close>

lemma forwarded_prefix_is_ignored:
  assumes "CHR '','' \<notin> set hop" "js_trim hop \<noteq> []"
  shows "(peer \<notin> set trusted \<longrightarrow> resolveClientSource (Some peer) header trusted = peer)
    \<and> (peer \<in> set trusted \<longrightarrow> resolveClientSource (Some peer) (Some (forged @ CHR '','' # hop)) trusted = js_trim hop)"
proof -
  have "js_trim (forged @ CHR '','' # hop) \<noteq> []"
    by (simp add: js_trim_Nil_iff comma_not_ws)
  with trimmed_parts_last [OF assms, of forged] show ?thesis
    by (auto simp: resolveClientSource_def Let_def)
qed

lemma forwarded_prefix_is_ignored_witness:
  "resolveClientSource (Some ''10.0.0.1'') (Some (''1.1.1.1'' @ CHR '','' # '' 9.9.9.9'')) [''10.0.0.1''] = js_trim '' 9.9.9.9''"
proof -
  have "CHR '','' \<notin> set '' 9.9.9.9''" by simp
  moreover have "js_trim '' 9.9.9.9'' \<noteq> []" by (simp add: js_trim_Nil_iff is_ws_def)
  ultimately show ?thesis
    using forwarded_prefix_is_ignored [of "'' 9.9.9.9''" "''10.0.0.1''" "[''10.0.0.1'']" None "''1.1.1.1''"] by (metis list.set_intros(1))
qed

text \<open>
  A limiter set up from the environment is usable: either the settings are refused with an
  error, or the window is positive and a client's first request is let through.
\<close>

lemma limiter_from_env_lets_first_request:
  "case createRateLimiterFromEnv env now of Inl _ \<Rightarrow> True
   | Inr l \<Rightarrow> settings_ok l \<and> rl_allowed (fst (consume source time l))"
proof (cases "createRateLimiterFromEnv env now")
  case (Inr l)
  have min: "numberEnv env n d at_least_one = Inr v \<Longrightarrow> v \<ge> 1" for n d v
    by (auto simp: numberEnv_def validate_def at_least_one_def res_bind_eq_Inr split: option.splits if_splits)
  from Inr have l: "settings_ok l" "rl_buckets l = []" "rl_burstSize l \<ge> 1"
    unfolding createRateLimiterFromEnv_def
    by (auto simp: res_bind_eq_Inr new_RateLimiter_def settings_ok_def dest!: min)
  then show ?thesis
    using consume_effect(1) [OF l(1), of source time] Inr
    by (cases "consume source time l") (simp add: current_def full_def)
qed simp

end
