(* ===== verification/Sdk_Errors.thy ===== *)
theory Sdk_Errors
  imports Relayer_Bytes
begin

text \<open>
  The typed errors of the SDK (\<open>sdk/src/errors/index.ts\<close>): each class as a function from its
  constructor's arguments to the error value, with the stable code the class fixes. The cause, which
  only diagnostics read, is left out.
\<close>

definition optional_field :: "string \<Rightarrow> string option \<Rightarrow> (string \<times> string) list" where
  "optional_field k v = (case v of None \<Rightarrow> [] | Some x \<Rightarrow> [(k, x)])"

definition ConfigError :: "string \<Rightarrow> js_error" where
  "ConfigError message = OpaqueError ''CONFIG'' message []"

definition SignerError :: "string \<Rightarrow> js_error" where
  "SignerError message = OpaqueError ''SIGNER'' message []"

definition RpcError :: "string \<Rightarrow> nat option \<Rightarrow> js_error" where
  "RpcError message httpStatus = OpaqueError ''RPC'' message (optional_field ''httpStatus'' (map_option dec_of_nat httpStatus))"

definition GatewayError :: "string \<Rightarrow> nat option \<Rightarrow> string option \<Rightarrow> js_error" where
  "GatewayError message httpStatus gatewayUrl =
     OpaqueError ''GATEWAY'' message
       (optional_field ''httpStatus'' (map_option dec_of_nat httpStatus) @ optional_field ''gatewayUrl'' gatewayUrl)"

definition SimulationError :: "string \<Rightarrow> string option \<Rightarrow> js_error" where
  "SimulationError message diagnostics = OpaqueError ''SIMULATION'' message (optional_field ''diagnostics'' diagnostics)"

definition ContractError :: "string \<Rightarrow> nat \<Rightarrow> string option \<Rightarrow> js_error" where
  "ContractError contract contractCode errorName =
     (let number = ''#'' @ dec_of_nat contractCode;
          label = (case errorName of Some n \<Rightarrow> if n = [] then number else n @ '' ('' @ number @ '')'' | None \<Rightarrow> number)
      in OpaqueError ''CONTRACT'' (contract @ '' reverted: '' @ label)
           ([(''contract'', contract), (''contractCode'', dec_of_nat contractCode)] @ optional_field ''errorName'' errorName))"

definition RootUnavailableError :: "string \<Rightarrow> js_error" where
  "RootUnavailableError message = OpaqueError ''ROOT_UNAVAILABLE'' message []"

definition StorageError :: "string \<Rightarrow> string \<Rightarrow> js_error" where
  "StorageError message reason = OpaqueError ''STORAGE'' message [(''reason'', reason)]"

definition NoteSchemaError :: "string \<Rightarrow> js_error" where
  "NoteSchemaError message = OpaqueError ''NOTE_SCHEMA'' message []"

definition PoolValidationError :: "string \<Rightarrow> string \<Rightarrow> js_error" where
  "PoolValidationError message violated = OpaqueError ''POOL_VALIDATION'' message [(''constraint'', violated)]"

definition new_EventTruncationError :: "string \<Rightarrow> nat \<Rightarrow> nat \<Rightarrow> int \<Rightarrow> string \<Rightarrow> js_error" where
  "new_EventTruncationError scope pagesRead pageCap lastScannedLedger continuationCursor =
     EventTruncationError
       (scope @ '': event scan stopped at the '' @ dec_of_nat pageCap @ ''-page cap with events left unread ('' @
        dec_of_nat pagesRead @ '' pages read); results are incomplete - resume from ledger '' @
        dec_of_int (lastScannedLedger + 1) @ ''.'')
       scope pagesRead pageCap lastScannedLedger continuationCursor"

definition NotWiredError :: "string \<Rightarrow> string \<Rightarrow> js_error" where
  "NotWiredError capability hint =
     OpaqueError ''NOT_WIRED'' (capability @ '' is not wired in this build.'' @ (if hint = [] then [] else '' '' @ hint)) []"

definition MemoError :: "string \<Rightarrow> string \<Rightarrow> string option \<Rightarrow> js_error" where
  "MemoError message destination custodianName =
     OpaqueError ''MEMO'' message ((''destination'', destination) # optional_field ''custodianName'' custodianName)"

definition new_UnannouncedPaymentError ::
  "string \<Rightarrow> string \<Rightarrow> string \<Rightarrow> byte list \<Rightarrow> byte list \<Rightarrow> int \<Rightarrow> js_error" where
  "new_UnannouncedPaymentError paymentTxHash recipientMetaHex stealthAddressHex ephemeralPubKey metadata amountStroops =
     UnannouncedPaymentError
       (''Payment '' @ paymentTxHash @ '' succeeded but the announcement failed; the funds are in unannounced stealth account '' @
        stealthAddressHex @ ''. Retry with payments.announcePaidTransfer.'')
       paymentTxHash recipientMetaHex stealthAddressHex ephemeralPubKey metadata amountStroops"

text \<open>
  \<open>toAnnounceParams\<close>: the stealth id is cut into pairs of hex digits again. It is always a
  prefixed hex string, so the reading of other characters is not modelled. Only the class
  \<open>UnannouncedPaymentError\<close> has the method.
\<close>

fun toAnnounceParams :: "js_error \<Rightarrow> (byte list \<times> byte list \<times> byte list) option" where
  "toAnnounceParams (UnannouncedPaymentError _ _ _ stealthAddressHex ephemeralPubKey metadata _) =
     Some (hex_pairs (strip_0x stealthAddressHex), ephemeralPubKey, metadata)"
| "toAnnounceParams _ = None"

definition MergeIncompatibleError :: "string \<Rightarrow> string list \<Rightarrow> js_error" where
  "MergeIncompatibleError account balances =
     OpaqueError ''MERGE_INCOMPATIBLE''
       (''Account '' @ account @ '' cannot be merged (incompatible state: '' @ join_with '', '' balances @
        ''). Fall back to a partial sweep; the base reserve will remain in the account.'')
       [(''account'', account)]"

end
