(* ===== verification/Field_Hex.thy ===== *)
theory Field_Hex
  imports Prelude
begin

text \<open>
  Field elements as text: \<open>BigInt.prototype.toString(16)\<close>, \<open>padStart\<close> and the
  0x-prefixed 32-byte form of \<open>toHex32\<close> (ASP and SDK) and \<open>bigintToHex32\<close>
  (publisher), with the round trip through \<open>BigInt(string)\<close>.
\<close>

unbundle bit_operations_syntax


section \<open>Hexadecimal digits of a number\<close>

fun hex_of_nat :: "nat \<Rightarrow> string" where
  "hex_of_nat n = (if n < 16 then [hex_char n] else hex_of_nat (n div 16) @ [hex_char (n mod 16)])"

declare hex_of_nat.simps [simp del]

definition hex_of_int :: "int \<Rightarrow> string" where
  "hex_of_int v = (if v < 0 then CHR ''-'' # hex_of_nat (nat (- v)) else hex_of_nat (nat v))"

definition pad_start :: "nat \<Rightarrow> char \<Rightarrow> string \<Rightarrow> string" where
  "pad_start n c s = replicate (n - length s) c @ s"

definition toHex32 :: "int \<Rightarrow> string" where
  "toHex32 v = ''0x'' @ pad_start 64 CHR ''0'' (hex_of_int v)"

lemma hex_of_nat_hex: "list_all is_hex (hex_of_nat n)"
  by (induction n rule: hex_of_nat.induct) (subst hex_of_nat.simps, simp)

lemma hex_of_nat_nonempty [simp]: "hex_of_nat n \<noteq> []"
  by (subst hex_of_nat.simps) simp

lemma nat_of_hex_of_nat [simp]: "nat_of_hex (hex_of_nat n) = n"
proof (induction n rule: hex_of_nat.induct)
  case (1 n)
  show ?case
  proof (cases "n < 16")
    case True
    then show ?thesis by (subst hex_of_nat.simps) (simp add: nat_of_hex_def nat_of_digits_def)
  next
    case False
    then show ?thesis
      using 1 by (subst hex_of_nat.simps) (simp add: nat_of_hex_def nat_of_digits_snoc)
  qed
qed

lemma nat_of_digits_zeros: "nat_of_digits b (replicate k 0 @ ds) = nat_of_digits b ds"
  by (induction k) (simp_all add: nat_of_digits_def)

lemma hex_zero [simp]: "is_hex CHR ''0''" "hex_val CHR ''0'' = 0"
  by (simp_all add: is_hex_def hex_val_def is_digit_def digit_val_def)

lemma nat_of_hex_pad [simp]: "nat_of_hex (pad_start n CHR ''0'' s) = nat_of_hex s"
  by (simp add: nat_of_hex_def pad_start_def nat_of_digits_zeros)

lemma pad_start_hex: "list_all is_hex s \<Longrightarrow> list_all is_hex (pad_start n CHR ''0'' s)"
  by (auto simp: pad_start_def list_all_iff)

lemma pad_start_nonempty: "s \<noteq> [] \<Longrightarrow> pad_start n c s \<noteq> []"
  by (simp add: pad_start_def)

lemma is_hex_not_ws: "is_hex c \<Longrightarrow> \<not> is_ws c"
  by (auto simp: is_hex_def is_digit_def is_ws_def)

text \<open>\<open>BigInt\<close> reads a 0x-prefixed digit string as the number its digits denote.\<close>

lemma js_BigInt_str_hex:
  assumes "list_all is_hex r" "r \<noteq> []"
  shows "js_BigInt_str (''0x'' @ r) = Inr (int (nat_of_hex r))"
proof -
  have "\<not> is_ws (last r)"
    using assms last_in_set [of r] by (auto simp: list_all_iff is_hex_not_ws)
  then have "js_trim (''0x'' @ r) = ''0x'' @ r"
    using assms by (intro js_trim_id) (auto simp: is_ws_def)
  then show ?thesis
    using assms by (simp add: js_BigInt_str_def prefixed_digits_def)
qed

lemma js_BigInt_toHex32 [simp]: "0 \<le> v \<Longrightarrow> js_BigInt_str (toHex32 v) = Inr v"
  unfolding toHex32_def
  by (subst js_BigInt_str_hex) (simp_all add: hex_of_int_def pad_start_hex hex_of_nat_hex pad_start_nonempty)

lemma toHex32_inj: "0 \<le> v \<Longrightarrow> 0 \<le> w \<Longrightarrow> toHex32 v = toHex32 w \<longleftrightarrow> v = w"
  by (metis js_BigInt_toHex32 sum.inject(2))

lemma lower_hex_of_nat [simp]: "to_lower (hex_of_nat n) = hex_of_nat n"
proof (induction n rule: hex_of_nat.induct)
  case (1 n)
  then show ?case
    by (cases "n < 16"; subst (1 2) hex_of_nat.simps) simp_all
qed

lemma lower_toHex32 [simp]: "0 \<le> v \<Longrightarrow> to_lower (toHex32 v) = toHex32 v"
  by (simp add: toHex32_def pad_start_def hex_of_int_def lower_char_def to_lower_def [of "replicate _ _"])

lemma length_hex_of_nat: "n < 16 ^ k \<Longrightarrow> 0 < k \<Longrightarrow> length (hex_of_nat n) \<le> k"
proof (induction n arbitrary: k rule: hex_of_nat.induct)
  case (1 n)
  show ?case
  proof (cases "n < 16")
    case True
    then show ?thesis using 1(3) by (subst hex_of_nat.simps) simp
  next
    case False
    obtain j where j: "k = Suc j" using 1(3) by (cases k) auto
    with False 1(2) have k: "k = Suc j" "0 < j" by (auto intro: gr0I)
    then have "n div 16 < 16 ^ j" using 1(2) by (simp add: less_mult_imp_div_less ac_simps)
    with 1(1) False k show ?thesis by (subst hex_of_nat.simps) simp
  qed
qed

text \<open>A value below \<open>2 ^ 256\<close> has exactly 64 digits after the prefix.\<close>

lemma length_toHex32: "0 \<le> v \<Longrightarrow> v < 2 ^ 256 \<Longrightarrow> length (toHex32 v) = 66"
proof -
  assume v: "0 \<le> v" "v < 2 ^ 256"
  then have "nat v < 16 ^ 64" by simp
  then have "length (hex_of_nat (nat v)) \<le> 64" by (intro length_hex_of_nat) simp_all
  with v show ?thesis by (simp add: toHex32_def pad_start_def hex_of_int_def)
qed

end
