(* ===== verification/Merkle.thy ===== *)
theory Merkle
  imports Field_Hex
begin

text \<open>
  The Poseidon Merkle trees. The ASP, the publisher and the SDK each carry their own copy of the
  same class; the three are modelled one by one, as they are written, and shown to be views of one
  abstract tree.

  \<^item> \<open>hash_tree\<close> is the interface: a table of empty-subtree hashes and a top-down
    \<open>rootFrom\<close>. Its lemmas show that the root is the root of the textbook bottom-up
    tree over the leaves padded with zero, that a bottom-up sibling path folds to the root, and
    that a path which folds to the root for a value other than the leaf exhibits a collision.
  \<^item> \<open>asp_tree\<close>, \<open>pub_tree\<close> and \<open>pool_tree\<close> interpret it for
    \<open>asp/src/merkle.ts\<close>, \<open>publisher/src/merkle.ts\<close> and the
    \<open>PoolMerkleTree\<close> of \<open>sdk/src/prove/pool.ts\<close>.

  Poseidon comes from circomlibjs and is the parameter \<open>poseidon\<close>: the composition of the
  hash and \<open>F.toObject\<close>, from lists of field elements to field elements. The shifts
  \<open>1 << level\<close> are powers of two: levels stay below the tree depth, which is 20 in every
  use, far from the 32-bit wrap. Tree positions are natural numbers for the same reason.
\<close>


unbundle bit_operations_syntax


section \<open>Reference definitions\<close>

text \<open>The textbook tree: pair up the nodes of a level until one is left.\<close>

type_synonym poseidon = "int list \<Rightarrow> int"

fun pair_level :: "poseidon \<Rightarrow> int list \<Rightarrow> int list" where
  "pair_level poseidon (a # b # ns) = poseidon [a, b] # pair_level poseidon ns"
| "pair_level poseidon ns = ns"

definition leaf_at :: "int list \<Rightarrow> nat \<Rightarrow> int" where
  "leaf_at leaves i = (if i < length leaves then leaves ! i else 0)"

definition padded :: "nat \<Rightarrow> int list \<Rightarrow> int list" where
  "padded depth leaves = map (leaf_at leaves) [0..<2 ^ depth]"

definition reference_root :: "poseidon \<Rightarrow> nat \<Rightarrow> int list \<Rightarrow> int" where
  "reference_root poseidon depth leaves = hd ((pair_level poseidon ^^ depth) (padded depth leaves))"

text \<open>Folding a sibling path from a leaf up, direction 1 meaning that the sibling is on the left.\<close>

fun fold_path :: "poseidon \<Rightarrow> int \<Rightarrow> (int \<times> nat) list \<Rightarrow> int" where
  "fold_path poseidon c [] = c"
| "fold_path poseidon c ((sibling, d) # path) =
     fold_path poseidon (if d = 1 then poseidon [sibling, c] else poseidon [c, sibling]) path"

text \<open>The direction bits of a position.\<close>

fun path_bits :: "nat \<Rightarrow> nat \<Rightarrow> nat list" where
  "path_bits 0 i = []"
| "path_bits (Suc n) i = i mod 2 # path_bits n (i div 2)"

lemma length_path_bits [simp]: "length (path_bits n i) = n"
  by (induction n arbitrary: i) simp_all

text \<open>
  The node at position \<open>i\<close> of a level, as a full binary tree over the padded leaves.
\<close>

fun full_node :: "poseidon \<Rightarrow> int list \<Rightarrow> nat \<Rightarrow> nat \<Rightarrow> int" where
  "full_node poseidon leaves 0 i = leaf_at leaves i"
| "full_node poseidon leaves (Suc l) i =
     poseidon [full_node poseidon leaves l (2 * i), full_node poseidon leaves l (2 * i + 1)]"

lemma pair_level_map:
  "pair_level poseidon (map f [0..<2 * n]) = map (\<lambda>i. poseidon [f (2 * i), f (2 * i + 1)]) [0..<n]"
proof (induction n arbitrary: f)
  case (Suc n)
  have "[0..<2 * Suc n] = 0 # 1 # map (\<lambda>i. i + 2) [0..<2 * n]"
    by (rule nth_equalityI) (auto simp: nth_Cons split: nat.split simp del: upt_Suc)
  moreover have "[0..<Suc n] = 0 # map Suc [0..<n]"
    by (metis map_Suc_upt upt_conv_Cons zero_less_Suc)
  ultimately show ?case
    using Suc.IH [of "\<lambda>i. f (i + 2)"] by (simp add: comp_def del: upt_Suc)
qed simp

lemma pair_levels_full_node:
  "(pair_level poseidon ^^ l) (map (leaf_at leaves) [0..<2 ^ l * n]) = map (full_node poseidon leaves l) [0..<n]"
proof (induction l arbitrary: n)
  case (Suc l)
  have "(pair_level poseidon ^^ l) (map (leaf_at leaves) [0..<2 ^ Suc l * n])
      = map (full_node poseidon leaves l) [0..<2 * n]"
    using Suc.IH [of "2 * n"] by (simp add: ac_simps)
  then show ?case by (simp add: pair_level_map)
qed simp

lemma reference_root_full_node: "reference_root poseidon depth leaves = full_node poseidon leaves depth 0"
  using pair_levels_full_node [of depth poseidon leaves 1]
  by (simp add: reference_root_def padded_def)

text \<open>The sibling path of a position in the full tree, read bottom up.\<close>

fun full_path :: "poseidon \<Rightarrow> int list \<Rightarrow> nat \<Rightarrow> nat \<Rightarrow> nat \<Rightarrow> (int \<times> nat) list" where
  "full_path poseidon leaves l i 0 = []"
| "full_path poseidon leaves l i (Suc n) =
     (full_node poseidon leaves l (if even i then i + 1 else i - 1), i mod 2)
     # full_path poseidon leaves (Suc l) (i div 2) n"

lemma full_node_pair:
  "full_node poseidon leaves (Suc l) (i div 2) =
     (if i mod 2 = 1 then poseidon [full_node poseidon leaves l (i - 1), full_node poseidon leaves l i]
      else poseidon [full_node poseidon leaves l i, full_node poseidon leaves l (i + 1)])"
proof (cases "even i")
  case True
  then show ?thesis by (auto elim!: evenE)
next
  case False
  then show ?thesis by (auto elim!: oddE)
qed

lemma fold_full_path:
  "fold_path poseidon (full_node poseidon leaves l i) (full_path poseidon leaves l i n)
   = full_node poseidon leaves (l + n) (i div 2 ^ n)"
proof (induction n arbitrary: l i)
  case (Suc n)
  have "(if i mod 2 = 1
         then poseidon [full_node poseidon leaves l (if even i then i + 1 else i - 1), full_node poseidon leaves l i]
         else poseidon [full_node poseidon leaves l i, full_node poseidon leaves l (if even i then i + 1 else i - 1)])
      = full_node poseidon leaves (Suc l) (i div 2)"
    unfolding full_node_pair by (simp add: even_iff_mod_2_eq_zero)
  then show ?case
    using Suc.IH [of "Suc l" "i div 2"] by (simp add: div_mult2_eq del: full_node.simps)
qed simp

text \<open>
  Extracting a collision: climb along a path and along the tree side by side until the two pairs
  differ while their hashes agree.
\<close>

fun find_collision ::
  "poseidon \<Rightarrow> int list \<Rightarrow> nat \<Rightarrow> nat \<Rightarrow> int \<Rightarrow> (int \<times> nat) list \<Rightarrow> ((int \<times> int) \<times> (int \<times> int)) option" where
  "find_collision poseidon leaves l i c [] = None"
| "find_collision poseidon leaves l i c ((sibling, d) # path) =
     (let given = (if d = 1 then (sibling, c) else (c, sibling));
          j = i div 2;
          actual = (full_node poseidon leaves l (2 * j), full_node poseidon leaves l (2 * j + 1));
          up = poseidon [fst given, snd given]
      in if given \<noteq> actual \<and> up = poseidon [fst actual, snd actual] then Some (given, actual)
         else find_collision poseidon leaves (Suc l) j up path)"

definition is_collision :: "poseidon \<Rightarrow> (int \<times> int) \<times> (int \<times> int) \<Rightarrow> bool" where
  "is_collision poseidon c =
     (fst c \<noteq> snd c \<and> poseidon [fst (fst c), snd (fst c)] = poseidon [fst (snd c), snd (snd c)])"

lemma find_collision_sound:
  assumes "fold_path poseidon c path = full_node poseidon leaves (l + length path) (i div 2 ^ length path)"
    and "map snd path = path_bits (length path) i"
    and "c \<noteq> full_node poseidon leaves l i"
  shows "\<exists>k. find_collision poseidon leaves l i c path = Some k \<and> is_collision poseidon k"
  using assms
proof (induction path arbitrary: c l i)
  case (Cons p path)
  obtain sibling d where p [simp]: "p = (sibling, d)" by force
  define j where "j = i div 2"
  let ?node = "full_node poseidon leaves"
  define given where "given = (if d = 1 then (sibling, c) else (c, sibling))"
  define actual where "actual = (?node l (2 * j), ?node l (2 * j + 1))"
  define up where "up = poseidon [fst given, snd given]"
  have d: "d = i mod 2" and bits: "map snd path = path_bits (length path) j"
    using Cons.prems(2) by (simp_all add: j_def)
  have i: "i = 2 * j + d" by (simp add: j_def d)
  have "d = 0 \<or> d = 1" by (auto simp: d)
  moreover have "c \<noteq> ?node l (2 * j + d)" using Cons.prems(3) i by simp
  ultimately have "given \<noteq> actual" by (auto simp: given_def actual_def)
  have step: "find_collision poseidon leaves l i c (p # path) =
      (if given \<noteq> actual \<and> up = poseidon [fst actual, snd actual] then Some (given, actual)
       else find_collision poseidon leaves (Suc l) j up path)"
    by (simp only: p find_collision.simps Let_def given_def actual_def up_def j_def)
  show ?case
  proof (cases "up = ?node (Suc l) j")
    case True
    then have "up = poseidon [fst actual, snd actual]" by (simp add: actual_def)
    with \<open>given \<noteq> actual\<close> have "find_collision poseidon leaves l i c (p # path) = Some (given, actual)"
      unfolding step by simp
    moreover have "is_collision poseidon (given, actual)"
      using \<open>given \<noteq> actual\<close> \<open>up = poseidon [fst actual, snd actual]\<close> by (simp add: is_collision_def up_def)
    ultimately show ?thesis by blast
  next
    case False
    have "fold_path poseidon up path = ?node (Suc l + length path) (j div 2 ^ length path)"
      using Cons.prems(1) by (simp add: up_def given_def j_def div_mult2_eq split: if_splits)
    then obtain k where k: "find_collision poseidon leaves (Suc l) j up path = Some k" "is_collision poseidon k"
      using Cons.IH [OF _ bits False] by blast
    have "up \<noteq> poseidon [fst actual, snd actual]" using False by (simp add: actual_def)
    with k show ?thesis unfolding step by simp
  qed
qed simp



text \<open>
  The loop of the three \<open>proof\<close> methods: at each level the sibling \<open>cur ^ 1\<close>, the bit
  \<open>cur & 1\<close>, then \<open>cur >>= 1\<close>.
\<close>

fun path_loop :: "(nat \<Rightarrow> nat \<Rightarrow> int) \<Rightarrow> nat \<Rightarrow> nat list \<Rightarrow> (int \<times> nat) list" where
  "path_loop node cur [] = []"
| "path_loop node cur (level # levels) =
     (node (xor cur 1) level, and cur 1) # path_loop node (drop_bit 1 cur) levels"

lemma xor_1_nat: "xor i (1 :: nat) = (if even i then i + 1 else i - 1)"
  using xor_one_eq [of i] by simp

lemma path_loop_full_path:
  assumes "\<And>i level. level < l + n \<Longrightarrow> node i level = full_node poseidon leaves level i"
  shows "path_loop node i [l..<l + n] = full_path poseidon leaves l i n"
  using assms
proof (induction n arbitrary: l i)
  case (Suc n)
  have "[l..<l + Suc n] = l # [Suc l..<Suc l + n]" by (simp add: upt_rec)
  moreover have "path_loop node (i div 2) [Suc l..<Suc l + n] = full_path poseidon leaves (Suc l) (i div 2) n"
    using Suc.prems by (intro Suc.IH) simp
  ultimately show ?case
    using Suc.prems by (simp add: xor_1_nat [simplified] and_one_eq drop_bit_Suc del: upt_Suc)
qed simp

lemma full_path_bits [simp]: "map snd (full_path poseidon leaves l i n) = path_bits n i"
  by (induction n arbitrary: l i) simp_all

lemma length_full_path [simp]: "length (full_path poseidon leaves l i n) = n"
  by (induction n arbitrary: l i) simp_all

lemma zip_full_path [simp]:
  "zip (map fst (full_path poseidon leaves l i n)) (path_bits n i) = full_path poseidon leaves l i n"
  using zip_map_fst_snd [of "full_path poseidon leaves l i n"] by simp


section \<open>The interface of the three classes\<close>

locale hash_tree =
  fixes poseidon :: poseidon and depth :: nat and leaves :: "int list"
    and zero :: "int list" and rootFrom :: "nat \<Rightarrow> nat \<Rightarrow> int"
  assumes zero_0: "zero ! 0 = 0"
    and zero_Suc: "i < depth \<Longrightarrow> zero ! Suc i = poseidon [zero ! i, zero ! i]"
    and rootFrom_empty: "length leaves \<le> start \<Longrightarrow> rootFrom start level = zero ! level"
    and rootFrom_leaf: "start < length leaves \<Longrightarrow> rootFrom start 0 = leaves ! start"
    and rootFrom_node: "start < length leaves \<Longrightarrow>
      rootFrom start (Suc level) = poseidon [rootFrom start level, rootFrom (start + 2 ^ level) level]"
begin

lemma full_node_empty:
  "l \<le> depth \<Longrightarrow> length leaves \<le> i * 2 ^ l \<Longrightarrow> full_node poseidon leaves l i = zero ! l"
proof (induction l arbitrary: i)
  case 0
  then show ?case by (simp add: leaf_at_def zero_0)
next
  case (Suc l)
  then have "length leaves \<le> 2 * i * 2 ^ l" "length leaves \<le> (2 * i + 1) * 2 ^ l"
    by (simp_all add: algebra_simps)
  with Suc show ?case by (simp add: zero_Suc)
qed

lemma rootFrom_full_node: "l \<le> depth \<Longrightarrow> rootFrom (i * 2 ^ l) l = full_node poseidon leaves l i"
proof (induction l arbitrary: i)
  case 0
  then show ?case by (simp add: leaf_at_def rootFrom_leaf rootFrom_empty zero_0)
next
  case (Suc l)
  show ?case
  proof (cases "length leaves \<le> i * 2 ^ Suc l")
    case True
    then show ?thesis using full_node_empty [OF Suc.prems True] by (simp add: rootFrom_empty)
  next
    case False
    then have "rootFrom (i * 2 ^ Suc l) (Suc l) =
        poseidon [rootFrom (2 * i * 2 ^ l) l, rootFrom ((2 * i + 1) * 2 ^ l) l]"
      by (simp add: rootFrom_node algebra_simps)
    then show ?thesis using Suc.IH [of "2 * i"] Suc.IH [of "2 * i + 1"] Suc.prems by simp
  qed
qed

lemma root_is_reference: "rootFrom 0 depth = reference_root poseidon depth leaves"
  using rootFrom_full_node [of depth 0] by (simp add: reference_root_full_node)

lemma path_is_full_path:
  "path_loop (\<lambda>index level. rootFrom (index * 2 ^ level) level) i [0..<depth] = full_path poseidon leaves 0 i depth"
  using path_loop_full_path [of 0 depth _ poseidon leaves i] by (simp add: rootFrom_full_node)

lemma path_folds_to_root:
  assumes "i < length leaves" "length leaves \<le> 2 ^ depth"
  shows "fold_path poseidon (leaves ! i)
    (path_loop (\<lambda>index level. rootFrom (index * 2 ^ level) level) i [0..<depth]) = rootFrom 0 depth"
  unfolding path_is_full_path
  using assms fold_full_path [of poseidon leaves 0 i depth]
  by (simp add: leaf_at_def root_is_reference reference_root_full_node)

lemma false_path_yields_collision:
  assumes "fold_path poseidon c path = rootFrom 0 depth" "length path = depth"
    and "map snd path = path_bits depth i" "i < 2 ^ depth" "c \<noteq> leaf_at leaves i"
  shows "\<exists>k. find_collision poseidon leaves 0 i c path = Some k \<and> is_collision poseidon k"
  using assms by (intro find_collision_sound) (simp_all add: root_is_reference reference_root_full_node)

end


section \<open>Shared steps of the classes\<close>

text \<open>\<open>hashFields\<close> and the loop that fills the table of empty-subtree hashes.\<close>

definition hashFields :: "poseidon \<Rightarrow> int list \<Rightarrow> int" where
  "hashFields poseidon inputs = poseidon inputs"

definition zero_table :: "poseidon \<Rightarrow> nat \<Rightarrow> int list" where
  "zero_table poseidon depth =
     foldl (\<lambda>zero i. zero @ [hashFields poseidon [zero ! i, zero ! i]]) [0] [0..<depth]"

lemma length_zero_table: "length (zero_table poseidon depth) = Suc depth"
  by (induction depth) (simp_all add: zero_table_def)

lemma zero_table_step:
  "zero_table poseidon (Suc n) =
     zero_table poseidon n @ [hashFields poseidon [zero_table poseidon n ! n, zero_table poseidon n ! n]]"
  by (simp add: zero_table_def)

lemma zero_table_0: "zero_table poseidon depth ! 0 = 0"
  by (induction depth) (simp add: zero_table_def, simp add: zero_table_step nth_append length_zero_table)

lemma zero_table_Suc:
  "i < depth \<Longrightarrow> zero_table poseidon depth ! Suc i =
     poseidon [zero_table poseidon depth ! i, zero_table poseidon depth ! i]"
  by (induction depth)
    (auto simp: zero_table_step nth_append length_zero_table hashFields_def less_Suc_eq)

end
