(* ===== verification/Publisher_Bytes.thy ===== *)
theory Publisher_Bytes
  imports Field_Hex Relayer_Bytes
begin

text \<open>
  \<open>publisher/src/bytes.ts\<close>: the 32-byte hex forms the publisher stores leaves, roots and keys
  in. \<open>Buffer.from(s, "hex")\<close> is \<open>hex_pairs\<close> on the validated digit strings it is
  given.
\<close>

definition normalizeHex32 :: "string \<Rightarrow> string \<Rightarrow> string res" where
  "normalizeHex32 value label =
     (let clean = strip_0x (to_lower (js_trim value))
      in if \<not> (length clean = 64 \<and> list_all (\<lambda>c. is_hex c \<and> lower_char c = c) clean)
         then Inl (Error (label @ '' must be a 32-byte hex string''))
         else Inr (''0x'' @ clean))"

definition bigintToHex32 :: "int \<Rightarrow> string res" where
  "bigintToHex32 value =
     (if value < 0 then Inl (Error ''value must be non-negative'')
      else if value > 2 ^ 256 - 1 then Inl (Error ''value must fit in 32 bytes'')
      else Inr (''0x'' @ pad_start 64 CHR ''0'' (hex_of_int value)))"

definition hex32ToBytes :: "string \<Rightarrow> byte list res" where
  "hex32ToBytes value =
     res_bind (normalizeHex32 value ''value'') (\<lambda>h. Inr (hex_pairs (drop 2 h)))"

definition bytesToHex32 :: "byte list \<Rightarrow> string res" where
  "bytesToHex32 bytes =
     (if length bytes \<noteq> 32 then Inl (Error ''expected 32 bytes'')
      else Inr (''0x'' @ concat (map hex2 bytes)))"

definition parseLeafValue :: "string \<Rightarrow> string res" where
  "parseLeafValue value =
     (let trimmed = js_trim value
      in if starts_with ''0x'' trimmed \<or> (length trimmed = 64 \<and> list_all is_hex trimmed)
         then normalizeHex32 trimmed ''leaf''
         else res_bind (js_BigInt_str trimmed) bigintToHex32)"

text \<open>What the stored form looks like: \<open>0x\<close> and 64 lower-case digits.\<close>

definition is_hex32 :: "string \<Rightarrow> bool" where
  "is_hex32 s \<longleftrightarrow> starts_with ''0x'' s \<and> length s = 66 \<and> list_all (\<lambda>c. is_hex c \<and> lower_char c = c) (drop 2 s)"

lemma is_hex32_iff:
  "is_hex32 s \<longleftrightarrow> (\<exists>d. s = ''0x'' @ d \<and> length d = 64 \<and> list_all (\<lambda>c. is_hex c \<and> lower_char c = c) d)"
  by (auto simp: is_hex32_def starts_with_iff)

lemma normalizeHex32_hex32: "normalizeHex32 s label = Inr h \<Longrightarrow> is_hex32 h"
  unfolding is_hex32_iff by (auto simp: normalizeHex32_def Let_def split: if_splits)

lemma bigintToHex32_Inr: "bigintToHex32 v = Inr h \<longleftrightarrow> 0 \<le> v \<and> v < 2 ^ 256 \<and> h = toHex32 v"
  by (auto simp: bigintToHex32_def toHex32_def)

lemma lower_hex_of_nat_char: "c \<in> set (hex_of_nat n) \<Longrightarrow> lower_char c = c"
  using lower_hex_of_nat [of n] by (simp add: to_lower_def map_idI map_eq_conv [of lower_char _ id, simplified])

lemma is_hex32_toHex32: "0 \<le> v \<Longrightarrow> v < 2 ^ 256 \<Longrightarrow> is_hex32 (toHex32 v)"
proof -
  assume v: "0 \<le> v" "v < 2 ^ 256"
  have "length (toHex32 v) = 66" by (rule length_toHex32 [OF v])
  moreover have "list_all (\<lambda>c. is_hex c \<and> lower_char c = c) (drop 2 (toHex32 v))"
    using v hex_of_nat_hex [of "nat v"]
    by (auto simp: toHex32_def pad_start_def hex_of_int_def list_all_iff lower_hex_of_nat_char lower_char_def [of "CHR ''0''"])
  ultimately show ?thesis by (simp add: is_hex32_def toHex32_def)
qed

lemma lower_id: "list_all (\<lambda>c. is_hex c \<and> lower_char c = c) d \<Longrightarrow> to_lower d = d"
  by (simp add: to_lower_def list_all_iff map_idI)

lemma is_hex32_lower: "is_hex32 s \<Longrightarrow> to_lower s = s"
  unfolding is_hex32_iff using lower_id by (fastforce simp: lower_char_def)

lemma is_hex32_trim: "is_hex32 s \<Longrightarrow> js_trim s = s"
proof -
  assume "is_hex32 s"
  then obtain d where d: "s = ''0x'' @ d" "length d = 64" "list_all is_hex d"
    by (auto simp: is_hex32_iff list_all_iff)
  then have "d \<noteq> []" by auto
  then have "\<not> is_ws (last d)" using d(3) last_in_set by (auto simp: list_all_iff is_hex_not_ws)
  with d \<open>d \<noteq> []\<close> show ?thesis by (intro js_trim_id) (auto simp: is_ws_def)
qed

lemma normalizeHex32_id: "is_hex32 s \<Longrightarrow> normalizeHex32 s label = Inr s"
  using is_hex32_lower [of s] is_hex32_trim [of s]
  by (auto simp: normalizeHex32_def is_hex32_iff Let_def simp del: to_lower_Cons to_lower_append)

lemma hex_of_nat_step: "0 < m \<Longrightarrow> k < 16 \<Longrightarrow> hex_of_nat (16 * m + k) = hex_of_nat m @ [hex_char k]"
  by (subst hex_of_nat.simps) simp

lemma nat_of_hex_snoc: "nat_of_hex (d @ [c]) = 16 * nat_of_hex d + hex_val c"
  by (simp add: nat_of_hex_def nat_of_digits_snoc)

lemma pad_hex_of_nat_of_hex:
  "d \<noteq> [] \<Longrightarrow> list_all (\<lambda>c. is_hex c \<and> lower_char c = c) d \<Longrightarrow>
   pad_start (length d) CHR ''0'' (hex_of_nat (nat_of_hex d)) = d"
proof (induction d rule: rev_induct)
  case (snoc c d)
  have c: "hex_val c < 16" "hex_char (hex_val c) = c"
    using snoc.prems(2) by (auto simp: hex_val_bound hex_char_hex_val)
  have d: "d \<noteq> [] \<Longrightarrow> pad_start (length d) CHR ''0'' (hex_of_nat (nat_of_hex d)) = d"
    using snoc by simp
  show ?case
  proof (cases "nat_of_hex d = 0")
    case True
    have "hex_of_nat 0 = ''0''" by code_simp
    with d True have "d = replicate (length d) CHR ''0''"
      by (cases "d = []") (auto simp: pad_start_def replicate_append_same simp flip: replicate_Suc)
    moreover have "hex_of_nat (hex_val c) = [c]" using c by (subst hex_of_nat.simps) simp
    ultimately show ?thesis using True by (simp add: nat_of_hex_snoc pad_start_def)
  next
    case False
    then have "d \<noteq> []" by (auto simp: nat_of_hex_def)
    with d False c show ?thesis by (simp add: nat_of_hex_snoc hex_of_nat_step pad_start_def)
  qed
qed simp

text \<open>A stored form is the form of the number it denotes, so stored forms compare like numbers.\<close>

lemma is_hex32_BigInt:
  assumes "is_hex32 s"
  shows "\<exists>v. js_BigInt_str s = Inr v \<and> 0 \<le> v \<and> toHex32 v = s"
proof -
  obtain d where d: "s = ''0x'' @ d" "length d = 64" "list_all (\<lambda>c. is_hex c \<and> lower_char c = c) d"
    using assms by (auto simp: is_hex32_iff)
  then have "d \<noteq> []" "list_all is_hex d" by (auto simp: list_all_iff)
  then show ?thesis
    using d pad_hex_of_nat_of_hex [of d]
    by (intro exI [of _ "int (nat_of_hex d)"])
      (simp add: js_BigInt_str_hex [of d, simplified] toHex32_def hex_of_int_def)
qed

lemma nat_of_hex_bound: "list_all is_hex d \<Longrightarrow> nat_of_hex d < 16 ^ length d"
proof (induction d rule: rev_induct)
  case (snoc c d)
  then have "nat_of_hex d < 16 ^ length d" "hex_val c < 16" by (simp_all add: hex_val_bound)
  then show ?case by (simp add: nat_of_hex_snoc)
qed (simp add: nat_of_hex_def)

lemma is_hex32_bound: "is_hex32 s \<Longrightarrow> js_BigInt_str s = Inr v \<Longrightarrow> 0 \<le> v \<and> v < 2 ^ 256"
proof -
  assume "is_hex32 s" "js_BigInt_str s = Inr v"
  then obtain d where d: "s = ''0x'' @ d" "length d = 64" "list_all is_hex d"
    by (auto simp: is_hex32_iff list_all_iff)
  moreover from d have "d \<noteq> []" by auto
  ultimately have "v = int (nat_of_hex d)" "nat_of_hex d < 16 ^ 64"
    using \<open>js_BigInt_str s = Inr v\<close> nat_of_hex_bound [of d] by (simp_all add: js_BigInt_str_hex [simplified])
  then show ?thesis by simp
qed

lemma parseLeafValue_hex32: "parseLeafValue s = Inr h \<Longrightarrow> is_hex32 h"
  by (auto simp: parseLeafValue_def Let_def res_bind_eq_Inr bigintToHex32_Inr is_hex32_toHex32
      intro: normalizeHex32_hex32 split: if_splits)

end
