(* ===== verification/Merkle_Trees.thy ===== *)
theory Merkle_Trees
  imports Merkle Publisher_Bytes
begin

text \<open>
  The tree classes of the ASP (\<open>asp/src/merkle.ts\<close>), the publisher
  (\<open>publisher/src/merkle.ts\<close>) and the SDK (\<open>PoolMerkleTree\<close> in
  \<open>sdk/src/prove/pool.ts\<close>), each with its interpretation of the tree interface, and the
  properties they share: every root is the root of the textbook tree, so the three
  agree on every list of leaves, and every path they hand out folds to that root.
\<close>

unbundle bit_operations_syntax


section \<open>The ASP tree\<close>

definition TREE_DEPTH :: nat where "TREE_DEPTH = 20"

record MerkleTree =
  mt_poseidon :: poseidon
  mt_depth :: nat
  mt_leaves :: "int list"
  mt_zero :: "int list"

definition new_MerkleTree :: "poseidon \<Rightarrow> nat \<Rightarrow> MerkleTree" where
  "new_MerkleTree poseidon depth =
     \<lparr>mt_poseidon = poseidon, mt_depth = depth, mt_leaves = [], mt_zero = zero_table poseidon depth\<rparr>"

definition mt_insert :: "int \<Rightarrow> MerkleTree \<Rightarrow> (nat \<times> MerkleTree) res" where
  "mt_insert leaf t =
     (if length (mt_leaves t) \<ge> 2 ^ mt_depth t then Inl (Error ''tree full'')
      else let leaves = mt_leaves t @ [leaf]
           in Inr (length leaves - 1, t\<lparr>mt_leaves := leaves\<rparr>))"

fun mt_rootFrom :: "MerkleTree \<Rightarrow> nat \<Rightarrow> nat \<Rightarrow> int" where
  "mt_rootFrom t start 0 =
     (if start \<ge> length (mt_leaves t) then mt_zero t ! 0 else mt_leaves t ! start)"
| "mt_rootFrom t start (Suc level) =
     (if start \<ge> length (mt_leaves t) then mt_zero t ! Suc level
      else let half = 2 ^ level;
               left = mt_rootFrom t start level;
               right = mt_rootFrom t (start + half) level
           in hashFields (mt_poseidon t) [left, right])"

definition mt_root :: "MerkleTree \<Rightarrow> int" where
  "mt_root t = mt_rootFrom t 0 (mt_depth t)"

definition mt_node :: "MerkleTree \<Rightarrow> nat \<Rightarrow> nat \<Rightarrow> int" where
  "mt_node t index level = mt_rootFrom t (index * 2 ^ level) level"

record MerkleProof =
  pathElements :: "int list"
  pathIndices :: "nat list"
  proof_root :: int

definition mt_proof :: "MerkleTree \<Rightarrow> nat \<Rightarrow> MerkleProof res" where
  "mt_proof t index =
     (if index \<ge> length (mt_leaves t)
      then Inl (Error (''leaf index '' @ dec_of_nat index @ '' out of bounds''))
      else let path = path_loop (mt_node t) index [0..<mt_depth t]
           in Inr \<lparr>pathElements = map fst path, pathIndices = map snd path, proof_root = mt_root t\<rparr>)"

definition computeLabel :: "poseidon \<Rightarrow> int \<Rightarrow> int \<Rightarrow> int" where
  "computeLabel poseidon scope index = hashFields poseidon [scope, index]"

text \<open>A tree as the class builds it: the table of zeros belongs to the depth, and it is not overfull.\<close>

definition mt_wf :: "MerkleTree \<Rightarrow> bool" where
  "mt_wf t \<longleftrightarrow> mt_zero t = zero_table (mt_poseidon t) (mt_depth t) \<and> length (mt_leaves t) \<le> 2 ^ mt_depth t"

definition asp_rootFrom :: "poseidon \<Rightarrow> nat \<Rightarrow> int list \<Rightarrow> nat \<Rightarrow> nat \<Rightarrow> int" where
  "asp_rootFrom poseidon depth leaves =
     mt_rootFrom \<lparr>mt_poseidon = poseidon, mt_depth = depth, mt_leaves = leaves, mt_zero = zero_table poseidon depth\<rparr>"

interpretation asp_tree: hash_tree poseidon depth leaves "zero_table poseidon depth" "asp_rootFrom poseidon depth leaves"
  for poseidon depth leaves
proof unfold_locales
  show "length leaves \<le> start \<Longrightarrow> asp_rootFrom poseidon depth leaves start level = zero_table poseidon depth ! level"
    for start level
    by (cases level) (simp_all add: asp_rootFrom_def)
qed (simp_all add: zero_table_0 zero_table_Suc asp_rootFrom_def hashFields_def)

lemma mt_rootFrom_wf:
  "mt_wf t \<Longrightarrow> mt_rootFrom t = asp_rootFrom (mt_poseidon t) (mt_depth t) (mt_leaves t)"
  unfolding asp_rootFrom_def mt_wf_def by (cases t) simp

lemma mt_wf_new [simp]: "mt_wf (new_MerkleTree poseidon depth)"
  by (simp add: mt_wf_def new_MerkleTree_def)

lemma mt_wf_insert: "mt_wf t \<Longrightarrow> mt_insert leaf t = Inr (i, t') \<Longrightarrow> mt_wf t'"
  by (auto simp: mt_wf_def mt_insert_def Let_def split: if_splits)

lemma mt_root_reference:
  "mt_wf t \<Longrightarrow> mt_root t = reference_root (mt_poseidon t) (mt_depth t) (mt_leaves t)"
  by (simp add: mt_root_def mt_rootFrom_wf asp_tree.root_is_reference)

lemma mt_node_full_node:
  "mt_wf t \<Longrightarrow> level \<le> mt_depth t \<Longrightarrow> mt_node t i level = full_node (mt_poseidon t) (mt_leaves t) level i"
  by (simp add: mt_node_def mt_rootFrom_wf asp_tree.rootFrom_full_node)

lemma mt_proof_ok:
  assumes "mt_wf t" "i < length (mt_leaves t)"
  shows "\<exists>p. mt_proof t i = Inr p \<and> proof_root p = mt_root t
    \<and> zip (pathElements p) (pathIndices p) = full_path (mt_poseidon t) (mt_leaves t) 0 i (mt_depth t)
    \<and> length (pathElements p) = mt_depth t \<and> pathIndices p = path_bits (mt_depth t) i"
proof -
  have "path_loop (mt_node t) i [0..<mt_depth t] = full_path (mt_poseidon t) (mt_leaves t) 0 i (mt_depth t)"
    using path_loop_full_path [of 0 "mt_depth t" "mt_node t"] assms(1) by (simp add: mt_node_full_node)
  with assms(2) show ?thesis by (simp add: mt_proof_def zip_map_fst_snd)
qed


text \<open>Inserting a list of leaves one after the other, as the callers' loops do.\<close>

fun mt_insert_all :: "int list \<Rightarrow> MerkleTree \<Rightarrow> MerkleTree res" where
  "mt_insert_all [] t = Inr t"
| "mt_insert_all (l # ls) t = res_bind (mt_insert l t) (\<lambda>(_, t'). mt_insert_all ls t')"

lemma mt_insert_all_Inr:
  "mt_insert_all ls t = Inr t' \<Longrightarrow> t' = t\<lparr>mt_leaves := mt_leaves t @ ls\<rparr>"
proof (induction ls arbitrary: t)
  case (Cons l ls)
  then have "mt_insert_all ls (t\<lparr>mt_leaves := mt_leaves t @ [l]\<rparr>) = Inr t'"
    by (auto simp: res_bind_eq_Inr mt_insert_def Let_def split: if_splits)
  from Cons.IH [OF this] show ?case by simp
qed simp

lemma mt_insert_all_ok:
  "length (mt_leaves t) + length ls \<le> 2 ^ mt_depth t \<Longrightarrow> \<exists>t'. mt_insert_all ls t = Inr t'"
  by (induction ls arbitrary: t) (auto simp: mt_insert_def Let_def)

lemma mt_insert_all_full:
  assumes "length (mt_leaves t) \<le> 2 ^ mt_depth t" "2 ^ mt_depth t < length (mt_leaves t) + length ls"
  shows "mt_insert_all ls t = Inl (Error ''tree full'')"
  using assms by (induction ls arbitrary: t) (auto simp: mt_insert_def Let_def)

lemma mt_insert_all_wf: "mt_wf t \<Longrightarrow> mt_insert_all ls t = Inr t' \<Longrightarrow> mt_wf t'"
  by (induction ls arbitrary: t) (auto simp: res_bind_eq_Inr intro: mt_wf_insert)


section \<open>The publisher tree\<close>

definition REP_TREE_DEPTH :: nat where "REP_TREE_DEPTH = 20"

record RepTree =
  rt_poseidon :: poseidon
  rt_depth :: nat
  rt_leaves :: "int list"
  rt_zero :: "int list"

definition new_RepTree :: "poseidon \<Rightarrow> nat \<Rightarrow> RepTree" where
  "new_RepTree poseidon depth =
     \<lparr>rt_poseidon = poseidon, rt_depth = depth, rt_leaves = [], rt_zero = zero_table poseidon depth\<rparr>"

definition rt_insert :: "int \<Rightarrow> RepTree \<Rightarrow> (nat \<times> RepTree) res" where
  "rt_insert leaf t =
     (if length (rt_leaves t) \<ge> 2 ^ rt_depth t then Inl (Error ''reputation tree is full'')
      else let leaves = rt_leaves t @ [leaf]
           in Inr (length leaves - 1, t\<lparr>rt_leaves := leaves\<rparr>))"

fun rt_rootFrom :: "RepTree \<Rightarrow> nat \<Rightarrow> nat \<Rightarrow> int" where
  "rt_rootFrom t start 0 =
     (if start \<ge> length (rt_leaves t) then rt_zero t ! 0 else rt_leaves t ! start)"
| "rt_rootFrom t start (Suc level) =
     (if start \<ge> length (rt_leaves t) then rt_zero t ! Suc level
      else let half = 2 ^ level;
               left = rt_rootFrom t start level;
               right = rt_rootFrom t (start + half) level
           in hashFields (rt_poseidon t) [left, right])"

definition rt_root :: "RepTree \<Rightarrow> int" where
  "rt_root t = rt_rootFrom t 0 (rt_depth t)"

definition rt_rootHex :: "RepTree \<Rightarrow> string res" where
  "rt_rootHex t = bigintToHex32 (rt_root t)"

definition rt_node :: "RepTree \<Rightarrow> nat \<Rightarrow> nat \<Rightarrow> int" where
  "rt_node t index level = rt_rootFrom t (index * 2 ^ level) level"

record RepProof =
  rp_root :: string
  rp_pathElements :: "string list"
  rp_pathIndices :: "nat list"

definition rt_proof :: "RepTree \<Rightarrow> nat \<Rightarrow> RepProof res" where
  "rt_proof t index =
     (if index \<ge> length (rt_leaves t)
      then Inl (Error (''leaf index '' @ dec_of_nat index @ '' out of bounds''))
      else let path = path_loop (rt_node t) index [0..<rt_depth t]
           in res_bind (res_map bigintToHex32 (map fst path)) (\<lambda>elements.
              res_bind (rt_rootHex t) (\<lambda>root.
              Inr \<lparr>rp_root = root, rp_pathElements = elements, rp_pathIndices = map snd path\<rparr>)))"

fun insert_hex_leaves :: "string list \<Rightarrow> RepTree \<Rightarrow> RepTree res" where
  "insert_hex_leaves [] t = Inr t"
| "insert_hex_leaves (leaf # leaves) t =
     res_bind (js_BigInt_str leaf) (\<lambda>v. res_bind (rt_insert v t) (\<lambda>(_, t'). insert_hex_leaves leaves t'))"

definition buildRoot :: "poseidon \<Rightarrow> string list \<Rightarrow> string res" where
  "buildRoot poseidon leaves =
     res_bind (insert_hex_leaves leaves (new_RepTree poseidon REP_TREE_DEPTH)) rt_rootHex"

text \<open>The position of the first value equal to the target.\<close>

fun first_index :: "string \<Rightarrow> string list \<Rightarrow> nat option" where
  "first_index target [] = None"
| "first_index target (v # vs) = (if v = target then Some 0 else map_option Suc (first_index target vs))"

definition buildProof :: "poseidon \<Rightarrow> string list \<Rightarrow> string \<Rightarrow> (nat \<times> RepProof) res" where
  "buildProof poseidon leaves leaf =
     (let target = to_lower leaf;
          normalized = map to_lower leaves
      in res_bind (insert_hex_leaves normalized (new_RepTree poseidon REP_TREE_DEPTH)) (\<lambda>tree.
         case first_index target normalized of
           None \<Rightarrow> Inl (Error ''leaf not found'')
         | Some leafIndex \<Rightarrow> res_bind (rt_proof tree leafIndex) (\<lambda>p. Inr (leafIndex, p))))"

definition rep_rootFrom :: "poseidon \<Rightarrow> nat \<Rightarrow> int list \<Rightarrow> nat \<Rightarrow> nat \<Rightarrow> int" where
  "rep_rootFrom poseidon depth leaves =
     rt_rootFrom \<lparr>rt_poseidon = poseidon, rt_depth = depth, rt_leaves = leaves, rt_zero = zero_table poseidon depth\<rparr>"

interpretation pub_tree: hash_tree poseidon depth leaves "zero_table poseidon depth" "rep_rootFrom poseidon depth leaves"
  for poseidon depth leaves
proof unfold_locales
  show "length leaves \<le> start \<Longrightarrow> rep_rootFrom poseidon depth leaves start level = zero_table poseidon depth ! level"
    for start level
    by (cases level) (simp_all add: rep_rootFrom_def)
qed (simp_all add: zero_table_0 zero_table_Suc rep_rootFrom_def hashFields_def)

definition rt_wf :: "RepTree \<Rightarrow> bool" where
  "rt_wf t \<longleftrightarrow> rt_zero t = zero_table (rt_poseidon t) (rt_depth t) \<and> length (rt_leaves t) \<le> 2 ^ rt_depth t"

lemma rt_rootFrom_wf:
  "rt_wf t \<Longrightarrow> rt_rootFrom t = rep_rootFrom (rt_poseidon t) (rt_depth t) (rt_leaves t)"
  unfolding rep_rootFrom_def rt_wf_def by (cases t) simp

lemma rt_root_reference:
  "rt_wf t \<Longrightarrow> rt_root t = reference_root (rt_poseidon t) (rt_depth t) (rt_leaves t)"
  by (simp add: rt_root_def rt_rootFrom_wf pub_tree.root_is_reference)

lemma insert_hex_leaves_Inr:
  "insert_hex_leaves ls t = Inr t' \<Longrightarrow>
   \<exists>vs. map js_BigInt_str ls = map Inr vs \<and> t' = t\<lparr>rt_leaves := rt_leaves t @ vs\<rparr>"
proof (induction ls arbitrary: t)
  case (Cons l ls)
  then obtain v where "js_BigInt_str l = Inr v" "insert_hex_leaves ls (t\<lparr>rt_leaves := rt_leaves t @ [v]\<rparr>) = Inr t'"
    by (auto simp: res_bind_eq_Inr rt_insert_def Let_def split: if_splits)
  with Cons.IH show ?case by (force simp: map_eq_Cons_conv)
qed simp

lemma insert_hex_leaves_ok:
  "map js_BigInt_str ls = map Inr vs \<Longrightarrow> length (rt_leaves t) + length ls \<le> 2 ^ rt_depth t \<Longrightarrow>
   insert_hex_leaves ls t = Inr (t\<lparr>rt_leaves := rt_leaves t @ vs\<rparr>)"
proof (induction ls arbitrary: t vs)
  case (Cons l ls)
  then obtain v ws where "vs = v # ws" "js_BigInt_str l = Inr v" "map js_BigInt_str ls = map Inr ws"
    by (auto simp: map_eq_Cons_conv)
  with Cons show ?case by (simp add: rt_insert_def)
qed simp


section \<open>The SDK tree\<close>

definition POOL_TREE_DEPTH :: nat where "POOL_TREE_DEPTH = 20"

record PoolMerkleTree =
  pt_poseidon :: poseidon
  pt_leaves :: "int list"
  pt_depth :: nat
  pt_zero :: "int list"

definition new_PoolMerkleTree :: "poseidon \<Rightarrow> int list \<Rightarrow> nat \<Rightarrow> PoolMerkleTree" where
  "new_PoolMerkleTree poseidon leaves depth =
     \<lparr>pt_poseidon = poseidon, pt_leaves = leaves, pt_depth = depth, pt_zero = zero_table poseidon depth\<rparr>"

fun pt_rootFrom :: "PoolMerkleTree \<Rightarrow> nat \<Rightarrow> nat \<Rightarrow> int" where
  "pt_rootFrom t start 0 =
     (if start \<ge> length (pt_leaves t) then pt_zero t ! 0 else pt_leaves t ! start)"
| "pt_rootFrom t start (Suc level) =
     (if start \<ge> length (pt_leaves t) then pt_zero t ! Suc level
      else let half = 2 ^ level;
               left = pt_rootFrom t start level;
               right = pt_rootFrom t (start + half) level
           in hashFields (pt_poseidon t) [left, right])"

definition pt_root :: "PoolMerkleTree \<Rightarrow> int" where
  "pt_root t = pt_rootFrom t 0 (pt_depth t)"

definition pt_node :: "PoolMerkleTree \<Rightarrow> nat \<Rightarrow> nat \<Rightarrow> int" where
  "pt_node t index level = pt_rootFrom t (index * 2 ^ level) level"

text \<open>The siblings and the direction bits, without any check of the index.\<close>

definition pt_proof :: "PoolMerkleTree \<Rightarrow> nat \<Rightarrow> int list \<times> nat list" where
  "pt_proof t index =
     (let path = path_loop (pt_node t) index [0..<pt_depth t] in (map fst path, map snd path))"

interpretation pool_tree: hash_tree poseidon depth leaves "zero_table poseidon depth"
    "pt_rootFrom (new_PoolMerkleTree poseidon leaves depth)"
  for poseidon depth leaves
proof unfold_locales
  show "length leaves \<le> start \<Longrightarrow>
      pt_rootFrom (new_PoolMerkleTree poseidon leaves depth) start level = zero_table poseidon depth ! level"
    for start level
    by (cases level) (simp_all add: new_PoolMerkleTree_def)
qed (simp_all add: zero_table_0 zero_table_Suc new_PoolMerkleTree_def hashFields_def)

lemma pt_root_reference [simp]: "pt_root (new_PoolMerkleTree poseidon leaves depth) = reference_root poseidon depth leaves"
  using pool_tree.root_is_reference by (simp add: pt_root_def new_PoolMerkleTree_def)

lemma pt_proof_full_path:
  "pt_proof (new_PoolMerkleTree poseidon leaves depth) i =
     (map fst (full_path poseidon leaves 0 i depth), path_bits depth i)"
proof -
  have "pt_node (new_PoolMerkleTree poseidon leaves depth) =
      (\<lambda>index level. pt_rootFrom (new_PoolMerkleTree poseidon leaves depth) (index * 2 ^ level) level)"
    by (intro ext) (simp add: pt_node_def)
  then show ?thesis
    using pool_tree.path_is_full_path [of poseidon leaves depth i]
    by (simp add: pt_proof_def new_PoolMerkleTree_def)
qed


section \<open>Properties\<close>

lemma mt_build:
  assumes "length leaves \<le> 2 ^ depth"
  shows "mt_insert_all leaves (new_MerkleTree poseidon depth) =
      Inr \<lparr>mt_poseidon = poseidon, mt_depth = depth, mt_leaves = leaves, mt_zero = zero_table poseidon depth\<rparr>"
proof -
  obtain t where t: "mt_insert_all leaves (new_MerkleTree poseidon depth) = Inr t"
    using mt_insert_all_ok [of "new_MerkleTree poseidon depth" leaves] assms
    by (auto simp: new_MerkleTree_def)
  then show ?thesis using mt_insert_all_Inr [OF t] by (simp add: new_MerkleTree_def)
qed

lemma rt_build:
  assumes "length leaves \<le> 2 ^ depth" "map js_BigInt_str leaves = map Inr vs"
  shows "insert_hex_leaves leaves (new_RepTree poseidon depth) =
      Inr \<lparr>rt_poseidon = poseidon, rt_depth = depth, rt_leaves = vs, rt_zero = zero_table poseidon depth\<rparr>"
  using insert_hex_leaves_ok [OF assms(2), of "new_RepTree poseidon depth"] assms(1)
  by (simp add: new_RepTree_def)

text \<open>
  C7: the three copies of the tree class agree. For every hash, every depth and every list of
  leaves that fits, the tree the ASP fills by insertion, the one the publisher fills from hex
  strings and the one the SDK builds from the list have the same root, the root of the textbook
  tree over the leaves padded with zero; one leaf more is refused by the ASP tree.
\<close>

theorem trees_agree_with_reference:
  assumes "length leaves \<le> 2 ^ depth" "\<forall>l \<in> set leaves. 0 \<le> l"
  shows "\<exists>t r. mt_insert_all leaves (new_MerkleTree poseidon depth) = Inr t
    \<and> insert_hex_leaves (map toHex32 leaves) (new_RepTree poseidon depth) = Inr r
    \<and> mt_root t = reference_root poseidon depth leaves
    \<and> rt_root r = reference_root poseidon depth leaves
    \<and> pt_root (new_PoolMerkleTree poseidon leaves depth) = reference_root poseidon depth leaves
    \<and> (length leaves = 2 ^ depth \<longrightarrow> mt_insert leaf t = Inl (Error ''tree full''))"
proof -
  have "map js_BigInt_str (map toHex32 leaves) = map Inr leaves" using assms(2) by simp
  then show ?thesis
    using assms mt_build [OF assms(1)] rt_build [of "map toHex32 leaves" depth leaves poseidon]
    by (simp add: mt_root_reference rt_root_reference mt_wf_def rt_wf_def mt_insert_def)
qed

theorem trees_agree_with_reference_witness:
  "\<exists>t r. mt_insert_all [5, 7, 9] (new_MerkleTree sum_list 20) = Inr t
    \<and> insert_hex_leaves (map toHex32 [5, 7, 9]) (new_RepTree sum_list 20) = Inr r
    \<and> mt_root t = rt_root r"
  using trees_agree_with_reference [of "[5, 7, 9]" 20 sum_list] by auto

text \<open>
  An inclusion path the ASP tree or the SDK tree hands out for a stored leaf folds from that
  leaf to the root of the tree, and has one step per level.
\<close>

lemma tree_paths_fold_to_root:
  assumes "mt_wf t" "i < length (mt_leaves t)"
  shows "\<exists>p. mt_proof t i = Inr p
    \<and> length (pathElements p) = mt_depth t \<and> length (pathIndices p) = mt_depth t
    \<and> fold_path (mt_poseidon t) (mt_leaves t ! i) (zip (pathElements p) (pathIndices p)) = mt_root t
    \<and> proof_root p = mt_root t
    \<and> pt_proof (new_PoolMerkleTree (mt_poseidon t) (mt_leaves t) (mt_depth t)) i = (pathElements p, pathIndices p)"
proof -
  have len: "length (mt_leaves t) \<le> 2 ^ mt_depth t" using assms(1) by (simp add: mt_wf_def)
  have root: "fold_path (mt_poseidon t) (mt_leaves t ! i) (full_path (mt_poseidon t) (mt_leaves t) 0 i (mt_depth t)) = mt_root t"
    using pool_tree.path_folds_to_root [OF assms(2) len, of "mt_poseidon t"] assms(1)
    by (simp add: mt_root_reference pool_tree.path_is_full_path pool_tree.root_is_reference)
  obtain p where p: "mt_proof t i = Inr p" "proof_root p = mt_root t"
      "zip (pathElements p) (pathIndices p) = full_path (mt_poseidon t) (mt_leaves t) 0 i (mt_depth t)"
      "length (pathElements p) = mt_depth t" "pathIndices p = path_bits (mt_depth t) i"
    using mt_proof_ok [OF assms] by blast
  have "length (pathIndices p) = mt_depth t"
    using p(5) by simp
  moreover have "map fst (full_path (mt_poseidon t) (mt_leaves t) 0 i (mt_depth t)) = pathElements p"
    using calculation p(4) by (simp flip: p(3))
  ultimately show ?thesis using p root by (simp add: pt_proof_full_path)
qed

lemma tree_paths_fold_to_root_witness:
  "\<exists>p. mt_proof \<lparr>mt_poseidon = sum_list, mt_depth = 20, mt_leaves = [5, 7, 9], mt_zero = zero_table sum_list 20\<rparr> 2 = Inr p
    \<and> fold_path sum_list 9 (zip (pathElements p) (pathIndices p)) = proof_root p"
  using tree_paths_fold_to_root
    [of "\<lparr>mt_poseidon = sum_list, mt_depth = 20, mt_leaves = [5, 7, 9], mt_zero = zero_table sum_list 20\<rparr>" 2]
  by (auto simp: mt_wf_def)

text \<open>The publisher's paths, whose elements are hex strings.\<close>

definition field_valued :: "poseidon \<Rightarrow> bool" where
  "field_valued poseidon \<longleftrightarrow> (\<forall>xs. 0 \<le> poseidon xs \<and> poseidon xs < 2 ^ 256)"

lemma full_node_bounds:
  "field_valued poseidon \<Longrightarrow> \<forall>l \<in> set leaves. 0 \<le> l \<and> l < 2 ^ 256 \<Longrightarrow>
   0 \<le> full_node poseidon leaves l i \<and> full_node poseidon leaves l i < 2 ^ 256"
  by (cases l) (auto simp: field_valued_def leaf_at_def)

lemma full_path_bounds:
  assumes "field_valued poseidon" "\<forall>l \<in> set leaves. 0 \<le> l \<and> l < 2 ^ 256"
  shows "x \<in> set (full_path poseidon leaves l i n) \<Longrightarrow> 0 \<le> fst x \<and> fst x < 2 ^ 256"
  by (induction n arbitrary: l i) (use full_node_bounds [OF assms] in \<open>auto split: if_splits\<close>)

lemma res_map_hex32:
  "\<forall>v \<in> set vs. 0 \<le> v \<and> v < 2 ^ 256 \<Longrightarrow> res_map bigintToHex32 vs = Inr (map toHex32 vs)"
  by (induction vs) (simp_all add: bigintToHex32_Inr [THEN iffD2])

lemma rt_proof_ok:
  assumes "rt_wf t" "i < length (rt_leaves t)" "field_valued (rt_poseidon t)"
    and "\<forall>l \<in> set (rt_leaves t). 0 \<le> l \<and> l < 2 ^ 256"
  shows "rt_proof t i = Inr \<lparr>rp_root = toHex32 (rt_root t),
      rp_pathElements = map (toHex32 \<circ> fst) (full_path (rt_poseidon t) (rt_leaves t) 0 i (rt_depth t)),
      rp_pathIndices = path_bits (rt_depth t) i\<rparr>"
proof -
  have "rt_node t = (\<lambda>index level. rt_rootFrom t (index * 2 ^ level) level)"
    by (intro ext) (simp add: rt_node_def)
  then have "path_loop (rt_node t) i [0..<rt_depth t] = full_path (rt_poseidon t) (rt_leaves t) 0 i (rt_depth t)"
    using pub_tree.path_is_full_path assms(1) by (simp add: rt_rootFrom_wf)
  moreover have "rt_rootHex t = Inr (toHex32 (rt_root t))"
    using full_node_bounds [OF assms(3,4), of "rt_depth t" 0] assms(1)
    by (simp add: rt_rootHex_def bigintToHex32_Inr rt_root_reference reference_root_full_node)
  ultimately show ?thesis
    using assms(2) full_path_bounds [OF assms(3,4)]
    by (simp add: rt_proof_def res_map_hex32)
qed

lemma hex32_values:
  assumes "\<forall>s \<in> set ss. is_hex32 s"
  shows "\<exists>vs. ss = map toHex32 vs \<and> (\<forall>v \<in> set vs. 0 \<le> v \<and> v < 2 ^ 256)"
  using assms
proof (induction ss)
  case (Cons s ss)
  then obtain vs where vs: "ss = map toHex32 vs" "\<forall>v \<in> set vs. 0 \<le> v \<and> v < 2 ^ 256" by auto
  obtain v where v: "0 \<le> v" "toHex32 v = s" "v < 2 ^ 256"
    using is_hex32_BigInt [of s] is_hex32_bound Cons.prems by auto
  with vs show ?case by (intro exI [of _ "v # vs"]) simp
qed simp

lemma first_index_Some: "first_index x xs = Some i \<Longrightarrow> i < length xs \<and> xs ! i = x"
  by (induction xs arbitrary: i) (auto split: if_splits)

lemma first_index_None: "first_index x xs = None \<longleftrightarrow> x \<notin> set xs"
  by (induction xs) auto

text \<open>
  A published proof verifies against the published root. For stored leaves (32-byte hex
  strings), \<open>buildProof\<close> answers for exactly the leaves that are stored, whatever their letter
  case; the position it returns is that of the leaf, its path elements and root read back as
  numbers fold from the leaf to the root, and that root is the one \<open>buildRoot\<close> publishes for
  the same leaves.
\<close>

lemma published_proof_verifies:
  assumes "field_valued poseidon" "length leaves \<le> 2 ^ REP_TREE_DEPTH" "\<forall>s \<in> set leaves. is_hex32 s"
  shows "if to_lower leaf \<in> set leaves
    then \<exists>i p v vs root. buildProof poseidon leaves leaf = Inr (i, p)
      \<and> i < length leaves \<and> leaves ! i = to_lower leaf \<and> js_BigInt_str (leaves ! i) = Inr v
      \<and> map js_BigInt_str (rp_pathElements p) = map Inr vs \<and> js_BigInt_str (rp_root p) = Inr root
      \<and> fold_path poseidon v (zip vs (rp_pathIndices p)) = root
      \<and> buildRoot poseidon leaves = Inr (rp_root p)
    else buildProof poseidon leaves leaf = Inl (Error ''leaf not found'')"
proof -
  obtain vs where vs: "leaves = map toHex32 vs" "\<forall>v \<in> set vs. 0 \<le> v \<and> v < 2 ^ 256"
    using hex32_values [OF assms(3)] by blast
  let ?t = "\<lparr>rt_poseidon = poseidon, rt_depth = REP_TREE_DEPTH, rt_leaves = vs, rt_zero = zero_table poseidon REP_TREE_DEPTH\<rparr>"
  have low: "map to_lower leaves = leaves"
    using assms(3) by (intro map_idI) (simp add: is_hex32_lower)
  have "map js_BigInt_str leaves = map Inr vs" using vs by simp
  from rt_build [OF assms(2) this, of poseidon]
  have tree: "insert_hex_leaves leaves (new_RepTree poseidon REP_TREE_DEPTH) = Inr ?t" .
  have wf: "rt_wf ?t" using assms(2) vs(1) by (simp add: rt_wf_def)
  have node: "0 \<le> full_node poseidon vs l j \<and> full_node poseidon vs l j < 2 ^ 256" for l j
    by (rule full_node_bounds [OF assms(1) vs(2)])
  have root: "0 \<le> rt_root ?t" "rt_rootHex ?t = Inr (toHex32 (rt_root ?t))"
    using node wf by (simp_all add: rt_rootHex_def bigintToHex32_Inr rt_root_reference reference_root_full_node)
  show ?thesis
  proof (cases "to_lower leaf \<in> set leaves")
    case True
    then obtain i where i: "first_index (to_lower leaf) leaves = Some i"
      by (cases "first_index (to_lower leaf) leaves") (auto simp: first_index_None)
    note at_i = first_index_Some [OF i]
    let ?path = "full_path poseidon vs 0 i REP_TREE_DEPTH"
    let ?p = "\<lparr>rp_root = toHex32 (rt_root ?t), rp_pathElements = map (toHex32 \<circ> fst) ?path,
        rp_pathIndices = path_bits REP_TREE_DEPTH i\<rparr>"
    have "rt_proof ?t i = Inr ?p"
      using rt_proof_ok [OF wf] at_i vs assms(1) by simp
    then have built: "buildProof poseidon leaves leaf = Inr (i, ?p)"
      by (simp add: buildProof_def low tree i)
    have "buildRoot poseidon leaves = Inr (rp_root ?p)"
      by (simp add: buildRoot_def tree root)
    moreover have "map js_BigInt_str (rp_pathElements ?p) = map Inr (map fst ?path)"
      using full_path_bounds [OF assms(1) vs(2)] by simp
    moreover have "fold_path poseidon (vs ! i) (zip (map fst ?path) (rp_pathIndices ?p)) = rt_root ?t"
      using pub_tree.path_folds_to_root [of i vs REP_TREE_DEPTH poseidon] at_i vs(1) assms(2) wf
      by (simp add: rt_root_reference pub_tree.path_is_full_path pub_tree.root_is_reference)
    moreover have "js_BigInt_str (leaves ! i) = Inr (vs ! i)"
      using conjunct1 [OF at_i] vs by simp
    ultimately show ?thesis
      unfolding if_P [OF True] using built at_i root(1)
      by (intro exI [of _ i] exI [of _ ?p] exI [of _ "vs ! i"] exI [of _ "map fst ?path"] exI [of _ "rt_root ?t"]) simp
  next
    case False
    then have "first_index (to_lower leaf) leaves = None" by (simp add: first_index_None)
    then show ?thesis using False by (simp add: buildProof_def low tree)
  qed
qed

lemma published_proof_verifies_witness:
  "\<exists>i p. buildProof (\<lambda>xs. sum_list xs mod 97) (map toHex32 [10, 11]) (toHex32 11) = Inr (i, p)
    \<and> buildRoot (\<lambda>xs. sum_list xs mod 97) (map toHex32 [10, 11]) = Inr (rp_root p)"
proof -
  have mod: "(x :: int) mod 97 < m" if "97 \<le> m" for x m using that pos_mod_bound [of 97 x] by linarith
  then have "field_valued (\<lambda>xs. sum_list xs mod 97)" by (simp add: field_valued_def)
  moreover have "\<forall>s \<in> set (map toHex32 [10, 11]). is_hex32 s" by (simp add: is_hex32_toHex32)
  ultimately show ?thesis
    using published_proof_verifies [of "\<lambda>xs. sum_list xs mod 97" "map toHex32 [10, 11]" "toHex32 11"]
    by (auto simp: REP_TREE_DEPTH_def)
qed

end
