(* ===== verification/Sdk_Prove.thy ===== *)
theory Sdk_Prove
  imports Merkle_Trees Relayer_Payload
begin

text \<open>
  The withdrawal prover of the SDK: notes and their derivation (\<open>sdk/src/crypto/notes.ts\<close>), the
  byte helpers (\<open>sdk/src/crypto/bytes.ts\<close>), the client of the association-set service
  (\<open>sdk/src/prove/asp-client.ts\<close>), the witness of a withdrawal
  (\<open>sdk/src/prove/pool.ts\<close>) and the byte layout of a Groth16 proof
  (\<open>sdk/src/prove/serialize.ts\<close>).

  Poseidon (circomlibjs), Keccak-256 and the XDR of addresses are parameters. The bytes drawn from
  \<open>crypto.getRandomValues\<close> are arguments of the functions that draw them, and an HTTP exchange is
  the function \<open>http\<close> from a request to its status and decoded body. Leaf indices and scopes are
  natural numbers, as the contract hands them out.
\<close>


section \<open>Bytes and notes\<close>

text \<open>The low \<open>len\<close> bytes of a bigint, most significant first (\<open>n & 0xff\<close>, \<open>n >>= 8\<close>).\<close>

fun beBytes :: "int \<Rightarrow> nat \<Rightarrow> byte list" where
  "beBytes v 0 = []"
| "beBytes v (Suc len) = beBytes (v div 256) len @ [word_of_int v]"

definition bigIntToBytes32 :: "int \<Rightarrow> byte list" where
  "bigIntToBytes32 value = beBytes value 32"

definition bytesToBigInt :: "byte list \<Rightarrow> int" where
  "bytesToBigInt b = foldl (\<lambda>x c. x * 256 + uint c) 0 b"

definition BN254_R :: int where
  "BN254_R = 21888242871839275222246405745257275088548364400416034343698204186575808495617"

record PoolNote =
  note_cluster :: string
  note_poolId :: "string option"
  note_value :: string
  note_scope :: nat
  note_leafIndex :: nat
  note_nullifier :: string
  note_secret :: string
  note_commitment :: string
  note_spent :: bool
  note_createdAt :: rat

definition randomFieldElement :: "byte list \<Rightarrow> string" where
  "randomFieldElement bytes = dec_of_int (foldl (\<lambda>v b. v * 256 + uint b) 0 bytes mod BN254_R)"

record DerivedDeposit =
  dd_label :: int
  dd_precommitment :: int
  dd_commitment :: int
  dd_nullifierHash :: int

definition deriveDeposit :: "poseidon \<Rightarrow> int \<Rightarrow> nat \<Rightarrow> nat \<Rightarrow> int \<Rightarrow> int \<Rightarrow> DerivedDeposit" where
  "deriveDeposit poseidon value scope leafIndex nullifier secret =
     (let h = hashFields poseidon;
          label = h [int scope, int leafIndex];
          precommitment = h [nullifier, secret];
          commitment = h [value, label, precommitment];
          nullifierHash = h [nullifier]
      in \<lparr>dd_label = label, dd_precommitment = precommitment, dd_commitment = commitment,
          dd_nullifierHash = nullifierHash\<rparr>)"

definition newNoteSecrets :: "byte list \<Rightarrow> byte list \<Rightarrow> string \<times> string" where
  "newNoteSecrets r1 r2 = (randomFieldElement r1, randomFieldElement r2)"

definition unspentTotal :: "PoolNote list \<Rightarrow> int res" where
  "unspentTotal notes =
     foldl (\<lambda>acc n. res_bind acc (\<lambda>sum. res_bind (js_BigInt_str (note_value n)) (\<lambda>v. Inr (sum + v))))
       (Inr 0) (filter (\<lambda>n. \<not> note_spent n) notes)"


section \<open>The client of the association-set service\<close>

record AspInclusionProof =
  ai_root :: string
  ai_label :: string
  ai_index :: rat
  ai_depositIndex :: "rat option"
  ai_levels :: rat
  ai_pathElements :: "string list"
  ai_pathIndices :: "rat list"

text \<open>
  The loop over the path: the sibling is read with \<open>BigInt\<close> and hashed on the side its direction
  says. The flag is the comparison of the direction with 1.
\<close>

fun replay_path :: "poseidon \<Rightarrow> int \<Rightarrow> (string \<times> bool) list \<Rightarrow> int res" where
  "replay_path poseidon computed [] = Inr computed"
| "replay_path poseidon computed ((e, right) # path) =
     res_bind (js_BigInt_str e) (\<lambda>sibling.
       replay_path poseidon
         (if right then hashFields poseidon [sibling, computed] else hashFields poseidon [computed, sibling]) path)"

definition assertAspInclusionMatchesRoot :: "poseidon \<Rightarrow> AspInclusionProof \<Rightarrow> unit res" where
  "assertAspInclusionMatchesRoot poseidon p =
     (if length (ai_pathElements p) \<noteq> length (ai_pathIndices p)
      then Inl (Error (''ASP inclusion proof is malformed: '' @ dec_of_nat (length (ai_pathElements p))
             @ '' path elements vs '' @ dec_of_nat (length (ai_pathIndices p)) @ '' indices''))
      else if rat_of_nat (length (ai_pathElements p)) \<noteq> ai_levels p
      then Inl (Error (''ASP inclusion proof covers '' @ dec_of_nat (length (ai_pathElements p))
             @ '' levels, expected '' @ js_num_String (ai_levels p)))
      else res_bind (js_BigInt_str (ai_label p)) (\<lambda>leaf.
           res_bind (replay_path poseidon leaf (zip (ai_pathElements p) (map (\<lambda>d. d = 1) (ai_pathIndices p)))) (\<lambda>computed.
           res_bind (js_BigInt_str (ai_root p)) (\<lambda>root.
             if computed \<noteq> root
             then Inl (Error (''ASP inclusion proof does not reproduce its root: computed 0x''
                    @ hex_of_int computed @ '', proof claims '' @ ai_root p))
             else Inr ()))))"

text \<open>\<open>/^0x[0-9a-fA-F]{64}$/\<close> and \<open>/^\d{1,78}$/\<close>\<close>

definition ROOT_RE :: "string \<Rightarrow> bool" where
  "ROOT_RE s \<longleftrightarrow> starts_with ''0x'' s \<and> length s = 66 \<and> list_all is_hex (drop 2 s)"

definition LABEL_RE :: "string \<Rightarrow> bool" where
  "LABEL_RE s \<longleftrightarrow> 1 \<le> length s \<and> length s \<le> 78 \<and> list_all is_digit s"

definition DEFAULT_ASP_TIMEOUT_MS :: nat where "DEFAULT_ASP_TIMEOUT_MS = 10000"

record FetchAspInclusionOptions =
  fo_baseUrl :: string
  fo_poolId :: string
  fo_root :: string
  fo_label :: string
  fo_timeoutMs :: "nat option"

text \<open>
  Joining a path to a base URL with a trailing slash. The paths are built from validated hex and
  decimal strings, which \<open>encodeURIComponent\<close> leaves as they are.
\<close>

definition url :: "string \<Rightarrow> string \<Rightarrow> string" where
  "url path base = (if base \<noteq> [] \<and> last base = CHR ''/'' then base else base @ ''/'') @ path"

definition getJson :: "(string \<Rightarrow> nat \<Rightarrow> (nat \<times> 'a) res) \<Rightarrow> string \<Rightarrow> nat \<Rightarrow> 'a res" where
  "getJson http target timeoutMs =
     res_bind (http target timeoutMs) (\<lambda>(status, body).
       if \<not> (200 \<le> status \<and> status \<le> 299)
       then Inl (Error (''ASP returned '' @ dec_of_nat status @ '' for '' @ target))
       else Inr body)"

definition fetchAspInclusion ::
  "poseidon \<Rightarrow> (string \<Rightarrow> nat \<Rightarrow> (nat \<times> AspInclusionProof) res) \<Rightarrow> FetchAspInclusionOptions \<Rightarrow> AspInclusionProof res" where
  "fetchAspInclusion poseidon http opts =
     (if \<not> ROOT_RE (fo_root opts)
      then Inl (Error (''asp root must be a 0x-prefixed 32-byte hex string, got '' @ [quote_char] @ fo_root opts @ [quote_char]))
      else if \<not> LABEL_RE (fo_label opts)
      then Inl (Error (''asp label must be a decimal field element, got '' @ [quote_char] @ fo_label opts @ [quote_char]))
      else res_bind
        (getJson http (url (''inclusion/'' @ fo_root opts @ ''/'' @ fo_label opts) (fo_baseUrl opts))
          (case fo_timeoutMs opts of Some t \<Rightarrow> t | None \<Rightarrow> DEFAULT_ASP_TIMEOUT_MS)) (\<lambda>p.
        res_bind (assertAspInclusionMatchesRoot poseidon p) (\<lambda>_. Inr p)))"

definition fetchAspManifest :: "(string \<Rightarrow> nat \<Rightarrow> (nat \<times> 'm) res) \<Rightarrow> string \<Rightarrow> string \<Rightarrow> nat option \<Rightarrow> 'm res" where
  "fetchAspManifest http baseUrl wanted timeoutMs =
     (if \<not> ROOT_RE wanted
      then Inl (Error (''asp root must be a 0x-prefixed 32-byte hex string, got '' @ [quote_char] @ wanted @ [quote_char]))
      else getJson http (url (''manifest/'' @ wanted) baseUrl)
             (case timeoutMs of Some t \<Rightarrow> t | None \<Rightarrow> DEFAULT_ASP_TIMEOUT_MS))"


section \<open>The withdrawal witness\<close>

record WithdrawContext =
  cx_recipient :: string
  cx_withdrawn :: int
  cx_fee :: int
  cx_relayer :: string
  cx_scope :: nat

definition context_preimage :: "stellar_lib \<Rightarrow> WithdrawContext \<Rightarrow> byte list res" where
  "context_preimage L opts =
     res_bind (address_xdr L (JStr (cx_recipient opts))) (\<lambda>recXdr.
     res_bind (address_xdr L (JStr (cx_relayer opts))) (\<lambda>relXdr.
     Inr (concatBytes [recXdr, beBytes (cx_withdrawn opts) 16, beBytes (cx_fee opts) 16, relXdr,
                       beBytes (int (cx_scope opts)) 8])))"

definition computeWithdrawContext :: "stellar_lib \<Rightarrow> WithdrawContext \<Rightarrow> int res" where
  "computeWithdrawContext L opts =
     res_bind (context_preimage L opts) (\<lambda>preimage.
       Inr (foldl (\<lambda>v b. v * 256 + uint b) 0 (keccak_256 L preimage) mod BN254_R))"

record AspWitnessInclusion =
  aw_root :: string
  aw_label :: string
  aw_pathElements :: "string list"
  aw_pathIndices :: "string list"

record WithdrawOpts =
  wo_note :: PoolNote
  wo_recipient :: string
  wo_relayer :: string
  wo_fee :: int
  wo_scope :: nat
  wo_stateLeaves :: "int list"
  wo_depositIndices :: "nat list"
  wo_withdrawnValue :: "int option"
  wo_aspInclusion :: "AspWitnessInclusion option"

record PoolWithdrawWitness =
  ww_input :: jv
  ww_withdrawnValue :: int
  ww_stateRoot :: int
  ww_aspRoot :: int
  ww_nullifierHash :: int
  ww_newCommitment :: int
  ww_change :: "(string \<times> string) \<times> int"

text \<open>The two ways to the association path: a path fetched from the ASP, replayed here, or the tree rebuilt.\<close>

definition asp_from_inclusion ::
  "poseidon \<Rightarrow> int \<Rightarrow> AspWitnessInclusion \<Rightarrow> (int \<times> string list \<times> string list) res" where
  "asp_from_inclusion poseidon label inclusion =
     res_bind (js_BigInt_str (aw_label inclusion)) (\<lambda>l.
       if l \<noteq> label then Inl (Error ''ASP inclusion proof is for a different label than this note.'')
       else if length (aw_pathElements inclusion) \<noteq> length (aw_pathIndices inclusion)
       then Inl (Error ''ASP inclusion proof is malformed: path/index length mismatch.'')
       else res_bind (replay_path poseidon l
              (zip (aw_pathElements inclusion) (map (\<lambda>d. js_Number_str d = Some 1) (aw_pathIndices inclusion)))) (\<lambda>computed.
            res_bind (js_BigInt_str (aw_root inclusion)) (\<lambda>root.
              if computed \<noteq> root then Inl (Error ''ASP inclusion proof does not reproduce the root it claims.'')
              else Inr (computed, aw_pathElements inclusion, aw_pathIndices inclusion))))"

fun index_of :: "nat \<Rightarrow> nat list \<Rightarrow> nat option" where
  "index_of x [] = None"
| "index_of x (y # ys) = (if y = x then Some 0 else map_option Suc (index_of x ys))"

definition asp_from_indices ::
  "poseidon \<Rightarrow> nat \<Rightarrow> nat \<Rightarrow> nat list \<Rightarrow> (int \<times> string list \<times> string list) res" where
  "asp_from_indices poseidon scope leafIndex depositIndices =
     (case index_of leafIndex depositIndices of
        None \<Rightarrow> Inl (Error (''Leaf #'' @ dec_of_nat leafIndex @ '' is not among the pool's deposits.''))
      | Some aspLeafIndex \<Rightarrow>
          let aspLeaves = map (\<lambda>i. hashFields poseidon [int scope, int i]) depositIndices;
              aspTree = new_PoolMerkleTree poseidon aspLeaves POOL_TREE_DEPTH;
              (siblings, indices) = pt_proof aspTree aspLeafIndex
          in Inr (pt_root aspTree, map dec_of_int siblings, map dec_of_nat indices))"

definition circuit_input ::
  "int \<Rightarrow> int \<Rightarrow> int \<Rightarrow> int \<Rightarrow> int \<Rightarrow> int \<Rightarrow> int \<Rightarrow> int \<Rightarrow> PoolNote \<Rightarrow> string \<times> string \<Rightarrow>
   int list \<Rightarrow> nat list \<Rightarrow> string list \<Rightarrow> string list \<Rightarrow> jv" where
  "circuit_input withdrawn state asp nh nc ctx val label note change siblings indices aspSiblings aspIndex =
     JObj [(''withdrawnValue'', JStr (dec_of_int withdrawn)),
           (''stateRoot'', JStr (dec_of_int state)),
           (''aspRoot'', JStr (dec_of_int asp)),
           (''nullifierHash'', JStr (dec_of_int nh)),
           (''newCommitment'', JStr (dec_of_int nc)),
           (''context'', JStr (dec_of_int ctx)),
           (''value'', JStr (dec_of_int val)),
           (''label'', JStr (dec_of_int label)),
           (''nullifier'', JStr (note_nullifier note)),
           (''secret'', JStr (note_secret note)),
           (''newNullifier'', JStr (fst change)),
           (''newSecret'', JStr (snd change)),
           (''stateSiblings'', JArr (map (JStr \<circ> dec_of_int) siblings)),
           (''stateIndex'', JArr (map (JStr \<circ> dec_of_nat) indices)),
           (''aspSiblings'', JArr (map JStr aspSiblings)),
           (''aspIndex'', JArr (map JStr aspIndex))]"

definition buildPoolWithdrawWitness ::
  "poseidon \<Rightarrow> stellar_lib \<Rightarrow> byte list \<Rightarrow> byte list \<Rightarrow> WithdrawOpts \<Rightarrow> PoolWithdrawWitness res" where
  "buildPoolWithdrawWitness poseidon L r1 r2 opts =
     (let note = wo_note opts; h = hashFields poseidon in
      res_bind (js_BigInt_str (note_value note)) (\<lambda>val.
      let withdrawn = (case wo_withdrawnValue opts of Some w \<Rightarrow> w | None \<Rightarrow> val) in
      if withdrawn \<le> 0 \<or> withdrawn > val
      then Inl (Error ''withdrawnValue must be greater than zero and no greater than the note value'')
      else
      let remainder = val - withdrawn;
          label = h [int (wo_scope opts), int (note_leafIndex note)];
          stateTree = new_PoolMerkleTree poseidon (wo_stateLeaves opts) POOL_TREE_DEPTH;
          (siblings, indices) = pt_proof stateTree (note_leafIndex note)
      in if note_leafIndex note < length (wo_stateLeaves opts)
            \<and> to_lower (toHex32 (wo_stateLeaves opts ! note_leafIndex note)) \<noteq> to_lower (note_commitment note)
      then Inl (Error (''Leaf #'' @ dec_of_nat (note_leafIndex note) @ '' commitment does not match this note.''))
      else
      res_bind (case wo_aspInclusion opts of
          Some inclusion \<Rightarrow> asp_from_inclusion poseidon label inclusion
        | None \<Rightarrow> asp_from_indices poseidon (wo_scope opts) (note_leafIndex note) (wo_depositIndices opts))
        (\<lambda>(asp, aspSiblings, aspIndex).
      let change = newNoteSecrets r1 r2 in
      res_bind (js_BigInt_str (fst change)) (\<lambda>newNullifier.
      res_bind (js_BigInt_str (snd change)) (\<lambda>newSecret.
      let newPrecommit = h [newNullifier, newSecret];
          newCommitment = h [remainder, label, newPrecommit]
      in res_bind (js_BigInt_str (note_nullifier note)) (\<lambda>nullifier.
      let nullifierHash = h [nullifier] in
      res_bind (computeWithdrawContext L
          \<lparr>cx_recipient = wo_recipient opts, cx_withdrawn = withdrawn, cx_fee = wo_fee opts,
           cx_relayer = wo_relayer opts, cx_scope = wo_scope opts\<rparr>) (\<lambda>ctx.
      Inr \<lparr>ww_input = circuit_input withdrawn (pt_root stateTree) asp nullifierHash newCommitment ctx val label note
             change siblings indices aspSiblings aspIndex,
           ww_withdrawnValue = withdrawn, ww_stateRoot = pt_root stateTree, ww_aspRoot = asp,
           ww_nullifierHash = nullifierHash, ww_newCommitment = newCommitment,
           ww_change = (change, remainder)\<rparr>)))))))"


section \<open>The proof bytes\<close>

record Groth16ProofLike =
  g_pi_a :: "string list"
  g_pi_b :: "string list list"
  g_pi_c :: "string list"

record SerializedProof =
  sp_a :: "byte list"
  sp_b :: "byte list"
  sp_c :: "byte list"

text \<open>\<open>BigInt(xs[i])\<close>: an absent element is \<open>undefined\<close>, which \<open>BigInt\<close> refuses.\<close>

definition bigint_at :: "string list \<Rightarrow> nat \<Rightarrow> int res" where
  "bigint_at xs i =
     (if i < length xs then js_BigInt_str (xs ! i) else Inl (TypeError ''Cannot convert undefined to a BigInt''))"

definition serialize_g1 :: "string list \<Rightarrow> byte list res" where
  "serialize_g1 p =
     res_bind (bigint_at p 0) (\<lambda>x. res_bind (bigint_at p 1) (\<lambda>y. Inr (bigIntToBytes32 x @ bigIntToBytes32 y)))"

definition g2_pair :: "string list \<Rightarrow> int list res" where
  "g2_pair pair = res_bind (bigint_at pair 1) (\<lambda>c1. res_bind (bigint_at pair 0) (\<lambda>c0. Inr [c1, c0]))"

definition serialize_g2 :: "string list list \<Rightarrow> byte list res" where
  "serialize_g2 p =
     res_bind (res_map g2_pair (take 2 p)) (\<lambda>pairs.
       let flat = concat pairs
       in if length flat < 4 then Inl (TypeError ''Cannot mix BigInt and other types'')
          else Inr (concat (map (\<lambda>i. bigIntToBytes32 (flat ! i)) [0..<4])))"

definition serializeGroth16Proof :: "Groth16ProofLike \<Rightarrow> SerializedProof res" where
  "serializeGroth16Proof p =
     res_bind (serialize_g1 (g_pi_a p)) (\<lambda>a.
     res_bind (serialize_g2 (g_pi_b p)) (\<lambda>b.
     res_bind (serialize_g1 (g_pi_c p)) (\<lambda>c. Inr \<lparr>sp_a = a, sp_b = b, sp_c = c\<rparr>)))"

record PoolWithdrawProof =
  wp_proofA :: "byte list"
  wp_proofB :: "byte list"
  wp_proofC :: "byte list"
  wp_withdrawnValue :: int
  wp_stateRoot :: "byte list"
  wp_aspRoot :: "byte list"
  wp_nullifierHash :: "byte list"
  wp_newCommitment :: "byte list"
  wp_change :: "(string \<times> string) \<times> int"

definition finishPoolWithdrawProof :: "PoolWithdrawWitness \<Rightarrow> Groth16ProofLike \<Rightarrow> PoolWithdrawProof res" where
  "finishPoolWithdrawProof w p =
     res_bind (serializeGroth16Proof p) (\<lambda>s.
       Inr \<lparr>wp_proofA = sp_a s, wp_proofB = sp_b s, wp_proofC = sp_c s, wp_withdrawnValue = ww_withdrawnValue w,
            wp_stateRoot = bigIntToBytes32 (ww_stateRoot w), wp_aspRoot = bigIntToBytes32 (ww_aspRoot w),
            wp_nullifierHash = bigIntToBytes32 (ww_nullifierHash w),
            wp_newCommitment = bigIntToBytes32 (ww_newCommitment w), wp_change = ww_change w\<rparr>)"

end
