(* ===== verification/Sdk_Prove_Props.thy ===== *)
theory Sdk_Prove_Props
  imports Sdk_Prove
begin

text \<open>
  Properties of the withdrawal prover: the context fixes the terms of a withdrawal, an accepted
  association path proves membership, a built witness satisfies the relation of the withdrawal
  circuit, and the bytes of a finished proof have the layout the relayer demands.
\<close>


section \<open>Big-endian bytes\<close>

lemma length_beBytes [simp]: "length (beBytes v n) = n"
  by (induction n arbitrary: v) simp_all

lemma bytesToBigInt_snoc: "bytesToBigInt (bs @ [b]) = bytesToBigInt bs * 256 + uint b"
  by (simp add: bytesToBigInt_def)

lemma bytesToBigInt_beBytes: "bytesToBigInt (beBytes v n) = v mod 256 ^ n"
proof (induction n arbitrary: v)
  case (Suc n)
  have "v mod (256 * 256 ^ n) = 256 * (v div 256 mod 256 ^ n) + v mod 256"
    by (rule zmod_zmult2_eq) simp
  then show ?case using Suc by (simp add: bytesToBigInt_snoc uint_word_of_int ac_simps)
qed (simp add: bytesToBigInt_def)

lemma beBytes_inj:
  assumes "beBytes v n = beBytes w n" "0 \<le> v" "v < 256 ^ n" "0 \<le> w" "w < 256 ^ n"
  shows "v = w"
  using assms by (metis bytesToBigInt_beBytes mod_pos_pos_trivial)


section \<open>The withdrawal context\<close>

definition context_in_range :: "WithdrawContext \<Rightarrow> bool" where
  "context_in_range c \<longleftrightarrow> 0 \<le> cx_withdrawn c \<and> cx_withdrawn c < 2 ^ 128 \<and> 0 \<le> cx_fee c \<and> cx_fee c < 2 ^ 128
     \<and> cx_scope c < 2 ^ 64"

text \<open>
  The context of a withdrawal fixes its terms. Two withdrawals with non-negative 128-bit
  amounts whose context preimages are the same bytes have the same recipient, amount, fee,
  relayer and scope, so whoever relays a proof can change none of them without finding a
  collision of the hash over different bytes.
\<close>

lemma withdraw_context_binds_terms:
  assumes "address_xdr_delimited L" "context_in_range a" "context_in_range b"
    and "context_preimage L a = Inr pre" "context_preimage L b = Inr pre"
  shows "a = b"
proof -
  from assms(4) obtain x y where a: "address_xdr L (JStr (cx_recipient a)) = Inr x" "address_xdr L (JStr (cx_relayer a)) = Inr y"
      "pre = x @ beBytes (cx_withdrawn a) 16 @ beBytes (cx_fee a) 16 @ y @ beBytes (int (cx_scope a)) 8"
    by (auto simp: context_preimage_def res_bind_eq_Inr)
  from assms(5) obtain u v where b: "address_xdr L (JStr (cx_recipient b)) = Inr u" "address_xdr L (JStr (cx_relayer b)) = Inr v"
      "pre = u @ beBytes (cx_withdrawn b) 16 @ beBytes (cx_fee b) 16 @ v @ beBytes (int (cx_scope b)) 8"
    by (auto simp: context_preimage_def res_bind_eq_Inr)
  from address_cancel [OF assms(1) a(1) b(1) trans [OF a(3) [symmetric] b(3)]]
  have rcpt: "cx_recipient a = cx_recipient b"
    and rest: "beBytes (cx_withdrawn a) 16 @ beBytes (cx_fee a) 16 @ y @ beBytes (int (cx_scope a)) 8 =
      beBytes (cx_withdrawn b) 16 @ beBytes (cx_fee b) 16 @ v @ beBytes (int (cx_scope b)) 8"
    by simp_all
  then have amounts: "beBytes (cx_withdrawn a) 16 = beBytes (cx_withdrawn b) 16" "beBytes (cx_fee a) 16 = beBytes (cx_fee b) 16"
    and tail: "y @ beBytes (int (cx_scope a)) 8 = v @ beBytes (int (cx_scope b)) 8"
    by simp_all
  from address_cancel [OF assms(1) a(2) b(2) tail]
  have "cx_relayer a = cx_relayer b" "beBytes (int (cx_scope a)) 8 = beBytes (int (cx_scope b)) 8" by simp_all
  moreover have "cx_withdrawn a = cx_withdrawn b" "cx_fee a = cx_fee b" "int (cx_scope a) = int (cx_scope b)"
    using assms(2,3) beBytes_inj [OF amounts(1)] beBytes_inj [OF amounts(2)] beBytes_inj [OF calculation(2)]
    by (simp_all add: context_in_range_def)
  ultimately show ?thesis using rcpt by simp
qed

definition example_context :: WithdrawContext where
  "example_context = \<lparr>cx_recipient = ''GRCPT'', cx_withdrawn = 1000, cx_fee = 10, cx_relayer = ''GREL'', cx_scope = 7\<rparr>"

lemma withdraw_context_binds_terms_witness:
  "example_context = \<lparr>cx_recipient = ''GRCPT'', cx_withdrawn = 1000, cx_fee = 10, cx_relayer = ''GREL'', cx_scope = 7\<rparr>
   \<and> (\<exists>pre. context_preimage example_lib example_context = Inr pre)"
proof
  have range: "context_in_range example_context" by (simp add: context_in_range_def example_context_def)
  have "\<exists>pre. context_preimage example_lib example_context = Inr pre"
    by (simp add: context_preimage_def example_lib_def example_context_def)
  then obtain pre where pre: "context_preimage example_lib example_context = Inr pre" by blast
  then have pre': "context_preimage example_lib
      \<lparr>cx_recipient = ''GRCPT'', cx_withdrawn = 1000, cx_fee = 10, cx_relayer = ''GREL'', cx_scope = 7\<rparr> = Inr pre"
    by (simp add: example_context_def)
  show "\<exists>pre. context_preimage example_lib example_context = Inr pre" by (rule exI) (rule pre)
  show "example_context = \<lparr>cx_recipient = ''GRCPT'', cx_withdrawn = 1000, cx_fee = 10, cx_relayer = ''GREL'', cx_scope = 7\<rparr>"
    by (rule withdraw_context_binds_terms [OF example_lib_delimited range _ pre pre'])
      (simp add: context_in_range_def)
qed


section \<open>Accepted association paths\<close>

text \<open>The position a list of directions leads to.\<close>

fun from_bits :: "bool list \<Rightarrow> nat" where
  "from_bits [] = 0"
| "from_bits (b # bs) = of_bool b + 2 * from_bits bs"

lemma path_bits_from_bits: "path_bits (length bs) (from_bits bs) = map of_bool bs"
  by (induction bs) (auto simp: mod_Suc)

lemma from_bits_bound: "from_bits bs < 2 ^ length bs"
  by (induction bs) auto

lemma replay_path_fold:
  "replay_path poseidon c path = Inr d \<Longrightarrow>
   \<exists>vs. map js_BigInt_str (map fst path) = map Inr vs \<and> d = fold_path poseidon c (zip vs (map of_bool (map snd path)))"
proof (induction path arbitrary: c)
  case (Cons p path)
  obtain e right where [simp]: "p = (e, right)" by force
  from Cons.prems obtain s where s: "js_BigInt_str e = Inr s"
      "replay_path poseidon (if right then poseidon [s, c] else poseidon [c, s]) path = Inr d"
    by (auto simp: res_bind_eq_Inr hashFields_def cong: if_cong)
  from Cons.IH [OF s(2)] obtain vs where vs: "map js_BigInt_str (map fst path) = map Inr vs"
      "d = fold_path poseidon (if right then poseidon [s, c] else poseidon [c, s]) (zip vs (map of_bool (map snd path)))"
    by blast
  then show ?case using s(1) by (intro exI [of _ "s # vs"]) (simp del: map_map)
qed simp


definition example_tree :: MerkleTree where
  "example_tree = \<lparr>mt_poseidon = sum_list, mt_depth = 1, mt_leaves = [5, 7], mt_zero = zero_table sum_list 1\<rparr>"

definition example_inclusion :: AspInclusionProof where
  "example_inclusion = \<lparr>ai_root = dec_of_int 12, ai_label = dec_of_int 7, ai_index = 1, ai_depositIndex = None,
     ai_levels = 1, ai_pathElements = [dec_of_int 5], ai_pathIndices = [1]\<rparr>"


text \<open>
  The replay compares with the root the proof itself names: a path for another root and another
  label than the requested ones is returned.
\<close>

lemma fetch_ignores_requested_root:
  "fetchAspInclusion sum_list (\<lambda>_ _. Inr (200, example_inclusion))
     \<lparr>fo_baseUrl = ''https://asp'', fo_poolId = ''pool'', fo_root = toHex32 99, fo_label = ''1'', fo_timeoutMs = None\<rparr>
   = Inr example_inclusion"
proof -
  have "ROOT_RE (toHex32 99)"
    using is_hex32_toHex32 [of 99] by (auto simp: ROOT_RE_def is_hex32_def list_all_iff)
  moreover have "LABEL_RE ''1''" by (simp add: LABEL_RE_def is_digit_def)
  moreover have "assertAspInclusionMatchesRoot sum_list example_inclusion = Inr ()"
    by (simp add: assertAspInclusionMatchesRoot_def example_inclusion_def hashFields_def)
  ultimately show ?thesis by (simp add: fetchAspInclusion_def getJson_def)
qed


section \<open>The relation of the withdrawal circuit\<close>

text \<open>
  The constraints of \<open>circuits/v3/privacy_pool_withdraw.circom\<close> over integers: equality of integers
  gives equality in the field. The signals are read from the input object as snarkjs reads them.
\<close>

record CircuitSignals =
  c_withdrawnValue :: int
  c_stateRoot :: int
  c_aspRoot :: int
  c_nullifierHash :: int
  c_newCommitment :: int
  c_context :: int
  c_value :: int
  c_label :: int
  c_nullifier :: int
  c_secret :: int
  c_newNullifier :: int
  c_newSecret :: int
  c_stateSiblings :: "int list"
  c_stateIndex :: "int list"
  c_aspSiblings :: "int list"
  c_aspIndex :: "int list"

definition reads_signal :: "jv \<Rightarrow> string \<Rightarrow> int \<Rightarrow> bool" where
  "reads_signal inp k v \<longleftrightarrow> js_BigInt (jv_get inp k) = Inr v"

definition reads_signals :: "jv \<Rightarrow> string \<Rightarrow> int list \<Rightarrow> bool" where
  "reads_signals inp k vs \<longleftrightarrow> (case jv_get inp k of JArr xs \<Rightarrow> map js_BigInt xs = map Inr vs | _ \<Rightarrow> False)"

definition reads_input :: "jv \<Rightarrow> CircuitSignals \<Rightarrow> bool" where
  "reads_input inp s \<longleftrightarrow>
     reads_signal inp ''withdrawnValue'' (c_withdrawnValue s) \<and> reads_signal inp ''stateRoot'' (c_stateRoot s)
   \<and> reads_signal inp ''aspRoot'' (c_aspRoot s) \<and> reads_signal inp ''nullifierHash'' (c_nullifierHash s)
   \<and> reads_signal inp ''newCommitment'' (c_newCommitment s) \<and> reads_signal inp ''context'' (c_context s)
   \<and> reads_signal inp ''value'' (c_value s) \<and> reads_signal inp ''label'' (c_label s)
   \<and> reads_signal inp ''nullifier'' (c_nullifier s) \<and> reads_signal inp ''secret'' (c_secret s)
   \<and> reads_signal inp ''newNullifier'' (c_newNullifier s) \<and> reads_signal inp ''newSecret'' (c_newSecret s)
   \<and> reads_signals inp ''stateSiblings'' (c_stateSiblings s) \<and> reads_signals inp ''stateIndex'' (c_stateIndex s)
   \<and> reads_signals inp ''aspSiblings'' (c_aspSiblings s) \<and> reads_signals inp ''aspIndex'' (c_aspIndex s)"

definition merkle_inclusion :: "poseidon \<Rightarrow> nat \<Rightarrow> int \<Rightarrow> int list \<Rightarrow> int list \<Rightarrow> int \<Rightarrow> bool" where
  "merkle_inclusion poseidon levels leaf siblings indices r \<longleftrightarrow>
     length siblings = levels \<and> length indices = levels \<and> (\<forall>d \<in> set indices. d * (1 - d) = 0)
   \<and> fold_path poseidon leaf (zip siblings (map nat indices)) = r"

definition withdraw_constraints :: "poseidon \<Rightarrow> CircuitSignals \<Rightarrow> bool" where
  "withdraw_constraints poseidon s \<longleftrightarrow>
     merkle_inclusion poseidon 20 (poseidon [c_value s, c_label s, poseidon [c_nullifier s, c_secret s]])
       (c_stateSiblings s) (c_stateIndex s) (c_stateRoot s)
   \<and> merkle_inclusion poseidon 20 (c_label s) (c_aspSiblings s) (c_aspIndex s) (c_aspRoot s)
   \<and> poseidon [c_nullifier s] = c_nullifierHash s
   \<and> 0 \<le> c_value s \<and> c_value s < 2 ^ 64 \<and> 0 \<le> c_withdrawnValue s \<and> c_withdrawnValue s < 2 ^ 64
   \<and> c_withdrawnValue s \<le> c_value s
   \<and> poseidon [c_value s - c_withdrawnValue s, c_label s, poseidon [c_newNullifier s, c_newSecret s]] = c_newCommitment s"

lemma map_nat_int_bits [simp]: "map nat (map int (path_bits n i)) = path_bits n i"
  by (simp add: comp_def)

lemma path_bits_binary: "d \<in> set (map int (path_bits n i)) \<Longrightarrow> d * (1 - d) = 0"
  by (induction n arbitrary: i) auto

lemma merkle_inclusion_full_path:
  assumes "i < length leaves" "length leaves \<le> 2 ^ levels"
  shows "merkle_inclusion poseidon levels (leaves ! i) (map fst (full_path poseidon leaves 0 i levels))
    (map int (path_bits levels i)) (reference_root poseidon levels leaves)"
  using fold_full_path [of poseidon leaves 0 i levels] assms path_bits_binary
  by (simp add: merkle_inclusion_def leaf_at_def reference_root_full_node comp_def)

lemma index_of_Some: "index_of x xs = Some i \<Longrightarrow> i < length xs \<and> xs ! i = x"
  by (induction xs arbitrary: i) (auto split: if_splits)

lemma dec_of_nat_int: "dec_of_nat n = dec_of_int (int n)"
  by (simp add: dec_of_int_def)

lemma asp_from_indices_inclusion:
  assumes "asp_from_indices poseidon scope leafIndex depositIndices = Inr (r, siblings, indices)"
    and "length depositIndices \<le> 2 ^ 20"
  shows "\<exists>ss ds. map js_BigInt_str siblings = map Inr ss \<and> map js_BigInt_str indices = map Inr ds
    \<and> merkle_inclusion poseidon 20 (poseidon [int scope, int leafIndex]) ss ds r"
proof -
  let ?leaves = "map (\<lambda>i. hashFields poseidon [int scope, int i]) depositIndices"
  from assms(1) obtain j where j: "index_of leafIndex depositIndices = Some j"
      "r = reference_root poseidon 20 ?leaves"
      "siblings = map dec_of_int (map fst (full_path poseidon ?leaves 0 j 20))"
      "indices = map dec_of_nat (path_bits 20 j)"
    by (auto simp: asp_from_indices_def Let_def pt_proof_full_path POOL_TREE_DEPTH_def split: option.splits)
  have "merkle_inclusion poseidon 20 (?leaves ! j) (map fst (full_path poseidon ?leaves 0 j 20))
      (map int (path_bits 20 j)) (reference_root poseidon 20 ?leaves)"
    using index_of_Some [OF j(1)] assms(2) by (intro merkle_inclusion_full_path) simp_all
  moreover have "?leaves ! j = poseidon [int scope, int leafIndex]"
    using index_of_Some [OF j(1)] by (simp add: hashFields_def)
  ultimately show ?thesis
    using j(2) unfolding j(3,4)
    by (intro exI [of _ "map fst (full_path poseidon ?leaves 0 j 20)"] exI [of _ "map int (path_bits 20 j)"])
      (simp add: comp_def dec_of_nat_int)
qed

lemma direction_strings:
  "js_Number_str ''1'' = Some 1" "js_Number_str ''0'' = Some 0"
  "js_BigInt_str ''1'' = Inr 1" "js_BigInt_str ''0'' = Inr 0"
  by code_simp+

definition binary_path :: "AspWitnessInclusion \<Rightarrow> bool" where
  "binary_path inclusion \<longleftrightarrow> length (aw_pathElements inclusion) = 20 \<and> set (aw_pathIndices inclusion) \<subseteq> {''0'', ''1''}"

lemma binary_directions:
  "set ds \<subseteq> {''0'', ''1''} \<Longrightarrow> map js_BigInt_str ds = map Inr (map (\<lambda>d. of_bool (js_Number_str d = Some 1)) ds)"
  by (induction ds) (auto simp: direction_strings)

lemma asp_from_inclusion_inclusion:
  assumes "asp_from_inclusion poseidon label inclusion = Inr (r, siblings, indices)" "binary_path inclusion"
  shows "\<exists>ss ds. map js_BigInt_str siblings = map Inr ss \<and> map js_BigInt_str indices = map Inr ds
    \<and> merkle_inclusion poseidon 20 label ss ds r"
proof -
  let ?bits = "map (\<lambda>d. js_Number_str d = Some 1) indices"
  from assms obtain run: "replay_path poseidon label (zip siblings ?bits) = Inr r"
    and lens: "length siblings = 20" "length indices = 20" and bin: "set indices \<subseteq> {''0'', ''1''}"
    by (auto simp: asp_from_inclusion_def binary_path_def res_bind_eq_Inr split: if_splits)
  from replay_path_fold [OF run] lens obtain vs where vs: "map js_BigInt_str siblings = map Inr vs"
      "r = fold_path poseidon label (zip vs (map of_bool ?bits))"
    by (auto simp del: map_map)
  have "length vs = 20" using arg_cong [OF vs(1), of length] lens by simp
  with vs lens binary_directions [OF bin] show ?thesis
    by (intro exI [of _ vs] exI [of _ "map (\<lambda>d. of_bool (js_Number_str d = Some 1)) indices"])
      (simp add: merkle_inclusion_def comp_def)
qed

text \<open>What a successful build consists of.\<close>

lemma build_parts:
  assumes "buildPoolWithdrawWitness poseidon L r1 r2 opts = Inr w"
  obtains val withdrawn asp aspSiblings aspIndex n1 n2 nullifier ctx where
    "js_BigInt_str (note_value (wo_note opts)) = Inr val"
    "0 < withdrawn" "withdrawn \<le> val" "withdrawn = (case wo_withdrawnValue opts of Some v \<Rightarrow> v | None \<Rightarrow> val)"
    "note_leafIndex (wo_note opts) < length (wo_stateLeaves opts) \<Longrightarrow>
      to_lower (toHex32 (wo_stateLeaves opts ! note_leafIndex (wo_note opts))) = to_lower (note_commitment (wo_note opts))"
    "(case wo_aspInclusion opts of
        Some inclusion \<Rightarrow> asp_from_inclusion poseidon (poseidon [int (wo_scope opts), int (note_leafIndex (wo_note opts))]) inclusion
      | None \<Rightarrow> asp_from_indices poseidon (wo_scope opts) (note_leafIndex (wo_note opts)) (wo_depositIndices opts))
      = Inr (asp, aspSiblings, aspIndex)"
    "js_BigInt_str (randomFieldElement r1) = Inr n1" "js_BigInt_str (randomFieldElement r2) = Inr n2"
    "js_BigInt_str (note_nullifier (wo_note opts)) = Inr nullifier"
    "computeWithdrawContext L \<lparr>cx_recipient = wo_recipient opts, cx_withdrawn = withdrawn, cx_fee = wo_fee opts,
           cx_relayer = wo_relayer opts, cx_scope = wo_scope opts\<rparr> = Inr ctx"
    "w = \<lparr>ww_input = circuit_input withdrawn (reference_root poseidon 20 (wo_stateLeaves opts)) asp (poseidon [nullifier])
             (poseidon [val - withdrawn, poseidon [int (wo_scope opts), int (note_leafIndex (wo_note opts))], poseidon [n1, n2]])
             ctx val (poseidon [int (wo_scope opts), int (note_leafIndex (wo_note opts))]) (wo_note opts)
             (randomFieldElement r1, randomFieldElement r2)
             (map fst (full_path poseidon (wo_stateLeaves opts) 0 (note_leafIndex (wo_note opts)) 20))
             (path_bits 20 (note_leafIndex (wo_note opts))) aspSiblings aspIndex,
           ww_withdrawnValue = withdrawn, ww_stateRoot = reference_root poseidon 20 (wo_stateLeaves opts), ww_aspRoot = asp,
           ww_nullifierHash = poseidon [nullifier],
           ww_newCommitment = poseidon [val - withdrawn, poseidon [int (wo_scope opts), int (note_leafIndex (wo_note opts))], poseidon [n1, n2]],
           ww_change = ((randomFieldElement r1, randomFieldElement r2), val - withdrawn)\<rparr>"
  using assms
  unfolding buildPoolWithdrawWitness_def Let_def hashFields_def pt_proof_full_path pt_root_reference
    POOL_TREE_DEPTH_def newNoteSecrets_def prod.case
  by (auto simp: res_bind_eq_Inr split: if_splits)

text \<open>The note and the leaves a caller hands in: the note opens the leaf it points to.\<close>

definition note_opens :: "poseidon \<Rightarrow> WithdrawOpts \<Rightarrow> int \<Rightarrow> int \<Rightarrow> int \<Rightarrow> bool" where
  "note_opens poseidon opts val nullifier secret \<longleftrightarrow>
     (let note = wo_note opts in
      js_BigInt_str (note_value note) = Inr val \<and> js_BigInt_str (note_nullifier note) = Inr nullifier
    \<and> js_BigInt_str (note_secret note) = Inr secret
    \<and> note_commitment note = toHex32 (dd_commitment (deriveDeposit poseidon val (wo_scope opts) (note_leafIndex note) nullifier secret))
    \<and> note_leafIndex note < length (wo_stateLeaves opts))"

lemma commitment_is_leaf:
  assumes "note_opens poseidon opts val nullifier secret" "field_valued poseidon" "\<forall>l \<in> set (wo_stateLeaves opts). 0 \<le> l"
    and "to_lower (toHex32 (wo_stateLeaves opts ! note_leafIndex (wo_note opts))) = to_lower (note_commitment (wo_note opts))"
  shows "wo_stateLeaves opts ! note_leafIndex (wo_note opts) =
    poseidon [val, poseidon [int (wo_scope opts), int (note_leafIndex (wo_note opts))], poseidon [nullifier, secret]]"
  using assms by (simp add: note_opens_def Let_def deriveDeposit_def hashFields_def field_valued_def toHex32_inj)

lemma reads_circuit_input:
  assumes "js_BigInt_str (note_nullifier note) = Inr nullifier" "js_BigInt_str (note_secret note) = Inr secret"
    and "js_BigInt_str (fst change) = Inr nn" "js_BigInt_str (snd change) = Inr ns"
    and "map js_BigInt_str aspSiblings = map Inr ss" "map js_BigInt_str aspIndex = map Inr ds"
  shows "reads_input (circuit_input withdrawn state asp nh nc ctx val label note change siblings indices aspSiblings aspIndex)
    \<lparr>c_withdrawnValue = withdrawn, c_stateRoot = state, c_aspRoot = asp, c_nullifierHash = nh, c_newCommitment = nc,
     c_context = ctx, c_value = val, c_label = label, c_nullifier = nullifier, c_secret = secret, c_newNullifier = nn,
     c_newSecret = ns, c_stateSiblings = siblings, c_stateIndex = map int indices, c_aspSiblings = ss, c_aspIndex = ds\<rparr>"
proof -
  have "map js_BigInt (map JStr xs) = map js_BigInt_str xs" for xs by simp
  with assms show ?thesis
    by (simp add: reads_input_def reads_signal_def reads_signals_def circuit_input_def jv_get_def comp_def dec_of_nat_int)
qed

text \<open>
  C3: a witness the prover builds satisfies the withdrawal circuit. If the note opens the leaf
  it points to, the values fit the circuit's 64 bits and a path fetched from the ASP has one binary
  direction per level, then the input read as signals meets every constraint: the commitment is in
  the state tree, the label is in the association tree, the nullifier hash and the change
  commitment are those of the secrets, and the amount is positive and at most the note's value. The
  values reported next to the input are the public signals.
\<close>

theorem withdraw_witness_satisfies_circuit:
  assumes "buildPoolWithdrawWitness poseidon L r1 r2 opts = Inr w"
    and "note_opens poseidon opts val nullifier secret" "val < 2 ^ 64"
    and "field_valued poseidon" "\<forall>l \<in> set (wo_stateLeaves opts). 0 \<le> l"
    and "length (wo_stateLeaves opts) \<le> 2 ^ 20" "length (wo_depositIndices opts) \<le> 2 ^ 20"
    and "\<forall>inclusion. wo_aspInclusion opts = Some inclusion \<longrightarrow> binary_path inclusion"
  shows "\<exists>s. reads_input (ww_input w) s \<and> withdraw_constraints poseidon s
    \<and> c_withdrawnValue s = ww_withdrawnValue w \<and> c_stateRoot s = ww_stateRoot w \<and> c_aspRoot s = ww_aspRoot w
    \<and> c_nullifierHash s = ww_nullifierHash w \<and> c_newCommitment s = ww_newCommitment w
    \<and> 0 < ww_withdrawnValue w \<and> snd (ww_change w) = val - ww_withdrawnValue w"
  using assms(1)
proof (rule build_parts)
  let ?i = "note_leafIndex (wo_note opts)"
  let ?label = "poseidon [int (wo_scope opts), int ?i]" and ?leaves = "wo_stateLeaves opts"
  fix val' withdrawn asp aspSiblings aspIndex n1 n2 nullifier' ctx
  assume val': "js_BigInt_str (note_value (wo_note opts)) = Inr val'"
    and amount: "0 < withdrawn" "withdrawn \<le> val'"
    and leaf: "?i < length ?leaves \<Longrightarrow> to_lower (toHex32 (?leaves ! ?i)) = to_lower (note_commitment (wo_note opts))"
    and asp: "(case wo_aspInclusion opts of Some inclusion \<Rightarrow> asp_from_inclusion poseidon ?label inclusion
      | None \<Rightarrow> asp_from_indices poseidon (wo_scope opts) ?i (wo_depositIndices opts)) = Inr (asp, aspSiblings, aspIndex)"
    and secrets: "js_BigInt_str (randomFieldElement r1) = Inr n1" "js_BigInt_str (randomFieldElement r2) = Inr n2"
    and nullifier': "js_BigInt_str (note_nullifier (wo_note opts)) = Inr nullifier'"
    and w: "w = \<lparr>ww_input = circuit_input withdrawn (reference_root poseidon 20 ?leaves) asp (poseidon [nullifier'])
             (poseidon [val' - withdrawn, ?label, poseidon [n1, n2]]) ctx val' ?label (wo_note opts)
             (randomFieldElement r1, randomFieldElement r2) (map fst (full_path poseidon ?leaves 0 ?i 20))
             (path_bits 20 ?i) aspSiblings aspIndex,
           ww_withdrawnValue = withdrawn, ww_stateRoot = reference_root poseidon 20 ?leaves, ww_aspRoot = asp,
           ww_nullifierHash = poseidon [nullifier'], ww_newCommitment = poseidon [val' - withdrawn, ?label, poseidon [n1, n2]],
           ww_change = ((randomFieldElement r1, randomFieldElement r2), val' - withdrawn)\<rparr>"
  have opened: "val' = val" "nullifier' = nullifier" "js_BigInt_str (note_secret (wo_note opts)) = Inr secret" "?i < length ?leaves"
    using assms(2) val' nullifier' by (simp_all add: note_opens_def Let_def)
  obtain ss ds where path: "map js_BigInt_str aspSiblings = map Inr ss" "map js_BigInt_str aspIndex = map Inr ds"
      "merkle_inclusion poseidon 20 ?label ss ds asp"
    using asp assms(7,8) asp_from_indices_inclusion asp_from_inclusion_inclusion
    by (cases "wo_aspInclusion opts") (simp_all, blast+)
  have "merkle_inclusion poseidon 20 (?leaves ! ?i) (map fst (full_path poseidon ?leaves 0 ?i 20))
      (map int (path_bits 20 ?i)) (reference_root poseidon 20 ?leaves)"
    using opened(4) assms(6) by (rule merkle_inclusion_full_path)
  then have state: "merkle_inclusion poseidon 20 (poseidon [val, ?label, poseidon [nullifier, secret]])
      (map fst (full_path poseidon ?leaves 0 ?i 20)) (map int (path_bits 20 ?i)) (reference_root poseidon 20 ?leaves)"
    using commitment_is_leaf [OF assms(2,4,5) leaf [OF opened(4)]] by simp
  show ?thesis
    unfolding w
    by (rule exI, rule conjI, simp only: PoolWithdrawWitness.simps,
        rule reads_circuit_input [OF nullifier' opened(3) _ _ path(1,2), where nn = n1 and ns = n2])
      (use secrets path(3) state amount assms(3) in \<open>simp_all add: withdraw_constraints_def opened(1,2)\<close>)
qed

definition example_poseidon :: poseidon where
  "example_poseidon xs = sum_list xs mod 97"

lemma example_poseidon_field: "field_valued example_poseidon"
proof -
  have "(x :: int) mod 97 < m" if "97 \<le> m" for x m using that pos_mod_bound [of 97 x] by linarith
  then show ?thesis by (simp add: field_valued_def example_poseidon_def)
qed

definition example_withdraw :: WithdrawOpts where
  "example_withdraw =
     \<lparr>wo_note = \<lparr>note_cluster = ''testnet'', note_poolId = None, note_value = dec_of_int 100, note_scope = 7, note_leafIndex = 1,
         note_nullifier = dec_of_int 3, note_secret = dec_of_int 4,
         note_commitment = toHex32 (example_poseidon [100, example_poseidon [7, 1], example_poseidon [3, 4]]),
         note_spent = False, note_createdAt = 0\<rparr>,
      wo_recipient = ''GRCPT'', wo_relayer = ''GREL'', wo_fee = 1, wo_scope = 7,
      wo_stateLeaves = [11, example_poseidon [100, example_poseidon [7, 1], example_poseidon [3, 4]]],
      wo_depositIndices = [0, 1], wo_withdrawnValue = Some 60, wo_aspInclusion = None\<rparr>"

lemma example_withdraw_builds: "\<exists>w. buildPoolWithdrawWitness example_poseidon example_lib [] [] example_withdraw = Inr w"
proof -
  have "\<exists>ctx. computeWithdrawContext example_lib \<lparr>cx_recipient = ''GRCPT'', cx_withdrawn = 60, cx_fee = 1,
      cx_relayer = ''GREL'', cx_scope = 7\<rparr> = Inr ctx"
    by (simp add: computeWithdrawContext_def context_preimage_def example_lib_def)
  then show ?thesis
    by (auto simp: buildPoolWithdrawWitness_def example_withdraw_def Let_def newNoteSecrets_def randomFieldElement_def
        asp_from_indices_def split: prod.split)
qed

theorem withdraw_witness_satisfies_circuit_witness:
  "\<exists>w s. buildPoolWithdrawWitness example_poseidon example_lib [] [] example_withdraw = Inr w
    \<and> reads_input (ww_input w) s \<and> withdraw_constraints example_poseidon s \<and> snd (ww_change w) = 100 - ww_withdrawnValue w"
proof -
  obtain w where w: "buildPoolWithdrawWitness example_poseidon example_lib [] [] example_withdraw = Inr w"
    using example_withdraw_builds by blast
  have "note_opens example_poseidon example_withdraw 100 3 4"
    by (simp add: note_opens_def example_withdraw_def deriveDeposit_def hashFields_def Let_def)
  moreover have "\<forall>l \<in> set (wo_stateLeaves example_withdraw). 0 \<le> l"
    by (simp add: example_withdraw_def example_poseidon_def)
  ultimately show ?thesis
    using withdraw_witness_satisfies_circuit [OF w _ _ example_poseidon_field] w
    by (force simp: example_withdraw_def)
qed


section \<open>The layout of a finished proof\<close>

definition words32 :: "byte list \<Rightarrow> int list" where
  "words32 bs = map (\<lambda>i. bytesToBigInt (take 32 (drop (32 * i) bs))) [0..<length bs div 32]"

lemma bytes32 [simp]: "length (bigIntToBytes32 v) = 32" "bytesToBigInt (bigIntToBytes32 v) = v mod 2 ^ 256"
  by (simp_all add: bigIntToBytes32_def bytesToBigInt_beBytes)

lemma words32_concat: "words32 (concat (map bigIntToBytes32 vs)) = map (\<lambda>v. v mod 2 ^ 256) vs"
proof -
  have len: "length (concat (map bigIntToBytes32 vs)) = 32 * length vs" by (induction vs) simp_all
  have "take 32 (drop (32 * i) (concat (map bigIntToBytes32 vs))) = bigIntToBytes32 (vs ! i)" if "i < length vs" for i
    using that by (induction vs arbitrary: i) (auto simp: nth_Cons split: nat.split)
  then show ?thesis by (intro nth_equalityI) (simp_all add: words32_def len)
qed

lemma length_concat_bytes32: "length (concat (map bigIntToBytes32 vs)) = 32 * length vs"
  by (induction vs) simp_all

lemma serialize_g1_Inr:
  assumes "serialize_g1 p = Inr bs"
  obtains x y where "bigint_at p 0 = Inr x" "bigint_at p 1 = Inr y" "bs = concat (map bigIntToBytes32 [x, y])"
  using assms by (auto simp: serialize_g1_def res_bind_eq_Inr)

lemma serialize_g2_Inr:
  assumes "serialize_g2 p = Inr bs"
  obtains x1 x0 y1 y0 where "2 \<le> length p" "bigint_at (p ! 0) 1 = Inr x1" "bigint_at (p ! 0) 0 = Inr x0"
    "bigint_at (p ! 1) 1 = Inr y1" "bigint_at (p ! 1) 0 = Inr y0" "bs = concat (map bigIntToBytes32 [x1, x0, y1, y0])"
proof -
  from assms obtain pairs where pairs: "res_map g2_pair (take 2 p) = Inr pairs" "4 \<le> length (concat pairs)"
      "bs = concat (map (\<lambda>i. bigIntToBytes32 (concat pairs ! i)) [0..<4])"
    by (auto simp: serialize_g2_def res_bind_eq_Inr Let_def not_less split: if_splits)
  have each: "length (concat ps) = 2 * length ps" if "res_map g2_pair q = Inr ps" for q ps
    using that by (induction q arbitrary: ps) (auto simp: res_bind_eq_Inr g2_pair_def)
  obtain u v r where p: "p = u # v # r"
    using each [OF pairs(1)] pairs(2) res_map_length [OF pairs(1)] by (cases p; cases "tl p") auto
  have up: "[0..<4] = [0, 1, 2, 3::nat]" by code_simp
  show ?thesis
    using that pairs by (auto simp: p up g2_pair_def res_bind_eq_Inr)
qed

text \<open>
  A finished proof has the layout the relayer and the verifier demand. Whenever the
  serialisation succeeds, the payload made of its parts has the lengths the relayer checks, and
  reading the bytes back in 32-byte words gives the coordinates of the proof points in the order
  x, y for the two points of the first group and with each pair swapped for the second group, the
  roots, the nullifier hash and the new commitment (each modulo \<open>2 ^ 256\<close>).
\<close>

lemma finished_proof_has_relayer_layout:
  assumes "finishPoolWithdrawProof w p = Inr f"
  shows "payload_wf \<lparr>poolId = pool, proofA = wp_proofA f, proofB = wp_proofB f, proofC = wp_proofC f,
      withdrawnValue = wp_withdrawnValue f, stateRoot = wp_stateRoot f, aspRoot = wp_aspRoot f,
      nullifierHash = wp_nullifierHash f, newCommitment = wp_newCommitment f, recipient = rcpt, poolFee = fee, poolRelayer = rel\<rparr>
    \<and> (\<exists>ax ay bx1 bx0 by1 by0 cx cy.
         bigint_at (g_pi_a p) 0 = Inr ax \<and> bigint_at (g_pi_a p) 1 = Inr ay
       \<and> bigint_at (g_pi_b p ! 0) 1 = Inr bx1 \<and> bigint_at (g_pi_b p ! 0) 0 = Inr bx0
       \<and> bigint_at (g_pi_b p ! 1) 1 = Inr by1 \<and> bigint_at (g_pi_b p ! 1) 0 = Inr by0
       \<and> bigint_at (g_pi_c p) 0 = Inr cx \<and> bigint_at (g_pi_c p) 1 = Inr cy
       \<and> words32 (wp_proofA f) = map (\<lambda>v. v mod 2 ^ 256) [ax, ay]
       \<and> words32 (wp_proofB f) = map (\<lambda>v. v mod 2 ^ 256) [bx1, bx0, by1, by0]
       \<and> words32 (wp_proofC f) = map (\<lambda>v. v mod 2 ^ 256) [cx, cy])
    \<and> bytesToBigInt (wp_stateRoot f) = ww_stateRoot w mod 2 ^ 256 \<and> bytesToBigInt (wp_aspRoot f) = ww_aspRoot w mod 2 ^ 256
    \<and> bytesToBigInt (wp_nullifierHash f) = ww_nullifierHash w mod 2 ^ 256
    \<and> bytesToBigInt (wp_newCommitment f) = ww_newCommitment w mod 2 ^ 256"
proof -
  from assms obtain a b c where abc: "serialize_g1 (g_pi_a p) = Inr a" "serialize_g2 (g_pi_b p) = Inr b"
      "serialize_g1 (g_pi_c p) = Inr c"
    and f: "wp_proofA f = a" "wp_proofB f = b" "wp_proofC f = c" "wp_stateRoot f = bigIntToBytes32 (ww_stateRoot w)"
      "wp_aspRoot f = bigIntToBytes32 (ww_aspRoot w)" "wp_nullifierHash f = bigIntToBytes32 (ww_nullifierHash w)"
      "wp_newCommitment f = bigIntToBytes32 (ww_newCommitment w)"
    by (auto simp: finishPoolWithdrawProof_def serializeGroth16Proof_def res_bind_eq_Inr)
  obtain ax ay where a: "bigint_at (g_pi_a p) 0 = Inr ax" "bigint_at (g_pi_a p) 1 = Inr ay" "a = concat (map bigIntToBytes32 [ax, ay])"
    using abc(1) by (rule serialize_g1_Inr)
  obtain cx cy where c: "bigint_at (g_pi_c p) 0 = Inr cx" "bigint_at (g_pi_c p) 1 = Inr cy" "c = concat (map bigIntToBytes32 [cx, cy])"
    using abc(3) by (rule serialize_g1_Inr)
  obtain bx1 bx0 by1 by0 where b: "bigint_at (g_pi_b p ! 0) 1 = Inr bx1" "bigint_at (g_pi_b p ! 0) 0 = Inr bx0"
      "bigint_at (g_pi_b p ! 1) 1 = Inr by1" "bigint_at (g_pi_b p ! 1) 0 = Inr by0"
      "b = concat (map bigIntToBytes32 [bx1, bx0, by1, by0])"
    using abc(2) by (rule serialize_g2_Inr)
  have "length a = 64" "length b = 128" "length c = 64" by (simp_all add: a(3) b(5) c(3))
  then have "payload_wf \<lparr>poolId = pool, proofA = a, proofB = b, proofC = c,
      withdrawnValue = wp_withdrawnValue f, stateRoot = wp_stateRoot f, aspRoot = wp_aspRoot f,
      nullifierHash = wp_nullifierHash f, newCommitment = wp_newCommitment f, recipient = rcpt, poolFee = fee, poolRelayer = rel\<rparr>"
    by (simp add: payload_wf_def f)
  moreover note words32_concat [of "[ax, ay]", folded a(3)] words32_concat [of "[bx1, bx0, by1, by0]", folded b(5)]
    words32_concat [of "[cx, cy]", folded c(3)]
  ultimately show ?thesis using a(1,2) b(1-4) c(1,2) by (simp add: f del: list.map)
qed

definition example_proof :: Groth16ProofLike where
  "example_proof = \<lparr>g_pi_a = [dec_of_int 1, dec_of_int 2], g_pi_b = [[dec_of_int 3, dec_of_int 4], [dec_of_int 5, dec_of_int 6]],
     g_pi_c = [dec_of_int 7, dec_of_int 8]\<rparr>"

definition example_built :: PoolWithdrawWitness where
  "example_built = \<lparr>ww_input = JNull, ww_withdrawnValue = 60, ww_stateRoot = 11, ww_aspRoot = 12, ww_nullifierHash = 13,
     ww_newCommitment = 14, ww_change = (([], []), 40)\<rparr>"

lemma finished_proof_has_relayer_layout_witness:
  "\<exists>f. finishPoolWithdrawProof example_built example_proof = Inr f \<and> words32 (wp_proofB f) = [4, 3, 6, 5]
    \<and> bytesToBigInt (wp_aspRoot f) = 12"
proof -
  have "\<exists>f. finishPoolWithdrawProof example_built example_proof = Inr f"
    by (simp add: finishPoolWithdrawProof_def serializeGroth16Proof_def serialize_g1_def serialize_g2_def g2_pair_def
        bigint_at_def example_proof_def)
  then obtain f where f: "finishPoolWithdrawProof example_built example_proof = Inr f" by blast
  from finished_proof_has_relayer_layout [OF f, of JNull JNull 0 JNull] f show ?thesis
    by (auto simp: example_proof_def example_built_def bigint_at_def)
qed

end
