(* ===== verification/Sdk_Stealth.thy ===== *)
theory Sdk_Stealth
  imports Sdk_Prove_Props
begin

text \<open>
  Stealth addresses of the SDK: the dual-key protocol (\<open>sdk/src/crypto/dksap.ts\<close>) and the
  announcement scanner (\<open>sdk/src/crypto/scan.ts\<close>).

  The curve is noble's secp256k1, the hashes are noble's Keccak-256, SHA-256 and HKDF, and the
  Stellar key pair is the Stellar SDK's: all are fields of the parameter \<open>curve_lib\<close>, over a
  type of points and a type of key pairs. Calls that may throw return results. The bytes of a fresh
  ephemeral key are an argument. The SDK's own \<open>bytesToHex\<close> has no prefix, and is
  \<open>hex_of_bytes\<close> here.
\<close>

record ('p, 'k) curve_lib =
  ec_n :: int
  ec_base :: 'p
  ec_fromHex :: "byte list \<Rightarrow> 'p res"
  ec_multiply :: "int \<Rightarrow> 'p \<Rightarrow> 'p res"
  ec_add :: "'p \<Rightarrow> 'p \<Rightarrow> 'p"
  ec_toRawBytes :: "bool \<Rightarrow> 'p \<Rightarrow> byte list res"
  ec_getPublicKey :: "byte list \<Rightarrow> bool \<Rightarrow> byte list res"
  ec_keccak :: "byte list \<Rightarrow> byte list"
  ec_sha256 :: "byte list \<Rightarrow> byte list"
  ec_hkdf :: "byte list \<Rightarrow> string \<Rightarrow> nat \<Rightarrow> byte list"
  kp_fromSeed :: "byte list \<Rightarrow> 'k"
  kp_address :: "'k \<Rightarrow> string"


section \<open>Hex\<close>

definition hex_of_bytes :: "byte list \<Rightarrow> string" where
  "hex_of_bytes b = concat (map hex2 b)"

definition bytes_of_hex :: "string \<Rightarrow> byte list res" where
  "bytes_of_hex hex =
     (let h = strip_0x hex
      in if length h mod 2 \<noteq> 0 then Inl (Error ''Invalid hex length'')
         else if \<not> list_all is_hex h then Inl (Error ''Invalid hex characters'')
         else Inr (hex_pairs h))"


section \<open>Key derivation\<close>

definition DOMAIN :: string where "DOMAIN = ''opaque-cash-v1''"

definition PROTOCOL_VERSION :: string where "PROTOCOL_VERSION = ''1''"

record DomainSeparationOpts =
  ds_origin :: string
  ds_networkPassphrase :: string
  ds_walletPublicKey :: string
  ds_purpose :: string

definition buildDomainSeparatedMessage :: "DomainSeparationOpts \<Rightarrow> string" where
  "buildDomainSeparatedMessage opts = join_with [CHR 0x0A]
     [''--- Opaque Protocol Key Derivation ---'',
      ''App: Opaque Stellar'',
      ''Origin: '' @ ds_origin opts,
      ''Network: '' @ ds_networkPassphrase opts,
      ''Wallet: '' @ ds_walletPublicKey opts,
      ''Version: '' @ PROTOCOL_VERSION,
      ''Purpose: '' @ ds_purpose opts,
      [],
      ''Warning: Signing this message authorizes key derivation for the Opaque protocol.'',
      ''This is not a transaction and does not move funds.'',
      ''Do not sign this message on untrusted sites or applications.'']"

definition deriveKeysFromSignature :: "('p, 'k) curve_lib \<Rightarrow> string \<Rightarrow> (byte list \<times> byte list) res" where
  "deriveKeysFromSignature L signatureHex =
     res_bind (bytes_of_hex (strip_0x signatureHex)) (\<lambda>sig.
     let okm = ec_hkdf L sig DOMAIN 64 in Inr (take 32 okm, take 32 (drop 32 okm)))"

definition keysToStealthMetaAddress ::
  "('p, 'k) curve_lib \<Rightarrow> byte list \<Rightarrow> byte list \<Rightarrow> (byte list \<times> byte list \<times> byte list) res" where
  "keysToStealthMetaAddress L viewingKey spendingKey =
     res_bind (ec_getPublicKey L viewingKey True) (\<lambda>V.
     res_bind (ec_getPublicKey L spendingKey True) (\<lambda>S.
     Inr (V, S, V @ S)))"

definition stealthMetaAddressToHex :: "byte list \<Rightarrow> string" where
  "stealthMetaAddressToHex metaAddress = ''0x'' @ hex_of_bytes metaAddress"

definition isValidCompressedSecp256k1PublicKey :: "('p, 'k) curve_lib \<Rightarrow> byte list \<Rightarrow> bool" where
  "isValidCompressedSecp256k1PublicKey L bytes =
     (if length bytes \<noteq> 33 \<or> (bytes ! 0 \<noteq> 2 \<and> bytes ! 0 \<noteq> 3) then False
      else (case ec_fromHex L bytes of Inr _ \<Rightarrow> True | Inl _ \<Rightarrow> False))"

definition assertValidStealthMetaAddress :: "('p, 'k) curve_lib \<Rightarrow> byte list \<Rightarrow> unit res" where
  "assertValidStealthMetaAddress L metaAddress =
     (if length metaAddress \<noteq> 66
      then Inl (Error (''Invalid stealth meta-address: expected 66 bytes, got '' @ dec_of_nat (length metaAddress)))
      else if \<not> isValidCompressedSecp256k1PublicKey L (take 33 metaAddress)
      then Inl (Error ''Invalid stealth meta-address: viewing key is not a valid secp256k1 point'')
      else if \<not> isValidCompressedSecp256k1PublicKey L (take 33 (drop 33 metaAddress))
      then Inl (Error ''Invalid stealth meta-address: spending key is not a valid secp256k1 point'')
      else Inr ())"

definition parseStealthMetaAddress :: "string \<Rightarrow> (byte list \<times> byte list) res" where
  "parseStealthMetaAddress metaHex =
     res_bind (bytes_of_hex (strip_0x metaHex)) (\<lambda>bytes.
     if length bytes < 66 then Inl (Error ''Invalid stealth meta-address: expected 66 bytes'')
     else Inr (take 33 bytes, take 33 (drop 33 bytes)))"


section \<open>Shared secret and stealth point\<close>

definition sharedSecretFromScalarAndPoint :: "('p, 'k) curve_lib \<Rightarrow> byte list \<Rightarrow> byte list \<Rightarrow> byte list res" where
  "sharedSecretFromScalarAndPoint L privScalar pointBytes =
     res_bind (ec_fromHex L pointBytes) (\<lambda>P.
     let scalar = bytesToBigInt privScalar mod ec_n L
     in if scalar = 0 then Inl (Error ''Invalid scalar'')
        else res_bind (ec_multiply L scalar P) (ec_toRawBytes L True))"

definition hashSharedSecret :: "('p, 'k) curve_lib \<Rightarrow> byte list \<Rightarrow> byte list \<times> nat" where
  "hashSharedSecret L sharedSecret = (let sH = ec_keccak L sharedSecret in (sH, unat (sH ! 0)))"

definition stealth_id :: "('p, 'k) curve_lib \<Rightarrow> byte list \<Rightarrow> string" where
  "stealth_id L uncompressed = ''0x'' @ hex_of_bytes (drop 12 (ec_keccak L (drop 1 uncompressed)))"

definition stealthPointAndAddress :: "('p, 'k) curve_lib \<Rightarrow> byte list \<Rightarrow> byte list \<Rightarrow> (string \<times> byte list) res" where
  "stealthPointAndAddress L spendPubKey sH =
     (let sHMod = bytesToBigInt sH mod ec_n L
      in if sHMod = 0 then Inl (Error ''Invalid scalar from hash'')
         else res_bind (ec_multiply L sHMod (ec_base L)) (\<lambda>S_h.
              res_bind (ec_fromHex L spendPubKey) (\<lambda>P_spend.
              res_bind (ec_toRawBytes L False (ec_add L P_spend S_h)) (\<lambda>uncompressed.
              Inr (stealth_id L uncompressed, uncompressed)))))"

definition deriveStealthStellarKeypair :: "('p, 'k) curve_lib \<Rightarrow> byte list \<Rightarrow> 'k" where
  "deriveStealthStellarKeypair L uncompressed =
     kp_fromSeed L (take 32 (ec_sha256 L (utf8 ''opaque-stellar-stealth-v1'' @ uncompressed)))"

definition deriveStealthStellarAddress :: "('p, 'k) curve_lib \<Rightarrow> byte list \<Rightarrow> string" where
  "deriveStealthStellarAddress L uncompressed = kp_address L (deriveStealthStellarKeypair L uncompressed)"

record StealthSend =
  ss_ephemeralPriv :: "byte list"
  ss_ephemeralPubKey :: "byte list"
  ss_stealthAddress :: string
  ss_stealthStellarAddress :: string
  ss_viewTag :: nat
  ss_metadata :: "byte list"

definition computeStealthAddressAndViewTag :: "('p, 'k) curve_lib \<Rightarrow> byte list \<Rightarrow> string \<Rightarrow> StealthSend res" where
  "computeStealthAddressAndViewTag L ephemeralPriv recipientMetaAddressHex =
     res_bind (parseStealthMetaAddress recipientMetaAddressHex) (\<lambda>(viewPubKey, spendPubKey).
     res_bind (ec_getPublicKey L ephemeralPriv True) (\<lambda>ephemeralPubKey.
     res_bind (sharedSecretFromScalarAndPoint L ephemeralPriv viewPubKey) (\<lambda>shared.
     let (sH, viewTag) = hashSharedSecret L shared in
     res_bind (stealthPointAndAddress L spendPubKey sH) (\<lambda>(stealthAddress, uncompressed).
     Inr \<lparr>ss_ephemeralPriv = ephemeralPriv, ss_ephemeralPubKey = ephemeralPubKey, ss_stealthAddress = stealthAddress,
          ss_stealthStellarAddress = deriveStealthStellarAddress L uncompressed, ss_viewTag = viewTag,
          ss_metadata = [of_nat viewTag]\<rparr>))))"

definition buildGhostAnnouncementPayload ::
  "('p, 'k) curve_lib \<Rightarrow> string \<Rightarrow> string \<Rightarrow> (string \<times> byte list \<times> byte list \<times> nat) res" where
  "buildGhostAnnouncementPayload L recipientMetaAddressHex ephemeralPrivKeyHex =
     res_bind (parseStealthMetaAddress recipientMetaAddressHex) (\<lambda>(viewPubKey, spendPubKey).
     res_bind (bytes_of_hex (strip_0x ephemeralPrivKeyHex)) (\<lambda>ephemeralPriv.
     if length ephemeralPriv \<noteq> 32 then Inl (Error ''Ephemeral private key must be 32 bytes.'')
     else
     res_bind (ec_getPublicKey L ephemeralPriv True) (\<lambda>ephemeralPubKey.
     res_bind (sharedSecretFromScalarAndPoint L ephemeralPriv viewPubKey) (\<lambda>shared.
     let (sH, viewTag) = hashSharedSecret L shared in
     res_bind (stealthPointAndAddress L spendPubKey sH) (\<lambda>(stealthAddress, _).
     Inr (stealthAddress, ephemeralPubKey, [of_nat viewTag], viewTag))))))"


section \<open>The recipient's side\<close>

definition recipientSharedSecretHash :: "('p, 'k) curve_lib \<Rightarrow> byte list \<Rightarrow> byte list \<Rightarrow> (byte list \<times> nat) res" where
  "recipientSharedSecretHash L viewingKey ephemeralPubKey =
     res_bind (sharedSecretFromScalarAndPoint L viewingKey ephemeralPubKey) (\<lambda>shared. Inr (hashSharedSecret L shared))"

definition checkViewTagMatch :: "('p, 'k) curve_lib \<Rightarrow> byte list \<Rightarrow> byte list \<Rightarrow> nat \<Rightarrow> bool res" where
  "checkViewTagMatch L viewingKey ephemeralPubKey viewTag =
     res_bind (recipientSharedSecretHash L viewingKey ephemeralPubKey) (\<lambda>(_, t). Inr (t = viewTag))"

definition reconstructStealthPrivateKey :: "('p, 'k) curve_lib \<Rightarrow> byte list \<Rightarrow> byte list \<Rightarrow> byte list \<Rightarrow> byte list res" where
  "reconstructStealthPrivateKey L viewingKey spendingKey ephemeralPubKey =
     res_bind (recipientSharedSecretHash L viewingKey ephemeralPubKey) (\<lambda>(sH, _).
     let n = ec_n L;
         sHMod = bytesToBigInt sH mod n;
         spend = bytesToBigInt spendingKey mod n;
         stealth = (spend + sHMod) mod n
     in if stealth = 0 then Inl (Error ''Reconstructed stealth key is zero'') else Inr (bigIntToBytes32 stealth))"

definition ANNOUNCER_SALT :: string where "ANNOUNCER_SALT = ''opaque-announcer-v1''"

definition deriveAnnouncerEphemeralKey :: "('p, 'k) curve_lib \<Rightarrow> string \<Rightarrow> byte list" where
  "deriveAnnouncerEphemeralKey L metaAddressHex =
     (let okm = ec_hkdf L (utf8 (strip_0x metaAddressHex @ ANNOUNCER_SALT)) ''opaque-announcer-ephemeral'' 32;
          scalar = bytesToBigInt okm mod ec_n L
      in bigIntToBytes32 (if scalar = 0 then 1 else scalar))"

definition stealthIdFromPrivateKey :: "('p, 'k) curve_lib \<Rightarrow> byte list \<Rightarrow> string res" where
  "stealthIdFromPrivateKey L stealthPrivKey =
     res_bind (ec_getPublicKey L stealthPrivKey False) (\<lambda>uncompressed. Inr (stealth_id L uncompressed))"

definition deriveStealthStellarAddressFromStealthPrivKey :: "('p, 'k) curve_lib \<Rightarrow> byte list \<Rightarrow> string res" where
  "deriveStealthStellarAddressFromStealthPrivKey L stealthPrivKey =
     res_bind (ec_getPublicKey L stealthPrivKey False) (\<lambda>uncompressed. Inr (deriveStealthStellarAddress L uncompressed))"

definition deriveStealthStellarKeypairFromStealthPrivKey :: "('p, 'k) curve_lib \<Rightarrow> byte list \<Rightarrow> 'k res" where
  "deriveStealthStellarKeypairFromStealthPrivKey L stealthPrivKey =
     res_bind (ec_getPublicKey L stealthPrivKey False) (\<lambda>uncompressed. Inr (deriveStealthStellarKeypair L uncompressed))"


section \<open>Scanning\<close>

record StealthAnnouncement =
  an_stealthAddress :: string
  an_ephemeralPubKey :: "byte list"
  an_viewTag :: nat

record ScanMatch =
  sm_announcement :: StealthAnnouncement
  sm_stealthPrivKey :: "byte list"
  sm_stealthStellarAddress :: string

record ViewOnlyMatch =
  vm_announcement :: StealthAnnouncement
  vm_derivedStealthAddress :: string

definition deriveStealthAddressViewOnly :: "('p, 'k) curve_lib \<Rightarrow> byte list \<Rightarrow> byte list \<Rightarrow> byte list \<Rightarrow> string res" where
  "deriveStealthAddressViewOnly L viewingKey spendingPubKey ephemeralPubKey =
     (let n = ec_n L in
      res_bind (ec_fromHex L ephemeralPubKey) (\<lambda>ephPoint.
      res_bind (js_BigInt_str (''0x'' @ hex_of_bytes viewingKey)) (\<lambda>view.
      let viewScalar = view mod n in
      if viewScalar = 0 then Inl (Error ''Invalid view scalar'')
      else
      res_bind (ec_multiply L viewScalar ephPoint) (\<lambda>sharedPoint.
      res_bind (ec_toRawBytes L True sharedPoint) (\<lambda>sharedSecret.
      res_bind (js_BigInt_str (''0x'' @ hex_of_bytes (ec_keccak L sharedSecret))) (\<lambda>hashed.
      let sHScalar = hashed mod n in
      if sHScalar = 0 then Inl (Error ''Invalid hash scalar'')
      else
      res_bind (ec_multiply L sHScalar (ec_base L)) (\<lambda>S_h.
      res_bind (ec_fromHex L spendingPubKey) (\<lambda>P_spend.
      res_bind (ec_toRawBytes L False (ec_add L P_spend S_h)) (\<lambda>uncompressed.
      Inr (stealth_id L uncompressed))))))))))"

definition scan_one :: "('p, 'k) curve_lib \<Rightarrow> byte list \<Rightarrow> byte list \<Rightarrow> StealthAnnouncement \<Rightarrow> ScanMatch option res" where
  "scan_one L viewingKey spendingKey a =
     res_bind (checkViewTagMatch L viewingKey (an_ephemeralPubKey a) (an_viewTag a)) (\<lambda>tagged.
     if \<not> tagged then Inr None
     else
     res_bind (reconstructStealthPrivateKey L viewingKey spendingKey (an_ephemeralPubKey a)) (\<lambda>stealthPrivKey.
     res_bind (stealthIdFromPrivateKey L stealthPrivKey) (\<lambda>sid.
     if to_lower sid \<noteq> to_lower (an_stealthAddress a) then Inr None
     else
     res_bind (deriveStealthStellarAddressFromStealthPrivKey L stealthPrivKey) (\<lambda>account.
     Inr (Some \<lparr>sm_announcement = a, sm_stealthPrivKey = stealthPrivKey, sm_stealthStellarAddress = account\<rparr>)))))"

definition somes :: "'a option list \<Rightarrow> 'a list" where
  "somes xs = concat (map (\<lambda>x. case x of Some y \<Rightarrow> [y] | None \<Rightarrow> []) xs)"

definition scanAnnouncements :: "('p, 'k) curve_lib \<Rightarrow> StealthAnnouncement list \<Rightarrow> byte list \<Rightarrow> byte list \<Rightarrow> ScanMatch list res" where
  "scanAnnouncements L announcements viewingKey spendingKey =
     res_bind (res_map (scan_one L viewingKey spendingKey) announcements) (\<lambda>ms. Inr (somes ms))"

definition view_one :: "('p, 'k) curve_lib \<Rightarrow> byte list \<Rightarrow> byte list \<Rightarrow> StealthAnnouncement \<Rightarrow> ViewOnlyMatch option res" where
  "view_one L viewingKey spendingPubKey a =
     res_bind (checkViewTagMatch L viewingKey (an_ephemeralPubKey a) (an_viewTag a)) (\<lambda>tagged.
     if \<not> tagged then Inr None
     else
     res_bind (deriveStealthAddressViewOnly L viewingKey spendingPubKey (an_ephemeralPubKey a)) (\<lambda>derived.
     if to_lower derived \<noteq> to_lower (an_stealthAddress a) then Inr None
     else Inr (Some \<lparr>vm_announcement = a, vm_derivedStealthAddress = derived\<rparr>)))"

definition scanAnnouncementsViewOnly ::
  "('p, 'k) curve_lib \<Rightarrow> StealthAnnouncement list \<Rightarrow> byte list \<Rightarrow> byte list \<Rightarrow> ViewOnlyMatch list res" where
  "scanAnnouncementsViewOnly L announcements viewingKey spendingPubKey =
     res_bind (res_map (view_one L viewingKey spendingPubKey) announcements) (\<lambda>ms. Inr (somes ms))"

end
