(* ===== verification/Sdk_Events.thy ===== *)
theory Sdk_Events
  imports Sdk_Errors Sdk_Stealth Effects
begin

text \<open>
  Reading contract events page by page: \<open>sdk/src/rpc/events.ts\<close> with the range hint of
  \<open>sdk/src/rpc/diagnostics.ts\<close>, and its two readers, the announcement stream
  (\<open>sdk/src/contracts/payments.ts\<close>, \<open>StealthAnnouncer.scanEvents\<close>) with the resumable
  scan of \<open>sdk/src/services/payments.ts\<close>, and the reconstruction of the pool's tree
  (\<open>sdk/src/contracts/pool.ts\<close>, \<open>reconstructState\<close>).

  The RPC server is a pair of programs over a world. An event value is the array that
  \<open>scValToNative\<close> makes of it. An async generator is a program that calls its consumer, an
  argument \<open>yld\<close>, once per \<open>yield\<close>; the consumer answers whether it goes on, and
  \<open>False\<close> is a \<open>break\<close> out of its \<open>for await\<close>.
\<close>

section \<open>The range hint of an error\<close>

text \<open>
  \<open>/ledger range:\s*(\d+)\s*-\s*(\d+)/\<close>, at the front of a string and at its leftmost
  position.
\<close>

definition range_here :: "string \<Rightarrow> int option" where
  "range_here s =
     (if starts_with ''ledger range:'' s then
        (let r = dropWhile is_ws (drop 13 s);
             ds = takeWhile is_digit r;
             r' = dropWhile is_ws (dropWhile is_digit r)
         in if ds \<noteq> [] \<and> r' \<noteq> [] \<and> hd r' = CHR ''-'' \<and> takeWhile is_digit (dropWhile is_ws (tl r')) \<noteq> []
            then Some (int (nat_of_dec ds)) else None)
      else None)"

fun range_search :: "string \<Rightarrow> int option" where
  "range_search [] = None"
| "range_search (c # s) = (case range_here (c # s) of Some n \<Rightarrow> Some n | None \<Rightarrow> range_search s)"

definition parseOldestLedgerFromRangeError :: "js_error \<Rightarrow> int option" where
  "parseOldestLedgerFromRangeError err = range_search (err_message err)"


section \<open>Pages\<close>

datatype native = NBytes "byte list" | NInt int

record chain_event =
  ev_ledger :: int
  ev_value :: "native list"

record event_filter =
  ef_contractIds :: "string list"
  ef_topics :: "string list list"

record events_request =
  rq_cursor :: "string option"
  rq_startLedger :: "int option"
  rq_filters :: "event_filter list"
  rq_limit :: nat

record events_response =
  rs_events :: "chain_event list option"
  rs_latestLedger :: "int option"
  rs_cursor :: "string option"

text \<open>The two calls of the RPC server that the pages need.\<close>

record 'w event_rpc =
  getEvents :: "events_request \<Rightarrow> ('w, events_response) prog"
  getLatestLedger :: "('w, int) prog"

definition EVENT_PAGE_LIMIT :: int where "EVENT_PAGE_LIMIT = 200"

definition EVENT_PAGE_SIZE :: nat where "EVENT_PAGE_SIZE = 100"

definition EVENT_LOOKBACK_LEDGERS :: int where "EVENT_LOOKBACK_LEDGERS = 16000"

record ContractEventPage =
  pg_events :: "chain_event list"
  pg_ledger :: int
  pg_endLedger :: int
  pg_complete :: bool
  pg_truncated :: bool
  pg_continuationCursor :: "string option"

record PaginateContractEventsOptions =
  po_filters :: "event_filter list"
  po_scope :: string
  po_startLedger :: "int option"
  po_lookback :: "int option"
  po_pageSize :: "nat option"
  po_maxPages :: "int option"
  po_throwOnTruncation :: bool

text \<open>The variables of the generator that live across pages.\<close>

record page_state =
  ps_startLedger :: int
  ps_cursor :: "string option"
  ps_prevCursor :: "string option"
  ps_covered :: int

definition or_else :: "'a option \<Rightarrow> 'a \<Rightarrow> 'a" where
  "or_else x d = (case x of Some y \<Rightarrow> y | None \<Rightarrow> d)"

definition str_truthy :: "string option \<Rightarrow> bool" where
  "str_truthy s = (case s of None \<Rightarrow> False | Some t \<Rightarrow> t \<noteq> [])"

definition page_request :: "PaginateContractEventsOptions \<Rightarrow> page_state \<Rightarrow> events_request" where
  "page_request opts s =
     \<lparr>rq_cursor = (if str_truthy (ps_cursor s) then ps_cursor s else None),
      rq_startLedger = (if str_truthy (ps_cursor s) then None else Some (ps_startLedger s)),
      rq_filters = po_filters opts, rq_limit = or_else (po_pageSize opts) EVENT_PAGE_SIZE\<rparr>"

definition fetch_page ::
  "'w event_rpc \<Rightarrow> PaginateContractEventsOptions \<Rightarrow> page_state \<Rightarrow> ('w, events_response \<times> page_state) prog" where
  "fetch_page rpc opts s =
     try_catch (bnd (getEvents rpc (page_request opts s)) (\<lambda>r. ret (r, s)))
       (\<lambda>err. case parseOldestLedgerFromRangeError err of
          None \<Rightarrow> throw err
        | Some oldest \<Rightarrow>
            if str_truthy (ps_cursor s) \<or> ps_startLedger s \<ge> oldest then throw err
            else let s' = s\<lparr>ps_startLedger := oldest, ps_covered := max (ps_covered s) oldest\<rparr>
                 in bnd (getEvents rpc (page_request opts s')) (\<lambda>r. ret (r, s')))"

definition page_ledger :: "int \<Rightarrow> chain_event list \<Rightarrow> int" where
  "page_ledger covered events = foldl (\<lambda>l ev. max l (ev_ledger ev)) covered events"

definition new_page :: "int \<Rightarrow> page_state \<Rightarrow> events_response \<Rightarrow> ContractEventPage" where
  "new_page latest s r =
     (let events = or_else (rs_events r) [];
          ledger = page_ledger (ps_covered s) events
      in \<lparr>pg_events = events, pg_ledger = ledger, pg_endLedger = max (max ledger (or_else (rs_latestLedger r) 0)) latest,
          pg_complete = False, pg_truncated = False, pg_continuationCursor = None\<rparr>)"

definition drained :: "page_state \<Rightarrow> events_response \<Rightarrow> bool" where
  "drained s r \<longleftrightarrow> \<not> str_truthy (rs_cursor r) \<or> rs_cursor r = ps_prevCursor s"

definition advance :: "page_state \<Rightarrow> events_response \<Rightarrow> page_state" where
  "advance s r = s\<lparr>ps_covered := page_ledger (ps_covered s) (or_else (rs_events r) []), ps_prevCursor := rs_cursor r, ps_cursor := rs_cursor r\<rparr>"

fun page_loop ::
  "'w event_rpc \<Rightarrow> PaginateContractEventsOptions \<Rightarrow> int \<Rightarrow> nat \<Rightarrow> int \<Rightarrow> page_state \<Rightarrow>
   (ContractEventPage \<Rightarrow> ('w, bool) prog) \<Rightarrow> ('w, unit) prog" where
  "page_loop rpc opts latest 0 maxPages s yld = ret ()"
| "page_loop rpc opts latest (Suc left) maxPages s yld =
     bnd (fetch_page rpc opts s) (\<lambda>(r, s).
     let page = new_page latest s r
     in if drained s r then bnd (yld (page\<lparr>pg_complete := True\<rparr>)) (\<lambda>_. ret ())
        else if left = 0
        then (if po_throwOnTruncation opts
              then throw (new_EventTruncationError (po_scope opts) (nat maxPages) (nat maxPages) (pg_ledger page) (or_else (rs_cursor r) []))
              else bnd (yld (page\<lparr>pg_truncated := True, pg_continuationCursor := rs_cursor r\<rparr>)) (\<lambda>_. ret ()))
        else bnd (yld page) (\<lambda>go.
             if go then page_loop rpc opts latest left maxPages (advance s r) yld
             else ret ()))"

definition max_pages :: "PaginateContractEventsOptions \<Rightarrow> int" where
  "max_pages opts = max 1 (or_else (po_maxPages opts) EVENT_PAGE_LIMIT)"

definition start_ledger :: "PaginateContractEventsOptions \<Rightarrow> int \<Rightarrow> int" where
  "start_ledger opts latest =
     (case po_startLedger opts of
        Some l \<Rightarrow> if 0 < l then l else max 1 (latest - or_else (po_lookback opts) EVENT_LOOKBACK_LEDGERS)
      | None \<Rightarrow> max 1 (latest - or_else (po_lookback opts) EVENT_LOOKBACK_LEDGERS))"

definition paginateContractEvents ::
  "'w event_rpc \<Rightarrow> PaginateContractEventsOptions \<Rightarrow> (ContractEventPage \<Rightarrow> ('w, bool) prog) \<Rightarrow> ('w, unit) prog" where
  "paginateContractEvents rpc opts yld =
     bnd (getLatestLedger rpc) (\<lambda>latest.
     let startLedger = start_ledger opts latest
     in page_loop rpc opts latest (nat (max_pages opts)) (max_pages opts)
          \<lparr>ps_startLedger = startLedger, ps_cursor = None, ps_prevCursor = None, ps_covered = startLedger\<rparr> yld)"


section \<open>The announcement stream\<close>

text \<open>
  \<open>topic_xdr\<close> is \<open>xdr.ScVal.scvSymbol(_).toXDR("base64")\<close>. Converting a missing value to
  bytes throws; \<open>Buffer.from\<close> rejects a number, \<open>Uint8Array.from\<close> makes an empty array of it.
\<close>

definition nth_opt :: "'a list \<Rightarrow> nat \<Rightarrow> 'a option" where
  "nth_opt xs i = (if i < length xs then Some (xs ! i) else None)"

definition not_bytes :: js_error where
  "not_bytes = TypeError ''The first argument must be of type string or an instance of Buffer, ArrayBuffer, or Array or an Array-like Object''"

definition buffer_hex :: "native option \<Rightarrow> string res" where
  "buffer_hex v = (case v of Some (NBytes b) \<Rightarrow> Inr (hex_of_bytes b) | _ \<Rightarrow> Inl not_bytes)"

definition uint8_from :: "native option \<Rightarrow> byte list res" where
  "uint8_from v =
     (case v of None \<Rightarrow> Inl (TypeError ''undefined is not iterable'')
      | Some (NBytes b) \<Rightarrow> Inr b
      | Some (NInt _) \<Rightarrow> Inr [])"

definition first_byte :: "native option \<Rightarrow> nat res" where
  "first_byte v =
     (case v of None \<Rightarrow> Inl (TypeError ''Cannot read properties of undefined'')
      | Some (NBytes (b # _)) \<Rightarrow> Inr (unat b)
      | Some _ \<Rightarrow> Inr 0)"

record AnnouncementPage =
  ap_announcements :: "StealthAnnouncement list"
  ap_ledger :: int
  ap_endLedger :: int
  ap_complete :: bool
  ap_truncated :: bool
  ap_continuationCursor :: "string option"

definition decode_announcement :: "chain_event \<Rightarrow> StealthAnnouncement res" where
  "decode_announcement ev =
     (let data = ev_value ev in
      res_bind (buffer_hex (nth_opt data 1)) (\<lambda>stealthAddress.
      res_bind (uint8_from (nth_opt data 3)) (\<lambda>ephemeralPubKey.
      res_bind (first_byte (nth_opt data 4)) (\<lambda>viewTag.
      Inr \<lparr>an_stealthAddress = ''0x'' @ stealthAddress, an_ephemeralPubKey = ephemeralPubKey, an_viewTag = viewTag\<rparr>))))"

record ScanEventsOptions =
  se_startLedger :: "int option"
  se_maxPages :: "int option"
  se_throwOnTruncation :: bool

definition ANNOUNCEMENT_EVENT_LOOKBACK :: int where "ANNOUNCEMENT_EVENT_LOOKBACK = 16000"

definition scan_options :: "(string \<Rightarrow> string) \<Rightarrow> string \<Rightarrow> ScanEventsOptions \<Rightarrow> PaginateContractEventsOptions" where
  "scan_options topic_xdr contractId opts =
     \<lparr>po_filters = [\<lparr>ef_contractIds = [contractId], ef_topics = [[topic_xdr ''Announcement'', ''*'']]\<rparr>],
      po_scope = ''stealth-announcer:Announcement'', po_startLedger = se_startLedger opts,
      po_lookback = Some ANNOUNCEMENT_EVENT_LOOKBACK, po_pageSize = None, po_maxPages = se_maxPages opts,
      po_throwOnTruncation = se_throwOnTruncation opts\<rparr>"

definition announcement_page :: "ContractEventPage \<Rightarrow> AnnouncementPage res" where
  "announcement_page page =
     res_bind (res_map decode_announcement (pg_events page)) (\<lambda>announcements.
     Inr \<lparr>ap_announcements = announcements, ap_ledger = pg_ledger page, ap_endLedger = pg_endLedger page,
          ap_complete = pg_complete page, ap_truncated = pg_truncated page, ap_continuationCursor = pg_continuationCursor page\<rparr>)"

definition scanEvents ::
  "(string \<Rightarrow> string) \<Rightarrow> 'w event_rpc \<Rightarrow> string \<Rightarrow> ScanEventsOptions \<Rightarrow> (AnnouncementPage \<Rightarrow> ('w, bool) prog) \<Rightarrow> ('w, unit) prog" where
  "scanEvents topic_xdr rpc contractId opts yld =
     paginateContractEvents rpc (scan_options topic_xdr contractId opts) (\<lambda>page. bnd (of_res (announcement_page page)) yld)"


section \<open>The resumable scan\<close>

record 'w ScanStore =
  getCursor :: "string \<Rightarrow> ('w, int option) prog"
  setCursor :: "int \<Rightarrow> string \<Rightarrow> ('w, unit) prog"

text \<open>The in-memory store: one cursor per key, beside the rest of the world.\<close>

definition MemoryScanStore :: "((string \<times> int) list \<times> 'w) ScanStore" where
  "MemoryScanStore =
     \<lparr>getCursor = (\<lambda>identity. gets (\<lambda>(cursors, w). map_of cursors identity)),
      setCursor = (\<lambda>ledger identity. upd (\<lambda>(cursors, w). (AList.update identity ledger cursors, w)))\<rparr>"

record ScanIteratorOptions =
  si_viewingKey :: "byte list"
  si_spendingKey :: "byte list"
  si_startLedger :: "int option"
  si_skipCursor :: bool
  si_cursorKey :: "string option"
  si_maxPages :: "int option"
  si_allowTruncation :: bool

definition scanCursorKey :: "byte list \<Rightarrow> string" where
  "scanCursorKey viewingKey = ''vk:'' @ hex_of_bytes viewingKey"

text \<open>Handing the matches of a page to the consumer one by one; it may stop at any of them.\<close>

fun yield_all :: "('a \<Rightarrow> ('w, bool) prog) \<Rightarrow> 'a list \<Rightarrow> ('w, bool) prog" where
  "yield_all yld [] = ret True"
| "yield_all yld (x # xs) = bnd (yld x) (\<lambda>go. if go then yield_all yld xs else ret False)"

definition scan_page ::
  "('p, 'k) curve_lib \<Rightarrow> 'w ScanStore \<Rightarrow> ScanIteratorOptions \<Rightarrow> string \<Rightarrow> (ScanMatch \<times> int \<Rightarrow> ('w, bool) prog) \<Rightarrow>
   AnnouncementPage \<Rightarrow> ('w, bool) prog" where
  "scan_page L scanStore opts cursorKey yld page =
     bnd (of_res (scanAnnouncements L (ap_announcements page) (si_viewingKey opts) (si_spendingKey opts))) (\<lambda>ms.
     bnd (yield_all yld (map (\<lambda>m. (m, ap_ledger page)) ms)) (\<lambda>go.
     if \<not> go then ret False
     else if si_skipCursor opts then ret True
     else bnd (setCursor scanStore (if ap_complete page then ap_endLedger page else ap_ledger page) cursorKey) (\<lambda>_. ret True)))"

definition scan_start :: "'w ScanStore \<Rightarrow> ScanIteratorOptions \<Rightarrow> string \<Rightarrow> ('w, int option) prog" where
  "scan_start scanStore opts cursorKey =
     (if si_startLedger opts = None \<and> \<not> si_skipCursor opts
      then bnd (getCursor scanStore cursorKey) (\<lambda>cursor. ret (map_option (\<lambda>c. c + 1) cursor))
      else ret (si_startLedger opts))"

definition scanIterator ::
  "(string \<Rightarrow> string) \<Rightarrow> ('p, 'k) curve_lib \<Rightarrow> 'w event_rpc \<Rightarrow> string \<Rightarrow> 'w ScanStore \<Rightarrow> ScanIteratorOptions \<Rightarrow>
   (ScanMatch \<times> int \<Rightarrow> ('w, bool) prog) \<Rightarrow> ('w, unit) prog" where
  "scanIterator topic_xdr L rpc contractId scanStore opts yld =
     (let cursorKey = or_else (si_cursorKey opts) (scanCursorKey (si_viewingKey opts)) in
      bnd (scan_start scanStore opts cursorKey) (\<lambda>startLedger.
      scanEvents topic_xdr rpc contractId
        \<lparr>se_startLedger = startLedger, se_maxPages = si_maxPages opts, se_throwOnTruncation = \<not> si_allowTruncation opts\<rparr>
        (scan_page L scanStore opts cursorKey yld)))"


section \<open>The pool tree from its events\<close>

record ReconstructStateOptions =
  rc_startLedger :: "int option"
  rc_maxPages :: "int option"
  rc_onTruncation_return :: bool

record PoolStateReconstruction =
  pr_stateLeaves :: "int list"
  pr_depositIndices :: "int list"
  pr_complete :: bool
  pr_continuation :: "(string option \<times> string option) option"

text \<open>
  The variables of \<open>reconstructState\<close>. The components read as numbers are unsigned 64-bit
  integers of the contract's events; bytes there would be read as \<open>NaN\<close>, which is not modelled.
\<close>

record Rebuild =
  rb_byIndex :: "(int \<times> int) list"
  rb_depositIndices :: "int list"
  rb_deposit :: "string option"
  rb_withdraw :: "string option"
  rb_complete :: bool

definition POOL_EVENT_LOOKBACK :: int where "POOL_EVENT_LOOKBACK = 16000"

definition leaf_of :: "native option \<Rightarrow> int res" where
  "leaf_of v = res_bind (buffer_hex v) (\<lambda>h. js_BigInt_str (''0x'' @ h))"

definition index_of :: "native option \<Rightarrow> int res" where
  "index_of v = (case v of Some (NInt i) \<Rightarrow> Inr i | _ \<Rightarrow> Inl (TypeError ''Expected a number''))"

definition rebuild_event :: "bool \<Rightarrow> Rebuild \<Rightarrow> chain_event \<Rightarrow> Rebuild res" where
  "rebuild_event isDeposit b ev =
     (let data = ev_value ev in
      if isDeposit then
        res_bind (leaf_of (nth_opt data 0)) (\<lambda>commitment.
        res_bind (index_of (nth_opt data 1)) (\<lambda>index.
        Inr (b\<lparr>rb_byIndex := AList.update index commitment (rb_byIndex b), rb_depositIndices := rb_depositIndices b @ [index]\<rparr>)))
      else
        res_bind (leaf_of (nth_opt data 1)) (\<lambda>newCommitment.
        res_bind (index_of (nth_opt data 2)) (\<lambda>index.
        Inr (b\<lparr>rb_byIndex := AList.update index newCommitment (rb_byIndex b)\<rparr>))))"

fun rebuild_events :: "bool \<Rightarrow> Rebuild \<Rightarrow> chain_event list \<Rightarrow> Rebuild res" where
  "rebuild_events isDeposit b [] = Inr b"
| "rebuild_events isDeposit b (ev # evs) = res_bind (rebuild_event isDeposit b ev) (\<lambda>b. rebuild_events isDeposit b evs)"

definition rebuild_page :: "bool \<Rightarrow> ContractEventPage \<Rightarrow> (Rebuild \<times> 'w, bool) prog" where
  "rebuild_page isDeposit page =
     bnd (gets fst) (\<lambda>b.
     bnd (of_res (rebuild_events isDeposit b (pg_events page))) (\<lambda>b.
     let b = (if pg_truncated page
              then (if isDeposit then b\<lparr>rb_complete := False, rb_deposit := pg_continuationCursor page\<rparr>
                    else b\<lparr>rb_complete := False, rb_withdraw := pg_continuationCursor page\<rparr>)
              else b)
     in bnd (upd (\<lambda>(_, w). (b, w))) (\<lambda>_. ret True)))"

definition lift_rpc :: "'w event_rpc \<Rightarrow> ('b \<times> 'w) event_rpc" where
  "lift_rpc rpc = \<lparr>getEvents = (\<lambda>q. on_snd (getEvents rpc q)), getLatestLedger = on_snd (getLatestLedger rpc)\<rparr>"

definition pool_options :: "(string \<Rightarrow> string) \<Rightarrow> string \<Rightarrow> ReconstructStateOptions \<Rightarrow> string \<Rightarrow> PaginateContractEventsOptions" where
  "pool_options topic_xdr contractId opts kind =
     \<lparr>po_filters = [\<lparr>ef_contractIds = [contractId], ef_topics = [[topic_xdr kind, ''*'']]\<rparr>], po_scope = ''privacy-pool:'' @ kind,
      po_startLedger = rc_startLedger opts, po_lookback = Some POOL_EVENT_LOOKBACK, po_pageSize = None,
      po_maxPages = rc_maxPages opts, po_throwOnTruncation = \<not> rc_onTruncation_return opts\<rparr>"

definition new_Rebuild :: Rebuild where
  "new_Rebuild = \<lparr>rb_byIndex = [], rb_depositIndices = [], rb_deposit = None, rb_withdraw = None, rb_complete = True\<rparr>"

definition dense_leaves :: "(int \<times> int) list \<Rightarrow> int list" where
  "dense_leaves byIndex =
     (let mx = (if byIndex = [] then - 1 else Max (fst ` set byIndex))
      in map (\<lambda>i. or_else (map_of byIndex i) 0) [0..mx])"

definition rebuilt :: "Rebuild \<Rightarrow> PoolStateReconstruction" where
  "rebuilt b =
     \<lparr>pr_stateLeaves = dense_leaves (rb_byIndex b), pr_depositIndices = sort (rb_depositIndices b), pr_complete = rb_complete b,
      pr_continuation = (if rb_complete b then None else Some (rb_deposit b, rb_withdraw b))\<rparr>"

definition reconstructState ::
  "(string \<Rightarrow> string) \<Rightarrow> 'w event_rpc \<Rightarrow> string \<Rightarrow> ReconstructStateOptions \<Rightarrow> ('w, PoolStateReconstruction) prog" where
  "reconstructState topic_xdr rpc contractId opts w =
     (case bnd (paginateContractEvents (lift_rpc rpc) (pool_options topic_xdr contractId opts ''Deposit'') (rebuild_page True)) (\<lambda>_.
           bnd (paginateContractEvents (lift_rpc rpc) (pool_options topic_xdr contractId opts ''Withdraw'') (rebuild_page False)) (\<lambda>_.
           gets (rebuilt \<circ> fst))) (new_Rebuild, w) of (r, (_, w')) \<Rightarrow> (r, w'))"

end
