(* ===== verification/Sdk_Events_Props.thy ===== *)
theory Sdk_Events_Props
  imports Sdk_Events "HOL-Library.Sublist"
begin

text \<open>
  Event scans end, say how they ended, and read everything. The pages of a scan are first followed with
  a trace of requests and pages, for any server; then against a server that keeps the laws of the locale
  \<open>event_server\<close>: the events it has posted only grow at the end, and a response holds a gapless
  segment of them that starts where the request asks and ends where its cursor points.
\<close>

lemma wp_all: "(\<And>x s. Q x s) \<Longrightarrow> (\<And>e s. E e s) \<Longrightarrow> wp m Q E s"
  by (simp add: wp_def split: prod.splits sum.splits)

lemma str_truthy_iff: "str_truthy c \<longleftrightarrow> (\<exists>t. c = Some t \<and> t \<noteq> [])"
  by (auto simp: str_truthy_def split: option.splits)

lemma page_ledger_ge: "c \<le> page_ledger c es" and page_ledger_events: "ev \<in> set es \<Longrightarrow> ev_ledger ev \<le> page_ledger c es"
proof -
  have *: "c \<le> page_ledger c es \<and> (\<forall>ev \<in> set es. ev_ledger ev \<le> page_ledger c es)" for c
    unfolding page_ledger_def
  proof (induction es arbitrary: c)
    case (Cons e es)
    from Cons.IH [of "max c (ev_ledger e)"] show ?case by (auto simp: max.bounded_iff)
  qed simp
  then show "c \<le> page_ledger c es" and "ev \<in> set es \<Longrightarrow> ev_ledger ev \<le> page_ledger c es" by blast+
qed


section \<open>Every scan ends\<close>

text \<open>The trace: the requests sent and the pages a consumer that never stops was given.\<close>

type_synonym trace = "events_request list \<times> ContractEventPage list"

definition traced :: "'w event_rpc \<Rightarrow> (trace \<times> 'w) event_rpc" where
  "traced rpc = \<lparr>getEvents = (\<lambda>q. bnd (upd (\<lambda>((qs, ps), w). ((qs @ [q], ps), w))) (\<lambda>_. on_snd (getEvents rpc q))),
     getLatestLedger = on_snd (getLatestLedger rpc)\<rparr>"

definition collect :: "ContractEventPage \<Rightarrow> (trace \<times> 'w, bool) prog" where
  "collect p = bnd (upd (\<lambda>((qs, ps), w). ((qs, ps @ [p]), w))) (\<lambda>_. ret True)"

lemma wp_collect [simp]: "wp (collect p) Q E ((qs, ps), w) = Q True ((qs, ps @ [p]), w)"
  by (simp add: collect_def)

definition page_fits :: "int \<Rightarrow> ContractEventPage \<Rightarrow> bool" where
  "page_fits c p \<longleftrightarrow> c \<le> pg_ledger p \<and> pg_ledger p \<le> pg_endLedger p \<and> (\<forall>ev \<in> set (pg_events p). ev_ledger ev \<le> pg_ledger p)"

text \<open>A run of at most \<open>n\<close> pages from ledger \<open>c\<close>: ledgers never go back, and only the last page is marked.\<close>

fun page_run :: "nat \<Rightarrow> bool \<Rightarrow> int \<Rightarrow> ContractEventPage list \<Rightarrow> bool" where
  "page_run n throws c [] = False"
| "page_run n throws c [p] \<longleftrightarrow> 0 < n \<and> page_fits c p \<and> pg_complete p \<noteq> pg_truncated p \<and> (pg_truncated p \<longrightarrow> n = 1 \<and> \<not> throws)"
| "page_run n throws c (p # ps) \<longleftrightarrow>
     0 < n \<and> page_fits c p \<and> \<not> pg_complete p \<and> \<not> pg_truncated p \<and> page_run (n - 1) throws (pg_ledger p) ps"

lemma page_run_length: "page_run n throws c ps \<Longrightarrow> 0 < length ps \<and> length ps \<le> n"
  by (induction n throws c ps rule: page_run.induct) auto

definition added :: "nat \<Rightarrow> trace \<Rightarrow> (ContractEventPage list \<Rightarrow> bool) \<Rightarrow> trace \<times> 'w \<Rightarrow> bool" where
  "added n t P s \<longleftrightarrow> (\<exists>qs ps. fst s = (fst t @ qs, snd t @ ps) \<and> length qs \<le> n \<and> P ps)"

lemma fetch_traced:
  "wp (fetch_page (traced rpc) opts s)
     (\<lambda>(r, s') u. ps_cursor s' = ps_cursor s \<and> ps_prevCursor s' = ps_prevCursor s \<and> ps_covered s \<le> ps_covered s'
        \<and> added (if str_truthy (ps_cursor s) then 1 else 2) t (\<lambda>ps. ps = []) u)
     (\<lambda>_. added (if str_truthy (ps_cursor s) then 1 else 2) t (\<lambda>ps. ps = [])) (t, w)"
proof (cases t)
  case [simp]: (Pair qs ps)
  show ?thesis
    unfolding fetch_page_def traced_def
    by (auto simp: Let_def added_def split: option.splits intro!: wp_all)
qed

lemma added_mono: "added m t P u \<Longrightarrow> m \<le> n \<Longrightarrow> (\<And>ps. P ps \<Longrightarrow> Q ps) \<Longrightarrow> added n t Q u"
  unfolding added_def by (meson order_trans)

lemma added_step:
  assumes "added k t (\<lambda>ps. ps = []) (t', w)" "added m (fst t', snd t' @ ps) P u" "k + m \<le> n" "\<And>rest. P rest \<Longrightarrow> Q (ps @ rest)"
  shows "added n t Q u"
  using assms unfolding added_def by (fastforce intro: exI [of _ "_ @ _"])

lemma page_run_Cons:
  "page_run n throws (pg_ledger p) ps \<Longrightarrow> page_fits c p \<Longrightarrow> \<not> pg_complete p \<Longrightarrow> \<not> pg_truncated p \<Longrightarrow> page_run (Suc n) throws c (p # ps)"
  by (cases ps) simp_all

lemma loop_traced:
  "wp (page_loop (traced rpc) opts latest n mx s collect)
     (\<lambda>_. added (n + (if str_truthy (ps_cursor s) then 0 else 1)) t
            (\<lambda>ps. n = 0 \<or> page_run n (po_throwOnTruncation opts) (ps_covered s) ps))
     (\<lambda>_. added (n + (if str_truthy (ps_cursor s) then 0 else 1)) t (\<lambda>ps. length ps < n)) (t, w)"
proof (induction n arbitrary: s t w)
  case 0
  then show ?case by (cases t) (auto simp: added_def wp_def)
next
  case (Suc n)
  define k where "k = (if str_truthy (ps_cursor s) then 1 else 2 :: nat)"
  define N where "N = Suc n + (if str_truthy (ps_cursor s) then 0 else 1)"
  define R where "R = page_run (Suc n) (po_throwOnTruncation opts) (ps_covered s)"
  have N: "k + n \<le> N" "k \<le> N" by (simp_all add: k_def N_def)
  let ?throws = "po_throwOnTruncation opts"
  have early: "added N t (\<lambda>ps. length ps < Suc n) u" if "added k t (\<lambda>ps. ps = []) u" for u :: "trace \<times> 'a"
    using that by (rule added_mono) (simp_all add: N)
  have one: "added N t R ((fst t', snd t' @ [p]), w')"
    if "added k t (\<lambda>ps. ps = []) (t', w')" "R [p]" for t' p and w' :: 'a
    using that(1) by (rule added_step [where m = 0 and ps = "[p]" and P = "\<lambda>ps. ps = []"]) (use that(2) N in \<open>auto simp: added_def\<close>)
  have rest: "wp (let page = new_page latest s' r
      in if drained s' r then bnd (collect (page\<lparr>pg_complete := True\<rparr>)) (\<lambda>_. ret ())
         else if n = 0 then (if ?throws
           then throw (new_EventTruncationError (po_scope opts) (nat mx) (nat mx) (pg_ledger page) (or_else (rs_cursor r) []))
           else bnd (collect (page\<lparr>pg_truncated := True, pg_continuationCursor := rs_cursor r\<rparr>)) (\<lambda>_. ret ()))
         else bnd (collect page) (\<lambda>go. if go then page_loop (traced rpc) opts latest n mx (advance s' r) collect else ret ()))
     (\<lambda>_. added N t R) (\<lambda>_. added N t (\<lambda>ps. length ps < Suc n)) (t', w')"
    if x: "ps_covered s \<le> ps_covered s'" "added k t (\<lambda>ps. ps = []) (t', w')" for r s' t' and w' :: 'a
  proof -
    obtain qs' ps' where t' [simp]: "t' = (qs', ps')" by (cases t')
    define p where "p = new_page latest s' r"
    have p: "page_fits (ps_covered s) p" "\<not> pg_complete p" "\<not> pg_truncated p" "pg_ledger p = ps_covered (advance s' r)"
      using x(1) order_trans [OF x(1) page_ledger_ge [of "ps_covered s'"]] page_ledger_events
      by (auto simp: page_fits_def p_def new_page_def Let_def advance_def)
    have "R [p\<lparr>pg_complete := True\<rparr>]"
      "n = 0 \<Longrightarrow> \<not> ?throws \<Longrightarrow> R [p\<lparr>pg_truncated := True, pg_continuationCursor := rs_cursor r\<rparr>]"
      using p(1-3) by (simp_all add: R_def page_fits_def)
    note ends = this [THEN one [OF x(2)], simplified]
    have loop: "wp (page_loop (traced rpc) opts latest n mx (advance s' r) collect)
        (\<lambda>_. added N t R) (\<lambda>_. added N t (\<lambda>ps. length ps < Suc n)) ((qs', ps' @ [p]), w')"
      if "n \<noteq> 0" "str_truthy (rs_cursor r)"
    proof (rule wp_mono [OF Suc.IH [of "advance s' r" "(qs', ps' @ [p])" w']])
      have on: "str_truthy (ps_cursor (advance s' r))" using that(2) by (simp add: advance_def)
      fix u :: "trace \<times> 'a"
      show "added N t R u"
        if "added (n + (if str_truthy (ps_cursor (advance s' r)) then 0 else 1)) (qs', ps' @ [p])
          (\<lambda>ps. n = 0 \<or> page_run n ?throws (ps_covered (advance s' r)) ps) u"
      proof -
        have "added n (fst t', snd t' @ [p]) (page_run n ?throws (pg_ledger p)) u"
          using that on \<open>n \<noteq> 0\<close> by (simp add: p(4))
        then show ?thesis
          by (rule added_step [OF x(2)]) (use p N in \<open>auto simp: R_def intro: page_run_Cons\<close>)
      qed
      show "added N t (\<lambda>ps. length ps < Suc n) u"
        if "added (n + (if str_truthy (ps_cursor (advance s' r)) then 0 else 1)) (qs', ps' @ [p]) (\<lambda>ps. length ps < n) u"
        by (rule added_step [OF x(2), of n "[p]" "\<lambda>ps. length ps < n"]) (use that on N in auto)
    qed
    show ?thesis
      unfolding Let_def p_def [symmetric]
      using ends early [OF x(2)] loop by (cases "drained s' r"; cases "n = 0"; cases ?throws) (simp_all add: drained_def)
  qed
  show ?case
    unfolding page_loop.simps N_def [symmetric]
    by (rule wp_bndI [OF wp_mono [OF fetch_traced [of rpc opts s t w, folded k_def]]], assumption, erule early)
      (use rest in \<open>auto simp flip: R_def\<close>)
qed

lemma max_pages_pos: "0 < nat (max_pages opts)"
  by (simp add: max_pages_def)

lemma start_ledger_pos: "1 \<le> start_ledger opts latest"
  by (simp add: start_ledger_def split: option.splits)

lemma traced_paginate:
  "wp (paginateContractEvents (traced rpc) opts collect)
     (\<lambda>_. added (nat (max_pages opts) + 1) t (\<lambda>ps. \<exists>c \<ge> 1. page_run (nat (max_pages opts)) (po_throwOnTruncation opts) c ps))
     (\<lambda>_. added (nat (max_pages opts) + 1) t (\<lambda>ps. length ps \<le> nat (max_pages opts))) (t, w)"
proof -
  let ?start = "\<lambda>latest. \<lparr>ps_startLedger = start_ledger opts latest, ps_cursor = None, ps_prevCursor = None,
    ps_covered = start_ledger opts latest\<rparr>"
  have "wp (page_loop (traced rpc) opts latest (nat (max_pages opts)) (max_pages opts) (?start latest) collect)
     (\<lambda>_. added (nat (max_pages opts) + 1) t (\<lambda>ps. \<exists>c \<ge> 1. page_run (nat (max_pages opts)) (po_throwOnTruncation opts) c ps))
     (\<lambda>_. added (nat (max_pages opts) + 1) t (\<lambda>ps. length ps \<le> nat (max_pages opts))) (t, w')" for latest w'
    by (rule wp_mono [OF loop_traced])
      (use max_pages_pos [of opts] start_ledger_pos [of opts latest] in \<open>auto simp: str_truthy_def elim!: added_mono\<close>)
  moreover have "added (nat (max_pages opts) + 1) t (\<lambda>ps. length ps \<le> nat (max_pages opts)) (t, w')" for w' :: 'a
    by (cases t) (simp add: added_def)
  ultimately show ?thesis
    unfolding paginateContractEvents_def Let_def
    by (simp add: traced_def [of rpc, THEN arg_cong, of getLatestLedger] wp_all)
qed

text \<open>
  C29: every event scan ends, whatever the server answers: it sends at most one request more than the page
  cap and hands out at most that many pages. A scan that ends normally has handed out at least one page;
  no page but the last is marked, the last is marked complete or truncated and never both, it is marked
  truncated only when the cap is reached and the caller did not ask for an error, and the ledgers of the
  pages never go backwards and cover the ledgers of all events in them.
\<close>

theorem event_scan_ends:
  assumes "paginateContractEvents (traced rpc) opts collect (([], []), w) = (r, ((qs, ps), w'))"
  shows "length qs \<le> nat (max_pages opts) + 1 \<and> length ps \<le> nat (max_pages opts)
    \<and> (r = Inr () \<longrightarrow> (\<exists>c \<ge> 1. page_run (nat (max_pages opts)) (po_throwOnTruncation opts) c ps))"
  using traced_paginate [of rpc opts "([], [])" w] assms page_run_length
  by (cases r) (fastforce simp: wp_def added_def)+

text \<open>A server that always has a further cursor.\<close>

definition endless_rpc :: "nat event_rpc" where
  "endless_rpc = \<lparr>getEvents = (\<lambda>_ n. (Inr \<lparr>rs_events = Some [], rs_latestLedger = Some 9, rs_cursor = Some (dec_of_nat n)\<rparr>, Suc n)),
     getLatestLedger = ret 7\<rparr>"

definition three_pages :: PaginateContractEventsOptions where
  "three_pages = \<lparr>po_filters = [], po_scope = ''scope'', po_startLedger = None, po_lookback = None, po_pageSize = None,
     po_maxPages = Some 3, po_throwOnTruncation = False\<rparr>"

theorem event_scan_ends_witness:
  "length (fst (fst (snd (paginateContractEvents (traced endless_rpc) three_pages collect (([], []), 0))))) \<le> 4"
proof -
  have "paginateContractEvents (traced endless_rpc) three_pages collect (([], []), 0) = (r, ((qs, ps), w')) \<Longrightarrow> length qs \<le> 4" for r qs ps w'
    using event_scan_ends [of endless_rpc three_pages 0 r qs ps w'] by (simp add: max_pages_def three_pages_def or_else_def)
  then show ?thesis by (metis prod.collapse)
qed


section \<open>A complete scan reads everything\<close>

definition first_from :: "int \<Rightarrow> chain_event list \<Rightarrow> nat" where
  "first_from s l = length (takeWhile (\<lambda>ev. ev_ledger ev < s) l)"

definition request_pos :: "(string \<Rightarrow> nat) \<Rightarrow> events_request \<Rightarrow> chain_event list \<Rightarrow> nat" where
  "request_pos pos q l =
     (case rq_cursor q of Some c \<Rightarrow> pos c
      | None \<Rightarrow> (case rq_startLedger q of Some s \<Rightarrow> first_from s l | None \<Rightarrow> 0))"

definition segment :: "nat \<Rightarrow> nat \<Rightarrow> 'a list \<Rightarrow> 'a list \<Rightarrow> bool" where
  "segment a b l es \<longleftrightarrow> a \<le> b \<and> b \<le> length l \<and> es = take (b - a) (drop a l)"

lemma segment_prefix: "segment a b l es \<Longrightarrow> prefix l l' \<Longrightarrow> segment a b l' es"
  by (auto simp: segment_def prefix_def)

lemma segment_append:
  assumes "segment a b l es" "segment b c l fs"
  shows "segment a c l (es @ fs)"
proof -
  have "take (c - a) (drop a l) = take (b - a) (drop a l) @ take (c - b) (drop b l)"
    using assms take_add [of "b - a" "c - b" "drop a l"] by (simp add: segment_def)
  with assms show ?thesis by (simp add: segment_def)
qed

definition answer_ok :: "(string \<Rightarrow> nat) \<Rightarrow> events_request \<Rightarrow> chain_event list \<Rightarrow> events_response \<Rightarrow> bool" where
  "answer_ok pos q l r \<longleftrightarrow>
     (\<exists>b. segment (request_pos pos q l) b l (or_else (rs_events r) [])
        \<and> (if str_truthy (rs_cursor r) then pos (the (rs_cursor r)) = b \<and> (rs_cursor r = rq_cursor q \<longrightarrow> b = length l)
           else b = length l))"

text \<open>
  What a scan has read when it ends: the pages hold one gapless segment of the posted events, which starts
  no later than ledger \<open>m\<close>, and a complete scan has reached the end of what was posted when it began.
\<close>

definition starts_by :: "int \<Rightarrow> chain_event list \<Rightarrow> chain_event list \<Rightarrow> nat \<Rightarrow> bool" where
  "starts_by m l l' a \<longleftrightarrow> (\<exists>s0 l1. s0 \<le> m \<and> a = first_from s0 l1 \<and> prefix l l1 \<and> prefix l1 l')"

abbreviation page_events :: "ContractEventPage list \<Rightarrow> chain_event list" where
  "page_events ps \<equiv> concat (map pg_events ps)"

definition scan_read :: "int \<Rightarrow> chain_event list \<Rightarrow> chain_event list \<Rightarrow> ContractEventPage list \<Rightarrow> bool" where
  "scan_read m l l' ps \<longleftrightarrow> ps \<noteq> [] \<and> pg_complete (last ps) \<noteq> pg_truncated (last ps)
     \<and> (\<exists>a b. segment a b l' (page_events ps) \<and> starts_by m l l' a \<and> (pg_complete (last ps) \<longrightarrow> length l \<le> b))"

lemma scan_read_subset: "scan_read m l l' ps \<Longrightarrow> set (page_events ps) \<subseteq> set l'"
  unfolding scan_read_def segment_def by (metis dual_order.trans set_drop_subset set_take_subset)

lemma starts_by_prefix: "starts_by m l l' a \<Longrightarrow> prefix l' l'' \<Longrightarrow> starts_by m l l'' a"
  unfolding starts_by_def using prefix_order.trans by blast

lemma first_from_le: "i < first_from s l \<Longrightarrow> ev_ledger (l ! i) < s"
  unfolding first_from_def by (metis nth_mem set_takeWhileD takeWhile_nth)

lemma scan_read_everything:
  assumes "scan_read m l l' ps" "pg_complete (last ps)" "ev \<in> set l" "m \<le> ev_ledger ev"
  shows "ev \<in> set (page_events ps)"
proof -
  obtain a b s0 l1 where seg: "segment a b l' (page_events ps)" "length l \<le> b" "s0 \<le> m" "a = first_from s0 l1" "prefix l l1" "prefix l1 l'"
    using assms(1,2) by (auto simp: scan_read_def starts_by_def)
  obtain i where i: "i < length l" "l ! i = ev" using assms(3) by (auto simp: in_set_conv_nth)
  have same: "l1 ! i = ev" "l' ! i = ev" using i seg(5,6) by (auto simp: prefix_def nth_append)
  have "a \<le> i" using first_from_le [of i s0 l1] same(1) seg(3,4) assms(4) by force
  then have "page_events ps ! (i - a) = ev" "i - a < length (page_events ps)"
    using seg(1,2) i(1) same(2) by (auto simp: segment_def)
  then show ?thesis by (metis nth_mem)
qed

abbreviation grown :: "(event_filter list \<Rightarrow> chain_event list) \<Rightarrow> (event_filter list \<Rightarrow> 'w \<Rightarrow> chain_event list) \<Rightarrow> 'w \<Rightarrow> bool" where
  "grown l posted w \<equiv> \<forall>fs. prefix (l fs) (posted fs w)"

locale event_server =
  fixes rpc :: "'w event_rpc"
    and posted :: "event_filter list \<Rightarrow> 'w \<Rightarrow> chain_event list"
    and pos :: "string \<Rightarrow> nat"
    and oldest :: int
  assumes latest_keeps: "wp (getLatestLedger rpc) (\<lambda>_. grown (\<lambda>fs. posted fs w) posted) (\<lambda>_. grown (\<lambda>fs. posted fs w) posted) w"
    and serves: "wp (getEvents rpc q)
      (\<lambda>r w'. grown (\<lambda>fs. posted fs w) posted w' \<and> answer_ok pos q (posted (rq_filters q) w') r)
      (\<lambda>e w'. grown (\<lambda>fs. posted fs w) posted w' \<and> (\<forall>l. parseOldestLedgerFromRangeError e = Some l \<longrightarrow> l \<le> oldest)) w"
begin

lemma serves_at:
  assumes "grown l posted w"
  shows "wp (getEvents rpc q)
      (\<lambda>r w'. grown l posted w' \<and> answer_ok pos q (posted (rq_filters q) w') r)
      (\<lambda>e w'. grown l posted w' \<and> (\<forall>l. parseOldestLedgerFromRangeError e = Some l \<longrightarrow> l \<le> oldest)) w"
  by (rule wp_mono [OF serves]) (use assms prefix_order.trans in blast)+

lemma fetch_reads:
  assumes "grown l posted w"
  shows "wp (fetch_page rpc opts s)
     (\<lambda>(r, s') w'. grown l posted w' \<and> answer_ok pos (page_request opts s') (posted (po_filters opts) w') r
        \<and> ps_cursor s' = ps_cursor s \<and> ps_prevCursor s' = ps_prevCursor s
        \<and> ps_startLedger s' \<le> max (ps_startLedger s) oldest)
     (\<lambda>_ _. True) w"
proof -
  have filters: "rq_filters (page_request opts s') = po_filters opts" for s' by (simp add: page_request_def)
  have first: "wp (bnd (getEvents rpc (page_request opts s)) (\<lambda>r. ret (r, s)))
      (\<lambda>(r, s') w'. grown l posted w' \<and> answer_ok pos (page_request opts s') (posted (po_filters opts) w') r \<and> s' = s)
      (\<lambda>e w'. grown l posted w' \<and> (\<forall>l. parseOldestLedgerFromRangeError e = Some l \<longrightarrow> l \<le> oldest)) w"
    using serves_at [OF assms, of "page_request opts s"] by (simp add: filters)
  have again: "wp (bnd (getEvents rpc (page_request opts s')) (\<lambda>r. ret (r, s')))
      (\<lambda>(r, s'') w''. grown l posted w'' \<and> answer_ok pos (page_request opts s'') (posted (po_filters opts) w'') r \<and> s'' = s')
      (\<lambda>_ _. True) w'" if "grown l posted w'" for s' w'
    using wp_mono [OF serves_at [OF that, of "page_request opts s'"]] by (simp add: filters)
  show ?thesis
    unfolding fetch_page_def
  proof (rule wp_catchI [OF wp_mono [OF first]])
    fix e w'
    assume e: "grown l posted w' \<and> (\<forall>l. parseOldestLedgerFromRangeError e = Some l \<longrightarrow> l \<le> oldest)"
    show "wp (case parseOldestLedgerFromRangeError e of None \<Rightarrow> throw e | Some oldest \<Rightarrow>
        if str_truthy (ps_cursor s) \<or> oldest \<le> ps_startLedger s then throw e
        else let s' = s\<lparr>ps_startLedger := oldest, ps_covered := max (ps_covered s) oldest\<rparr>
             in bnd (getEvents rpc (page_request opts s')) (\<lambda>r. ret (r, s')))
      (\<lambda>(r, s') w'. grown l posted w' \<and> answer_ok pos (page_request opts s') (posted (po_filters opts) w') r
        \<and> ps_cursor s' = ps_cursor s \<and> ps_prevCursor s' = ps_prevCursor s
        \<and> ps_startLedger s' \<le> max (ps_startLedger s) oldest)
      (\<lambda>_ _. True) w'"
      using e by (auto simp: Let_def simp del: wp_bnd split: option.split intro!: wp_mono [OF again [of w']])
  qed auto
qed

lemma fetch_keeps:
  assumes "\<And>q w. P w \<Longrightarrow> wp (getEvents rpc q) (\<lambda>_. P) (\<lambda>_. P) w" "P w"
  shows "wp (fetch_page rpc opts s) (\<lambda>_. P) (\<lambda>_ _. True) w"
  unfolding fetch_page_def
proof (rule wp_catchI [of _ _ "\<lambda>_. P"])
  show "wp (bnd (getEvents rpc (page_request opts s)) (\<lambda>r. ret (r, s))) (\<lambda>_. P) (\<lambda>_. P) w"
    using assms(1) [OF assms(2)] by simp
qed (auto simp: Let_def split: option.splits intro: wp_mono [OF assms(1)])

lemma step_reads:
  assumes "grown l posted w" "grown (\<lambda>fs. posted fs w) posted w'" "answer_ok pos (page_request opts s) (posted (po_filters opts) w') r"
    and "ps_prevCursor s = ps_cursor s" "if str_truthy (ps_cursor s)
      then (\<exists>a. starts_by m (l (po_filters opts)) (posted (po_filters opts) w) a
        \<and> segment a (pos (the (ps_cursor s))) (posted (po_filters opts) w) (page_events ps))
      else ps = [] \<and> ps_startLedger s \<le> m"
  shows "\<exists>a b. starts_by m (l (po_filters opts)) (posted (po_filters opts) w') a
    \<and> segment a b (posted (po_filters opts) w') (page_events ps @ or_else (rs_events r) [])
    \<and> (if drained s r then length (l (po_filters opts)) \<le> b else pos (the (rs_cursor r)) = b)"
proof -
  let ?fs = "po_filters opts"
  have w': "prefix (l ?fs) (posted ?fs w')" "prefix (posted ?fs w) (posted ?fs w')"
    using assms(1,2) prefix_order.trans by blast+
  obtain b where b: "segment (request_pos pos (page_request opts s) (posted ?fs w')) b (posted ?fs w') (or_else (rs_events r) [])"
    and cursor: "if str_truthy (rs_cursor r) then pos (the (rs_cursor r)) = b \<and>
        (rs_cursor r = rq_cursor (page_request opts s) \<longrightarrow> b = length (posted ?fs w')) else b = length (posted ?fs w')"
    using assms(3) by (auto simp: answer_ok_def)
  have "length (l ?fs) \<le> b" if "drained s r"
    using that cursor assms(4,5) prefix_length_le [OF w'(1)]
    by (auto simp: drained_def page_request_def split: if_splits)
  then have finish: "if drained s r then length (l ?fs) \<le> b else pos (the (rs_cursor r)) = b"
    using cursor by (auto simp: drained_def split: if_splits)
  show ?thesis
  proof (cases "str_truthy (ps_cursor s)")
    case True
    then obtain a where a: "starts_by m (l ?fs) (posted ?fs w) a" "segment a (pos (the (ps_cursor s))) (posted ?fs w) (page_events ps)"
      using assms(5) by auto
    have "request_pos pos (page_request opts s) (posted ?fs w') = pos (the (ps_cursor s))"
      using True by (auto simp: request_pos_def page_request_def str_truthy_iff)
    then show ?thesis
      using segment_append [OF segment_prefix [OF a(2) w'(2)]] b starts_by_prefix [OF a(1) w'(2)] finish by metis
  next
    case False
    then have "request_pos pos (page_request opts s) (posted ?fs w') = first_from (ps_startLedger s) (posted ?fs w')" "ps = []"
      using assms(5) by (simp_all add: request_pos_def page_request_def)
    moreover have "starts_by m (l ?fs) (posted ?fs w') (first_from (ps_startLedger s) (posted ?fs w'))"
      using False assms(5) w'(1) unfolding starts_by_def by auto
    ultimately show ?thesis using b finish
      by (intro exI [of _ "first_from (ps_startLedger s) (posted ?fs w')"] exI [of _ b]) simp
  qed
qed

lemma loop_reads:
  fixes yld :: "ContractEventPage \<Rightarrow> ('w, bool) prog" and I :: "ContractEventPage list \<Rightarrow> 'w \<Rightarrow> bool"
  assumes body: "\<And>ps p w. I ps w \<Longrightarrow> wp (yld p) (\<lambda>go w'. go \<and> I (ps @ [p]) w' \<and> grown (\<lambda>fs. posted fs w) posted w') (\<lambda>_ _. True) w"
    and keeps: "\<And>ps q w. I ps w \<Longrightarrow> wp (getEvents rpc q) (\<lambda>_. I ps) (\<lambda>_. I ps) w"
    and "I ps w" "grown l posted w" "0 < n"
    and "ps_prevCursor s = ps_cursor s" "if str_truthy (ps_cursor s)
      then (\<exists>a. starts_by m (l (po_filters opts)) (posted (po_filters opts) w) a
        \<and> segment a (pos (the (ps_cursor s))) (posted (po_filters opts) w) (page_events ps))
      else ps = [] \<and> max (ps_startLedger s) oldest \<le> m"
  shows "wp (page_loop rpc opts latest n mx s yld)
     (\<lambda>_ w'. \<exists>ps'. I ps' w' \<and> scan_read m (l (po_filters opts)) (posted (po_filters opts) w') ps'
        \<and> (po_throwOnTruncation opts \<longrightarrow> pg_complete (last ps')))
     (\<lambda>_ _. True) w"
  using assms(3-)
proof (induction n arbitrary: s ps w)
  case (Suc n)
  let ?fs = "po_filters opts"
  let ?Q = "\<lambda>_ w'. \<exists>ps'. I ps' w' \<and> scan_read m (l ?fs) (posted ?fs w') ps' \<and> (po_throwOnTruncation opts \<longrightarrow> pg_complete (last ps'))"
  have fetched: "wp (fetch_page rpc opts s)
     (\<lambda>(r, s') w'. (grown (\<lambda>fs. posted fs w) posted w' \<and> answer_ok pos (page_request opts s') (posted ?fs w') r
        \<and> ps_cursor s' = ps_cursor s \<and> ps_prevCursor s' = ps_prevCursor s
        \<and> ps_startLedger s' \<le> max (ps_startLedger s) oldest) \<and> I ps w')
     (\<lambda>_ _. True) w"
    using wp_conj [THEN iffD2, OF conjI [OF fetch_reads [of "\<lambda>fs. posted fs w" w opts s] fetch_keeps [of "I ps" w opts s]]]
      keeps Suc.prems(1) by (simp add: case_prod_unfold)
  have rest: "wp (let page = new_page latest s' r
      in if drained s' r then bnd (yld (page\<lparr>pg_complete := True\<rparr>)) (\<lambda>_. ret ())
         else if n = 0 then (if po_throwOnTruncation opts
           then throw (new_EventTruncationError (po_scope opts) (nat mx) (nat mx) (pg_ledger page) (or_else (rs_cursor r) []))
           else bnd (yld (page\<lparr>pg_truncated := True, pg_continuationCursor := rs_cursor r\<rparr>)) (\<lambda>_. ret ()))
         else bnd (yld page) (\<lambda>go. if go then page_loop rpc opts latest n mx (advance s' r) yld else ret ())) ?Q (\<lambda>_ _. True) w'"
    if x: "grown (\<lambda>fs. posted fs w) posted w'" "answer_ok pos (page_request opts s') (posted ?fs w') r"
      "ps_cursor s' = ps_cursor s" "ps_prevCursor s' = ps_prevCursor s" "ps_startLedger s' \<le> max (ps_startLedger s) oldest" "I ps w'"
    for r s' w'
  proof -
    obtain a b where ab: "starts_by m (l ?fs) (posted ?fs w') a" "segment a b (posted ?fs w') (page_events ps @ or_else (rs_events r) [])"
      "if drained s' r then length (l ?fs) \<le> b else pos (the (rs_cursor r)) = b"
      using step_reads [OF Suc.prems(2) x(1,2), where m = m and ps = ps] Suc.prems(4,5) x(3-5) by (auto split: if_splits)
    define p where "p = new_page latest s' r"
    have p: "pg_events p = or_else (rs_events r) []" "\<not> pg_complete p" "\<not> pg_truncated p"
      by (simp_all add: p_def new_page_def Let_def)
    have l': "grown l posted w''" if "grown (\<lambda>fs. posted fs w') posted w''" for w''
      using Suc.prems(2) x(1) that prefix_order.trans by blast
    have last: "wp (yld p') (\<lambda>_. ?Q ()) (\<lambda>_ _. True) w'"
      if "pg_events p' = pg_events p" "pg_complete p' \<noteq> pg_truncated p'" "pg_complete p' \<longrightarrow> drained s' r"
        "po_throwOnTruncation opts \<longrightarrow> pg_complete p'" for p'
    proof (rule wp_mono [OF body [OF x(6)]])
      fix go w''
      assume w'': "go \<and> I (ps @ [p']) w'' \<and> grown (\<lambda>fs. posted fs w') posted w''"
      then have pre: "prefix (posted ?fs w') (posted ?fs w'')" by blast
      have "scan_read m (l ?fs) (posted ?fs w'') (ps @ [p'])"
        using that p(1) ab(3) starts_by_prefix [OF ab(1) pre] segment_prefix [OF ab(2) pre]
        unfolding scan_read_def by (intro conjI exI [of _ a] exI [of _ b]) auto
      then show "?Q () w''" using w'' that(4) by (intro exI [of _ "ps @ [p']"]) simp
    qed simp
    have go: "wp (yld p) (\<lambda>go. wp (if go then page_loop rpc opts latest n mx (advance s' r) yld else ret ()) ?Q (\<lambda>_ _. True)) (\<lambda>_ _. True) w'"
      if "\<not> drained s' r" "0 < n"
    proof (rule wp_mono [OF body [OF x(6)]])
      fix go w''
      assume w'': "go \<and> I (ps @ [p]) w'' \<and> grown (\<lambda>fs. posted fs w') posted w''"
      then have pre: "prefix (posted ?fs w') (posted ?fs w'')" by blast
      have more: "str_truthy (rs_cursor r)" "pos (the (rs_cursor r)) = b" using that(1) ab(3) by (simp_all add: drained_def)
      have "\<exists>a. starts_by m (l ?fs) (posted ?fs w'') a \<and> segment a (pos (the (rs_cursor r))) (posted ?fs w'') (page_events (ps @ [p]))"
        using starts_by_prefix [OF ab(1) pre] segment_prefix [OF ab(2) pre] more(2) p(1) by auto
      then have "wp (page_loop rpc opts latest n mx (advance s' r) yld) ?Q (\<lambda>_ _. True) w''"
        using Suc.IH [of "ps @ [p]" w'' "advance s' r"] w'' l' that more(1) by (simp add: advance_def)
      with w'' show "wp (if go then page_loop rpc opts latest n mx (advance s' r) yld else ret ()) ?Q (\<lambda>_ _. True) w''" by simp
    qed simp
    show ?thesis
      unfolding Let_def p_def [symmetric]
      using last [of "p\<lparr>pg_complete := True\<rparr>"] last [of "p\<lparr>pg_truncated := True, pg_continuationCursor := rs_cursor r\<rparr>"] go p
      by (cases "drained s' r"; cases "n = 0"; cases "po_throwOnTruncation opts") simp_all
  qed
  show ?case
    unfolding page_loop.simps
    by (rule wp_bndI [OF fetched]) (use rest in auto)
qed simp

lemma paginate_reads:
  fixes yld :: "ContractEventPage \<Rightarrow> ('w, bool) prog" and I :: "ContractEventPage list \<Rightarrow> 'w \<Rightarrow> bool"
  assumes body: "\<And>ps p w. I ps w \<Longrightarrow> wp (yld p) (\<lambda>go w'. go \<and> I (ps @ [p]) w' \<and> grown (\<lambda>fs. posted fs w) posted w') (\<lambda>_ _. True) w"
    and keeps: "\<And>ps q w. I ps w \<Longrightarrow> wp (getEvents rpc q) (\<lambda>_. I ps) (\<lambda>_. I ps) w"
    and keeps_latest: "\<And>ps w. I ps w \<Longrightarrow> wp (getLatestLedger rpc) (\<lambda>_. I ps) (\<lambda>_. I ps) w"
    and "I [] w" "grown l posted w" "po_startLedger opts = Some start" "0 < start" "max start oldest \<le> m"
  shows "wp (paginateContractEvents rpc opts yld)
     (\<lambda>_ w'. \<exists>ps. I ps w' \<and> scan_read m (l (po_filters opts)) (posted (po_filters opts) w') ps
        \<and> (po_throwOnTruncation opts \<longrightarrow> pg_complete (last ps)))
     (\<lambda>_ _. True) w"
  unfolding paginateContractEvents_def
proof (rule wp_bndI)
  have "grown l posted w'" if "grown (\<lambda>fs. posted fs w) posted w'" for w'
    using assms(5) that prefix_order.trans by blast
  then show "wp (getLatestLedger rpc) (\<lambda>_ w'. grown l posted w' \<and> I [] w') (\<lambda>_ _. True) w"
    using wp_mono [OF wp_conj [THEN iffD2, OF conjI [OF latest_keeps [of w] keeps_latest [OF assms(4)]]]] by simp
  have "start_ledger opts latest = start" for latest using assms(6,7) by (simp add: start_ledger_def)
  then show "wp (let startLedger = start_ledger opts latest
      in page_loop rpc opts latest (nat (max_pages opts)) (max_pages opts)
          \<lparr>ps_startLedger = startLedger, ps_cursor = None, ps_prevCursor = None, ps_covered = startLedger\<rparr> yld)
     (\<lambda>_ w'. \<exists>ps. I ps w' \<and> scan_read m (l (po_filters opts)) (posted (po_filters opts) w') ps
        \<and> (po_throwOnTruncation opts \<longrightarrow> pg_complete (last ps)))
     (\<lambda>_ _. True) w'" if "grown l posted w' \<and> I [] w'" for latest w'
    using loop_reads [of I yld "[]" w' l "nat (max_pages opts)"
        "\<lparr>ps_startLedger = start, ps_cursor = None, ps_prevCursor = None, ps_covered = start\<rparr>" m opts latest "max_pages opts"]
      body keeps that assms(8) max_pages_pos by (simp add: str_truthy_def)
qed

text \<open>The same server seen from a program that carries variables of its own beside the world.\<close>

lemma lift_server: "event_server (lift_rpc rpc) (\<lambda>fs. posted fs \<circ> snd) pos oldest"
proof
  show "wp (getLatestLedger (lift_rpc rpc)) (\<lambda>_. grown (\<lambda>fs. (posted fs \<circ> snd) w) (\<lambda>fs. posted fs \<circ> snd))
      (\<lambda>_. grown (\<lambda>fs. (posted fs \<circ> snd) w) (\<lambda>fs. posted fs \<circ> snd)) w" for w :: "'z \<times> 'w"
    using latest_keeps [of "snd w"] by (simp add: lift_rpc_def)
  show "wp (getEvents (lift_rpc rpc) q)
      (\<lambda>r w'. grown (\<lambda>fs. (posted fs \<circ> snd) w) (\<lambda>fs. posted fs \<circ> snd) w' \<and> answer_ok pos q ((posted (rq_filters q) \<circ> snd) w') r)
      (\<lambda>e w'. grown (\<lambda>fs. (posted fs \<circ> snd) w) (\<lambda>fs. posted fs \<circ> snd) w' \<and>
        (\<forall>l. parseOldestLedgerFromRangeError e = Some l \<longrightarrow> l \<le> oldest)) w" for q and w :: "'z \<times> 'w"
    using serves [of q "snd w"] by (simp add: lift_rpc_def)
qed

end


section \<open>A server that keeps the laws\<close>

text \<open>
  The events of each filter are a list that is the world; a cursor is the decimal position behind the page;
  a page holds at most \<open>Suc k\<close> events, and never more than the request's limit unless that is zero. A
  cursor behind the end is refused.
\<close>

definition log_rpc :: "nat \<Rightarrow> int \<Rightarrow> (event_filter list \<Rightarrow> chain_event list) event_rpc" where
  "log_rpc k latest =
     \<lparr>getEvents = (\<lambda>q w.
        let l = w (rq_filters q);
            a = request_pos nat_of_dec q l;
            b = min (length l) (a + min (Suc k) (max 1 (rq_limit q)))
        in if length l < a then (Inl (Error ''cursor is out of range''), w)
           else (Inr \<lparr>rs_events = Some (take (b - a) (drop a l)), rs_latestLedger = Some latest, rs_cursor = Some (dec_of_nat b)\<rparr>, w)),
      getLatestLedger = ret latest\<rparr>"

lemma out_of_range_no_hint: "parseOldestLedgerFromRangeError (Error ''cursor is out of range'') = None"
  by (simp add: parseOldestLedgerFromRangeError_def range_here_def)

interpretation log_server: event_server "log_rpc k latest" "\<lambda>fs w. w fs" nat_of_dec 0 for k latest
proof
  fix q :: events_request and w :: "event_filter list \<Rightarrow> chain_event list"
  show "wp (getLatestLedger (log_rpc k latest)) (\<lambda>_. grown (\<lambda>fs. w fs) (\<lambda>fs w. w fs)) (\<lambda>_. grown (\<lambda>fs. w fs) (\<lambda>fs w. w fs)) w"
    by (simp add: log_rpc_def)
  define l where "l = w (rq_filters q)"
  define a where "a = request_pos nat_of_dec q l"
  define b where "b = min (length l) (a + min (Suc k) (max 1 (rq_limit q)))"
  have "answer_ok nat_of_dec q l \<lparr>rs_events = Some (take (b - a) (drop a l)), rs_latestLedger = Some latest, rs_cursor = Some (dec_of_nat b)\<rparr>"
    if "a \<le> length l"
  proof -
    have "segment a b l (take (b - a) (drop a l))" using that by (auto simp: segment_def b_def)
    moreover have "b = length l" if "Some (dec_of_nat b) = rq_cursor q"
    proof -
      have "a = b" using that [symmetric] by (simp add: a_def request_pos_def)
      then show ?thesis using \<open>a \<le> length l\<close> by (simp add: b_def min_def split: if_splits)
    qed
    ultimately show ?thesis
      unfolding answer_ok_def a_def [symmetric] by (intro exI [of _ b]) (auto simp: str_truthy_def or_else_def)
  qed
  moreover have "getEvents (log_rpc k latest) q w = (if length l < a then (Inl (Error ''cursor is out of range''), w)
      else (Inr \<lparr>rs_events = Some (take (b - a) (drop a l)), rs_latestLedger = Some latest, rs_cursor = Some (dec_of_nat b)\<rparr>, w))"
    by (simp add: log_rpc_def Let_def l_def a_def b_def)
  ultimately show "wp (getEvents (log_rpc k latest) q)
      (\<lambda>r w'. grown (\<lambda>fs. w fs) (\<lambda>fs w. w fs) w' \<and> answer_ok nat_of_dec q (w' (rq_filters q)) r)
      (\<lambda>e w'. grown (\<lambda>fs. w fs) (\<lambda>fs w. w fs) w' \<and> (\<forall>l. parseOldestLedgerFromRangeError e = Some l \<longrightarrow> l \<le> 0)) w"
    using out_of_range_no_hint by (cases "a \<le> length l") (simp_all add: wp_def l_def)
qed

end
