(* ===== verification/Sdk_Stealth_Props.thy ===== *)
theory Sdk_Stealth_Props
  imports Sdk_Stealth
begin

text \<open>
  Payments to stealth addresses reach their recipient. The laws of the curve library are the predicate
  \<open>curve_ok\<close>: \<open>mG a\<close> is the multiple \<open>a\<close> of the base point, multiplication and
  addition follow the exponents, points other than infinity have an encoding that decodes again, every
  decoded point is such a multiple (the group has prime order), and a public key is the multiple by the
  private key.
\<close>

abbreviation scalar :: "('p, 'k) curve_lib \<Rightarrow> int \<Rightarrow> bool" where
  "scalar L a \<equiv> 0 < a \<and> a < ec_n L"

definition key_ok :: "('p, 'k) curve_lib \<Rightarrow> byte list \<Rightarrow> bool" where
  "key_ok L k \<longleftrightarrow> length k = 32 \<and> scalar L (bytesToBigInt k)"

definition curve_ok :: "('p, 'k) curve_lib \<Rightarrow> (int \<Rightarrow> 'p) \<Rightarrow> bool" where
  "curve_ok L mG \<longleftrightarrow>
     1 < ec_n L \<and> ec_n L < 2 ^ 256 \<and> ec_base L = mG 1
     \<and> (\<forall>a b. scalar L a \<and> scalar L b \<longrightarrow> scalar L (a * b mod ec_n L) \<and> ec_multiply L a (mG b) = Inr (mG (a * b mod ec_n L)))
     \<and> (\<forall>a b. scalar L a \<and> scalar L b \<longrightarrow>
          (if (a + b) mod ec_n L = 0 then \<exists>e. ec_toRawBytes L False (ec_add L (mG a) (mG b)) = Inl e
           else ec_add L (mG a) (mG b) = mG ((a + b) mod ec_n L)))
     \<and> (\<forall>a c. scalar L a \<longrightarrow> (\<exists>bs. ec_toRawBytes L c (mG a) = Inr bs \<and> length bs = (if c then 33 else 65)
          \<and> ec_fromHex L bs = Inr (mG a)))
     \<and> (\<forall>bs P. ec_fromHex L bs = Inr P \<longrightarrow> (\<exists>a. scalar L a \<and> P = mG a))
     \<and> (\<forall>k c. if key_ok L k then ec_getPublicKey L k c = ec_toRawBytes L c (mG (bytesToBigInt k))
          else \<exists>e. ec_getPublicKey L k c = Inl e)
     \<and> (\<forall>bs. length (ec_keccak L bs) = 32)"

lemma curve_okD:
  assumes "curve_ok L mG"
  shows curve_n: "1 < ec_n L" "ec_n L < 2 ^ 256" and curve_base: "ec_base L = mG 1"
    and curve_mult: "scalar L a \<Longrightarrow> scalar L b \<Longrightarrow> ec_multiply L a (mG b) = Inr (mG (a * b mod ec_n L))"
    and curve_prod: "scalar L a \<Longrightarrow> scalar L b \<Longrightarrow> scalar L (a * b mod ec_n L)"
    and curve_add: "scalar L a \<Longrightarrow> scalar L b \<Longrightarrow> (a + b) mod ec_n L \<noteq> 0 \<Longrightarrow> ec_add L (mG a) (mG b) = mG ((a + b) mod ec_n L)"
    and curve_infinity: "scalar L a \<Longrightarrow> scalar L b \<Longrightarrow> (a + b) mod ec_n L = 0 \<Longrightarrow>
      \<exists>e. ec_toRawBytes L False (ec_add L (mG a) (mG b)) = Inl e"
    and curve_raw: "scalar L a \<Longrightarrow> \<exists>bs. ec_toRawBytes L c (mG a) = Inr bs \<and> length bs = (if c then 33 else 65) \<and> ec_fromHex L bs = Inr (mG a)"
    and curve_point: "ec_fromHex L bs = Inr P \<Longrightarrow> \<exists>a. scalar L a \<and> P = mG a"
    and curve_public: "key_ok L k \<Longrightarrow> ec_getPublicKey L k c = ec_toRawBytes L c (mG (bytesToBigInt k))"
    and curve_no_key: "\<not> key_ok L k \<Longrightarrow> \<exists>e. ec_getPublicKey L k c = Inl e"
    and curve_keccak: "length (ec_keccak L bs) = 32"
  using assms unfolding curve_ok_def by meson+


section \<open>Hex strings of bytes\<close>

lemma nat_of_hex_bytes: "int (nat_of_hex (hex_of_bytes b)) = bytesToBigInt b"
proof (induction b rule: rev_induct)
  case Nil
  then show ?case by (simp add: hex_of_bytes_def nat_of_hex_def nat_of_digits_def bytesToBigInt_def)
next
  case (snoc x b)
  have "hex_of_bytes (b @ [x]) = (hex_of_bytes b @ [hex_char (unat x div 16)]) @ [hex_char (unat x mod 16)]"
    by (simp add: hex_of_bytes_def hex2_def)
  then have "nat_of_hex (hex_of_bytes (b @ [x])) = 16 * (16 * nat_of_hex (hex_of_bytes b) + unat x div 16) + unat x mod 16"
    by (simp only: nat_of_hex_snoc) simp
  also have "\<dots> = 256 * nat_of_hex (hex_of_bytes b) + unat x"
  proof -
    have "16 * (16 * m + q) + r = 256 * m + u" if "16 * q + r = u" for m q r u :: nat using that by simp
    then show ?thesis using mult_div_mod_eq by blast
  qed
  finally have "int (nat_of_hex (hex_of_bytes (b @ [x]))) = 256 * int (nat_of_hex (hex_of_bytes b)) + uint x"
    by simp
  then show ?case using snoc by (simp add: bytesToBigInt_snoc)
qed

lemma hex_of_bytes_hex: "list_all is_hex (hex_of_bytes b)" "length (hex_of_bytes b) = 2 * length b"
  by (induction b) (simp_all add: hex_of_bytes_def hex2_def)

lemma BigInt_hex_of_bytes: "b \<noteq> [] \<Longrightarrow> js_BigInt_str (''0x'' @ hex_of_bytes b) = Inr (bytesToBigInt b)"
  using js_BigInt_str_hex [of "hex_of_bytes b"] hex_of_bytes_hex [of b] nat_of_hex_bytes [of b]
  by (cases "hex_of_bytes b") auto

lemma lower_hex_of_bytes [simp]: "to_lower (hex_of_bytes b) = hex_of_bytes b"
  unfolding hex_of_bytes_def by (rule to_lower_hex2s)

lemma strip_hex_of_bytes: "strip_0x (hex_of_bytes b) = hex_of_bytes b"
proof -
  have "\<not> is_hex CHR ''x''" by (simp add: is_hex_def is_digit_def)
  then show ?thesis
    using hex_of_bytes_hex(1) [of b] by (cases "hex_of_bytes b" rule: strip_0x.cases) auto
qed

lemma bytes_of_hex_of_bytes: "bytes_of_hex (hex_of_bytes b) = Inr b"
  using hex_of_bytes_hex [of b] hex_pairs_concat [of b]
  by (simp add: bytes_of_hex_def strip_hex_of_bytes) (simp add: hex_of_bytes_def)

lemma bytes_of_prefixed_hex: "bytes_of_hex (strip_0x (''0x'' @ hex_of_bytes b)) = Inr b"
  by (simp add: bytes_of_hex_of_bytes)


section \<open>Both sides compute the same secret\<close>

lemma key_mod: "key_ok L k \<Longrightarrow> bytesToBigInt k mod ec_n L = bytesToBigInt k"
  by (simp add: key_ok_def)

lemma shared_secret:
  assumes "curve_ok L mG" "key_ok L k" "ec_fromHex L bs = Inr (mG a)" "scalar L a"
  shows "sharedSecretFromScalarAndPoint L k bs = ec_toRawBytes L True (mG (bytesToBigInt k * a mod ec_n L))"
  using assms curve_mult [OF assms(1), of "bytesToBigInt k" a] key_mod [OF assms(2)]
  by (simp add: sharedSecretFromScalarAndPoint_def key_ok_def)

lemma public_point:
  assumes "curve_ok L mG" "key_ok L k"
  shows "\<exists>bs. ec_getPublicKey L k c = Inr bs \<and> length bs = (if c then 33 else 65) \<and> ec_fromHex L bs = Inr (mG (bytesToBigInt k))"
  using assms curve_raw [OF assms(1), of "bytesToBigInt k" c] curve_public [OF assms(1,2)]
  by (simp add: key_ok_def)

lemma stealth_key:
  assumes ok: "curve_ok L mG" and s: "key_ok L s" and h: "h = bytesToBigInt sH mod ec_n L" "h \<noteq> 0"
    and S: "ec_fromHex L S = Inr (mG (bytesToBigInt s))"
  defines "d \<equiv> (bytesToBigInt s + h) mod ec_n L"
  shows "if d = 0 then \<exists>e. stealthPointAndAddress L S sH = Inl e
    else key_ok L (bigIntToBytes32 d)
      \<and> (\<exists>bs. ec_getPublicKey L (bigIntToBytes32 d) False = Inr bs \<and> stealthPointAndAddress L S sH = Inr (stealth_id L bs, bs))"
proof -
  note n = curve_n [OF ok]
  have h_scalar: "scalar L h"
    using h n(1) pos_mod_bound [of "ec_n L" "bytesToBigInt sH"] pos_mod_sign [of "ec_n L" "bytesToBigInt sH"] by linarith
  have "scalar L 1" using n(1) by simp
  then have base: "ec_multiply L h (ec_base L) = Inr (mG h)"
    using curve_mult [OF ok h_scalar, of 1] curve_base [OF ok] h_scalar by simp
  have s_scalar: "scalar L (bytesToBigInt s)" using s by (simp add: key_ok_def)
  have point: "stealthPointAndAddress L S sH =
      res_bind (ec_toRawBytes L False (ec_add L (mG (bytesToBigInt s)) (mG h))) (\<lambda>u. Inr (stealth_id L u, u))"
    using h base S by (simp add: stealthPointAndAddress_def Let_def)
  show ?thesis
  proof (cases "d = 0")
    case True
    then show ?thesis
      using curve_infinity [OF ok s_scalar h_scalar] point by (auto simp: d_def)
  next
    case False
    then have d: "scalar L d"
      using n(1) pos_mod_bound [of "ec_n L"] pos_mod_sign [of "ec_n L"] unfolding d_def by (smt (verit))
    then have "d < 2 ^ 256" using n(2) by linarith
    then have restored: "bytesToBigInt (bigIntToBytes32 d) = d"
      using d by (simp add: bigIntToBytes32_def bytesToBigInt_beBytes)
    then have key: "key_ok L (bigIntToBytes32 d)"
      using d by (simp add: key_ok_def bigIntToBytes32_def)
    obtain bs where bs: "ec_getPublicKey L (bigIntToBytes32 d) False = Inr bs" "ec_toRawBytes L False (mG d) = Inr bs"
      using public_point [OF ok key, of False] curve_public [OF ok key] restored by auto
    have "ec_add L (mG (bytesToBigInt s)) (mG h) = mG d"
      using curve_add [OF ok s_scalar h_scalar] False by (simp add: d_def)
    with bs point key False show ?thesis by simp
  qed
qed

text \<open>
  What both scanners compute for an announcement whose ephemeral key is the point \<open>mG a\<close>: the
  shared secret, its hash, and the one-time private key as a number.
\<close>

definition secret_of :: "('p, 'k) curve_lib \<Rightarrow> (int \<Rightarrow> 'p) \<Rightarrow> byte list \<Rightarrow> int \<Rightarrow> byte list" where
  "secret_of L mG v a = (case ec_toRawBytes L True (mG (bytesToBigInt v * a mod ec_n L)) of Inr bs \<Rightarrow> bs | Inl _ \<Rightarrow> [])"

definition one_time :: "('p, 'k) curve_lib \<Rightarrow> byte list \<Rightarrow> byte list \<Rightarrow> int" where
  "one_time L s sH = (bytesToBigInt s + bytesToBigInt sH mod ec_n L) mod ec_n L"

lemma shared_secret_of:
  assumes "curve_ok L mG" "key_ok L k" "ec_fromHex L bs = Inr (mG a)" "scalar L a"
  shows "sharedSecretFromScalarAndPoint L k bs = Inr (secret_of L mG k a)"
  unfolding shared_secret [OF assms] secret_of_def
  using curve_raw [OF assms(1) curve_prod [OF assms(1)], of "bytesToBigInt k" a True] assms(2,4) by (auto simp: key_ok_def)

lemma tag_check:
  assumes "curve_ok L mG" "key_ok L v" "ec_fromHex L E = Inr (mG a)" "scalar L a"
  shows "checkViewTagMatch L v E tag = Inr (unat (ec_keccak L (secret_of L mG v a) ! 0) = tag)"
  by (simp add: checkViewTagMatch_def recipientSharedSecretHash_def shared_secret_of [OF assms] hashSharedSecret_def Let_def)

lemma one_time_key:
  assumes ok: "curve_ok L mG" and s: "key_ok L s" and "one_time L s sH \<noteq> 0"
  shows "key_ok L (bigIntToBytes32 (one_time L s sH))"
    and "\<exists>bs. ec_getPublicKey L (bigIntToBytes32 (one_time L s sH)) False = Inr bs"
proof -
  note n = curve_n [OF ok]
  have d: "scalar L (one_time L s sH)"
    using assms(3) n(1) pos_mod_bound [of "ec_n L"] pos_mod_sign [of "ec_n L"] unfolding one_time_def by (smt (verit))
  then have "one_time L s sH < 2 ^ 256" using n(2) by linarith
  with d show key: "key_ok L (bigIntToBytes32 (one_time L s sH))"
    by (simp add: key_ok_def bigIntToBytes32_def bytesToBigInt_beBytes)
  from public_point [OF ok this, of False]
  show "\<exists>bs. ec_getPublicKey L (bigIntToBytes32 (one_time L s sH)) False = Inr bs" by blast
qed

lemma scan_one_eq:
  assumes ok: "curve_ok L mG" and v: "key_ok L v" and s: "key_ok L s"
    and E: "ec_fromHex L (an_ephemeralPubKey x) = Inr (mG a)" "scalar L a"
  defines "sH \<equiv> ec_keccak L (secret_of L mG v a)"
  shows "scan_one L v s x =
    (if unat (sH ! 0) \<noteq> an_viewTag x then Inr None
     else if one_time L s sH = 0 then Inl (Error ''Reconstructed stealth key is zero'')
     else res_bind (ec_getPublicKey L (bigIntToBytes32 (one_time L s sH)) False) (\<lambda>bs.
       if to_lower (stealth_id L bs) \<noteq> to_lower (an_stealthAddress x) then Inr None
       else Inr (Some \<lparr>sm_announcement = x, sm_stealthPrivKey = bigIntToBytes32 (one_time L s sH),
              sm_stealthStellarAddress = deriveStealthStellarAddress L bs\<rparr>)))"
proof -
  have "reconstructStealthPrivateKey L v s (an_ephemeralPubKey x) =
      (if one_time L s sH = 0 then Inl (Error ''Reconstructed stealth key is zero'') else Inr (bigIntToBytes32 (one_time L s sH)))"
    using key_mod [OF s]
    by (simp add: reconstructStealthPrivateKey_def recipientSharedSecretHash_def shared_secret_of [OF ok v E] hashSharedSecret_def
        Let_def one_time_def sH_def)
  then show ?thesis
    using one_time_key [OF ok s, of sH]
    by (auto simp: scan_one_def tag_check [OF ok v E] sH_def stealthIdFromPrivateKey_def
        deriveStealthStellarAddressFromStealthPrivKey_def)
qed

lemma view_one_eq:
  assumes ok: "curve_ok L mG" and v: "key_ok L v" and s: "key_ok L s"
    and E: "ec_fromHex L (an_ephemeralPubKey x) = Inr (mG a)" "scalar L a"
    and S: "ec_fromHex L S = Inr (mG (bytesToBigInt s))"
  defines "sH \<equiv> ec_keccak L (secret_of L mG v a)"
  shows "view_one L v S x =
    (if unat (sH ! 0) \<noteq> an_viewTag x then Inr None
     else if bytesToBigInt sH mod ec_n L = 0 then Inl (Error ''Invalid hash scalar'')
     else res_bind (stealthPointAndAddress L S sH) (\<lambda>(sid, _).
       if to_lower sid \<noteq> to_lower (an_stealthAddress x) then Inr None
       else Inr (Some \<lparr>vm_announcement = x, vm_derivedStealthAddress = sid\<rparr>)))"
proof -
  have "v \<noteq> []" using v by (auto simp: key_ok_def)
  moreover have "sH \<noteq> []" using curve_keccak [OF ok, of "secret_of L mG v a"] by (auto simp: sH_def)
  ultimately have big: "js_BigInt_str (''0x'' @ hex_of_bytes v) = Inr (bytesToBigInt v)"
    "js_BigInt_str (''0x'' @ hex_of_bytes sH) = Inr (bytesToBigInt sH)"
    using BigInt_hex_of_bytes by blast+
  have mult: "ec_multiply L (bytesToBigInt v) (mG a) = Inr (mG (bytesToBigInt v * a mod ec_n L))"
    using curve_mult [OF ok] v E(2) by (simp add: key_ok_def)
  have raw: "ec_toRawBytes L True (mG (bytesToBigInt v * a mod ec_n L)) = Inr (secret_of L mG v a)"
    using shared_secret_of [OF ok v E] by (simp add: shared_secret [OF ok v E])
  have "deriveStealthAddressViewOnly L v S (an_ephemeralPubKey x) =
      (if bytesToBigInt sH mod ec_n L = 0 then Inl (Error ''Invalid hash scalar'')
       else res_bind (stealthPointAndAddress L S sH) (\<lambda>(sid, _). Inr sid))"
    using key_mod [OF v] v
    by (simp add: deriveStealthAddressViewOnly_def E(1) big [simplified] mult raw key_ok_def stealthPointAndAddress_def Let_def
        res_bind_assoc flip: sH_def)
  then show ?thesis
    unfolding view_one_def tag_check [OF ok v E] sH_def [symmetric]
    by (cases "stealthPointAndAddress L S sH") (auto split: prod.splits)
qed


section \<open>Finding payments\<close>

lemma set_somes: "set (somes xs) = {y. Some y \<in> set xs}"
  by (induction xs) (auto simp: somes_def split: option.splits)

lemma scan_finds:
  assumes "scanAnnouncements L anns v s = Inr ms" "x \<in> set anns" "scan_one L v s x = Inr (Some m)"
  shows "m \<in> set ms"
proof -
  obtain ys where ys: "list_all2 (\<lambda>x y. scan_one L v s x = Inr y) anns ys" "ms = somes ys"
    using assms(1) by (auto simp: scanAnnouncements_def res_bind_eq_Inr res_map_Inr_iff)
  obtain i where i: "i < length anns" "anns ! i = x"
    using assms(2) by (auto simp: in_set_conv_nth)
  then have "scan_one L v s x = Inr (ys ! i)" "i < length ys"
    using list_all2_nthD [OF ys(1) i(1)] list_all2_lengthD [OF ys(1)] by simp_all
  with assms(3) have "Some m = ys ! i" "i < length ys" by simp_all
  then have "Some m \<in> set ys" by (simp add: nth_mem)
  then show ?thesis by (simp add: ys(2) set_somes)
qed

definition announcement_of :: "StealthSend \<Rightarrow> StealthAnnouncement" where
  "announcement_of out = \<lparr>an_stealthAddress = ss_stealthAddress out, an_ephemeralPubKey = ss_ephemeralPubKey out,
     an_viewTag = ss_viewTag out\<rparr>"

lemma sent_is_found:
  assumes ok: "curve_ok L mG" and v: "key_ok L v" and s: "key_ok L s"
    and meta: "keysToStealthMetaAddress L v s = Inr (V, S, meta)"
    and sent: "computeStealthAddressAndViewTag L r (stealthMetaAddressToHex meta) = Inr out"
  shows "\<exists>m. scan_one L v s (announcement_of out) = Inr (Some m) \<and> sm_announcement m = announcement_of out
    \<and> stealthIdFromPrivateKey L (sm_stealthPrivKey m) = Inr (ss_stealthAddress out)
    \<and> sm_stealthStellarAddress m = ss_stealthStellarAddress out"
proof -
  have pub: "ec_getPublicKey L v True = Inr V" "ec_getPublicKey L s True = Inr S" "meta = V @ S"
    using meta by (auto simp: keysToStealthMetaAddress_def res_bind_eq_Inr)
  have V: "length V = 33" "ec_fromHex L V = Inr (mG (bytesToBigInt v))"
    and S: "length S = 33" "ec_fromHex L S = Inr (mG (bytesToBigInt s))"
    using public_point [OF ok v, of True] public_point [OF ok s, of True] pub by auto
  have parsed: "parseStealthMetaAddress (stealthMetaAddressToHex meta) = Inr (V, S)"
    unfolding parseStealthMetaAddress_def stealthMetaAddressToHex_def bytes_of_prefixed_hex
    by (simp add: pub(3) V(1) S(1))
  obtain R where R: "ec_getPublicKey L r True = Inr R" "ss_ephemeralPubKey out = R"
    using sent by (auto simp: computeStealthAddressAndViewTag_def parsed res_bind_eq_Inr hashSharedSecret_def Let_def)
  have r: "key_ok L r" using curve_no_key [OF ok, of r True] R(1) by auto
  then have rpoint: "ec_fromHex L R = Inr (mG (bytesToBigInt r))" "scalar L (bytesToBigInt r)"
    using public_point [OF ok r, of True] R(1) by (auto simp: key_ok_def)
  have vscalar: "scalar L (bytesToBigInt v)" using v by (simp add: key_ok_def)
  define sH where "sH = ec_keccak L (secret_of L mG v (bytesToBigInt r))"
  have same: "secret_of L mG r (bytesToBigInt v) = secret_of L mG v (bytesToBigInt r)"
    by (simp add: secret_of_def mult.commute)
  obtain sid u where u: "stealthPointAndAddress L S sH = Inr (sid, u)" "ss_stealthAddress out = sid"
    "ss_stealthStellarAddress out = deriveStealthStellarAddress L u" "ss_viewTag out = unat (sH ! 0)"
    using sent shared_secret_of [OF ok r V(2) vscalar]
    by (auto simp: computeStealthAddressAndViewTag_def parsed res_bind_eq_Inr R hashSharedSecret_def Let_def same sH_def)
  then have h: "bytesToBigInt sH mod ec_n L \<noteq> 0" by (auto simp: stealthPointAndAddress_def Let_def)
  have d: "one_time L s sH \<noteq> 0" "ec_getPublicKey L (bigIntToBytes32 (one_time L s sH)) False = Inr u" "sid = stealth_id L u"
    using stealth_key [OF ok s refl h S(2)] u(1) unfolding one_time_def by (auto split: if_splits)
  then show ?thesis
    using scan_one_eq [OF ok v s, of "announcement_of out" "bytesToBigInt r"] rpoint R(2) u
    by (simp add: announcement_of_def stealthIdFromPrivateKey_def flip: sH_def)
qed

text \<open>
  C30: a payment to a stealth address reaches its recipient. Whenever a sender derives a one-time address
  from the meta-address of a recipient's keys, the recipient's scan of the announcement yields exactly one
  match: its reconstructed private key has the announced stealth id and its Stellar account is the one the
  sender paid. In any list of announcements that the scan gets through, that payment is among the matches;
  and every match of a scan is an announcement of the list whose stealth id the reconstructed key controls.
\<close>

theorem stealth_payment_reaches_recipient:
  assumes "curve_ok L mG" "key_ok L v" "key_ok L s"
    and "keysToStealthMetaAddress L v s = Inr (V, S, meta)"
    and "computeStealthAddressAndViewTag L r (stealthMetaAddressToHex meta) = Inr out"
  shows "\<exists>m. scanAnnouncements L [announcement_of out] v s = Inr [m]
    \<and> stealthIdFromPrivateKey L (sm_stealthPrivKey m) = Inr (ss_stealthAddress out)
    \<and> sm_stealthStellarAddress m = ss_stealthStellarAddress out
    \<and> (\<forall>anns ms. scanAnnouncements L anns v s = Inr ms \<longrightarrow>
         (announcement_of out \<in> set anns \<longrightarrow> m \<in> set ms)
         \<and> (\<forall>m' \<in> set ms. sm_announcement m' \<in> set anns
              \<and> (\<exists>sid. stealthIdFromPrivateKey L (sm_stealthPrivKey m') = Inr sid
                   \<and> to_lower sid = to_lower (an_stealthAddress (sm_announcement m')))))"
proof -
  obtain m where m: "scan_one L v s (announcement_of out) = Inr (Some m)"
    "stealthIdFromPrivateKey L (sm_stealthPrivKey m) = Inr (ss_stealthAddress out)"
    "sm_stealthStellarAddress m = ss_stealthStellarAddress out"
    using sent_is_found [OF assms] by blast
  have "scanAnnouncements L [announcement_of out] v s = Inr [m]"
    by (simp add: scanAnnouncements_def m(1) somes_def)
  moreover have "sm_announcement m' \<in> set anns \<and> (\<exists>sid. stealthIdFromPrivateKey L (sm_stealthPrivKey m') = Inr sid
      \<and> to_lower sid = to_lower (an_stealthAddress (sm_announcement m')))"
    if run: "scanAnnouncements L anns v s = Inr ms" and mem: "m' \<in> set ms" for anns ms m'
  proof -
    obtain ys where ys: "list_all2 (\<lambda>x y. scan_one L v s x = Inr y) anns ys" "ms = somes ys"
      using run by (auto simp: scanAnnouncements_def res_bind_eq_Inr res_map_Inr_iff)
    then obtain x where x: "x \<in> set anns" "scan_one L v s x = Inr (Some m')"
      using mem by (auto simp: set_somes in_set_conv_nth list_all2_conv_all_nth) (metis nth_mem)
    then show ?thesis
      by (auto simp: scan_one_def res_bind_eq_Inr split: if_splits)
  qed
  ultimately show ?thesis
    using m scan_finds by blast
qed


section \<open>The view-only scan\<close>

lemma res_map_throws: "x \<in> set xs \<Longrightarrow> f x = Inl e \<Longrightarrow> \<exists>e'. res_map f xs = Inl e'"
  by (cases "res_map f xs") (auto simp: res_map_Inr_iff list_all2_conv_all_nth in_set_conv_nth)

definition same_find :: "('p, 'k) curve_lib \<Rightarrow> ScanMatch \<Rightarrow> ViewOnlyMatch \<Rightarrow> bool" where
  "same_find L m w \<longleftrightarrow> sm_announcement m = vm_announcement w
     \<and> stealthIdFromPrivateKey L (sm_stealthPrivKey m) = Inr (vm_derivedStealthAddress w)"

lemma tag_check_point:
  assumes "curve_ok L mG" "checkViewTagMatch L v E tag = Inr t"
  shows "\<exists>a. scalar L a \<and> ec_fromHex L E = Inr (mG a)"
proof -
  obtain P where "ec_fromHex L E = Inr P"
    using assms(2) by (auto simp: checkViewTagMatch_def recipientSharedSecretHash_def sharedSecretFromScalarAndPoint_def res_bind_eq_Inr)
  with curve_point [OF assms(1) this] show ?thesis by auto
qed

lemma view_one_scan_one:
  assumes ok: "curve_ok L mG" and v: "key_ok L v" and s: "key_ok L s"
    and S: "ec_fromHex L S = Inr (mG (bytesToBigInt s))"
    and view: "view_one L v S x = Inr w"
  shows "\<exists>m. scan_one L v s x = Inr m \<and> rel_option (same_find L) m w"
proof -
  obtain t where "checkViewTagMatch L v (an_ephemeralPubKey x) (an_viewTag x) = Inr t"
    using view by (auto simp: view_one_def res_bind_eq_Inr)
  then obtain a where a: "scalar L a" "ec_fromHex L (an_ephemeralPubKey x) = Inr (mG a)"
    using tag_check_point [OF ok] by blast
  define sH where "sH = ec_keccak L (secret_of L mG v a)"
  note full = scan_one_eq [OF ok v s a(2,1), folded sH_def]
    and seen = view_one_eq [OF ok v s a(2,1) S, folded sH_def]
  show ?thesis
  proof (cases "unat (sH ! 0) = an_viewTag x")
    case False
    then show ?thesis using full seen view by simp
  next
    case True
    then have h: "bytesToBigInt sH mod ec_n L \<noteq> 0" using seen view by (auto split: if_splits)
    obtain sid u where point: "stealthPointAndAddress L S sH = Inr (sid, u)"
      using seen view True h by (cases "stealthPointAndAddress L S sH") auto
    then have d: "one_time L s sH \<noteq> 0" "ec_getPublicKey L (bigIntToBytes32 (one_time L s sH)) False = Inr u" "sid = stealth_id L u"
      using stealth_key [OF ok s refl h S] unfolding one_time_def by (auto split: if_splits)
    then show ?thesis
      using full seen view True h point by (auto simp: same_find_def stealthIdFromPrivateKey_def)
  qed
qed

lemma rel_somes: "list_all2 (rel_option R) xs ys \<Longrightarrow> list_all2 R (somes xs) (somes ys)"
  by (induction rule: list_all2_induct) (auto simp: somes_def option_rel_Some1 elim: option.rel_cases)

text \<open>
  Scanning with the viewing key alone loses nothing. Whenever the view-only scan gets through a list of
  announcements, so does the scan with the spending key, with the same announcements in the same order, and
  the private key reconstructed for each controls the stealth id that the view-only scan derived for it.
\<close>

lemma view_only_scan_agrees:
  assumes "curve_ok L mG" "key_ok L v" "key_ok L s"
    and "keysToStealthMetaAddress L v s = Inr (V, S, meta)"
    and "scanAnnouncementsViewOnly L anns v S = Inr ws"
  shows "\<exists>ms. scanAnnouncements L anns v s = Inr ms \<and> list_all2 (same_find L) ms ws"
proof -
  have "ec_getPublicKey L s True = Inr S"
    using assms(4) by (auto simp: keysToStealthMetaAddress_def res_bind_eq_Inr)
  then have S: "ec_fromHex L S = Inr (mG (bytesToBigInt s))"
    using public_point [OF assms(1,3), of True] by auto
  obtain ys where ys: "list_all2 (\<lambda>x y. view_one L v S x = Inr y) anns ys" "ws = somes ys"
    using assms(5) by (auto simp: scanAnnouncementsViewOnly_def res_bind_eq_Inr res_map_Inr_iff)
  from ys(1) have "\<exists>zs. list_all2 (\<lambda>x z. scan_one L v s x = Inr z) anns zs \<and> list_all2 (rel_option (same_find L)) zs ys"
  proof (induction rule: list_all2_induct)
    case Nil
    then show ?case by simp
  next
    case (Cons x xs y ys)
    obtain z where "scan_one L v s x = Inr z" "rel_option (same_find L) z y"
      using view_one_scan_one [OF assms(1-3) S Cons(1)] by blast
    moreover obtain zs where "list_all2 (\<lambda>x z. scan_one L v s x = Inr z) xs zs" "list_all2 (rel_option (same_find L)) zs ys"
      using Cons(3) by blast
    ultimately show ?case by (intro exI [of _ "z # zs"]) simp
  qed
  then obtain zs where zs: "list_all2 (\<lambda>x z. scan_one L v s x = Inr z) anns zs" "list_all2 (rel_option (same_find L)) zs ys"
    by blast
  have "scanAnnouncements L anns v s = Inr (somes zs)"
    using zs(1) by (simp add: scanAnnouncements_def flip: res_map_Inr_iff)
  then show ?thesis using rel_somes [OF zs(2)] ys(2) by blast
qed

text \<open>
  One announcement whose ephemeral key does not decode to a curve point makes the scan of the whole list
  fail, whatever the other announcements hold: no match is returned for the payments before or after it.
\<close>

lemma undecodable_announcement_fails_scan:
  assumes "x \<in> set anns" "ec_fromHex L (an_ephemeralPubKey x) = Inl e"
  shows "(\<exists>e'. scanAnnouncements L anns v s = Inl e') \<and> (\<exists>e'. scanAnnouncementsViewOnly L anns v S = Inl e')"
proof -
  have "checkViewTagMatch L v (an_ephemeralPubKey x) (an_viewTag x) = Inl e"
    by (simp add: checkViewTagMatch_def recipientSharedSecretHash_def sharedSecretFromScalarAndPoint_def assms(2))
  then have "scan_one L v s x = Inl e" "view_one L v S x = Inl e"
    by (simp_all add: scan_one_def view_one_def)
  then show ?thesis
    using res_map_throws [OF assms(1)] unfolding scanAnnouncements_def scanAnnouncementsViewOnly_def
    by (metis res_bind_Inl)
qed


section \<open>A group that satisfies the laws\<close>

text \<open>The integers modulo 5 with their addition: a group of prime order in which the laws hold.\<close>

definition mod5_raw :: "bool \<Rightarrow> int \<Rightarrow> byte list res" where
  "mod5_raw c p = (if p = 0 then Inl (Error ''Bad point: ZERO'') else Inr (replicate (if c then 33 else 65) (word_of_int p)))"

definition mod5_key :: "byte list \<Rightarrow> bool" where
  "mod5_key k \<longleftrightarrow> length k = 32 \<and> 0 < bytesToBigInt k \<and> bytesToBigInt k < 5"

definition mod5 :: "(int, unit) curve_lib" where
  "mod5 = \<lparr>ec_n = 5, ec_base = 1,
     ec_fromHex = (\<lambda>bs. if bs \<noteq> [] \<and> 0 < uint (hd bs) \<and> uint (hd bs) < 5 then Inr (uint (hd bs)) else Inl (Error ''Point is not on curve'')),
     ec_multiply = (\<lambda>a p. Inr (a * p mod 5)), ec_add = (\<lambda>p q. (p + q) mod 5), ec_toRawBytes = mod5_raw,
     ec_getPublicKey = (\<lambda>k c. if mod5_key k then mod5_raw c (bytesToBigInt k) else Inl (Error ''private key must be 32 bytes'')),
     ec_keccak = (\<lambda>_. replicate 32 1), ec_sha256 = (\<lambda>bs. bs), ec_hkdf = (\<lambda>_ _ n. replicate n 1),
     kp_fromSeed = (\<lambda>_. ()), kp_address = (\<lambda>_. ''GACCOUNT'')\<rparr>"

lemma mod5_sel [simp]:
  "ec_n mod5 = 5" "ec_base mod5 = 1" "ec_multiply mod5 a p = Inr (a * p mod 5)" "ec_add mod5 p q = (p + q) mod 5"
  "ec_toRawBytes mod5 = mod5_raw" "ec_keccak mod5 bs = replicate 32 1" "ec_sha256 mod5 bs = bs"
  "kp_fromSeed mod5 bs = ()" "kp_address mod5 () = ''GACCOUNT''"
  "ec_getPublicKey mod5 k c = (if mod5_key k then mod5_raw c (bytesToBigInt k) else Inl (Error ''private key must be 32 bytes''))"
  "ec_fromHex mod5 bs = (if bs \<noteq> [] \<and> 0 < uint (hd bs) \<and> uint (hd bs) < 5 then Inr (uint (hd bs)) else Inl (Error ''Point is not on curve''))"
  by (simp_all add: mod5_def)

lemma mod5_key_ok [simp]: "key_ok mod5 k = mod5_key k"
  by (simp add: key_ok_def mod5_key_def)

lemma mod5_product: "0 < a \<and> a < 5 \<Longrightarrow> 0 < b \<and> b < 5 \<Longrightarrow> 0 < a * b mod 5" for a b :: int
proof -
  assume "0 < a \<and> a < 5" "0 < b \<and> b < 5"
  then have "a \<in> {1, 2, 3, 4}" "b \<in> {1, 2, 3, 4}" by auto
  then show ?thesis by auto
qed

lemma mod5_encodes:
  assumes "0 < a" "a < 5"
  shows "\<exists>bs. mod5_raw c a = Inr bs \<and> length bs = (if c then 33 else 65) \<and> ec_fromHex mod5 bs = Inr a"
proof -
  from assms have "uint (word_of_int a :: byte) = a" by (simp add: uint_word_of_int)
  with assms show ?thesis by (simp add: mod5_raw_def)
qed

lemma mod5_ok: "curve_ok mod5 (\<lambda>a. a)"
proof -
  have "\<exists>a. (0 < a \<and> a < 5) \<and> P = a" if "ec_fromHex mod5 bs = Inr P" for bs P
    using that by (auto split: if_splits)
  then show ?thesis
    using mod5_product mod5_encodes unfolding curve_ok_def
    by (simp add: mod5_raw_def [of False 0] del: mod5_sel(11))
qed

definition view_key :: "byte list" where "view_key = replicate 31 0 @ [2]"
definition spend_key :: "byte list" where "spend_key = replicate 31 0 @ [1]"
definition sender_key :: "byte list" where "sender_key = replicate 31 0 @ [3]"

definition mod5_sent :: StealthSend where
  "mod5_sent = \<lparr>ss_ephemeralPriv = sender_key, ss_ephemeralPubKey = replicate 33 3,
     ss_stealthAddress = ''0x'' @ hex_of_bytes (replicate 20 1), ss_stealthStellarAddress = ''GACCOUNT'', ss_viewTag = 1, ss_metadata = [1]\<rparr>"

lemma mod5_keys: "key_ok mod5 view_key" "key_ok mod5 spend_key"
  by (simp_all add: mod5_key_def view_key_def spend_key_def bytesToBigInt_def numeral_eq_Suc)

lemma mod5_meta:
  "keysToStealthMetaAddress mod5 view_key spend_key = Inr (replicate 33 2, replicate 33 1, replicate 33 2 @ replicate 33 1)"
  by code_simp

lemma mod5_values: "bytesToBigInt (replicate 32 1) mod 5 = 2" "bytesToBigInt sender_key = 3" "mod5_key sender_key" "bytesToBigInt view_key = 2"
  by code_simp+

lemma mod5_sends:
  "computeStealthAddressAndViewTag mod5 sender_key (stealthMetaAddressToHex (replicate 33 2 @ replicate 33 1)) = Inr mod5_sent"
proof -
  have "parseStealthMetaAddress (stealthMetaAddressToHex (replicate 33 2 @ replicate 33 1)) = Inr (replicate 33 2, replicate 33 1)"
    unfolding parseStealthMetaAddress_def stealthMetaAddressToHex_def bytes_of_prefixed_hex by simp
  then show ?thesis
    unfolding computeStealthAddressAndViewTag_def
    by (simp add: mod5_values sharedSecretFromScalarAndPoint_def mod5_raw_def hashSharedSecret_def Let_def
        stealthPointAndAddress_def stealth_id_def deriveStealthStellarAddress_def deriveStealthStellarKeypair_def mod5_sent_def)
qed

theorem stealth_payment_reaches_recipient_witness:
  "\<exists>m. scanAnnouncements mod5 [announcement_of mod5_sent] view_key spend_key = Inr [m]
     \<and> stealthIdFromPrivateKey mod5 (sm_stealthPrivKey m) = Inr (ss_stealthAddress mod5_sent)"
  using stealth_payment_reaches_recipient [OF mod5_ok mod5_keys mod5_meta mod5_sends] by blast

lemma mod5_views:
  "scanAnnouncementsViewOnly mod5 [announcement_of mod5_sent] view_key (replicate 33 1) =
     Inr [\<lparr>vm_announcement = announcement_of mod5_sent, vm_derivedStealthAddress = ss_stealthAddress mod5_sent\<rparr>]"
proof -
  define x where "x = announcement_of mod5_sent"
  have x: "an_ephemeralPubKey x = replicate 33 3" "an_viewTag x = 1" "an_stealthAddress x = ss_stealthAddress mod5_sent"
    by (simp_all add: x_def announcement_of_def mod5_sent_def)
  have "ec_fromHex mod5 (replicate 33 3) = Inr 3" "ec_fromHex mod5 (replicate 33 1) = Inr (bytesToBigInt spend_key)"
    by code_simp+
  note eq = view_one_eq [OF mod5_ok mod5_keys, of x 3 "replicate 33 1", unfolded x, OF this(1) _ this(2)]
  have "stealthPointAndAddress mod5 (replicate 33 1) (replicate 32 1) = Inr (ss_stealthAddress mod5_sent, replicate 65 3)"
    by (simp add: stealthPointAndAddress_def mod5_values(1) mod5_raw_def stealth_id_def mod5_sent_def)
  then have "view_one mod5 view_key (replicate 33 1) x = Inr (Some \<lparr>vm_announcement = x, vm_derivedStealthAddress = ss_stealthAddress mod5_sent\<rparr>)"
    using eq by (simp add: mod5_values(1))
  then show ?thesis
    by (simp add: scanAnnouncementsViewOnly_def somes_def flip: x_def)
qed

lemma view_only_scan_agrees_witness:
  "\<exists>ms. scanAnnouncements mod5 [announcement_of mod5_sent] view_key spend_key = Inr ms \<and> length ms = 1"
  using view_only_scan_agrees [OF mod5_ok mod5_keys mod5_meta mod5_views] list_all2_lengthD by fastforce

lemma undecodable_announcement_fails_scan_witness:
  "\<exists>e. scanAnnouncements mod5 [announcement_of mod5_sent, announcement_of mod5_sent \<lparr>an_ephemeralPubKey := replicate 33 9\<rparr>]
     view_key spend_key = Inl e"
  using undecodable_announcement_fails_scan
    [of "announcement_of mod5_sent \<lparr>an_ephemeralPubKey := replicate 33 9\<rparr>"
      "[announcement_of mod5_sent, announcement_of mod5_sent \<lparr>an_ephemeralPubKey := replicate 33 9\<rparr>]"
      mod5 "Error ''Point is not on curve''" view_key spend_key]
  by (simp add: mod5_def)

end
