(* ===== verification/Sdk_Scan_Props.thy ===== *)
theory Sdk_Scan_Props
  imports Sdk_Events_Props Sdk_Stealth_Props
begin

text \<open>
  What the two readers of contract events make of a server that keeps the laws of
  \<open>event_server\<close>: the resumable scan misses no payment, and the pool's tree is rebuilt leaf by leaf.
\<close>

section \<open>The resumable scan\<close>

text \<open>A consumer that never stops and keeps what it is given, beside the world.\<close>

definition found :: "ScanMatch \<times> int \<Rightarrow> ((ScanMatch \<times> int) list \<times> 'w, bool) prog" where
  "found m = bnd (upd (\<lambda>(ms, w). (ms @ [m], w))) (\<lambda>_. ret True)"

definition lift_store :: "'w ScanStore \<Rightarrow> ('b \<times> 'w) ScanStore" where
  "lift_store st = \<lparr>getCursor = (\<lambda>k. on_snd (getCursor st k)), setCursor = (\<lambda>c k. on_snd (setCursor st c k))\<rparr>"

lemma wp_found_all: "wp (yield_all found xs) Q E (ms, w) = Q True (ms @ xs, w)"
  by (induction xs arbitrary: ms) (simp_all add: found_def wp_def run_simps)

definition scanned :: "('p, 'k) curve_lib \<Rightarrow> byte list \<Rightarrow> byte list \<Rightarrow> chain_event list \<Rightarrow> (ScanMatch \<times> int) list \<Rightarrow> bool" where
  "scanned L v s evs ms \<longleftrightarrow>
     (\<forall>ev \<in> set evs. \<exists>x y. decode_announcement ev = Inr x \<and> scan_one L v s x = Inr y \<and> (\<forall>m. y = Some m \<longrightarrow> m \<in> fst ` set ms))
     \<and> (\<forall>m \<in> fst ` set ms. \<exists>ev \<in> set evs. \<exists>x. decode_announcement ev = Inr x \<and> scan_one L v s x = Inr (Some m))"

lemma scanned_page:
  assumes "scanned L v s evs ms" "res_map decode_announcement es = Inr xs" "scanAnnouncements L xs v s = Inr new"
  shows "scanned L v s (evs @ es) (ms @ map (\<lambda>m. (m, ledger)) new)"
proof -
  obtain ys where ys: "list_all2 (\<lambda>x y. scan_one L v s x = Inr y) xs ys" "new = somes ys"
    using assms(3) by (auto simp: scanAnnouncements_def res_bind_eq_Inr res_map_Inr_iff)
  have xs: "list_all2 (\<lambda>e x. decode_announcement e = Inr x) es xs" using assms(2) by (simp add: res_map_Inr_iff)
  have len: "length es = length xs" "length xs = length ys" using xs ys(1) by (simp_all add: list_all2_lengthD)
  have at_i: "decode_announcement (es ! i) = Inr (xs ! i) \<and> scan_one L v s (xs ! i) = Inr (ys ! i)" if "i < length es" for i
    using that len list_all2_nthD [OF xs] list_all2_nthD [OF ys(1)] by simp
  have hit: "y \<in> set new" if "i < length es" "ys ! i = Some y" for i y
    using that len nth_mem [of i ys] by (simp add: ys(2) set_somes)
  have all: "\<exists>x y. decode_announcement ev = Inr x \<and> scan_one L v s x = Inr y \<and> (\<forall>m. y = Some m \<longrightarrow> m \<in> set new)"
    if "ev \<in> set es" for ev
    using that at_i hit by (metis in_set_conv_nth)
  have only: "\<exists>ev \<in> set es. \<exists>x. decode_announcement ev = Inr x \<and> scan_one L v s x = Inr (Some m)" if new: "m \<in> set new" for m
  proof -
    obtain i where "i < length ys" "ys ! i = Some m"
      using new by (auto simp: ys(2) set_somes in_set_conv_nth)
    then show ?thesis using at_i [of i] len nth_mem [of i es] by metis
  qed
  define F where "F = fst ` set ms"
  have F: "fst ` set (ms @ map (\<lambda>m. (m, ledger)) new) = F \<union> set new" by (simp add: F_def image_Un image_image)
  have old: "\<exists>x y. decode_announcement ev = Inr x \<and> scan_one L v s x = Inr y \<and> (\<forall>m. y = Some m \<longrightarrow> m \<in> F)" if "ev \<in> set evs" for ev
    using assms(1) that unfolding scanned_def F_def by (rule conjunct1 [THEN bspec])
  have old_only: "\<exists>ev \<in> set evs. \<exists>x. decode_announcement ev = Inr x \<and> scan_one L v s x = Inr (Some m)" if "m \<in> F" for m
    using assms(1) that unfolding scanned_def F_def by (rule conjunct2 [THEN bspec])
  show ?thesis
    unfolding scanned_def F set_append [of evs es]
    using all only old old_only by (intro conjI ballI) blast+
qed

lemma scan_page_found:
  assumes "scanned L (si_viewingKey opts) (si_spendingKey opts) (page_events ps) ms"
    and store: "\<And>c k w. wp (setCursor st c k) (\<lambda>_. grown (\<lambda>fs. posted fs w) posted) (\<lambda>_ _. True) w"
  shows "wp (bnd (of_res (announcement_page p)) (scan_page L (lift_store st) opts key found))
     (\<lambda>go s. go \<and> scanned L (si_viewingKey opts) (si_spendingKey opts) (page_events (ps @ [p])) (fst s)
        \<and> grown (\<lambda>fs. posted fs w) posted (snd s))
     (\<lambda>_ _. True) (ms, w)"
proof -
  let ?v = "si_viewingKey opts" and ?s = "si_spendingKey opts"
  have "wp (scan_page L (lift_store st) opts key found page)
      (\<lambda>go s. go \<and> scanned L ?v ?s (page_events (ps @ [p])) (fst s) \<and> grown (\<lambda>fs. posted fs w) posted (snd s)) (\<lambda>_ _. True) (ms, w)"
    if page: "announcement_page p = Inr page" for page
  proof (cases "scanAnnouncements L (ap_announcements page) ?v ?s")
    case (Inr new)
    have "res_map decode_announcement (pg_events p) = Inr (ap_announcements page)"
      using page by (auto simp: announcement_page_def res_bind_eq_Inr)
    from scanned_page [OF assms(1) this Inr]
    have "scanned L ?v ?s (page_events (ps @ [p])) (ms @ map (\<lambda>m. (m, ap_ledger page)) new)" by simp
    then show ?thesis
      using store [of _ key w] by (simp add: scan_page_def Inr wp_found_all lift_store_def wp_conj [of _ "\<lambda>_ _. _"] wp_const)
  qed (simp add: scan_page_def)
  then show ?thesis by (simp split: sum.split)
qed



section \<open>The pool tree from its events\<close>

text \<open>
  A server whose events do not change while it is read. The tree the events describe is a list of leaves:
  a deposit event holds a leaf and its index, a withdrawal event the change leaf and its index.
\<close>

locale quiet_event_server = event_server +
  assumes latest_quiet: "wp (getLatestLedger rpc) (\<lambda>_ w'. \<forall>fs. posted fs w' = posted fs w) (\<lambda>_ w'. \<forall>fs. posted fs w' = posted fs w) w"
    and serves_quiet: "wp (getEvents rpc q) (\<lambda>_ w'. \<forall>fs. posted fs w' = posted fs w) (\<lambda>_ w'. \<forall>fs. posted fs w' = posted fs w) w"

interpretation quiet_log: quiet_event_server "log_rpc k latest" "\<lambda>fs w. w fs" nat_of_dec 0 for k latest
  by unfold_locales (auto simp: log_rpc_def Let_def wp_def split: prod.split sum.split)

definition leaf_event :: "bool \<Rightarrow> chain_event \<Rightarrow> (int \<times> int) res" where
  "leaf_event isDeposit ev =
     res_bind (leaf_of (nth_opt (ev_value ev) (if isDeposit then 0 else 1))) (\<lambda>c.
     res_bind (index_of (nth_opt (ev_value ev) (if isDeposit then 1 else 2))) (\<lambda>i. Inr (i, c)))"

definition describes :: "chain_event list \<Rightarrow> chain_event list \<Rightarrow> int list \<Rightarrow> bool" where
  "describes deposits withdrawals leaves \<longleftrightarrow>
     (\<forall>ev \<in> set deposits. \<exists>i < length leaves. leaf_event True ev = Inr (int i, leaves ! i))
     \<and> (\<forall>ev \<in> set withdrawals. \<exists>i < length leaves. leaf_event False ev = Inr (int i, leaves ! i))
     \<and> (\<forall>i < length leaves. (\<exists>ev \<in> set deposits. leaf_event True ev = Inr (int i, leaves ! i))
          \<or> (\<exists>ev \<in> set withdrawals. leaf_event False ev = Inr (int i, leaves ! i)))"

lemma rebuild_event_eq:
  "rebuild_event isDeposit b ev =
     res_bind (leaf_event isDeposit ev) (\<lambda>(i, c). Inr (b\<lparr>rb_byIndex := AList.update i c (rb_byIndex b),
       rb_depositIndices := rb_depositIndices b @ (if isDeposit then [i] else [])\<rparr>))"
  by (simp add: rebuild_event_def leaf_event_def Let_def res_bind_assoc)

lemma rebuild_events_append:
  "rebuild_events d b (xs @ ys) = res_bind (rebuild_events d b xs) (\<lambda>b. rebuild_events d b ys)"
  by (induction xs arbitrary: b) (simp_all add: res_bind_assoc)

lemma rebuild_events_leaves:
  assumes "rebuild_events d b evs = Inr b'"
  shows "\<exists>ls. map (leaf_event d) evs = map Inr ls
    \<and> rb_byIndex b' = foldl (\<lambda>m (i, c). AList.update i c m) (rb_byIndex b) ls
    \<and> rb_depositIndices b' = rb_depositIndices b @ (if d then map fst ls else [])"
  using assms
proof (induction evs arbitrary: b)
  case (Cons ev evs)
  from Cons.prems obtain i c where l: "leaf_event d ev = Inr (i, c)"
    and b: "rebuild_events d (b\<lparr>rb_byIndex := AList.update i c (rb_byIndex b),
       rb_depositIndices := rb_depositIndices b @ (if d then [i] else [])\<rparr>) evs = Inr b'"
    by (auto simp: rebuild_event_eq res_bind_eq_Inr)
  from Cons.IH [OF b] obtain ls where "map (leaf_event d) evs = map Inr ls"
    "rb_byIndex b' = foldl (\<lambda>m (i, c). AList.update i c m) (AList.update i c (rb_byIndex b)) ls"
    "rb_depositIndices b' = rb_depositIndices b @ (if d then [i] else []) @ (if d then map fst ls else [])"
    by auto
  with l show ?case by (intro exI [of _ "(i, c) # ls"]) simp
qed simp

lemma map_of_fold_updates:
  fixes m :: "('a \<times> 'b) list"
  assumes "\<forall>(i, c) \<in> set ls. f i = c"
  shows "map_of (foldl (\<lambda>m (i, c). AList.update i c m) m ls) i = (if i \<in> fst ` set ls then Some (f i) else map_of m i)"
  using assms by (induction ls arbitrary: m) (auto simp: update_conv)

lemma dense_leaves_eq:
  assumes "\<And>i. map_of m i = (if 0 \<le> i \<and> i < int (length leaves) then Some (leaves ! nat i) else None)"
  shows "dense_leaves m = leaves"
proof -
  have keys: "fst ` set m = {0..<int (length leaves)}"
    using assms by (auto simp: dom_map_of_conv_image_fst [symmetric] split: if_splits)
  show ?thesis
  proof (cases "leaves = []")
    case True
    then have "m = []" using keys by auto
    with True show ?thesis by (simp add: dense_leaves_def)
  next
    case False
    then have m: "m \<noteq> []" using keys by auto
    have "Max {0..<int (length leaves)} = int (length leaves) - 1"
      using False by (intro Max_eqI) auto
    then have "dense_leaves m = map (\<lambda>i. or_else (map_of m i) 0) [0..int (length leaves) - 1]"
      using m by (simp add: dense_leaves_def keys)
    also have "\<dots> = leaves"
      using assms by (intro nth_equalityI) (auto simp: or_else_def)
    finally show ?thesis .
  qed
qed

text \<open>What rebuilding depends on: the leaves and indices so far, not the marks.\<close>

abbreviation core :: "Rebuild \<Rightarrow> (int \<times> int) list \<times> int list" where
  "core b \<equiv> (rb_byIndex b, rb_depositIndices b)"

lemma rebuild_events_core:
  assumes "rebuild_events d b evs = Inr b1" "core b' = core b"
  shows "\<exists>b1'. rebuild_events d b' evs = Inr b1' \<and> core b1' = core b1 \<and> rb_complete b1' = rb_complete b'"
  using assms
proof (induction evs arbitrary: b b')
  case (Cons ev evs)
  from Cons.prems(1) obtain i c where l: "leaf_event d ev = Inr (i, c)"
    and b: "rebuild_events d (b\<lparr>rb_byIndex := AList.update i c (rb_byIndex b),
       rb_depositIndices := rb_depositIndices b @ (if d then [i] else [])\<rparr>) evs = Inr b1"
    by (auto simp: rebuild_event_eq res_bind_eq_Inr)
  let ?b' = "b'\<lparr>rb_byIndex := AList.update i c (rb_byIndex b'), rb_depositIndices := rb_depositIndices b' @ (if d then [i] else [])\<rparr>"
  have "core ?b' = core (b\<lparr>rb_byIndex := AList.update i c (rb_byIndex b), rb_depositIndices := rb_depositIndices b @ (if d then [i] else [])\<rparr>)"
    using Cons.prems(2) by simp
  from Cons.IH [OF b this] l show ?case by (simp add: rebuild_event_eq)
qed simp

lemma scan_read_whole:
  assumes "scan_read m l l ps" "pg_complete (last ps)" "\<forall>ev \<in> set l. m \<le> ev_ledger ev"
  shows "page_events ps = l"
proof -
  obtain a b s0 where seg: "segment a b l (page_events ps)" "length l \<le> b" "s0 \<le> m" "a = first_from s0 l"
    using assms(1,2) by (auto simp: scan_read_def starts_by_def dest: prefix_order.antisym)
  have "takeWhile (\<lambda>ev. ev_ledger ev < s0) l = []"
    using assms(3) seg(3) by (cases l) auto
  with seg show ?thesis by (simp add: first_from_def segment_def)
qed

definition rebuilding :: "bool \<Rightarrow> Rebuild \<Rightarrow> ContractEventPage list \<Rightarrow> Rebuild \<Rightarrow> bool" where
  "rebuilding d b ps b' \<longleftrightarrow> (\<exists>b0. rebuild_events d b (page_events ps) = Inr b0 \<and> core b' = core b0)
     \<and> (rb_complete b' \<longrightarrow> rb_complete b \<and> (\<forall>p \<in> set ps. \<not> pg_truncated p))"

lemma rebuild_page_step:
  assumes "rebuilding d b ps b'"
  shows "wp (rebuild_page d p) (\<lambda>go u. go \<and> rebuilding d b (ps @ [p]) (fst u) \<and> snd u = w) (\<lambda>_ _. True) (b', w)"
proof (cases "rebuild_events d b' (pg_events p)")
  case (Inl e)
  then show ?thesis by (simp add: rebuild_page_def)
next
  case (Inr b1)
  obtain b0 where b0: "rebuild_events d b (page_events ps) = Inr b0" "core b' = core b0"
    using assms by (auto simp: rebuilding_def)
  obtain b2 where b2: "rebuild_events d b0 (pg_events p) = Inr b2" "core b2 = core b1"
    using rebuild_events_core [OF Inr, of b0] b0(2) by auto
  obtain b3 where b3: "rebuild_events d b' (pg_events p) = Inr b3" "rb_complete b3 = rb_complete b'"
    using rebuild_events_core [OF Inr, of b'] by auto
  have "rebuild_events d b (page_events (ps @ [p])) = Inr b2"
    using b0 b2 by (simp add: rebuild_events_append)
  with assms b2(2) b3 show ?thesis
    by (auto simp: rebuild_page_def Inr rebuilding_def Let_def)
qed

lemma rebuild_phase:
  assumes "quiet_event_server rpc posted pos oldest"
    and po: "po_startLedger po = Some start" "0 < start"
    and ledgers: "\<forall>ev \<in> set (posted (po_filters po) w). max start oldest \<le> ev_ledger ev"
  shows "wp (paginateContractEvents (lift_rpc rpc) po (rebuild_page d))
     (\<lambda>_ u. (\<forall>fs. posted fs (snd u) = posted fs w) \<and> (rb_complete (fst u) \<longrightarrow> rb_complete b
        \<and> (\<exists>b0. rebuild_events d b (posted (po_filters po) w) = Inr b0 \<and> core (fst u) = core b0)))
     (\<lambda>_ _. True) (b, w)"
proof -
  let ?I = "\<lambda>ps u. rebuilding d b ps (fst u) \<and> (\<forall>fs. posted fs (snd u) = posted fs w)"
  have server: "event_server rpc posted pos oldest" using assms(1) by (simp add: quiet_event_server_def)
  have "wp (paginateContractEvents (lift_rpc rpc) po (rebuild_page d))
     (\<lambda>_ u. \<exists>ps. ?I ps u \<and> scan_read (max start oldest) (posted (po_filters po) w) ((posted (po_filters po) \<circ> snd) u) ps
        \<and> (po_throwOnTruncation po \<longrightarrow> pg_complete (last ps)))
     (\<lambda>_ _. True) (b, w)"
  proof (rule event_server.paginate_reads [OF event_server.lift_server [OF server], where I = ?I])
    show "wp (rebuild_page d p) (\<lambda>go u'. go \<and> ?I (ps @ [p]) u' \<and> grown (\<lambda>fs. (posted fs \<circ> snd) u) (\<lambda>fs. posted fs \<circ> snd) u') (\<lambda>_ _. True) u"
      if "?I ps u" for ps p u
      using wp_mono [OF rebuild_page_step [of d b ps "fst u" p "snd u"]] that by simp
  next
    show "wp (getEvents (lift_rpc rpc) q) (\<lambda>_. ?I ps) (\<lambda>_. ?I ps) u" if "?I ps u" for ps q u
      using that wp_mono [OF quiet_event_server.serves_quiet [OF assms(1), of q "snd u"]] by (simp add: lift_rpc_def)
  next
    show "wp (getLatestLedger (lift_rpc rpc)) (\<lambda>_. ?I ps) (\<lambda>_. ?I ps) u" if "?I ps u" for ps u
      using that wp_mono [OF quiet_event_server.latest_quiet [OF assms(1), of "snd u"]] by (simp add: lift_rpc_def)
  qed (use po in \<open>auto simp: rebuilding_def\<close>)
  then show ?thesis
  proof (rule wp_mono)
    fix u
    assume "\<exists>ps. ?I ps u \<and> scan_read (max start oldest) (posted (po_filters po) w) ((posted (po_filters po) \<circ> snd) u) ps
        \<and> (po_throwOnTruncation po \<longrightarrow> pg_complete (last ps))"
    then obtain ps where ps: "?I ps u" "scan_read (max start oldest) (posted (po_filters po) w) (posted (po_filters po) w) ps" by auto
    have "page_events ps = posted (po_filters po) w" if "rb_complete (fst u)"
    proof (rule scan_read_whole [OF ps(2) _ ledgers])
      show "pg_complete (last ps)" using ps that by (auto simp: scan_read_def rebuilding_def)
    qed
    then show "(\<forall>fs. posted fs (snd u) = posted fs w) \<and> (rb_complete (fst u) \<longrightarrow> rb_complete b
        \<and> (\<exists>b0. rebuild_events d b (posted (po_filters po) w) = Inr b0 \<and> core (fst u) = core b0))"
      using ps(1) by (auto simp: rebuilding_def)
  qed simp
qed

lemma map_Inr_mem:
  fixes f :: "'a \<Rightarrow> 'e + 'b"
  assumes "map f xs = map Inr ys"
  shows "y \<in> set ys \<longleftrightarrow> (\<exists>x \<in> set xs. f x = Inr y)"
proof -
  have "(Inr y :: 'e + 'b) \<in> set (map f xs) \<longleftrightarrow> y \<in> set ys" unfolding assms by auto
  then show ?thesis unfolding set_map image_iff by metis
qed

lemma described_leaves:
  assumes "describes dep wd leaves" "rebuild_events True new_Rebuild dep = Inr b1" "rebuild_events False b1' wd = Inr b2" "core b1' = core b1"
  shows "dense_leaves (rb_byIndex b2) = leaves" "map (leaf_event True) dep = map Inr ls \<Longrightarrow> rb_depositIndices b2 = map fst ls"
proof -
  obtain ls1 where ls1: "map (leaf_event True) dep = map Inr ls1"
    "rb_byIndex b1 = foldl (\<lambda>m (i, c). AList.update i c m) [] ls1" "rb_depositIndices b1 = map fst ls1"
    using rebuild_events_leaves [OF assms(2)] by (auto simp: new_Rebuild_def)
  obtain ls2 where ls2: "map (leaf_event False) wd = map Inr ls2"
    "rb_byIndex b2 = foldl (\<lambda>m (i, c). AList.update i c m) (rb_byIndex b1) ls2" "rb_depositIndices b2 = rb_depositIndices b1"
    using rebuild_events_leaves [OF assms(3)] assms(4) by auto
  have in1: "x \<in> set ls1 \<longleftrightarrow> (\<exists>ev \<in> set dep. leaf_event True ev = Inr x)" for x
    by (rule map_Inr_mem [OF ls1(1)])
  have in2: "x \<in> set ls2 \<longleftrightarrow> (\<exists>ev \<in> set wd. leaf_event False ev = Inr x)" for x
    by (rule map_Inr_mem [OF ls2(1)])
  have right: "\<exists>i < length leaves. x = (int i, leaves ! i)" if "x \<in> set ls1 \<or> x \<in> set ls2" for x
    using that assms(1) unfolding in1 in2 describes_def by (metis sum.inject(2))
  have every: "(int i, leaves ! i) \<in> set ls1 \<or> (int i, leaves ! i) \<in> set ls2" if "i < length leaves" for i
    using that assms(1) unfolding in1 in2 describes_def by blast
  have keys: "k \<in> fst ` set ls1 \<or> k \<in> fst ` set ls2 \<longleftrightarrow> 0 \<le> k \<and> k < int (length leaves)" for k
  proof
    assume "k \<in> fst ` set ls1 \<or> k \<in> fst ` set ls2"
    then obtain x where "x \<in> set ls1 \<or> x \<in> set ls2" "k = fst x" by blast
    then show "0 \<le> k \<and> k < int (length leaves)" using right [of x] by auto
  next
    assume "0 \<le> k \<and> k < int (length leaves)"
    then have "nat k < length leaves" "int (nat k) = k" by auto
    with every [of "nat k"] show "k \<in> fst ` set ls1 \<or> k \<in> fst ` set ls2" by force
  qed
  have vals: "\<forall>(i, c) \<in> set ls. leaves ! nat i = c" if "set ls \<subseteq> set ls1 \<union> set ls2" for ls
    using that right by fastforce
  have "map_of (rb_byIndex b2) k = (if k \<in> fst ` set ls2 then Some (leaves ! nat k) else if k \<in> fst ` set ls1 then Some (leaves ! nat k) else None)" for k
    unfolding ls2(2) ls1(2) using vals [of ls1] vals [of ls2]
    by (simp add: map_of_fold_updates [where f = "\<lambda>i. leaves ! nat i"])
  then show "dense_leaves (rb_byIndex b2) = leaves"
    by (intro dense_leaves_eq) (use keys in \<open>simp only: keys [symmetric] split: if_splits, simp\<close>)
  show "rb_depositIndices b2 = map fst ls" if "map (leaf_event True) dep = map Inr ls"
  proof -
    have "map Inr ls1 = map Inr ls" using that ls1(1) by simp
    then have "ls1 = ls" by (rule map_injective) simp
    then show ?thesis using ls1(3) ls2(3) by simp
  qed
qed

abbreviation pool_filter :: "(string \<Rightarrow> string) \<Rightarrow> string \<Rightarrow> string \<Rightarrow> event_filter list" where
  "pool_filter topic_xdr contractId kind \<equiv> [\<lparr>ef_contractIds = [contractId], ef_topics = [[topic_xdr kind, ''*'']]\<rparr>]"



section \<open>Concrete runs\<close>

text \<open>One deposit at index 0 and one change leaf at index 1, on a server with pages of one event.\<close>

definition small_pool :: "event_filter list \<Rightarrow> chain_event list" where
  "small_pool fs =
     (if fs = pool_filter id ''C'' ''Deposit'' then [\<lparr>ev_ledger = 5, ev_value = [NBytes [7], NInt 0]\<rparr>]
      else if fs = pool_filter id ''C'' ''Withdraw'' then [\<lparr>ev_ledger = 6, ev_value = [NBytes [1], NBytes [9], NInt 1]\<rparr>]
      else [])"

definition small_opts :: ReconstructStateOptions where
  "small_opts = \<lparr>rc_startLedger = Some 5, rc_maxPages = None, rc_onTruncation_return = False\<rparr>"

lemma small_pool_posts:
  "small_pool (pool_filter id ''C'' ''Deposit'') = [\<lparr>ev_ledger = 5, ev_value = [NBytes [7], NInt 0]\<rparr>]"
  "small_pool (pool_filter id ''C'' ''Withdraw'') = [\<lparr>ev_ledger = 6, ev_value = [NBytes [1], NBytes [9], NInt 1]\<rparr>]"
  by (simp_all add: small_pool_def)

lemma small_pool_run:
  "fst (reconstructState id (log_rpc 0 8) ''C'' small_opts small_pool) =
     Inr \<lparr>pr_stateLeaves = [7, 9], pr_depositIndices = [0], pr_complete = True, pr_continuation = None\<rparr>"
  by code_simp

lemma small_pool_described:
  "describes (small_pool (pool_filter id ''C'' ''Deposit'')) (small_pool (pool_filter id ''C'' ''Withdraw'')) [7, 9]"
proof -
  have "leaf_event True \<lparr>ev_ledger = 5, ev_value = [NBytes [7], NInt 0]\<rparr> = Inr (0, 7)"
    "leaf_event False \<lparr>ev_ledger = 6, ev_value = [NBytes [1], NBytes [9], NInt 1]\<rparr> = Inr (1, 9)"
    by code_simp+
  then show ?thesis
    unfolding describes_def small_pool_posts by (auto simp: less_Suc_eq)
qed

lemma small_pool_ledgers:
  "\<forall>kind \<in> {''Deposit'', ''Withdraw''}. \<forall>ev \<in> set (small_pool (pool_filter id ''C'' kind)). max 5 0 \<le> ev_ledger ev"
  by (simp add: small_pool_def)


text \<open>The announcement of the payment in the group modulo 5, found in a log of one event.\<close>

definition sent_event :: chain_event where
  "sent_event = \<lparr>ev_ledger = 5, ev_value = [NInt 0, NBytes (replicate 20 1), NInt 1, NBytes (replicate 33 3), NBytes [1]]\<rparr>"

definition small_scan :: ScanIteratorOptions where
  "small_scan = \<lparr>si_viewingKey = view_key, si_spendingKey = spend_key, si_startLedger = Some 3, si_skipCursor = False,
     si_cursorKey = None, si_maxPages = None, si_allowTruncation = False\<rparr>"

definition small_log :: "(string \<times> int) list \<times> (event_filter list \<Rightarrow> chain_event list)" where
  "small_log = ([], \<lambda>_. [sent_event])"

lemma small_scan_run:
  "fst (scanIterator id mod5 (lift_rpc (lift_rpc (log_rpc 0 8))) ''A'' (lift_store MemoryScanStore) small_scan found ([], small_log)) = Inr ()"
  by code_simp


section \<open>Resuming inside a ledger\<close>

text \<open>
  Resuming after a page that ends inside a ledger skips the rest of that ledger. The page cap stops a
  scan after one of two announcements of ledger 5; the cursor it stores is 5, so the next scan asks for
  ledger 6 on, ends normally, stores a cursor behind both, and the payment announced second in ledger 5 is
  never handed out, although the scan of the same log in one go finds it.
\<close>

definition other_event :: chain_event where
  "other_event = sent_event\<lparr>ev_value := [NInt 0, NBytes (replicate 20 1), NInt 1, NBytes (replicate 33 3), NBytes [0]]\<rparr>"

definition two_in_ledger :: "(string \<times> int) list \<times> (event_filter list \<Rightarrow> chain_event list)" where
  "two_in_ledger = ([], \<lambda>_. [other_event, sent_event])"

definition resume_scan :: "int \<Rightarrow> bool \<Rightarrow> int option \<Rightarrow> ScanIteratorOptions" where
  "resume_scan pages partial start = small_scan\<lparr>si_startLedger := start, si_maxPages := Some pages, si_allowTruncation := partial\<rparr>"

definition run_scan :: "ScanIteratorOptions \<Rightarrow> (ScanMatch \<times> int) list \<times> (string \<times> int) list \<times> (event_filter list \<Rightarrow> chain_event list) \<Rightarrow>
    unit res \<times> (ScanMatch \<times> int) list \<times> (string \<times> int) list \<times> (event_filter list \<Rightarrow> chain_event list)" where
  "run_scan opts = scanIterator id mod5 (lift_rpc (lift_rpc (log_rpc 0 8))) ''A'' (lift_store MemoryScanStore) opts found"

lemma resumed_scan_skips_rest_of_ledger:
  "(case run_scan (resume_scan 1 True (Some 3)) ([], two_in_ledger) of (r1, u1) \<Rightarrow>
      (case run_scan (resume_scan 9 False None) u1 of (r2, ms, cursors, _) \<Rightarrow> (r1, r2, ms, map snd cursors))) =
     (Inr (), Inr (), [], [8])
   \<and> (case run_scan (resume_scan 9 False (Some 3)) ([], two_in_ledger) of (r, ms, _) \<Rightarrow> (r, length ms)) = (Inr (), 1)"
  by (rule conjI; code_simp)

end
