(* ===== verification/Sdk_Storage.thy ===== *)
theory Sdk_Storage
  imports Sdk_Events Sdk_Prove Atomic_File Relayer_Payload
begin

text \<open>
  The SDK's stores for notes, ghost entries and scan cursors: the in-memory ones
  (\<open>sdk/src/storage/index.ts\<close>) and the passphrase-encrypted ones with their backends
  (\<open>sdk/src/storage/encrypted.ts\<close>).

  The stores are generic in the type of a note: the in-memory store keeps \<open>PoolNote\<close> records, the
  encrypted one the JSON objects it parses, which the source casts without looking. PBKDF2 and AES-GCM are the
  parameter \<open>web_crypto\<close>.
\<close>

section \<open>In-memory stores\<close>

record ('w, 'n) NoteStore =
  notes_list :: "('w, 'n list) prog"
  notes_add :: "'n \<Rightarrow> ('w, unit) prog"
  notes_markSpent :: "string \<Rightarrow> ('w, unit) prog"

record ('w, 'g) VaultStore =
  listGhosts :: "('w, 'g list) prog"
  saveGhost :: "'g \<Rightarrow> ('w, unit) prog"

record GhostEntryLike =
  ge_cluster :: string
  ge_stealthAddress :: string
  ge_ephemeralPrivKeyHex :: "string option"
  ge_createdAt :: rat

definition mem_markSpent :: "string \<Rightarrow> (string \<times> PoolNote) list \<Rightarrow> (string \<times> PoolNote) list" where
  "mem_markSpent commitment notes =
     (case map_of notes commitment of
        Some note \<Rightarrow> AList.update commitment (note\<lparr>note_spent := True\<rparr>) notes
      | None \<Rightarrow> notes)"

definition MemoryNoteStore :: "((string \<times> PoolNote) list \<times> 'w, PoolNote) NoteStore" where
  "MemoryNoteStore =
     \<lparr>notes_list = gets (\<lambda>(notes, w). map snd notes),
      notes_add = (\<lambda>note. upd (\<lambda>(notes, w). (AList.update (note_commitment note) note notes, w))),
      notes_markSpent = (\<lambda>commitment. upd (\<lambda>(notes, w). (mem_markSpent commitment notes, w)))\<rparr>"

definition MemoryVaultStore :: "((string \<times> GhostEntryLike) list \<times> 'w, GhostEntryLike) VaultStore" where
  "MemoryVaultStore =
     \<lparr>listGhosts = gets (\<lambda>(entries, w). map snd entries),
      saveGhost = (\<lambda>entry. upd (\<lambda>(entries, w). (AList.update (ge_stealthAddress entry) entry entries, w)))\<rparr>"


section \<open>Envelopes\<close>

record ('w, 'k) web_crypto =
  getRandomValues :: "nat \<Rightarrow> ('w, byte list) prog"
  wc_deriveKey :: "byte list \<Rightarrow> byte list \<Rightarrow> 'k"
  wc_encrypt :: "'k \<Rightarrow> byte list \<Rightarrow> byte list \<Rightarrow> byte list"
  wc_decrypt :: "'k \<Rightarrow> byte list \<Rightarrow> byte list \<Rightarrow> byte list res"

definition SALT_BYTES :: nat where "SALT_BYTES = 16"

definition IV_BYTES :: nat where "IV_BYTES = 12"

definition ENVELOPE_VERSION :: rat where "ENVELOPE_VERSION = 1"

definition deriveKey :: "('w, 'k) web_crypto \<Rightarrow> string \<Rightarrow> byte list \<Rightarrow> 'k" where
  "deriveKey C password salt = wc_deriveKey C (utf8 password) salt"

definition encryptEnvelope :: "('w, 'k) web_crypto \<Rightarrow> jv \<Rightarrow> string \<Rightarrow> ('w, jv) prog" where
  "encryptEnvelope C data password =
     bnd (getRandomValues C SALT_BYTES) (\<lambda>salt.
     bnd (getRandomValues C IV_BYTES) (\<lambda>iv.
     let key = deriveKey C password salt;
         ciphertext = wc_encrypt C key iv (utf8 (json_stringify data))
     in ret (JObj [(''version'', JNum ENVELOPE_VERSION), (''salt'', JStr (bytesToBase64 salt)),
          (''iv'', JStr (bytesToBase64 iv)), (''ciphertext'', JStr (bytesToBase64 ciphertext))])))"

definition corrupt_payload :: "string \<Rightarrow> js_error" where
  "corrupt_payload what = StorageError (''Corrupt encrypted storage payload: '' @ what) ''corrupt-payload''"

definition wrong_passphrase :: js_error where
  "wrong_passphrase = StorageError ''Failed to decrypt storage payload: wrong passphrase or corrupted data.'' ''wrong-passphrase''"

definition map_error :: "js_error \<Rightarrow> 'a res \<Rightarrow> 'a res" where
  "map_error e r = (case r of Inl _ \<Rightarrow> Inl e | Inr x \<Rightarrow> Inr x)"

definition decryptEnvelope :: "('w, 'k) web_crypto \<Rightarrow> string \<Rightarrow> string \<Rightarrow> jv res" where
  "decryptEnvelope C raw password =
     res_bind (map_error (corrupt_payload ''not valid JSON.'') (json_parse raw)) (\<lambda>envelope.
     if envelope = JNull then Inl (TypeError ''Cannot read properties of null'')
     else if jv_get envelope ''version'' \<noteq> JNum ENVELOPE_VERSION \<or> \<not> is_string (jv_get envelope ''salt'')
          \<or> \<not> is_string (jv_get envelope ''iv'') \<or> \<not> is_string (jv_get envelope ''ciphertext'')
     then Inl (corrupt_payload ''missing or unsupported envelope fields.'')
     else
     res_bind (map_error (corrupt_payload ''invalid base64.'')
       (res_bind (base64ToBytes (the_string (jv_get envelope ''salt''))) (\<lambda>salt.
        res_bind (base64ToBytes (the_string (jv_get envelope ''iv''))) (\<lambda>iv.
        res_bind (base64ToBytes (the_string (jv_get envelope ''ciphertext''))) (\<lambda>ciphertext.
        Inr (salt, iv, ciphertext)))))) (\<lambda>(salt, iv, ciphertext).
     map_error wrong_passphrase
       (res_bind (wc_decrypt C (deriveKey C password salt) iv ciphertext) (\<lambda>plaintext.
        json_parse (text_decode plaintext)))))"


section \<open>Backends\<close>

record 'w EncryptedStorageBackend =
  be_read :: "string \<Rightarrow> ('w, string option) prog"
  be_write :: "string \<Rightarrow> string \<Rightarrow> ('w, unit) prog"

definition memoryBackend :: "((string \<times> string) list \<times> 'w) EncryptedStorageBackend" where
  "memoryBackend =
     \<lparr>be_read = (\<lambda>key. gets (\<lambda>(m, w). map_of m key)),
      be_write = (\<lambda>key v. upd (\<lambda>(m, w). (AList.update key v m, w)))\<rparr>"

text \<open>
  The browser's \<open>localStorage\<close>, where there is one, is a map of strings as well.
\<close>

definition localStorageBackend :: "(((string \<times> string) list option) \<times> 'w) EncryptedStorageBackend" where
  "localStorageBackend =
     \<lparr>be_read = (\<lambda>key. gets (\<lambda>(ls, w). case ls of None \<Rightarrow> None | Some m \<Rightarrow> map_of m key)),
      be_write = (\<lambda>key v s. case s of
         (None, w) \<Rightarrow> throw (StorageError ''localStorage is not available in this environment.'' ''corrupt-payload'') s
       | (Some m, w) \<Rightarrow> (Inr (), (Some (AList.update key v m), w)))\<rparr>"

text \<open>
  Files: \<open>writeFile\<close> opens the file, which empties it, and then writes the contents. Every call may
  fail, and every state in between is one a crash may leave behind.
\<close>

definition backend_path :: "string \<Rightarrow> string \<Rightarrow> string" where
  "backend_path dir key = dir @ ''/'' @ key @ ''.json''"

definition writeFile :: "string \<Rightarrow> string \<Rightarrow> (fs, unit) prog" where
  "writeFile path contents =
     bnd (openSync path) (\<lambda>_.
     bnd (fs_call (AList.update path contents)) (\<lambda>_.
     closeSync))"

definition fileBackend :: "string \<Rightarrow> fs EncryptedStorageBackend" where
  "fileBackend dir =
     \<lparr>be_read = (\<lambda>key. try_catch (bnd (readFileSync (backend_path dir key)) (\<lambda>s. ret (Some s)))
        (\<lambda>err. if err_message err = ''ENOENT'' then ret None else throw err)),
      be_write = (\<lambda>key v. bnd mkdirSync (\<lambda>_. writeFile (backend_path dir key) v))\<rparr>"


section \<open>Encrypted stores\<close>

record ('w, 'k) encrypted =
  enc_crypto :: "('w, 'k) web_crypto"
  enc_backend :: "'w EncryptedStorageBackend"
  enc_password :: string
  enc_key :: string

definition load_blob :: "('w, 'k) encrypted \<Rightarrow> jv \<Rightarrow> ('w, jv) prog" where
  "load_blob E initial =
     bnd (be_read (enc_backend E) (enc_key E)) (\<lambda>raw.
     if \<not> str_truthy raw then ret initial
     else of_res (decryptEnvelope (enc_crypto E) (the raw) (enc_password E)))"

definition save_blob :: "('w, 'k) encrypted \<Rightarrow> jv \<Rightarrow> ('w, unit) prog" where
  "save_blob E data =
     bnd (encryptEnvelope (enc_crypto E) data (enc_password E)) (\<lambda>envelope.
     be_write (enc_backend E) (enc_key E) (json_stringify envelope))"

text \<open>
  The parsed value is used as an array; calling an array method on anything else throws. (Listing hands the
  value out unchecked; its first use as an array then throws.)
\<close>

definition as_array :: "string \<Rightarrow> jv \<Rightarrow> jv list res" where
  "as_array method v = (case v of JArr xs \<Rightarrow> Inr xs | _ \<Rightarrow> Inl (TypeError (''value.'' @ method @ '' is not a function'')))"

definition jv_set :: "string \<Rightarrow> jv \<Rightarrow> jv \<Rightarrow> jv" where
  "jv_set k x v = (case v of JObj m \<Rightarrow> JObj (AList.update k x m) | _ \<Rightarrow> JObj [(k, x)])"

text \<open>Reading a property of a \<open>null\<close> element throws; spreading another element gives its own properties.\<close>

definition mark_note :: "string \<Rightarrow> jv \<Rightarrow> jv res" where
  "mark_note commitment n =
     (if n = JNull then Inl (TypeError ''Cannot read properties of null'')
      else Inr (if jv_get n ''commitment'' = JStr commitment then jv_set ''spent'' (JBool True) n else n))"

definition EncryptedNoteStore :: "('w, 'k) encrypted \<Rightarrow> ('w, jv) NoteStore" where
  "EncryptedNoteStore E =
     \<lparr>notes_list = bnd (load_blob E (JArr [])) (\<lambda>v. of_res (as_array ''map'' v)),
      notes_add = (\<lambda>note.
        bnd (load_blob E (JArr [])) (\<lambda>v.
        bnd (of_res (as_array ''push'' v)) (\<lambda>notes.
        save_blob E (JArr (notes @ [note]))))),
      notes_markSpent = (\<lambda>commitment.
        bnd (load_blob E (JArr [])) (\<lambda>v.
        bnd (of_res (as_array ''map'' v)) (\<lambda>notes.
        bnd (of_res (res_map (mark_note commitment) notes)) (\<lambda>updated.
        save_blob E (JArr updated)))))\<rparr>"

fun replace_or_push :: "jv \<Rightarrow> jv list \<Rightarrow> jv list res" where
  "replace_or_push entry [] = Inr [entry]"
| "replace_or_push entry (e # es) =
     (if e = JNull then Inl (TypeError ''Cannot read properties of null'')
      else if jv_get e ''stealthAddress'' = jv_get entry ''stealthAddress'' then Inr (entry # es)
      else res_bind (replace_or_push entry es) (\<lambda>es. Inr (e # es)))"

definition EncryptedVaultStore :: "('w, 'k) encrypted \<Rightarrow> ('w, jv) VaultStore" where
  "EncryptedVaultStore E =
     \<lparr>listGhosts = bnd (load_blob E (JArr [])) (\<lambda>v. of_res (as_array ''map'' v)),
      saveGhost = (\<lambda>entry.
        bnd (load_blob E (JArr [])) (\<lambda>v.
        bnd (of_res (as_array ''findIndex'' v)) (\<lambda>entries.
        bnd (of_res (replace_or_push entry entries)) (\<lambda>entries.
        save_blob E (JArr entries)))))\<rparr>"

definition load_cursors :: "('w, 'k) encrypted \<Rightarrow> ('w, jv) prog" where
  "load_cursors E =
     bnd (be_read (enc_backend E) (enc_key E)) (\<lambda>raw.
     if \<not> str_truthy raw then ret (JObj [])
     else bnd (of_res (decryptEnvelope (enc_crypto E) (the raw) (enc_password E))) (\<lambda>stored.
       ret (case stored of JNum _ \<Rightarrow> JObj [([], stored)] | JObj _ \<Rightarrow> stored | JArr _ \<Rightarrow> stored | _ \<Rightarrow> JObj [])))"

definition cursor_of :: "jv \<Rightarrow> int option" where
  "cursor_of v = (case v of JNum r \<Rightarrow> Some \<lfloor>r\<rfloor> | _ \<Rightarrow> None)"

text \<open>
  Cursors are whole numbers; other values in the blob are not modelled. A property set on an array does not
  reach its JSON form.
\<close>

definition set_cursor :: "string \<Rightarrow> int \<Rightarrow> jv \<Rightarrow> jv" where
  "set_cursor identity ledger cursors =
     (case cursors of JArr _ \<Rightarrow> cursors | _ \<Rightarrow> jv_set identity (JNum (of_int ledger)) cursors)"

definition EncryptedScanStore :: "('w, 'k) encrypted \<Rightarrow> 'w ScanStore" where
  "EncryptedScanStore E =
     \<lparr>getCursor = (\<lambda>identity. bnd (load_cursors E) (\<lambda>cursors. ret (cursor_of (jv_get cursors identity)))),
      setCursor = (\<lambda>ledger identity.
        bnd (load_cursors E) (\<lambda>cursors.
        save_blob E (set_cursor identity ledger cursors)))\<rparr>"

end
