(* ===== verification/Sdk_Storage_Props.thy ===== *)
theory Sdk_Storage_Props
  imports Sdk_Storage
begin

text \<open>
  The contract of a note store as the locale \<open>note_store\<close>, with what clients get from it, and its
  implementations: the in-memory store, and the encrypted store over any backend whose writes are all or
  nothing. The file backend is not one of these: a crash while it writes loses every note.
\<close>

section \<open>The contract\<close>

datatype 'n note_op = AddNote 'n | SpendNote string

definition do_op :: "('w, 'n) NoteStore \<Rightarrow> 'n note_op \<Rightarrow> ('w, unit) prog" where
  "do_op st op = (case op of AddNote n \<Rightarrow> notes_add st n | SpendNote c \<Rightarrow> notes_markSpent st c)"

locale note_store =
  fixes st :: "('w, 'n) NoteStore"
    and contents :: "'w \<Rightarrow> 'n list option"
    and note_key :: "'n \<Rightarrow> string"
    and spend :: "'n \<Rightarrow> 'n"
    and storable :: "'n \<Rightarrow> bool"
  assumes list_law: "contents w = Some xs \<Longrightarrow>
      wp (notes_list st) (\<lambda>ys w'. ys = xs \<and> contents w' = Some xs) (\<lambda>_ w'. contents w' = Some xs) w"
    and add_law: "contents w = Some xs \<Longrightarrow> storable n \<Longrightarrow>
      wp (notes_add st n)
        (\<lambda>_ w'. \<exists>ys. contents w' = Some ys \<and> set ys \<subseteq> insert n (set xs) \<and> n \<in> set ys
           \<and> (\<forall>x \<in> set xs. note_key x \<noteq> note_key n \<longrightarrow> x \<in> set ys))
        (\<lambda>_ w'. contents w' = Some xs) w"
    and spend_law: "contents w = Some xs \<Longrightarrow>
      wp (notes_markSpent st c)
        (\<lambda>_ w'. contents w' = Some (map (\<lambda>x. if note_key x = c then spend x else x) xs))
        (\<lambda>_ w'. contents w' = Some xs) w"
    and spend_key: "note_key (spend x) = note_key x"
begin

text \<open>Whatever is done with the store, and whichever calls fail, no note is lost.\<close>

lemma op_keeps:
  assumes "contents w = Some xs" "\<forall>n. op = AddNote n \<longrightarrow> storable n"
  shows "wp (ignore_error (do_op st op)) (\<lambda>_ w'. \<exists>ys. contents w' = Some ys \<and> note_key ` set xs \<subseteq> note_key ` set ys) (\<lambda>_ _. False) w"
proof (cases op)
  case (AddNote n)
  have keep: "note_key ` set xs \<subseteq> note_key ` set ys" if "n \<in> set ys" "\<forall>x \<in> set xs. note_key x \<noteq> note_key n \<longrightarrow> x \<in> set ys" for ys
    using that by (metis image_eqI image_subset_iff)
  show ?thesis
    using wp_mono [OF add_law [OF assms(1), of n]] assms(2) keep
    by (simp add: AddNote do_op_def) (smt (verit, ccfv_threshold) assms(1) order_refl wp_mono)
next
  case (SpendNote c)
  have "map note_key (map (\<lambda>x. if note_key x = c then spend x else x) xs) = map note_key xs" by (simp add: spend_key)
  from arg_cong [OF this, of set]
  have "note_key ` set (map (\<lambda>x. if note_key x = c then spend x else x) xs) = note_key ` set xs" by (simp only: set_map)
  then have "\<exists>ys. contents w' = Some ys \<and> note_key ` set xs \<subseteq> note_key ` set ys"
    if "contents w' = Some (map (\<lambda>x. if note_key x = c then spend x else x) xs)" for w'
    using that by blast
  then show ?thesis
    unfolding wp_ignore_error SpendNote do_op_def note_op.case by (intro wp_mono [OF spend_law [OF assms(1), of c]]) auto
qed

lemma ops_keep:
  assumes "contents w = Some xs" "\<forall>n. AddNote n \<in> set ops \<longrightarrow> storable n"
  shows "wp (prog_iter (\<lambda>op. ignore_error (do_op st op)) ops)
     (\<lambda>_ w'. \<exists>ys. contents w' = Some ys \<and> note_key ` set xs \<subseteq> note_key ` set ys) (\<lambda>_ _. False) w"
proof (rule wp_prog_iter)
  fix op w1
  assume op: "op \<in> set ops" and "\<exists>ys. contents w1 = Some ys \<and> note_key ` set xs \<subseteq> note_key ` set ys"
  then obtain ys where ys: "contents w1 = Some ys" "note_key ` set xs \<subseteq> note_key ` set ys" by blast
  have "\<forall>n. op = AddNote n \<longrightarrow> storable n" using assms(2) op by blast
  then show "wp (ignore_error (do_op st op)) (\<lambda>_ w'. \<exists>ys. contents w' = Some ys \<and> note_key ` set xs \<subseteq> note_key ` set ys) (\<lambda>_ _. False) w1"
    using subset_trans [OF ys(2)] by (intro wp_mono [OF op_keeps [OF ys(1)]]) auto
qed (use assms(1) in blast)

end


section \<open>The in-memory store\<close>

definition memory_notes :: "(string \<times> PoolNote) list \<times> 'w \<Rightarrow> PoolNote list option" where
  "memory_notes s = (if distinct_keys (fst s) \<and> (\<forall>(k, n) \<in> set (fst s). k = note_commitment n) then Some (map snd (fst s)) else None)"

lemma update_present:
  assumes "distinct_keys m" "map_of m k = Some v"
  shows "AList.update k v' m = map (\<lambda>(k', x). if k' = k then (k, v') else (k', x)) m"
  using assms
proof (induction m)
  case (Cons p m)
  have "map (\<lambda>(k', x). if k' = k then (k, v') else (k', x)) m = m" if "k \<notin> fst ` set m"
    using that by (intro map_idI) (auto simp: image_iff)
  with Cons show ?case by (cases p) auto
qed simp

interpretation memory_store: note_store MemoryNoteStore memory_notes note_commitment "\<lambda>n. n\<lparr>note_spent := True\<rparr>" "\<lambda>_. True"
proof
  fix w :: "(string \<times> PoolNote) list \<times> 'w" and xs n c
  assume "memory_notes w = Some xs"
  then obtain m v where w: "w = (m, v)" "distinct_keys m" "\<forall>(k, n) \<in> set m. k = note_commitment n" "xs = map snd m"
    by (cases w) (auto simp: memory_notes_def split: if_splits)
  show "wp (notes_list MemoryNoteStore) (\<lambda>ys w'. ys = xs \<and> memory_notes w' = Some xs) (\<lambda>_ w'. memory_notes w' = Some xs) w"
    using w by (simp add: MemoryNoteStore_def memory_notes_def)
  have keys: "distinct_keys (AList.update k x m)" for k x using w(2) by (simp add: distinct_update)
  show "wp (notes_add MemoryNoteStore n)
      (\<lambda>_ w'. \<exists>ys. memory_notes w' = Some ys \<and> set ys \<subseteq> insert n (set xs) \<and> n \<in> set ys
         \<and> (\<forall>x \<in> set xs. note_commitment x \<noteq> note_commitment n \<longrightarrow> x \<in> set ys))
      (\<lambda>_ w'. memory_notes w' = Some xs) w"
  proof -
    let ?m = "AList.update (note_commitment n) n m"
    have mem: "(k, x) \<in> set ?m \<longleftrightarrow> (if k = note_commitment n then x = n else (k, x) \<in> set m)" for k x
      using map_of_eq_Some_iff [OF keys [of "note_commitment n" n], of k x] map_of_eq_Some_iff [OF w(2), of k x]
      by (auto simp: update_conv)
    have all: "\<forall>(k, x) \<in> set ?m. k = note_commitment x" using mem w(3) by (fastforce split: if_splits)
    have sub: "x \<in> insert n (snd ` set m)" if "x \<in> snd ` set ?m" for x
      using that mem by (force split: if_splits)
    have new: "n \<in> snd ` set ?m" using mem [of "note_commitment n" n] by force
    have old: "x \<in> snd ` set ?m" if "x \<in> snd ` set m" "note_commitment x \<noteq> note_commitment n" for x
    proof -
      have "(note_commitment x, x) \<in> set m" using that(1) w(3) by fastforce
      then show ?thesis using mem [of "note_commitment x" x] that(2) by force
    qed
    show ?thesis
      using keys all sub new old by (simp add: w(1,4) MemoryNoteStore_def memory_notes_def subset_iff)
  qed
  show "wp (notes_markSpent MemoryNoteStore c)
      (\<lambda>_ w'. memory_notes w' = Some (map (\<lambda>x. if note_commitment x = c then x\<lparr>note_spent := True\<rparr> else x) xs))
      (\<lambda>_ w'. memory_notes w' = Some xs) w"
  proof (cases "map_of m c")
    case None
    then have "note_commitment x \<noteq> c" if "x \<in> set xs" for x
      using that w(3,4) by (force simp: map_of_eq_None_iff)
    then have "map (\<lambda>x. if note_commitment x = c then x\<lparr>note_spent := True\<rparr> else x) xs = xs" by (simp add: map_idI)
    then show ?thesis using w by (simp add: MemoryNoteStore_def memory_notes_def mem_markSpent_def None)
  next
    case (Some nt)
    then have nt: "(c, nt) \<in> set m" "note_commitment nt = c" using map_of_SomeD w(3) by fastforce+
    have upd: "AList.update c (nt\<lparr>note_spent := True\<rparr>) m = map (\<lambda>(k, x). if k = c then (c, nt\<lparr>note_spent := True\<rparr>) else (k, x)) m"
      by (rule update_present [OF w(2) Some])
    have same: "(if k = c then (c, nt\<lparr>note_spent := True\<rparr>) else (k, x)) = (k, if note_commitment x = c then x\<lparr>note_spent := True\<rparr> else x)"
      if "(k, x) \<in> set m" for k x
    proof -
      have "x = nt" if "k = c"
        using that \<open>(k, x) \<in> set m\<close> map_of_is_SomeI [OF w(2), of k x] Some by simp
      then show ?thesis using w(3) \<open>(k, x) \<in> set m\<close> nt(2) by fastforce
    qed
    have "map snd (AList.update c (nt\<lparr>note_spent := True\<rparr>) m) = map (\<lambda>x. if note_commitment x = c then x\<lparr>note_spent := True\<rparr> else x) xs"
      unfolding upd w(4) using same by (auto simp: comp_def)
    moreover have "\<forall>(k, x) \<in> set (AList.update c (nt\<lparr>note_spent := True\<rparr>) m). k = note_commitment x"
      unfolding upd using w(3) same nt(2) by fastforce
    ultimately show ?thesis
      using keys by (simp add: w(1) MemoryNoteStore_def memory_notes_def mem_markSpent_def Some)
  qed
qed simp


section \<open>Envelopes open again\<close>

definition crypto_ok :: "('w, 'k) web_crypto \<Rightarrow> bool" where
  "crypto_ok C \<longleftrightarrow> (\<forall>k iv p. wc_decrypt C k iv (wc_encrypt C k iv p) = Inr p)"

definition sealed :: "('w, 'k) web_crypto \<Rightarrow> string \<Rightarrow> jv \<Rightarrow> byte list \<Rightarrow> byte list \<Rightarrow> jv" where
  "sealed C password data salt iv =
     JObj [(''version'', JNum 1), (''salt'', JStr (bytesToBase64 salt)), (''iv'', JStr (bytesToBase64 iv)),
       (''ciphertext'', JStr (bytesToBase64 (wc_encrypt C (deriveKey C password salt) iv (utf8 (json_stringify data)))))]"

lemma envelope_opens:
  assumes "crypto_ok C" "json_printable data"
  shows "decryptEnvelope C (json_stringify (sealed C password data salt iv)) password = Inr data"
proof -
  have "json_parse (json_stringify (sealed C password data salt iv)) = Inr (sealed C password data salt iv)"
    by (rule json_parse_stringify) (simp add: sealed_def)
  moreover have "wc_decrypt C (deriveKey C password salt) iv (wc_encrypt C (deriveKey C password salt) iv p) = Inr p" for p
    using assms(1) by (simp add: crypto_ok_def)
  ultimately show ?thesis
    using json_parse_stringify [OF assms(2)]
    by (simp add: decryptEnvelope_def map_error_def sealed_def ENVELOPE_VERSION_def)
qed


section \<open>The encrypted store\<close>

text \<open>
  What the store needs of its backend: a map of blobs, where a write that fails changes nothing, and random
  numbers and reads that do not touch it.
\<close>

locale blob_backend =
  fixes be :: "'w EncryptedStorageBackend"
    and blobs :: "'w \<Rightarrow> string \<Rightarrow> string option"
  assumes read_law: "wp (be_read be k) (\<lambda>v w'. v = blobs w k \<and> blobs w' = blobs w) (\<lambda>_ w'. blobs w' = blobs w) w"
    and write_law: "wp (be_write be k v) (\<lambda>_ w'. blobs w' = (blobs w)(k \<mapsto> v)) (\<lambda>_ w'. blobs w' = blobs w) w"

interpretation memory_blobs: blob_backend memoryBackend "map_of \<circ> fst"
  by unfold_locales (auto simp: memoryBackend_def update_conv')

interpretation local_blobs: blob_backend localStorageBackend "\<lambda>s k. case fst s of None \<Rightarrow> None | Some m \<Rightarrow> map_of m k"
  by unfold_locales (auto simp: localStorageBackend_def wp_def update_conv' fun_eq_iff split: option.splits)

definition note_json :: "jv \<Rightarrow> bool" where
  "note_json n \<longleftrightarrow> json_printable n \<and> (\<exists>m. n = JObj m) \<and> is_string (jv_get n ''commitment'')"

definition stored_notes :: "('w, 'k) web_crypto \<Rightarrow> string \<Rightarrow> string option \<Rightarrow> jv list option" where
  "stored_notes C password raw =
     (if \<not> str_truthy raw then Some []
      else case decryptEnvelope C (the raw) password of
        Inr (JArr xs) \<Rightarrow> if list_all note_json xs then Some xs else None
      | _ \<Rightarrow> None)"

abbreviation json_key :: "jv \<Rightarrow> string" where
  "json_key n \<equiv> the_string (jv_get n ''commitment'')"

abbreviation json_spend :: "jv \<Rightarrow> jv" where
  "json_spend n \<equiv> jv_set ''spent'' (JBool True) n"

lemma list_all_update:
  "list_all (\<lambda>(k, v). P v) m \<Longrightarrow> P v \<Longrightarrow> list_all (\<lambda>(k, v). P v) (AList.update k v m)"
  by (induction m) auto

lemma json_spend:
  assumes "note_json n"
  shows "note_json (json_spend n)" "json_key (json_spend n) = json_key n"
proof -
  obtain m where m: "n = JObj m" "json_printable (JObj m)" "is_string (jv_get (JObj m) ''commitment'')"
    using assms by (auto simp: note_json_def)
  have "distinct (map fst (AList.update ''spent'' (JBool True) m))" using m(2) by (simp add: distinct_update)
  moreover have "list_all (\<lambda>(k, v). json_printable v) (AList.update ''spent'' (JBool True) m)"
    using m(2) by (simp add: list_all_update)
  ultimately show "note_json (json_spend n)" "json_key (json_spend n) = json_key n"
    using m by (auto simp: note_json_def jv_set_def jv_get_def update_conv split: option.splits)
qed

lemma mark_notes:
  assumes "list_all note_json xs"
  shows "res_map (mark_note c) xs = Inr (map (\<lambda>x. if json_key x = c then json_spend x else x) xs)"
proof -
  have "mark_note c x = Inr (if json_key x = c then json_spend x else x)" if "note_json x" for x
    using that by (auto simp: mark_note_def note_json_def is_string_iff)
  with assms show ?thesis by (induction xs) simp_all
qed

locale encrypted_store = blob_backend be blobs
  for be :: "'w EncryptedStorageBackend" and blobs +
  fixes E :: "('w, 'k) encrypted"
  assumes backend: "enc_backend E = be"
    and random: "wp (getRandomValues (enc_crypto E) n) (\<lambda>_ w'. blobs w' = blobs w) (\<lambda>_ w'. blobs w' = blobs w) w"
    and crypto: "crypto_ok (enc_crypto E)"
begin

abbreviation held :: "'w \<Rightarrow> jv list option" where
  "held w \<equiv> stored_notes (enc_crypto E) (enc_password E) (blobs w (enc_key E))"

lemma load_held:
  assumes "held w = Some xs"
  shows "wp (load_blob E (JArr [])) (\<lambda>v w'. v = JArr xs \<and> blobs w' = blobs w) (\<lambda>_ w'. blobs w' = blobs w) w"
  using assms unfolding load_blob_def backend
  by (auto intro!: wp_mono [OF read_law] simp: stored_notes_def split: if_splits sum.splits jv.splits)

lemma save_held:
  assumes "json_printable data"
  shows "wp (save_blob E data)
     (\<lambda>_ w'. \<exists>raw. blobs w' = (blobs w)(enc_key E \<mapsto> raw) \<and> raw \<noteq> [] \<and> decryptEnvelope (enc_crypto E) raw (enc_password E) = Inr data)
     (\<lambda>_ w'. blobs w' = blobs w) w"
proof -
  have "wp (be_write be (enc_key E) (json_stringify (sealed (enc_crypto E) (enc_password E) data salt iv)))
     (\<lambda>_ w'. \<exists>raw. blobs w' = (blobs w)(enc_key E \<mapsto> raw) \<and> raw \<noteq> [] \<and> decryptEnvelope (enc_crypto E) raw (enc_password E) = Inr data)
     (\<lambda>_ w'. blobs w' = blobs w) w1" if "blobs w1 = blobs w" for salt iv w1
    using envelope_opens [OF crypto assms, of "enc_password E" salt iv] that
    by (intro wp_mono [OF write_law]) (auto simp: json_stringify_def sealed_def)
  note put = this [unfolded sealed_def]
  show ?thesis
    unfolding save_blob_def encryptEnvelope_def backend Let_def
    by (simp add: ENVELOPE_VERSION_def, rule wp_mono [OF random], rule wp_mono [OF random], rule put) auto
qed

lemma held_json: "held w = Some xs \<Longrightarrow> list_all note_json xs"
  by (auto simp: stored_notes_def split: if_splits sum.splits jv.splits)

lemma save_notes:
  assumes "list_all note_json xs" "blobs w = b"
  shows "wp (save_blob E (JArr xs)) (\<lambda>_ w'. held w' = Some xs) (\<lambda>_ w'. blobs w' = b) w"
proof -
  have "json_printable (JArr xs)" using assms(1) by (simp add: list_all_iff note_json_def)
  then show ?thesis
    by (rule wp_mono [OF save_held]) (use assms in \<open>auto simp: stored_notes_def str_truthy_def\<close>)
qed

end

sublocale encrypted_store \<subseteq> note_store "EncryptedNoteStore E" held json_key json_spend note_json
proof
  fix w xs n c
  assume held: "held w = Some xs"
  have same: "held w' = Some xs" if "blobs w' = blobs w" for w' using held that by simp
  show "wp (notes_list (EncryptedNoteStore E)) (\<lambda>ys w'. ys = xs \<and> held w' = Some xs) (\<lambda>_ w'. held w' = Some xs) w"
    unfolding EncryptedNoteStore_def
    by (simp, rule wp_mono [OF load_held [OF held]]) (use held in \<open>auto simp: as_array_def\<close>)
  show "wp (notes_markSpent (EncryptedNoteStore E) c)
      (\<lambda>_ w'. held w' = Some (map (\<lambda>x. if json_key x = c then json_spend x else x) xs)) (\<lambda>_ w'. held w' = Some xs) w"
  proof -
    have xs: "list_all note_json xs" by (rule held_json [OF held])
    then have "list_all note_json (map (\<lambda>x. if json_key x = c then json_spend x else x) xs)"
      using json_spend(1) by (auto simp: list_all_iff)
    from save_notes [OF this]
    have "wp (save_blob E (JArr (map (\<lambda>x. if json_key x = c then json_spend x else x) xs)))
        (\<lambda>_ w'. held w' = Some (map (\<lambda>x. if json_key x = c then json_spend x else x) xs)) (\<lambda>_ w'. held w' = Some xs) w1"
      if "blobs w1 = blobs w" for w1
      using that same by (blast intro: wp_mono)
    then show ?thesis
      unfolding EncryptedNoteStore_def
      by (simp, intro wp_mono [OF load_held [OF held]]) (auto simp: as_array_def mark_notes [OF xs] same)
  qed
  show "wp (notes_add (EncryptedNoteStore E) n)
      (\<lambda>_ w'. \<exists>ys. held w' = Some ys \<and> set ys \<subseteq> insert n (set xs) \<and> n \<in> set ys \<and> (\<forall>x \<in> set xs. json_key x \<noteq> json_key n \<longrightarrow> x \<in> set ys))
      (\<lambda>_ w'. held w' = Some xs) w" if "note_json n"
  proof -
    have "list_all note_json (xs @ [n])" using that held_json [OF held] by simp
    note put = save_notes [OF this]
    have "wp (save_blob E (JArr (xs @ [n])))
        (\<lambda>_ w'. \<exists>ys. held w' = Some ys \<and> set ys \<subseteq> insert n (set xs) \<and> n \<in> set ys \<and> (\<forall>x \<in> set xs. json_key x \<noteq> json_key n \<longrightarrow> x \<in> set ys))
        (\<lambda>_ w'. held w' = Some xs) w1" if "blobs w1 = blobs w" for w1
      by (rule wp_mono [OF put [OF that]]) (auto simp: same)
    then show ?thesis
      unfolding EncryptedNoteStore_def
      by (simp, intro wp_mono [OF load_held [OF held]]) (auto simp: as_array_def same)
  qed
next
  show "json_key (json_spend x) = json_key x" for x
    by (cases x) (auto simp: jv_set_def jv_get_def update_conv the_string_def split: option.splits)
qed

context encrypted_store
begin

lemma keeps_contract: "note_store (EncryptedNoteStore E) held json_key json_spend note_json"
  by unfold_locales

end

text \<open>A cipher that prefixes the key, over memory: enough to satisfy the laws and to tell a wrong password.\<close>

definition tag_crypto :: "('w, byte list) web_crypto" where
  "tag_crypto = \<lparr>getRandomValues = (\<lambda>n. ret (replicate n 0)), wc_deriveKey = (\<lambda>p salt. p), wc_encrypt = (\<lambda>k iv p. k @ p),
     wc_decrypt = (\<lambda>k iv c. if take (length k) c = k then Inr (drop (length k) c) else Inl (Error ''OperationError''))\<rparr>"

definition memory_encrypted :: "string \<Rightarrow> ((string \<times> string) list \<times> 'w, byte list) encrypted" where
  "memory_encrypted password = \<lparr>enc_crypto = tag_crypto, enc_backend = memoryBackend, enc_password = password, enc_key = ''opaque:notes''\<rparr>"

interpretation memory_encrypted: encrypted_store memoryBackend "map_of \<circ> fst" "memory_encrypted password" for password
  by unfold_locales (auto simp: memory_encrypted_def tag_crypto_def crypto_ok_def)

text \<open>
  C37: an encrypted note store loses no note. Over a backend whose failed writes change nothing, and with a
  cipher that decrypts what it encrypted, after any sequence of additions and spend marks, any of which may
  fail, the stored blob still opens to a list of notes that holds every commitment it held before, and listing
  returns that list or fails without changing it.
\<close>

theorem encrypted_notes_never_lost:
  assumes "encrypted_store be blobs E"
    and "stored_notes (enc_crypto E) (enc_password E) (blobs w (enc_key E)) = Some xs"
    and "\<forall>n. AddNote n \<in> set ops \<longrightarrow> note_json n"
    and "prog_iter (\<lambda>op. ignore_error (do_op (EncryptedNoteStore E) op)) ops w = (r, w')"
  shows "r = Inr () \<and> (\<exists>ys. stored_notes (enc_crypto E) (enc_password E) (blobs w' (enc_key E)) = Some ys
      \<and> json_key ` set xs \<subseteq> json_key ` set ys
      \<and> (\<forall>zs w''. notes_list (EncryptedNoteStore E) w' = (Inr zs, w'') \<longrightarrow> zs = ys))"
proof -
  note store = encrypted_store.keeps_contract [OF assms(1)]
  have "case r of Inl _ \<Rightarrow> False | Inr _ \<Rightarrow> \<exists>ys. stored_notes (enc_crypto E) (enc_password E) (blobs w' (enc_key E)) = Some ys \<and> json_key ` set xs \<subseteq> json_key ` set ys"
    using note_store.ops_keep [OF store assms(2,3)] assms(4) by (simp add: wp_def)
  then obtain ys where r: "r = Inr ()" and ys: "stored_notes (enc_crypto E) (enc_password E) (blobs w' (enc_key E)) = Some ys" "json_key ` set xs \<subseteq> json_key ` set ys"
    by (auto split: sum.splits)
  moreover have "zs = ys" if "notes_list (EncryptedNoteStore E) w' = (Inr zs, w'')" for zs w''
    using wp_InrD [OF note_store.list_law [OF store ys(1)] that] by simp
  ultimately show ?thesis by blast
qed

definition example_note :: "string \<Rightarrow> jv" where
  "example_note c = JObj [(''commitment'', JStr c), (''spent'', JBool False)]"

lemma example_note_json: "note_json (example_note c)"
  by (simp add: example_note_def note_json_def)

theorem encrypted_notes_never_lost_witness:
  "\<exists>ys w'. snd (prog_iter (\<lambda>op. ignore_error (do_op (EncryptedNoteStore (memory_encrypted ''pw'')) op))
      [AddNote (example_note ''0x01''), SpendNote ''0x01'', AddNote (example_note ''0x02'')] ([], ())) = w'
     \<and> stored_notes (tag_crypto :: ((string \<times> string) list \<times> unit, byte list) web_crypto) ''pw'' (map_of (fst w') ''opaque:notes'') = Some ys"
  using encrypted_notes_never_lost [OF memory_encrypted.encrypted_store_axioms [of "''pw''"], where w = "([], ())" and xs = "[]"
      and ops = "[AddNote (example_note ''0x01''), SpendNote ''0x01'', AddNote (example_note ''0x02'')]", OF _ _ prod.collapse [symmetric]]
    example_note_json
  by (auto simp: memory_encrypted_def stored_notes_def str_truthy_def)


section \<open>Passwords and crashes\<close>

text \<open>
  A wrong password destroys nothing. When the stored blob does not open with the password of the store,
  listing, adding and marking all throw the error of the decryption, and none of them writes.
\<close>

lemma wrong_password_destroys_nothing:
  assumes "be_read (enc_backend E) (enc_key E) w = (Inr (Some raw), w)" "raw \<noteq> []"
    and "decryptEnvelope (enc_crypto E) raw (enc_password E) = Inl e"
  shows "notes_list (EncryptedNoteStore E) w = (Inl e, w) \<and> notes_add (EncryptedNoteStore E) n w = (Inl e, w)
    \<and> notes_markSpent (EncryptedNoteStore E) c w = (Inl e, w)"
proof -
  have "load_blob E (JArr []) w = (Inl e, w)"
    using assms by (simp add: load_blob_def bnd_def str_truthy_def of_res_def)
  then show ?thesis by (simp add: EncryptedNoteStore_def bnd_def)
qed

definition one_note :: "(string \<times> string) list \<times> unit" where
  "one_note = snd (notes_add (EncryptedNoteStore (memory_encrypted ''pw'')) (example_note ''0x01'') ([], ()))"

lemma one_note_locked:
  "case map_of (fst one_note) ''opaque:notes'' of None \<Rightarrow> False
   | Some raw \<Rightarrow> raw \<noteq> [] \<and> decryptEnvelope (tag_crypto :: ((string \<times> string) list \<times> unit, byte list) web_crypto) raw ''guess'' = Inl wrong_passphrase"
  by code_simp

lemma wrong_password_destroys_nothing_witness:
  "notes_add (EncryptedNoteStore (memory_encrypted ''guess'')) (example_note ''0x02'') one_note = (Inl wrong_passphrase, one_note)"
proof -
  obtain raw where raw: "map_of (fst one_note) ''opaque:notes'' = Some raw" "raw \<noteq> []"
    "decryptEnvelope (tag_crypto :: ((string \<times> string) list \<times> unit, byte list) web_crypto) raw ''guess'' = Inl wrong_passphrase"
    using one_note_locked by (auto split: option.splits)
  have "be_read (enc_backend (memory_encrypted ''guess'')) (enc_key (memory_encrypted ''guess'' :: ((string \<times> string) list \<times> unit, byte list) encrypted)) one_note
      = (Inr (Some raw), one_note)"
    using raw(1) by (simp add: memory_encrypted_def memoryBackend_def gets_def case_prod_beta)
  from wrong_password_destroys_nothing [OF this raw(2), of wrong_passphrase] raw(3)
  show ?thesis by (simp add: memory_encrypted_def)
qed

definition file_encrypted :: "string \<Rightarrow> (fs, byte list) encrypted" where
  "file_encrypted password = \<lparr>enc_crypto = tag_crypto, enc_backend = fileBackend ''d'', enc_password = password, enc_key = ''opaque:notes''\<rparr>"

lemma file_read:
  assumes "map_of (fs_files s) (backend_path dir k) = Some raw" "fs_faults s = None # fs \<or> fs_faults s = []"
  shows "be_read (fileBackend dir) k s = (Inr (Some raw), s\<lparr>fs_faults := tl (fs_faults s), fs_seen := fs_seen s @ [fs_files s]\<rparr>)"
  using assms by (auto simp: fileBackend_def readFileSync_def run_simps fs_call_def)

text \<open>
  Over the file backend one failed write loses every note. The file is emptied when it is opened for
  writing; when the write itself then fails, the addition throws, and from then on the store lists no notes at
  all, without an error, whatever notes were stored before.
\<close>

lemma failed_file_write_loses_notes:
  assumes "enc_backend E = fileBackend dir"
    and "map_of (fs_files s) (backend_path dir (enc_key E)) = Some raw" "raw \<noteq> []"
    and "decryptEnvelope (enc_crypto E) raw (enc_password E) = Inr (JArr notes)"
    and "\<forall>k t. getRandomValues (enc_crypto E) k t = (Inr (rnd k), t)"
    and "fs_faults s = [None, None, None, Some e]"
  shows "fst (notes_list (EncryptedNoteStore E) s) = Inr notes
    \<and> fst (notes_add (EncryptedNoteStore E) n s) = Inl e
    \<and> fst (notes_list (EncryptedNoteStore E) (snd (notes_add (EncryptedNoteStore E) n s))) = Inr []"
proof -
  let ?p = "backend_path dir (enc_key E)"
  define s1 where "s1 = s\<lparr>fs_faults := [None, None, Some e], fs_seen := fs_seen s @ [fs_files s]\<rparr>"
  have read: "load_blob E (JArr []) s = (Inr (JArr notes), s1)"
    using file_read [OF assms(2), of "[None, None, Some e]"] assms
    by (simp add: load_blob_def bnd_def str_truthy_def of_res_def s1_def)
  have "fst (save_blob E data s1) = Inl e \<and> map_of (fs_files (snd (save_blob E data s1))) ?p = Some [] \<and> fs_faults (snd (save_blob E data s1)) = []" for data
    using assms(1,5)
    by (simp add: save_blob_def encryptEnvelope_def bnd_def Let_def fileBackend_def mkdirSync_def writeFile_def openSync_def fs_call_def s1_def update_conv)
  then have add: "fst (notes_add (EncryptedNoteStore E) n s) = Inl e"
    "map_of (fs_files (snd (notes_add (EncryptedNoteStore E) n s))) ?p = Some []" "fs_faults (snd (notes_add (EncryptedNoteStore E) n s)) = []"
    using read by (simp_all add: EncryptedNoteStore_def bnd_def of_res_def as_array_def)
  have "fst (load_blob E (JArr []) t) = Inr (JArr [])" if "map_of (fs_files t) ?p = Some []" "fs_faults t = []" for t
    using file_read [OF that(1), of "[]"] that(2) assms(1) by (simp add: load_blob_def bnd_def str_truthy_def)
  moreover have "fst (notes_list (EncryptedNoteStore E) t) = Inr xs" if "fst (load_blob E (JArr []) t) = Inr (JArr xs)" for t xs
    using that by (cases "load_blob E (JArr []) t") (simp add: EncryptedNoteStore_def bnd_def of_res_def as_array_def)
  ultimately have "fst (notes_list (EncryptedNoteStore E) (snd (notes_add (EncryptedNoteStore E) n s))) = Inr []"
    using add(2,3) by blast
  with add(1) read show ?thesis by (simp add: EncryptedNoteStore_def bnd_def of_res_def as_array_def)
qed

definition sealed_note :: string where
  "sealed_note = json_stringify (sealed (tag_crypto :: (fs, byte list) web_crypto) ''pw'' (JArr [example_note ''0x01'']) (replicate 16 0) (replicate 12 0))"

definition full_disk :: fs where
  "full_disk = \<lparr>fs_files = [(''d/opaque:notes.json'', sealed_note)], fs_faults = [None, None, None, Some (Error ''ENOSPC'')], fs_short = [], fs_seen = [], fs_sequence = 0\<rparr>"

lemma sealed_note_opens:
  "decryptEnvelope (tag_crypto :: (fs, byte list) web_crypto) sealed_note ''pw'' = Inr (JArr [example_note ''0x01''])"
  unfolding sealed_note_def by (rule envelope_opens) (simp_all add: crypto_ok_def tag_crypto_def example_note_def)

lemma failed_file_write_loses_notes_witness:
  "fst (notes_list (EncryptedNoteStore (file_encrypted ''pw'')) full_disk) = Inr [example_note ''0x01'']
   \<and> fst (notes_list (EncryptedNoteStore (file_encrypted ''pw'')) (snd (notes_add (EncryptedNoteStore (file_encrypted ''pw'')) (example_note ''0x02'') full_disk))) = Inr []"
proof -
  have "sealed_note \<noteq> []" by (simp add: sealed_note_def json_stringify_def sealed_def)
  then show ?thesis
    using failed_file_write_loses_notes [of "file_encrypted ''pw''" "''d''" full_disk sealed_note "[example_note ''0x01'']" "\<lambda>k. replicate k 0" "Error ''ENOSPC''" "example_note ''0x02''"]
      sealed_note_opens
    by (simp add: file_encrypted_def full_disk_def backend_path_def tag_crypto_def)
qed

end
