(* ===== verification/Sdk_Codec.thy ===== *)
theory Sdk_Codec
  imports Sdk_Errors Sdk_Prove Json
begin

text \<open>
  Texts that the SDK reads and writes: amounts (\<open>sdk/src/crypto/amount.ts\<close>) with the check of a
  deposit (\<open>sdk/src/services/pool-validation.ts\<close>), versioned notes
  (\<open>sdk/src/crypto/note-codec.ts\<close>) and memos (\<open>sdk/src/crypto/memo.ts\<close>).
\<close>

section \<open>Amounts\<close>

definition MAX_DECIMALS :: nat where "MAX_DECIMALS = 7"

text \<open>\<open>/^-?\d+\.?\d*$/\<close>\<close>

definition unsigned_amount :: "string \<Rightarrow> bool" where
  "unsigned_amount s =
     (takeWhile is_digit s \<noteq> []
      \<and> (let r = dropWhile is_digit s in r = [] \<or> (hd r = CHR ''.'' \<and> list_all is_digit (tl r))))"

definition amount_syntax :: "string \<Rightarrow> bool" where
  "amount_syntax s = (case s of c # r \<Rightarrow> unsigned_amount (if c = CHR ''-'' then r else s) | [] \<Rightarrow> False)"

definition pad_end :: "nat \<Rightarrow> char \<Rightarrow> string \<Rightarrow> string" where
  "pad_end n c s = s @ replicate (n - length s) c"

text \<open>\<open>split(".")\<close> of a string with at most one point; an absent or empty part is replaced.\<close>

definition parseXlmToStroops :: "string \<Rightarrow> int res" where
  "parseXlmToStroops xlmString =
     (let trimmed = js_trim xlmString in
      if trimmed = [] then Inl (Error ''XLM amount cannot be empty'')
      else if \<not> amount_syntax trimmed then Inl (Error (''Invalid XLM amount: '' @ trimmed))
      else
      let isNegative = starts_with ''-'' trimmed;
          absolute = (if isNegative then drop 1 trimmed else trimmed);
          integerPart = takeWhile (\<lambda>c. c \<noteq> CHR ''.'') absolute;
          decimalPart = drop 1 (dropWhile (\<lambda>c. c \<noteq> CHR ''.'') absolute)
      in if length decimalPart > MAX_DECIMALS
         then Inl (Error (''XLM amount has too many decimal places (max '' @ dec_of_nat MAX_DECIMALS @ ''): '' @ trimmed))
         else
         res_bind (js_BigInt_str ((if integerPart = [] then ''0'' else integerPart) @ pad_end MAX_DECIMALS CHR ''0'' decimalPart)) (\<lambda>stroops.
         Inr (if isNegative then - stroops else stroops)))"

definition parseHorizonBalanceToStroops :: "string option \<Rightarrow> int" where
  "parseHorizonBalanceToStroops balanceString =
     (case balanceString of None \<Rightarrow> 0
      | Some s \<Rightarrow> if s = [] \<or> js_trim s = [] then 0
          else (case parseXlmToStroops s of Inr v \<Rightarrow> v | Inl _ \<Rightarrow> 0))"

definition strip_zeros :: "string \<Rightarrow> string" where
  "strip_zeros s = rev (dropWhile (\<lambda>c. c = CHR ''0'') (rev s))"

definition formatStroopsToXlm :: "int \<Rightarrow> string" where
  "formatStroopsToXlm stroops =
     (let isNegative = stroops < 0;
          absolute = \<bar>stroops\<bar>;
          stroopsString = pad_start (MAX_DECIMALS + 1) CHR ''0'' (dec_of_int absolute);
          cut = length stroopsString - MAX_DECIMALS;
          integerPart = (if take cut stroopsString = [] then ''0'' else take cut stroopsString);
          trimmedDecimal = strip_zeros (drop cut stroopsString)
      in (if isNegative then ''-'' else []) @ integerPart @ (if trimmedDecimal = [] then [] else ''.'' @ trimmedDecimal))"


section \<open>Deposit amounts\<close>

definition fractionalDigits :: "string \<Rightarrow> nat" where
  "fractionalDigits amountXlm =
     (let trimmed = js_trim amountXlm;
          unsigned = (if starts_with ''-'' trimmed then drop 1 trimmed else trimmed)
      in length (drop 1 (dropWhile (\<lambda>c. c \<noteq> CHR ''.'') unsigned)))"

text \<open>The precision is a JavaScript number; \<open>None\<close> is \<open>NaN\<close>, with which no comparison holds.\<close>

definition validateDepositAmount :: "string \<Rightarrow> int \<Rightarrow> rat option \<Rightarrow> unit res" where
  "validateDepositAmount amountXlm valueStroops decimals =
     (if valueStroops \<le> 0
      then Inl (PoolValidationError (''Deposit amount must be positive, got '' @ amountXlm @ '' XLM ('' @ dec_of_int valueStroops @ '' stroops)'') ''non-positive'')
      else if valueStroops \<ge> BN254_R
      then Inl (PoolValidationError (''Deposit amount '' @ dec_of_int valueStroops @ '' stroops exceeds the field modulus and cannot be committed'') ''exceeds-field-modulus'')
      else
      let digits = fractionalDigits amountXlm in
      case decimals of
        Some d \<Rightarrow>
          if rat_of_nat digits > d
          then Inl (PoolValidationError (''Deposit amount '' @ amountXlm @ '' has '' @ dec_of_nat digits @
                 '' decimal places, more than the pool's backing asset supports ('' @ js_num_String d @ '')'') ''precision'')
          else Inr ()
      | None \<Rightarrow> Inr ())"


section \<open>Notes\<close>

text \<open>
  A decoded note may hold any finite numbers; a \<open>PoolNote\<close> of the other theories has natural ones.
\<close>

record DecodedNote =
  dn_cluster :: string
  dn_poolId :: "string option"
  dn_value :: string
  dn_scope :: rat
  dn_leafIndex :: rat
  dn_nullifier :: string
  dn_secret :: string
  dn_commitment :: string
  dn_spent :: bool
  dn_createdAt :: rat

definition CURRENT_NOTE_SCHEMA_VERSION :: rat where "CURRENT_NOTE_SCHEMA_VERSION = 2"

definition must_be :: "string \<Rightarrow> string \<Rightarrow> js_error" where
  "must_be key what = NoteSchemaError (''Serialized note field '' @ [quote_char] @ key @ [quote_char] @ '' must be a '' @ what)"

definition requireString :: "jv \<Rightarrow> string \<Rightarrow> string res" where
  "requireString raw key = (case jv_get raw key of JStr s \<Rightarrow> Inr s | _ \<Rightarrow> Inl (must_be key ''string''))"

definition requireNumber :: "jv \<Rightarrow> string \<Rightarrow> rat res" where
  "requireNumber raw key = (case jv_get raw key of JNum r \<Rightarrow> Inr r | _ \<Rightarrow> Inl (must_be key ''finite number''))"

definition requireBoolean :: "jv \<Rightarrow> string \<Rightarrow> bool res" where
  "requireBoolean raw key = (case jv_get raw key of JBool b \<Rightarrow> Inr b | _ \<Rightarrow> Inl (must_be key ''boolean''))"

definition decode_v1 :: "jv \<Rightarrow> DecodedNote res" where
  "decode_v1 raw =
     res_bind (requireString raw ''cluster'') (\<lambda>cluster.
     res_bind (requireString raw ''value'') (\<lambda>v.
     res_bind (requireNumber raw ''scope'') (\<lambda>scope.
     res_bind (requireNumber raw ''leafIndex'') (\<lambda>leafIndex.
     res_bind (requireString raw ''nullifier'') (\<lambda>nullifier.
     res_bind (requireString raw ''secret'') (\<lambda>secret.
     res_bind (requireString raw ''commitment'') (\<lambda>commitment.
     res_bind (requireBoolean raw ''spent'') (\<lambda>spent.
     res_bind (requireNumber raw ''createdAt'') (\<lambda>createdAt.
     Inr \<lparr>dn_cluster = cluster, dn_poolId = None, dn_value = v, dn_scope = scope, dn_leafIndex = leafIndex, dn_nullifier = nullifier,
          dn_secret = secret, dn_commitment = commitment, dn_spent = spent, dn_createdAt = createdAt\<rparr>)))))))))"

definition decode_v2 :: "jv \<Rightarrow> DecodedNote res" where
  "decode_v2 raw =
     res_bind (decode_v1 raw) (\<lambda>note_v1.
     res_bind (requireString raw ''poolId'') (\<lambda>pool.
     Inr (note_v1\<lparr>dn_poolId := Some pool\<rparr>)))"

definition decoders :: "rat \<Rightarrow> (jv \<Rightarrow> DecodedNote res) option" where
  "decoders version = (if version = 1 then Some decode_v1 else if version = 2 then Some decode_v2 else None)"

definition serializeNote :: "DecodedNote \<Rightarrow> jv" where
  "serializeNote n =
     (case dn_poolId n of
        None \<Rightarrow> JObj [(''version'', JNum 1), (''cluster'', JStr (dn_cluster n)), (''value'', JStr (dn_value n)),
          (''scope'', JNum (dn_scope n)), (''leafIndex'', JNum (dn_leafIndex n)), (''nullifier'', JStr (dn_nullifier n)),
          (''secret'', JStr (dn_secret n)), (''commitment'', JStr (dn_commitment n)), (''spent'', JBool (dn_spent n)),
          (''createdAt'', JNum (dn_createdAt n))]
      | Some pool \<Rightarrow> JObj [(''version'', JNum CURRENT_NOTE_SCHEMA_VERSION), (''cluster'', JStr (dn_cluster n)), (''poolId'', JStr pool),
          (''value'', JStr (dn_value n)), (''scope'', JNum (dn_scope n)), (''leafIndex'', JNum (dn_leafIndex n)),
          (''nullifier'', JStr (dn_nullifier n)), (''secret'', JStr (dn_secret n)), (''commitment'', JStr (dn_commitment n)),
          (''spent'', JBool (dn_spent n)), (''createdAt'', JNum (dn_createdAt n))])"

definition is_js_object :: "jv \<Rightarrow> bool" where
  "is_js_object v = (case v of JObj _ \<Rightarrow> True | JArr _ \<Rightarrow> True | _ \<Rightarrow> False)"

definition deserializeNote :: "jv \<Rightarrow> DecodedNote res" where
  "deserializeNote data =
     (if \<not> is_js_object data then Inl (NoteSchemaError ''Serialized note must be an object'')
      else
      let version = (if jv_get data ''version'' = JUndef then JNum 1 else jv_get data ''version'')
      in case version of
           JNum v \<Rightarrow>
             if \<not> is_integer v then Inl (NoteSchemaError (''Serialized note has a non-integer version: '' @ js_String version))
             else (case decoders v of
                     Some decode \<Rightarrow> decode data
                   | None \<Rightarrow> Inl (NoteSchemaError (''Unsupported note schema version: '' @ js_String version)))
         | _ \<Rightarrow> Inl (NoteSchemaError (''Serialized note has a non-integer version: '' @ js_String version)))"

definition encodeNoteJson :: "DecodedNote \<Rightarrow> string" where
  "encodeNoteJson n = json_stringify (serializeNote n)"

definition decodeNoteJson :: "string \<Rightarrow> DecodedNote res" where
  "decodeNoteJson json =
     (case json_parse json of
        Inl _ \<Rightarrow> Inl (NoteSchemaError ''Serialized note is not valid JSON'')
      | Inr parsed \<Rightarrow> deserializeNote parsed)"

definition serializeNotes :: "DecodedNote list \<Rightarrow> jv list" where
  "serializeNotes notes = map serializeNote notes"

definition deserializeNotes :: "jv list \<Rightarrow> DecodedNote list res" where
  "deserializeNotes data = res_map deserializeNote data"


section \<open>Memos\<close>

datatype MemoType = MemoNone | MemoText | MemoId | MemoHash | MemoReturn

record custodian =
  cu_name :: "string option"
  cu_recommendedMemoType :: "MemoType option"

text \<open>
  The table is a frozen plain object, so looking a name up also finds what every object inherits: functions,
  whose \<open>name\<close> is their own, and \<open>__proto__\<close>, which has none. Neither has a recommended memo type.
\<close>

definition inherited_names :: "(string \<times> string option) list" where
  "inherited_names =
     [(''constructor'', Some ''Object''), (''__proto__'', None)]
     @ map (\<lambda>n. (n, Some n)) [''hasOwnProperty'', ''isPrototypeOf'', ''propertyIsEnumerable'', ''toLocaleString'', ''toString'', ''valueOf'',
         ''__defineGetter__'', ''__defineSetter__'', ''__lookupGetter__'', ''__lookupSetter__'']"

definition CUSTODIAL_ADDRESSES :: "string \<Rightarrow> custodian option" where
  "CUSTODIAL_ADDRESSES destination =
     (case map_of
        [(''GA5XIGA5C7QTPTWXQHY6MCJRMTRZDOSHR6EFIBNDQTCQHG262N4GGKTM'', (''Kraken'', MemoId)),
         (''GCGNWKCJ3KHRLPM3TMQN7IPVUMRPMYIPGKDPELDPRBMVUPLNZAJDK4VG'', (''Binance'', MemoText)),
         (''GBJ65CCWNPGFNXIVRZMNQSGNXHJYM3O3HFK2CIHWXVKAFEWZNUQOH53I'', (''Coinbase'', MemoText)),
         (''GDXBP3R6N62YR4MTEGEHDIJWQ6BIRYNG6UCV4XQEFKQGGYS7QUDXMJSX'', (''KuCoin'', MemoText))] destination of
        Some (name, memo) \<Rightarrow> Some \<lparr>cu_name = Some name, cu_recommendedMemoType = Some memo\<rparr>
      | None \<Rightarrow> map_option (\<lambda>name. \<lparr>cu_name = name, cu_recommendedMemoType = None\<rparr>) (map_of inherited_names destination))"

record MemoRisk =
  mr_isKnownCustodian :: bool
  mr_custodianName :: "string option"
  mr_recommendedMemoType :: "MemoType option"

definition no_risk :: MemoRisk where
  "no_risk = \<lparr>mr_isKnownCustodian = False, mr_custodianName = None, mr_recommendedMemoType = None\<rparr>"

definition memoRiskFor :: "string option \<Rightarrow> MemoRisk" where
  "memoRiskFor destination =
     (case destination of
        None \<Rightarrow> no_risk
      | Some d \<Rightarrow>
          if d = [] then no_risk
          else (case CUSTODIAL_ADDRESSES (js_trim d) of
                  None \<Rightarrow> no_risk
                | Some entry \<Rightarrow> \<lparr>mr_isKnownCustodian = True, mr_custodianName = cu_name entry,
                    mr_recommendedMemoType = cu_recommendedMemoType entry\<rparr>))"

text \<open>The result of a validation: \<open>None\<close> is \<open>{ ok: true }\<close>, otherwise the error text.\<close>

definition validateMemo :: "MemoType \<Rightarrow> string option \<Rightarrow> string option" where
  "validateMemo memoType memo =
     (let v = js_trim (case memo of Some m \<Rightarrow> m | None \<Rightarrow> []) in
      if memoType = MemoNone then (if length v > 0 then Some ''Memo must be empty when memo type is 'none'.'' else None)
      else if length v = 0 then Some ''Memo is required for this memo type.''
      else case memoType of
             MemoText \<Rightarrow> if length (utf8 v) > 28 then Some ''Text memo must be 28 UTF-8 bytes or fewer.'' else None
           | MemoId \<Rightarrow>
               if \<not> list_all is_digit v then Some ''ID memo must be a non-negative integer.''
               else (case js_BigInt_str v of
                       Inl _ \<Rightarrow> Some ''ID memo must be a non-negative integer.''
                     | Inr n \<Rightarrow> if n < 0 \<or> n > 2 ^ 64 - 1 then Some ''ID memo must fit in an unsigned 64-bit integer.'' else None)
           | _ \<Rightarrow> if length v \<noteq> 64 \<or> \<not> list_all is_hex v then Some ''Hash/return memo must be 64 hexadecimal characters.'' else None)"

definition memoWarningCopy :: "MemoRisk \<Rightarrow> string option \<Rightarrow> string option" where
  "memoWarningCopy risk memo =
     (if \<not> mr_isKnownCustodian risk then None
      else if (case memo of Some m \<Rightarrow> js_trim m \<noteq> [] | None \<Rightarrow> False) then None
      else Some (''Destination looks like '' @ (case mr_custodianName risk of Some n \<Rightarrow> n | None \<Rightarrow> ''an exchange or custodian'') @
             ''. Sending without a memo may result in lost funds.''))"

record TransferMemo =
  tm_type :: MemoType
  tm_value :: string

fun memo_type_name :: "MemoType \<Rightarrow> string" where
  "memo_type_name MemoNone = ''none''"
| "memo_type_name MemoText = ''text''"
| "memo_type_name MemoId = ''id''"
| "memo_type_name MemoHash = ''hash''"
| "memo_type_name MemoReturn = ''return''"

definition resolveTransferMemo :: "string \<Rightarrow> TransferMemo option \<Rightarrow> TransferMemo option res" where
  "resolveTransferMemo destination memo =
     (let risk = memoRiskFor (Some destination) in
      case memo of
        Some m \<Rightarrow> (case validateMemo (tm_type m) (Some (tm_value m)) of
            Some err \<Rightarrow> Inl (TypeError (''Invalid memo: '' @ err))
          | None \<Rightarrow> Inr (Some m))
      | None \<Rightarrow>
          if mr_isKnownCustodian risk
          then Inl (TypeError (''Destination is '' @ (case mr_custodianName risk of Some n \<Rightarrow> n | None \<Rightarrow> ''a known custodian'') @ ''; a '' @
                 (case mr_recommendedMemoType risk of Some t \<Rightarrow> memo_type_name t | None \<Rightarrow> ''text'') @ '' memo is required.''))
          else Inr None)"

end
