(* ===== verification/Sdk_Codec_Props.thy ===== *)
theory Sdk_Codec_Props
  imports Sdk_Codec
begin

text \<open>Amounts are exact, stored notes load again, and memos are checked.\<close>

section \<open>Amounts\<close>

lemma js_BigInt_str_digits:
  assumes "s \<noteq> []" "list_all is_digit s"
  shows "js_BigInt_str s = Inr (int (nat_of_dec s))"
proof -
  have "js_trim s = s"
    by (rule js_trim_id) (use assms in \<open>auto simp: list_all_iff is_digit_not_ws\<close>)
  moreover have "list_all is_digit (drop 1 s)" using assms(2) by (cases s) auto
  ultimately show ?thesis
    using assms no_prefix_digits by (simp add: js_BigInt_str_def Let_def prefixed_digits_digits)
qed

lemma nat_of_digits_append: "nat_of_digits b (xs @ ys) = nat_of_digits b xs * b ^ length ys + nat_of_digits b ys"
proof (induction ys rule: rev_induct)
  case (snoc y ys)
  then show ?case by (simp add: nat_of_digits_snoc flip: append_assoc) (simp add: algebra_simps)
qed simp

lemma nat_of_dec_append: "nat_of_dec (s @ t) = nat_of_dec s * 10 ^ length t + nat_of_dec t"
  by (simp add: nat_of_dec_def nat_of_digits_append)

lemma zero_digit [simp]: "is_digit CHR ''0''" "digit_val CHR ''0'' = 0"
  by (simp_all add: is_digit_def digit_val_def)

lemma nat_of_digits_zero: "nat_of_digits b (replicate n 0) = 0"
  by (induction n) (simp_all add: nat_of_digits_snoc flip: replicate_append_same)

lemma nat_of_dec_zeros [simp]: "nat_of_dec (replicate n CHR ''0'') = 0"
  by (simp add: nat_of_dec_def nat_of_digits_zero)

lemma digit_not_point [simp]: "is_digit c \<Longrightarrow> c \<noteq> CHR ''.''" "is_digit c \<Longrightarrow> c \<noteq> CHR ''-''"
  by (auto simp: is_digit_def)

lemma digits_whole: "list_all is_digit s \<Longrightarrow> takeWhile is_digit s = s" "list_all is_digit s \<Longrightarrow> dropWhile is_digit s = []"
  by (auto simp: list_all_iff)

text \<open>Parsing a well-formed decimal is exact.\<close>

definition decimal :: "bool \<Rightarrow> string \<Rightarrow> string option \<Rightarrow> string" where
  "decimal negative ip dp = (if negative then ''-'' else []) @ ip @ (case dp of None \<Rightarrow> [] | Some ds \<Rightarrow> ''.'' @ ds)"

lemma parse_decimal:
  assumes ip: "ip \<noteq> []" "list_all is_digit ip" and dp: "list_all is_digit (case dp of None \<Rightarrow> [] | Some ds \<Rightarrow> ds)"
    and len: "length (case dp of None \<Rightarrow> [] | Some ds \<Rightarrow> ds) \<le> 7"
  defines "ds \<equiv> (case dp of None \<Rightarrow> [] | Some ds \<Rightarrow> ds)"
  shows "parseXlmToStroops (decimal negative ip dp) =
    Inr ((if negative then -1 else 1) * int (nat_of_dec ip * 10 ^ 7 + nat_of_dec ds * 10 ^ (7 - length ds)))"
proof -
  define body where "body = ip @ (case dp of None \<Rightarrow> [] | Some ds \<Rightarrow> ''.'' @ ds)"
  have tw: "takeWhile is_digit body = ip" "dropWhile is_digit body = (case dp of None \<Rightarrow> [] | Some ds \<Rightarrow> ''.'' @ ds)"
    using ip(2) by (auto simp: body_def list_all_iff takeWhile_append2 dropWhile_append2 is_digit_def split: option.splits)
  have no_point: "\<forall>c \<in> set ip. c \<noteq> CHR ''.''" using ip(2) by (auto simp: list_all_iff)
  have parts: "takeWhile (\<lambda>c. c \<noteq> CHR ''.'') body = ip" "drop 1 (dropWhile (\<lambda>c. c \<noteq> CHR ''.'') body) = ds"
    using no_point by (auto simp: body_def ds_def takeWhile_append2 dropWhile_append2 split: option.splits)
  have ok_syntax: "unsigned_amount body"
    using ip(1) dp by (auto simp: unsigned_amount_def tw split: option.splits)
  obtain c r where c: "body = c # r" "is_digit c" using ip by (cases ip) (auto simp: body_def)
  have ws: "\<not> is_ws (last (decimal negative ip dp))"
  proof -
    have "last (decimal negative ip dp) = last body" using c(1) by (simp add: decimal_def body_def split: option.splits)
    moreover have "is_digit (last body) \<or> last body = CHR ''.''"
      using ip dp by (auto simp: body_def list_all_iff split: option.splits)
    moreover have "\<not> is_ws CHR ''.''" by (simp add: is_ws_def)
    ultimately show ?thesis using is_digit_not_ws by metis
  qed
  have dec: "decimal negative ip dp = (if negative then ''-'' else []) @ body" by (simp add: decimal_def body_def)
  have trim: "js_trim (decimal negative ip dp) = decimal negative ip dp"
    by (rule js_trim_id) (use ws c minus_not_ws is_digit_not_ws in \<open>auto simp: dec\<close>)
  have big: "js_BigInt_str (ip @ pad_end 7 CHR ''0'' ds) = Inr (int (nat_of_dec ip * 10 ^ 7 + nat_of_dec ds * 10 ^ (7 - length ds)))"
  proof -
    have "list_all is_digit (ip @ pad_end 7 CHR ''0'' ds)" using ip dp by (auto simp: pad_end_def ds_def list_all_iff split: option.splits)
    moreover have "length (pad_end 7 CHR ''0'' ds) = 7" using len by (simp add: pad_end_def ds_def)
    ultimately show ?thesis
      using ip(1) by (simp add: js_BigInt_str_digits nat_of_dec_append) (simp add: pad_end_def nat_of_dec_append)
  qed
  define t where "t = decimal negative ip dp"
  have t: "js_trim t = t" "t \<noteq> []" "starts_with ''-'' t = negative" "(if negative then drop 1 t else t) = body" "amount_syntax t"
  proof -
    have "c \<noteq> CHR ''-''" using c(2) by (auto simp: is_digit_def)
    moreover have "t = (if negative then [CHR ''-''] else []) @ c # r" by (simp add: t_def dec c(1))
    ultimately show "js_trim t = t" "t \<noteq> []" "starts_with ''-'' t = negative" "(if negative then drop 1 t else t) = body" "amount_syntax t"
      using trim ok_syntax c(1) by (simp_all add: amount_syntax_def flip: t_def)
  qed
  have short: "\<not> 7 < length ds" using len by (simp add: ds_def)
  show ?thesis
    unfolding t_def [symmetric] parseXlmToStroops_def Let_def t(1) t(3) t(4) parts MAX_DECIMALS_def
    using t(2,5) short ip(1) big by simp
qed

lemma strip_zeros_split: "s = strip_zeros s @ replicate (length s - length (strip_zeros s)) CHR ''0''"
proof -
  define zs where "zs = takeWhile (\<lambda>c. c = CHR ''0'') (rev s)"
  have "rev s = zs @ rev (strip_zeros s)" by (simp add: zs_def strip_zeros_def)
  then have s: "s = strip_zeros s @ rev zs" by (metis rev_append rev_rev_ident)
  have "rev zs = replicate (length zs) CHR ''0''"
    by (rule replicate_eqI) (auto simp: zs_def dest: set_takeWhileD)
  moreover have "length zs = length s - length (strip_zeros s)" using s by (metis add_diff_cancel_left' length_append length_rev)
  ultimately show ?thesis using s by simp
qed

lemma format_is_decimal:
  obtains ip dp where "formatStroopsToXlm x = decimal (x < 0) ip dp" "ip \<noteq> []" "list_all is_digit ip"
    "list_all is_digit (case dp of None \<Rightarrow> [] | Some ds \<Rightarrow> ds)" "length (case dp of None \<Rightarrow> [] | Some ds \<Rightarrow> ds) \<le> 7"
    "nat_of_dec ip * 10 ^ 7 + nat_of_dec (case dp of None \<Rightarrow> [] | Some ds \<Rightarrow> ds) * 10 ^ (7 - length (case dp of None \<Rightarrow> [] | Some ds \<Rightarrow> ds)) = nat \<bar>x\<bar>"
proof -
  define s where "s = pad_start 8 CHR ''0'' (dec_of_nat (nat \<bar>x\<bar>))"
  define ip where "ip = take (length s - 7) s"
  define ds where "ds = strip_zeros (drop (length s - 7) s)"
  have len: "8 \<le> length s" by (simp add: s_def pad_start_def)
  have digits: "list_all is_digit s" using dec_of_nat_digits by (auto simp: s_def pad_start_def list_all_iff)
  have s_ip: "s = ip @ drop (length s - 7) s" by (simp add: ip_def)
  have dropped: "drop (length s - 7) s = ds @ replicate (7 - length ds) CHR ''0''" (is "?d = _")
    using strip_zeros_split [of ?d] len by (simp add: ds_def)
  have ds: "list_all is_digit ds" "length ds \<le> 7"
  proof -
    have "set ?d \<subseteq> set s" by (rule set_drop_subset)
    then show "list_all is_digit ds" using digits dropped by (auto simp: list_all_iff)
    show "length ds \<le> 7" using arg_cong [OF dropped, of length] len by simp
  qed
  have "nat_of_dec s = nat \<bar>x\<bar>" by (simp add: s_def pad_start_def nat_of_dec_append)
  then have number: "nat_of_dec ip * 10 ^ 7 + nat_of_dec ds * 10 ^ (7 - length ds) = nat \<bar>x\<bar>"
    using ds(2) arg_cong [OF s_ip, of nat_of_dec] by (simp add: dropped nat_of_dec_append)
  have ip: "ip \<noteq> []" "list_all is_digit ip" using len digits by (auto simp: ip_def list_all_iff dest: in_set_takeD)
  have "formatStroopsToXlm x = decimal (x < 0) ip (if ds = [] then None else Some ds)"
    using ip(1) len by (simp add: formatStroopsToXlm_def Let_def MAX_DECIMALS_def dec_of_int_def decimal_def flip: s_def ip_def ds_def) auto
  then show ?thesis by (rule that) (use ip ds number in auto)
qed

lemma parse_format: "parseXlmToStroops (formatStroopsToXlm x) = Inr x"
proof -
  obtain ip dp where d: "formatStroopsToXlm x = decimal (x < 0) ip dp" "ip \<noteq> []" "list_all is_digit ip"
    "list_all is_digit (case dp of None \<Rightarrow> [] | Some ds \<Rightarrow> ds)" "length (case dp of None \<Rightarrow> [] | Some ds \<Rightarrow> ds) \<le> 7"
    "nat_of_dec ip * 10 ^ 7 + nat_of_dec (case dp of None \<Rightarrow> [] | Some ds \<Rightarrow> ds) * 10 ^ (7 - length (case dp of None \<Rightarrow> [] | Some ds \<Rightarrow> ds)) = nat \<bar>x\<bar>"
    by (rule format_is_decimal)
  show ?thesis unfolding d(1) parse_decimal [OF d(2-5)] d(6) by auto
qed

lemma format_passes:
  assumes "0 < x" "x < BN254_R"
  shows "validateDepositAmount (formatStroopsToXlm x) x (Some 7) = Inr ()"
proof -
  obtain ip dp where d: "formatStroopsToXlm x = decimal (x < 0) ip dp" "ip \<noteq> []" "list_all is_digit ip"
    "list_all is_digit (case dp of None \<Rightarrow> [] | Some ds \<Rightarrow> ds)" "length (case dp of None \<Rightarrow> [] | Some ds \<Rightarrow> ds) \<le> 7"
    "nat_of_dec ip * 10 ^ 7 + nat_of_dec (case dp of None \<Rightarrow> [] | Some ds \<Rightarrow> ds) * 10 ^ (7 - length (case dp of None \<Rightarrow> [] | Some ds \<Rightarrow> ds)) = nat \<bar>x\<bar>"
    by (rule format_is_decimal)
  have "fractionalDigits (formatStroopsToXlm x) \<le> 7"
    using parse_decimal [OF d(2-5), of "x < 0"] by (auto simp: d(1) parseXlmToStroops_def fractionalDigits_def Let_def MAX_DECIMALS_def split: if_splits)
  then have "rat_of_nat (fractionalDigits (formatStroopsToXlm x)) \<le> 7" by simp
  then show ?thesis using assms by (simp add: validateDepositAmount_def Let_def)
qed

text \<open>Printing an amount of stroops and parsing the text gives exactly that amount, for every integer, negative
  ones included; and the printed form of a positive amount below the field modulus passes the deposit check of a
  pool whose asset has seven decimals.\<close>

lemma stroops_roundtrip:
  "parseXlmToStroops (formatStroopsToXlm x) = Inr x
   \<and> (0 < x \<and> x < BN254_R \<longrightarrow> validateDepositAmount (formatStroopsToXlm x) x (Some 7) = Inr ())"
  by (simp add: parse_format format_passes)

lemma stroops_roundtrip_witness:
  "parseXlmToStroops (formatStroopsToXlm 12345678) = Inr 12345678
   \<and> validateDepositAmount (formatStroopsToXlm 12345678) 12345678 (Some 7) = Inr ()"
  using stroops_roundtrip [of 12345678] by (simp add: BN254_R_def)


section \<open>Notes\<close>

definition plain_numbers :: "DecodedNote \<Rightarrow> bool" where
  "plain_numbers n = list_all (\<lambda>r. is_integer r \<and> \<bar>r\<bar> < 10 ^ 21) [dn_scope n, dn_leafIndex n, dn_createdAt n]"

lemma deserialize_serialize: "deserializeNote (serializeNote n) = Inr n"
  by (cases "dn_poolId n")
     (simp_all add: serializeNote_def deserializeNote_def is_js_object_def decoders_def decode_v1_def decode_v2_def
        requireString_def requireNumber_def requireBoolean_def CURRENT_NOTE_SCHEMA_VERSION_def)

definition schema_error :: "js_error \<Rightarrow> bool" where
  "schema_error e = (\<exists>m. e = NoteSchemaError m)"

lemma require_error:
  "requireString raw k = Inl e \<Longrightarrow> schema_error e" "requireNumber raw k = Inl e \<Longrightarrow> schema_error e"
  "requireBoolean raw k = Inl e \<Longrightarrow> schema_error e"
  by (auto simp: requireString_def requireNumber_def requireBoolean_def must_be_def schema_error_def split: jv.splits)

lemma decode_error: "decode_v1 raw = Inl e \<Longrightarrow> schema_error e" "decode_v2 raw = Inl e \<Longrightarrow> schema_error e"
  by (auto simp: decode_v1_def decode_v2_def res_bind_eq_Inl dest: require_error)

lemma decode_pool: "decode_v1 raw = Inr n \<Longrightarrow> dn_poolId n = None" "decode_v2 raw = Inr n \<Longrightarrow> dn_poolId n \<noteq> None"
  by (auto simp: decode_v1_def decode_v2_def res_bind_eq_Inr)

lemma deserialize_error: "deserializeNote v = Inl e \<Longrightarrow> schema_error e"
  by (auto simp: deserializeNote_def decoders_def schema_error_def Let_def split: if_splits jv.splits dest!: decode_error)

lemma deserialize_version:
  assumes "deserializeNote v = Inr n"
  shows "jv_get v ''version'' \<in> (if dn_poolId n = None then {JUndef, JNum 1} else {JNum 2})"
  using assms by (auto simp: deserializeNote_def decoders_def Let_def split: if_splits jv.splits dest!: decode_pool)

text \<open>A note written as JSON loads again as the same note, with or without a pool, if its numbers are integers
  that print without an exponent. Any text that does not load fails with a schema error, never with another one; and a
  text that loads is an object of version 1 (or of no version) and gives a note without a pool, or of version 2 and
  gives one with a pool.\<close>

lemma note_json_roundtrip:
  "(plain_numbers n \<longrightarrow> decodeNoteJson (encodeNoteJson n) = Inr n)
   \<and> (decodeNoteJson s = Inl e \<longrightarrow> schema_error e)
   \<and> (decodeNoteJson s = Inr m \<longrightarrow>
        (\<exists>v. json_parse s = Inr v \<and> jv_get v ''version'' \<in> (if dn_poolId m = None then {JUndef, JNum 1} else {JNum CURRENT_NOTE_SCHEMA_VERSION})))"
proof -
  have "json_printable (serializeNote n)" if "plain_numbers n"
    using that by (cases "dn_poolId n") (simp_all add: plain_numbers_def serializeNote_def CURRENT_NOTE_SCHEMA_VERSION_def)
  then have "plain_numbers n \<longrightarrow> decodeNoteJson (encodeNoteJson n) = Inr n"
    by (simp add: decodeNoteJson_def encodeNoteJson_def json_parse_stringify deserialize_serialize)
  moreover have "decodeNoteJson s = Inl e \<longrightarrow> schema_error e"
    by (auto simp: decodeNoteJson_def schema_error_def split: sum.splits dest!: deserialize_error)
  moreover have "decodeNoteJson s = Inr m \<longrightarrow>
        (\<exists>v. json_parse s = Inr v \<and> jv_get v ''version'' \<in> (if dn_poolId m = None then {JUndef, JNum 1} else {JNum CURRENT_NOTE_SCHEMA_VERSION}))"
    by (auto simp: decodeNoteJson_def CURRENT_NOTE_SCHEMA_VERSION_def split: sum.splits dest!: deserialize_version)
  ultimately show ?thesis by blast
qed

definition sample_note :: DecodedNote where
  "sample_note = \<lparr>dn_cluster = ''testnet'', dn_poolId = Some ''CPOOL'', dn_value = ''5000000'', dn_scope = 1, dn_leafIndex = 7,
     dn_nullifier = ''0x0a'', dn_secret = ''0x0b'', dn_commitment = ''0x0c'', dn_spent = False, dn_createdAt = 1700000000000\<rparr>"

lemma note_json_roundtrip_witness:
  "decodeNoteJson (encodeNoteJson sample_note) = Inr sample_note
   \<and> (\<exists>e. decodeNoteJson ''{'' = Inl e \<and> schema_error e)
   \<and> (\<exists>v. json_parse (encodeNoteJson sample_note) = Inr v \<and> jv_get v ''version'' = JNum CURRENT_NOTE_SCHEMA_VERSION)"
proof -
  have plain: "plain_numbers sample_note" by (simp add: plain_numbers_def sample_note_def)
  have bad: "decodeNoteJson ''{'' = Inl (NoteSchemaError ''Serialized note is not valid JSON'')" by code_simp
  show ?thesis
    using note_json_roundtrip [of sample_note "''{''" "NoteSchemaError ''Serialized note is not valid JSON''" sample_note]
      note_json_roundtrip [of sample_note "encodeNoteJson sample_note" undefined sample_note] plain bad
    by (auto simp: sample_note_def)
qed


section \<open>Memos\<close>

lemma validateMemo_id_bound:
  assumes "validateMemo MemoId (Some m) = None"
  shows "list_all is_digit (js_trim m) \<and> js_trim m \<noteq> [] \<and> nat_of_dec (js_trim m) < 2 ^ 64"
  using assms by (auto simp: validateMemo_def Let_def js_BigInt_str_digits split: if_splits)

text \<open>A transfer to a known custodian never goes out without a memo object: a missing memo is an error. Any memo
  that goes out is the one given and is valid for its type, so that an id fits 64 bits, a text 28 bytes and a hash 64
  hexadecimal characters. The check has a gap: a memo of type none with an empty value is valid, and is accepted for
  a custodian as well.\<close>

lemma transfer_memo_checked:
  "(resolveTransferMemo d None = Inr r \<longrightarrow> r = None \<and> \<not> mr_isKnownCustodian (memoRiskFor (Some d)))
   \<and> (resolveTransferMemo d (Some m) = Inr r \<longrightarrow> r = Some m
        \<and> (case tm_type m of
             MemoNone \<Rightarrow> js_trim (tm_value m) = []
           | MemoText \<Rightarrow> js_trim (tm_value m) \<noteq> [] \<and> length (utf8 (js_trim (tm_value m))) \<le> 28
           | MemoId \<Rightarrow> list_all is_digit (js_trim (tm_value m)) \<and> js_trim (tm_value m) \<noteq> [] \<and> nat_of_dec (js_trim (tm_value m)) < 2 ^ 64
           | _ \<Rightarrow> length (js_trim (tm_value m)) = 64 \<and> list_all is_hex (js_trim (tm_value m))))
   \<and> resolveTransferMemo d (Some \<lparr>tm_type = MemoNone, tm_value = []\<rparr>) = Inr (Some \<lparr>tm_type = MemoNone, tm_value = []\<rparr>)"
  by (cases "tm_type m")
     (auto simp: resolveTransferMemo_def validateMemo_def Let_def js_BigInt_str_digits js_trim_def split: if_splits option.splits)

lemma transfer_memo_checked_witness:
  "\<not> mr_isKnownCustodian (memoRiskFor (Some ''GABC'')) \<and> nat_of_dec (js_trim ''42'') < 2 ^ 64"
proof -
  have "resolveTransferMemo ''GABC'' None = Inr None" by code_simp
  moreover have "resolveTransferMemo ''GABC'' (Some \<lparr>tm_type = MemoId, tm_value = ''42''\<rparr>) = Inr (Some \<lparr>tm_type = MemoId, tm_value = ''42''\<rparr>)"
    by code_simp
  ultimately show ?thesis
    using transfer_memo_checked [of "''GABC''" None] 
      transfer_memo_checked [of "''GABC''" "Some \<lparr>tm_type = MemoId, tm_value = ''42''\<rparr>" "\<lparr>tm_type = MemoId, tm_value = ''42''\<rparr>"]
    by simp
qed

end
