(* ===== verification/Sdk_Rpc.thy ===== *)
theory Sdk_Rpc
  imports Sdk_Codec Sdk_Events Relayer_Chain
begin

text \<open>
  The SDK's RPC client (\<open>sdk/src/rpc/client.ts\<close>) with the decoding of diagnostics
  (\<open>sdk/src/rpc/diagnostics.ts\<close>): reads that fall back over the configured servers, the signed
  invocation of a contract with its bounded polling, and native transfers.

  The Stellar SDK is the parameter \<open>stellar_net\<close>: its calls to servers are programs over the world
  \<open>'w\<close>, which may throw and may change the world; building and parsing transactions are functions.
  Accounts, contract values and transactions are its types \<open>'a\<close>, \<open>'v\<close> and
  \<open>'t\<close>. The clock and \<open>sleep\<close> are those of the JavaScript runtime. A request that outlasts its
  timeout is taken to run to its end before the timeout is reported. The logger is left out.
\<close>

section \<open>Diagnostics\<close>

datatype sc_error = SceContract nat | SceOther string string

text \<open>
  A value in a diagnostic event: an error, a value with a JSON form, a value that holds a bigint,
  which \<open>JSON.stringify\<close> refuses, or one that only has a type name.
\<close>

datatype diag_val = DvError sc_error | DvNative jv | DvBig | DvName string

record diag_event =
  de_topics :: "diag_val list"
  de_data :: diag_val

fun describeScError :: "sc_error \<Rightarrow> string" where
  "describeScError (SceContract code) = ''ContractError#'' @ dec_of_nat code"
| "describeScError (SceOther type code) = type @ ''/'' @ code"

fun scValToReadable :: "diag_val \<Rightarrow> jv option" where
  "scValToReadable (DvError e) = Some (JStr (describeScError e))"
| "scValToReadable (DvNative v) = Some v"
| "scValToReadable DvBig = None"
| "scValToReadable (DvName n) = Some (JStr n)"

fun all_readable :: "diag_val list \<Rightarrow> jv list option" where
  "all_readable [] = Some []"
| "all_readable (v # vs) =
     (case scValToReadable v of None \<Rightarrow> None | Some j \<Rightarrow> map_option ((#) j) (all_readable vs))"

definition event_text :: "diag_event \<Rightarrow> string option" where
  "event_text e =
     (case (all_readable (de_topics e), scValToReadable (de_data e)) of
        (Some topics, Some data) \<Rightarrow> Some (json_stringify (JObj [(''topics'', JArr topics), (''data'', data)]))
      | _ \<Rightarrow> None)"

text \<open>An event that cannot be decoded at all is \<open>None\<close>.\<close>

definition decodeDiagnostics :: "diag_event option list \<Rightarrow> string" where
  "decodeDiagnostics events =
     (let parts = somes (map (\<lambda>e. Option.bind e event_text) events)
      in take 1500 (join_with '' | '' (rev (remdups (rev parts)))))"

fun contract_code :: "diag_val \<Rightarrow> nat option" where
  "contract_code (DvError (SceContract code)) = Some code"
| "contract_code _ = None"

fun first_some :: "'a option list \<Rightarrow> 'a option" where
  "first_some [] = None"
| "first_some (Some x # xs) = Some x"
| "first_some (None # xs) = first_some xs"

definition extractContractErrorCode :: "diag_event option list \<Rightarrow> nat option" where
  "extractContractErrorCode events =
     first_some (map (\<lambda>e. case e of None \<Rightarrow> None | Some d \<Rightarrow> first_some (map contract_code (de_topics d @ [de_data d]))) events)"


section \<open>Values, transactions and servers\<close>

text \<open>What \<open>scValToNative\<close> gives for a contract value.\<close>

datatype native_value =
    NvUndef
  | NvBool bool
  | NvNum rat
  | NvBig int
  | NvStr string
  | NvBytes "byte list"
  | NvArr "native_value list"
  | NvObj "(string \<times> native_value) list"

datatype 'v tx_operation =
    CallContract string string "'v list"
  | PayNative string string
  | CreateAccount string string
  | MergeAccount string

text \<open>The outcome of a simulation: an error text, or the fee and the returned value.\<close>

datatype 'v simulation = SimulationFailed string | Simulated int "'v option"

record send_response =
  sr_status :: string
  sr_hash :: string
  sr_errorResult :: string

record tx_response =
  tr_status :: string
  tr_events :: "diag_event option list"

record balance_line =
  bl_asset_type :: string
  bl_asset_code :: "string option"
  bl_asset_issuer :: "string option"

record ContractCallEvent =
  cc_contractId :: string
  cc_method :: string
  cc_success :: bool
  cc_durationMs :: int
  cc_error :: "string option"

record ('w, 'a, 'v, 't) stellar_net =
  net_runtime :: "'w js_runtime"
  net_getAccount :: "string \<Rightarrow> string \<Rightarrow> ('w, 'a) prog"
  net_simulate :: "string \<Rightarrow> 't \<Rightarrow> ('w, 'v simulation) prog"
  net_prepare :: "string \<Rightarrow> 't \<Rightarrow> ('w, 't) prog"
  net_send :: "string \<Rightarrow> 't \<Rightarrow> ('w, send_response) prog"
  net_getTransaction :: "string \<Rightarrow> string \<Rightarrow> ('w, tx_response) prog"
  net_events :: "string \<Rightarrow> 'w event_rpc"
  net_loadAccount :: "string \<Rightarrow> string \<Rightarrow> ('w, 'a) prog"
  net_submit :: "string \<Rightarrow> 't \<Rightarrow> ('w, string) prog"
  net_balances :: "'a \<Rightarrow> balance_line list"
  net_build :: "'a \<Rightarrow> string \<Rightarrow> string \<Rightarrow> 'v tx_operation \<Rightarrow> TransferMemo option \<Rightarrow> nat \<Rightarrow> 't res"
  net_feeBump :: "'a \<Rightarrow> string \<Rightarrow> 't \<Rightarrow> string \<Rightarrow> 't res"
  net_assemble :: "'t \<Rightarrow> 'v simulation \<Rightarrow> 't res"
  net_toXDR :: "'t \<Rightarrow> string"
  net_fromXDR :: "string \<Rightarrow> string \<Rightarrow> 't res"
  net_toNative :: "'v \<Rightarrow> native_value"
  net_errorField :: "js_error \<Rightarrow> string \<Rightarrow> jv"

record 'w OpaqueSigner =
  sg_publicKey :: "('w, string) prog"
  sg_signTransaction :: "string \<Rightarrow> string \<Rightarrow> ('w, string) prog"

record 'w RpcClientOptions =
  rc_rpcUrls :: "string list"
  rc_horizonUrl :: string
  rc_passphrase :: string
  rc_onContractCall :: "(ContractCallEvent \<Rightarrow> ('w, unit) prog) option"
  rc_errorNames :: "string \<Rightarrow> nat \<Rightarrow> string option"

record ('w, 'v) InvokeOptions =
  io_source :: string
  io_contractId :: string
  io_method :: string
  io_args :: "'v list"
  io_signer :: "'w OpaqueSigner"
  io_skipSimulation :: bool
  io_contractPackage :: "string option"

record 'v ReadOptions =
  ro_source :: string
  ro_contractId :: string
  ro_method :: string
  ro_args :: "'v list"

text \<open>The constructor refuses a configuration without a server; every other call uses the first one as \<open>server\<close>.\<close>

definition new_RpcClient :: "'w RpcClientOptions \<Rightarrow> 'w RpcClientOptions res" where
  "new_RpcClient C = (if rc_rpcUrls C = [] then Inl (RpcError ''RpcClient requires at least one RPC URL'' None) else Inr C)"

definition READ_TIMEOUT_MS :: int where "READ_TIMEOUT_MS = 12000"
definition READ_RETRIES_PER_PROVIDER :: nat where "READ_RETRIES_PER_PROVIDER = 2"
definition TX_POLL_TIMEOUT_MS :: int where "TX_POLL_TIMEOUT_MS = 60000"
definition TX_POLL_INTERVAL_MS :: rat where "TX_POLL_INTERVAL_MS = 1000"
definition NEW_ACCOUNT_MIN_RESERVE_STROOPS :: int where "NEW_ACCOUNT_MIN_RESERVE_STROOPS = 10000000"
definition BASE_FEE :: string where "BASE_FEE = ''100''"


section \<open>Reads\<close>

text \<open>\<open>toStellarSdkMemo\<close> maps the memo without looking at its value; no memo and type none are \<open>None\<close>.\<close>

definition toStellarSdkMemo :: "TransferMemo option \<Rightarrow> TransferMemo option" where
  "toStellarSdkMemo memo = (case memo of None \<Rightarrow> None | Some m \<Rightarrow> if tm_type m = MemoNone then None else Some m)"

definition extractStatus :: "('w, 'a, 'v, 't) stellar_net \<Rightarrow> js_error \<Rightarrow> rat option" where
  "extractStatus N err =
     first_some (map (\<lambda>v. case v of JNum r \<Rightarrow> Some r | _ \<Rightarrow> None)
       [net_errorField N err ''status'', net_errorField N err ''statusCode'', jv_get (net_errorField N err ''response'') ''status''])"

fun has_sub :: "string \<Rightarrow> string \<Rightarrow> bool" where
  "has_sub p [] \<longleftrightarrow> p = []"
| "has_sub p (c # s) \<longleftrightarrow> starts_with p (c # s) \<or> has_sub p s"

text \<open>\<open>/rate.?limit/\<close>\<close>

fun has_rate_limit :: "string \<Rightarrow> bool" where
  "has_rate_limit [] \<longleftrightarrow> False"
| "has_rate_limit (c # s) \<longleftrightarrow>
     (starts_with ''rate'' (c # s)
      \<and> (let r = drop 4 (c # s)
         in starts_with ''limit'' r \<or> (r \<noteq> [] \<and> hd r \<noteq> CHR 0x0A \<and> hd r \<noteq> CHR 0x0D \<and> starts_with ''limit'' (tl r))))
     \<or> has_rate_limit s"

definition isRetryableReadError :: "('w, 'a, 'v, 't) stellar_net \<Rightarrow> js_error \<Rightarrow> bool" where
  "isRetryableReadError N err =
     (let m = to_lower (err_message err) in
      jv_get (net_errorField N err ''response'') ''status'' \<in> JNum ` {408, 429, 500, 502, 503, 504}
      \<or> has_sub ''timeout'' m \<or> has_sub ''timed out'' m \<or> has_rate_limit m \<or> has_sub ''too many requests'' m
      \<or> has_sub ''network'' m \<or> has_sub ''fetch'' m)"

definition withTimeout :: "('w, 'a, 'v, 't) stellar_net \<Rightarrow> ('w, 'x) prog \<Rightarrow> string \<Rightarrow> ('w, 'x) prog" where
  "withTimeout N m label =
     bnd (date_now (net_runtime N)) (\<lambda>begun w.
       case m w of (r, w') \<Rightarrow>
         bnd (date_now (net_runtime N)) (\<lambda>ended.
           if ended - begun \<ge> READ_TIMEOUT_MS
           then throw (RpcError (label @ '' timed out after '' @ dec_of_int READ_TIMEOUT_MS @ ''ms'') None)
           else of_res r) w')"

text \<open>The two nested loops of \<open>read\<close>, over the pairs of a server and an attempt.\<close>

fun read_loop ::
  "('w, 'a, 'v, 't) stellar_net \<Rightarrow> (string \<Rightarrow> ('w, 'x) prog) \<Rightarrow> string \<Rightarrow> (string \<times> nat) list \<Rightarrow> js_error option \<Rightarrow> ('w, 'x) prog" where
  "read_loop N fn label [] lastError =
     throw (case lastError of
       Some e \<Rightarrow> RpcError (label @ '' failed: '' @ err_message e) None
     | None \<Rightarrow> RpcError (label @ '' failed'') None)"
| "read_loop N fn label ((server, attempt) # rest) lastError =
     try_catch (withTimeout N (fn server) label) (\<lambda>err.
       if \<not> isRetryableReadError N err then throw err
       else if attempt + 1 < READ_RETRIES_PER_PROVIDER
       then bnd (sleep_ms (net_runtime N) (350 * (rat_of_nat attempt + 1))) (\<lambda>_. read_loop N fn label rest (Some err))
       else read_loop N fn label rest (Some err))"

definition read_plan :: "string list \<Rightarrow> (string \<times> nat) list" where
  "read_plan servers = concat (map (\<lambda>server. map (\<lambda>attempt. (server, attempt)) [0..<READ_RETRIES_PER_PROVIDER]) servers)"

definition rpc_read ::
  "('w, 'a, 'v, 't) stellar_net \<Rightarrow> 'w RpcClientOptions \<Rightarrow> (string \<Rightarrow> ('w, 'x) prog) \<Rightarrow> string \<Rightarrow> ('w, 'x) prog" where
  "rpc_read N C fn label = read_loop N fn label (read_plan (rc_rpcUrls C)) None"

definition rpc_getEvents ::
  "('w, 'a, 'v, 't) stellar_net \<Rightarrow> 'w RpcClientOptions \<Rightarrow> events_request \<Rightarrow> ('w, events_response) prog" where
  "rpc_getEvents N C request = rpc_read N C (\<lambda>s. getEvents (net_events N s) request) ''getEvents''"

definition rpc_getLatestLedger :: "('w, 'a, 'v, 't) stellar_net \<Rightarrow> 'w RpcClientOptions \<Rightarrow> ('w, int) prog" where
  "rpc_getLatestLedger N C = rpc_read N C (\<lambda>s. getLatestLedger (net_events N s)) ''getLatestLedger''"

definition simulate_call ::
  "('w, 'a, 'v, 't) stellar_net \<Rightarrow> 'w RpcClientOptions \<Rightarrow> 'v ReadOptions \<Rightarrow> ('w, int \<times> 'v option) prog" where
  "simulate_call N C opts =
     bnd (rpc_read N C (\<lambda>s. net_getAccount N s (ro_source opts)) ''getAccount'') (\<lambda>account.
     bnd (of_res (net_build N account BASE_FEE (rc_passphrase C)
            (CallContract (ro_contractId opts) (ro_method opts) (ro_args opts)) None 60)) (\<lambda>tx.
     bnd (rpc_read N C (\<lambda>s. net_simulate N s tx) (''simulate '' @ ro_method opts)) (\<lambda>sim.
     case sim of
       SimulationFailed e \<Rightarrow> throw (SimulationError (''Simulation failed for '' @ ro_method opts) (Some e))
     | Simulated fee retval \<Rightarrow> ret (fee, retval))))"

definition simulateRead ::
  "('w, 'a, 'v, 't) stellar_net \<Rightarrow> 'w RpcClientOptions \<Rightarrow> 'v ReadOptions \<Rightarrow> ('w, 'v option) prog" where
  "simulateRead N C opts = bnd (simulate_call N C opts) (\<lambda>(fee, retval). ret retval)"

definition readNative ::
  "('w, 'a, 'v, 't) stellar_net \<Rightarrow> 'w RpcClientOptions \<Rightarrow> 'v ReadOptions \<Rightarrow> ('w, native_value) prog" where
  "readNative N C opts =
     bnd (simulateRead N C opts) (\<lambda>retval. ret (case retval of Some v \<Rightarrow> net_toNative N v | None \<Rightarrow> NvUndef))"

record SimulationReport =
  sim_minResourceFeeStroops :: int
  sim_returnValue :: native_value

definition simulateInvoke ::
  "('w, 'a, 'v, 't) stellar_net \<Rightarrow> 'w RpcClientOptions \<Rightarrow> 'v ReadOptions \<Rightarrow> ('w, SimulationReport) prog" where
  "simulateInvoke N C opts =
     bnd (simulate_call N C opts) (\<lambda>(fee, retval).
       ret \<lparr>sim_minResourceFeeStroops = fee,
            sim_returnValue = (case retval of Some v \<Rightarrow> net_toNative N v | None \<Rightarrow> NvUndef)\<rparr>)"


section \<open>Invocations\<close>

text \<open>
  The polling loop. Its fuel is one iteration more than the timeout holds intervals; that it is enough under a clock
  that \<open>sleep\<close> advances is proved with the properties.
\<close>

fun poll_loop :: "('w, 'a, 'v, 't) stellar_net \<Rightarrow> string \<Rightarrow> string \<Rightarrow> int \<Rightarrow> nat \<Rightarrow> ('w, tx_response) prog" where
  "poll_loop N server txHash begun 0 = throw (Error ''poll: out of fuel'')"
| "poll_loop N server txHash begun (Suc fuel) =
     bnd (date_now (net_runtime N)) (\<lambda>t.
     if t - begun < TX_POLL_TIMEOUT_MS
     then bnd (net_getTransaction N server txHash) (\<lambda>res.
          if tr_status res \<noteq> ''NOT_FOUND'' then ret res
          else bnd (sleep_ms (net_runtime N) TX_POLL_INTERVAL_MS) (\<lambda>_. poll_loop N server txHash begun fuel))
     else throw (RpcError (''Transaction polling timed out for '' @ txHash) None))"

definition poll_fuel :: nat where "poll_fuel = 61"

definition poll :: "('w, 'a, 'v, 't) stellar_net \<Rightarrow> string \<Rightarrow> string \<Rightarrow> ('w, tx_response) prog" where
  "poll N server txHash = bnd (date_now (net_runtime N)) (\<lambda>begun. poll_loop N server txHash begun poll_fuel)"

definition toContractError :: "'w RpcClientOptions \<Rightarrow> ('w, 'v) InvokeOptions \<Rightarrow> tx_response \<Rightarrow> js_error" where
  "toContractError C opts result =
     (let events = tr_events result;
          diagnostics = (if events = [] then [] else decodeDiagnostics events)
      in case (if events = [] then None else extractContractErrorCode events) of
           Some code \<Rightarrow>
             ContractError (case io_contractPackage opts of Some p \<Rightarrow> p | None \<Rightarrow> io_contractId opts) code
               (case io_contractPackage opts of Some p \<Rightarrow> if p = [] then None else rc_errorNames C p code | None \<Rightarrow> None)
         | None \<Rightarrow> RpcError (''Transaction '' @ tr_status result @ (if diagnostics = [] then [] else '': '' @ diagnostics)) None)"

definition report_call ::
  "('w, 'a, 'v, 't) stellar_net \<Rightarrow> 'w RpcClientOptions \<Rightarrow> ('w, 'v) InvokeOptions \<Rightarrow> int \<Rightarrow> bool \<Rightarrow> string option \<Rightarrow> ('w, unit) prog" where
  "report_call N C opts begun success err =
     (case rc_onContractCall C of
        None \<Rightarrow> ret ()
      | Some hook \<Rightarrow>
          bnd (date_now (net_runtime N)) (\<lambda>t.
          hook \<lparr>cc_contractId = io_contractId opts, cc_method = io_method opts, cc_success = success,
                cc_durationMs = t - begun, cc_error = err\<rparr>))"

definition prepare_call ::
  "('w, 'a, 'v, 't) stellar_net \<Rightarrow> 'w RpcClientOptions \<Rightarrow> ('w, 'v) InvokeOptions \<Rightarrow> ('w, 't) prog" where
  "prepare_call N C opts =
     bnd (rpc_read N C (\<lambda>s. net_getAccount N s (io_source opts)) ''getAccount'') (\<lambda>account.
     bnd (of_res (net_build N account BASE_FEE (rc_passphrase C)
            (CallContract (io_contractId opts) (io_method opts) (io_args opts)) None 180)) (\<lambda>raw.
     if \<not> io_skipSimulation opts
     then bnd (net_simulate N (hd (rc_rpcUrls C)) raw) (\<lambda>sim.
          case sim of
            SimulationFailed e \<Rightarrow> throw (SimulationError (''Simulation failed for '' @ io_method opts) (Some e))
          | Simulated fee retval \<Rightarrow> of_res (net_assemble N raw sim))
     else net_prepare N (hd (rc_rpcUrls C)) raw))"

definition sign_tx ::
  "('w, 'a, 'v, 't) stellar_net \<Rightarrow> 'w RpcClientOptions \<Rightarrow> 'w OpaqueSigner \<Rightarrow> 't \<Rightarrow> ('w, 't) prog" where
  "sign_tx N C signer tx =
     bnd (sg_signTransaction signer (net_toXDR N tx) (rc_passphrase C)) (\<lambda>signedXdr.
     of_res (net_fromXDR N signedXdr (rc_passphrase C)))"

definition send_and_confirm ::
  "('w, 'a, 'v, 't) stellar_net \<Rightarrow> 'w RpcClientOptions \<Rightarrow> ('w, 'v) InvokeOptions \<Rightarrow> 't \<Rightarrow> ('w, string) prog" where
  "send_and_confirm N C opts signedTx =
     bnd (net_send N (hd (rc_rpcUrls C)) signedTx) (\<lambda>send.
     if sr_status send = ''ERROR'' then throw (RpcError (''sendTransaction rejected: '' @ sr_errorResult send) None)
     else
     bnd (poll N (hd (rc_rpcUrls C)) (sr_hash send)) (\<lambda>result.
     if tr_status result \<noteq> ''SUCCESS'' then throw (toContractError C opts result)
     else ret (sr_hash send)))"

definition invoke ::
  "('w, 'a, 'v, 't) stellar_net \<Rightarrow> 'w RpcClientOptions \<Rightarrow> ('w, 'v) InvokeOptions \<Rightarrow> ('w, string) prog" where
  "invoke N C opts =
     bnd (date_now (net_runtime N)) (\<lambda>begun.
     try_catch
       (bnd (prepare_call N C opts) (\<lambda>prepared.
        bnd (sign_tx N C (io_signer opts) prepared) (\<lambda>signedTx.
        bnd (send_and_confirm N C opts signedTx) (\<lambda>hash.
        bnd (report_call N C opts begun True None) (\<lambda>_. ret hash)))))
       (\<lambda>err. bnd (report_call N C opts begun False (Some (err_message err))) (\<lambda>_. throw err)))"


section \<open>Native transfers\<close>

definition accountExists ::
  "('w, 'a, 'v, 't) stellar_net \<Rightarrow> 'w RpcClientOptions \<Rightarrow> string \<Rightarrow> ('w, bool) prog" where
  "accountExists N C publicKey =
     try_catch (bnd (net_loadAccount N (rc_horizonUrl C) publicKey) (\<lambda>_. ret True)) (\<lambda>err.
       if extractStatus N err \<noteq> Some 404
       then throw (OpaqueError ''RPC'' (''Account lookup failed for '' @ publicKey)
              (optional_field ''httpStatus'' (map_option js_num_String (extractStatus N err))))
       else ret False)"

record 'w NativeTransfer =
  nt_destination :: string
  nt_amountStroops :: int
  nt_signer :: "'w OpaqueSigner"
  nt_feePerOperation :: "string option"
  nt_memo :: "TransferMemo option"

definition transfer_operation :: "bool \<Rightarrow> string \<Rightarrow> int \<Rightarrow> 'v tx_operation" where
  "transfer_operation destExists destination amountStroops =
     (if destExists then PayNative destination (formatStroopsToXlm amountStroops)
      else CreateAccount destination (formatStroopsToXlm amountStroops))"

definition rpc_sendNativeTransfer ::
  "('w, 'a, 'v, 't) stellar_net \<Rightarrow> 'w RpcClientOptions \<Rightarrow> 'w NativeTransfer \<Rightarrow> ('w, string) prog" where
  "rpc_sendNativeTransfer N C opts =
     bnd (sg_publicKey (nt_signer opts)) (\<lambda>source.
     bnd (net_loadAccount N (rc_horizonUrl C) source) (\<lambda>sourceAccount.
     bnd (accountExists N C (nt_destination opts)) (\<lambda>destExists.
     if \<not> destExists \<and> nt_amountStroops opts < NEW_ACCOUNT_MIN_RESERVE_STROOPS
     then throw (RpcError ''Destination account does not exist; create-account requires at least 1 XLM.'' None)
     else
     bnd (of_res (net_build N sourceAccount (case nt_feePerOperation opts of Some f \<Rightarrow> f | None \<Rightarrow> BASE_FEE) (rc_passphrase C)
            (transfer_operation destExists (nt_destination opts) (nt_amountStroops opts)) (toStellarSdkMemo (nt_memo opts)) 180)) (\<lambda>tx.
     bnd (sign_tx N C (nt_signer opts) tx) (\<lambda>signedTx.
     net_submit N (rc_horizonUrl C) signedTx)))))"

definition incompatible_lines :: "balance_line list \<Rightarrow> string list" where
  "incompatible_lines balances =
     map (\<lambda>b. case bl_asset_code b of
            Some code \<Rightarrow> if code = [] then bl_asset_type b else code @ '':'' @ (case bl_asset_issuer b of Some i \<Rightarrow> i | None \<Rightarrow> ''?'')
          | None \<Rightarrow> bl_asset_type b)
       (filter (\<lambda>b. bl_asset_type b \<noteq> ''native'') balances)"

definition rpc_accountMerge ::
  "('w, 'a, 'v, 't) stellar_net \<Rightarrow> 'w RpcClientOptions \<Rightarrow> 'w OpaqueSigner \<Rightarrow> string \<Rightarrow> ('w, string) prog" where
  "rpc_accountMerge N C sourceSigner destination =
     bnd (sg_publicKey sourceSigner) (\<lambda>source.
     bnd (net_loadAccount N (rc_horizonUrl C) source) (\<lambda>account.
     let incompatible = incompatible_lines (net_balances N account) in
     if incompatible \<noteq> [] then throw (MergeIncompatibleError source incompatible)
     else
     bnd (of_res (net_build N account BASE_FEE (rc_passphrase C) (MergeAccount destination) None 180)) (\<lambda>tx.
     bnd (sign_tx N C sourceSigner tx) (\<lambda>signedTx.
     net_submit N (rc_horizonUrl C) signedTx))))"

definition buildFeeBumpXdr :: "('w, 'a, 'v, 't) stellar_net \<Rightarrow> 'a \<Rightarrow> string \<Rightarrow> string \<Rightarrow> string \<Rightarrow> string res" where
  "buildFeeBumpXdr N feeSource feePerOperation innerTransactionXdr networkPassphrase =
     (case net_fromXDR N innerTransactionXdr networkPassphrase of
        Inl _ \<Rightarrow> Inl (RpcError ''Inner transaction XDR could not be parsed.'' None)
      | Inr inner \<Rightarrow>
          (case net_feeBump N feeSource feePerOperation inner networkPassphrase of
             Inl _ \<Rightarrow> Inl (RpcError ''Fee-bump transaction could not be built.'' None)
           | Inr bump \<Rightarrow> Inr (net_toXDR N bump)))"

definition rpc_feeBumpTransaction ::
  "('w, 'a, 'v, 't) stellar_net \<Rightarrow> 'w RpcClientOptions \<Rightarrow> 'w OpaqueSigner \<Rightarrow> string \<Rightarrow> string \<Rightarrow> ('w, string) prog" where
  "rpc_feeBumpTransaction N C feeSigner innerTransactionXdr feePerOperation =
     bnd (sg_publicKey feeSigner) (\<lambda>feeSource.
     bnd (net_loadAccount N (rc_horizonUrl C) feeSource) (\<lambda>account.
     bnd (of_res (buildFeeBumpXdr N account feePerOperation innerTransactionXdr (rc_passphrase C))) (\<lambda>bumpXdr.
     bnd (sg_signTransaction feeSigner bumpXdr (rc_passphrase C)) (\<lambda>signedXdr.
     bnd (of_res (net_fromXDR N signedXdr (rc_passphrase C))) (\<lambda>signedTx.
     net_submit N (rc_horizonUrl C) signedTx)))))"

end
