(* ===== verification/Sdk_Pool.thy ===== *)
theory Sdk_Pool
  imports Sdk_Rpc Sdk_Storage
begin

text \<open>
  The binding of the privacy-pool contract (\<open>sdk/src/contracts/pool.ts\<close>) and the pool service over it
  (\<open>sdk/src/services/pool.ts\<close>, \<open>sdk/src/services/read-source.ts\<close>), with the prover call of
  \<open>sdk/src/prove/pool.ts\<close> and the guards of \<open>sdk/src/client/OpaqueClient.ts\<close>.

  The binding is written against the interface \<open>ContractInvoker\<close>, which the RPC client implements.
  Conversions to contract values belong to the Stellar SDK and are the parameter \<open>scval_lib\<close>; a prover is
  the parameter \<open>snarkjs\<close>. Reads that the source starts together are run one after the other. A number that
  JavaScript reads as \<open>NaN\<close> is \<open>None\<close>.
\<close>

section \<open>Reading native values\<close>

type_synonym js_number = "rat option"

definition num_gt :: "js_number \<Rightarrow> js_number \<Rightarrow> bool" where
  "num_gt a b = (case (a, b) of (Some x, Some y) \<Rightarrow> x > y | _ \<Rightarrow> False)"

definition num_ge :: "js_number \<Rightarrow> js_number \<Rightarrow> bool" where
  "num_ge a b = (case (a, b) of (Some x, Some y) \<Rightarrow> x \<ge> y | _ \<Rightarrow> False)"

fun nv_String :: "native_value \<Rightarrow> string" where
  "nv_String NvUndef = ''undefined''"
| "nv_String (NvBool b) = (if b then ''true'' else ''false'')"
| "nv_String (NvNum r) = js_num_String r"
| "nv_String (NvBig i) = dec_of_int i"
| "nv_String (NvStr s) = s"
| "nv_String (NvBytes bs) = join_with '','' (map (\<lambda>b. dec_of_nat (unat b)) bs)"
| "nv_String (NvArr vs) = join_with '','' (map (\<lambda>v. if v = NvUndef then [] else nv_String v) vs)"
| "nv_String (NvObj m) = ''[object Object]''"

fun nv_Number :: "native_value \<Rightarrow> js_number" where
  "nv_Number NvUndef = None"
| "nv_Number (NvBool b) = Some (if b then 1 else 0)"
| "nv_Number (NvNum r) = Some r"
| "nv_Number (NvBig i) = Some (rat_of_int i)"
| "nv_Number v = js_Number_str (nv_String v)"

fun nv_BigInt :: "native_value \<Rightarrow> int res" where
  "nv_BigInt NvUndef = Inl (TypeError ''Cannot convert undefined to a BigInt'')"
| "nv_BigInt (NvBool b) = Inr (if b then 1 else 0)"
| "nv_BigInt (NvNum r) = js_BigInt_num r"
| "nv_BigInt (NvBig i) = Inr i"
| "nv_BigInt v = js_BigInt_str (nv_String v)"

fun nv_Boolean :: "native_value \<Rightarrow> bool" where
  "nv_Boolean NvUndef = False"
| "nv_Boolean (NvBool b) = b"
| "nv_Boolean (NvNum r) = (r \<noteq> 0)"
| "nv_Boolean (NvBig i) = (i \<noteq> 0)"
| "nv_Boolean (NvStr s) = (s \<noteq> [])"
| "nv_Boolean _ = True"

text \<open>\<open>raw.key\<close>, and \<open>raw?.[i] ?? 0\<close>.\<close>

definition nv_get :: "native_value \<Rightarrow> string \<Rightarrow> native_value res" where
  "nv_get v k =
     (case v of
        NvUndef \<Rightarrow> Inl (TypeError (''Cannot read properties of undefined (reading '' @ k @ '')''))
      | NvObj m \<Rightarrow> Inr (case map_of m k of Some x \<Rightarrow> x | None \<Rightarrow> NvUndef)
      | _ \<Rightarrow> Inr NvUndef)"

definition nv_at_or_0 :: "native_value \<Rightarrow> nat \<Rightarrow> native_value" where
  "nv_at_or_0 v i =
     (case v of NvArr vs \<Rightarrow> if i < length vs \<and> vs ! i \<noteq> NvUndef then vs ! i else NvNum 0 | _ \<Rightarrow> NvNum 0)"


section \<open>The interface of the bindings\<close>

record ('w, 'v) ContractInvoker =
  ci_invoke :: "('w, 'v) InvokeOptions \<Rightarrow> ('w, string) prog"
  ci_readNative :: "'v ReadOptions \<Rightarrow> ('w, native_value) prog"
  ci_simulateInvoke :: "('v ReadOptions \<Rightarrow> ('w, SimulationReport) prog) option"
  ci_events :: "'w event_rpc"

definition rpc_invoker :: "('w, 'a, 'v, 't) stellar_net \<Rightarrow> 'w RpcClientOptions \<Rightarrow> ('w, 'v) ContractInvoker" where
  "rpc_invoker N C =
     \<lparr>ci_invoke = invoke N C, ci_readNative = readNative N C, ci_simulateInvoke = Some (simulateInvoke N C),
      ci_events = \<lparr>getEvents = rpc_getEvents N C, getLatestLedger = rpc_getLatestLedger N C\<rparr>\<rparr>"

record 'v scval_lib =
  sc_address :: "string \<Rightarrow> 'v res"
  sc_i128 :: "int \<Rightarrow> 'v res"
  sc_u64 :: "int \<Rightarrow> 'v res"
  sc_bytes :: "byte list \<Rightarrow> 'v"
  sc_bool :: "bool \<Rightarrow> 'v"

record ('w, 'v) PrivacyPool =
  pp_rpc :: "('w, 'v) ContractInvoker"
  pp_contractId :: string
  pp_scval :: "'v scval_lib"


section \<open>The binding\<close>

definition pool_view :: "('w, 'v) PrivacyPool \<Rightarrow> string \<Rightarrow> string \<Rightarrow> 'v list \<Rightarrow> ('w, native_value) prog" where
  "pool_view P source method args =
     ci_readNative (pp_rpc P) \<lparr>ro_source = source, ro_contractId = pp_contractId P, ro_method = method, ro_args = args\<rparr>"

definition pool_invoke :: "('w, 'v) PrivacyPool \<Rightarrow> string \<Rightarrow> string \<Rightarrow> 'v list \<Rightarrow> 'w OpaqueSigner \<Rightarrow> ('w, string) prog" where
  "pool_invoke P source method args signer =
     ci_invoke (pp_rpc P) \<lparr>io_source = source, io_contractId = pp_contractId P, io_method = method, io_args = args,
       io_signer = signer, io_skipSimulation = False, io_contractPackage = Some ''privacy-pool''\<rparr>"

definition pool_version :: "('w, 'v) PrivacyPool \<Rightarrow> string \<Rightarrow> ('w, js_number) prog" where
  "pool_version P source = bnd (pool_view P source ''version'' []) (\<lambda>v. ret (nv_Number v))"

definition pool_deposit ::
  "('w, 'v) PrivacyPool \<Rightarrow> int \<Rightarrow> byte list \<Rightarrow> int \<Rightarrow> 'w OpaqueSigner \<Rightarrow> ('w, string) prog" where
  "pool_deposit P val commitment expectedIndex signer =
     bnd (sg_publicKey signer) (\<lambda>depositor.
     bnd (of_res (sc_address (pp_scval P) depositor)) (\<lambda>a1.
     bnd (of_res (sc_i128 (pp_scval P) val)) (\<lambda>a2.
     bnd (of_res (sc_u64 (pp_scval P) expectedIndex)) (\<lambda>a4.
     pool_invoke P depositor ''deposit'' [a1, a2, sc_bytes (pp_scval P) commitment, a4] signer))))"

record PoolWithdrawInputs =
  pw_proof :: PoolWithdrawProof
  pw_recipient :: string
  pw_fee :: int
  pw_relayer :: string

definition withdrawArgs :: "'v scval_lib \<Rightarrow> PoolWithdrawInputs \<Rightarrow> 'v list res" where
  "withdrawArgs V opts =
     (let p = pw_proof opts in
      res_bind (sc_i128 V (wp_withdrawnValue p)) (\<lambda>withdrawn.
      res_bind (sc_address V (pw_recipient opts)) (\<lambda>recipient.
      res_bind (sc_i128 V (pw_fee opts)) (\<lambda>fee.
      res_bind (sc_address V (pw_relayer opts)) (\<lambda>relayer.
      Inr [sc_bytes V (wp_proofA p), sc_bytes V (wp_proofB p), sc_bytes V (wp_proofC p), withdrawn,
           sc_bytes V (wp_stateRoot p), sc_bytes V (wp_aspRoot p), sc_bytes V (wp_nullifierHash p),
           sc_bytes V (wp_newCommitment p), recipient, fee, relayer])))))"

definition pool_withdraw :: "('w, 'v) PrivacyPool \<Rightarrow> PoolWithdrawInputs \<Rightarrow> 'w OpaqueSigner \<Rightarrow> ('w, string) prog" where
  "pool_withdraw P opts signer =
     bnd (sg_publicKey signer) (\<lambda>caller.
     bnd (of_res (withdrawArgs (pp_scval P) opts)) (\<lambda>args.
     pool_invoke P caller ''withdraw'' args signer))"

definition simulateWithdraw :: "('w, 'v) PrivacyPool \<Rightarrow> PoolWithdrawInputs \<Rightarrow> string \<Rightarrow> ('w, SimulationReport) prog" where
  "simulateWithdraw P opts source =
     (case ci_simulateInvoke (pp_rpc P) of
        None \<Rightarrow> throw (NotWiredError ''Withdrawal dry run'' ''The configured invoker does not implement simulateInvoke.'')
      | Some simulate \<Rightarrow>
          bnd (of_res (withdrawArgs (pp_scval P) opts)) (\<lambda>args.
          simulate \<lparr>ro_source = source, ro_contractId = pp_contractId P, ro_method = ''withdraw'', ro_args = args\<rparr>))"

datatype root_kind = StateRoot | AspRoot

definition updateRoot ::
  "('w, 'v) PrivacyPool \<Rightarrow> root_kind \<Rightarrow> byte list \<Rightarrow> byte list \<Rightarrow> 'w OpaqueSigner \<Rightarrow> ('w, string) prog" where
  "updateRoot P kind newRoot datasetHash signer =
     bnd (sg_publicKey signer) (\<lambda>admin.
     bnd (of_res (sc_address (pp_scval P) admin)) (\<lambda>a1.
     pool_invoke P admin (if kind = StateRoot then ''update_state_root'' else ''update_asp_root'')
       [a1, sc_bytes (pp_scval P) newRoot, sc_bytes (pp_scval P) datasetHash] signer))"

record PoolConfig =
  pc_admin :: string
  pc_groth16Verifier :: string
  pc_nativeSac :: string
  pc_scope :: js_number
  pc_rootExpiryLedgers :: js_number

definition getConfig :: "('w, 'v) PrivacyPool \<Rightarrow> string \<Rightarrow> ('w, PoolConfig) prog" where
  "getConfig P source =
     bnd (pool_view P source ''get_config'' []) (\<lambda>raw.
     bnd (of_res (nv_get raw ''admin'')) (\<lambda>admin.
     bnd (of_res (nv_get raw ''groth16_verifier'')) (\<lambda>verifier.
     bnd (of_res (nv_get raw ''native_sac'')) (\<lambda>sac.
     bnd (of_res (nv_get raw ''scope'')) (\<lambda>scope.
     bnd (of_res (nv_get raw ''root_expiry_ledgers'')) (\<lambda>expiry.
     ret \<lparr>pc_admin = nv_String admin, pc_groth16Verifier = nv_String verifier, pc_nativeSac = nv_String sac,
          pc_scope = nv_Number scope, pc_rootExpiryLedgers = nv_Number expiry\<rparr>))))))"

definition getNativeAssetDecimals :: "('w, 'v) PrivacyPool \<Rightarrow> string \<Rightarrow> ('w, js_number) prog" where
  "getNativeAssetDecimals P source =
     bnd (getConfig P source) (\<lambda>config.
     bnd (ci_readNative (pp_rpc P) \<lparr>ro_source = source, ro_contractId = pc_nativeSac config, ro_method = ''decimals'', ro_args = []\<rparr>) (\<lambda>decimals.
     ret (nv_Number decimals)))"

definition getDepositCount :: "('w, 'v) PrivacyPool \<Rightarrow> string \<Rightarrow> ('w, js_number) prog" where
  "getDepositCount P source = bnd (pool_view P source ''get_deposit_count'' []) (\<lambda>count. ret (nv_Number count))"

definition pool_isNullifierSpent :: "('w, 'v) PrivacyPool \<Rightarrow> string \<Rightarrow> byte list \<Rightarrow> ('w, bool) prog" where
  "pool_isNullifierSpent P source nh =
     bnd (pool_view P source ''is_spent'' [sc_bytes (pp_scval P) nh]) (\<lambda>spent. ret (nv_Boolean spent))"

text \<open>\<open>Uint8Array.from(root)\<close> of the bytes of a root.\<close>

definition nv_root :: "native_value \<Rightarrow> byte list option" where
  "nv_root v = (case v of NvBytes bs \<Rightarrow> Some bs | _ \<Rightarrow> None)"

definition simulation_diagnostics :: "js_error \<Rightarrow> string" where
  "simulation_diagnostics err =
     (case err of
        OpaqueError code m fs \<Rightarrow>
          if code = ''SIMULATION'' then (case map_of fs ''diagnostics'' of Some d \<Rightarrow> d | None \<Rightarrow> []) else []
      | _ \<Rightarrow> [])"

definition getLatestRoot :: "('w, 'v) PrivacyPool \<Rightarrow> string \<Rightarrow> root_kind \<Rightarrow> ('w, byte list option) prog" where
  "getLatestRoot P source kind =
     try_catch (bnd (pool_view P source ''get_latest_root'' [sc_bool (pp_scval P) (kind = StateRoot)]) (\<lambda>root. ret (nv_root root)))
       (\<lambda>err. if has_sub (if kind = StateRoot then ''unknownstateroot'' else ''unknownasproot'') (to_lower (simulation_diagnostics err))
              then ret None else throw err)"

definition isKnownRoot :: "('w, 'v) PrivacyPool \<Rightarrow> string \<Rightarrow> string \<Rightarrow> byte list \<Rightarrow> ('w, bool) prog" where
  "isKnownRoot P method source candidate =
     bnd (pool_view P source method [sc_bytes (pp_scval P) candidate]) (\<lambda>known. ret (nv_Boolean known))"

definition pool_isKnownStateRoot :: "('w, 'v) PrivacyPool \<Rightarrow> string \<Rightarrow> byte list \<Rightarrow> ('w, bool) prog" where
  "pool_isKnownStateRoot P source candidate = isKnownRoot P ''is_known_state_root'' source candidate"

definition pool_isKnownAspRoot :: "('w, 'v) PrivacyPool \<Rightarrow> string \<Rightarrow> byte list \<Rightarrow> ('w, bool) prog" where
  "pool_isKnownAspRoot P source candidate = isKnownRoot P ''is_known_asp_root'' source candidate"

definition pool_isDepositsPaused :: "('w, 'v) PrivacyPool \<Rightarrow> string \<Rightarrow> ('w, bool) prog" where
  "pool_isDepositsPaused P source = bnd (pool_view P source ''is_deposits_paused'' []) (\<lambda>v. ret (nv_Boolean v))"

definition pool_isWithdrawalsPaused :: "('w, 'v) PrivacyPool \<Rightarrow> string \<Rightarrow> ('w, bool) prog" where
  "pool_isWithdrawalsPaused P source = bnd (pool_view P source ''is_withdrawals_paused'' []) (\<lambda>v. ret (nv_Boolean v))"

record WithdrawalPauseRequest =
  pq_requestedAt :: js_number
  pq_activatesAt :: js_number
  pq_pending :: bool
  pq_ledgersUntilActivation :: js_number

definition getWithdrawalPauseRequest :: "('w, 'v) PrivacyPool \<Rightarrow> string \<Rightarrow> ('w, WithdrawalPauseRequest) prog" where
  "getWithdrawalPauseRequest P source =
     bnd (pool_view P source ''get_withdrawal_pause_request'' []) (\<lambda>raw.
     let requestedAt = nv_Number (nv_at_or_0 raw 0);
         activatesAt = nv_Number (nv_at_or_0 raw 1);
         pending = num_gt requestedAt (Some 0)
     in bnd (getLatestLedger (ci_events (pp_rpc P))) (\<lambda>now.
        ret \<lparr>pq_requestedAt = requestedAt, pq_activatesAt = activatesAt, pq_pending = pending,
             pq_ledgersUntilActivation =
               (if pending then map_option (\<lambda>t. max 0 (t - rat_of_int now)) activatesAt else Some 0)\<rparr>))"

definition getWithdrawalMinimum :: "('w, 'v) PrivacyPool \<Rightarrow> string \<Rightarrow> ('w, int) prog" where
  "getWithdrawalMinimum P source =
     bnd (pool_view P source ''get_withdrawal_minimum'' []) (\<lambda>minimum.
     of_res (nv_BigInt (if minimum = NvUndef then NvNum 0 else minimum)))"

record PoolCustody =
  cu_totalDeposited :: int
  cu_totalWithdrawn :: int
  cu_netHeld :: int

definition getCustody :: "('w, 'v) PrivacyPool \<Rightarrow> string \<Rightarrow> ('w, PoolCustody) prog" where
  "getCustody P source =
     bnd (pool_view P source ''get_custody'' []) (\<lambda>raw.
     bnd (of_res (nv_BigInt (nv_at_or_0 raw 0))) (\<lambda>totalDeposited.
     bnd (of_res (nv_BigInt (nv_at_or_0 raw 1))) (\<lambda>totalWithdrawn.
     ret \<lparr>cu_totalDeposited = totalDeposited, cu_totalWithdrawn = totalWithdrawn, cu_netHeld = totalDeposited - totalWithdrawn\<rparr>)))"

record TreeCapacityInfo =
  tc_maxCapacity :: js_number
  tc_currentCount :: js_number
  tc_depth :: js_number
  tc_lastUpdated :: js_number
  tc_utilization :: js_number

definition getTreeCapacityInfo :: "('w, 'v) PrivacyPool \<Rightarrow> string \<Rightarrow> ('w, TreeCapacityInfo) prog" where
  "getTreeCapacityInfo P source =
     bnd (pool_view P source ''get_tree_capacity_info'' []) (\<lambda>raw.
     bnd (of_res (nv_get raw ''max_capacity'')) (\<lambda>m.
     bnd (of_res (nv_get raw ''current_count'')) (\<lambda>c.
     bnd (of_res (nv_get raw ''depth'')) (\<lambda>d.
     bnd (of_res (nv_get raw ''last_updated'')) (\<lambda>u.
     let maxCapacity = nv_Number m; currentCount = nv_Number c
     in ret \<lparr>tc_maxCapacity = maxCapacity, tc_currentCount = currentCount, tc_depth = nv_Number d, tc_lastUpdated = nv_Number u,
             tc_utilization = (if num_gt maxCapacity (Some 0)
                then Option.bind currentCount (\<lambda>x. map_option (\<lambda>y. x / y) maxCapacity) else Some 0)\<rparr>)))))"


section \<open>The prover call\<close>

record 'w snarkjs =
  sj_fullProve :: "jv \<Rightarrow> string \<Rightarrow> string \<Rightarrow> ('w, Groth16ProofLike \<times> jv) prog"
  sj_verify :: "(string \<Rightarrow> jv \<Rightarrow> Groth16ProofLike \<Rightarrow> ('w, bool) prog) option"

record 'w proving =
  pv_poseidon :: poseidon
  pv_stellar :: stellar_lib
  pv_random :: "nat \<Rightarrow> ('w, byte list) prog"
  pv_resolve :: "string \<Rightarrow> string \<Rightarrow> ('w, string) prog"
  pv_snarkjs :: "'w snarkjs"

text \<open>
  \<open>provePoolWithdraw\<close> without the abort signal and the progress callback, which the service does not pass. The
  bytes of the change secrets are drawn before the witness is built.
\<close>

definition provePoolWithdraw :: "'w proving \<Rightarrow> WithdrawOpts \<Rightarrow> ('w, PoolWithdrawProof) prog" where
  "provePoolWithdraw K opts =
     bnd (pv_random K 31) (\<lambda>r1.
     bnd (pv_random K 31) (\<lambda>r2.
     bnd (of_res (buildPoolWithdrawWitness (pv_poseidon K) (pv_stellar K) r1 r2 opts)) (\<lambda>witness.
     bnd (pv_resolve K ''pool-v3'' ''wasm'') (\<lambda>wasm.
     bnd (pv_resolve K ''pool-v3'' ''zkey'') (\<lambda>zkey.
     bnd (sj_fullProve (pv_snarkjs K) (ww_input witness) wasm zkey) (\<lambda>(proof, publicSignals).
     bnd (case sj_verify (pv_snarkjs K) of
            None \<Rightarrow> ret ()
          | Some verify \<Rightarrow> bnd (verify zkey publicSignals proof) (\<lambda>valid.
              if valid then ret () else throw (Error ''Locally generated proof failed Groth16 verification''))) (\<lambda>_.
     of_res (finishPoolWithdrawProof witness proof))))))))"


section \<open>The service\<close>

record ('w, 'v) PoolContext =
  cx_network :: string
  cx_poolScope :: nat
  cx_startLedger :: "int option"
  cx_pool :: "('w, 'v) PrivacyPool"
  cx_notes :: "('w, PoolNote) NoteStore"
  cx_signer :: "'w OpaqueSigner option"
  cx_artifacts :: bool
  cx_proving :: "'w proving"
  cx_topic :: "string \<Rightarrow> string"

definition requireSigner :: "'w OpaqueSigner option \<Rightarrow> 'w OpaqueSigner res" where
  "requireSigner s =
     (case s of Some signer \<Rightarrow> Inr signer
      | None \<Rightarrow> Inl (SignerError ''This operation requires a signer. Construct OpaqueClient with { signer }.''))"

definition resolveReadSource :: "'w OpaqueSigner option \<Rightarrow> string option \<Rightarrow> ('w, string) prog" where
  "resolveReadSource s explicit =
     (if explicit \<noteq> None \<and> explicit \<noteq> Some [] then ret (the explicit)
      else case s of
        Some signer \<Rightarrow> sg_publicKey signer
      | None \<Rightarrow> throw (SignerError (''This read needs an account to simulate from. Construct OpaqueClient with { signer } '' @
                  ''or pass an explicit `source` account.'')))"

record 'w DepositOpts =
  do_signer :: "'w OpaqueSigner"
  do_value :: int
  do_amountXlmForValidation :: string
  do_secrets :: "(string \<times> string) option"
  do_createdAt :: "rat option"
  do_skipValidation :: bool

text \<open>
  The precision check compares with the number read from the asset contract; one that is not a number makes it pass.
\<close>

definition check_amount :: "('w, 'v) PoolContext \<Rightarrow> 'w DepositOpts \<Rightarrow> string \<Rightarrow> ('w, unit) prog" where
  "check_amount ctx opts source =
     (if do_skipValidation opts then ret ()
      else bnd (getNativeAssetDecimals (cx_pool ctx) source) (\<lambda>decimals.
           of_res (validateDepositAmount (do_amountXlmForValidation opts) (do_value opts) decimals)))"

definition draw_secrets :: "('w, 'v) PoolContext \<Rightarrow> (string \<times> string) option \<Rightarrow> ('w, string \<times> string) prog" where
  "draw_secrets ctx secrets =
     (case secrets of
        Some s \<Rightarrow> ret s
      | None \<Rightarrow> bnd (pv_random (cx_proving ctx) 31) (\<lambda>r1. bnd (pv_random (cx_proving ctx) 31) (\<lambda>r2. ret (newNoteSecrets r1 r2))))"

text \<open>
  The index as \<open>deriveDeposit\<close> reads it: \<open>BigInt\<close> refuses \<open>NaN\<close> and fractions. The contract's count
  is unsigned, so a negative number is not distinguished from these.
\<close>

definition index_of_count :: "js_number \<Rightarrow> nat res" where
  "index_of_count count =
     (case count of
        Some r \<Rightarrow> if is_integer r \<and> 0 \<le> r then Inr (nat \<lfloor>r\<rfloor>)
                  else Inl (RangeError ''The number cannot be converted to a BigInt because it is not an integer'')
      | None \<Rightarrow> Inl (RangeError ''The number NaN cannot be converted to a BigInt because it is not an integer''))"

definition deposit_note ::
  "('w, 'v) PoolContext \<Rightarrow> int \<Rightarrow> nat \<Rightarrow> string \<times> string \<Rightarrow> int \<Rightarrow> rat option \<Rightarrow> PoolNote" where
  "deposit_note ctx val expectedIndex secrets commitment createdAt =
     \<lparr>note_cluster = cx_network ctx, note_poolId = Some (pp_contractId (cx_pool ctx)), note_value = dec_of_int val,
      note_scope = cx_poolScope ctx, note_leafIndex = expectedIndex, note_nullifier = fst secrets, note_secret = snd secrets,
      note_commitment = toHex32 commitment, note_spent = False, note_createdAt = (case createdAt of Some t \<Rightarrow> t | None \<Rightarrow> 0)\<rparr>"

definition depositWithSigner :: "('w, 'v) PoolContext \<Rightarrow> 'w DepositOpts \<Rightarrow> ('w, PoolNote \<times> string) prog" where
  "depositWithSigner ctx opts =
     bnd (sg_publicKey (do_signer opts)) (\<lambda>source.
     bnd (check_amount ctx opts source) (\<lambda>_.
     bnd (getDepositCount (cx_pool ctx) source) (\<lambda>count.
     bnd (draw_secrets ctx (do_secrets opts)) (\<lambda>secrets.
     bnd (of_res (js_BigInt_str (fst secrets))) (\<lambda>nullifier.
     bnd (of_res (js_BigInt_str (snd secrets))) (\<lambda>secret.
     bnd (of_res (index_of_count count)) (\<lambda>expectedIndex.
     let commitment = dd_commitment (deriveDeposit (pv_poseidon (cx_proving ctx)) (do_value opts) (cx_poolScope ctx)
           expectedIndex nullifier secret)
     in bnd (pool_deposit (cx_pool ctx) (do_value opts) (bigIntToBytes32 commitment) (int expectedIndex) (do_signer opts)) (\<lambda>txHash.
     let note' = deposit_note ctx (do_value opts) expectedIndex secrets commitment (do_createdAt opts)
     in bnd (notes_add (cx_notes ctx) note') (\<lambda>_. ret (note', txHash))))))))))"

definition pool_service_deposit ::
  "('w, 'v) PoolContext \<Rightarrow> string \<Rightarrow> (string \<times> string) option \<Rightarrow> rat option \<Rightarrow> bool \<Rightarrow> ('w, PoolNote \<times> string) prog" where
  "pool_service_deposit ctx amountXlm secrets createdAt skipValidation =
     bnd (of_res (requireSigner (cx_signer ctx))) (\<lambda>signer.
     bnd (of_res (parseXlmToStroops amountXlm)) (\<lambda>val.
     depositWithSigner ctx \<lparr>do_signer = signer, do_value = val, do_amountXlmForValidation = amountXlm, do_secrets = secrets,
       do_createdAt = createdAt, do_skipValidation = skipValidation\<rparr>))"

definition keypairSigner :: "('k \<Rightarrow> string) \<Rightarrow> ('k \<Rightarrow> string \<Rightarrow> string \<Rightarrow> string res) \<Rightarrow> 'k \<Rightarrow> 'w OpaqueSigner" where
  "keypairSigner address sign keypair =
     \<lparr>sg_publicKey = ret (address keypair),
      sg_signTransaction = (\<lambda>xdr passphrase. of_res (case sign keypair xdr passphrase of
         Inl _ \<Rightarrow> Inl (SignerError ''Keypair failed to sign transaction'') | Inr s \<Rightarrow> Inr s))\<rparr>"

definition pool_service_sweep ::
  "('w, 'v) PoolContext \<Rightarrow> ('p, 'k) curve_lib \<Rightarrow> ('k \<Rightarrow> string \<Rightarrow> string \<Rightarrow> string res) \<Rightarrow> byte list \<Rightarrow> int \<Rightarrow>
   (string \<times> string) option \<Rightarrow> rat option \<Rightarrow> bool \<Rightarrow> ('w, PoolNote \<times> string) prog" where
  "pool_service_sweep ctx L sign stealthPrivKey amountStroops secrets createdAt skipValidation =
     bnd (of_res (deriveStealthStellarKeypairFromStealthPrivKey L stealthPrivKey)) (\<lambda>keypair.
     depositWithSigner ctx \<lparr>do_signer = keypairSigner (kp_address L) sign keypair, do_value = amountStroops,
       do_amountXlmForValidation = dec_of_int amountStroops, do_secrets = secrets, do_createdAt = createdAt,
       do_skipValidation = skipValidation\<rparr>)"

record WithdrawRequest =
  wr_proof :: PoolWithdrawProof
  wr_recipient :: string
  wr_fee :: "int option"
  wr_relayer :: "string option"
  wr_noteCommitment :: "string option"

definition withdraw_inputs :: "WithdrawRequest \<Rightarrow> PoolWithdrawInputs" where
  "withdraw_inputs opts =
     \<lparr>pw_proof = wr_proof opts, pw_recipient = wr_recipient opts, pw_fee = or_else (wr_fee opts) 0,
      pw_relayer = or_else (wr_relayer opts) (wr_recipient opts)\<rparr>"

definition pool_service_withdraw :: "('w, 'v) PoolContext \<Rightarrow> WithdrawRequest \<Rightarrow> ('w, string) prog" where
  "pool_service_withdraw ctx opts =
     bnd (of_res (requireSigner (cx_signer ctx))) (\<lambda>signer.
     bnd (pool_withdraw (cx_pool ctx) (withdraw_inputs opts) signer) (\<lambda>txHash.
     bnd (case wr_noteCommitment opts of
            Some c \<Rightarrow> if c = [] then ret () else notes_markSpent (cx_notes ctx) c
          | None \<Rightarrow> ret ()) (\<lambda>_. ret txHash)))"

definition isNullifierSpent :: "('w, 'v) PoolContext \<Rightarrow> byte list \<Rightarrow> string option \<Rightarrow> ('w, bool) prog" where
  "isNullifierSpent ctx nh source =
     bnd (resolveReadSource (cx_signer ctx) source) (\<lambda>src. pool_isNullifierSpent (cx_pool ctx) src nh)"

definition reconcileWithdrawal ::
  "('w, 'v) PoolContext \<Rightarrow> PoolWithdrawProof \<Rightarrow> string \<Rightarrow> string option \<Rightarrow> ('w, bool) prog" where
  "reconcileWithdrawal ctx proof noteCommitment source =
     bnd (isNullifierSpent ctx (wp_nullifierHash proof) source) (\<lambda>spent.
     bnd (if spent then notes_markSpent (cx_notes ctx) noteCommitment else ret ()) (\<lambda>_. ret spent))"

definition getRoots :: "('w, 'v) PoolContext \<Rightarrow> string option \<Rightarrow> ('w, byte list option \<times> byte list option) prog" where
  "getRoots ctx source =
     bnd (resolveReadSource (cx_signer ctx) source) (\<lambda>src.
     bnd (getLatestRoot (cx_pool ctx) src StateRoot) (\<lambda>state.
     bnd (getLatestRoot (cx_pool ctx) src AspRoot) (\<lambda>asp. ret (state, asp))))"

record DepositCoverage =
  dc_covered :: bool
  dc_stateRoot :: "byte list option"
  dc_aspRoot :: "byte list option"
  dc_stateRootKnown :: bool
  dc_aspRootKnown :: bool
  dc_reasons :: "string list"
  dc_capacity :: TreeCapacityInfo
  dc_depositsPaused :: bool
  dc_withdrawalsPaused :: bool

definition coverage_reasons ::
  "byte list option \<Rightarrow> byte list option \<Rightarrow> bool \<Rightarrow> bool \<Rightarrow> bool \<Rightarrow> TreeCapacityInfo \<Rightarrow> string list" where
  "coverage_reasons stateR aspR stateRootKnown aspRootKnown withdrawalsPaused capacity =
     (if stateR = None then [''no-state-root''] else if \<not> stateRootKnown then [''unknown-state-root''] else [])
     @ (if aspR = None then [''no-asp-root''] else if \<not> aspRootKnown then [''unknown-asp-root''] else [])
     @ (if withdrawalsPaused then [''withdrawals-paused''] else [])
     @ (if num_gt (tc_maxCapacity capacity) (Some 0) \<and> num_ge (tc_currentCount capacity) (tc_maxCapacity capacity)
        then [''tree-at-capacity''] else [])"

definition known_root :: "(byte list \<Rightarrow> ('w, bool) prog) \<Rightarrow> byte list option \<Rightarrow> ('w, bool) prog" where
  "known_root check candidate = (case candidate of Some r \<Rightarrow> check r | None \<Rightarrow> ret False)"

definition isDepositCovered ::
  "('w, 'v) PoolContext \<Rightarrow> byte list option \<Rightarrow> byte list option \<Rightarrow> string option \<Rightarrow> ('w, DepositCoverage) prog" where
  "isDepositCovered ctx optState optAsp optSource =
     (let P = cx_pool ctx in
      bnd (resolveReadSource (cx_signer ctx) optSource) (\<lambda>source.
      bnd (getLatestRoot P source StateRoot) (\<lambda>latestState.
      bnd (getLatestRoot P source AspRoot) (\<lambda>latestAsp.
      bnd (pool_isDepositsPaused P source) (\<lambda>depositsPaused.
      bnd (pool_isWithdrawalsPaused P source) (\<lambda>withdrawalsPaused.
      bnd (getTreeCapacityInfo P source) (\<lambda>capacity.
      let stateR = (case optState of Some r \<Rightarrow> Some r | None \<Rightarrow> latestState);
          aspR = (case optAsp of Some r \<Rightarrow> Some r | None \<Rightarrow> latestAsp)
      in
      bnd (known_root (pool_isKnownStateRoot P source) stateR) (\<lambda>stateRootKnown.
      bnd (known_root (pool_isKnownAspRoot P source) aspR) (\<lambda>aspRootKnown.
      let reasons = coverage_reasons stateR aspR stateRootKnown aspRootKnown withdrawalsPaused capacity
      in ret \<lparr>dc_covered = (reasons = []), dc_stateRoot = stateR, dc_aspRoot = aspR, dc_stateRootKnown = stateRootKnown,
              dc_aspRootKnown = aspRootKnown, dc_reasons = reasons, dc_capacity = capacity, dc_depositsPaused = depositsPaused,
              dc_withdrawalsPaused = withdrawalsPaused\<rparr>)))))))))"

record ProveRequest =
  pr_note :: PoolNote
  pr_recipient :: string
  pr_relayer :: "string option"
  pr_fee :: "int option"
  pr_scope :: "nat option"
  pr_givenLeaves :: "int list option"
  pr_givenIndices :: "nat list option"
  pr_reconstruct :: "ReconstructStateOptions option"

text \<open>\<open>{ startLedger: config.startLedger, ...opts.reconstruct }\<close>: a start ledger given by the caller wins.\<close>

definition reconstruct_options :: "('w, 'v) PoolContext \<Rightarrow> ReconstructStateOptions option \<Rightarrow> ReconstructStateOptions" where
  "reconstruct_options ctx given =
     (case given of
        None \<Rightarrow> \<lparr>rc_startLedger = cx_startLedger ctx, rc_maxPages = None, rc_onTruncation_return = False\<rparr>
      | Some o' \<Rightarrow> if rc_startLedger o' = None then o'\<lparr>rc_startLedger := cx_startLedger ctx\<rparr> else o')"

definition proveWithdraw :: "('w, 'v) PoolContext \<Rightarrow> ProveRequest \<Rightarrow> ('w, PoolWithdrawProof) prog" where
  "proveWithdraw ctx opts =
     (if \<not> cx_artifacts ctx
      then throw (NotWiredError ''Pool withdrawal proof generation''
             ''Construct OpaqueClient with { artifacts } to enable proving, or pass a precomputed bundle to withdraw().'')
      else
      bnd (case (pr_givenLeaves opts, pr_givenIndices opts) of
             (Some leaves, Some indices) \<Rightarrow> ret (leaves, indices)
           | _ \<Rightarrow> bnd (reconstructState (cx_topic ctx) (ci_events (pp_rpc (cx_pool ctx))) (pp_contractId (cx_pool ctx))
                        (reconstruct_options ctx (pr_reconstruct opts))) (\<lambda>state.
                  ret (pr_stateLeaves state, map nat (pr_depositIndices state)))) (\<lambda>(stateLeaves, depositIndices).
      provePoolWithdraw (cx_proving ctx)
        \<lparr>wo_note = pr_note opts, wo_recipient = pr_recipient opts, wo_relayer = or_else (pr_relayer opts) (pr_recipient opts),
         wo_fee = or_else (pr_fee opts) 0, wo_scope = or_else (pr_scope opts) (cx_poolScope ctx), wo_stateLeaves = stateLeaves,
         wo_depositIndices = depositIndices, wo_withdrawnValue = None, wo_aspInclusion = None\<rparr>))"

record DryRunWithdrawResult =
  dr_proof :: PoolWithdrawProof
  dr_recipient :: string
  dr_relayer :: string
  dr_fee :: int
  dr_expectedPayout :: int
  dr_simulation :: SimulationReport

definition dryRunWithdraw :: "('w, 'v) PoolContext \<Rightarrow> ProveRequest \<Rightarrow> string option \<Rightarrow> ('w, DryRunWithdrawResult) prog" where
  "dryRunWithdraw ctx opts optSource =
     (let fee = or_else (pr_fee opts) 0; relayer = or_else (pr_relayer opts) (pr_recipient opts) in
      bnd (resolveReadSource (cx_signer ctx) optSource) (\<lambda>source.
      bnd (proveWithdraw ctx (opts\<lparr>pr_relayer := Some relayer, pr_fee := Some fee, pr_reconstruct := None\<rparr>)) (\<lambda>proof.
      bnd (simulateWithdraw (cx_pool ctx) \<lparr>pw_proof = proof, pw_recipient = pr_recipient opts, pw_fee = fee, pw_relayer = relayer\<rparr> source) (\<lambda>simulation.
      ret \<lparr>dr_proof = proof, dr_recipient = pr_recipient opts, dr_relayer = relayer, dr_fee = fee,
           dr_expectedPayout = wp_withdrawnValue proof - fee, dr_simulation = simulation\<rparr>))))"

end
