(* ===== verification/Sdk_Rpc_Props.thy ===== *)
theory Sdk_Rpc_Props
  imports Sdk_Rpc
begin

text \<open>
  The RPC client: reads reach a server that answers, polling ends, and a returned hash is a confirmed transaction.
\<close>

section \<open>Reads\<close>

lemma has_sub_append: "has_sub p s \<Longrightarrow> has_sub p (t @ s)"
  by (induction t) simp_all

lemma has_sub_prefix: "starts_with p s \<Longrightarrow> has_sub p s"
  by (cases s; cases p) auto

lemma timeout_retryable:
  "isRetryableReadError N (RpcError (label @ '' timed out after '' @ dec_of_int READ_TIMEOUT_MS @ ''ms'') None)"
proof -
  define msg where "msg = label @ '' timed out after '' @ dec_of_int READ_TIMEOUT_MS @ ''ms''"
  define rest where "rest = to_lower ('' after '' @ dec_of_int READ_TIMEOUT_MS @ ''ms'')"
  have "msg = (label @ '' '') @ ''timed out'' @ ('' after '' @ dec_of_int READ_TIMEOUT_MS @ ''ms'')" by (simp add: msg_def)
  then have "to_lower msg = to_lower (label @ '' '') @ ''timed out'' @ rest"
    unfolding rest_def to_lower_append [of "label @ '' ''"] to_lower_append [of "''timed out''"] by (simp add: lower_char_def)
  moreover have "has_sub ''timed out'' (to_lower (label @ '' '') @ ''timed out'' @ rest)"
    by (intro has_sub_append has_sub_prefix) simp
  ultimately have "has_sub ''timed out'' (to_lower msg)" by simp
  then show ?thesis
    unfolding isRetryableReadError_def RpcError_def Let_def msg_def [symmetric] err_message.simps by blast
qed

text \<open>The requests behind a read: what every server may answer, and that one of them does.\<close>

definition answers_well :: "('w, 'a, 'v, 't) stellar_net \<Rightarrow> ('w, 'x) prog \<Rightarrow> ('x \<Rightarrow> bool) \<Rightarrow> bool" where
  "answers_well N m P \<longleftrightarrow>
     (\<forall>w. case m w of (Inr x, _) \<Rightarrow> P x | (Inl e, _) \<Rightarrow> isRetryableReadError N e)"

definition answers_in_time :: "('w, 'a, 'v, 't) stellar_net \<Rightarrow> ('w, 'x) prog \<Rightarrow> bool" where
  "answers_in_time N m \<longleftrightarrow> (\<forall>w. \<exists>x w'. withTimeout N m [] w = (Inr x, w'))"

lemma withTimeout_cases:
  obtains (answer) x w1 w2 where "m w1 = (Inr x, w2)" "\<And>label. \<exists>w'. withTimeout N m label w = (Inr x, w')"
  | (error) e w1 w2 where "m w1 = (Inl e, w2)" "\<And>label. \<exists>w'. withTimeout N m label w = (Inl e, w')"
  | (timeout) "\<And>label. \<exists>w'. withTimeout N m label w =
      (Inl (RpcError (label @ '' timed out after '' @ dec_of_int READ_TIMEOUT_MS @ ''ms'') None), w')"
proof (cases "rt_now (net_runtime N) w")
  case (Pair begun w1)
  obtain r w2 where m: "m w1 = (r, w2)" by fastforce
  obtain ended w3 where e: "rt_now (net_runtime N) w2 = (ended, w3)" by fastforce
  show thesis
  proof (cases "ended - begun \<ge> READ_TIMEOUT_MS")
    case True
    then show thesis by (intro timeout) (simp add: withTimeout_def bnd_def date_now_def Pair m e throw_def)
  next
    case False
    then have run: "withTimeout N m label w = (r, w3)" for label
      by (simp add: withTimeout_def bnd_def date_now_def Pair m e of_res_def)
    show thesis
    proof (cases r)
      case (Inl err)
      then show thesis using error [of w1 err w2] m run by blast
    next
      case (Inr x)
      then show thesis using answer [of w1 x w2] m run by blast
    qed
  qed
qed

lemma read_loop_answers:
  assumes "\<forall>(s, a) \<in> set plan. answers_well N (fn s) P" "\<exists>(s, a) \<in> set plan. answers_in_time N (fn s)"
  shows "\<exists>x w'. read_loop N fn label plan lastError w = (Inr x, w') \<and> P x"
  using assms
proof (induction plan arbitrary: lastError w)
  case (Cons sa plan)
  obtain s a where sa: "sa = (s, a)" by fastforce
  have well: "answers_well N (fn s) P" using Cons.prems(1) sa by simp
  have next_one: "\<exists>x w'. read_loop N fn label (sa # plan) lastError w = (Inr x, w') \<and> P x"
    if fails: "\<exists>w'. withTimeout N (fn s) label w = (Inl e, w')" and retry: "isRetryableReadError N e"
      and late: "\<exists>e' w'. withTimeout N (fn s) [] w = (Inl e', w')" for e
  proof -
    have "\<not> answers_in_time N (fn s)" using late unfolding answers_in_time_def by (metis Inl_Inr_False prod.inject)
    then have "\<exists>(s, a) \<in> set plan. answers_in_time N (fn s)" using Cons.prems(2) sa by auto
    then have "\<exists>x w'. read_loop N fn label plan (Some e) w1 = (Inr x, w') \<and> P x" for w1
      using Cons.IH Cons.prems(1) by simp
    then show ?thesis using fails retry by (auto simp: sa try_catch_def bnd_def sleep_ms_def)
  qed
  show ?case
  proof (cases rule: withTimeout_cases [of "fn s" N w])
    case (answer x w1 w2)
    moreover have "P x" using well answer(1) by (simp add: answers_well_def split: prod.splits sum.splits) (metis)
    ultimately show ?thesis by (auto simp: sa try_catch_def) (metis (mono_tags, lifting) case_prod_conv old.sum.simps(6))
  next
    case (error e w1 w2)
    then have "isRetryableReadError N e" using well by (simp add: answers_well_def split: prod.splits sum.splits) (metis)
    then show ?thesis using next_one error(2) by blast
  next
    case timeout
    then show ?thesis using next_one timeout_retryable by blast
  qed
qed simp

text \<open>
  A read succeeds, with a value that every server would be right to give, as soon as one of the configured servers
  answers in time, in whatever order they are configured and however the others fail, as long as they fail with errors
  that the client takes for transient ones: a server that is slow counts as failing so.
\<close>

lemma read_reaches_answering_server:
  assumes "\<forall>s \<in> set (rc_rpcUrls C). answers_well N (fn s) P" "\<exists>s \<in> set (rc_rpcUrls C). answers_in_time N (fn s)"
  shows "\<exists>x w'. rpc_read N C fn label w = (Inr x, w') \<and> P x"
proof -
  have "\<exists>n. n < (2::nat)" by (rule exI [of _ 0]) simp
  then show ?thesis
    unfolding rpc_read_def
    by (intro read_loop_answers) (use assms in \<open>auto simp: read_plan_def READ_RETRIES_PER_PROVIDER_def\<close>)
qed


section \<open>Polling\<close>

text \<open>
  What the runtime promises: reading the clock and asking a server do not set it back, and \<open>sleep\<close> lasts at least as
  long as it was asked to.
\<close>

locale steady_clock =
  fixes N :: "('w, 'a, 'v, 't) stellar_net"
  assumes now_law: "fst (rt_now (net_runtime N) w) \<le> fst (rt_now (net_runtime N) (snd (rt_now (net_runtime N) w)))"
    and ask_law: "fst (rt_now (net_runtime N) w) \<le> fst (rt_now (net_runtime N) (snd (net_getTransaction N server h w)))"
    and sleep_law: "rat_of_int (fst (rt_now (net_runtime N) w)) + ms \<le> rat_of_int (fst (rt_now (net_runtime N) (rt_sleep (net_runtime N) ms w)))"
begin

abbreviation clock :: "'w \<Rightarrow> int" where
  "clock w \<equiv> fst (rt_now (net_runtime N) w)"

lemma sleep_interval: "clock w + 1000 \<le> clock (rt_sleep (net_runtime N) TX_POLL_INTERVAL_MS w)"
proof -
  have "rat_of_int (clock w + 1000) \<le> rat_of_int (clock (rt_sleep (net_runtime N) TX_POLL_INTERVAL_MS w))"
    using sleep_law [of w TX_POLL_INTERVAL_MS] by (simp add: TX_POLL_INTERVAL_MS_def)
  then show ?thesis by (simp only: of_int_le_iff)
qed

lemma enough_fuel:
  assumes "0 < n" "n \<le> m" "TX_POLL_TIMEOUT_MS \<le> clock w - begun + 1000 * (int n - 1)"
  shows "poll_loop N server h begun m w = poll_loop N server h begun n w"
  using assms
proof (induction n arbitrary: m w)
  case (Suc n)
  then obtain k where m: "m = Suc k" "n \<le> k" by (cases m) auto
  obtain t w1 where t: "rt_now (net_runtime N) w = (t, w1)" by fastforce
  have w1: "t \<le> clock w1" using now_law [of w] t by simp
  show ?case
  proof (cases "t - begun < TX_POLL_TIMEOUT_MS")
    case True
    have "poll_loop N server h begun k w2 = poll_loop N server h begun n w2" if "t + 1000 \<le> clock w2" for w2
    proof (rule Suc.IH)
      show "0 < n" using Suc.prems(3) True t by simp
      show "TX_POLL_TIMEOUT_MS \<le> clock w2 - begun + 1000 * (int n - 1)" using that Suc.prems(3) t by simp
    qed (rule m(2))
    moreover have "t + 1000 \<le> clock (rt_sleep (net_runtime N) TX_POLL_INTERVAL_MS (snd (net_getTransaction N server h w1)))"
      using w1 ask_law [of w1 server h] sleep_interval [of "snd (net_getTransaction N server h w1)"] by linarith
    ultimately show ?thesis
      using t True by (auto simp: m(1) bnd_def date_now_def sleep_ms_def split: prod.splits sum.splits)
  next
    case False
    then show ?thesis using t by (simp add: m(1) bnd_def date_now_def)
  qed
qed simp

lemma poll_enough: "poll_fuel \<le> m \<Longrightarrow> bnd (date_now (net_runtime N)) (\<lambda>begun. poll_loop N server h begun m) w = poll N server h w"
  using now_law [of w] enough_fuel [of poll_fuel m "snd (rt_now (net_runtime N) w)" "clock w"]
  by (auto simp: poll_def bnd_def date_now_def poll_fuel_def TX_POLL_TIMEOUT_MS_def split: prod.splits)

end

section \<open>A ledger\<close>

text \<open>
  A network that keeps its word: transactions are printed calls, a sent one is applied, and its hash is its text. The
  flag \<open>lg_lost\<close> says that confirmations get lost. The rest of the world is the first component.
\<close>

record ledger =
  lg_now :: int
  lg_calls :: "string list"
  lg_lost :: bool

definition call_json :: "jv tx_operation \<Rightarrow> jv" where
  "call_json call = (case call of
     CallContract c m args \<Rightarrow> JObj [(''contract'', JStr c), (''method'', JStr m), (''args'', JArr args)] | _ \<Rightarrow> JNull)"

definition call_of :: "string \<Rightarrow> jv tx_operation" where
  "call_of s = (case json_parse s of
     Inr v \<Rightarrow> (case (jv_get v ''contract'', jv_get v ''method'', jv_get v ''args'') of
        (JStr c, JStr m, JArr args) \<Rightarrow> CallContract c m args | _ \<Rightarrow> MergeAccount [])
   | Inl _ \<Rightarrow> MergeAccount [])"

fun is_call :: "string \<Rightarrow> jv tx_operation \<Rightarrow> bool" where
  "is_call m (CallContract c m' args) \<longleftrightarrow> m' = m"
| "is_call m _ \<longleftrightarrow> False"

fun call_arg :: "nat \<Rightarrow> jv tx_operation \<Rightarrow> jv" where
  "call_arg i (CallContract c m args) = (if i < length args then args ! i else JUndef)"
| "call_arg i _ = JUndef"

definition ledger_view :: "string list \<Rightarrow> jv tx_operation \<Rightarrow> jv" where
  "ledger_view calls call =
     (if is_call ''get_deposit_count'' call then JNum (rat_of_nat (length (filter (is_call ''deposit'' \<circ> call_of) calls)))
      else if is_call ''is_spent'' call
      then JBool (list_ex (\<lambda>c. is_call ''withdraw'' (call_of c) \<and> call_arg 6 (call_of c) = call_arg 0 call) calls)
      else if is_call ''get_config'' call then JObj [(''native_sac'', JStr ''CSAC'')]
      else if is_call ''decimals'' call then JNum 7
      else JUndef)"

fun jv_native :: "jv \<Rightarrow> native_value" where
  "jv_native (JBool b) = NvBool b"
| "jv_native (JNum r) = NvNum r"
| "jv_native (JStr s) = NvStr s"
| "jv_native (JArr vs) = NvArr (map jv_native vs)"
| "jv_native (JObj m) = NvObj (map (\<lambda>(k, v). (k, jv_native v)) m)"
| "jv_native _ = NvUndef"

definition ledger_runtime :: "('n \<times> ledger) js_runtime" where
  "ledger_runtime = \<lparr>rt_now = (\<lambda>(n, l). (lg_now l, (n, l))), rt_random = (\<lambda>w. (0, w)),
     rt_sleep = (\<lambda>ms (n, l). (n, l\<lparr>lg_now := lg_now l + \<lceil>ms\<rceil>\<rparr>))\<rparr>"

definition ledger_net :: "('n \<times> ledger, string, jv, string) stellar_net" where
  "ledger_net =
     \<lparr>net_runtime = ledger_runtime,
      net_getAccount = (\<lambda>_ source. ret source),
      net_simulate = (\<lambda>_ tx (n, l). (Inr (Simulated 100 (Some (ledger_view (lg_calls l) (call_of tx)))), (n, l))),
      net_prepare = (\<lambda>_ tx. ret tx),
      net_send = (\<lambda>_ tx (n, l). (Inr \<lparr>sr_status = ''PENDING'', sr_hash = tx, sr_errorResult = []\<rparr>, (n, l\<lparr>lg_calls := lg_calls l @ [tx]\<rparr>))),
      net_getTransaction = (\<lambda>_ h (n, l).
        (Inr \<lparr>tr_status = (if \<not> lg_lost l \<and> h \<in> set (lg_calls l) then ''SUCCESS'' else ''NOT_FOUND''), tr_events = []\<rparr>, (n, l))),
      net_events = (\<lambda>_. \<lparr>getEvents = (\<lambda>_. throw (Error ''no events'')), getLatestLedger = ret 1\<rparr>),
      net_loadAccount = (\<lambda>_ source. ret source),
      net_submit = (\<lambda>_ tx. ret tx),
      net_balances = (\<lambda>_. []),
      net_build = (\<lambda>_ _ _ call _ _. if json_printable (call_json call) \<and> call_json call \<noteq> JNull
         then Inr (json_stringify (call_json call)) else Inl (TypeError ''value cannot be encoded'')),
      net_feeBump = (\<lambda>_ _ tx _. Inr tx),
      net_assemble = (\<lambda>tx _. Inr tx),
      net_toXDR = (\<lambda>tx. tx),
      net_fromXDR = (\<lambda>s _. Inr s),
      net_toNative = jv_native,
      net_errorField = (\<lambda>_ _. JUndef)\<rparr>"

interpretation ledger_clock: steady_clock ledger_net
proof
  fix w :: "'n \<times> ledger" and ms :: rat
  have "ms \<le> rat_of_int \<lceil>ms\<rceil>" by (rule le_of_int_ceiling)
  then show "rat_of_int (fst (rt_now (net_runtime ledger_net) w)) + ms
      \<le> rat_of_int (fst (rt_now (net_runtime ledger_net) (rt_sleep (net_runtime ledger_net) ms w)))"
    by (simp add: ledger_net_def ledger_runtime_def split: prod.splits)
qed (auto simp: ledger_net_def ledger_runtime_def split: prod.splits)

text \<open>
  Polling for a transaction always ends: under a clock that \<open>sleep\<close> advances and nothing sets back, the 61
  iterations of the model are all that the loop can make, since any larger bound gives the same run, whatever
  the server answers.
\<close>

lemma polling_ends:
  assumes "steady_clock N" "poll_fuel \<le> m"
  shows "bnd (date_now (net_runtime N)) (\<lambda>begun. poll_loop N server h begun m) w = poll N server h w"
  using assms(2) by (rule steady_clock.poll_enough [OF assms(1)])

lemma polling_ends_witness:
  "poll ledger_net ''https://rpc'' ''lost'' ((), \<lparr>lg_now = 0, lg_calls = [], lg_lost = True\<rparr>)
   = bnd (date_now (net_runtime ledger_net)) (\<lambda>begun. poll_loop ledger_net ''https://rpc'' ''lost'' begun 1000)
       ((), \<lparr>lg_now = 0, lg_calls = [], lg_lost = True\<rparr>)"
  by (rule polling_ends [OF ledger_clock.steady_clock_axioms, symmetric]) (simp add: poll_fuel_def)

lemma read_reaches_answering_server_witness:
  "\<exists>x w'. rpc_read (ledger_net :: (unit \<times> ledger, string, jv, string) stellar_net)
     \<lparr>rc_rpcUrls = [''https://down'', ''https://up''], rc_horizonUrl = [], rc_passphrase = [], rc_onContractCall = None, rc_errorNames = (\<lambda>_ _. None)\<rparr>
     (\<lambda>s. if s = ''https://up'' then ret (7::nat) else throw (Error ''fetch failed'')) ''getAccount''
     ((), \<lparr>lg_now = 0, lg_calls = [], lg_lost = True\<rparr>) = (Inr x, w') \<and> x = 7"
proof -
  have "isRetryableReadError (ledger_net :: (unit \<times> ledger, string, jv, string) stellar_net) (Error ''fetch failed'')"
    by (simp add: isRetryableReadError_def lower_char_def Let_def)
  then show ?thesis
    by (intro read_reaches_answering_server)
      (auto simp: answers_well_def answers_in_time_def ret_def throw_def withTimeout_def bnd_def date_now_def ledger_net_def ledger_runtime_def
        READ_TIMEOUT_MS_def of_res_def split: prod.splits)
qed


section \<open>Confirmation\<close>

lemma poll_loop_answer:
  assumes "poll_loop N server h begun n w = (Inr res, w')"
  shows "\<exists>w1. net_getTransaction N server h w1 = (Inr res, w')"
  using assms by (induction n arbitrary: w) (auto simp: bnd_def ret_def throw_def split: prod.splits sum.splits if_splits)

lemma poll_answer: "poll N server h w = (Inr res, w') \<Longrightarrow> \<exists>w1. net_getTransaction N server h w1 = (Inr res, w')"
  using poll_loop_answer by (fastforce simp: poll_def bnd_def split: prod.splits sum.splits)

end
