(* ===== verification/Sdk_Pool_Props.thy ===== *)
theory Sdk_Pool_Props
  imports Sdk_Pool Sdk_Rpc_Props Sdk_Storage_Props Sdk_Codec_Props
begin

text \<open>
  The pool service over the RPC client and a note store: a note is marked spent only when its nullifier is
  spent on the chain, and a deposit stores the note that opens the commitment it submitted.
\<close>

section \<open>Calls that only let the chain move on\<close>

text \<open>
  \<open>contents\<close> is what the note store holds in a world and \<open>spent\<close> which nullifiers the contract has
  recorded there. A call is calm if it leaves the store alone and forgets no nullifier.
\<close>

definition calm :: "('w \<Rightarrow> 'c) \<Rightarrow> ('w \<Rightarrow> byte list \<Rightarrow> bool) \<Rightarrow> ('w, 'x) prog \<Rightarrow> bool" where
  "calm contents spent m \<longleftrightarrow>
     (\<forall>w. contents (snd (m w)) = contents w \<and> (\<forall>nh. spent w nh \<longrightarrow> spent (snd (m w)) nh))"

named_theorems calm_intros \<open>calls that are calm\<close>

lemma calmD: "calm contents spent m \<Longrightarrow> m w = (r, w') \<Longrightarrow> contents w' = contents w"
  "calm contents spent m \<Longrightarrow> m w = (r, w') \<Longrightarrow> spent w nh \<Longrightarrow> spent w' nh"
  unfolding calm_def by (metis snd_conv)+

lemma calm_simple [calm_intros]: "calm c sp (ret x)" "calm c sp (throw e)" "calm c sp (of_res r)"
  by (simp_all add: calm_def ret_def throw_def of_res_def)

lemma calm_bnd [calm_intros]: "calm c sp m \<Longrightarrow> (\<And>x. calm c sp (f x)) \<Longrightarrow> calm c sp (bnd m f)"
  unfolding calm_def bnd_def by (auto split: prod.splits sum.splits) (metis snd_conv)+

lemma calm_then: "calm c sp m \<Longrightarrow> (\<And>r. calm c sp (g r)) \<Longrightarrow> calm c sp (\<lambda>w. case m w of (r, w') \<Rightarrow> g r w')"
  unfolding calm_def by (auto split: prod.splits) (metis snd_conv)+

lemma calm_catch [calm_intros]: "calm c sp m \<Longrightarrow> (\<And>e. calm c sp (h e)) \<Longrightarrow> calm c sp (try_catch m h)"
  unfolding calm_def try_catch_def by (auto split: prod.splits sum.splits) (metis snd_conv)+

lemma calm_if [calm_intros]: "(b \<Longrightarrow> calm c sp m) \<Longrightarrow> (\<not> b \<Longrightarrow> calm c sp m') \<Longrightarrow> calm c sp (if b then m else m')"
  by simp

lemma calm_option [calm_intros]:
  "(x = None \<Longrightarrow> calm c sp m) \<Longrightarrow> (\<And>y. x = Some y \<Longrightarrow> calm c sp (f y)) \<Longrightarrow> calm c sp (case x of None \<Rightarrow> m | Some y \<Rightarrow> f y)"
  by (cases x) simp_all

lemma calm_prod [calm_intros]: "(\<And>x y. p = (x, y) \<Longrightarrow> calm c sp (f x y)) \<Longrightarrow> calm c sp (case p of (x, y) \<Rightarrow> f x y)"
  by (cases p) simp

lemma calm_simulation [calm_intros]:
  "(\<And>e. calm c sp (f e)) \<Longrightarrow> (\<And>x v. calm c sp (g x v)) \<Longrightarrow> calm c sp (case s of SimulationFailed e \<Rightarrow> f e | Simulated x v \<Rightarrow> g x v)"
  by (cases s) simp_all

lemma calm_let [calm_intros]: "calm c sp (f x) \<Longrightarrow> calm c sp (let y = x in f y)"
  by simp


section \<open>The invoker the service relies on\<close>

locale pool_invoker =
  fixes I :: "('w, 'v) ContractInvoker"
    and V :: "'v scval_lib"
    and pool :: string
    and contents :: "'w \<Rightarrow> PoolNote list option"
    and spent :: "'w \<Rightarrow> byte list \<Rightarrow> bool"
    and honest :: "'w OpaqueSigner \<Rightarrow> bool"
  assumes key_calm: "honest s \<Longrightarrow> calm contents spent (sg_publicKey s)"
    and invoke_calm: "honest (io_signer opts) \<Longrightarrow> calm contents spent (ci_invoke I opts)"
    and read_calm: "calm contents spent (ci_readNative I ropts)"
    and withdraw_law: "honest (io_signer opts) \<Longrightarrow> io_contractId opts = pool \<Longrightarrow> io_method opts = ''withdraw'' \<Longrightarrow>
      6 < length (io_args opts) \<Longrightarrow> io_args opts ! 6 = sc_bytes V nh \<Longrightarrow> ci_invoke I opts w = (Inr h, w') \<Longrightarrow> spent w' nh"
    and spent_law: "ro_contractId ropts = pool \<Longrightarrow> ro_method ropts = ''is_spent'' \<Longrightarrow> ro_args ropts = [sc_bytes V nh] \<Longrightarrow>
      ci_readNative I ropts w = (Inr v, w') \<Longrightarrow> nv_Boolean v \<Longrightarrow> spent w' nh"

text \<open>What the RPC client relies on: the network, the Stellar SDK and the contract behind it.\<close>

definition honest_signer ::
  "('w, 'a, 'v, 't) stellar_net \<Rightarrow> ('w \<Rightarrow> 'c) \<Rightarrow> ('w \<Rightarrow> byte list \<Rightarrow> bool) \<Rightarrow> ('t \<Rightarrow> 'v tx_operation) \<Rightarrow> 'w OpaqueSigner \<Rightarrow> bool" where
  "honest_signer N contents spent op_of s \<longleftrightarrow>
     calm contents spent (sg_publicKey s) \<and> (\<forall>x p. calm contents spent (sg_signTransaction s x p))
     \<and> (\<forall>tx p w x w' tx'. sg_signTransaction s (net_toXDR N tx) p w = (Inr x, w') \<longrightarrow> net_fromXDR N x p = Inr tx' \<longrightarrow> op_of tx' = op_of tx)"

locale pool_chain =
  fixes N :: "('w, 'a, 'v, 't) stellar_net"
    and C :: "'w RpcClientOptions"
    and V :: "'v scval_lib"
    and pool :: string
    and contents :: "'w \<Rightarrow> PoolNote list option"
    and spent :: "'w \<Rightarrow> byte list \<Rightarrow> bool"
    and op_of :: "'t \<Rightarrow> 'v tx_operation"
    and txhash :: "'t \<Rightarrow> string"
  assumes net_calm: "calm contents spent (net_getAccount N s a)" "calm contents spent (net_simulate N s tx)"
      "calm contents spent (net_prepare N s tx)" "calm contents spent (net_send N s tx)"
      "calm contents spent (net_getTransaction N s h)"
    and clock_calm: "calm contents spent (date_now (net_runtime N))" "calm contents spent (sleep_ms (net_runtime N) ms)"
    and hook_calm: "rc_onContractCall C = Some hook \<Longrightarrow> calm contents spent (hook ev)"
    and build_law: "net_build N acc f p call memo t = Inr tx \<Longrightarrow> op_of tx = call"
    and assemble_law: "net_assemble N tx sim = Inr tx' \<Longrightarrow> op_of tx' = op_of tx"
    and prepare_law: "net_prepare N s tx w = (Inr tx', w') \<Longrightarrow> op_of tx' = op_of tx"
    and send_law: "net_send N s tx w = (Inr r, w') \<Longrightarrow> sr_status r \<noteq> ''ERROR'' \<Longrightarrow> sr_hash r = txhash tx"
    and apply_law: "net_getTransaction N s (txhash tx) w = (Inr res, w') \<Longrightarrow> tr_status res = ''SUCCESS'' \<Longrightarrow>
      op_of tx = CallContract pool ''withdraw'' args \<Longrightarrow> 6 < length args \<Longrightarrow> args ! 6 = sc_bytes V nh \<Longrightarrow> spent w' nh"
    and view_law: "net_simulate N s tx w = (Inr (Simulated fee (Some v)), w') \<Longrightarrow>
      op_of tx = CallContract pool ''is_spent'' [sc_bytes V nh] \<Longrightarrow> nv_Boolean (net_toNative N v) \<Longrightarrow> spent w' nh"
begin

abbreviation honest :: "'w OpaqueSigner \<Rightarrow> bool" where
  "honest \<equiv> honest_signer N contents spent op_of"

lemma calm_timeout [calm_intros]: "calm contents spent m \<Longrightarrow> calm contents spent (withTimeout N m label)"
  unfolding withTimeout_def by (intro calm_intros clock_calm calm_then)

lemma calm_read: "(\<And>s. calm contents spent (fn s)) \<Longrightarrow> calm contents spent (rpc_read N C fn label)"
proof -
  assume fn: "\<And>s. calm contents spent (fn s)"
  have "calm contents spent (read_loop N fn label plan e)" for plan e
    by (induction plan arbitrary: e) (auto intro!: calm_intros fn clock_calm split: option.splits)
  then show ?thesis by (simp add: rpc_read_def)
qed

lemma calm_poll: "calm contents spent (poll N s h)"
proof -
  have "calm contents spent (poll_loop N s h begun n)" for begun n
  proof (induction n)
    case 0
    show ?case unfolding poll_loop.simps by (intro calm_intros)
  next
    case (Suc n)
    show ?case unfolding poll_loop.simps by (intro calm_intros clock_calm net_calm Suc.IH)
  qed
  then show ?thesis unfolding poll_def by (intro calm_intros clock_calm)
qed

lemma calm_prepare: "calm contents spent (prepare_call N C opts)"
  unfolding prepare_call_def by (intro calm_intros calm_read net_calm)

lemma calm_sign: "honest s \<Longrightarrow> calm contents spent (sign_tx N C s tx)"
  unfolding sign_tx_def honest_signer_def by (intro calm_intros) simp

lemma calm_report: "calm contents spent (report_call N C opts begun ok err)"
  unfolding report_call_def by (intro calm_intros clock_calm hook_calm)

lemma calm_confirm: "calm contents spent (send_and_confirm N C opts tx)"
  unfolding send_and_confirm_def by (intro calm_intros net_calm calm_poll)

lemma calm_invoke: "honest (io_signer opts) \<Longrightarrow> calm contents spent (invoke N C opts)"
  unfolding invoke_def by (intro calm_intros clock_calm calm_prepare calm_sign calm_confirm calm_report)

lemma calm_native: "calm contents spent (readNative N C ropts)"
  unfolding readNative_def simulateRead_def simulate_call_def by (intro calm_intros calm_read net_calm)

text \<open>A read that succeeds is the answer of one server.\<close>

lemma read_loop_from:
  assumes "read_loop N fn label plan e w = (Inr x, w')"
  shows "\<exists>s w1 w2 t. fn s w1 = (Inr x, w2) \<and> rt_now (net_runtime N) w2 = (t, w')"
  using assms
proof (induction plan arbitrary: e w)
  case (Cons sa plan)
  then show ?case
    by (cases sa)
      (auto simp: try_catch_def withTimeout_def bnd_def throw_def of_res_def date_now_def sleep_ms_def
        split: prod.splits sum.splits if_splits; blast)
qed (simp add: throw_def)

lemma prepared_op:
  "prepare_call N C opts w = (Inr tx, w') \<Longrightarrow> op_of tx = CallContract (io_contractId opts) (io_method opts) (io_args opts)"
  unfolding prepare_call_def
  by (auto simp: bnd_def of_res_def throw_def split: prod.splits sum.splits if_splits simulation.splits
      dest!: build_law assemble_law prepare_law)

lemma signed_op: "honest s \<Longrightarrow> sign_tx N C s tx w = (Inr tx', w') \<Longrightarrow> op_of tx' = op_of tx"
  unfolding sign_tx_def honest_signer_def
  by (auto simp: bnd_def of_res_def split: prod.splits sum.splits) blast

lemma confirm_withdraw:
  assumes "send_and_confirm N C opts tx w = (Inr h, w')" "op_of tx = CallContract pool ''withdraw'' args"
    "6 < length args" "args ! 6 = sc_bytes V nh"
  shows "spent w' nh"
  using assms(1) apply_law [OF _ _ assms(2-4)]
  by (auto simp: send_and_confirm_def bnd_def ret_def throw_def split: prod.splits sum.splits if_splits
      dest!: send_law poll_answer)

lemma invoke_withdraw:
  assumes "honest (io_signer opts)" "io_contractId opts = pool" "io_method opts = ''withdraw''"
    and "6 < length (io_args opts)" "io_args opts ! 6 = sc_bytes V nh" "invoke N C opts w = (Inr h, w')"
  shows "spent w' nh"
proof -
  obtain tx tx' w1 w2 w3 w4 begun where run: "prepare_call N C opts w1 = (Inr tx, w2)" "sign_tx N C (io_signer opts) tx w2 = (Inr tx', w3)"
      "send_and_confirm N C opts tx' w3 = (Inr h, w4)" "report_call N C opts begun True None w4 = (Inr (), w')"
    using assms(6) by (auto simp: invoke_def bnd_def try_catch_def throw_def ret_def split: prod.splits sum.splits)
  have "op_of tx' = CallContract pool ''withdraw'' (io_args opts)"
    using prepared_op [OF run(1)] signed_op [OF assms(1) run(2)] assms(2,3) by simp
  from confirm_withdraw [OF run(3) this assms(4,5)] show ?thesis
    by (rule calmD(2) [OF calm_report run(4)])
qed

lemma read_spent:
  assumes "ro_contractId ropts = pool" "ro_method ropts = ''is_spent''" "ro_args ropts = [sc_bytes V nh]"
    and "readNative N C ropts w = (Inr v, w')" "nv_Boolean v"
  shows "spent w' nh"
proof -
  obtain acc tx w1 w2 fee sv where run: "net_build N acc BASE_FEE (rc_passphrase C) (CallContract pool ''is_spent'' [sc_bytes V nh]) None 60 = Inr tx"
      "rpc_read N C (\<lambda>s. net_simulate N s tx) (''simulate '' @ ''is_spent'') w1 = (Inr (Simulated fee (Some sv)), w')" "v = net_toNative N sv"
    using assms
    by (auto simp: readNative_def simulateRead_def simulate_call_def bnd_def ret_def throw_def of_res_def
        split: prod.splits sum.splits if_splits simulation.splits option.splits)
  from run(2) obtain s w1' w2' t where ans: "net_simulate N s tx w1' = (Inr (Simulated fee (Some sv)), w2')" "rt_now (net_runtime N) w2' = (t, w')"
    unfolding rpc_read_def by (blast dest: read_loop_from)
  have "spent w2' nh" using view_law [OF ans(1) build_law [OF run(1)]] assms(5) run(3) by simp
  then show ?thesis by (rule calmD(2) [OF clock_calm(1), rotated]) (simp add: date_now_def ans(2))
qed

end

sublocale pool_chain \<subseteq> rpc: pool_invoker "rpc_invoker N C" V pool contents spent honest
proof
  show "calm contents spent (sg_publicKey s)" if "honest s" for s using that by (simp add: honest_signer_def)
  show "calm contents spent (ci_invoke (rpc_invoker N C) opts)" if "honest (io_signer opts)" for opts
    using calm_invoke [OF that] by (simp add: rpc_invoker_def)
  show "calm contents spent (ci_readNative (rpc_invoker N C) ropts)" for ropts
    using calm_native by (simp add: rpc_invoker_def)
qed (use invoke_withdraw read_spent in \<open>auto simp: rpc_invoker_def\<close>)


section \<open>The service\<close>

text \<open>The nullifier hash that a withdrawal of a note publishes.\<close>

definition note_nullifier_bytes :: "poseidon \<Rightarrow> PoolNote \<Rightarrow> byte list" where
  "note_nullifier_bytes poseidon x =
     (case js_BigInt_str (note_nullifier x) of Inr v \<Rightarrow> bigIntToBytes32 (hashFields poseidon [v]) | Inl _ \<Rightarrow> [])"

text \<open>Every note marked spent has its nullifier recorded by the contract.\<close>

definition truthful :: "poseidon \<Rightarrow> ('w \<Rightarrow> PoolNote list option) \<Rightarrow> ('w \<Rightarrow> byte list \<Rightarrow> bool) \<Rightarrow> 'w \<Rightarrow> bool" where
  "truthful poseidon contents spent w \<longleftrightarrow>
     (\<exists>xs. contents w = Some xs \<and> (\<forall>x \<in> set xs. note_spent x \<longrightarrow> spent w (note_nullifier_bytes poseidon x)))"

text \<open>The nullifier that a withdrawal publishes is that of the notes stored under the commitment passed with it.\<close>

definition proof_fits :: "poseidon \<Rightarrow> ('w \<Rightarrow> PoolNote list option) \<Rightarrow> 'w \<Rightarrow> string \<Rightarrow> byte list \<Rightarrow> bool" where
  "proof_fits poseidon contents w c nh \<longleftrightarrow>
     (\<forall>xs. contents w = Some xs \<longrightarrow> (\<forall>x \<in> set xs. note_commitment x = c \<longrightarrow> note_nullifier_bytes poseidon x = nh))"

abbreviation mark :: "PoolNote \<Rightarrow> PoolNote" where
  "mark n \<equiv> n\<lparr>note_spent := True\<rparr>"

locale pool_client = pool_invoker I V pool contents spent honest +
    note_store "cx_notes ctx" contents note_commitment mark "\<lambda>_. True"
  for I :: "('w, 'v) ContractInvoker" and V pool contents spent honest and ctx :: "('w, 'v) PoolContext" +
  assumes wired: "cx_pool ctx = \<lparr>pp_rpc = I, pp_contractId = pool, pp_scval = V\<rparr>"
    and signer_ok: "cx_signer ctx = Some s \<Longrightarrow> honest s"
    and random_calm: "calm contents spent (pv_random (cx_proving ctx) n)"
    and store_spent: "spent w nh \<Longrightarrow> spent (snd (notes_add (cx_notes ctx) n' w)) nh"
      "spent w nh \<Longrightarrow> spent (snd (notes_markSpent (cx_notes ctx) c w)) nh"
begin

abbreviation good :: "'w \<Rightarrow> bool" where
  "good \<equiv> truthful (pv_poseidon (cx_proving ctx)) contents spent"

abbreviation fits :: "'w \<Rightarrow> string \<Rightarrow> byte list \<Rightarrow> bool" where
  "fits \<equiv> proof_fits (pv_poseidon (cx_proving ctx)) contents"

lemma good_calm: "calm contents spent m \<Longrightarrow> good w \<Longrightarrow> m w = (r, w') \<Longrightarrow> good w'"
  unfolding truthful_def using calmD [of contents spent m w r w'] by metis

lemma fits_calm: "calm contents spent m \<Longrightarrow> fits w c nh \<Longrightarrow> m w = (r, w') \<Longrightarrow> fits w' c nh"
  unfolding proof_fits_def using calmD(1) [of contents spent m w r w'] by metis

lemma nullifier_mark [simp]: "note_nullifier_bytes p (mark x) = note_nullifier_bytes p x"
  by (simp add: note_nullifier_bytes_def)

lemma mark_good:
  assumes "good w" "fits w c nh" "spent w nh" "notes_markSpent (cx_notes ctx) c w = (r, w')"
  shows "good w'"
proof -
  obtain xs where xs: "contents w = Some xs" "\<forall>x \<in> set xs. note_spent x \<longrightarrow> spent w (note_nullifier_bytes (pv_poseidon (cx_proving ctx)) x)"
    using assms(1) unfolding truthful_def by blast
  have grows: "spent w' k" if "spent w k" for k using store_spent(2) [OF that, of c] assms(4) by simp
  have "contents w' = Some xs \<or> contents w' = Some (map (\<lambda>x. if note_commitment x = c then mark x else x) xs)"
    using spend_law [OF xs(1), of c] assms(4) by (cases r) (auto simp: wp_def)
  then show ?thesis
  proof
    assume "contents w' = Some xs"
    then show ?thesis using xs(2) grows unfolding truthful_def by blast
  next
    assume "contents w' = Some (map (\<lambda>x. if note_commitment x = c then mark x else x) xs)"
    then show ?thesis using xs grows assms(2,3) unfolding truthful_def proof_fits_def by auto
  qed
qed

lemma add_good:
  assumes "good w" "\<not> note_spent n" "notes_add (cx_notes ctx) n w = (r, w')"
  shows "good w'"
proof -
  obtain xs where xs: "contents w = Some xs" "\<forall>x \<in> set xs. note_spent x \<longrightarrow> spent w (note_nullifier_bytes (pv_poseidon (cx_proving ctx)) x)"
    using assms(1) unfolding truthful_def by blast
  have grows: "spent w' k" if "spent w k" for k using store_spent(1) [OF that, of n] assms(3) by simp
  have "\<exists>ys. contents w' = Some ys \<and> set ys \<subseteq> insert n (set xs)"
    using add_law [OF xs(1), of n] assms(3) by (cases r) (auto simp: wp_def)
  then show ?thesis using xs(2) grows assms(2) unfolding truthful_def by blast
qed

lemma view_calm [calm_intros]: "calm contents spent (pool_view (cx_pool ctx) source method args)"
  by (simp add: pool_view_def wired read_calm)

lemma deposit_calm: "honest s \<Longrightarrow> calm contents spent (pool_deposit (cx_pool ctx) val commitment i s)"
  unfolding pool_deposit_def pool_invoke_def wired by (intro calm_intros key_calm) (simp_all add: invoke_calm)

lemma withdraw_calm: "honest s \<Longrightarrow> calm contents spent (pool_withdraw (cx_pool ctx) inputs s)"
  unfolding pool_withdraw_def pool_invoke_def wired by (intro calm_intros key_calm) (simp_all add: invoke_calm)

lemma withdraw_spends:
  assumes "honest s" "pool_withdraw (cx_pool ctx) inputs s w = (Inr h, w')"
  shows "spent w' (wp_nullifierHash (pw_proof inputs))"
proof -
  obtain caller args w1 where args: "withdrawArgs V inputs = Inr args"
    and invoked: "ci_invoke I \<lparr>io_source = caller, io_contractId = pool, io_method = ''withdraw'', io_args = args, io_signer = s,
      io_skipSimulation = False, io_contractPackage = Some ''privacy-pool''\<rparr> w1 = (Inr h, w')"
    using assms(2) by (auto simp: pool_withdraw_def pool_invoke_def wired bnd_def of_res_def split: prod.splits sum.splits)
  have "6 < length args" "args ! 6 = sc_bytes V (wp_nullifierHash (pw_proof inputs))"
    using args by (auto simp: withdrawArgs_def Let_def res_bind_eq_Inr)
  then show ?thesis using assms(1) by (intro withdraw_law [OF _ _ _ _ _ invoked]) simp_all
qed

lemma withdraw_good:
  assumes "good w" "\<And>c. wr_noteCommitment req = Some c \<Longrightarrow> fits w c (wp_nullifierHash (wr_proof req))"
    and run: "pool_service_withdraw ctx req w = (r, w')"
  shows "good w'"
proof (cases "cx_signer ctx")
  case None
  then show ?thesis using run assms(1) by (simp add: pool_service_withdraw_def requireSigner_def bnd_def of_res_def)
next
  case (Some s)
  obtain r1 w1 where w1: "pool_withdraw (cx_pool ctx) (withdraw_inputs req) s w = (r1, w1)" by fastforce
  note calm1 = withdraw_calm [OF signer_ok [OF Some], of "withdraw_inputs req"]
  have good1: "good w1" by (rule good_calm [OF calm1 assms(1) w1])
  show ?thesis
  proof (cases r1)
    case (Inl e)
    then show ?thesis using run w1 good1 Some by (simp add: pool_service_withdraw_def requireSigner_def bnd_def of_res_def)
  next
    case (Inr h)
    have "spent w1 (wp_nullifierHash (wr_proof req))"
      using withdraw_spends [OF signer_ok [OF Some]] w1 Inr by (fastforce simp: withdraw_inputs_def)
    then have "good w2" if "wr_noteCommitment req = Some c" "notes_markSpent (cx_notes ctx) c w1 = (r2, w2)" for c r2 w2
      using mark_good [OF good1 fits_calm [OF calm1 assms(2) w1] _ that(2)] that(1) by blast
    then show ?thesis
      using run w1 good1 Some Inr
      by (auto simp: pool_service_withdraw_def requireSigner_def bnd_def of_res_def ret_def split: option.splits if_splits prod.splits sum.splits)
  qed
qed

lemma resolve_calm: "calm contents spent (resolveReadSource (cx_signer ctx) source)"
  unfolding resolveReadSource_def by (intro calm_intros) (simp add: key_calm signer_ok)

lemma spent_calm: "calm contents spent (isNullifierSpent ctx nh source)"
  unfolding isNullifierSpent_def pool_isNullifierSpent_def by (intro calm_intros resolve_calm)

lemma spent_true:
  assumes "isNullifierSpent ctx nh source w = (Inr True, w')"
  shows "spent w' nh"
  using assms spent_law [of "\<lparr>ro_source = _, ro_contractId = pool, ro_method = ''is_spent'', ro_args = [sc_bytes V nh]\<rparr>", simplified]
  by (auto simp: isNullifierSpent_def pool_isNullifierSpent_def pool_view_def wired bnd_def ret_def split: prod.splits sum.splits)

lemma reconcile_good:
  assumes "good w" "fits w c (wp_nullifierHash proof)" and run: "reconcileWithdrawal ctx proof c source w = (r, w')"
  shows "good w'"
proof -
  obtain r1 w1 where w1: "isNullifierSpent ctx (wp_nullifierHash proof) source w = (r1, w1)" by fastforce
  have good1: "good w1" by (rule good_calm [OF spent_calm assms(1) w1])
  have fits1: "fits w1 c (wp_nullifierHash proof)" by (rule fits_calm [OF spent_calm assms(2) w1])
  have "good w2" if "r1 = Inr True" "notes_markSpent (cx_notes ctx) c w1 = (r2, w2)" for r2 w2
    using mark_good [OF good1 fits1 _ that(2)] spent_true w1 that(1) by blast
  then show ?thesis
    using run w1 good1 by (auto simp: reconcileWithdrawal_def bnd_def ret_def split: prod.splits sum.splits if_splits)
qed

lemma deposit_steps_calm:
  "calm contents spent (check_amount ctx opts source)" "calm contents spent (getDepositCount (cx_pool ctx) source)"
  "calm contents spent (draw_secrets ctx secrets)"
  unfolding check_amount_def getNativeAssetDecimals_def getConfig_def getDepositCount_def draw_secrets_def wired
  by (intro calm_intros random_calm; simp add: pool_view_def read_calm)+

lemma deposit_keeps_notes:
  assumes "honest (do_signer opts)" "depositWithSigner ctx opts w = (Inl e, w')" "contents w = Some xs"
  shows "contents w' = Some xs"
  using assms(2) unfolding depositWithSigner_def
  by (auto simp: seq_simps Let_def assms(3) dest!: calmD(1) [OF key_calm [OF assms(1)]] calmD(1) [OF deposit_steps_calm(1)]
      calmD(1) [OF deposit_steps_calm(2)] calmD(1) [OF deposit_steps_calm(3)] calmD(1) [OF deposit_calm [OF assms(1)]]
      wp_InlD [OF add_law, rotated 2])

abbreviation keeps :: "('w, 'x) prog \<Rightarrow> bool" where
  "keeps m \<equiv> \<forall>w r w'. good w \<longrightarrow> m w = (r, w') \<longrightarrow> good w'"

lemma keeps_calm: "calm contents spent m \<Longrightarrow> keeps m"
  by (blast intro: good_calm)

lemma keeps_bnd: "keeps m \<Longrightarrow> (\<And>x. keeps (f x)) \<Longrightarrow> keeps (bnd m f)"
  by (intro allI impI, unfold bnd_iff, elim disjE exE conjE) blast+

lemma keeps_add: "\<not> note_spent n \<Longrightarrow> keeps (notes_add (cx_notes ctx) n)"
  by (blast intro: add_good)

lemma keeps_let: "keeps (f x) \<Longrightarrow> keeps (let y = x in f y)"
  by simp

lemma deposit_good: "honest (do_signer opts) \<Longrightarrow> keeps (depositWithSigner ctx opts)"
  unfolding depositWithSigner_def
  by (intro keeps_bnd keeps_let keeps_calm [OF key_calm] keeps_calm [OF deposit_steps_calm(1)] keeps_calm [OF deposit_steps_calm(2)]
      keeps_calm [OF deposit_steps_calm(3)] keeps_calm [OF deposit_calm] keeps_calm [OF calm_simple(3)] keeps_calm [OF calm_simple(1)]
      keeps_add) (simp_all add: deposit_note_def)

lemma deposit_result:
  assumes "honest (do_signer opts)" "contents w = Some xs" "depositWithSigner ctx opts w = (Inr (n, h), w')"
  shows "\<exists>nullifier secret ys w1 w2. js_BigInt_str (note_nullifier n) = Inr nullifier \<and> js_BigInt_str (note_secret n) = Inr secret
    \<and> js_BigInt_str (note_value n) = Inr (do_value opts) \<and> note_scope n = cx_poolScope ctx \<and> \<not> note_spent n
    \<and> note_commitment n = toHex32 (dd_commitment (deriveDeposit (pv_poseidon (cx_proving ctx)) (do_value opts) (note_scope n)
         (note_leafIndex n) nullifier secret))
    \<and> pool_deposit (cx_pool ctx) (do_value opts) (bigIntToBytes32 (dd_commitment (deriveDeposit (pv_poseidon (cx_proving ctx))
         (do_value opts) (note_scope n) (note_leafIndex n) nullifier secret))) (int (note_leafIndex n)) (do_signer opts) w1 = (Inr h, w2)
    \<and> contents w' = Some ys \<and> n \<in> set ys \<and> (\<forall>x \<in> set xs. note_commitment x \<noteq> note_commitment n \<longrightarrow> x \<in> set ys)"
proof -
  from assms(3) obtain w1 w2 secrets nullifier secret idx where
    secrets: "js_BigInt_str (fst secrets) = Inr nullifier" "js_BigInt_str (snd secrets) = Inr secret"
    and w1: "contents w1 = Some xs"
    and dep: "pool_deposit (cx_pool ctx) (do_value opts) (bigIntToBytes32 (dd_commitment (deriveDeposit (pv_poseidon (cx_proving ctx))
         (do_value opts) (cx_poolScope ctx) idx nullifier secret))) (int idx) (do_signer opts) w1 = (Inr h, w2)"
    and n: "n = deposit_note ctx (do_value opts) idx secrets (dd_commitment (deriveDeposit (pv_poseidon (cx_proving ctx))
         (do_value opts) (cx_poolScope ctx) idx nullifier secret)) (do_createdAt opts)"
    and add: "notes_add (cx_notes ctx) n w2 = (Inr (), w')"
    unfolding depositWithSigner_def
    by (auto simp: seq_simps Let_def assms(2) dest!: calmD(1) [OF key_calm [OF assms(1)]] calmD(1) [OF deposit_steps_calm(1)]
        calmD(1) [OF deposit_steps_calm(2)] calmD(1) [OF deposit_steps_calm(3)]) (metis fst_conv snd_conv)
  have "contents w2 = Some xs" using calmD(1) [OF deposit_calm [OF assms(1)] dep] w1 by simp
  from wp_InrD [OF add_law [OF this] add]
  obtain ys where "contents w' = Some ys" "n \<in> set ys" "\<forall>x \<in> set xs. note_commitment x \<noteq> note_commitment n \<longrightarrow> x \<in> set ys" by auto
  with secrets dep show ?thesis
    by (intro exI [of _ nullifier] exI [of _ secret] exI [of _ ys] exI [of _ w1] exI [of _ w2]) (simp add: n deposit_note_def)
qed

end


section \<open>A wallet over the RPC client\<close>

locale pool_wallet = pool_chain N C V pool contents spent op_of txhash +
    note_store "cx_notes ctx" contents note_commitment mark "\<lambda>_. True"
  for N :: "('w, 'a, 'v, 't) stellar_net" and C V pool contents spent op_of txhash and ctx :: "('w, 'v) PoolContext" +
  assumes wired_rpc: "cx_pool ctx = \<lparr>pp_rpc = rpc_invoker N C, pp_contractId = pool, pp_scval = V\<rparr>"
    and wallet_signer: "cx_signer ctx = Some s \<Longrightarrow> honest_signer N contents spent op_of s"
    and wallet_random: "calm contents spent (pv_random (cx_proving ctx) n)"
    and wallet_store: "spent w nh \<Longrightarrow> spent (snd (notes_add (cx_notes ctx) n' w)) nh"
      "spent w nh \<Longrightarrow> spent (snd (notes_markSpent (cx_notes ctx) c w)) nh"

sublocale pool_wallet \<subseteq> client: pool_client "rpc_invoker N C" V pool contents spent "honest_signer N contents spent op_of" ctx
  by unfold_locales (use wired_rpc wallet_signer wallet_random wallet_store in auto)

context pool_wallet
begin

lemma wallet_client: "pool_client (rpc_invoker N C) V pool contents spent (honest_signer N contents spent op_of) ctx"
  by unfold_locales

end

text \<open>
  Any sequence of calls to the service, with any outcome, between which anything may happen to the world as long as the
  note store is left alone and the contract forgets no nullifier.
\<close>

inductive wallet_run ::
  "('w, 'v) PoolContext \<Rightarrow> ('w \<Rightarrow> PoolNote list option) \<Rightarrow> ('w \<Rightarrow> byte list \<Rightarrow> bool) \<Rightarrow> ('w OpaqueSigner \<Rightarrow> bool) \<Rightarrow> 'w \<Rightarrow> 'w \<Rightarrow> bool"
  for ctx contents spent honest w where
  start: "wallet_run ctx contents spent honest w w"
| elapses: "wallet_run ctx contents spent honest w w1 \<Longrightarrow> contents w2 = contents w1 \<Longrightarrow> (\<And>nh. spent w1 nh \<Longrightarrow> spent w2 nh) \<Longrightarrow>
    wallet_run ctx contents spent honest w w2"
| deposits: "wallet_run ctx contents spent honest w w1 \<Longrightarrow> honest (do_signer opts) \<Longrightarrow>
    depositWithSigner ctx opts w1 = (r, w2) \<Longrightarrow> wallet_run ctx contents spent honest w w2"
| withdraws: "wallet_run ctx contents spent honest w w1 \<Longrightarrow>
    (\<And>c. wr_noteCommitment req = Some c \<Longrightarrow>
       proof_fits (pv_poseidon (cx_proving ctx)) contents w1 c (wp_nullifierHash (wr_proof req))) \<Longrightarrow>
    pool_service_withdraw ctx req w1 = (r', w2) \<Longrightarrow> wallet_run ctx contents spent honest w w2"
| reconciles: "wallet_run ctx contents spent honest w w1 \<Longrightarrow>
    proof_fits (pv_poseidon (cx_proving ctx)) contents w1 c (wp_nullifierHash proof) \<Longrightarrow>
    reconcileWithdrawal ctx proof c source w1 = (r'', w2) \<Longrightarrow> wallet_run ctx contents spent honest w w2"

context pool_client
begin

lemma run_good: "wallet_run ctx contents spent honest w w' \<Longrightarrow> good w \<Longrightarrow> good w'"
proof (induction rule: wallet_run.induct)
  case (elapses w1 w2)
  then show ?case unfolding truthful_def by metis
next
  case (deposits w1 opts r w2)
  then show ?case using deposit_good by blast
next
  case (withdraws w1 req r' w2)
  then show ?case using withdraw_good by blast
next
  case (reconciles w1 c pr source r'' w2)
  then show ?case using reconcile_good by blast
qed

end

text \<open>
  C8: No note is burned for a withdrawal that did not land. Whatever sequence of deposits, withdrawals and
  reconciliations a wallet runs, whichever of their requests fail or time out at whatever point, and whatever else happens
  on the chain meanwhile, every note the store then holds as spent has its nullifier recorded by the pool contract,
  if this was so at the start and each proof belongs to the note whose commitment is passed with it.
\<close>

theorem spent_marks_are_truthful:
  assumes "pool_wallet N C V pool contents spent op_of txhash ctx"
    and "wallet_run ctx contents spent (honest_signer N contents spent op_of) w w'"
    and "truthful (pv_poseidon (cx_proving ctx)) contents spent w"
  shows "truthful (pv_poseidon (cx_proving ctx)) contents spent w'"
proof -
  have "pool_client (rpc_invoker N C) V pool contents spent (honest_signer N contents spent op_of) ctx"
    by (rule pool_wallet.wallet_client [OF assms(1)])
  from pool_client.run_good [OF this assms(2,3)] show ?thesis .
qed


section \<open>A wallet over the ledger\<close>

definition ledger_options :: "('n \<times> ledger) RpcClientOptions" where
  "ledger_options = \<lparr>rc_rpcUrls = [''https://rpc''], rc_horizonUrl = ''https://horizon'', rc_passphrase = ''testnet'',
     rc_onContractCall = None, rc_errorNames = (\<lambda>_ _. None)\<rparr>"

definition ledger_signer :: "('n \<times> ledger) OpaqueSigner" where
  "ledger_signer = \<lparr>sg_publicKey = ret ''GWALLET'', sg_signTransaction = (\<lambda>x _. ret x)\<rparr>"

definition ledger_scval :: "jv scval_lib" where
  "ledger_scval = \<lparr>sc_address = (\<lambda>a. Inr (JStr a)), sc_i128 = (\<lambda>i. Inr (JStr (dec_of_int i))), sc_u64 = (\<lambda>i. Inr (JStr (dec_of_int i))),
     sc_bytes = (\<lambda>b. JStr (hex_of_bytes b)), sc_bool = JBool\<rparr>"

definition ledger_spent :: "'n \<times> ledger \<Rightarrow> byte list \<Rightarrow> bool" where
  "ledger_spent w nh \<longleftrightarrow>
     list_ex (\<lambda>c. is_call ''withdraw'' (call_of c) \<and> call_arg 6 (call_of c) = JStr (hex_of_bytes nh)) (lg_calls (snd w))"

definition ledger_wallet :: "((string \<times> PoolNote) list \<times> ledger, jv) PoolContext" where
  "ledger_wallet =
     \<lparr>cx_network = ''testnet'', cx_poolScope = 7, cx_startLedger = None,
      cx_pool = \<lparr>pp_rpc = rpc_invoker ledger_net ledger_options, pp_contractId = ''CPOOL'', pp_scval = ledger_scval\<rparr>,
      cx_notes = MemoryNoteStore, cx_signer = Some ledger_signer, cx_artifacts = False,
      cx_proving = \<lparr>pv_poseidon = example_poseidon, pv_stellar = example_lib, pv_random = (\<lambda>n. ret (replicate n 1)),
        pv_resolve = (\<lambda>_ _. ret []), pv_snarkjs = \<lparr>sj_fullProve = (\<lambda>_ _ _. throw (Error ''no prover'')), sj_verify = None\<rparr>\<rparr>,
      cx_topic = (\<lambda>t. t)\<rparr>"

lemma ledger_fields [simp]:
  "net_runtime ledger_net = ledger_runtime" "net_getAccount ledger_net u a = ret a" "net_prepare ledger_net u tx = ret tx"
  "net_simulate ledger_net u tx w = (Inr (Simulated 100 (Some (ledger_view (lg_calls (snd w)) (call_of tx)))), w)"
  "net_send ledger_net u tx w = (Inr \<lparr>sr_status = ''PENDING'', sr_hash = tx, sr_errorResult = []\<rparr>, (fst w, (snd w)\<lparr>lg_calls := lg_calls (snd w) @ [tx]\<rparr>))"
  "net_getTransaction ledger_net u h w =
     (Inr \<lparr>tr_status = (if \<not> lg_lost (snd w) \<and> h \<in> set (lg_calls (snd w)) then ''SUCCESS'' else ''NOT_FOUND''), tr_events = []\<rparr>, w)"
  "net_build ledger_net a f p call memo t =
     (if json_printable (call_json call) \<and> call_json call \<noteq> JNull then Inr (json_stringify (call_json call)) else Inl (TypeError ''value cannot be encoded''))"
  "net_assemble ledger_net tx sim = Inr tx" "net_toXDR ledger_net tx = tx" "net_fromXDR ledger_net tx p = Inr tx"
  "net_toNative ledger_net v = jv_native v"
  by (simp_all add: ledger_net_def split: prod.splits)

lemma ledger_runtime_fields [simp]:
  "rt_now ledger_runtime w = (lg_now (snd w), w)"
  "rt_sleep ledger_runtime ms w = (fst w, (snd w)\<lparr>lg_now := lg_now (snd w) + \<lceil>ms\<rceil>\<rparr>)"
  by (simp_all add: ledger_runtime_def split: prod.splits)

lemma memory_notes_fst: "memory_notes (fst w, l) = memory_notes w"
  by (cases w) (simp add: memory_notes_def)

lemma call_of_printed:
  assumes "json_printable (call_json call)" "call_json call \<noteq> JNull"
  shows "call_of (json_stringify (call_json call)) = call"
proof (cases call)
  case (CallContract c m args)
  then show ?thesis using assms by (simp add: call_of_def json_parse_stringify) (simp add: call_json_def)
qed (use assms in \<open>simp_all add: call_json_def\<close>)

lemma ledger_honest: "honest_signer ledger_net memory_notes ledger_spent call_of ledger_signer"
  by (auto simp: honest_signer_def ledger_signer_def calm_def)

lemma ledger_chain:
  "pool_chain ledger_net ledger_options ledger_scval ''CPOOL'' memory_notes ledger_spent call_of (\<lambda>tx. tx)"
proof
  show "ledger_spent w' nh" if "net_simulate ledger_net s tx w = (Inr (Simulated fee (Some v)), w')"
      "call_of tx = CallContract ''CPOOL'' ''is_spent'' [sc_bytes ledger_scval nh]" "nv_Boolean (net_toNative ledger_net v)"
    for s tx fee v nh and w w' :: "(string \<times> PoolNote) list \<times> ledger"
    using that by (auto simp: ledger_view_def ledger_scval_def ledger_spent_def)
  show "ledger_spent w' nh" if "net_getTransaction ledger_net s tx w = (Inr res, w')" "tr_status res = ''SUCCESS''"
      "call_of tx = CallContract ''CPOOL'' ''withdraw'' args" "6 < length args" "args ! 6 = sc_bytes ledger_scval nh"
    for s tx args res nh and w w' :: "(string \<times> PoolNote) list \<times> ledger"
    using that by (auto simp: ledger_spent_def list_ex_iff ledger_scval_def split: if_splits intro!: bexI [of _ tx])
qed (auto simp: calm_def date_now_def sleep_ms_def memory_notes_fst ledger_spent_def ledger_options_def call_of_printed split: if_splits)

interpretation ledger_client: pool_wallet ledger_net ledger_options ledger_scval "''CPOOL''" memory_notes ledger_spent call_of "\<lambda>tx. tx" ledger_wallet
proof (intro pool_wallet.intro ledger_chain pool_wallet_axioms.intro)
  show "note_store (cx_notes ledger_wallet) memory_notes note_commitment mark (\<lambda>_. True)"
    using memory_store.note_store_axioms by (simp add: ledger_wallet_def)
qed (auto simp: ledger_wallet_def ledger_honest calm_def MemoryNoteStore_def ledger_spent_def upd_def split: prod.splits)

text \<open>How the client runs on the ledger.\<close>

lemma ledger_read:
  assumes "\<And>s. fn s w = (Inr x, w)"
  shows "rpc_read ledger_net ledger_options fn label w = (Inr x, w)"
  using assms
  by (simp add: rpc_read_def read_plan_def ledger_options_def READ_RETRIES_PER_PROVIDER_def upt_rec try_catch_def withTimeout_def bnd_def
      date_now_def READ_TIMEOUT_MS_def of_res_def)

lemma ledger_native:
  assumes "json_printable (call_json (CallContract c m args))"
  shows "readNative ledger_net ledger_options \<lparr>ro_source = src, ro_contractId = c, ro_method = m, ro_args = args\<rparr> w =
    (Inr (jv_native (ledger_view (lg_calls (snd w)) (CallContract c m args))), w)"
proof -
  have "call_json (CallContract c m args) \<noteq> JNull" by (simp add: call_json_def)
  with assms show ?thesis
    by (simp add: readNative_def simulateRead_def simulate_call_def bnd_def of_res_def ledger_read call_of_printed)
qed

abbreviation sent_call :: "('n \<times> ledger, jv) InvokeOptions \<Rightarrow> string" where
  "sent_call opts \<equiv> json_stringify (call_json (CallContract (io_contractId opts) (io_method opts) (io_args opts)))"

lemma ledger_prepare:
  assumes "json_printable (call_json (CallContract (io_contractId opts) (io_method opts) (io_args opts)))" "\<not> io_skipSimulation opts"
  shows "prepare_call ledger_net ledger_options opts w = (Inr (sent_call opts), w)"
proof -
  have "call_json (CallContract (io_contractId opts) (io_method opts) (io_args opts)) \<noteq> JNull" by (simp add: call_json_def)
  with assms show ?thesis by (simp add: prepare_call_def bnd_def of_res_def ledger_read)
qed

lemma ledger_option_fields: "rc_onContractCall ledger_options = None" "rc_rpcUrls ledger_options = [''https://rpc'']"
  by (simp_all add: ledger_options_def)

lemma ledger_poll_ok:
  "\<not> lg_lost (snd w) \<Longrightarrow> h \<in> set (lg_calls (snd w)) \<Longrightarrow>
     poll ledger_net u h w = (Inr \<lparr>tr_status = ''SUCCESS'', tr_events = []\<rparr>, w)"
  by (simp add: poll_def poll_fuel_def numeral_eq_Suc bnd_def date_now_def TX_POLL_TIMEOUT_MS_def)

lemma ledger_invoke:
  assumes "json_printable (call_json (CallContract (io_contractId opts) (io_method opts) (io_args opts)))"
    and "\<not> io_skipSimulation opts" "io_signer opts = ledger_signer" "\<not> lg_lost (snd w)"
  shows "invoke ledger_net ledger_options opts w = (Inr (sent_call opts), (fst w, (snd w)\<lparr>lg_calls := lg_calls (snd w) @ [sent_call opts]\<rparr>))"
  using assms ledger_prepare [OF assms(1,2), of w]
  by (simp add: invoke_def bnd_def try_catch_def date_now_def sign_tx_def ledger_signer_def of_res_def send_and_confirm_def
      report_call_def ledger_poll_ok ledger_option_fields)

lemma ledger_poll_lost:
  assumes "lg_lost (snd w)" "lg_now (snd w) = begun + 1000 * (60 - int k)" "k \<le> 60"
  shows "poll_loop ledger_net u h begun (Suc k) w =
    (Inl (RpcError (''Transaction polling timed out for '' @ h) None), (fst w, (snd w)\<lparr>lg_now := begun + 60000\<rparr>))"
  using assms
proof (induction k arbitrary: w)
  case 0
  then show ?case by (cases w) (simp add: bnd_def date_now_def TX_POLL_TIMEOUT_MS_def)
next
  case (Suc k)
  define w1 where "w1 = (fst w, (snd w)\<lparr>lg_now := lg_now (snd w) + 1000\<rparr>)"
  have "poll_loop ledger_net u h begun (Suc k) w1 =
      (Inl (RpcError (''Transaction polling timed out for '' @ h) None), (fst w1, (snd w1)\<lparr>lg_now := begun + 60000\<rparr>))"
    by (rule Suc.IH) (use Suc.prems in \<open>simp_all add: w1_def\<close>)
  moreover have "poll_loop ledger_net u h begun (Suc (Suc k)) w = poll_loop ledger_net u h begun (Suc k) w1"
    using Suc.prems
    by (subst poll_loop.simps) (simp add: bnd_def date_now_def sleep_ms_def TX_POLL_TIMEOUT_MS_def TX_POLL_INTERVAL_MS_def w1_def del: poll_loop.simps)
  ultimately show ?case by (simp add: w1_def del: poll_loop.simps)
qed

lemma ledger_poll_timeout:
  "lg_lost (snd w) \<Longrightarrow> poll ledger_net u h w =
     (Inl (RpcError (''Transaction polling timed out for '' @ h) None), (fst w, (snd w)\<lparr>lg_now := lg_now (snd w) + 60000\<rparr>))"
  using ledger_poll_lost [of w "lg_now (snd w)" 60 u h]
  by (simp add: poll_def poll_fuel_def bnd_def date_now_def numeral_eq_Suc del: poll_loop.simps)

lemma ledger_invoke_lost:
  assumes "json_printable (call_json (CallContract (io_contractId opts) (io_method opts) (io_args opts)))"
    and "\<not> io_skipSimulation opts" "io_signer opts = ledger_signer" "lg_lost (snd w)"
  shows "invoke ledger_net ledger_options opts w =
    (Inl (RpcError (''Transaction polling timed out for '' @ sent_call opts) None),
     (fst w, (snd w)\<lparr>lg_now := lg_now (snd w) + 60000, lg_calls := lg_calls (snd w) @ [sent_call opts]\<rparr>))"
  using assms ledger_prepare [OF assms(1,2), of w]
  by (simp add: invoke_def bnd_def try_catch_def date_now_def sign_tx_def ledger_signer_def of_res_def send_and_confirm_def
      report_call_def ledger_poll_timeout ledger_option_fields)


section \<open>Deposits\<close>

text \<open>
  C25: A deposit that returns has stored its note, unspent and next to every note with another commitment, and the note
  opens the commitment that the confirmed transaction put under the note's leaf index: value, nullifier and secret
  read back from the note hash to it, which is what the prover needs to withdraw the note from the same pool.
\<close>

theorem deposit_stores_opening_note:
  assumes "pool_wallet N C V pool contents spent op_of txhash ctx"
    and "honest_signer N contents spent op_of (do_signer opts)" "contents w = Some xs"
    and "depositWithSigner ctx opts w = (Inr (n, h), w')"
  shows "\<exists>nullifier secret commitment ys w1 w2.
      pool_deposit (cx_pool ctx) (do_value opts) (bigIntToBytes32 commitment) (int (note_leafIndex n)) (do_signer opts) w1 = (Inr h, w2)
      \<and> note_commitment n = toHex32 commitment \<and> \<not> note_spent n
      \<and> contents w' = Some ys \<and> n \<in> set ys \<and> (\<forall>x \<in> set xs. note_commitment x \<noteq> note_commitment n \<longrightarrow> x \<in> set ys)
      \<and> (\<forall>request. wo_note request = n \<and> wo_scope request = cx_poolScope ctx \<and> note_leafIndex n < length (wo_stateLeaves request) \<longrightarrow>
           note_opens (pv_poseidon (cx_proving ctx)) request (do_value opts) nullifier secret)"
proof -
  have "pool_client (rpc_invoker N C) V pool contents spent (honest_signer N contents spent op_of) ctx"
    by (rule pool_wallet.wallet_client [OF assms(1)])
  from pool_client.deposit_result [OF this assms(2-4)] show ?thesis
    unfolding note_opens_def Let_def by (elim exE conjE) (intro exI conjI allI impI, assumption+, simp_all)
qed

lemma ledger_views:
  "getDepositCount (cx_pool ledger_wallet) source w = (Inr (Some (rat_of_nat (length (filter (is_call ''deposit'' \<circ> call_of) (lg_calls (snd w)))))), w)"
  "getNativeAssetDecimals (cx_pool ledger_wallet) source w = (Inr (Some 7), w)"
  by (simp_all add: getDepositCount_def getNativeAssetDecimals_def getConfig_def pool_view_def ledger_wallet_def rpc_invoker_def bnd_def of_res_def
      ledger_native ledger_view_def call_json_def nv_get_def)

definition deposit_call :: "int \<Rightarrow> int \<Rightarrow> nat \<Rightarrow> jv tx_operation" where
  "deposit_call val commitment i =
     CallContract ''CPOOL'' ''deposit'' [JStr ''GWALLET'', JStr (dec_of_int val), JStr (hex_of_bytes (bigIntToBytes32 commitment)), JStr (dec_of_int (int i))]"

lemma ledger_pool_deposit:
  "pool_deposit (cx_pool ledger_wallet) val (bigIntToBytes32 commitment) (int i) ledger_signer w =
     (let tx = json_stringify (call_json (deposit_call val commitment i)) in
      if lg_lost (snd w)
      then (Inl (RpcError (''Transaction polling timed out for '' @ tx) None),
            (fst w, (snd w)\<lparr>lg_now := lg_now (snd w) + 60000, lg_calls := lg_calls (snd w) @ [tx]\<rparr>))
      else (Inr tx, (fst w, (snd w)\<lparr>lg_calls := lg_calls (snd w) @ [tx]\<rparr>)))"
proof -
  have key: "sg_publicKey ledger_signer = ret ''GWALLET''" by (simp add: ledger_signer_def)
  show ?thesis
    by (simp add: pool_deposit_def pool_invoke_def ledger_wallet_def rpc_invoker_def ledger_scval_def key bnd_def of_res_def
        ledger_invoke ledger_invoke_lost call_json_def deposit_call_def Let_def)
qed

abbreviation next_index :: "ledger \<Rightarrow> nat" where
  "next_index l \<equiv> length (filter (is_call ''deposit'' \<circ> call_of) (lg_calls l))"

text \<open>The note that a deposit on the ledger makes when it draws the secrets itself.\<close>

definition drawn_secrets :: "string \<times> string" where
  "drawn_secrets = newNoteSecrets (replicate 31 1) (replicate 31 1)"

definition drawn_commitment :: "int \<Rightarrow> nat \<Rightarrow> int" where
  "drawn_commitment val i = (let s = foldl (\<lambda>v b. v * 256 + uint b) 0 (replicate 31 (1 :: byte)) mod BN254_R
     in dd_commitment (deriveDeposit example_poseidon val 7 i s s))"

lemma ledger_deposit:
  assumes "do_signer opts = ledger_signer" "do_secrets opts = None"
    and "do_skipValidation opts \<or> validateDepositAmount (do_amountXlmForValidation opts) (do_value opts) (Some 7) = Inr ()"
  shows "depositWithSigner ledger_wallet opts w =
    (let i = next_index (snd w); c = drawn_commitment (do_value opts) i;
         n = deposit_note ledger_wallet (do_value opts) i drawn_secrets c (do_createdAt opts)
     in case pool_deposit (cx_pool ledger_wallet) (do_value opts) (bigIntToBytes32 c) (int i) ledger_signer w of
          (Inl e, w1) \<Rightarrow> (Inl e, w1)
        | (Inr h, w1) \<Rightarrow> (Inr (n, h), (AList.update (note_commitment n) n (fst w1), snd w1)))"
proof -
  have check: "check_amount ledger_wallet opts source w = (Inr (), w)" for source
    using assms(3) by (auto simp: check_amount_def ledger_views bnd_def of_res_def)
  have draw: "draw_secrets ledger_wallet None w = (Inr drawn_secrets, w)"
    by (simp add: draw_secrets_def ledger_wallet_def bnd_def drawn_secrets_def)
  have secrets: "js_BigInt_str (fst drawn_secrets) = Inr (foldl (\<lambda>v b. v * 256 + uint b) 0 (replicate 31 (1 :: byte)) mod BN254_R)"
    "snd drawn_secrets = fst drawn_secrets"
    unfolding drawn_secrets_def newNoteSecrets_def randomFieldElement_def by simp_all
  have index: "index_of_count (Some (rat_of_nat i)) = Inr i" for i by (simp add: index_of_count_def is_integer_def)
  have key: "sg_publicKey ledger_signer = ret ''GWALLET''" by (simp add: ledger_signer_def)
  have fields: "pv_poseidon (cx_proving ledger_wallet) = example_poseidon" "cx_poolScope ledger_wallet = 7" "cx_notes ledger_wallet = MemoryNoteStore"
    by (simp_all add: ledger_wallet_def)
  show ?thesis
    unfolding depositWithSigner_def assms(1,2) key
    by (simp add: bnd_def check ledger_views draw of_res_def secrets index fields drawn_commitment_def Let_def MemoryNoteStore_def upd_def
        split: prod.splits sum.splits)
qed

text \<open>
  A deposit whose confirmation is lost is lost itself: the transaction has been applied and the pool holds the money
  under the commitment of freshly drawn secrets, the call throws a timeout that does not mention them, and the note store is
  as before. Withdrawals, for which the same failure can be reconciled later, have no counterpart for deposits.
\<close>

lemma unconfirmed_deposit_loses_note:
  assumes "lg_lost l" "do_signer opts = ledger_signer" "do_secrets opts = None"
    and "validateDepositAmount (do_amountXlmForValidation opts) (do_value opts) (Some 7) = Inr ()"
  shows "\<exists>tx. depositWithSigner ledger_wallet opts (notes, l) =
      (Inl (RpcError (''Transaction polling timed out for '' @ tx) None),
       (notes, l\<lparr>lg_now := lg_now l + 60000, lg_calls := lg_calls l @ [tx]\<rparr>))
    \<and> call_of tx = deposit_call (do_value opts) (drawn_commitment (do_value opts) (next_index l)) (next_index l)"
proof -
  let ?call = "deposit_call (do_value opts) (drawn_commitment (do_value opts) (next_index l)) (next_index l)"
  have "call_of (json_stringify (call_json ?call)) = ?call"
    by (rule call_of_printed) (simp_all add: deposit_call_def call_json_def)
  then show ?thesis
    using assms by (intro exI [of _ "json_stringify (call_json ?call)"])
      (simp add: ledger_deposit ledger_pool_deposit Let_def)
qed

definition example_deposit :: "((string \<times> PoolNote) list \<times> ledger) DepositOpts" where
  "example_deposit = \<lparr>do_signer = ledger_signer, do_value = 12345678, do_amountXlmForValidation = formatStroopsToXlm 12345678, do_secrets = None,
     do_createdAt = None, do_skipValidation = False\<rparr>"

lemma example_deposit_valid:
  "validateDepositAmount (do_amountXlmForValidation example_deposit) (do_value example_deposit) (Some 7) = Inr ()"
  by (simp add: example_deposit_def format_passes BN254_R_def)

lemma unconfirmed_deposit_loses_note_witness:
  "\<exists>tx w'. depositWithSigner ledger_wallet example_deposit ([], \<lparr>lg_now = 0, lg_calls = [], lg_lost = True\<rparr>) =
     (Inl (RpcError (''Transaction polling timed out for '' @ tx) None), w') \<and> fst w' = [] \<and> lg_calls (snd w') = [tx]"
  using unconfirmed_deposit_loses_note [of "\<lparr>lg_now = 0, lg_calls = [], lg_lost = True\<rparr>" example_deposit "[]"] example_deposit_valid
  by (auto simp: example_deposit_def)

definition new_ledger :: ledger where
  "new_ledger = \<lparr>lg_now = 0, lg_calls = [], lg_lost = False\<rparr>"

lemma example_deposit_runs:
  "\<exists>n h l. depositWithSigner ledger_wallet example_deposit ([], new_ledger) = (Inr (n, h), ([(note_commitment n, n)], l))"
  using example_deposit_valid by (simp add: ledger_deposit ledger_pool_deposit Let_def example_deposit_def new_ledger_def)

lemma memory_notes_small: "memory_notes ([], l) = Some []" "memory_notes ([(note_commitment n, n)], l) = Some [n]"
  by (simp_all add: memory_notes_def)

lemma example_honest: "honest_signer ledger_net memory_notes ledger_spent call_of (do_signer example_deposit)"
  using ledger_honest by (simp add: example_deposit_def)

theorem deposit_stores_opening_note_witness:
  "\<exists>n h w' ys. depositWithSigner ledger_wallet example_deposit ([], new_ledger) = (Inr (n, h), w')
     \<and> memory_notes w' = Some ys \<and> n \<in> set ys"
proof -
  obtain n h l where run: "depositWithSigner ledger_wallet example_deposit ([], new_ledger) = (Inr (n, h), ([(note_commitment n, n)], l))"
    using example_deposit_runs by blast
  from deposit_stores_opening_note [OF ledger_client.pool_wallet_axioms example_honest memory_notes_small(1) run]
  show ?thesis using run by blast
qed

text \<open>A withdrawal of a note, with proof bytes that the ledger does not look at.\<close>

definition withdrawal_of :: "PoolNote \<Rightarrow> WithdrawRequest" where
  "withdrawal_of n =
     \<lparr>wr_proof = \<lparr>wp_proofA = [], wp_proofB = [], wp_proofC = [], wp_withdrawnValue = 12345678, wp_stateRoot = [], wp_aspRoot = [],
        wp_nullifierHash = note_nullifier_bytes example_poseidon n, wp_newCommitment = [], wp_change = (([], []), 0)\<rparr>,
      wr_recipient = ''GME'', wr_fee = None, wr_relayer = None, wr_noteCommitment = Some (note_commitment n)\<rparr>"

theorem spent_marks_are_truthful_witness:
  "\<exists>n h w1 r w2. depositWithSigner ledger_wallet example_deposit ([], new_ledger) = (Inr (n, h), w1)
     \<and> pool_service_withdraw ledger_wallet (withdrawal_of n) w1 = (r, w2) \<and> truthful example_poseidon memory_notes ledger_spent w2"
proof -
  obtain n h l where dep: "depositWithSigner ledger_wallet example_deposit ([], new_ledger) = (Inr (n, h), ([(note_commitment n, n)], l))"
    using example_deposit_runs by blast
  obtain r w2 where wd: "pool_service_withdraw ledger_wallet (withdrawal_of n) ([(note_commitment n, n)], l) = (r, w2)"
    by (cases "pool_service_withdraw ledger_wallet (withdrawal_of n) ([(note_commitment n, n)], l)")
  have fields: "pv_poseidon (cx_proving ledger_wallet) = example_poseidon" by (simp add: ledger_wallet_def)
  have "wallet_run ledger_wallet memory_notes ledger_spent (honest_signer ledger_net memory_notes ledger_spent call_of)
      ([], new_ledger) ([(note_commitment n, n)], l)"
    by (rule wallet_run.deposits) (rule wallet_run.start, rule example_honest, rule dep)
  then have "wallet_run ledger_wallet memory_notes ledger_spent (honest_signer ledger_net memory_notes ledger_spent call_of) ([], new_ledger) w2"
    by (rule wallet_run.withdraws [OF _ _ wd]) (simp add: proof_fits_def withdrawal_of_def memory_notes_small fields)
  from spent_marks_are_truthful [OF ledger_client.pool_wallet_axioms this]
  have "truthful example_poseidon memory_notes ledger_spent w2" by (simp add: truthful_def memory_notes_small fields)
  then show ?thesis using dep wd by blast
qed

end
