(* ===== verification/Sdk_Payments.thy ===== *)
theory Sdk_Payments
  imports Sdk_Pool Sdk_Stealth_Props
begin

text \<open>
  The bindings of the stealth registry and announcer (\<open>sdk/src/contracts/payments.ts\<close>) and the payments service
  (\<open>sdk/src/services/payments.ts\<close>) with the transfers of \<open>sdk/src/client/OpaqueClient.ts\<close>. The
  curve and key pairs are the parameter \<open>curve_lib\<close> of the stealth addresses; the bytes of the ephemeral key are
  drawn by the program \<open>pay_random\<close>. Scanning is modelled with the event pages.
\<close>

section \<open>The bindings\<close>

record ('w, 'v) stealth_contract =
  st_rpc :: "('w, 'v) ContractInvoker"
  st_contractId :: string
  st_scval :: "'v scval_lib"

definition SCHEME_ID_SECP256K1 :: int where "SCHEME_ID_SECP256K1 = 1"

definition stealth_version :: "('w, 'v) stealth_contract \<Rightarrow> string \<Rightarrow> ('w, js_number) prog" where
  "stealth_version R source =
     bnd (ci_readNative (st_rpc R) \<lparr>ro_source = source, ro_contractId = st_contractId R, ro_method = ''version'', ro_args = []\<rparr>)
       (\<lambda>v. ret (nv_Number v))"

definition registerKeys ::
  "('p, 'k) curve_lib \<Rightarrow> ('w, 'v) stealth_contract \<Rightarrow> byte list \<Rightarrow> int option \<Rightarrow> 'w OpaqueSigner \<Rightarrow> ('w, string) prog" where
  "registerKeys L R stealthMetaAddress schemeId signer =
     bnd (of_res (assertValidStealthMetaAddress L stealthMetaAddress)) (\<lambda>_.
     bnd (sg_publicKey signer) (\<lambda>source.
     bnd (of_res (sc_address (st_scval R) source)) (\<lambda>a1.
     bnd (of_res (sc_u64 (st_scval R) (or_else schemeId SCHEME_ID_SECP256K1))) (\<lambda>a2.
     ci_invoke (st_rpc R) \<lparr>io_source = source, io_contractId = st_contractId R, io_method = ''register_keys'',
       io_args = [a1, a2, sc_bytes (st_scval R) stealthMetaAddress], io_signer = signer, io_skipSimulation = False,
       io_contractPackage = Some ''stealth-registry''\<rparr>))))"

definition meta_result :: "native_value \<Rightarrow> byte list option" where
  "meta_result v = (case v of NvBytes bs \<Rightarrow> Some bs | _ \<Rightarrow> None)"

definition resolve :: "('w, 'v) stealth_contract \<Rightarrow> string \<Rightarrow> string \<Rightarrow> ('w, byte list option) prog" where
  "resolve R address source =
     try_catch
       (bnd (of_res (sc_address (st_scval R) address)) (\<lambda>a.
        bnd (ci_readNative (st_rpc R) \<lparr>ro_source = source, ro_contractId = st_contractId R, ro_method = ''resolve'', ro_args = [a]\<rparr>)
          (\<lambda>v. ret (meta_result v))))
       (\<lambda>_. ret None)"

definition resolveHistorical :: "('w, 'v) stealth_contract \<Rightarrow> string \<Rightarrow> string \<Rightarrow> int \<Rightarrow> ('w, byte list option) prog" where
  "resolveHistorical R address source ledger =
     try_catch
       (bnd (of_res (sc_address (st_scval R) address)) (\<lambda>a.
        bnd (of_res (sc_u64 (st_scval R) ledger)) (\<lambda>l.
        bnd (ci_readNative (st_rpc R) \<lparr>ro_source = source, ro_contractId = st_contractId R, ro_method = ''resolve_historical'', ro_args = [a, l]\<rparr>)
          (\<lambda>v. ret (meta_result v)))))
       (\<lambda>_. ret None)"

definition announce ::
  "('w, 'v) stealth_contract \<Rightarrow> byte list \<Rightarrow> byte list \<Rightarrow> byte list \<Rightarrow> int option \<Rightarrow> 'w OpaqueSigner \<Rightarrow> ('w, string) prog" where
  "announce R stealthAddress ephemeralPubKey metadata schemeId signer =
     bnd (sg_publicKey signer) (\<lambda>source.
     bnd (of_res (sc_address (st_scval R) source)) (\<lambda>a1.
     bnd (of_res (sc_u64 (st_scval R) (or_else schemeId SCHEME_ID_SECP256K1))) (\<lambda>a2.
     ci_invoke (st_rpc R) \<lparr>io_source = source, io_contractId = st_contractId R, io_method = ''announce'',
       io_args = [a1, a2, sc_bytes (st_scval R) stealthAddress, sc_bytes (st_scval R) ephemeralPubKey, sc_bytes (st_scval R) metadata],
       io_signer = signer, io_skipSimulation = False, io_contractPackage = Some ''stealth-announcer''\<rparr>)))"


section \<open>The service\<close>

text \<open>The transfers of the client, which are absent when it was built with a custom invoker.\<close>

record ('w, 'v, 'p, 'k) PaymentsContext =
  pay_curve :: "('p, 'k) curve_lib"
  pay_sign :: "'k \<Rightarrow> string \<Rightarrow> string \<Rightarrow> string res"
  pay_random :: "nat \<Rightarrow> ('w, byte list) prog"
  pay_signer :: "'w OpaqueSigner option"
  pay_registry :: "('w, 'v) stealth_contract"
  pay_announcer :: "('w, 'v) stealth_contract"
  pay_transfer :: "('w NativeTransfer \<Rightarrow> ('w, string) prog) option"
  pay_merge :: "('w OpaqueSigner \<Rightarrow> string \<Rightarrow> ('w, string) prog) option"

definition sendNativeTransfer :: "('w, 'v, 'p, 'k) PaymentsContext \<Rightarrow> 'w NativeTransfer \<Rightarrow> ('w, string) prog" where
  "sendNativeTransfer ctx opts =
     (case pay_transfer ctx of
        None \<Rightarrow> throw (RpcError ''Native transfers require the built-in RpcClient (unavailable with a custom invoker).'' None)
      | Some transfer \<Rightarrow> transfer opts)"

definition accountMerge :: "('w, 'v, 'p, 'k) PaymentsContext \<Rightarrow> 'w OpaqueSigner \<Rightarrow> string \<Rightarrow> ('w, string) prog" where
  "accountMerge ctx sourceSigner destination =
     (case pay_merge ctx of
        None \<Rightarrow> throw (RpcError ''Account merges require the built-in RpcClient (unavailable with a custom invoker).'' None)
      | Some merge \<Rightarrow> merge sourceSigner destination)"

record StealthIdentity =
  id_viewingKey :: "byte list"
  id_spendingKey :: "byte list"
  id_metaAddress :: "byte list"
  id_metaHex :: string

definition deriveIdentity :: "('p, 'k) curve_lib \<Rightarrow> string \<Rightarrow> StealthIdentity res" where
  "deriveIdentity L signatureHex =
     res_bind (deriveKeysFromSignature L signatureHex) (\<lambda>(viewingKey, spendingKey).
     res_bind (keysToStealthMetaAddress L viewingKey spendingKey) (\<lambda>(_, _, metaAddress).
     Inr \<lparr>id_viewingKey = viewingKey, id_spendingKey = spendingKey, id_metaAddress = metaAddress,
          id_metaHex = stealthMetaAddressToHex metaAddress\<rparr>))"

definition pay_register :: "('w, 'v, 'p, 'k) PaymentsContext \<Rightarrow> byte list \<Rightarrow> ('w, string) prog" where
  "pay_register ctx metaAddress =
     bnd (of_res (requireSigner (pay_signer ctx))) (\<lambda>signer. registerKeys (pay_curve ctx) (pay_registry ctx) metaAddress None signer)"

definition prepareTransfer :: "('w, 'v, 'p, 'k) PaymentsContext \<Rightarrow> string \<Rightarrow> ('w, StealthSend) prog" where
  "prepareTransfer ctx recipientMetaHex =
     bnd (pay_random ctx 32) (\<lambda>ephemeralPriv.
     of_res (computeStealthAddressAndViewTag (pay_curve ctx) ephemeralPriv recipientMetaHex))"

definition resolveMemo :: "string \<Rightarrow> TransferMemo option \<Rightarrow> TransferMemo option res" where
  "resolveMemo destination memo =
     (case resolveTransferMemo destination memo of
        Inr m \<Rightarrow> Inr m
      | Inl err \<Rightarrow> Inl (MemoError (err_message err) destination (mr_custodianName (memoRiskFor (Some destination)))))"

record SendOpts =
  so_to :: string
  so_amountXlm :: string
  so_memo :: "TransferMemo option"
  so_feePerOperation :: "string option"

record SendResult =
  sr_stealthStellarAddress :: string
  sr_ephemeralPubKey :: "byte list"
  sr_paymentTxHash :: string
  sr_announceTxHash :: string

text \<open>The announcement of a prepared transfer, as \<open>send\<close> posts it.\<close>

definition announce_transfer ::
  "('w, 'v, 'p, 'k) PaymentsContext \<Rightarrow> 'w OpaqueSigner \<Rightarrow> StealthSend \<Rightarrow> ('w, string) prog" where
  "announce_transfer ctx signer stealth =
     bnd (of_res (bytes_of_hex (ss_stealthAddress stealth))) (\<lambda>stealthAddress.
     announce (pay_announcer ctx) stealthAddress (ss_ephemeralPubKey stealth) (ss_metadata stealth) None signer)"

definition send_payment :: "('w, 'v, 'p, 'k) PaymentsContext \<Rightarrow> SendOpts \<Rightarrow> ('w, SendResult) prog" where
  "send_payment ctx opts =
     bnd (of_res (requireSigner (pay_signer ctx))) (\<lambda>signer.
     bnd (of_res (resolveMemo (so_to opts) (so_memo opts))) (\<lambda>memo.
     bnd (prepareTransfer ctx (so_to opts)) (\<lambda>stealth.
     bnd (of_res (parseXlmToStroops (so_amountXlm opts))) (\<lambda>amountStroops.
     bnd (sendNativeTransfer ctx \<lparr>nt_destination = ss_stealthStellarAddress stealth, nt_amountStroops = amountStroops,
            nt_signer = signer, nt_feePerOperation = so_feePerOperation opts, nt_memo = memo\<rparr>) (\<lambda>paymentTxHash.
     bnd (try_catch (announce_transfer ctx signer stealth) (\<lambda>err.
            throw (new_UnannouncedPaymentError paymentTxHash (so_to opts) (ss_stealthAddress stealth)
              (ss_ephemeralPubKey stealth) (ss_metadata stealth) amountStroops))) (\<lambda>announceTxHash.
     ret \<lparr>sr_stealthStellarAddress = ss_stealthStellarAddress stealth, sr_ephemeralPubKey = ss_ephemeralPubKey stealth,
          sr_paymentTxHash = paymentTxHash, sr_announceTxHash = announceTxHash\<rparr>))))))"

definition announcePaidTransfer ::
  "('w, 'v, 'p, 'k) PaymentsContext \<Rightarrow> byte list \<times> byte list \<times> byte list \<Rightarrow> ('w, string) prog" where
  "announcePaidTransfer ctx params =
     (case params of (stealthAddress, ephemeralPubKey, metadata) \<Rightarrow>
       bnd (of_res (requireSigner (pay_signer ctx))) (\<lambda>signer.
       announce (pay_announcer ctx) stealthAddress ephemeralPubKey metadata None signer))"

definition pay_sweep ::
  "('w, 'v, 'p, 'k) PaymentsContext \<Rightarrow> byte list \<Rightarrow> string \<Rightarrow> int \<Rightarrow> TransferMemo option \<Rightarrow> string option \<Rightarrow> ('w, string) prog" where
  "pay_sweep ctx stealthPrivKey destination amountStroops memo feePerOperation =
     bnd (of_res (resolveMemo destination memo)) (\<lambda>m.
     bnd (of_res (deriveStealthStellarKeypairFromStealthPrivKey (pay_curve ctx) stealthPrivKey)) (\<lambda>keypair.
     sendNativeTransfer ctx \<lparr>nt_destination = destination, nt_amountStroops = amountStroops,
       nt_signer = keypairSigner (kp_address (pay_curve ctx)) (pay_sign ctx) keypair, nt_feePerOperation = feePerOperation, nt_memo = m\<rparr>))"

definition sweepWithMerge :: "('w, 'v, 'p, 'k) PaymentsContext \<Rightarrow> byte list \<Rightarrow> string \<Rightarrow> ('w, string) prog" where
  "sweepWithMerge ctx stealthPrivKey destination =
     bnd (of_res (deriveStealthStellarKeypairFromStealthPrivKey (pay_curve ctx) stealthPrivKey)) (\<lambda>keypair.
     accountMerge ctx (keypairSigner (kp_address (pay_curve ctx)) (pay_sign ctx) keypair) destination)"

definition pay_scan :: "('p, 'k) curve_lib \<Rightarrow> StealthAnnouncement list \<Rightarrow> StealthIdentity \<Rightarrow> ScanMatch list res" where
  "pay_scan L announcements identity = scanAnnouncements L announcements (id_viewingKey identity) (id_spendingKey identity)"

text \<open>
  The client: payments are wired to the RPC client, or to a custom invoker without transfers.
\<close>

definition client_transfers ::
  "('w, 'a, 'v, 't) stellar_net option \<Rightarrow> 'w RpcClientOptions \<Rightarrow>
   ('w NativeTransfer \<Rightarrow> ('w, string) prog) option \<times> ('w OpaqueSigner \<Rightarrow> string \<Rightarrow> ('w, string) prog) option" where
  "client_transfers net C =
     (case net of None \<Rightarrow> (None, None) | Some N \<Rightarrow> (Some (rpc_sendNativeTransfer N C), Some (rpc_accountMerge N C)))"

definition feeBumpTransaction ::
  "('w, 'a, 'v, 't) stellar_net option \<Rightarrow> 'w RpcClientOptions \<Rightarrow> 'w OpaqueSigner \<Rightarrow> string \<Rightarrow> string \<Rightarrow> ('w, string) prog" where
  "feeBumpTransaction net C feeSigner innerTransactionXdr feePerOperation =
     (case net of
        None \<Rightarrow> throw (RpcError ''Fee bumps require the built-in RpcClient (unavailable with a custom invoker).'' None)
      | Some N \<Rightarrow> rpc_feeBumpTransaction N C feeSigner innerTransactionXdr feePerOperation)"

end
