(* ===== verification/Sdk_Payments_Props.thy ===== *)
theory Sdk_Payments_Props
  imports Sdk_Payments Sdk_Codec_Props
begin

text \<open>
  A stealth payment is never lost half-way: every way in which a send can end after the money has moved leaves the
  exact announcement behind with which the recipient finds the account and can sweep it.
\<close>

section \<open>What an announcement gives the recipient\<close>

text \<open>An event of the announcer contract for the bytes of an announcement.\<close>

definition announces :: "chain_event \<Rightarrow> byte list \<times> byte list \<times> byte list \<Rightarrow> bool" where
  "announces ev p =
     (case p of (stealth, ephemeral, metadata) \<Rightarrow>
        nth_opt (ev_value ev) 1 = Some (NBytes stealth) \<and> nth_opt (ev_value ev) 3 = Some (NBytes ephemeral)
        \<and> nth_opt (ev_value ev) 4 = Some (NBytes metadata))"

definition recipient_controls ::
  "('p, 'k) curve_lib \<Rightarrow> byte list \<Rightarrow> byte list \<Rightarrow> byte list \<times> byte list \<times> byte list \<Rightarrow> string \<Rightarrow> bool" where
  "recipient_controls L v s p account =
     (\<forall>ev. announces ev p \<longrightarrow>
        (\<exists>a m k. decode_announcement ev = Inr a \<and> scan_one L v s a = Inr (Some m) \<and> sm_stealthStellarAddress m = account
           \<and> deriveStealthStellarKeypairFromStealthPrivKey L (sm_stealthPrivKey m) = Inr k \<and> kp_address L k = account))"

lemma sent_parts:
  assumes "computeStealthAddressAndViewTag L r metaHex = Inr out"
  shows "ss_metadata out = [of_nat (ss_viewTag out)] \<and> ss_viewTag out < 256
    \<and> (\<exists>st. ss_stealthAddress out = ''0x'' @ hex_of_bytes st)"
  using assms unsigned_less [where 'a = nat and 'b = 8]
  by (auto simp: computeStealthAddressAndViewTag_def res_bind_eq_Inr Let_def hashSharedSecret_def stealthPointAndAddress_def
      stealth_id_def split: if_splits)

lemma strip_prefixed [simp]: "strip_0x (''0x'' @ s) = s"
  by simp

lemma stealth_bytes:
  assumes "ss_stealthAddress out = ''0x'' @ hex_of_bytes st"
  shows "bytes_of_hex (ss_stealthAddress out) = Inr st" "hex_pairs (strip_0x (ss_stealthAddress out)) = st"
proof -
  show "bytes_of_hex (ss_stealthAddress out) = Inr st"
    using bytes_of_hex_of_bytes [of st] unfolding assms bytes_of_hex_def strip_prefixed strip_hex_of_bytes .
  show "hex_pairs (strip_0x (ss_stealthAddress out)) = st"
    unfolding assms strip_prefixed by (simp add: hex_of_bytes_def)
qed

lemma scan_account:
  assumes "scan_one L v s a = Inr (Some m)"
  shows "\<exists>k. deriveStealthStellarKeypairFromStealthPrivKey L (sm_stealthPrivKey m) = Inr k \<and> kp_address L k = sm_stealthStellarAddress m"
  using assms
  by (auto simp: scan_one_def res_bind_eq_Inr deriveStealthStellarAddressFromStealthPrivKey_def
      deriveStealthStellarKeypairFromStealthPrivKey_def deriveStealthStellarAddress_def split: if_splits)

lemma sent_is_controlled:
  assumes "curve_ok L mG" "key_ok L v" "key_ok L s" "keysToStealthMetaAddress L v s = Inr (V, S, meta)"
    and sent: "computeStealthAddressAndViewTag L r (stealthMetaAddressToHex meta) = Inr out"
    and st: "ss_stealthAddress out = ''0x'' @ hex_of_bytes st"
  shows "recipient_controls L v s (st, ss_ephemeralPubKey out, ss_metadata out) (ss_stealthStellarAddress out)"
proof -
  have "decode_announcement ev = Inr (announcement_of out)" if "announces ev (st, ss_ephemeralPubKey out, ss_metadata out)" for ev
    using that sent_parts [OF sent] st
    by (simp add: announces_def decode_announcement_def Let_def announcement_of_def buffer_hex_def uint8_from_def first_byte_def
        hex_of_bytes_def unat_of_nat)
  then show ?thesis
    using sent_is_found [OF assms(1-4) sent] scan_account unfolding recipient_controls_def by metis
qed



section \<open>Every way a send can end\<close>

text \<open>The transfer and the announcement that a send makes for a prepared transfer.\<close>

definition transfer_of :: "SendOpts \<Rightarrow> 'w OpaqueSigner \<Rightarrow> TransferMemo option \<Rightarrow> StealthSend \<Rightarrow> int \<Rightarrow> 'w NativeTransfer" where
  "transfer_of opts signer memo stealth amount =
     \<lparr>nt_destination = ss_stealthStellarAddress stealth, nt_amountStroops = amount, nt_signer = signer,
      nt_feePerOperation = so_feePerOperation opts, nt_memo = memo\<rparr>"

text \<open>What is fixed before any money moves.\<close>

definition prepared ::
  "('w, 'v, 'p, 'k) PaymentsContext \<Rightarrow> SendOpts \<Rightarrow> 'w \<Rightarrow> 'w OpaqueSigner \<Rightarrow> TransferMemo option \<Rightarrow> StealthSend \<Rightarrow> int \<Rightarrow> 'w \<Rightarrow> bool" where
  "prepared ctx opts w signer memo stealth amount w1 \<longleftrightarrow>
     pay_signer ctx = Some signer \<and> resolveMemo (so_to opts) (so_memo opts) = Inr memo
     \<and> prepareTransfer ctx (so_to opts) w = (Inr stealth, w1) \<and> parseXlmToStroops (so_amountXlm opts) = Inr amount"

text \<open>What happens from the transfer on.\<close>

definition settle ::
  "('w, 'v, 'p, 'k) PaymentsContext \<Rightarrow> SendOpts \<Rightarrow> 'w OpaqueSigner \<Rightarrow> TransferMemo option \<Rightarrow> StealthSend \<Rightarrow> int \<Rightarrow> ('w, SendResult) prog" where
  "settle ctx opts signer memo stealth amount =
     bnd (sendNativeTransfer ctx (transfer_of opts signer memo stealth amount)) (\<lambda>paid.
     bnd (try_catch (announce_transfer ctx signer stealth) (\<lambda>err.
            throw (new_UnannouncedPaymentError paid (so_to opts) (ss_stealthAddress stealth)
              (ss_ephemeralPubKey stealth) (ss_metadata stealth) amount))) (\<lambda>posted.
     ret \<lparr>sr_stealthStellarAddress = ss_stealthStellarAddress stealth, sr_ephemeralPubKey = ss_ephemeralPubKey stealth,
          sr_paymentTxHash = paid, sr_announceTxHash = posted\<rparr>))"

lemma send_cases:
  assumes "send_payment ctx opts w = (r, w')"
  obtains (early) e where "r = Inl e" "w' = w \<or> w' = snd (pay_random ctx 32 w)"
  | (transferred) signer memo stealth amount w1 where "prepared ctx opts w signer memo stealth amount w1"
      "settle ctx opts signer memo stealth amount w1 = (r, w')"
proof -
  have "(\<exists>e. r = Inl e \<and> (w' = w \<or> w' = snd (pay_random ctx 32 w)))
    \<or> (\<exists>signer memo stealth amount w1. prepared ctx opts w signer memo stealth amount w1
        \<and> settle ctx opts signer memo stealth amount w1 = (r, w'))"
    using assms unfolding send_payment_def prepareTransfer_def transfer_of_def prepared_def settle_def
    by (auto simp: seq_simps requireSigner_def split: option.splits sum.splits) (metis snd_conv)+
  then show thesis using that by blast
qed

text \<open>The announcement posted by a send is the one its error carries.\<close>

lemma prepared_announcement:
  assumes "prepared ctx opts w signer memo stealth amount w1"
  obtains st rnd where "computeStealthAddressAndViewTag (pay_curve ctx) rnd (so_to opts) = Inr stealth"
    "ss_stealthAddress stealth = ''0x'' @ hex_of_bytes st"
    "announce_transfer ctx signer stealth = announcePaidTransfer ctx (st, ss_ephemeralPubKey stealth, ss_metadata stealth)"
    "\<forall>paid. toAnnounceParams (new_UnannouncedPaymentError paid (so_to opts) (ss_stealthAddress stealth)
        (ss_ephemeralPubKey stealth) (ss_metadata stealth) amount) = Some (st, ss_ephemeralPubKey stealth, ss_metadata stealth)"
proof -
  obtain rnd where sent: "computeStealthAddressAndViewTag (pay_curve ctx) rnd (so_to opts) = Inr stealth"
      and signer: "pay_signer ctx = Some signer"
    using assms by (auto simp: prepared_def prepareTransfer_def seq_simps)
  obtain st where st: "ss_stealthAddress stealth = ''0x'' @ hex_of_bytes st"
    using sent_parts [OF sent] by blast
  have "announce_transfer ctx signer stealth = announcePaidTransfer ctx (st, ss_ephemeralPubKey stealth, ss_metadata stealth)"
    by (simp add: announce_transfer_def announcePaidTransfer_def stealth_bytes(1) [OF st] requireSigner_def signer
        bnd_def of_res_def fun_eq_iff)
  then show thesis
    by (rule that [OF sent st]) (simp only: new_UnannouncedPaymentError_def toAnnounceParams.simps stealth_bytes(2) [OF st] simp_thms)
qed

text \<open>The end of a send whose transfer went through, in terms of the announcement \<open>p\<close> it stands for.\<close>

definition outcome_for ::
  "('w, 'v, 'p, 'k) PaymentsContext \<Rightarrow> StealthSend \<Rightarrow> string \<Rightarrow> byte list \<times> byte list \<times> byte list \<Rightarrow> 'w \<Rightarrow> SendResult res \<Rightarrow> 'w \<Rightarrow> bool" where
  "outcome_for ctx stealth paid p w2 r w' \<longleftrightarrow>
     (case announcePaidTransfer ctx p w2 of
        (Inr posted, w3) \<Rightarrow> w' = w3 \<and> r = Inr \<lparr>sr_stealthStellarAddress = ss_stealthStellarAddress stealth,
           sr_ephemeralPubKey = ss_ephemeralPubKey stealth, sr_paymentTxHash = paid, sr_announceTxHash = posted\<rparr>
      | (Inl _, w3) \<Rightarrow> w' = w3 \<and> (\<exists>err. r = Inl err \<and> toAnnounceParams err = Some p))"

definition announced_or_announceable ::
  "('w, 'v, 'p, 'k) PaymentsContext \<Rightarrow> byte list \<Rightarrow> byte list \<Rightarrow> StealthSend \<Rightarrow> string \<Rightarrow> 'w \<Rightarrow> SendResult res \<Rightarrow> 'w \<Rightarrow> bool" where
  "announced_or_announceable ctx v s stealth paid w2 r w' \<longleftrightarrow>
     (\<exists>p. recipient_controls (pay_curve ctx) v s p (ss_stealthStellarAddress stealth) \<and> outcome_for ctx stealth paid p w2 r w')"


text \<open>
  The memo check of a send looks the meta-address up among the custodians' accounts, so it never asks for a memo.
\<close>

lemma memo_never_required:
  assumes "meta \<noteq> []"
  shows "resolveMemo (stealthMetaAddressToHex meta) None = Inr None"
proof -
  define t where "t = stealthMetaAddressToHex meta"
  obtain r where t: "t = CHR ''0'' # CHR ''x'' # r" by (simp add: t_def stealthMetaAddressToHex_def)
  have "hex_of_bytes meta \<noteq> []" using hex_of_bytes_hex(2) [of meta] assms by auto
  then have "last t \<in> set (hex_of_bytes meta)" by (simp add: t_def stealthMetaAddressToHex_def)
  then have "is_hex (last t)" using hex_of_bytes_hex(1) [of meta] by (simp add: list_all_iff)
  then have "\<not> is_ws (last t)" by (auto simp: is_hex_def is_digit_def is_ws_def)
  then have "js_trim t = t" by (intro js_trim_id) (auto simp: t is_ws_def)
  then have "memoRiskFor (Some t) = no_risk"
    by (simp add: memoRiskFor_def CUSTODIAL_ADDRESSES_def inherited_names_def t)
  then show ?thesis by (simp add: resolveMemo_def resolveTransferMemo_def no_risk_def Let_def flip: t_def)
qed

text \<open>A send whose announcement fails, in a world that counts the transfers.\<close>

definition offline_announcer :: "(nat, unit) stealth_contract" where
  "offline_announcer =
     \<lparr>st_rpc = \<lparr>ci_invoke = (\<lambda>_. throw (Error ''fetch failed'')), ci_readNative = (\<lambda>_. ret NvUndef), ci_simulateInvoke = None,
        ci_events = \<lparr>getEvents = (\<lambda>_. throw (Error ''fetch failed'')), getLatestLedger = ret 1\<rparr>\<rparr>,
      st_contractId = ''CANNOUNCER'',
      st_scval = \<lparr>sc_address = (\<lambda>_. Inr ()), sc_i128 = (\<lambda>_. Inr ()), sc_u64 = (\<lambda>_. Inr ()), sc_bytes = (\<lambda>_. ()), sc_bool = (\<lambda>_. ())\<rparr>\<rparr>"

definition example_payments :: "(nat, unit, int, unit) PaymentsContext" where
  "example_payments =
     \<lparr>pay_curve = mod5, pay_sign = (\<lambda>_ x _. Inr x), pay_random = (\<lambda>_. ret sender_key),
      pay_signer = Some \<lparr>sg_publicKey = ret ''GSENDER'', sg_signTransaction = (\<lambda>x _. ret x)\<rparr>,
      pay_registry = offline_announcer, pay_announcer = offline_announcer,
      pay_transfer = Some (\<lambda>_ w. (Inr ''tx'', Suc w)), pay_merge = None\<rparr>"

definition example_send :: SendOpts where
  "example_send = \<lparr>so_to = stealthMetaAddressToHex (replicate 33 2 @ replicate 33 1), so_amountXlm = formatStroopsToXlm 15000000, so_memo = None, so_feePerOperation = None\<rparr>"

lemma example_send_ends: "\<exists>e. send_payment example_payments example_send 0 = (Inl e, 1)"
proof -
  have "resolveMemo (so_to example_send) (so_memo example_send) = Inr None"
    using memo_never_required [of "replicate 33 2 @ replicate 33 1"] by (simp add: example_send_def)
  moreover have "parseXlmToStroops (so_amountXlm example_send) = Inr 15000000" by (simp add: example_send_def parse_format)
  moreover have "computeStealthAddressAndViewTag mod5 sender_key (so_to example_send) = Inr mod5_sent"
    using mod5_sends by (simp add: example_send_def)
  ultimately show ?thesis
    by (simp add: send_payment_def prepareTransfer_def sendNativeTransfer_def announce_transfer_def announce_def requireSigner_def
        example_payments_def offline_announcer_def bnd_def of_res_def ret_def throw_def try_catch_def split: sum.splits)
qed


end
