(* ===== verification/Sdk_Registry.thy ===== *)
theory Sdk_Registry
  imports Sdk_Pool
begin

text \<open>
  The binding of the relayer-registry contract (\<open>sdk/src/contracts/relayer.ts\<close>): the reads, the operator's
  and the wallet's calls, administration and slashing. Conversions to contract values belong to the Stellar SDK and
  extend the parameter \<open>scval_lib\<close>. Fields that the source casts without converting stay native values.
\<close>

record 'v registry_scval = "'v scval_lib" +
  sc_u32 :: "int \<Rightarrow> 'v res"
  sc_string :: "string \<Rightarrow> 'v"
  sc_symbol :: "string \<Rightarrow> 'v"
  sc_vec :: "'v list \<Rightarrow> 'v"
  sc_map :: "('v \<times> 'v) list \<Rightarrow> 'v"

record ('w, 'v) RelayerRegistry =
  rr_rpc :: "('w, 'v) ContractInvoker"
  rr_contractId :: string
  rr_scval :: "'v registry_scval"

definition structToScVal :: "'v registry_scval \<Rightarrow> (string \<times> 'v) list \<Rightarrow> 'v" where
  "structToScVal S members = sc_map S (map (\<lambda>(key, val). (sc_string S key, val)) members)"

definition enumVariantToScVal :: "'v registry_scval \<Rightarrow> string \<Rightarrow> 'v" where
  "enumVariantToScVal S variant = sc_vec S [sc_symbol S variant]"

text \<open>The result is undefined where the source gives \<open>null\<close>.\<close>

definition optionFromNative :: "native_value \<Rightarrow> native_value" where
  "optionFromNative raw = (case raw of NvArr [] \<Rightarrow> NvUndef | NvArr (x # _) \<Rightarrow> x | _ \<Rightarrow> raw)"

text \<open>\<open>Uint8Array.from(v)\<close>: elements are read as numbers and cut to eight bits.\<close>

definition to_uint8 :: "js_number \<Rightarrow> byte" where
  "to_uint8 n = (case n of None \<Rightarrow> 0 | Some r \<Rightarrow> word_of_int (if r < 0 then \<lceil>r\<rceil> else \<lfloor>r\<rfloor>))"

definition nv_bytes :: "native_value \<Rightarrow> byte list res" where
  "nv_bytes v =
     (case v of
        NvUndef \<Rightarrow> Inl (TypeError ''undefined is not an object'')
      | NvBytes bs \<Rightarrow> Inr bs
      | NvArr vs \<Rightarrow> Inr (map (to_uint8 \<circ> nv_Number) vs)
      | NvStr s \<Rightarrow> Inr (map (\<lambda>c. to_uint8 (js_Number_str [c])) s)
      | _ \<Rightarrow> Inr [])"


section \<open>Records\<close>

record RegistryConfig =
  rg_admin :: native_value
  rg_nativeSac :: native_value
  rg_privacyPool :: native_value
  rg_minimumStake :: int
  rg_unstakeCooldownLedgers :: js_number
  rg_maxDeadlineLedgers :: js_number

record RelayerRecord =
  rl_operator :: native_value
  rl_x25519Pubkey :: "byte list"
  rl_endpoint :: native_value
  rl_freeStake :: int
  rl_bondedStake :: int
  rl_pendingUnstake :: int
  rl_unstakeUnlockLedger :: js_number

record JobRecord =
  jr_creator :: native_value
  jr_payloadHash :: "byte list"
  jr_fee :: int
  jr_deadlineLedger :: js_number
  jr_acceptedRelayer :: native_value
  jr_status :: js_number
  jr_createdLedger :: js_number
  jr_submittedLedger :: js_number

record UnbondingStatus =
  ub_pendingUnstake :: int
  ub_unstakeUnlockLedger :: js_number
  ub_isUnlockable :: bool

datatype SlashableOffense = DoubleSign | InvalidSignature

fun offense_name :: "SlashableOffense \<Rightarrow> string" where
  "offense_name DoubleSign = ''DoubleSign''"
| "offense_name InvalidSignature = ''InvalidSignature''"

record SlashingProof =
  sp_relayer :: string
  sp_offense :: SlashableOffense
  sp_evidence :: "byte list"
  sp_timestamp :: int
  sp_reporter :: string

record RelayerSlashRecord =
  sl_relayer :: native_value
  sl_totalSlashed :: int
  sl_slashCount :: js_number
  sl_lastSlashTime :: int

record JobStatus =
  js_open :: js_number
  js_accepted :: js_number
  js_submitted :: js_number
  js_slashed :: js_number
  js_canceled :: js_number

definition JOB_STATUS :: "(string \<times> nat) list" where
  "JOB_STATUS = [(''OPEN'', 0), (''ACCEPTED'', 1), (''SUBMITTED'', 2), (''SLASHED'', 3), (''CANCELED'', 4)]"


section \<open>Calls and reads\<close>

definition reg_invoke :: "('w, 'v) RelayerRegistry \<Rightarrow> string \<Rightarrow> string \<Rightarrow> 'v list \<Rightarrow> 'w OpaqueSigner \<Rightarrow> ('w, string) prog" where
  "reg_invoke R method source args signer =
     ci_invoke (rr_rpc R) \<lparr>io_source = source, io_contractId = rr_contractId R, io_method = method, io_args = args,
       io_signer = signer, io_skipSimulation = False, io_contractPackage = Some ''relayer-registry''\<rparr>"

definition reg_read :: "('w, 'v) RelayerRegistry \<Rightarrow> string \<Rightarrow> string \<Rightarrow> 'v list \<Rightarrow> ('w, native_value) prog" where
  "reg_read R method source args =
     ci_readNative (rr_rpc R) \<lparr>ro_source = source, ro_contractId = rr_contractId R, ro_method = method, ro_args = args\<rparr>"

text \<open>Arguments are converted in order; the first that fails makes the call throw before it is sent.\<close>

fun convert_all :: "'v res list \<Rightarrow> 'v list res" where
  "convert_all [] = Inr []"
| "convert_all (r # rs) = res_bind r (\<lambda>x. res_bind (convert_all rs) (\<lambda>xs. Inr (x # xs)))"

definition reg_call ::
  "('w, 'v) RelayerRegistry \<Rightarrow> string \<Rightarrow> string \<Rightarrow> 'v res list \<Rightarrow> 'w OpaqueSigner \<Rightarrow> ('w, string) prog" where
  "reg_call R method source args signer = bnd (of_res (convert_all args)) (\<lambda>vs. reg_invoke R method source vs signer)"

definition reg_version :: "('w, 'v) RelayerRegistry \<Rightarrow> string \<Rightarrow> ('w, js_number) prog" where
  "reg_version R source = bnd (reg_read R ''version'' source []) (\<lambda>v. ret (nv_Number v))"

text \<open>\<open>raw.key\<close> as a number or a big integer.\<close>

definition nv_num_field :: "native_value \<Rightarrow> string \<Rightarrow> js_number res" where
  "nv_num_field raw key = res_bind (nv_get raw key) (\<lambda>v. Inr (nv_Number v))"

definition nv_big_field :: "native_value \<Rightarrow> string \<Rightarrow> int res" where
  "nv_big_field raw key = res_bind (nv_get raw key) nv_BigInt"

definition reg_getConfig :: "('w, 'v) RelayerRegistry \<Rightarrow> string \<Rightarrow> ('w, RegistryConfig) prog" where
  "reg_getConfig R source =
     bnd (reg_read R ''get_config'' source []) (\<lambda>raw. of_res (
       res_bind (nv_get raw ''admin'') (\<lambda>admin.
       res_bind (nv_get raw ''native_sac'') (\<lambda>sac.
       res_bind (nv_get raw ''privacy_pool'') (\<lambda>pool.
       res_bind (nv_big_field raw ''minimum_stake'') (\<lambda>stake.
       res_bind (nv_num_field raw ''unstake_cooldown_ledgers'') (\<lambda>cooldown.
       res_bind (nv_num_field raw ''max_deadline_ledgers'') (\<lambda>deadline.
         Inr \<lparr>rg_admin = admin, rg_nativeSac = sac, rg_privacyPool = pool, rg_minimumStake = stake,
              rg_unstakeCooldownLedgers = cooldown, rg_maxDeadlineLedgers = deadline\<rparr>))))))))"

definition reg_getRelayer :: "('w, 'v) RelayerRegistry \<Rightarrow> string \<Rightarrow> string \<Rightarrow> ('w, RelayerRecord) prog" where
  "reg_getRelayer R source operator =
     bnd (of_res (sc_address (rr_scval R) operator)) (\<lambda>a.
     bnd (reg_read R ''get_relayer'' source [a]) (\<lambda>raw. of_res (
       res_bind (nv_get raw ''operator'') (\<lambda>op.
       res_bind (res_bind (nv_get raw ''x25519_pubkey'') nv_bytes) (\<lambda>pk.
       res_bind (nv_get raw ''endpoint'') (\<lambda>endpoint.
       res_bind (nv_big_field raw ''free_stake'') (\<lambda>free.
       res_bind (nv_big_field raw ''bonded_stake'') (\<lambda>bonded.
       res_bind (nv_big_field raw ''pending_unstake'') (\<lambda>pending.
       res_bind (nv_num_field raw ''unstake_unlock_ledger'') (\<lambda>unlock.
         Inr \<lparr>rl_operator = op, rl_x25519Pubkey = pk, rl_endpoint = endpoint, rl_freeStake = free,
              rl_bondedStake = bonded, rl_pendingUnstake = pending, rl_unstakeUnlockLedger = unlock\<rparr>))))))))))"

text \<open>\<open>raw[i]\<close> of a tuple; reading an element of \<open>undefined\<close> throws.\<close>

definition nv_index :: "native_value \<Rightarrow> nat \<Rightarrow> native_value res" where
  "nv_index v i =
     (case v of
        NvUndef \<Rightarrow> Inl (TypeError (''Cannot read properties of undefined (reading '' @ dec_of_nat i @ '')''))
      | NvArr vs \<Rightarrow> Inr (if i < length vs then vs ! i else NvUndef)
      | _ \<Rightarrow> Inr NvUndef)"

definition reg_getUnbondingStatus :: "('w, 'v) RelayerRegistry \<Rightarrow> string \<Rightarrow> string \<Rightarrow> ('w, UnbondingStatus) prog" where
  "reg_getUnbondingStatus R source operator =
     bnd (of_res (sc_address (rr_scval R) operator)) (\<lambda>a.
     bnd (reg_read R ''get_unbonding_status'' source [a]) (\<lambda>raw. of_res (
       res_bind (res_bind (nv_index raw 0) nv_BigInt) (\<lambda>pending.
       res_bind (nv_index raw 1) (\<lambda>unlock.
       res_bind (nv_index raw 2) (\<lambda>ready.
         Inr \<lparr>ub_pendingUnstake = pending, ub_unstakeUnlockLedger = nv_Number unlock, ub_isUnlockable = nv_Boolean ready\<rparr>))))))"

definition reg_getJob :: "('w, 'v) RelayerRegistry \<Rightarrow> string \<Rightarrow> byte list \<Rightarrow> ('w, JobRecord) prog" where
  "reg_getJob R source jobId =
     bnd (reg_read R ''get_job'' source [sc_bytes (rr_scval R) jobId]) (\<lambda>raw. of_res (
       res_bind (nv_get raw ''creator'') (\<lambda>creator.
       res_bind (res_bind (nv_get raw ''payload_hash'') nv_bytes) (\<lambda>hash.
       res_bind (nv_big_field raw ''fee'') (\<lambda>fee.
       res_bind (nv_num_field raw ''deadline_ledger'') (\<lambda>deadline.
       res_bind (nv_get raw ''accepted_relayer'') (\<lambda>accepted.
       res_bind (nv_num_field raw ''status'') (\<lambda>status.
       res_bind (nv_num_field raw ''created_ledger'') (\<lambda>created.
       res_bind (nv_num_field raw ''submitted_ledger'') (\<lambda>submitted.
         Inr \<lparr>jr_creator = creator, jr_payloadHash = hash, jr_fee = fee, jr_deadlineLedger = deadline,
              jr_acceptedRelayer = optionFromNative accepted, jr_status = status, jr_createdLedger = created,
              jr_submittedLedger = submitted\<rparr>))))))))))"

text \<open>The eleven arguments that describe a pool withdrawal, in the order of the contract.\<close>

definition withdraw_terms :: "'v registry_scval \<Rightarrow> PoolWithdrawInputs \<Rightarrow> 'v res list" where
  "withdraw_terms S i =
     (let p = pw_proof i in
      [Inr (sc_bytes S (wp_proofA p)), Inr (sc_bytes S (wp_proofB p)), Inr (sc_bytes S (wp_proofC p)), sc_i128 S (wp_withdrawnValue p),
       Inr (sc_bytes S (wp_stateRoot p)), Inr (sc_bytes S (wp_aspRoot p)), Inr (sc_bytes S (wp_nullifierHash p)),
       Inr (sc_bytes S (wp_newCommitment p)), sc_address S (pw_recipient i), sc_i128 S (pw_fee i), sc_address S (pw_relayer i)])"

definition reg_hashPoolWithdrawPayload :: "('w, 'v) RelayerRegistry \<Rightarrow> string \<Rightarrow> PoolWithdrawInputs \<Rightarrow> ('w, byte list) prog" where
  "reg_hashPoolWithdrawPayload R source terms =
     bnd (of_res (convert_all (withdraw_terms (rr_scval R) terms))) (\<lambda>args.
     bnd (reg_read R ''hash_pool_withdraw_payload'' source args) (\<lambda>v. of_res (nv_bytes v)))"

definition read_status :: "('w, 'v) RelayerRegistry \<Rightarrow> string \<Rightarrow> string \<Rightarrow> ('w, js_number) prog" where
  "read_status R source method =
     bnd (reg_read R method source []) (\<lambda>v. ret (if v = NvUndef then Some (-1) else nv_Number v))"

definition readJobStatuses :: "('w, 'v) RelayerRegistry \<Rightarrow> string \<Rightarrow> ('w, JobStatus) prog" where
  "readJobStatuses R source =
     bnd (read_status R source ''status_open'') (\<lambda>a.
     bnd (read_status R source ''status_accepted'') (\<lambda>b.
     bnd (read_status R source ''status_submitted'') (\<lambda>c.
     bnd (read_status R source ''status_slashed'') (\<lambda>d.
     bnd (read_status R source ''status_canceled'') (\<lambda>e.
       ret \<lparr>js_open = a, js_accepted = b, js_submitted = c, js_slashed = d, js_canceled = e\<rparr>)))))"

definition getSlashingRecord :: "('w, 'v) RelayerRegistry \<Rightarrow> string \<Rightarrow> string \<Rightarrow> ('w, RelayerSlashRecord option) prog" where
  "getSlashingRecord R source relayer =
     bnd (of_res (sc_address (rr_scval R) relayer)) (\<lambda>a.
     bnd (reg_read R ''get_slashing_record'' source [a]) (\<lambda>raw.
       let r = optionFromNative raw in
       if \<not> nv_Boolean r then ret None
       else of_res (
         res_bind (nv_get r ''relayer'') (\<lambda>who.
         res_bind (nv_big_field r ''total_slashed'') (\<lambda>total.
         res_bind (nv_num_field r ''slash_count'') (\<lambda>count.
         res_bind (nv_big_field r ''last_slash_time'') (\<lambda>time.
           Inr (Some \<lparr>sl_relayer = who, sl_totalSlashed = total, sl_slashCount = count, sl_lastSlashTime = time\<rparr>))))))))"

definition getSlashingPercentage :: "('w, 'v) RelayerRegistry \<Rightarrow> string \<Rightarrow> string \<Rightarrow> ('w, js_number) prog" where
  "getSlashingPercentage R source relayer =
     bnd (of_res (sc_address (rr_scval R) relayer)) (\<lambda>a.
     bnd (reg_read R ''get_slashing_percentage'' source [a]) (\<lambda>v. ret (nv_Number v)))"


section \<open>The operator's calls\<close>

definition reg_register ::
  "('w, 'v) RelayerRegistry \<Rightarrow> byte list \<Rightarrow> string \<Rightarrow> int \<Rightarrow> string option \<Rightarrow> 'w OpaqueSigner \<Rightarrow> ('w, string) prog" where
  "reg_register R x25519Pubkey endpoint stake operator signer =
     bnd (case operator of Some op \<Rightarrow> ret op | None \<Rightarrow> sg_publicKey signer) (\<lambda>op.
     reg_call R ''register'' op
       [sc_address (rr_scval R) op, Inr (sc_bytes (rr_scval R) x25519Pubkey), Inr (sc_string (rr_scval R) endpoint),
        sc_i128 (rr_scval R) stake] signer)"

definition reg_addStake :: "('w, 'v) RelayerRegistry \<Rightarrow> int \<Rightarrow> 'w OpaqueSigner \<Rightarrow> ('w, string) prog" where
  "reg_addStake R amount signer =
     bnd (sg_publicKey signer) (\<lambda>op. reg_call R ''add_stake'' op [sc_address (rr_scval R) op, sc_i128 (rr_scval R) amount] signer)"

definition reg_requestUnstake :: "('w, 'v) RelayerRegistry \<Rightarrow> int \<Rightarrow> 'w OpaqueSigner \<Rightarrow> ('w, string) prog" where
  "reg_requestUnstake R amount signer =
     bnd (sg_publicKey signer) (\<lambda>op. reg_call R ''request_unstake'' op [sc_address (rr_scval R) op, sc_i128 (rr_scval R) amount] signer)"

definition reg_withdrawStake :: "('w, 'v) RelayerRegistry \<Rightarrow> 'w OpaqueSigner \<Rightarrow> ('w, string) prog" where
  "reg_withdrawStake R signer =
     bnd (sg_publicKey signer) (\<lambda>op. reg_call R ''withdraw_stake'' op [sc_address (rr_scval R) op] signer)"

definition reg_acceptJob :: "('w, 'v) RelayerRegistry \<Rightarrow> byte list \<Rightarrow> 'w OpaqueSigner \<Rightarrow> ('w, string) prog" where
  "reg_acceptJob R jobId signer =
     bnd (sg_publicKey signer) (\<lambda>op.
       reg_call R ''accept_job'' op [sc_address (rr_scval R) op, Inr (sc_bytes (rr_scval R) jobId)] signer)"

definition reg_submitPoolWithdraw ::
  "('w, 'v) RelayerRegistry \<Rightarrow> byte list \<Rightarrow> PoolWithdrawInputs \<Rightarrow> 'w OpaqueSigner \<Rightarrow> ('w, string) prog" where
  "reg_submitPoolWithdraw R jobId terms signer =
     bnd (sg_publicKey signer) (\<lambda>op.
       reg_call R ''submit_pool_withdraw'' op
         (sc_address (rr_scval R) op # Inr (sc_bytes (rr_scval R) jobId) # withdraw_terms (rr_scval R) terms) signer)"


section \<open>The wallet's calls, administration and slashing\<close>

definition reg_createJob ::
  "('w, 'v) RelayerRegistry \<Rightarrow> byte list \<Rightarrow> byte list \<Rightarrow> int \<Rightarrow> int \<Rightarrow> 'w OpaqueSigner \<Rightarrow> ('w, string) prog" where
  "reg_createJob R jobId payloadHash deadlineLedger fee signer =
     bnd (sg_publicKey signer) (\<lambda>creator.
       reg_call R ''create_job'' creator
         [sc_address (rr_scval R) creator, Inr (sc_bytes (rr_scval R) jobId), Inr (sc_bytes (rr_scval R) payloadHash),
          sc_u32 (rr_scval R) deadlineLedger, sc_i128 (rr_scval R) fee] signer)"

definition jobAction :: "('w, 'v) RelayerRegistry \<Rightarrow> string \<Rightarrow> byte list \<Rightarrow> 'w OpaqueSigner \<Rightarrow> ('w, string) prog" where
  "jobAction R method jobId signer =
     bnd (sg_publicKey signer) (\<lambda>creator.
       reg_call R method creator [sc_address (rr_scval R) creator, Inr (sc_bytes (rr_scval R) jobId)] signer)"

definition reg_cancelJob :: "('w, 'v) RelayerRegistry \<Rightarrow> byte list \<Rightarrow> 'w OpaqueSigner \<Rightarrow> ('w, string) prog" where
  "reg_cancelJob R = jobAction R ''cancel_job''"

definition reg_slashJob :: "('w, 'v) RelayerRegistry \<Rightarrow> byte list \<Rightarrow> 'w OpaqueSigner \<Rightarrow> ('w, string) prog" where
  "reg_slashJob R = jobAction R ''slash_job''"

definition reg_initialize ::
  "('w, 'v) RelayerRegistry \<Rightarrow> string \<Rightarrow> string \<Rightarrow> string \<Rightarrow> int \<Rightarrow> int \<Rightarrow> int \<Rightarrow> 'w OpaqueSigner \<Rightarrow> ('w, string) prog" where
  "reg_initialize R admin nativeSac privacyPool minimumStake unstakeCooldownLedgers maxDeadlineLedgers signer =
     reg_call R ''initialize'' admin
       [sc_address (rr_scval R) admin, sc_address (rr_scval R) nativeSac, sc_address (rr_scval R) privacyPool,
        sc_i128 (rr_scval R) minimumStake, sc_u32 (rr_scval R) unstakeCooldownLedgers, sc_u32 (rr_scval R) maxDeadlineLedgers] signer"

definition reg_setConfig ::
  "('w, 'v) RelayerRegistry \<Rightarrow> int \<Rightarrow> int \<Rightarrow> int \<Rightarrow> 'w OpaqueSigner \<Rightarrow> ('w, string) prog" where
  "reg_setConfig R minimumStake unstakeCooldownLedgers maxDeadlineLedgers signer =
     bnd (sg_publicKey signer) (\<lambda>admin.
       reg_call R ''set_config'' admin
         [sc_address (rr_scval R) admin, sc_i128 (rr_scval R) minimumStake, sc_u32 (rr_scval R) unstakeCooldownLedgers,
          sc_u32 (rr_scval R) maxDeadlineLedgers] signer)"

definition reg_transferAdmin :: "('w, 'v) RelayerRegistry \<Rightarrow> string \<Rightarrow> 'w OpaqueSigner \<Rightarrow> ('w, string) prog" where
  "reg_transferAdmin R newAdmin signer =
     bnd (sg_publicKey signer) (\<lambda>admin.
       reg_call R ''transfer_admin'' admin [sc_address (rr_scval R) admin, sc_address (rr_scval R) newAdmin] signer)"

definition reportSlash :: "('w, 'v) RelayerRegistry \<Rightarrow> SlashingProof \<Rightarrow> int \<Rightarrow> 'w OpaqueSigner \<Rightarrow> ('w, string) prog" where
  "reportSlash R p slashAmount signer =
     (let S = rr_scval R in
      bnd (sg_publicKey signer) (\<lambda>reporter.
        reg_call R ''report_slash'' reporter
          [res_bind (sc_address S (sp_relayer p)) (\<lambda>relayer.
           res_bind (sc_u64 S (sp_timestamp p)) (\<lambda>timestamp.
           res_bind (sc_address S (sp_reporter p)) (\<lambda>to.
             Inr (structToScVal S
               [(''relayer'', relayer), (''offense'', enumVariantToScVal S (offense_name (sp_offense p))),
                (''evidence'', sc_bytes S (sp_evidence p)), (''timestamp'', timestamp), (''reporter'', to)])))),
           sc_i128 S slashAmount] signer))"

end
