(* ===== verification/Sdk_Gateway.thy ===== *)
theory Sdk_Gateway
  imports Sdk_Registry Relayer_Box Relayer_Messages
begin

text \<open>
  The client side of the relayer market: its messages (\<open>sdk/src/relayer-protocol/messages.ts\<close>), the gateway client
  with failover (\<open>gateway.ts\<close>), and the relayer service (\<open>sdk/src/services/relayer.ts\<close>). Adverts and bids
  have the same shape as those of the relayer, so its records are used; the payload and box formats are the
  relayer's own files. The global \<open>fetch\<close>, URL resolution and random draws are the parameter \<open>gateway_net\<close>.
\<close>

section \<open>Messages\<close>

definition SDK_BID_DOMAIN :: "byte list" where
  "SDK_BID_DOMAIN = utf8 ''opaque-relayer-bid-v1''"

definition sdk_makeAdvert :: "byte list \<Rightarrow> int \<Rightarrow> rat \<Rightarrow> byte list \<Rightarrow> jv \<Rightarrow> JobAdvert res" where
  "sdk_makeAdvert jobId fee deadline payloadHash chain =
     res_bind (assertLength jobId 32 ''jobId'') (\<lambda>j.
     res_bind (assertLength payloadHash 32 ''payloadHash'') (\<lambda>h.
       Inr \<lparr>adv_jobId = bytesToHex j, adv_chain = nullish chain (JNum (of_nat RELAY_CHAIN_STELLAR)),
            adv_fee = dec_of_int fee, adv_deadline = deadline, adv_payloadHash = bytesToHex h\<rparr>))"

definition sdk_bidSigningDigest :: "stellar_lib \<Rightarrow> byte list \<Rightarrow> byte list \<Rightarrow> byte list res" where
  "sdk_bidSigningDigest L jobId x25519Pk =
     res_bind (assertLength jobId 32 ''jobId'') (\<lambda>j.
     res_bind (assertLength x25519Pk 32 ''x25519Pk'') (\<lambda>pk.
       Inr (keccak_256 L (concatBytes [SDK_BID_DOMAIN, j, pk]))))"

definition sdk_makeBid ::
  "stellar_lib \<Rightarrow> JobAdvert \<Rightarrow> Keypair \<Rightarrow> byte list \<Rightarrow> string option \<Rightarrow> int option \<Rightarrow> RelayerBid res" where
  "sdk_makeBid L advert operator x25519Pk0 endpoint freeStake =
     res_bind (assertLength x25519Pk0 32 ''x25519Pk'') (\<lambda>x25519Pk.
     res_bind (hexToBytes (adv_jobId advert)) (\<lambda>jobId.
     res_bind (sdk_bidSigningDigest L jobId x25519Pk) (\<lambda>digest.
       Inr \<lparr>bid_jobId = adv_jobId advert, bid_chain = adv_chain advert, bid_operator = kp_publicKey operator,
            bid_x25519Pk = bytesToHex x25519Pk, bid_sig = bytesToBase64 (kp_sign operator digest),
            bid_endpoint = (case endpoint of None \<Rightarrow> JUndef | Some e \<Rightarrow> JStr e),
            bid_freeStake = (case freeStake of None \<Rightarrow> JUndef | Some f \<Rightarrow> JStr (dec_of_int f))\<rparr>)))"

definition sdk_verifyBid :: "stellar_lib \<Rightarrow> RelayerBid \<Rightarrow> bool" where
  "sdk_verifyBid L bid = catch_false (
     res_bind (hexToBytes (bid_jobId bid)) (\<lambda>jobId.
     res_bind (hexToBytes (bid_x25519Pk bid)) (\<lambda>pk.
     res_bind (sdk_bidSigningDigest L jobId pk) (\<lambda>digest.
     res_bind (base64ToBytes (bid_sig bid)) (\<lambda>sig.
       sig_verify L (bid_operator bid) digest sig)))))"

definition sdk_validateAdvert :: "jv \<Rightarrow> JobAdvert res" where
  "sdk_validateAdvert v =
     (if jv_get v ''t'' \<noteq> JStr ''advert'' \<or> jv_get v ''v'' \<noteq> JNum 1
         \<or> \<not> is_string (jv_get v ''jobId'') \<or> \<not> is_string (jv_get v ''payloadHash'')
         \<or> \<not> is_string (jv_get v ''fee'') \<or> \<not> is_number (jv_get v ''deadline'')
      then Inl (Error ''Invalid relayer advert.'')
      else res_bind (check_hex (the_string (jv_get v ''jobId'')) 32 ''jobId'') (\<lambda>_.
           res_bind (check_hex (the_string (jv_get v ''payloadHash'')) 32 ''payloadHash'') (\<lambda>_.
           Inr \<lparr>adv_jobId = the_string (jv_get v ''jobId''),
                adv_chain = nullish (jv_get v ''chain'') (JNum (of_nat RELAY_CHAIN_STELLAR)),
                adv_fee = the_string (jv_get v ''fee''), adv_deadline = the_number (jv_get v ''deadline''),
                adv_payloadHash = the_string (jv_get v ''payloadHash'')\<rparr>)))"

definition sdk_validateBid :: "jv \<Rightarrow> RelayerBid res" where
  "sdk_validateBid v =
     (if jv_get v ''t'' \<noteq> JStr ''bid'' \<or> jv_get v ''v'' \<noteq> JNum 1
         \<or> \<not> is_string (jv_get v ''jobId'') \<or> \<not> is_string (jv_get v ''operator'')
         \<or> \<not> is_string (jv_get v ''x25519Pk'') \<or> \<not> is_string (jv_get v ''sig'')
      then Inl (Error ''Invalid relayer bid.'')
      else res_bind (check_hex (the_string (jv_get v ''jobId'')) 32 ''jobId'') (\<lambda>_.
           res_bind (check_hex (the_string (jv_get v ''x25519Pk'')) 32 ''x25519Pk'') (\<lambda>_.
           Inr \<lparr>bid_jobId = the_string (jv_get v ''jobId''),
                bid_chain = nullish (jv_get v ''chain'') (JNum (of_nat RELAY_CHAIN_STELLAR)),
                bid_operator = the_string (jv_get v ''operator''), bid_x25519Pk = the_string (jv_get v ''x25519Pk''),
                bid_sig = the_string (jv_get v ''sig''), bid_endpoint = jv_get v ''endpoint'',
                bid_freeStake = jv_get v ''freeStake''\<rparr>)))"


section \<open>Drafts and the choice of a bid\<close>

record VerifiedBid =
  vb_bid :: RelayerBid
  vb_freeStakeValue :: int

record RelayerJobDraft =
  dr_jobId :: "byte list"
  dr_jobIdHex :: string
  dr_payload :: PoolWithdrawPayload
  dr_payloadHash :: "byte list"
  dr_payloadHashHex :: string
  dr_advert :: JobAdvert
  dr_deadlineLedger :: int
  dr_fee :: int

definition buildRelayedWithdrawPayload :: "string \<Rightarrow> string \<Rightarrow> PoolWithdrawProof \<Rightarrow> string \<Rightarrow> PoolWithdrawPayload" where
  "buildRelayedWithdrawPayload pool registry p to =
     \<lparr>poolId = JStr pool, proofA = wp_proofA p, proofB = wp_proofB p, proofC = wp_proofC p,
      withdrawnValue = wp_withdrawnValue p, stateRoot = wp_stateRoot p, aspRoot = wp_aspRoot p,
      nullifierHash = wp_nullifierHash p, newCommitment = wp_newCommitment p, recipient = JStr to,
      poolFee = 0, poolRelayer = JStr registry\<rparr>"

record fetch_init =
  fi_method :: string
  fi_headers :: "(string \<times> string) list"
  fi_body :: "string option"

text \<open>An answer: its status and what reading its body gives.\<close>

record http_answer =
  ha_status :: nat
  ha_text :: "string res"

text \<open>
  A caller's abort signal is what the caller can observe of it. The signal of one request combines it with a timer; when
  the timer fires, requests under a native timeout signal fail with a \<open>TimeoutError\<close>, those under a controller
  aborted without a reason with an \<open>AbortError\<close>.
\<close>

record 'w AbortSignal =
  as_aborted :: "'w \<Rightarrow> bool"

record 'w combined_signal =
  cs_caller :: "'w AbortSignal option"
  cs_timeoutMs :: rat
  cs_native :: bool

record 'w gateway_net =
  gn_runtime :: "'w js_runtime"
  gn_nativeTimeout :: bool
  gn_fetch :: "string \<Rightarrow> fetch_init \<Rightarrow> 'w combined_signal \<Rightarrow> ('w, http_answer) prog"
  gn_timedOut :: "'w \<Rightarrow> bool"
  gn_url :: "string \<Rightarrow> string \<Rightarrow> string res"
  gn_randomBytes :: "nat \<Rightarrow> ('w, byte list) prog"
  gn_random32 :: "('w, 32 word) prog"

definition combineSignal :: "'w gateway_net \<Rightarrow> 'w AbortSignal option \<Rightarrow> rat \<Rightarrow> 'w combined_signal" where
  "combineSignal N callerSignal timeoutMs = \<lparr>cs_caller = callerSignal, cs_timeoutMs = timeoutMs, cs_native = gn_nativeTimeout N\<rparr>"

definition timer_error :: "'w combined_signal \<Rightarrow> js_error" where
  "timer_error c =
     (if cs_native c then DOMException ''TimeoutError'' ''The operation was aborted due to timeout''
      else DOMException ''AbortError'' ''This operation was aborted'')"

definition randomJobId :: "'w gateway_net \<Rightarrow> ('w, byte list) prog" where
  "randomJobId N = gn_randomBytes N 32"

definition buildRelayerJobDraft ::
  "'w gateway_net \<Rightarrow> stellar_lib \<Rightarrow> PoolWithdrawPayload \<Rightarrow> int \<Rightarrow> int \<Rightarrow> byte list option \<Rightarrow> ('w, RelayerJobDraft) prog" where
  "buildRelayerJobDraft N L payload fee deadlineLedger jobId0 =
     bnd (case jobId0 of Some j \<Rightarrow> ret j | None \<Rightarrow> randomJobId N) (\<lambda>drawn.
     bnd (of_res (assertLength drawn 32 ''jobId'')) (\<lambda>jobId.
     bnd (of_res (hashPoolWithdrawPayload L payload)) (\<lambda>payloadHash.
     bnd (of_res (sdk_makeAdvert jobId fee (rat_of_int deadlineLedger) payloadHash JUndef)) (\<lambda>advert.
     ret \<lparr>dr_jobId = jobId, dr_jobIdHex = bytesToHex jobId, dr_payload = payload, dr_payloadHash = payloadHash,
          dr_payloadHashHex = bytesToHex payloadHash, dr_advert = advert, dr_deadlineLedger = deadlineLedger, dr_fee = fee\<rparr>))))"

fun pick_loop :: "VerifiedBid list \<Rightarrow> int \<Rightarrow> VerifiedBid option" where
  "pick_loop [] target = None"
| "pick_loop (bid # bids) target =
     (if target < vb_freeStakeValue bid then Some bid else pick_loop bids (target - vb_freeStakeValue bid))"

definition total_stake :: "VerifiedBid list \<Rightarrow> int" where
  "total_stake bids = foldl (\<lambda>sum bid. sum + vb_freeStakeValue bid) 0 bids"

definition pickStakeWeightedBid :: "'w gateway_net \<Rightarrow> VerifiedBid list \<Rightarrow> ('w, VerifiedBid option) prog" where
  "pickStakeWeightedBid N bids =
     (if bids = [] then ret None
      else if total_stake bids \<le> 0 then ret (Some (hd bids))
      else bnd (gn_random32 N) (\<lambda>r0.
           bnd (gn_random32 N) (\<lambda>r1.
           let target = (uint r0 * 2 ^ 32 + uint r1) mod total_stake bids in
           ret (case pick_loop bids target of Some bid \<Rightarrow> Some bid | None \<Rightarrow> Some (last bids)))))"


section \<open>Requests with failover\<close>

definition DEFAULT_GATEWAY_TIMEOUT_MS :: rat where "DEFAULT_GATEWAY_TIMEOUT_MS = 10000"
definition DEFAULT_RETRIES :: nat where "DEFAULT_RETRIES = 2"

record 'w GatewayRequestOptions =
  go_signal :: "'w AbortSignal option"
  go_timeoutMs :: "rat option"
  go_gateway :: "string option"

definition no_options :: "'w GatewayRequestOptions" where
  "no_options = \<lparr>go_signal = None, go_timeoutMs = None, go_gateway = None\<rparr>"

record ('w, 'v) RelayerGateway =
  gw_urls :: "string list"
  gw_registry :: "('w, 'v) RelayerRegistry"
  gw_net :: "'w gateway_net"
  gw_lib :: stellar_lib
  gw_nacl :: nacl_lib
  gw_timeoutMs :: rat
  gw_retries :: nat

definition new_RelayerGateway ::
  "string list \<Rightarrow> ('w, 'v) RelayerRegistry \<Rightarrow> 'w gateway_net \<Rightarrow> stellar_lib \<Rightarrow> nacl_lib \<Rightarrow> rat option \<Rightarrow> nat option
     \<Rightarrow> ('w, 'v) RelayerGateway res" where
  "new_RelayerGateway gatewayUrls registry N L C timeoutMs retries =
     (if gatewayUrls = [] then Inl (Error ''RelayerGateway requires at least one gateway URL.'')
      else Inr \<lparr>gw_urls = gatewayUrls, gw_registry = registry, gw_net = N, gw_lib = L, gw_nacl = C,
                gw_timeoutMs = or_else timeoutMs DEFAULT_GATEWAY_TIMEOUT_MS, gw_retries = or_else retries DEFAULT_RETRIES\<rparr>)"

definition isRetryableGatewayStatus :: "nat \<Rightarrow> bool" where
  "isRetryableGatewayStatus status \<longleftrightarrow> status = 408 \<or> status = 429 \<or> 500 \<le> status \<and> status \<le> 599"

fun isAbortError :: "js_error \<Rightarrow> bool" where
  "isAbortError (DOMException name _) = (name = ''AbortError'')"
| "isAbortError _ = False"

fun is_fetch_error :: "js_error \<Rightarrow> bool" where
  "is_fetch_error (TypeError m) = has_sub ''fetch'' (to_lower m)"
| "is_fetch_error _ = False"

fun is_gateway_error :: "js_error \<Rightarrow> bool" where
  "is_gateway_error (OpaqueError code _ _) = (code = ''GATEWAY'')"
| "is_gateway_error _ = False"

definition ends_with_slash :: "string \<Rightarrow> bool" where
  "ends_with_slash s = (s \<noteq> [] \<and> last s = CHR ''/'')"

definition gw_url :: "('w, 'v) RelayerGateway \<Rightarrow> string \<Rightarrow> string \<Rightarrow> string res" where
  "gw_url G path base = gn_url (gw_net G) path (if ends_with_slash base then base else base @ ''/'')"

definition aborted_by_caller :: js_error where
  "aborted_by_caller = GatewayError ''Gateway request aborted by caller'' None None"

definition gateway_of :: "('w, 'v) RelayerGateway \<Rightarrow> 'w GatewayRequestOptions \<Rightarrow> nat \<Rightarrow> string" where
  "gateway_of G opts attempt =
     (if attempt = 0 \<and> go_gateway opts \<noteq> None \<and> go_gateway opts \<noteq> Some [] then the (go_gateway opts)
      else gw_urls G ! (attempt mod length (gw_urls G)))"

text \<open>
  One attempt; \<open>again\<close> is \<open>attempt + 1 < maxAttempts\<close>, and a result of \<open>None\<close> is the \<open>continue\<close>
  that starts the next attempt.
\<close>

definition try_gateway ::
  "('w, 'v) RelayerGateway \<Rightarrow> string \<Rightarrow> fetch_init \<Rightarrow> 'w GatewayRequestOptions \<Rightarrow> nat \<Rightarrow> bool \<Rightarrow> ('w, jv option) prog" where
  "try_gateway G path init opts attempt again =
     (let gateway = gateway_of G opts attempt;
          signal = combineSignal (gw_net G) (go_signal opts) (or_else (go_timeoutMs opts) (gw_timeoutMs G))
      in try_catch
           (bnd (of_res (gw_url G path gateway)) (\<lambda>url.
            bnd (gn_fetch (gw_net G) url init signal) (\<lambda>res.
              if 200 \<le> ha_status res \<and> ha_status res \<le> 299
              then bnd (of_res (res_bind (ha_text res) json_parse)) (\<lambda>v. ret (Some v))
              else if isRetryableGatewayStatus (ha_status res) \<and> again then ret None
              else throw (GatewayError (''Relayer gateway returned '' @ dec_of_nat (ha_status res) @ '' from '' @ gateway)
                     (Some (ha_status res)) (Some gateway)))))
           (\<lambda>err w.
              if is_gateway_error err then throw err w
              else if (isAbortError err \<or> is_fetch_error err)
                 \<and> (case go_signal opts of None \<Rightarrow> False | Some s \<Rightarrow> as_aborted s w) \<and> \<not> gn_timedOut (gw_net G) w
              then throw aborted_by_caller w
              else if (isAbortError err \<or> is_fetch_error err) \<and> again then ret None w
              else throw (GatewayError (''Gateway request failed: '' @ err_message err) None None) w))"

text \<open>
  The loop over the attempts, of which \<open>left\<close> remain after this one. The error after the loop is never thrown: \<open>None\<close>
  is only returned while an attempt is left.
\<close>

fun attempt_loop ::
  "('w, 'v) RelayerGateway \<Rightarrow> string \<Rightarrow> fetch_init \<Rightarrow> 'w GatewayRequestOptions \<Rightarrow> nat \<Rightarrow> nat \<Rightarrow> ('w, jv) prog" where
  "attempt_loop G path init opts attempt 0 =
     bnd (try_gateway G path init opts attempt False) (\<lambda>answer.
       case answer of Some v \<Rightarrow> ret v
       | None \<Rightarrow> throw (GatewayError (''All '' @ dec_of_nat (attempt + 1) @ '' gateway(s) failed for '' @ path @ '': undefined'') None None))"
| "attempt_loop G path init opts attempt (Suc left) =
     bnd (try_gateway G path init opts attempt True) (\<lambda>answer.
       case answer of Some v \<Rightarrow> ret v
       | None \<Rightarrow> bnd (sleep_ms (gn_runtime (gw_net G)) (350 * (rat_of_nat attempt + 1))) (\<lambda>_.
                 attempt_loop G path init opts (attempt + 1) left))"

definition gatewayFetch ::
  "('w, 'v) RelayerGateway \<Rightarrow> string \<Rightarrow> fetch_init \<Rightarrow> 'w GatewayRequestOptions \<Rightarrow> ('w, jv) prog" where
  "gatewayFetch G path init opts w =
     (if (case go_signal opts of None \<Rightarrow> False | Some s \<Rightarrow> as_aborted s w) then throw aborted_by_caller w
      else attempt_loop G path init opts 0 (gw_retries G) w)"


section \<open>The gateway's operations\<close>

definition deadlineLedger :: "('w, 'v) RelayerGateway \<Rightarrow> int option \<Rightarrow> ('w, int) prog" where
  "deadlineLedger G ledgers =
     bnd (getLatestLedger (ci_events (rr_rpc (gw_registry G)))) (\<lambda>now. ret (now + or_else ledgers 720))"

definition json_headers :: "(string \<times> string) list" where
  "json_headers = [(''content-type'', ''application/json'')]"

definition publishAdvert :: "('w, 'v) RelayerGateway \<Rightarrow> JobAdvert \<Rightarrow> 'w GatewayRequestOptions \<Rightarrow> ('w, unit) prog" where
  "publishAdvert G advert opts =
     bnd (gatewayFetch G ''v1/jobs''
            \<lparr>fi_method = ''POST'', fi_headers = json_headers, fi_body = Some (json_stringify (advert_json advert))\<rparr> opts) (\<lambda>_. ret ())"

text \<open>\<open>encodeURIComponent\<close>: every byte outside the unreserved set is written as two hex digits.\<close>

definition unreserved :: "char \<Rightarrow> bool" where
  "unreserved c \<longleftrightarrow> is_digit c \<or> (of_char c :: nat) \<in> {65..90} \<union> {97..122}
     \<or> c \<in> set ''-_.!~*()'' \<or> c = CHR 0x27"

definition encodeURIComponent :: "string \<Rightarrow> string" where
  "encodeURIComponent s =
     concat (map (\<lambda>c. if unreserved c then [c]
       else CHR ''%'' # [''0123456789ABCDEF'' ! (of_char c div 16), ''0123456789ABCDEF'' ! (of_char c mod 16)]) s)"

text \<open>\<open>body.key ?? default\<close>; reading a property of \<open>null\<close> throws.\<close>

definition body_field :: "jv \<Rightarrow> string \<Rightarrow> jv res" where
  "body_field body key =
     (if body = JNull \<or> body = JUndef then Inl (TypeError (''Cannot read properties of null (reading '' @ key @ '')''))
      else Inr (jv_get body key))"

definition received_bids :: "jv \<Rightarrow> RelayerBid list res" where
  "received_bids body =
     res_bind (body_field body ''bids'') (\<lambda>bids.
       case nullish bids (JArr []) of
         JArr raws \<Rightarrow> res_map sdk_validateBid raws
       | _ \<Rightarrow> Inl (TypeError ''(body.bids ?? []).map is not a function''))"

definition bid_for_job :: "stellar_lib \<Rightarrow> string \<Rightarrow> RelayerBid \<Rightarrow> bool" where
  "bid_for_job L jobIdHex bid \<longleftrightarrow>
     sdk_verifyBid L bid \<and> to_lower (bid_jobId bid) = to_lower jobIdHex \<and> bid_chain bid = JNum (of_nat RELAY_CHAIN_STELLAR)"

text \<open>A read of the registry; a failure and a missing record both are undefined.\<close>

definition registryView :: "('w, 'v) RelayerGateway \<Rightarrow> string \<Rightarrow> string \<Rightarrow> 'v list \<Rightarrow> ('w, native_value) prog" where
  "registryView G source method args =
     try_catch (reg_read (gw_registry G) method source args) (\<lambda>_. ret NvUndef)"

definition endpoint_of :: "native_value \<Rightarrow> jv \<Rightarrow> jv res" where
  "endpoint_of registered offered =
     (case registered of
        NvUndef \<Rightarrow> Inr offered
      | NvStr s \<Rightarrow> Inr (if js_trim s = [] then offered else JStr (js_trim s))
      | _ \<Rightarrow> Inl (TypeError ''relayer.endpoint?.trim is not a function''))"

definition check_bid :: "RelayerBid \<Rightarrow> native_value \<Rightarrow> native_value \<Rightarrow> VerifiedBid option res" where
  "check_bid bid job relayer =
     (if \<not> nv_Boolean job \<or> \<not> nv_Boolean relayer then Inr None
      else res_bind (nv_big_field job ''fee'') (\<lambda>fee.
           res_bind (nv_big_field relayer ''free_stake'') (\<lambda>freeStakeValue.
           res_bind (nv_num_field job ''status'') (\<lambda>status.
             if status \<noteq> Some 0 \<or> freeStakeValue < fee then Inr None
             else res_bind (res_bind (nv_get relayer ''x25519_pubkey'') nv_bytes) (\<lambda>pk.
               if to_lower (bytesToHex pk) \<noteq> to_lower (bid_x25519Pk bid) then Inr None
               else res_bind (res_bind (nv_get relayer ''endpoint'') (\<lambda>e. endpoint_of e (bid_endpoint bid))) (\<lambda>endpoint.
                 Inr (Some \<lparr>vb_bid = bid\<lparr>bid_endpoint := endpoint, bid_freeStake := JStr (dec_of_int freeStakeValue)\<rparr>,
                            vb_freeStakeValue = freeStakeValue\<rparr>)))))))"

definition verifyBidRegistryState ::
  "('w, 'v) RelayerGateway \<Rightarrow> string \<Rightarrow> RelayerBid \<Rightarrow> ('w, VerifiedBid option) prog" where
  "verifyBidRegistryState G jobIdHex bid =
     try_catch
       (bnd (of_res (hexToBytes jobIdHex)) (\<lambda>jobId.
        bnd (registryView G (bid_operator bid) ''get_job'' [sc_bytes (rr_scval (gw_registry G)) jobId]) (\<lambda>job.
        bnd (of_res (sc_address (rr_scval (gw_registry G)) (bid_operator bid))) (\<lambda>operator.
        bnd (registryView G (bid_operator bid) ''get_relayer'' [operator]) (\<lambda>relayer.
        of_res (check_bid bid job relayer))))))
       (\<lambda>_. ret None)"

definition fetchBids :: "('w, 'v) RelayerGateway \<Rightarrow> string \<Rightarrow> 'w GatewayRequestOptions \<Rightarrow> ('w, VerifiedBid list) prog" where
  "fetchBids G jobIdHex opts =
     bnd (gatewayFetch G (''v1/jobs/'' @ encodeURIComponent jobIdHex @ ''/bids'')
            \<lparr>fi_method = ''GET'', fi_headers = [], fi_body = None\<rparr> opts) (\<lambda>body.
     bnd (of_res (received_bids body)) (\<lambda>bids.
     bnd (prog_map (verifyBidRegistryState G jobIdHex) (filter (bid_for_job (gw_lib G) jobIdHex) bids)) (\<lambda>checked.
     ret (map the (filter (\<lambda>b. b \<noteq> None) checked)))))"

definition payload_message :: "string \<Rightarrow> string \<Rightarrow> string \<Rightarrow> jv" where
  "payload_message jobIdHex to box =
     JObj [(''t'', JStr ''payload''), (''v'', JNum 1), (''jobId'', JStr jobIdHex), (''to'', JStr to), (''box'', JStr box)]"

definition delivery_request :: "RelayerJobDraft \<Rightarrow> RelayerBid \<Rightarrow> string \<Rightarrow> fetch_init" where
  "delivery_request draft bid box =
     \<lparr>fi_method = ''POST'',
      fi_headers = json_headers @ [(''x-idempotency-key'', dr_jobIdHex draft @ '':'' @ bid_x25519Pk bid)],
      fi_body = Some (json_stringify (payload_message (dr_jobIdHex draft) (bid_x25519Pk bid) box))\<rparr>"

definition seal_payload :: "('w, 'v) RelayerGateway \<Rightarrow> RelayerJobDraft \<Rightarrow> RelayerBid \<Rightarrow> ('w, string) prog" where
  "seal_payload G draft bid =
     bnd (of_res (hexToBytes (bid_x25519Pk bid))) (\<lambda>pk.
     bnd (gn_randomBytes (gw_net G) 32) (\<lambda>ephSecret.
     bnd (gn_randomBytes (gw_net G) NONCE_BYTES) (\<lambda>nonce.
     of_res (sealBox (gw_nacl G) ephSecret nonce (encodePoolWithdrawPayload (dr_payload draft)) pk))))"

definition deliverPayload ::
  "('w, 'v) RelayerGateway \<Rightarrow> RelayerJobDraft \<Rightarrow> RelayerBid \<Rightarrow> 'w GatewayRequestOptions \<Rightarrow> ('w, jv) prog" where
  "deliverPayload G draft bid opts =
     bnd (seal_payload G draft bid) (\<lambda>box.
     bnd (gatewayFetch G (''v1/jobs/'' @ encodeURIComponent (dr_jobIdHex draft) @ ''/payload'') (delivery_request draft bid box) opts)
       (\<lambda>body. bnd (of_res (body_field body ''result'')) (\<lambda>result. ret (nullish result JNull))))"

datatype RelayerJobStatus = StOpen | StAccepted | StSubmitted | StSlashed | StCanceled | StUnknown

definition REGISTRY_JOB_STATUS :: "(rat \<times> RelayerJobStatus) list" where
  "REGISTRY_JOB_STATUS = [(0, StOpen), (1, StAccepted), (2, StSubmitted), (3, StSlashed), (4, StCanceled)]"

definition jobStatus :: "('w, 'v) RelayerGateway \<Rightarrow> string \<Rightarrow> string \<Rightarrow> ('w, RelayerJobStatus) prog" where
  "jobStatus G jobIdHex source =
     bnd (of_res (hexToBytes jobIdHex)) (\<lambda>jobId.
     bnd (registryView G source ''get_job'' [sc_bytes (rr_scval (gw_registry G)) jobId]) (\<lambda>job.
       if \<not> nv_Boolean job then ret StUnknown
       else bnd (of_res (nv_num_field job ''status'')) (\<lambda>status.
         ret (or_else (Option.bind status (map_of REGISTRY_JOB_STATUS)) StUnknown))))"


section \<open>The service\<close>

record ('w, 'v) MarketContext =
  mk_registry :: "('w, 'v) RelayerRegistry"
  mk_gatewayUrls :: "string list"
  mk_privacyPool :: string
  mk_net :: "'w gateway_net"
  mk_lib :: stellar_lib
  mk_nacl :: nacl_lib
  mk_signer :: "'w OpaqueSigner option"

definition service_gateway :: "('w, 'v) MarketContext \<Rightarrow> ('w, 'v) RelayerGateway res" where
  "service_gateway X = new_RelayerGateway (mk_gatewayUrls X) (mk_registry X) (mk_net X) (mk_lib X) (mk_nacl X) None None"

definition with_signer :: "('w, 'v) MarketContext \<Rightarrow> ('w OpaqueSigner \<Rightarrow> ('w, 'a) prog) \<Rightarrow> ('w, 'a) prog" where
  "with_signer X call = bnd (of_res (requireSigner (mk_signer X))) call"

definition with_source :: "('w, 'v) MarketContext \<Rightarrow> string option \<Rightarrow> (string \<Rightarrow> ('w, 'a) prog) \<Rightarrow> ('w, 'a) prog" where
  "with_source X source call = bnd (resolveReadSource (mk_signer X) source) call"

definition market_createJob :: "('w, 'v) MarketContext \<Rightarrow> byte list \<Rightarrow> byte list \<Rightarrow> int \<Rightarrow> int \<Rightarrow> ('w, string) prog" where
  "market_createJob X jobId payloadHash deadline fee =
     with_signer X (reg_createJob (mk_registry X) jobId payloadHash deadline fee)"

definition createJobForDraft :: "('w, 'v) MarketContext \<Rightarrow> RelayerJobDraft \<Rightarrow> ('w, string) prog" where
  "createJobForDraft X draft =
     market_createJob X (dr_jobId draft) (dr_payloadHash draft) (dr_deadlineLedger draft) (dr_fee draft)"

definition market_cancelJob :: "('w, 'v) MarketContext \<Rightarrow> byte list \<Rightarrow> ('w, string) prog" where
  "market_cancelJob X jobId = with_signer X (reg_cancelJob (mk_registry X) jobId)"

definition market_slashJob :: "('w, 'v) MarketContext \<Rightarrow> byte list \<Rightarrow> ('w, string) prog" where
  "market_slashJob X jobId = with_signer X (reg_slashJob (mk_registry X) jobId)"

definition buildWithdrawPayload :: "('w, 'v) MarketContext \<Rightarrow> PoolWithdrawProof \<Rightarrow> string \<Rightarrow> PoolWithdrawPayload" where
  "buildWithdrawPayload X p to = buildRelayedWithdrawPayload (mk_privacyPool X) (rr_contractId (mk_registry X)) p to"

definition buildJobDraft ::
  "('w, 'v) MarketContext \<Rightarrow> PoolWithdrawPayload \<Rightarrow> int \<Rightarrow> int \<Rightarrow> byte list option \<Rightarrow> ('w, RelayerJobDraft) prog" where
  "buildJobDraft X payload fee deadline jobId = buildRelayerJobDraft (mk_net X) (mk_lib X) payload fee deadline jobId"

definition market_deadlineLedger :: "('w, 'v) MarketContext \<Rightarrow> int option \<Rightarrow> ('w, int) prog" where
  "market_deadlineLedger X ledgers = bnd (of_res (service_gateway X)) (\<lambda>G. deadlineLedger G ledgers)"

definition advertise :: "('w, 'v) MarketContext \<Rightarrow> RelayerJobDraft \<Rightarrow> ('w, unit) prog" where
  "advertise X draft = bnd (of_res (service_gateway X)) (\<lambda>G. publishAdvert G (dr_advert draft) no_options)"

definition market_fetchBids :: "('w, 'v) MarketContext \<Rightarrow> string \<Rightarrow> ('w, VerifiedBid list) prog" where
  "market_fetchBids X jobIdHex = bnd (of_res (service_gateway X)) (\<lambda>G. fetchBids G jobIdHex no_options)"

definition pickBid :: "('w, 'v) MarketContext \<Rightarrow> VerifiedBid list \<Rightarrow> ('w, VerifiedBid option) prog" where
  "pickBid X bids = pickStakeWeightedBid (mk_net X) bids"

definition market_deliverPayload :: "('w, 'v) MarketContext \<Rightarrow> RelayerJobDraft \<Rightarrow> RelayerBid \<Rightarrow> ('w, jv) prog" where
  "market_deliverPayload X draft bid = bnd (of_res (service_gateway X)) (\<lambda>G. deliverPayload G draft bid no_options)"

definition market_jobStatus :: "('w, 'v) MarketContext \<Rightarrow> string \<Rightarrow> string option \<Rightarrow> ('w, RelayerJobStatus) prog" where
  "market_jobStatus X jobIdHex source =
     with_source X source (\<lambda>src. bnd (of_res (service_gateway X)) (\<lambda>G. jobStatus G jobIdHex src))"

definition market_getJob :: "('w, 'v) MarketContext \<Rightarrow> byte list \<Rightarrow> string option \<Rightarrow> ('w, JobRecord) prog" where
  "market_getJob X jobId source = with_source X source (\<lambda>src. reg_getJob (mk_registry X) src jobId)"

definition getRegistryConfig :: "('w, 'v) MarketContext \<Rightarrow> string option \<Rightarrow> ('w, RegistryConfig) prog" where
  "getRegistryConfig X source = with_source X source (reg_getConfig (mk_registry X))"

definition market_getRelayer :: "('w, 'v) MarketContext \<Rightarrow> string option \<Rightarrow> string option \<Rightarrow> ('w, RelayerRecord) prog" where
  "market_getRelayer X operator source =
     with_source X source (\<lambda>src. reg_getRelayer (mk_registry X) src (or_else operator src))"

definition market_getUnbondingStatus ::
  "('w, 'v) MarketContext \<Rightarrow> string option \<Rightarrow> string option \<Rightarrow> ('w, UnbondingStatus) prog" where
  "market_getUnbondingStatus X operator source =
     with_source X source (\<lambda>src. reg_getUnbondingStatus (mk_registry X) src (or_else operator src))"

definition market_jobStatuses :: "('w, 'v) MarketContext \<Rightarrow> string option \<Rightarrow> ('w, JobStatus) prog" where
  "market_jobStatuses X source = with_source X source (readJobStatuses (mk_registry X))"

definition market_getSlashingRecord ::
  "('w, 'v) MarketContext \<Rightarrow> string \<Rightarrow> string option \<Rightarrow> ('w, RelayerSlashRecord option) prog" where
  "market_getSlashingRecord X relayer source = with_source X source (\<lambda>src. getSlashingRecord (mk_registry X) src relayer)"

definition market_getSlashingPercentage :: "('w, 'v) MarketContext \<Rightarrow> string \<Rightarrow> string option \<Rightarrow> ('w, js_number) prog" where
  "market_getSlashingPercentage X relayer source =
     with_source X source (\<lambda>src. getSlashingPercentage (mk_registry X) src relayer)"

definition market_register :: "('w, 'v) MarketContext \<Rightarrow> byte list \<Rightarrow> string \<Rightarrow> int \<Rightarrow> ('w, string) prog" where
  "market_register X x25519Pubkey endpoint stake =
     with_signer X (reg_register (mk_registry X) x25519Pubkey endpoint stake None)"

definition market_addStake :: "('w, 'v) MarketContext \<Rightarrow> int \<Rightarrow> ('w, string) prog" where
  "market_addStake X amount = with_signer X (reg_addStake (mk_registry X) amount)"

definition market_requestUnstake :: "('w, 'v) MarketContext \<Rightarrow> int \<Rightarrow> ('w, string) prog" where
  "market_requestUnstake X amount = with_signer X (reg_requestUnstake (mk_registry X) amount)"

definition market_withdrawStake :: "('w, 'v) MarketContext \<Rightarrow> ('w, string) prog" where
  "market_withdrawStake X = with_signer X (reg_withdrawStake (mk_registry X))"

definition market_acceptJob :: "('w, 'v) MarketContext \<Rightarrow> byte list \<Rightarrow> ('w, string) prog" where
  "market_acceptJob X jobId = with_signer X (reg_acceptJob (mk_registry X) jobId)"

definition market_submitPoolWithdraw :: "('w, 'v) MarketContext \<Rightarrow> byte list \<Rightarrow> PoolWithdrawInputs \<Rightarrow> ('w, string) prog" where
  "market_submitPoolWithdraw X jobId terms = with_signer X (reg_submitPoolWithdraw (mk_registry X) jobId terms)"

definition market_reportSlash :: "('w, 'v) MarketContext \<Rightarrow> SlashingProof \<Rightarrow> int \<Rightarrow> ('w, string) prog" where
  "market_reportSlash X p slashAmount = with_signer X (reportSlash (mk_registry X) p slashAmount)"

end
