(* ===== verification/Sdk_Gateway_Props.thy ===== *)
theory Sdk_Gateway_Props
  imports Sdk_Gateway Relayer_Engine_Props
begin

text \<open>
  What the client side of the relayer market guarantees, against the relayer it talks to: a delivered payload is one
  the chosen relayer opens and commits to; bids handed to the caller are backed by the registry; the choice among them is
  weighted by stake; requests fail over. Two defects are shown as well: a request that times out is not retried, and bids
  signed by a relayer never verify.
\<close>

section \<open>Messages\<close>

lemma sdk_validateBid_agrees: "sdk_validateBid = validateBid"
  by (rule ext) (simp add: sdk_validateBid_def validateBid_def)

lemma sdk_validateAdvert_agrees: "sdk_validateAdvert = validateAdvert"
  by (rule ext) (simp add: sdk_validateAdvert_def validateAdvert_def)

text \<open>A signature scheme under which a signature verifies for the message that was signed only.\<close>

definition sound_signer :: "stellar_lib \<Rightarrow> Keypair \<Rightarrow> bool" where
  "sound_signer L kp \<longleftrightarrow> (\<forall>m m'. sig_verify L (kp_publicKey kp) m' (kp_sign kp m) = Inr True \<longrightarrow> m' = m)"

lemma bid_domains_differ: "SDK_BID_DOMAIN @ xs \<noteq> BID_DOMAIN @ ys"
  by (simp add: SDK_BID_DOMAIN_def BID_DOMAIN_def utf8_def)

lemma relayer_bid_unverified:
  assumes "inj (keccak_256 L)" "sound_signer L kp" "makeBid L advert kp pk endpoint stake = Inr b"
  shows "\<not> sdk_verifyBid L b"
proof
  assume "sdk_verifyBid L b"
  then obtain j k d sig where d: "sdk_bidSigningDigest L j k = Inr d"
    and ok: "base64ToBytes (bid_sig b) = Inr sig" "sig_verify L (bid_operator b) d sig = Inr True"
    by (auto simp: sdk_verifyBid_def catch_false_def res_bind_def split: sum.splits)
  from assms(3) obtain jobId d' where
      d': "bidSigningDigest L jobId pk (adv_chain advert) (case endpoint of None \<Rightarrow> [] | Some e \<Rightarrow> e)
             (case stake of None \<Rightarrow> 0 | Some f \<Rightarrow> f) = Inr d'"
    and b: "bid_operator b = kp_publicKey kp" "bid_sig b = bytesToBase64 (kp_sign kp d')"
    by (auto simp: makeBid_def res_bind_eq_Inr)
  from ok assms(2) have "d = d'" by (simp add: b sound_signer_def)
  moreover obtain xs where "d = keccak_256 L (SDK_BID_DOMAIN @ xs)"
    using d by (auto simp: sdk_bidSigningDigest_def res_bind_eq_Inr concatBytes_def)
  moreover obtain ys where "d' = keccak_256 L (BID_DOMAIN @ ys)"
    using d' by (auto simp: bidSigningDigest_def bidPreimage_def res_bind_eq_Inr concatBytes_def)
  ultimately show False using assms(1) bid_domains_differ by (metis injD)
qed


section \<open>The choice of a bid\<close>

lemma total_stake_sum: "total_stake bids = (\<Sum>b\<leftarrow>bids. vb_freeStakeValue b)"
proof -
  have "foldl (\<lambda>sum bid. sum + vb_freeStakeValue bid) a bids = a + (\<Sum>b\<leftarrow>bids. vb_freeStakeValue b)" for a
    by (induction bids arbitrary: a) simp_all
  then show ?thesis by (simp add: total_stake_def)
qed

lemma total_stake_Cons [simp]: "total_stake (b # bids) = vb_freeStakeValue b + total_stake bids"
  by (simp add: total_stake_sum)

lemma total_stake_Nil [simp]: "total_stake [] = 0"
  by (simp add: total_stake_def)

lemma total_stake_nonneg: "\<forall>b\<in>set bids. 0 \<le> vb_freeStakeValue b \<Longrightarrow> 0 \<le> total_stake bids"
  by (induction bids) auto

definition picking :: "VerifiedBid list \<Rightarrow> VerifiedBid \<Rightarrow> int set" where
  "picking bids bid = {t. 0 \<le> t \<and> t < total_stake bids \<and> pick_loop bids t = Some bid}"

lemma picking_Cons:
  assumes "0 \<le> vb_freeStakeValue b" "\<forall>b\<in>set bids. 0 \<le> vb_freeStakeValue b"
  shows "picking (b # bids) bid =
    (if b = bid then {0..<vb_freeStakeValue b} else {}) \<union> (\<lambda>t. t + vb_freeStakeValue b) ` picking bids bid"
proof -
  have "t \<in> picking (b # bids) bid \<longleftrightarrow>
      (t \<in> (if b = bid then {0..<vb_freeStakeValue b} else {}) \<or> t - vb_freeStakeValue b \<in> picking bids bid)" for t
    using assms total_stake_nonneg [OF assms(2)] by (auto simp: picking_def)
  moreover have "t \<in> (\<lambda>t. t + s) ` A \<longleftrightarrow> t - s \<in> A" for s t :: int and A :: "int set"
    by (auto simp: image_iff intro: bexI [of _ "t - s"])
  ultimately show ?thesis by blast
qed

lemma finite_picking: "finite (picking bids bid)"
  by (rule finite_subset [of _ "{0..<total_stake bids}"]) (auto simp: picking_def)

lemma card_picking:
  assumes "\<forall>b\<in>set bids. 0 \<le> vb_freeStakeValue b"
  shows "card (picking bids bid) = count_list bids bid * nat (vb_freeStakeValue bid)"
  using assms
proof (induction bids)
  case Nil
  then show ?case by (simp add: picking_def)
next
  case (Cons b bids)
  let ?s = "vb_freeStakeValue b"
  have "card (picking (b # bids) bid) = card (if b = bid then {0..<?s} else {}) + card ((\<lambda>t. t + ?s) ` picking bids bid)"
    using Cons.prems by (subst picking_Cons, simp, simp, subst card_Un_disjoint) (auto simp: finite_picking, auto simp: picking_def)
  moreover have "card ((\<lambda>t. t + ?s) ` picking bids bid) = card (picking bids bid)"
    by (rule card_image) (simp add: inj_on_def)
  ultimately show ?case using Cons by auto
qed

lemma pick_total:
  assumes "\<forall>b\<in>set bids. 0 \<le> vb_freeStakeValue b" "0 \<le> t" "t < total_stake bids"
  shows "\<exists>bid\<in>set bids. pick_loop bids t = Some bid"
  using assms by (induction bids arbitrary: t) auto

text \<open>
  The choice among verified bids is weighted by stake. With stakes that are not negative and not all zero, the
  two random words always lead to one of the bids, and of the equally likely targets below the total stake
  exactly as many choose a bid as its stake counts units, once for each time it is listed.
\<close>

lemma choice_weighted_by_stake:
  assumes "\<forall>b\<in>set bids. 0 \<le> vb_freeStakeValue b" "0 < total_stake bids"
    and "gn_random32 N w = (Inr r0, w1)" "gn_random32 N w1 = (Inr r1, w2)"
  shows "(\<exists>bid\<in>set bids. pickStakeWeightedBid N bids w = (Inr (Some bid), w2)
            \<and> pick_loop bids ((uint r0 * 2 ^ 32 + uint r1) mod total_stake bids) = Some bid)
         \<and> card {t. 0 \<le> t \<and> t < total_stake bids \<and> pick_loop bids t = Some bid}
             = count_list bids bid * nat (vb_freeStakeValue bid)"
proof
  let ?t = "(uint r0 * 2 ^ 32 + uint r1) mod total_stake bids"
  have "0 \<le> ?t" "?t < total_stake bids" using assms(2) by simp_all
  from pick_total [OF assms(1) this] obtain b where b: "b \<in> set bids" "pick_loop bids ?t = Some b" by blast
  have "bids \<noteq> []" using assms(2) by auto
  then have "pickStakeWeightedBid N bids w = (Inr (Some b), w2)"
    using assms b(2) by (simp add: pickStakeWeightedBid_def bnd_def Let_def)
  with b show "\<exists>bid\<in>set bids. pickStakeWeightedBid N bids w = (Inr (Some bid), w2) \<and> pick_loop bids ?t = Some bid" by blast
  show "card {t. 0 \<le> t \<and> t < total_stake bids \<and> pick_loop bids t = Some bid} = count_list bids bid * nat (vb_freeStakeValue bid)"
    using card_picking [OF assms(1)] by (simp add: picking_def)
qed


section \<open>Bids are backed by the registry\<close>

text \<open>
  What the registry answered for a bid, each answer read during the call: the job is open, the operator has registered
  the key of the bid, and its free stake, which becomes the weight of the bid, covers the fee of the job.
\<close>

definition backed :: "('w, 'v) RelayerGateway \<Rightarrow> string \<Rightarrow> RelayerBid \<Rightarrow> VerifiedBid \<Rightarrow> bool" where
  "backed G jobIdHex raw b \<longleftrightarrow>
     (\<exists>jobId op job relayer u u' v v' fee pk.
        hexToBytes jobIdHex = Inr jobId \<and> sc_address (rr_scval (gw_registry G)) (bid_operator raw) = Inr op
        \<and> reg_read (gw_registry G) ''get_job'' (bid_operator raw) [sc_bytes (rr_scval (gw_registry G)) jobId] u = (Inr job, u')
        \<and> reg_read (gw_registry G) ''get_relayer'' (bid_operator raw) [op] v = (Inr relayer, v')
        \<and> nv_num_field job ''status'' = Inr (Some 0) \<and> nv_big_field job ''fee'' = Inr fee
        \<and> nv_big_field relayer ''free_stake'' = Inr (vb_freeStakeValue b) \<and> fee \<le> vb_freeStakeValue b
        \<and> res_bind (nv_get relayer ''x25519_pubkey'') nv_bytes = Inr pk \<and> to_lower (bytesToHex pk) = to_lower (bid_x25519Pk raw)
        \<and> bid_operator (vb_bid b) = bid_operator raw \<and> bid_x25519Pk (vb_bid b) = bid_x25519Pk raw)"

lemma registryView_Inr:
  "registryView G source method args w = (Inr v, w') \<Longrightarrow> v \<noteq> NvUndef \<Longrightarrow> reg_read (gw_registry G) method source args w = (Inr v, w')"
  by (auto simp: registryView_def catch_iff)

lemma check_bid_Some:
  assumes "check_bid raw job relayer = Inr (Some b)"
  shows "job \<noteq> NvUndef \<and> relayer \<noteq> NvUndef \<and> nv_num_field job ''status'' = Inr (Some 0)
     \<and> (\<exists>fee. nv_big_field job ''fee'' = Inr fee \<and> fee \<le> vb_freeStakeValue b)
     \<and> nv_big_field relayer ''free_stake'' = Inr (vb_freeStakeValue b)
     \<and> (\<exists>pk. res_bind (nv_get relayer ''x25519_pubkey'') nv_bytes = Inr pk \<and> to_lower (bytesToHex pk) = to_lower (bid_x25519Pk raw))
     \<and> bid_operator (vb_bid b) = bid_operator raw \<and> bid_x25519Pk (vb_bid b) = bid_x25519Pk raw"
  using assms by (auto simp: check_bid_def res_bind_eq_Inr split: if_splits)

lemma verified_backed:
  assumes "verifyBidRegistryState G jobIdHex raw w = (Inr (Some b), w')"
  shows "backed G jobIdHex raw b"
proof -
  from assms obtain jobId job w1 op relayer where
      a: "hexToBytes jobIdHex = Inr jobId" "sc_address (rr_scval (gw_registry G)) (bid_operator raw) = Inr op"
    and j: "registryView G (bid_operator raw) ''get_job'' [sc_bytes (rr_scval (gw_registry G)) jobId] w = (Inr job, w1)"
    and r: "registryView G (bid_operator raw) ''get_relayer'' [op] w1 = (Inr relayer, w')"
    and c: "check_bid raw job relayer = Inr (Some b)"
    by (auto simp: verifyBidRegistryState_def step_simps)
  have defined: "job \<noteq> NvUndef" "relayer \<noteq> NvUndef" using check_bid_Some [OF c] by simp_all
  show ?thesis
    unfolding backed_def
    using a registryView_Inr [OF j defined(1)] registryView_Inr [OF r defined(2)] check_bid_Some [OF c] by blast
qed

lemma list_all2_find: "list_all2 P xs ys \<Longrightarrow> y \<in> set ys \<Longrightarrow> \<exists>x\<in>set xs. P x y"
  by (induction rule: list_all2_induct) auto

text \<open>
  C10: whatever the gateway answers, every bid that is handed to the caller was signed by its operator over this job and
  the encryption key of the bid, is meant for Stellar, and is backed by the registry.
\<close>

theorem fetched_bids_are_backed:
  assumes "fetchBids G jobIdHex opts w = (Inr bids, w')" "b \<in> set bids"
  shows "\<exists>raw. sdk_verifyBid (gw_lib G) raw \<and> to_lower (bid_jobId raw) = to_lower jobIdHex
           \<and> bid_chain raw = JNum (of_nat RELAY_CHAIN_STELLAR) \<and> backed G jobIdHex raw b"
proof -
  from assms(1) obtain body w1 raws checked where
      body: "gatewayFetch G (''v1/jobs/'' @ encodeURIComponent jobIdHex @ ''/bids'') \<lparr>fi_method = ''GET'', fi_headers = [], fi_body = None\<rparr> opts w
         = (Inr body, w1)" "received_bids body = Inr raws"
    and run: "prog_map (verifyBidRegistryState G jobIdHex) (filter (bid_for_job (gw_lib G) jobIdHex) raws) w1 = (Inr checked, w')"
    and bids: "bids = map the (filter (\<lambda>b. b \<noteq> None) checked)"
    by (auto simp: fetchBids_def step_simps)
  have "wp (prog_map (verifyBidRegistryState G jobIdHex) (filter (bid_for_job (gw_lib G) jobIdHex) raws))
      (\<lambda>ys _. True \<and> list_all2 (\<lambda>raw r. \<forall>b. r = Some b \<longrightarrow> backed G jobIdHex raw b) (filter (bid_for_job (gw_lib G) jobIdHex) raws) ys)
      (\<lambda>_ _. True) w1"
    by (rule wp_prog_map) (auto intro!: wpI dest: verified_backed)
  from wp_InrD [OF this run]
  have rel: "list_all2 (\<lambda>raw r. \<forall>b. r = Some b \<longrightarrow> backed G jobIdHex raw b) (filter (bid_for_job (gw_lib G) jobIdHex) raws) checked"
    by simp
  from assms(2) have "Some b \<in> set checked" by (auto simp: bids)
  from list_all2_find [OF rel this] obtain raw where "raw \<in> set (filter (bid_for_job (gw_lib G) jobIdHex) raws)" "backed G jobIdHex raw b"
    by blast
  then show ?thesis by (auto simp: bid_for_job_def)
qed

text \<open>
  The SDK takes no bid of a relayer. Relayers sign their bids over a second version of the digest, the SDK verifies
  them over the first; with a collision-free hash and sound signatures, bids made by relayers are all dropped, whoever
  made them and whatever the registry says.
\<close>

lemma relayer_bids_are_dropped:
  assumes "inj (keccak_256 (gw_lib G))" "\<forall>kp\<in>operators. sound_signer (gw_lib G) kp"
    and "gatewayFetch G (''v1/jobs/'' @ encodeURIComponent jobIdHex @ ''/bids'') \<lparr>fi_method = ''GET'', fi_headers = [], fi_body = None\<rparr> opts w
           = (Inr body, w')"
    and "received_bids body = Inr bids"
    and "\<forall>b\<in>set bids. \<exists>kp\<in>operators. \<exists>advert pk endpoint stake. makeBid (gw_lib G) advert kp pk endpoint stake = Inr b"
  shows "fetchBids G jobIdHex opts w = (Inr [], w')"
proof -
  have "\<not> bid_for_job (gw_lib G) jobIdHex b" if "b \<in> set bids" for b
    using assms(1,2,5) that relayer_bid_unverified unfolding bid_for_job_def by blast
  then have "filter (bid_for_job (gw_lib G) jobIdHex) bids = []" by (simp add: filter_empty_conv)
  with assms(3,4) show ?thesis by (simp add: fetchBids_def bnd_def of_res_def)
qed


section \<open>Failover\<close>

text \<open>An outcome of a request after which the client tries the next gateway.\<close>

definition transient :: "http_answer res \<Rightarrow> bool" where
  "transient r = (case r of Inl e \<Rightarrow> isAbortError e \<or> is_fetch_error e | Inr a \<Rightarrow> isRetryableGatewayStatus (ha_status a))"

abbreviation request_signal :: "('w, 'v) RelayerGateway \<Rightarrow> 'w GatewayRequestOptions \<Rightarrow> 'w combined_signal" where
  "request_signal G opts \<equiv> combineSignal (gw_net G) (go_signal opts) (or_else (go_timeoutMs opts) (gw_timeoutMs G))"

lemma transient_not_gateway: "transient (Inl e) \<Longrightarrow> \<not> is_gateway_error e"
  by (cases e) (auto simp: transient_def)

lemma retryable_not_ok: "isRetryableGatewayStatus n \<Longrightarrow> \<not> (200 \<le> n \<and> n \<le> 299)"
  by (auto simp: isRetryableGatewayStatus_def)

lemma try_transient:
  assumes "go_signal opts = None" "gw_url G path (gateway_of G opts i) = Inr target"
    and "transient (fst (gn_fetch (gw_net G) target init (request_signal G opts) w))"
  shows "\<exists>w'. try_gateway G path init opts i True w = (Inr None, w')"
  using assms transient_not_gateway
  by (cases "gn_fetch (gw_net G) target init (request_signal G opts) w"; cases "fst (gn_fetch (gw_net G) target init (request_signal G opts) w)")
     (auto simp: try_gateway_def Let_def try_catch_def bnd_def of_res_def transient_def dest: retryable_not_ok)

lemma try_answered:
  assumes "gw_url G path (gateway_of G opts i) = Inr target"
    and "fst (gn_fetch (gw_net G) target init (request_signal G opts) w) = Inr \<lparr>ha_status = 200, ha_text = Inr text\<rparr>"
    and "json_parse text = Inr v"
  shows "\<exists>w'. try_gateway G path init opts i again w = (Inr (Some v), w')"
  using assms
  by (cases "gn_fetch (gw_net G) target init (request_signal G opts) w") (auto simp: try_gateway_def Let_def try_catch_def bnd_def of_res_def)

lemma loop_reaches:
  assumes "go_signal opts = None" "k \<le> left"
    and "\<forall>i\<le>k. \<exists>target. gw_url G path (gateway_of G opts (a + i)) = Inr target
           \<and> (\<forall>w. if i < k then transient (fst (gn_fetch (gw_net G) target init (request_signal G opts) w))
                   else fst (gn_fetch (gw_net G) target init (request_signal G opts) w) = Inr \<lparr>ha_status = 200, ha_text = Inr text\<rparr>)"
    and "json_parse text = Inr v"
  shows "\<exists>w'. attempt_loop G path init opts a left w = (Inr v, w')"
  using assms
proof (induction k arbitrary: a left w)
  case 0
  then obtain target where "gw_url G path (gateway_of G opts a) = Inr target"
    "fst (gn_fetch (gw_net G) target init (request_signal G opts) w) = Inr \<lparr>ha_status = 200, ha_text = Inr text\<rparr>" by auto
  from try_answered [OF this 0(4)] obtain w1 where "try_gateway G path init opts a (0 < left) w = (Inr (Some v), w1)" by blast
  then show ?case by (cases left) (auto simp: bnd_def)
next
  case (Suc k)
  then obtain n where n: "left = Suc n" "k \<le> n" by (cases left) auto
  from Suc.prems(3) [rule_format, of 0] obtain target where target: "gw_url G path (gateway_of G opts a) = Inr target"
    "transient (fst (gn_fetch (gw_net G) target init (request_signal G opts) w))" by auto
  from try_transient [OF Suc.prems(1) target] obtain w1 where one: "try_gateway G path init opts a True w = (Inr None, w1)" by blast
  have "\<forall>i\<le>k. \<exists>target. gw_url G path (gateway_of G opts (Suc a + i)) = Inr target
           \<and> (\<forall>w. if i < k then transient (fst (gn_fetch (gw_net G) target init (request_signal G opts) w))
                   else fst (gn_fetch (gw_net G) target init (request_signal G opts) w) = Inr \<lparr>ha_status = 200, ha_text = Inr text\<rparr>)"
  proof (intro allI impI)
    fix i assume "i \<le> k"
    with Suc.prems(3) [rule_format, of "Suc i"]
    show "\<exists>target. gw_url G path (gateway_of G opts (Suc a + i)) = Inr target
           \<and> (\<forall>w. if i < k then transient (fst (gn_fetch (gw_net G) target init (request_signal G opts) w))
                   else fst (gn_fetch (gw_net G) target init (request_signal G opts) w) = Inr \<lparr>ha_status = 200, ha_text = Inr text\<rparr>)"
      by (simp add: not_less)
  qed
  from Suc.IH [OF Suc.prems(1) n(2) this Suc.prems(4)]
  show ?case by (simp add: n(1) bnd_def one sleep_ms_def)
qed


text \<open>
  A timeout is not a transient failure. In a runtime with native timeout signals, a request whose timer fires is
  given up at once: the error is thrown in the state right after it, so no other gateway is tried and no retry is made,
  however many are configured.
\<close>

lemma timed_out_request_is_not_retried:
  assumes "gn_nativeTimeout (gw_net G)" "go_signal opts = None" "gw_url G path (gateway_of G opts 0) = Inr target"
    and "gn_fetch (gw_net G) target init (request_signal G opts) w = (Inl (timer_error (request_signal G opts)), w')"
  shows "gatewayFetch G path init opts w = (Inl (GatewayError ''Gateway request failed: The operation was aborted due to timeout'' None None), w')"
  using assms
  by (cases "gw_retries G")
     (simp_all add: gatewayFetch_def try_gateway_def Let_def bnd_def of_res_def try_catch_def timer_error_def combineSignal_def)


section \<open>Delivery to the relayer\<close>

definition random_ok :: "'w gateway_net \<Rightarrow> bool" where
  "random_ok N \<longleftrightarrow> (\<forall>n w. \<exists>r w'. gn_randomBytes N n w = (Inr r, w') \<and> length r = n)"

lemma draft_Inr:
  assumes "buildRelayerJobDraft N L payload fee deadline jobId w = (Inr draft, w')"
  shows "dr_payload draft = payload \<and> length (dr_jobId draft) = 32 \<and> dr_jobIdHex draft = bytesToHex (dr_jobId draft)
    \<and> hashPoolWithdrawPayload L payload = Inr (dr_payloadHash draft) \<and> dr_payloadHashHex draft = bytesToHex (dr_payloadHash draft)
    \<and> dr_deadlineLedger draft = deadline \<and> dr_fee draft = fee \<and> adv_jobId (dr_advert draft) = dr_jobIdHex draft
    \<and> adv_payloadHash (dr_advert draft) = dr_payloadHashHex draft"
  using assms by (auto simp: buildRelayerJobDraft_def step_simps sdk_makeAdvert_def res_bind_eq_Inr split: option.splits)

lemma payload_message_wire:
  assumes "length jobId = 32" "length pk = 32"
  shows "res_bind (json_parse (json_stringify (payload_message (bytesToHex jobId) (bytesToHex pk) box))) validatePayload
    = Inr \<lparr>enc_jobId = bytesToHex jobId, enc_to = bytesToHex pk, enc_box = box, enc_idempotencyKey = JUndef\<rparr>"
  using assms
  by (subst json_parse_stringify) (simp_all add: payload_message_def validatePayload_def jv_get_def is_integer_def)

text \<open>
  C9: a delivered withdrawal is one the chosen relayer can act on. For a draft built from a pool proof and a bid that names
  the relayer's encryption key, sealing succeeds, and the posted body passes the relayer's validation as a message to that key;
  if the chain shows the job open with the hash the draft escrowed and time left, the relayer's engine opens and decodes
  the box, finds the hash to match and goes on to commit to exactly the payload of the draft.
\<close>

theorem delivered_payload_is_committed:
  assumes draft: "buildRelayerJobDraft N (cfg_lib cfg) (buildRelayedWithdrawPayload pool registry p to) fee deadline jobId w0 = (Inr draft, w1)"
    and laws: "nacl_ok (cfg_nacl cfg)" "random_ok (gw_net G)" "gw_nacl G = cfg_nacl cfg"
    and key: "length (cfg_x25519SecretKey cfg) = 32" "bid_x25519Pk bid = bytesToHex (nacl_public (cfg_nacl cfg) (cfg_x25519SecretKey cfg))"
    and job: "getJob (cfg_chain cfg) (dr_jobIdHex draft) u = (Inr (Some job), u1)" "job_exists job" "job_status job = JOpen"
      "job_payloadHash job = dr_payloadHashHex draft"
    and headroom: "hasDeadlineHeadroom cfg (job_deadline job) (e, u1) = (Inr True, s2)"
  shows "\<exists>box w' msg. seal_payload G draft bid w = (Inr box, w')
     \<and> res_bind (json_parse (the (fi_body (delivery_request draft bid box)))) validatePayload = Inr msg
     \<and> enc_jobId msg = dr_jobIdHex draft \<and> enc_to msg = bid_x25519Pk bid
     \<and> accept_phase cfg msg (e, u) = commit_acceptance cfg (dr_jobIdHex draft) (dr_payload draft) job s2"
proof -
  let ?sk = "cfg_x25519SecretKey cfg" and ?pk = "nacl_public (cfg_nacl cfg) (cfg_x25519SecretKey cfg)"
  note d = draft_Inr [OF draft]
  have pk: "length ?pk = 32" using laws(1) key(1) by (simp add: nacl_ok_def)
  obtain esk w2 where esk: "gn_randomBytes (gw_net G) 32 w = (Inr esk, w2)" "length esk = 32" using laws(2) unfolding random_ok_def by blast
  obtain nonce w3 where nonce: "gn_randomBytes (gw_net G) NONCE_BYTES w2 = (Inr nonce, w3)" "length nonce = NONCE_BYTES"
    using laws(2) unfolding random_ok_def by blast
  obtain box where box: "sealBox (cfg_nacl cfg) esk nonce (encodePoolWithdrawPayload (dr_payload draft)) ?pk = Inr box"
    using pk by (simp add: sealBox_def PUBLIC_KEY_BYTES_def)
  have seal: "seal_payload G draft bid w = (Inr box, w3)"
    using esk nonce box key(2) laws(3) by (simp add: seal_payload_def bnd_def of_res_def)
  have opened: "openBox (cfg_nacl cfg) box ?sk = Inr (encodePoolWithdrawPayload (dr_payload draft))"
    using openBox_sealBox [OF laws(1) key(1) esk(2), of nonce "encodePoolWithdrawPayload (dr_payload draft)"] nonce(2) box
    by (simp add: NONCE_BYTES_def)
  have "payload_wf (dr_payload draft)"
    using d preimage_wf by (auto simp: hashPoolWithdrawPayload_def res_bind_eq_Inr)
  then have decoded: "decodePoolWithdrawPayload (encodePoolWithdrawPayload (dr_payload draft)) = Inr (dr_payload draft)"
    by (rule decode_encode) (simp_all add: d buildRelayedWithdrawPayload_def)
  define msg where "msg = \<lparr>enc_jobId = dr_jobIdHex draft, enc_to = bid_x25519Pk bid, enc_box = box, enc_idempotencyKey = JUndef\<rparr>"
  have valid: "res_bind (json_parse (the (fi_body (delivery_request draft bid box)))) validatePayload = Inr msg"
    using payload_message_wire [of "dr_jobId draft" ?pk box] d pk by (simp add: delivery_request_def msg_def key(2))
  have "hashPoolWithdrawPayloadHex (cfg_lib cfg) (dr_payload draft) = Inr (dr_payloadHashHex draft)"
    using d by (simp add: hashPoolWithdrawPayloadHex_def)
  then have "accept_phase cfg msg (e, u) = commit_acceptance cfg (dr_jobIdHex draft) (dr_payload draft) job s2"
    using d opened decoded job headroom by (simp add: accept_phase_def bnd_def of_res_def on_snd_def msg_def)
  with seal valid show ?thesis by (auto simp: msg_def)
qed


section \<open>Examples\<close>

text \<open>
  A registry with one open job, whose fee is 100, and one relayer with a stake of 500, and two gateways, of which the first
  is down. Contract values are strings; the state counts requests.
\<close>

definition string_scval :: "string registry_scval" where
  "string_scval = \<lparr>sc_address = Inr, sc_i128 = (\<lambda>i. Inr (dec_of_int i)), sc_u64 = (\<lambda>i. Inr (dec_of_int i)), sc_bytes = bytesToHex,
     sc_bool = (\<lambda>b. if b then ''true'' else ''false''), sc_u32 = (\<lambda>i. Inr (dec_of_int i)), sc_string = (\<lambda>s. s), sc_symbol = (\<lambda>s. s),
     sc_vec = concat, sc_map = (\<lambda>m. concat (map fst m))\<rparr>"

definition demo_read :: "string ReadOptions \<Rightarrow> (nat, native_value) prog" where
  "demo_read opts =
     ret (if ro_method opts = ''get_job'' then NvObj [(''status'', NvNum 0), (''fee'', NvBig 100)]
          else NvObj [(''free_stake'', NvBig 500), (''x25519_pubkey'', NvBytes (replicate 32 3)), (''endpoint'', NvStr ''https://relay'')])"

definition demo_registry :: "(nat, string) RelayerRegistry" where
  "demo_registry = \<lparr>rr_rpc = \<lparr>ci_invoke = (\<lambda>_. ret ''tx''), ci_readNative = demo_read, ci_simulateInvoke = None,
      ci_events = \<lparr>getEvents = (\<lambda>_. throw (Error ''offline'')), getLatestLedger = ret 100\<rparr>\<rparr>,
     rr_contractId = ''CREGISTRY'', rr_scval = string_scval\<rparr>"

definition demo_net :: "jv \<Rightarrow> nat gateway_net" where
  "demo_net answer =
     \<lparr>gn_runtime = \<lparr>rt_now = (\<lambda>w. (int w, w)), rt_random = (\<lambda>w. (0, w)), rt_sleep = (\<lambda>_ w. w)\<rparr>, gn_nativeTimeout = True,
      gn_fetch = (\<lambda>target init signal w.
        if take 9 target = ''https://a'' then (Inr \<lparr>ha_status = 503, ha_text = Inr []\<rparr>, w + 1)
        else if take 9 target = ''https://b'' then (Inr \<lparr>ha_status = 200, ha_text = Inr (json_stringify answer)\<rparr>, w + 1)
        else (Inl (timer_error signal), w + 1)),
      gn_timedOut = (\<lambda>_. False), gn_url = (\<lambda>path base. Inr (base @ path)),
      gn_randomBytes = (\<lambda>n w. (Inr (replicate n 1), w)), gn_random32 = (\<lambda>w. (Inr 5, w))\<rparr>"

definition demo_gateway :: "string list \<Rightarrow> jv \<Rightarrow> (nat, string) RelayerGateway" where
  "demo_gateway urls answer =
     \<lparr>gw_urls = urls, gw_registry = demo_registry, gw_net = demo_net answer, gw_lib = example_lib, gw_nacl = example_nacl,
      gw_timeoutMs = 10000, gw_retries = 2\<rparr>"

definition sdk_bid :: RelayerBid where
  "sdk_bid = projr (sdk_makeBid example_lib example_advert example_keypair (replicate 32 3) (Some ''https://me'') (Some 500))"

definition node_bid :: RelayerBid where
  "node_bid = projr (makeBid example_lib example_advert example_keypair (replicate 32 3) (Some ''https://me'') (Some 500))"

definition one_bid :: "RelayerBid \<Rightarrow> jv" where
  "one_bid b = JObj [(''bids'', JArr [bid_json b])]"

lemma demo_fetch:
  assumes "json_printable answer"
  shows "gatewayFetch (demo_gateway [''https://a'', ''https://b''] answer) path init no_options w = (Inr answer, w + 2)"
  using assms
  by (simp add: gatewayFetch_def demo_gateway_def demo_net_def no_options_def numeral_2_eq_2 try_gateway_def gateway_of_def gw_url_def
      ends_with_slash_def Let_def bnd_def of_res_def try_catch_def sleep_ms_def isRetryableGatewayStatus_def json_parse_stringify)


lemma timed_out_request_is_not_retried_witness:
  "gatewayFetch (demo_gateway [''https://slow'', ''https://b''] (JObj [])) ''v1/jobs'' \<lparr>fi_method = ''GET'', fi_headers = [], fi_body = None\<rparr> no_options 0
     = (Inl (GatewayError ''Gateway request failed: The operation was aborted due to timeout'' None None), 1)"
  by (rule timed_out_request_is_not_retried [where target = "''https://slow/v1/jobs''"])
     (simp_all add: demo_gateway_def demo_net_def no_options_def gw_url_def gateway_of_def ends_with_slash_def)

lemma sdk_bid_valid: "sdk_validateBid (bid_json sdk_bid) = Inr sdk_bid"
  unfolding sdk_validateBid_agrees
  by (rule validateBid_json) (auto simp: sdk_bid_def sdk_makeBid_def example_advert_def sdk_bidSigningDigest_def)

lemma sdk_bid_for_job: "bid_for_job example_lib (adv_jobId example_advert) sdk_bid"
  by (simp add: bid_for_job_def sdk_verifyBid_def sdk_bid_def sdk_makeBid_def example_advert_def sdk_bidSigningDigest_def catch_false_def
      example_lib_def example_keypair_def RELAY_CHAIN_STELLAR_def)

lemma node_bid_made: "makeBid example_lib example_advert example_keypair (replicate 32 3) (Some ''https://me'') (Some 500) = Inr node_bid"
  by (simp add: node_bid_def makeBid_def example_advert_def bidSigningDigest_def bidPreimage_def)

lemma node_bid_valid: "sdk_validateBid (bid_json node_bid) = Inr node_bid"
  unfolding sdk_validateBid_agrees
  by (rule validateBid_json) (auto simp: node_bid_def makeBid_def example_advert_def bidSigningDigest_def bidPreimage_def)

lemma bids_printable: "json_printable (one_bid sdk_bid)" "json_printable (one_bid node_bid)"
  by (simp_all add: one_bid_def bid_json_def sdk_bid_def node_bid_def sdk_makeBid_def makeBid_def example_advert_def
      sdk_bidSigningDigest_def bidSigningDigest_def bidPreimage_def is_integer_def)

lemma one_bid_received:
  "sdk_validateBid (bid_json b) = Inr b \<Longrightarrow> received_bids (one_bid b) = Inr [b]"
  by (simp add: received_bids_def one_bid_def body_field_def jv_get_def nullish_def)

lemma demo_verified:
  "verifyBidRegistryState (demo_gateway urls answer) (adv_jobId example_advert) sdk_bid w
     = (Inr (Some \<lparr>vb_bid = sdk_bid\<lparr>bid_endpoint := JStr ''https://relay'', bid_freeStake := JStr (dec_of_int 500)\<rparr>, vb_freeStakeValue = 500\<rparr>), w)"
  by (simp add: verifyBidRegistryState_def registryView_def reg_read_def demo_gateway_def demo_registry_def demo_read_def string_scval_def
      check_bid_def nv_big_field_def nv_num_field_def nv_get_def nv_bytes_def endpoint_of_def js_trim_def is_ws_def try_catch_def bnd_def of_res_def
      sdk_bid_def sdk_makeBid_def example_advert_def sdk_bidSigningDigest_def)

lemma demo_bids:
  "\<exists>b. fetchBids (demo_gateway [''https://a'', ''https://b''] (one_bid sdk_bid)) (adv_jobId example_advert) no_options 0 = (Inr [b], 2)"
  by (simp add: fetchBids_def bnd_def demo_fetch bids_printable of_res_def one_bid_received sdk_bid_valid demo_verified
      sdk_bid_for_job demo_gateway_def [THEN arg_cong, of gw_lib])

theorem fetched_bids_are_backed_witness:
  "\<exists>b raw. fetchBids (demo_gateway [''https://a'', ''https://b''] (one_bid sdk_bid)) (adv_jobId example_advert) no_options 0 = (Inr [b], 2)
     \<and> sdk_verifyBid example_lib raw \<and> backed (demo_gateway [''https://a'', ''https://b''] (one_bid sdk_bid)) (adv_jobId example_advert) raw b"
proof -
  obtain b where b: "fetchBids (demo_gateway [''https://a'', ''https://b''] (one_bid sdk_bid)) (adv_jobId example_advert) no_options 0 = (Inr [b], 2)"
    using demo_bids by blast
  from fetched_bids_are_backed [OF this, of b] b show ?thesis by (auto simp: demo_gateway_def)
qed

lemma relayer_bids_are_dropped_witness:
  "fetchBids (demo_gateway [''https://a'', ''https://b''] (one_bid node_bid)) (adv_jobId example_advert) no_options 0 = (Inr [], 2)"
  by (rule relayer_bids_are_dropped [where operators = "{example_keypair}" and bids = "[node_bid]" and body = "one_bid node_bid"])
     (use node_bid_made demo_fetch [OF bids_printable(2), of _ _ 0] in
       \<open>auto simp: one_bid_received node_bid_valid demo_gateway_def example_lib_def sound_signer_def inj_def example_keypair_def\<close>)

lemma choice_weighted_by_stake_witness:
  "card {t. 0 \<le> t \<and> t < total_stake [\<lparr>vb_bid = sdk_bid, vb_freeStakeValue = 30\<rparr>, \<lparr>vb_bid = node_bid, vb_freeStakeValue = 10\<rparr>]
       \<and> pick_loop [\<lparr>vb_bid = sdk_bid, vb_freeStakeValue = 30\<rparr>, \<lparr>vb_bid = node_bid, vb_freeStakeValue = 10\<rparr>] t
         = Some \<lparr>vb_bid = sdk_bid, vb_freeStakeValue = 30\<rparr>} = 30"
proof -
  let ?bids = "[\<lparr>vb_bid = sdk_bid, vb_freeStakeValue = 30\<rparr>, \<lparr>vb_bid = node_bid, vb_freeStakeValue = 10\<rparr>]"
  have "gn_random32 (demo_net JNull) 0 = (Inr 5, 0)" by (simp add: demo_net_def)
  from conjunct2 [OF choice_weighted_by_stake [of ?bids, OF _ _ this this]]
  show ?thesis by simp
qed

text \<open>A hash of 32 bytes, a node that uses it, and a chain on which every job is open and carries that hash.\<close>

definition short_lib :: stellar_lib where
  "short_lib = example_lib\<lparr>keccak_256 := (\<lambda>_. replicate 32 8)\<rparr>"

definition demo_job :: OnChainJob where
  "demo_job = example_job\<lparr>job_payloadHash := bytesToHex (replicate 32 8)\<rparr>"

definition demo_node :: "AcceptedJobEntry list option RelayerEngineConfig" where
  "demo_node = (example_cfg (\<lambda>_. ret ''sub''))\<lparr>cfg_lib := short_lib, cfg_chain := (job_chain (\<lambda>_. ret ''sub''))\<lparr>getJob := (\<lambda>_. ret (Some demo_job))\<rparr>\<rparr>"

definition demo_proof :: PoolWithdrawProof where
  "demo_proof = \<lparr>wp_proofA = replicate 64 1, wp_proofB = replicate 128 2, wp_proofC = replicate 64 3, wp_withdrawnValue = 1000,
     wp_stateRoot = replicate 32 4, wp_aspRoot = replicate 32 5, wp_nullifierHash = replicate 32 6, wp_newCommitment = replicate 32 7,
     wp_change = (([], []), 0)\<rparr>"

definition demo_draft :: RelayerJobDraft where
  "demo_draft = projr (fst (buildRelayerJobDraft (demo_net JNull) short_lib
     (buildRelayedWithdrawPayload ''CPOOL'' ''CREGISTRY'' demo_proof ''GME'') 100 500 (Some (replicate 32 9)) 0))"

lemma demo_draft_built:
  "buildRelayerJobDraft (demo_net JNull) short_lib (buildRelayedWithdrawPayload ''CPOOL'' ''CREGISTRY'' demo_proof ''GME'') 100 500
     (Some (replicate 32 9)) 0 = (Inr demo_draft, 0)"
  by (simp add: demo_draft_def buildRelayerJobDraft_def bnd_def of_res_def sdk_makeAdvert_def hashPoolWithdrawPayload_def
      poolWithdrawPayloadPreimage_def buildRelayedWithdrawPayload_def demo_proof_def short_lib_def example_lib_def i128ToBytes_def Let_def)

theorem delivered_payload_is_committed_witness:
  "\<exists>box w' msg. seal_payload (demo_gateway [''https://b''] JNull) demo_draft (sdk_bid\<lparr>bid_x25519Pk := bytesToHex (replicate 32 3)\<rparr>) 0 = (Inr box, w')
     \<and> accept_phase demo_node msg (example_engine, None) = commit_acceptance demo_node (dr_jobIdHex demo_draft) (dr_payload demo_draft) demo_job (example_engine, None)"
proof -
  have node: "cfg_lib demo_node = short_lib" "cfg_nacl demo_node = example_nacl" "cfg_x25519SecretKey demo_node = replicate 32 3"
    "getJob (cfg_chain demo_node) j u = (Inr (Some demo_job), u)" for j u
    by (simp_all add: demo_node_def example_cfg_def)
  have random: "random_ok (gw_net (demo_gateway [''https://b''] JNull))" "gw_nacl (demo_gateway [''https://b''] JNull) = cfg_nacl demo_node"
    by (simp_all add: random_ok_def demo_gateway_def demo_net_def node)
  have draft: "buildRelayerJobDraft (demo_net JNull) (cfg_lib demo_node) (buildRelayedWithdrawPayload ''CPOOL'' ''CREGISTRY'' demo_proof ''GME'')
      100 500 (Some (replicate 32 9)) 0 = (Inr demo_draft, 0)"
    by (simp add: node demo_draft_built)
  have hash: "dr_payloadHashHex demo_draft = bytesToHex (replicate 32 8)"
    using draft_Inr [OF demo_draft_built] by (auto simp: hashPoolWithdrawPayload_def res_bind_eq_Inr short_lib_def)
  have "\<exists>box w' msg. seal_payload (demo_gateway [''https://b''] JNull) demo_draft (sdk_bid\<lparr>bid_x25519Pk := bytesToHex (replicate 32 3)\<rparr>) 0 = (Inr box, w')
     \<and> res_bind (json_parse (the (fi_body (delivery_request demo_draft (sdk_bid\<lparr>bid_x25519Pk := bytesToHex (replicate 32 3)\<rparr>) box)))) validatePayload = Inr msg
     \<and> enc_jobId msg = dr_jobIdHex demo_draft \<and> enc_to msg = bid_x25519Pk (sdk_bid\<lparr>bid_x25519Pk := bytesToHex (replicate 32 3)\<rparr>)
     \<and> accept_phase demo_node msg (example_engine, None) = commit_acceptance demo_node (dr_jobIdHex demo_draft) (dr_payload demo_draft) demo_job (example_engine, None)"
    by (rule delivered_payload_is_committed [OF draft _ random])
       (simp_all add: node example_nacl_ok demo_job_def example_job_def hash hasDeadlineHeadroom_def demo_node_def example_cfg_def job_chain_def
          bnd_def try_catch_def on_snd_def, simp_all add: example_nacl_def)
  then show ?thesis by blast
qed

end
