(* ===== verification/Sdk_Schema.thy ===== *)
theory Sdk_Schema
  imports Relayer_Payload Rate_Limit
begin

text \<open>
  Schemas and attestation data, \<^verbatim>\<open>sdk/src/crypto/schema-codec.ts\<close> and \<^verbatim>\<open>schema-types.ts\<close>: the
  textual field definitions, their canonical bytes and the schema id, and the packing of field values into bytes. SHA-256 and
  the decoding of an account address are arguments. A record of values is a map from field names; names of properties that
  every object inherits are not treated. The offset of the decoder is kept as the bytes that are left.
\<close>

section \<open>Field definitions\<close>

datatype FieldType = TBool | TU8 | TU16 | TU32 | TU64 | TString | TPubkey

record FieldDef =
  fd_id :: string
  fd_name :: string
  fd_type :: FieldType

definition MAX_FIELDS :: nat where "MAX_FIELDS = 16"
definition MAX_FIELD_NAME_LEN :: nat where "MAX_FIELD_NAME_LEN = 32"
definition MAX_STRING_VALUE_LEN :: nat where "MAX_STRING_VALUE_LEN = 128"
definition MAX_ATTESTATION_DATA_LEN :: nat where "MAX_ATTESTATION_DATA_LEN = 512"

fun type_name :: "FieldType \<Rightarrow> string" where
  "type_name TBool = ''bool''" | "type_name TU8 = ''u8''" | "type_name TU16 = ''u16''" | "type_name TU32 = ''u32''"
| "type_name TU64 = ''u64''" | "type_name TString = ''string''" | "type_name TPubkey = ''pubkey''"

definition all_types :: "FieldType list" where
  "all_types = [TBool, TU8, TU16, TU32, TU64, TString, TPubkey]"

definition type_of_name :: "string \<Rightarrow> FieldType option" where
  "type_of_name s = find (\<lambda>t. type_name t = s) all_types"

fun FIELD_TYPE_IDS :: "FieldType \<Rightarrow> nat" where
  "FIELD_TYPE_IDS TBool = 0" | "FIELD_TYPE_IDS TU8 = 1" | "FIELD_TYPE_IDS TU16 = 2" | "FIELD_TYPE_IDS TU32 = 3"
| "FIELD_TYPE_IDS TU64 = 4" | "FIELD_TYPE_IDS TString = 5" | "FIELD_TYPE_IDS TPubkey = 6"

definition is_letter :: "char \<Rightarrow> bool" where
  "is_letter c \<longleftrightarrow> (97 \<le> (of_char c :: nat) \<and> (of_char c :: nat) \<le> 122) \<or> (65 \<le> (of_char c :: nat) \<and> (of_char c :: nat) \<le> 90)"

definition isValidFieldName :: "string \<Rightarrow> bool" where
  "isValidFieldName name \<longleftrightarrow>
     (case name of [] \<Rightarrow> False
      | c # cs \<Rightarrow> length name \<le> MAX_FIELD_NAME_LEN \<and> (is_letter c \<or> c = CHR ''_'')
                  \<and> list_all (\<lambda>d. is_letter d \<or> is_digit d \<or> d = CHR ''_'') cs)"

definition fieldDefsToCanonicalString :: "FieldDef list \<Rightarrow> string" where
  "fieldDefsToCanonicalString defs =
     join_with '','' (map (\<lambda>f. type_name (fd_type f) @ '' '' @ js_trim (fd_name f)) (filter (\<lambda>f. js_trim (fd_name f) \<noteq> []) defs))"

text \<open>One segment, with the fields before it.\<close>

definition parse_segment :: "FieldDef list \<Rightarrow> string \<Rightarrow> FieldDef res" where
  "parse_segment defs segment =
     (let seg = js_trim segment in
      if seg = [] then Inl (SchemaParseError ''Malformed field segment'')
      else if CHR '' '' \<notin> set seg
      then Inl (SchemaParseError (''Expected '' @ [quote_char] @ ''type name'' @ [quote_char] @ '' format (legacy '' @ [quote_char] @ ''name:type'' @ [quote_char] @ '' is not supported)''))
      else let ty = js_trim (takeWhile (\<lambda>c. c \<noteq> CHR '' '') seg);
               name = js_trim (drop 1 (dropWhile (\<lambda>c. c \<noteq> CHR '' '') seg))
           in if CHR '' '' \<in> set name then Inl (SchemaParseError (''Invalid field type: '' @ ty))
              else (case type_of_name ty of
                      None \<Rightarrow> Inl (SchemaParseError (''Invalid field type: '' @ ty))
                    | Some t \<Rightarrow>
                        if \<not> isValidFieldName name then Inl (SchemaParseError (''Invalid field name: '' @ name))
                        else if \<exists>f \<in> set defs. fd_name f = name then Inl (SchemaParseError (''Duplicate field name: '' @ name))
                        else Inr \<lparr>fd_id = dec_of_nat (length defs), fd_name = name, fd_type = t\<rparr>))"

fun parse_segments :: "FieldDef list \<Rightarrow> string list \<Rightarrow> FieldDef list res" where
  "parse_segments defs [] = Inr defs"
| "parse_segments defs (segment # segments) =
     res_bind (parse_segment defs segment) (\<lambda>f.
       if length (defs @ [f]) > MAX_FIELDS then Inl (SchemaParseError ''Too many fields'')
       else parse_segments (defs @ [f]) segments)"

definition parseFieldDefinitions :: "string \<Rightarrow> FieldDef list res" where
  "parseFieldDefinitions fieldDefs =
     (let trimmed = js_trim fieldDefs in
      if trimmed = [] then Inl (SchemaParseError ''Field definitions cannot be empty'')
      else res_bind (parse_segments [] (split_on CHR '','' trimmed)) (\<lambda>defs.
             if length (fieldDefsToCanonicalString defs) > 256 then Inl (SchemaParseError ''Field definitions too long'')
             else Inr defs))"

definition encode_def :: "FieldDef \<Rightarrow> byte list" where
  "encode_def f = of_nat (FIELD_TYPE_IDS (fd_type f)) # of_nat (length (utf8 (fd_name f))) # utf8 (fd_name f)"

definition encodeCanonicalFieldDefs :: "FieldDef list \<Rightarrow> byte list" where
  "encodeCanonicalFieldDefs defs = of_nat (length defs) # concat (map encode_def defs)"


section \<open>Schema ids\<close>

definition addressToAuthorityBytes :: "(string \<Rightarrow> byte list res) \<Rightarrow> string \<Rightarrow> byte list res" where
  "addressToAuthorityBytes decodeEd25519PublicKey address = decodeEd25519PublicKey address"

definition schema_preimage :: "byte list \<Rightarrow> string \<Rightarrow> FieldDef list \<Rightarrow> int \<Rightarrow> byte list" where
  "schema_preimage authorityBytes name defs version =
     authorityBytes @ utf8 name @ be_bytes 4 (nat (version mod 2 ^ 32)) @ encodeCanonicalFieldDefs defs"

definition computeSchemaIdFromBytes :: "(byte list \<Rightarrow> byte list) \<Rightarrow> byte list \<Rightarrow> string \<Rightarrow> string \<Rightarrow> int \<Rightarrow> byte list res" where
  "computeSchemaIdFromBytes sha256 authorityBytes name fieldDefinitions version =
     res_bind (parseFieldDefinitions fieldDefinitions) (\<lambda>defs. Inr (sha256 (schema_preimage authorityBytes name defs version)))"

definition computeSchemaId ::
    "(byte list \<Rightarrow> byte list) \<Rightarrow> (string \<Rightarrow> byte list res) \<Rightarrow> string \<Rightarrow> string \<Rightarrow> string \<Rightarrow> int \<Rightarrow> byte list res" where
  "computeSchemaId sha256 decodeEd25519PublicKey authority name fieldDefinitions version =
     res_bind (addressToAuthorityBytes decodeEd25519PublicKey authority) (\<lambda>bytes.
       computeSchemaIdFromBytes sha256 bytes name fieldDefinitions version)"


section \<open>Values\<close>

definition parseBool :: "string \<Rightarrow> bool res" where
  "parseBool value =
     (let v = js_trim value in
      if v = ''true'' \<or> v = ''1'' then Inr True
      else if v = ''false'' \<or> v = ''0'' \<or> v = [] then Inr False
      else Inl (AttestationDataError (''Invalid bool: '' @ value)))"

definition parseUint :: "string \<Rightarrow> nat \<Rightarrow> nat res" where
  "parseUint value maximum =
     (let v = js_trim value in
      if v = [] then Inr 0
      else if \<not> list_all is_digit v then Inl (AttestationDataError (''Invalid integer: '' @ value))
      else let n = nat_of_dec v in
           if n > maximum then Inl (AttestationDataError (''Integer out of range: '' @ value)) else Inr n)"

text \<open>\<open>parseInt(s, 16)\<close>, with no value for \<open>NaN\<close>, and what a byte array stores of it.\<close>

definition parseInt16 :: "string \<Rightarrow> int option" where
  "parseInt16 s =
     (let t = dropWhile is_ws s;
          neg = (t \<noteq> [] \<and> hd t = CHR ''-'');
          u = (if t \<noteq> [] \<and> (hd t = CHR ''-'' \<or> hd t = CHR ''+'') then tl t else t);
          v = (if length u \<ge> 2 \<and> hd u = CHR ''0'' \<and> lower_char (u ! 1) = CHR ''x'' then drop 2 u else u);
          digits = takeWhile is_hex v
      in if digits = [] then None else Some (if neg then - int (nat_of_hex digits) else int (nat_of_hex digits)))"

definition stored_byte :: "int option \<Rightarrow> byte" where
  "stored_byte n = (case n of None \<Rightarrow> 0 | Some i \<Rightarrow> word_of_int i)"

definition strip_0X :: "string \<Rightarrow> string" where
  "strip_0X s = (if length s \<ge> 2 \<and> hd s = CHR ''0'' \<and> lower_char (s ! 1) = CHR ''x'' then drop 2 s else s)"

definition parsePubkeyHex :: "string \<Rightarrow> byte list res" where
  "parsePubkeyHex value =
     (let hex = strip_0X (js_trim value) in
      if length hex \<noteq> 64 then Inl (AttestationDataError ''Invalid pubkey hex'')
      else Inr (map (\<lambda>i. stored_byte (parseInt16 (take 2 (drop (2 * i) hex)))) [0..<32]))"


section \<open>Attestation data\<close>

fun encode_value :: "FieldType \<Rightarrow> string \<Rightarrow> byte list res" where
  "encode_value TBool value = res_bind (parseBool value) (\<lambda>b. Inr [if b then 1 else 0])"
| "encode_value TU8 value = res_bind (parseUint value 255) (\<lambda>n. Inr [of_nat n])"
| "encode_value TU16 value = res_bind (parseUint value 65535) (\<lambda>n. Inr (be_bytes 2 n))"
| "encode_value TU32 value = res_bind (parseUint value 4294967295) (\<lambda>n. Inr (be_bytes 4 n))"
| "encode_value TU64 value = res_bind (parseUint value 18446744073709551615) (\<lambda>n. Inr (be_bytes 8 n))"
| "encode_value TString value =
     (if length (utf8 value) > MAX_STRING_VALUE_LEN then Inl (AttestationDataError ''String value too long'')
      else Inr (be_bytes 2 (length (utf8 value)) @ utf8 value))"
| "encode_value TPubkey value = parsePubkeyHex value"

fun encode_fields :: "(string \<Rightarrow> string option) \<Rightarrow> FieldDef list \<Rightarrow> byte list res" where
  "encode_fields fieldValues [] = Inr []"
| "encode_fields fieldValues (f # fs) =
     res_bind (encode_value (fd_type f) (case fieldValues (fd_name f) of Some v \<Rightarrow> v | None \<Rightarrow> [])) (\<lambda>part.
     res_bind (encode_fields fieldValues fs) (\<lambda>parts. Inr (part @ parts)))"

definition encodeAttestationData :: "(string \<Rightarrow> string option) \<Rightarrow> FieldDef list \<Rightarrow> byte list res" where
  "encodeAttestationData fieldValues fieldDefs =
     res_bind (encode_fields fieldValues fieldDefs) (\<lambda>out.
       if length out > MAX_ATTESTATION_DATA_LEN then Inl (AttestationDataError ''Attestation data too large'') else Inr out)"

definition be_value :: "byte list \<Rightarrow> nat" where
  "be_value bs = foldl (\<lambda>n b. 256 * n + unat b) 0 bs"

definition decode_uint :: "nat \<Rightarrow> string \<Rightarrow> byte list \<Rightarrow> (string \<times> byte list) res" where
  "decode_uint width what data =
     (if width > length data then Inl (AttestationDataError (''Truncated '' @ what))
      else Inr (dec_of_nat (be_value (take width data)), drop width data))"

text \<open>The text of one field and the bytes left after it.\<close>

fun decode_value :: "FieldType \<Rightarrow> byte list \<Rightarrow> (string \<times> byte list) res" where
  "decode_value TBool data =
     (case data of [] \<Rightarrow> Inl (AttestationDataError ''Truncated bool'')
      | b # rest \<Rightarrow> Inr (if b = 1 then ''true'' else ''false'', rest))"
| "decode_value TU8 data = decode_uint 1 ''u8'' data"
| "decode_value TU16 data = decode_uint 2 ''u16'' data"
| "decode_value TU32 data = decode_uint 4 ''u32'' data"
| "decode_value TU64 data = decode_uint 8 ''u64'' data"
| "decode_value TString data =
     (if 2 > length data then Inl (AttestationDataError ''Truncated string length'')
      else let len = be_value (take 2 data); rest = drop 2 data in
           if len > length rest then Inl (AttestationDataError ''Truncated string'')
           else Inr (text_decode (take len rest), drop len rest))"
| "decode_value TPubkey data =
     (if 32 > length data then Inl (AttestationDataError ''Truncated pubkey'')
      else Inr (''0x'' @ concat (map hex2 (take 32 data)), drop 32 data))"

fun decode_fields :: "byte list \<Rightarrow> FieldDef list \<Rightarrow> (string \<times> string) list \<Rightarrow> (string \<times> string) list res" where
  "decode_fields data [] result =
     (if data \<noteq> [] then Inl (AttestationDataError ''Trailing bytes in attestation data'') else Inr result)"
| "decode_fields data (f # fs) result =
     res_bind (decode_value (fd_type f) data) (\<lambda>(v, rest). decode_fields rest fs (AList.update (fd_name f) v result))"

definition decodeAttestationData :: "byte list \<Rightarrow> FieldDef list \<Rightarrow> (string \<times> string) list res" where
  "decodeAttestationData data fieldDefs = decode_fields data fieldDefs []"

end
