(* ===== verification/Sdk_Schema_Props.thy ===== *)
theory Sdk_Schema_Props
  imports Sdk_Schema
begin

text \<open>
  Properties of schemas and attestation data: the decoder accepts exactly the bytes that have the shape of the schema, packed
  values are read back, definitions survive printing and parsing, and the bytes under a schema id bind everything that
  makes up the schema.
\<close>

section \<open>Numbers as bytes\<close>

lemma be_value_snoc: "be_value (bs @ [b]) = 256 * be_value bs + unat b"
  by (simp add: be_value_def)

lemma be_value_single: "be_value [b] = unat b"
  by (simp add: be_value_def)

lemma be_value_Nil [simp]: "be_value [] = 0"
  by (simp add: be_value_def)

lemma be_value_be_bytes: "be_value (be_bytes n x) = x mod 256 ^ n"
proof (induction n x rule: be_bytes.induct)
  case (2 n x)
  then show ?case by (simp add: be_value_snoc mod_mult2_eq unat_of_nat)
qed simp

lemma byte_shift: "(256 :: byte) * b = 0"
proof -
  have "(256 :: byte) = 0" by code_simp
  then show ?thesis by (rule ssubst) simp
qed

lemma be_bytes_be_value: "be_bytes (length bs) (be_value bs) = bs"
proof (induction bs rule: rev_induct)
  case (snoc b bs)
  have "unat b < 256" using unsigned_less [of b, where ?'a = nat] by simp
  then have "(256 * be_value bs + unat b) div 256 = be_value bs" by simp
  then show ?case
    using snoc by (simp add: be_value_snoc byte_shift)
qed simp


section \<open>Shapes\<close>

text \<open>The bytes that one value of a type takes, and the text they stand for.\<close>

fun shape :: "FieldType \<Rightarrow> byte list \<Rightarrow> bool" where
  "shape TBool p \<longleftrightarrow> length p = 1"
| "shape TU8 p \<longleftrightarrow> length p = 1"
| "shape TU16 p \<longleftrightarrow> length p = 2"
| "shape TU32 p \<longleftrightarrow> length p = 4"
| "shape TU64 p \<longleftrightarrow> length p = 8"
| "shape TString p \<longleftrightarrow> 2 \<le> length p \<and> be_value (take 2 p) = length p - 2"
| "shape TPubkey p \<longleftrightarrow> length p = 32"

fun value_text :: "FieldType \<Rightarrow> byte list \<Rightarrow> string" where
  "value_text TBool p = (if p = [1] then ''true'' else ''false'')"
| "value_text TString p = text_decode (drop 2 p)"
| "value_text TPubkey p = ''0x'' @ concat (map hex2 p)"
| "value_text _ p = dec_of_nat (be_value p)"

definition well_typed :: "FieldDef list \<Rightarrow> byte list \<Rightarrow> bool" where
  "well_typed defs bytes \<longleftrightarrow> (\<exists>parts. list_all2 (\<lambda>f p. shape (fd_type f) p) defs parts \<and> bytes = concat parts)"

lemma decode_value_shaped: "shape t p \<Longrightarrow> decode_value t (p @ rest) = Inr (value_text t p, rest)"
proof (cases t)
  case TBool
  assume "shape t p"
  then obtain b where "p = [b]" using TBool by (auto simp: length_Suc_conv)
  then show ?thesis by (simp add: TBool)
qed (auto simp: decode_uint_def Let_def)

lemma decode_uint_Inr: "decode_uint n what data = Inr (v, rest) \<Longrightarrow> length (take n data) = n \<and> data = take n data @ rest \<and> v = dec_of_nat (be_value (take n data))"
  by (auto simp: decode_uint_def split: if_splits)

lemma decode_value_Inr:
  assumes "decode_value t data = Inr (v, rest)"
  shows "\<exists>p. shape t p \<and> data = p @ rest \<and> v = value_text t p"
proof (cases t)
  case TBool
  then show ?thesis using assms by (cases data) (auto intro!: exI [of _ "[hd data]"])
next
  case TString
  let ?p = "take (2 + be_value (take 2 data)) data"
  have "data = ?p @ drop (be_value (take 2 data)) (drop 2 data)" by (metis add.commute append_take_drop_id drop_drop)
  moreover have "v = text_decode (drop 2 ?p)" "rest = drop (be_value (take 2 data)) (drop 2 data)" "2 + be_value (take 2 data) \<le> length data"
    using assms TString by (auto simp: Let_def drop_take split: if_splits)
  ultimately show ?thesis by (intro exI [of _ ?p]) (simp add: TString numeral_2_eq_2)
next
  case TPubkey
  then show ?thesis using assms by (auto intro!: exI [of _ "take 32 data"] split: if_splits)
qed (use assms in \<open>auto dest!: decode_uint_Inr intro!: exI [of _ "take _ data"]\<close>)

definition put_texts :: "(FieldDef \<times> byte list) list \<Rightarrow> (string \<times> string) list \<Rightarrow> (string \<times> string) list" where
  "put_texts fps r = foldl (\<lambda>r (f, p). AList.update (fd_name f) (value_text (fd_type f) p) r) r fps"

lemma decode_fields_shaped:
  "list_all2 (\<lambda>f p. shape (fd_type f) p) defs parts \<Longrightarrow> decode_fields (concat parts) defs r = Inr (put_texts (zip defs parts) r)"
proof (induction defs parts arbitrary: r rule: list_all2_induct)
  case (Cons f fs p ps)
  then show ?case by (simp add: decode_value_shaped put_texts_def)
qed (simp add: put_texts_def)

lemma decode_fields_Inr: "decode_fields data defs r = Inr out \<Longrightarrow> well_typed defs data"
proof (induction data defs r rule: decode_fields.induct)
  case (1 data result)
  then show ?case by (simp add: well_typed_def split: if_splits)
next
  case (2 data f fs result)
  then obtain v rest where v: "decode_value (fd_type f) data = Inr (v, rest)"
    and rest: "decode_fields rest fs (AList.update (fd_name f) v result) = Inr out"
    by (auto simp: res_bind_eq_Inr)
  obtain p where p: "shape (fd_type f) p" "data = p @ rest" using decode_value_Inr [OF v] by blast
  obtain ps where "list_all2 (\<lambda>f p. shape (fd_type f) p) fs ps" "rest = concat ps"
    using 2 (1) [OF rest] by (auto simp: well_typed_def)
  then show ?case using p unfolding well_typed_def by (intro exI [of _ "p # ps"]) simp
qed



section \<open>Packing and reading back\<close>

lemma parseUint_Inr: "parseUint v m = Inr n \<Longrightarrow> n \<le> m"
  by (auto simp: parseUint_def Let_def split: if_splits)

lemma js_trim_dec: "js_trim (dec_of_nat n) = dec_of_nat n"
  by (rule js_trim_id) (use last_dec_of_nat hd_dec_of_nat in \<open>auto simp: is_digit_not_ws\<close>)

lemma parseUint_dec: "n \<le> m \<Longrightarrow> parseUint (dec_of_nat n) m = Inr n"
  by (simp add: parseUint_def js_trim_dec dec_of_nat_digits)

lemma hex_char_plain:
  assumes "n < 16"
  shows "\<not> is_ws (hex_char n)" "hex_char n \<noteq> CHR ''-''" "hex_char n \<noteq> CHR ''+''" "lower_char (hex_char n) \<noteq> CHR ''x''" "hex_char n \<noteq> CHR ''x''"
proof -
  have "is_hex (hex_char n)" using assms by simp
  then have h: "(of_char (hex_char n) :: nat) \<notin> {9, 10, 11, 12, 13, 32, 43, 45, 120}"
    by (auto simp: is_hex_def is_digit_def)
  then show "\<not> is_ws (hex_char n)" by (simp add: is_ws_def)
  show "hex_char n \<noteq> CHR ''-''" "hex_char n \<noteq> CHR ''+''" "hex_char n \<noteq> CHR ''x''" using h by auto
  then show "lower_char (hex_char n) \<noteq> CHR ''x''" using assms by simp
qed

lemma parseInt16_hex2: "parseInt16 (hex2 b) = Some (int (unat b))"
proof -
  have b: "unat b div 16 < 16" "unat b mod 16 < 16" using unsigned_less [of b, where ?'a = nat] by simp_all
  have "nat_of_hex (hex2 b) = unat b" using b by (simp add: nat_of_hex_def nat_of_digits_def hex2_def)
  then show ?thesis
    using b hex_char_plain [OF b(1)] hex_char_plain [OF b(2)] by (simp add: parseInt16_def hex2_def Let_def)
qed

lemma take_drop_hex: "i < length p \<Longrightarrow> take 2 (drop (2 * i) (concat (map hex2 p))) = hex2 (p ! i)"
proof (induction p arbitrary: i)
  case (Cons b p)
  then show ?case by (cases i) (simp_all add: hex2_def numeral_2_eq_2)
qed simp

lemma parsePubkeyHex_text:
  assumes "length p = 32"
  shows "parsePubkeyHex (''0x'' @ concat (map hex2 p)) = Inr p"
proof -
  have len: "length (concat (map hex2 p)) = 64" using assms by (simp add: length_concat hex2_def comp_def sum_list_triv)
  then obtain q b where q: "p = q @ [b]" using assms by (metis length_0_conv rev_exhaust zero_neq_numeral)
  have "js_trim (''0x'' @ concat (map hex2 p)) = ''0x'' @ concat (map hex2 p)"
    using hex_char_plain(1) [of "unat b mod 16"] by (intro js_trim_id) (simp add: q hex2_def is_ws_def [of "CHR ''0''"])
  moreover have "strip_0X (''0x'' @ concat (map hex2 p)) = concat (map hex2 p)"
    by (simp add: strip_0X_def lower_char_def)
  moreover have "map (\<lambda>i. stored_byte (parseInt16 (take 2 (drop (2 * i) (concat (map hex2 p)))))) [0..<32] = p"
    using assms by (intro nth_equalityI) (simp_all add: take_drop_hex parseInt16_hex2 stored_byte_def)
  ultimately show ?thesis using assms by (simp add: parsePubkeyHex_def len)
qed

lemma encode_value_shape:
  assumes "encode_value t v = Inr p"
  shows "shape t p \<and> encode_value t (value_text t p) = Inr p"
proof (cases t)
  case TBool
  then show ?thesis using assms by (auto simp: res_bind_eq_Inr parseBool_def js_trim_def Let_def is_ws_def split: if_splits)
next
  case TString
  then show ?thesis
    using assms by (auto simp: be_value_be_bytes MAX_STRING_VALUE_LEN_def split: if_splits)
next
  case TPubkey
  then have "length p = 32" using assms by (auto simp: parsePubkeyHex_def Let_def split: if_splits)
  then show ?thesis using TPubkey parsePubkeyHex_text by simp
qed (use assms in \<open>auto simp: res_bind_eq_Inr be_value_be_bytes be_value_single unat_of_nat parseUint_dec dest!: parseUint_Inr\<close>)

lemma encode_fields_Inr:
  "encode_fields vals defs = Inr bytes \<Longrightarrow>
     \<exists>parts. bytes = concat parts \<and> list_all2 (\<lambda>f p. shape (fd_type f) p \<and> encode_value (fd_type f) (value_text (fd_type f) p) = Inr p) defs parts"
proof (induction defs arbitrary: bytes)
  case (Cons f fs)
  then obtain part rest where "encode_value (fd_type f) (case vals (fd_name f) of Some v \<Rightarrow> v | None \<Rightarrow> []) = Inr part"
    "encode_fields vals fs = Inr rest" "bytes = part @ rest"
    by (auto simp: res_bind_eq_Inr)
  moreover obtain parts where "rest = concat parts"
    "list_all2 (\<lambda>f p. shape (fd_type f) p \<and> encode_value (fd_type f) (value_text (fd_type f) p) = Inr p) fs parts"
    using Cons.IH calculation(2) by blast
  ultimately show ?case using encode_value_shape by (intro exI [of _ "part # parts"]) auto
qed simp

lemma put_texts_other: "fd_name ` fst ` set fps \<inter> {k} = {} \<Longrightarrow> map_of (put_texts fps r) k = map_of r k"
  by (induction fps arbitrary: r) (auto simp: put_texts_def update_conv')

lemma encode_fields_texts:
  assumes "list_all2 (\<lambda>f p. encode_value (fd_type f) (value_text (fd_type f) p) = Inr p) defs parts" "distinct (map fd_name defs)"
  shows "encode_fields (map_of (put_texts (zip defs parts) r)) defs = Inr (concat parts)"
  using assms
proof (induction defs parts arbitrary: r rule: list_all2_induct)
  case (Cons f fs p ps)
  let ?r = "AList.update (fd_name f) (value_text (fd_type f) p) r"
  have "map_of (put_texts (zip fs ps) ?r) (fd_name f) = Some (value_text (fd_type f) p)"
    using Cons.prems by (subst put_texts_other) (auto simp: update_conv' dest: set_zip_leftD)
  then show ?case using Cons by (simp add: put_texts_def)
qed simp



section \<open>Definitions and their text\<close>

definition parsed :: "FieldDef list \<Rightarrow> bool" where
  "parsed defs \<longleftrightarrow> distinct (map fd_name defs) \<and> length defs \<le> MAX_FIELDS
     \<and> (\<forall>i < length defs. isValidFieldName (fd_name (defs ! i)) \<and> fd_id (defs ! i) = dec_of_nat i)"

lemma parse_segment_Inr:
  "parse_segment defs seg = Inr f \<Longrightarrow> isValidFieldName (fd_name f) \<and> fd_id f = dec_of_nat (length defs) \<and> fd_name f \<notin> fd_name ` set defs"
  by (auto simp: parse_segment_def Let_def split: if_splits option.splits)

lemma parse_segments_parsed:
  "parsed defs \<Longrightarrow> parse_segments defs segs = Inr out \<Longrightarrow> parsed out \<and> length out = length defs + length segs"
proof (induction segs arbitrary: defs)
  case (Cons seg segs)
  then obtain f where f: "parse_segment defs seg = Inr f" "length defs < MAX_FIELDS" "parse_segments (defs @ [f]) segs = Inr out"
    by (auto simp: res_bind_eq_Inr split: if_splits)
  have "parsed (defs @ [f])"
    using Cons.prems(1) parse_segment_Inr [OF f(1)] f(2) by (auto simp: parsed_def nth_append less_Suc_eq)
  then show ?case using Cons.IH f(3) by fastforce
qed simp

lemma split_on_not_Nil: "split_on c s \<noteq> []"
  by (induction s) (auto split: list.splits)

lemma parseFieldDefinitions_parsed:
  assumes "parseFieldDefinitions s = Inr defs"
  shows "parsed defs" "defs \<noteq> []" "length (fieldDefsToCanonicalString defs) \<le> 256"
proof -
  have *: "parse_segments [] (split_on CHR '','' (js_trim s)) = Inr defs" "length (fieldDefsToCanonicalString defs) \<le> 256"
    using assms by (auto simp: parseFieldDefinitions_def Let_def res_bind_eq_Inr split: if_splits)
  have "parsed []" by (simp add: parsed_def)
  from parse_segments_parsed [OF this *(1)] * split_on_not_Nil [of "CHR '',''" "js_trim s"]
  show "parsed defs" "defs \<noteq> []" "length (fieldDefsToCanonicalString defs) \<le> 256" by auto
qed

lemma valid_name_char: "isValidFieldName name \<Longrightarrow> c \<in> set name \<Longrightarrow> is_letter c \<or> is_digit c \<or> c = CHR ''_''"
  by (cases name) (auto simp: isValidFieldName_def list_all_iff)

lemma name_char_plain:
  assumes "is_letter c \<or> is_digit c \<or> c = CHR ''_''"
  shows "\<not> is_ws c" "c \<noteq> CHR '',''" "c \<noteq> CHR '' ''" "48 \<le> (of_char c :: nat)" "(of_char c :: nat) < 256"
  using assms by (auto simp: is_letter_def is_digit_def is_ws_def)

lemma js_trim_plain: "(\<And>c. c \<in> set s \<Longrightarrow> \<not> is_ws c) \<Longrightarrow> js_trim s = s"
  by (rule js_trim_id) (cases s; auto)

definition def_text :: "FieldDef \<Rightarrow> string" where
  "def_text f = type_name (fd_type f) @ '' '' @ fd_name f"

lemma canonical_text:
  assumes "parsed defs"
  shows "fieldDefsToCanonicalString defs = join_with '','' (map def_text defs)"
proof -
  have v: "isValidFieldName (fd_name f)" if "f \<in> set defs" for f
    using assms that by (auto simp: parsed_def in_set_conv_nth)
  then have "js_trim (fd_name f) = fd_name f" if "f \<in> set defs" for f
    using that valid_name_char name_char_plain(1) by (intro js_trim_plain) blast
  moreover have "fd_name f \<noteq> []" if "f \<in> set defs" for f
    using v [OF that] by (auto simp: isValidFieldName_def)
  ultimately have "filter (\<lambda>f. js_trim (fd_name f) \<noteq> []) defs = defs"
    "map (\<lambda>f. type_name (fd_type f) @ '' '' @ js_trim (fd_name f)) defs = map def_text defs"
    by (auto simp: filter_id_conv def_text_def)
  then show ?thesis by (simp only: fieldDefsToCanonicalString_def)
qed

lemma split_on_plain: "c \<notin> set s \<Longrightarrow> split_on c s = [s]"
  by (induction s) auto

lemma split_on_join: "(\<And>s. s \<in> set ss \<Longrightarrow> c \<notin> set s) \<Longrightarrow> ss \<noteq> [] \<Longrightarrow> split_on c (join_with [c] ss) = ss"
proof (induction "[c]" ss rule: join_with.induct)
  case (2 s)
  then show ?case by (simp add: split_on_plain)
next
  case (3 s t r)
  have "split_on c (p @ c # rest) = p # split_on c rest" if "c \<notin> set p" for p rest
    using that by (induction p) auto
  then show ?case using 3 by simp
qed simp


lemma type_name_plain: "c \<in> set (type_name t) \<Longrightarrow> \<not> is_ws c \<and> c \<noteq> CHR '','' \<and> c \<noteq> CHR '' ''" "type_name t \<noteq> []" "\<not> is_ws (hd (type_name t))"
  by (cases t; auto simp: is_ws_def)+

lemma type_of_type_name: "type_of_name (type_name t) = Some t"
  by (cases t) (simp_all add: type_of_name_def all_types_def)

lemma parse_segment_text:
  assumes "isValidFieldName (fd_name f)" "fd_id f = dec_of_nat (length defs)" "fd_name f \<notin> fd_name ` set defs"
  shows "parse_segment defs (def_text f) = Inr f"
proof -
  have n: "\<not> is_ws c \<and> c \<noteq> CHR '' ''" if "c \<in> set (fd_name f)" for c
    using name_char_plain [OF valid_name_char [OF assms(1) that]] by simp
  have ne: "fd_name f \<noteq> []" using assms(1) by (auto simp: isValidFieldName_def)
  have trim: "js_trim (def_text f) = def_text f"
    using n ne type_name_plain by (intro js_trim_id) (auto simp: def_text_def hd_append)
  have parts: "takeWhile (\<lambda>c. c \<noteq> CHR '' '') (def_text f) = type_name (fd_type f)"
    "dropWhile (\<lambda>c. c \<noteq> CHR '' '') (def_text f) = CHR '' '' # fd_name f"
    using type_name_plain(1) by (auto simp: def_text_def takeWhile_append dropWhile_append)
  have "js_trim (type_name (fd_type f)) = type_name (fd_type f)" "js_trim (fd_name f) = fd_name f"
    using type_name_plain(1) n by (auto intro!: js_trim_plain)
  moreover have "CHR '' '' \<in> set (def_text f)" "CHR '' '' \<notin> set (fd_name f)" "def_text f \<noteq> []"
    using n by (auto simp: def_text_def)
  moreover have "\<not> (\<exists>g \<in> set defs. fd_name g = fd_name f)" using assms(3) by (metis imageI)
  ultimately show ?thesis
    using assms by (simp add: parse_segment_def Let_def trim parts type_of_type_name)
qed

lemma parse_segments_texts: "parsed (xs @ ys) \<Longrightarrow> parse_segments xs (map def_text ys) = Inr (xs @ ys)"
proof (induction ys arbitrary: xs)
  case (Cons f ys)
  have "parse_segment xs (def_text f) = Inr f"
    using Cons.prems by (intro parse_segment_text) (auto simp: parsed_def nth_append dest!: spec [of _ "length xs"])
  moreover have "length xs < MAX_FIELDS" using Cons.prems by (simp add: parsed_def)
  ultimately show ?case using Cons.IH [of "xs @ [f]"] Cons.prems by simp
qed simp

lemma join_with_ends:
  "\<forall>s \<in> set ss. s \<noteq> [] \<Longrightarrow> ss \<noteq> [] \<Longrightarrow> join_with sep ss \<noteq> [] \<and> hd (join_with sep ss) = hd (hd ss) \<and> last (join_with sep ss) = last (last ss)"
  by (induction sep ss rule: join_with.induct) auto

lemma def_text_ends:
  assumes "isValidFieldName (fd_name f)"
  shows "def_text f \<noteq> [] \<and> \<not> is_ws (hd (def_text f)) \<and> \<not> is_ws (last (def_text f)) \<and> CHR '','' \<notin> set (def_text f)"
proof -
  have "fd_name f \<noteq> []" using assms by (auto simp: isValidFieldName_def)
  then have "\<not> is_ws (last (fd_name f))" "CHR '','' \<notin> set (fd_name f)"
    using name_char_plain [OF valid_name_char [OF assms]] last_in_set by blast+
  then show ?thesis
    using type_name_plain \<open>fd_name f \<noteq> []\<close> by (auto simp: def_text_def hd_append)
qed

text \<open>
  The canonical text of parsed field definitions parses to the same definitions, with the same ids, names and types, so
  two spellings of a schema that parse alike have one canonical form.
\<close>

lemma field_definitions_roundtrip:
  assumes "parseFieldDefinitions s = Inr defs"
  shows "parseFieldDefinitions (fieldDefsToCanonicalString defs) = Inr defs"
proof -
  note p = parseFieldDefinitions_parsed [OF assms]
  have valid: "isValidFieldName (fd_name f)" if "f \<in> set defs" for f
    using p(1) that by (auto simp: parsed_def in_set_conv_nth)
  note ends = def_text_ends [OF valid]
  have join: "join_with '','' (map def_text defs) \<noteq> [] \<and> hd (join_with '','' (map def_text defs)) = hd (def_text (hd defs))
      \<and> last (join_with '','' (map def_text defs)) = last (def_text (last defs))"
    using join_with_ends [of "map def_text defs" "'',''"] ends p(2) by (auto simp: hd_map last_map)
  then have "js_trim (join_with '','' (map def_text defs)) = join_with '','' (map def_text defs)"
    using ends [OF hd_in_set [OF p(2)]] ends [OF last_in_set [OF p(2)]] by (intro js_trim_id) simp
  moreover have "split_on CHR '','' (join_with '','' (map def_text defs)) = map def_text defs"
    using ends p(2) by (intro split_on_join) auto
  moreover have "parse_segments [] (map def_text defs) = Inr defs"
    using parse_segments_texts [of "[]" defs] p(1) by simp
  ultimately show ?thesis
    using p(3) join by (simp add: parseFieldDefinitions_def canonical_text [OF p(1)])
qed


section \<open>The bytes under a schema id\<close>

text \<open>
  A header of the canonical bytes is three bytes that are no characters of names. Within the definitions there are
  never three of them in a row, so no canonical encoding is a proper suffix of another.
\<close>

definition small :: "byte \<Rightarrow> bool" where
  "small b \<longleftrightarrow> unat b < 48"

fun three_small :: "byte list \<Rightarrow> bool" where
  "three_small (a # b # c # r) = (small a \<and> small b \<and> small c \<or> three_small (b # c # r))"
| "three_small _ = False"

lemma three_small_skip: "\<not> small c \<Longrightarrow> three_small (c # r) = three_small r" "\<not> small c \<Longrightarrow> three_small (a # c # r) = three_small r"
  by (cases r rule: three_small.cases; simp; cases r; simp)+

lemma three_small_suffix: "three_small r \<Longrightarrow> three_small (p @ r)"
proof (induction p)
  case (Cons a p)
  then show ?case by (cases "p @ r" rule: three_small.cases) auto
qed simp

lemma three_small_big: "\<forall>c \<in> set p. \<not> small c \<Longrightarrow> three_small (p @ r) = three_small r"
  by (induction p) (auto simp: three_small_skip)

lemma name_bytes_big: "isValidFieldName name \<Longrightarrow> b \<in> set (utf8 name) \<Longrightarrow> \<not> small b"
  using valid_name_char name_char_plain(4,5) by (fastforce simp: utf8_def small_def unat_of_nat)

lemma definitions_no_three_small:
  "\<forall>f \<in> set defs. isValidFieldName (fd_name f) \<Longrightarrow> \<not> three_small (concat (map encode_def defs))"
proof (induction defs)
  case (Cons f fs)
  then obtain b bs where n: "utf8 (fd_name f) = b # bs" by (cases "fd_name f") (auto simp: isValidFieldName_def utf8_def)
  have big: "\<not> small c" if "c \<in> set (b # bs)" for c using name_bytes_big [of "fd_name f"] Cons.prems that n by auto
  have "three_small (x # y # (b # bs) @ r) = three_small r" for x y r
    using big three_small_big [of bs r] by (simp add: three_small_skip)
  then show ?case using Cons by (simp add: encode_def_def n)
qed simp

lemma valid_name_length: "isValidFieldName name \<Longrightarrow> 0 < length name \<and> length name \<le> 32"
  by (cases name) (auto simp: isValidFieldName_def MAX_FIELD_NAME_LEN_def)

lemma type_ids: "FIELD_TYPE_IDS t \<le> 6" "FIELD_TYPE_IDS t = FIELD_TYPE_IDS u \<longleftrightarrow> t = u"
  by (cases t; simp) (cases t; cases u; simp)

lemma header_small:
  assumes "parsed defs" "defs \<noteq> []"
  shows "three_small (encodeCanonicalFieldDefs defs)"
proof -
  obtain f fs where d: "defs = f # fs" using assms(2) by (cases defs) auto
  have "isValidFieldName (fd_name f)" "length defs \<le> 16" using assms(1) by (auto simp: parsed_def d MAX_FIELDS_def dest!: spec [of _ 0])
  then have "small (of_nat (length defs))" "small (of_nat (FIELD_TYPE_IDS (fd_type f)))" "small (of_nat (length (fd_name f)))"
    using valid_name_length [of "fd_name f"] type_ids(1) [of "fd_type f"] by (simp_all add: small_def unat_of_nat)
  then show ?thesis by (simp add: encodeCanonicalFieldDefs_def d encode_def_def del: of_nat_Suc)
qed

lemma canonical_not_proper_suffix:
  assumes "parsed d1" "parsed d2" "d2 \<noteq> []" "encodeCanonicalFieldDefs d1 = p @ encodeCanonicalFieldDefs d2"
  shows "p = []"
proof (cases p)
  case (Cons a q)
  then have "concat (map encode_def d1) = q @ encodeCanonicalFieldDefs d2" using assms(4) by (simp add: encodeCanonicalFieldDefs_def)
  then have "three_small (concat (map encode_def d1))" using three_small_suffix [OF header_small [OF assms(2,3)]] by metis
  moreover have "\<forall>f \<in> set d1. isValidFieldName (fd_name f)" using assms(1) by (auto simp: parsed_def in_set_conv_nth)
  ultimately show ?thesis using definitions_no_three_small by blast
qed

lemma byte_of_nat_eq: "m < 256 \<Longrightarrow> n < 256 \<Longrightarrow> (of_nat m :: byte) = of_nat n \<longleftrightarrow> m = n"
  by (simp add: word_of_nat_eq_iff take_bit_eq_mod)


lemma encode_def_inj:
  assumes "isValidFieldName (fd_name f)" "isValidFieldName (fd_name g)" "encode_def f @ x = encode_def g @ y"
  shows "fd_type f = fd_type g \<and> fd_name f = fd_name g \<and> x = y"
proof -
  have "FIELD_TYPE_IDS (fd_type f) < 256" "FIELD_TYPE_IDS (fd_type g) < 256" "length (fd_name f) < 256" "length (fd_name g) < 256"
    using type_ids(1) [of "fd_type f"] type_ids(1) [of "fd_type g"] valid_name_length [OF assms(1)] valid_name_length [OF assms(2)] by simp_all
  then show ?thesis using assms(3) by (auto simp: encode_def_def byte_of_nat_eq type_ids(2))
qed

lemma encode_defs_inj:
  assumes "\<forall>f \<in> set d1. isValidFieldName (fd_name f)" "\<forall>f \<in> set d2. isValidFieldName (fd_name f)"
    "concat (map encode_def d1) = concat (map encode_def d2)"
  shows "map fd_type d1 = map fd_type d2 \<and> map fd_name d1 = map fd_name d2"
  using assms
proof (induction d1 arbitrary: d2)
  case Nil
  then show ?case by (cases d2) (auto simp: encode_def_def)
next
  case (Cons f fs)
  then obtain g gs where d2: "d2 = g # gs" by (cases d2) (auto simp: encode_def_def)
  then show ?case
    using Cons.prems encode_def_inj [of f g "concat (map encode_def fs)" "concat (map encode_def gs)"] Cons.IH [of gs] by simp
qed

lemma parsed_eq:
  assumes "parsed d1" "parsed d2" "map fd_type d1 = map fd_type d2" "map fd_name d1 = map fd_name d2"
  shows "d1 = d2"
proof (rule nth_equalityI)
  show len: "length d1 = length d2" using assms(3) by (metis length_map)
  show "d1 ! i = d2 ! i" if "i < length d1" for i
    using assms that len by (intro FieldDef.equality) (auto simp: parsed_def dest: nth_map [symmetric], (metis nth_map)+)
qed

lemma preimage_suffix:
  assumes "parsed d1" "parsed d2" "d2 \<noteq> []" "length (encodeCanonicalFieldDefs d2) \<le> length (encodeCanonicalFieldDefs d1)"
    "x @ encodeCanonicalFieldDefs d1 = y @ encodeCanonicalFieldDefs d2"
  shows "encodeCanonicalFieldDefs d1 = encodeCanonicalFieldDefs d2 \<and> x = y"
proof -
  obtain p where "encodeCanonicalFieldDefs d1 = p @ encodeCanonicalFieldDefs d2"
  proof -
    from assms(5) consider us where "us @ encodeCanonicalFieldDefs d1 = encodeCanonicalFieldDefs d2"
      | us where "encodeCanonicalFieldDefs d1 = us @ encodeCanonicalFieldDefs d2"
      by (auto simp: append_eq_append_conv2)
    then show ?thesis
    proof cases
      case (1 us)
      then have "length us + length (encodeCanonicalFieldDefs d1) = length (encodeCanonicalFieldDefs d2)" by (metis length_append)
      then have "length us = 0" using assms(4) by linarith
      then have "us = []" by simp
      then show ?thesis using 1 that [of "[]"] by simp
    qed (rule that)
  qed
  then show ?thesis using canonical_not_proper_suffix [OF assms(1-3)] assms(5) by auto
qed

text \<open>
  C32: the bytes that are hashed to a schema id determine the authority, the name, the 32-bit version and every field
  definition of the schema, although neither the name nor the definitions carry their length: no two schemas that parse
  have one preimage.
\<close>

theorem schema_preimage_binds_schema:
  assumes "parseFieldDefinitions s1 = Inr d1" and "parseFieldDefinitions s2 = Inr d2" and "length a1 = length a2"
    and "schema_preimage a1 n1 d1 v1 = schema_preimage a2 n2 d2 v2"
  shows "a1 = a2 \<and> n1 = n2 \<and> v1 mod 2 ^ 32 = v2 mod 2 ^ 32 \<and> d1 = d2"
proof -
  note p = parseFieldDefinitions_parsed [OF assms(1)] parseFieldDefinitions_parsed [OF assms(2)]
  let ?x = "\<lambda>a n v. a @ utf8 n @ be_bytes 4 (nat (v mod 2 ^ 32))"
  have eq: "?x a1 n1 v1 @ encodeCanonicalFieldDefs d1 = ?x a2 n2 v2 @ encodeCanonicalFieldDefs d2"
    using assms(4) by (simp add: schema_preimage_def)
  have "encodeCanonicalFieldDefs d1 = encodeCanonicalFieldDefs d2 \<and> ?x a1 n1 v1 = ?x a2 n2 v2"
    using preimage_suffix [OF p(1,4,5) _ eq] preimage_suffix [OF p(4,1,2) _ eq [symmetric]] by (metis nat_le_linear)
  then have x: "?x a1 n1 v1 = ?x a2 n2 v2" and e: "concat (map encode_def d1) = concat (map encode_def d2)"
    by (auto simp: encodeCanonicalFieldDefs_def)
  have "\<forall>f \<in> set d1. isValidFieldName (fd_name f)" "\<forall>f \<in> set d2. isValidFieldName (fd_name f)"
    using p(1,4) by (auto simp: parsed_def in_set_conv_nth)
  from encode_defs_inj [OF this e] have "d1 = d2" by (intro parsed_eq [OF p(1,4)]) auto
  moreover have "a1 = a2" "utf8 n1 @ be_bytes 4 (nat (v1 mod 2 ^ 32)) = utf8 n2 @ be_bytes 4 (nat (v2 mod 2 ^ 32))"
    using x assms(3) by auto
  moreover from this(2) have "utf8 n1 = utf8 n2" "be_bytes 4 (nat (v1 mod 2 ^ 32)) = be_bytes 4 (nat (v2 mod 2 ^ 32))"
    by (auto simp: append_eq_append_conv)
  moreover from this(2) have "nat (v1 mod 2 ^ 32) = nat (v2 mod 2 ^ 32)"
    by (subst (asm) be_bytes_inj) (simp_all add: nat_less_iff)
  ultimately show ?thesis by simp
qed


section \<open>An example schema\<close>

definition example_schema :: "FieldDef list" where
  "example_schema = [\<lparr>fd_id = ''0'', fd_name = ''age'', fd_type = TU16\<rparr>, \<lparr>fd_id = ''1'', fd_name = ''city'', fd_type = TString\<rparr>]"

lemma example_schema_parses: "parseFieldDefinitions '' u16 age, string city'' = Inr example_schema"
  by code_simp


lemma field_definitions_roundtrip_witness:
  "parseFieldDefinitions (fieldDefsToCanonicalString example_schema) = Inr example_schema"
  by (rule field_definitions_roundtrip [OF example_schema_parses])

theorem schema_preimage_binds_schema_witness: "(7 :: int) mod 2 ^ 32 = 4294967303 mod 2 ^ 32"
proof -
  have "nat (7 mod 2 ^ 32) = nat (4294967303 mod 2 ^ 32)" by simp
  then have "schema_preimage [1] ''n'' example_schema 7 = schema_preimage [1] ''n'' example_schema 4294967303"
    by (simp only: schema_preimage_def)
  then show ?thesis
    using schema_preimage_binds_schema [OF example_schema_parses example_schema_parses, of "[1]" "[1]" "''n''" 7 "''n''" 4294967303] by blast
qed

end
