(* ===== verification/Sdk_Workers.thy ===== *)
theory Sdk_Workers
  imports Effects
begin

text \<open>
  The pool of proof workers, \<^verbatim>\<open>sdk/src/prove/worker-pool.ts\<close>, \<^verbatim>\<open>pool-size.ts\<close> and the job runner of
  \<^verbatim>\<open>worker-runtime.ts\<close>. Workers and promises are numbers. The events of the pool are explicit: a call of \<open>exec\<close>, a
  message of a worker, an error of a worker; what the listeners do is one step. Listeners are one-shot: those of the kind
  that fired are removed, those of the other kind stay and are ignored by their \<open>settled\<close> flag. \<open>fullProve\<close> is an argument.
\<close>

section \<open>Jobs and sizes\<close>

record ProveJob =
  pj_input :: jv
  pj_wasm :: string
  pj_zkey :: string

record ProveJobResult =
  pr_proof :: jv
  pr_publicSignals :: "string list"

text \<open>The core count is \<open>None\<close> when it is not a finite number.\<close>

definition poolSizeFromCoreCount :: "rat option \<Rightarrow> int" where
  "poolSizeFromCoreCount cores = (case cores of None \<Rightarrow> 1 | Some c \<Rightarrow> if c \<le> 0 then 1 else max 1 (\<lfloor>c\<rfloor> - 1))"

text \<open>What a runtime offers: the navigator's core count, and the core count of the operating system or the failure to load it.\<close>

record core_sources =
  co_navigator :: "rat option option"
  co_node :: "rat option res option"

definition defaultPoolSize :: "core_sources \<Rightarrow> int" where
  "defaultPoolSize src =
     (case co_navigator src of
        Some (Some c) \<Rightarrow> if c > 0 then poolSizeFromCoreCount (Some c)
                          else (case co_node src of Some (Inr n) \<Rightarrow> poolSizeFromCoreCount n | _ \<Rightarrow> 1)
      | _ \<Rightarrow> (case co_node src of Some (Inr n) \<Rightarrow> poolSizeFromCoreCount n | _ \<Rightarrow> 1))"


section \<open>Inside a worker\<close>

datatype worker_msg =
    WorkerResult ProveJobResult
  | WorkerError string

definition runJob :: "(ProveJob \<Rightarrow> ('w, ProveJobResult) prog) \<Rightarrow> ProveJob \<Rightarrow> ('w, worker_msg) prog" where
  "runJob fullProve job = try_catch (bnd (fullProve job) (\<lambda>r. ret (WorkerResult r))) (\<lambda>err. ret (WorkerError (err_message err)))"


section \<open>The pool\<close>

type_synonym outcome = "ProveJobResult res"

text \<open>What the listeners of one dispatch close over: its flag, known by a number, and the queue entry.\<close>

record listener =
  li_dispatch :: nat
  li_promise :: nat
  li_job :: ProveJob

record WorkerLikePool =
  wl_idle :: "nat list"
  wl_queue :: "(nat \<times> ProveJob) list"
  wl_settled :: "nat list"
  wl_dispatches :: nat
  wl_onMessage :: "(nat \<times> listener) list"
  wl_onError :: "(nat \<times> listener) list"
  wl_posted :: "(nat \<times> ProveJob) list"
  wl_promises :: "outcome option list"
  wl_order :: "nat list"

definition new_pool :: "nat \<Rightarrow> WorkerLikePool" where
  "new_pool n = \<lparr>wl_idle = [0..<n], wl_queue = [], wl_settled = [], wl_dispatches = 0, wl_onMessage = [], wl_onError = [],
     wl_posted = [], wl_promises = [], wl_order = []\<rparr>"

definition attach :: "nat \<Rightarrow> listener \<Rightarrow> WorkerLikePool \<Rightarrow> WorkerLikePool" where
  "attach worker l P = P\<lparr>wl_dispatches := Suc (wl_dispatches P), wl_onMessage := wl_onMessage P @ [(worker, l)],
     wl_onError := wl_onError P @ [(worker, l)], wl_posted := wl_posted P @ [(worker, li_job l)]\<rparr>"

function pump :: "WorkerLikePool \<Rightarrow> WorkerLikePool" where
  "pump P =
     (case (wl_idle P, wl_queue P) of
        (worker # idle, (promise, job) # queue) \<Rightarrow>
          pump (attach worker \<lparr>li_dispatch = wl_dispatches P, li_promise = promise, li_job = job\<rparr> (P\<lparr>wl_idle := idle, wl_queue := queue\<rparr>))
      | _ \<Rightarrow> P)"
  by pat_completeness auto
termination
  by (relation "measure (length \<circ> wl_queue)") (auto simp: attach_def, metis length_Cons lessI)

declare pump.simps [simp del]

definition pool_exec :: "ProveJob \<Rightarrow> WorkerLikePool \<Rightarrow> WorkerLikePool" where
  "pool_exec job P = pump (P\<lparr>wl_queue := wl_queue P @ [(length (wl_promises P), job)], wl_promises := wl_promises P @ [None]\<rparr>)"

text \<open>\<open>resolve\<close> or \<open>reject\<close>: only the first call has an effect.\<close>

definition settle :: "nat \<Rightarrow> outcome \<Rightarrow> WorkerLikePool \<Rightarrow> WorkerLikePool" where
  "settle promise r P =
     (if promise < length (wl_promises P) \<and> wl_promises P ! promise = None
      then P\<lparr>wl_promises := (wl_promises P)[promise := Some r], wl_order := wl_order P @ [promise]\<rparr> else P)"

definition finish :: "nat \<Rightarrow> outcome \<Rightarrow> WorkerLikePool \<Rightarrow> listener \<Rightarrow> WorkerLikePool" where
  "finish worker r P l =
     (if li_dispatch l \<in> set (wl_settled P) then P
      else pump (settle (li_promise l) r (P\<lparr>wl_settled := li_dispatch l # wl_settled P, wl_idle := wl_idle P @ [worker]\<rparr>)))"

definition message_outcome :: "worker_msg \<Rightarrow> outcome" where
  "message_outcome msg = (case msg of WorkerResult r \<Rightarrow> Inr r | WorkerError e \<Rightarrow> Inl (Error e))"

definition listeners_of :: "nat \<Rightarrow> (nat \<times> listener) list \<Rightarrow> listener list" where
  "listeners_of worker ls = map snd (filter (\<lambda>l. fst l = worker) ls)"

definition on_message :: "nat \<Rightarrow> worker_msg \<Rightarrow> WorkerLikePool \<Rightarrow> WorkerLikePool" where
  "on_message worker msg P =
     foldl (finish worker (message_outcome msg)) (P\<lparr>wl_onMessage := filter (\<lambda>l. fst l \<noteq> worker) (wl_onMessage P)\<rparr>)
       (listeners_of worker (wl_onMessage P))"

definition on_error :: "nat \<Rightarrow> js_error \<Rightarrow> WorkerLikePool \<Rightarrow> WorkerLikePool" where
  "on_error worker err P =
     foldl (finish worker (Inl err)) (P\<lparr>wl_onError := filter (\<lambda>l. fst l \<noteq> worker) (wl_onError P)\<rparr>)
       (listeners_of worker (wl_onError P))"

datatype pool_event =
    Exec ProveJob
  | Message nat worker_msg
  | WorkerFailed nat js_error

fun pool_step :: "WorkerLikePool \<Rightarrow> pool_event \<Rightarrow> WorkerLikePool" where
  "pool_step P (Exec job) = pool_exec job P"
| "pool_step P (Message worker msg) = on_message worker msg P"
| "pool_step P (WorkerFailed worker err) = on_error worker err P"


section \<open>Running jobs\<close>

definition runSerial :: "(ProveJob \<Rightarrow> ('w, ProveJobResult) prog) \<Rightarrow> ProveJob list \<Rightarrow> ('w, ProveJobResult list) prog" where
  "runSerial fullProve jobs = prog_map fullProve jobs"

text \<open>\<open>Promise.all\<close> over the promises of a pool: \<open>None\<close> while it is pending, the first rejection, or the results in order.\<close>

definition rejection :: "WorkerLikePool \<Rightarrow> nat \<Rightarrow> js_error option" where
  "rejection P i = (case wl_promises P ! i of Some (Inl e) \<Rightarrow> Some e | _ \<Rightarrow> None)"

definition promise_all :: "WorkerLikePool \<Rightarrow> ProveJobResult list res option" where
  "promise_all P =
     (case find (\<lambda>i. rejection P i \<noteq> None) (wl_order P) of
        Some i \<Rightarrow> Some (Inl (the (rejection P i)))
      | None \<Rightarrow> if None \<in> set (wl_promises P) then None
                else Some (Inr (List.map_filter (\<lambda>p. case p of Some (Inr r) \<Rightarrow> Some r | _ \<Rightarrow> None) (wl_promises P))))"

text \<open>How a batch is run: in the process, or by the pool, with as many workers as asked for.\<close>

datatype proof_plan = Nothing | Serial | Pooled nat

definition plan_jobs :: "nat \<Rightarrow> bool \<Rightarrow> int option \<Rightarrow> core_sources \<Rightarrow> bool \<Rightarrow> proof_plan" where
  "plan_jobs jobs poolDisabled poolSize cores available =
     (if jobs = 0 then Nothing
      else if poolDisabled \<or> jobs = 1 then Serial
      else if \<not> available then Serial
      else Pooled (nat (max 1 (case poolSize of Some s \<Rightarrow> s | None \<Rightarrow> defaultPoolSize cores))))"

end
