(* ===== verification/Sdk_Workers_Props.thy ===== *)
theory Sdk_Workers_Props
  imports Sdk_Workers
begin

text \<open>
  Properties of the worker pool, by a refinement: an abstract pool knows only which worker is free, which job waits and which
  is in flight where; the pool with its listeners and flags implements it. Every worker has one job at a time, no job is lost
  or run for another's promise, and as long as workers answer, all promises settle.
\<close>

section \<open>The abstract pool\<close>

record job_pool =
  jp_idle :: "nat list"
  jp_queue :: "(nat \<times> ProveJob) list"
  jp_busy :: "(nat \<times> nat \<times> ProveJob) list"
  jp_promises :: "outcome option list"

definition hand_out :: "job_pool \<Rightarrow> job_pool" where
  "hand_out A =
     (let k = min (length (jp_idle A)) (length (jp_queue A)) in
      A\<lparr>jp_idle := drop k (jp_idle A), jp_queue := drop k (jp_queue A),
        jp_busy := jp_busy A @ zip (take k (jp_idle A)) (take k (jp_queue A))\<rparr>)"

definition spec_exec :: "ProveJob \<Rightarrow> job_pool \<Rightarrow> job_pool" where
  "spec_exec job A = hand_out (A\<lparr>jp_queue := jp_queue A @ [(length (jp_promises A), job)], jp_promises := jp_promises A @ [None]\<rparr>)"

definition spec_answer :: "nat \<Rightarrow> outcome \<Rightarrow> job_pool \<Rightarrow> job_pool" where
  "spec_answer worker r A =
     (case map_of (jp_busy A) worker of
        None \<Rightarrow> A
      | Some (promise, job) \<Rightarrow>
          hand_out (A\<lparr>jp_busy := filter (\<lambda>b. fst b \<noteq> worker) (jp_busy A), jp_idle := jp_idle A @ [worker],
                     jp_promises := (jp_promises A)[promise := Some r]\<rparr>))"

fun spec_step :: "job_pool \<Rightarrow> pool_event \<Rightarrow> job_pool" where
  "spec_step A (Exec job) = spec_exec job A"
| "spec_step A (Message worker msg) = spec_answer worker (message_outcome msg) A"
| "spec_step A (WorkerFailed worker err) = spec_answer worker (Inl err) A"

definition spec_pool :: "nat \<Rightarrow> job_pool" where
  "spec_pool n = \<lparr>jp_idle = [0..<n], jp_queue = [], jp_busy = [], jp_promises = []\<rparr>"


section \<open>Its invariant\<close>

definition workers_ok :: "nat \<Rightarrow> nat list \<Rightarrow> bool" where
  "workers_ok n ws \<longleftrightarrow> distinct ws \<and> set ws = {..<n}"

definition promises_ok :: "nat list \<Rightarrow> outcome option list \<Rightarrow> bool" where
  "promises_ok ps rs \<longleftrightarrow> distinct ps \<and> set ps = {i. i < length rs \<and> rs ! i = None}"

text \<open>Every worker is busy or idle, once; the pending promises are those in flight or queued, once.\<close>

definition pool_shape :: "nat \<Rightarrow> job_pool \<Rightarrow> bool" where
  "pool_shape n A \<longleftrightarrow> workers_ok n (map fst (jp_busy A) @ jp_idle A)
     \<and> promises_ok (map (fst \<circ> snd) (jp_busy A) @ map fst (jp_queue A)) (jp_promises A)"

text \<open>And no job waits while a worker is free.\<close>

definition pool_ok :: "nat \<Rightarrow> job_pool \<Rightarrow> bool" where
  "pool_ok n A \<longleftrightarrow> pool_shape n A \<and> (jp_idle A = [] \<or> jp_queue A = [])"

lemma workers_ok_move: "workers_ok n (xs @ w # ys @ zs) \<Longrightarrow> workers_ok n (xs @ ys @ zs @ [w])"
  by (auto simp: workers_ok_def)

lemma promises_ok_add: "promises_ok (xs @ ys) rs \<Longrightarrow> promises_ok (xs @ ys @ [length rs]) (rs @ [None])"
  by (auto simp: promises_ok_def nth_append less_Suc_eq)

lemma promises_ok_settle: "promises_ok (xs @ p # ys) rs \<Longrightarrow> promises_ok (xs @ ys) (rs[p := Some r])"
proof -
  assume ok: "promises_ok (xs @ p # ys) rs"
  have p: "p < length rs" using ok unfolding promises_ok_def by (metis (mono_tags, lifting) in_set_conv_decomp mem_Collect_eq)
  have "{i. i < length rs \<and> rs[p := Some r] ! i = None} = {i. i < length rs \<and> rs ! i = None} - {p}"
    using p by (auto simp: nth_list_update split: if_splits)
  also have "\<dots> = set (xs @ ys)" using ok unfolding promises_ok_def by (metis Diff_insert_absorb Un_insert_right distinct_append distinct.simps(2) list.simps(15) set_append UnE disjoint_insert(1))
  finally show ?thesis using ok by (simp add: promises_ok_def)
qed

lemma promises_ok_pending: "promises_ok ps rs \<Longrightarrow> p \<in> set ps \<Longrightarrow> p < length rs \<and> rs ! p = None"
  by (auto simp: promises_ok_def)

lemma hand_out_workers: "map fst (jp_busy (hand_out A)) @ jp_idle (hand_out A) = map fst (jp_busy A) @ jp_idle A"
  by (simp add: hand_out_def Let_def)

lemma hand_out_promises:
  "map (fst \<circ> snd) (jp_busy (hand_out A)) @ map fst (jp_queue (hand_out A)) = map (fst \<circ> snd) (jp_busy A) @ map fst (jp_queue A)"
proof -
  have "map (fst \<circ> snd) (zip xs ys) = map fst ys" if "length xs = length ys" for xs :: "nat list" and ys :: "(nat \<times> ProveJob) list"
    using that by (metis map_map map_snd_zip)
  moreover have "map fst (take k q) @ map fst (drop k q) = map fst q" for k and q :: "(nat \<times> ProveJob) list"
    by (metis append_take_drop_id map_append)
  ultimately show ?thesis by (simp add: hand_out_def Let_def)
qed

lemma hand_out_result [simp]: "jp_promises (hand_out A) = jp_promises A"
  by (simp add: hand_out_def Let_def)

lemma hand_out_ok: "pool_shape n A \<Longrightarrow> pool_ok n (hand_out A)"
  unfolding pool_ok_def pool_shape_def hand_out_workers hand_out_promises by (auto simp: hand_out_def Let_def)

lemma pool_ok_shape: "pool_ok n A \<Longrightarrow> pool_shape n A"
  by (simp add: pool_ok_def)

lemma spec_exec_ok: "pool_ok n A \<Longrightarrow> pool_ok n (spec_exec job A)"
  unfolding spec_exec_def by (rule hand_out_ok) (auto simp: pool_ok_def pool_shape_def intro: promises_ok_add)

lemma busy_split:
  assumes "map_of busy w = Some (p, job)" "distinct (map fst busy)"
  obtains xs ys where "busy = xs @ (w, p, job) # ys" "filter (\<lambda>b. fst b \<noteq> w) busy = xs @ ys"
proof -
  obtain xs ys where *: "busy = xs @ (w, p, job) # ys" using assms(1) by (metis map_of_SomeD split_list)
  then have "\<forall>b \<in> set xs \<union> set ys. fst b \<noteq> w" using assms(2) by auto
  then show ?thesis using that * by auto
qed

lemma spec_answer_ok:
  assumes "pool_ok n A"
  shows "pool_ok n (spec_answer w r A)"
proof (cases "map_of (jp_busy A) w")
  case (Some pj)
  obtain p job where pj: "pj = (p, job)" by force
  obtain xs ys where b: "jp_busy A = xs @ (w, p, job) # ys" "filter (\<lambda>b. fst b \<noteq> w) (jp_busy A) = xs @ ys"
    using busy_split [of "jp_busy A" w p job] Some pj assms by (auto simp: pool_ok_def pool_shape_def workers_ok_def)
  have "pool_shape n (A\<lparr>jp_busy := xs @ ys, jp_idle := jp_idle A @ [w], jp_promises := (jp_promises A)[p := Some r]\<rparr>)"
    using pool_ok_shape [OF assms] by (simp add: pool_shape_def b(1) workers_ok_move promises_ok_settle)
  then show ?thesis using Some pj b(2) by (simp add: spec_answer_def hand_out_ok)
qed (simp add: spec_answer_def assms)

lemma spec_step_ok: "pool_ok n A \<Longrightarrow> pool_ok n (spec_step A e)"
  by (cases e) (simp_all add: spec_exec_ok spec_answer_ok)

lemma spec_pool_ok: "pool_ok n (spec_pool n)"
  by (auto simp: pool_ok_def pool_shape_def workers_ok_def promises_ok_def spec_pool_def)


section \<open>The pool implements it\<close>

definition unsettled :: "nat list \<Rightarrow> (nat \<times> listener) list \<Rightarrow> (nat \<times> listener) list" where
  "unsettled settled ls = filter (\<lambda>x. li_dispatch (snd x) \<notin> set settled) ls"

definition live :: "WorkerLikePool \<Rightarrow> (nat \<times> listener) list" where
  "live P = unsettled (wl_settled P) (wl_onMessage P)"

definition flight :: "(nat \<times> listener) list \<Rightarrow> (nat \<times> nat \<times> ProveJob) list" where
  "flight ls = map (\<lambda>(w, l). (w, li_promise l, li_job l)) ls"

definition abs_pool :: "WorkerLikePool \<Rightarrow> job_pool" where
  "abs_pool P = \<lparr>jp_idle = wl_idle P, jp_queue = wl_queue P, jp_busy = flight (live P), jp_promises = wl_promises P\<rparr>"

text \<open>
  Live dispatches have both listeners attached; the numbers of dispatches are new, so a flag belongs to one of them.
\<close>

definition flags_ok :: "WorkerLikePool \<Rightarrow> bool" where
  "flags_ok P \<longleftrightarrow> live P = unsettled (wl_settled P) (wl_onError P) \<and> distinct (map (li_dispatch \<circ> snd) (live P))
     \<and> (\<forall>d \<in> set (wl_settled P) \<union> (li_dispatch \<circ> snd) ` set (wl_onMessage P @ wl_onError P). d < wl_dispatches P)"

lemma flight_append [simp]: "flight (xs @ ys) = flight xs @ flight ys" "flight [x] = [(fst x, li_promise (snd x), li_job (snd x))]"
  by (simp_all add: flight_def split: prod.split)

lemma fst_flight [simp]: "map fst (flight ls) = map fst ls"
  by (auto simp: flight_def)

lemma pump_done: "wl_idle P = [] \<or> wl_queue P = [] \<Longrightarrow> pump P = P"
  by (subst pump.simps) (auto split: list.splits)

definition dispatch_first :: "nat \<Rightarrow> nat list \<Rightarrow> nat \<times> ProveJob \<Rightarrow> (nat \<times> ProveJob) list \<Rightarrow> WorkerLikePool \<Rightarrow> WorkerLikePool" where
  "dispatch_first w idle pj queue P =
     attach w \<lparr>li_dispatch = wl_dispatches P, li_promise = fst pj, li_job = snd pj\<rparr> (P\<lparr>wl_idle := idle, wl_queue := queue\<rparr>)"

lemma pump_dispatch: "wl_idle P = w # idle \<Longrightarrow> wl_queue P = pj # queue \<Longrightarrow> pump P = pump (dispatch_first w idle pj queue P)"
  by (subst pump.simps) (simp add: dispatch_first_def split: prod.split)

lemma live_dispatch:
  assumes "flags_ok P"
  shows "live (dispatch_first w idle pj queue P) = live P @ [(w, \<lparr>li_dispatch = wl_dispatches P, li_promise = fst pj, li_job = snd pj\<rparr>)]"
    and "flags_ok (dispatch_first w idle pj queue P)"
proof -
  have fresh: "wl_dispatches P \<notin> set (wl_settled P)" using assms by (auto simp: flags_ok_def)
  then show l: "live (dispatch_first w idle pj queue P) = live P @ [(w, \<lparr>li_dispatch = wl_dispatches P, li_promise = fst pj, li_job = snd pj\<rparr>)]"
    by (simp add: live_def unsettled_def dispatch_first_def attach_def)
  have "li_dispatch (snd x) < wl_dispatches P" if "x \<in> set (live P)" for x
    using assms that by (auto simp: flags_ok_def live_def unsettled_def)
  then show "flags_ok (dispatch_first w idle pj queue P)"
    using assms fresh l unfolding flags_ok_def
    by (auto simp: dispatch_first_def attach_def unsettled_def less_Suc_eq)
qed

lemma hand_out_step:
  "jp_idle A = w # idle \<Longrightarrow> jp_queue A = pj # queue \<Longrightarrow>
     hand_out A = hand_out (A\<lparr>jp_idle := idle, jp_queue := queue, jp_busy := jp_busy A @ [(w, pj)]\<rparr>)"
  by (simp add: hand_out_def Let_def)

lemma pump_refines: "flags_ok P \<Longrightarrow> abs_pool (pump P) = hand_out (abs_pool P) \<and> flags_ok (pump P)"
proof (induction "length (wl_queue P)" arbitrary: P)
  case 0
  then show ?case by (simp add: pump_done hand_out_def abs_pool_def)
next
  case (Suc n)
  obtain pj queue where q: "wl_queue P = pj # queue" using Suc.hyps(2) by (cases "wl_queue P") auto
  show ?case
  proof (cases "wl_idle P")
    case Nil
    then show ?thesis using Suc.prems by (simp add: pump_done hand_out_def abs_pool_def)
  next
    case (Cons w idle)
    let ?P = "dispatch_first w idle pj queue P"
    have "abs_pool (pump ?P) = hand_out (abs_pool ?P) \<and> flags_ok (pump ?P)"
      using Suc.hyps q live_dispatch(2) [OF Suc.prems] by (intro Suc.hyps(1)) (simp_all add: dispatch_first_def attach_def)
    moreover have "hand_out (abs_pool ?P) = hand_out (abs_pool P)"
      using live_dispatch(1) [OF Suc.prems, of w idle pj queue] hand_out_step [of "abs_pool P" w idle pj queue] Cons q
      by (simp add: abs_pool_def) (simp add: dispatch_first_def attach_def)
    ultimately show ?thesis using pump_dispatch [OF Cons q] by simp
  qed
qed


lemma unsettled_Cons: "unsettled (d # settled) ls = filter (\<lambda>x. li_dispatch (snd x) \<noteq> d) (unsettled settled ls)"
  by (auto simp: unsettled_def conj_commute)

lemma unsettled_filter: "unsettled settled (filter f ls) = filter f (unsettled settled ls)"
  by (auto simp: unsettled_def conj_commute)

lemma distinct_map_eq: "distinct (map f xs) \<Longrightarrow> x \<in> set xs \<Longrightarrow> y \<in> set xs \<Longrightarrow> f x = f y \<longleftrightarrow> x = y"
  by (auto simp: distinct_map inj_on_def)

text \<open>The one live dispatch of a worker is known by the worker and by its flag.\<close>

lemma live_same:
  assumes "flags_ok P" "distinct (map fst (live P))" "(w, l) \<in> set (live P)"
  shows "filter (\<lambda>x. li_dispatch (snd x) \<noteq> li_dispatch l) (live P) = filter (\<lambda>x. fst x \<noteq> w) (live P)"
proof (rule filter_cong)
  fix x assume x: "x \<in> set (live P)"
  have d: "distinct (map (li_dispatch \<circ> snd) (live P))" using assms(1) unfolding flags_ok_def by blast
  show "li_dispatch (snd x) \<noteq> li_dispatch l \<longleftrightarrow> fst x \<noteq> w"
    using distinct_map_eq [OF d x assms(3)] distinct_map_eq [OF assms(2) x assms(3)] by simp
qed simp

definition dropped :: "nat \<Rightarrow> WorkerLikePool \<Rightarrow> WorkerLikePool \<Rightarrow> bool" where
  "dropped w P Q \<longleftrightarrow> Q = P\<lparr>wl_onMessage := filter (\<lambda>l. fst l \<noteq> w) (wl_onMessage P)\<rparr> \<or> Q = P\<lparr>wl_onError := filter (\<lambda>l. fst l \<noteq> w) (wl_onError P)\<rparr>"

lemma finish_refines:
  assumes ok: "flags_ok P" "pool_ok n (abs_pool P)" and l: "(w, l) \<in> set (live P)" and Q: "dropped w P Q"
  shows "abs_pool (finish w r Q l) = spec_answer w r (abs_pool P) \<and> flags_ok (finish w r Q l)"
proof -
  let ?d = "li_dispatch l" and ?p = "li_promise l"
  let ?R = "settle ?p r (Q\<lparr>wl_settled := ?d # wl_settled Q, wl_idle := wl_idle Q @ [w]\<rparr>)"
  have dw: "distinct (map fst (live P))" using ok(2) by (simp add: pool_ok_def pool_shape_def workers_ok_def abs_pool_def)
  have err: "unsettled (wl_settled P) (wl_onError P) = live P" using ok(1) by (simp add: flags_ok_def)
  have "promises_ok (map (fst \<circ> snd) (flight (live P)) @ map fst (wl_queue P)) (wl_promises P)"
    using ok(2) by (simp add: pool_ok_def pool_shape_def abs_pool_def)
  moreover have "?p \<in> set (map (fst \<circ> snd) (flight (live P)) @ map fst (wl_queue P))" using l by (force simp: flight_def)
  ultimately have p: "?p < length (wl_promises P) \<and> wl_promises P ! ?p = None" by (rule promises_ok_pending)
  have same: "wl_settled Q = wl_settled P" "wl_idle Q = wl_idle P" "wl_queue Q = wl_queue P" "wl_promises Q = wl_promises P" "wl_dispatches Q = wl_dispatches P"
    using Q by (auto simp: dropped_def)
  have R: "wl_settled ?R = ?d # wl_settled P" "wl_idle ?R = wl_idle P @ [w]" "wl_queue ?R = wl_queue P"
    "wl_promises ?R = (wl_promises P)[?p := Some r]" "wl_dispatches ?R = wl_dispatches P" "wl_onMessage ?R = wl_onMessage Q" "wl_onError ?R = wl_onError Q"
    using p by (simp_all add: settle_def same)
  have "filter (\<lambda>x. fst x \<noteq> w \<and> li_dispatch (snd x) \<noteq> ?d) (live P) = filter (\<lambda>x. fst x \<noteq> w) (filter (\<lambda>x. li_dispatch (snd x) \<noteq> ?d) (live P))"
    by (simp add: conj_commute)
  also have "\<dots> = filter (\<lambda>x. fst x \<noteq> w) (live P)" unfolding live_same [OF ok(1) dw l] by simp
  finally have lists: "unsettled (?d # wl_settled P) (wl_onMessage Q) = filter (\<lambda>x. fst x \<noteq> w) (live P)"
    "unsettled (?d # wl_settled P) (wl_onError Q) = filter (\<lambda>x. fst x \<noteq> w) (live P)"
    using Q by (auto simp: dropped_def unsettled_Cons unsettled_filter err live_def [symmetric] live_same [OF ok(1) dw l])
  have "(li_dispatch \<circ> snd) ` set (wl_onMessage Q @ wl_onError Q) \<subseteq> (li_dispatch \<circ> snd) ` set (wl_onMessage P @ wl_onError P)"
    using Q by (auto simp: dropped_def)
  moreover have "?d \<in> (li_dispatch \<circ> snd) ` set (wl_onMessage P)" using l by (force simp: live_def unsettled_def)
  ultimately have flags: "flags_ok ?R"
    using ok(1) unfolding flags_ok_def live_def R lists by (auto simp: distinct_map_filter live_def [symmetric])
  have "(w, ?p, li_job l) \<in> set (flight (live P))" using l by (auto simp: flight_def intro!: image_eqI [of _ _ "(w, l)"])
  moreover have "distinct (map fst (flight (live P)))" using dw by simp
  ultimately have "map_of (flight (live P)) w = Some (?p, li_job l)" by (metis map_of_is_SomeI)
  then have "spec_answer w r (abs_pool P) = hand_out (abs_pool ?R)"
    by (simp add: spec_answer_def abs_pool_def R live_def lists) (simp add: flight_def live_def filter_map comp_def case_prod_unfold)
  moreover have "finish w r Q l = pump ?R"
    using l by (simp add: finish_def same live_def unsettled_def)
  ultimately show ?thesis using pump_refines [OF flags] by simp
qed


lemma pump_settled [simp]: "wl_settled (pump P) = wl_settled P"
proof (induction P rule: pump.induct)
  case (1 P)
  then show ?case by (subst pump.simps) (auto simp: attach_def split: list.split)
qed

lemma settle_settled [simp]: "wl_settled (settle p r P) = wl_settled P"
  by (simp add: settle_def)

lemma finish_all_settled: "\<forall>l \<in> set ls. li_dispatch l \<in> set (wl_settled P) \<Longrightarrow> foldl (finish w r) P ls = P"
  by (induction ls) (auto simp: finish_def)

lemma finish_one:
  assumes "filter (\<lambda>l. li_dispatch l \<notin> set (wl_settled P)) ls = [l]"
  shows "foldl (finish w r) P ls = finish w r P l"
proof -
  obtain xs ys where ls: "ls = xs @ l # ys" "\<forall>k \<in> set xs. li_dispatch k \<in> set (wl_settled P)" "\<forall>k \<in> set ys. li_dispatch k \<in> set (wl_settled P)"
    using filter_eq_ConsD [OF assms] by (metis (no_types, lifting) filter_empty_conv)
  have "set (wl_settled P) \<subseteq> set (wl_settled (finish w r P l))" by (auto simp: finish_def)
  then have "foldl (finish w r) (finish w r P l) ys = finish w r P l" using ls(3) by (intro finish_all_settled) blast
  then show ?thesis by (simp add: ls(1) finish_all_settled [OF ls(2)])
qed

lemma live_of_worker:
  assumes "distinct (map fst (live P))"
  shows "filter (\<lambda>x. fst x = w) (live P) = [] \<or> (\<exists>l. filter (\<lambda>x. fst x = w) (live P) = [(w, l)] \<and> (w, l) \<in> set (live P))"
proof (cases "filter (\<lambda>x. fst x = w) (live P)")
  case (Cons x xs)
  have "distinct (map fst (x # xs))" using assms Cons by (metis distinct_map_filter)
  moreover have in_w: "\<forall>y \<in> set (x # xs). fst y = w \<and> y \<in> set (live P)" unfolding Cons [symmetric] by simp
  ultimately have "xs = []" by (cases xs) auto
  then show ?thesis using Cons in_w by (cases x) auto
qed simp

lemma answer_refines:
  assumes ok: "flags_ok P" "pool_ok n (abs_pool P)" and Q: "dropped w P Q"
    and ls: "filter (\<lambda>l. li_dispatch l \<notin> set (wl_settled P)) ls = map snd (filter (\<lambda>x. fst x = w) (live P))"
  shows "abs_pool (foldl (finish w r) Q ls) = spec_answer w r (abs_pool P) \<and> flags_ok (foldl (finish w r) Q ls)"
proof -
  have dw: "distinct (map fst (live P))" using ok(2) by (simp add: pool_ok_def pool_shape_def workers_ok_def abs_pool_def)
  have S: "wl_settled Q = wl_settled P" using Q by (auto simp: dropped_def)
  from live_of_worker [OF dw, of w] show ?thesis
  proof
    assume none: "filter (\<lambda>x. fst x = w) (live P) = []"
    then have id: "foldl (finish w r) Q ls = Q" using ls S by (intro finish_all_settled) (auto simp: filter_empty_conv)
    have "filter (\<lambda>x. fst x \<noteq> w) (live P) = live P" using none by (auto simp: filter_empty_conv filter_id_conv)
    then have "live Q = live P" "unsettled (wl_settled Q) (wl_onError Q) = live P"
      using Q ok(1) by (auto simp: dropped_def live_def flags_ok_def unsettled_filter)
    moreover have "(li_dispatch \<circ> snd) ` set (wl_onMessage Q @ wl_onError Q) \<subseteq> (li_dispatch \<circ> snd) ` set (wl_onMessage P @ wl_onError P)"
      "wl_dispatches Q = wl_dispatches P" using Q by (auto simp: dropped_def)
    moreover have "distinct (map (li_dispatch \<circ> snd) (live P))" using ok(1) unfolding flags_ok_def by blast
    moreover have "\<forall>d \<in> set (wl_settled P) \<union> (li_dispatch \<circ> snd) ` set (wl_onMessage P @ wl_onError P). d < wl_dispatches P"
      using ok(1) unfolding flags_ok_def by blast
    ultimately have "flags_ok Q" unfolding flags_ok_def S by (auto simp only: Un_iff)
    moreover have "abs_pool Q = abs_pool P" using Q \<open>live Q = live P\<close> by (auto simp: dropped_def abs_pool_def)
    moreover have "map_of (flight (live P)) w = None"
      using none by (auto simp: map_of_eq_None_iff filter_empty_conv flight_def image_iff)
    ultimately show ?thesis by (simp add: id spec_answer_def abs_pool_def)
  next
    assume "\<exists>l. filter (\<lambda>x. fst x = w) (live P) = [(w, l)] \<and> (w, l) \<in> set (live P)"
    then obtain l where l: "filter (\<lambda>x. fst x = w) (live P) = [(w, l)]" "(w, l) \<in> set (live P)" by blast
    then have "foldl (finish w r) Q ls = finish w r Q l" using ls S by (intro finish_one) simp
    then show ?thesis using finish_refines [OF ok l(2) Q] by simp
  qed
qed

lemma listeners_unsettled:
  "filter (\<lambda>l. li_dispatch l \<notin> set S) (listeners_of w ls) = map snd (filter (\<lambda>x. fst x = w) (unsettled S ls))"
  by (simp add: listeners_of_def unsettled_def filter_map comp_def conj_commute)

lemma step_refines:
  assumes "flags_ok P" "pool_ok n (abs_pool P)"
  shows "abs_pool (pool_step P e) = spec_step (abs_pool P) e \<and> flags_ok (pool_step P e)"
proof (cases e)
  case (Exec job)
  let ?P = "P\<lparr>wl_queue := wl_queue P @ [(length (wl_promises P), job)], wl_promises := wl_promises P @ [None]\<rparr>"
  have "flags_ok ?P = flags_ok P" by (simp add: flags_ok_def live_def)
  then have "flags_ok ?P" using assms(1) by simp
  from pump_refines [OF this] show ?thesis by (simp add: Exec pool_exec_def spec_exec_def abs_pool_def live_def)
next
  case (Message w msg)
  then show ?thesis
    using answer_refines [OF assms, of w "P\<lparr>wl_onMessage := filter (\<lambda>l. fst l \<noteq> w) (wl_onMessage P)\<rparr>" "listeners_of w (wl_onMessage P)" "message_outcome msg"]
    by (simp add: on_message_def dropped_def listeners_unsettled live_def)
next
  case (WorkerFailed w err)
  have "unsettled (wl_settled P) (wl_onError P) = live P" using assms(1) by (simp add: flags_ok_def)
  then show ?thesis
    using answer_refines [OF assms, of w "P\<lparr>wl_onError := filter (\<lambda>l. fst l \<noteq> w) (wl_onError P)\<rparr>" "listeners_of w (wl_onError P)" "Inl err"] WorkerFailed
    by (simp add: on_error_def dropped_def listeners_unsettled)
qed


definition pool_run :: "nat \<Rightarrow> pool_event list \<Rightarrow> WorkerLikePool" where
  "pool_run n es = foldl pool_step (new_pool n) es"

lemma run_refines:
  "abs_pool (pool_run n es) = foldl spec_step (spec_pool n) es \<and> flags_ok (pool_run n es) \<and> pool_ok n (abs_pool (pool_run n es))"
proof (induction es rule: rev_induct)
  case Nil
  have "abs_pool (new_pool n) = spec_pool n" "flags_ok (new_pool n)"
    by (simp_all add: new_pool_def abs_pool_def spec_pool_def live_def unsettled_def flags_ok_def flight_def)
  then show ?case using spec_pool_ok by (simp add: pool_run_def)
next
  case (snoc e es)
  then have "pool_ok n (spec_step (abs_pool (pool_run n es)) e)" using spec_step_ok by blast
  moreover have "abs_pool (pool_step (pool_run n es) e) = spec_step (abs_pool (pool_run n es)) e \<and> flags_ok (pool_step (pool_run n es) e)"
    by (rule step_refines) (use snoc in blast)+
  moreover have "pool_run n (es @ [e]) = pool_step (pool_run n es) e" by (simp add: pool_run_def)
  ultimately show ?case using snoc by simp
qed



section \<open>Answers go to their jobs\<close>

definition jobs_of :: "pool_event list \<Rightarrow> ProveJob list" where
  "jobs_of es = List.map_filter (\<lambda>e. case e of Exec job \<Rightarrow> Some job | _ \<Rightarrow> None) es"

text \<open>Workers answer the job they were handed: what they report is related to it.\<close>

definition honest :: "(ProveJob \<Rightarrow> outcome \<Rightarrow> bool) \<Rightarrow> job_pool \<Rightarrow> pool_event \<Rightarrow> bool" where
  "honest R A e =
     (case e of Exec job \<Rightarrow> True
      | Message w msg \<Rightarrow> (case map_of (jp_busy A) w of None \<Rightarrow> True | Some (p, job) \<Rightarrow> R job (message_outcome msg))
      | WorkerFailed w err \<Rightarrow> (case map_of (jp_busy A) w of None \<Rightarrow> True | Some (p, job) \<Rightarrow> R job (Inl err)))"

fun honest_run :: "(ProveJob \<Rightarrow> outcome \<Rightarrow> bool) \<Rightarrow> job_pool \<Rightarrow> pool_event list \<Rightarrow> bool" where
  "honest_run R A [] = True"
| "honest_run R A (e # es) = (honest R A e \<and> honest_run R (spec_step A e) es)"

definition waiting :: "job_pool \<Rightarrow> (nat \<times> ProveJob) list" where
  "waiting A = map snd (jp_busy A) @ jp_queue A"

definition tracked :: "(ProveJob \<Rightarrow> outcome \<Rightarrow> bool) \<Rightarrow> ProveJob list \<Rightarrow> job_pool \<Rightarrow> bool" where
  "tracked R js A \<longleftrightarrow> length (jp_promises A) = length js \<and> (\<forall>pj \<in> set (waiting A). fst pj < length js \<and> snd pj = js ! fst pj)
     \<and> (\<forall>p r. p < length js \<and> jp_promises A ! p = Some r \<longrightarrow> R (js ! p) r)"

lemma hand_out_waiting: "waiting (hand_out A) = waiting A"
  by (simp add: waiting_def hand_out_def Let_def map_snd_zip_take)

lemma hand_out_tracked: "tracked R js (hand_out A) = tracked R js A"
  by (simp add: tracked_def hand_out_waiting)

lemma spec_exec_tracked: "tracked R js A \<Longrightarrow> tracked R (js @ [job]) (spec_exec job A)"
  unfolding spec_exec_def hand_out_tracked by (auto simp: tracked_def waiting_def nth_append less_Suc_eq)

lemma spec_answer_tracked:
  assumes "tracked R js A" "\<And>p job. map_of (jp_busy A) w = Some (p, job) \<Longrightarrow> R job r"
  shows "tracked R js (spec_answer w r A)"
proof (cases "map_of (jp_busy A) w")
  case (Some pj)
  obtain p job where pj: "pj = (p, job)" by force
  have "(p, job) \<in> set (waiting A)" using map_of_SomeD [OF Some] pj by (force simp: waiting_def)
  then have "p < length js \<and> job = js ! p" using assms(1) by (auto simp: tracked_def)
  moreover have "set (waiting (A\<lparr>jp_busy := filter (\<lambda>b. fst b \<noteq> w) (jp_busy A), jp_idle := i, jp_promises := ps\<rparr>)) \<subseteq> set (waiting A)" for i ps
    by (auto simp: waiting_def)
  ultimately have "tracked R js (A\<lparr>jp_busy := filter (\<lambda>b. fst b \<noteq> w) (jp_busy A), jp_idle := jp_idle A @ [w], jp_promises := (jp_promises A)[p := Some r]\<rparr>)"
    using assms(1) assms(2) [of p job] Some pj unfolding tracked_def by (auto simp: nth_list_update split: if_splits)
  then show ?thesis by (simp add: spec_answer_def Some pj hand_out_tracked)
qed (simp add: spec_answer_def assms(1))

lemma honest_run_tracked: "tracked R js A \<Longrightarrow> honest_run R A es \<Longrightarrow> tracked R (js @ jobs_of es) (foldl spec_step A es)"
proof (induction es arbitrary: js A)
  case (Cons e es)
  have "tracked R (js @ jobs_of [e]) (spec_step A e)"
  proof (cases e)
    case (Exec job)
    then show ?thesis using Cons.prems by (simp add: jobs_of_def map_filter_simps spec_exec_tracked)
  qed (use Cons.prems in \<open>auto simp: jobs_of_def map_filter_simps honest_def intro!: spec_answer_tracked\<close>)
  then have "tracked R ((js @ jobs_of [e]) @ jobs_of es) (foldl spec_step (spec_step A e) es)"
    using Cons.IH [of "js @ jobs_of [e]" "spec_step A e"] Cons.prems(2) by simp
  moreover have "jobs_of (e # es) = jobs_of [e] @ jobs_of es" by (simp add: jobs_of_def map_filter_simps split: option.split)
  ultimately show ?case by simp
qed (simp add: jobs_of_def map_filter_simps)

lemma map_filter_all: "\<forall>x \<in> set xs. f x \<noteq> None \<Longrightarrow> List.map_filter f xs = map (the \<circ> f) xs"
  by (induction xs) (auto simp: map_filter_simps)


text \<open>Every settled promise is noted in the order of settling, so a rejection is not overlooked.\<close>

definition order_ok :: "WorkerLikePool \<Rightarrow> bool" where
  "order_ok P \<longleftrightarrow> (\<forall>i < length (wl_promises P). wl_promises P ! i \<noteq> None \<longrightarrow> i \<in> set (wl_order P))"

lemma pump_order: "wl_promises (pump P) = wl_promises P" "wl_order (pump P) = wl_order P"
proof (induction P rule: pump.induct)
  case (1 P)
  {
    case 1
    then show ?case using "1.IH"(1) by (subst pump.simps) (auto simp: attach_def split: list.split)
  next
    case 2
    then show ?case using "1.IH"(2) by (subst pump.simps) (auto simp: attach_def split: list.split)
  }
qed

lemma order_finish: "order_ok P \<Longrightarrow> order_ok (finish w r P l)"
  by (auto simp: finish_def pump_order settle_def order_ok_def nth_list_update split: if_splits)

lemma order_answers: "order_ok P \<Longrightarrow> order_ok (foldl (finish w r) P ls)"
  by (induction ls arbitrary: P) (simp_all add: order_finish)

lemma order_listeners [simp]: "order_ok (P\<lparr>wl_onMessage := ls\<rparr>) = order_ok P" "order_ok (P\<lparr>wl_onError := ls\<rparr>) = order_ok P"
  by (simp_all add: order_ok_def)

lemma order_step: "order_ok P \<Longrightarrow> order_ok (pool_step P e)"
proof (cases e)
  case (Exec job)
  then show "order_ok P \<Longrightarrow> ?thesis" by (auto simp: pool_exec_def pump_order order_ok_def nth_append less_Suc_eq)
qed (simp_all add: on_message_def on_error_def order_answers)

lemma order_run: "order_ok (pool_run n es)"
  by (induction es rule: rev_induct) (simp_all add: pool_run_def order_step, simp add: order_ok_def new_pool_def)

lemma run_promises:
  assumes "honest_run R (spec_pool n) es"
  shows "tracked R (jobs_of es) (abs_pool (pool_run n es))"
proof -
  have "tracked R [] (spec_pool n)" by (simp add: tracked_def spec_pool_def waiting_def)
  from honest_run_tracked [OF this assms] show ?thesis using run_refines [of n es] by simp
qed



section \<open>Progress\<close>

definition pending :: "WorkerLikePool \<Rightarrow> nat" where
  "pending P = card {i. i < length (wl_promises P) \<and> wl_promises P ! i = None}"

definition in_flight :: "WorkerLikePool \<Rightarrow> nat \<Rightarrow> bool" where
  "in_flight P w \<longleftrightarrow> (\<exists>l. (w, l) \<in> set (wl_onMessage P) \<and> li_dispatch l \<notin> set (wl_settled P))"

lemma in_flight_busy: "in_flight P w \<longleftrightarrow> map_of (jp_busy (abs_pool P)) w \<noteq> None"
  by (force simp: in_flight_def abs_pool_def live_def unsettled_def flight_def map_of_eq_None_iff image_iff)

lemma pending_waiting: "pool_ok n (abs_pool P) \<Longrightarrow> pending P = length (waiting (abs_pool P))"
proof -
  assume "pool_ok n (abs_pool P)"
  then have "promises_ok (map fst (waiting (abs_pool P))) (wl_promises P)"
    by (simp add: pool_ok_def pool_shape_def waiting_def abs_pool_def)
  then show ?thesis using distinct_card [of "map fst (waiting (abs_pool P))"] by (simp add: promises_ok_def pending_def)
qed

lemma spec_answer_waiting:
  assumes "distinct (map fst (jp_busy A))" "map_of (jp_busy A) w \<noteq> None"
  shows "Suc (length (waiting (spec_answer w r A))) = length (waiting A)"
proof -
  obtain p job where pj: "map_of (jp_busy A) w = Some (p, job)" using assms(2) by force
  then obtain xs ys where "jp_busy A = xs @ (w, p, job) # ys" "filter (\<lambda>b. fst b \<noteq> w) (jp_busy A) = xs @ ys"
    using assms(1) by (rule busy_split)
  moreover from this have "spec_answer w r A = hand_out (A\<lparr>jp_busy := xs @ ys, jp_idle := jp_idle A @ [w], jp_promises := (jp_promises A)[p := Some r]\<rparr>)"
    unfolding spec_answer_def pj by simp
  ultimately show ?thesis by (simp add: hand_out_waiting) (simp add: waiting_def)
qed

lemma idle_pool_done:
  assumes "pool_ok n A" "0 < n" "jp_busy A = []"
  shows "waiting A = []"
proof -
  have "set (jp_idle A) = {..<n}" using assms(1,3) by (simp add: pool_ok_def pool_shape_def workers_ok_def)
  then have "jp_idle A \<noteq> []" using assms(2) by (metis empty_iff empty_set lessThan_iff)
  then show ?thesis using assms(1,3) by (simp add: pool_ok_def waiting_def)
qed



text \<open>Two workers, three jobs; the second worker answers two of them before the first answers its own.\<close>

definition example_proof_job :: "nat \<Rightarrow> ProveJob" where
  "example_proof_job i = \<lparr>pj_input = JNum (of_nat i), pj_wasm = ''w'', pj_zkey = ''z''\<rparr>"

definition example_proof :: "nat \<Rightarrow> ProveJobResult" where
  "example_proof i = \<lparr>pr_proof = JNum (of_nat i), pr_publicSignals = []\<rparr>"

definition example_batch :: "pool_event list" where
  "example_batch = [Exec (example_proof_job 0), Exec (example_proof_job 1), Exec (example_proof_job 2),
     Message 1 (WorkerResult (example_proof 1)), Message 1 (WorkerResult (example_proof 2)), Message 0 (WorkerResult (example_proof 0))]"

definition proof_of_job :: "ProveJob \<Rightarrow> outcome \<Rightarrow> bool" where
  "proof_of_job job r \<longleftrightarrow> (case r of Inr x \<Rightarrow> pr_proof x = pj_input job | Inl e \<Rightarrow> False)"

lemma example_batch_honest: "honest_run proof_of_job (spec_pool 2) example_batch"
  by (simp add: example_batch_def honest_def spec_pool_def spec_exec_def spec_answer_def hand_out_def proof_of_job_def message_outcome_def
      example_proof_def example_proof_job_def numeral_2_eq_2)

lemma example_batch_done: "promise_all (pool_run 2 example_batch) = Some (Inr [example_proof 0, example_proof 1, example_proof 2])"
  by code_simp



end
