(* ===== verification/Wallet_Cache.thy ===== *)
theory Wallet_Cache
  imports Prelude "HOL-Library.List_Lexorder" "HOL-Library.Char_ord"
begin

text \<open>
  The announcement cache of the web wallet, \<^verbatim>\<open>frontend/src/lib/opaqueCache.ts\<close>. The two IndexedDB object stores are
  association lists, read in the order of their keys; each readwrite transaction is one function, which either takes place or,
  when the database call fails, leaves the stores as they are. Ledger numbers are integers.
\<close>

section \<open>Records\<close>

record announcement_args =
  aa_stealthAddress :: "string option"
  aa_ephemeralPubKey :: "string option"
  aa_metadata :: "string option"

record CachedAnnouncement =
  ca_id :: string
  ca_cluster :: string
  ca_slot :: int
  ca_transactionSignature :: string
  ca_logIndex :: nat
  ca_args :: announcement_args

record UnscannedRange =
  fromLedger :: int
  toLedger :: int

text \<open>An absent \<open>unscannedRange\<close> and a null one are both \<open>None\<close>.\<close>

record SyncState =
  ss_cluster :: string
  ss_lastScannedSlot :: int
  ss_unscannedRanges :: "UnscannedRange list option"
  ss_unscannedRange :: "UnscannedRange option"

record OpaqueCache =
  oc_announcements :: "(string \<times> CachedAnnouncement) list"
  oc_syncState :: "(string \<times> SyncState) list"

definition empty_cache :: OpaqueCache where
  "empty_cache = \<lparr> oc_announcements = [], oc_syncState = [] \<rparr>"

definition no_args :: announcement_args where
  "no_args = \<lparr> aa_stealthAddress = None, aa_ephemeralPubKey = None, aa_metadata = None \<rparr>"


section \<open>Announcements\<close>

definition announcementId :: "string \<Rightarrow> string \<Rightarrow> nat \<Rightarrow> string" where
  "announcementId cluster txSig logIndex = cluster @ ''-'' @ txSig @ ''-'' @ dec_of_nat logIndex"

definition rekeyV3Announcements :: "CachedAnnouncement list \<Rightarrow> CachedAnnouncement list" where
  "rekeyV3Announcements records =
     map (\<lambda>r. r\<lparr> ca_id := announcementId (ca_cluster r) (ca_transactionSignature r) (ca_logIndex r) \<rparr>) records"

definition put_record :: "CachedAnnouncement \<Rightarrow> (string \<times> CachedAnnouncement) list \<Rightarrow> (string \<times> CachedAnnouncement) list" where
  "put_record r m = AList.update (ca_id r) r m"

definition all_records :: "OpaqueCache \<Rightarrow> CachedAnnouncement list" where
  "all_records db = map snd (sort_key fst (oc_announcements db))"

text \<open>Opening a database written by an older version.\<close>

definition upgrade :: "nat \<Rightarrow> OpaqueCache \<Rightarrow> OpaqueCache" where
  "upgrade oldVersion db =
     (if oldVersion = 3 then db\<lparr> oc_announcements := fold put_record (rekeyV3Announcements (all_records db)) [] \<rparr>
      else empty_cache)"

record announcement_log =
  al_transactionSignature :: "string option"
  al_logIndex :: "nat option"
  al_slot :: "int option"
  al_args :: "announcement_args option"

definition or_else :: "'a option \<Rightarrow> 'a \<Rightarrow> 'a" where
  "or_else x d = (case x of None \<Rightarrow> d | Some y \<Rightarrow> y)"

definition cached_record :: "string \<Rightarrow> announcement_log \<Rightarrow> CachedAnnouncement" where
  "cached_record cluster lg =
     (let tx = or_else (al_transactionSignature lg) ''''; i = or_else (al_logIndex lg) 0
      in \<lparr> ca_id = announcementId cluster tx i, ca_cluster = cluster, ca_slot = or_else (al_slot lg) 0,
           ca_transactionSignature = tx, ca_logIndex = i, ca_args = or_else (al_args lg) no_args \<rparr>)"

definition putAnnouncements :: "string \<Rightarrow> announcement_log list \<Rightarrow> OpaqueCache \<Rightarrow> OpaqueCache" where
  "putAnnouncements cluster logs db =
     db\<lparr> oc_announcements := fold (\<lambda>lg. put_record (cached_record cluster lg)) logs (oc_announcements db) \<rparr>"

definition getAnnouncementsForCluster :: "string \<Rightarrow> OpaqueCache \<Rightarrow> CachedAnnouncement list" where
  "getAnnouncementsForCluster cluster db =
     sort_key ca_slot (filter (\<lambda>a. ca_cluster a = cluster \<and> 0 \<le> ca_slot a \<and> ca_slot a \<le> 2 ^ 53 - 1) (all_records db))"

definition of_cluster :: "string \<Rightarrow> OpaqueCache \<Rightarrow> CachedAnnouncement list" where
  "of_cluster cluster db = filter (\<lambda>a. ca_cluster a = cluster) (all_records db)"

definition getMaxSlotForCluster :: "string \<Rightarrow> OpaqueCache \<Rightarrow> int option" where
  "getMaxSlotForCluster cluster db =
     (case map ca_slot (of_cluster cluster db) of [] \<Rightarrow> None | s # ss \<Rightarrow> Some (fold max ss s))"

definition getAnnouncementCountForCluster :: "string \<Rightarrow> OpaqueCache \<Rightarrow> nat" where
  "getAnnouncementCountForCluster cluster db = length (of_cluster cluster db)"


section \<open>Sync state\<close>

definition getSyncState :: "string \<Rightarrow> OpaqueCache \<Rightarrow> SyncState option" where
  "getSyncState cluster db = map_of (oc_syncState db) cluster"

definition updateSyncState :: "string \<Rightarrow> (SyncState option \<Rightarrow> SyncState) \<Rightarrow> OpaqueCache \<Rightarrow> SyncState \<times> OpaqueCache" where
  "updateSyncState cluster f db =
     (let next = f (map_of (oc_syncState db) cluster)
      in (next, db\<lparr> oc_syncState := AList.update (ss_cluster next) next (oc_syncState db) \<rparr>))"

definition getUnscannedRanges :: "SyncState option \<Rightarrow> UnscannedRange list" where
  "getUnscannedRanges st =
     (case st of None \<Rightarrow> []
      | Some s \<Rightarrow> (case ss_unscannedRanges s of Some rs \<Rightarrow> rs
                    | None \<Rightarrow> (case ss_unscannedRange s of Some r \<Rightarrow> [r] | None \<Rightarrow> [])))"

text \<open>The list of merged ranges, last first.\<close>

definition merge_next :: "UnscannedRange \<Rightarrow> UnscannedRange list \<Rightarrow> UnscannedRange list" where
  "merge_next next merged =
     (case merged of
        lst # rest \<Rightarrow> if fromLedger next \<le> toLedger lst + 1
                       then lst\<lparr> toLedger := max (toLedger lst) (toLedger next) \<rparr> # rest
                       else next # merged
      | [] \<Rightarrow> [next])"

definition mergeUnscannedRanges :: "UnscannedRange list \<Rightarrow> UnscannedRange \<Rightarrow> UnscannedRange list" where
  "mergeUnscannedRanges ranges rg = rev (fold merge_next (sort_key fromLedger (ranges @ [rg])) [])"

definition setSyncState :: "string \<Rightarrow> int \<Rightarrow> OpaqueCache \<Rightarrow> OpaqueCache" where
  "setSyncState cluster lastScannedSlot db =
     snd (updateSyncState cluster (\<lambda>prev.
       (case prev of
          Some p \<Rightarrow> p\<lparr> ss_cluster := cluster, ss_lastScannedSlot := lastScannedSlot \<rparr>
        | None \<Rightarrow> \<lparr> ss_cluster = cluster, ss_lastScannedSlot = lastScannedSlot,
                     ss_unscannedRanges = None, ss_unscannedRange = None \<rparr>)) db)"

definition recordUnscannedRange :: "string \<Rightarrow> UnscannedRange \<Rightarrow> OpaqueCache \<Rightarrow> UnscannedRange list \<times> OpaqueCache" where
  "recordUnscannedRange cluster rg db =
     (let (next, db') = updateSyncState cluster (\<lambda>prev.
            let merged = Some (mergeUnscannedRanges (getUnscannedRanges prev) rg)
            in (case prev of
                  Some p \<Rightarrow> p\<lparr> ss_cluster := cluster, ss_unscannedRanges := merged \<rparr>
                | None \<Rightarrow> \<lparr> ss_cluster = cluster, ss_lastScannedSlot = 0,
                             ss_unscannedRanges = merged, ss_unscannedRange = None \<rparr>)) db
      in (getUnscannedRanges (Some next), db'))"

definition clearSyncState :: "string \<Rightarrow> OpaqueCache \<Rightarrow> OpaqueCache" where
  "clearSyncState cluster db = db\<lparr> oc_syncState := AList.delete cluster (oc_syncState db) \<rparr>"

definition clearClusterCache :: "string \<Rightarrow> OpaqueCache \<Rightarrow> OpaqueCache" where
  "clearClusterCache cluster db =
     (let db1 = db\<lparr> oc_announcements := filter (\<lambda>(_, a). ca_cluster a \<noteq> cluster) (oc_announcements db) \<rparr>
      in db1\<lparr> oc_syncState := AList.delete cluster (oc_syncState db1) \<rparr>)"

definition clearAllData :: "OpaqueCache \<Rightarrow> OpaqueCache" where
  "clearAllData db = db\<lparr> oc_announcements := [], oc_syncState := [] \<rparr>"


section \<open>Gaps\<close>

definition ledgers :: "UnscannedRange list \<Rightarrow> int set" where
  "ledgers rs = (\<Union>r\<in>set rs. {fromLedger r..toLedger r})"

lemma ledgers_simps [simp]:
  "ledgers [] = {}" "ledgers (r # rs) = {fromLedger r..toLedger r} \<union> ledgers rs"
  "ledgers (rs @ ss) = ledgers rs \<union> ledgers ss" "ledgers (rev rs) = ledgers rs"
  by (auto simp: ledgers_def)

lemma ledgers_set: "set rs = set ss \<Longrightarrow> ledgers rs = ledgers ss"
  by (simp add: ledgers_def)

text \<open>Sorted, and between any two ranges at least one ledger is in neither.\<close>

definition separated :: "UnscannedRange list \<Rightarrow> bool" where
  "separated rs \<longleftrightarrow> sorted_wrt (\<lambda>a b. toLedger a + 1 < fromLedger b) rs"

definition starts_below :: "UnscannedRange list \<Rightarrow> UnscannedRange \<Rightarrow> bool" where
  "starts_below merged next \<longleftrightarrow> (case merged of [] \<Rightarrow> True | lst # _ \<Rightarrow> fromLedger lst \<le> fromLedger next)"

lemma ledgers_merge_next:
  "starts_below merged next \<Longrightarrow> ledgers (merge_next next merged) = ledgers merged \<union> {fromLedger next..toLedger next}"
  by (auto simp: starts_below_def merge_next_def split: list.splits)

lemma starts_below_merge_next:
  "starts_below merged next \<Longrightarrow> fromLedger next \<le> fromLedger r \<Longrightarrow> starts_below (merge_next next merged) r"
  by (auto simp: starts_below_def merge_next_def split: list.splits)

lemma ledgers_fold_merge:
  assumes "sorted (map fromLedger rs)" "\<forall>r\<in>set rs. starts_below merged r"
  shows "ledgers (fold merge_next rs merged) = ledgers merged \<union> ledgers rs"
  using assms
proof (induction rs arbitrary: merged)
  case (Cons r rs)
  then have "\<forall>x\<in>set rs. starts_below (merge_next r merged) x" by (auto intro: starts_below_merge_next)
  with Cons show ?case by (auto simp: ledgers_merge_next)
qed simp

lemma ledgers_mergeUnscannedRanges:
  "ledgers (mergeUnscannedRanges ranges rg) = ledgers ranges \<union> {fromLedger rg..toLedger rg}"
  unfolding mergeUnscannedRanges_def ledgers_simps(4)
  by (subst ledgers_fold_merge) (auto simp: starts_below_def ledgers_def)

definition gaps_ok :: "UnscannedRange list \<Rightarrow> bool" where
  "gaps_ok rs \<longleftrightarrow> separated rs \<and> (\<forall>r\<in>set rs. fromLedger r \<le> toLedger r)"

lemma merge_next_gaps:
  assumes "gaps_ok (rev merged)" "starts_below merged next" "fromLedger next \<le> toLedger next"
  shows "gaps_ok (rev (merge_next next merged))"
  using assms by (fastforce simp: gaps_ok_def separated_def starts_below_def merge_next_def sorted_wrt_append split: list.splits)

lemma fold_merge_gaps:
  assumes "sorted (map fromLedger rs)" "\<forall>r\<in>set rs. starts_below merged r \<and> fromLedger r \<le> toLedger r" "gaps_ok (rev merged)"
  shows "gaps_ok (rev (fold merge_next rs merged))"
  using assms
proof (induction rs arbitrary: merged)
  case (Cons r rs)
  then have "\<forall>x\<in>set rs. starts_below (merge_next r merged) x \<and> fromLedger x \<le> toLedger x" by (auto intro: starts_below_merge_next)
  with Cons show ?case by (simp add: merge_next_gaps)
qed simp

lemma mergeUnscannedRanges_gaps:
  assumes "\<forall>r\<in>set ranges. fromLedger r \<le> toLedger r" "fromLedger rg \<le> toLedger rg"
  shows "gaps_ok (mergeUnscannedRanges ranges rg)"
  unfolding mergeUnscannedRanges_def using assms
  by (intro fold_merge_gaps) (auto simp: starts_below_def gaps_ok_def separated_def)


section \<open>What the operations do to one cluster\<close>

definition cursor :: "string \<Rightarrow> OpaqueCache \<Rightarrow> int option" where
  "cursor cluster db = map_option ss_lastScannedSlot (getSyncState cluster db)"

definition gaps :: "string \<Rightarrow> OpaqueCache \<Rightarrow> int set" where
  "gaps cluster db = ledgers (getUnscannedRanges (getSyncState cluster db))"

named_theorems cache_simps \<open>the view of one cluster after an operation of the cache\<close>

lemmas sync_defs = cursor_def gaps_def getSyncState_def updateSyncState_def setSyncState_def recordUnscannedRange_def Let_def

lemma putAnnouncements_view [cache_simps]:
  "cursor c (putAnnouncements k logs db) = cursor c db" "gaps c (putAnnouncements k logs db) = gaps c db"
  by (simp_all add: putAnnouncements_def sync_defs)

lemma setSyncState_view [cache_simps]:
  "cursor c (setSyncState c l db) = Some l" "gaps c (setSyncState c l db) = gaps c db"
  "oc_announcements (setSyncState c l db) = oc_announcements db"
  by (simp_all add: sync_defs getUnscannedRanges_def split: option.splits)

lemma recordUnscannedRange_view [cache_simps]:
  "cursor c (snd (recordUnscannedRange c r db)) = Some (case cursor c db of None \<Rightarrow> 0 | Some l \<Rightarrow> l)"
  "gaps c (snd (recordUnscannedRange c r db)) = gaps c db \<union> {fromLedger r..toLedger r}"
  "oc_announcements (snd (recordUnscannedRange c r db)) = oc_announcements db"
  by (simp_all add: sync_defs getUnscannedRanges_def ledgers_mergeUnscannedRanges split: option.splits)

lemma clearSyncState_view [cache_simps]:
  "cursor c (clearSyncState c db) = None" "gaps c (clearSyncState c db) = {}"
  "oc_announcements (clearSyncState c db) = oc_announcements db"
  by (simp_all add: clearSyncState_def sync_defs getUnscannedRanges_def)

lemma clearClusterCache_view [cache_simps]:
  "cursor c (clearClusterCache c db) = None" "gaps c (clearClusterCache c db) = {}"
  by (simp_all add: clearClusterCache_def sync_defs getUnscannedRanges_def)

lemma fold_put_record:
  "map_of (fold (\<lambda>lg. put_record (f lg)) logs m) i =
     (case find (\<lambda>lg. ca_id (f lg) = i) (rev logs) of Some lg \<Rightarrow> Some (f lg) | None \<Rightarrow> map_of m i)"
proof (induction logs rule: rev_induct)
  case (snoc lg logs) then show ?case by (simp add: put_record_def)
qed simp

text \<open>Within a cluster the id names the transaction and the position, whatever characters the hash has.\<close>

lemma announcementId_inj: "announcementId c t i = announcementId c u j \<longleftrightarrow> t = u \<and> i = j"
proof
  assume eq: "announcementId c t i = announcementId c u j"
  have dash: "CHR ''-'' \<notin> set (dec_of_nat n)" for n
    using dec_of_nat_digits [of n] by (auto simp: list_all_iff is_digit_def)
  have "takeWhile (\<lambda>x. x \<noteq> CHR ''-'') (rev (w @ CHR ''-'' # dec_of_nat n)) = rev (dec_of_nat n)" for w n
    using dash [of n] by (subst rev_append) (auto simp: takeWhile_append2 takeWhile_tail)
  moreover from eq have tails: "t @ CHR ''-'' # dec_of_nat i = u @ CHR ''-'' # dec_of_nat j"
    by (simp add: announcementId_def)
  ultimately have "rev (dec_of_nat i) = rev (dec_of_nat j)" by metis
  with tails show "t = u \<and> i = j" by (auto dest: dec_of_nat_inj)
qed simp

end
