(* ===== verification/Wallet_Scan.thy ===== *)
theory Wallet_Scan
  imports Wallet_Cache Sdk_Stealth
begin

text \<open>
  The announcement scan of the web wallet, \<^verbatim>\<open>frontend/src/hooks/useScanner.ts\<close>: the split of a ledger range into pages, the
  workers that fetch pages concurrently and deliver them in order, and how a scan starts. Every \<open>await\<close> is a point where other
  workers may run: a state holds where each worker waits, an event is the settlement of one awaited call, and a step does what
  the code does until the next \<open>await\<close>. The chunk callback and the gap callback are those of \<open>runChunkedRpcSync\<close>. The RPC
  server and \<open>scValToNative\<close> are arguments; progress messages are left out, and so is the sharing of a page request between
  two scans that run at the same time.
\<close>

section \<open>Pages\<close>

record PageRange =
  pg_from :: int
  pg_to :: int

definition BATCH_SIZE :: nat where "BATCH_SIZE = 10000"

function buildPageRanges :: "nat \<Rightarrow> int \<Rightarrow> int \<Rightarrow> PageRange list" where
  "buildPageRanges batchSize currentFrom toBlock =
     (if currentFrom \<le> toBlock
      then (let currentTo = (if currentFrom + int batchSize > toBlock then toBlock else currentFrom + int batchSize)
            in \<lparr> pg_from = currentFrom, pg_to = currentTo \<rparr> # buildPageRanges batchSize (currentTo + 1) toBlock)
      else [])"
  by pat_completeness auto
termination by (relation "measure (\<lambda>(_, f, t). nat (t - f + 1))") auto

declare buildPageRanges.simps [simp del]


section \<open>Events of the announcer\<close>

record 'v announcement_event =
  ev_txHash :: string
  ev_ledger :: int
  ev_value :: 'v

definition buffer_hex :: "byte list list \<Rightarrow> nat \<Rightarrow> string option res" where
  "buffer_hex val i =
     (if i < length val then Inr (Some (''0x'' @ hex_of_bytes (val ! i)))
      else Inl (TypeError ''The first argument must be of type string or an instance of Buffer, ArrayBuffer, or Array or an Array-like Object''))"

definition map_event :: "('v \<Rightarrow> byte list list res) \<Rightarrow> string \<Rightarrow> nat \<Rightarrow> 'v announcement_event \<Rightarrow> CachedAnnouncement res" where
  "map_event scValToNative cluster idx ev =
     res_bind (scValToNative (ev_value ev)) (\<lambda>val.
     res_bind (buffer_hex val 1) (\<lambda>sa.
     res_bind (buffer_hex val 3) (\<lambda>epk.
     res_bind (buffer_hex val 4) (\<lambda>md.
       Inr \<lparr> ca_id = announcementId cluster (ev_txHash ev) idx, ca_cluster = cluster, ca_slot = ev_ledger ev,
             ca_transactionSignature = ev_txHash ev, ca_logIndex = idx,
             ca_args = \<lparr> aa_stealthAddress = sa, aa_ephemeralPubKey = epk, aa_metadata = md \<rparr> \<rparr>))))"

fun map_events :: "('v \<Rightarrow> byte list list res) \<Rightarrow> string \<Rightarrow> (string \<times> nat) list \<Rightarrow> 'v announcement_event list \<Rightarrow> CachedAnnouncement list res" where
  "map_events scValToNative cluster txEventIndex [] = Inr []"
| "map_events scValToNative cluster txEventIndex (ev # evs) =
     (let idx = or_else (map_of txEventIndex (ev_txHash ev)) 0
      in res_bind (map_event scValToNative cluster idx ev) (\<lambda>a.
         res_bind (map_events scValToNative cluster (AList.update (ev_txHash ev) (idx + 1) txEventIndex) evs) (\<lambda>rest.
           Inr (a # rest))))"

definition mapAnnouncementEvents :: "('v \<Rightarrow> byte list list res) \<Rightarrow> string \<Rightarrow> 'v announcement_event list \<Rightarrow> CachedAnnouncement list res" where
  "mapAnnouncementEvents scValToNative cluster events = map_events scValToNative cluster [] events"

text \<open>The range an RPC error reports: the first place where the pattern matches.\<close>

definition range_at :: "string \<Rightarrow> nat option" where
  "range_at s =
     (let key = ''ledger range:''
      in if take (length key) s \<noteq> key then None
         else (let r1 = dropWhile is_ws (drop (length key) s); d1 = takeWhile is_digit r1;
                   r2 = dropWhile is_ws (dropWhile is_digit r1)
               in case r2 of
                    c # r3 \<Rightarrow> if d1 \<noteq> [] \<and> c = CHR ''-'' \<and> takeWhile is_digit (dropWhile is_ws r3) \<noteq> []
                              then Some (nat_of_dec d1) else None
                  | [] \<Rightarrow> None))"

fun find_range :: "string \<Rightarrow> nat option" where
  "find_range [] = None"
| "find_range (c # s) = (case range_at (c # s) of Some n \<Rightarrow> Some n | None \<Rightarrow> find_range s)"

definition parseOldestLedgerFromRangeError :: "js_error \<Rightarrow> int option" where
  "parseOldestLedgerFromRangeError err = map_option int (find_range (err_message err))"


section \<open>The concurrent fetch\<close>

record fetched_page =
  fp_from :: int
  fp_to :: int
  fp_logs :: "CachedAnnouncement list"

text \<open>Where a worker waits: for the events of a page, for a gap to be recorded, for the events after that, or for the cache
  while it delivers the next page in order.\<close>

datatype worker_pc =
    Fetching nat
  | Reporting nat int
  | Refetching nat int
  | Putting fetched_page
  | Advancing fetched_page
  | Stopped

datatype main_pc =
    AskingHealth
  | RecordingClamp int
  | Working
  | Flushing fetched_page
  | FlushAdvancing fetched_page
  | Returned
  | Threw js_error

record scan =
  sn_cluster :: string
  sn_fromBlock :: int
  sn_toBlock :: int
  sn_concurrency :: nat
  sn_ranges :: "PageRange list"
  sn_results :: "(nat \<times> fetched_page) list"
  sn_nextToFlush :: nat
  sn_nextToDispatch :: nat
  sn_firstError :: "js_error option"
  sn_workers :: "worker_pc list"
  sn_main :: main_pc
  sn_db :: OpaqueCache

definition DEFAULT_FETCH_CONCURRENCY :: nat where "DEFAULT_FETCH_CONCURRENCY = 4"

definition set_pc :: "nat \<Rightarrow> worker_pc \<Rightarrow> scan \<Rightarrow> scan" where
  "set_pc w pc s = s\<lparr> sn_workers := (sn_workers s)[w := pc] \<rparr>"

definition dispatch :: "nat \<Rightarrow> scan \<Rightarrow> scan" where
  "dispatch w s =
     (if sn_firstError s \<noteq> None \<or> sn_nextToDispatch s \<ge> length (sn_ranges s) then set_pc w Stopped s
      else set_pc w (Fetching (sn_nextToDispatch s)) (s\<lparr> sn_nextToDispatch := sn_nextToDispatch s + 1 \<rparr>))"

definition worker_failed :: "nat \<Rightarrow> js_error \<Rightarrow> scan \<Rightarrow> scan" where
  "worker_failed w err s =
     set_pc w Stopped (s\<lparr> sn_firstError := (case sn_firstError s of None \<Rightarrow> Some err | Some e \<Rightarrow> Some e) \<rparr>)"

definition drainReady :: "nat \<Rightarrow> scan \<Rightarrow> scan" where
  "drainReady w s =
     (case map_of (sn_results s) (sn_nextToFlush s) of
        Some p \<Rightarrow> set_pc w (Putting p) (s\<lparr> sn_results := AList.delete (sn_nextToFlush s) (sn_results s) \<rparr>)
      | None \<Rightarrow> dispatch w s)"

definition page_done :: "nat \<Rightarrow> nat \<Rightarrow> fetched_page \<Rightarrow> scan \<Rightarrow> scan" where
  "page_done w index page s =
     (let s1 = s\<lparr> sn_results := AList.update index page (sn_results s) \<rparr>
      in if index = sn_nextToFlush s1 then drainReady w s1 else dispatch w s1)"

definition page_answered :: "('v \<Rightarrow> byte list list res) \<Rightarrow> nat \<Rightarrow> nat \<Rightarrow> 'v announcement_event list \<Rightarrow> scan \<Rightarrow> scan" where
  "page_answered scValToNative w index events s =
     (case mapAnnouncementEvents scValToNative (sn_cluster s) events of
        Inl err \<Rightarrow> worker_failed w err s
      | Inr logs \<Rightarrow> page_done w index \<lparr> fp_from = pg_from (sn_ranges s ! index), fp_to = pg_to (sn_ranges s ! index),
                                        fp_logs = logs \<rparr> s)"

definition gap_of :: "PageRange \<Rightarrow> int \<Rightarrow> UnscannedRange" where
  "gap_of rg oldest = \<lparr> fromLedger = pg_from rg, toLedger = min (oldest - 1) (pg_to rg) \<rparr>"

definition fetch_failed :: "nat \<Rightarrow> nat \<Rightarrow> js_error \<Rightarrow> scan \<Rightarrow> scan" where
  "fetch_failed w index err s =
     (case parseOldestLedgerFromRangeError err of
        Some oldest \<Rightarrow> if pg_from (sn_ranges s ! index) < oldest then set_pc w (Reporting index oldest) s
                        else worker_failed w err s
      | None \<Rightarrow> worker_failed w err s)"

definition main_drain :: "scan \<Rightarrow> scan" where
  "main_drain s =
     (case map_of (sn_results s) (sn_nextToFlush s) of
        Some p \<Rightarrow> s\<lparr> sn_main := Flushing p, sn_results := AList.delete (sn_nextToFlush s) (sn_results s) \<rparr>
      | None \<Rightarrow> s\<lparr> sn_main := Returned \<rparr>)"

text \<open>What follows the \<open>Promise.all\<close> over the workers.\<close>

definition join :: "scan \<Rightarrow> scan" where
  "join s =
     (if sn_main s = Working \<and> (\<forall>pc\<in>set (sn_workers s). pc = Stopped)
      then (case sn_firstError s of Some err \<Rightarrow> s\<lparr> sn_main := Threw err \<rparr> | None \<Rightarrow> main_drain s)
      else s)"

definition start_workers :: "int \<Rightarrow> scan \<Rightarrow> scan" where
  "start_workers effectiveFrom s =
     (if effectiveFrom > sn_toBlock s then s\<lparr> sn_main := Returned \<rparr>
      else (let ranges = buildPageRanges BATCH_SIZE effectiveFrom (sn_toBlock s);
                workerCount = max 1 (min (sn_concurrency s) (length ranges))
            in join (fold dispatch [0..<workerCount]
                 (s\<lparr> sn_ranges := ranges, sn_results := [], sn_nextToFlush := 0, sn_nextToDispatch := 0, sn_firstError := None,
                     sn_workers := replicate workerCount Stopped, sn_main := Working \<rparr>))))"

definition log_of :: "CachedAnnouncement \<Rightarrow> announcement_log" where
  "log_of a = \<lparr> al_transactionSignature = Some (ca_transactionSignature a), al_logIndex = Some (ca_logIndex a),
               al_slot = Some (ca_slot a), al_args = Some (ca_args a) \<rparr>"

definition put_page :: "fetched_page \<Rightarrow> scan \<Rightarrow> scan" where
  "put_page page s = s\<lparr> sn_db := putAnnouncements (sn_cluster s) (map log_of (fp_logs page)) (sn_db s) \<rparr>"

definition set_cursor :: "fetched_page \<Rightarrow> scan \<Rightarrow> scan" where
  "set_cursor page s = s\<lparr> sn_db := setSyncState (sn_cluster s) (fp_to page) (sn_db s), sn_nextToFlush := sn_nextToFlush s + 1 \<rparr>"

definition record_gap :: "UnscannedRange \<Rightarrow> scan \<Rightarrow> scan" where
  "record_gap gap s = s\<lparr> sn_db := snd (recordUnscannedRange (sn_cluster s) gap (sn_db s)) \<rparr>"

datatype 'v scan_event =
    Health "int res"
  | ClampRecorded "unit res"
  | Events nat "'v announcement_event list res"
  | GapRecorded nat "unit res"
  | Stored nat "unit res"
  | CursorSet nat "unit res"
  | MainStored "unit res"
  | MainCursorSet "unit res"

definition health_answered :: "int res \<Rightarrow> scan \<Rightarrow> scan" where
  "health_answered r s =
     (case r of
        Inr oldest \<Rightarrow> if sn_fromBlock s < oldest
                       then (if sn_fromBlock s \<le> sn_toBlock s then s\<lparr> sn_main := RecordingClamp oldest \<rparr> else start_workers oldest s)
                       else start_workers (sn_fromBlock s) s
      | Inl _ \<Rightarrow> start_workers (sn_fromBlock s) s)"

definition clamp_gap :: "scan \<Rightarrow> int \<Rightarrow> UnscannedRange" where
  "clamp_gap s oldest = \<lparr> fromLedger = sn_fromBlock s,
     toLedger = (if oldest - 1 < sn_toBlock s then oldest - 1 else sn_toBlock s) \<rparr>"

definition worker_step :: "('v \<Rightarrow> byte list list res) \<Rightarrow> nat \<Rightarrow> 'v scan_event \<Rightarrow> worker_pc \<Rightarrow> scan \<Rightarrow> scan" where
  "worker_step scValToNative w ev pc s =
     (case (ev, pc) of
        (Events _ (Inr events), Fetching i) \<Rightarrow> page_answered scValToNative w i events s
      | (Events _ (Inl err), Fetching i) \<Rightarrow> fetch_failed w i err s
      | (GapRecorded _ (Inr _), Reporting i oldest) \<Rightarrow>
          set_pc w (Refetching i oldest) (record_gap (gap_of (sn_ranges s ! i) oldest) s)
      | (GapRecorded _ (Inl err), Reporting _ _) \<Rightarrow> worker_failed w err s
      | (Events _ (Inr events), Refetching i _) \<Rightarrow> page_answered scValToNative w i events s
      | (Events _ (Inl err), Refetching _ _) \<Rightarrow> worker_failed w err s
      | (Stored _ (Inr _), Putting page) \<Rightarrow> set_pc w (Advancing page) (put_page page s)
      | (Stored _ (Inl err), Putting _) \<Rightarrow> worker_failed w err s
      | (CursorSet _ (Inr _), Advancing page) \<Rightarrow> drainReady w (set_cursor page s)
      | (CursorSet _ (Inl err), Advancing _) \<Rightarrow> worker_failed w err s
      | _ \<Rightarrow> s)"

fun worker_of :: "'v scan_event \<Rightarrow> nat option" where
  "worker_of (Events w _) = Some w"
| "worker_of (GapRecorded w _) = Some w"
| "worker_of (Stored w _) = Some w"
| "worker_of (CursorSet w _) = Some w"
| "worker_of _ = None"

definition main_step :: "'v scan_event \<Rightarrow> scan \<Rightarrow> scan" where
  "main_step ev s =
     (case (ev, sn_main s) of
        (Health r, AskingHealth) \<Rightarrow> health_answered r s
      | (ClampRecorded (Inr _), RecordingClamp oldest) \<Rightarrow> start_workers oldest (record_gap (clamp_gap s oldest) s)
      | (ClampRecorded (Inl err), RecordingClamp _) \<Rightarrow> s\<lparr> sn_main := Threw err \<rparr>
      | (MainStored (Inr _), Flushing page) \<Rightarrow> (put_page page s)\<lparr> sn_main := FlushAdvancing page \<rparr>
      | (MainStored (Inl err), Flushing _) \<Rightarrow> s\<lparr> sn_main := Threw err \<rparr>
      | (MainCursorSet (Inr _), FlushAdvancing page) \<Rightarrow> main_drain (set_cursor page s)
      | (MainCursorSet (Inl err), FlushAdvancing _) \<Rightarrow> s\<lparr> sn_main := Threw err \<rparr>
      | _ \<Rightarrow> s)"

definition scan_step :: "('v \<Rightarrow> byte list list res) \<Rightarrow> scan \<Rightarrow> 'v scan_event \<Rightarrow> scan" where
  "scan_step scValToNative s ev =
     (case worker_of ev of
        Some w \<Rightarrow> if sn_main s = Working \<and> w < length (sn_workers s)
                   then join (worker_step scValToNative w ev (sn_workers s ! w) s) else s
      | None \<Rightarrow> main_step ev s)"

definition fetchLogsAdaptive :: "string \<Rightarrow> int \<Rightarrow> int \<Rightarrow> nat \<Rightarrow> OpaqueCache \<Rightarrow> scan" where
  "fetchLogsAdaptive cluster fromBlock toBlock concurrency db =
     \<lparr> sn_cluster = cluster, sn_fromBlock = fromBlock, sn_toBlock = toBlock, sn_concurrency = concurrency,
       sn_ranges = [], sn_results = [], sn_nextToFlush = 0, sn_nextToDispatch = 0, sn_firstError = None,
       sn_workers = [], sn_main = AskingHealth, sn_db = db \<rparr>"


section \<open>Starting a scan\<close>

definition getStartBlock :: "int option \<Rightarrow> int" where
  "getStartBlock deploymentLedger = (case deploymentLedger of Some d \<Rightarrow> if d > 0 then d else 1 | None \<Rightarrow> 1)"

definition resume_from :: "int option \<Rightarrow> int \<Rightarrow> int" where
  "resume_from lastScanned startBlock = (case lastScanned of None \<Rightarrow> startBlock | Some l \<Rightarrow> max (l + 1) startBlock)"

text \<open>
  \<open>runScan\<close> up to the call of \<open>runChunkedRpcSync\<close>, with the head of the chain as \<open>getSlot\<close> gives it: the cache after its
  resets, and the scan to run, if any. No subgraph is configured, so that branch is never taken.
\<close>

definition gap_detected :: "CachedAnnouncement list \<Rightarrow> int option \<Rightarrow> bool" where
  "gap_detected cached lastScanned =
     (case (cached, lastScanned) of
        (a # as, Some l) \<Rightarrow> fold max (map ca_slot as) (ca_slot a) < l
      | _ \<Rightarrow> False)"

definition runScan :: "string \<Rightarrow> int option \<Rightarrow> bool \<Rightarrow> int \<Rightarrow> OpaqueCache \<Rightarrow> OpaqueCache \<times> scan option" where
  "runScan cluster deploymentLedger clearCache head db =
     (let startBlock = getStartBlock deploymentLedger;
          db1 = (if clearCache then clearSyncState cluster (clearClusterCache cluster db) else db);
          cached = getAnnouncementsForCluster cluster db1;
          lastScanned = map_option ss_lastScannedSlot (getSyncState cluster db1);
          db2 = (if gap_detected cached lastScanned then clearSyncState cluster db1 else db1);
          fromBlock = (if clearCache then startBlock else resume_from lastScanned startBlock);
          cacheEmpty = (cached = [] \<and> lastScanned = None)
      in (db2, if \<not> (cacheEmpty \<and> \<not> clearCache) \<and> fromBlock > head then None
               else Some (fetchLogsAdaptive cluster fromBlock head DEFAULT_FETCH_CONCURRENCY db2)))"

text \<open>The effect that starts the hook.\<close>

definition start_hook :: "string \<Rightarrow> int option \<Rightarrow> int \<Rightarrow> OpaqueCache \<Rightarrow> OpaqueCache \<times> scan option" where
  "start_hook cluster deploymentLedger head db =
     (let lastScanned = map_option ss_lastScannedSlot (getSyncState cluster db);
          fromBlock = resume_from lastScanned (getStartBlock deploymentLedger)
      in runScan cluster deploymentLedger False head (if fromBlock > head then clearSyncState cluster db else db))"

end
