(* ===== verification/Wallet_Scan_Props.thy ===== *)
theory Wallet_Scan_Props
  imports Wallet_Scan
begin

text \<open>
  Properties of the wallet's announcement scan. The announcements on chain are a list in chain order; an RPC server answers a
  request with the announcements it knows from the requested ledger on. Whatever the order in which the concurrent requests
  and the writes to the cache are settled, and wherever the scan is cut off, every announcement up to the cursor of the cache is
  in the cache or lies in a ledger that is recorded as unscanned.
\<close>

section \<open>Page ranges tile the requested range\<close>

fun tiles :: "int \<Rightarrow> int \<Rightarrow> PageRange list \<Rightarrow> bool" where
  "tiles f t [] \<longleftrightarrow> f = t + 1"
| "tiles f t (r # rs) \<longleftrightarrow> pg_from r = f \<and> f \<le> pg_to r \<and> pg_to r \<le> t \<and> tiles (pg_to r + 1) t rs"

lemma tiles_buildPageRanges: "f \<le> t + 1 \<Longrightarrow> tiles f t (buildPageRanges b f t)"
proof (induction b f t rule: buildPageRanges.induct)
  case (1 b f t)
  then show ?case
    by (cases "f \<le> t"; subst buildPageRanges.simps) (auto simp: Let_def)
qed

lemma buildPageRanges_nonempty: "f \<le> t \<Longrightarrow> buildPageRanges b f t \<noteq> []"
  by (subst buildPageRanges.simps) (simp add: Let_def)

lemma tiles_nth:
  "tiles f t rs \<Longrightarrow> i < length rs \<Longrightarrow> f \<le> pg_from (rs ! i) \<and> pg_from (rs ! i) \<le> pg_to (rs ! i) \<and> pg_to (rs ! i) \<le> t"
proof (induction f t rs arbitrary: i rule: tiles.induct)
  case (2 f t r rs)
  then show ?case by (cases i) force+
qed simp

definition next_ledger :: "int \<Rightarrow> PageRange list \<Rightarrow> nat \<Rightarrow> int" where
  "next_ledger t rs i = (if i < length rs then pg_from (rs ! i) else t + 1)"

lemma next_ledger_0: "tiles f t rs \<Longrightarrow> next_ledger t rs 0 = f"
  by (cases rs) (auto simp: next_ledger_def)

lemma next_ledger_Suc: "tiles f t rs \<Longrightarrow> i < length rs \<Longrightarrow> next_ledger t rs (Suc i) = pg_to (rs ! i) + 1"
proof (induction f t rs arbitrary: i rule: tiles.induct)
  case (2 f t r rs)
  show ?case
  proof (cases i)
    case 0
    with 2 show ?thesis using next_ledger_0 [of "pg_to r + 1" t rs] by (auto simp: next_ledger_def)
  next
    case (Suc j)
    with 2 have "next_ledger t rs (Suc j) = pg_to (rs ! j) + 1" by simp
    with Suc show ?thesis by (simp add: next_ledger_def split: if_splits)
  qed
qed simp

lemma next_ledger_ge: "tiles f t rs \<Longrightarrow> f \<le> t + 1 \<Longrightarrow> f \<le> next_ledger t rs i"
  by (auto simp: next_ledger_def dest: tiles_nth)


section \<open>The announcements on chain and their records\<close>

record 'v history =
  hi_scVal :: "'v \<Rightarrow> byte list list res"
  hi_cluster :: string
  hi_events :: "'v announcement_event list"

definition tx_index :: "'v announcement_event list \<Rightarrow> nat \<Rightarrow> nat" where
  "tx_index evs p = length (filter (\<lambda>e. ev_txHash e = ev_txHash (evs ! p)) (take p evs))"

definition chain_record :: "'v history \<Rightarrow> nat \<Rightarrow> CachedAnnouncement res" where
  "chain_record H p = map_event (hi_scVal H) (hi_cluster H) (tx_index (hi_events H) p) (hi_events H ! p)"

text \<open>A transaction is in one ledger.\<close>

definition tx_in_one_ledger :: "'v history \<Rightarrow> bool" where
  "tx_in_one_ledger H \<longleftrightarrow>
     (\<forall>e\<in>set (hi_events H). \<forall>e'\<in>set (hi_events H). ev_txHash e = ev_txHash e' \<longrightarrow> ev_ledger e = ev_ledger e')"

lemma map_event_Inr:
  "map_event f cl i e = Inr a \<Longrightarrow>
     ca_id a = announcementId cl (ev_txHash e) i \<and> ca_cluster a = cl \<and> ca_slot a = ev_ledger e
     \<and> ca_transactionSignature a = ev_txHash e \<and> ca_logIndex a = i"
  by (auto simp: map_event_def res_bind_eq_Inr)

lemma cached_record_log_of:
  "map_event f cl i e = Inr a \<Longrightarrow> cached_record cl (log_of a) = a"
  by (auto simp: map_event_def res_bind_eq_Inr cached_record_def log_of_def or_else_def Let_def)

text \<open>What a response is mapped to: the record of each event, with the number of earlier events of its transaction.\<close>

lemma map_events_split:
  assumes "map_events f cl m evs = Inr logs" "\<And>t. or_else (map_of m t) 0 = length (filter (\<lambda>e. ev_txHash e = t) before)"
  shows "list_all2 (\<lambda>p a. map_event f cl (tx_index (before @ evs) p) ((before @ evs) ! p) = Inr a)
           [length before..<length before + length evs] logs"
  using assms
proof (induction evs arbitrary: m before logs)
  case (Cons e evs)
  let ?i = "length (filter (\<lambda>x. ev_txHash x = ev_txHash e) before)"
  from Cons.prems obtain a rest where step: "map_event f cl ?i e = Inr a"
    "map_events f cl (AList.update (ev_txHash e) (?i + 1) m) evs = Inr rest" "logs = a # rest"
    by (auto simp: Let_def res_bind_eq_Inr)
  have index: "tx_index (before @ e # evs) (length before) = ?i" by (simp add: tx_index_def)
  have "or_else (map_of (AList.update (ev_txHash e) (?i + 1) m) t) 0 = length (filter (\<lambda>x. ev_txHash x = t) (before @ [e]))" for t
    using Cons.prems(2) [of t] by (auto simp: or_else_def)
  from Cons.IH [OF step(2) this] show ?case
    using step index by (simp add: upt_conv_Cons del: upt_Suc)
qed simp

lemma mapAnnouncementEvents_records:
  assumes "mapAnnouncementEvents f cl evs = Inr logs"
  shows "a \<in> set logs \<longleftrightarrow> (\<exists>p<length evs. map_event f cl (tx_index evs p) (evs ! p) = Inr a)"
proof -
  from map_events_split [OF assms [unfolded mapAnnouncementEvents_def], of "[]"]
  have "list_all2 (\<lambda>p a. map_event f cl (tx_index evs p) (evs ! p) = Inr a) [0..<length evs] logs"
    by (simp add: or_else_def)
  then show ?thesis by (fastforce simp: list_all2_conv_all_nth in_set_conv_nth)
qed


lemma filter_position:
  assumes "p < length xs" "P (xs ! p)"
  defines "q \<equiv> length (filter P (take p xs))"
  shows "q < length (filter P xs)" "filter P xs ! q = xs ! p" "take q (filter P xs) = filter P (take p xs)"
proof -
  from assms have "filter P xs = filter P (take p xs) @ xs ! p # filter P (drop (Suc p) xs)"
    by (subst id_take_nth_drop [of p xs]) auto
  then show "q < length (filter P xs)" "filter P xs ! q = xs ! p" "take q (filter P xs) = filter P (take p xs)"
    by (simp_all add: q_def nth_append)
qed

lemma filter_position_ex:
  "q < length (filter P xs) \<Longrightarrow> \<exists>p<length xs. P (xs ! p) \<and> q = length (filter P (take p xs))"
proof (induction xs arbitrary: q)
  case (Cons x xs)
  show ?case
  proof (cases "P x \<and> q = 0")
    case True
    then show ?thesis by (intro exI [of _ 0]) simp
  next
    case False
    then obtain q' where q: "q = (if P x then Suc q' else q')" by (cases "P x"; cases q) auto
    with Cons obtain p where "p < length xs" "P (xs ! p)" "q' = length (filter P (take p xs))" by (fastforce split: if_splits)
    with q show ?thesis by (intro exI [of _ "Suc p"]) auto
  qed
qed simp

lemma tx_index_filter:
  assumes "tx_in_one_ledger H" "p < n" "p < length (hi_events H)" "st \<le> ev_ledger (hi_events H ! p)"
  defines "evs \<equiv> filter (\<lambda>e. st \<le> ev_ledger e) (take n (hi_events H))"
  defines "q \<equiv> length (filter (\<lambda>e. st \<le> ev_ledger e) (take p (take n (hi_events H))))"
  shows "q < length evs" "evs ! q = hi_events H ! p" "tx_index evs q = tx_index (hi_events H) p"
proof -
  have p: "p < length (take n (hi_events H))" "st \<le> ev_ledger (take n (hi_events H) ! p)" using assms by auto
  note pos = filter_position [of p "take n (hi_events H)" "\<lambda>e. st \<le> ev_ledger e", OF p, folded evs_def q_def]
  from pos(1) show "q < length evs" .
  from pos(2) assms show nth: "evs ! q = hi_events H ! p" by simp
  have "ev_txHash e = ev_txHash (hi_events H ! p) \<Longrightarrow> st \<le> ev_ledger e" if "e \<in> set (take p (hi_events H))" for e
    using assms that set_take_subset [of p "hi_events H"] unfolding tx_in_one_ledger_def by (metis nth_mem subsetD)
  then show "tx_index evs q = tx_index (hi_events H) p"
    unfolding tx_index_def pos(3) nth using assms(2) by (auto simp: min_def intro!: arg_cong [of _ _ length] filter_cong)
qed

definition known_from :: "'v history \<Rightarrow> int \<Rightarrow> nat \<Rightarrow> 'v announcement_event list" where
  "known_from H st n = filter (\<lambda>e. st \<le> ev_ledger e) (take n (hi_events H))"

definition chain_records :: "'v history \<Rightarrow> CachedAnnouncement list \<Rightarrow> bool" where
  "chain_records H logs \<longleftrightarrow> (\<forall>a\<in>set logs. \<exists>p<length (hi_events H). chain_record H p = Inr a)"

lemma answer_records:
  assumes "tx_in_one_ledger H" "mapAnnouncementEvents (hi_scVal H) (hi_cluster H) (known_from H st n) = Inr logs"
  shows "chain_records H logs"
    and "p < n \<Longrightarrow> p < length (hi_events H) \<Longrightarrow> st \<le> ev_ledger (hi_events H ! p) \<Longrightarrow> \<exists>a\<in>set logs. chain_record H p = Inr a"
proof -
  let ?E = "hi_events H" and ?evs = "known_from H st n"
  note mem = mapAnnouncementEvents_records [OF assms(2)]
  show "chain_records H logs"
    unfolding chain_records_def
  proof
    fix a assume "a \<in> set logs"
    then obtain q where q: "q < length ?evs" "map_event (hi_scVal H) (hi_cluster H) (tx_index ?evs q) (?evs ! q) = Inr a"
      using mem by auto
    from filter_position_ex [OF q(1) [unfolded known_from_def]] obtain p where p: "p < n" "p < length ?E" "st \<le> ev_ledger (?E ! p)"
      "q = length (filter (\<lambda>e. st \<le> ev_ledger e) (take p (take n ?E)))" by auto
    with tx_index_filter [OF assms(1) p(1-3)] q show "\<exists>p<length ?E. chain_record H p = Inr a"
      by (intro exI [of _ p]) (simp add: chain_record_def known_from_def)
  qed
  assume "p < n" "p < length ?E" "st \<le> ev_ledger (?E ! p)"
  note pos = tx_index_filter [OF assms(1) this, folded known_from_def]
  have "list_all2 (\<lambda>p a. map_event (hi_scVal H) (hi_cluster H) (tx_index ?evs p) (?evs ! p) = Inr a) [0..<length ?evs] logs"
    using map_events_split [OF assms(2) [unfolded mapAnnouncementEvents_def], of "[]"] by (simp add: or_else_def)
  with pos(1) obtain a where "map_event (hi_scVal H) (hi_cluster H)
      (tx_index ?evs (length (filter (\<lambda>e. st \<le> ev_ledger e) (take p (take n ?E))))) 
      (?evs ! length (filter (\<lambda>e. st \<le> ev_ledger e) (take p (take n ?E)))) = Inr a" "a \<in> set logs"
    by (auto simp: list_all2_conv_all_nth)
  with pos show "\<exists>a\<in>set logs. chain_record H p = Inr a" by (auto simp: chain_record_def)
qed

text \<open>The id of a record names its place on chain.\<close>

lemma tx_index_inj:
  assumes "p < length evs" "p' < length evs" "ev_txHash (evs ! p) = ev_txHash (evs ! p')" "tx_index evs p = tx_index evs p'"
  shows "p = p'"
proof -
  have "tx_index evs i < tx_index evs j" if "i < j" "j < length evs" "ev_txHash (evs ! i) = ev_txHash (evs ! j)" for i j
  proof -
    have "take j evs = take i evs @ evs ! i # drop (Suc i) (take j evs)"
      using that id_take_nth_drop [of i "take j evs"] by (simp add: min_def)
    then have "filter P (take j evs) = filter P (take i evs) @ filter P (evs ! i # drop (Suc i) (take j evs))" for P
      by (metis filter_append)
    then show ?thesis unfolding tx_index_def using that by simp
  qed
  with assms show ?thesis by (metis nat_neq_iff)
qed

lemma chain_record_id_inj:
  assumes "chain_record H p = Inr a" "chain_record H p' = Inr b" "ca_id a = ca_id b" "p < length (hi_events H)" "p' < length (hi_events H)"
  shows "a = b"
proof -
  from assms map_event_Inr [of "hi_scVal H" "hi_cluster H"]
  have "announcementId (hi_cluster H) (ev_txHash (hi_events H ! p)) (tx_index (hi_events H) p) =
        announcementId (hi_cluster H) (ev_txHash (hi_events H ! p')) (tx_index (hi_events H) p')"
    unfolding chain_record_def by metis
  with assms have "p = p'" by (auto simp: announcementId_inj intro: tx_index_inj)
  with assms show ?thesis by simp
qed


section \<open>Coverage of the cache\<close>

definition holds :: "'v history \<Rightarrow> OpaqueCache \<Rightarrow> nat \<Rightarrow> bool" where
  "holds H db p \<longleftrightarrow> (\<exists>a. chain_record H p = Inr a \<and> map_of (oc_announcements db) (ca_id a) = Some a)"

definition covered_below :: "'v history \<Rightarrow> int \<Rightarrow> OpaqueCache \<Rightarrow> int \<Rightarrow> bool" where
  "covered_below H start db F \<longleftrightarrow>
     (\<forall>p<length (hi_events H). let l = ev_ledger (hi_events H ! p)
        in start \<le> l \<and> l < F \<and> l \<notin> gaps (hi_cluster H) db \<longrightarrow> holds H db p)"

definition covered :: "'v history \<Rightarrow> int \<Rightarrow> OpaqueCache \<Rightarrow> bool" where
  "covered H start db \<longleftrightarrow> (\<forall>c. cursor (hi_cluster H) db = Some c \<longrightarrow> covered_below H start db (c + 1))"

definition page_ok :: "'v history \<Rightarrow> OpaqueCache \<Rightarrow> PageRange \<Rightarrow> fetched_page \<Rightarrow> bool" where
  "page_ok H db r pg \<longleftrightarrow> fp_to pg = pg_to r \<and> chain_records H (fp_logs pg)
     \<and> (\<forall>p<length (hi_events H). let l = ev_ledger (hi_events H ! p)
          in pg_from r \<le> l \<and> l \<le> pg_to r \<and> l \<notin> gaps (hi_cluster H) db \<longrightarrow> (\<exists>a\<in>set (fp_logs pg). chain_record H p = Inr a))"

lemma put_chain_records:
  assumes "chain_records H logs" "p < length (hi_events H)" "chain_record H p = Inr a"
  shows "map_of (oc_announcements (putAnnouncements (hi_cluster H) (map log_of logs) db)) (ca_id a) =
           (if a \<in> set logs then Some a else map_of (oc_announcements db) (ca_id a))"
proof -
  have same: "cached_record (hi_cluster H) (log_of b) = b" if "b \<in> set logs" for b
    using assms(1) that by (auto simp: chain_records_def chain_record_def dest: cached_record_log_of)
  have eq: "b = a" if "b \<in> set logs" "ca_id b = ca_id a" for b
    using assms that chain_record_id_inj by (fastforce simp: chain_records_def)
  let ?f = "find (\<lambda>b. ca_id (cached_record (hi_cluster H) (log_of b)) = ca_id a) (rev logs)"
  have put: "map_of (oc_announcements (putAnnouncements (hi_cluster H) (map log_of logs) db)) (ca_id a) =
     (case ?f of Some b \<Rightarrow> Some (cached_record (hi_cluster H) (log_of b)) | None \<Rightarrow> map_of (oc_announcements db) (ca_id a))"
    by (simp add: putAnnouncements_def fold_map comp_def fold_put_record [of "\<lambda>b. cached_record (hi_cluster H) (log_of b)"])
  show ?thesis
  proof (cases ?f)
    case None
    then have "a \<notin> set logs" using same by (auto simp: find_None_iff)
    with put None show ?thesis by simp
  next
    case (Some b)
    then have "b \<in> set logs" "ca_id b = ca_id a" using same by (auto simp: find_Some_iff) (metis in_set_conv_nth length_rev nth_mem set_rev)+
    with eq same put Some show ?thesis by auto
  qed
qed

lemma put_holds:
  "chain_records H logs \<Longrightarrow> p < length (hi_events H) \<Longrightarrow>
     holds H db p \<or> (\<exists>a\<in>set logs. chain_record H p = Inr a) \<Longrightarrow> holds H (putAnnouncements (hi_cluster H) (map log_of logs) db) p"
  using put_chain_records by (fastforce simp: holds_def)

lemma covered_below_put:
  "covered_below H start db F \<Longrightarrow> chain_records H logs \<Longrightarrow> covered_below H start (putAnnouncements (hi_cluster H) (map log_of logs) db) F"
  by (auto simp: covered_below_def Let_def cache_simps intro: put_holds)

lemma covered_below_put_page:
  assumes "covered_below H start db (pg_from r)" "page_ok H db r pg"
  shows "covered_below H start (putAnnouncements (hi_cluster H) (map log_of (fp_logs pg)) db) (fp_to pg + 1)"
  unfolding covered_below_def Let_def
proof (intro allI impI, elim conjE)
  fix p let ?l = "ev_ledger (hi_events H ! p)"
  assume p: "p < length (hi_events H)" "start \<le> ?l" "?l < fp_to pg + 1"
    "?l \<notin> gaps (hi_cluster H) (putAnnouncements (hi_cluster H) (map log_of (fp_logs pg)) db)"
  have "holds H db p \<or> (\<exists>a\<in>set (fp_logs pg). chain_record H p = Inr a)"
    using assms p by (cases "?l < pg_from r") (auto simp: covered_below_def page_ok_def Let_def cache_simps)
  with assms p show "holds H (putAnnouncements (hi_cluster H) (map log_of (fp_logs pg)) db) p"
    by (intro put_holds) (auto simp: page_ok_def)
qed

lemma covered_below_mono:
  "covered_below H start db F \<Longrightarrow> oc_announcements db' = oc_announcements db \<Longrightarrow> gaps (hi_cluster H) db \<subseteq> gaps (hi_cluster H) db'
   \<Longrightarrow> {F..<F'} \<subseteq> gaps (hi_cluster H) db' \<Longrightarrow> covered_below H start db' F'"
  unfolding covered_below_def holds_def Let_def subset_iff atLeastLessThan_iff by (metis not_le)

lemma page_ok_mono:
  "page_ok H db r pg \<Longrightarrow> gaps (hi_cluster H) db \<subseteq> gaps (hi_cluster H) db' \<Longrightarrow> page_ok H db' r pg"
  unfolding page_ok_def Let_def by blast


section \<open>The invariant of the concurrent fetch\<close>

definition held :: "scan \<Rightarrow> nat \<Rightarrow> nat option" where
  "held s w = (case sn_workers s ! w of
     Fetching i \<Rightarrow> Some i | Reporting i _ \<Rightarrow> Some i | Refetching i _ \<Rightarrow> Some i
   | Putting _ \<Rightarrow> Some (sn_nextToFlush s) | Advancing _ \<Rightarrow> Some (sn_nextToFlush s) | Stopped \<Rightarrow> None)"

definition buffered :: "scan \<Rightarrow> nat set" where
  "buffered s = fst ` set (sn_results s)"

text \<open>Each page in work is in one place. \<open>w\<close> ranges over the workers other than the one that is running.\<close>

definition others :: "nat set \<Rightarrow> scan \<Rightarrow> nat set" where
  "others X s = {..<length (sn_workers s)} - X"

definition slots :: "nat set \<Rightarrow> scan \<Rightarrow> bool" where
  "slots X s \<longleftrightarrow> sn_nextToFlush s \<le> sn_nextToDispatch s \<and> sn_nextToDispatch s \<le> length (sn_ranges s)
     \<and> distinct_keys (sn_results s) \<and> buffered s \<subseteq> {sn_nextToFlush s..<sn_nextToDispatch s}
     \<and> (\<forall>w\<in>others X s. \<forall>i. held s w = Some i \<longrightarrow> i \<in> {sn_nextToFlush s..<sn_nextToDispatch s} \<and> i \<notin> buffered s)
     \<and> (\<forall>w\<in>others X s. \<forall>w'\<in>others X s. \<forall>i. held s w = Some i \<longrightarrow> held s w' = Some i \<longrightarrow> w = w')"

definition none_lost :: "nat set \<Rightarrow> nat set \<Rightarrow> scan \<Rightarrow> bool" where
  "none_lost I X s \<longleftrightarrow> (sn_firstError s = None \<longrightarrow>
     (\<forall>i\<in>{sn_nextToFlush s..<sn_nextToDispatch s} - I. i \<in> buffered s \<or> (\<exists>w\<in>others X s. held s w = Some i))
     \<and> (\<forall>w\<in>others X s. sn_workers s ! w = Stopped \<longrightarrow> sn_nextToDispatch s = length (sn_ranges s)))"

definition frontier :: "scan \<Rightarrow> int" where
  "frontier s = next_ledger (sn_toBlock s) (sn_ranges s) (sn_nextToFlush s)"

definition pc_ok :: "'v history \<Rightarrow> int \<Rightarrow> scan \<Rightarrow> worker_pc \<Rightarrow> bool" where
  "pc_ok H start s pc = (case pc of
     Refetching i oldest \<Rightarrow> {pg_from (sn_ranges s ! i)..min (oldest - 1) (pg_to (sn_ranges s ! i))} \<subseteq> gaps (hi_cluster H) (sn_db s)
   | Putting pg \<Rightarrow> page_ok H (sn_db s) (sn_ranges s ! sn_nextToFlush s) pg
   | Advancing pg \<Rightarrow> page_ok H (sn_db s) (sn_ranges s ! sn_nextToFlush s) pg \<and> covered_below H start (sn_db s) (fp_to pg + 1)
   | _ \<Rightarrow> True)"

definition pages_ok :: "'v history \<Rightarrow> int \<Rightarrow> nat set \<Rightarrow> scan \<Rightarrow> bool" where
  "pages_ok H start X s \<longleftrightarrow> (\<forall>(i, pg)\<in>set (sn_results s). page_ok H (sn_db s) (sn_ranges s ! i) pg)
     \<and> (\<forall>w\<in>others X s. pc_ok H start s (sn_workers s ! w))"

definition synced_to :: "'v history \<Rightarrow> int \<Rightarrow> OpaqueCache \<Rightarrow> int \<Rightarrow> bool" where
  "synced_to H start db F \<longleftrightarrow> covered_below H start db F \<and> 0 < F \<and> (\<forall>c. cursor (hi_cluster H) db = Some c \<longrightarrow> c < F)"

definition layout_ok :: "'v history \<Rightarrow> int \<Rightarrow> scan \<Rightarrow> bool" where
  "layout_ok H start s \<longleftrightarrow> sn_cluster s = hi_cluster H \<and> 0 < start \<and> sn_main s = Working
     \<and> (\<exists>f. 0 < f \<and> f \<le> sn_toBlock s + 1 \<and> tiles f (sn_toBlock s) (sn_ranges s)) \<and> synced_to H start (sn_db s) (frontier s)"

definition core :: "'v history \<Rightarrow> int \<Rightarrow> nat set \<Rightarrow> scan \<Rightarrow> bool" where
  "core H start X s \<longleftrightarrow> layout_ok H start s \<and> slots X s \<and> pages_ok H start X s"

definition flushed :: "scan \<Rightarrow> bool" where
  "flushed s \<longleftrightarrow> sn_nextToFlush s \<notin> buffered s"

definition working :: "'v history \<Rightarrow> int \<Rightarrow> nat set \<Rightarrow> scan \<Rightarrow> bool" where
  "working H start X s \<longleftrightarrow> core H start X s \<and> none_lost {} X s \<and> flushed s"

lemmas scan_defs = held_def buffered_def others_def slots_def none_lost_def frontier_def pc_ok_def pages_ok_def layout_ok_def core_def flushed_def

text \<open>What a change of one worker's place leaves alone.\<close>

lemma set_pc_simps [simp]:
  "sn_ranges (set_pc w pc s) = sn_ranges s" "sn_results (set_pc w pc s) = sn_results s" "sn_nextToFlush (set_pc w pc s) = sn_nextToFlush s"
  "sn_nextToDispatch (set_pc w pc s) = sn_nextToDispatch s" "sn_firstError (set_pc w pc s) = sn_firstError s" "sn_main (set_pc w pc s) = sn_main s"
  "sn_db (set_pc w pc s) = sn_db s" "sn_toBlock (set_pc w pc s) = sn_toBlock s" "sn_cluster (set_pc w pc s) = sn_cluster s"
  "sn_fromBlock (set_pc w pc s) = sn_fromBlock s" "sn_concurrency (set_pc w pc s) = sn_concurrency s"
  "sn_workers (set_pc w pc s) = (sn_workers s)[w := pc]" "length (sn_workers (set_pc w pc s)) = length (sn_workers s)"
  by (simp_all add: set_pc_def)

lemma set_pc_others:
  assumes "w < length (sn_workers s)" "w \<notin> X"
  shows "others X (set_pc w pc s) = insert w (others (insert w X) s)" "sn_workers (set_pc w pc s) ! w = pc"
    and "w' \<in> others (insert w X) s \<Longrightarrow> held (set_pc w pc s) w' = held s w'"
    and "w' \<in> others (insert w X) s \<Longrightarrow> sn_workers (set_pc w pc s) ! w' = sn_workers s ! w'"
    and "pc_ok H start (set_pc w pc s) x = pc_ok H start s x"
  using assms by (auto simp: others_def held_def pc_ok_def split: worker_pc.split)

lemma core_set_pc:
  assumes "core H start (insert w X) s" "w < length (sn_workers s)" "w \<notin> X" "pc_ok H start s pc"
    and "\<And>i. held (set_pc w pc s) w = Some i \<Longrightarrow> i \<in> {sn_nextToFlush s..<sn_nextToDispatch s} \<and> i \<notin> buffered s
           \<and> (\<forall>w'\<in>others (insert w X) s. held s w' \<noteq> Some i)"
  shows "core H start X (set_pc w pc s)"
proof -
  note oth = set_pc_others [where pc = pc, OF assms(2,3)]
  from assms(1) have "layout_ok H start (set_pc w pc s)" by (simp add: core_def layout_ok_def frontier_def)
  moreover have "slots X (set_pc w pc s)"
    using assms(1,5) unfolding core_def slots_def oth(1) by (auto simp: oth(3) buffered_def)
  moreover have "pages_ok H start X (set_pc w pc s)"
    using assms(1,4) unfolding core_def pages_ok_def oth(1) by (auto simp: oth(2,4,5) simp del: set_pc_simps(12))
  ultimately show ?thesis by (simp add: core_def)
qed

lemma none_lost_set_pc:
  assumes "none_lost I (insert w X) s" "w < length (sn_workers s)" "w \<notin> X" "\<And>i. i \<in> I \<Longrightarrow> held (set_pc w pc s) w = Some i"
    and "pc = Stopped \<Longrightarrow> sn_firstError s = None \<Longrightarrow> sn_nextToDispatch s = length (sn_ranges s)"
  shows "none_lost {} X (set_pc w pc s)"
proof -
  note oth = set_pc_others [where pc = pc, OF assms(2,3)]
  show ?thesis using assms(1,4,5) unfolding none_lost_def oth(1)
    by (auto simp: oth(2,3,4) buffered_def simp del: set_pc_simps(12))
qed

text \<open>The running worker goes back to the queue, stops with an error, or delivers the next page.\<close>

lemma dispatch_working:
  assumes "core H start (insert w X) s" "none_lost {} (insert w X) s" "flushed s" "w < length (sn_workers s)" "w \<notin> X"
  shows "working H start X (dispatch w s)"
proof (cases "sn_firstError s \<noteq> None \<or> sn_nextToDispatch s \<ge> length (sn_ranges s)")
  case True
  have "core H start X (set_pc w Stopped s)"
    by (rule core_set_pc) (use assms in \<open>auto simp: held_def pc_ok_def\<close>)
  moreover have "none_lost {} X (set_pc w Stopped s)"
    by (rule none_lost_set_pc) (use assms True in \<open>auto simp: core_def slots_def\<close>)
  ultimately show ?thesis using assms(3) True by (simp add: dispatch_def working_def flushed_def buffered_def)
next
  case False
  let ?n = "sn_nextToDispatch s"
  define s1 where "s1 = s\<lparr> sn_nextToDispatch := sn_nextToDispatch s + 1 \<rparr>"
  have same: "others (insert w X) s1 = others (insert w X) s" "held s1 = held s" "buffered s1 = buffered s" "pc_ok H start s1 = pc_ok H start s"
    by (auto simp: s1_def others_def held_def buffered_def pc_ok_def fun_eq_iff split: worker_pc.split)
  have sel: "sn_nextToFlush s1 = sn_nextToFlush s" "sn_nextToDispatch s1 = ?n + 1" "sn_ranges s1 = sn_ranges s" "sn_results s1 = sn_results s"
    "sn_workers s1 = sn_workers s" "sn_db s1 = sn_db s" "sn_firstError s1 = sn_firstError s" by (simp_all add: s1_def)
  have "layout_ok H start s1" using assms(1) by (simp add: s1_def core_def layout_ok_def frontier_def)
  moreover have "pages_ok H start (insert w X) s1" using assms(1) by (simp add: core_def pages_ok_def same sel)
  moreover have "slots (insert w X) s1" using assms(1) False by (auto simp: core_def slots_def same sel subset_iff)
  ultimately have "core H start (insert w X) s1" by (simp add: core_def)
  then have "core H start X (set_pc w (Fetching ?n) s1)"
    by (rule core_set_pc) (use assms in \<open>fastforce simp: sel same held_def pc_ok_def core_def slots_def\<close>)+
  moreover have "none_lost {?n} (insert w X) s1" using assms(2) False by (auto simp: none_lost_def same sel)
  then have "none_lost {} X (set_pc w (Fetching ?n) s1)"
    by (rule none_lost_set_pc) (use assms in \<open>auto simp: sel held_def\<close>)
  moreover have "flushed (set_pc w (Fetching ?n) s1)" using assms(3) by (simp add: flushed_def buffered_def sel)
  ultimately show ?thesis using False by (simp only: dispatch_def if_False s1_def [symmetric] working_def)
qed

lemma worker_failed_working:
  assumes "core H start {w} s" "flushed s" "w < length (sn_workers s)"
  shows "working H start {} (worker_failed w err s)"
proof -
  define s1 where "s1 = s\<lparr> sn_firstError := (case sn_firstError s of None \<Rightarrow> Some err | Some e \<Rightarrow> Some e) \<rparr>"
  have same: "others {w} s1 = others {w} s" "held s1 = held s" "buffered s1 = buffered s" "pc_ok H start s1 = pc_ok H start s"
    by (auto simp: s1_def others_def held_def buffered_def pc_ok_def fun_eq_iff split: worker_pc.split)
  from assms(1) have "core H start {w} s1"
    unfolding core_def slots_def pages_ok_def layout_ok_def frontier_def same by (simp add: s1_def)
  then have "core H start {} (set_pc w Stopped s1)"
    by (rule core_set_pc) (use assms in \<open>auto simp: s1_def held_def pc_ok_def\<close>)
  moreover have "sn_firstError s1 \<noteq> None" by (simp add: s1_def split: option.split)
  then have "none_lost {} {} (set_pc w Stopped s1)" by (auto simp: none_lost_def)
  moreover have "flushed (set_pc w Stopped s1)" using assms(2) by (simp add: s1_def flushed_def buffered_def)
  ultimately show ?thesis by (simp only: worker_failed_def s1_def [symmetric] working_def)
qed

lemma drainReady_working:
  assumes "core H start {w} s" "none_lost {} {w} s" "w < length (sn_workers s)"
  shows "working H start {} (drainReady w s)"
proof (cases "map_of (sn_results s) (sn_nextToFlush s)")
  case None
  then have "flushed s" by (simp add: flushed_def buffered_def map_of_eq_None_iff)
  with assms None show ?thesis by (simp add: drainReady_def dispatch_working)
next
  case (Some pg)
  let ?n = "sn_nextToFlush s"
  define s1 where "s1 = s\<lparr> sn_results := AList.delete ?n (sn_results s) \<rparr>"
  have same: "others {w} s1 = others {w} s" "held s1 = held s" "pc_ok H start s1 = pc_ok H start s"
    by (auto simp: s1_def others_def held_def pc_ok_def fun_eq_iff split: worker_pc.split)
  have buf: "buffered s1 = buffered s - {?n}" by (auto simp: s1_def buffered_def AList.delete_eq)
  have n: "?n \<in> buffered s" using Some by (auto simp: buffered_def dest: map_of_SomeD intro: rev_image_eqI)
  have sub: "set (AList.delete ?n (sn_results s)) \<subseteq> set (sn_results s)" by (auto simp: AList.delete_eq)
  have pgok: "pc_ok H start s1 (Putting pg)"
    using assms(1) Some by (auto simp: s1_def core_def pages_ok_def pc_ok_def dest: map_of_SomeD)
  from assms(1) have "core H start {w} s1"
    unfolding core_def slots_def pages_ok_def layout_ok_def frontier_def same buf
    using sub by (auto simp: s1_def distinct_delete)
  moreover have h: "held (set_pc w (Putting pg) s1) w = Some ?n" using assms(3) by (simp add: held_def s1_def)
  have "?n \<in> {sn_nextToFlush s1..<sn_nextToDispatch s1} \<and> ?n \<notin> buffered s1 \<and> (\<forall>w'\<in>others {w} s1. held s1 w' \<noteq> Some ?n)"
    using assms(1) n unfolding core_def slots_def same buf by (auto simp: s1_def)
  ultimately have "core H start {} (set_pc w (Putting pg) s1)"
    using assms(3) pgok h by (intro core_set_pc) (auto simp: s1_def)
  moreover have "none_lost {?n} {w} s1" using assms(2) unfolding none_lost_def same buf by (auto simp: s1_def)
  then have "none_lost {} {} (set_pc w (Putting pg) s1)"
    by (rule none_lost_set_pc) (use assms in \<open>auto simp: s1_def held_def\<close>)
  moreover have "flushed (set_pc w (Putting pg) s1)" using buf by (simp add: flushed_def buffered_def) (simp add: s1_def)
  ultimately show ?thesis using Some by (simp only: drainReady_def option.case s1_def [symmetric] working_def)
qed


text \<open>The worker that runs is taken out of the invariant; \<open>i\<close> is the page it has.\<close>

lemma others_insert: "others (insert w X) s = others X s - {w}"
  by (auto simp: others_def)

lemma core_take_out: "core H start {} s \<Longrightarrow> core H start {w} s"
  unfolding core_def slots_def pages_ok_def others_insert [of w "{}", simplified] by auto

lemma none_lost_take_out: "none_lost {} {} s \<Longrightarrow> none_lost (set_option (held s w)) {w} s"
  unfolding none_lost_def others_insert [of w "{}", simplified] by auto

lemma core_holder:
  assumes "core H start {} s" "w < length (sn_workers s)" "held s w = Some i"
  shows "i \<in> {sn_nextToFlush s..<sn_nextToDispatch s} \<and> i \<notin> buffered s \<and> (\<forall>w'\<in>others {w} s. held s w' \<noteq> Some i)"
  using assms unfolding core_def slots_def others_insert [of w "{}", simplified] by (auto simp: others_def)

lemma alist_update_subset: "set (AList.update k v m) \<subseteq> insert (k, v) (set m)"
  by (induction m) auto

lemma page_done_working:
  assumes "working H start {} s" "w < length (sn_workers s)" "held s w = Some i" "page_ok H (sn_db s) (sn_ranges s ! i) pg"
  shows "working H start {} (page_done w i pg s)"
proof -
  define s1 where "s1 = s\<lparr> sn_results := AList.update i pg (sn_results s) \<rparr>"
  from assms(1) have core: "core H start {} s" and lost: "none_lost {} {} s" and fl: "flushed s" by (auto simp: working_def)
  note hold = core_holder [OF core assms(2,3)]
  have same: "others {w} s1 = others {w} s" "held s1 = held s" "pc_ok H start s1 = pc_ok H start s"
    by (auto simp: s1_def others_def held_def pc_ok_def fun_eq_iff split: worker_pc.split)
  have sel: "sn_nextToFlush s1 = sn_nextToFlush s" "sn_nextToDispatch s1 = sn_nextToDispatch s" "sn_ranges s1 = sn_ranges s"
    "sn_workers s1 = sn_workers s" "sn_db s1 = sn_db s" "sn_firstError s1 = sn_firstError s" by (simp_all add: s1_def)
  have buf: "buffered s1 = insert i (buffered s)"
    using dom_update [of i pg "sn_results s"] by (simp add: s1_def buffered_def dom_map_of_conv_image_fst)
  have sub: "set (sn_results s1) \<subseteq> insert (i, pg) (set (sn_results s))" by (simp add: s1_def alist_update_subset)
  have "layout_ok H start s1" using core by (simp add: s1_def core_def layout_ok_def frontier_def)
  moreover have "pages_ok H start {w} s1"
    using core_take_out [OF core, of w] assms(4) sub by (auto simp: core_def pages_ok_def same sel)
  moreover have "slots {w} s1"
    using core_take_out [OF core, of w] hold unfolding core_def slots_def same sel buf by (auto simp: s1_def distinct_update)
  ultimately have c1: "core H start {w} s1" by (simp add: core_def)
  have n1: "none_lost {} {w} s1"
    using none_lost_take_out [OF lost, of w] assms(3) by (auto simp: none_lost_def same sel buf)
  have w1: "w < length (sn_workers s1)" using assms(2) sel by simp
  have eq: "page_done w i pg s = (if i = sn_nextToFlush s1 then drainReady w s1 else dispatch w s1)"
    by (simp add: page_done_def Let_def s1_def)
  show ?thesis
  proof (cases "i = sn_nextToFlush s1")
    case True
    with drainReady_working [OF c1 n1 w1] show ?thesis unfolding eq by simp
  next
    case False
    then have "flushed s1" using fl by (auto simp: flushed_def buf sel)
    with dispatch_working [OF c1 n1 _ w1] False show ?thesis unfolding eq by simp
  qed
qed

text \<open>A change of the cache that only adds to what is covered.\<close>

lemma core_cache:
  assumes "core H start X s" "gaps (hi_cluster H) (sn_db s) \<subseteq> gaps (hi_cluster H) db"
    and "\<And>F. covered_below H start (sn_db s) F \<Longrightarrow> covered_below H start db F"
    and "\<And>F. synced_to H start (sn_db s) F \<Longrightarrow> synced_to H start db F"
  shows "core H start X (s\<lparr> sn_db := db \<rparr>)"
proof -
  let ?s = "s\<lparr> sn_db := db \<rparr>"
  have same: "others X ?s = others X s" "held ?s = held s" "buffered ?s = buffered s"
    by (auto simp: others_def held_def buffered_def fun_eq_iff split: worker_pc.split)
  have pc: "pc_ok H start s pc \<Longrightarrow> pc_ok H start ?s pc" for pc
    using assms(2,3) by (auto simp: pc_ok_def intro: page_ok_mono split: worker_pc.splits)
  have "layout_ok H start ?s" using assms(1,4) by (simp add: core_def layout_ok_def frontier_def)
  moreover have "slots X ?s" using assms(1) by (simp add: core_def slots_def same)
  moreover have "pages_ok H start X ?s" using assms(1,2) pc by (auto simp: core_def pages_ok_def same intro: page_ok_mono)
  ultimately show ?thesis by (simp add: core_def)
qed

lemma none_lost_cache [simp]: "none_lost I X (s\<lparr> sn_db := db \<rparr>) = none_lost I X s" "flushed (s\<lparr> sn_db := db \<rparr>) = flushed s"
  "held (s\<lparr> sn_db := db \<rparr>) w = held s w" "others X (s\<lparr> sn_db := db \<rparr>) = others X s" "buffered (s\<lparr> sn_db := db \<rparr>) = buffered s"
proof -
  have same: "others X (s\<lparr> sn_db := db \<rparr>) = others X s" "held (s\<lparr> sn_db := db \<rparr>) = held s" "buffered (s\<lparr> sn_db := db \<rparr>) = buffered s" for X
    by (auto simp: others_def held_def buffered_def fun_eq_iff split: worker_pc.split)
  show "none_lost I X (s\<lparr> sn_db := db \<rparr>) = none_lost I X s" "flushed (s\<lparr> sn_db := db \<rparr>) = flushed s"
    "held (s\<lparr> sn_db := db \<rparr>) w = held s w" "others X (s\<lparr> sn_db := db \<rparr>) = others X s" "buffered (s\<lparr> sn_db := db \<rparr>) = buffered s"
    by (simp_all add: same none_lost_def flushed_def)
qed

lemma covered_below_gap: "covered_below H start db F \<Longrightarrow> covered_below H start (snd (recordUnscannedRange (hi_cluster H) g db)) F"
  by (rule covered_below_mono) (auto simp: cache_simps)

lemma synced_to_gap: "synced_to H start db F \<Longrightarrow> synced_to H start (snd (recordUnscannedRange (hi_cluster H) g db)) F"
  by (auto simp: synced_to_def cache_simps covered_below_gap split: option.splits)

text \<open>A worker that keeps its page moves on to the next call.\<close>

lemma move_on_working:
  assumes "working H start {} s" "w < length (sn_workers s)" "held s w \<noteq> None" "pc_ok H start (s\<lparr> sn_db := db \<rparr>) pc"
    and "held (set_pc w pc (s\<lparr> sn_db := db \<rparr>)) w = held s w" "core H start {w} (s\<lparr> sn_db := db \<rparr>)" "pc \<noteq> Stopped"
  shows "working H start {} (set_pc w pc (s\<lparr> sn_db := db \<rparr>))"
proof -
  obtain i where i: "held s w = Some i" using assms(3) by auto
  from assms(1) have inv: "core H start {} s" "none_lost {} {} s" "flushed s" by (auto simp: working_def)
  note hold = core_holder [OF inv(1) assms(2) i]
  have "core H start {} (set_pc w pc (s\<lparr> sn_db := db \<rparr>))"
    by (rule core_set_pc [OF assms(6)]) (use assms(2,4,5) i hold in auto)
  moreover have "none_lost {i} {w} (s\<lparr> sn_db := db \<rparr>)" using none_lost_take_out [OF inv(2), of w] i by simp
  then have "none_lost {} {} (set_pc w pc (s\<lparr> sn_db := db \<rparr>))"
    by (rule none_lost_set_pc) (use assms(2,5,7) i in auto)
  moreover have "flushed (set_pc w pc (s\<lparr> sn_db := db \<rparr>))" using inv(3) by (simp add: flushed_def buffered_def)
  ultimately show ?thesis by (simp add: working_def)
qed

lemma gap_recorded_working:
  assumes "working H start {} s" "w < length (sn_workers s)" "sn_workers s ! w = Reporting i oldest"
  shows "working H start {} (set_pc w (Refetching i oldest) (record_gap (gap_of (sn_ranges s ! i) oldest) s))"
proof -
  have inv: "core H start {} s" "sn_cluster s = hi_cluster H" using assms(1) by (auto simp: working_def core_def layout_ok_def)
  have "core H start {w} (record_gap (gap_of (sn_ranges s ! i) oldest) s)"
    unfolding record_gap_def by (rule core_cache [OF core_take_out [OF inv(1)]]) (auto simp: inv(2) cache_simps covered_below_gap synced_to_gap)
  then show ?thesis unfolding record_gap_def using assms inv(2)
    by (intro move_on_working) (auto simp: held_def pc_ok_def cache_simps gap_of_def)
qed

lemma frontier_pg_from: "core H start X s \<Longrightarrow> sn_nextToFlush s < sn_nextToDispatch s \<Longrightarrow> frontier s = pg_from (sn_ranges s ! sn_nextToFlush s)"
  by (simp add: core_def slots_def frontier_def next_ledger_def)

lemma stored_working:
  assumes "working H start {} s" "w < length (sn_workers s)" "sn_workers s ! w = Putting pg"
  shows "working H start {} (set_pc w (Advancing pg) (put_page pg s))"
proof -
  have inv: "core H start {} s" "sn_cluster s = hi_cluster H" using assms(1) by (auto simp: working_def core_def layout_ok_def)
  have h: "held s w = Some (sn_nextToFlush s)" using assms(3) by (simp add: held_def)
  have pg: "page_ok H (sn_db s) (sn_ranges s ! sn_nextToFlush s) pg"
    using inv(1) assms(2,3) by (force simp: core_def pages_ok_def others_def pc_ok_def)
  then have recs: "chain_records H (fp_logs pg)" by (simp add: page_ok_def)
  have cov: "covered_below H start (sn_db s) (pg_from (sn_ranges s ! sn_nextToFlush s))"
    using inv(1) frontier_pg_from [OF inv(1)] core_holder [OF inv(1) assms(2) h] by (simp add: core_def layout_ok_def synced_to_def)
  have "core H start {w} (put_page pg s)"
    unfolding put_page_def by (rule core_cache [OF core_take_out [OF inv(1)]])
      (auto simp: inv(2) cache_simps synced_to_def intro: covered_below_put recs)
  then show ?thesis unfolding put_page_def using assms inv(2) h pg covered_below_put_page [OF cov pg]
    by (intro move_on_working) (auto simp: held_def pc_ok_def cache_simps intro: page_ok_mono)
qed

text \<open>The cursor moves past a delivered page.\<close>

lemma cursor_set_working:
  assumes "working H start {} s" "w < length (sn_workers s)" "sn_workers s ! w = Advancing pg"
  shows "working H start {} (drainReady w (set_cursor pg s))"
proof -
  let ?n = "sn_nextToFlush s"
  define s1 where "s1 = set_cursor pg s"
  from assms(1) have core: "core H start {} s" and lost: "none_lost {} {} s" and fl: "flushed s" and cl: "sn_cluster s = hi_cluster H"
    by (auto simp: working_def core_def layout_ok_def)
  have h: "held s w = Some ?n" using assms(3) by (simp add: held_def)
  note hold = core_holder [OF core assms(2) h]
  have sel: "sn_nextToFlush s1 = ?n + 1" "sn_nextToDispatch s1 = sn_nextToDispatch s" "sn_ranges s1 = sn_ranges s" "sn_results s1 = sn_results s"
    "sn_workers s1 = sn_workers s" "sn_firstError s1 = sn_firstError s" "sn_db s1 = setSyncState (hi_cluster H) (fp_to pg) (sn_db s)"
    "sn_toBlock s1 = sn_toBlock s" "sn_cluster s1 = sn_cluster s" "sn_main s1 = sn_main s"
    by (simp_all add: s1_def set_cursor_def cl)
  have same: "others X s1 = others X s" "buffered s1 = buffered s" for X by (simp_all add: others_def buffered_def sel)
  have held: "held s1 w' = held s w'" "pc_ok H start s (sn_workers s ! w') \<Longrightarrow> pc_ok H start s1 (sn_workers s ! w')" if "w' \<in> others {w} s" for w'
  proof -
    from hold that have "held s w' \<noteq> Some ?n" by blast
    then show "held s1 w' = held s w'" "pc_ok H start s (sn_workers s ! w') \<Longrightarrow> pc_ok H start s1 (sn_workers s ! w')"
      by (auto simp: held_def pc_ok_def sel cache_simps split: worker_pc.splits)
  qed
  have pgc: "fp_to pg = pg_to (sn_ranges s ! ?n)" "covered_below H start (sn_db s) (fp_to pg + 1)"
    using core assms(2,3) by (force simp: core_def pages_ok_def others_def pc_ok_def page_ok_def)+
  from core obtain f where f: "0 < f" "f \<le> sn_toBlock s + 1" "tiles f (sn_toBlock s) (sn_ranges s)" by (auto simp: core_def layout_ok_def)
  have n: "?n < length (sn_ranges s)" using hold core by (auto simp: core_def slots_def)
  have fr: "frontier s1 = fp_to pg + 1" using next_ledger_Suc [OF f(3) n] pgc(1) by (simp add: frontier_def sel)
  have "0 < fp_to pg + 1" using next_ledger_ge [OF f(3,2), of "Suc ?n"] f(1) fr by (simp add: frontier_def sel)
  then have "synced_to H start (sn_db s1) (frontier s1)"
    using covered_below_mono [OF pgc(2), of "sn_db s1"] by (simp add: fr sel synced_to_def cache_simps)
  then have "layout_ok H start s1" using core f by (auto simp: core_def layout_ok_def sel)
  moreover have "slots {w} s1"
    using core_take_out [OF core, of w] hold fl unfolding core_def slots_def same flushed_def sel
    by (auto simp: held(1) subset_iff Suc_le_eq order_less_le)
  moreover have "pages_ok H start {w} s1"
    using core_take_out [OF core, of w] held(2) unfolding core_def pages_ok_def same by (auto simp: sel cache_simps intro: page_ok_mono)
  ultimately have "core H start {w} s1" by (simp add: core_def)
  moreover have "none_lost {} {w} s1"
    using none_lost_take_out [OF lost, of w] h held(1) unfolding none_lost_def same by (auto simp: sel)
  ultimately show ?thesis using drainReady_working [of H start w s1] assms(2) by (simp add: s1_def [symmetric] sel)
qed

text \<open>What an honest answer to the request of a worker gives.\<close>

definition request_start :: "scan \<Rightarrow> nat \<Rightarrow> int" where
  "request_start s w = (case sn_workers s ! w of Fetching i \<Rightarrow> pg_from (sn_ranges s ! i) | Refetching _ oldest \<Rightarrow> oldest | _ \<Rightarrow> 0)"

definition honest_answer :: "'v history \<Rightarrow> int \<Rightarrow> int \<Rightarrow> 'v announcement_event list \<Rightarrow> bool" where
  "honest_answer H head st evs \<longleftrightarrow>
     (\<exists>n. evs = known_from H st n \<and> (\<forall>p<length (hi_events H). ev_ledger (hi_events H ! p) \<le> head \<longrightarrow> p < n))"

lemma answered_working:
  assumes "working H start {} s" "w < length (sn_workers s)" "tx_in_one_ledger H" "honest_answer H (sn_toBlock s) (request_start s w) evs"
    and "sn_workers s ! w = Fetching i \<or> (\<exists>oldest. sn_workers s ! w = Refetching i oldest)"
  shows "working H start {} (page_answered (hi_scVal H) w i evs s)"
proof -
  from assms(1) have core: "core H start {} s" and fl: "flushed s" and cl: "sn_cluster s = hi_cluster H"
    by (auto simp: working_def core_def layout_ok_def)
  have h: "held s w = Some i" using assms(5) by (auto simp: held_def)
  from core obtain f where f: "tiles f (sn_toBlock s) (sn_ranges s)" by (auto simp: core_def layout_ok_def)
  have "i < length (sn_ranges s)" using core_holder [OF core assms(2) h] core by (auto simp: core_def slots_def)
  note tile = tiles_nth [OF f this]
  show ?thesis
  proof (cases "mapAnnouncementEvents (hi_scVal H) (hi_cluster H) evs")
    case (Inl e)
    then show ?thesis using worker_failed_working [OF core_take_out [OF core] fl assms(2)] by (simp add: page_answered_def cl)
  next
    case (Inr logs)
    obtain n where n: "evs = known_from H (request_start s w) n" "\<And>p. p < length (hi_events H) \<Longrightarrow> ev_ledger (hi_events H ! p) \<le> sn_toBlock s \<Longrightarrow> p < n"
      using assms(4) by (auto simp: honest_answer_def)
    note recs = answer_records [OF assms(3) Inr [unfolded n(1)]]
    have "\<exists>a\<in>set logs. chain_record H p = Inr a"
      if p: "p < length (hi_events H)" "pg_from (sn_ranges s ! i) \<le> ev_ledger (hi_events H ! p)" "ev_ledger (hi_events H ! p) \<le> pg_to (sn_ranges s ! i)"
        "ev_ledger (hi_events H ! p) \<notin> gaps (hi_cluster H) (sn_db s)" for p
    proof (rule recs(2) [OF n(2) p(1)])
      show "ev_ledger (hi_events H ! p) \<le> sn_toBlock s" using p tile by simp
      have pc: "pc_ok H start s (sn_workers s ! w)" using core assms(2) by (auto simp: core_def pages_ok_def others_def)
      then show "request_start s w \<le> ev_ledger (hi_events H ! p)"
        using assms(5) p by (auto simp: request_start_def pc_ok_def subset_iff) (metis linorder_not_le zle_diff1_eq)
    qed (use p in simp)
    then have "page_ok H (sn_db s) (sn_ranges s ! i)
        \<lparr> fp_from = pg_from (sn_ranges s ! i), fp_to = pg_to (sn_ranges s ! i), fp_logs = logs \<rparr>"
      using recs(1) by (simp add: page_ok_def Let_def)
    from page_done_working [OF assms(1,2) h this] Inr show ?thesis by (simp add: page_answered_def cl)
  qed
qed


section \<open>Every step keeps the invariant\<close>

definition scan_inv :: "'v history \<Rightarrow> int \<Rightarrow> scan \<Rightarrow> bool" where
  "scan_inv H start s \<longleftrightarrow> sn_cluster s = hi_cluster H \<and> 0 < start \<and> (case sn_main s of
     AskingHealth \<Rightarrow> synced_to H start (sn_db s) (sn_fromBlock s)
   | RecordingClamp oldest \<Rightarrow> synced_to H start (sn_db s) (sn_fromBlock s) \<and> sn_fromBlock s < oldest \<and> sn_fromBlock s \<le> sn_toBlock s
   | Working \<Rightarrow> working H start {} s
   | Returned \<Rightarrow> covered_below H start (sn_db s) (sn_toBlock s + 1) \<and> (\<exists>F. synced_to H start (sn_db s) F)
   | Threw _ \<Rightarrow> \<exists>F. synced_to H start (sn_db s) F
   | _ \<Rightarrow> False)"

lemma all_flushed:
  assumes "working H start {} s" "sn_firstError s = None" "\<forall>pc\<in>set (sn_workers s). pc = Stopped" "sn_workers s \<noteq> []"
  shows "sn_nextToFlush s = length (sn_ranges s)"
proof (rule ccontr)
  have stop: "sn_workers s ! w = Stopped" if "w < length (sn_workers s)" for w using assms(3) that by simp
  have disp: "sn_nextToDispatch s = length (sn_ranges s)"
    using assms(1,2,4) stop by (auto simp: working_def none_lost_def others_def)
  assume "sn_nextToFlush s \<noteq> length (sn_ranges s)"
  with assms(1) disp have "sn_nextToFlush s \<in> {sn_nextToFlush s..<sn_nextToDispatch s}" by (auto simp: working_def core_def slots_def)
  with assms(1,2) stop show False by (auto simp: working_def none_lost_def flushed_def others_def held_def)
qed

lemma join_inv:
  assumes "working H start {} s" "sn_workers s \<noteq> []"
  shows "scan_inv H start (join s)"
proof -
  from assms(1) have base: "sn_cluster s = hi_cluster H" "0 < start" "sn_main s = Working" "synced_to H start (sn_db s) (frontier s)"
    by (auto simp: working_def core_def layout_ok_def)
  consider (go) "\<not> (\<forall>pc\<in>set (sn_workers s). pc = Stopped)"
    | (err) e where "\<forall>pc\<in>set (sn_workers s). pc = Stopped" "sn_firstError s = Some e"
    | (fin) "\<forall>pc\<in>set (sn_workers s). pc = Stopped" "sn_firstError s = None" by fastforce
  then show ?thesis
  proof cases
    case go
    then have "join s = s" by (auto simp: join_def)
    then show ?thesis using base assms(1) by (simp add: scan_inv_def)
  next
    case err
    then have "join s = s\<lparr> sn_main := Threw e \<rparr>" using base by (simp add: join_def)
    then show ?thesis using base by (auto simp: scan_inv_def)
  next
    case fin
    have "map_of (sn_results s) (sn_nextToFlush s) = None"
      using assms(1) by (simp add: working_def flushed_def buffered_def map_of_eq_None_iff)
    moreover have "frontier s = sn_toBlock s + 1" using all_flushed [OF assms(1) fin(2,1) assms(2)] by (simp add: frontier_def next_ledger_def)
    moreover from calculation(1) have "join s = s\<lparr> sn_main := Returned \<rparr>" using fin base by (simp add: join_def main_drain_def)
    moreover have "covered_below H start (sn_db s) (frontier s)" using base(4) by (simp add: synced_to_def)
    ultimately show ?thesis using base by (auto simp: scan_inv_def)
  qed
qed

lemma dispatch_simps [simp]:
  "length (sn_workers (dispatch w s)) = length (sn_workers s)"
  by (simp add: dispatch_def)

lemma fold_dispatch_working:
  assumes "working H start {0..} s" "n \<le> length (sn_workers s)"
  shows "working H start {n..} (fold dispatch [0..<n] s) \<and> length (sn_workers (fold dispatch [0..<n] s)) = length (sn_workers s)"
  using assms(2)
proof (induction n)
  case 0
  show ?case using assms(1) by simp
next
  case (Suc n)
  have "{n..} = insert n {Suc n..}" by auto
  with Suc have "core H start (insert n {Suc n..}) (fold dispatch [0..<n] s)" "none_lost {} (insert n {Suc n..}) (fold dispatch [0..<n] s)"
    "flushed (fold dispatch [0..<n] s)" "n < length (sn_workers (fold dispatch [0..<n] s))" by (auto simp: working_def)
  from dispatch_working [OF this] Suc show ?case by simp
qed

lemma start_workers_inv:
  assumes "synced_to H start (sn_db s) f" "sn_cluster s = hi_cluster H" "0 < start"
  shows "scan_inv H start (start_workers f s)"
proof (cases "f > sn_toBlock s")
  case True
  with assms show ?thesis by (auto simp: start_workers_def scan_inv_def synced_to_def covered_below_def Let_def)
next
  case False
  let ?R = "buildPageRanges BATCH_SIZE f (sn_toBlock s)"
  define n where "n = max 1 (min (sn_concurrency s) (length ?R))"
  define s0 where "s0 = s\<lparr> sn_ranges := ?R, sn_results := [], sn_nextToFlush := 0, sn_nextToDispatch := 0, sn_firstError := None,
                     sn_workers := replicate n Stopped, sn_main := Working \<rparr>"
  have tl: "tiles f (sn_toBlock s) ?R" using False by (intro tiles_buildPageRanges) simp
  have "frontier s0 = f" using next_ledger_0 [OF tl] by (simp add: frontier_def s0_def)
  then have "working H start {0..} s0" using assms False tl
    by (auto simp: s0_def working_def core_def layout_ok_def slots_def pages_ok_def none_lost_def flushed_def buffered_def others_def synced_to_def)
  from fold_dispatch_working [OF this, of n] have "working H start {n..} (fold dispatch [0..<n] s0)"
    "length (sn_workers (fold dispatch [0..<n] s0)) = n" by (simp_all add: s0_def)
  moreover have "others {n..} (fold dispatch [0..<n] s0) = others {} (fold dispatch [0..<n] s0)" using calculation(2) by (auto simp: others_def)
  moreover have "n \<noteq> 0" by (simp add: n_def)
  ultimately have "working H start {} (fold dispatch [0..<n] s0)" "sn_workers (fold dispatch [0..<n] s0) \<noteq> []"
    by (auto simp: working_def core_def slots_def pages_ok_def none_lost_def)
  from join_inv [OF this] False show ?thesis by (simp add: start_workers_def Let_def s0_def n_def)
qed

text \<open>The answers to the requests for events are honest; every other call may succeed or fail.\<close>

fun honest_event :: "'v history \<Rightarrow> scan \<Rightarrow> 'v scan_event \<Rightarrow> bool" where
  "honest_event H s (Events w (Inr evs)) = honest_answer H (sn_toBlock s) (request_start s w) evs"
| "honest_event H s _ = True"

lemma workers_kept:
  "length (sn_workers (worker_step f w ev pc s)) = length (sn_workers s)"
  by (auto simp: worker_step_def page_answered_def page_done_def drainReady_def worker_failed_def fetch_failed_def record_gap_def put_page_def
      set_cursor_def Let_def dispatch_def split: scan_event.splits sum.splits worker_pc.splits option.splits)

lemma worker_step_working:
  assumes "working H start {} s" "w < length (sn_workers s)" "tx_in_one_ledger H" "honest_event H s ev" "worker_of ev = Some w"
  shows "working H start {} (worker_step (hi_scVal H) w ev (sn_workers s ! w) s)"
proof -
  from assms(1) have core: "core H start {w} s" and fl: "flushed s" by (auto simp: working_def core_take_out)
  note fail = worker_failed_working [OF core fl assms(2)]
  have report: "working H start {} (set_pc w (Reporting i oldest) s)" if "sn_workers s ! w = Fetching i" for i oldest
    using move_on_working [OF assms(1,2), where db = "sn_db s" and pc = "Reporting i oldest"] that core assms(2) by (simp add: held_def pc_ok_def)
  have fetch: "working H start {} (fetch_failed w i err s)" if "sn_workers s ! w = Fetching i" for i err
    using report [OF that] fail by (auto simp: fetch_failed_def split: option.split)
  show ?thesis
  proof (cases ev)
    case (Events w' r)
    with assms answered_working [OF assms(1,2,3)] fail fetch show ?thesis
      by (cases r) (auto simp: worker_step_def split: worker_pc.split)
  next
    case (GapRecorded w' r)
    with assms(1) gap_recorded_working [OF assms(1,2)] fail show ?thesis by (auto simp: worker_step_def split: worker_pc.split sum.split)
  next
    case (Stored w' r)
    with assms(1) stored_working [OF assms(1,2)] fail show ?thesis by (auto simp: worker_step_def split: worker_pc.split sum.split)
  next
    case (CursorSet w' r)
    with assms(1) cursor_set_working [OF assms(1,2)] fail show ?thesis by (auto simp: worker_step_def split: worker_pc.split sum.split)
  qed (use assms(5) in auto)
qed

lemma clamp_inv:
  assumes "scan_inv H start s" "sn_main s = RecordingClamp oldest"
  shows "scan_inv H start (start_workers oldest (record_gap (clamp_gap s oldest) s))"
proof (cases "oldest \<le> sn_toBlock s")
  case True
  from assms have inv: "synced_to H start (sn_db s) (sn_fromBlock s)" "sn_fromBlock s < oldest" "sn_cluster s = hi_cluster H" "0 < start"
    by (auto simp: scan_inv_def)
  have "synced_to H start (sn_db (record_gap (clamp_gap s oldest) s)) oldest"
    using inv True covered_below_mono [of H start "sn_db s" "sn_fromBlock s" "sn_db (record_gap (clamp_gap s oldest) s)" oldest]
    by (force simp: synced_to_def record_gap_def clamp_gap_def cache_simps split: option.splits)
  with inv show ?thesis by (intro start_workers_inv) (auto simp: record_gap_def)
next
  case False
  from assms have inv: "synced_to H start (sn_db s) (sn_fromBlock s)" "sn_cluster s = hi_cluster H" "0 < start"
    by (auto simp: scan_inv_def)
  have "covered_below H start (sn_db (record_gap (clamp_gap s oldest) s)) (sn_toBlock s + 1)"
    using inv False covered_below_mono [of H start "sn_db s" "sn_fromBlock s" "sn_db (record_gap (clamp_gap s oldest) s)" "sn_toBlock s + 1"]
    by (force simp: synced_to_def record_gap_def clamp_gap_def cache_simps)
  with inv False show ?thesis using synced_to_gap [OF inv(1)]
    by (auto simp: start_workers_def record_gap_def scan_inv_def)
qed

lemma main_step_inv:
  assumes "scan_inv H start s"
  shows "scan_inv H start (main_step ev s)"
proof -
  have threw: "scan_inv H start (s\<lparr> sn_main := Threw err \<rparr>)" if "sn_main s = RecordingClamp oldest" for err oldest
    using assms that by (auto simp: scan_inv_def)
  have health: "scan_inv H start (health_answered r s)" if "sn_main s = AskingHealth" for r
  proof -
    from assms that have inv: "synced_to H start (sn_db s) (sn_fromBlock s)" "sn_cluster s = hi_cluster H" "0 < start" by (auto simp: scan_inv_def)
    have "scan_inv H start (start_workers oldest s)" if "sn_toBlock s < sn_fromBlock s" "sn_fromBlock s < oldest" for oldest
      using inv that by (auto simp: start_workers_def scan_inv_def synced_to_def covered_below_def Let_def)
    with inv start_workers_inv [OF inv] show ?thesis by (auto simp: health_answered_def scan_inv_def split: sum.split)
  qed
  show ?thesis using assms threw health clamp_inv [OF assms]
    by (auto simp: main_step_def split: scan_event.split main_pc.split sum.split) (auto simp: scan_inv_def)
qed

lemma scan_step_inv:
  assumes "scan_inv H start s" "tx_in_one_ledger H" "honest_event H s ev"
  shows "scan_inv H start (scan_step (hi_scVal H) s ev)"
proof (cases "worker_of ev")
  case None
  with main_step_inv [OF assms(1)] show ?thesis by (simp add: scan_step_def)
next
  case (Some w)
  show ?thesis
  proof (cases "sn_main s = Working \<and> w < length (sn_workers s)")
    case True
    with assms(1) have "working H start {} s" by (simp add: scan_inv_def)
    from worker_step_working [OF this _ assms(2,3) Some] True
    have "working H start {} (worker_step (hi_scVal H) w ev (sn_workers s ! w) s)" by simp
    moreover have "sn_workers (worker_step (hi_scVal H) w ev (sn_workers s ! w) s) \<noteq> []"
      using True workers_kept [of "hi_scVal H" w ev "sn_workers s ! w" s] by force
    ultimately show ?thesis using join_inv True Some by (simp add: scan_step_def)
  next
    case False
    with assms(1) Some show ?thesis by (auto simp: scan_step_def)
  qed
qed

lemmas step_defs = worker_step_def page_answered_def page_done_def drainReady_def worker_failed_def fetch_failed_def record_gap_def
  put_page_def set_cursor_def Let_def dispatch_def main_drain_def

lemma toBlock_dispatch: "sn_toBlock (dispatch w s) = sn_toBlock s"
  by (simp add: dispatch_def)

lemma toBlock_join: "sn_toBlock (join s) = sn_toBlock s"
  by (simp add: join_def main_drain_def split: option.split)

lemma toBlock_start: "sn_toBlock (start_workers f s) = sn_toBlock s"
proof -
  have "sn_toBlock (fold dispatch ws s) = sn_toBlock s" for ws s
    by (induction ws arbitrary: s) (simp_all add: toBlock_dispatch)
  then show ?thesis by (simp add: start_workers_def Let_def toBlock_join)
qed

lemma toBlock_kept: "sn_toBlock (scan_step f s ev) = sn_toBlock s"
proof -
  have "sn_toBlock (worker_step f w ev pc s) = sn_toBlock s" for w pc
    by (auto simp: step_defs split: scan_event.splits sum.splits worker_pc.splits option.splits)
  moreover have "sn_toBlock (main_step ev s) = sn_toBlock s"
    by (auto simp: main_step_def health_answered_def step_defs toBlock_start split: scan_event.split sum.split main_pc.split option.split)
  ultimately show ?thesis by (simp add: scan_step_def toBlock_join split: option.split)
qed

inductive scan_reachable :: "'v history \<Rightarrow> scan \<Rightarrow> scan \<Rightarrow> bool" for H s0 where
  scan_start: "scan_reachable H s0 s0"
| scan_next: "scan_reachable H s0 s \<Longrightarrow> honest_event H s ev \<Longrightarrow> scan_reachable H s0 (scan_step (hi_scVal H) s ev)"

lemma scan_reachable_inv:
  assumes "scan_reachable H s0 s" "scan_inv H start s0" "tx_in_one_ledger H"
  shows "scan_inv H start s \<and> sn_toBlock s = sn_toBlock s0"
  using assms by (induction rule: scan_reachable.induct) (simp_all add: scan_step_inv toBlock_kept)

lemma synced_covered: "synced_to H start db F \<Longrightarrow> covered H start db"
  unfolding synced_to_def covered_def covered_below_def Let_def by force

lemma scan_inv_covered: "scan_inv H start s \<Longrightarrow> covered H start (sn_db s)"
  by (auto simp: scan_inv_def working_def core_def layout_ok_def intro: synced_covered split: main_pc.splits)

lemma getStartBlock_pos: "0 < getStartBlock dep"
  by (simp add: getStartBlock_def split: option.split)

lemma covered_resume:
  assumes "covered H start db" "0 < start"
  shows "synced_to H start db (resume_from (cursor (hi_cluster H) db) start)"
proof (cases "cursor (hi_cluster H) db")
  case None
  then show ?thesis using assms(2) by (auto simp: synced_to_def resume_from_def covered_below_def Let_def)
next
  case (Some c)
  with assms have "covered_below H start db (max (c + 1) start)" by (auto simp: covered_def covered_below_def Let_def max_def)
  with Some assms(2) show ?thesis by (auto simp: synced_to_def resume_from_def)
qed

text \<open>What a scan starts with, unless the gap check throws recorded gaps away.\<close>

lemma runScan_inv:
  assumes "runScan (hi_cluster H) dep clear head db = (db', Some s0)" "covered H (getStartBlock dep) db"
    and "clear \<or> gaps (hi_cluster H) db = {} \<or> \<not> gap_detected (getAnnouncementsForCluster (hi_cluster H) db) (cursor (hi_cluster H) db)"
  shows "scan_inv H (getStartBlock dep) s0 \<and> sn_toBlock s0 = head"
proof -
  let ?c = "hi_cluster H" and ?st = "getStartBlock dep"
  have fresh: "synced_to H ?st d ?st" if "cursor ?c d = None" for d
    using that getStartBlock_pos [of dep] by (auto simp: synced_to_def covered_below_def Let_def)
  note resume = covered_resume [OF assms(2) getStartBlock_pos]
  have reset: "synced_to H ?st (clearSyncState ?c db) (resume_from (cursor ?c db) ?st)" if "gaps ?c db = {}"
    using resume that covered_below_mono [of H ?st db "resume_from (cursor ?c db) ?st" "clearSyncState ?c db" "resume_from (cursor ?c db) ?st"]
    by (simp add: synced_to_def cache_simps)
  show ?thesis
  proof (cases clear)
    case True
    then show ?thesis using assms(1) fresh getStartBlock_pos [of dep]
      by (auto simp: runScan_def Let_def scan_inv_def fetchLogsAdaptive_def cache_simps split: if_splits)
  next
    case False
    then show ?thesis using assms(1,3) resume reset getStartBlock_pos [of dep]
      by (auto simp: runScan_def Let_def scan_inv_def fetchLogsAdaptive_def cursor_def split: if_splits)
  qed
qed


section \<open>A scan of one page\<close>

lemma one_page: "f \<le> t \<Longrightarrow> t \<le> f + 10000 \<Longrightarrow> buildPageRanges BATCH_SIZE f t = [\<lparr> pg_from = f, pg_to = t \<rparr>]"
  by (subst buildPageRanges.simps, subst buildPageRanges.simps) (auto simp: BATCH_SIZE_def Let_def)

definition one_page_run :: "js_error \<Rightarrow> 'v announcement_event list \<Rightarrow> 'v scan_event list" where
  "one_page_run e evs = [Health (Inl e), Events 0 (Inr evs), Stored 0 (Inr ()), CursorSet 0 (Inr ())]"

lemma one_page_scan:
  fixes db :: OpaqueCache and e :: js_error and conc :: nat
  assumes "f \<le> head" "head \<le> f + 10000" "mapAnnouncementEvents sv cl evs = Inr logs"
  defines "s \<equiv> foldl (scan_step sv) (fetchLogsAdaptive cl f head conc db) (one_page_run e evs)"
  shows "sn_main s = Returned" "sn_db s = setSyncState cl head (putAnnouncements cl (map log_of logs) db)"
proof -
  have "max 1 (min conc 1) = 1" by simp
  then show "sn_main s = Returned" "sn_db s = setSyncState cl head (putAnnouncements cl (map log_of logs) db)"
    using assms(1-3) one_page [OF assms(1,2)] unfolding s_def
    by (simp_all add: one_page_run_def scan_step_def main_step_def health_answered_def fetchLogsAdaptive_def start_workers_def worker_step_def
        page_answered_def page_done_def drainReady_def put_page_def set_cursor_def dispatch_def join_def main_drain_def set_pc_def Let_def)
qed

lemma mapped_id: "mapAnnouncementEvents sv cl evs = Inr logs \<Longrightarrow> a \<in> set logs \<Longrightarrow> ca_id (cached_record cl (log_of a)) = ca_id a"
  by (auto simp: mapAnnouncementEvents_records cached_record_log_of)

lemma put_leaves_others:
  assumes "mapAnnouncementEvents sv cl evs = Inr logs" "i \<notin> ca_id ` set logs"
  shows "map_of (oc_announcements (putAnnouncements cl (map log_of logs) db)) i = map_of (oc_announcements db) i"
proof -
  have "find (\<lambda>b. ca_id (cached_record cl (log_of b)) = i) (rev logs) = None"
    using assms mapped_id [OF assms(1)] by (auto simp: find_None_iff)
  then show ?thesis by (simp add: putAnnouncements_def fold_map comp_def fold_put_record [of "\<lambda>b. cached_record cl (log_of b)"])
qed


section \<open>Properties\<close>


text \<open>
  C14: the gap check of \<open>runScan\<close> forgets recorded gaps. When the newest cached announcement is older than the cursor, as it is
  whenever the last ledgers had no announcement, the ledgers recorded as unscanned are dropped, while the scan goes on from the
  old cursor, so they are never scanned and no longer reported.
\<close>

theorem gap_check_forgets_unscanned_ledgers:
  assumes "getAnnouncementsForCluster cluster db \<noteq> []" "cursor cluster db = Some l"
    and "\<forall>a\<in>set (getAnnouncementsForCluster cluster db). ca_slot a < l" "runScan cluster dep False head db = (db', r)"
  shows "gaps cluster db' = {} \<and> (\<forall>s. r = Some s \<longrightarrow> sn_db s = db' \<and> sn_fromBlock s = max (l + 1) (getStartBlock dep))"
proof -
  have max: "fold max xs x < l" if "\<forall>y\<in>set (x # xs). y < l" for x xs and l :: int
    using that by (induction xs arbitrary: x) auto
  have "gap_detected (getAnnouncementsForCluster cluster db) (Some l)"
    using assms(1,3) by (cases "getAnnouncementsForCluster cluster db") (auto simp: gap_detected_def intro!: max)
  with assms(2,4) show ?thesis
    by (auto simp: runScan_def Let_def cursor_def [symmetric] cache_simps resume_from_def fetchLogsAdaptive_def split: if_splits)
qed

text \<open>
  A page is marked as scanned whatever its answer leaves out. The request has no limit, end or cursor, and no further request
  is made, so when the server cuts the answer at its page size, the announcements after the cut are neither cached nor
  recorded as unscanned, and the cursor moves past them.
\<close>

lemma cut_answer_is_marked_scanned:
  assumes "f \<le> head" "head \<le> f + 10000" "mapAnnouncementEvents sv cl evs = Inr logs"
    and "s = foldl (scan_step sv) (fetchLogsAdaptive cl f head conc db) (one_page_run e evs)"
  shows "sn_main s = Returned \<and> cursor cl (sn_db s) = Some head \<and> gaps cl (sn_db s) = gaps cl db
    \<and> (\<forall>i. i \<notin> ca_id ` set logs \<longrightarrow> map_of (oc_announcements (sn_db s)) i = map_of (oc_announcements db) i)"
  using one_page_scan [OF assms(1,2,3), of conc db e] put_leaves_others [OF assms(3)] by (simp add: assms(4) cache_simps)


section \<open>Witnesses\<close>

text \<open>An announcement in ledger 4 of a chain with head 5; the value of an event is its decoded form.\<close>

definition example_event :: "byte list list announcement_event" where
  "example_event = \<lparr> ev_txHash = ''ab'', ev_ledger = 4, ev_value = [[], [1], [], [2], [3]] \<rparr>"

definition example_history :: "byte list list history" where
  "example_history = \<lparr> hi_scVal = Inr, hi_cluster = ''testnet'', hi_events = [example_event] \<rparr>"

definition example_events :: "byte list list scan_event list" where
  "example_events = one_page_run (Error ''no health'') [example_event]"

definition example_start :: scan where
  "example_start = fetchLogsAdaptive ''testnet'' 1 5 DEFAULT_FETCH_CONCURRENCY empty_cache"

fun honest_events :: "'v history \<Rightarrow> scan \<Rightarrow> 'v scan_event list \<Rightarrow> bool" where
  "honest_events H s [] = True"
| "honest_events H s (ev # evs) = (honest_event H s ev \<and> honest_events H (scan_step (hi_scVal H) s ev) evs)"

lemma scan_reachable_run:
  "honest_events H s evs \<Longrightarrow> scan_reachable H s0 s \<Longrightarrow> scan_reachable H s0 (foldl (scan_step (hi_scVal H)) s evs)"
  by (induction evs arbitrary: s) (auto intro: scan_next)

lemma example_mapped:
  "mapAnnouncementEvents Inr ''testnet'' [example_event] =
     Inr [\<lparr> ca_id = ''testnet-ab-0'', ca_cluster = ''testnet'', ca_slot = 4, ca_transactionSignature = ''ab'', ca_logIndex = 0,
           ca_args = \<lparr> aa_stealthAddress = Some ''0x01'', aa_ephemeralPubKey = Some ''0x02'', aa_metadata = Some ''0x03'' \<rparr> \<rparr>]"
  by code_simp

lemma example_scan_honest: "honest_events example_history example_start example_events"
proof -
  let ?s = "scan_step Inr example_start (Health (Inl (Error ''no health'')) :: byte list list scan_event)"
  have "sn_workers ?s = [Fetching 0]" "sn_ranges ?s = [\<lparr> pg_from = 1, pg_to = 5 \<rparr>]"
    using one_page [of 1 5] by (simp_all add: example_start_def scan_step_def main_step_def health_answered_def fetchLogsAdaptive_def start_workers_def
      dispatch_def join_def set_pc_def Let_def DEFAULT_FETCH_CONCURRENCY_def)
  then have "request_start ?s 0 = 1" by (simp add: request_start_def)
  moreover have "honest_answer example_history h 1 [example_event]" for h
    unfolding honest_answer_def by (intro exI [of _ 1]) (simp add: known_from_def example_history_def example_event_def)
  ultimately show ?thesis by (simp add: example_events_def one_page_run_def example_history_def)
qed


definition example_cache :: OpaqueCache where
  "example_cache = setSyncState ''testnet'' 5 (snd (recordUnscannedRange ''testnet'' \<lparr> fromLedger = 1, toLedger = 2 \<rparr>
     (putAnnouncements ''testnet'' [\<lparr> al_transactionSignature = Some ''ab'', al_logIndex = Some 0, al_slot = Some 4, al_args = None \<rparr>] empty_cache)))"

theorem gap_check_forgets_unscanned_ledgers_witness:
  "gaps ''testnet'' example_cache = {1, 2} \<and> gaps ''testnet'' (fst (runScan ''testnet'' None False 9 example_cache)) = {}"
proof -
  have cached: "map ca_slot (getAnnouncementsForCluster ''testnet'' example_cache) = [4]" by code_simp
  have "gaps ''testnet'' example_cache = {1..2}"
    by (simp add: example_cache_def cache_simps) (simp add: gaps_def getSyncState_def empty_cache_def getUnscannedRanges_def)
  also have "\<dots> = {1, 2}" by auto
  finally have two: "gaps ''testnet'' example_cache = {1, 2}" .
  have cur: "cursor ''testnet'' example_cache = Some 5" by (simp add: example_cache_def cache_simps)
  from cached have "getAnnouncementsForCluster ''testnet'' example_cache \<noteq> []" "\<forall>a\<in>set (getAnnouncementsForCluster ''testnet'' example_cache). ca_slot a < 5"
    by auto
  from gap_check_forgets_unscanned_ledgers [OF this(1) cur this(2), of None 9] two show ?thesis by (metis prod.collapse)
qed

text \<open>The same chain with an answer that leaves the announcement out.\<close>

lemma cut_answer_is_marked_scanned_witness:
  "cursor ''testnet'' (sn_db (foldl (scan_step Inr) example_start (one_page_run (Error ''no health'') []))) = Some 5
   \<and> map_of (oc_announcements (sn_db (foldl (scan_step Inr) example_start (one_page_run (Error ''no health'') [])))) ''testnet-ab-0'' = None"
  using cut_answer_is_marked_scanned [of 1 5 "Inr :: byte list list \<Rightarrow> byte list list res" "''testnet''" "[]" "[]",
    OF _ _ _ refl, of DEFAULT_FETCH_CONCURRENCY empty_cache "Error ''no health''"]
  by (simp add: example_start_def mapAnnouncementEvents_def empty_cache_def)

end
