(* ===== verification/Wallet_Notes.thy ===== *)
theory Wallet_Notes
  imports Sdk_Prove Effects
begin

text \<open>
  The pool notes of the web wallet: the note store, \<^verbatim>\<open>frontend/src/store/poolNoteStore.ts\<close>, and the sweep of a stealth account
  into the pool, \<^verbatim>\<open>frontend/src/lib/poolSweep.ts\<close>. The derivations of \<^verbatim>\<open>frontend/src/lib/poolNotes.ts\<close> are the ones the SDK
  has, and are taken from there. The encrypted persistence of the store, the progress callback and the key derivation are left
  out; the contract calls, the random bytes and the clock are arguments.
\<close>

section \<open>The note store\<close>

record WalletNote = PoolNote +
  note_account :: "string option"

record PoolNoteState =
  ns_notes :: "WalletNote list"
  ns_activeAccount :: "string option"

definition text_of :: "string option \<Rightarrow> string" where
  "text_of x = (case x of None \<Rightarrow> '''' | Some s \<Rightarrow> s)"

definition is_set :: "string option \<Rightarrow> bool" where
  "is_set x \<longleftrightarrow> text_of x \<noteq> ''''"

definition noteKey :: "WalletNote \<Rightarrow> string" where
  "noteKey n = note_cluster n @ '':'' @ text_of (note_poolId n) @ '':'' @ dec_of_nat (note_leafIndex n)"

definition setActiveAccount :: "string option \<Rightarrow> PoolNoteState \<Rightarrow> PoolNoteState" where
  "setActiveAccount account s = s\<lparr> ns_activeAccount := account \<rparr>"

text \<open>\<open>note.account ?? activeAccount ?? undefined\<close>\<close>

definition enrich :: "string option \<Rightarrow> WalletNote \<Rightarrow> WalletNote" where
  "enrich acct note = note\<lparr> note_account := (case note_account note of Some a \<Rightarrow> Some a | None \<Rightarrow> acct) \<rparr>"

definition same_slot :: "WalletNote \<Rightarrow> WalletNote \<Rightarrow> bool" where
  "same_slot n e \<longleftrightarrow> note_cluster n = note_cluster e \<and> text_of (note_poolId n) = text_of (note_poolId e)
     \<and> note_leafIndex n = note_leafIndex e \<and> text_of (note_account n) = text_of (note_account e)"

definition addNote :: "WalletNote \<Rightarrow> PoolNoteState \<Rightarrow> PoolNoteState" where
  "addNote note s =
     (let enriched = enrich (ns_activeAccount s) note
      in s\<lparr> ns_notes := filter (\<lambda>n. \<not> same_slot n enriched) (ns_notes s) @ [enriched] \<rparr>)"

definition markSpent :: "string \<Rightarrow> string option \<Rightarrow> nat \<Rightarrow> PoolNoteState \<Rightarrow> PoolNoteState" where
  "markSpent cluster pool leafIndex s =
     s\<lparr> ns_notes := map (\<lambda>n. if note_cluster n = cluster \<and> text_of (note_poolId n) = text_of pool \<and> note_leafIndex n = leafIndex
                              \<and> text_of (note_account n) = text_of (ns_activeAccount s)
                           then n\<lparr> note_spent := True \<rparr> else n) (ns_notes s) \<rparr>"

definition visible :: "string option \<Rightarrow> WalletNote \<Rightarrow> bool" where
  "visible acct n \<longleftrightarrow> \<not> is_set acct \<or> \<not> is_set (note_account n) \<or> note_account n = acct"

definition getForCluster :: "string \<Rightarrow> PoolNoteState \<Rightarrow> WalletNote list" where
  "getForCluster cluster s = filter (\<lambda>n. note_cluster n = cluster \<and> visible (ns_activeAccount s) n) (ns_notes s)"

record ImportConflict =
  ic_spentPreserved :: nat
  ic_imported :: nat

definition import_step :: "string option \<Rightarrow> WalletNote \<Rightarrow> (string \<times> WalletNote) list \<times> ImportConflict \<Rightarrow> (string \<times> WalletNote) list \<times> ImportConflict" where
  "import_step acct raw st =
     (case st of (byKey, c) \<Rightarrow>
        let incoming = enrich acct raw; key = noteKey incoming
        in (case map_of byKey key of
              Some existing \<Rightarrow>
                if note_spent existing \<and> \<not> note_spent incoming then (byKey, c\<lparr> ic_spentPreserved := ic_spentPreserved c + 1 \<rparr>)
                else (AList.update key (if note_spent existing then existing else incoming) byKey, c\<lparr> ic_imported := ic_imported c + 1 \<rparr>)
            | None \<Rightarrow> (AList.update key incoming byKey, c\<lparr> ic_imported := ic_imported c + 1 \<rparr>)))"

definition seed :: "WalletNote list \<Rightarrow> (string \<times> WalletNote) list" where
  "seed notes = fold (\<lambda>n. AList.update (noteKey n) n) notes []"

definition importNotes :: "WalletNote list \<Rightarrow> PoolNoteState \<Rightarrow> ImportConflict \<times> PoolNoteState" where
  "importNotes notes s =
     (let (byKey, c) = fold (import_step (ns_activeAccount s)) notes (seed (ns_notes s), \<lparr> ic_spentPreserved = 0, ic_imported = 0 \<rparr>)
      in (c, s\<lparr> ns_notes := map snd byKey \<rparr>))"

definition exportNotes :: "PoolNoteState \<Rightarrow> WalletNote list" where
  "exportNotes s = filter (visible (ns_activeAccount s)) (ns_notes s)"

definition clear_notes :: "string option \<Rightarrow> bool \<Rightarrow> PoolNoteState \<Rightarrow> PoolNoteState" where
  "clear_notes cluster allAccounts s =
     (if allAccounts then s\<lparr> ns_notes := [] \<rparr>
      else s\<lparr> ns_notes := filter (\<lambda>n. (is_set (ns_activeAccount s) \<and> is_set (note_account n) \<and> note_account n \<noteq> ns_activeAccount s)
                                  \<or> (is_set cluster \<and> Some (note_cluster n) \<noteq> cluster)) (ns_notes s) \<rparr>)"


section \<open>Planning a sweep\<close>

definition DEPOSIT_FEE_BUFFER_STROOPS :: int where "DEPOSIT_FEE_BUFFER_STROOPS = 2000000"
definition MIN_DEPOSIT_STROOPS :: int where "MIN_DEPOSIT_STROOPS = 1000000"
definition STROOPS_PER_XLM :: int where "STROOPS_PER_XLM = 10000000"

definition presetChunkStroops :: "rat list \<Rightarrow> int list" where
  "presetChunkStroops presetsXlm =
     map (\<lambda>xlm. \<lfloor>xlm\<rfloor> * STROOPS_PER_XLM) (sort (filter (\<lambda>v. is_integer v \<and> v > 0) (remdups presetsXlm)))"

record PoolSweepPlan =
  sp_spendableStroops :: int
  sp_minimumBalanceStroops :: int
  sp_chunkStroops :: int
  sp_chunkCount :: int
  sp_totalDepositStroops :: int
  sp_remainderStroops :: int

text \<open>Division of \<open>bigint\<close>s rounds towards zero.\<close>

definition bigint_div :: "int \<Rightarrow> int \<Rightarrow> int" where
  "bigint_div a b = sgn a * sgn b * (\<bar>a\<bar> div \<bar>b\<bar>)"

definition planPoolSweep :: "int \<Rightarrow> int \<Rightarrow> int option \<Rightarrow> PoolSweepPlan" where
  "planPoolSweep spendable minimumBalance chunkOpt =
     (let base = \<lparr> sp_spendableStroops = spendable, sp_minimumBalanceStroops = minimumBalance, sp_chunkStroops = 0, sp_chunkCount = 0,
                   sp_totalDepositStroops = 0, sp_remainderStroops = spendable \<rparr>
      in case chunkOpt of
           None \<Rightarrow>
             (let v = spendable - DEPOSIT_FEE_BUFFER_STROOPS
              in if v < MIN_DEPOSIT_STROOPS then base
                 else base\<lparr> sp_chunkStroops := v, sp_chunkCount := 1, sp_totalDepositStroops := v, sp_remainderStroops := spendable - v \<rparr>)
         | Some chunk \<Rightarrow>
             if chunk < MIN_DEPOSIT_STROOPS then base
             else (let perChunkCost = chunk + DEPOSIT_FEE_BUFFER_STROOPS; chunkCount = bigint_div spendable perChunkCost
                   in if chunkCount < 1 then base
                      else base\<lparr> sp_chunkStroops := chunk, sp_chunkCount := chunkCount, sp_totalDepositStroops := chunkCount * chunk,
                                 sp_remainderStroops := spendable - chunkCount * perChunkCost \<rparr>))"


section \<open>Sweeping\<close>

definition be32 :: "int \<Rightarrow> byte list" where
  "be32 v = beBytes v 32"

record 'w sweep_env =
  se_poolConfig :: "(nat \<times> string) option"
  se_keypair :: "string \<Rightarrow> string res"
  se_fetchNextLeafIndex :: "string \<Rightarrow> ('w, nat) prog"
  se_randomBytes :: "('w, byte list) prog"
  se_poseidon :: poseidon
  se_deposit :: "string \<Rightarrow> int \<Rightarrow> byte list \<Rightarrow> nat \<Rightarrow> ('w, string) prog"
  se_now :: "'w \<Rightarrow> rat"

record chunk_opts =
  ck_from :: string
  ck_value :: int
  ck_scope :: nat
  ck_poolId :: string
  ck_cluster :: string

fun contains :: "string \<Rightarrow> string \<Rightarrow> bool" where
  "contains pat [] = (pat = [])"
| "contains pat (c # s) = (take (length pat) (c # s) = pat \<or> contains pat s)"

definition index_race :: "string \<Rightarrow> bool" where
  "index_race msg \<longleftrightarrow> contains ''indexmismatch'' (to_lower msg) \<or> contains ''contracterror'' (to_lower msg)"

definition chunk_note :: "chunk_opts \<Rightarrow> nat \<Rightarrow> string \<Rightarrow> string \<Rightarrow> int \<Rightarrow> rat \<Rightarrow> WalletNote" where
  "chunk_note opts leafIndex nullifier secret commitment now =
     \<lparr> note_cluster = ck_cluster opts, note_poolId = Some (ck_poolId opts), note_value = dec_of_int (ck_value opts), note_scope = ck_scope opts,
       note_leafIndex = leafIndex, note_nullifier = nullifier, note_secret = secret, note_commitment = toHex32 commitment,
       note_spent = False, note_createdAt = now, note_account = None \<rparr>"

text \<open>One round of the loop of \<open>depositChunk\<close> up to the transaction: the leaf index, the secrets and the commitment.\<close>

definition prepare_chunk :: "'w sweep_env \<Rightarrow> chunk_opts \<Rightarrow> ('w, nat \<times> string \<times> string \<times> int) prog" where
  "prepare_chunk env opts =
     bnd (se_fetchNextLeafIndex env (ck_from opts)) (\<lambda>leafIndex.
     bnd (se_randomBytes env) (\<lambda>r1.
     bnd (se_randomBytes env) (\<lambda>r2.
       let (nullifier, secret) = newNoteSecrets r1 r2
       in bnd (of_res (js_BigInt_str nullifier)) (\<lambda>n.
          bnd (of_res (js_BigInt_str secret)) (\<lambda>s.
            ret (leafIndex, nullifier, secret,
              dd_commitment (deriveDeposit (se_poseidon env) (ck_value opts) (ck_scope opts) leafIndex n s)))))))"

fun deposit_attempts :: "'w sweep_env \<Rightarrow> chunk_opts \<Rightarrow> nat \<Rightarrow> ('w, string \<times> WalletNote) prog" where
  "deposit_attempts env opts 0 = throw (Error ''Pool deposit failed.'')"
| "deposit_attempts env opts (Suc left) =
     bnd (prepare_chunk env opts) (\<lambda>(leafIndex, nullifier, secret, commitment).
       try_catch
         (bnd (se_deposit env (ck_from opts) (ck_value opts) (be32 commitment) leafIndex) (\<lambda>hash.
          bnd (gets (se_now env)) (\<lambda>now.
            ret (hash, chunk_note opts leafIndex nullifier secret commitment now))))
         (\<lambda>err. if \<not> index_race (err_message err) \<or> left = 0 then throw err else deposit_attempts env opts left))"

definition depositChunk :: "'w sweep_env \<Rightarrow> chunk_opts \<Rightarrow> ('w, string \<times> WalletNote) prog" where
  "depositChunk env opts = deposit_attempts env opts 3"

fun sweep_chunks :: "'w sweep_env \<Rightarrow> chunk_opts \<Rightarrow> nat \<Rightarrow> string list \<Rightarrow> (PoolNoteState \<times> 'w, string list) prog" where
  "sweep_chunks env opts 0 hashes = ret hashes"
| "sweep_chunks env opts (Suc n) hashes =
     bnd (on_snd (depositChunk env opts)) (\<lambda>(hash, note).
     bnd (upd (\<lambda>(st, w). (addNote note st, w))) (\<lambda>_.
       sweep_chunks env opts n (hashes @ [hash])))"

record PoolSweepResult =
  sr_hashes :: "string list"
  sr_notesAdded :: int
  sr_totalDepositStroops :: int

definition sweepStealthIntoPool :: "'w sweep_env \<Rightarrow> string \<Rightarrow> string \<Rightarrow> PoolSweepPlan \<Rightarrow> (PoolNoteState \<times> 'w, PoolSweepResult) prog" where
  "sweepStealthIntoPool env stealthPrivKeyHex cluster plan =
     (case se_poolConfig env of
        None \<Rightarrow> throw (Error ''Privacy pool is not deployed on this network.'')
      | Some (scope, pool) \<Rightarrow>
          if sp_chunkCount plan < 1 \<or> sp_chunkStroops plan < MIN_DEPOSIT_STROOPS
          then throw (Error ''Balance is too small to deposit into the pool.'')
          else bnd (of_res (se_keypair env (if take 2 stealthPrivKeyHex = ''0x'' then stealthPrivKeyHex else ''0x'' @ stealthPrivKeyHex))) (\<lambda>from.
               bnd (sweep_chunks env \<lparr> ck_from = from, ck_value = sp_chunkStroops plan, ck_scope = scope, ck_poolId = pool, ck_cluster = cluster \<rparr>
                      (nat (sp_chunkCount plan)) []) (\<lambda>hashes.
                 ret \<lparr> sr_hashes = hashes, sr_notesAdded = sp_chunkCount plan,
                       sr_totalDepositStroops = sp_chunkStroops plan * sp_chunkCount plan \<rparr>)))"

end
