(* ===== verification/Wallet_Notes_Props.thy ===== *)
theory Wallet_Notes_Props
  imports Wallet_Notes
begin

text \<open>
  Properties of the wallet's notes: what an import keeps, that a backup restores, that a planned sweep fits the balance, and that a
  sweep stores the opening of every deposit it makes, also when it fails half-way.
\<close>

section \<open>Import and export\<close>

lemma noteKey_enrich [simp]: "noteKey (enrich acct n) = noteKey n"
  by (simp add: enrich_def noteKey_def)

lemma seed_distinct: "distinct (map noteKey ws) \<Longrightarrow> seed ws = map (\<lambda>n. (noteKey n, n)) ws"
proof (induction ws rule: rev_induct)
  case (snoc n ws)
  then have "noteKey n \<notin> fst ` set (map (\<lambda>n. (noteKey n, n)) ws)" by (auto simp: image_image)
  then have "AList.update (noteKey n) n (map (\<lambda>n. (noteKey n, n)) ws) = map (\<lambda>n. (noteKey n, n)) ws @ [(noteKey n, n)]"
    by (induction ws) auto
  with snoc show ?case by (simp add: seed_def)
qed (simp add: seed_def)

definition keyed :: "(string \<times> WalletNote) list \<Rightarrow> bool" where
  "keyed m \<longleftrightarrow> distinct_keys m \<and> (\<forall>(k, n)\<in>set m. k = noteKey n)"

lemma keyed_map_of: "keyed m \<Longrightarrow> map_of m k = Some n \<longleftrightarrow> n \<in> snd ` set m \<and> k = noteKey n"
  by (force simp: keyed_def)

lemma keyed_update: "keyed m \<Longrightarrow> keyed (AList.update (noteKey n) n m)"
proof -
  have "set (AList.update k v m) \<subseteq> insert (k, v) (set m)" for k v by (induction m) auto
  then show "keyed m \<Longrightarrow> keyed (AList.update (noteKey n) n m)" unfolding keyed_def by (fastforce simp: distinct_update)
qed

lemma import_step_keyed:
  assumes "keyed m" "import_step acct raw (m, c) = (m', c')"
  shows "keyed m'" "fst ` set m' = insert (noteKey raw) (fst ` set m)"
    "map_of m k = Some n \<Longrightarrow> note_spent n \<Longrightarrow> map_of m' k = Some n"
    "ic_spentPreserved c' + ic_imported c' = Suc (ic_spentPreserved c + ic_imported c)"
proof -
  have key: "map_of m (noteKey raw) = Some e \<Longrightarrow> noteKey e = noteKey raw" for e using keyed_map_of [OF assms(1)] by simp
  have upd: "noteKey e = noteKey raw \<Longrightarrow> keyed (AList.update (noteKey raw) e m)" for e using keyed_update [OF assms(1), of e] by simp
  show "keyed m'" using assms key upd [of "enrich acct raw"]
    by (auto simp: import_step_def Let_def intro: upd split: option.splits if_splits)
  show "fst ` set m' = insert (noteKey raw) (fst ` set m)"
    unfolding dom_map_of_conv_image_fst [symmetric] using assms(2)
    by (auto simp: import_step_def Let_def update_conv' split: option.splits if_splits)
  show "map_of m k = Some n \<Longrightarrow> note_spent n \<Longrightarrow> map_of m' k = Some n"
    using assms(2) by (auto simp: import_step_def Let_def split: option.splits if_splits)
  show "ic_spentPreserved c' + ic_imported c' = Suc (ic_spentPreserved c + ic_imported c)"
    using assms(2) by (auto simp: import_step_def Let_def split: option.splits if_splits)
qed

lemma import_fold_keyed:
  assumes "keyed m" "fold (import_step acct) ws (m, c) = (m', c')"
  shows "keyed m' \<and> fst ` set m' = fst ` set m \<union> noteKey ` set ws \<and> (\<forall>k n. map_of m k = Some n \<and> note_spent n \<longrightarrow> map_of m' k = Some n)
    \<and> ic_spentPreserved c' + ic_imported c' = ic_spentPreserved c + ic_imported c + length ws"
  using assms
proof (induction ws arbitrary: m c)
  case (Cons raw ws)
  obtain m1 c1 where step: "import_step acct raw (m, c) = (m1, c1)" by fastforce
  note first = import_step_keyed [OF Cons.prems(1) step]
  from Cons.IH [OF first(1)] Cons.prems(2) step first show ?case by auto
qed simp

lemma keyed_notes: "keyed m \<Longrightarrow> noteKey ` (snd ` set m) = fst ` set m \<and> distinct (map noteKey (map snd m))"
proof -
  assume k: "keyed m"
  then have "map noteKey (map snd m) = map fst m" by (auto simp: keyed_def)
  with k show ?thesis by (metis keyed_def list.set_map)
qed

text \<open>
  An import never reverts a note that is marked as spent here, keeps a note for every leaf the store had, takes a note for
  every leaf of the backup, and accounts for each of them, for a store with one note per leaf.
\<close>

lemma import_keeps_spent_notes:
  assumes "distinct (map noteKey (ns_notes s))" "importNotes ws s = (c, s')"
  shows "(\<forall>n\<in>set (ns_notes s). note_spent n \<longrightarrow> n \<in> set (ns_notes s')) \<and> distinct (map noteKey (ns_notes s'))
    \<and> noteKey ` set (ns_notes s') = noteKey ` set (ns_notes s) \<union> noteKey ` set ws
    \<and> ic_spentPreserved c + ic_imported c = length ws"
proof -
  let ?m = "map (\<lambda>n. (noteKey n, n)) (ns_notes s)"
  have keyed: "keyed ?m" using assms(1) by (auto simp: keyed_def comp_def)
  obtain m' where run: "fold (import_step (ns_activeAccount s)) ws (?m, \<lparr> ic_spentPreserved = 0, ic_imported = 0 \<rparr>) = (m', c)"
    and ws: "ns_notes s' = map snd m'"
    using assms(2) seed_distinct [OF assms(1)] by (auto simp: importNotes_def split: prod.splits)
  note res = import_fold_keyed [OF keyed run]
  have "n \<in> set (ns_notes s')" if "n \<in> set (ns_notes s)" "note_spent n" for n
  proof -
    have "map_of ?m (noteKey n) = Some n" using keyed_map_of [OF keyed] that(1) by (auto simp: image_image)
    with res that(2) have "map_of m' (noteKey n) = Some n" by blast
    then show ?thesis using ws by (auto dest!: map_of_SomeD intro: rev_image_eqI)
  qed
  with res keyed_notes [of m'] ws show ?thesis by (auto simp: image_image)
qed

text \<open>A backup restores: importing what a store exports into an empty store of the same account gives the same notes.\<close>

lemma exported_notes_restore:
  assumes "distinct (map noteKey (ns_notes s))"
  shows "ns_notes (snd (importNotes (exportNotes s) (s\<lparr> ns_notes := [] \<rparr>))) = map (enrich (ns_activeAccount s)) (exportNotes s)"
proof -
  let ?a = "ns_activeAccount s"
  have "fst (fold (import_step ?a) ws (map (\<lambda>n. (noteKey n, n)) before, c)) = map (\<lambda>n. (noteKey n, n)) (before @ map (enrich ?a) ws)"
    if "distinct (map noteKey (before @ ws))" for ws before c
    using that
  proof (induction ws arbitrary: before c)
    case (Cons n ws)
    let ?m = "map (\<lambda>n. (noteKey n, n)) before"
    from Cons.prems have new: "noteKey n \<notin> noteKey ` set before" by auto
    then have "map_of ?m (noteKey n) = None" by (auto simp: map_of_eq_None_iff image_image)
    moreover from new have "AList.update (noteKey n) (enrich ?a n) ?m = map (\<lambda>n. (noteKey n, n)) (before @ [enrich ?a n])"
      by (induction before) auto
    ultimately have "import_step ?a n (?m, c) = (map (\<lambda>n. (noteKey n, n)) (before @ [enrich ?a n]), c\<lparr> ic_imported := ic_imported c + 1 \<rparr>)"
      by (simp add: import_step_def Let_def)
    then show ?case using Cons.IH [of "before @ [enrich ?a n]"] Cons.prems by simp
  qed simp
  from this [of "[]" "exportNotes s" "\<lparr> ic_spentPreserved = 0, ic_imported = 0 \<rparr>"] assms
  have "fst (fold (import_step ?a) (exportNotes s) ([], \<lparr> ic_spentPreserved = 0, ic_imported = 0 \<rparr>)) =
      map (\<lambda>n. (noteKey n, n)) (map (enrich ?a) (exportNotes s))"
    by (simp add: exportNotes_def distinct_map_filter)
  then show ?thesis by (simp add: importNotes_def seed_def case_prod_beta comp_def)
qed


section \<open>The plan fits the balance\<close>

text \<open>
  A planned sweep leaves the fee buffer of each deposit, deposits whole chunks only, is empty when there is no deposit to make, and
  has as many chunks as fit.
\<close>

lemma sweep_plan_fits:
  assumes "p = planPoolSweep spendable minimum chunk"
  shows "sp_totalDepositStroops p = sp_chunkCount p * sp_chunkStroops p \<and> 0 \<le> sp_chunkCount p
    \<and> (0 < sp_chunkCount p \<longrightarrow> MIN_DEPOSIT_STROOPS \<le> sp_chunkStroops p
         \<and> sp_totalDepositStroops p + sp_chunkCount p * DEPOSIT_FEE_BUFFER_STROOPS \<le> spendable)
    \<and> (\<forall>c. chunk = Some c \<and> MIN_DEPOSIT_STROOPS \<le> c \<longrightarrow> spendable < (sp_chunkCount p + 1) * (c + DEPOSIT_FEE_BUFFER_STROOPS))"
proof (cases chunk)
  case None
  then show ?thesis unfolding assms by (auto simp: planPoolSweep_def Let_def)
next
  case (Some c)
  let ?cost = "c + DEPOSIT_FEE_BUFFER_STROOPS" and ?n = "bigint_div spendable (c + DEPOSIT_FEE_BUFFER_STROOPS)"
  have cost: "0 < ?cost" if "MIN_DEPOSIT_STROOPS \<le> c" using that by (simp add: MIN_DEPOSIT_STROOPS_def DEPOSIT_FEE_BUFFER_STROOPS_def)
  have nonneg: "?n = spendable div ?cost" if "MIN_DEPOSIT_STROOPS \<le> c" "0 \<le> spendable"
    using cost [OF that(1)] that by (auto simp: bigint_div_def sgn_if)
  have neg: "?n \<le> 0" if "MIN_DEPOSIT_STROOPS \<le> c" "spendable < 0"
    using cost [OF that(1)] that by (auto simp: bigint_div_def sgn_if pos_imp_zdiv_nonneg_iff)
  have low: "?n * ?cost \<le> spendable" "spendable < (?n + 1) * ?cost" if "MIN_DEPOSIT_STROOPS \<le> c" "0 \<le> spendable"
  proof -
    have "?n * ?cost = spendable - spendable mod ?cost" using nonneg [OF that] by (simp add: minus_mod_eq_div_mult)
    moreover have "(?n + 1) * ?cost = ?n * ?cost + ?cost" by (simp add: distrib_right)
    ultimately show "?n * ?cost \<le> spendable" "spendable < (?n + 1) * ?cost"
      using cost [OF that(1)] pos_mod_bound [of ?cost spendable] pos_mod_sign [of ?cost spendable] by linarith+
  qed
  show ?thesis
  proof (cases "MIN_DEPOSIT_STROOPS \<le> c \<and> 1 \<le> ?n")
    case True
    then have "0 \<le> spendable" using neg by force
    with True low show ?thesis unfolding assms Some by (auto simp: planPoolSweep_def Let_def algebra_simps)
  next
    case False
    have "spendable < ?cost" if "MIN_DEPOSIT_STROOPS \<le> c"
    proof (cases "0 \<le> spendable")
      case True
      then have "?n = 0" using False that nonneg [OF that True] cost [OF that] pos_imp_zdiv_nonneg_iff [of ?cost spendable] by simp
      then show ?thesis using low(2) [OF that True] by simp
    qed (use cost [OF that] in simp)
    with False show ?thesis unfolding assms Some by (auto simp: planPoolSweep_def Let_def)
  qed
qed


section \<open>A sweep loses no note\<close>

text \<open>What the wallet needs of a note to spend a deposit: it opens the commitment.\<close>

definition opens :: "poseidon \<Rightarrow> WalletNote \<Rightarrow> byte list \<Rightarrow> bool" where
  "opens poseidon n c \<longleftrightarrow> (\<exists>v nul sec. js_BigInt_str (note_value n) = Inr v \<and> js_BigInt_str (note_nullifier n) = Inr nul
     \<and> js_BigInt_str (note_secret n) = Inr sec
     \<and> (let cm = dd_commitment (deriveDeposit poseidon v (note_scope n) (note_leafIndex n) nul sec)
        in c = be32 cm \<and> note_commitment n = toHex32 cm))"

text \<open>
  The deposits made are a list of leaf indices and commitments. Reading the index and drawing random bytes leave it alone; a
  deposit that succeeds adds its leaf at a fresh index, as the contract checks, and one that fails adds nothing.
\<close>

definition deposits_law :: "'w sweep_env \<Rightarrow> ('w \<Rightarrow> (nat \<times> byte list) list) \<Rightarrow> bool" where
  "deposits_law env deps \<longleftrightarrow>
     (\<forall>a w r w'. se_fetchNextLeafIndex env a w = (r, w') \<longrightarrow> deps w' = deps w)
     \<and> (\<forall>w r w'. se_randomBytes env w = (r, w') \<longrightarrow> deps w' = deps w)
     \<and> (\<forall>a v c i w h w'. se_deposit env a v c i w = (Inr h, w') \<longrightarrow> deps w' = deps w @ [(i, c)] \<and> i \<notin> fst ` set (deps w))
     \<and> (\<forall>a v c i w e w'. se_deposit env a v c i w = (Inl e, w') \<longrightarrow> deps w' = deps w)"

lemma prepare_chunk_run:
  assumes "deposits_law env deps" "prepare_chunk env opts w = (r, w')"
  shows "deps w' = deps w \<and> (\<forall>i nul sec cm. r = Inr (i, nul, sec, cm) \<longrightarrow>
    (\<exists>n s. js_BigInt_str nul = Inr n \<and> js_BigInt_str sec = Inr s \<and> cm = dd_commitment (deriveDeposit (se_poseidon env) (ck_value opts) (ck_scope opts) i n s)))"
  using assms unfolding prepare_chunk_def deposits_law_def newNoteSecrets_def
  by (auto simp: bnd_iff of_res_iff Let_def) metis+

lemma deposit_attempts_run:
  assumes "deposits_law env deps" "deposit_attempts env opts k w = (r, w')"
  shows "(\<forall>h note. r = Inr (h, note) \<longrightarrow> (\<exists>c. deps w' = deps w @ [(note_leafIndex note, c)] \<and> note_leafIndex note \<notin> fst ` set (deps w)
            \<and> opens (se_poseidon env) note c))
    \<and> (\<forall>e. r = Inl e \<longrightarrow> deps w' = deps w)"
  using assms(2)
proof (induction k arbitrary: w)
  case (Suc k)
  from Suc.prems consider (prep) e where "prepare_chunk env opts w = (Inl e, w')" "r = Inl e"
    | (dep) i nul sec cm w1 where "prepare_chunk env opts w = (Inr (i, nul, sec, cm), w1)"
      "try_catch (bnd (se_deposit env (ck_from opts) (ck_value opts) (be32 cm) i) (\<lambda>hash. bnd (gets (se_now env)) (\<lambda>now.
            ret (hash, chunk_note opts i nul sec cm now))))
         (\<lambda>err. if \<not> index_race (err_message err) \<or> k = 0 then throw err else deposit_attempts env opts k) w1 = (r, w')"
    by (auto simp: bnd_iff)
  then show ?case
  proof cases
    case prep
    with prepare_chunk_run [OF assms(1) prep(1)] show ?thesis by simp
  next
    case dep
    note prep = prepare_chunk_run [OF assms(1) dep(1)]
    from dep(2) consider (ok) h now where "se_deposit env (ck_from opts) (ck_value opts) (be32 cm) i w1 = (Inr h, w')"
        "r = Inr (h, chunk_note opts i nul sec cm now)"
      | (err) e w2 where "se_deposit env (ck_from opts) (ck_value opts) (be32 cm) i w1 = (Inl e, w2)"
        "(if \<not> index_race (err_message e) \<or> k = 0 then throw e else deposit_attempts env opts k) w2 = (r, w')"
      by (auto simp: catch_iff bnd_iff gets_def)
    then show ?thesis
    proof cases
      case ok
      from prep obtain n s where "js_BigInt_str nul = Inr n" "js_BigInt_str sec = Inr s"
        "cm = dd_commitment (deriveDeposit (se_poseidon env) (ck_value opts) (ck_scope opts) i n s)" by auto
      then have "opens (se_poseidon env) (chunk_note opts i nul sec cm now) (be32 cm)" by (simp add: opens_def chunk_note_def Let_def)
      moreover have "deps w' = deps w1 @ [(i, be32 cm)]" "i \<notin> fst ` set (deps w1)" using assms(1) ok(1) unfolding deposits_law_def by blast+
      ultimately show ?thesis using ok(2) prep by (auto simp: chunk_note_def)
    next
      case err
      then have "deps w2 = deps w1" using assms(1) by (simp add: deposits_law_def)
      with err(2) prep Suc.IH [of w2] show ?thesis by (auto split: if_splits)
    qed
  qed
qed auto

definition stored :: "poseidon \<Rightarrow> (nat \<times> byte list) set \<Rightarrow> (nat \<times> byte list) list \<Rightarrow> WalletNote list \<Rightarrow> bool" where
  "stored poseidon old ds ws \<longleftrightarrow> (\<forall>(i, c)\<in>set ds - old. \<exists>n\<in>set ws. note_leafIndex n = i \<and> opens poseidon n c)"

lemma addNote_stored:
  assumes "stored ps old ds (ns_notes st)" "note_leafIndex note \<notin> fst ` set ds" "opens ps note c"
  shows "stored ps old (ds @ [(note_leafIndex note, c)]) (ns_notes (addNote note st))"
  unfolding stored_def
proof (safe, goal_cases)
  case (1 i d)
  show ?case
  proof (cases "(i, d) \<in> set ds")
    case True
    with 1 bspec [OF assms(1) [unfolded stored_def], of "(i, d)"] obtain n
      where n: "n \<in> set (ns_notes st)" "note_leafIndex n = i" "opens ps n d" by auto
    moreover have "i \<noteq> note_leafIndex note" using True assms(2) by force
    ultimately show ?thesis by (auto simp: addNote_def Let_def same_slot_def enrich_def)
  next
    case False
    with 1 have "i = note_leafIndex note" "d = c" by auto
    with assms(3) show ?thesis by (auto simp: addNote_def Let_def enrich_def opens_def)
  qed
qed

lemma sweep_chunks_run:
  assumes "deposits_law env deps" "sweep_chunks env opts n hashes (st, w) = (r, (st', w'))" "stored (se_poseidon env) old (deps w) (ns_notes st)"
  shows "stored (se_poseidon env) old (deps w') (ns_notes st') \<and> (\<forall>hs. r = Inr hs \<longrightarrow> length hs = length hashes + n \<and> length (deps w') = length (deps w) + n)"
  using assms(2,3)
proof (induction n arbitrary: hashes st w)
  case (Suc n)
  from Suc.prems(1) consider (fail) e where "depositChunk env opts w = (Inl e, w')" "st' = st" "r = Inl e"
    | (ok) h nt w1 where "depositChunk env opts w = (Inr (h, nt), w1)" "sweep_chunks env opts n (hashes @ [h]) (addNote nt st, w1) = (r, (st', w'))"
    by (auto simp: bnd_iff on_snd_def upd_def split: prod.splits)
  then show ?case
  proof cases
    case fail
    with deposit_attempts_run [OF assms(1) fail(1) [unfolded depositChunk_def]] Suc.prems(2) show ?thesis by simp
  next
    case ok
    from deposit_attempts_run [OF assms(1) ok(1) [unfolded depositChunk_def]] obtain c where
      c: "deps w1 = deps w @ [(note_leafIndex nt, c)]" "note_leafIndex nt \<notin> fst ` set (deps w)" "opens (se_poseidon env) nt c" by auto
    from Suc.IH [OF ok(2)] addNote_stored [OF Suc.prems(2) c(2,3)] c(1) show ?thesis by simp
  qed
qed auto



section \<open>A sweep of two chunks\<close>

definition example_env :: "(nat \<times> byte list) list sweep_env" where
  "example_env = \<lparr> se_poolConfig = Some (1, ''pool''), se_keypair = Inr, se_fetchNextLeafIndex = (\<lambda>_ w. (Inr (length w), w)),
     se_randomBytes = (\<lambda>w. (Inr [7], w)), se_poseidon = sum_list,
     se_deposit = (\<lambda>_ _ c i w. if i \<in> fst ` set w then (Inl (Error ''IndexMismatch''), w) else (Inr ''hash'', w @ [(i, c)])), se_now = (\<lambda>_. 0) \<rparr>"

definition example_plan :: PoolSweepPlan where
  "example_plan = planPoolSweep 7000000 0 (Some 1000000)"

definition example_sweep :: "PoolSweepResult res \<times> PoolNoteState \<times> (nat \<times> byte list) list" where
  "example_sweep = sweepStealthIntoPool example_env ''ab'' ''testnet'' example_plan (\<lparr> ns_notes = [], ns_activeAccount = None \<rparr>, [])"


end
