(* ===== verification/Http_Server.thy ===== *)
theory Http_Server
  imports Rate_Limit Effects Json Relayer_Payload
begin

text \<open>
  What the publisher's and the relayer's HTTP servers use of Node: a request as the handler sees it,
  a response that can be started once, body reading with a limit, and the shapes of their routes.

  A request carries its method, the path name of its URL, the headers the handlers read, the address
  of the peer and the chunks of its body as they arrive. A response is its header lines set so far
  and, once \<open>writeHead\<close> has run, its status and body: setting a header or starting the
  response a second time throws, as Node does (\<open>ERR_HTTP_HEADERS_SENT\<close>).
  Fixed headers (cross-origin, content type) are left out.
\<close>

record request =
  rq_method :: string
  rq_pathname :: string
  rq_authorization :: "string option"
  rq_forwardedFor :: "string option"
  rq_idempotencyKey :: "string option"
  rq_remoteAddress :: "string option"
  rq_chunks :: "byte list list"

record response =
  rs_headers :: "(string \<times> string) list"
  rs_sent :: "(nat \<times> jv) option"

definition new_response :: response where
  "new_response = \<lparr>rs_headers = [], rs_sent = None\<rparr>"

definition headers_sent :: js_error where
  "headers_sent = Error ''Cannot set headers after they are sent to the client''"

definition res_send :: "nat \<Rightarrow> jv \<Rightarrow> (response, unit) prog" where
  "res_send status body r =
     (case rs_sent r of
        Some _ \<Rightarrow> (Inl headers_sent, r)
      | None \<Rightarrow> (Inr (), r\<lparr>rs_sent := Some (status, body)\<rparr>))"

definition res_setHeader :: "string \<Rightarrow> string \<Rightarrow> (response, unit) prog" where
  "res_setHeader name value r =
     (case rs_sent r of
        Some _ \<Rightarrow> (Inl headers_sent, r)
      | None \<Rightarrow> (Inr (), r\<lparr>rs_headers := AList.update name value (rs_headers r)\<rparr>))"


section \<open>Reading a body\<close>

definition PAYLOAD_TOO_LARGE_CODE :: string where
  "PAYLOAD_TOO_LARGE_CODE = ''PAYLOAD_TOO_LARGE''"

definition new_PayloadTooLargeError :: "nat \<Rightarrow> js_error" where
  "new_PayloadTooLargeError limitBytes =
     PayloadTooLargeError (''request body exceeds the '' @ dec_of_nat limitBytes @ '' byte limit'') limitBytes"

text \<open>The chunks kept so far and the running total; the read stops at the chunk that crosses the limit.\<close>

fun read_chunks :: "nat \<Rightarrow> nat \<Rightarrow> byte list list \<Rightarrow> byte list list \<Rightarrow> byte list list res" where
  "read_chunks maxBytes received kept [] = Inr kept"
| "read_chunks maxBytes received kept (buf # bufs) =
     (let received' = received + length buf
      in if received' > maxBytes then Inl (new_PayloadTooLargeError maxBytes)
         else read_chunks maxBytes received' (kept @ [buf]) bufs)"

lemma read_chunks_eq:
  "read_chunks maxBytes received kept bufs =
     (if bufs = [] \<or> received + length (concat bufs) \<le> maxBytes then Inr (kept @ bufs)
      else Inl (new_PayloadTooLargeError maxBytes))"
  by (induction bufs arbitrary: received kept) (auto simp: Let_def)


section \<open>Routes\<close>

text \<open>\<open>decodeURIComponent\<close> on the ASCII range: an escape of another byte is malformed.\<close>

fun decodeURIComponent :: "string \<Rightarrow> string res" where
  "decodeURIComponent [] = Inr []"
| "decodeURIComponent (c # cs) =
     (if c = CHR ''%''
      then (case cs of
              a # b # rest \<Rightarrow>
                if is_hex a \<and> is_hex b \<and> nat_of_hex [a, b] < 128
                then res_bind (decodeURIComponent rest) (\<lambda>s. Inr (char_of (nat_of_hex [a, b]) # s))
                else Inl (Error ''URI malformed'')
            | _ \<Rightarrow> Inl (Error ''URI malformed''))
      else res_bind (decodeURIComponent cs) (\<lambda>s. Inr (c # s)))"

text \<open>The group of the route pattern: a prefix, one or more characters other than the slash, a suffix.\<close>

definition path_param :: "string \<Rightarrow> string \<Rightarrow> string \<Rightarrow> string option" where
  "path_param pre post path =
     (if starts_with pre path then
        let rest = drop (length pre) path;
            n = length rest - length post
        in if length post < length rest \<and> drop n rest = post \<and> CHR ''/'' \<notin> set (take n rest)
           then Some (take n rest) else None
      else None)"

lemma path_param_Some_iff:
  "path_param pre post path = Some x \<longleftrightarrow> path = pre @ x @ post \<and> x \<noteq> [] \<and> CHR ''/'' \<notin> set x"
proof -
  have split: "drop n rest = post \<Longrightarrow> rest = take n rest @ post" for n rest by (metis append_take_drop_id)
  show ?thesis
  proof (cases "starts_with pre path")
    case True
    then obtain rest where rest: "path = pre @ rest" by (auto simp: starts_with_iff)
    show ?thesis
      using True split [of "length rest - length post" rest] by (auto simp: path_param_def Let_def rest)
  next
    case False
    then show ?thesis by (auto simp: path_param_def starts_with_iff)
  qed
qed

text \<open>\<open>Math.ceil\<close> of a number of milliseconds as seconds.\<close>

definition ceil_seconds :: "rat \<Rightarrow> int" where
  "ceil_seconds ms = \<lceil>ms / 1000\<rceil>"

end
