(* ===== verification/Relayer_Http.thy ===== *)
theory Relayer_Http
  imports Http_Server Relayer_Messages Relayer_Chain
begin

text \<open>
  The relayer's HTTP server, \<^verbatim>\<open>relayer/src/http.ts\<close>, which a hub and a node both put in front of their
  operations. The server knows its back end by an interface, here the record \<open>RelayerHttpBackend\<close> of programs over the
  state of the back end; what a back end answers is a JSON value. Serving a request reads and writes that state, the two rate
  limiters and the response. The frames that an open gossip stream writes later are the text \<open>sse_frame\<close>.
\<close>

definition GOSSIP_TOPIC :: string where
  "GOSSIP_TOPIC = ''opaque/stellar/jobs/v1''"

record 'b RelayerHttpBackend =
  rb_stats :: "'b \<Rightarrow> jv"
  rb_bidsFor :: "string \<Rightarrow> 'b \<Rightarrow> jv list"
  rb_handleAdvert :: "JobAdvert \<Rightarrow> ('b, jv) prog"
  rb_handlePayload :: "EncryptedPayload \<Rightarrow> ('b, jv) prog"
  rb_publishGossipMessage :: "(RelayerMessage \<Rightarrow> ('b, unit) prog) option"
  rb_subscribeGossip :: "('b, unit) prog option"
  rb_healthCheck :: "('b, jv) prog option"
  rb_reconciler :: "(('b \<Rightarrow> jv option) \<times> ('b, jv) prog) option"
  rb_scoreFor :: "(string \<Rightarrow> ('b, jv) prog) option"
  rb_allScores :: "('b, jv) prog option"
  rb_runtime :: "'b js_runtime"
  rb_lib :: stellar_lib
  rb_maxBodyBytes :: "rat option"
  rb_trustedProxies :: "string list"

record 'b relayer_http =
  rh_backend :: 'b
  rh_limiter :: RateLimiter
  rh_global :: RateLimiter
  rh_res :: response

definition on_backend :: "('b, 'a) prog \<Rightarrow> ('b relayer_http, 'a) prog" where
  "on_backend m = on_part rh_backend (\<lambda>b s. s\<lparr>rh_backend := b\<rparr>) m"

definition answer :: "nat \<Rightarrow> jv \<Rightarrow> ('b relayer_http, unit) prog" where
  "answer status body = on_part rh_res (\<lambda>r s. s\<lparr>rh_res := r\<rparr>) (res_send status body)"

definition error_body :: "string \<Rightarrow> jv" where
  "error_body msg = JObj [(''error'', JStr msg)]"


section \<open>Reading a body\<close>

text \<open>The limit is a number from the environment; one that does not parse is \<open>NaN\<close>, which no total exceeds.\<close>

definition RELAYER_DEFAULT_MAX_BODY_BYTES :: rat where "RELAYER_DEFAULT_MAX_BODY_BYTES = 64 * 1024"

definition MAX_BODY_BYTES :: "process_env \<Rightarrow> rat option" where
  "MAX_BODY_BYTES env =
     (case env ''RELAYER_MAX_BODY_BYTES'' of None \<Rightarrow> Some RELAYER_DEFAULT_MAX_BODY_BYTES | Some v \<Rightarrow> js_Number_str v)"

definition body_too_large :: "rat \<Rightarrow> js_error" where
  "body_too_large limitBytes =
     PayloadTooLargeError (''request body exceeds the '' @ js_num_String limitBytes @ '' byte limit'') (nat \<lfloor>limitBytes\<rfloor>)"

fun collect_chunks :: "rat option \<Rightarrow> nat \<Rightarrow> byte list list \<Rightarrow> byte list list \<Rightarrow> byte list list res" where
  "collect_chunks limit received chunks [] = Inr chunks"
| "collect_chunks limit received chunks (buf # bufs) =
     (let received' = received + length buf
      in case limit of
           Some m \<Rightarrow> if rat_of_nat received' > m then Inl (body_too_large m) else collect_chunks limit received' (chunks @ [buf]) bufs
         | None \<Rightarrow> collect_chunks limit received' (chunks @ [buf]) bufs)"

definition readJson :: "rat option \<Rightarrow> request \<Rightarrow> jv res" where
  "readJson limit req =
     res_bind (collect_chunks limit 0 [] (rq_chunks req)) (\<lambda>chunks.
       if length chunks = 0 then Inr (JObj []) else json_parse (text_decode (concat chunks)))"

definition readGossipEnvelope :: "jv \<Rightarrow> RelayerMessage res" where
  "readGossipEnvelope value =
     (if jv_get value ''topic'' \<noteq> JStr GOSSIP_TOPIC then Inl (Error ''Invalid gossip topic.'')
      else validateRelayerMessage (jv_get value ''message''))"


section \<open>Rate limits\<close>

definition applyRateLimitHeaders :: "RateLimitResult \<Rightarrow> (response, unit) prog" where
  "applyRateLimitHeaders rl =
     bnd (res_setHeader ''X-RateLimit-Limit'' (js_num_String (rl_limit rl))) (\<lambda>_.
     bnd (res_setHeader ''X-RateLimit-Remaining'' (dec_of_int (rl_remaining rl))) (\<lambda>_.
     res_setHeader ''X-RateLimit-Reset'' (dec_of_int (ceil_seconds (rl_resetMs rl)))))"

definition rejectRateLimited :: "int \<Rightarrow> RateLimitResult \<Rightarrow> (response, unit) prog" where
  "rejectRateLimited now rl =
     (let retryAfter = max 0 (ceil_seconds (rl_resetMs rl - of_int now)) in
      bnd (res_setHeader ''Retry-After'' (dec_of_int retryAfter)) (\<lambda>_.
      res_send 429 (JObj [(''ok'', JBool False), (''error'', JStr ''rate limit exceeded''),
        (''retryAfterSeconds'', JNum (of_int retryAfter))])))"

datatype layer = GlobalLayer | WriteLayer

definition consume_layer :: "layer \<Rightarrow> string \<Rightarrow> int \<Rightarrow> ('b relayer_http, RateLimitResult) prog" where
  "consume_layer layer source now s =
     (case layer of
        GlobalLayer \<Rightarrow> (case consume source now (rh_global s) of (rl, l) \<Rightarrow> (Inr rl, s\<lparr>rh_global := l\<rparr>))
      | WriteLayer \<Rightarrow> (case consume source now (rh_limiter s) of (rl, l) \<Rightarrow> (Inr rl, s\<lparr>rh_limiter := l\<rparr>)))"

text \<open>One layer of \<open>rateLimited\<close>: true if the request was rejected. Every call in the source names one layer.\<close>

definition rateLimited :: "'b RelayerHttpBackend \<Rightarrow> request \<Rightarrow> layer \<Rightarrow> ('b relayer_http, bool) prog" where
  "rateLimited B req layer =
     (let source = resolveClientSource (rq_remoteAddress req) (rq_forwardedFor req) (rb_trustedProxies B) in
      bnd (on_backend (date_now (rb_runtime B))) (\<lambda>now.
      bnd (consume_layer layer source now) (\<lambda>rl.
      bnd (on_part rh_res (\<lambda>r s. s\<lparr>rh_res := r\<rparr>) (applyRateLimitHeaders rl)) (\<lambda>_.
        if rl_allowed rl then ret False
        else bnd (on_backend (date_now (rb_runtime B))) (\<lambda>now'.
             bnd (on_part rh_res (\<lambda>r s. s\<lparr>rh_res := r\<rparr>) (rejectRateLimited now' rl)) (\<lambda>_. ret True))))))"

definition unless_limited :: "'b RelayerHttpBackend \<Rightarrow> request \<Rightarrow> layer \<Rightarrow> ('b relayer_http, unit) prog \<Rightarrow> ('b relayer_http, unit) prog" where
  "unless_limited B req layer m = bnd (rateLimited B req layer) (\<lambda>rejected. if rejected then ret () else m)"


section \<open>Routes\<close>

text \<open>The comment line that opens a stream, and the frame written for each message.\<close>

definition nl :: char where "nl = CHR 0x0A"

definition sse_open :: string where
  "sse_open = '': '' @ GOSSIP_TOPIC @ [nl, nl]"

definition sse_frame :: "jv \<Rightarrow> string" where
  "sse_frame message =
     ''data: '' @ json_stringify (JObj [(''topic'', JStr GOSSIP_TOPIC), (''message'', message)]) @ [nl, nl]"

definition get_stream :: "'b RelayerHttpBackend \<Rightarrow> ('b relayer_http, unit) prog" where
  "get_stream B =
     (case rb_subscribeGossip B of
        None \<Rightarrow> answer 404 (error_body ''gossip unavailable'')
      | Some subscribe \<Rightarrow> bnd (answer 200 (JStr sse_open)) (\<lambda>_. on_backend subscribe))"

definition unauthentic :: "stellar_lib \<Rightarrow> RelayerMessage \<Rightarrow> string option" where
  "unauthentic L message =
     (case message of
        MOutcome out \<Rightarrow> if verifyOutcome L out then None else Some ''invalid outcome signature''
      | MHeartbeat h \<Rightarrow> if verifyHeartbeat L h then None else Some ''invalid heartbeat signature''
      | _ \<Rightarrow> None)"

definition post_gossip :: "'b RelayerHttpBackend \<Rightarrow> request \<Rightarrow> ('b relayer_http, unit) prog" where
  "post_gossip B req =
     unless_limited B req WriteLayer
       (case rb_publishGossipMessage B of
          None \<Rightarrow> answer 404 (error_body ''gossip unavailable'')
        | Some publish \<Rightarrow>
            bnd (of_res (res_bind (readJson (rb_maxBodyBytes B) req) readGossipEnvelope)) (\<lambda>message.
              case unauthentic (rb_lib B) message of
                Some why \<Rightarrow> answer 401 (error_body why)
              | None \<Rightarrow> bnd (on_backend (publish message)) (\<lambda>_. answer 202 (JObj [(''ok'', JBool True)]))))"

definition post_job :: "'b RelayerHttpBackend \<Rightarrow> request \<Rightarrow> ('b relayer_http, unit) prog" where
  "post_job B req =
     unless_limited B req WriteLayer
       (bnd (of_res (res_bind (readJson (rb_maxBodyBytes B) req) validateAdvert)) (\<lambda>advert.
        bnd (on_backend (rb_handleAdvert B advert)) (\<lambda>bid.
        answer 202 (JObj [(''ok'', JBool True), (''bid'', bid)]))))"

definition get_bids :: "'b RelayerHttpBackend \<Rightarrow> string \<Rightarrow> ('b relayer_http, unit) prog" where
  "get_bids B raw =
     bnd (of_res (decodeURIComponent raw)) (\<lambda>jobId.
     bnd (gets (\<lambda>s. rb_bidsFor B jobId (rh_backend s))) (\<lambda>bids. answer 200 (JObj [(''bids'', JArr bids)])))"

definition keyed_payload :: "request \<Rightarrow> EncryptedPayload \<Rightarrow> EncryptedPayload" where
  "keyed_payload req p =
     (case rq_idempotencyKey req of
        None \<Rightarrow> p | Some k \<Rightarrow> if k = [] then p else p\<lparr>enc_idempotencyKey := JStr k\<rparr>)"

definition post_payload :: "'b RelayerHttpBackend \<Rightarrow> request \<Rightarrow> string \<Rightarrow> ('b relayer_http, unit) prog" where
  "post_payload B req raw =
     unless_limited B req WriteLayer
       (bnd (of_res (res_bind (readJson (rb_maxBodyBytes B) req) validatePayload)) (\<lambda>posted.
        let payload = keyed_payload req posted in
        bnd (of_res (decodeURIComponent raw)) (\<lambda>jobId.
          if to_lower (enc_jobId payload) \<noteq> to_lower jobId then answer 400 (error_body ''jobId mismatch'')
          else bnd (on_backend (rb_handlePayload B payload)) (\<lambda>result.
               answer 202 (JObj [(''ok'', JBool True), (''result'', result)])))))"

definition get_scores :: "'b RelayerHttpBackend \<Rightarrow> ('b relayer_http, unit) prog" where
  "get_scores B =
     (case rb_allScores B of
        None \<Rightarrow> answer 404 (error_body ''scoring unavailable'')
      | Some scores \<Rightarrow> bnd (on_backend scores) (\<lambda>v. answer 200 (JObj [(''scores'', v)])))"

definition get_score :: "'b RelayerHttpBackend \<Rightarrow> string \<Rightarrow> ('b relayer_http, unit) prog" where
  "get_score B raw =
     (case rb_scoreFor B of
        None \<Rightarrow> answer 404 (error_body ''scoring unavailable'')
      | Some score \<Rightarrow>
          bnd (of_res (decodeURIComponent raw)) (\<lambda>operator.
          bnd (on_backend (score operator)) (\<lambda>v. answer 200 (JObj [(''score'', v)]))))"

definition relayer_health :: "'b RelayerHttpBackend \<Rightarrow> ('b relayer_http, unit) prog" where
  "relayer_health B =
     (case rb_healthCheck B of
        Some health \<Rightarrow> bnd (on_backend health) (\<lambda>v. answer 200 v)
      | None \<Rightarrow> bnd (gets (\<lambda>s. rb_stats B (rh_backend s))) (\<lambda>stats. answer 200 (JObj [(''ok'', JBool True), (''stats'', stats)])))"

definition bearer :: "request \<Rightarrow> bool" where
  "bearer req = (case rq_authorization req of None \<Rightarrow> False | Some h \<Rightarrow> starts_with ''Bearer '' h)"

definition get_reconcile :: "'b RelayerHttpBackend \<Rightarrow> request \<Rightarrow> ('b relayer_http, unit) prog" where
  "get_reconcile B req =
     (if \<not> bearer req then answer 401 (error_body ''authentication required'')
      else unless_limited B req WriteLayer
        (case rb_reconciler B of
           None \<Rightarrow> answer 404 (error_body ''reconciler not configured'')
         | Some (lastReport, _) \<Rightarrow>
             bnd (gets (\<lambda>s. lastReport (rh_backend s))) (\<lambda>last.
               case last of None \<Rightarrow> answer 204 (JObj []) | Some v \<Rightarrow> answer 200 v)))"

definition post_reconcile :: "'b RelayerHttpBackend \<Rightarrow> request \<Rightarrow> ('b relayer_http, unit) prog" where
  "post_reconcile B req =
     (if \<not> bearer req then answer 401 (error_body ''authentication required'')
      else unless_limited B req WriteLayer
        (case rb_reconciler B of
           None \<Rightarrow> answer 404 (error_body ''reconciler not configured'')
         | Some (_, run) \<Rightarrow> bnd (on_backend run) (\<lambda>v. answer 200 v)))"

definition relayer_route :: "'b RelayerHttpBackend \<Rightarrow> request \<Rightarrow> ('b relayer_http, unit) prog" where
  "relayer_route B req =
     (let path = rq_pathname req; isGet = rq_method req = ''GET''; isPost = rq_method req = ''POST'' in
      if rq_method req = ''OPTIONS'' then answer 204 (JObj [])
      else unless_limited B req GlobalLayer (
        if isGet \<and> path = ''/v1/gossip/stream'' then get_stream B
        else if isPost \<and> path = ''/v1/gossip/messages'' then post_gossip B req
        else if isPost \<and> path = ''/v1/jobs'' then post_job B req
        else if isGet \<and> path_param ''/v1/jobs/'' ''/bids'' path \<noteq> None then get_bids B (the (path_param ''/v1/jobs/'' ''/bids'' path))
        else if isPost \<and> path_param ''/v1/jobs/'' ''/payload'' path \<noteq> None
        then post_payload B req (the (path_param ''/v1/jobs/'' ''/payload'' path))
        else if isGet \<and> path = ''/v1/relayers/scores'' then get_scores B
        else if isGet \<and> path_param ''/v1/relayers/'' ''/score'' path \<noteq> None
        then get_score B (the (path_param ''/v1/relayers/'' ''/score'' path))
        else if isGet \<and> path = ''/health'' then relayer_health B
        else if isGet \<and> path = ''/v1/reconcile'' then get_reconcile B req
        else if isPost \<and> path = ''/v1/reconcile'' then post_reconcile B req
        else answer 404 (error_body ''not found'')))"

text \<open>The handler: an error is answered by its kind; an error while answering rejects the handler.\<close>

definition answer_error :: "js_error \<Rightarrow> ('b relayer_http, unit) prog" where
  "answer_error err =
     (case err of
        PayloadTooLargeError m _ \<Rightarrow> answer 413 (JObj [(''error'', JStr m), (''code'', JStr PAYLOAD_TOO_LARGE_CODE)])
      | _ \<Rightarrow> answer 400 (JObj [(''error'', JStr ''Bad request''), (''code'', JStr ''BAD_REQUEST'')]))"

definition serve_request :: "'b RelayerHttpBackend \<Rightarrow> request \<Rightarrow> ('b relayer_http, unit) prog" where
  "serve_request B req = try_catch (relayer_route B req) answer_error"

text \<open>A request as the server meets it, with a fresh response.\<close>

definition serve :: "'b RelayerHttpBackend \<Rightarrow> request \<Rightarrow> 'b relayer_http \<Rightarrow> unit res \<times> 'b relayer_http" where
  "serve B req s = serve_request B req (s\<lparr>rh_res := new_response\<rparr>)"

end
