(* ===== verification/Relayer_Gossip.thy ===== *)
theory Relayer_Gossip
  imports Relayer_Http Relayer_Hub Sdk_Gateway
begin

text \<open>
  The gossip transports of the relayer network, \<^verbatim>\<open>relayer/src/gossip.ts\<close>, and the hub behind its server, as
  \<^verbatim>\<open>relayer/scripts/hub.ts\<close> wires them. A handler that was subscribed is known by a number; what it does with a message
  is an argument. Requests use the model of \<open>fetch\<close> of the gateway client; an event stream is the list of byte chunks
  that arrive, with the error that cuts it off, if one does.
\<close>

section \<open>In memory\<close>

record MemoryGossipTransport =
  mg_handlers :: "nat list"

definition mem_publish :: "(nat \<Rightarrow> jv \<Rightarrow> ('s, unit) prog) \<Rightarrow> MemoryGossipTransport \<Rightarrow> jv \<Rightarrow> ('s, unit) prog" where
  "mem_publish handle G message = run_handlers (map (\<lambda>i. handle i message) (mg_handlers G))"

definition mem_subscribe :: "nat \<Rightarrow> MemoryGossipTransport \<Rightarrow> MemoryGossipTransport" where
  "mem_subscribe i G = G\<lparr>mg_handlers := set_add i (mg_handlers G)\<rparr>"

definition mem_close :: "MemoryGossipTransport \<Rightarrow> MemoryGossipTransport" where
  "mem_close G = G\<lparr>mg_handlers := []\<rparr>"


section \<open>Over HTTP\<close>

record HttpGossipTransport =
  hg_gateway :: string
  hg_topic :: string
  hg_handlers :: "nat list"
  hg_aborted :: "bool option"
  hg_ready :: bool

definition new_HttpGossipTransport :: "string \<Rightarrow> HttpGossipTransport" where
  "new_HttpGossipTransport gateway =
     \<lparr>hg_gateway = gateway, hg_topic = GOSSIP_TOPIC, hg_handlers = [], hg_aborted = None, hg_ready = False\<rparr>"

definition gatewayUrl :: "'w gateway_net \<Rightarrow> string \<Rightarrow> string \<Rightarrow> string res" where
  "gatewayUrl N path base = gn_url N path (if ends_with_slash base then base else base @ ''/'')"

definition no_signal :: "'w combined_signal" where
  "no_signal = \<lparr>cs_caller = None, cs_timeoutMs = 0, cs_native = True\<rparr>"

definition gossip_envelope :: "string \<Rightarrow> jv \<Rightarrow> jv" where
  "gossip_envelope topic message = JObj [(''topic'', JStr topic), (''message'', message)]"

definition http_publish :: "'w gateway_net \<Rightarrow> HttpGossipTransport \<Rightarrow> jv \<Rightarrow> ('w, unit) prog" where
  "http_publish N G message =
     bnd (of_res (gatewayUrl N ''v1/gossip/messages'' (hg_gateway G))) (\<lambda>target.
     bnd (gn_fetch N target
            \<lparr>fi_method = ''POST'', fi_headers = json_headers, fi_body = Some (json_stringify (gossip_envelope (hg_topic G) message))\<rparr> no_signal)
       (\<lambda>res. if 200 \<le> ha_status res \<and> ha_status res \<le> 299 then ret ()
              else throw (Error (''Gossip publish failed ('' @ dec_of_nat (ha_status res) @ '').''))))"

definition http_subscribe :: "nat \<Rightarrow> HttpGossipTransport \<Rightarrow> HttpGossipTransport" where
  "http_subscribe i G =
     (let G' = G\<lparr>hg_handlers := set_add i (hg_handlers G)\<rparr> in
      if hg_ready G' then G' else G'\<lparr>hg_aborted := Some False, hg_ready := True\<rparr>)"

text \<open>\<open>close\<close> aborts the controller, which a running loop still holds, and forgets it.\<close>

definition http_close :: "HttpGossipTransport \<Rightarrow> HttpGossipTransport" where
  "http_close G = G\<lparr>hg_aborted := None, hg_ready := False, hg_handlers := []\<rparr>"


section \<open>Event streams\<close>

fun lines_of :: "string \<Rightarrow> string list" where
  "lines_of [] = [[]]"
| "lines_of (c # cs) = (if c = nl then [] # lines_of cs else (case lines_of cs of [] \<Rightarrow> [[c]] | x # xs \<Rightarrow> (c # x) # xs))"

fun join_lines :: "string list \<Rightarrow> string" where
  "join_lines [] = []"
| "join_lines [l] = l"
| "join_lines (l # ls) = l @ nl # join_lines ls"

definition frame_data :: "string \<Rightarrow> string" where
  "frame_data frame = join_lines (map (\<lambda>l. dropWhile is_ws (drop 5 l)) (filter (starts_with ''data:'') (lines_of frame)))"

definition handleSseFrame :: "(nat \<Rightarrow> jv \<Rightarrow> ('s, unit) prog) \<Rightarrow> string \<Rightarrow> nat list \<Rightarrow> string \<Rightarrow> ('s, unit) prog" where
  "handleSseFrame handle topic handlers frame =
     (let data = frame_data frame in
      if data = [] then ret ()
      else bnd (of_res (json_parse data)) (\<lambda>envelope.
           bnd (of_res (body_field envelope ''topic'')) (\<lambda>t.
             if t \<noteq> JStr topic then ret ()
             else run_handlers (map (\<lambda>i. handle i (jv_get envelope ''message'')) handlers))))"

text \<open>\<open>buf.indexOf\<close> of the empty line that ends a frame: the frame and what follows it.\<close>

fun split_frame :: "string \<Rightarrow> (string \<times> string) option" where
  "split_frame (a # b # cs) =
     (if a = nl \<and> b = nl then Some ([], cs)
      else (case split_frame (b # cs) of None \<Rightarrow> None | Some (f, rest) \<Rightarrow> Some (a # f, rest)))"
| "split_frame _ = None"

lemma split_frame_shorter: "split_frame s = Some (f, rest) \<Longrightarrow> length rest < length s"
  by (induction s arbitrary: f rest rule: split_frame.induct) (auto split: if_splits option.splits)

text \<open>The inner loop over the complete frames of the buffer; the result is what stays in it.\<close>

function drain :: "(string \<Rightarrow> ('s, unit) prog) \<Rightarrow> string \<Rightarrow> ('s, string) prog" where
  "drain on_frame buf =
     (case split_frame buf of
        None \<Rightarrow> ret buf
      | Some (frame, rest) \<Rightarrow> bnd (on_frame frame) (\<lambda>_. drain on_frame rest))"
  by pat_completeness auto
termination
  by (relation "measure (length \<circ> snd)") (auto dest: split_frame_shorter)

declare drain.simps [simp del]

text \<open>The outer loop over the chunks of the stream; \<open>aborted\<close> reads the signal.\<close>

fun readSse :: "('s \<Rightarrow> bool) \<Rightarrow> (string \<Rightarrow> ('s, unit) prog) \<Rightarrow> js_error option \<Rightarrow> byte list list \<Rightarrow> string \<Rightarrow> ('s, unit) prog" where
  "readSse aborted on_frame broken [] buf w =
     (if aborted w then (Inr (), w) else case broken of None \<Rightarrow> (Inr (), w) | Some e \<Rightarrow> (Inl e, w))"
| "readSse aborted on_frame broken (chunk # chunks) buf w =
     (if aborted w then (Inr (), w)
      else bnd (drain on_frame (buf @ text_decode chunk)) (readSse aborted on_frame broken chunks) w)"

text \<open>
  The reconnecting loop, by the number of connections it is followed for: each connection is what \<open>fetch\<close> of the stream
  gives, an error or a status with the chunks of a body.
\<close>

record stream_answer =
  sa_status :: nat
  sa_chunks :: "byte list list"
  sa_broken :: "js_error option"

fun streamUntilClosed ::
  "'s js_runtime \<Rightarrow> ('s \<Rightarrow> bool) \<Rightarrow> (string \<Rightarrow> ('s, unit) prog) \<Rightarrow> ('s, stream_answer) prog \<Rightarrow> nat \<Rightarrow> ('s, unit) prog" where
  "streamUntilClosed R aborted on_frame connect 0 = ret ()"
| "streamUntilClosed R aborted on_frame connect (Suc n) =
     (\<lambda>w. if aborted w then (Inr (), w)
      else bnd (try_catch
            (bnd (bnd connect (\<lambda>res.
               if 200 \<le> sa_status res \<and> sa_status res \<le> 299
               then readSse aborted on_frame (sa_broken res) (sa_chunks res) []
               else throw (Error (''Gossip stream failed ('' @ dec_of_nat (sa_status res) @ '').'')))) (\<lambda>_. ret True))
            (\<lambda>err w. if aborted w then (Inr False, w) else bnd (sleep_ms R 1000) (\<lambda>_. ret True) w))
          (\<lambda>again. if again then streamUntilClosed R aborted on_frame connect n else ret ()) w)"


section \<open>The hub behind its server\<close>

definition payload_json :: "EncryptedPayload \<Rightarrow> jv" where
  "payload_json p = JObj [(''t'', JStr ''payload''), (''v'', JNum 1), (''jobId'', JStr (enc_jobId p)), (''to'', JStr (enc_to p)),
     (''box'', JStr (enc_box p)), (''idempotencyKey'', enc_idempotencyKey p)]"

definition result_name :: "outcome_result \<Rightarrow> string" where
  "result_name r = (case r of Completed \<Rightarrow> ''completed'' | Failed \<Rightarrow> ''failed'')"

definition outcome_json :: "RelayerOutcome \<Rightarrow> jv" where
  "outcome_json x = JObj [(''t'', JStr ''outcome''), (''v'', JNum 1), (''jobId'', JStr (out_jobId x)), (''operator'', JStr (out_operator x)),
     (''result'', JStr (result_name (out_result x))), (''sig'', JStr (out_sig x)), (''timestamp'', JNum (out_timestamp x))]"

definition heartbeat_json :: "RelayerHeartbeat \<Rightarrow> jv" where
  "heartbeat_json h = JObj [(''t'', JStr ''heartbeat''), (''v'', JNum 1), (''operator'', JStr (hb_operator h)), (''sig'', JStr (hb_sig h)),
     (''timestamp'', JNum (hb_timestamp h))]"

fun message_json :: "RelayerMessage \<Rightarrow> jv" where
  "message_json (MAdvert a) = advert_json a"
| "message_json (MBid b) = bid_json b"
| "message_json (MPayload p) = payload_json p"
| "message_json (MOutcome x) = outcome_json x"
| "message_json (MHeartbeat h) = heartbeat_json h"

definition score_json :: "RelayerScore \<Rightarrow> jv" where
  "score_json r = JObj [(''operator'', JStr (rs_operator r)), (''score'', JNum (rs_score r)), (''completed'', JNum (of_nat (rs_completed r))),
     (''failed'', JNum (of_nat (rs_failed r))), (''windowMs'', JNum (of_int (rs_windowMs r)))]"

definition stats_json :: "RelayerHubStats \<Rightarrow> jv" where
  "stats_json st = JObj [(''advertsSeen'', JNum (of_int (hs_advertsSeen st))), (''bidsSeen'', JNum (of_int (hs_bidsSeen st))),
     (''payloadsSeen'', JNum (of_int (hs_payloadsSeen st))), (''outcomesSeen'', JNum (of_int (hs_outcomesSeen st))),
     (''heartbeatsSeen'', JNum (of_int (hs_heartbeatsSeen st))),
     (''lastError'', case hs_lastError st of None \<Rightarrow> JUndef | Some e \<Rightarrow> JStr e)]"

text \<open>The hub subscribes to its own in-memory transport when it starts, so publishing hands a message to its handler.\<close>

definition hub_post :: "'w hub_config \<Rightarrow> RelayerMessage \<Rightarrow> ('w, unit) hub_prog" where
  "hub_post cfg m =
     bnd (hub_start cfg) (\<lambda>_.
     bnd (of_res (validateRelayerMessage (message_json m))) (\<lambda>valid.
     mem_publish (\<lambda>_. hub_on_message cfg) \<lparr>mg_handlers = [0]\<rparr> (message_json valid)))"

definition hub_backend :: "'w hub_config \<Rightarrow> stellar_lib \<Rightarrow> rat option \<Rightarrow> string list \<Rightarrow> (RelayerHub \<times> 'w) RelayerHttpBackend" where
  "hub_backend cfg L maxBody proxies =
     \<lparr>rb_stats = (\<lambda>s. stats_json (h_stats (fst s))),
      rb_bidsFor = (\<lambda>jobId s. map (bid_json \<circ> fst) (hub_bidsFor jobId (fst s))),
      rb_handleAdvert = (\<lambda>a. bnd (hub_post cfg (MAdvert a)) (\<lambda>_. ret JNull)),
      rb_handlePayload = (\<lambda>p. bnd (hub_post cfg (MPayload p)) (\<lambda>_. ret JNull)),
      rb_publishGossipMessage = Some (hub_post cfg),
      rb_subscribeGossip = Some (upd (\<lambda>s. (subscribeGossip (Suc (foldr max (h_subscribers (fst s)) 0)) (fst s), snd s))),
      rb_healthCheck = Some (bnd (hub_healthCheck cfg) (\<lambda>(ok, uptime, st).
        ret (JObj [(''ok'', JBool ok), (''uptime'', JNum (of_int uptime)), (''stats'', stats_json st)]))),
      rb_reconciler = None,
      rb_scoreFor = Some (\<lambda>operator. bnd (scoreFor cfg operator) (\<lambda>r. ret (score_json r))),
      rb_allScores = Some (bnd (allScores cfg) (\<lambda>rs. ret (JArr (map score_json rs)))),
      rb_runtime = \<lparr>rt_now = (\<lambda>s. let (t, w) = rt_now (hc_runtime cfg) (snd s) in (t, (fst s, w))),
                    rt_random = (\<lambda>s. let (r, w) = rt_random (hc_runtime cfg) (snd s) in (r, (fst s, w))),
                    rt_sleep = (\<lambda>ms s. (fst s, rt_sleep (hc_runtime cfg) ms (snd s)))\<rparr>,
      rb_lib = L, rb_maxBodyBytes = maxBody, rb_trustedProxies = proxies\<rparr>"

end
