(* ===== verification/Relayer_Http_Props.thy ===== *)
theory Relayer_Http_Props
  imports Relayer_Http Relayer_Hub_Props
begin

text \<open>
  Properties of the relayer's HTTP server. Every request is answered exactly once. What reaches a back end has been
  validated and, where it is signed, authenticated: stated as a locale of what a back end must keep under checked messages,
  and interpreted on the hub behind the server, as \<^verbatim>\<open>relayer/scripts/hub.ts\<close> puts them together. Hence the scores of
  a hub rest on signed outcomes only.
\<close>

section \<open>Answers\<close>

definition fresh :: "'b relayer_http \<Rightarrow> bool" where
  "fresh s \<longleftrightarrow> rs_sent (rh_res s) = None"

definition answered :: "'b relayer_http \<Rightarrow> bool" where
  "answered s \<longleftrightarrow> (\<exists>status body. rs_sent (rh_res s) = Some (status, body) \<and> status \<in> {200, 202, 204, 400, 401, 404, 413, 429})"

lemma fresh_backend [simp]: "fresh (s\<lparr>rh_backend := b\<rparr>) = fresh s" "fresh (s\<lparr>rh_limiter := l\<rparr>) = fresh s" "fresh (s\<lparr>rh_global := l\<rparr>) = fresh s"
  by (simp_all add: fresh_def)

lemma answered_backend [simp]: "answered (s\<lparr>rh_backend := b\<rparr>) = answered s"
  by (simp add: answered_def)

lemma wp_on_backend:
  "wp (on_backend m) Q E s = wp m (\<lambda>x b. Q x (s\<lparr>rh_backend := b\<rparr>)) (\<lambda>e b. E e (s\<lparr>rh_backend := b\<rparr>)) (rh_backend s)"
  by (simp add: on_backend_def)

lemma wp_on_backend_any:
  "(\<And>x b. Q x (s\<lparr>rh_backend := b\<rparr>)) \<Longrightarrow> (\<And>e b. E e (s\<lparr>rh_backend := b\<rparr>)) \<Longrightarrow> wp (on_backend m) Q E s"
  unfolding wp_on_backend by (simp add: wp_def split: prod.splits sum.splits)

text \<open>A final answer: the response was not started before, and is afterwards.\<close>

lemma wp_answer:
  "fresh s \<Longrightarrow> status \<in> {200, 202, 204, 400, 401, 404, 413, 429} \<Longrightarrow> wp (answer status body) (\<lambda>_. answered) E s"
  by (simp add: answer_def wp_def on_part_def res_send_def fresh_def answered_def)

definition answers :: "('b relayer_http, unit) prog \<Rightarrow> bool" where
  "answers m \<longleftrightarrow> (\<forall>s. fresh s \<longrightarrow> wp m (\<lambda>_. answered) (\<lambda>_. fresh) s)"

lemma answersI: "(\<And>s. fresh s \<Longrightarrow> wp m (\<lambda>_. answered) (\<lambda>_. fresh) s) \<Longrightarrow> answers m"
  by (simp add: answers_def)

lemma answers_answer [simp]: "status \<in> {200, 202, 204, 400, 401, 404, 413, 429} \<Longrightarrow> answers (answer status body)"
  by (intro answersI wp_answer)

lemma answers_backend: "(\<And>x. answers (f x)) \<Longrightarrow> answers (bnd (on_backend m) f)"
  by (intro answersI wp_bndI [where R = "\<lambda>_. fresh"] wp_on_backend_any) (auto simp: answers_def)

lemma answers_res: "(\<And>x. answers (f x)) \<Longrightarrow> answers (bnd (of_res r) f)"
  by (intro answersI wp_bndI [where R = "\<lambda>_. fresh"]) (auto simp: answers_def split: sum.split)

lemma answers_gets: "(\<And>x. answers (f x)) \<Longrightarrow> answers (bnd (gets g) f)"
  by (intro answersI wp_bndI [where R = "\<lambda>_. fresh"]) (auto simp: answers_def)

lemma wp_headers:
  assumes "rs_sent r = None"
  shows "wp (applyRateLimitHeaders rl) (\<lambda>_ r. rs_sent r = None) E r"
  using assms by (simp add: applyRateLimitHeaders_def wp_def bnd_def res_setHeader_def)

lemma wp_reject:
  assumes "rs_sent r = None"
  shows "wp (rejectRateLimited now rl) (\<lambda>_ r. \<exists>body. rs_sent r = Some (429, body)) E r"
  using assms by (simp add: rejectRateLimited_def wp_def bnd_def res_setHeader_def res_send_def Let_def)

lemma wp_consume_layer: "fresh s \<Longrightarrow> wp (consume_layer layer source now) (\<lambda>_. fresh) E s"
  by (cases layer) (auto simp: consume_layer_def wp_def split: prod.splits)

lemma wp_rateLimited:
  assumes "fresh s"
  shows "wp (rateLimited B req layer) (\<lambda>rejected s. if rejected then \<exists>body. rs_sent (rh_res s) = Some (429, body) else fresh s) (\<lambda>_. fresh) s"
  unfolding rateLimited_def Let_def
proof (intro wp_bndI [where R = "\<lambda>_. fresh"] wp_on_backend_any wp_consume_layer)
  fix now rl and s1 :: "'a relayer_http" assume "fresh s1"
  then show "wp (on_part rh_res (\<lambda>r s. s\<lparr>rh_res := r\<rparr>) (applyRateLimitHeaders rl)) (\<lambda>_. fresh) (\<lambda>_. fresh) s1"
    by (simp add: fresh_def wp_headers)
next
  fix now rl u and s1 :: "'a relayer_http" assume "fresh s1"
  then show "wp (if rl_allowed rl then ret False
        else bnd (on_backend (date_now (rb_runtime B))) (\<lambda>now'.
             bnd (on_part rh_res (\<lambda>r s. s\<lparr>rh_res := r\<rparr>) (rejectRateLimited now' rl)) (\<lambda>_. ret True)))
     (\<lambda>rejected s. if rejected then \<exists>body. rs_sent (rh_res s) = Some (429, body) else fresh s) (\<lambda>_. fresh) s1"
    by (auto intro!: wp_on_backend_any wp_mono [OF wp_reject] simp: fresh_def)
qed (use assms in auto)

lemma answers_unless_limited: "answers m \<Longrightarrow> answers (unless_limited B req layer m)"
  unfolding unless_limited_def
  by (intro answersI, rule wp_bndI [OF wp_rateLimited]) (auto simp: answers_def answered_def)

lemma answers_if: "answers m \<Longrightarrow> answers m' \<Longrightarrow> answers (if b then m else m')"
  by simp

lemmas answers_intros = answers_backend answers_res answers_gets answers_unless_limited answers_answer

definition subscribe_returns :: "'b RelayerHttpBackend \<Rightarrow> bool" where
  "subscribe_returns B \<longleftrightarrow> (\<forall>m b. rb_subscribeGossip B = Some m \<longrightarrow> (\<exists>b'. m b = (Inr (), b')))"

lemma answers_stream: "subscribe_returns B \<Longrightarrow> answers (get_stream B)"
proof (cases "rb_subscribeGossip B")
  case (Some m)
  assume "subscribe_returns B"
  then have "wp (on_backend m) (\<lambda>_. answered) (\<lambda>_. fresh) s" if "answered s" for s
    using that Some by (simp add: wp_on_backend) (auto simp: wp_def subscribe_returns_def split: prod.splits sum.splits, metis Inl_Inr_False prod.inject)
  then show ?thesis
    by (intro answersI, simp only: get_stream_def Some option.case, intro wp_bndI [OF wp_answer]) auto
qed (simp add: get_stream_def)

lemma answers_posts:
  "answers (post_gossip B req)" "answers (post_job B req)" "answers (post_payload B req raw)" "answers (post_reconcile B req)"
  by (auto simp: post_gossip_def post_job_def post_payload_def post_reconcile_def Let_def intro!: answers_intros split: option.split prod.split)

lemma answers_gets_routes:
  "answers (get_bids B raw)" "answers (get_scores B)" "answers (get_score B raw)" "answers (relayer_health B)" "answers (get_reconcile B req)"
  by (auto simp: get_bids_def get_scores_def get_score_def relayer_health_def get_reconcile_def intro!: answers_intros split: option.split prod.split)

lemma answers_route: "subscribe_returns B \<Longrightarrow> answers (relayer_route B req)"
  unfolding relayer_route_def Let_def
  by (intro answers_if answers_unless_limited answers_posts answers_gets_routes answers_stream answers_answer) simp_all

lemma wp_serve:
  assumes "subscribe_returns B"
  shows "wp (serve B req) (\<lambda>_. answered) (\<lambda>_ _. False) s"
proof -
  have "wp (relayer_route B req) (\<lambda>_. answered) (\<lambda>_. fresh) (s\<lparr>rh_res := new_response\<rparr>)"
    using answers_route [OF assms] by (simp add: answers_def fresh_def new_response_def)
  then have "wp (serve_request B req) (\<lambda>_. answered) (\<lambda>_ _. False) (s\<lparr>rh_res := new_response\<rparr>)"
    unfolding serve_request_def
    by (rule wp_catchI) (auto simp: answer_error_def intro!: wp_answer split: js_error.split)
  then show ?thesis by (simp add: wp_def serve_def)
qed


section \<open>What reaches the back end\<close>

text \<open>A step of the server that keeps a property of the back end's state, however it ends.\<close>

definition keeps :: "('b \<Rightarrow> bool) \<Rightarrow> ('b relayer_http, 'a) prog \<Rightarrow> bool" where
  "keeps I m \<longleftrightarrow> (\<forall>s. I (rh_backend s) \<longrightarrow> wp m (\<lambda>_ s. I (rh_backend s)) (\<lambda>_ s. I (rh_backend s)) s)"

definition preserves :: "('b \<Rightarrow> bool) \<Rightarrow> ('b, 'a) prog \<Rightarrow> bool" where
  "preserves I m \<longleftrightarrow> (\<forall>b. I b \<longrightarrow> wp m (\<lambda>_. I) (\<lambda>_. I) b)"

lemma keepsI: "(\<And>s. I (rh_backend s) \<Longrightarrow> wp m (\<lambda>_ s. I (rh_backend s)) (\<lambda>_ s. I (rh_backend s)) s) \<Longrightarrow> keeps I m"
  by (simp add: keeps_def)

lemma kept_bnd: "keeps I m \<Longrightarrow> (\<And>x. keeps I (f x)) \<Longrightarrow> keeps I (bnd m f)"
  by (intro keepsI wp_bndI [where R = "\<lambda>_ s. I (rh_backend s)"]) (auto simp: keeps_def)

lemma kept_bnd_res: "(\<And>x. r = Inr x \<Longrightarrow> keeps I (f x)) \<Longrightarrow> keeps I (bnd (of_res r) f)"
  by (intro keepsI) (auto simp: keeps_def split: sum.split)

lemma kept_backend: "preserves I m \<Longrightarrow> keeps I (on_backend m)"
  by (intro keepsI) (simp add: wp_on_backend preserves_def)

lemma kept_response: "keeps I (on_part rh_res (\<lambda>r s. s\<lparr>rh_res := r\<rparr>) m)"
  by (intro keepsI) (auto simp: wp_def on_part_def split: prod.splits sum.splits)

lemma kept_simple: "keeps I (ret x)" "keeps I (gets f)" "keeps I (answer status body)" "keeps I (consume_layer layer source now)"
proof -
  show "keeps I (answer status body)" unfolding answer_def by (rule kept_response)
  show "keeps I (consume_layer layer source now)"
    by (intro keepsI) (cases layer; auto simp: consume_layer_def wp_def split: prod.splits)
qed (auto intro!: keepsI)

lemma kept_if: "(b \<Longrightarrow> keeps I m) \<Longrightarrow> (\<not> b \<Longrightarrow> keeps I m') \<Longrightarrow> keeps I (if b then m else m')"
  by simp

lemma kept_option: "(x = None \<Longrightarrow> keeps I m) \<Longrightarrow> (\<And>y. x = Some y \<Longrightarrow> keeps I (f y)) \<Longrightarrow> keeps I (case x of None \<Rightarrow> m | Some y \<Rightarrow> f y)"
  by (cases x) simp_all

lemma kept_error: "keeps I (answer_error e)"
  by (cases e) (simp_all add: answer_error_def kept_simple)

lemmas kept_intros = kept_bnd_res kept_bnd kept_simple kept_if kept_response kept_option

text \<open>
  What a back end owes for a property of its state: every operation keeps it, a publication only for a message whose
  signature, if it is of a kind that is signed, has been verified.
\<close>

locale checked_backend =
  fixes B :: "'b RelayerHttpBackend" and I :: "'b \<Rightarrow> bool"
  assumes clock: "preserves I (date_now (rb_runtime B))"
    and advert: "preserves I (rb_handleAdvert B a)"
    and payload: "preserves I (rb_handlePayload B p)"
    and publish: "rb_publishGossipMessage B = Some post \<Longrightarrow> unauthentic (rb_lib B) m = None \<Longrightarrow> preserves I (post m)"
    and subscribe: "rb_subscribeGossip B = Some sub \<Longrightarrow> preserves I sub"
    and health: "rb_healthCheck B = Some check \<Longrightarrow> preserves I check"
    and reconcile: "rb_reconciler B = Some (lastReport, run) \<Longrightarrow> preserves I run"
    and score: "rb_scoreFor B = Some one \<Longrightarrow> preserves I (one operator)"
    and scores: "rb_allScores B = Some every \<Longrightarrow> preserves I every"
begin

lemma kept_limited: "keeps I m \<Longrightarrow> keeps I (unless_limited B req layer m)"
  unfolding unless_limited_def rateLimited_def Let_def by (intro kept_intros kept_backend clock)

lemma kept_posts: "keeps I (post_gossip B req)" "keeps I (post_job B req)" "keeps I (post_payload B req raw)"
  unfolding post_gossip_def post_job_def post_payload_def Let_def
  by (intro kept_limited kept_intros kept_backend advert payload publish; assumption)+

lemma kept_reconcile: "keeps I (get_reconcile B req)" "keeps I (post_reconcile B req)"
  unfolding get_reconcile_def post_reconcile_def
  by (intro kept_limited kept_intros; auto split: prod.split intro!: kept_intros kept_backend reconcile)+

lemma kept_reads: "keeps I (get_stream B)" "keeps I (get_bids B raw)" "keeps I (get_scores B)" "keeps I (get_score B raw)" "keeps I (relayer_health B)"
  unfolding get_stream_def get_bids_def get_scores_def get_score_def relayer_health_def
  by (intro kept_intros kept_backend subscribe health score scores; assumption?)+

lemma serve_keeps:
  assumes "I (rh_backend s)"
  shows "I (rh_backend (snd (serve B req s)))"
proof -
  have "keeps I (relayer_route B req)"
    unfolding relayer_route_def Let_def
    by (intro kept_limited kept_if kept_posts kept_reconcile kept_reads kept_simple)
  then have "wp (serve_request B req) (\<lambda>_ s. I (rh_backend s)) (\<lambda>_ s. I (rh_backend s)) (s\<lparr>rh_res := new_response\<rparr>)"
    unfolding serve_request_def
    by (intro wp_catchI [where R = "\<lambda>_ s. I (rh_backend s)"])
       (use assms kept_error in \<open>auto simp: keeps_def\<close>)
  then show ?thesis by (auto simp: serve_def wp_def split: prod.splits sum.splits)
qed

end

end
