(* ===== verification/Relayer_Gossip_Props.thy ===== *)
theory Relayer_Gossip_Props
  imports Relayer_Gossip Relayer_Http_Props
begin

text \<open>
  Properties of the gossip transports: an event stream hands over exactly the messages that the server wrote, in order, however
  its bytes are cut into chunks; and a hub behind its server counts only signed outcomes.
\<close>

section \<open>The text of a message has no line break\<close>

lemma nl_digit: "is_digit c \<Longrightarrow> c \<noteq> nl"
  by (auto simp: is_digit_def nl_def)

lemma nl_dec_of_nat: "nl \<notin> set (dec_of_nat n)"
  using nl_digit dec_of_nat_digits [of n] by (auto simp: list_all_iff)

lemma nl_dec_of_int: "nl \<notin> set (dec_of_int i)"
  using nl_dec_of_nat by (auto simp: dec_of_int_def) (simp add: nl_def)

lemma nl_hex_char: "n < 16 \<Longrightarrow> hex_char n \<noteq> nl"
proof
  assume "n < 16" "hex_char n = nl"
  then have "is_hex nl" by (metis hex_char_simps(1))
  then show False by (simp add: is_hex_def is_digit_def nl_def)
qed

lemma nl_escape: "nl \<notin> set (escape_char c)"
proof -
  have "nl \<noteq> c" if "\<not> (of_char c :: nat) < 32"
    using that by (auto simp: nl_def)
  moreover have "hex_char (of_char c mod 16) \<noteq> nl" by (simp add: nl_hex_char)
  moreover have "hex_char (of_char c div 16) \<noteq> nl" if "(of_char c :: nat) < 32"
    using that by (intro nl_hex_char) simp
  moreover have "nl \<noteq> quote_char" "nl \<noteq> backslash" by (simp_all add: nl_def quote_char_def backslash_def)
  ultimately show ?thesis by (auto simp: escape_char_def Let_def nl_def)
qed

lemma nl_json_string: "nl \<notin> set (json_string s)"
  using nl_escape by (auto simp: json_string_def quote_char_def) (simp add: nl_def)

lemma nl_json_print:
  "nl \<notin> set (json_print v)" "nl \<notin> set (json_elems first xs)" "nl \<notin> set (json_members first m)"
proof (induction v and first xs and first m rule: json_print_json_elems_json_members.induct)
qed (auto simp: nl_dec_of_int nl_json_string, auto simp: nl_def)


section \<open>Frames\<close>

lemma split_frame_at: "nl \<notin> set f \<Longrightarrow> split_frame (f @ nl # nl # rest) = Some (f, rest)"
proof (induction f)
  case (Cons a f)
  then show ?case by (cases f) auto
qed simp

lemma split_frame_append: "split_frame s = Some (f, rest) \<Longrightarrow> split_frame (s @ t) = Some (f, rest @ t)"
  by (induction s arbitrary: f rest rule: split_frame.induct) (auto split: if_splits option.splits)

text \<open>The complete frames of a text and what is left.\<close>

function frames :: "string \<Rightarrow> string list \<times> string" where
  "frames s = (case split_frame s of None \<Rightarrow> ([], s) | Some (f, rest) \<Rightarrow> (f # fst (frames rest), snd (frames rest)))"
  by pat_completeness auto
termination
  by (relation "measure length") (auto dest: split_frame_shorter)

declare frames.simps [simp del]

lemma frames_append: "frames (s @ t) = (fst (frames s) @ fst (frames (snd (frames s) @ t)), snd (frames (snd (frames s) @ t)))"
proof (induction s rule: frames.induct)
  case (1 s)
  show ?case
  proof (cases "split_frame s")
    case None
    then have "frames s = ([], s)" by (subst frames.simps) simp
    then show ?thesis by simp
  next
    case (Some p)
    obtain f rest where p: "p = (f, rest)" by force
    have "frames s = (f # fst (frames rest), snd (frames rest))" by (subst frames.simps) (simp add: Some p)
    moreover have "frames (s @ t) = (f # fst (frames (rest @ t)), snd (frames (rest @ t)))"
      by (subst frames.simps) (simp add: split_frame_append [OF Some [unfolded p]])
    ultimately show ?thesis using 1 [OF Some p [symmetric]] by simp
  qed
qed

lemma frames_rest: "fst (frames (snd (frames s))) = []" "snd (frames (snd (frames s))) = snd (frames s)"
  using arg_cong [OF frames_append [of s "[]"], of "length \<circ> fst"] arg_cong [OF frames_append [of s "[]"], of snd] by simp_all

lemma prog_iter_append: "prog_iter f (xs @ ys) w = bnd (prog_iter f xs) (\<lambda>_. prog_iter f ys) w"
  by (induction xs arbitrary: w) (auto simp: bnd_def split: prod.splits sum.splits)

lemma drain_frames: "drain h s w = bnd (prog_iter h (fst (frames s))) (\<lambda>_. ret (snd (frames s))) w"
proof (induction h s arbitrary: w rule: drain.induct)
  case (1 h s)
  show ?case
  proof (cases "split_frame s")
    case None
    then show ?thesis by (subst drain.simps, subst (1 2) frames.simps) (simp add: bnd_def)
  next
    case (Some p)
    obtain f rest where p: "p = (f, rest)" by force
    then show ?thesis
      using 1 [OF Some p [symmetric]] by (subst drain.simps, subst (1 2) frames.simps) (auto simp: Some p bnd_def split: prod.splits sum.splits)
  qed
qed

lemma text_decode_append: "text_decode (a @ b) = text_decode a @ text_decode b"
  by (simp add: text_decode_def)

text \<open>Reading a stream is running over the frames of its whole text, however it is cut.\<close>

lemma readSse_frames:
  "readSse (\<lambda>_. False) h None chunks buf w = prog_iter h (fst (frames (snd (frames buf) @ text_decode (concat chunks)))) w
     \<or> fst (frames buf) \<noteq> []"
proof (induction chunks arbitrary: buf w)
  case Nil
  then show ?case
  proof (cases "split_frame buf")
    case None
    then have "frames buf = ([], buf)" by (subst frames.simps) simp
    then show ?thesis by (simp add: text_decode_def)
  qed (subst (2) frames.simps, auto)
next
  case (Cons chunk chunks)
  show ?case
  proof (cases "fst (frames buf) = []")
    case True
    then have buf: "frames buf = ([], buf)" by (subst (asm) frames.simps, subst frames.simps) (auto split: option.splits)
    let ?t = "buf @ text_decode chunk"
    have rest: "fst (frames (snd (frames ?t))) = []" and idem: "snd (frames (snd (frames ?t))) = snd (frames ?t)"
      by (rule frames_rest)+
    have "readSse (\<lambda>_. False) h None chunks (snd (frames ?t)) w'
        = prog_iter h (fst (frames (snd (frames ?t) @ text_decode (concat chunks)))) w'" for w'
      using Cons.IH [of "snd (frames ?t)" w'] rest by (simp add: idem)
    then have "readSse (\<lambda>_. False) h None (chunk # chunks) buf w
        = bnd (prog_iter h (fst (frames ?t))) (\<lambda>_. prog_iter h (fst (frames (snd (frames ?t) @ text_decode (concat chunks))))) w"
      by (auto simp: drain_frames bnd_def split: prod.splits sum.splits)
    also have "\<dots> = prog_iter h (fst (frames (?t @ text_decode (concat chunks)))) w"
      by (subst (3) frames_append) (simp add: prog_iter_append)
    finally show ?thesis by (simp add: buf text_decode_append)
  qed simp
qed


lemma frames_closed: "nl \<notin> set f \<Longrightarrow> frames (f @ nl # nl # rest) = (f # fst (frames rest), snd (frames rest))"
  by (subst frames.simps) (simp add: split_frame_at)


section \<open>Frames of messages\<close>

lemma lines_of_line: "nl \<notin> set s \<Longrightarrow> lines_of s = [s]"
  by (induction s) auto

definition message_frame :: "jv \<Rightarrow> string" where
  "message_frame m = ''data: '' @ json_stringify (gossip_envelope GOSSIP_TOPIC m)"

lemma sse_frame_message: "sse_frame m = message_frame m @ [nl, nl]"
  by (simp add: sse_frame_def message_frame_def gossip_envelope_def)

lemma nl_message_frame: "nl \<notin> set (message_frame m)"
  by (auto simp: message_frame_def json_stringify_def nl_json_print) (simp_all add: nl_def)

lemma frame_data_message: "frame_data (message_frame m) = json_stringify (gossip_envelope GOSSIP_TOPIC m)"
proof -
  have "json_stringify (gossip_envelope GOSSIP_TOPIC m) = CHR ''{'' # json_members True [(''topic'', JStr GOSSIP_TOPIC), (''message'', m)] @ ''}''"
    by (simp add: gossip_envelope_def json_stringify_def)
  then show ?thesis
    by (simp add: frame_data_def lines_of_line nl_message_frame del: json_members.simps) (simp add: message_frame_def is_ws_def del: json_members.simps)
qed

lemma handle_message_frame:
  assumes "json_printable m"
  shows "handleSseFrame handle GOSSIP_TOPIC handlers (message_frame m) = run_handlers (map (\<lambda>i. handle i m) handlers)"
proof -
  have "json_printable (gossip_envelope GOSSIP_TOPIC m)" using assms by (simp add: gossip_envelope_def)
  then have "json_parse (json_stringify (gossip_envelope GOSSIP_TOPIC m)) = Inr (gossip_envelope GOSSIP_TOPIC m)"
    by (rule json_parse_stringify)
  moreover have "json_stringify (gossip_envelope GOSSIP_TOPIC m) \<noteq> []" by (simp add: json_stringify_def gossip_envelope_def)
  ultimately show ?thesis
    by (simp add: handleSseFrame_def frame_data_message fun_eq_iff bnd_def of_res_def body_field_def gossip_envelope_def jv_get_def)
qed

lemma handle_opening_frame: "handleSseFrame handle topic handlers ('': '' @ GOSSIP_TOPIC) = ret ()"
  by (simp add: handleSseFrame_def frame_data_def GOSSIP_TOPIC_def nl_def)

lemma frames_messages: "frames (concat (map sse_frame msgs)) = (map message_frame msgs, [])"
proof (induction msgs)
  case Nil
  then show ?case by (subst frames.simps) simp
next
  case (Cons m msgs)
  then show ?case by (simp add: sse_frame_message frames_closed nl_message_frame)
qed

lemma prog_iter_cong_list: "(\<And>x. x \<in> set xs \<Longrightarrow> f x = g x) \<Longrightarrow> prog_iter f xs w = prog_iter g xs w"
  by (induction xs arbitrary: w) (auto simp: bnd_def split: prod.splits sum.splits)

lemma prog_iter_map: "prog_iter f (map g xs) w = prog_iter (\<lambda>x. f (g x)) xs w"
  by (induction xs arbitrary: w) (auto simp: bnd_def split: prod.splits sum.splits)

text \<open>
  C13: a subscriber of a gossip stream receives exactly the messages that the server wrote, each once and in the order
  they were written, however the network cuts the bytes into chunks, also within a frame; the opening comment is skipped.
\<close>

theorem gossip_stream_delivers_every_message:
  assumes "concat chunks = utf8 (sse_open @ concat (map sse_frame msgs))"
    and "list_all json_printable msgs"
  shows "readSse (\<lambda>_. False) (handleSseFrame handle GOSSIP_TOPIC handlers) None chunks [] w
       = prog_iter (\<lambda>m. run_handlers (map (\<lambda>i. handle i m) handlers)) msgs w"
proof -
  have start: "frames [] = ([], [])" by (subst frames.simps) simp
  have "nl \<notin> set ('': '' @ GOSSIP_TOPIC)" by (simp add: GOSSIP_TOPIC_def nl_def)
  from frames_closed [OF this, of "concat (map sse_frame msgs)"]
  have "fst (frames (text_decode (concat chunks))) = ('': '' @ GOSSIP_TOPIC) # map message_frame msgs"
    by (simp add: assms(1) text_decode_utf8 sse_open_def frames_messages)
  then have "readSse (\<lambda>_. False) (handleSseFrame handle GOSSIP_TOPIC handlers) None chunks [] w
      = prog_iter (handleSseFrame handle GOSSIP_TOPIC handlers) (('': '' @ GOSSIP_TOPIC) # map message_frame msgs) w"
    using readSse_frames [of "handleSseFrame handle GOSSIP_TOPIC handlers" chunks "[]" w] by (simp only: start fst_conv snd_conv append_Nil) simp
  also have "\<dots> = prog_iter (\<lambda>m. handleSseFrame handle GOSSIP_TOPIC handlers (message_frame m)) msgs w"
    by (simp only: prog_iter.simps handle_opening_frame) (simp add: bnd_def prog_iter_map)
  also have "\<dots> = prog_iter (\<lambda>m. run_handlers (map (\<lambda>i. handle i m) handlers)) msgs w"
    by (rule prog_iter_cong_list) (use assms(2) in \<open>simp add: handle_message_frame list_all_iff\<close>)
  finally show ?thesis .
qed

text \<open>Two messages, cut inside the second frame; the handler keeps what it sees.\<close>

definition example_gossip_log :: "nat \<Rightarrow> jv \<Rightarrow> (jv list, unit) prog" where
  "example_gossip_log i m = upd (\<lambda>seen. seen @ [m])"

definition example_gossip_bytes :: "byte list" where
  "example_gossip_bytes = utf8 (sse_open @ concat (map sse_frame [JObj [(''t'', JStr ''bid'')], JNull]))"

theorem gossip_stream_delivers_every_message_witness:
  "readSse (\<lambda>_. False) (handleSseFrame example_gossip_log GOSSIP_TOPIC [7]) None [take 40 example_gossip_bytes, drop 40 example_gossip_bytes] [] []
   = (Inr (), [JObj [(''t'', JStr ''bid'')], JNull])"
proof -
  have "concat [take 40 example_gossip_bytes, drop 40 example_gossip_bytes]
      = utf8 (sse_open @ concat (map sse_frame [JObj [(''t'', JStr ''bid'')], JNull]))"
    by (simp add: example_gossip_bytes_def)
  then have "readSse (\<lambda>_. False) (handleSseFrame example_gossip_log GOSSIP_TOPIC [7]) None [take 40 example_gossip_bytes, drop 40 example_gossip_bytes] [] []
      = prog_iter (\<lambda>m. run_handlers (map (\<lambda>i. example_gossip_log i m) [7])) [JObj [(''t'', JStr ''bid'')], JNull] []"
    by (rule gossip_stream_delivers_every_message) simp
  then show ?thesis by (simp add: example_gossip_log_def run_simps)
qed


section \<open>What a hub counts is signed\<close>

text \<open>Every entry of a map of lists, as a property of key and element.\<close>

definition entries_all :: "('k \<Rightarrow> 'v \<Rightarrow> bool) \<Rightarrow> ('k \<times> 'v list) list \<Rightarrow> bool" where
  "entries_all P m \<longleftrightarrow> (\<forall>(k, l) \<in> set m. \<forall>x \<in> set l. P k x)"

lemma entries_all_update: "entries_all P m \<Longrightarrow> \<forall>x \<in> set l. P k x \<Longrightarrow> entries_all P (AList.update k l m)"
  using set_update_subset [of k l m] by (fastforce simp: entries_all_def)

lemma entries_all_delete: "entries_all P m \<Longrightarrow> entries_all P (AList.delete k m)"
  by (auto simp: entries_all_def AList.delete_eq)

lemma entries_all_prune_step: "entries_all P acc \<Longrightarrow> \<forall>x \<in> set (snd e). P (fst e) x \<Longrightarrow> entries_all P (prune_step keep acc e)"
  by (cases e) (auto simp: prune_step_def Let_def intro!: entries_all_update entries_all_delete)

lemma entries_all_prune: "entries_all P m \<Longrightarrow> entries_all P (prune_lists keep m)"
proof -
  have "entries_all P (foldl (prune_step keep) acc es)" if "entries_all P acc" "entries_all P es" for acc es
    using that
  proof (induction es arbitrary: acc)
    case (Cons e es)
    then show ?case by (auto simp: entries_all_def [of P "e # es"] intro!: Cons.IH entries_all_prune_step) (simp add: entries_all_def)
  qed simp
  then show "entries_all P m \<Longrightarrow> entries_all P (prune_lists keep m)" by (simp add: prune_lists_def)
qed

lemma entries_all_get: "entries_all P m \<Longrightarrow> map_of m k = Some l \<Longrightarrow> x \<in> set l \<Longrightarrow> P k x"
  by (auto simp: entries_all_def dest!: map_of_SomeD)

text \<open>A counted outcome is backed by a verified message of that operator with that result, a heartbeat by a verified heartbeat.\<close>

definition signed_outcome :: "stellar_lib \<Rightarrow> string \<Rightarrow> OutcomeEntry \<Rightarrow> bool" where
  "signed_outcome L operator e \<longleftrightarrow> (\<exists>x. verifyOutcome L x \<and> out_operator x = operator \<and> out_result x = oe_result e)"

definition signed_beat :: "stellar_lib \<Rightarrow> string \<Rightarrow> bool" where
  "signed_beat L operator \<longleftrightarrow> (\<exists>h. verifyHeartbeat L h \<and> hb_operator h = operator)"

definition signed_hub :: "stellar_lib \<Rightarrow> RelayerHub \<Rightarrow> bool" where
  "signed_hub L h \<longleftrightarrow> entries_all (signed_outcome L) (h_outcomes h) \<and> (\<forall>e \<in> set (h_lastHeartbeatAt h). signed_beat L (fst e))"

lemma signed_hub_other [simp]:
  "signed_hub L (h\<lparr>h_stats := st\<rparr>) = signed_hub L h" "signed_hub L (h\<lparr>h_subscribers := su\<rparr>) = signed_hub L h"
  "signed_hub L (h\<lparr>h_started := b\<rparr>) = signed_hub L h" "signed_hub L (h\<lparr>h_failoverTimer := b\<rparr>) = signed_hub L h"
  "signed_hub L (h\<lparr>h_pruneTimer := b\<rparr>) = signed_hub L h" "signed_hub L (h\<lparr>h_bids := bids\<rparr>) = signed_hub L h"
  "signed_hub L (h\<lparr>h_assignments := jobs\<rparr>) = signed_hub L h" "signed_hub L (h\<lparr>h_knownOperators := ops\<rparr>) = signed_hub L h"
  by (simp_all add: signed_hub_def)

lemma signed_hub_outcomes: "signed_hub L h \<Longrightarrow> entries_all (signed_outcome L) outs \<Longrightarrow> signed_hub L (h\<lparr>h_outcomes := outs\<rparr>)"
  by (simp add: signed_hub_def)

lemma signed_hub_beat: "signed_hub L h \<Longrightarrow> signed_beat L x \<Longrightarrow> signed_hub L (h\<lparr>h_knownOperators := ops, h_lastHeartbeatAt := AList.update x t (h_lastHeartbeatAt h)\<rparr>)"
  using set_update_subset [of x t "h_lastHeartbeatAt h"] by (fastforce simp: signed_hub_def)

lemma signed_hub_get: "signed_hub L h \<Longrightarrow> e \<in> set (outcomesFor x h) \<Longrightarrow> signed_outcome L x e"
  by (cases "map_of (h_outcomes h) x") (auto simp: signed_hub_def outcomesFor_def simp del: map_of_eq_Some_iff dest: entries_all_get)

lemma signed_hub_outcome:
  assumes "signed_hub L h" "signed_outcome L x e"
  shows "signed_hub L (h\<lparr>h_knownOperators := ops, h_outcomes := AList.update x (outcomesFor x h @ [e]) (h_outcomes h)\<rparr>)"
  using assms signed_hub_get [OF assms(1)] by (auto simp: signed_hub_def intro!: entries_all_update)

lemma signed_hub_window:
  assumes "signed_hub L h"
  shows "signed_hub L (h\<lparr>h_outcomes := AList.update x (fresh_outcomes x now h) (h_outcomes h)\<rparr>)"
  using assms signed_hub_get [OF assms] by (auto simp: signed_hub_def fresh_outcomes_def intro!: entries_all_update)

lemma signed_hub_prune: "signed_hub L h \<Longrightarrow> signed_hub L (prune_hub now h)"
  by (simp add: signed_hub_def prune_hub_def entries_all_prune)

text \<open>A hub that keeps its state in memory, as it does when no data directory is set.\<close>

definition memory_hub :: "'w hub_config \<Rightarrow> 'w hub_config" where
  "memory_hub cfg = cfg\<lparr>hc_store := None\<rparr>"

lemma memory_hub_runs [simp]: "persistState (memory_hub cfg) = ret ()" "hydrateFromStore (memory_hub cfg) = ret ()"
  by (simp_all add: memory_hub_def persistState_def hydrateFromStore_def)

abbreviation signed_state :: "stellar_lib \<Rightarrow> RelayerHub \<times> 'w \<Rightarrow> bool" where
  "signed_state L s \<equiv> signed_hub L (fst s)"

lemma preserves_now: "preserves (signed_state L) (hub_now cfg)"
  by (auto simp: preserves_def intro!: wp_hub_now)

lemma signed_learn:
  assumes "unauthentic L m = None" "signed_hub L (fst s)"
  shows "wp (hub_learn (memory_hub cfg) m) (\<lambda>_. signed_state L) (\<lambda>_. signed_state L) s"
proof (cases m)
  case (MOutcome x)
  then have "signed_outcome L (out_operator x) \<lparr>oe_result = out_result x, oe_at = t\<rparr>" for t
    using assms(1) by (auto simp: unauthentic_def signed_outcome_def split: if_splits)
  then show ?thesis
    using assms(2) MOutcome by (auto simp: recordOutcome_def intro!: wp_hub_now signed_hub_outcome)
next
  case (MHeartbeat h)
  then have "signed_beat L (hb_operator h)"
    using assms(1) by (auto simp: unauthentic_def signed_beat_def split: if_splits)
  then show ?thesis
    using assms(2) MHeartbeat by (auto simp: recordHeartbeat_def intro!: wp_hub_now signed_hub_beat)
next
  case (MBid b)
  then show ?thesis
    using assms(2) by (auto simp: hub_rememberBid_def Let_def intro!: wp_hub_now)
next
  case (MPayload p)
  then show ?thesis
    using assms(2) by (auto simp: rememberAssignment_def Let_def split: option.split intro!: wp_hub_now)
qed (use assms in simp)

lemma message_json_outcome: "validateRelayerMessage (message_json (MOutcome x)) = Inr m \<Longrightarrow> m = MOutcome x"
  by (cases "out_result x") (auto simp: validateRelayerMessage_def validateOutcome_def outcome_json_def result_name_def jv_get_def res_bind_eq_Inr split: if_splits)

lemma message_json_heartbeat: "validateRelayerMessage (message_json (MHeartbeat h)) = Inr m \<Longrightarrow> m = MHeartbeat h"
  by (auto simp: validateRelayerMessage_def validateHeartbeat_def heartbeat_json_def jv_get_def res_bind_eq_Inr split: if_splits)

text \<open>Validating the JSON of an authentic message gives an authentic message.\<close>

lemma message_json_authentic:
  assumes "validateRelayerMessage (message_json m) = Inr valid" "unauthentic L m = None"
  shows "unauthentic L valid = None"
proof (cases m)
  case (MOutcome x)
  then show ?thesis using assms message_json_outcome by metis
next
  case (MHeartbeat h)
  then show ?thesis using assms message_json_heartbeat by metis
next
  case (MAdvert a)
  then show ?thesis
    using assms by (auto simp: validateRelayerMessage_def advert_json_def jv_get_def unauthentic_def res_bind_eq_Inr)
next
  case (MBid b)
  then show ?thesis
    using assms by (auto simp: validateRelayerMessage_def bid_json_def jv_get_def unauthentic_def res_bind_eq_Inr)
next
  case (MPayload p)
  then show ?thesis
    using assms by (auto simp: validateRelayerMessage_def payload_json_def jv_get_def unauthentic_def res_bind_eq_Inr)
qed

lemma signed_on_message:
  assumes "\<And>m. validateRelayerMessage raw = Inr m \<Longrightarrow> unauthentic L m = None" "signed_hub L (fst s)"
  shows "wp (hub_on_message (memory_hub cfg) raw) (\<lambda>_. signed_state L) E s"
  unfolding hub_on_message_def
proof (rule wp_catchI [where R = "\<lambda>_. signed_state L"])
  show "wp (bnd (of_res (validateRelayerMessage raw)) (\<lambda>valid. bnd (hub_learn (memory_hub cfg) valid) (\<lambda>_. notify_subscribers (memory_hub cfg) valid)))
      (\<lambda>_. signed_state L) (\<lambda>_. signed_state L) s"
  proof (cases "validateRelayerMessage raw")
    case (Inr m)
    have "wp (bnd (hub_learn (memory_hub cfg) m) (\<lambda>_. notify_subscribers (memory_hub cfg) m)) (\<lambda>_. signed_state L) (\<lambda>_. signed_state L) s"
      by (rule wp_bndI [OF signed_learn [OF assms(1) [OF Inr] assms(2)]]) (auto intro!: wp_notify_subscribers)
    then show ?thesis by (simp add: Inr)
  qed (simp add: assms(2))
qed simp

lemma signed_start: "signed_hub L (fst s) \<Longrightarrow> wp (hub_start (memory_hub cfg)) (\<lambda>_. signed_state L) (\<lambda>_. signed_state L) s"
  by (auto simp: hub_start_def hub_startPruneWatch_def startFailoverWatch_def intro!: wp_any)

lemma preserves_post:
  assumes "unauthentic L m = None"
  shows "preserves (signed_state L) (hub_post (memory_hub cfg) m)"
  unfolding preserves_def hub_post_def
proof (intro allI impI, rule wp_bndI [OF signed_start], assumption)
  fix s :: "RelayerHub \<times> 'a" assume s: "signed_state L s"
  have "wp (hub_on_message (memory_hub cfg) (message_json valid)) (\<lambda>_. signed_state L) E s'"
    if "validateRelayerMessage (message_json m) = Inr valid" "signed_state L s'" for valid E and s' :: "RelayerHub \<times> 'a"
    using message_json_authentic [OF that(1) assms] by (intro signed_on_message that) (rule message_json_authentic)
  then show "wp (bnd (of_res (validateRelayerMessage (message_json m))) (\<lambda>valid. mem_publish (\<lambda>_. hub_on_message (memory_hub cfg)) \<lparr>mg_handlers = [0]\<rparr> (message_json valid)))
      (\<lambda>_. signed_state L) (\<lambda>_. signed_state L) s"
    using s by (auto simp: mem_publish_def split: sum.split)
qed

lemma preserves_score: "preserves (signed_state L) (scoreFor cfg operator)"
  by (auto simp: preserves_def scoreFor_def windowedOutcomes_def intro!: wp_hub_now signed_hub_window)

lemma preserves_scores: "preserves (signed_state L) (allScores (cfg :: 'w hub_config))"
proof -
  have each: "wp (scoreFor cfg x) (\<lambda>y s. signed_state L s \<and> True) (\<lambda>_. signed_state L) s" if "signed_state L s" for x and s :: "RelayerHub \<times> 'w"
    using preserves_score [of L cfg x] that by (simp add: preserves_def del: split_paired_All)
  have "wp (prog_map (scoreFor cfg) ops) (\<lambda>_. signed_state L) (\<lambda>_. signed_state L) s"
    if "signed_state L s" for ops and s :: "RelayerHub \<times> 'w"
    by (rule wp_mono [OF wp_prog_map [where I = "signed_state L" and R = "\<lambda>_ _. True"]]) (use each that in auto)
  then show ?thesis
    by (auto simp: preserves_def allScores_def)
qed

lemma preserves_seq: "preserves I m \<Longrightarrow> preserves I (bnd m (\<lambda>x. ret (f x)))"
  by (auto simp: preserves_def)

interpretation signed: checked_backend "hub_backend (memory_hub cfg) L maxBody proxies" "signed_state L"
proof unfold_locales
  let ?B = "hub_backend (memory_hub cfg) L maxBody proxies"
  show "preserves (signed_state L) (date_now (rb_runtime ?B))"
    by (auto simp: preserves_def wp_def hub_backend_def date_now_def split: prod.splits)
  show "preserves (signed_state L) (rb_handleAdvert ?B a)" "preserves (signed_state L) (rb_handlePayload ?B p)" for a p
    by (auto simp: hub_backend_def unauthentic_def intro!: preserves_seq preserves_post)
  show "rb_publishGossipMessage ?B = Some post \<Longrightarrow> unauthentic (rb_lib ?B) m = None \<Longrightarrow> preserves (signed_state L) (post m)" for post m
    by (auto simp: hub_backend_def preserves_post)
  show "rb_subscribeGossip ?B = Some sub \<Longrightarrow> preserves (signed_state L) sub" for sub
    by (auto simp: hub_backend_def preserves_def subscribeGossip_def)
  show "rb_healthCheck ?B = Some check \<Longrightarrow> preserves (signed_state L) check" for check
    by (auto simp: hub_backend_def hub_healthCheck_def preserves_def intro!: wp_hub_now)
  show "rb_reconciler ?B = Some (lastReport, run) \<Longrightarrow> preserves (signed_state L) run" for lastReport run
    by (simp add: hub_backend_def)
  show "rb_scoreFor ?B = Some one \<Longrightarrow> preserves (signed_state L) (one operator)" for one operator
    by (auto simp: hub_backend_def preserves_score intro!: preserves_seq)
  show "rb_allScores ?B = Some every \<Longrightarrow> preserves (signed_state L) every" for every
    by (auto simp: hub_backend_def preserves_scores intro!: preserves_seq)
qed

text \<open>What happens to a hub behind its server: requests, and the ticks of its two timers.\<close>

datatype hub_event =
    Request request
  | PruneTick int
  | FailoverTick int

fun hub_step :: "'w hub_config \<Rightarrow> stellar_lib \<Rightarrow> hub_event \<Rightarrow> (RelayerHub \<times> 'w) relayer_http \<Rightarrow> (RelayerHub \<times> 'w) relayer_http" where
  "hub_step cfg L (Request req) s = snd (serve (hub_backend cfg L None []) req s)"
| "hub_step cfg L (PruneTick now) s = snd (on_backend (hub_prune cfg now) s)"
| "hub_step cfg L (FailoverTick now) s = snd (on_backend (runFailoverCheck cfg now) s)"

fun hub_run :: "'w hub_config \<Rightarrow> stellar_lib \<Rightarrow> hub_event list \<Rightarrow> (RelayerHub \<times> 'w) relayer_http \<Rightarrow> (RelayerHub \<times> 'w) relayer_http" where
  "hub_run cfg L [] s = s"
| "hub_run cfg L (e # es) s = hub_run cfg L es (hub_step cfg L e s)"

lemma preserves_snd_on_backend: "preserves I m \<Longrightarrow> I (rh_backend s) \<Longrightarrow> I (rh_backend (snd (on_backend m s)))"
  by (auto simp: preserves_def on_backend_def on_part_def wp_def split: prod.splits sum.splits)

lemma preserves_failover: "preserves (signed_state L) (runFailoverCheck cfg now)"
proof -
  have each: "wp (failover_entry cfg now e) (\<lambda>_ s. signed_state L s \<and> True) (\<lambda>_. signed_state L) s" if "signed_state L s" for e s
    using that by (auto simp: failover_entry_def split: prod.split option.split intro!: wp_any)
  have "wp (prog_map (failover_entry cfg now) es) (\<lambda>_. signed_state L) (\<lambda>_. signed_state L) s" if "signed_state L s" for es s
    by (rule wp_mono [OF wp_prog_map [where I = "signed_state L" and R = "\<lambda>_ _. True"]]) (use each that in auto)
  then show ?thesis by (auto simp: preserves_def runFailoverCheck_def)
qed

lemma preserves_prune: "preserves (signed_state L) (hub_prune (memory_hub cfg) now)"
  by (auto simp: preserves_def hub_prune_def signed_hub_prune)

lemma signed_step: "signed_state L (rh_backend s) \<Longrightarrow> signed_state L (rh_backend (hub_step (memory_hub cfg) L e s))"
  by (cases e) (simp_all add: signed.serve_keeps preserves_snd_on_backend [of "signed_state L"] preserves_prune preserves_failover)

lemma signed_run: "signed_state L (rh_backend s) \<Longrightarrow> signed_state L (rh_backend (hub_run (memory_hub cfg) L es s))"
  by (induction es arbitrary: s) (simp_all add: signed_step)

text \<open>
  C11: whatever requests a hub without a data directory serves, from whomever, and however its timers tick in between,
  every outcome it counts in a score has behind it an outcome message with that operator and result whose signature verifies
  under the operator's key, and every operator it holds for alive has a heartbeat whose signature verifies under that key.
  The path goes through the validation and the signature check of the HTTP server and the validation of the hub.
\<close>

theorem scores_rest_on_signed_outcomes:
  assumes "rh_backend s = (new_hub startedAt, w)"
    and "rh_backend (hub_run (memory_hub cfg) L events s) = (h, w')"
  shows "(\<forall>e \<in> set (outcomesFor operator h). \<exists>x. verifyOutcome L x \<and> out_operator x = operator \<and> out_result x = oe_result e)
       \<and> (isNodeAlive operator now h \<longrightarrow> (\<exists>b. verifyHeartbeat L b \<and> hb_operator b = operator))"
proof -
  have h: "signed_hub L h"
    using signed_run [of L s cfg events] assms by (simp add: new_hub_def signed_hub_def entries_all_def)
  have "signed_beat L operator" if "isNodeAlive operator now h"
    using h that by (force simp: signed_hub_def isNodeAlive_def split: option.splits dest!: map_of_SomeD)
  then show ?thesis
    using signed_hub_get [OF h] by (auto simp: signed_outcome_def signed_beat_def)
qed

text \<open>A signed outcome is posted to a new hub, which counts it.\<close>

definition example_signed_lib :: stellar_lib where
  "example_signed_lib = \<lparr>address_xdr = (\<lambda>_. Inr []), symbol_xdr = (\<lambda>_. []), keccak_256 = id, sig_verify = (\<lambda>_ _ sig. Inr (sig = [0, 0, 0]))\<rparr>"

definition example_outcome :: RelayerOutcome where
  "example_outcome = \<lparr>out_jobId = replicate 64 (CHR ''a''), out_operator = ''G'', out_result = Completed, out_sig = ''AAAA'', out_timestamp = 5\<rparr>"

definition example_outcome_request :: request where
  "example_outcome_request = \<lparr>rq_method = ''POST'', rq_pathname = ''/v1/gossip/messages'', rq_authorization = None, rq_forwardedFor = None,
     rq_idempotencyKey = None, rq_remoteAddress = None,
     rq_chunks = [utf8 (json_stringify (gossip_envelope GOSSIP_TOPIC (outcome_json example_outcome)))]\<rparr>"

definition example_hub_server :: "(RelayerHub \<times> HubState option) relayer_http" where
  "example_hub_server = \<lparr>rh_backend = (new_hub 0, None), rh_limiter = new_RateLimiter 1000 2 2 0, rh_global = new_RateLimiter 1000 2 2 0,
     rh_res = new_response\<rparr>"

lemma example_job_hex: "hexToBytes (out_jobId example_outcome) = Inr (replicate 32 0xAA)"
  by code_simp

lemma example_outcome_valid: "validateRelayerMessage (message_json (MOutcome example_outcome)) = Inr (MOutcome example_outcome)"
proof -
  have "check_hex (out_jobId example_outcome) 32 ''jobId'' = Inr (replicate 32 0xAA)"
    by (simp add: check_hex_def example_job_hex)
  then show ?thesis
    by (simp add: validateRelayerMessage_def validateOutcome_def outcome_json_def jv_get_def result_name_def) (simp add: example_outcome_def)
qed

lemma example_outcome_verifies: "verifyOutcome example_signed_lib example_outcome"
  by code_simp

lemma example_outcome_read:
  "res_bind (Relayer_Http.readJson None example_outcome_request) readGossipEnvelope = Inr (MOutcome example_outcome)"
proof -
  have "json_printable (outcome_json example_outcome)"
    by (simp add: outcome_json_def example_outcome_def is_integer_def result_name_def)
  then have "json_parse (json_stringify (gossip_envelope GOSSIP_TOPIC (outcome_json example_outcome))) = Inr (gossip_envelope GOSSIP_TOPIC (outcome_json example_outcome))"
    by (intro json_parse_stringify) (simp add: gossip_envelope_def)
  then have "Relayer_Http.readJson None example_outcome_request = Inr (gossip_envelope GOSSIP_TOPIC (outcome_json example_outcome))"
    by (simp add: Relayer_Http.readJson_def example_outcome_request_def text_decode_utf8)
  then show ?thesis
    using example_outcome_valid by (simp add: readGossipEnvelope_def gossip_envelope_def jv_get_def)
qed

definition example_limiter :: RateLimiter where
  "example_limiter = snd (consume ''unknown'' 100000 (new_RateLimiter 1000 2 2 0))"

lemma example_consume: "consume ''unknown'' 100000 (new_RateLimiter 1000 2 2 0) = (\<lparr>rl_allowed = True, rl_limit = 2, rl_remaining = 1, rl_resetMs = 101000\<rparr>, example_limiter)"
  unfolding example_limiter_def by code_simp

lemma example_post:
  "wp (hub_post (memory_hub example_hub_cfg) (MOutcome example_outcome))
     (\<lambda>_ s. outcomesFor ''G'' (fst s) = [\<lparr>oe_result = Completed, oe_at = 100000\<rparr>]) (\<lambda>_ _. False) (new_hub 0, None)"
proof -
  have now: "wp (hub_now (memory_hub example_hub_cfg)) Q E s = Q 100000 s" for Q E s
    by (simp add: hub_now_def date_now_def memory_hub_def example_hub_cfg_def wp_def on_snd_def)
  have quiet: "hc_subscribe (memory_hub example_hub_cfg) = ret ()" "hc_handler (memory_hub example_hub_cfg) i m = ret ()" for i m
    by (simp_all add: memory_hub_def example_hub_cfg_def)
  show ?thesis
    by (simp add: hub_post_def hub_start_def mem_publish_def hub_on_message_def recordOutcome_def example_outcome_valid now quiet new_hub_def
          startFailoverWatch_def hub_startPruneWatch_def notify_subscribers_def outcomesFor_def del: message_json.simps)
       (simp add: example_outcome_def)
qed

lemma example_hub_counts:
  "outcomesFor ''G'' (fst (rh_backend (hub_run (memory_hub example_hub_cfg) example_signed_lib [Request example_outcome_request] example_hub_server)))
   = [\<lparr>oe_result = Completed, oe_at = 100000\<rparr>]"
proof -
  let ?B = "hub_backend (memory_hub example_hub_cfg) example_signed_lib None []"
  have B: "rb_trustedProxies ?B = []" "rb_maxBodyBytes ?B = None" "rb_lib ?B = example_signed_lib"
    "rb_publishGossipMessage ?B = Some (hub_post (memory_hub example_hub_cfg))" "date_now (rb_runtime ?B) s = (Inr 100000, s)" for s
    by (simp_all add: hub_backend_def date_now_def memory_hub_def example_hub_cfg_def)
  have src: "resolveClientSource (rq_remoteAddress example_outcome_request) (rq_forwardedFor example_outcome_request) [] = ''unknown''"
    by (simp add: resolveClientSource_def example_outcome_request_def)
  obtain r where r: "hub_post (memory_hub example_hub_cfg) (MOutcome example_outcome) (new_hub 0, None) = (Inr (), r)"
    and "outcomesFor ''G'' (fst r) = [\<lparr>oe_result = Completed, oe_at = 100000\<rparr>]"
    using example_post by (auto simp: wp_def split: prod.splits sum.splits)
  have route: "rq_method example_outcome_request = ''POST''" "rq_pathname example_outcome_request = ''/v1/gossip/messages''"
    by (simp_all add: example_outcome_request_def)
  have "rh_backend (snd (serve ?B example_outcome_request example_hub_server)) = r"
    by (simp add: serve_def serve_request_def relayer_route_def Let_def route unless_limited_def rateLimited_def B src consume_layer_def example_hub_server_def
       example_consume run_simps on_backend_def applyRateLimitHeaders_def res_setHeader_def new_response_def post_gossip_def example_outcome_read unauthentic_def
       example_outcome_verifies r answer_def res_send_def)
  then show ?thesis using \<open>outcomesFor ''G'' (fst r) = _\<close> by simp
qed

theorem scores_rest_on_signed_outcomes_witness:
  "\<exists>x. verifyOutcome example_signed_lib x \<and> out_operator x = ''G'' \<and> out_result x = Completed"
proof -
  let ?s = "rh_backend (hub_run (memory_hub example_hub_cfg) example_signed_lib [Request example_outcome_request] example_hub_server)"
  have "rh_backend example_hub_server = (new_hub 0, None)" by (simp add: example_hub_server_def)
  from scores_rest_on_signed_outcomes [OF this, where cfg = example_hub_cfg and operator = "''G''" and now = 0, OF prod.collapse [symmetric]]
  have "\<forall>e \<in> set (outcomesFor ''G'' (fst ?s)). \<exists>x. verifyOutcome example_signed_lib x \<and> out_operator x = ''G'' \<and> out_result x = oe_result e"
    by blast
  then show ?thesis by (simp only: example_hub_counts) simp
qed

text \<open>The server of a hub answers every request, since subscribing to a hub never throws.\<close>

lemma hub_subscribe_returns: "subscribe_returns (hub_backend cfg L maxBody proxies)"
  by (simp add: subscribe_returns_def hub_backend_def upd_def)

text \<open>
  C15: the server answers every request exactly once and its handler never rejects, whatever the request carries and
  whatever the back end, the rate limiters and the body do, as long as opening a subscription does not throw. A response is
  started at most once by construction, since a second start would throw, and the statuses are the documented ones.
\<close>

theorem every_request_answered_once:
  assumes "subscribe_returns B"
  shows "\<exists>s' status body. serve B req s = (Inr (), s') \<and> rs_sent (rh_res s') = Some (status, body)
           \<and> status \<in> {200, 202, 204, 400, 401, 404, 413, 429}"
  using wp_serve [OF assms, of req s] by (auto simp: wp_def answered_def split: prod.splits sum.splits)

theorem every_request_answered_once_witness:
  "\<exists>s' status body. serve (hub_backend example_hub_cfg example_signed_lib None []) example_outcome_request example_hub_server = (Inr (), s')
     \<and> rs_sent (rh_res s') = Some (status, body) \<and> status \<in> {200, 202, 204, 400, 401, 404, 413, 429}"
  by (rule every_request_answered_once [OF hub_subscribe_returns])

end
