(* ===== verification/Relayer_Runtime.thy ===== *)
theory Relayer_Runtime
  imports Relayer_Gossip_Props
begin

text \<open>
  Starting a relayer node, \<^verbatim>\<open>relayer/src/runtime.ts\<close>: the ledger and the queue are read back, the engine is built on
  them, interrupted jobs are finished, the ledger is checked against the chain, the watches are started, the engine joins the
  gossip and a heartbeat is published. The ledger is one object that the engine and the reconciler share, so the reconciler
  runs on the engine's. Log lines are left out. Over a transport that ends at the relayer's own HTTP server, the heartbeat
  that the node publishes is refused, so the node does not start.
\<close>

section \<open>Options and nodes\<close>

definition DEFAULT_RECONCILE_INTERVAL_MS :: int where "DEFAULT_RECONCILE_INTERVAL_MS = 5 * 60 * 1000"
definition DEFAULT_HEARTBEAT_INTERVAL_MS :: int where "DEFAULT_HEARTBEAT_INTERVAL_MS = 15 * 1000"

text \<open>The transport is its two operations: publishing a message, and subscribing the engine's handler.\<close>

record 'w RelayerNodeOptions =
  no_operator :: Keypair
  no_x25519PublicKey :: "byte list"
  no_x25519SecretKey :: "byte list"
  no_endpoint :: "string option"
  no_minFee :: int
  no_chain :: "'w RelayerChainAdapter"
  no_publish :: "jv \<Rightarrow> ('w, unit) prog"
  no_subscribe :: "('w, unit) prog"
  no_ledgerStore :: "'w ledger_store option"
  no_acceptedJobStore :: "'w job_store option"
  no_submitRetry :: "(rat option \<times> rat option) option"
  no_reconcileIntervalMs :: "int option"
  no_heartbeatIntervalMs :: "int option"
  no_deadlineMarginLedgers :: "rat option option"
  no_maxJobLifetimeLedgers :: "rat option"
  no_runtime :: "'w js_runtime"
  no_lib :: stellar_lib
  no_nacl :: nacl_lib

record RelayerNode =
  nd_engine :: RelayerEngine
  nd_reconciler :: PayoutReconciler
  nd_heartbeatTimer :: bool

text \<open>The literal objects that are published; neither has a signature or a timestamp.\<close>

definition settled_message :: "string \<Rightarrow> string \<Rightarrow> outcome_result \<Rightarrow> jv" where
  "settled_message operator jobId result =
     JObj [(''t'', JStr ''outcome''), (''v'', JNum 1), (''jobId'', JStr jobId), (''operator'', JStr operator),
       (''result'', JStr (result_name result))]"

definition heartbeat_message :: "string \<Rightarrow> jv" where
  "heartbeat_message operator = JObj [(''t'', JStr ''heartbeat''), (''v'', JNum 1), (''operator'', JStr operator)]"

definition node_config :: "'w RelayerNodeOptions \<Rightarrow> 'w RelayerEngineConfig" where
  "node_config opts =
     \<lparr>cfg_operator = no_operator opts, cfg_x25519PublicKey = no_x25519PublicKey opts, cfg_x25519SecretKey = no_x25519SecretKey opts,
      cfg_endpoint = no_endpoint opts, cfg_minFee = no_minFee opts, cfg_chain = no_chain opts,
      cfg_margin = margin_setting (no_deadlineMarginLedgers opts), cfg_retry = retry_setting (no_submitRetry opts),
      cfg_bidExpiryMs = bid_expiry_setting (no_maxJobLifetimeLedgers opts),
      cfg_onSettled = Some (\<lambda>jobId result. no_publish opts (settled_message (kp_publicKey (no_operator opts)) jobId result)),
      cfg_jobStore = no_acceptedJobStore opts, cfg_ledgerStore = no_ledgerStore opts, cfg_runtime = no_runtime opts,
      cfg_lib = no_lib opts, cfg_nacl = no_nacl opts\<rparr>"

text \<open>Running the operations of an object that the function made, which ends with the object as they leave it.\<close>

definition with_object :: "('o \<times> 'w, 'a) prog \<Rightarrow> 'o \<Rightarrow> ('w, 'a \<times> 'o) prog" where
  "with_object m x w = (case m (x, w) of (r, x', w') \<Rightarrow> (case r of Inl e \<Rightarrow> (Inl e, w') | Inr y \<Rightarrow> (Inr (y, x'), w')))"


section \<open>Starting and stopping\<close>

definition node_verifyOnBoot :: "'w RelayerNodeOptions \<Rightarrow> RelayerEngine \<Rightarrow> ('w, RelayerEngine \<times> PayoutReconciler) prog" where
  "node_verifyOnBoot opts engine w =
     (case verifyOnBoot (no_chain opts) (no_runtime opts) (no_ledgerStore opts) None
             (new_reconciler, (case e_ledger engine of Some l \<Rightarrow> l | None \<Rightarrow> new_ledger), w) of
        (Inl e, _, _, w') \<Rightarrow> (Inl e, w')
      | (Inr report, p, l, w') \<Rightarrow> (Inr (engine\<lparr>e_ledger := Some l\<rparr>, p), w'))"

definition publishHeartbeat :: "'w RelayerNodeOptions \<Rightarrow> ('w, unit) prog" where
  "publishHeartbeat opts = no_publish opts (heartbeat_message (kp_publicKey (no_operator opts)))"

definition start_watches :: "'w RelayerNodeOptions \<Rightarrow> RelayerEngine \<times> PayoutReconciler \<Rightarrow> RelayerEngine \<times> PayoutReconciler" where
  "start_watches opts ep =
     (startAcceptedJobWatch (startPruneWatch (fst ep)),
      reconciler_start (case no_reconcileIntervalMs opts of Some ms \<Rightarrow> ms | None \<Rightarrow> DEFAULT_RECONCILE_INTERVAL_MS) (snd ep))"

definition startRelayerNode :: "'w RelayerNodeOptions \<Rightarrow> ('w, RelayerNode) prog" where
  "startRelayerNode opts =
     bnd (with_object (l_hydrate (no_ledgerStore opts)) new_ledger) (\<lambda>(_, ledger).
     bnd (with_object (q_hydrate (no_acceptedJobStore opts)) new_queue) (\<lambda>(_, acceptedJobs).
     bnd (date_now (no_runtime opts)) (\<lambda>startedAt.
     bnd (with_object (resumeAcceptedJobs (node_config opts)) (new_engine (Some acceptedJobs) (Some ledger) startedAt)) (\<lambda>(resumed, engine).
     bnd (node_verifyOnBoot opts engine) (\<lambda>checked.
     let ep = start_watches opts checked;
         beat = (case no_heartbeatIntervalMs opts of Some ms \<Rightarrow> ms | None \<Rightarrow> DEFAULT_HEARTBEAT_INTERVAL_MS) in
     bnd (no_subscribe opts) (\<lambda>_.
     bnd (publishHeartbeat opts) (\<lambda>_.
     ret \<lparr>nd_engine = fst ep, nd_reconciler = snd ep, nd_heartbeatTimer = (beat > 0)\<rparr>)))))))"

definition node_stop :: "RelayerNode \<Rightarrow> RelayerNode" where
  "node_stop n =
     n\<lparr>nd_heartbeatTimer := False, nd_reconciler := reconciler_stop (nd_reconciler n),
       nd_engine := stopAcceptedJobWatch (stopPruneWatch (nd_engine n))\<rparr>"


section \<open>The heartbeat over HTTP\<close>

lemma collect_chunks_Inr: "collect_chunks limit n acc bufs = Inr chunks \<Longrightarrow> chunks = acc @ bufs"
  by (induction limit n acc bufs rule: collect_chunks.induct) (auto simp: Let_def split: option.splits if_splits)

lemma readJson_body:
  assumes "concat (rq_chunks req) = utf8 (json_stringify v)" "json_printable v"
  shows "Relayer_Http.readJson limit req = Inr v \<or> (\<exists>e. Relayer_Http.readJson limit req = Inl e)"
proof (cases "collect_chunks limit 0 [] (rq_chunks req)")
  case (Inr chunks)
  have "json_stringify v \<noteq> []" using length_json_print_pos [of v] by (auto simp: json_stringify_def)
  then have "rq_chunks req \<noteq> []" using assms(1) by (auto simp: utf8_def)
  then show ?thesis
    using collect_chunks_Inr [OF Inr] assms Inr by (simp add: Relayer_Http.readJson_def text_decode_utf8 json_parse_stringify)
qed (simp add: Relayer_Http.readJson_def)

lemma heartbeat_message_refused: "validateRelayerMessage (heartbeat_message operator) = Inl (Error ''Invalid relayer heartbeat.'')"
  by (simp add: validateRelayerMessage_def validateHeartbeat_def heartbeat_message_def jv_get_def is_string_def)

definition gossip_post_of :: "request \<Rightarrow> jv \<Rightarrow> bool" where
  "gossip_post_of req message \<longleftrightarrow> rq_method req = ''POST'' \<and> rq_pathname req = ''/v1/gossip/messages''
     \<and> concat (rq_chunks req) = utf8 (json_stringify (gossip_envelope GOSSIP_TOPIC message))"

lemma heartbeat_unread:
  assumes "gossip_post_of req (heartbeat_message operator)"
  shows "\<exists>e. res_bind (Relayer_Http.readJson limit req) readGossipEnvelope = Inl e"
proof -
  have "json_printable (gossip_envelope GOSSIP_TOPIC (heartbeat_message operator))"
    by (simp add: gossip_envelope_def heartbeat_message_def is_integer_def)
  from readJson_body [OF _ this, of req limit] assms
  show ?thesis
    by (auto simp: gossip_post_of_def readGossipEnvelope_def gossip_envelope_def jv_get_def heartbeat_message_refused)
qed

definition refused :: "'b relayer_http \<Rightarrow> bool" where
  "refused s \<longleftrightarrow> (\<exists>status body. rs_sent (rh_res s) = Some (status, body) \<and> status \<in> {400, 404, 413, 429})"

lemma refused_unless_limited:
  assumes "\<And>s. fresh s \<Longrightarrow> wp m (\<lambda>_. refused) (\<lambda>_. fresh) s" "fresh s"
  shows "wp (unless_limited B req layer m) (\<lambda>_. refused) (\<lambda>_. fresh) s"
  unfolding unless_limited_def
  by (rule wp_bndI [OF wp_rateLimited [OF assms(2)]]) (auto simp: assms(1) refused_def)

lemma wp_refuse: "fresh s \<Longrightarrow> status \<in> {400, 404, 413, 429} \<Longrightarrow> wp (answer status body) (\<lambda>_. refused) E s"
  by (simp add: answer_def wp_def on_part_def res_send_def fresh_def refused_def)

lemma heartbeat_post_refused:
  assumes "gossip_post_of req (heartbeat_message operator)"
  shows "refused (snd (serve B req s))"
proof -
  obtain e where e: "res_bind (Relayer_Http.readJson (rb_maxBodyBytes B) req) readGossipEnvelope = Inl e"
    using heartbeat_unread [OF assms] by blast
  have "wp (post_gossip B req) (\<lambda>_. refused) (\<lambda>_. fresh) s1" if "fresh s1" for s1
    unfolding post_gossip_def using that
    by (intro refused_unless_limited) (auto simp: e wp_refuse split: option.split)
  moreover have "relayer_route B req = unless_limited B req GlobalLayer (post_gossip B req)"
    using assms by (simp add: relayer_route_def gossip_post_of_def Let_def)
  ultimately have "wp (relayer_route B req) (\<lambda>_. refused) (\<lambda>_. fresh) s1" if "fresh s1" for s1
    using that by (simp add: refused_unless_limited)
  then have "wp (serve_request B req) (\<lambda>_. refused) (\<lambda>_ _. False) (s\<lparr>rh_res := new_response\<rparr>)"
    unfolding serve_request_def
    by (intro wp_catchI [where R = "\<lambda>_. fresh"]) (auto simp: answer_error_def fresh_def new_response_def wp_refuse split: js_error.split)
  then show ?thesis by (auto simp: serve_def wp_def split: prod.splits sum.splits)
qed

text \<open>Whatever answers a gossip post got, a relayer's server gave them to a request with that body.\<close>

definition gossip_served :: "'w gateway_net \<Rightarrow> 'b RelayerHttpBackend \<Rightarrow> bool" where
  "gossip_served N B \<longleftrightarrow>
     (\<forall>base target init message w res w'. gatewayUrl N ''v1/gossip/messages'' base = Inr target \<longrightarrow> fi_method init = ''POST''
        \<longrightarrow> fi_body init = Some (json_stringify (gossip_envelope GOSSIP_TOPIC message))
        \<longrightarrow> gn_fetch N target init no_signal w = (Inr res, w')
        \<longrightarrow> (\<exists>req s body. gossip_post_of req message \<and> rs_sent (rh_res (snd (serve B req s))) = Some (ha_status res, body)))"

lemma heartbeat_not_published:
  assumes "gossip_served N B" "hg_topic G = GOSSIP_TOPIC"
  shows "http_publish N G (heartbeat_message operator) w \<noteq> (Inr (), w')"
proof
  assume "http_publish N G (heartbeat_message operator) w = (Inr (), w')"
  then obtain target res w1 where target: "gatewayUrl N ''v1/gossip/messages'' (hg_gateway G) = Inr target"
    and got: "gn_fetch N target \<lparr>fi_method = ''POST'', fi_headers = json_headers,
        fi_body = Some (json_stringify (gossip_envelope GOSSIP_TOPIC (heartbeat_message operator)))\<rparr> no_signal w = (Inr res, w1)"
    and ok: "200 \<le> ha_status res" "ha_status res \<le> 299"
    using assms(2) by (auto simp: http_publish_def step_simps split: if_splits)
  obtain req s body where "gossip_post_of req (heartbeat_message operator)" "rs_sent (rh_res (snd (serve B req s))) = Some (ha_status res, body)"
    using assms(1) [unfolded gossip_served_def, rule_format, OF target _ _ got, of "heartbeat_message operator"] by auto
  then show False using heartbeat_post_refused [of req operator B s] ok by (auto simp: refused_def)
qed

text \<open>
  C16: a node wired the way the relayer's entry point wires it, over the HTTP transport to a gateway that runs the relayer's own
  server, never starts: the heartbeat that start-up awaits carries no signature and no timestamp, the server's validation
  refuses it whatever its back end, and \<open>startRelayerNode\<close> throws on every path.
\<close>

theorem node_over_http_never_starts:
  assumes "gossip_served N B" and "no_publish opts = http_publish N G" and "hg_topic G = GOSSIP_TOPIC"
  shows "startRelayerNode opts w \<noteq> (Inr node, w')"
proof
  assume "startRelayerNode opts w = (Inr node, w')"
  then obtain w1 w2 where "publishHeartbeat opts w1 = (Inr (), w2)"
    by (auto simp: startRelayerNode_def step_simps Let_def split: prod.splits)
  then show False using heartbeat_not_published [OF assms(1,3)] by (simp add: publishHeartbeat_def assms(2))
qed

text \<open>A hub behind its server, and a node with no stored state that talks to it.\<close>

definition example_gateway_request :: "fetch_init \<Rightarrow> request" where
  "example_gateway_request init = \<lparr>rq_method = fi_method init, rq_pathname = ''/v1/gossip/messages'', rq_authorization = None,
     rq_forwardedFor = None, rq_idempotencyKey = None, rq_remoteAddress = None,
     rq_chunks = [utf8 (case fi_body init of Some b \<Rightarrow> b | None \<Rightarrow> [])]\<rparr>"

definition example_gateway :: "unit gateway_net" where
  "example_gateway = \<lparr>gn_runtime = example_runtime, gn_nativeTimeout = True,
     gn_fetch = (\<lambda>target init signal w. (Inr \<lparr>ha_status = fst (the (rs_sent (rh_res (snd (serve (hub_backend example_hub_cfg example_signed_lib None [])
        (example_gateway_request init) example_hub_server))))), ha_text = Inr []\<rparr>, w)),
     gn_timedOut = (\<lambda>_. False), gn_url = (\<lambda>path base. Inr (base @ path)), gn_randomBytes = (\<lambda>n. ret (replicate n 0)), gn_random32 = ret 0\<rparr>"

definition example_node_options :: "Keypair \<Rightarrow> nacl_lib \<Rightarrow> unit RelayerNodeOptions" where
  "example_node_options operator nacl = \<lparr>no_operator = operator, no_x25519PublicKey = [], no_x25519SecretKey = [], no_endpoint = None, no_minFee = 1,
     no_chain = example_chain, no_publish = http_publish example_gateway (new_HttpGossipTransport ''http://hub/''), no_subscribe = ret (),
     no_ledgerStore = None, no_acceptedJobStore = None, no_submitRetry = None, no_reconcileIntervalMs = None, no_heartbeatIntervalMs = None,
     no_deadlineMarginLedgers = None, no_maxJobLifetimeLedgers = None, no_runtime = example_runtime, no_lib = example_signed_lib, no_nacl = nacl\<rparr>"

lemma example_gateway_served: "gossip_served example_gateway (hub_backend example_hub_cfg example_signed_lib None [])"
proof -
  have "\<exists>req s body. gossip_post_of req message \<and> rs_sent (rh_res (snd (serve (hub_backend example_hub_cfg example_signed_lib None []) req s))) = Some (ha_status res, body)"
    if "fi_method init = ''POST''" "fi_body init = Some (json_stringify (gossip_envelope GOSSIP_TOPIC message))"
      "gn_fetch example_gateway target init no_signal w = (Inr res, w')" for target init message w res w'
  proof (intro exI conjI)
    show "gossip_post_of (example_gateway_request init) message"
      using that(1,2) by (simp add: gossip_post_of_def example_gateway_request_def)
    have "answered (snd (serve (hub_backend example_hub_cfg example_signed_lib None []) (example_gateway_request init) example_hub_server))"
      using wp_serve [OF hub_subscribe_returns, of example_hub_cfg example_signed_lib None "[]" "example_gateway_request init" example_hub_server]
      by (simp add: wp_def split: prod.splits sum.splits)
    then show "rs_sent (rh_res (snd (serve (hub_backend example_hub_cfg example_signed_lib None []) (example_gateway_request init) example_hub_server)))
        = Some (ha_status res, snd (the (rs_sent (rh_res (snd (serve (hub_backend example_hub_cfg example_signed_lib None []) (example_gateway_request init) example_hub_server))))))"
      using that(3) by (auto simp: answered_def example_gateway_def)
  qed
  then show ?thesis unfolding gossip_served_def by blast
qed

theorem node_over_http_never_starts_witness:
  "\<forall>node w'. startRelayerNode (example_node_options \<lparr>kp_publicKey = ''G'', kp_sign = (\<lambda>_. [])\<rparr> example_nacl) () \<noteq> (Inr node, w')"
  by (intro allI, rule node_over_http_never_starts [OF example_gateway_served, where G = "new_HttpGossipTransport ''http://hub/''"]) (simp_all add: example_node_options_def new_HttpGossipTransport_def)

end
