(* ===== verification/Asp_Policy.thy ===== *)
theory Asp_Policy
  imports Merkle_Trees Effects
begin

text \<open>
  The parts the association-set provider's tick is made of: deposits and verdicts
  (\<open>asp/src/types.ts\<close>), screening policies (\<open>policy.ts\<close>) and their composition
  (\<open>policy-engine.ts\<close>), the retry delay (\<open>backoff.ts\<close>), the publication monitor
  (\<open>monitor.ts\<close>), the ledger continuity guard (\<open>reorg-guard.ts\<close>) and the
  association set (\<open>set.ts\<close>).

  A policy is a function from a deposit to a verdict that may throw. The callbacks
  \<open>onDecision\<close>, \<open>onAlert\<close> and \<open>onDivergence\<close> receive the returned decision, alert or
  event and are not modelled further; the texts of the alert and of the event are left out.
\<close>


section \<open>Deposits, verdicts, policies\<close>

record Deposit =
  dep_index :: nat
  dep_commitment :: string
  dep_value :: string
  dep_scope :: nat
  dep_ledger :: nat

datatype PolicyVerdict = Approve | Reject | Defer

fun verdict_string :: "PolicyVerdict \<Rightarrow> string" where
  "verdict_string Approve = ''approve''"
| "verdict_string Reject = ''reject''"
| "verdict_string Defer = ''defer''"

record Policy =
  pol_name :: string
  pol_screen :: "Deposit \<Rightarrow> PolicyVerdict res"
  pol_reason :: "(Deposit \<Rightarrow> string) option"

definition approveAll :: Policy where
  "approveAll = \<lparr>pol_name = ''approve-all'', pol_screen = (\<lambda>_. Inr Approve), pol_reason = None\<rparr>"

definition allowlist :: "nat list \<Rightarrow> Policy" where
  "allowlist indices =
     \<lparr>pol_name = ''allowlist'',
      pol_screen = (\<lambda>deposit. Inr (if dep_index deposit \<in> set indices then Approve else Reject)),
      pol_reason = Some (\<lambda>deposit. if dep_index deposit \<in> set indices
        then ''deposit index is present in the operator allowlist''
        else ''deposit index is absent from the operator allowlist; see docs/EXCLUSION_APPEAL_PROCESS.md'')\<rparr>"

definition screeningPolicy :: "string \<Rightarrow> (Deposit \<Rightarrow> PolicyVerdict res) \<Rightarrow> Policy" where
  "screeningPolicy name decide = \<lparr>pol_name = name, pol_screen = decide, pol_reason = None\<rparr>"


section \<open>The policy engine\<close>

record PolicyDecision =
  pd_policy :: string
  pd_deposit :: Deposit
  pd_verdict :: PolicyVerdict
  pd_reason :: string
  pd_timestamp :: string

datatype strategy = First_decides | Any_approve | All_must_approve

record PolicyEngine =
  pe_policies :: "Policy list"
  pe_strategy :: strategy

definition new_PolicyEngine :: "Policy list \<Rightarrow> strategy option \<Rightarrow> PolicyEngine res" where
  "new_PolicyEngine policies strat =
     (if policies = [] then Inl (Error ''PolicyEngine requires at least one policy'')
      else Inr \<lparr>pe_policies = policies, pe_strategy = (case strat of Some s \<Rightarrow> s | None \<Rightarrow> First_decides)\<rparr>)"

definition reason_for :: "Policy \<Rightarrow> Deposit \<Rightarrow> PolicyVerdict \<Rightarrow> string" where
  "reason_for policy deposit verdict =
     (case pol_reason policy of Some f \<Rightarrow> f deposit | None \<Rightarrow> ''policy returned '' @ verdict_string verdict)"

definition decide :: "Deposit \<Rightarrow> string \<Rightarrow> Policy \<Rightarrow> PolicyDecision res" where
  "decide deposit ts policy =
     res_bind (pol_screen policy deposit) (\<lambda>verdict.
       Inr \<lparr>pd_policy = pol_name policy, pd_deposit = deposit, pd_verdict = verdict,
            pd_reason = reason_for policy deposit verdict, pd_timestamp = ts\<rparr>)"

fun first_decided :: "PolicyDecision list \<Rightarrow> PolicyVerdict" where
  "first_decided [] = Defer"
| "first_decided (r # rs) = (if pd_verdict r \<noteq> Defer then pd_verdict r else first_decided rs)"

definition combine :: "strategy \<Rightarrow> PolicyDecision list \<Rightarrow> PolicyVerdict" where
  "combine strat results =
     (case strat of
        Any_approve \<Rightarrow>
          if list_ex (\<lambda>r. pd_verdict r = Approve) results then Approve
          else if list_ex (\<lambda>r. pd_verdict r = Defer) results then Defer else Reject
      | All_must_approve \<Rightarrow>
          if list_ex (\<lambda>r. pd_verdict r = Reject) results then Reject
          else if list_all (\<lambda>r. pd_verdict r = Approve) results then Approve else Defer
      | First_decides \<Rightarrow> first_decided results)"

definition evaluate :: "PolicyEngine \<Rightarrow> Deposit \<Rightarrow> string \<Rightarrow> (PolicyVerdict \<times> PolicyDecision list) res" where
  "evaluate engine deposit ts =
     res_bind (res_map (decide deposit ts) (pe_policies engine)) (\<lambda>results.
       Inr (combine (pe_strategy engine) results, results))"

definition engine_screen :: "PolicyEngine \<Rightarrow> Deposit \<Rightarrow> string \<Rightarrow> PolicyVerdict res" where
  "engine_screen engine deposit ts = res_bind (evaluate engine deposit ts) (\<lambda>(verdict, _). Inr verdict)"


section \<open>Retry delay\<close>

record BackoffOptions =
  bo_baseIntervalMs :: rat
  bo_maxIntervalMs :: rat
  bo_factor :: "rat option"
  bo_jitterRatio :: "rat option"

definition math_round :: "rat \<Rightarrow> int" where
  "math_round x = \<lfloor>x + 1 / 2\<rfloor>"

text \<open>The value drawn by \<open>random()\<close> is an argument.\<close>

definition backoffDelayMs :: "int \<Rightarrow> BackoffOptions \<Rightarrow> rat \<Rightarrow> rat" where
  "backoffDelayMs failureStreak options rnd =
     (if failureStreak \<le> 0 then bo_baseIntervalMs options
      else let factor = (case bo_factor options of Some f \<Rightarrow> f | None \<Rightarrow> 2);
               jitterRatio = (case bo_jitterRatio options of Some j \<Rightarrow> j | None \<Rightarrow> 1 / 5);
               exponent = max 0 (failureStreak - 1);
               raw = bo_baseIntervalMs options * factor ^ nat exponent;
               capped = min raw (bo_maxIntervalMs options);
               jitter = capped * jitterRatio * rnd
           in rat_of_int (math_round (min (bo_maxIntervalMs options) (capped + jitter))))"


section \<open>Publication monitor\<close>

record PublicationMonitor =
  pm_maxRootAgeMs :: rat
  pm_lastPublishedAt :: rat
  pm_lastRoot :: "string option"
  pm_lastLedger :: nat

definition new_PublicationMonitor :: "rat \<Rightarrow> PublicationMonitor" where
  "new_PublicationMonitor maxAge =
     \<lparr>pm_maxRootAgeMs = maxAge, pm_lastPublishedAt = 0, pm_lastRoot = None, pm_lastLedger = 0\<rparr>"

record PublicationAlert =
  pa_lastPublishedAt :: rat
  pa_lastRoot :: "string option"
  pa_lastLedger :: nat
  pa_ageMs :: rat
  pa_thresholdMs :: rat

definition recordPublication :: "rat \<Rightarrow> string \<Rightarrow> nat \<Rightarrow> PublicationMonitor \<Rightarrow> PublicationMonitor" where
  "recordPublication now newRoot ledger m =
     m\<lparr>pm_lastPublishedAt := now, pm_lastRoot := Some newRoot, pm_lastLedger := ledger\<rparr>"

definition monitor_check :: "rat \<Rightarrow> PublicationMonitor \<Rightarrow> PublicationAlert option" where
  "monitor_check now m =
     (if pm_lastPublishedAt m = 0 then None
      else let ageMs = now - pm_lastPublishedAt m
           in if ageMs \<le> pm_maxRootAgeMs m then None
              else Some \<lparr>pa_lastPublishedAt = pm_lastPublishedAt m, pa_lastRoot = pm_lastRoot m,
                         pa_lastLedger = pm_lastLedger m, pa_ageMs = ageMs, pa_thresholdMs = pm_maxRootAgeMs m\<rparr>)"


section \<open>Ledger continuity guard\<close>

record ReorgGuard =
  rg_expectedNextLedger :: nat

definition guard_reset :: "nat \<Rightarrow> ReorgGuard \<Rightarrow> ReorgGuard" where
  "guard_reset fromLedger g = g\<lparr>rg_expectedNextLedger := fromLedger\<rparr>"

text \<open>\<open>None\<close> is \<open>{ ok: true }\<close>, \<open>Some l\<close> is \<open>{ ok: false, rewindTo: l }\<close>.\<close>

definition guard_validate :: "nat \<Rightarrow> ReorgGuard \<Rightarrow> nat option \<times> ReorgGuard" where
  "guard_validate batchStartLedger g =
     (if rg_expectedNextLedger g = 0 then (None, g\<lparr>rg_expectedNextLedger := batchStartLedger\<rparr>)
      else if batchStartLedger \<ge> rg_expectedNextLedger g
      then (None, g\<lparr>rg_expectedNextLedger := batchStartLedger\<rparr>)
      else (Some batchStartLedger, g\<lparr>rg_expectedNextLedger := batchStartLedger\<rparr>))"

definition guard_commit :: "nat \<Rightarrow> ReorgGuard \<Rightarrow> ReorgGuard" where
  "guard_commit lastLedger g = g\<lparr>rg_expectedNextLedger := lastLedger + 1\<rparr>"


section \<open>The association set\<close>

record SetManifest =
  sm_poolId :: string
  sm_root :: string
  sm_version :: nat
  sm_levels :: nat
  sm_labels :: "string list"
  sm_indices :: "nat list"
  sm_generatedAt :: string

record AssociationSet =
  as_poseidon :: poseidon
  as_scope :: nat
  as_indices :: "nat list"
  as_labels :: "int list"
  as_tree :: MerkleTree

definition as_create :: "poseidon \<Rightarrow> nat \<Rightarrow> AssociationSet" where
  "as_create poseidon scope =
     \<lparr>as_poseidon = poseidon, as_scope = scope, as_indices = [], as_labels = [],
      as_tree = new_MerkleTree poseidon TREE_DEPTH\<rparr>"

definition as_add :: "nat \<Rightarrow> AssociationSet \<Rightarrow> AssociationSet res" where
  "as_add depositIndex s =
     (let label = computeLabel (as_poseidon s) (int (as_scope s)) (int depositIndex)
      in res_bind (mt_insert label (as_tree s)) (\<lambda>(_, t).
         Inr (s\<lparr>as_indices := as_indices s @ [depositIndex], as_labels := as_labels s @ [label], as_tree := t\<rparr>)))"

definition as_size :: "AssociationSet \<Rightarrow> nat" where
  "as_size s = length (as_labels s)"

definition as_rootHex :: "AssociationSet \<Rightarrow> string" where
  "as_rootHex s = toHex32 (mt_root (as_tree s))"

definition as_proof :: "AssociationSet \<Rightarrow> nat \<Rightarrow> MerkleProof res" where
  "as_proof s leafIndex = mt_proof (as_tree s) leafIndex"

definition as_manifest :: "AssociationSet \<Rightarrow> string \<Rightarrow> string \<Rightarrow> SetManifest" where
  "as_manifest s poolId generatedAt =
     \<lparr>sm_poolId = poolId, sm_root = as_rootHex s, sm_version = length (as_labels s),
      sm_levels = mt_depth (as_tree s), sm_labels = map dec_of_int (as_labels s),
      sm_indices = as_indices s, sm_generatedAt = generatedAt\<rparr>"

text \<open>The loop that rebuilds the set from the approved indices.\<close>

fun as_add_all :: "nat list \<Rightarrow> AssociationSet \<Rightarrow> AssociationSet res" where
  "as_add_all [] s = Inr s"
| "as_add_all (i # is) s = res_bind (as_add i s) (as_add_all is)"


section \<open>Lemmas\<close>

lemma as_add_all_Inr:
  assumes "as_add_all is s = Inr s'" "as_labels s = mt_leaves (as_tree s)" "mt_wf (as_tree s)"
  shows "as_indices s' = as_indices s @ is
    \<and> as_labels s' = as_labels s @ map (\<lambda>i. as_poseidon s [int (as_scope s), int i]) is
    \<and> mt_leaves (as_tree s') = as_labels s @ map (\<lambda>i. as_poseidon s [int (as_scope s), int i]) is \<and> mt_wf (as_tree s')
    \<and> mt_poseidon (as_tree s') = mt_poseidon (as_tree s) \<and> mt_depth (as_tree s') = mt_depth (as_tree s)"
  using assms
proof (induction "is" arbitrary: s)
  case (Cons i "is")
  then obtain t where t: "as_add i s = Inr t" "as_add_all is t = Inr s'" by (auto simp: res_bind_eq_Inr)
  then obtain j tree where ins: "mt_insert (as_poseidon s [int (as_scope s), int i]) (as_tree s) = Inr (j, tree)"
      "t = s\<lparr>as_indices := as_indices s @ [i], as_labels := as_labels s @ [as_poseidon s [int (as_scope s), int i]], as_tree := tree\<rparr>"
    by (auto simp: as_add_def Let_def res_bind_eq_Inr computeLabel_def hashFields_def)
  then have tree: "mt_leaves tree = mt_leaves (as_tree s) @ [as_poseidon s [int (as_scope s), int i]]"
      "mt_poseidon tree = mt_poseidon (as_tree s)" "mt_depth tree = mt_depth (as_tree s)" "mt_wf tree"
    using Cons.prems(3) mt_wf_insert by (auto simp: mt_insert_def Let_def split: if_splits)
  show ?case using Cons.IH [OF t(2)] ins tree Cons.prems by simp
qed simp

text \<open>The labels, and the root, of a list of approved indices.\<close>

definition labels_of :: "poseidon \<Rightarrow> nat \<Rightarrow> nat list \<Rightarrow> int list" where
  "labels_of poseidon scope is = map (\<lambda>i. poseidon [int scope, int i]) is"

definition set_root :: "poseidon \<Rightarrow> nat \<Rightarrow> nat list \<Rightarrow> string" where
  "set_root poseidon scope is = toHex32 (reference_root poseidon 20 (labels_of poseidon scope is))"

lemma rebuilt_set:
  assumes "as_add_all is (as_create poseidon scope) = Inr s"
  shows "as_indices s = is" "as_labels s = labels_of poseidon scope is"
    "as_rootHex s = set_root poseidon scope is" "as_size s = length is"
proof -
  have s: "as_indices s = is" "as_labels s = labels_of poseidon scope is" "mt_leaves (as_tree s) = labels_of poseidon scope is"
      "mt_wf (as_tree s)" "mt_poseidon (as_tree s) = poseidon" "mt_depth (as_tree s) = 20"
    using as_add_all_Inr [OF assms]
    by (auto simp: as_create_def new_MerkleTree_def labels_of_def TREE_DEPTH_def mt_wf_def)
  then show "as_indices s = is" "as_labels s = labels_of poseidon scope is"
      "as_rootHex s = set_root poseidon scope is" "as_size s = length is"
    using mt_root_reference [OF s(4)] by (simp_all add: as_rootHex_def set_root_def as_size_def labels_of_def)
qed

lemma rebuild_ok:
  assumes "length is \<le> 2 ^ 20"
  shows "\<exists>s. as_add_all is (as_create poseidon scope) = Inr s"
proof -
  have "\<exists>s'. as_add_all js s = Inr s'" if "length (mt_leaves (as_tree s)) + length js \<le> 2 ^ mt_depth (as_tree s)" for js s
    using that
  proof (induction js arbitrary: s)
    case (Cons j js)
    then have "\<exists>t. as_add j s = Inr t \<and> length (mt_leaves (as_tree t)) + length js \<le> 2 ^ mt_depth (as_tree t)"
      by (simp add: as_add_def Let_def mt_insert_def)
    with Cons.IH show ?case by auto
  qed simp
  with assms show ?thesis by (simp add: as_create_def new_MerkleTree_def TREE_DEPTH_def)
qed

end
