(* ===== verification/Asp_Publish.thy ===== *)
theory Asp_Publish
  imports Asp_Policy Atomic_File
begin

text \<open>
  Publishing and serving association-set manifests: \<open>asp/src/publish.ts\<close> and
  \<open>asp/src/manifest-service.ts\<close>. Files live in the file system of \<open>Atomic_File\<close>, where
  every call may fail and leaves a snapshot; the modification times that retention sorts by come
  from \<open>statSync\<close> and are an argument. SHA-256 is a parameter. The indentation that
  \<open>JSON.stringify(m, null, 2)\<close> adds is white space and is left out.
\<close>


section \<open>The dataset hash\<close>

text \<open>\<open>Buffer.from(s, "hex")\<close> decodes pairs up to the first that is not hexadecimal.\<close>

fun buffer_hex :: "string \<Rightarrow> byte list" where
  "buffer_hex (a # b # r) = (if is_hex a \<and> is_hex b then of_nat (16 * hex_val a + hex_val b) # buffer_hex r else [])"
| "buffer_hex r = []"

fun low_bytes :: "nat \<Rightarrow> int \<Rightarrow> byte list" where
  "low_bytes 0 v = []"
| "low_bytes (Suc n) v = low_bytes n (v div 256) @ [word_of_int v]"

definition dataset_preimage :: "string \<Rightarrow> string list \<Rightarrow> byte list res" where
  "dataset_preimage rt labels =
     res_bind (res_map js_BigInt_str labels) (\<lambda>vs.
       Inr (be_bytes 4 (length labels) @ buffer_hex (strip_0x rt) @ concat (map (low_bytes 32) vs)))"

definition computeDatasetHash :: "(byte list \<Rightarrow> byte list) \<Rightarrow> string \<Rightarrow> string list \<Rightarrow> string res" where
  "computeDatasetHash sha256 rt labels =
     res_bind (dataset_preimage rt labels) (\<lambda>pre. Inr (''0x'' @ concat (map hex2 (sha256 pre))))"


section \<open>Signed manifests\<close>

definition manifest_json :: "SetManifest \<Rightarrow> jv" where
  "manifest_json m =
     JObj [(''poolId'', JStr (sm_poolId m)), (''root'', JStr (sm_root m)),
           (''version'', JNum (of_nat (sm_version m))), (''levels'', JNum (of_nat (sm_levels m))),
           (''algo'', JStr ''poseidon-bn254''), (''labels'', JArr (map JStr (sm_labels m))),
           (''indices'', JArr (map (\<lambda>i. JNum (of_nat i)) (sm_indices m))),
           (''generatedAt'', JStr (sm_generatedAt m))]"

text \<open>\<open>h.update(x)\<close> accepts a string and refuses everything else.\<close>

definition hash_update :: "jv \<Rightarrow> byte list \<Rightarrow> byte list res" where
  "hash_update v acc =
     (if is_string v then Inr (acc @ utf8 (the_string v))
      else Inl (TypeError ''The data argument must be of type string''))"

definition signManifest :: "(byte list \<Rightarrow> byte list) \<Rightarrow> jv \<Rightarrow> string \<Rightarrow> string res" where
  "signManifest sha256 m signingKey =
     res_bind (hash_update (jv_get m ''poolId'') []) (\<lambda>h.
     res_bind (hash_update (jv_get m ''root'') h) (\<lambda>h.
     res_bind (hash_update (jv_get m ''datasetHash'') h) (\<lambda>h.
     res_bind (hash_update (nullish (jv_get m ''policy'') (JStr [])) h) (\<lambda>h.
     res_bind (hash_update (JStr (js_String (nullish (jv_get m ''ledger'') (JStr [])))) h) (\<lambda>h.
     res_bind (hash_update (JStr signingKey) h) (\<lambda>h.
     Inr (''0x'' @ concat (map hex2 (sha256 h)))))))))"

definition verifyManifestSignature :: "(byte list \<Rightarrow> byte list) \<Rightarrow> jv \<Rightarrow> string \<Rightarrow> string \<Rightarrow> bool res" where
  "verifyManifestSignature sha256 m signature signingKey =
     res_bind (signManifest sha256 m signingKey) (\<lambda>expected. Inr (expected = signature))"

definition DEFAULT_MAX_SETS_PER_POOL :: nat where "DEFAULT_MAX_SETS_PER_POOL = 50"


section \<open>Writing and pruning set files\<close>

definition newline :: string where "newline = [CHR 0x0A]"

definition ends_with :: "string \<Rightarrow> string \<Rightarrow> bool" where
  "ends_with sfx s = starts_with (rev sfx) (rev s)"

definition set_dir :: "string \<Rightarrow> string \<Rightarrow> string" where
  "set_dir dataDir poolId = dataDir @ ''/sets/'' @ poolId"

text \<open>\<open>writeFileSync\<close> truncates the file and then writes all of the contents.\<close>

definition writeFileSync :: "string \<Rightarrow> string \<Rightarrow> (fs, unit) prog" where
  "writeFileSync path contents = bnd (openSync path) (\<lambda>_. fs_call (AList.update path contents))"

definition readdir :: "string \<Rightarrow> (string \<times> string) list \<Rightarrow> string list" where
  "readdir dir files =
     filter (\<lambda>f. CHR ''/'' \<notin> set f)
       (map (\<lambda>p. drop (length dir + 1) p) (filter (starts_with (dir @ ''/'')) (map fst files)))"

definition prunable :: "string \<Rightarrow> bool" where
  "prunable f \<longleftrightarrow> ends_with ''.json'' f \<and> f \<noteq> ''latest.json'' \<and> \<not> ends_with ''.tmp'' f"

definition newest_first :: "(string \<Rightarrow> rat option) \<Rightarrow> string list \<Rightarrow> string list" where
  "newest_first mtime fs = sort_key (\<lambda>f. - (case mtime f of Some t \<Rightarrow> t | None \<Rightarrow> 0)) fs"

definition pruneOldSets :: "(string \<Rightarrow> rat option) \<Rightarrow> string \<Rightarrow> nat \<Rightarrow> (fs, unit) prog" where
  "pruneOldSets mtime dir maxKeep = (\<lambda>s.
     let candidates = newest_first (\<lambda>f. mtime (dir @ ''/'' @ f)) (filter prunable (readdir dir (fs_files s)))
     in (if length candidates > maxKeep
         then prog_iter (\<lambda>file. try_catch (unlinkSync (dir @ ''/'' @ file)) (\<lambda>_. ret ())) (drop maxKeep candidates)
         else ret ()) s)"

definition writeManifest ::
  "(byte list \<Rightarrow> byte list) \<Rightarrow> (string \<Rightarrow> rat option) \<Rightarrow> nat \<Rightarrow> string \<Rightarrow> SetManifest \<Rightarrow> string option \<Rightarrow> nat \<Rightarrow> (fs, string) prog" where
  "writeManifest sha256 mtime now dataDir m signingKey maxSetsPerPool =
     (let dir = set_dir dataDir (sm_poolId m) in
      bnd mkdirSync (\<lambda>_.
      bnd (of_res (case signingKey of
             Some key \<Rightarrow> if key = [] then Inr (manifest_json m)
               else res_bind (signManifest sha256 (manifest_json m) key) (\<lambda>sig.
                 Inr (case manifest_json m of JObj es \<Rightarrow> JObj (es @ [(''signature'', JStr sig)]) | v \<Rightarrow> v))
           | None \<Rightarrow> Inr (manifest_json m))) (\<lambda>signed.
      let manifestJson = json_stringify signed @ newline;
          rootPath = dir @ ''/'' @ sm_root m @ ''.json'';
          tmpPath = rootPath @ ''.tmp.'' @ dec_of_nat now;
          latestPath = dir @ ''/latest.json'';
          latestTmpPath = latestPath @ ''.tmp.'' @ dec_of_nat now
      in bnd (writeFileSync tmpPath manifestJson) (\<lambda>_.
         bnd (renameSync tmpPath rootPath) (\<lambda>_.
         bnd (writeFileSync latestTmpPath manifestJson) (\<lambda>_.
         bnd (renameSync latestTmpPath latestPath) (\<lambda>_.
         bnd (pruneOldSets mtime dir maxSetsPerPool) (\<lambda>_. ret rootPath))))))))"


section \<open>Serving manifests\<close>

definition isValidRoot :: "string \<Rightarrow> bool" where
  "isValidRoot s \<longleftrightarrow> starts_with ''0x'' s \<and> length s = 66 \<and> list_all is_hex (drop 2 s)"

definition isValidLabel :: "string \<Rightarrow> bool" where
  "isValidLabel s \<longleftrightarrow> 1 \<le> length s \<and> length s \<le> 78 \<and> list_all is_digit s"

record ManifestRouteResult =
  mr_status :: nat
  mr_body :: jv

definition manifestPath :: "string \<Rightarrow> string \<Rightarrow> string \<Rightarrow> string" where
  "manifestPath dataDir poolId file = dataDir @ ''/sets/'' @ poolId @ ''/'' @ file"

definition loadManifest :: "string \<Rightarrow> string \<Rightarrow> string \<Rightarrow> (fs, jv option) prog" where
  "loadManifest dataDir poolId file = (\<lambda>s.
     let p = manifestPath dataDir poolId file
     in if map_of (fs_files s) p = None then ret None s
        else try_catch (bnd (readFileSync p) (\<lambda>text. bnd (of_res (json_parse text)) (\<lambda>v. ret (Some v))))
               (\<lambda>_. ret None) s)"

definition rootFile :: "string \<Rightarrow> string" where
  "rootFile rt = to_lower rt @ ''.json''"

definition error_body :: "string \<Rightarrow> jv" where
  "error_body msg = JObj [(''ok'', JBool False), (''error'', JStr msg)]"

text \<open>\<open>!manifest\<close>: a file that holds \<open>null\<close>, \<open>false\<close>, 0 or the empty string counts as absent.\<close>

definition js_falsy :: "jv \<Rightarrow> bool" where
  "js_falsy v \<longleftrightarrow> v \<in> {JUndef, JNull, JBool False, JNum 0, JStr []}"

definition present :: "jv option \<Rightarrow> jv option" where
  "present m = (case m of Some v \<Rightarrow> if js_falsy v then None else Some v | None \<Rightarrow> None)"

definition readLatestManifest :: "string \<Rightarrow> string \<Rightarrow> (fs, ManifestRouteResult) prog" where
  "readLatestManifest dataDir poolId =
     bnd (loadManifest dataDir poolId ''latest.json'') (\<lambda>m.
       case present m of
         None \<Rightarrow> ret \<lparr>mr_status = 404, mr_body = error_body ''no manifest published yet''\<rparr>
       | Some v \<Rightarrow> ret \<lparr>mr_status = 200, mr_body = v\<rparr>)"

definition readManifestByRoot :: "string \<Rightarrow> string \<Rightarrow> string \<Rightarrow> (fs, ManifestRouteResult) prog" where
  "readManifestByRoot dataDir poolId rt =
     (if \<not> isValidRoot rt
      then ret \<lparr>mr_status = 400, mr_body = error_body ''root must be a 0x-prefixed 32-byte hex string''\<rparr>
      else bnd (loadManifest dataDir poolId (rootFile rt)) (\<lambda>m.
        case present m of
          None \<Rightarrow> ret \<lparr>mr_status = 404,
            mr_body = JObj [(''ok'', JBool False), (''error'', JStr ''no manifest retained for that root''),
              (''detail'', JStr ''Roots are pruned to the most recent set files per pool. Re-publish the root, or prove against a root this ASP still retains.'')]\<rparr>
        | Some v \<Rightarrow> ret \<lparr>mr_status = 200, mr_body = v\<rparr>))"

text \<open>The first label equal to the requested one; a label \<open>BigInt\<close> refuses is skipped.\<close>

fun label_index :: "int \<Rightarrow> jv list \<Rightarrow> nat option" where
  "label_index v [] = None"
| "label_index v (l # ls) = (if js_BigInt l = Inr v then Some 0 else map_option Suc (label_index v ls))"

text \<open>
  The constructor call \<open>new MerkleTree(poseidon, labels, levels)\<close>: the class takes the depth as its
  second argument, so the list of labels becomes the depth. As a number it is \<open>NaN\<close> for two or more
  labels, when the loop over the levels does not run, and the label itself for one. The tree has
  no leaves, so \<open>root()\<close> is the entry of the table of zeros under the list as a property name, which
  exists only for a single label.
\<close>

definition misbuilt_root :: "poseidon \<Rightarrow> int list \<Rightarrow> int option" where
  "misbuilt_root poseidon labels =
     (case labels of [v] \<Rightarrow> Some (zero_table poseidon (nat v) ! nat v) | _ \<Rightarrow> None)"

definition readInclusion :: "poseidon \<Rightarrow> string \<Rightarrow> string \<Rightarrow> string \<Rightarrow> string \<Rightarrow> (fs, ManifestRouteResult) prog" where
  "readInclusion poseidon dataDir poolId rt label =
     (if \<not> isValidRoot rt
      then ret \<lparr>mr_status = 400, mr_body = error_body ''root must be a 0x-prefixed 32-byte hex string''\<rparr>
      else if \<not> isValidLabel label
      then ret \<lparr>mr_status = 400, mr_body = error_body ''label must be a decimal field element''\<rparr>
      else bnd (loadManifest dataDir poolId (rootFile rt)) (\<lambda>m.
        case present m of
          None \<Rightarrow> ret \<lparr>mr_status = 404, mr_body = error_body ''no manifest retained for that root''\<rparr>
        | Some v \<Rightarrow>
          let labels = (case jv_get v ''labels'' of JArr xs \<Rightarrow> xs | _ \<Rightarrow> []) in
          bnd (of_res (js_BigInt_str label)) (\<lambda>wanted.
          case label_index wanted labels of
            None \<Rightarrow> ret \<lparr>mr_status = 404,
              mr_body = JObj [(''ok'', JBool False), (''error'', JStr ''label is not in this root's association set''),
                (''root'', jv_get v ''root''), (''size'', JNum (of_nat (length labels)))]\<rparr>
          | Some index \<Rightarrow>
            bnd (of_res (res_map js_BigInt labels)) (\<lambda>vs.
            case misbuilt_root poseidon vs of
              None \<Rightarrow> throw (TypeError ''Cannot read properties of undefined (reading 'toString')'')
            | Some r \<Rightarrow>
              if \<not> is_string (jv_get v ''root'') then throw (TypeError ''manifest.root.toLowerCase is not a function'')
              else if to_lower (toHex32 r) \<noteq> to_lower (the_string (jv_get v ''root''))
              then ret \<lparr>mr_status = 500, mr_body = error_body ''manifest root does not match its own label set''\<rparr>
              else throw (Error (''leaf index '' @ dec_of_nat index @ '' out of bounds''))))))"

end
