(* ===== verification/Asp_Engine.thy ===== *)
theory Asp_Engine
  imports Asp_Publish
begin

text \<open>
  The pool tick of the association-set provider, \<open>asp/src/engine.ts\<close>, with the persisted state
  (\<open>types.ts\<close>) and the in-memory store (\<open>store.ts\<close>).

  The chain adapter and the store are records of programs over a world \<open>'w\<close> that the adapter's
  calls may change in any way and that may throw. Next to the world the tick's environment holds
  the file system for the manifests and the two optional objects that keep state between ticks, the
  continuity guard and the publication monitor. \<open>rt_iso\<close> and \<open>rt_ms\<close> are the runtime's
  clock as text and as milliseconds.
\<close>


section \<open>Persisted state and adapter\<close>

record PolicyDecisionRecord =
  dr_depositIndex :: nat
  dr_policy :: string
  dr_verdict :: PolicyVerdict
  dr_reason :: string
  dr_timestamp :: string

record PoolState =
  ps_poolId :: string
  ps_scope :: nat
  ps_approvedIndices :: "nat list"
  ps_rejectedIndices :: "nat list option"
  ps_deferredIndices :: "nat list option"
  ps_lastIndex :: int
  ps_lastLedger :: nat
  ps_decisions :: "PolicyDecisionRecord list option"
  ps_stateEventCursor :: "nat option"
  ps_stateLeaves :: "string option list option"

record StateTreeSnapshot =
  st_leaves :: "string list"
  st_eventCount :: nat
  st_events :: "(nat \<times> string) list option"
  st_cursor :: "nat option"

record 'w StateAdapter =
  readStateLeaves :: "nat \<Rightarrow> ('w, StateTreeSnapshot) prog"
  currentStateRoot :: "('w, string option) prog"
  postStateRoot :: "string \<Rightarrow> string \<Rightarrow> ('w, unit) prog"

text \<open>The three state-tree calls are optional and used only when all of them are there.\<close>

record 'w ChainAdapter =
  readDeposits :: "int \<Rightarrow> nat \<Rightarrow> ('w, Deposit list) prog"
  currentAspRoot :: "('w, string option) prog"
  postAspRoot :: "string \<Rightarrow> string \<Rightarrow> ('w, unit) prog"
  adapter_latestLedger :: "('w, nat) prog"
  state_adapter :: "'w StateAdapter option"

record 'w Store =
  store_load :: "string \<Rightarrow> ('w, PoolState option) prog"
  store_save :: "PoolState \<Rightarrow> ('w, unit) prog"

text \<open>\<open>MemoryStore\<close>\<close>

definition MemoryStore_load :: "string \<Rightarrow> ((string \<times> PoolState) list, PoolState option) prog" where
  "MemoryStore_load poolId = gets (\<lambda>states. map_of states poolId)"

definition MemoryStore_save :: "PoolState \<Rightarrow> ((string \<times> PoolState) list, unit) prog" where
  "MemoryStore_save state = upd (AList.update (ps_poolId state) state)"


section \<open>Configuration, result and environment\<close>

datatype TickPolicy = Plain Policy | Engine PolicyEngine

record 'w TickConfig =
  tc_poolId :: string
  tc_scope :: nat
  tc_adapter :: "'w ChainAdapter"
  tc_store :: "'w Store"
  tc_policy :: TickPolicy
  tc_dataDir :: "string option"
  tc_confirmations :: "int option"
  tc_now :: "('w, string) prog option"
  rt_iso :: "('w, string) prog"
  rt_ms :: "('w, nat) prog"
  rt_mtime :: "string \<Rightarrow> rat option"

record TickResult =
  tr_poolId :: string
  tr_approvedCount :: nat
  tr_newlyApproved :: nat
  tr_rejectedCount :: nat
  tr_newlyRejected :: nat
  tr_deferredCount :: nat
  tr_localRoot :: string
  tr_onChainRoot :: "string option"
  tr_published :: bool
  tr_stateLeafCount :: "nat option"
  tr_stateRoot :: "string option"
  tr_onChainStateRoot :: "string option option"
  tr_statePublished :: bool
  tr_haltedForReorg :: bool
  tr_staleAlert :: "PublicationAlert option"

record 'w TickEnv =
  te_world :: 'w
  te_fs :: fs
  te_guard :: "ReorgGuard option"
  te_monitor :: "PublicationMonitor option"

definition on_world :: "('w, 'a) prog \<Rightarrow> ('w TickEnv, 'a) prog" where
  "on_world m = on_part te_world (\<lambda>w s. s\<lparr>te_world := w\<rparr>) m"

definition on_fs :: "(fs, 'a) prog \<Rightarrow> ('w TickEnv, 'a) prog" where
  "on_fs m = on_part te_fs (\<lambda>f s. s\<lparr>te_fs := f\<rparr>) m"

definition initState :: "string \<Rightarrow> nat \<Rightarrow> PoolState" where
  "initState poolId scope =
     \<lparr>ps_poolId = poolId, ps_scope = scope, ps_approvedIndices = [], ps_rejectedIndices = Some [],
      ps_deferredIndices = Some [], ps_lastIndex = -1, ps_lastLedger = 0, ps_decisions = Some [],
      ps_stateEventCursor = None, ps_stateLeaves = None\<rparr>"

definition confirmedDeposits :: "'w ChainAdapter \<Rightarrow> Deposit list \<Rightarrow> int \<Rightarrow> ('w, Deposit list) prog" where
  "confirmedDeposits adapter deposits confirmations =
     (if confirmations \<le> 1 \<or> deposits = [] then ret deposits
      else bnd (adapter_latestLedger adapter) (\<lambda>latest.
        let maxFinalLedger = int latest - confirmations + 1
        in ret (filter (\<lambda>d. int (dep_ledger d) \<le> maxFinalLedger) deposits)))"


section \<open>Screening\<close>

record Screening =
  sc_approved :: "nat list"
  sc_rejected :: "nat list"
  sc_deferred :: "nat list"
  sc_lastIndex :: int
  sc_lastLedger :: nat
  sc_decisions :: "PolicyDecisionRecord list"
  sc_newlyApproved :: nat
  sc_newlyRejected :: nat

definition now_of :: "'w TickConfig \<Rightarrow> ('w, string) prog" where
  "now_of cfg = (case tc_now cfg of Some m \<Rightarrow> m | None \<Rightarrow> rt_iso cfg)"

definition evaluate_deposit :: "'w TickConfig \<Rightarrow> Deposit \<Rightarrow> ('w, PolicyVerdict \<times> PolicyDecision list) prog" where
  "evaluate_deposit cfg dep =
     (case tc_policy cfg of
        Engine engine \<Rightarrow> bnd (rt_iso cfg) (\<lambda>ts. of_res (evaluate engine dep ts))
      | Plain policy \<Rightarrow>
          bnd (of_res (pol_screen policy dep)) (\<lambda>screened.
          bnd (now_of cfg) (\<lambda>ts.
          ret (screened, [\<lparr>pd_policy = pol_name policy, pd_deposit = dep, pd_verdict = screened,
                           pd_reason = reason_for policy dep screened, pd_timestamp = ts\<rparr>]))))"

definition decision_record :: "Deposit \<Rightarrow> PolicyDecision \<Rightarrow> PolicyDecisionRecord" where
  "decision_record dep d =
     \<lparr>dr_depositIndex = dep_index dep, dr_policy = pd_policy d, dr_verdict = pd_verdict d,
      dr_reason = pd_reason d, dr_timestamp = pd_timestamp d\<rparr>"

definition apply_verdict :: "Deposit \<Rightarrow> PolicyVerdict \<Rightarrow> PolicyDecision list \<Rightarrow> Screening \<Rightarrow> Screening" where
  "apply_verdict dep verdict decisions sc =
     (let sc1 = sc\<lparr>sc_decisions := sc_decisions sc @ map (decision_record dep) decisions\<rparr>;
          sc2 = (case verdict of
             Approve \<Rightarrow> sc1\<lparr>sc_approved := sc_approved sc1 @ [dep_index dep], sc_newlyApproved := sc_newlyApproved sc1 + 1\<rparr>
           | Reject \<Rightarrow> sc1\<lparr>sc_rejected := sc_rejected sc1 @ [dep_index dep], sc_newlyRejected := sc_newlyRejected sc1 + 1\<rparr>
           | Defer \<Rightarrow> sc1\<lparr>sc_deferred := set_add (dep_index dep) (sc_deferred sc1)\<rparr>);
          sc3 = (if verdict \<noteq> Defer then sc2\<lparr>sc_lastIndex := max (sc_lastIndex sc2) (int (dep_index dep))\<rparr> else sc2)
      in sc3\<lparr>sc_lastLedger := max (sc_lastLedger sc3) (dep_ledger dep)\<rparr>)"

text \<open>
  One pass of the loop. The sets \<open>approved\<close> and \<open>rejected\<close> start as the state's lists and are
  extended together with them, so membership is read off the lists.
\<close>

fun screen_deposits :: "'w TickConfig \<Rightarrow> Deposit list \<Rightarrow> Screening \<Rightarrow> ('w, Screening) prog" where
  "screen_deposits cfg [] sc = ret sc"
| "screen_deposits cfg (dep # deps) sc =
     (if dep_index dep \<in> set (sc_approved sc) \<or> dep_index dep \<in> set (sc_rejected sc)
      then screen_deposits cfg deps sc
      else bnd (evaluate_deposit cfg dep) (\<lambda>(verdict, decisions).
           screen_deposits cfg deps (apply_verdict dep verdict decisions sc)))"

definition start_screening :: "PoolState \<Rightarrow> Screening" where
  "start_screening state =
     \<lparr>sc_approved = ps_approvedIndices state,
      sc_rejected = (case ps_rejectedIndices state of Some r \<Rightarrow> r | None \<Rightarrow> []),
      sc_deferred = [], sc_lastIndex = ps_lastIndex state, sc_lastLedger = ps_lastLedger state,
      sc_decisions = (case ps_decisions state of Some d \<Rightarrow> d | None \<Rightarrow> []),
      sc_newlyApproved = 0, sc_newlyRejected = 0\<rparr>"

definition finish_screening :: "PoolState \<Rightarrow> Screening \<Rightarrow> PoolState" where
  "finish_screening state sc =
     state\<lparr>ps_approvedIndices := sc_approved sc, ps_rejectedIndices := Some (sort (sc_rejected sc)),
           ps_deferredIndices := Some (sort (sc_deferred sc)), ps_lastIndex := sc_lastIndex sc,
           ps_lastLedger := sc_lastLedger sc, ps_decisions := Some (sc_decisions sc)\<rparr>"

definition read_and_screen :: "'w TickConfig \<Rightarrow> PoolState \<Rightarrow> ('w, Deposit list \<times> Screening) prog" where
  "read_and_screen cfg state =
     (let deferred = (case ps_deferredIndices state of Some d \<Rightarrow> d | None \<Rightarrow> []);
          readAfterIndex = (if deferred \<noteq> [] then -1 else ps_lastIndex state)
      in bnd (readDeposits (tc_adapter cfg) readAfterIndex (ps_lastLedger state)) (\<lambda>read.
         bnd (confirmedDeposits (tc_adapter cfg) read (case tc_confirmations cfg of Some c \<Rightarrow> c | None \<Rightarrow> 0)) (\<lambda>deposits.
         bnd (screen_deposits cfg deposits (start_screening state)) (\<lambda>sc.
         ret (deposits, sc)))))"


section \<open>Publishing\<close>

text \<open>The continuity check before publishing: \<open>True\<close> means that publication is halted.\<close>

definition check_continuity :: "Deposit list \<Rightarrow> nat \<Rightarrow> ('w TickEnv, bool) prog" where
  "check_continuity deposits lastLedger =
     bnd (gets te_guard) (\<lambda>guard.
       case guard of
         Some g \<Rightarrow>
           if deposits = [] then ret False
           else let latest = Max (set (map dep_ledger deposits));
                    (broken, g') = guard_validate lastLedger g
                in if broken \<noteq> None then bnd (upd (\<lambda>s. s\<lparr>te_guard := Some g'\<rparr>)) (\<lambda>_. ret True)
                   else bnd (upd (\<lambda>s. s\<lparr>te_guard := Some (guard_commit latest g')\<rparr>)) (\<lambda>_. ret False)
       | None \<Rightarrow> ret False)"

definition record_published :: "'w TickConfig \<Rightarrow> string \<Rightarrow> nat \<Rightarrow> ('w TickEnv, unit) prog" where
  "record_published cfg localRoot ledger =
     bnd (gets te_monitor) (\<lambda>monitor.
       case monitor of
         Some m \<Rightarrow> bnd (on_world (rt_ms cfg)) (\<lambda>t.
           upd (\<lambda>s. s\<lparr>te_monitor := Some (recordPublication (of_nat t) localRoot ledger m)\<rparr>))
       | None \<Rightarrow> ret ())"

definition publish_set ::
  "(byte list \<Rightarrow> byte list) \<Rightarrow> 'w TickConfig \<Rightarrow> AssociationSet \<Rightarrow> string \<Rightarrow> nat \<Rightarrow> string option \<Rightarrow> ('w TickEnv, bool) prog" where
  "publish_set sha256 cfg aset localRoot lastLedger onChainRoot =
     (if as_size aset > 0 \<and> Some localRoot \<noteq> onChainRoot
      then bnd (on_world (now_of cfg)) (\<lambda>ts.
           let manifest = as_manifest aset (tc_poolId cfg) ts in
           bnd (case tc_dataDir cfg of
                  Some dir \<Rightarrow> if dir = [] then ret ()
                    else bnd (on_world (rt_ms cfg)) (\<lambda>t.
                         bnd (on_fs (writeManifest sha256 (rt_mtime cfg) t dir manifest None DEFAULT_MAX_SETS_PER_POOL)) (\<lambda>_. ret ()))
                | None \<Rightarrow> ret ()) (\<lambda>_.
           bnd (of_res (computeDatasetHash sha256 localRoot (sm_labels manifest))) (\<lambda>hash.
           bnd (on_world (postAspRoot (tc_adapter cfg) localRoot hash)) (\<lambda>_.
           bnd (record_published cfg localRoot lastLedger) (\<lambda>_. ret True)))))
      else ret False)"

definition check_stale :: "'w TickConfig \<Rightarrow> ('w TickEnv, PublicationAlert option) prog" where
  "check_stale cfg =
     bnd (gets te_monitor) (\<lambda>monitor.
       case monitor of
         Some m \<Rightarrow> if pm_lastPublishedAt m = 0 then ret None
           else bnd (on_world (rt_ms cfg)) (\<lambda>t. ret (monitor_check (of_nat t) m))
       | None \<Rightarrow> ret None)"


section \<open>The state tree\<close>

text \<open>\<open>xs[i] = v\<close> on an array: a gap below the index is filled with holes.\<close>

definition js_set :: "nat \<Rightarrow> 'a \<Rightarrow> 'a option list \<Rightarrow> 'a option list" where
  "js_set i v xs =
     (if i < length xs then xs[i := Some v] else xs @ replicate (i - length xs) None @ [Some v])"

definition merge_snapshot :: "PoolState \<Rightarrow> StateTreeSnapshot \<Rightarrow> PoolState" where
  "merge_snapshot state snapshot =
     (let accumulated = (case ps_stateLeaves state of Some l \<Rightarrow> l | None \<Rightarrow> []);
          merged = (case st_events snapshot of
             Some events \<Rightarrow> state\<lparr>ps_stateLeaves := Some (foldl (\<lambda>ls (i, leaf). js_set i leaf ls) accumulated events)\<rparr>
           | None \<Rightarrow> if (case ps_stateEventCursor state of Some c \<Rightarrow> c | None \<Rightarrow> 0) = 0
               then state\<lparr>ps_stateLeaves := Some (map Some (st_leaves snapshot))\<rparr> else state)
      in case st_cursor snapshot of Some c \<Rightarrow> merged\<lparr>ps_stateEventCursor := Some c\<rparr> | None \<Rightarrow> merged)"

definition leaf_value :: "string option \<Rightarrow> int res" where
  "leaf_value leaf =
     (case leaf of Some s \<Rightarrow> js_BigInt_str s | None \<Rightarrow> Inl (TypeError ''Cannot convert undefined to a BigInt''))"

fun insert_leaves :: "string option list \<Rightarrow> MerkleTree \<Rightarrow> MerkleTree res" where
  "insert_leaves [] t = Inr t"
| "insert_leaves (l # ls) t =
     res_bind (leaf_value l) (\<lambda>v. res_bind (mt_insert v t) (\<lambda>(_, t'). insert_leaves ls t'))"

definition dataset_hash_leaves :: "(byte list \<Rightarrow> byte list) \<Rightarrow> string \<Rightarrow> string option list \<Rightarrow> string res" where
  "dataset_hash_leaves sha256 rt leaves =
     (if None \<in> set leaves then Inl (TypeError ''Cannot convert undefined to a BigInt'')
      else computeDatasetHash sha256 rt (map the leaves))"

definition state_tick ::
  "poseidon \<Rightarrow> (byte list \<Rightarrow> byte list) \<Rightarrow> 'w StateAdapter \<Rightarrow> PoolState \<Rightarrow>
   ('w, PoolState \<times> nat \<times> string option \<times> string option option \<times> bool) prog" where
  "state_tick poseidon sha256 adapter state =
     bnd (readStateLeaves adapter (case ps_stateEventCursor state of Some c \<Rightarrow> c | None \<Rightarrow> 0)) (\<lambda>snapshot.
     let state' = merge_snapshot state snapshot;
         leaves = (case ps_stateLeaves state' of Some l \<Rightarrow> l | None \<Rightarrow> map Some (st_leaves snapshot))
     in if st_eventCount snapshot > 0 \<or> length leaves > 0
        then bnd (of_res (insert_leaves leaves (new_MerkleTree poseidon TREE_DEPTH))) (\<lambda>tree.
             let stateRoot = toHex32 (mt_root tree) in
             bnd (currentStateRoot adapter) (\<lambda>onChain.
             if Some stateRoot \<noteq> onChain
             then bnd (of_res (dataset_hash_leaves sha256 stateRoot leaves)) (\<lambda>hash.
                  bnd (postStateRoot adapter stateRoot hash) (\<lambda>_.
                  ret (state', length leaves, Some stateRoot, Some onChain, True)))
             else ret (state', length leaves, Some stateRoot, Some onChain, False)))
        else ret (state', length leaves, None, None, False))"


section \<open>The tick\<close>

definition tick_result :: "'w TickConfig \<Rightarrow> PoolState \<Rightarrow> Screening \<Rightarrow> string \<Rightarrow> string option \<Rightarrow> TickResult" where
  "tick_result cfg state sc localRoot onChainRoot =
     \<lparr>tr_poolId = tc_poolId cfg, tr_approvedCount = length (ps_approvedIndices state),
      tr_newlyApproved = sc_newlyApproved sc,
      tr_rejectedCount = length (case ps_rejectedIndices state of Some r \<Rightarrow> r | None \<Rightarrow> []),
      tr_newlyRejected = sc_newlyRejected sc,
      tr_deferredCount = length (case ps_deferredIndices state of Some d \<Rightarrow> d | None \<Rightarrow> []),
      tr_localRoot = localRoot, tr_onChainRoot = onChainRoot, tr_published = False, tr_stateLeafCount = None,
      tr_stateRoot = None, tr_onChainStateRoot = None, tr_statePublished = False, tr_haltedForReorg = False,
      tr_staleAlert = None\<rparr>"

definition run_state_tick ::
  "poseidon \<Rightarrow> (byte list \<Rightarrow> byte list) \<Rightarrow> 'w TickConfig \<Rightarrow> PoolState \<Rightarrow>
   ('w TickEnv, PoolState \<times> nat option \<times> string option \<times> string option option \<times> bool) prog" where
  "run_state_tick poseidon sha256 cfg state =
     (case state_adapter (tc_adapter cfg) of
        None \<Rightarrow> ret (state, None, None, None, False)
      | Some adapter \<Rightarrow> bnd (on_world (state_tick poseidon sha256 adapter state)) (\<lambda>(state', n, r, onChain, posted).
          ret (state', Some n, r, onChain, posted)))"

definition runPoolTick ::
  "poseidon \<Rightarrow> (byte list \<Rightarrow> byte list) \<Rightarrow> 'w TickConfig \<Rightarrow> ('w TickEnv, TickResult) prog" where
  "runPoolTick poseidon sha256 cfg =
     bnd (on_world (store_load (tc_store cfg) (tc_poolId cfg))) (\<lambda>loaded.
     let state0 = (case loaded of Some s \<Rightarrow> s | None \<Rightarrow> initState (tc_poolId cfg) (tc_scope cfg)) in
     bnd (on_world (read_and_screen cfg state0)) (\<lambda>(deposits, sc).
     let state = finish_screening state0 sc in
     bnd (of_res (as_add_all (ps_approvedIndices state) (as_create poseidon (tc_scope cfg)))) (\<lambda>aset.
     let localRoot = as_rootHex aset in
     bnd (check_continuity deposits (ps_lastLedger state)) (\<lambda>halted.
     if halted
     then bnd (on_world (store_save (tc_store cfg) state)) (\<lambda>_.
          bnd (on_world (currentAspRoot (tc_adapter cfg))) (\<lambda>onChainRoot.
          ret ((tick_result cfg state sc localRoot onChainRoot)\<lparr>tr_haltedForReorg := True\<rparr>)))
     else
     bnd (on_world (currentAspRoot (tc_adapter cfg))) (\<lambda>onChainRoot.
     bnd (publish_set sha256 cfg aset localRoot (ps_lastLedger state) onChainRoot) (\<lambda>published.
     bnd (check_stale cfg) (\<lambda>alert.
     bnd (run_state_tick poseidon sha256 cfg state) (\<lambda>(state', leafCount, stateRoot, onChainStateRoot, statePublished).
     bnd (on_world (store_save (tc_store cfg) state')) (\<lambda>_.
     ret ((tick_result cfg state' sc localRoot onChainRoot)
       \<lparr>tr_published := published, tr_stateLeafCount := leafCount, tr_stateRoot := stateRoot,
        tr_onChainStateRoot := onChainStateRoot, tr_statePublished := statePublished, tr_staleAlert := alert\<rparr>))))))))))"

end
