(* ===== verification/Asp_Publish_Props.thy ===== *)
theory Asp_Publish_Props
  imports Asp_Publish
begin

text \<open>
  Properties of publishing: the dataset hash covers root, count and labels without ambiguity, the
  manifest that clients read as the latest one is never torn and is served as it was written, and
  the inclusion endpoint and the signing of manifests, which cannot succeed as written.
\<close>


section \<open>The dataset hash\<close>

lemma length_low_bytes [simp]: "length (low_bytes n v) = n"
  by (induction n arbitrary: v) simp_all

lemma low_bytes_inj: "low_bytes n v = low_bytes n w \<longleftrightarrow> v mod 256 ^ n = w mod 256 ^ n"
proof (induction n arbitrary: v w)
  case (Suc n)
  have split: "z mod (256 * 256 ^ n) = 256 * (z div 256 mod 256 ^ n) + z mod 256" for z :: int
    by (rule zmod_zmult2_eq) simp
  have word: "(word_of_int v :: byte) = word_of_int w \<longleftrightarrow> v mod 256 = w mod 256"
    by (simp add: word_of_int_eq_iff take_bit_eq_mod)
  have pair: "256 * a + b = 256 * c + d \<longleftrightarrow> a = c \<and> b = d" if "0 \<le> b" "b < 256" "0 \<le> d" "d < 256" for a b c d :: int
  proof
    assume eq: "256 * a + b = 256 * c + d"
    have "b = (256 * a + b) mod 256" "d = (256 * c + d) mod 256" using that by simp_all
    with eq have "b = d" by simp
    with eq show "a = c \<and> b = d" by simp
  qed simp
  have "low_bytes (Suc n) v = low_bytes (Suc n) w \<longleftrightarrow>
      v div 256 mod 256 ^ n = w div 256 mod 256 ^ n \<and> v mod 256 = w mod 256"
    by (simp add: Suc word)
  also have "\<dots> \<longleftrightarrow> v mod (256 * 256 ^ n) = w mod (256 * 256 ^ n)"
    unfolding split by (subst pair) simp_all
  finally show ?case by simp
qed simp

lemma res_map_values: "res_map f xs = Inr ys \<Longrightarrow> map f xs = map Inr ys"
  by (induction xs arbitrary: ys) (auto simp: res_bind_eq_Inr)

lemma concat_low_bytes_inj:
  assumes "concat (map (low_bytes 32) vs) = concat (map (low_bytes 32) ws)" "length vs = length ws"
  shows "map (\<lambda>v. v mod 2 ^ 256) vs = map (\<lambda>v. v mod 2 ^ 256) ws"
  using assms(2,1) by (induction vs ws rule: list_induct2) (simp_all add: low_bytes_inj)

lemma buffer_hex_pairs: "list_all is_hex d \<Longrightarrow> even (length d) \<Longrightarrow> buffer_hex d = hex_pairs d"
  by (induction d rule: buffer_hex.induct) auto

lemma buffer_hex_root:
  assumes "is_hex32 r"
  shows "length (buffer_hex (strip_0x r)) = 32 \<and> ''0x'' @ concat (map hex2 (buffer_hex (strip_0x r))) = r"
proof -
  obtain d where d: "r = ''0x'' @ d" "length d = 64" "list_all (\<lambda>c. is_hex c \<and> lower_char c = c) d"
    using assms by (auto simp: is_hex32_iff)
  then have hex: "list_all is_hex d" by (auto simp: list_all_iff)
  have "to_lower d = d" using d(3) by (rule lower_id)
  then have "concat (map hex2 (hex_pairs d)) = d" using hex_pairs_lower [of d] hex d(2) by simp
  moreover have "length (hex_pairs d) = 32" using length_hex_pairs [of d] d(2) by simp
  ultimately show ?thesis using d hex by (simp add: buffer_hex_pairs)
qed

text \<open>
  The dataset hash covers exactly the published set. Two published roots with their label
  lists (fewer than \<open>2 ^ 32\<close> labels) whose hash inputs are the same bytes are the same root with the
  same number of labels and the same labels in the same order, as 256-bit values.
\<close>

lemma dataset_preimage_binds_set:
  assumes "is_hex32 r" "is_hex32 q" "length ls < 2 ^ 32" "length ks < 2 ^ 32"
    and "dataset_preimage r ls = Inr pre" "dataset_preimage q ks = Inr pre"
  shows "r = q \<and> length ls = length ks
    \<and> (\<exists>vs ws. map js_BigInt_str ls = map Inr vs \<and> map js_BigInt_str ks = map Inr ws
        \<and> map (\<lambda>v. v mod 2 ^ 256) vs = map (\<lambda>v. v mod 2 ^ 256) ws)"
proof -
  from assms(5) obtain vs where vs: "map js_BigInt_str ls = map Inr vs"
      "pre = be_bytes 4 (length ls) @ buffer_hex (strip_0x r) @ concat (map (low_bytes 32) vs)"
    by (auto simp: dataset_preimage_def res_bind_eq_Inr dest: res_map_values)
  from assms(6) obtain ws where ws: "map js_BigInt_str ks = map Inr ws"
      "pre = be_bytes 4 (length ks) @ buffer_hex (strip_0x q) @ concat (map (low_bytes 32) ws)"
    by (auto simp: dataset_preimage_def res_bind_eq_Inr dest: res_map_values)
  note roots = buffer_hex_root [OF assms(1)] buffer_hex_root [OF assms(2)]
  have eq: "be_bytes 4 (length ls) = be_bytes 4 (length ks)" "buffer_hex (strip_0x r) = buffer_hex (strip_0x q)"
      "concat (map (low_bytes 32) vs) = concat (map (low_bytes 32) ws)"
    using trans [OF vs(2) [symmetric] ws(2)] roots by (simp_all add: append_eq_append_conv)
  then have len: "length ls = length ks" using assms(3,4) by (simp add: be_bytes_inj)
  have "length vs = length ls" "length ws = length ks"
    using arg_cong [OF vs(1), of length] arg_cong [OF ws(1), of length] by simp_all
  then have "map (\<lambda>v. v mod 2 ^ 256) vs = map (\<lambda>v. v mod 2 ^ 256) ws"
    using concat_low_bytes_inj [OF eq(3)] len by simp
  moreover have "r = q" using roots eq(2) by metis
  ultimately show ?thesis using len vs(1) ws(1) by blast
qed

lemma dataset_preimage_binds_set_witness:
  "\<exists>pre. dataset_preimage (toHex32 5) [dec_of_int 1, dec_of_int 2] = Inr pre
    \<and> length [dec_of_int 1, dec_of_int 2] = length [dec_of_int 1, dec_of_int 2]"
proof -
  obtain pre where "dataset_preimage (toHex32 5) [dec_of_int 1, dec_of_int 2] = Inr pre"
    by (simp add: dataset_preimage_def)
  moreover from dataset_preimage_binds_set [OF _ _ _ _ this this] is_hex32_toHex32 [of 5]
  have "length [dec_of_int 1, dec_of_int 2] = length [dec_of_int 1, dec_of_int 2]" by simp
  ultimately show ?thesis by blast
qed


section \<open>The latest manifest\<close>

lemma wp_fs_keep:
  assumes "done_with p old new s" "map_of (f (fs_files s)) p = map_of (fs_files s) p"
  shows "wp (fs_call f) (\<lambda>_. done_with p old new) (\<lambda>_. done_with p old new) s"
  using assms by (intro wp_fs_call) (auto simp: done_with_def)

lemma prunable_not_latest: "f \<in> set (newest_first t (filter prunable fs)) \<Longrightarrow> f \<noteq> ''latest.json''"
  by (auto simp: newest_first_def prunable_def)

lemma wp_prune:
  assumes "done_with (dir @ ''/latest.json'') old new s"
  shows "wp (pruneOldSets mtime dir maxKeep) (\<lambda>_. done_with (dir @ ''/latest.json'') old new) (\<lambda>_ _. False) s"
proof -
  let ?D = "done_with (dir @ ''/latest.json'') old new"
  let ?cs = "newest_first (\<lambda>f. mtime (dir @ ''/'' @ f)) (filter prunable (readdir dir (fs_files s)))"
  have each: "wp (try_catch (unlinkSync (dir @ ''/'' @ f)) (\<lambda>_. ret ())) (\<lambda>_. ?D) (\<lambda>_ _. False) s'"
    if "f \<noteq> ''latest.json''" "?D s'" for f s'
    unfolding unlinkSync_def
    by (rule wp_catchI [where R = "\<lambda>_. ?D"], rule wp_fs_keep) (use that in \<open>auto\<close>)
  have "wp (prog_iter (\<lambda>f. try_catch (unlinkSync (dir @ ''/'' @ f)) (\<lambda>_. ret ())) fs) (\<lambda>_. ?D) (\<lambda>_ _. False) s'"
    if "\<forall>f \<in> set fs. f \<noteq> ''latest.json''" "?D s'" for fs s'
    using that each by (intro wp_prog_iter) auto
  moreover have "\<forall>f \<in> set (drop maxKeep ?cs). f \<noteq> ''latest.json''"
    using prunable_not_latest by (metis in_set_dropD)
  ultimately have "wp (if length ?cs > maxKeep
      then prog_iter (\<lambda>f. try_catch (unlinkSync (dir @ ''/'' @ f)) (\<lambda>_. ret ())) (drop maxKeep ?cs) else ret ())
      (\<lambda>_. ?D) (\<lambda>_ _. False) s"
    using assms by simp
  then show ?thesis by (simp only: pruneOldSets_def wp_def Let_def)
qed

lemma wp_writeFile:
  assumes "not_yet p old new s" "q \<noteq> p"
  shows "wp (writeFileSync q new) (\<lambda>_ s. not_yet p old new s \<and> map_of (fs_files s) q = Some new) (\<lambda>_. not_yet p old new) s"
  unfolding writeFileSync_def openSync_def
  by (rule wp_bndI [OF wp_fs_any [OF assms(1)]]) (use assms(2) in \<open>auto intro: wp_fs_call_not_yet\<close>)

lemma wp_rename_other:
  assumes "not_yet p old new s" "p \<noteq> src" "p \<noteq> dst"
  shows "wp (renameSync src dst) (\<lambda>_. not_yet p old new) (\<lambda>_. not_yet p old new) s"
proof (cases "map_of (fs_files s) src")
  case (Some c)
  have "wp (fs_call (\<lambda>m. if src = dst then m else AList.update dst c (AList.delete src m)))
      (\<lambda>_. not_yet p old new) (\<lambda>_. not_yet p old new) s"
    by (rule wp_fs_any [OF assms(1)]) (use assms(2,3) in simp)
  with Some show ?thesis by (simp add: wp_def renameSync_def)
qed (use assms(1) in \<open>simp add: wp_def renameSync_def\<close>)

lemma temp_not_latest: "x @ ''.tmp.'' @ dec_of_nat n \<noteq> y @ ''latest.json''"
proof
  assume "x @ ''.tmp.'' @ dec_of_nat n = y @ ''latest.json''"
  then have "last (dec_of_nat n) = CHR ''n''" by (metis append_is_Nil_conv dec_of_nat_nonempty last_appendR last.simps list.distinct(1))
  then show False using last_dec_of_nat [of n] by (simp add: is_digit_def)
qed

lemma wp_writeManifest:
  assumes "not_yet (set_dir dataDir (sm_poolId m) @ ''/latest.json'') old (json_stringify (manifest_json m) @ newline) s"
    and "sm_root m \<noteq> ''latest''"
  shows "wp (writeManifest sha256 mtime now dataDir m None maxKeep)
    (\<lambda>_. done_with (set_dir dataDir (sm_poolId m) @ ''/latest.json'') old (json_stringify (manifest_json m) @ newline))
    (\<lambda>_. not_yet (set_dir dataDir (sm_poolId m) @ ''/latest.json'') old (json_stringify (manifest_json m) @ newline)) s"
proof -
  let ?dir = "set_dir dataDir (sm_poolId m)" and ?new = "json_stringify (manifest_json m) @ newline"
  let ?latest = "?dir @ ''/latest.json''" and ?rootPath = "?dir @ ''/'' @ sm_root m @ ''.json''"
  let ?I = "not_yet ?latest old ?new" and ?D = "done_with ?latest old ?new"
  let ?tmp = "?rootPath @ ''.tmp.'' @ dec_of_nat now" and ?ltmp = "?latest @ ''.tmp.'' @ dec_of_nat now"
  have neq: "?tmp \<noteq> ?latest" "?ltmp \<noteq> ?latest" "?rootPath \<noteq> ?latest"
    using temp_not_latest [of ?rootPath now "?dir @ ''/''"] temp_not_latest [of ?latest now "?dir @ ''/''"] assms(2)
    by auto
  have mkdir: "wp mkdirSync (\<lambda>_. ?I) (\<lambda>_. ?I) s"
    unfolding mkdirSync_def using assms(1) by (intro wp_fs_any) auto
  have prune: "wp (bnd (pruneOldSets mtime ?dir maxKeep) (\<lambda>_. ret ?rootPath)) (\<lambda>_. ?D) (\<lambda>_. ?I) s'" if "?D s'" for s'
    by (rule wp_bndI [where R = "\<lambda>_. ?D"], rule wp_mono [OF wp_prune [OF that]]) simp_all
  have latest: "wp (bnd (writeFileSync ?ltmp ?new) (\<lambda>_. bnd (renameSync ?ltmp ?latest) (\<lambda>_.
      bnd (pruneOldSets mtime ?dir maxKeep) (\<lambda>_. ret ?rootPath)))) (\<lambda>_. ?D) (\<lambda>_. ?I) s'" if "?I s'" for s'
    by (rule wp_bndI [OF wp_writeFile [OF that neq(2)]], elim conjE,
        rule wp_bndI [OF wp_rename [OF _ _ neq(2)]], assumption, assumption, rule prune)
  have "wp (bnd (writeFileSync ?tmp ?new) (\<lambda>_. bnd (renameSync ?tmp ?rootPath) (\<lambda>_.
      bnd (writeFileSync ?ltmp ?new) (\<lambda>_. bnd (renameSync ?ltmp ?latest) (\<lambda>_.
      bnd (pruneOldSets mtime ?dir maxKeep) (\<lambda>_. ret ?rootPath)))))) (\<lambda>_. ?D) (\<lambda>_. ?I) s'" if "?I s'" for s'
    by (rule wp_bndI [OF wp_writeFile [OF that neq(1)]], elim conjE,
        rule wp_bndI [OF wp_rename_other [OF _ neq(1) [symmetric] neq(3) [symmetric]]], assumption, rule latest)
  note rest = this
  show ?thesis
    unfolding writeManifest_def Let_def option.case
    by (rule wp_bndI [OF mkdir], rule wp_bndI [where R = "\<lambda>v s'. ?I s' \<and> v = manifest_json m"], simp,
        elim conjE, hypsubst, rule rest)
qed

text \<open>
  The latest manifest is never torn and is served as published. Whatever file-system calls
  fail and wherever the process dies, every state in between shows \<open>latest.json\<close> with its old
  contents or with the complete new manifest; when the write returns the new one is there, when it
  throws the old one still is, and after a successful write the endpoint for the latest manifest
  answers 200 with exactly the published manifest.
\<close>

lemma latest_manifest_never_torn:
  assumes "fs_seen s = []" "sm_root m \<noteq> ''latest''" "json_printable (manifest_json m)"
    and "writeManifest sha256 mtime now dataDir m None maxKeep s = (r, s')"
  defines "p \<equiv> manifestPath dataDir (sm_poolId m) ''latest.json''"
  defines "new \<equiv> json_stringify (manifest_json m) @ newline"
  shows "(\<forall>snap \<in> set (fs_seen s'). map_of snap p \<in> {map_of (fs_files s) p, Some new})
    \<and> map_of (fs_files s') p = (case r of Inr _ \<Rightarrow> Some new | Inl _ \<Rightarrow> map_of (fs_files s) p)
    \<and> (\<forall>path. r = Inr path \<and> fs_faults s' = [] \<longrightarrow>
         fst (readLatestManifest dataDir (sm_poolId m) s') = Inr \<lparr>mr_status = 200, mr_body = manifest_json m\<rparr>)"
proof -
  have p: "p = set_dir dataDir (sm_poolId m) @ ''/latest.json''" by (simp add: p_def manifestPath_def set_dir_def)
  have "wp (writeManifest sha256 mtime now dataDir m None maxKeep)
      (\<lambda>_. done_with p (map_of (fs_files s) p) new) (\<lambda>_. not_yet p (map_of (fs_files s) p) new) s"
    unfolding p new_def by (rule wp_writeManifest) (simp_all add: not_yet_def assms(1,2))
  then have held: "(\<forall>snap \<in> set (fs_seen s'). map_of snap p \<in> {map_of (fs_files s) p, Some new})
      \<and> map_of (fs_files s') p = (case r of Inr _ \<Rightarrow> Some new | Inl _ \<Rightarrow> map_of (fs_files s) p)"
    using assms(4) by (cases r) (force simp: done_with_def not_yet_def dest: wp_InrD wp_InlD)+
  have parse: "json_parse new = Inr (manifest_json m)"
    unfolding new_def newline_def by (rule json_parse_stringify_line [OF assms(3)])
  have "fst (readLatestManifest dataDir (sm_poolId m) s') = Inr \<lparr>mr_status = 200, mr_body = manifest_json m\<rparr>"
    if "r = Inr path" "fs_faults s' = []" for path
  proof -
    have "map_of (fs_files s') p = Some new" using held that(1) by simp
    then have "fst (loadManifest dataDir (sm_poolId m) ''latest.json'' s') = Inr (Some (manifest_json m))"
      using that(2) parse
      by (simp add: loadManifest_def p_def Let_def readFileSync_def fs_call_ok run_simps)
    moreover have "present (Some (manifest_json m)) = Some (manifest_json m)"
      by (simp add: present_def js_falsy_def manifest_json_def)
    ultimately show ?thesis
      by (cases "loadManifest dataDir (sm_poolId m) ''latest.json'' s'") (simp add: readLatestManifest_def bnd_def)
  qed
  with held show ?thesis by blast
qed

definition example_manifest :: SetManifest where
  "example_manifest = \<lparr>sm_poolId = ''pool'', sm_root = toHex32 5, sm_version = 1, sm_levels = 20, sm_labels = [dec_of_int 7],
     sm_indices = [0], sm_generatedAt = ''now''\<rparr>"

lemma latest_manifest_never_torn_witness:
  "\<exists>r s'. writeManifest (\<lambda>b. b) (\<lambda>_. None) 1 ''data'' example_manifest None 50 (example_fs [None, Some (Error ''EIO'')]) = (r, s')
    \<and> (\<forall>snap \<in> set (fs_seen s'). map_of snap (manifestPath ''data'' ''pool'' ''latest.json'') \<in>
         {None, Some (json_stringify (manifest_json example_manifest) @ newline)})"
proof -
  let ?s = "example_fs [None, Some (Error ''EIO'')]"
  obtain r s' where run: "writeManifest (\<lambda>b. b) (\<lambda>_. None) 1 ''data'' example_manifest None 50 ?s = (r, s')"
    by (metis prod.exhaust)
  have "fs_seen ?s = []" "sm_root example_manifest \<noteq> ''latest''" "json_printable (manifest_json example_manifest)"
    by (simp_all add: example_fs_def example_manifest_def manifest_json_def toHex32_def)
  from latest_manifest_never_torn [OF this run] run
  have "\<forall>snap \<in> set (fs_seen s'). map_of snap (manifestPath ''data'' ''pool'' ''latest.json'') \<in>
         {None, Some (json_stringify (manifest_json example_manifest) @ newline)}"
    by (auto simp: example_manifest_def example_fs_def manifestPath_def)
  with run show ?thesis by blast
qed


section \<open>Retention\<close>

text \<open>Pruning keeps the newest \<open>maxKeep\<close> set files: whatever is dropped is no newer than what is kept.\<close>

lemma pruned_no_newer_than_kept:
  assumes "f \<in> set (take maxKeep (newest_first mtime fs))" "g \<in> set (drop maxKeep (newest_first mtime fs))"
  shows "(case mtime g of Some t \<Rightarrow> t | None \<Rightarrow> 0) \<le> (case mtime f of Some t \<Rightarrow> t | None \<Rightarrow> (0 :: rat))"
proof -
  let ?k = "\<lambda>f. - (case mtime f of Some t \<Rightarrow> t | None \<Rightarrow> (0 :: rat))"
  have "sorted (map ?k (take maxKeep (sort_key ?k fs)) @ map ?k (drop maxKeep (sort_key ?k fs)))"
    by (metis append_take_drop_id map_append sorted_sort_key)
  then have "?k f \<le> ?k g"
    unfolding sorted_append using assms by (fastforce simp: newest_first_def)
  then show ?thesis by simp
qed


section \<open>What cannot succeed as written\<close>

text \<open>A manifest of the declared type has no dataset hash, so signing one throws.\<close>

lemma signing_manifest_throws:
  "signManifest sha256 (manifest_json m) key = Inl (TypeError ''The data argument must be of type string'')"
  by (simp add: signManifest_def hash_update_def manifest_json_def jv_get_def is_string_def)

text \<open>
  The inclusion endpoint never answers 200: the labels are passed where the tree class expects its
  depth, so the tree is empty.
\<close>

lemma inclusion_endpoint_never_succeeds:
  assumes "readInclusion poseidon dataDir poolId rt label s = (Inr res, s')"
  shows "mr_status res \<noteq> 200"
proof -
  have "wp (readInclusion poseidon dataDir poolId rt label) (\<lambda>res _. mr_status res \<noteq> 200) (\<lambda>_ _. True) s"
    unfolding readInclusion_def
    by (simp, intro impI, rule wp_mono [OF wp_True])
      (auto simp: Let_def split: option.split sum.split)
  then show ?thesis using assms by (rule wp_InrD)
qed

end
