(* ===== verification/Asp_Engine_Props.thy ===== *)
theory Asp_Engine_Props
  imports Asp_Engine Asp_Publish_Props
begin

text \<open>
  Properties of the pool tick. The store is an interface (\<open>pool_store\<close>): loading returns what was
  saved. Over it a tick keeps the persisted state well formed on every path, including the ones
  that throw, and only ever extends the approved list, so that leaf positions are stable. Of the
  chain, the second property assumes that the root read back is the one posted last.
\<close>


section \<open>Calls that leave an observation alone\<close>

definition keeps :: "('w \<Rightarrow> 'o) \<Rightarrow> ('w, 'a) prog \<Rightarrow> bool" where
  "keeps f m \<longleftrightarrow> (\<forall>w. f (snd (m w)) = f w)"

lemma wp_keeps: "keeps f m \<Longrightarrow> f w = before \<Longrightarrow> wp m (\<lambda>_ w'. f w' = before) (\<lambda>_ w'. f w' = before) w"
  by (auto simp: keeps_def wp_def split: prod.split sum.split) (metis snd_conv)+

text \<open>The calls of a tick other than reading and posting the association root and the store.\<close>

definition quiet :: "('w \<Rightarrow> 'o) \<Rightarrow> 'w TickConfig \<Rightarrow> bool" where
  "quiet f cfg \<longleftrightarrow>
     (\<forall>i l. keeps f (readDeposits (tc_adapter cfg) i l)) \<and> keeps f (adapter_latestLedger (tc_adapter cfg))
   \<and> keeps f (rt_iso cfg) \<and> keeps f (rt_ms cfg) \<and> (\<forall>m. tc_now cfg = Some m \<longrightarrow> keeps f m)
   \<and> (\<forall>a. state_adapter (tc_adapter cfg) = Some a \<longrightarrow>
        (\<forall>c. keeps f (readStateLeaves a c)) \<and> keeps f (currentStateRoot a) \<and> (\<forall>r h. keeps f (postStateRoot a r h)))"

lemma quiet_now: "quiet f cfg \<Longrightarrow> keeps f (now_of cfg)"
  by (auto simp: quiet_def now_of_def split: option.split)


section \<open>Screening\<close>

definition approves :: "'w TickConfig \<Rightarrow> Deposit \<Rightarrow> bool" where
  "approves cfg dep \<longleftrightarrow>
     (case tc_policy cfg of
        Plain p \<Rightarrow> pol_screen p dep = Inr Approve
      | Engine e \<Rightarrow> (\<exists>ts ds. evaluate e dep ts = Inr (Approve, ds)))"

definition lists_ok :: "nat list \<Rightarrow> nat list \<Rightarrow> nat list \<Rightarrow> bool" where
  "lists_ok app rej dfr \<longleftrightarrow> distinct app \<and> distinct rej \<and> set app \<inter> set rej = {} \<and> distinct dfr"

definition screened :: "'w TickConfig \<Rightarrow> Screening \<Rightarrow> Screening \<Rightarrow> bool" where
  "screened cfg sc sc' \<longleftrightarrow>
     lists_ok (sc_approved sc') (sc_rejected sc') (sc_deferred sc')
   \<and> (\<exists>new. sc_approved sc' = sc_approved sc @ new \<and> (\<forall>i \<in> set new. \<exists>dep. dep_index dep = i \<and> approves cfg dep)
         \<and> sc_newlyApproved sc' = sc_newlyApproved sc + length new)
   \<and> set (sc_rejected sc) \<subseteq> set (sc_rejected sc') \<and> sc_lastLedger sc \<le> sc_lastLedger sc'"

lemma screened_trans: "screened cfg a b \<Longrightarrow> screened cfg b c \<Longrightarrow> screened cfg a c"
  by (fastforce simp: screened_def)

lemma screened_apply:
  assumes "lists_ok (sc_approved sc) (sc_rejected sc) (sc_deferred sc)"
    and "dep_index dep \<notin> set (sc_approved sc)" "dep_index dep \<notin> set (sc_rejected sc)"
    and "verdict = Approve \<Longrightarrow> approves cfg dep"
  shows "screened cfg sc (apply_verdict dep verdict decisions sc)"
  using assms by (cases verdict) (auto simp: screened_def apply_verdict_def Let_def lists_ok_def)

lemma wp_evaluate_deposit:
  assumes "quiet f cfg" "f w = before"
  shows "wp (evaluate_deposit cfg dep) (\<lambda>(verdict, ds) w'. f w' = before \<and> (verdict = Approve \<longrightarrow> approves cfg dep)) (\<lambda>_ w'. f w' = before) w"
proof (cases "tc_policy cfg")
  case (Plain p)
  have now: "wp (now_of cfg) (\<lambda>_ w'. f w' = before) (\<lambda>_ w'. f w' = before) w"
    using assms by (intro wp_keeps quiet_now)
  show ?thesis
    using Plain assms(2) by (auto simp: evaluate_deposit_def approves_def split: sum.split intro!: wp_mono [OF now])
next
  case (Engine e)
  have iso: "wp (rt_iso cfg) (\<lambda>_ w'. f w' = before) (\<lambda>_ w'. f w' = before) w"
    using assms by (intro wp_keeps) (auto simp: quiet_def)
  show ?thesis
    using Engine by (auto simp: evaluate_deposit_def approves_def split: sum.split intro!: wp_mono [OF iso]) blast
qed

lemma wp_screen_deposits:
  assumes "quiet f cfg" "f w = before" "lists_ok (sc_approved sc) (sc_rejected sc) (sc_deferred sc)"
  shows "wp (screen_deposits cfg deps sc) (\<lambda>sc' w'. f w' = before \<and> screened cfg sc sc') (\<lambda>_ w'. f w' = before) w"
  using assms(2,3)
proof (induction deps arbitrary: sc w)
  case Nil
  then show ?case by (simp add: screened_def del: ret_run)
next
  case (Cons dep deps)
  show ?case
  proof (cases "dep_index dep \<in> set (sc_approved sc) \<or> dep_index dep \<in> set (sc_rejected sc)")
    case True
    then show ?thesis using Cons by simp
  next
    case False
    have step: "wp (screen_deposits cfg deps (apply_verdict dep v ds sc)) (\<lambda>sc' w'. f w' = before \<and> screened cfg sc sc') (\<lambda>_ w'. f w' = before) w'"
      if "f w' = before" "v = Approve \<longrightarrow> approves cfg dep" for v ds w'
    proof -
      have sc: "screened cfg sc (apply_verdict dep v ds sc)"
        using Cons.prems False that(2) by (intro screened_apply) auto
      then have "lists_ok (sc_approved (apply_verdict dep v ds sc)) (sc_rejected (apply_verdict dep v ds sc)) (sc_deferred (apply_verdict dep v ds sc))"
        by (simp add: screened_def)
      from Cons.IH [OF that(1) this] show ?thesis
        by (rule wp_mono) (use screened_trans [OF sc] in auto)
    qed
    then show ?thesis
      using False by (auto intro!: wp_mono [OF wp_evaluate_deposit [OF assms(1) Cons.prems(1)]])
  qed
qed

definition approved_of :: "PoolState option \<Rightarrow> nat list" where
  "approved_of s = (case s of Some st \<Rightarrow> ps_approvedIndices st | None \<Rightarrow> [])"

definition rejected_of :: "PoolState option \<Rightarrow> nat list" where
  "rejected_of s = (case s of Some st \<Rightarrow> (case ps_rejectedIndices st of Some r \<Rightarrow> r | None \<Rightarrow> []) | None \<Rightarrow> [])"

definition deferred_of :: "PoolState option \<Rightarrow> nat list" where
  "deferred_of s = (case s of Some st \<Rightarrow> (case ps_deferredIndices st of Some r \<Rightarrow> r | None \<Rightarrow> []) | None \<Rightarrow> [])"

definition pool_inv :: "PoolState \<Rightarrow> bool" where
  "pool_inv s \<longleftrightarrow> lists_ok (ps_approvedIndices s) (rejected_of (Some s)) (deferred_of (Some s))"

text \<open>The state a tick may leave for a pool, given the one it found.\<close>

definition advances :: "'w TickConfig \<Rightarrow> PoolState option \<Rightarrow> PoolState \<Rightarrow> bool" where
  "advances cfg old s \<longleftrightarrow> pool_inv s \<and> ps_poolId s = tc_poolId cfg
     \<and> (\<exists>new. ps_approvedIndices s = approved_of old @ new \<and> (\<forall>i \<in> set new. \<exists>dep. dep_index dep = i \<and> approves cfg dep))
     \<and> set (rejected_of old) \<subseteq> set (rejected_of (Some s))"

definition loaded_state :: "'w TickConfig \<Rightarrow> PoolState option \<Rightarrow> PoolState" where
  "loaded_state cfg old = (case old of Some s \<Rightarrow> s | None \<Rightarrow> initState (tc_poolId cfg) (tc_scope cfg))"

lemma wp_read_and_screen:
  assumes "quiet f cfg" "f w = before" "pool_inv (loaded_state cfg old)" "ps_poolId (loaded_state cfg old) = tc_poolId cfg"
  shows "wp (read_and_screen cfg (loaded_state cfg old))
    (\<lambda>(deps, sc) w'. f w' = before \<and> advances cfg old (finish_screening (loaded_state cfg old) sc)) (\<lambda>_ w'. f w' = before) w"
proof -
  let ?st = "loaded_state cfg old"
  have start: "lists_ok (sc_approved (start_screening ?st)) (sc_rejected (start_screening ?st)) (sc_deferred (start_screening ?st))"
    using assms(3) by (simp add: pool_inv_def lists_ok_def start_screening_def rejected_of_def)
  have finished: "advances cfg old (finish_screening ?st sc)" if "screened cfg (start_screening ?st) sc" for sc
  proof -
    have "sc_approved (start_screening ?st) = approved_of old" "sc_rejected (start_screening ?st) = rejected_of old"
      by (simp_all add: start_screening_def approved_of_def rejected_of_def loaded_state_def initState_def split: option.split)
    then show ?thesis
      using that assms(4)
      by (auto simp: advances_def screened_def finish_screening_def pool_inv_def lists_ok_def rejected_of_def deferred_of_def)
  qed
  have read: "wp (readDeposits (tc_adapter cfg) i l) (\<lambda>_ w'. f w' = before) (\<lambda>_ w'. f w' = before) w" for i l
    using assms(1,2) by (intro wp_keeps) (auto simp: quiet_def)
  have confirmed: "wp (confirmedDeposits (tc_adapter cfg) ds c) (\<lambda>_ w'. f w' = before) (\<lambda>_ w'. f w' = before) w'" if "f w' = before" for ds c w'
  proof -
    have "wp (adapter_latestLedger (tc_adapter cfg)) (\<lambda>_ w'. f w' = before) (\<lambda>_ w'. f w' = before) w'"
      using assms(1) that by (intro wp_keeps) (auto simp: quiet_def)
    then show ?thesis using that by (auto simp: confirmedDeposits_def Let_def elim!: wp_mono)
  qed
  show ?thesis
    unfolding read_and_screen_def Let_def
    by (rule wp_bndI [OF read], rule wp_bndI [OF confirmed], assumption,
        rule wp_bndI [OF wp_screen_deposits [OF assms(1) _ start]], assumption) (auto intro: finished)
qed



section \<open>Publishing and the state tree leave the store alone\<close>

lemma wp_on_world [simp]:
  "wp (on_world m) Q E s = wp m (\<lambda>x w. Q x (s\<lparr>te_world := w\<rparr>)) (\<lambda>e w. E e (s\<lparr>te_world := w\<rparr>)) (te_world s)"
  by (simp add: on_world_def)

lemma wp_on_fs [simp]:
  "wp (on_fs m) Q E s = wp m (\<lambda>x f. Q x (s\<lparr>te_fs := f\<rparr>)) (\<lambda>e f. E e (s\<lparr>te_fs := f\<rparr>)) (te_fs s)"
  by (simp add: on_fs_def)

lemma wp_check_continuity:
  "f (te_world s) = before \<Longrightarrow>
   wp (check_continuity deps l) (\<lambda>_ s'. f (te_world s') = before) (\<lambda>_ s'. f (te_world s') = before) s"
  by (auto simp: check_continuity_def Let_def split: option.split prod.split)

lemma wp_check_stale:
  assumes "quiet f cfg" "f (te_world s) = before"
  shows "wp (check_stale cfg) (\<lambda>_ s'. f (te_world s') = before) (\<lambda>_ s'. f (te_world s') = before) s"
proof -
  have "wp (rt_ms cfg) (\<lambda>_ w'. f w' = before) (\<lambda>_ w'. f w' = before) (te_world s)"
    using assms by (intro wp_keeps) (auto simp: quiet_def)
  then show ?thesis using assms(2) by (auto simp: check_stale_def split: option.split elim!: wp_mono)
qed

lemma wp_record_published:
  assumes "quiet f cfg" "f (te_world s) = before"
  shows "wp (record_published cfg r l) (\<lambda>_ s'. f (te_world s') = before) (\<lambda>_ s'. f (te_world s') = before) s"
proof -
  have "wp (rt_ms cfg) (\<lambda>_ w'. f w' = before) (\<lambda>_ w'. f w' = before) (te_world s)"
    using assms by (intro wp_keeps) (auto simp: quiet_def)
  then show ?thesis using assms(2) by (auto simp: record_published_def split: option.split elim!: wp_mono)
qed

text \<open>Publishing, split at the post: what holds of the observation before it, and after it.\<close>

lemma wp_publish_set:
  assumes "quiet f cfg" "f (te_world s) = before"
    and post: "\<And>h w. f w = before \<Longrightarrow> wp (postAspRoot (tc_adapter cfg) rt h) (\<lambda>_ w'. f w' = after) (\<lambda>_ w'. bad (f w')) w"
    and bad: "bad before" "bad after"
  shows "wp (publish_set sha256 cfg aset rt l onChain)
    (\<lambda>p s'. p = (as_size aset > 0 \<and> Some rt \<noteq> onChain) \<and> f (te_world s') = (if p then after else before))
    (\<lambda>_ s'. bad (f (te_world s'))) s"
proof -
  let ?I = "\<lambda>s'. f (te_world s') = before" and ?E = "\<lambda>_ s'. bad (f (te_world s'))"
  have now: "wp (on_world (now_of cfg)) (\<lambda>_. ?I) ?E s"
    by (simp, rule wp_mono [OF wp_keeps [OF quiet_now [OF assms(1)] assms(2)]]) (auto simp: bad)
  have ms: "wp (on_world (rt_ms cfg)) (\<lambda>_. ?I) ?E s'" if "?I s'" for s'
    by (simp, rule wp_mono [OF wp_keeps [of f "rt_ms cfg"]]) (use assms(1) that bad in \<open>auto simp: quiet_def\<close>)
  have files: "wp (case tc_dataDir cfg of
        Some dir \<Rightarrow> if dir = [] then ret ()
          else bnd (on_world (rt_ms cfg)) (\<lambda>t. bnd (on_fs (writeManifest sha256 (rt_mtime cfg) t dir m None DEFAULT_MAX_SETS_PER_POOL)) (\<lambda>_. ret ()))
      | None \<Rightarrow> ret ()) (\<lambda>_. ?I) ?E s'" if "?I s'" for m s'
  proof -
    have "wp (on_fs (writeManifest sha256 (rt_mtime cfg) t dir m None DEFAULT_MAX_SETS_PER_POOL)) (\<lambda>_. ?I) ?E s''" if "?I s''" for t dir s''
      by (simp, rule wp_mono [OF wp_True]) (use that in \<open>simp_all add: bad\<close>)
    then have "wp (bnd (on_world (rt_ms cfg)) (\<lambda>t. bnd (on_fs (writeManifest sha256 (rt_mtime cfg) t dir m None DEFAULT_MAX_SETS_PER_POOL)) (\<lambda>_. ret ())))
        (\<lambda>_. ?I) ?E s'" for dir
      using that by (intro wp_bndI [OF ms] wp_bndI) simp_all
    then show ?thesis
      using that by (simp split: option.split del: wp_bnd wp_on_world wp_on_fs ret_run)
  qed
  have posted: "wp (on_world (postAspRoot (tc_adapter cfg) rt h)) (\<lambda>_ s''. f (te_world s'') = after) ?E s'" if "?I s'" for h s'
    by (simp, rule wp_mono [OF post [OF that]]) auto
  have rec: "wp (bnd (record_published cfg rt l) (\<lambda>_. ret True)) (\<lambda>p s'. p \<and> f (te_world s') = after) ?E s'"
    if "f (te_world s') = after" for s'
    by (rule wp_bndI [where R = "\<lambda>_ s''. f (te_world s'') = after"], rule wp_mono [OF wp_record_published [OF assms(1) that]]) (auto simp: bad)
  have hash: "wp (of_res (computeDatasetHash sha256 rt ls)) (\<lambda>_. ?I) ?E s'" if "?I s'" for ls s'
    using that by (simp add: bad split: sum.split)
  have "wp (publish_set sha256 cfg aset rt l onChain) (\<lambda>p s'. p \<and> f (te_world s') = after) ?E s"
    if "as_size aset > 0 \<and> Some rt \<noteq> onChain"
    unfolding publish_set_def Let_def if_P [OF that]
    by (rule wp_bndI [OF now], rule wp_bndI [OF files], assumption, rule wp_bndI [OF hash], assumption,
        rule wp_bndI [OF posted], assumption, rule rec)
  then show ?thesis
    using assms(2) by (cases "as_size aset > 0 \<and> Some rt \<noteq> onChain")
      (auto simp: publish_set_def elim!: wp_mono)
qed

definition same_lists :: "PoolState \<Rightarrow> PoolState \<Rightarrow> bool" where
  "same_lists s s' \<longleftrightarrow> ps_poolId s' = ps_poolId s \<and> ps_approvedIndices s' = ps_approvedIndices s
     \<and> ps_rejectedIndices s' = ps_rejectedIndices s \<and> ps_deferredIndices s' = ps_deferredIndices s"

lemma same_lists_merge: "same_lists s (merge_snapshot s sn)"
  by (auto simp: same_lists_def merge_snapshot_def Let_def split: option.split)

lemma advances_same_lists: "advances cfg old s \<Longrightarrow> same_lists s s' \<Longrightarrow> advances cfg old s'"
  by (simp add: advances_def same_lists_def pool_inv_def rejected_of_def deferred_of_def)

lemma wp_state_tick:
  assumes "\<And>c. keeps f (readStateLeaves a c)" "keeps f (currentStateRoot a)" "\<And>r h. keeps f (postStateRoot a r h)" "f w = before"
  shows "wp (state_tick poseidon sha256 a st) (\<lambda>(st', _) w'. f w' = before \<and> same_lists st st') (\<lambda>_ w'. f w' = before) w"
proof -
  let ?I = "\<lambda>_ w'. f w' = before"
  have cur: "wp (currentStateRoot a) ?I ?I w'" if "f w' = before" for w' by (rule wp_keeps [OF assms(2) that])
  have post: "wp (postStateRoot a r h) ?I ?I w'" if "f w' = before" for r h w' by (rule wp_keeps [OF assms(3) that])
  show ?thesis
    unfolding state_tick_def Let_def
    by (rule wp_bndI [OF wp_keeps [OF assms(1,4)]])
      (auto simp: same_lists_merge split: sum.split intro!: wp_mono [OF cur] wp_mono [OF post])
qed

lemma wp_run_state_tick:
  assumes "quiet f cfg" "f (te_world s) = before"
  shows "wp (run_state_tick poseidon sha256 cfg st)
    (\<lambda>(st', _) s'. f (te_world s') = before \<and> same_lists st st') (\<lambda>_ s'. f (te_world s') = before) s"
proof (cases "state_adapter (tc_adapter cfg)")
  case None
  then show ?thesis using assms(2) by (simp add: run_state_tick_def same_lists_def del: ret_run)
next
  case (Some a)
  have "wp (state_tick poseidon sha256 a st) (\<lambda>(st', _) w'. f w' = before \<and> same_lists st st') (\<lambda>_ w'. f w' = before) (te_world s)"
    using assms Some by (intro wp_state_tick) (auto simp: quiet_def)
  with Some show ?thesis by (auto simp: run_state_tick_def elim!: wp_mono)
qed



section \<open>The store interface\<close>

definition wf_store :: "('w \<Rightarrow> string \<Rightarrow> PoolState option) \<Rightarrow> 'w \<Rightarrow> bool" where
  "wf_store stored w \<longleftrightarrow> (\<forall>i s. stored w i = Some s \<longrightarrow> ps_poolId s = i \<and> pool_inv s)"

text \<open>A tick leaves the store as it was or moves its own pool forward.\<close>

definition tick_post :: "'w TickConfig \<Rightarrow> (string \<Rightarrow> PoolState option) \<Rightarrow> (string \<Rightarrow> PoolState option) \<Rightarrow> bool" where
  "tick_post cfg st0 st1 \<longleftrightarrow> st1 = st0
     \<or> (\<exists>s. advances cfg (st0 (tc_poolId cfg)) s \<and> st1 = st0(tc_poolId cfg \<mapsto> s))"

lemma tick_post_wf: "wf_store stored w \<Longrightarrow> tick_post cfg (stored w) (stored w') \<Longrightarrow> wf_store stored w'"
  by (auto simp: wf_store_def tick_post_def advances_def split: if_splits)

lemma pool_inv_init: "pool_inv (initState i sc)"
  by (simp add: pool_inv_def lists_ok_def initState_def rejected_of_def deferred_of_def)

lemma loaded_state_ok:
  assumes "wf_store stored w"
  shows "pool_inv (loaded_state cfg (stored w (tc_poolId cfg)))" "ps_poolId (loaded_state cfg (stored w (tc_poolId cfg))) = tc_poolId cfg"
  using assms pool_inv_init by (auto simp: loaded_state_def wf_store_def initState_def split: option.split)

locale pool_store =
  fixes load :: "string \<Rightarrow> ('w, PoolState option) prog" and save :: "PoolState \<Rightarrow> ('w, unit) prog"
    and stored :: "'w \<Rightarrow> string \<Rightarrow> PoolState option"
  assumes load_stored: "load poolId w = (Inr (stored w poolId), w)"
    and save_stored: "save st w = (Inr (), w') \<Longrightarrow> stored w' = (stored w)(ps_poolId st \<mapsto> st)"
    and save_failed: "save st w = (Inl e, w') \<Longrightarrow> stored w' = stored w"
begin

lemma wp_load: "wp (load poolId) (\<lambda>r w'. r = stored w poolId \<and> w' = w) (\<lambda>_ _. False) w"
  by (simp add: wp_def load_stored)

lemma wp_save:
  "stored w = st0 \<Longrightarrow> wp (save st) (\<lambda>_ w'. stored w' = st0(ps_poolId st \<mapsto> st)) (\<lambda>_ w'. stored w' = st0) w"
  by (auto simp: wp_def split: prod.split sum.split dest: save_stored save_failed)

lemma wp_tick:
  assumes "tc_store cfg = \<lparr>store_load = load, store_save = save\<rparr>" "quiet stored cfg"
    and "keeps stored (currentAspRoot (tc_adapter cfg))" "\<And>r h. keeps stored (postAspRoot (tc_adapter cfg) r h)"
    and "wf_store stored (te_world s)"
  shows "wp (runPoolTick poseidon sha256 cfg) (\<lambda>_ s'. tick_post cfg (stored (te_world s)) (stored (te_world s')))
    (\<lambda>_ s'. tick_post cfg (stored (te_world s)) (stored (te_world s'))) s"
proof -
  define st0 where "st0 = stored (te_world s)"
  define I where "I = (\<lambda>s' :: 'w TickEnv. stored (te_world s') = st0)"
  define T where "T = (\<lambda>s' :: 'w TickEnv. tick_post cfg st0 (stored (te_world s')))"
  let ?st = "loaded_state cfg (st0 (tc_poolId cfg))" and ?adv = "advances cfg (st0 (tc_poolId cfg))"
  have T: "I s' \<Longrightarrow> T s'" for s' by (simp add: tick_post_def I_def T_def)
  note loaded = loaded_state_ok [OF assms(5), of cfg, folded st0_def]
  have moved: "tick_post cfg st0 (st0(ps_poolId st' \<mapsto> st'))" if "?adv st'" for st'
  proof -
    have "ps_poolId st' = tc_poolId cfg" using that by (simp add: advances_def)
    with that show ?thesis unfolding tick_post_def by auto
  qed
  have save: "wp (bnd (on_world (store_save (tc_store cfg) st')) k) (\<lambda>_. T) (\<lambda>_. T) s'"
    if "I s'" "?adv st'" "\<And>x s''. T s'' \<Longrightarrow> wp (k x) (\<lambda>_. T) (\<lambda>_. T) s''" for st' s' k
    by (rule wp_bndI [OF _ that(3)], use that(1,2) assms(1) in simp, rule wp_mono [OF wp_save])
      (use T moved in \<open>auto simp: I_def T_def\<close>)
  have root: "wp (on_world (currentAspRoot (tc_adapter cfg))) (\<lambda>_. I) (\<lambda>_. T) s'" if "I s'" for s'
    by (simp, rule wp_mono [OF wp_keeps [OF assms(3)]]) (use that in \<open>auto simp: I_def intro: T\<close>)
  have root_after: "wp (on_world (currentAspRoot (tc_adapter cfg))) (\<lambda>_. T) (\<lambda>_. T) s'" if "T s'" for s'
    by (simp, rule wp_mono [OF wp_keeps [OF assms(3) refl]]) (use that in \<open>auto simp: T_def\<close>)
  have screen: "wp (on_world (read_and_screen cfg ?st)) (\<lambda>r s'. I s' \<and> ?adv (finish_screening ?st (snd r))) (\<lambda>_. T) s'"
    if "I s'" for s'
    by (simp, rule wp_mono [OF wp_read_and_screen [OF assms(2) _ loaded]]) (use that in \<open>auto simp: I_def intro: T\<close>)
  have publish: "wp (publish_set sha256 cfg aset rt l onChain) (\<lambda>_. I) (\<lambda>_. T) s'" if "I s'" for aset rt l onChain s'
    by (rule wp_mono [OF wp_publish_set [OF assms(2), where after = st0 and bad = "\<lambda>x. x = st0"]])
      (use that assms(4) in \<open>auto simp: I_def intro!: T wp_mono [OF wp_keeps] split: if_splits\<close>)
  have stale: "wp (check_stale cfg) (\<lambda>_. I) (\<lambda>_. T) s'" if "I s'" for s'
    by (rule wp_mono [OF wp_check_stale [OF assms(2)]]) (use that in \<open>auto simp: I_def intro: T\<close>)
  have continuity: "wp (check_continuity d l) (\<lambda>_. I) (\<lambda>_. T) s'" if "I s'" for d l s'
    by (rule wp_mono [OF wp_check_continuity [where f = stored]]) (use that in \<open>auto simp: I_def intro: T\<close>)
  have state: "wp (run_state_tick poseidon sha256 cfg st') (\<lambda>r s''. I s'' \<and> same_lists st' (fst r)) (\<lambda>_. T) s'"
    if "I s'" for st' s'
    by (rule wp_mono [OF wp_run_state_tick [OF assms(2)]]) (use that in \<open>auto simp: I_def intro: T\<close>)
  have load: "wp (on_world (store_load (tc_store cfg) (tc_poolId cfg))) (\<lambda>r s'. r = st0 (tc_poolId cfg) \<and> I s') (\<lambda>_. T) s"
    using assms(1) by simp (rule wp_mono [OF wp_load], auto simp: st0_def I_def)
  have res: "wp (of_res r) (\<lambda>_. I) (\<lambda>_. T) s'" if "I s'" for r s'
    using that T by (simp split: sum.split)
  have final: "wp (ret x) (\<lambda>_. T) (\<lambda>_. T) s'" if "T s'" for x s' using that by (simp del: ret_run)
  have adv: "?adv st'' \<Longrightarrow> same_lists st'' st' \<Longrightarrow> ?adv st'" for st'' st' by (rule advances_same_lists)
  have "wp (runPoolTick poseidon sha256 cfg) (\<lambda>_. T) (\<lambda>_. T) s"
    unfolding runPoolTick_def Let_def loaded_state_def [symmetric]
    apply (rule wp_bndI [OF load], elim conjE, hypsubst)
    apply (rule wp_bndI [OF screen], assumption, elim conjE)
    apply (simp only: split: prod.split, intro allI impI, simp only: snd_conv)
    apply (rule wp_bndI [OF res], assumption)
    apply (rule wp_bndI [OF continuity], assumption)
    apply (simp only: wp_if split: if_split, intro conjI impI)
     apply (rule save, assumption, assumption)
     apply (rule wp_bndI [OF root_after], assumption, rule final, assumption)
    apply (rule wp_bndI [OF root], assumption)
    apply (rule wp_bndI [OF publish], assumption)
    apply (rule wp_bndI [OF stale], assumption)
    apply (rule wp_bndI [OF state], assumption, elim conjE)
    apply (simp only: split: prod.split, intro allI impI, simp only: fst_conv)
    apply (rule save, assumption, rule adv, assumption, assumption)
    apply (rule final, assumption)
    done
  then show ?thesis by (simp add: st0_def T_def)
qed

end

text \<open>The in-memory store, next to whatever state the chain keeps.\<close>

definition memory_store :: "('c \<times> (string \<times> PoolState) list) Store" where
  "memory_store = \<lparr>store_load = (\<lambda>i. on_snd (MemoryStore_load i)), store_save = (\<lambda>s. on_snd (MemoryStore_save s))\<rparr>"

definition mem_stored :: "'c \<times> (string \<times> PoolState) list \<Rightarrow> string \<Rightarrow> PoolState option" where
  "mem_stored w = map_of (snd w)"

interpretation mem: pool_store "\<lambda>i. on_snd (MemoryStore_load i)" "\<lambda>s. on_snd (MemoryStore_save s)" mem_stored
  by unfold_locales
    (auto simp: on_snd_def MemoryStore_load_def MemoryStore_save_def gets_def upd_def mem_stored_def update_conv')

text \<open>The chain adapter and the clock have no access to the store.\<close>

definition chain_only :: "('c \<times> (string \<times> PoolState) list) TickConfig \<Rightarrow> bool" where
  "chain_only cfg \<longleftrightarrow> tc_store cfg = memory_store \<and> quiet mem_stored cfg \<and> keeps mem_stored (currentAspRoot (tc_adapter cfg))
     \<and> (\<forall>r h. keeps mem_stored (postAspRoot (tc_adapter cfg) r h))"

lemma tick_post_run:
  assumes "chain_only cfg" "wf_store mem_stored (te_world s)"
  shows "tick_post cfg (mem_stored (te_world s)) (mem_stored (te_world (snd (runPoolTick poseidon sha256 cfg s))))"
proof -
  have "wp (runPoolTick poseidon sha256 cfg) (\<lambda>_ s'. tick_post cfg (mem_stored (te_world s)) (mem_stored (te_world s')))
      (\<lambda>_ s'. tick_post cfg (mem_stored (te_world s)) (mem_stored (te_world s'))) s"
    using assms by (intro mem.wp_tick) (simp_all add: chain_only_def memory_store_def)
  then show ?thesis by (auto simp: wp_def split: prod.splits sum.splits)
qed


section \<open>Properties\<close>

text \<open>A sequence of ticks, of any pools, where each may return or throw.\<close>

definition run_ticks :: "poseidon \<Rightarrow> (byte list \<Rightarrow> byte list) \<Rightarrow> 'w TickConfig list \<Rightarrow> 'w TickEnv \<Rightarrow> 'w TickEnv" where
  "run_ticks poseidon sha256 cfgs s = foldl (\<lambda>s cfg. snd (runPoolTick poseidon sha256 cfg s)) s cfgs"

definition extends :: "'w TickConfig list \<Rightarrow> string \<Rightarrow> PoolState option \<Rightarrow> PoolState option \<Rightarrow> bool" where
  "extends cfgs pool old new \<longleftrightarrow>
     (\<exists>added. approved_of new = approved_of old @ added
        \<and> (\<forall>i \<in> set added. \<exists>cfg \<in> set cfgs. \<exists>dep. tc_poolId cfg = pool \<and> dep_index dep = i \<and> approves cfg dep))
   \<and> set (rejected_of old) \<subseteq> set (rejected_of new)"

lemma extends_refl: "extends cfgs pool old old"
  by (simp add: extends_def)

lemma extends_tick: "tick_post cfg st0 st1 \<Longrightarrow> extends [cfg] pool (st0 pool) (st1 pool)"
  by (cases "pool = tc_poolId cfg")
    (auto simp: tick_post_def extends_def advances_def approved_of_def [of "Some _"])

lemma extends_trans: "extends cfgs pool a b \<Longrightarrow> extends cfgs' pool b c \<Longrightarrow> extends (cfgs @ cfgs') pool a c"
  by (fastforce simp: extends_def)


text \<open>An example chain that holds the association root, and one deposit to screen.\<close>

definition example_deposit :: Deposit where
  "example_deposit = \<lparr>dep_index = 0, dep_commitment = ''0x1'', dep_value = ''5'', dep_scope = 7, dep_ledger = 3\<rparr>"

definition example_adapter :: "(string option \<times> (string \<times> PoolState) list) ChainAdapter" where
  "example_adapter = \<lparr>readDeposits = (\<lambda>_ _. ret [example_deposit]), currentAspRoot = gets fst,
     postAspRoot = (\<lambda>r _. upd (\<lambda>w. (Some r, snd w))), adapter_latestLedger = ret 10, state_adapter = None\<rparr>"

definition example_config :: "(string option \<times> (string \<times> PoolState) list) TickConfig" where
  "example_config = \<lparr>tc_poolId = ''pool'', tc_scope = 7, tc_adapter = example_adapter, tc_store = memory_store,
     tc_policy = Plain approveAll, tc_dataDir = None, tc_confirmations = Some 2, tc_now = None,
     rt_iso = ret ''now'', rt_ms = ret 0, rt_mtime = (\<lambda>_. None)\<rparr>"

definition example_env :: "(string option \<times> (string \<times> PoolState) list) TickEnv" where
  "example_env = \<lparr>te_world = (None, []), te_fs = example_fs [], te_guard = Some \<lparr>rg_expectedNextLedger = 0\<rparr>, te_monitor = None\<rparr>"

lemma example_quiet: "quiet f example_config"
  by (simp add: quiet_def keeps_def example_config_def example_adapter_def)

lemma example_chain_only: "chain_only example_config"
  using example_quiet [of mem_stored]
  by (simp add: chain_only_def keeps_def example_config_def example_adapter_def gets_def upd_def mem_stored_def)


text \<open>What the second property assumes of the chain: the root read is the one posted last.\<close>

definition root_laws :: "('c \<Rightarrow> string option) \<Rightarrow> ('c \<times> (string \<times> PoolState) list) TickConfig \<Rightarrow> bool" where
  "root_laws onchain cfg \<longleftrightarrow>
     tc_store cfg = memory_store \<and> quiet (\<lambda>w. (onchain (fst w), mem_stored w)) cfg
   \<and> keeps (\<lambda>w. (onchain (fst w), mem_stored w)) (currentAspRoot (tc_adapter cfg))
   \<and> (\<forall>w r w'. currentAspRoot (tc_adapter cfg) w = (Inr r, w') \<longrightarrow> r = onchain (fst w))
   \<and> (\<forall>r h w w'. postAspRoot (tc_adapter cfg) r h w = (Inr (), w') \<longrightarrow> onchain (fst w') = Some r)
   \<and> (\<forall>r h. keeps mem_stored (postAspRoot (tc_adapter cfg) r h))"

definition reconciled ::
  "poseidon \<Rightarrow> ('c \<times> (string \<times> PoolState) list) TickConfig \<Rightarrow> ('c \<Rightarrow> string option) \<Rightarrow> string option \<Rightarrow> TickResult \<Rightarrow>
   ('c \<times> (string \<times> PoolState) list) \<Rightarrow> bool" where
  "reconciled poseidon cfg onchain before res w \<longleftrightarrow>
     (\<exists>st. mem_stored w (tc_poolId cfg) = Some st
       \<and> tr_localRoot res = set_root poseidon (tc_scope cfg) (ps_approvedIndices st)
       \<and> tr_onChainRoot res = before
       \<and> (if tr_haltedForReorg res then \<not> tr_published res \<and> onchain (fst w) = before
          else tr_published res = (ps_approvedIndices st \<noteq> [] \<and> before \<noteq> Some (tr_localRoot res))
             \<and> onchain (fst w) = (if ps_approvedIndices st = [] then before else Some (tr_localRoot res))))"

lemma wp_tick_reconciles:
  assumes "root_laws onchain cfg" "wf_store mem_stored (te_world s)"
  shows "wp (runPoolTick poseidon sha256 cfg)
    (\<lambda>res s'. reconciled poseidon cfg onchain (onchain (fst (te_world s))) res (te_world s')) (\<lambda>_ _. True) s"
proof -
  define f where "f = (\<lambda>w :: 'a \<times> (string \<times> PoolState) list. (onchain (fst w), mem_stored w))"
  define c0 where "c0 = onchain (fst (te_world s))"
  define st0 where "st0 = mem_stored (te_world s)"
  let ?st = "loaded_state cfg (st0 (tc_poolId cfg))"
  define F where "F = (\<lambda>c (s' :: ('a \<times> (string \<times> PoolState) list) TickEnv). f (te_world s') = (c, st0))"
  let ?E = "\<lambda>_ _. True"
  have quiet: "quiet f cfg" and cur: "keeps f (currentAspRoot (tc_adapter cfg))"
    using assms(1) by (simp_all add: root_laws_def f_def)
  note loaded = loaded_state_ok [OF assms(2), of cfg, folded st0_def]
  have load: "wp (on_world (store_load (tc_store cfg) (tc_poolId cfg))) (\<lambda>r s'. r = st0 (tc_poolId cfg) \<and> F c0 s') ?E s"
    using assms(1) by (simp add: root_laws_def memory_store_def MemoryStore_load_def F_def f_def c0_def st0_def mem_stored_def)
  have screen: "wp (on_world (read_and_screen cfg ?st))
      (\<lambda>r s'. F c s' \<and> advances cfg (st0 (tc_poolId cfg)) (finish_screening ?st (snd r))) ?E s'" if "F c s'" for c s'
    by (simp, rule wp_mono [OF wp_read_and_screen [OF quiet _ loaded]]) (use that in \<open>auto simp: F_def\<close>)
  have rebuild: "wp (of_res (as_add_all is (as_create poseidon (tc_scope cfg))))
      (\<lambda>a s'. F c s' \<and> as_rootHex a = set_root poseidon (tc_scope cfg) is \<and> as_size a = length is) ?E s'" if "F c s'" for c "is" s'
    using that rebuilt_set by (auto split: sum.split)
  have continuity: "wp (check_continuity d l) (\<lambda>_. F c) ?E s'" if "F c s'" for d l c s'
    by (rule wp_mono [OF wp_check_continuity [where f = f]]) (use that in \<open>auto simp: F_def\<close>)
  have read: "wp (on_world (currentAspRoot (tc_adapter cfg))) (\<lambda>r s'. f (te_world s') = (c, d) \<and> r = c) ?E s'"
    if "f (te_world s') = (c, d)" for c d s'
  proof -
    have "r = c" if "currentAspRoot (tc_adapter cfg) (te_world s') = (Inr r, w')" for r w'
      using assms(1) that \<open>f (te_world s') = (c, d)\<close> unfolding root_laws_def f_def by (metis fst_conv)
    then have "wp (currentAspRoot (tc_adapter cfg)) (\<lambda>r w'. f w' = (c, d) \<and> r = c) ?E (te_world s')"
      using wp_InrD [OF wp_keeps [OF cur that]] by (intro wpI) simp_all
    then show ?thesis by simp
  qed
  have root: "wp (on_world (currentAspRoot (tc_adapter cfg))) (\<lambda>r s'. F c s' \<and> r = c) ?E s'" if "F c s'" for c s'
    using read [of s' c st0] that by (simp only: F_def)
  have post: "wp (postAspRoot (tc_adapter cfg) rt h) (\<lambda>_ w'. f w' = (Some rt, st0)) ?E w" if "f w = (c, st0)" for h w rt c
  proof (rule wpI)
    fix x w' assume run: "postAspRoot (tc_adapter cfg) rt h w = (Inr x, w')"
    have "mem_stored w' = mem_stored w" using assms(1) run unfolding root_laws_def keeps_def by (metis snd_conv)
    moreover have "postAspRoot (tc_adapter cfg) rt h w = (Inr (), w')" using run by simp
    then have "onchain (fst w') = Some rt" using assms(1) unfolding root_laws_def by blast
    ultimately show "f w' = (Some rt, st0)" using that by (simp add: f_def)
  qed simp
  have publish: "wp (publish_set sha256 cfg a rt l c)
      (\<lambda>p s'. p = (as_size a > 0 \<and> Some rt \<noteq> c) \<and> F (if p then Some rt else c) s') ?E s'" if "F c s'" for a rt l c s'
    by (rule wp_mono [OF wp_publish_set [where f = f and bad = "\<lambda>_. True" and after = "(Some rt, st0)" and before = "(c, st0)"]])
      (use quiet that post in \<open>auto simp: F_def split: if_splits\<close>)
  have stale: "wp (check_stale cfg) (\<lambda>_. F c) ?E s'" if "F c s'" for c s'
    by (rule wp_mono [OF wp_check_stale [OF quiet]]) (use that in \<open>auto simp: F_def\<close>)
  have state: "wp (run_state_tick poseidon sha256 cfg st') (\<lambda>r s''. F c s'' \<and> same_lists st' (fst r)) ?E s'" if "F c s'" for st' c s'
    by (rule wp_mono [OF wp_run_state_tick [OF quiet]]) (use that in \<open>auto simp: F_def\<close>)
  have save: "wp (on_world (store_save (tc_store cfg) st')) (\<lambda>_ s''. f (te_world s'') = (c, st0(ps_poolId st' \<mapsto> st'))) ?E s'"
    if "F c s'" for st' c s'
    using that assms(1)
    by (simp add: root_laws_def memory_store_def MemoryStore_save_def F_def f_def mem_stored_def update_conv')
  have halted: "wp (bnd (on_world (store_save (tc_store cfg) st')) (\<lambda>_. bnd (on_world (currentAspRoot (tc_adapter cfg))) (\<lambda>r.
        ret ((tick_result cfg st' sc rt r)\<lparr>tr_haltedForReorg := True\<rparr>))))
      (\<lambda>res s''. reconciled poseidon cfg onchain c0 res (te_world s'')) ?E s'"
    if "F c0 s'" "advances cfg (st0 (tc_poolId cfg)) st'" "rt = set_root poseidon (tc_scope cfg) (ps_approvedIndices st')" for st' sc rt s'
    by (rule wp_bndI [OF save [OF that(1)]], rule wp_bndI [OF read], assumption)
      (use that(2,3) in \<open>auto simp: reconciled_def tick_result_def advances_def f_def\<close>)
  define rt where "rt st = set_root poseidon (tc_scope cfg) (ps_approvedIndices st)" for st :: PoolState
  define pub where "pub st = (0 < length (ps_approvedIndices st) \<and> Some (rt st) \<noteq> c0)" for st :: PoolState
  have final: "reconciled poseidon cfg onchain c0
      ((tick_result cfg st' sc (rt st) c0)\<lparr>tr_published := pub st, tr_stateLeafCount := n, tr_stateRoot := r, tr_onChainStateRoot := oc,
        tr_statePublished := sp, tr_staleAlert := al\<rparr>) (te_world s')"
    if "f (te_world s') = (if pub st then Some (rt st) else c0, st0(ps_poolId st' \<mapsto> st'))"
      "same_lists st st'" "advances cfg (st0 (tc_poolId cfg)) st" for st st' sc n r oc sp al s'
    using that by (auto simp: reconciled_def tick_result_def same_lists_def advances_def f_def rt_def pub_def split: if_splits)
  show ?thesis
    unfolding runPoolTick_def Let_def loaded_state_def [symmetric] c0_def [symmetric]
    apply (rule wp_bndI [OF load], elim conjE, hypsubst)
    apply (rule wp_bndI [OF screen], assumption, elim conjE)
    apply (simp only: split: prod.split, intro allI impI, simp only: snd_conv)
    apply (rule wp_bndI [OF rebuild], assumption, elim conjE)
    apply (rule wp_bndI [OF continuity], assumption)
    apply (simp only: wp_if split: if_split, intro conjI impI)
     apply (rule halted, assumption, assumption, rule refl)
    apply (rule wp_bndI [OF root], assumption, elim conjE, hypsubst)
    apply (rule wp_bndI [OF publish], assumption, elim conjE)
    apply (rule wp_bndI [OF stale], assumption)
    apply (rule wp_bndI [OF state], assumption, elim conjE)
    apply (simp only: split: prod.split, intro allI impI, simp only: fst_conv)
    apply (rule wp_bndI [OF save], assumption)
    apply (simp only: wp_ret, rule final [unfolded pub_def rt_def], assumption, assumption, assumption)
    done
qed

text \<open>
  C22: a tick reconciles the chain with the approved set. Whenever a tick returns, its local root
  is the root of the textbook tree over the labels of the persisted approved list; unless
  the continuity guard halted it, it posted exactly when the set is non-empty and the root on the
  chain was another one, and afterwards the chain holds the local root. A halted tick posts nothing.
\<close>

theorem tick_reconciles_chain_root:
  assumes "root_laws onchain cfg" "wf_store mem_stored (te_world s)"
    and "runPoolTick poseidon sha256 cfg s = (Inr res, s')"
  shows "\<exists>st. mem_stored (te_world s') (tc_poolId cfg) = Some st
    \<and> tr_localRoot res = toHex32 (reference_root poseidon 20 (labels_of poseidon (tc_scope cfg) (ps_approvedIndices st)))
    \<and> tr_onChainRoot res = onchain (fst (te_world s))
    \<and> (if tr_haltedForReorg res then \<not> tr_published res \<and> onchain (fst (te_world s')) = onchain (fst (te_world s))
       else tr_published res = (ps_approvedIndices st \<noteq> [] \<and> onchain (fst (te_world s)) \<noteq> Some (tr_localRoot res))
          \<and> onchain (fst (te_world s')) =
              (if ps_approvedIndices st = [] then onchain (fst (te_world s)) else Some (tr_localRoot res)))"
  using wp_InrD [OF wp_tick_reconciles [OF assms(1,2)] assms(3)] by (simp add: reconciled_def set_root_def)

lemma example_root_laws: "root_laws id example_config"
  using example_quiet [of "\<lambda>w. (fst w, mem_stored w)"]
  by (simp add: root_laws_def keeps_def example_config_def example_adapter_def gets_def upd_def mem_stored_def)

lemma res_map_dec [simp]: "res_map js_BigInt_str (map dec_of_int vs) = Inr vs"
  by (induction vs) simp_all

lemma example_tick_returns: "\<exists>res s'. runPoolTick sum_list (\<lambda>b. b) example_config example_env = (Inr res, s') \<and> \<not> tr_haltedForReorg res"
proof -
  obtain aset where aset: "as_add_all [0] (as_create sum_list 7) = Inr aset" using rebuild_ok [of "[0]"] by auto
  have screen: "read_and_screen example_config (initState ''pool'' 7) w =
      (Inr ([example_deposit], apply_verdict example_deposit Approve
        [\<lparr>pd_policy = ''approve-all'', pd_deposit = example_deposit, pd_verdict = Approve, pd_reason = ''policy returned approve'',
          pd_timestamp = ''now''\<rparr>] (start_screening (initState ''pool'' 7))), w)" for w
    by (simp add: read_and_screen_def example_config_def example_adapter_def confirmedDeposits_def example_deposit_def
        start_screening_def initState_def evaluate_deposit_def now_of_def approveAll_def reason_for_def run_simps)
  have cfg: "tc_poolId example_config = ''pool''" "tc_scope example_config = 7" "tc_adapter example_config = example_adapter"
      "tc_store example_config = memory_store" "tc_dataDir example_config = None" "now_of example_config = ret ''now''"
    by (simp_all add: example_config_def now_of_def)
  have approved: "ps_approvedIndices (finish_screening (initState ''pool'' 7) (apply_verdict example_deposit Approve ds
      (start_screening (initState ''pool'' 7)))) = [0]" for ds
    by (simp add: finish_screening_def apply_verdict_def start_screening_def initState_def example_deposit_def Let_def)
  have continuity: "check_continuity [example_deposit] l example_env = (Inr False, example_env\<lparr>te_guard := Some \<lparr>rg_expectedNextLedger = 4\<rparr>\<rparr>)" for l
    by (simp add: check_continuity_def example_env_def guard_validate_def guard_commit_def example_deposit_def run_simps)
  have world: "te_world example_env = (None, [])" "te_monitor example_env = None"
      "example_env\<lparr>te_world := (None, [])\<rparr> = example_env" by (simp_all add: example_env_def)
  show ?thesis
    by (simp add: runPoolTick_def run_simps on_world_def cfg memory_store_def MemoryStore_load_def MemoryStore_save_def
        world screen aset approved continuity Let_def publish_set_def record_published_def check_stale_def run_state_tick_def
        tick_result_def as_manifest_def computeDatasetHash_def dataset_preimage_def example_adapter_def
        del: as_add_all.simps)
qed

theorem tick_reconciles_chain_root_witness:
  "\<exists>res s' st. runPoolTick sum_list (\<lambda>b. b) example_config example_env = (Inr res, s')
    \<and> mem_stored (te_world s') ''pool'' = Some st
    \<and> (ps_approvedIndices st \<noteq> [] \<longrightarrow> fst (te_world s') = Some (tr_localRoot res))"
proof -
  obtain res s' where run: "runPoolTick sum_list (\<lambda>b. b) example_config example_env = (Inr res, s')" "\<not> tr_haltedForReorg res"
    using example_tick_returns by blast
  have "wf_store mem_stored (te_world example_env)" by (simp add: wf_store_def example_env_def mem_stored_def)
  from tick_reconciles_chain_root [OF example_root_laws this run(1)] run show ?thesis
    by (auto simp: example_config_def)
qed

end
