(* ===== verification/Publisher.thy ===== *)
theory Publisher
  imports Asp_Publish
begin

text \<open>
  The reputation publisher: commitments and their validation (\<open>publisher/src/types.ts\<close>,
  \<open>validate.ts\<close>), the holder's signature (\<open>identity.ts\<close>), the dataset hash and the root
  manifest (\<open>publish.ts\<close>), the in-memory store (\<open>store.ts\<close>) and the tick
  (\<open>engine.ts\<close>).

  Keccak-256, SHA-256 and public-key recovery are parameters. The chain adapter's calls are programs
  over a world \<open>'w\<close>. The ISO clock is read once per tick and passed on as \<open>at_time\<close>:
  it only fills time stamps. Log lines and the indentation of written JSON are left out. The tick is
  sequential: requests that arrive while it awaits the chain are not interleaved with it.
\<close>


section \<open>Commitments and validation\<close>

record LeafCommitment =
  lc_id :: string
  lc_leaf :: string
  lc_schemaId :: string
  lc_attestationUid :: string
  lc_holderSignature :: string
  lc_txHash :: "string option"
  lc_ledger :: "rat option"
  lc_submittedAt :: string

record OnChainAttestation =
  oa_schemaId :: string
  oa_stealthAddressHash :: string
  oa_expirationLedger :: rat
  oa_revocationLedger :: rat

definition BN254_MODULUS :: int where
  "BN254_MODULUS = 21888242871839275222246405745257275088548364400416034343698204186575808495617"

definition ok_hex32 :: "string \<Rightarrow> bool" where
  "ok_hex32 s = (case normalizeHex32 s [] of Inr _ \<Rightarrow> True | Inl _ \<Rightarrow> False)"

definition leaf_errors :: "jv \<Rightarrow> string list" where
  "leaf_errors obj =
     (case jv_get obj ''leaf'' of
        JStr s \<Rightarrow>
          (case res_bind (normalizeHex32 s ''leaf'') (\<lambda>_. js_BigInt_str s) of
             Inr v \<Rightarrow> if v < 0 \<or> v \<ge> BN254_MODULUS
                      then [''leaf value must be a valid BN254 field element (0 <= value < modulus)''] else []
           | Inl _ \<Rightarrow> [''leaf must be a 0x-prefixed 32-byte hex string''])
      | _ \<Rightarrow> [''leaf is required and must be a string''])"

definition id_errors :: "jv \<Rightarrow> string list" where
  "id_errors obj =
     (case jv_get obj ''id'' of JStr s \<Rightarrow> if js_trim s = [] then [''id must not be empty''] else [] | _ \<Rightarrow> [])"

definition hex32_errors :: "string \<Rightarrow> jv \<Rightarrow> string list" where
  "hex32_errors field obj =
     (case jv_get obj field of
        JStr s \<Rightarrow> if ok_hex32 s then [] else [field @ '' must be a 0x-prefixed 32-byte hex string'']
      | _ \<Rightarrow> [field @ '' is required''])"

definition signature_shape :: "string \<Rightarrow> bool" where
  "signature_shape s \<longleftrightarrow> length (strip_0x s) = 130 \<and> list_all is_hex (strip_0x s)"

definition signature_errors :: "jv \<Rightarrow> string list" where
  "signature_errors obj =
     (case jv_get obj ''holderSignature'' of
        JStr s \<Rightarrow> if signature_shape s then [] else [''holderSignature must be a 65-byte recoverable secp256k1 signature'']
      | _ \<Rightarrow> [''holderSignature must be a 65-byte recoverable secp256k1 signature''])"

definition ledger_errors :: "jv \<Rightarrow> string list" where
  "ledger_errors obj =
     (case jv_get obj ''ledger'' of
        JUndef \<Rightarrow> []
      | JNum n \<Rightarrow> if is_integer n \<and> n \<ge> 0 then [] else [''ledger must be a non-negative integer if provided'']
      | _ \<Rightarrow> [''ledger must be a non-negative integer if provided''])"

definition txHash_errors :: "jv \<Rightarrow> string list" where
  "txHash_errors obj =
     (case jv_get obj ''txHash'' of
        JUndef \<Rightarrow> [] | JStr _ \<Rightarrow> [] | _ \<Rightarrow> [''txHash must be a string if provided''])"

definition commitment_errors :: "jv \<Rightarrow> string list" where
  "commitment_errors obj =
     leaf_errors obj @ id_errors obj @ hex32_errors ''schemaId'' obj @ hex32_errors ''attestationUid'' obj
     @ signature_errors obj @ ledger_errors obj @ txHash_errors obj"

definition hex32_or_nil :: "jv \<Rightarrow> string" where
  "hex32_or_nil v = (case normalizeHex32 (js_String v) [] of Inr h \<Rightarrow> h | Inl _ \<Rightarrow> [])"

text \<open>
  The result is the list of errors or the commitment. The hex fields of the commitment are
  normalised again, which cannot throw once there are no errors.
\<close>

definition validateLeafCommitment :: "jv \<Rightarrow> string \<Rightarrow> string list + LeafCommitment" where
  "validateLeafCommitment raw at_time =
     (case raw of
        JObj _ \<Rightarrow> (let errors = commitment_errors raw in
          if errors \<noteq> [] then Inl errors
          else let uid = hex32_or_nil (jv_get raw ''attestationUid'') in
            Inr \<lparr>lc_id = to_lower (js_trim (js_String (nullish (jv_get raw ''id'') (JStr uid)))),
                 lc_leaf = hex32_or_nil (jv_get raw ''leaf''),
                 lc_schemaId = hex32_or_nil (jv_get raw ''schemaId''),
                 lc_attestationUid = uid,
                 lc_holderSignature = the_string (jv_get raw ''holderSignature''),
                 lc_txHash = (case jv_get raw ''txHash'' of JStr s \<Rightarrow> Some s | _ \<Rightarrow> None),
                 lc_ledger = (case jv_get raw ''ledger'' of JNum n \<Rightarrow> Some n | _ \<Rightarrow> None),
                 lc_submittedAt = at_time\<rparr>)
      | JArr _ \<Rightarrow> Inl (commitment_errors raw)
      | _ \<Rightarrow> Inl [''payload must be a JSON object''])"

definition normalizeCommitment :: "jv \<Rightarrow> string \<Rightarrow> LeafCommitment res" where
  "normalizeCommitment raw at_time =
     (case validateLeafCommitment raw at_time of
        Inl errors \<Rightarrow> Inl (Error (''invalid commitment: '' @ join_with ''; '' errors))
      | Inr c \<Rightarrow> Inr (c\<lparr>lc_submittedAt := at_time\<rparr>))"

definition commitment_json :: "LeafCommitment \<Rightarrow> jv" where
  "commitment_json c =
     JObj [(''id'', JStr (lc_id c)), (''leaf'', JStr (lc_leaf c)), (''schemaId'', JStr (lc_schemaId c)),
           (''attestationUid'', JStr (lc_attestationUid c)), (''holderSignature'', JStr (lc_holderSignature c)),
           (''txHash'', case lc_txHash c of Some s \<Rightarrow> JStr s | None \<Rightarrow> JUndef),
           (''ledger'', case lc_ledger c of Some n \<Rightarrow> JNum n | None \<Rightarrow> JUndef),
           (''submittedAt'', JStr (lc_submittedAt c))]"


section \<open>The holder's signature\<close>

type_synonym recover_fn = "byte list \<Rightarrow> nat \<Rightarrow> byte list \<Rightarrow> byte list res"

definition submission_message :: "string \<Rightarrow> string \<Rightarrow> string \<Rightarrow> byte list" where
  "submission_message uid schemaId leaf =
     utf8 (''OPAQUE_REPUTATION_SUBMISSION_V1'' @ newline @ uid @ newline @ schemaId @ newline @ leaf)"

definition verifyHolderSignature ::
  "(byte list \<Rightarrow> byte list) \<Rightarrow> recover_fn \<Rightarrow> LeafCommitment \<Rightarrow> string \<Rightarrow> bool" where
  "verifyHolderSignature keccak recover c stealthAddressHash =
     (let signatureHex = strip_0x (js_trim (lc_holderSignature c)) in
      if \<not> (length signatureHex = 130 \<and> list_all is_hex signatureHex) then False
      else let signatureBytes = buffer_hex signatureHex;
               v = unat (signatureBytes ! 64);
               recovery = (if v \<ge> 27 then v - 27 else v)
           in if recovery \<noteq> 0 \<and> recovery \<noteq> 1 then False
              else case (res_bind (normalizeHex32 (lc_attestationUid c) ''attestationUid'') (\<lambda>uid.
                   res_bind (normalizeHex32 (lc_schemaId c) ''schemaId'') (\<lambda>schemaId.
                   res_bind (normalizeHex32 (lc_leaf c) ''leaf'') (\<lambda>leaf.
                   res_bind (recover (take 64 signatureBytes) recovery (keccak (submission_message uid schemaId leaf))) (\<lambda>publicKey.
                   let address = drop 12 (keccak (drop 1 publicKey)) in
                   res_bind (hex32ToBytes stealthAddressHash) (\<lambda>expected.
                   Inr (keccak address = expected))))))) of
                 Inr b \<Rightarrow> b | Inl _ \<Rightarrow> False)"


section \<open>Dataset hash and manifest\<close>

definition pub_computeDatasetHash :: "(byte list \<Rightarrow> byte list) \<Rightarrow> string \<Rightarrow> string list \<Rightarrow> string res" where
  "pub_computeDatasetHash sha256 rt leaves =
     res_bind (hex32ToBytes rt) (\<lambda>r.
     res_bind (res_map hex32ToBytes leaves) (\<lambda>ls.
     Inr (''0x'' @ concat (map hex2 (sha256 (be_bytes 4 (length leaves) @ r @ concat ls))))))"

record RootManifest =
  rm_verifierId :: string
  rm_root :: string
  rm_datasetHash :: string
  rm_leafCount :: nat
  rm_leaves :: "string list"
  rm_generatedAt :: string

definition rootManifest :: "string \<Rightarrow> string \<Rightarrow> string \<Rightarrow> string list \<Rightarrow> string \<Rightarrow> RootManifest" where
  "rootManifest verifierId rt datasetHash leaves generatedAt =
     \<lparr>rm_verifierId = verifierId, rm_root = rt, rm_datasetHash = datasetHash, rm_leafCount = length leaves,
      rm_leaves = leaves, rm_generatedAt = generatedAt\<rparr>"

definition root_manifest_json :: "RootManifest \<Rightarrow> jv" where
  "root_manifest_json m =
     JObj [(''version'', JNum 1), (''verifierId'', JStr (rm_verifierId m)), (''root'', JStr (rm_root m)),
           (''datasetHash'', JStr (rm_datasetHash m)), (''leafCount'', JNum (of_nat (rm_leafCount m))),
           (''leaves'', JArr (map JStr (rm_leaves m))), (''generatedAt'', JStr (rm_generatedAt m))]"

definition writeRootManifest :: "string \<Rightarrow> RootManifest \<Rightarrow> (fs, unit) prog" where
  "writeRootManifest dataDir m =
     bnd mkdirSync (\<lambda>_.
     writeFileSync (dataDir @ ''/roots/'' @ rm_verifierId m @ ''/'' @ rm_root m @ ''.json'')
       (json_stringify (root_manifest_json m) @ newline))"


section \<open>The in-memory store\<close>

record PublisherState =
  pst_verifierId :: string
  pst_leaves :: "LeafCommitment list"
  pst_lastPublishedRoot :: "string option"
  pst_lastPublishedLedger :: "rat option"
  pst_lastDatasetHash :: "string option"
  pst_updatedAt :: string

record QuarantinedFile =
  qf_filename :: string
  qf_originalContent :: jv
  qf_errors :: "string list"
  qf_quarantinedAt :: string

record PublisherStore =
  ms_state :: "PublisherState option"
  ms_maxInboxSize :: nat
  ms_inbox :: "LeafCommitment list"
  ms_archived :: "string list"
  ms_quarantined :: "QuarantinedFile list"

definition DEFAULT_MAX_INBOX_SIZE :: nat where "DEFAULT_MAX_INBOX_SIZE = 10000"

definition new_PublisherStore :: "nat option \<Rightarrow> PublisherStore" where
  "new_PublisherStore maxInboxSize =
     \<lparr>ms_state = None, ms_maxInboxSize = (case maxInboxSize of Some n \<Rightarrow> n | None \<Rightarrow> DEFAULT_MAX_INBOX_SIZE),
      ms_inbox = [], ms_archived = [], ms_quarantined = []\<rparr>"

definition ms_save :: "PublisherState \<Rightarrow> PublisherStore \<Rightarrow> PublisherStore" where
  "ms_save state s = s\<lparr>ms_state := Some state\<rparr>"

definition ms_inboxSize :: "PublisherStore \<Rightarrow> nat" where
  "ms_inboxSize s = length (ms_inbox s)"

definition ms_quarantineFile :: "string \<Rightarrow> jv \<Rightarrow> string list \<Rightarrow> string \<Rightarrow> PublisherStore \<Rightarrow> PublisherStore" where
  "ms_quarantineFile filename raw errors at_time s =
     s\<lparr>ms_quarantined := ms_quarantined s @ [\<lparr>qf_filename = filename, qf_originalContent = raw, qf_errors = errors,
        qf_quarantinedAt = at_time\<rparr>]\<rparr>"

fun ms_revalidate :: "string \<Rightarrow> LeafCommitment list \<Rightarrow> PublisherStore \<Rightarrow> LeafCommitment list \<times> PublisherStore" where
  "ms_revalidate at_time [] s = ([], s)"
| "ms_revalidate at_time (item # items) s =
     (case validateLeafCommitment (commitment_json item) at_time of
        Inr c \<Rightarrow> (case ms_revalidate at_time items s of (valid, s') \<Rightarrow> (c # valid, s'))
      | Inl errors \<Rightarrow> ms_revalidate at_time items (ms_quarantineFile (lc_id item) (commitment_json item) errors at_time s))"

definition ms_readInbox :: "string \<Rightarrow> PublisherStore \<Rightarrow> LeafCommitment list \<times> PublisherStore" where
  "ms_readInbox at_time s =
     (case ms_revalidate at_time (ms_inbox s) s of (valid, s') \<Rightarrow> (valid, s'\<lparr>ms_inbox := valid\<rparr>))"

definition ms_writeInbox :: "LeafCommitment \<Rightarrow> PublisherStore \<Rightarrow> bool \<times> PublisherStore" where
  "ms_writeInbox c s =
     (if length (ms_inbox s) \<ge> ms_maxInboxSize s then (False, s) else (True, s\<lparr>ms_inbox := ms_inbox s @ [c]\<rparr>))"

definition ms_archiveInbox :: "string list \<Rightarrow> PublisherStore \<Rightarrow> PublisherStore" where
  "ms_archiveInbox ids s =
     s\<lparr>ms_archived := ms_archived s @ ids, ms_inbox := filter (\<lambda>x. lc_id x \<notin> set ids) (ms_inbox s)\<rparr>"


section \<open>The tick\<close>

record 'w PubChainAdapter =
  pub_currentRoot :: "('w, string option) prog"
  pub_postRoot :: "string \<Rightarrow> string \<Rightarrow> ('w, string \<times> rat option) prog"
  pub_getAttestation :: "string \<Rightarrow> ('w, OnChainAttestation option) prog"
  pub_currentLedger :: "('w, rat) prog"

record PublisherMetrics =
  pmx_totalSubmitted :: nat
  pmx_totalAccepted :: nat
  pmx_totalRejected :: nat
  pmx_totalPublished :: nat
  pmx_currentInboxDepth :: nat
  pmx_currentLeafCount :: nat
  pmx_lastPublishAt :: "string option"
  pmx_lastPublishLatencyMs :: "int option"
  pmx_startedAt :: string
  pmx_totalDuplicateResubmissions :: nat
  pmx_totalIdentityCollisions :: nat
  pmx_totalTickFailures :: nat

definition createMetrics :: "string \<Rightarrow> PublisherMetrics" where
  "createMetrics at_time =
     \<lparr>pmx_totalSubmitted = 0, pmx_totalAccepted = 0, pmx_totalRejected = 0, pmx_totalPublished = 0,
      pmx_currentInboxDepth = 0, pmx_currentLeafCount = 0, pmx_lastPublishAt = None, pmx_lastPublishLatencyMs = None,
      pmx_startedAt = at_time, pmx_totalDuplicateResubmissions = 0, pmx_totalIdentityCollisions = 0,
      pmx_totalTickFailures = 0\<rparr>"

record 'w PublisherTickConfig =
  ptc_verifierId :: string
  ptc_adapter :: "'w PubChainAdapter"
  ptc_dataDir :: "string option"
  ptc_now :: "('w, string) prog"
  ptc_ms :: "('w, int) prog"
  ptc_minLeavesToPublish :: "nat option"

record PublisherTickResult =
  ptr_verifierId :: string
  ptr_leafCount :: nat
  ptr_newlyAccepted :: nat
  ptr_localRoot :: "string option"
  ptr_onChainRoot :: "string option"
  ptr_datasetHash :: "string option"
  ptr_published :: bool
  ptr_txHash :: "string option"
  ptr_latencyMs :: int

record 'w PubEnv =
  pev_world :: 'w
  pev_fs :: fs
  pev_store :: PublisherStore
  pev_metrics :: PublisherMetrics

definition pub_initState :: "string \<Rightarrow> string \<Rightarrow> PublisherState" where
  "pub_initState verifierId at_time =
     \<lparr>pst_verifierId = verifierId, pst_leaves = [], pst_lastPublishedRoot = None, pst_lastPublishedLedger = None,
      pst_lastDatasetHash = None, pst_updatedAt = at_time\<rparr>"

record Merge =
  mg_byId :: "(string \<times> LeafCommitment) list"
  mg_byLeaf :: "string list"
  mg_acceptedIds :: "string list"
  mg_acceptedLeaves :: "LeafCommitment list"
  mg_duplicates :: nat
  mg_collisions :: "LeafCommitment list"

definition merge_step :: "Merge \<Rightarrow> LeafCommitment \<Rightarrow> Merge" where
  "merge_step m leaf =
     (let existingById = map_of (mg_byId m) (lc_id leaf);
          existingByLeaf = lc_leaf leaf \<in> set (mg_byLeaf m)
      in if (case existingById of Some e \<Rightarrow> lc_leaf e = lc_leaf leaf | None \<Rightarrow> False)
         then m\<lparr>mg_duplicates := mg_duplicates m + 1\<rparr>
         else if existingById \<noteq> None \<or> existingByLeaf then m\<lparr>mg_collisions := mg_collisions m @ [leaf]\<rparr>
         else m\<lparr>mg_byId := AList.update (lc_id leaf) leaf (mg_byId m), mg_byLeaf := set_add (lc_leaf leaf) (mg_byLeaf m),
               mg_acceptedIds := mg_acceptedIds m @ [lc_id leaf], mg_acceptedLeaves := mg_acceptedLeaves m @ [leaf]\<rparr>)"

definition mergeLeaves :: "LeafCommitment list \<Rightarrow> LeafCommitment list \<Rightarrow> LeafCommitment list \<times> Merge" where
  "mergeLeaves existing incoming =
     (let start = \<lparr>mg_byId = foldl (\<lambda>m l. AList.update (lc_id l) l m) [] existing,
                   mg_byLeaf = foldl (\<lambda>s l. set_add (lc_leaf l) s) [] existing,
                   mg_acceptedIds = [], mg_acceptedLeaves = [], mg_duplicates = 0, mg_collisions = []\<rparr>;
          m = foldl merge_step start incoming
      in (existing @ mg_acceptedLeaves m, m))"

definition attestation_valid ::
  "(byte list \<Rightarrow> byte list) \<Rightarrow> recover_fn \<Rightarrow> rat \<Rightarrow> LeafCommitment \<Rightarrow> OnChainAttestation option \<Rightarrow> bool" where
  "attestation_valid keccak recover ledger leaf attestation =
     (case attestation of
        Some a \<Rightarrow> oa_revocationLedger a = 0 \<and> (oa_expirationLedger a = 0 \<or> oa_expirationLedger a > ledger)
          \<and> to_lower (oa_schemaId a) = to_lower (lc_schemaId leaf)
          \<and> verifyHolderSignature keccak recover leaf (oa_stealthAddressHash a)
      | None \<Rightarrow> False)"

fun keep_valid ::
  "(byte list \<Rightarrow> byte list) \<Rightarrow> recover_fn \<Rightarrow> 'w PubChainAdapter \<Rightarrow> rat \<Rightarrow> LeafCommitment list \<Rightarrow> ('w, LeafCommitment list) prog" where
  "keep_valid keccak recover adapter ledger [] = ret []"
| "keep_valid keccak recover adapter ledger (leaf # leaves) =
     bnd (pub_getAttestation adapter (lc_attestationUid leaf)) (\<lambda>a.
     bnd (keep_valid keccak recover adapter ledger leaves) (\<lambda>rest.
     ret (if attestation_valid keccak recover ledger leaf a then leaf # rest else rest)))"

definition on_pworld :: "('w, 'a) prog \<Rightarrow> ('w PubEnv, 'a) prog" where
  "on_pworld m = on_part pev_world (\<lambda>w s. s\<lparr>pev_world := w\<rparr>) m"

definition on_pfs :: "(fs, 'a) prog \<Rightarrow> ('w PubEnv, 'a) prog" where
  "on_pfs m = on_part pev_fs (\<lambda>f s. s\<lparr>pev_fs := f\<rparr>) m"

definition readInbox :: "string \<Rightarrow> ('w PubEnv, LeafCommitment list) prog" where
  "readInbox at_time = (\<lambda>s. case ms_readInbox at_time (pev_store s) of (valid, st) \<Rightarrow> (Inr valid, s\<lparr>pev_store := st\<rparr>))"

definition tick_metrics :: "nat \<Rightarrow> Merge \<Rightarrow> PublisherStore \<Rightarrow> PublisherMetrics \<Rightarrow> PublisherMetrics" where
  "tick_metrics leafCount m store mx =
     mx\<lparr>pmx_currentInboxDepth := ms_inboxSize store, pmx_currentLeafCount := leafCount,
        pmx_totalDuplicateResubmissions := pmx_totalDuplicateResubmissions mx + mg_duplicates m,
        pmx_totalIdentityCollisions := pmx_totalIdentityCollisions mx + length (mg_collisions m)\<rparr>"

definition save_and_archive :: "PublisherState \<Rightarrow> string list \<Rightarrow> ('w PubEnv, unit) prog" where
  "save_and_archive state ids = upd (\<lambda>s. s\<lparr>pev_store := ms_archiveInbox ids (ms_save state (pev_store s))\<rparr>)"

definition publish_root ::
  "'w PublisherTickConfig \<Rightarrow> string \<Rightarrow> PublisherState \<Rightarrow> string \<Rightarrow> string \<Rightarrow> string option \<Rightarrow>
   ('w PubEnv, PublisherState \<times> string option \<times> bool) prog" where
  "publish_root cfg at_time state localRoot datasetHash onChainRoot =
     (if Some localRoot = onChainRoot then ret (state, None, False)
      else bnd (case ptc_dataDir cfg of
             Some dir \<Rightarrow> if dir = [] then ret ()
               else on_pfs (writeRootManifest dir (rootManifest (ptc_verifierId cfg) localRoot datasetHash
                      (map lc_leaf (pst_leaves state)) at_time))
           | None \<Rightarrow> ret ()) (\<lambda>_.
        bnd (on_pworld (pub_postRoot (ptc_adapter cfg) localRoot datasetHash)) (\<lambda>(hash, ledger).
        bnd (upd (\<lambda>s. s\<lparr>pev_metrics := (pev_metrics s)\<lparr>pmx_totalPublished := pmx_totalPublished (pev_metrics s) + 1,
               pmx_lastPublishAt := Some at_time\<rparr>\<rparr>)) (\<lambda>_.
        ret (state\<lparr>pst_lastPublishedRoot := Some localRoot, pst_lastPublishedLedger := ledger,
                   pst_lastDatasetHash := Some datasetHash\<rparr>, Some hash, True)))))"

definition finish_tick ::
  "poseidon \<Rightarrow> (byte list \<Rightarrow> byte list) \<Rightarrow> 'w PublisherTickConfig \<Rightarrow> int \<Rightarrow> string \<Rightarrow> PublisherState \<Rightarrow>
   LeafCommitment list \<Rightarrow> LeafCommitment list \<Rightarrow> LeafCommitment list \<Rightarrow> ('w PubEnv, PublisherTickResult) prog" where
  "finish_tick poseidon sha256 cfg tickStart at_time state inbox activeLeaves validInbox =
     (let prunedLeaves = length activeLeaves < length (pst_leaves state);
         (leaves, m) = mergeLeaves activeLeaves validInbox;
         state' = state\<lparr>pst_leaves := leaves, pst_updatedAt := at_time\<rparr>;
         ids = map lc_id inbox;
         minLeaves = (case ptc_minLeavesToPublish cfg of Some n \<Rightarrow> n | None \<Rightarrow> 1);
         res = \<lparr>ptr_verifierId = ptc_verifierId cfg, ptr_leafCount = length leaves, ptr_newlyAccepted = length (mg_acceptedIds m),
                ptr_localRoot = None, ptr_onChainRoot = None, ptr_datasetHash = None, ptr_published = False, ptr_txHash = None,
                ptr_latencyMs = 0\<rparr>
     in bnd (upd (\<lambda>s. s\<lparr>pev_metrics := tick_metrics (length leaves) m (pev_store s) (pev_metrics s)\<rparr>)) (\<lambda>_.
     if length leaves < minLeaves \<and> \<not> prunedLeaves
     then bnd (save_and_archive state' ids) (\<lambda>_.
          bnd (on_pworld (ptc_ms cfg)) (\<lambda>now.
          bnd (on_pworld (pub_currentRoot (ptc_adapter cfg))) (\<lambda>onChainRoot.
          ret (res\<lparr>ptr_onChainRoot := onChainRoot, ptr_latencyMs := now - tickStart\<rparr>))))
     else
     bnd (of_res (buildRoot poseidon (map lc_leaf leaves))) (\<lambda>localRoot.
     bnd (of_res (pub_computeDatasetHash sha256 localRoot (map lc_leaf leaves))) (\<lambda>datasetHash.
     bnd (on_pworld (pub_currentRoot (ptc_adapter cfg))) (\<lambda>onChainRoot.
     bnd (publish_root cfg at_time state' localRoot datasetHash onChainRoot) (\<lambda>(state'', txHash, published).
     bnd (save_and_archive state'' ids) (\<lambda>_.
     bnd (on_pworld (ptc_ms cfg)) (\<lambda>now.
     bnd (upd (\<lambda>s. s\<lparr>pev_metrics := (pev_metrics s)\<lparr>pmx_lastPublishLatencyMs := Some (now - tickStart)\<rparr>\<rparr>)) (\<lambda>_.
     ret (res\<lparr>ptr_localRoot := Some localRoot, ptr_onChainRoot := onChainRoot, ptr_datasetHash := Some datasetHash,
              ptr_published := published, ptr_txHash := txHash, ptr_latencyMs := now - tickStart\<rparr>))))))))))"

definition runPublisherTick ::
  "poseidon \<Rightarrow> (byte list \<Rightarrow> byte list) \<Rightarrow> recover_fn \<Rightarrow> (byte list \<Rightarrow> byte list) \<Rightarrow> 'w PublisherTickConfig \<Rightarrow>
   ('w PubEnv, PublisherTickResult) prog" where
  "runPublisherTick poseidon keccak recover sha256 cfg =
     bnd (on_pworld (ptc_ms cfg)) (\<lambda>tickStart.
     bnd (on_pworld (ptc_now cfg)) (\<lambda>at_time.
     bnd (gets (\<lambda>s. case ms_state (pev_store s) of Some st \<Rightarrow> st | None \<Rightarrow> pub_initState (ptc_verifierId cfg) at_time)) (\<lambda>state.
     bnd (readInbox at_time) (\<lambda>inbox.
     bnd (on_pworld (pub_currentLedger (ptc_adapter cfg))) (\<lambda>ledger.
     bnd (on_pworld (keep_valid keccak recover (ptc_adapter cfg) ledger (pst_leaves state))) (\<lambda>activeLeaves.
     bnd (on_pworld (keep_valid keccak recover (ptc_adapter cfg) ledger inbox)) (\<lambda>validInbox.
     finish_tick poseidon sha256 cfg tickStart at_time state inbox activeLeaves validInbox)))))))"

end
