(* ===== verification/Publisher_Snapshot.thy ===== *)
theory Publisher_Snapshot
  imports Publisher
begin

text \<open>
  Tree snapshots (\<open>publisher/src/snapshot.ts\<close>): the leaves of a verifier with every node
  hash that the tree walk visits, keyed by level and start position. The main result is that a
  snapshot suffices to read off the inclusion path of every leaf. The clock reading that fills
  \<open>generatedAt\<close> is an argument; the indentation of the written file is left out.
\<close>

record SnapshotExport =
  se_version :: nat
  se_verifierId :: string
  se_root :: string
  se_leafCount :: nat
  se_leaves :: "string list"
  se_intermediateHashes :: "(string \<times> string) list"
  se_generatedAt :: string

definition buildSnapshotLeaves :: "string list \<Rightarrow> string list" where
  "buildSnapshotLeaves leaves = map to_lower leaves"

definition node_key :: "nat \<Rightarrow> nat \<Rightarrow> string" where
  "node_key level start = dec_of_nat level @ '':'' @ dec_of_nat start"

text \<open>The recursive walk of the closure, with the object it fills passed along.\<close>

definition record_hash :: "string \<Rightarrow> int \<Rightarrow> (string \<times> string) list \<Rightarrow> (int \<times> (string \<times> string) list) res" where
  "record_hash key val hashes = res_bind (bigintToHex32 val) (\<lambda>h. Inr (val, AList.update key h hashes))"

fun nodeHash ::
  "poseidon \<Rightarrow> int list \<Rightarrow> string list \<Rightarrow> nat \<Rightarrow> nat \<Rightarrow> (string \<times> string) list \<Rightarrow> (int \<times> (string \<times> string) list) res" where
  "nodeHash poseidon zero leaves start 0 hashes =
     (if start \<ge> length leaves then record_hash (node_key 0 start) (zero ! 0) hashes
      else res_bind (js_BigInt_str (leaves ! start)) (\<lambda>val. record_hash (node_key 0 start) val hashes))"
| "nodeHash poseidon zero leaves start (Suc l) hashes =
     (if start \<ge> length leaves then record_hash (node_key (Suc l) start) (zero ! Suc l) hashes
      else let half = 2 ^ l in
        res_bind (nodeHash poseidon zero leaves start l hashes) (\<lambda>(left, hashes).
        res_bind (nodeHash poseidon zero leaves (start + half) l hashes) (\<lambda>(right, hashes).
        record_hash (node_key (Suc l) start) (hashFields poseidon [left, right]) hashes)))"

definition buildIntermediateHashes :: "poseidon \<Rightarrow> string list \<Rightarrow> (string \<times> string) list res" where
  "buildIntermediateHashes poseidon leaves =
     res_bind (nodeHash poseidon (zero_table poseidon REP_TREE_DEPTH) leaves 0 REP_TREE_DEPTH []) (\<lambda>(_, hashes). Inr hashes)"

definition buildTreeSnapshot :: "poseidon \<Rightarrow> string \<Rightarrow> string list \<Rightarrow> string \<Rightarrow> SnapshotExport res" where
  "buildTreeSnapshot poseidon verifierId leaves at_time =
     (let leafValues = buildSnapshotLeaves leaves in
      res_bind (buildRoot poseidon leafValues) (\<lambda>rt.
      res_bind (buildIntermediateHashes poseidon leafValues) (\<lambda>hashes.
      Inr \<lparr>se_version = 1, se_verifierId = verifierId, se_root = rt, se_leafCount = length leafValues,
           se_leaves = leafValues, se_intermediateHashes = hashes, se_generatedAt = at_time\<rparr>)))"

definition computeSnapshotHash :: "(byte list \<Rightarrow> byte list) \<Rightarrow> SnapshotExport \<Rightarrow> string res" where
  "computeSnapshotHash sha256 snapshot =
     res_bind (hex32ToBytes (se_root snapshot)) (\<lambda>r.
     res_bind (res_map hex32ToBytes (se_leaves snapshot)) (\<lambda>ls.
     Inr (''0x'' @ concat (map hex2 (sha256 (be_bytes 4 (se_leafCount snapshot) @ r @ concat ls))))))"

definition snapshot_json :: "SnapshotExport \<Rightarrow> jv" where
  "snapshot_json s =
     JObj [(''version'', JNum (of_nat (se_version s))), (''verifierId'', JStr (se_verifierId s)), (''root'', JStr (se_root s)),
           (''leafCount'', JNum (of_nat (se_leafCount s))), (''leaves'', JArr (map JStr (se_leaves s))),
           (''intermediateHashes'', JObj (map (\<lambda>(k, h). (k, JStr h)) (se_intermediateHashes s))),
           (''generatedAt'', JStr (se_generatedAt s))]"

definition writeSnapshot :: "string \<Rightarrow> SnapshotExport \<Rightarrow> (fs, string) prog" where
  "writeSnapshot dataDir snapshot =
     (let p = dataDir @ ''/snapshots/'' @ se_verifierId snapshot @ ''/'' @ se_root snapshot @ ''.json'' in
      bnd mkdirSync (\<lambda>_.
      bnd (writeFileSync p (json_stringify (snapshot_json snapshot) @ newline)) (\<lambda>_. ret p)))"

definition verifySnapshot :: "jv \<Rightarrow> bool" where
  "verifySnapshot snapshot \<longleftrightarrow>
     jv_get snapshot ''version'' = JNum 1
     \<and> \<not> js_falsy (jv_get snapshot ''root'') \<and> \<not> js_falsy (jv_get snapshot ''verifierId'')
     \<and> (case jv_get snapshot ''leaves'' of JArr _ \<Rightarrow> True | _ \<Rightarrow> False)
     \<and> (case jv_get snapshot ''intermediateHashes'' of JObj _ \<Rightarrow> True | JArr _ \<Rightarrow> True | JNull \<Rightarrow> True | _ \<Rightarrow> False)"


section \<open>What the walk records\<close>

lemma node_key_inj [simp]: "node_key l i = node_key l' i' \<longleftrightarrow> l = l' \<and> i = i'"
proof
  have no_colon: "\<forall>c \<in> set (dec_of_nat n). c \<noteq> CHR '':''" for n
    using dec_of_nat_digits [of n] by (auto simp: list_all_iff is_digit_def)
  have level: "takeWhile (\<lambda>c. c \<noteq> CHR '':'') (node_key n m) = dec_of_nat n" for n m
    using no_colon by (simp add: node_key_def takeWhile_append2)
  assume eq: "node_key l i = node_key l' i'"
  then have "dec_of_nat l = dec_of_nat l'" using level by metis
  with eq have "dec_of_nat i = dec_of_nat i'" by (simp add: node_key_def)
  with \<open>dec_of_nat l = dec_of_nat l'\<close> show "l = l' \<and> i = i'" by (metis nat_of_dec_of_nat)
qed simp

text \<open>
  The nodes below node \<open>j\<close> of level \<open>n\<close> that the walk visits: the node itself, and the
  children of every visited node that has a leaf under it.
\<close>

definition visited :: "nat \<Rightarrow> nat \<Rightarrow> nat \<Rightarrow> nat \<Rightarrow> nat \<Rightarrow> bool" where
  "visited count n j l k \<longleftrightarrow> l \<le> n \<and> k div 2 ^ (n - l) = j \<and> (l = n \<or> (k div 2) * 2 ^ Suc l < count)"

lemma visited_empty:
  assumes "count \<le> j * 2 ^ n"
  shows "visited count n j l k \<longleftrightarrow> l = n \<and> k = j"
proof -
  have False if l: "l < n" and k: "k div 2 ^ (n - l) = j" and lt: "(k div 2) * 2 ^ Suc l < count"
  proof -
    obtain d where d: "n - l = Suc d" "n = Suc l + d" using l by (metis less_iff_Suc_add diff_add_inverse add_Suc_right add_Suc)
    have "j = (k div 2) div 2 ^ d" using k by (simp add: d(1) div_mult2_eq)
    then have "j * 2 ^ d \<le> k div 2" by simp
    then have "j * 2 ^ d * 2 ^ Suc l \<le> (k div 2) * 2 ^ Suc l" by (rule mult_le_mono1)
    moreover have "j * 2 ^ n = j * 2 ^ d * 2 ^ Suc l" by (simp add: d(2) power_add)
    ultimately show False using assms lt by linarith
  qed
  then have "visited count n j l k \<Longrightarrow> l = n" unfolding visited_def by (metis le_neq_implies_less)
  then show ?thesis by (auto simp: visited_def)
qed

lemma visited_Suc:
  assumes "j * 2 ^ Suc n < count"
  shows "visited count (Suc n) j l k \<longleftrightarrow>
    (l = Suc n \<and> k = j) \<or> visited count n (2 * j) l k \<or> visited count n (2 * j + 1) l k"
proof (cases "l \<le> n")
  case True
  have half: "x div 2 = j \<longleftrightarrow> x = 2 * j \<or> x = 2 * j + 1" for x :: nat by presburger
  have "k div 2 ^ (Suc n - l) = k div 2 ^ (n - l) div 2"
    using True by (simp add: Suc_diff_le div_mult2_eq [symmetric] mult.commute)
  then have step: "k div 2 ^ (Suc n - l) = j \<longleftrightarrow> k div 2 ^ (n - l) = 2 * j \<or> k div 2 ^ (n - l) = 2 * j + 1"
    using half by simp
  show ?thesis
  proof (cases "l = n")
    case True
    then show ?thesis using assms by (auto simp: visited_def)
  next
    case False
    with True show ?thesis unfolding visited_def step by auto
  qed
next
  case False
  then show ?thesis by (auto simp: visited_def)
qed

lemma record_hash_ok:
  "0 \<le> v \<Longrightarrow> v < 2 ^ 256 \<Longrightarrow> record_hash key v hashes = Inr (v, AList.update key (toHex32 v) hashes)"
  by (simp add: record_hash_def bigintToHex32_Inr [THEN iffD2])

lemma nodeHash_ok:
  assumes vs: "map js_BigInt_str leaves = map Inr vs" and bounds: "\<forall>v \<in> set vs. 0 \<le> v \<and> v < 2 ^ 256"
    and field: "field_valued poseidon" and n: "n \<le> depth"
  shows "\<exists>hs. nodeHash poseidon (zero_table poseidon depth) leaves (j * 2 ^ n) n hashes = Inr (full_node poseidon vs n j, hs)
    \<and> (\<forall>l k. map_of hs (node_key l (k * 2 ^ l)) =
        (if visited (length leaves) n j l k then Some (toHex32 (full_node poseidon vs l k))
         else map_of hashes (node_key l (k * 2 ^ l))))"
  using n
proof (induction n arbitrary: j hashes)
  case 0
  have len: "length vs = length leaves" using vs by (metis length_map)
  have at_j: "js_BigInt_str (leaves ! j) = Inr (vs ! j)" if "j < length leaves"
    using that vs len by (metis nth_map)
  have "nodeHash poseidon (zero_table poseidon depth) leaves (j * 2 ^ 0) 0 hashes =
      Inr (leaf_at vs j, AList.update (node_key 0 j) (toHex32 (leaf_at vs j)) hashes)"
    using bounds len by (auto simp: at_j record_hash_ok leaf_at_def zero_table_0)
  then show ?case by (auto simp: visited_def update_conv')
next
  case (Suc n)
  have len: "length vs = length leaves" using vs by (metis length_map)
  have node: "0 \<le> full_node poseidon vs l k \<and> full_node poseidon vs l k < 2 ^ 256" for l k
    by (rule full_node_bounds [OF field bounds])
  show ?case
  proof (cases "length leaves \<le> j * 2 ^ Suc n")
    case True
    have "full_node poseidon vs (Suc n) j = zero_table poseidon depth ! Suc n"
      using pub_tree.full_node_empty [of "Suc n" depth vs j poseidon] Suc.prems True len by simp
    then have "nodeHash poseidon (zero_table poseidon depth) leaves (j * 2 ^ Suc n) (Suc n) hashes =
        Inr (full_node poseidon vs (Suc n) j,
          AList.update (node_key (Suc n) (j * 2 ^ Suc n)) (toHex32 (full_node poseidon vs (Suc n) j)) hashes)"
      using True node [of "Suc n" j] by (simp add: record_hash_ok del: full_node.simps)
    then show ?thesis
      using visited_empty [OF True] by (auto simp: update_conv' simp del: full_node.simps)
  next
    case False
    from Suc.IH [of "2 * j" hashes] Suc.prems obtain hl where hl:
      "nodeHash poseidon (zero_table poseidon depth) leaves (2 * j * 2 ^ n) n hashes = Inr (full_node poseidon vs n (2 * j), hl)"
      "\<And>l k. map_of hl (node_key l (k * 2 ^ l)) =
        (if visited (length leaves) n (2 * j) l k then Some (toHex32 (full_node poseidon vs l k))
         else map_of hashes (node_key l (k * 2 ^ l)))" by auto
    from Suc.IH [of "2 * j + 1" hl] Suc.prems obtain hr where hr:
      "nodeHash poseidon (zero_table poseidon depth) leaves ((2 * j + 1) * 2 ^ n) n hl = Inr (full_node poseidon vs n (2 * j + 1), hr)"
      "\<And>l k. map_of hr (node_key l (k * 2 ^ l)) =
        (if visited (length leaves) n (2 * j + 1) l k then Some (toHex32 (full_node poseidon vs l k))
         else map_of hl (node_key l (k * 2 ^ l)))" by auto
    have start: "j * 2 ^ Suc n = 2 * j * 2 ^ n" "2 * j * 2 ^ n + 2 ^ n = (2 * j + 1) * 2 ^ n" by (simp_all add: algebra_simps)
    have "nodeHash poseidon (zero_table poseidon depth) leaves (j * 2 ^ Suc n) (Suc n) hashes =
        record_hash (node_key (Suc n) (j * 2 ^ Suc n)) (full_node poseidon vs (Suc n) j) hr"
      using False unfolding nodeHash.simps start hl(1) by (simp add: Let_def start hl(1) hr(1) [simplified] hashFields_def)
    also have "\<dots> = Inr (full_node poseidon vs (Suc n) j,
        AList.update (node_key (Suc n) (j * 2 ^ Suc n)) (toHex32 (full_node poseidon vs (Suc n) j)) hr)"
      using node [of "Suc n" j] by (simp only: record_hash_ok)
    finally have run: "nodeHash poseidon (zero_table poseidon depth) leaves (j * 2 ^ Suc n) (Suc n) hashes = \<dots>" .
    have "visited (length leaves) (Suc n) j l k \<longleftrightarrow> (l = Suc n \<and> k = j) \<or> visited (length leaves) n (2 * j) l k
        \<or> visited (length leaves) n (2 * j + 1) l k" for l k
      using visited_Suc False by simp
    then show ?thesis
      unfolding run by (auto simp: update_conv' hr(2) hl(2) simp del: full_node.simps)
  qed
qed


section \<open>Paths from a snapshot\<close>

definition sibling_of :: "nat \<Rightarrow> nat" where
  "sibling_of k = (if even k then k + 1 else k - 1)"

lemma sibling_of_div: "sibling_of k div 2 = k div 2"
  by (simp add: sibling_of_def) presburger

lemma full_path_nth:
  "l < n \<Longrightarrow> fst (full_path poseidon leaves m i n ! l) = full_node poseidon leaves (m + l) (sibling_of (i div 2 ^ l))"
proof (induction n arbitrary: m i l)
  case (Suc n)
  show ?case
  proof (cases l)
    case 0
    then show ?thesis by (simp add: sibling_of_def)
  next
    case (Suc l')
    with Suc.prems Suc.IH [of l' "Suc m" "i div 2"] show ?thesis by (simp add: div_mult2_eq)
  qed
qed simp

lemma sibling_visited:
  assumes "i < count" "count \<le> 2 ^ depth" "l < depth"
  shows "visited count depth 0 l (sibling_of (i div 2 ^ l))"
proof -
  have half: "sibling_of (i div 2 ^ l) div 2 = i div 2 ^ Suc l"
    by (simp add: sibling_of_div div_mult2_eq [symmetric] mult.commute)
  have "i div 2 ^ Suc l * 2 ^ Suc l \<le> i" by (rule div_times_less_eq_dividend)
  then have "i div 2 ^ Suc l * 2 ^ Suc l < count" using assms(1) by (rule le_less_trans)
  moreover have "sibling_of (i div 2 ^ l) div 2 ^ (depth - l) = 0"
  proof -
    obtain d where d: "depth = Suc l + d" using assms(3) by (metis less_iff_Suc_add add_Suc)
    have "sibling_of (i div 2 ^ l) div 2 ^ (depth - l) = sibling_of (i div 2 ^ l) div 2 div 2 ^ d"
      by (simp add: d Suc_diff_le div_mult2_eq)
    also have "\<dots> = i div 2 ^ depth" by (simp add: half d power_add div_mult2_eq [symmetric] mult.assoc)
    also have "\<dots> = 0" using assms(1,2) by simp
    finally show ?thesis .
  qed
  ultimately show ?thesis
    using assms(3) unfolding visited_def half by simp
qed

text \<open>
  A snapshot serves every inclusion proof. For stored leaves a snapshot is always built, its root
  is the root the publisher posts for these leaves and its top hash, and for every leaf the proof
  endpoint answers for, the node hashes that the snapshot holds at the sibling positions are exactly
  the path elements of that answer, level by level.
\<close>

lemma snapshot_serves_every_path:
  assumes "field_valued poseidon" "length leaves \<le> 2 ^ REP_TREE_DEPTH" "\<forall>s \<in> set leaves. is_hex32 s"
  shows "\<exists>snap. buildTreeSnapshot poseidon verifierId leaves t = Inr snap \<and> se_leaves snap = leaves
    \<and> buildRoot poseidon leaves = Inr (se_root snap)
    \<and> map_of (se_intermediateHashes snap) (node_key REP_TREE_DEPTH 0) = Some (se_root snap)
    \<and> (\<forall>leaf i p. buildProof poseidon leaves leaf = Inr (i, p) \<longrightarrow>
        length (rp_pathElements p) = REP_TREE_DEPTH \<and> (\<forall>l < REP_TREE_DEPTH.
        map_of (se_intermediateHashes snap) (node_key l (sibling_of (i div 2 ^ l) * 2 ^ l)) = Some (rp_pathElements p ! l)))"
proof -
  obtain vs where vs: "leaves = map toHex32 vs" "\<forall>v \<in> set vs. 0 \<le> v \<and> v < 2 ^ 256"
    using hex32_values [OF assms(3)] by blast
  let ?t = "\<lparr>rt_poseidon = poseidon, rt_depth = REP_TREE_DEPTH, rt_leaves = vs, rt_zero = zero_table poseidon REP_TREE_DEPTH\<rparr>"
  have low: "map to_lower leaves = leaves"
    using assms(3) by (intro map_idI) (simp add: is_hex32_lower)
  have big: "map js_BigInt_str leaves = map Inr vs" using vs by simp
  note tree = rt_build [OF assms(2) big, of poseidon]
  have wf: "rt_wf ?t" using assms(2) vs(1) by (simp add: rt_wf_def)
  have root: "buildRoot poseidon leaves = Inr (toHex32 (full_node poseidon vs REP_TREE_DEPTH 0))"
    using full_node_bounds [OF assms(1) vs(2)] wf
    by (simp add: buildRoot_def tree rt_rootHex_def bigintToHex32_Inr rt_root_reference reference_root_full_node)
  obtain hs where hs: "nodeHash poseidon (zero_table poseidon REP_TREE_DEPTH) leaves 0 REP_TREE_DEPTH [] =
      Inr (full_node poseidon vs REP_TREE_DEPTH 0, hs)"
    "\<And>l k. visited (length leaves) REP_TREE_DEPTH 0 l k \<Longrightarrow>
      map_of hs (node_key l (k * 2 ^ l)) = Some (toHex32 (full_node poseidon vs l k))"
    using nodeHash_ok [OF big vs(2) assms(1) order_refl, where depth = REP_TREE_DEPTH and j = 0 and hashes = "[]"] by auto
  have "map_of hs (node_key REP_TREE_DEPTH 0) = Some (toHex32 (full_node poseidon vs REP_TREE_DEPTH 0))"
    using hs(2) [of REP_TREE_DEPTH 0] by (simp add: visited_def)
  moreover have "length (rp_pathElements p) = REP_TREE_DEPTH \<and> (\<forall>l < REP_TREE_DEPTH.
      map_of hs (node_key l (sibling_of (i div 2 ^ l) * 2 ^ l)) = Some (rp_pathElements p ! l))"
    if "buildProof poseidon leaves leaf = Inr (i, p)" for leaf i p
  proof -
    have i: "i < length leaves" and p: "rt_proof ?t i = Inr p"
      using that first_index_Some by (auto simp: buildProof_def low tree res_bind_eq_Inr split: option.splits)
    have "p = \<lparr>rp_root = toHex32 (rt_root ?t),
        rp_pathElements = map (toHex32 \<circ> fst) (full_path poseidon vs 0 i REP_TREE_DEPTH), rp_pathIndices = path_bits REP_TREE_DEPTH i\<rparr>"
      using p rt_proof_ok [OF wf, of i] i vs assms(1) by simp
    then show ?thesis
      using hs(2) sibling_visited [OF i assms(2)] by (simp add: full_path_nth)
  qed
  ultimately show ?thesis
    using root hs(1) by (simp add: buildTreeSnapshot_def buildSnapshotLeaves_def low buildIntermediateHashes_def)
qed

definition small_hash :: poseidon where
  "small_hash xs = sum_list xs mod 97"

lemma snapshot_serves_every_path_witness:
  "\<exists>snap. buildTreeSnapshot small_hash ''v'' [toHex32 5, toHex32 7] ''t'' = Inr snap
    \<and> se_leaves snap = [toHex32 5, toHex32 7]
    \<and> map_of (se_intermediateHashes snap) (node_key 20 0) = Some (se_root snap)"
proof -
  have "field_valued small_hash"
    by (auto simp: field_valued_def small_hash_def intro: less_trans [OF pos_mod_bound])
  moreover have "\<forall>s \<in> set [toHex32 5, toHex32 7]. is_hex32 s"
    by (simp add: is_hex32_toHex32)
  ultimately show ?thesis
    using snapshot_serves_every_path [of small_hash "[toHex32 5, toHex32 7]" "''v''" "''t''"]
    by (auto simp: REP_TREE_DEPTH_def)
qed

end
