(* ===== verification/Publisher_Http.thy ===== *)
theory Publisher_Http
  imports Publisher_Snapshot Http_Server
begin

text \<open>
  The publisher's HTTP API (\<open>publisher/src/http.ts\<close>) with its bearer tokens
  (\<open>auth.ts\<close>), the limited body reader (\<open>body.ts\<close>), the metrics page
  (\<open>metrics.ts\<close>) and the background loop. The handler runs over the store, the metrics, the
  limiter and the response; the chain adapter and the two clocks are programs over the world.
  \<open>phd_getTime\<close> stands for the parsing of an ISO date.
\<close>


section \<open>Tokens\<close>

record AuthConfig =
  ac_submitTokens :: "string list"
  ac_operatorTokens :: "string list"

definition parseTokenList :: "string option \<Rightarrow> string list" where
  "parseTokenList raw = remdups (trimmed_parts (case raw of None \<Rightarrow> [] | Some v \<Rightarrow> v))"

definition constantTimeIncludes :: "string list \<Rightarrow> string \<Rightarrow> bool" where
  "constantTimeIncludes tokens candidate =
     foldl (\<lambda>found token. if length (utf8 token) \<noteq> length (utf8 candidate) then found
                         else if utf8 token = utf8 candidate then True else found) False tokens"

definition loadAuthConfigFromEnv :: "process_env \<Rightarrow> AuthConfig" where
  "loadAuthConfigFromEnv env =
     \<lparr>ac_submitTokens = parseTokenList (env ''PUBLISHER_SUBMIT_TOKENS''),
      ac_operatorTokens = parseTokenList (env ''PUBLISHER_OPERATOR_TOKENS'')\<rparr>"

definition is_line_break :: "char \<Rightarrow> bool" where
  "is_line_break c \<longleftrightarrow> c = CHR 0x0A \<or> c = CHR 0x0D"

text \<open>The pattern is \<open>Bearer\<close> in any case, white space, and the rest of a single line.\<close>

definition extractBearerToken :: "request \<Rightarrow> string option" where
  "extractBearerToken req =
     (case rq_authorization req of
        None \<Rightarrow> None
      | Some header \<Rightarrow>
          let h = js_trim header; rest = drop 6 h; tok = dropWhile is_ws rest
          in if to_lower (take 6 h) = ''bearer'' \<and> rest \<noteq> [] \<and> is_ws (hd rest) \<and> tok \<noteq> [] \<and> \<not> list_ex is_line_break tok
             then Some (js_trim tok) else None)"

definition isAuthorizedSubmitter :: "request \<Rightarrow> AuthConfig \<Rightarrow> bool" where
  "isAuthorizedSubmitter req cfg =
     (case extractBearerToken req of
        None \<Rightarrow> False
      | Some tok \<Rightarrow> if tok = [] then False else constantTimeIncludes (ac_submitTokens cfg) tok)"

definition isAuthorizedOperator :: "request \<Rightarrow> AuthConfig \<Rightarrow> bool" where
  "isAuthorizedOperator req cfg =
     (case extractBearerToken req of
        None \<Rightarrow> False
      | Some tok \<Rightarrow> if tok = [] then False else constantTimeIncludes (ac_operatorTokens cfg) tok)"

definition readJsonLimited :: "request \<Rightarrow> nat \<Rightarrow> jv res" where
  "readJsonLimited req maxBytes =
     res_bind (read_chunks maxBytes 0 [] (rq_chunks req)) (\<lambda>chunks.
     if chunks = [] then Inr (JObj [])
     else let s = text_decode (concat chunks) in json_parse (if s = [] then ''{}'' else s))"


section \<open>The metrics page\<close>

definition metric_lines :: "string \<Rightarrow> string \<Rightarrow> string \<Rightarrow> string \<Rightarrow> string list" where
  "metric_lines name help kind value =
     [''# HELP '' @ name @ '' '' @ help, ''# TYPE '' @ name @ '' '' @ kind, name @ '' '' @ value]"

text \<open>\<open>toFixed(1)\<close>: the nearest multiple of a tenth, the larger one of two.\<close>

definition toFixed1 :: "rat \<Rightarrow> string" where
  "toFixed1 x = (let n = \<lfloor>\<bar>x\<bar> * 10 + 1 / 2\<rfloor>
     in (if x < 0 then ''-'' else []) @ dec_of_int (n div 10) @ ''.'' @ dec_of_int (n mod 10))"

definition formatPrometheusMetrics :: "int \<Rightarrow> int \<Rightarrow> PublisherMetrics \<Rightarrow> string" where
  "formatPrometheusMetrics now startedAtMs mx = join_with newline (concat [
     metric_lines ''publisher_total_submitted'' ''Total number of leaf submissions received.'' ''counter'' (dec_of_nat (pmx_totalSubmitted mx)),
     metric_lines ''publisher_total_accepted'' ''Total number of leaf submissions accepted into the inbox.'' ''counter'' (dec_of_nat (pmx_totalAccepted mx)),
     metric_lines ''publisher_total_rejected'' ''Total number of leaf submissions rejected (backpressure).'' ''counter'' (dec_of_nat (pmx_totalRejected mx)),
     metric_lines ''publisher_total_published'' ''Total number of root publications to chain.'' ''counter'' (dec_of_nat (pmx_totalPublished mx)),
     metric_lines ''publisher_inbox_depth'' ''Current number of items in the inbox queue.'' ''gauge'' (dec_of_nat (pmx_currentInboxDepth mx)),
     metric_lines ''publisher_leaf_count'' ''Current number of leaves in the Merkle tree.'' ''gauge'' (dec_of_nat (pmx_currentLeafCount mx)),
     metric_lines ''publisher_last_publish_latency_ms'' ''Latency of the last successful publish tick in milliseconds.'' ''gauge''
       (dec_of_int (case pmx_lastPublishLatencyMs mx of Some n \<Rightarrow> n | None \<Rightarrow> -1)),
     metric_lines ''publisher_uptime_seconds'' ''Seconds since the publisher process started.'' ''gauge'' (toFixed1 (of_int (now - startedAtMs) / 1000)),
     metric_lines ''publisher_total_duplicate_resubmissions'' ''Total number of idempotent duplicate leaf resubmissions.'' ''counter''
       (dec_of_nat (pmx_totalDuplicateResubmissions mx)),
     metric_lines ''publisher_total_identity_collisions'' ''Total number of identity-colliding leaf submissions flagged.'' ''counter''
       (dec_of_nat (pmx_totalIdentityCollisions mx)),
     metric_lines ''publisher_total_tick_failures'' ''Total number of failed background publish ticks (retried on the next interval).'' ''counter''
       (dec_of_nat (pmx_totalTickFailures mx))]) @ newline"


section \<open>The request handler\<close>

definition DEFAULT_MAX_BODY_BYTES :: nat where "DEFAULT_MAX_BODY_BYTES = 32 * 1024"

record 'w PublisherHttpDeps =
  phd_verifierId :: string
  phd_chainAdapter :: "'w PubChainAdapter option"
  phd_maxBodyBytes :: "nat option"
  phd_authConfig :: "AuthConfig option"
  phd_trustedProxies :: "string list option"
  phd_ms :: "('w, int) prog"
  phd_iso :: "('w, string) prog"
  phd_getTime :: "string \<Rightarrow> int"

record 'w PubHttp =
  ph_world :: 'w
  ph_store :: PublisherStore
  ph_metrics :: PublisherMetrics
  ph_limiter :: RateLimiter
  ph_res :: response

definition on_hworld :: "('w, 'a) prog \<Rightarrow> ('w PubHttp, 'a) prog" where
  "on_hworld m = on_part ph_world (\<lambda>w s. s\<lparr>ph_world := w\<rparr>) m"

definition send :: "nat \<Rightarrow> jv \<Rightarrow> ('w PubHttp, unit) prog" where
  "send status body = on_part ph_res (\<lambda>r s. s\<lparr>ph_res := r\<rparr>) (res_send status body)"

definition setHeader :: "string \<Rightarrow> string \<Rightarrow> ('w PubHttp, unit) prog" where
  "setHeader name value = on_part ph_res (\<lambda>r s. s\<lparr>ph_res := r\<rparr>) (res_setHeader name value)"

definition refused :: "string \<Rightarrow> jv" where
  "refused msg = JObj [(''ok'', JBool False), (''error'', JStr msg)]"

definition consume_token :: "string \<Rightarrow> int \<Rightarrow> ('w PubHttp, RateLimitResult) prog" where
  "consume_token source now s =
     (case consume source now (ph_limiter s) of (rl, l) \<Rightarrow> (Inr rl, s\<lparr>ph_limiter := l\<rparr>))"

definition upd_metrics :: "(PublisherMetrics \<Rightarrow> PublisherMetrics) \<Rightarrow> ('w PubHttp, unit) prog" where
  "upd_metrics f = upd (\<lambda>s. s\<lparr>ph_metrics := f (ph_metrics s)\<rparr>)"

definition reject_rate_limited :: "'w PublisherHttpDeps \<Rightarrow> RateLimitResult \<Rightarrow> ('w PubHttp, unit) prog" where
  "reject_rate_limited deps rl =
     bnd (on_hworld (phd_ms deps)) (\<lambda>now.
     let retryAfter = ceil_seconds (rl_resetMs rl - of_int now) in
     bnd (send 429 (JObj [(''ok'', JBool False), (''error'', JStr ''rate limit exceeded''),
            (''retryAfterSeconds'', JNum (of_int retryAfter)), (''limit'', JNum (rl_limit rl)), (''remaining'', JNum (of_int (rl_remaining rl)))])) (\<lambda>_.
     bnd (setHeader ''X-RateLimit-Limit'' (js_num_String (rl_limit rl))) (\<lambda>_.
     bnd (setHeader ''X-RateLimit-Remaining'' (dec_of_int (rl_remaining rl))) (\<lambda>_.
     bnd (setHeader ''X-RateLimit-Reset'' (dec_of_int (ceil_seconds (rl_resetMs rl)))) (\<lambda>_.
     setHeader ''Retry-After'' (dec_of_int retryAfter))))))"

definition attestation_refusal ::
  "(byte list \<Rightarrow> byte list) \<Rightarrow> recover_fn \<Rightarrow> LeafCommitment \<Rightarrow> OnChainAttestation option \<Rightarrow> rat \<Rightarrow> string option" where
  "attestation_refusal keccak recover c attestation ledger =
     (case attestation of
        None \<Rightarrow> Some ''attestation UID does not exist on-chain''
      | Some a \<Rightarrow>
          if to_lower (oa_schemaId a) \<noteq> to_lower (lc_schemaId c) then Some ''attestation schema does not match submission''
          else if oa_revocationLedger a \<noteq> 0 then Some ''attestation has been revoked''
          else if oa_expirationLedger a \<noteq> 0 \<and> oa_expirationLedger a \<le> ledger then Some ''attestation has expired''
          else if \<not> verifyHolderSignature keccak recover c (oa_stealthAddressHash a)
          then Some ''holder signature does not control the attested stealth identity''
          else None)"

definition write_inbox :: "LeafCommitment \<Rightarrow> ('w PubHttp, bool) prog" where
  "write_inbox c s = (case ms_writeInbox c (ph_store s) of (ok, st) \<Rightarrow> (Inr ok, s\<lparr>ph_store := st\<rparr>))"

definition queue_commitment :: "LeafCommitment \<Rightarrow> ('w PubHttp, unit) prog" where
  "queue_commitment c =
     bnd (upd_metrics (\<lambda>mx. mx\<lparr>pmx_totalSubmitted := pmx_totalSubmitted mx + 1\<rparr>)) (\<lambda>_.
     bnd (write_inbox c) (\<lambda>accepted.
     bnd (gets (\<lambda>s. ms_inboxSize (ph_store s))) (\<lambda>depth.
     if \<not> accepted
     then bnd (upd_metrics (\<lambda>mx. mx\<lparr>pmx_totalRejected := pmx_totalRejected mx + 1\<rparr>)) (\<lambda>_.
          send 429 (JObj [(''ok'', JBool False), (''error'', JStr ''inbox full''), (''retryAfterSeconds'', JNum 30),
            (''inboxDepth'', JNum (of_nat depth))]))
     else bnd (upd_metrics (\<lambda>mx. mx\<lparr>pmx_totalAccepted := pmx_totalAccepted mx + 1, pmx_currentInboxDepth := depth\<rparr>)) (\<lambda>_.
          send 202 (JObj [(''ok'', JBool True), (''accepted'', commitment_json c), (''queued'', JBool True),
            (''inboxDepth'', JNum (of_nat depth))])))))"

definition post_leaves ::
  "(byte list \<Rightarrow> byte list) \<Rightarrow> recover_fn \<Rightarrow> 'w PublisherHttpDeps \<Rightarrow> request \<Rightarrow> ('w PubHttp, unit) prog" where
  "post_leaves keccak recover deps req =
     (if (case phd_authConfig deps of Some cfg \<Rightarrow> \<not> isAuthorizedSubmitter req cfg | None \<Rightarrow> False)
      then send 401 (refused ''unauthorized'')
      else
      let source = resolveClientSource (rq_remoteAddress req) (rq_forwardedFor req)
            (case phd_trustedProxies deps of Some ps \<Rightarrow> ps | None \<Rightarrow> []) in
      bnd (on_hworld (phd_ms deps)) (\<lambda>now.
      bnd (consume_token source now) (\<lambda>rl.
      if \<not> rl_allowed rl then reject_rate_limited deps rl
      else
      bnd (of_res (readJsonLimited req (case phd_maxBodyBytes deps of Some n \<Rightarrow> n | None \<Rightarrow> DEFAULT_MAX_BODY_BYTES))) (\<lambda>raw.
      bnd (on_hworld (phd_iso deps)) (\<lambda>at_time.
      bnd (of_res (normalizeCommitment raw at_time)) (\<lambda>commitment.
      case phd_chainAdapter deps of
        None \<Rightarrow> send 503 (refused ''on-chain attestation validation is unavailable'')
      | Some adapter \<Rightarrow>
          bnd (on_hworld (pub_getAttestation adapter (lc_attestationUid commitment))) (\<lambda>attestation.
          bnd (on_hworld (pub_currentLedger adapter)) (\<lambda>ledger.
          case attestation_refusal keccak recover commitment attestation ledger of
            Some msg \<Rightarrow> send 422 (refused msg)
          | None \<Rightarrow> queue_commitment commitment))))))))"

definition state_leaves :: "PublisherStore \<Rightarrow> string list" where
  "state_leaves s = (case ms_state s of Some st \<Rightarrow> map lc_leaf (pst_leaves st) | None \<Rightarrow> [])"

definition rootResponse ::
  "poseidon \<Rightarrow> (byte list \<Rightarrow> byte list) \<Rightarrow> PublisherStore \<Rightarrow> string \<Rightarrow> string \<Rightarrow> jv res" where
  "rootResponse poseidon sha256 store verifierId leaf =
     res_bind (normalizeHex32 leaf ''leaf'') (\<lambda>normalizedLeaf.
     let leafValues = state_leaves store in
     res_bind (buildProof poseidon leafValues normalizedLeaf) (\<lambda>(leafIndex, p).
     res_bind (pub_computeDatasetHash sha256 (rp_root p) leafValues) (\<lambda>datasetHash.
     Inr (JObj [(''verifierId'', JStr verifierId), (''leaf'', JStr normalizedLeaf), (''leafIndex'', JNum (of_nat leafIndex)),
       (''leafCount'', JNum (of_nat (length leafValues))), (''root'', JStr (rp_root p)), (''datasetHash'', JStr datasetHash),
       (''pathElements'', JArr (map JStr (rp_pathElements p))), (''pathIndices'', JArr (map (JNum \<circ> of_nat) (rp_pathIndices p)))]))))"

definition get_root :: "poseidon \<Rightarrow> (byte list \<Rightarrow> byte list) \<Rightarrow> 'w PublisherHttpDeps \<Rightarrow> string \<Rightarrow> ('w PubHttp, unit) prog" where
  "get_root poseidon sha256 deps param =
     try_catch
       (bnd (gets ph_store) (\<lambda>store.
        bnd (of_res (res_bind (decodeURIComponent param) (rootResponse poseidon sha256 store (phd_verifierId deps)))) (\<lambda>body.
        send 200 body)))
       (\<lambda>_. send 404 (refused ''leaf not included in the current reputation root''))"

definition get_snapshot :: "poseidon \<Rightarrow> (byte list \<Rightarrow> byte list) \<Rightarrow> 'w PublisherHttpDeps \<Rightarrow> string \<Rightarrow> ('w PubHttp, unit) prog" where
  "get_snapshot poseidon sha256 deps param =
     bnd (of_res (decodeURIComponent param)) (\<lambda>snapshotVerifierId.
     bnd (gets (\<lambda>s. state_leaves (ph_store s))) (\<lambda>leafValues.
     if leafValues = [] then send 404 (refused ''no leaves found for this verifier'')
     else
     bnd (on_hworld (phd_iso deps)) (\<lambda>at_time.
     bnd (of_res (buildTreeSnapshot poseidon snapshotVerifierId leafValues at_time)) (\<lambda>snapshot.
     bnd (of_res (computeSnapshotHash sha256 snapshot)) (\<lambda>snapshotHash.
     send 200 (JObj [(''ok'', JBool True), (''snapshot'', snapshot_json snapshot), (''snapshotHash'', JStr snapshotHash)]))))))"

definition quarantined_json :: "QuarantinedFile \<Rightarrow> jv" where
  "quarantined_json q =
     JObj [(''filename'', JStr (qf_filename q)), (''originalContent'', qf_originalContent q),
           (''errors'', JArr (map JStr (qf_errors q))), (''quarantinedAt'', JStr (qf_quarantinedAt q))]"

definition operator_refused :: "'w PublisherHttpDeps \<Rightarrow> request \<Rightarrow> bool" where
  "operator_refused deps req = (case phd_authConfig deps of Some cfg \<Rightarrow> \<not> isAuthorizedOperator req cfg | None \<Rightarrow> False)"

definition get_quarantine :: "'w PublisherHttpDeps \<Rightarrow> request \<Rightarrow> ('w PubHttp, unit) prog" where
  "get_quarantine deps req =
     (if operator_refused deps req then send 401 (refused ''unauthorized'')
      else bnd (gets (\<lambda>s. ms_quarantined (ph_store s))) (\<lambda>quarantine.
           send 200 (JObj [(''ok'', JBool True), (''count'', JNum (of_nat (length quarantine))),
             (''files'', JArr (map quarantined_json quarantine))])))"

definition get_metrics :: "'w PublisherHttpDeps \<Rightarrow> request \<Rightarrow> ('w PubHttp, unit) prog" where
  "get_metrics deps req =
     (if operator_refused deps req then send 401 (refused ''unauthorized'')
      else bnd (on_hworld (phd_ms deps)) (\<lambda>now.
           bnd (gets ph_metrics) (\<lambda>mx.
           send 200 (JStr (formatPrometheusMetrics now (phd_getTime deps (pmx_startedAt mx)) mx)))))"

definition get_health :: "'w PublisherHttpDeps \<Rightarrow> ('w PubHttp, unit) prog" where
  "get_health deps =
     bnd (gets (\<lambda>s. (ph_store s, ph_metrics s))) (\<lambda>(store, mx).
     send 200 (JObj [(''ok'', JBool True), (''verifierId'', JStr (phd_verifierId deps)),
       (''inboxDepth'', JNum (of_nat (ms_inboxSize store))), (''quarantineSize'', JNum (of_nat (length (ms_quarantined store)))),
       (''lastPublishAt'', case pmx_lastPublishAt mx of Some t \<Rightarrow> JStr t | None \<Rightarrow> JNull),
       (''totalTickFailures'', JNum (of_nat (pmx_totalTickFailures mx)))]))"

definition route ::
  "poseidon \<Rightarrow> (byte list \<Rightarrow> byte list) \<Rightarrow> (byte list \<Rightarrow> byte list) \<Rightarrow> recover_fn \<Rightarrow> 'w PublisherHttpDeps \<Rightarrow> request \<Rightarrow>
   ('w PubHttp, unit) prog" where
  "route poseidon sha256 keccak recover deps req =
     (if rq_method req = ''OPTIONS'' then send 204 (JObj [])
      else if rq_method req = ''POST'' \<and> rq_pathname req = ''/v1/reputation/leaves'' then post_leaves keccak recover deps req
      else case (if rq_method req = ''GET'' then path_param ''/v1/reputation/root/'' [] (rq_pathname req) else None) of
        Some leaf \<Rightarrow> get_root poseidon sha256 deps leaf
      | None \<Rightarrow>
      (case (if rq_method req = ''GET'' then path_param ''/v1/reputation/snapshot/'' [] (rq_pathname req) else None) of
        Some verifierId \<Rightarrow> get_snapshot poseidon sha256 deps verifierId
      | None \<Rightarrow>
        if rq_method req = ''GET'' \<and> rq_pathname req = ''/v1/reputation/quarantine'' then get_quarantine deps req
        else if rq_method req = ''GET'' \<and> rq_pathname req = ''/metrics'' then get_metrics deps req
        else if rq_method req = ''GET'' \<and> rq_pathname req = ''/health'' then get_health deps
        else send 404 (refused ''not found'')))"

definition handle_request ::
  "poseidon \<Rightarrow> (byte list \<Rightarrow> byte list) \<Rightarrow> (byte list \<Rightarrow> byte list) \<Rightarrow> recover_fn \<Rightarrow> 'w PublisherHttpDeps \<Rightarrow> request \<Rightarrow>
   ('w PubHttp, unit) prog" where
  "handle_request poseidon sha256 keccak recover deps req =
     try_catch (route poseidon sha256 keccak recover deps req)
       (\<lambda>err. case err of
          PayloadTooLargeError msg limitBytes \<Rightarrow>
            send 413 (JObj [(''ok'', JBool False), (''error'', JStr msg), (''code'', JStr PAYLOAD_TOO_LARGE_CODE)])
        | _ \<Rightarrow> send 500 (JObj [(''ok'', JBool False), (''error'', JStr ''Internal server error''), (''code'', JStr ''INTERNAL_ERROR'')]))"


section \<open>The background loop\<close>

text \<open>
  The abort signal and the pause are programs over the world. The loop ends when the signal is raised;
  \<open>n\<close> bounds the rounds taken, and the result says whether the signal ended it.
\<close>

fun runPublisherLoop ::
  "nat \<Rightarrow> ('w PubEnv, PublisherTickResult) prog \<Rightarrow> ('w, bool) prog \<Rightarrow> ('w, unit) prog \<Rightarrow> ('w PubEnv, bool) prog" where
  "runPublisherLoop 0 tick aborted pause = ret False"
| "runPublisherLoop (Suc n) tick aborted pause =
     bnd (on_pworld aborted) (\<lambda>stop. if stop then ret True else
     bnd (try_catch (bnd tick (\<lambda>_. ret ()))
            (\<lambda>_. upd (\<lambda>s. s\<lparr>pev_metrics := (pev_metrics s)\<lparr>pmx_totalTickFailures := pmx_totalTickFailures (pev_metrics s) + 1\<rparr>\<rparr>))) (\<lambda>_.
     bnd (on_pworld aborted) (\<lambda>stop. if stop then ret True else
     bnd (on_pworld pause) (\<lambda>_. runPublisherLoop n tick aborted pause))))"

end
