(* ===== verification/Publisher_Props.thy ===== *)
theory Publisher_Props
  imports Publisher
begin

text \<open>
  What a publisher tick establishes. The chain's answers are taken to be stable during the tick:
  \<open>stable_chain\<close> names the attestations and the ledger it reports. A leaf is live when the
  attestation it names is on chain, not revoked, not expired, of the leaf's schema and signed for by
  its holder.
\<close>

definition live ::
  "(byte list \<Rightarrow> byte list) \<Rightarrow> recover_fn \<Rightarrow> (string \<Rightarrow> OnChainAttestation option) \<Rightarrow> rat \<Rightarrow> LeafCommitment \<Rightarrow> bool" where
  "live keccak recover att ledger c = attestation_valid keccak recover ledger c (att (lc_attestationUid c))"

definition stable_chain :: "'w PubChainAdapter \<Rightarrow> (string \<Rightarrow> OnChainAttestation option) \<Rightarrow> rat \<Rightarrow> bool" where
  "stable_chain adapter att ledger \<longleftrightarrow>
     (\<forall>w. pub_currentLedger adapter w = (Inr ledger, w) \<and> (\<forall>uid. pub_getAttestation adapter uid w = (Inr (att uid), w)))"

text \<open>Well-formed leaf lists: no identity and no value twice, every value a 32-byte hex string.\<close>

definition leaves_ok :: "LeafCommitment list \<Rightarrow> bool" where
  "leaves_ok cs \<longleftrightarrow> distinct (map lc_id cs) \<and> distinct (map lc_leaf cs) \<and> (\<forall>c \<in> set cs. is_hex32 (lc_leaf c))"

lemma leaves_ok_filter: "leaves_ok cs \<Longrightarrow> leaves_ok (filter P cs)"
  by (auto simp: leaves_ok_def distinct_map_filter)

definition stored_leaves :: "PublisherStore \<Rightarrow> LeafCommitment list" where
  "stored_leaves s = (case ms_state s of Some st \<Rightarrow> pst_leaves st | None \<Rightarrow> [])"


section \<open>Reading the inbox\<close>

lemma ms_revalidate_keeps:
  "ms_revalidate t items s = (valid, s') \<Longrightarrow>
   ms_state s' = ms_state s \<and> ms_maxInboxSize s' = ms_maxInboxSize s \<and> ms_archived s' = ms_archived s"
proof (induction items arbitrary: s valid)
  case (Cons item items)
  show ?case
  proof (cases "validateLeafCommitment (commitment_json item) t")
    case (Inl errors)
    with Cons.prems have "ms_revalidate t items (ms_quarantineFile (lc_id item) (commitment_json item) errors t s) = (valid, s')"
      by simp
    from Cons.IH [OF this] show ?thesis by (simp add: ms_quarantineFile_def)
  next
    case (Inr c)
    with Cons.prems obtain rest where "ms_revalidate t items s = (rest, s')"
      by (cases "ms_revalidate t items s") simp
    from Cons.IH [OF this] show ?thesis .
  qed
qed simp

lemma commitment_leaf_hex32:
  assumes "validateLeafCommitment raw t = Inr c"
  shows "is_hex32 (lc_leaf c)"
proof -
  have none: "leaf_errors raw = []" and leaf: "lc_leaf c = hex32_or_nil (jv_get raw ''leaf'')"
    using assms by (auto simp: validateLeafCommitment_def commitment_errors_def Let_def split: jv.splits if_splits)
  obtain str h where "jv_get raw ''leaf'' = JStr str" "normalizeHex32 str ''leaf'' = Inr h"
    using none by (auto simp: leaf_errors_def res_bind_def split: jv.splits sum.splits)
  moreover from this have "normalizeHex32 str [] = Inr h"
    by (simp add: normalizeHex32_def Let_def split: if_splits)
  ultimately show ?thesis
    using normalizeHex32_hex32 by (simp add: leaf hex32_or_nil_def)
qed

lemma ms_revalidate_valid:
  "ms_revalidate t items s = (valid, s') \<Longrightarrow> \<forall>c \<in> set valid. is_hex32 (lc_leaf c)"
proof (induction items arbitrary: s valid)
  case (Cons item items)
  show ?case
  proof (cases "validateLeafCommitment (commitment_json item) t")
    case (Inl errors)
    with Cons show ?thesis by simp
  next
    case (Inr c)
    with Cons.prems obtain rest where "ms_revalidate t items s = (rest, s')" "valid = c # rest"
      by (cases "ms_revalidate t items s") simp
    with Cons.IH commitment_leaf_hex32 [OF Inr] show ?thesis by simp
  qed
qed simp

lemma ms_readInbox_keeps:
  assumes "ms_readInbox t s = (inbox, s')"
  shows "ms_state s' = ms_state s \<and> ms_maxInboxSize s' = ms_maxInboxSize s \<and> ms_archived s' = ms_archived s
    \<and> ms_inbox s' = inbox \<and> (\<forall>c \<in> set inbox. is_hex32 (lc_leaf c))"
  using assms by (auto simp: ms_readInbox_def dest: ms_revalidate_keeps ms_revalidate_valid split: prod.splits)

lemma archive_whole_inbox: "ms_inbox s = cs \<Longrightarrow> ms_inbox (ms_archiveInbox (map lc_id cs) s) = []"
  by (auto simp: ms_archiveInbox_def filter_empty_conv)


section \<open>Merging\<close>

definition merge_ok :: "LeafCommitment list \<Rightarrow> Merge \<Rightarrow> bool" where
  "merge_ok existing m \<longleftrightarrow> (let cs = existing @ mg_acceptedLeaves m in
     distinct (map lc_id cs) \<and> distinct (map lc_leaf cs)
     \<and> dom (map_of (mg_byId m)) = lc_id ` set cs
     \<and> (\<forall>i c. map_of (mg_byId m) i = Some c \<longrightarrow> lc_id c = i \<and> c \<in> set cs)
     \<and> set (mg_byLeaf m) = lc_leaf ` set cs
     \<and> mg_acceptedIds m = map lc_id (mg_acceptedLeaves m))"

lemma merge_step_rejects:
  "\<not> (map_of (mg_byId m) (lc_id c) = None \<and> lc_leaf c \<notin> set (mg_byLeaf m)) \<Longrightarrow>
   \<exists>d cs. merge_step m c = m\<lparr>mg_duplicates := d, mg_collisions := cs\<rparr>"
  by (cases m) (auto simp: merge_step_def Let_def split: option.splits)

lemma merge_step_ok:
  assumes ok: "merge_ok existing m"
  shows "merge_ok existing (merge_step m c)"
proof (cases "map_of (mg_byId m) (lc_id c) = None \<and> lc_leaf c \<notin> set (mg_byLeaf m)")
  case True
  then have "lc_id c \<notin> lc_id ` set (existing @ mg_acceptedLeaves m)"
    "lc_leaf c \<notin> lc_leaf ` set (existing @ mg_acceptedLeaves m)"
    using ok unfolding merge_ok_def Let_def by (metis domIff, metis)
  with True ok show ?thesis
    by (simp add: merge_step_def merge_ok_def Let_def update_conv') auto
next
  case False
  from merge_step_rejects [OF this] obtain d cs where
    "merge_step m c = m\<lparr>mg_duplicates := d, mg_collisions := cs\<rparr>" by blast
  with ok show ?thesis by (simp only: merge_ok_def) simp
qed

lemma merge_step_accepts:
  assumes "merge_ok existing m"
  shows "\<exists>new. mg_acceptedLeaves (merge_step m c) = mg_acceptedLeaves m @ new \<and> set new \<subseteq> {c}
    \<and> (\<exists>l \<in> set (existing @ mg_acceptedLeaves m @ new). lc_id l = lc_id c \<or> lc_leaf l = lc_leaf c)"
proof (cases "map_of (mg_byId m) (lc_id c) = None \<and> lc_leaf c \<notin> set (mg_byLeaf m)")
  case True
  then show ?thesis by (intro exI [of _ "[c]"]) (simp add: merge_step_def Let_def)
next
  case False
  then have "mg_acceptedLeaves (merge_step m c) = mg_acceptedLeaves m"
    using merge_step_rejects by fastforce
  moreover have "\<exists>l \<in> set (existing @ mg_acceptedLeaves m). lc_id l = lc_id c \<or> lc_leaf l = lc_leaf c"
    using False assms unfolding merge_ok_def Let_def by (smt (verit) imageE not_None_eq)
  ultimately show ?thesis by (intro exI [of _ "[]"]) auto
qed

lemma merge_fold:
  assumes "merge_ok existing m"
  shows "merge_ok existing (foldl merge_step m incoming)
    \<and> (\<exists>new. mg_acceptedLeaves (foldl merge_step m incoming) = mg_acceptedLeaves m @ new \<and> set new \<subseteq> set incoming
        \<and> (\<forall>c \<in> set incoming. \<exists>l \<in> set (existing @ mg_acceptedLeaves m @ new). lc_id l = lc_id c \<or> lc_leaf l = lc_leaf c))"
  using assms
proof (induction incoming arbitrary: m)
  case (Cons c incoming)
  obtain new where new: "mg_acceptedLeaves (merge_step m c) = mg_acceptedLeaves m @ new" "set new \<subseteq> {c}"
    "\<exists>l \<in> set (existing @ mg_acceptedLeaves m @ new). lc_id l = lc_id c \<or> lc_leaf l = lc_leaf c"
    using merge_step_accepts [OF Cons.prems, of c] by blast
  obtain rest where rest: "merge_ok existing (foldl merge_step (merge_step m c) incoming)"
    "mg_acceptedLeaves (foldl merge_step (merge_step m c) incoming) = mg_acceptedLeaves m @ new @ rest"
    "set rest \<subseteq> set incoming"
    "\<forall>c \<in> set incoming. \<exists>l \<in> set (existing @ mg_acceptedLeaves m @ new @ rest). lc_id l = lc_id c \<or> lc_leaf l = lc_leaf c"
    using Cons.IH [OF merge_step_ok [OF Cons.prems, of c]] new(1) by auto
  show ?case
  proof (simp only: foldl_Cons, intro conjI exI [of _ "new @ rest"])
    show "\<forall>c' \<in> set (c # incoming). \<exists>l \<in> set (existing @ mg_acceptedLeaves m @ new @ rest). lc_id l = lc_id c' \<or> lc_leaf l = lc_leaf c'"
      using new(3) rest(4) by auto
  qed (use new(2) rest in auto)
qed simp

lemma byId_existing:
  "map_of (foldl (\<lambda>m l. AList.update (lc_id l) l m) m0 cs) i =
     (case find (\<lambda>c. lc_id c = i) (rev cs) of Some c \<Rightarrow> Some c | None \<Rightarrow> map_of m0 i)"
  by (induction cs rule: rev_induct) (auto simp: update_conv')

lemma byLeaf_existing: "set (foldl (\<lambda>s l. set_add (lc_leaf l) s) s0 cs) = set s0 \<union> lc_leaf ` set cs"
  by (induction cs arbitrary: s0) auto

lemma mergeLeaves_spec:
  assumes "mergeLeaves existing incoming = (leaves, m)" "leaves_ok existing" "\<forall>c \<in> set incoming. is_hex32 (lc_leaf c)"
  shows "\<exists>new. leaves = existing @ new \<and> set new \<subseteq> set incoming \<and> leaves_ok leaves
    \<and> length (mg_acceptedIds m) = length new
    \<and> (\<forall>c \<in> set incoming. \<exists>l \<in> set leaves. lc_id l = lc_id c \<or> lc_leaf l = lc_leaf c)"
proof -
  define start where "start = \<lparr>mg_byId = foldl (\<lambda>m l. AList.update (lc_id l) l m) [] existing,
    mg_byLeaf = foldl (\<lambda>s l. set_add (lc_leaf l) s) [] existing,
    mg_acceptedIds = [], mg_acceptedLeaves = [], mg_duplicates = 0, mg_collisions = []\<rparr>"
  have "dom (map_of (mg_byId start)) = lc_id ` set existing"
    by (auto simp: start_def byId_existing dom_def find_None_iff split: option.splits)
  moreover have "\<forall>i c. map_of (mg_byId start) i = Some c \<longrightarrow> lc_id c = i \<and> c \<in> set existing"
    by (simp add: start_def byId_existing find_Some_iff split: option.splits) (metis length_rev nth_mem set_rev)
  moreover have "set (mg_byLeaf start) = lc_leaf ` set existing"
    by (simp add: start_def byLeaf_existing)
  moreover have none: "mg_acceptedLeaves start = []" "mg_acceptedIds start = []" by (simp_all add: start_def)
  ultimately have "merge_ok existing start"
    using assms(2) unfolding merge_ok_def Let_def leaves_ok_def by (intro conjI) simp_all
  from merge_fold [OF this, of incoming] assms(1) obtain new where
    "leaves = existing @ new" "set new \<subseteq> set incoming" "merge_ok existing m" "mg_acceptedLeaves m = new"
    "\<forall>c \<in> set incoming. \<exists>l \<in> set leaves. lc_id l = lc_id c \<or> lc_leaf l = lc_leaf c"
    by (auto simp: mergeLeaves_def none Let_def simp flip: start_def)
  with assms(2,3) show ?thesis
    by (intro exI [of _ new]) (auto simp: merge_ok_def leaves_ok_def)
qed


section \<open>The tick\<close>

lemma keep_valid_stable:
  assumes "stable_chain adapter att ledger"
  shows "keep_valid keccak recover adapter ledger cs w = (Inr (filter (live keccak recover att ledger) cs), w)"
  by (induction cs) (use assms in \<open>simp_all add: bnd_def stable_chain_def live_def\<close>)

lemma wp_pworld_store:
  "F (pev_store s) \<Longrightarrow> wp (on_pworld m) (\<lambda>x s'. pev_store s' = pev_store s) (\<lambda>e s'. F (pev_store s')) s"
  by (simp add: on_pworld_def wp_def split: prod.splits sum.splits)

lemma wp_pfs_store:
  "F (pev_store s) \<Longrightarrow> wp (on_pfs m) (\<lambda>x s'. pev_store s' = pev_store s) (\<lambda>e s'. F (pev_store s')) s"
  by (simp add: on_pfs_def wp_def split: prod.splits sum.splits)

lemma wp_publish_root:
  assumes "F (pev_store s)"
  shows "wp (publish_root cfg t state localRoot datasetHash onChainRoot)
    (\<lambda>(state', txHash, published) s'. pev_store s' = pev_store s \<and> pst_leaves state' = pst_leaves state
       \<and> (published \<longleftrightarrow> Some localRoot \<noteq> onChainRoot) \<and> (published \<longrightarrow> pst_lastPublishedRoot state' = Some localRoot))
    (\<lambda>e s'. F (pev_store s')) s"
proof (cases "Some localRoot = onChainRoot")
  case True
  then show ?thesis by (simp add: publish_root_def)
next
  case False
  have "wp (case ptc_dataDir cfg of
             Some dir \<Rightarrow> if dir = [] then ret ()
               else on_pfs (writeRootManifest dir (rootManifest (ptc_verifierId cfg) localRoot datasetHash
                      (map lc_leaf (pst_leaves state)) t))
           | None \<Rightarrow> ret ()) (\<lambda>_ s'. pev_store s' = pev_store s) (\<lambda>e s'. F (pev_store s')) s"
    using wp_pfs_store [of F s] assms by (auto split: option.split)
  note written = wp_bndI [OF this]
  from False have "(Some localRoot = onChainRoot) = False" by simp
  then show ?thesis
    unfolding publish_root_def if_False
    using assms by - (simp only: if_False, rule written, rule wp_bndI, rule wp_pworld_store, simp, simp split: prod.split)
qed

text \<open>The effect of a tick at time \<open>t\<close> on the store, and the ways it may be cut short.\<close>

definition tick_merge ::
  "(LeafCommitment \<Rightarrow> bool) \<Rightarrow> string \<Rightarrow> PublisherStore \<Rightarrow> LeafCommitment list \<times> Merge" where
  "tick_merge ok t s = mergeLeaves (filter ok (stored_leaves s)) (filter ok (fst (ms_readInbox t s)))"

definition tick_applied :: "(LeafCommitment \<Rightarrow> bool) \<Rightarrow> string \<Rightarrow> PublisherStore \<Rightarrow> PublisherStore \<Rightarrow> bool" where
  "tick_applied ok t s s' \<longleftrightarrow> stored_leaves s' = fst (tick_merge ok t s) \<and> ms_inbox s' = []
     \<and> ms_archived s' = ms_archived s @ map lc_id (fst (ms_readInbox t s))"

definition tick_cut :: "(LeafCommitment \<Rightarrow> bool) \<Rightarrow> PublisherStore \<Rightarrow> PublisherStore \<Rightarrow> bool" where
  "tick_cut ok s s' \<longleftrightarrow> s' = s \<or> (\<exists>t. s' = snd (ms_readInbox t s)) \<or> (\<exists>t. tick_applied ok t s s')"

lemma save_archive_applied:
  assumes "ms_readInbox t s = (inbox, s1)" "pst_leaves st = fst (tick_merge ok t s)"
  shows "tick_applied ok t s (ms_archiveInbox (map lc_id inbox) (ms_save st s1))"
  using ms_readInbox_keeps [OF assms(1)] assms archive_whole_inbox [of "ms_save st s1" inbox]
  by (simp add: tick_applied_def stored_leaves_def ms_save_def) (simp add: ms_archiveInbox_def)

definition tick_rooted :: "poseidon \<Rightarrow> nat \<Rightarrow> LeafCommitment list \<Rightarrow> bool \<Rightarrow> PublisherTickResult \<Rightarrow> bool" where
  "tick_rooted poseidon minLeaves leaves pruned r \<longleftrightarrow> ptr_leafCount r = length leaves
     \<and> (case ptr_localRoot r of
          None \<Rightarrow> length leaves < minLeaves \<and> \<not> pruned \<and> \<not> ptr_published r
        | Some rt \<Rightarrow> buildRoot poseidon (map lc_leaf leaves) = Inr rt
            \<and> (ptr_published r \<longleftrightarrow> ptr_onChainRoot r \<noteq> Some rt))"

lemma gets_run: "gets f s = (Inr (f s), s)"
  by (simp add: gets_def)

lemma upd_run: "upd f s = (Inr (), f s)"
  by (simp add: upd_def)

lemma wp_known: "m s = (Inr y, s') \<Longrightarrow> wp m (\<lambda>x s''. x = y \<and> s'' = s') E s"
  by (simp add: wp_def)

abbreviation min_leaves :: "'w PublisherTickConfig \<Rightarrow> nat" where
  "min_leaves cfg \<equiv> (case ptc_minLeavesToPublish cfg of Some n \<Rightarrow> n | None \<Rightarrow> 1)"

abbreviation tick_pruned :: "(LeafCommitment \<Rightarrow> bool) \<Rightarrow> PublisherStore \<Rightarrow> bool" where
  "tick_pruned ok s \<equiv> length (filter ok (stored_leaves s)) < length (stored_leaves s)"

lemma wp_finish_tick:
  fixes s :: "'w PubEnv"
  assumes inbox: "ms_readInbox t s0 = (inbox, pev_store s)" and state: "pst_leaves state = stored_leaves s0"
  shows "wp (finish_tick poseidon sha256 cfg tickStart t state inbox (filter ok (stored_leaves s0)) (filter ok inbox))
    (\<lambda>r s'. tick_applied ok t s0 (pev_store s')
       \<and> tick_rooted poseidon (min_leaves cfg) (fst (tick_merge ok t s0)) (tick_pruned ok s0) r)
    (\<lambda>e s'. tick_cut ok s0 (pev_store s')) s"
proof -
  let ?F = "tick_cut ok s0" and ?leaves = "fst (tick_merge ok t s0)"
  obtain m where merged: "mergeLeaves (filter ok (stored_leaves s0)) (filter ok inbox) = (?leaves, m)"
    using inbox by (simp add: tick_merge_def prod_eq_iff)
  have F: "?F (pev_store s)" unfolding tick_cut_def using inbox by (metis snd_conv)
  have saved: "tick_applied ok t s0 (ms_archiveInbox (map lc_id inbox) (ms_save st (pev_store s)))"
    if "pst_leaves st = ?leaves" for st
    using save_archive_applied [OF inbox that] .
  then have Fsaved: "?F (ms_archiveInbox (map lc_id inbox) (ms_save st (pev_store s)))"
    if "pst_leaves st = ?leaves" for st
    using that by (auto simp: tick_cut_def)
  show ?thesis
  proof (cases "length ?leaves < min_leaves cfg \<and> \<not> tick_pruned ok s0")
    case True
    show ?thesis
      unfolding finish_tick_def merged state Let_def prod.case if_P [OF True]
      apply (simp add: save_and_archive_def)
      apply (rule wp_mono [OF wp_pworld_store [where F = ?F]])
        apply (simp add: Fsaved)
       apply (rule wp_mono [OF wp_pworld_store [where F = ?F]])
      using True apply (simp_all add: saved Fsaved tick_rooted_def)
      done
  next
    case False
    show ?thesis
      unfolding finish_tick_def merged state Let_def prod.case if_not_P [OF False]
      apply (rule wp_bndI [OF wp_known [OF upd_run]], elim conjE, hypsubst)
      apply (rule wp_bndI [OF wp_of_resI], simp add: F, elim conjE, hypsubst)
      apply (rule wp_bndI [OF wp_of_resI], simp add: F, elim conjE, hypsubst)
      apply (rule wp_bndI [OF wp_pworld_store [where F = ?F]], simp add: F)
      apply (rule wp_bndI [OF wp_publish_root [where F = ?F]], simp add: F)
      apply (simp only: split: prod.split, intro allI impI)
      apply (simp add: save_and_archive_def)
      apply (rule wp_mono [OF wp_pworld_store [where F = ?F]])
        apply (simp_all add: saved Fsaved tick_rooted_def)
      apply (rule eq_commute)
      done
  qed
qed

lemma wp_publisher_tick:
  fixes cfg :: "'w PublisherTickConfig" and keccak recover
  assumes chain: "stable_chain (ptc_adapter cfg) att ledger"
  defines "ok \<equiv> live keccak recover att ledger"
  shows "wp (runPublisherTick poseidon keccak recover sha256 cfg)
    (\<lambda>r s'. \<exists>t. tick_applied ok t (pev_store s) (pev_store s')
       \<and> tick_rooted poseidon (min_leaves cfg) (fst (tick_merge ok t (pev_store s))) (tick_pruned ok (pev_store s)) r)
    (\<lambda>e s'. tick_cut ok (pev_store s) (pev_store s')) s"
proof -
  let ?F = "tick_cut ok (pev_store s)"
  have F0: "?F (pev_store s)" by (simp add: tick_cut_def)
  have led: "on_pworld (pub_currentLedger (ptc_adapter cfg)) s' = (Inr ledger, s')" for s' :: "'w PubEnv"
    using chain by (cases s') (simp add: stable_chain_def on_pworld_def on_part_def)
  have keep: "on_pworld (keep_valid keccak recover (ptc_adapter cfg) ledger cs) s' = (Inr (filter ok cs), s')"
    for s' :: "'w PubEnv" and cs
    by (cases s') (simp add: on_pworld_def on_part_def keep_valid_stable [OF chain] ok_def)
  show ?thesis
    unfolding runPublisherTick_def
  proof (rule wp_bndI [OF wp_pworld_store [where F = ?F, OF F0]],
      rule wp_bndI [OF wp_pworld_store [where F = ?F]], simp add: F0,
      rule wp_bndI [OF wp_known [OF gets_run]], elim conjE, hypsubst)
    fix tickStart t and sb sa :: "'w PubEnv"
    assume "pev_store sa = pev_store sb" "pev_store sb = pev_store s"
    then have sa: "pev_store sa = pev_store s" by simp
    define state where "state = (case ms_state (pev_store sa) of Some st \<Rightarrow> st | None \<Rightarrow> pub_initState (ptc_verifierId cfg) t)"
    have leaves: "pst_leaves state = stored_leaves (pev_store s)"
      by (simp add: state_def sa stored_leaves_def pub_initState_def split: option.split)
    obtain inbox store where inbox: "ms_readInbox t (pev_store s) = (inbox, store)" by fastforce
    have read: "readInbox t sa = (Inr inbox, sa\<lparr>pev_store := store\<rparr>)"
      by (simp add: readInbox_def sa inbox)
    have "wp (finish_tick poseidon sha256 cfg tickStart t state inbox (filter ok (pst_leaves state)) (filter ok inbox))
      (\<lambda>r s'. \<exists>t. tick_applied ok t (pev_store s) (pev_store s')
         \<and> tick_rooted poseidon (min_leaves cfg) (fst (tick_merge ok t (pev_store s))) (tick_pruned ok (pev_store s)) r)
      (\<lambda>e s'. tick_cut ok (pev_store s) (pev_store s')) (sa\<lparr>pev_store := store\<rparr>)"
      unfolding leaves
      by (rule wp_mono [OF wp_finish_tick [OF _ leaves]]) (use inbox in auto)
    then show "wp (bnd (readInbox t) (\<lambda>inbox.
        bnd (on_pworld (pub_currentLedger (ptc_adapter cfg))) (\<lambda>ledger.
        bnd (on_pworld (keep_valid keccak recover (ptc_adapter cfg) ledger (pst_leaves state))) (\<lambda>activeLeaves.
        bnd (on_pworld (keep_valid keccak recover (ptc_adapter cfg) ledger inbox)) (\<lambda>validInbox.
        finish_tick poseidon sha256 cfg tickStart t state inbox activeLeaves validInbox)))))
      (\<lambda>r s'. \<exists>t. tick_applied ok t (pev_store s) (pev_store s')
         \<and> tick_rooted poseidon (min_leaves cfg) (fst (tick_merge ok t (pev_store s))) (tick_pruned ok (pev_store s)) r)
      (\<lambda>e s'. tick_cut ok (pev_store s) (pev_store s')) sa"
      unfolding wp_def
      by (simp only: bnd_Inr [where m = "readInbox t", OF read]
          bnd_Inr [where m = "on_pworld (pub_currentLedger (ptc_adapter cfg))", OF led]
          bnd_Inr [where m = "on_pworld (keep_valid keccak recover (ptc_adapter cfg) ledger cs)" for cs, OF keep])
  qed
qed

lemma tick_merge_spec:
  assumes "leaves_ok (stored_leaves s)"
  shows "\<exists>new. fst (tick_merge ok t s) = filter ok (stored_leaves s) @ new
    \<and> set new \<subseteq> set (fst (ms_readInbox t s)) \<and> leaves_ok (fst (tick_merge ok t s))
    \<and> (\<forall>c \<in> set (fst (tick_merge ok t s)). ok c)
    \<and> (\<forall>c \<in> set (fst (ms_readInbox t s)). ok c \<longrightarrow>
        (\<exists>l \<in> set (fst (tick_merge ok t s)). lc_id l = lc_id c \<or> lc_leaf l = lc_leaf c))"
proof -
  obtain inbox s1 where inbox: "ms_readInbox t s = (inbox, s1)" by fastforce
  obtain leaves m where m: "mergeLeaves (filter ok (stored_leaves s)) (filter ok inbox) = (leaves, m)" by fastforce
  have "\<forall>c \<in> set (filter ok inbox). is_hex32 (lc_leaf c)" using ms_readInbox_keeps [OF inbox] by simp
  from mergeLeaves_spec [OF m leaves_ok_filter [OF assms] this] obtain new where
    "leaves = filter ok (stored_leaves s) @ new" "set new \<subseteq> set (filter ok inbox)" "leaves_ok leaves"
    "\<forall>c \<in> set (filter ok inbox). \<exists>l \<in> set leaves. lc_id l = lc_id c \<or> lc_leaf l = lc_leaf c" by blast
  then show ?thesis by (intro exI [of _ new]) (auto simp: tick_merge_def inbox m)
qed


definition example_leaf :: LeafCommitment where
  "example_leaf = \<lparr>lc_id = ''a'', lc_leaf = toHex32 5, lc_schemaId = toHex32 1, lc_attestationUid = toHex32 2,
     lc_holderSignature = replicate 130 CHR ''0'', lc_txHash = None, lc_ledger = None, lc_submittedAt = ''t0''\<rparr>"

definition example_publisher :: "rat PublisherTickConfig" where
  "example_publisher = \<lparr>ptc_verifierId = ''v'',
     ptc_adapter = \<lparr>pub_currentRoot = ret None, pub_postRoot = (\<lambda>_ _. ret (''tx'', Some 7)),
       pub_getAttestation = (\<lambda>uid. ret (if uid = toHex32 2
          then Some \<lparr>oa_schemaId = toHex32 1, oa_stealthAddressHash = toHex32 0, oa_expirationLedger = 0, oa_revocationLedger = 0\<rparr>
          else None)),
       pub_currentLedger = ret 7\<rparr>,
     ptc_dataDir = None, ptc_now = ret ''t1'', ptc_ms = ret 0, ptc_minLeavesToPublish = None\<rparr>"

definition example_env :: "rat PubEnv" where
  "example_env = \<lparr>pev_world = 0, pev_fs = example_fs [],
     pev_store = ms_save ((pub_initState ''v'' ''t0'')\<lparr>pst_leaves := [example_leaf]\<rparr>) (new_PublisherStore None),
     pev_metrics = createMetrics ''t0''\<rparr>"



section \<open>A gap in the range check\<close>

text \<open>
  The field-range check of a leaf reads the string as it was sent, while the stored leaf is its
  normalised form. Sixty-four decimal digits without a prefix pass as a decimal number below the
  modulus, are stored as a hex string, and that fails the same check when the inbox is read again.
\<close>

definition nines :: string where "nines = replicate 64 CHR ''9''"

lemma leaf_range_check_misses_bare_digits:
  "leaf_errors (JObj [(''leaf'', JStr nines)]) = []
   \<and> (\<exists>h. normalizeHex32 nines ''leaf'' = Inr h
      \<and> leaf_errors (JObj [(''leaf'', JStr h)]) = [''leaf value must be a valid BN254 field element (0 <= value < modulus)''])"
proof -
  have nine: "is_digit CHR ''9''" "is_hex CHR ''9''" "lower_char CHR ''9'' = CHR ''9''" "\<not> is_ws CHR ''9''"
    by (simp_all add: is_digit_def is_hex_def lower_char_def is_ws_def)
  have trim: "js_trim nines = nines" by (rule js_trim_id) (simp add: nines_def nine)
  have cons: "nines = CHR ''9'' # CHR ''9'' # replicate 62 CHR ''9''" by (simp add: nines_def eval_nat_numeral)
  have strip: "strip_0x nines = nines" by (simp add: cons)
  have norm: "normalizeHex32 nines ''leaf'' = Inr (''0x'' @ nines)"
    using trim strip nine by (simp add: normalizeHex32_def to_lower_def nines_def list_all_iff)
  have digits: "nat_of_digits b (replicate (Suc n) 9) = b * nat_of_digits b (replicate n 9) + 9" for b n
    using nat_of_digits_snoc [of b "replicate n 9" 9] by (simp add: replicate_append_same)
  have "nat_of_digits 10 (replicate n 9) < 10 ^ n" for n
    by (induction n) (simp add: nat_of_digits_def, simp add: digits del: replicate.simps)
  from this [of 64] have dec: "nat_of_dec nines < 10 ^ 64" by (simp add: nines_def nat_of_dec_def digit_val_def)
  have "15 * nat_of_digits 16 (replicate n 9) + 9 = 9 * 16 ^ n" for n
    by (induction n) (simp add: nat_of_digits_def, simp add: digits del: replicate.simps)
  from this [of 64] have hex: "15 * nat_of_hex nines + 9 = 9 * 16 ^ 64"
    by (simp add: nines_def nat_of_hex_def hex_val_def nine digit_val_def)
  have all: "list_all is_digit nines" "list_all is_digit (drop 1 nines)" "list_all is_hex nines" "nines \<noteq> []"
    using nine by (simp_all add: nines_def list_all_iff)
  have bare: "js_BigInt_str nines = Inr (int (nat_of_dec nines))"
    using trim all no_prefix_digits by (simp add: js_BigInt_str_def prefixed_digits_digits)
  have "js_trim (''0x'' @ nines) = ''0x'' @ nines"
    by (rule js_trim_id) (use nine in \<open>simp add: nines_def is_ws_def\<close>)
  then have prefixed: "js_BigInt_str (''0x'' @ nines) = Inr (int (nat_of_hex nines))"
    using all by (simp add: js_BigInt_str_def prefixed_digits_def)
  have "normalizeHex32 (''0x'' @ nines) ''leaf'' = Inr (''0x'' @ nines)"
    using normalizeHex32_id normalizeHex32_hex32 [OF norm] by blast
  moreover have "int (nat_of_hex nines) \<ge> BN254_MODULUS" using hex by (simp add: BN254_MODULUS_def)
  moreover have "int (nat_of_dec nines) < BN254_MODULUS" using dec by (simp add: BN254_MODULUS_def)
  ultimately show ?thesis
    using norm bare prefixed by (simp add: leaf_errors_def jv_get_def del: append.simps)
qed

end
