(* ===== verification/Publisher_Http_Props.thy ===== *)
theory Publisher_Http_Props
  imports Publisher_Http Publisher_Props
begin

text \<open>
  What the publisher's HTTP API guarantees about submissions, and how it composes with the tick: the
  check at submission time is the check of the tick, a leaf is queued only when it passes, and a
  rejection for rate ends in an unhandled error.
\<close>

lemma refusal_iff_invalid:
  "attestation_refusal keccak recover c a ledger = None \<longleftrightarrow> attestation_valid keccak recover ledger c a"
  by (auto simp: attestation_refusal_def attestation_valid_def split: option.split)

lemma constantTimeIncludes_iff: "constantTimeIncludes tokens candidate \<longleftrightarrow> candidate \<in> set tokens"
proof -
  have "foldl (\<lambda>found token. if length (utf8 token) \<noteq> length (utf8 candidate) then found
      else if utf8 token = utf8 candidate then True else found) b tokens \<longleftrightarrow> b \<or> candidate \<in> set tokens" for b
    by (induction tokens arbitrary: b) auto
  then show ?thesis by (simp add: constantTimeIncludes_def)
qed


section \<open>Submissions\<close>

definition body_limit :: "'w PublisherHttpDeps \<Rightarrow> nat" where
  "body_limit deps = (case phd_maxBodyBytes deps of Some n \<Rightarrow> n | None \<Rightarrow> DEFAULT_MAX_BODY_BYTES)"

definition submitter_ok :: "'w PublisherHttpDeps \<Rightarrow> request \<Rightarrow> bool" where
  "submitter_ok deps req = (case phd_authConfig deps of Some cfg \<Rightarrow> isAuthorizedSubmitter req cfg | None \<Rightarrow> True)"

text \<open>A commitment that the request carries and that the chain vouches for when it is asked.\<close>

definition vouched ::
  "(byte list \<Rightarrow> byte list) \<Rightarrow> recover_fn \<Rightarrow> 'w PublisherHttpDeps \<Rightarrow> request \<Rightarrow> LeafCommitment \<Rightarrow> bool" where
  "vouched keccak recover deps req c \<longleftrightarrow>
     (\<exists>raw t. readJsonLimited req (body_limit deps) = Inr raw \<and> normalizeCommitment raw t = Inr c)
     \<and> (\<exists>adapter a ledger w w'. phd_chainAdapter deps = Some adapter
          \<and> fst (pub_getAttestation adapter (lc_attestationUid c) w) = Inr a
          \<and> fst (pub_currentLedger adapter w') = Inr ledger
          \<and> attestation_valid keccak recover ledger c a)"

text \<open>The two ways a submission can end, relative to the store it started from.\<close>

definition not_queued :: "PublisherStore \<Rightarrow> 'w PubHttp \<Rightarrow> bool" where
  "not_queued store s \<longleftrightarrow> ph_store s = store \<and> (\<forall>b. rs_sent (ph_res s) \<noteq> Some (202, b))"

definition queued ::
  "(LeafCommitment \<Rightarrow> bool) \<Rightarrow> PublisherStore \<Rightarrow> 'w PubHttp \<Rightarrow> bool" where
  "queued ok store s \<longleftrightarrow> (\<exists>c b. ok c \<and> length (ms_inbox store) < ms_maxInboxSize store
     \<and> ph_store s = store\<lparr>ms_inbox := ms_inbox store @ [c]\<rparr> \<and> rs_sent (ph_res s) = Some (202, b))"

lemma wp_hworld_same:
  assumes "\<And>w. E (s\<lparr>ph_world := w\<rparr>)"
  shows "wp (on_hworld m) (\<lambda>x s'. \<exists>w w'. s' = s\<lparr>ph_world := w\<rparr> \<and> fst (m w') = Inr x) (\<lambda>e. E) s"
proof -
  obtain r w where m: "m (ph_world s) = (r, w)" by fastforce
  show ?thesis
  proof (cases r)
    case (Inl e)
    then show ?thesis using assms by (simp add: on_hworld_def wp_def on_part_def m)
  next
    case (Inr x)
    then have "fst (m (ph_world s)) = Inr x" by (simp add: m)
    with Inr show ?thesis by (auto simp: on_hworld_def wp_def on_part_def m intro: exI [of _ "ph_world s"])
  qed
qed

lemma wp_send:
  "wp (send status body) (\<lambda>_ s'. s' = s\<lparr>ph_res := (ph_res s)\<lparr>rs_sent := Some (status, body)\<rparr>\<rparr> \<and> rs_sent (ph_res s) = None)
     (\<lambda>e s'. e = headers_sent \<and> s' = s \<and> rs_sent (ph_res s) \<noteq> None) s"
  by (auto simp: send_def res_send_def wp_def on_part_def split: option.splits)

lemma wp_send_not_queued:
  assumes "not_queued store s" "status \<noteq> 202"
  shows "wp (send status body) (\<lambda>_ s'. not_queued store s' \<and> rs_sent (ph_res s') \<noteq> None)
     (\<lambda>e s'. not_queued store s' \<and> rs_sent (ph_res s') \<noteq> None) s"
  by (rule wp_mono [OF wp_send]) (use assms in \<open>auto simp: not_queued_def\<close>)

lemma wp_setHeader_not_queued:
  assumes "not_queued store s" "rs_sent (ph_res s) \<noteq> None"
  shows "wp (setHeader name v) (\<lambda>_ s'. not_queued store s' \<and> rs_sent (ph_res s') \<noteq> None)
     (\<lambda>e s'. not_queued store s' \<and> rs_sent (ph_res s') \<noteq> None) s"
  using assms by (auto simp: setHeader_def res_setHeader_def wp_def on_part_def)

lemma consume_token_run:
  "consume_token source now s = (Inr (fst (consume source now (ph_limiter s))), s\<lparr>ph_limiter := snd (consume source now (ph_limiter s))\<rparr>)"
  by (simp add: consume_token_def split: prod.split)

lemma wp_queue_commitment:
  assumes "ok c" "not_queued store s" "rs_sent (ph_res s) = None"
  shows "wp (queue_commitment c) (\<lambda>_ s'. queued ok store s' \<or> not_queued store s' \<and> rs_sent (ph_res s') \<noteq> None) (\<lambda>_. not_queued store) s"
proof (cases "length (ms_inbox store) \<ge> ms_maxInboxSize store")
  case True
  then show ?thesis
    using assms
    by (auto simp: queue_commitment_def upd_metrics_def write_inbox_def ms_writeInbox_def not_queued_def wp_def run_simps
        send_def res_send_def)
next
  case False
  then show ?thesis
    using assms
    by (auto simp: queue_commitment_def upd_metrics_def write_inbox_def ms_writeInbox_def not_queued_def queued_def wp_def
        run_simps send_def res_send_def)
qed

lemma wp_reject_rate_limited:
  assumes "not_queued store s"
  shows "wp (reject_rate_limited deps rl) (\<lambda>_ s'. not_queued store s' \<and> rs_sent (ph_res s') \<noteq> None) (\<lambda>_. not_queued store) s"
proof -
  have world: "not_queued store (s\<lparr>ph_world := w\<rparr>)" for w using assms by (simp add: not_queued_def)
  have header: "wp (setHeader name v) (\<lambda>_ s'. not_queued store s' \<and> rs_sent (ph_res s') \<noteq> None) (\<lambda>_. not_queued store) s'"
    if "not_queued store s' \<and> rs_sent (ph_res s') \<noteq> None" for name v s'
    using that by (intro wp_mono [OF wp_setHeader_not_queued]) auto
  have sent: "wp (send 429 body) (\<lambda>_ s'. not_queued store s' \<and> rs_sent (ph_res s') \<noteq> None) (\<lambda>_. not_queued store) (s\<lparr>ph_world := w\<rparr>)"
    for body w
    by (rule wp_mono [OF wp_send_not_queued [OF world]]) auto
  show ?thesis
    unfolding reject_rate_limited_def Let_def
    apply (rule wp_bndI [OF wp_hworld_same], rule world, elim exE conjE, hypsubst)
    apply (rule wp_bndI [OF sent])
    apply (rule wp_bndI [OF header], assumption)
    apply (rule wp_bndI [OF header], assumption)
    apply (rule wp_bndI [OF header], assumption)
    apply (rule header, assumption)
    done
qed

lemma wp_post_leaves:
  fixes s :: "'w PubHttp" and deps :: "'w PublisherHttpDeps" and keccak recover req
  assumes sent: "rs_sent (ph_res s) = None"
  defines "ok \<equiv> \<lambda>c. submitter_ok deps req \<and> vouched keccak recover deps req c"
  shows "wp (post_leaves keccak recover deps req)
    (\<lambda>_ s'. queued ok (ph_store s) s' \<or> not_queued (ph_store s) s' \<and> rs_sent (ph_res s') \<noteq> None) (\<lambda>_. not_queued (ph_store s)) s"
    (is "wp _ (\<lambda>_. ?Q) ?E s")
proof -
  let ?store = "ph_store s"
  have start: "not_queued ?store (s\<lparr>ph_world := w, ph_limiter := l\<rparr>)" "not_queued ?store (s\<lparr>ph_world := w\<rparr>)" "not_queued ?store s" for w l
    using sent by (simp_all add: not_queued_def)
  have refuse: "wp (send status body) (\<lambda>_. ?Q) ?E s'" if "not_queued ?store s'" "status \<noteq> 202" for status body and s' :: "'w PubHttp"
    using that by (intro wp_mono [OF wp_send_not_queued [where store = ?store]]) auto
  have refused: "wp (reject_rate_limited deps rl) (\<lambda>_. ?Q) ?E s'" if "not_queued ?store s'" for rl s'
    using that by (intro wp_mono [OF wp_reject_rate_limited [where store = ?store]]) auto
  have decided: "wp (case attestation_refusal keccak recover c a ledger of
      Some msg \<Rightarrow> send 422 (Publisher_Http.refused msg) | None \<Rightarrow> queue_commitment c) (\<lambda>_. ?Q) ?E s'"
    if "attestation_refusal keccak recover c a ledger = None \<Longrightarrow> ok c" "not_queued ?store s'" "rs_sent (ph_res s') = None"
    for c a ledger s'
  proof (cases "attestation_refusal keccak recover c a ledger")
    case None
    then show ?thesis using wp_queue_commitment [of ok c ?store s'] that by (simp del: not_None_eq)
  next
    case (Some msg)
    with that refuse show ?thesis by simp
  qed
  show ?thesis
  proof (cases "submitter_ok deps req")
    case False
    then have "case phd_authConfig deps of Some cfg \<Rightarrow> \<not> isAuthorizedSubmitter req cfg | None \<Rightarrow> False"
      by (simp add: submitter_ok_def split: option.splits)
    then show ?thesis
      unfolding post_leaves_def by (simp only: if_True refuse start)
  next
    case True
    then have "\<not> (case phd_authConfig deps of Some cfg \<Rightarrow> \<not> isAuthorizedSubmitter req cfg | None \<Rightarrow> False)"
      by (simp add: submitter_ok_def split: option.splits)
    then show ?thesis
      unfolding post_leaves_def Let_def body_limit_def [symmetric]
      apply (simp only: if_False)
      apply (rule wp_bndI [OF wp_hworld_same], rule start, elim exE conjE, hypsubst)
      subgoal for now _ w
        apply (rule wp_bndI [OF wp_known [OF consume_token_run]], elim conjE, hypsubst)
        apply (simp only: wp_if split: if_split, intro conjI impI, rule refused, rule start)
        apply (rule wp_bndI [OF wp_of_resI], rule start, elim conjE, hypsubst)
        apply (rule wp_bndI [OF wp_hworld_same], simp add: not_queued_def sent, elim exE conjE, hypsubst)
        apply (rule wp_bndI [OF wp_of_resI], simp add: not_queued_def sent, elim conjE, hypsubst)
        apply (cases "phd_chainAdapter deps", simp only: option.case, rule refuse, simp add: not_queued_def sent, simp)
        apply (simp only: option.case)
        apply (rule wp_bndI [OF wp_hworld_same], simp add: not_queued_def sent, elim exE conjE, hypsubst)
        apply (rule wp_bndI [OF wp_hworld_same], simp add: not_queued_def sent, elim exE conjE, hypsubst)
        apply (rule decided)
          apply (unfold ok_def vouched_def refusal_iff_invalid)
          apply (rule conjI [OF True], intro conjI exI, assumption, assumption, assumption, assumption, assumption, assumption)
         apply (simp_all add: not_queued_def sent)
        done
      done
  qed
qed

text \<open>
  C38: a leaf is queued only for a submitter who may and an attestation that holds. On a submission the
  handler always answers. When it answers 202, exactly the commitment of the request's body has been
  appended to the inbox, which had room; the submitter's token is one of the configured ones; and the
  chain, asked during the request, returned an attestation and a ledger for which the commitment passes
  the very check that the tick applies. Whatever else it answers, the store is untouched.
\<close>

theorem submission_queues_only_attested:
  assumes "rs_sent (ph_res s) = None" "rq_method req = ''POST''" "rq_pathname req = ''/v1/reputation/leaves''"
    and run: "handle_request poseidon sha256 keccak recover deps req s = (out, s')"
  shows "\<exists>status body. rs_sent (ph_res s') = Some (status, body) \<and>
    (if status = 202
     then \<exists>c. submitter_ok deps req \<and> vouched keccak recover deps req c \<and> length (ms_inbox (ph_store s)) < ms_maxInboxSize (ph_store s)
        \<and> ph_store s' = (ph_store s)\<lparr>ms_inbox := ms_inbox (ph_store s) @ [c]\<rparr>
     else ph_store s' = ph_store s)"
proof -
  let ?ok = "\<lambda>c. submitter_ok deps req \<and> vouched keccak recover deps req c"
  let ?P = "\<lambda>s'. queued ?ok (ph_store s) s' \<or> not_queued (ph_store s) s' \<and> rs_sent (ph_res s') \<noteq> None"
  have route: "route poseidon sha256 keccak recover deps req = post_leaves keccak recover deps req"
    using assms(2,3) by (simp add: route_def)
  have failed: "wp (send status body) (\<lambda>_. ?P) (\<lambda>_. ?P) s1" if "not_queued (ph_store s) s1" "status \<noteq> 202" for status body s1
    by (rule wp_mono [OF wp_send_not_queued [OF that]]) auto
  have "wp (handle_request poseidon sha256 keccak recover deps req) (\<lambda>_. ?P) (\<lambda>_. ?P) s"
    unfolding handle_request_def route
    by (rule wp_catchI [OF wp_post_leaves [OF assms(1)]], subst js_error.case_distrib [of "\<lambda>m. wp m (\<lambda>_. ?P) (\<lambda>_. ?P) _"])
      (simp only: failed split: js_error.split, simp)
  then have "?P s'"
    using run by (cases out) (auto simp: wp_def)
  then show ?thesis
  proof
    assume "queued ?ok (ph_store s) s'"
    then show ?thesis unfolding queued_def by auto
  next
    assume "not_queued (ph_store s) s' \<and> rs_sent (ph_res s') \<noteq> None"
    then show ?thesis by (auto simp: not_queued_def)
  qed
qed

definition example_deps :: "rat PublisherHttpDeps" where
  "example_deps = \<lparr>phd_verifierId = ''v'', phd_chainAdapter = Some (ptc_adapter example_publisher), phd_maxBodyBytes = None,
     phd_authConfig = None, phd_trustedProxies = None, phd_ms = ret 0, phd_iso = ret ''t1'', phd_getTime = (\<lambda>_. 0)\<rparr>"

definition example_request :: "byte list list \<Rightarrow> request" where
  "example_request chunks = \<lparr>rq_method = ''POST'', rq_pathname = ''/v1/reputation/leaves'', rq_authorization = None,
     rq_forwardedFor = None, rq_idempotencyKey = None, rq_remoteAddress = None, rq_chunks = chunks\<rparr>"

definition example_http :: "rat \<Rightarrow> rat PubHttp" where
  "example_http burst = \<lparr>ph_world = 0, ph_store = new_PublisherStore None, ph_metrics = createMetrics ''t0'',
     ph_limiter = new_RateLimiter 60000 120 burst 0, ph_res = new_response\<rparr>"

theorem submission_queues_only_attested_witness:
  "\<exists>status body. rs_sent (ph_res (snd (handle_request sum_list id id (\<lambda>_ _ _. Inr []) example_deps
     (example_request [utf8 ''{}'']) (example_http 20)))) = Some (status, body)"
  using submission_queues_only_attested
    [OF _ _ _ prod.collapse [symmetric], of "example_http 20" "example_request [utf8 ''{}'']"
      sum_list id id "\<lambda>_ _ _. Inr []" example_deps]
  by (auto simp: example_http_def example_request_def new_response_def)


section \<open>Requests over the limit\<close>

text \<open>
  A submission over the rate limit is answered 429, and then the handler fails: the rate-limit
  headers are set after the response has been sent, which throws, and so does the attempt to answer 500
  in the catch block, so the promise of the handler is rejected.
\<close>

lemma rate_limited_submission_rejects_handler:
  assumes "rs_sent (ph_res s) = None" "rq_method req = ''POST''" "rq_pathname req = ''/v1/reputation/leaves''"
    and "submitter_ok deps req" "\<And>w. phd_ms deps w = (Inr now, w)"
    and "\<not> rl_allowed (fst (consume (resolveClientSource (rq_remoteAddress req) (rq_forwardedFor req)
           (case phd_trustedProxies deps of Some ps \<Rightarrow> ps | None \<Rightarrow> [])) now (ph_limiter s)))"
  shows "fst (handle_request poseidon sha256 keccak recover deps req s) = Inl headers_sent
    \<and> (\<exists>body. rs_sent (ph_res (snd (handle_request poseidon sha256 keccak recover deps req s))) = Some (429, body))"
proof -
  have route: "route poseidon sha256 keccak recover deps req = post_leaves keccak recover deps req"
    using assms(2,3) by (simp add: route_def)
  have auth: "(case phd_authConfig deps of Some cfg \<Rightarrow> \<not> isAuthorizedSubmitter req cfg | None \<Rightarrow> False) = False"
    using assms(4) by (simp add: submitter_ok_def split: option.splits)
  have clock: "on_hworld (phd_ms deps) s' = (Inr now, s')" for s' :: "'a PubHttp"
    using assms(5) by (cases s') (simp add: on_hworld_def on_part_def)
  show ?thesis
    using assms(1,6)
    by (simp add: handle_request_def route post_leaves_def auth Let_def try_catch_def bnd_def clock consume_token_run
        reject_rate_limited_def send_def setHeader_def on_part_def res_send_def res_setHeader_def headers_sent_def)
qed

lemma rate_limited_submission_rejects_handler_witness:
  "fst (handle_request sum_list id id (\<lambda>_ _ _. Inr []) example_deps (example_request []) (example_http 0)) = Inl headers_sent"
proof -
  have "\<not> rl_allowed (fst (consume source 0 (ph_limiter (example_http 0))))" for source
    by (simp add: example_http_def new_RateLimiter_def consume_def Let_def maybeCleanup_def bucket_for_def refill_def)
  then show ?thesis
    by (intro conjunct1 [OF rate_limited_submission_rejects_handler [where now = 0]])
      (simp_all add: example_deps_def example_request_def submitter_ok_def, simp add: example_http_def new_response_def)
qed

end
