(* ===== verification/Spec2Isabelle.thy ===== *)
theory Spec2Isabelle
  imports Relayer_Engine_Trace Relayer_Engine_Resume Relayer_Hub_Props Rate_Limit Sdk_Scan_Props Sdk_Storage_Props Sdk_Codec_Props Sdk_Pool_Props Sdk_Payments_Props Sdk_Gateway_Props Sdk_Schema_Props Sdk_Workers_Props Wallet_Scan_Props Wallet_Notes_Props Relayer_Runtime Asp_Engine_Props
    Publisher_Http_Props
begin

text \<open>
  Verification of the Opaque services: the off-chain programs around the Opaque contracts on Stellar,
  written in TypeScript. Paths below are relative to \<open>src/\<close>.

  \<^bold>\<open>The system.\<close> Users deposit into a privacy pool and later withdraw with a zero-knowledge
  proof. An association set provider (\<^verbatim>\<open>asp/\<close>) screens deposits and posts the Merkle root of
  the approved ones. The SDK (\<^verbatim>\<open>sdk/\<close>) builds the withdrawal witness from the pool tree and
  the association tree, seals the withdrawal to a relayer and has it submitted on a market: relayers
  (\<^verbatim>\<open>relayer/\<close>) bid on adverts, accept a job on chain under a bond and submit the withdrawal;
  a hub keeps bids, assignments and completion scores and reassigns stalled jobs. A publisher
  (\<^verbatim>\<open>publisher/\<close>) collects attested reputation leaves and posts the root of their tree. The services
  keep their state in files written by \<^verbatim>\<open>shared/atomic-file.ts\<close>. The web wallet (\<^verbatim>\<open>frontend/\<close>) scans the
  chain for stealth payments and keeps the user's pool notes.

  \<^bold>\<open>Shared ground.\<close>
  \<^item> \<open>Prelude\<close>: JavaScript errors, strings, numbers, \<open>Map\<close>, \<open>Set\<close> and bytes.
  \<^item> \<open>Effects\<close>: effectful code as programs from a state to a result and a state, with
    weakest preconditions. Awaited calls to code outside the repository are programs over a world
    type variable, so every statement holds for any behaviour of the chain, the clock and the network
    that its hypotheses allow, errors included.
  \<^item> \<open>Json\<close>: printing and parsing of JSON with its round trip.
  \<^item> \<open>Atomic_File\<close>: \<^verbatim>\<open>shared/atomic-file.ts\<close> over a file system in which each call may
    fail and every intermediate state is recorded; writing is atomic at every crash point.
  \<^item> \<open>Rate_Limit\<close>, \<open>Http_Server\<close>: environment settings, token buckets, client
    addresses, requests, responses and limited body reading, shared by the HTTP servers.

  \<^bold>\<open>Relayer.\<close>
  \<^item> \<open>Relayer_Bytes\<close>, \<open>Relayer_Payload\<close>, \<open>Relayer_Messages\<close>, \<open>Relayer_Box\<close>:
    the wire formats (\<^verbatim>\<open>sdk/src/relayer-protocol/bytes.ts\<close>, \<^verbatim>\<open>box.ts\<close>,
    \<^verbatim>\<open>relayer/src/shared/payload.ts\<close>, \<^verbatim>\<open>relayer/src/messages.ts\<close>). Round trips, binding of
    every signed field, verification of what a node signs.
  \<^item> \<open>Relayer_Store\<close>, \<open>Relayer_Queue\<close>: the stores and the durable queue of accepted jobs.
    The queue refines a map specification, stated as a locale of store laws, and survives a crash
    after any operation.
  \<^item> \<open>Relayer_Chain\<close>, \<open>Relayer_Reconciler\<close>: the chain interface and the payout
    reconciler.
  \<^item> \<open>Relayer_Engine\<close> with \<open>Relayer_Engine_Props\<close>, \<open>Relayer_Engine_Trace\<close> and
    \<open>Relayer_Engine_Resume\<close>: bidding, deliveries, retries, idempotency, pruning and recovery of
    \<^verbatim>\<open>relayer/src/engine.ts\<close>. Bids only on sound jobs; intent and acceptance are durable before
    the transaction they announce; a failed delivery keeps its job; recovery accounts for every job.
  \<^item> \<open>Relayer_Hub\<close>, \<open>Relayer_Hub_Props\<close>: \<^verbatim>\<open>relayer/src/hub.ts\<close> as a step relation with
    an invariant over all reachable states, failover, scores and restart.
  \<^item> \<open>Relayer_Http\<close>, \<open>Relayer_Gossip\<close>, \<open>Relayer_Gossip_Props\<close>, \<open>Relayer_Runtime\<close>: the HTTP server of the
    hub with every route, both gossip transports with the event-stream reader, and the start of a node
    (\<^verbatim>\<open>relayer/src/http.ts\<close>, \<^verbatim>\<open>gossip.ts\<close>, \<^verbatim>\<open>runtime.ts\<close>). Every request is answered once; a stream delivers
    every message however its bytes are cut; scores rest on signed outcomes; a node over HTTP never starts.

  \<^bold>\<open>Trees and proofs.\<close>
  \<^item> \<open>Field_Hex\<close>, \<open>Publisher_Bytes\<close>: field elements as hex strings.
  \<^item> \<open>Merkle\<close>: the locale \<open>hash_tree\<close>, against a bottom-up reference tree;
    \<open>Merkle_Trees\<close>: its interpretations for the ASP, publisher and SDK classes, hence their
    equivalence, and the correctness of paths.
  \<^item> \<open>Sdk_Prove\<close>, \<open>Sdk_Prove_Props\<close>: witness building, the withdrawal context, proof
    bytes and the ASP client of \<^verbatim>\<open>sdk/src/prove/\<close> with \<^verbatim>\<open>crypto/notes.ts\<close>. The witness
    satisfies the constraints of the withdrawal circuit, which are restated as the specification.
  \<^item> \<open>Sdk_Stealth\<close>, \<open>Sdk_Stealth_Props\<close>: stealth addresses and scanning
    (\<^verbatim>\<open>sdk/src/crypto/dksap.ts\<close>, \<^verbatim>\<open>scan.ts\<close>) over a curve library as parameter.
    A payment reaches its recipient, and the scan with the viewing key agrees with the full scan.

  \<^bold>\<open>SDK.\<close>
  \<^item> \<open>Sdk_Errors\<close>, \<open>Sdk_Rpc\<close>, \<open>Sdk_Rpc_Props\<close>: the error values, retries, failover between servers and polling.
  \<^item> \<open>Sdk_Events\<close>, \<open>Sdk_Events_Props\<close>, \<open>Sdk_Scan_Props\<close>: event pagination, the announcement stream, the
    scan iterator and the reconstruction of the pool tree. A scan ends, misses no payment, and the tree is exact.
  \<^item> \<open>Sdk_Storage\<close>, \<open>Sdk_Storage_Props\<close>, \<open>Sdk_Codec\<close>, \<open>Sdk_Codec_Props\<close>: the memory, file and encrypted stores
    and the codecs of notes and amounts. The encrypted store never loses a note.
  \<^item> \<open>Sdk_Pool\<close>, \<open>Sdk_Pool_Props\<close>, \<open>Sdk_Payments\<close>, \<open>Sdk_Payments_Props\<close>: deposits, withdrawals and the
    marking of spent notes; payments with their announcements.
  \<^item> \<open>Sdk_Registry\<close>, \<open>Sdk_Gateway\<close>, \<open>Sdk_Gateway_Props\<close>: the relayer registry binding, the client of the
    gateways and the choice of a relayer. What is delivered is what was committed to; bids are backed by stake; a
    request reaches a gateway that answers.
  \<^item> \<open>Sdk_Schema\<close>, \<open>Sdk_Schema_Props\<close>: attestation schemas and their data
    (\<^verbatim>\<open>sdk/src/crypto/schema-codec.ts\<close>). The decoder accepts exactly the well-typed bytes, encoding and
    decoding are inverse, and the identifier binds the schema.
  \<^item> \<open>Sdk_Workers\<close>, \<open>Sdk_Workers_Props\<close>: the pool of proof workers as an event machine that refines an abstract
    job pool; results in job order, progress with every answer.

  \<^bold>\<open>Wallet.\<close>
  \<^item> \<open>Wallet_Cache\<close>, \<open>Wallet_Scan\<close>, \<open>Wallet_Scan_Props\<close>: the announcement cache and the concurrent scan
    (\<^verbatim>\<open>frontend/src/lib/opaqueCache.ts\<close>, \<^verbatim>\<open>frontend/src/hooks/useScanner.ts\<close>). A state holds where each worker
    waits, an event is the settlement of one awaited call. In every reachable state each announcement up to
    the cursor is cached or in a ledger recorded as unscanned.
  \<^item> \<open>Wallet_Notes\<close>, \<open>Wallet_Notes_Props\<close>: the note store and the sweep of a stealth account into the pool
    (\<^verbatim>\<open>frontend/src/store/poolNoteStore.ts\<close>, \<^verbatim>\<open>frontend/src/lib/poolSweep.ts\<close>). An import never reverts a
    spent note, a plan fits the balance, and a sweep stores the opening of every deposit it makes.

  \<^bold>\<open>ASP.\<close>
  \<^item> \<open>Asp_Policy\<close>, \<open>Asp_Publish\<close>, \<open>Asp_Engine\<close> and their property theories:
    policies, continuity guard, association set, manifests, manifest service and the pool tick. The
    locale \<open>pool_store\<close> states what the tick needs of a store; approved lists only grow and the
    posted root is the root of the approved labels.

  \<^bold>\<open>Publisher.\<close>
  \<^item> \<open>Publisher\<close>, \<open>Publisher_Snapshot\<close>, \<open>Publisher_Http\<close> and the property theories
    \<open>Publisher_Props\<close>, \<open>Publisher_Http_Props\<close>: validation, holder signatures, the
    in-memory store, the tick, snapshots and the whole HTTP API. A tick serves exactly the leaves that
    are attested now; a submission is queued only when the tick's own check passes; a snapshot serves
    every path.

  \<^bold>\<open>Modelling decisions.\<close> Strings stand for ASCII strings, numbers are exact rationals where the
  source has doubles, \<open>bigint\<close> is \<open>int\<close>, bytes are 8-bit words. Each service runs one
  request or tick at a time; interleaving at awaits is not modelled except that the outside world may
  change arbitrarily between calls; the worker pool and the wallet scan, where interleaving is the point, are
  event machines with a step per settled call. Recursion is structural or has a measure; the fuel is in the JSON
  parser (the length of the input, which its round trip shows to be enough), in the publisher loop,
  which runs until it is told to stop, in the polling of a transaction (61 rounds, shown to be enough by
  \<open>polling_ends\<close>) and in the reconnecting event stream, which is followed for a number of connections. Dashes in
  error texts are ASCII. Cryptography (Poseidon, Keccak, SHA-256, X25519 boxes, signatures)
  and the Stellar SDK are parameters, with the laws a statement needs as its hypotheses.

  \<^bold>\<open>Not modelled.\<close> The file stores of the publisher and the ASP are partly modelled. The chain adapters,
  loggers and scripts of the services, the configuration, link, backup and reputation services of the SDK, its
  WASM scanner, and the rest of the frontend are left out: they are glue over libraries or presentation. The Rust
  contracts and the circom circuits are in other languages.
\<close>

end
